(* ===== verification/Prelude.thy ===== *)
theory Prelude
  imports Main "HOL-Library.Multiset" "HOL-Library.List_Lexorder" "HOL-Library.Char_ord"
    "HOL-Library.AList" "HOL-Library.Log_Nat"
begin

text \<open>
  Shared vocabulary of the development: how the JavaScript of the tools is read in HOL.
  It holds the result type of code that throws (\<open>invariant\<close>, \<open>bnd\<close>, \<open>map_res\<close>,
  \<open>fold_res\<close>), JavaScript values (\<open>jsval\<close>) and numbers (\<open>is_safe\<close>, \<open>js_round\<close>),
  strings, the stable \<open>Array.prototype.sort\<close> with a comparator, and insertion-ordered
  \<open>Map\<close>s. The lemmas here are the automation the component theories rest on.
\<close>

named_theorems res_simps \<open>success of a computation that may throw, as a conjunction\<close>

section \<open>Computations that may throw\<close>

text \<open>
  A computation that may throw is a value of a sum type, \<open>Inl\<close> the error and \<open>Inr\<close>
  the returned value. \<open>invariant c e k\<close> is the statement \<open>invariant(c, message); k\<close> of the
  sources: every module declares
  \<open>function invariant(condition, message) { if (!condition) throw new Error(message); }\<close>.
\<close>

definition invariant :: "bool \<Rightarrow> 'e \<Rightarrow> 'e + 'a \<Rightarrow> 'e + 'a" where
  "invariant c e k = (if c then k else Inl e)"

definition bnd :: "'e + 'a \<Rightarrow> ('a \<Rightarrow> 'e + 'b) \<Rightarrow> 'e + 'b" where
  "bnd m f = (case m of Inl e \<Rightarrow> Inl e | Inr x \<Rightarrow> f x)"

text \<open>\<open>xs.map(f)\<close> with a callback that may throw: left to right, stops at the first throw.\<close>

fun map_res :: "('a \<Rightarrow> 'e + 'b) \<Rightarrow> 'a list \<Rightarrow> 'e + 'b list" where
  "map_res f [] = Inr []"
| "map_res f (x # xs) = bnd (f x) (\<lambda>y. bnd (map_res f xs) (\<lambda>ys. Inr (y # ys)))"

text \<open>\<open>for (const x of xs) body\<close> over a state, with a body that may throw.\<close>

fun fold_res :: "('a \<Rightarrow> 's \<Rightarrow> 'e + 's) \<Rightarrow> 'a list \<Rightarrow> 's \<Rightarrow> 'e + 's" where
  "fold_res f [] s = Inr s"
| "fold_res f (x # xs) s = bnd (f x s) (fold_res f xs)"

lemma invariant_Inr [res_simps]: "invariant c e k = Inr y \<longleftrightarrow> c \<and> k = Inr y"
  by (simp add: invariant_def)

lemma bnd_Inr [res_simps]: "bnd m f = Inr y \<longleftrightarrow> (\<exists>x. m = Inr x \<and> f x = Inr y)"
  by (cases m) (simp_all add: bnd_def)

lemma bnd_simps [simp]: "bnd (Inl e) f = Inl e" "bnd (Inr x) f = f x"
  by (simp_all add: bnd_def)

lemma invariant_simps [simp]: "invariant True e k = k" "invariant False e k = Inl e"
  by (simp_all add: invariant_def)

lemma invariant_Inl: "invariant c e k = Inl d \<longleftrightarrow> (if c then k = Inl d else e = d)"
  by (simp add: invariant_def)

lemma bnd_Inl: "bnd m f = Inl e \<longleftrightarrow> m = Inl e \<or> (\<exists>x. m = Inr x \<and> f x = Inl e)"
  by (cases m) auto

lemma map_res_Inr:
  "map_res f xs = Inr ys \<longleftrightarrow> length ys = length xs \<and> (\<forall>i < length xs. f (xs ! i) = Inr (ys ! i))"
proof (induction xs arbitrary: ys)
  case Nil
  then show ?case by auto
next
  case (Cons x xs)
  show ?case
  proof (cases ys)
    case Nil
    then show ?thesis by (auto simp: res_simps)
  next
    case (Cons z zs)
    then show ?thesis
      by (auto simp: res_simps Cons.IH nth_Cons split: nat.splits)
  qed
qed

lemma map_res_set: "map_res f xs = Inr ys \<Longrightarrow> y \<in> set ys \<Longrightarrow> \<exists>x \<in> set xs. f x = Inr y"
  by (metis in_set_conv_nth map_res_Inr)

lemma map_res_set': "map_res f xs = Inr ys \<Longrightarrow> x \<in> set xs \<Longrightarrow> \<exists>y \<in> set ys. f x = Inr y"
  by (metis in_set_conv_nth map_res_Inr)

lemma map_res_length: "map_res f xs = Inr ys \<Longrightarrow> length ys = length xs"
  by (simp add: map_res_Inr)

lemma map_res_cong [fundef_cong]:
  "xs = ys \<Longrightarrow> (\<And>x. x \<in> set ys \<Longrightarrow> f x = g x) \<Longrightarrow> map_res f xs = map_res g ys"
proof (induction xs arbitrary: ys)
  case Nil
  then show ?case by simp
next
  case (Cons x xs)
  have "map_res f xs = map_res g xs" by (rule Cons.IH) (use Cons.prems in auto)
  then show ?case using Cons.prems by auto
qed

lemma find_append: "find P (xs @ ys) = (case find P xs of None \<Rightarrow> find P ys | Some x \<Rightarrow> Some x)"
  by (induction xs) auto

lemma map_res_pure: "(\<And>x. x \<in> set xs \<Longrightarrow> f x = Inr (g x)) \<Longrightarrow> map_res f xs = Inr (map g xs)"
  by (induction xs) auto

lemma fold_res_append: "fold_res f (xs @ ys) s = bnd (fold_res f xs s) (fold_res f ys)"
proof (induction xs arbitrary: s)
  case Nil
  then show ?case by simp
next
  case (Cons x xs)
  then show ?case by (cases "f x s") simp_all
qed

text \<open>
  The loop rule: an invariant over the elements already processed and those still to come,
  kept by every body that does not throw.
\<close>

lemma fold_res_rule:
  assumes "fold_res f xs s = Inr t" and "I [] xs s"
    and "\<And>done x todo s s'. xs = done @ x # todo \<Longrightarrow> I done (x # todo) s \<Longrightarrow> f x s = Inr s' \<Longrightarrow>
           I (done @ [x]) todo s'"
  shows "I xs [] t"
proof -
  have "fold_res f ys s = Inr t \<Longrightarrow> xs = zs @ ys \<Longrightarrow> I zs ys s \<Longrightarrow> I xs [] t" for ys zs s
  proof (induction ys arbitrary: zs s)
    case Nil
    then show ?case by simp
  next
    case (Cons y ys)
    from Cons.prems(1) obtain s' where s': "f y s = Inr s'" "fold_res f ys s' = Inr t"
      by (auto simp: res_simps)
    show ?case
      by (rule Cons.IH [OF s'(2), of "zs @ [y]"])
        (use Cons.prems s' assms(3) in auto)
  qed
  from this [of xs s "[]"] show ?thesis using assms(1,2) by simp
qed

text \<open>The same rule for an invariant of the state alone.\<close>

lemma fold_res_invariant:
  assumes "fold_res f xs s = Inr t" and "I s"
    and "\<And>x s s'. x \<in> set xs \<Longrightarrow> I s \<Longrightarrow> f x s = Inr s' \<Longrightarrow> I s'"
  shows "I t"
  using assms by (induction xs arbitrary: s) (auto simp: res_simps)

text \<open>Loops whose body never throws.\<close>

lemma fold_res_pure: "(\<And>x s. f x s = Inr (g x s)) \<Longrightarrow> fold_res f xs s = Inr (fold g xs s)"
  by (induction xs arbitrary: s) auto

section \<open>Strings and comparison\<close>

text \<open>
  Strings are lists of 8-bit characters, ordered lexicographically, which is the order of
  JavaScript's \<open><\<close> on strings of code units below 256. \<open>compareText\<close> is the comparator the
  modules declare (\<open>compareText\<close>, \<open>lexical\<close>).
\<close>

definition compareText :: "string \<Rightarrow> string \<Rightarrow> int" where
  "compareText left right = (if left < right then -1 else if left > right then 1 else 0)"

text \<open>\<open>value.trim() === value && value !== ""\<close>: no white space at either end.\<close>

definition js_space :: "char \<Rightarrow> bool" where
  "js_space c \<longleftrightarrow> of_char c \<in> {9, 10, 11, 12, 13, 32, 160 :: nat}"

definition trimmed :: "string \<Rightarrow> bool" where
  "trimmed s \<longleftrightarrow> s \<noteq> [] \<and> \<not> js_space (hd s) \<and> \<not> js_space (last s)"

text \<open>\<open>String(n)\<close> for an integer, and \<open>padStart(k, "0")\<close>.\<close>

fun nat_str :: "nat \<Rightarrow> string" where
  "nat_str n = (if n < 10 then [char_of (48 + n)] else nat_str (n div 10) @ [char_of (48 + n mod 10)])"

declare nat_str.simps [simp del]

definition int_str :: "int \<Rightarrow> string" where
  "int_str n = (if n < 0 then CHR ''-'' # nat_str (nat (- n)) else nat_str (nat n))"

definition padStart :: "nat \<Rightarrow> string \<Rightarrow> string" where
  "padStart k s = replicate (k - length s) CHR ''0'' @ s"

text \<open>The separator \<open>\u0000\<close> of the composed keys.\<close>

abbreviation nul :: string where
  "nul \<equiv> [CHR 0x00]"

lemma compareText_neg: "compareText a b < 0 \<longleftrightarrow> a < b"
  by (simp add: compareText_def)

lemma compareText_pos: "compareText a b > 0 \<longleftrightarrow> b < a"
  by (auto simp: compareText_def)

lemma compareText_zero: "compareText a b = 0 \<longleftrightarrow> a = b"
  by (auto simp: compareText_def)

lemma compareText_le: "compareText a b \<le> 0 \<longleftrightarrow> a \<le> b"
  by (auto simp: compareText_def)

section \<open>Numbers\<close>

text \<open>
  A JavaScript number is a double. The sources guard their arithmetic with
  \<open>Number.isSafeInteger\<close>; \<open>js_round\<close> is the rounding of an exact integer result to the
  nearest double (ties to even), so \<open>js_add\<close> and \<open>js_mul\<close> are the code's \<open>+\<close> and \<open>*\<close> on
  integers whose results stay below the overflow to infinity.
\<close>

definition is_safe :: "int \<Rightarrow> bool" where
  "is_safe n \<longleftrightarrow> - 9007199254740991 \<le> n \<and> n \<le> 9007199254740991"

definition round_even :: "nat \<Rightarrow> nat \<Rightarrow> nat" where
  "round_even a m = (let q = a div m; r = a mod m in
     if m < 2 * r \<or> (2 * r = m \<and> odd q) then (q + 1) * m else q * m)"

definition js_round :: "int \<Rightarrow> int" where
  "js_round x = (let a = nat \<bar>x\<bar>; e = floorlog 2 a - 53 in
     if e = 0 then x else sgn x * int (round_even a (2 ^ e)))"

definition js_add :: "int \<Rightarrow> int \<Rightarrow> int" where
  "js_add a b = js_round (a + b)"

definition js_sub :: "int \<Rightarrow> int \<Rightarrow> int" where
  "js_sub a b = js_round (a - b)"

definition js_mul :: "int \<Rightarrow> int \<Rightarrow> int" where
  "js_mul a b = js_round (a * b)"

lemma round_even_ge: "(a div m) * m \<le> round_even a m"
  by (simp add: round_even_def Let_def)

lemma js_round_exact:
  assumes "\<bar>x\<bar> < 2 ^ 53"
  shows "js_round x = x"
proof -
  have "nat \<bar>x\<bar> < 2 ^ 53" using assms by (simp add: nat_less_iff)
  then have "floorlog 2 (nat \<bar>x\<bar>) \<le> 53" by (intro floorlog_leI) auto
  then show ?thesis by (simp add: js_round_def)
qed

text \<open>Evaluation takes the short way below \<open>2 ^ 53\<close>.\<close>

lemma js_round_code [code]:
  "js_round x = (if \<bar>x\<bar> < 9007199254740992 then x else
     let a = nat \<bar>x\<bar>; e = floorlog 2 a - 53 in if e = 0 then x else sgn x * int (round_even a (2 ^ e)))"
  by (cases "\<bar>x\<bar> < 2 ^ 53") (simp_all add: js_round_exact, simp add: js_round_def)

lemma js_round_large:
  assumes "2 ^ 53 \<le> \<bar>x\<bar>"
  shows "2 ^ 53 \<le> \<bar>js_round x\<bar>"
proof -
  define a where "a = nat \<bar>x\<bar>"
  define l where "l = floorlog 2 a"
  have a: "2 ^ 53 \<le> a" using assms by (simp add: a_def le_nat_iff)
  then have a0: "0 < a" by (metis gr0I le_zero_eq power_not_zero zero_neq_numeral)
  have bnds: "2 ^ (l - 1) \<le> a" "a < 2 ^ l" using floorlog_bounds [of a 2] a0 by (auto simp: l_def)
  have "(2::nat) ^ 53 < 2 ^ l" using a bnds(2) by (rule le_less_trans)
  then have l: "54 \<le> l" using power_less_imp_less_exp [of "2::nat" 53 l] by simp
  define e where "e = l - 53"
  have e: "l - 1 = 52 + e" "1 \<le> e" using l by (auto simp: e_def)
  have "2 ^ 52 * 2 ^ e \<le> a" using bnds(1) by (simp only: e(1) power_add)
  then have q: "2 ^ 52 \<le> a div 2 ^ e" by (subst less_eq_div_iff_mult_less_eq) simp_all
  have "(2::nat) ^ 1 \<le> 2 ^ e" by (rule power_increasing) (use e in auto)
  then have "2 ^ 52 * 2 \<le> (a div 2 ^ e) * (2::nat) ^ e" using q by (intro mult_le_mono) auto
  then have r: "2 ^ 53 \<le> round_even a (2 ^ e)" using round_even_ge [of a "2 ^ e"] by simp
  have x0: "x \<noteq> 0" using assms by auto
  have "js_round x = sgn x * int (round_even a (2 ^ e))"
    using e(2) l by (simp add: js_round_def Let_def a_def [symmetric] l_def [symmetric] e_def)
  moreover have "sgn x = 1 \<or> sgn x = -1" using x0 by (simp add: sgn_if)
  ultimately have "\<bar>js_round x\<bar> = int (round_even a (2 ^ e))" by auto
  then show ?thesis using r by (metis of_nat_le_iff of_nat_numeral of_nat_power)
qed

text \<open>Rounding never hides an overflow: the rounded value is safe iff the exact one is.\<close>

lemma is_safe_round [simp]: "is_safe (js_round x) \<longleftrightarrow> is_safe x"
proof (cases "\<bar>x\<bar> < 2 ^ 53")
  case True
  then show ?thesis by (simp add: js_round_exact)
next
  case False
  then have x: "2 ^ 53 \<le> \<bar>x\<bar>" by simp
  then have "2 ^ 53 \<le> \<bar>js_round x\<bar>" by (rule js_round_large)
  with x show ?thesis by (auto simp: is_safe_def)
qed

lemma js_round_safe [simp]: "is_safe x \<Longrightarrow> js_round x = x"
  by (rule js_round_exact) (auto simp: is_safe_def)

section \<open>Values of unknown type\<close>

text \<open>
  A value read from JSON or handed in by a caller. \<open>JInt\<close> is a number with an integral value,
  \<open>JNonInt\<close> stands for every other number (a fraction, \<open>NaN\<close>, an infinity): the code rejects
  all of them alike. An object is the list of its own enumerable properties in order.
\<close>

datatype jsval =
    JUndefined
  | JNull
  | JBool bool
  | JInt int
  | JNonInt
  | JString string
  | JArray "jsval list"
  | JObject "(string \<times> jsval) list"

text \<open>\<open>value !== null && typeof value === "object" && !Array.isArray(value)\<close>.\<close>

fun isRecord :: "jsval \<Rightarrow> bool" where
  "isRecord (JObject kvs) = True"
| "isRecord _ = False"

fun object_keys :: "jsval \<Rightarrow> string list" where
  "object_keys (JObject kvs) = map fst kvs"
| "object_keys _ = []"

text \<open>Property access; the modules use it on values they have found to be objects.\<close>

fun jprop :: "jsval \<Rightarrow> string \<Rightarrow> jsval" where
  "jprop (JObject kvs) k = (case map_of kvs k of Some v \<Rightarrow> v | None \<Rightarrow> JUndefined)"
| "jprop _ k = JUndefined"

fun isArray :: "jsval \<Rightarrow> bool" where
  "isArray (JArray vs) = True"
| "isArray _ = False"

fun elements :: "jsval \<Rightarrow> jsval list" where
  "elements (JArray vs) = vs"
| "elements _ = []"

section \<open>Serialised strings\<close>

definition hex_digit :: "nat \<Rightarrow> char" where
  "hex_digit n = (if n < 10 then char_of (48 + n) else char_of (87 + n))"

text \<open>\<open>JSON.stringify\<close> of a string.\<close>

definition json_char :: "char \<Rightarrow> string" where
  "json_char c = (let n = of_char c :: nat in
     if n = 34 then [CHR 0x5C, CHR 0x22] else if n = 92 then [CHR 0x5C, CHR 0x5C]
     else if n = 8 then CHR 0x5C # ''b'' else if n = 12 then CHR 0x5C # ''f'' else if n = 10 then CHR 0x5C # ''n''
     else if n = 13 then CHR 0x5C # ''r'' else if n = 9 then CHR 0x5C # ''t''
     else if n < 32 then CHR 0x5C # ''u00'' @ [hex_digit (n div 16), hex_digit (n mod 16)]
     else [c])"

definition json_string :: "string \<Rightarrow> string" where
  "json_string s = [CHR 0x22] @ concat (map json_char s) @ [CHR 0x22]"

fun join :: "string \<Rightarrow> string list \<Rightarrow> string" where
  "join sep [] = []"
| "join sep [x] = x"
| "join sep (x # xs) = x @ sep @ join sep xs"

section \<open>Stable sorting with a comparator\<close>

text \<open>
  \<open>Array.prototype.sort(compare)\<close> is stable; for a comparator that is consistent (the locale
  \<open>comparator\<close>) its result is determined, and it is the one of insertion sort.
\<close>

fun insert_by :: "('a \<Rightarrow> 'a \<Rightarrow> int) \<Rightarrow> 'a \<Rightarrow> 'a list \<Rightarrow> 'a list" where
  "insert_by c x [] = [x]"
| "insert_by c x (y # ys) = (if c x y \<le> 0 then x # y # ys else y # insert_by c x ys)"

definition sort_by :: "('a \<Rightarrow> 'a \<Rightarrow> int) \<Rightarrow> 'a list \<Rightarrow> 'a list" where
  "sort_by c xs = foldr (insert_by c) xs []"

lemma mset_insert_by [simp]: "mset (insert_by c x xs) = add_mset x (mset xs)"
  by (induction xs) auto

lemma mset_sort_by [simp]: "mset (sort_by c xs) = mset xs"
  by (induction xs) (auto simp: sort_by_def)

lemma set_sort_by [simp]: "set (sort_by c xs) = set xs"
  by (metis mset_sort_by set_mset_mset)

lemma length_sort_by [simp]: "length (sort_by c xs) = length xs"
  by (metis mset_sort_by size_mset)

lemma distinct_sort_by [simp]: "distinct (sort_by c xs) = distinct xs"
  by (metis mset_sort_by mset_eq_imp_distinct_iff)

lemma distinct_map_sort_by [simp]: "distinct (map f (sort_by c xs)) = distinct (map f xs)"
  by (metis mset_map mset_sort_by mset_eq_imp_distinct_iff)

lemma sort_by_Nil [simp]: "sort_by c [] = []"
  by (simp add: sort_by_def)

lemma sort_by_eq_Nil [simp]: "sort_by c xs = [] \<longleftrightarrow> xs = []"
  by (metis length_0_conv length_sort_by)

locale comparator =
  fixes c :: "'a \<Rightarrow> 'a \<Rightarrow> int"
  assumes neg_iff_pos: "c x y < 0 \<longleftrightarrow> 0 < c y x"
    and le_trans: "c x y \<le> 0 \<Longrightarrow> c y z \<le> 0 \<Longrightarrow> c x z \<le> 0"
begin

lemma total: "c x y \<le> 0 \<or> c y x \<le> 0"
  using neg_iff_pos [of x y] neg_iff_pos [of y x] by linarith

lemma not_le: "\<not> c x y \<le> 0 \<longleftrightarrow> c y x < 0"
  using neg_iff_pos [of y x] by linarith

lemma refl: "c x x = 0"
  using neg_iff_pos [of x x] by linarith

lemma less_le_trans: "c x y < 0 \<Longrightarrow> c y z \<le> 0 \<Longrightarrow> c x z < 0"
  by (meson le_trans not_le)

lemma le_less_trans: "c x y \<le> 0 \<Longrightarrow> c y z < 0 \<Longrightarrow> c x z < 0"
  by (meson le_trans not_le)

lemma sorted_insert_by:
  "sorted_wrt (\<lambda>x y. c x y \<le> 0) xs \<Longrightarrow> sorted_wrt (\<lambda>x y. c x y \<le> 0) (insert_by c x xs)"
proof (induction xs)
  case Nil
  then show ?case by simp
next
  case (Cons y ys)
  have s: "set (insert_by c x ys) = insert x (set ys)"
    by (metis mset_insert_by set_mset_mset set_mset_add_mset_insert)
  show ?case using Cons total [of x y] by (auto simp: s intro: le_trans)
qed

lemma sorted_sort_by: "sorted_wrt (\<lambda>x y. c x y \<le> 0) (sort_by c xs)"
  by (induction xs) (auto simp: sort_by_def intro: sorted_insert_by)

end

interpretation text_cmp: comparator compareText
  by unfold_locales (auto simp: compareText_def split: if_splits)

section \<open>Insertion-ordered maps and sets\<close>

text \<open>
  A \<open>Map\<close> is an association list in insertion order: \<open>set\<close> is \<open>AList.update\<close> (an existing
  key keeps its place), \<open>get\<close> is \<open>map_of\<close>, \<open>delete\<close> is \<open>AList.delete\<close>. \<open>map_from\<close> is
  \<open>new Map(entries)\<close>, and \<open>new Set(xs).size\<close> is \<open>length (remdups xs)\<close>.
\<close>

definition map_from :: "('k \<times> 'v) list \<Rightarrow> ('k \<times> 'v) list" where
  "map_from es = fold (\<lambda>(k, v). AList.update k v) es []"

lemma update_new: "k \<notin> fst ` set m \<Longrightarrow> AList.update k v m = m @ [(k, v)]"
  by (induction m) auto

lemma length_update: "length (AList.update k v m) = (if k \<in> fst ` set m then length m else Suc (length m))"
  by (induction m) auto

lemma map_from_snoc: "map_from (es @ [(k, v)]) = AList.update k v (map_from es)"
  by (simp add: map_from_def)

lemma keys_map_from: "fst ` set (map_from es) = fst ` set es"
proof (induction es rule: rev_induct)
  case Nil
  then show ?case by (simp add: map_from_def)
next
  case (snoc e es)
  then show ?case by (cases e) (simp add: map_from_snoc dom_update)
qed

lemma distinct_map_from: "distinct (map fst (map_from es))"
proof (induction es rule: rev_induct)
  case Nil
  then show ?case by (simp add: map_from_def)
next
  case (snoc e es)
  then show ?case by (cases e) (simp add: map_from_snoc distinct_update)
qed

lemma map_from_distinct: "distinct (map fst es) \<Longrightarrow> map_from es = es"
proof (induction es rule: rev_induct)
  case Nil
  then show ?case by (simp add: map_from_def)
next
  case (snoc e es)
  then show ?case by (cases e) (auto simp: map_from_snoc update_new)
qed

text \<open>The test \<open>map.size === list.length\<close> is the test for distinct keys.\<close>

lemma map_from_size: "length (map_from es) = length es \<longleftrightarrow> distinct (map fst es)"
proof -
  have "length (map_from es) = card (fst ` set es)"
    by (metis distinct_card distinct_map_from keys_map_from length_map list.set_map)
  then show ?thesis by (metis card_distinct distinct_card length_map list.set_map)
qed

lemma set_size [simp]: "length (remdups xs) = length xs \<longleftrightarrow> distinct xs"
  by (metis length_remdups_eq remdups_id_iff_distinct)

lemma map_of_in_set: "distinct (map fst m) \<Longrightarrow> (k, v) \<in> set m \<Longrightarrow> map_of m k = Some v"
  by (rule map_of_is_SomeI)

section \<open>Loops that map a list, up to the order of the list\<close>

lemma map_res_mset:
  assumes "map_res f xs = Inr ys" and "mset xs' = mset xs"
  obtains ys' where "map_res f xs' = Inr ys'" "mset ys' = mset ys"
proof -
  have f: "f x = Inr (projr (f x))" if "x \<in> set xs" for x
    using map_res_set' [OF assms(1) that] by force
  have "set xs' = set xs" using assms(2) by (metis set_mset_mset)
  then have "map_res f xs' = Inr (map (\<lambda>x. projr (f x)) xs')" by (intro map_res_pure) (use f in auto)
  moreover have "ys = map (\<lambda>x. projr (f x)) xs"
    using map_res_pure [of xs f "\<lambda>x. projr (f x)"] f assms(1) by fastforce
  ultimately show thesis using that assms(2) by (metis mset_map)
qed

lemma map_res_set_image:
  assumes "map_res f xs = Inr ys" and "set xs' = set xs"
  obtains ys' where "map_res f xs' = Inr ys'" "set ys' = set ys"
proof -
  have f: "f x = Inr (projr (f x))" if "x \<in> set xs" for x
    using map_res_set' [OF assms(1) that] by force
  then have "map_res f xs' = Inr (map (\<lambda>x. projr (f x)) xs')" by (intro map_res_pure) (use assms(2) in auto)
  moreover have "ys = map (\<lambda>x. projr (f x)) xs"
    using map_res_pure [of xs f "\<lambda>x. projr (f x)"] f assms(1) by fastforce
  ultimately show thesis using that assms(2) by (metis set_map)
qed

text \<open>Lists sorted strictly by a key are determined by their elements.\<close>

lemma strictly_sorted_unique:
  fixes f :: "'a \<Rightarrow> 'k::linorder"
  assumes "sorted_wrt (<) (map f xs)" "sorted_wrt (<) (map f ys)" "set xs = set ys"
  shows "xs = ys"
proof (rule map_sorted_distinct_set_unique)
  show "inj_on f (set xs \<union> set ys)"
    using assms by (simp add: strict_sorted_iff distinct_map)
qed (use assms strict_sorted_iff in auto)

text \<open>A sorted list is determined by its elements when the order separates them.\<close>

lemma sorted_wrt_unique:
  "sorted_wrt R xs \<Longrightarrow> sorted_wrt R ys \<Longrightarrow> mset xs = mset ys \<Longrightarrow>
    (\<forall>x \<in> set xs. \<forall>y \<in> set xs. R x y \<longrightarrow> R y x \<longrightarrow> x = y) \<Longrightarrow> xs = ys"
proof (induction xs arbitrary: ys)
  case (Cons x xs)
  have m: "mset ys = add_mset x (mset xs)" using Cons.prems(3) by simp
  then obtain y zs where ys: "ys = y # zs" by (cases ys) auto
  have "x \<in> set ys" "y \<in> set (x # xs)" using m ys by (metis list.set_intros(1) mset.simps(2) set_mset_mset)+
  then have "x = y" using Cons.prems(1,2,4) ys by auto
  then show ?case using Cons.IH [of zs] Cons.prems ys by auto
qed simp

lemma mset_of_subset:
  assumes "distinct xs" "set xs \<subseteq> set ys" "distinct ys" "length xs = length ys"
  shows "mset xs = mset ys"
proof -
  have "card (set xs) = card (set ys)" using assms by (simp add: distinct_card)
  then have "set xs = set ys" using assms(2) by (simp add: card_subset_eq)
  then show ?thesis using assms(1,3) set_eq_iff_mset_eq_distinct by blast
qed


end
