(* ===== verification/MinHeap.thy ===== *)
theory MinHeap
  imports Prelude
begin

text \<open>
  The class \<open>MinHeap\<close> of \<open>tools/region-import/germany/deterministic-track-router.mjs\<close>: a
  binary heap in an array, ordered by a comparator. \<open>heap_push\<close> and \<open>heap_pop\<close> are the two
  methods with their loops \<open>sift_up\<close> and \<open>sift_down\<close>, which move a hole and write the
  value once at the end. The lemmas show that both keep the heap order and the multiset of
  the stored values, and that the first element is minimal. The locale \<open>min_queue\<close> is what a
  client of the queue relies on; the heap operations satisfy it for every consistent
  comparator.
\<close>

section \<open>The heap operations\<close>

datatype heap_error = EmptyQueue

text \<open>The \<open>while\<close> loop of \<open>push(value)\<close> and the final write.\<close>

function sift_up :: "('a \<Rightarrow> 'a \<Rightarrow> int) \<Rightarrow> 'a list \<Rightarrow> 'a \<Rightarrow> nat \<Rightarrow> 'a list" where
  "sift_up compare vs v index =
     (if index = 0 then vs[index := v]
      else let parent = (index - 1) div 2 in
        if compare (vs ! parent) v \<le> 0 then vs[index := v]
        else sift_up compare (vs[index := vs ! parent]) v parent)"
  by pat_completeness auto
termination
  by (relation "measure (\<lambda>(c, vs, v, i). i)") auto

declare sift_up.simps [simp del]

definition heap_push :: "('a \<Rightarrow> 'a \<Rightarrow> int) \<Rightarrow> 'a list \<Rightarrow> 'a \<Rightarrow> 'a list" where
  "heap_push compare vs v = sift_up compare (vs @ [v]) v (length vs)"

text \<open>The \<open>while (true)\<close> loop of \<open>pop()\<close> and the final write.\<close>

definition smaller_child :: "('a \<Rightarrow> 'a \<Rightarrow> int) \<Rightarrow> 'a list \<Rightarrow> nat \<Rightarrow> nat" where
  "smaller_child compare vs left =
     (let right = left + 1 in
      if right < length vs \<and> compare (vs ! right) (vs ! left) < 0 then right else left)"

function sift_down :: "('a \<Rightarrow> 'a \<Rightarrow> int) \<Rightarrow> 'a list \<Rightarrow> 'a \<Rightarrow> nat \<Rightarrow> 'a list" where
  "sift_down compare vs v index =
     (let left = index * 2 + 1 in
      if left \<ge> length vs then vs[index := v]
      else let child = smaller_child compare vs left in
        if compare v (vs ! child) \<le> 0 then vs[index := v]
        else sift_down compare (vs[index := vs ! child]) v child)"
  by pat_completeness auto
termination
  by (relation "measure (\<lambda>(c, vs, v, i). length vs - i)") (auto simp: smaller_child_def Let_def)

declare sift_down.simps [simp del]

text \<open>\<open>peek()\<close> on a queue that is not empty, and \<open>pop()\<close>.\<close>

definition heap_peek :: "'a list \<Rightarrow> 'a" where
  "heap_peek vs = vs ! 0"

definition heap_pop :: "('a \<Rightarrow> 'a \<Rightarrow> int) \<Rightarrow> 'a list \<Rightarrow> heap_error + 'a \<times> 'a list" where
  "heap_pop compare vs =
     invariant (length vs > 0) EmptyQueue
       (let first = vs ! 0; lst = last vs; vs' = butlast vs in
        if length vs' = 0 then Inr (first, vs')
        else Inr (first, sift_down compare vs' lst 0))"

section \<open>Heap order\<close>

abbreviation par :: "nat \<Rightarrow> nat" where
  "par i \<equiv> (i - 1) div 2"

definition is_heap :: "('a \<Rightarrow> 'a \<Rightarrow> int) \<Rightarrow> 'a list \<Rightarrow> bool" where
  "is_heap compare vs \<longleftrightarrow> (\<forall>i < length vs. 0 < i \<longrightarrow> compare (vs ! par i) (vs ! i) \<le> 0)"

lemma par_less: "0 < i \<Longrightarrow> par i < i"
  by auto

lemma sift_up_stop: "i = 0 \<or> c (vs ! par i) v \<le> 0 \<Longrightarrow> sift_up c vs v i = vs[i := v]"
  by (subst sift_up.simps) (auto simp: Let_def)

lemma sift_up_step:
  "\<not> (i = 0 \<or> c (vs ! par i) v \<le> 0) \<Longrightarrow> sift_up c vs v i = sift_up c (vs[i := vs ! par i]) v (par i)"
  by (subst sift_up.simps) (auto simp: Let_def)

lemma sift_down_stop:
  "length vs \<le> i * 2 + 1 \<or> c v (vs ! smaller_child c vs (i * 2 + 1)) \<le> 0 \<Longrightarrow>
   sift_down c vs v i = vs[i := v]"
  by (subst sift_down.simps) (auto simp: Let_def)

lemma sift_down_step:
  "\<not> (length vs \<le> i * 2 + 1 \<or> c v (vs ! smaller_child c vs (i * 2 + 1)) \<le> 0) \<Longrightarrow>
   sift_down c vs v i =
     sift_down c (vs[i := vs ! smaller_child c vs (i * 2 + 1)]) v (smaller_child c vs (i * 2 + 1))"
  by (subst sift_down.simps) (auto simp: Let_def)

lemma smaller_child_range:
  assumes "i * 2 + 1 < length vs"
  shows "smaller_child c vs (i * 2 + 1) < length vs" and "i < smaller_child c vs (i * 2 + 1)"
    and "par (smaller_child c vs (i * 2 + 1)) = i" and "0 < smaller_child c vs (i * 2 + 1)"
  using assms by (auto simp: smaller_child_def Let_def)

text \<open>Induction along the path of the hole, downwards and upwards.\<close>

lemma sift_up_induct:
  assumes "\<And>vs i. (i = 0 \<or> c (vs ! par i) v \<le> 0) \<Longrightarrow> P vs i"
    and "\<And>vs i. \<not> (i = 0 \<or> c (vs ! par i) v \<le> 0) \<Longrightarrow> P (vs[i := vs ! par i]) (par i) \<Longrightarrow> P vs i"
  shows "P vs i"
proof (induction i arbitrary: vs rule: less_induct)
  case (less i)
  show ?case
  proof (cases "i = 0 \<or> c (vs ! par i) v \<le> 0")
    case True
    then show ?thesis by (rule assms(1))
  next
    case False
    then have "par i < i" by auto
    then show ?thesis using assms(2) False less by blast
  qed
qed

lemma sift_down_induct:
  assumes "\<And>vs i. (length vs \<le> i * 2 + 1 \<or> c v (vs ! smaller_child c vs (i * 2 + 1)) \<le> 0) \<Longrightarrow> P vs i"
    and "\<And>vs i. \<not> (length vs \<le> i * 2 + 1 \<or> c v (vs ! smaller_child c vs (i * 2 + 1)) \<le> 0) \<Longrightarrow>
      P (vs[i := vs ! smaller_child c vs (i * 2 + 1)]) (smaller_child c vs (i * 2 + 1)) \<Longrightarrow> P vs i"
  shows "P vs i"
proof (induction "length vs - i" arbitrary: vs i rule: less_induct)
  case less
  let ?ch = "smaller_child c vs (i * 2 + 1)"
  show ?case
  proof (cases "length vs \<le> i * 2 + 1 \<or> c v (vs ! ?ch) \<le> 0")
    case True
    then show ?thesis by (rule assms(1))
  next
    case False
    then have "length (vs[i := vs ! ?ch]) - ?ch < length vs - i"
      using smaller_child_range [of i vs c] by auto
    then have "P (vs[i := vs ! ?ch]) ?ch" by (rule less)
    with False show ?thesis by (rule assms(2))
  qed
qed

lemma length_sift_up [simp]: "length (sift_up c vs v i) = length vs"
  by (induction vs i rule: sift_up_induct [where c = c and v = v])
    (simp_all add: sift_up_stop sift_up_step)

lemma length_sift_down [simp]: "length (sift_down c vs v i) = length vs"
  by (induction vs i rule: sift_down_induct [where c = c and v = v])
    (simp_all add: sift_down_stop sift_down_step del: One_nat_def)

text \<open>Moving the hole from \<open>i\<close> to \<open>j\<close> exchanges two values of the array with the hole filled.\<close>

lemma mset_move_hole:
  assumes "i < length vs" and "j < length vs" and "i \<noteq> j"
  shows "mset (vs[i := vs ! j, j := v]) = mset (vs[i := v])"
proof -
  have "vs[i := vs ! j, j := v] = (vs[i := v])[i := (vs[i := v]) ! j, j := (vs[i := v]) ! i]"
    using assms by simp
  also have "mset \<dots> = mset (vs[i := v])"
    using mset_swap [of j "vs[i := v]" i] assms by simp
  finally show ?thesis .
qed

lemma mset_sift_up: "i < length vs \<Longrightarrow> mset (sift_up c vs v i) = mset (vs[i := v])"
proof (induction vs i rule: sift_up_induct [where c = c and v = v])
  case (1 vs i)
  then show ?case by (simp add: sift_up_stop)
next
  case (2 vs i)
  have "par i < length vs" "i \<noteq> par i" using 2 by auto
  with 2 show ?case by (simp add: sift_up_step mset_move_hole)
qed

lemma mset_sift_down: "i < length vs \<Longrightarrow> mset (sift_down c vs v i) = mset (vs[i := v])"
proof (induction vs i rule: sift_down_induct [where c = c and v = v])
  case (1 vs i)
  then show ?case by (simp add: sift_down_stop)
next
  case (2 vs i)
  let ?ch = "smaller_child c vs (i * 2 + 1)"
  have ch: "?ch < length vs" "i \<noteq> ?ch" using smaller_child_range [of i vs c] 2(1) by auto
  have "mset (sift_down c vs v i) = mset (vs[i := vs ! ?ch, ?ch := v])"
    using 2 ch by (simp add: sift_down_step [of vs i c v, OF 2(1)] del: One_nat_def)
  then show ?case using ch 2(3) mset_move_hole [of i vs ?ch v] by simp
qed

lemma mset_heap_push [simp]: "mset (heap_push c vs v) = add_mset v (mset vs)"
  by (simp add: heap_push_def mset_sift_up)

lemma heap_push_not_Nil [simp]: "heap_push c vs v \<noteq> []"
  by (metis mset_heap_push mset_zero_iff empty_not_add_mset)

lemma heap_pop_ok: "vs \<noteq> [] \<Longrightarrow> \<exists>x vs'. heap_pop c vs = Inr (x, vs')"
  by (simp add: heap_pop_def Let_def)

lemma heap_pop_mset:
  assumes "heap_pop c vs = Inr (x, vs')"
  shows "mset vs = add_mset x (mset vs')" and "x = heap_peek vs"
proof -
  have ne: "vs \<noteq> []" using assms by (auto simp: heap_pop_def res_simps)
  show "x = heap_peek vs"
    using assms ne by (auto simp: heap_pop_def heap_peek_def Let_def split: if_splits)
  show "mset vs = add_mset x (mset vs')"
  proof (cases "butlast vs")
    case Nil
    then obtain y where "vs = [y]" using ne by (metis append_butlast_last_id append_self_conv2)
    then show ?thesis using assms by (simp add: heap_pop_def)
  next
    case (Cons a as)
    then have vs: "vs = a # as @ [last vs]" using ne by (metis append_Cons append_butlast_last_id)
    then have xa: "x = a" and vs': "vs' = sift_down c (a # as) (last vs) 0"
      using assms Cons ne by (simp_all add: heap_pop_def Let_def res_simps) (metis nth_Cons_0)
    have "mset vs' = mset (last vs # as)" by (simp add: vs' mset_sift_down)
    then show ?thesis using arg_cong [OF vs, of mset] xa by simp
  qed
qed

context comparator
begin

lemma sift_up_is_heap:
  "i < length vs \<Longrightarrow>
   (\<forall>j < length vs. 0 < j \<longrightarrow> j \<noteq> i \<longrightarrow> c (vs[i := v] ! par j) (vs[i := v] ! j) \<le> 0) \<Longrightarrow>
   (\<forall>j < length vs. 0 < j \<longrightarrow> par j = i \<longrightarrow> 0 < i \<longrightarrow> c (vs[i := v] ! par i) (vs[i := v] ! j) \<le> 0) \<Longrightarrow>
   is_heap c (sift_up c vs v i)"
proof (induction vs i rule: sift_up_induct [where c = c and v = v])
  case (1 vs i)
  have "is_heap c (vs[i := v])"
    unfolding is_heap_def
  proof (intro allI impI)
    fix j assume "j < length (vs[i := v])" "0 < j"
    then show "c (vs[i := v] ! par j) (vs[i := v] ! j) \<le> 0"
      using 1 by (cases "j = i") auto
  qed
  then show ?case by (simp add: sift_up_stop [of i c vs v, OF 1(1)])
next
  case (2 vs i)
    let ?p = "par i"
    let ?vs' = "vs[i := vs ! ?p]"
    note order = 2(4) and skip = 2(5)
    have p: "?p < i" "?p < length vs" "i \<noteq> 0" using 2(1,3) by auto
    have up: "c v (vs ! ?p) < 0" using 2(1) not_le by blast
    have o: "c (vs ! par j) (vs ! j) \<le> 0" if "j < length vs" "0 < j" "j \<noteq> i" "par j \<noteq> i" for j
      using order that by (metis nth_list_update_neq)
    have k: "c (vs ! ?p) (vs ! j) \<le> 0" if "j < length vs" "0 < j" "par j = i" for j
    proof -
      have "?p \<noteq> i" "j \<noteq> i" "0 < i" using that p by auto
      then show ?thesis using skip that by (metis nth_list_update_neq)
    qed
    have "is_heap c (sift_up c ?vs' v ?p)"
    proof (rule 2(2))
      show "?p < length ?vs'" using p by simp
      show "\<forall>j < length ?vs'. 0 < j \<longrightarrow> j \<noteq> ?p \<longrightarrow> c (?vs'[?p := v] ! par j) (?vs'[?p := v] ! j) \<le> 0"
      proof (intro allI impI)
        fix j assume j: "j < length ?vs'" "0 < j" "j \<noteq> ?p"
        consider "j = i" | "j \<noteq> i" "par j = ?p" | "j \<noteq> i" "par j \<noteq> ?p" "par j = i"
          | "j \<noteq> i" "par j \<noteq> ?p" "par j \<noteq> i" by blast
        then show "c (?vs'[?p := v] ! par j) (?vs'[?p := v] ! j) \<le> 0"
        proof cases
          case 1
          then show ?thesis using up p j by auto
        next
          case 2
          then have "c (vs ! ?p) (vs ! j) \<le> 0" using o [of j] j p by simp
          then have "c v (vs ! j) < 0" using up less_le_trans by blast
          then show ?thesis using 2 j p by auto
        next
          case 3
          then show ?thesis using k [of j] j p 2(3) by auto
        next
          case 4
          then show ?thesis using o [of j] j p by auto
        qed
      qed
      show "\<forall>j < length ?vs'. 0 < j \<longrightarrow> par j = ?p \<longrightarrow> 0 < ?p \<longrightarrow>
          c (?vs'[?p := v] ! par ?p) (?vs'[?p := v] ! j) \<le> 0"
      proof (intro allI impI)
        fix j assume j: "j < length ?vs'" "0 < j" "par j = ?p" "0 < ?p"
        have "par ?p < ?p" using j(4) by (rule par_less)
        then have pp: "par ?p \<noteq> ?p" "par ?p \<noteq> i" using p(1) by linarith+
        have top: "c (vs ! par ?p) (vs ! ?p) \<le> 0"
          using o [OF p(2) j(4)] p(1) pp(2) by (metis less_irrefl)
        have "c (vs ! ?p) (?vs' ! j) \<le> 0"
        proof (cases "j = i")
          case True
          then show ?thesis using refl [of "vs ! ?p"] 2(3) by simp
        next
          case False
          have "par j \<noteq> i" using j(3) p(1) by (metis less_irrefl)
          then have "c (vs ! par j) (vs ! j) \<le> 0" using o [of j] j(1,2) False by simp
          then show ?thesis using False j(3) by simp
        qed
        with top have "c (vs ! par ?p) (?vs' ! j) \<le> 0" by (rule le_trans)
        moreover have "j \<noteq> ?p" using j(3) pp(1) by metis
        ultimately show "c (?vs'[?p := v] ! par ?p) (?vs'[?p := v] ! j) \<le> 0"
          using pp by (metis nth_list_update_neq)
      qed
    qed
    then show ?case by (simp add: sift_up_step [of i c vs v, OF 2(1)])
qed

lemma heap_push_is_heap: "is_heap c vs \<Longrightarrow> is_heap c (heap_push c vs v)"
  unfolding heap_push_def
  by (rule sift_up_is_heap) (auto simp: is_heap_def nth_append nth_list_update)

lemma smaller_child_least:
  assumes "j < length vs" and "0 < j" and "par j = i"
  shows "c (vs ! smaller_child c vs (i * 2 + 1)) (vs ! j) \<le> 0"
proof -
  have "j = i * 2 + 1 \<or> j = i * 2 + 2" using assms by presburger
  then show ?thesis
    using assms refl [of "vs ! j"] not_le [of "vs ! (i * 2 + 1)" "vs ! (i * 2 + 2)"]
      neg_iff_pos [of "vs ! (i * 2 + 2)" "vs ! (i * 2 + 1)"]
    by (auto simp: smaller_child_def Let_def)
qed

lemma sift_down_is_heap:
  "i < length vs \<Longrightarrow>
   (\<forall>j < length vs. 0 < j \<longrightarrow> par j \<noteq> i \<longrightarrow> c (vs[i := v] ! par j) (vs[i := v] ! j) \<le> 0) \<Longrightarrow>
   (\<forall>j < length vs. 0 < j \<longrightarrow> par j = i \<longrightarrow> 0 < i \<longrightarrow> c (vs[i := v] ! par i) (vs[i := v] ! j) \<le> 0) \<Longrightarrow>
   is_heap c (sift_down c vs v i)"
proof (induction vs i rule: sift_down_induct [where c = c and v = v])
  case (1 vs i)
  have "is_heap c (vs[i := v])"
    unfolding is_heap_def
  proof (intro allI impI)
    fix j assume j: "j < length (vs[i := v])" "0 < j"
    show "c (vs[i := v] ! par j) (vs[i := v] ! j) \<le> 0"
    proof (cases "par j = i")
      case True
      then have "i * 2 + 1 < length vs" "j \<noteq> i" using j by auto
      then have "c v (vs ! smaller_child c vs (i * 2 + 1)) \<le> 0" using 1(1) by simp
      then have "c v (vs ! j) \<le> 0"
        using smaller_child_least [of j vs i] j True by (auto intro: le_trans)
      then show ?thesis using True j \<open>j \<noteq> i\<close> 1(2) by simp
    next
      case False
      then show ?thesis using 1 j by auto
    qed
  qed
  then show ?case by (simp add: sift_down_stop [of vs i c v, OF 1(1)])
next
  case (2 vs i)
  let ?ch = "smaller_child c vs (i * 2 + 1)"
  let ?vs' = "vs[i := vs ! ?ch]"
  have ch: "?ch < length vs" "i < ?ch" "par ?ch = i" "0 < ?ch"
    using smaller_child_range [of i vs c] 2(1) by auto
  have down: "c (vs ! ?ch) v < 0" using 2(1) not_le by blast
  have o: "c (vs ! par j) (vs ! j) \<le> 0" if "j < length vs" "0 < j" "j \<noteq> i" "par j \<noteq> i" for j
    using 2(4) that by (metis nth_list_update_neq)
  have k: "c (vs ! par i) (vs ! j) \<le> 0" if "j < length vs" "0 < j" "par j = i" "0 < i" for j
  proof -
    have "par i \<noteq> i" "j \<noteq> i" using that by auto
    then show ?thesis using 2(5) that by (metis nth_list_update_neq)
  qed
  have "is_heap c (sift_down c ?vs' v ?ch)"
  proof (rule 2(2))
    show "?ch < length ?vs'" using ch by simp
    show "\<forall>j < length ?vs'. 0 < j \<longrightarrow> par j \<noteq> ?ch \<longrightarrow> c (?vs'[?ch := v] ! par j) (?vs'[?ch := v] ! j) \<le> 0"
    proof (intro allI impI)
      fix j assume j: "j < length ?vs'" "0 < j" "par j \<noteq> ?ch"
      consider "j = i" | "j \<noteq> i" "par j = i" "j = ?ch" | "j \<noteq> i" "par j = i" "j \<noteq> ?ch"
        | "j \<noteq> i" "par j \<noteq> i" by blast
      then show "c (?vs'[?ch := v] ! par j) (?vs'[?ch := v] ! j) \<le> 0"
      proof cases
        case 1
        then show ?thesis using k [of ?ch] j ch by auto
      next
        case 2
        then show ?thesis using down j ch by auto
      next
        case 3
        then show ?thesis using smaller_child_least [of j vs i] j ch by auto
      next
        case 4
        moreover have "j \<noteq> ?ch" using 4 ch by auto
        ultimately show ?thesis using o [of j] j ch by auto
      qed
    qed
    show "\<forall>j < length ?vs'. 0 < j \<longrightarrow> par j = ?ch \<longrightarrow> 0 < ?ch \<longrightarrow>
        c (?vs'[?ch := v] ! par ?ch) (?vs'[?ch := v] ! j) \<le> 0"
    proof (intro allI impI)
      fix j assume j: "j < length ?vs'" "0 < j" "par j = ?ch" "0 < ?ch"
      then have "j \<noteq> i" "j \<noteq> ?ch" "par j \<noteq> i" using ch by auto
      then show "c (?vs'[?ch := v] ! par ?ch) (?vs'[?ch := v] ! j) \<le> 0"
        using o [of j] j ch by auto
    qed
  qed
  then show ?case by (simp add: sift_down_step [of vs i c v, OF 2(1)])
qed

text \<open>The first element of a heap is minimal.\<close>

lemma heap_first_least: "is_heap c vs \<Longrightarrow> i < length vs \<Longrightarrow> c (vs ! 0) (vs ! i) \<le> 0"
proof (induction i rule: less_induct)
  case (less i)
  show ?case
  proof (cases "i = 0")
    case True
    then show ?thesis by (simp add: refl)
  next
    case False
    then have "par i < i" by auto
    then have "c (vs ! 0) (vs ! par i) \<le> 0" using less by auto
    moreover have "c (vs ! par i) (vs ! i) \<le> 0" using less.prems False by (simp add: is_heap_def)
    ultimately show ?thesis by (rule le_trans)
  qed
qed

lemma heap_peek_least: "is_heap c vs \<Longrightarrow> x \<in> set vs \<Longrightarrow> c (heap_peek vs) x \<le> 0"
  by (metis heap_first_least heap_peek_def in_set_conv_nth)

lemma heap_pop_is_heap:
  assumes "is_heap c vs" and "heap_pop c vs = Inr (x, vs')"
  shows "is_heap c vs'"
proof (cases "butlast vs = []")
  case True
  then show ?thesis using assms(2) by (auto simp: heap_pop_def is_heap_def res_simps)
next
  case False
  then have vs': "vs' = sift_down c (butlast vs) (last vs) 0"
    using assms(2) by (auto simp: heap_pop_def Let_def res_simps)
  show ?thesis
    unfolding vs'
  proof (rule sift_down_is_heap)
    show "0 < length (butlast vs)" using False by blast
  qed (use False assms(1) in \<open>auto simp: is_heap_def nth_butlast\<close>)
qed

end

section \<open>The interface of the queue\<close>

text \<open>
  What a client of the queue relies on: \<open>push\<close> adds exactly the value, \<open>pop\<close> succeeds on a
  queue that is not empty and removes exactly the value it returns, and \<open>peek\<close> is the value
  \<open>pop\<close> returns and no value of the queue is smaller.
\<close>

locale min_queue =
  fixes compare :: "'a \<Rightarrow> 'a \<Rightarrow> int"
    and push :: "'q \<Rightarrow> 'a \<Rightarrow> 'q"
    and pop :: "'q \<Rightarrow> heap_error + 'a \<times> 'q"
    and peek :: "'q \<Rightarrow> 'a"
    and contents :: "'q \<Rightarrow> 'a multiset"
    and ok :: "'q \<Rightarrow> bool"
  assumes push_contents: "contents (push q x) = add_mset x (contents q)"
    and push_ok: "ok q \<Longrightarrow> ok (push q x)"
    and pop_returns: "contents q \<noteq> {#} \<Longrightarrow> \<exists>x q'. pop q = Inr (x, q')"
    and pop_contents: "pop q = Inr (x, q') \<Longrightarrow> contents q = add_mset x (contents q')"
    and pop_peek: "pop q = Inr (x, q') \<Longrightarrow> x = peek q"
    and pop_ok: "ok q \<Longrightarrow> pop q = Inr (x, q') \<Longrightarrow> ok q'"
    and peek_least: "ok q \<Longrightarrow> x \<in># contents q \<Longrightarrow> compare (peek q) x \<le> 0"
begin

lemma pop_least: "ok q \<Longrightarrow> pop q = Inr (x, q') \<Longrightarrow> y \<in># contents q' \<Longrightarrow> compare x y \<le> 0"
  by (metis insert_noteq_member mset_add multi_member_split peek_least pop_contents pop_peek
      union_single_eq_member add_mset_commute)

text \<open>Two pops in a row come in order.\<close>

lemma pop_pop_ordered:
  assumes "ok q" and "pop q = Inr (x, q')" and "pop q' = Inr (y, q'')"
  shows "compare x y \<le> 0"
proof -
  have "y \<in># contents q'" using pop_contents [OF assms(3)] by simp
  then show ?thesis using assms pop_least by blast
qed

end

sublocale comparator < heap: min_queue c "heap_push c" "heap_pop c" heap_peek mset "is_heap c"
proof unfold_locales
  show "heap_pop c q = Inr (x, q') \<Longrightarrow> is_heap c q \<Longrightarrow> is_heap c q'" for q x q'
    by (rule heap_pop_is_heap)
qed (auto simp: heap_pop_mset heap_pop_ok heap_push_is_heap heap_peek_least heap_pop_is_heap dest: heap_pop_mset)

text \<open>
  The least value leaves the heap first: a value popped from a heap built by pushes is no
  greater than any value that stays, and the two together are what was there before.
\<close>

context comparator
begin

lemma heap_pop_spec:
  "is_heap c vs \<Longrightarrow> vs \<noteq> [] \<Longrightarrow>
   \<exists>x vs'. heap_pop c vs = Inr (x, vs') \<and> mset vs = add_mset x (mset vs') \<and>
     (\<forall>y \<in> set vs. c x y \<le> 0) \<and> is_heap c vs'"
  by (metis heap_peek_least heap_pop_is_heap heap_pop_mset heap_pop_ok)

end

end
