(* ===== verification/TrackRouter.thy ===== *)
theory TrackRouter
  imports MinHeap
begin

text \<open>
  The router over the track graph,
  \<open>tools/region-import/germany/deterministic-track-router.mjs\<close>: validation of edges and
  anchors, the adjacency of \<open>createDeterministicTrackRouter\<close>, and the Dijkstra search of
  \<open>route\<close>. Names are those of the source; record fields that several objects share carry a
  prefix. The search loop runs on fuel, one unit per popped state.
\<close>

section \<open>Data\<close>

datatype router_error =
    NotAnObject string
  | UnknownOrMissingFields string
  | NotATrimmedString string
  | NotASafeInteger string
  | NeitherStringNorInteger string
  | EdgesNotIterable
  | MapKeyMismatch
  | EmptyGraph
  | LengthNotPositive string
  | DuplicateEdge string
  | CostOverflow string
  | NoAnchors string
  | UnknownAnchorEdge string
  | AnchorOutsideEdge string
  | BadDirections string
  | Heap heap_error
  | OutOfFuel

datatype direction = Along | Against

definition direction_text :: "direction \<Rightarrow> string" where
  "direction_text d = (case d of Along \<Rightarrow> ''along'' | Against \<Rightarrow> ''against'')"

record edge =
  edgeId :: string
  fromNodeId :: jsval
  toNodeId :: jsval
  fromNodeKey :: string
  toNodeKey :: string
  lengthMm :: int
  routeNumber :: jsval
  routeNumberKey :: "string option"

record leg =
  legEdgeId :: string
  legDirection :: direction
  edgeEntryMm :: int
  edgeExitMm :: int

record anchor =
  anchorEdgeId :: string
  offsetMm :: int
  anchorEdge :: edge
  anchorKey :: string

section \<open>Validation of the input\<close>

definition OFF_TARGET_ROUTE_COST_MULTIPLIER :: int where
  "OFF_TARGET_ROUTE_COST_MULTIPLIER = 8"

definition exactKeys :: "jsval \<Rightarrow> string list \<Rightarrow> string \<Rightarrow> router_error + unit" where
  "exactKeys v expected name =
     invariant (isRecord v) (NotAnObject name)
       (invariant (sort (object_keys v) = sort expected) (UnknownOrMissingFields name) (Inr ()))"

definition nonEmptyString :: "jsval \<Rightarrow> string \<Rightarrow> router_error + string" where
  "nonEmptyString v name =
     (case v of
        JString s \<Rightarrow> invariant (trimmed s) (NotATrimmedString name) (Inr s)
      | _ \<Rightarrow> Inl (NotATrimmedString name))"

definition safeInteger :: "jsval \<Rightarrow> string \<Rightarrow> router_error + int" where
  "safeInteger v name =
     (case v of
        JInt n \<Rightarrow> invariant (is_safe n) (NotASafeInteger name) (Inr n)
      | _ \<Rightarrow> Inl (NotASafeInteger name))"

definition nodeKey :: "jsval \<Rightarrow> string \<Rightarrow> router_error + string" where
  "nodeKey v name =
     (case v of
        JString s \<Rightarrow> bnd (nonEmptyString v name) (\<lambda>t. Inr (''s:'' @ t))
      | JInt n \<Rightarrow> bnd (safeInteger v name) (\<lambda>m. Inr (''n:'' @ int_str m))
      | JNonInt \<Rightarrow> Inl (NotASafeInteger name)
      | _ \<Rightarrow> Inl (NeitherStringNorInteger name))"

text \<open>With \<open>nullable\<close>, \<open>null\<close> stays \<open>null\<close> (\<open>None\<close>).\<close>

definition routeNumberKeyOf :: "bool \<Rightarrow> jsval \<Rightarrow> string \<Rightarrow> router_error + string option" where
  "routeNumberKeyOf nullable v name =
     (case v of
        JString s \<Rightarrow> bnd (nonEmptyString v name) (\<lambda>t. Inr (Some t))
      | JInt n \<Rightarrow> bnd (safeInteger v name) (\<lambda>m. Inr (Some (int_str m)))
      | JNonInt \<Rightarrow> Inl (NotASafeInteger name)
      | JNull \<Rightarrow> if nullable then Inr None else Inl (NeitherStringNorInteger name)
      | _ \<Rightarrow> Inl (NeitherStringNorInteger name))"

text \<open>\<open>left + right\<close> on doubles, refused when the sum is not a safe integer.\<close>

definition checkedAdd :: "int \<Rightarrow> int \<Rightarrow> string \<Rightarrow> router_error + int" where
  "checkedAdd left right name =
     (let sum = js_add left right in invariant (is_safe sum) (CostOverflow name) (Inr sum))"

text \<open>
  The graph comes in as a \<open>Map\<close> of edges by identifier, as another iterable, or as a value
  that is neither. Values are compared with \<open>===\<close>: objects are never identical to a key.
\<close>

datatype edges_input =
    EdgesMap "(jsval \<times> jsval) list"
  | EdgesIterable "jsval list"
  | EdgesOther

fun strict_equal :: "jsval \<Rightarrow> jsval \<Rightarrow> bool" where
  "strict_equal (JString a) (JString b) = (a = b)"
| "strict_equal (JInt a) (JInt b) = (a = b)"
| "strict_equal (JBool a) (JBool b) = (a = b)"
| "strict_equal JNull JNull = True"
| "strict_equal JUndefined JUndefined = True"
| "strict_equal _ _ = False"

abbreviation edge_fields :: "string list" where
  "edge_fields \<equiv> [''edgeId'', ''fromNodeId'', ''toNodeId'', ''lengthMm'', ''routeNumber'']"

definition normalizeEdge :: "jsval \<Rightarrow> router_error + edge" where
  "normalizeEdge v =
     bnd (exactKeys v edge_fields ''edges'') (\<lambda>_.
     bnd (nonEmptyString (jprop v ''edgeId'') ''edgeId'') (\<lambda>i.
     bnd (safeInteger (jprop v ''lengthMm'') ''lengthMm'') (\<lambda>len.
     invariant (len > 0) (LengthNotPositive i)
    (bnd (nodeKey (jprop v ''fromNodeId'') ''fromNodeId'') (\<lambda>fk.
     bnd (nodeKey (jprop v ''toNodeId'') ''toNodeId'') (\<lambda>tk.
     bnd (routeNumberKeyOf True (jprop v ''routeNumber'') ''routeNumber'') (\<lambda>rk.
     Inr \<lparr>edgeId = i, fromNodeId = jprop v ''fromNodeId'', toNodeId = jprop v ''toNodeId'',
           fromNodeKey = fk, toNodeKey = tk, lengthMm = len,
           routeNumber = jprop v ''routeNumber'', routeNumberKey = rk\<rparr>)))))))"

definition edge_records :: "edges_input \<Rightarrow> router_error + jsval list" where
  "edge_records edges =
     (case edges of
        EdgesMap entries \<Rightarrow>
          map_res (\<lambda>(mapKey, v).
            bnd (exactKeys v edge_fields ''Kante'') (\<lambda>_.
            invariant (strict_equal mapKey (jprop v ''edgeId'')) MapKeyMismatch (Inr v))) entries
      | EdgesIterable vs \<Rightarrow> Inr vs
      | EdgesOther \<Rightarrow> Inl EdgesNotIterable)"

text \<open>The scan for equal neighbours in the sorted list.\<close>

fun no_equal_neighbours :: "edge list \<Rightarrow> router_error + unit" where
  "no_equal_neighbours (a # b # es) =
     invariant (edgeId a \<noteq> edgeId b) (DuplicateEdge (edgeId b)) (no_equal_neighbours (b # es))"
| "no_equal_neighbours _ = Inr ()"

definition compareEdge :: "edge \<Rightarrow> edge \<Rightarrow> int" where
  "compareEdge left right = compareText (edgeId left) (edgeId right)"

definition normalizeEdges :: "edges_input \<Rightarrow> router_error + edge list" where
  "normalizeEdges edges =
     bnd (edge_records edges) (\<lambda>records.
     invariant (records \<noteq> []) EmptyGraph
    (bnd (map_res normalizeEdge records) (\<lambda>normalized0.
     let normalized = sort_by compareEdge normalized0 in
     bnd (no_equal_neighbours normalized) (\<lambda>_. Inr normalized))))"

section \<open>Legs\<close>

definition makeLeg :: "edge \<Rightarrow> int \<Rightarrow> int \<Rightarrow> leg option" where
  "makeLeg e entry exit =
     (if entry = exit then None
      else Some \<lparr>legEdgeId = edgeId e, legDirection = (if exit > entry then Along else Against),
                 edgeEntryMm = entry, edgeExitMm = exit\<rparr>)"

definition legToken :: "leg option \<Rightarrow> string" where
  "legToken l =
     (case l of None \<Rightarrow> []
      | Some g \<Rightarrow> legEdgeId g @ nul @ direction_text (legDirection g) @ nul
          @ padStart 16 (int_str (edgeEntryMm g)) @ nul @ padStart 16 (int_str (edgeExitMm g)))"

text \<open>One round of the loop of \<open>mergeLegs\<close> over the list built so far.\<close>

definition mergeLeg :: "leg option \<Rightarrow> leg list \<Rightarrow> leg list" where
  "mergeLeg l merged =
     (case l of None \<Rightarrow> merged
      | Some g \<Rightarrow>
          if merged \<noteq> [] \<and> legEdgeId (last merged) = legEdgeId g
             \<and> legDirection (last merged) = legDirection g \<and> edgeExitMm (last merged) = edgeEntryMm g
          then butlast merged @ [(last merged)\<lparr>edgeExitMm := edgeExitMm g\<rparr>]
          else merged @ [g])"

definition mergeLegs :: "leg option list \<Rightarrow> leg list" where
  "mergeLegs legs = fold mergeLeg legs []"

section \<open>Costs\<close>

text \<open>
  Weighted cost, length off the target line, total length: ordered lexicographically, added
  component by component.
\<close>

datatype cost = Cost (weightedCostMm: int) (offTargetRouteLengthMm: int) (totalLengthMm: int)

definition segmentCost :: "edge \<Rightarrow> int \<Rightarrow> string option \<Rightarrow> router_error + cost" where
  "segmentCost e len targetKey =
     (let matchesTarget = (routeNumberKey e = targetKey) in
      bnd (if matchesTarget then Inr len
           else checkedAdd len (js_mul len (OFF_TARGET_ROUTE_COST_MULTIPLIER - 1)) ''weighted'')
        (\<lambda>weighted. invariant (is_safe weighted) (CostOverflow ''weighted'')
          (Inr (Cost weighted (if matchesTarget then 0 else len) len))))"

definition addCost :: "cost \<Rightarrow> cost \<Rightarrow> router_error + cost" where
  "addCost left right =
     bnd (checkedAdd (weightedCostMm left) (weightedCostMm right) ''weighted'') (\<lambda>w.
     bnd (checkedAdd (offTargetRouteLengthMm left) (offTargetRouteLengthMm right) ''off target'') (\<lambda>f.
     bnd (checkedAdd (totalLengthMm left) (totalLengthMm right) ''length'') (\<lambda>t.
     Inr (Cost w f t))))"

text \<open>Only the sign of the differences is used.\<close>

definition compareCost :: "cost \<Rightarrow> cost \<Rightarrow> int" where
  "compareCost left right =
     (if weightedCostMm left \<noteq> weightedCostMm right then weightedCostMm left - weightedCostMm right
      else if offTargetRouteLengthMm left \<noteq> offTargetRouteLengthMm right
        then offTargetRouteLengthMm left - offTargetRouteLengthMm right
      else if totalLengthMm left \<noteq> totalLengthMm right then totalLengthMm left - totalLengthMm right
      else 0)"

section \<open>Anchors\<close>

definition normalizeAnchor :: "string \<Rightarrow> (string \<times> edge) list \<Rightarrow> jsval \<Rightarrow> router_error + anchor" where
  "normalizeAnchor name edgeById v =
     bnd (exactKeys v [''edgeId'', ''offsetMm''] name) (\<lambda>_.
     bnd (nonEmptyString (jprop v ''edgeId'') name) (\<lambda>i.
     case map_of edgeById i of
       None \<Rightarrow> Inl (UnknownAnchorEdge i)
     | Some e \<Rightarrow>
         bnd (safeInteger (jprop v ''offsetMm'') name) (\<lambda>off.
         invariant (off \<ge> 0 \<and> off \<le> lengthMm e) (AnchorOutsideEdge i)
           (Inr \<lparr>anchorEdgeId = i, offsetMm = off, anchorEdge = e,
                 anchorKey = i @ nul @ padStart 16 (int_str off)\<rparr>))))"

definition compareAnchor :: "anchor \<Rightarrow> anchor \<Rightarrow> int" where
  "compareAnchor left right = compareText (anchorKey left) (anchorKey right)"

text \<open>
  The filter \<open>index === 0 || anchor.key !== normalized[index - 1].key\<close>; the first argument is
  the key of the previous anchor.
\<close>

fun without_repeats :: "string option \<Rightarrow> anchor list \<Rightarrow> anchor list" where
  "without_repeats previous [] = []"
| "without_repeats previous (a # as) =
     (if previous = Some (anchorKey a) then without_repeats (Some (anchorKey a)) as
      else a # without_repeats (Some (anchorKey a)) as)"

definition normalizeAnchors ::
    "jsval \<Rightarrow> string \<Rightarrow> (string \<times> edge) list \<Rightarrow> router_error + anchor list" where
  "normalizeAnchors anchors name edgeById =
     invariant (isArray anchors \<and> elements anchors \<noteq> []) (NoAnchors name)
       (bnd (map_res (normalizeAnchor name edgeById) (elements anchors)) (\<lambda>normalized.
         Inr (without_repeats None (sort_by compareAnchor normalized))))"

section \<open>The adjacency\<close>

record transition =
  trEdge :: edge
  trTo :: string
  trLeg :: "leg option"
  trToken :: string

type_synonym directions = "(string \<times> jsval) list"

definition direction_value :: "direction \<Rightarrow> jsval" where
  "direction_value d = JString (direction_text d)"

text \<open>The check of \<open>allowedDirectionsByEdge\<close>, a \<open>Map\<close> from edges to lists of directions.\<close>

definition checkDirections :: "(string \<times> edge) list \<Rightarrow> directions \<Rightarrow> router_error + unit" where
  "checkDirections edgeById allowed =
     fold_res (\<lambda>(i, ds) _.
       invariant (map_of edgeById i \<noteq> None \<and> isArray ds
           \<and> (\<forall>d \<in> set (elements ds). d = JString ''along'' \<or> d = JString ''against'')
           \<and> length (remdups (elements ds)) = length (elements ds))
         (BadDirections i) (Inr ())) allowed ()"

definition permitted :: "directions \<Rightarrow> leg option \<Rightarrow> bool" where
  "permitted allowed l =
     (case l of None \<Rightarrow> True
      | Some g \<Rightarrow> (case map_of allowed (legEdgeId g) of None \<Rightarrow> True
          | Some ds \<Rightarrow> direction_value (legDirection g) \<in> set (elements ds)))"

type_synonym adjacency = "(string \<times> transition list) list"

definition addTransition ::
    "directions \<Rightarrow> string \<Rightarrow> transition \<Rightarrow> adjacency \<Rightarrow> adjacency" where
  "addTransition allowed node t adj =
     (if \<not> permitted allowed (trLeg t) then adj
      else case map_of adj node of
        None \<Rightarrow> AList.update node [t] adj
      | Some ts \<Rightarrow> AList.update node (ts @ [t]) adj)"

definition alongTransition :: "edge \<Rightarrow> transition" where
  "alongTransition e = \<lparr>trEdge = e, trTo = toNodeKey e, trLeg = makeLeg e 0 (lengthMm e),
     trToken = edgeId e @ nul @ ''along'' @ nul @ toNodeKey e\<rparr>"

definition againstTransition :: "edge \<Rightarrow> transition" where
  "againstTransition e = \<lparr>trEdge = e, trTo = fromNodeKey e, trLeg = makeLeg e (lengthMm e) 0,
     trToken = edgeId e @ nul @ ''against'' @ nul @ fromNodeKey e\<rparr>"

definition addEdge :: "directions \<Rightarrow> edge \<Rightarrow> adjacency \<Rightarrow> adjacency" where
  "addEdge allowed e adj =
     addTransition allowed (toNodeKey e) (againstTransition e)
       (addTransition allowed (fromNodeKey e) (alongTransition e) adj)"

definition compareTransition :: "transition \<Rightarrow> transition \<Rightarrow> int" where
  "compareTransition left right = compareText (trToken left) (trToken right)"

definition buildAdjacency :: "directions \<Rightarrow> edge list \<Rightarrow> adjacency" where
  "buildAdjacency allowed edges =
     map (\<lambda>(node, ts). (node, sort_by compareTransition ts)) (fold (addEdge allowed) edges [])"

record router =
  rtEdges :: "edge list"
  rtEdgeById :: "(string \<times> edge) list"
  rtAllowed :: directions
  rtAdjacency :: adjacency

definition createDeterministicTrackRouter ::
    "edges_input \<Rightarrow> directions \<Rightarrow> router_error + router" where
  "createDeterministicTrackRouter edges allowed =
     bnd (normalizeEdges edges) (\<lambda>normalizedEdges.
     let edgeById = map_from (map (\<lambda>e. (edgeId e, e)) normalizedEdges) in
     bnd (checkDirections edgeById allowed) (\<lambda>_.
     Inr \<lparr>rtEdges = normalizedEdges, rtEdgeById = edgeById, rtAllowed = allowed,
           rtAdjacency = buildAdjacency allowed normalizedEdges\<rparr>))"

section \<open>States and candidates of the search\<close>

text \<open>
  A state is reached by a seed (\<open>previous = None\<close>) or from another state over a leg. The code
  tells states apart by object identity; a state that replaces another at a node is strictly
  smaller in \<open>compareState\<close>, so states of a node that were ever stored are pairwise different
  values, and \<open>=\<close> on values decides the same.
\<close>

datatype rstate = RState
  (stCost: cost) (stNode: string) (stOrigin: anchor) (startLeg: "leg option") (startToken: string)
  (predecessorToken: string) (previous: "(rstate \<times> leg option) option")

record candidate =
  cdCost :: cost
  cdOrigin :: anchor
  cdDestination :: anchor
  terminalKey :: string
  cdLegs :: "leg list"

record suffix =
  sfDestination :: anchor
  sfLeg :: "leg option"
  sfCost :: cost
  sfToken :: string

fun pathLegs :: "rstate \<Rightarrow> leg option list" where
  "pathLegs (RState c n orig sl st pt prev) =
     (case prev of None \<Rightarrow> [sl] | Some (s, l) \<Rightarrow> pathLegs s @ [l])"

text \<open>
  \<open>reconstructLegs\<close>: the walk back over \<open>previous\<close> with the reversal, as the list from the
  start leg on, followed by the leg into the destination.
\<close>

definition reconstructLegs :: "rstate \<Rightarrow> leg option \<Rightarrow> leg list" where
  "reconstructLegs state suffixLeg = mergeLegs (pathLegs state @ [suffixLeg])"

text \<open>The loop over the list of key pairs that decides between equal costs.\<close>

fun firstDifference :: "(string \<times> string) list \<Rightarrow> int" where
  "firstDifference [] = 0"
| "firstDifference ((l, r) # ps) = (let order = compareText l r in if order \<noteq> 0 then order else firstDifference ps)"

definition compareState :: "rstate \<Rightarrow> rstate \<Rightarrow> int" where
  "compareState left right =
     (let costOrder = compareCost (stCost left) (stCost right) in
      if costOrder \<noteq> 0 then costOrder
      else firstDifference
        [(anchorKey (stOrigin left), anchorKey (stOrigin right)),
         (startToken left, startToken right),
         (predecessorToken left, predecessorToken right),
         (stNode left, stNode right)])"

definition compareCandidate :: "candidate \<Rightarrow> candidate \<Rightarrow> int" where
  "compareCandidate left right =
     (let costOrder = compareCost (cdCost left) (cdCost right) in
      if costOrder \<noteq> 0 then costOrder
      else firstDifference
        [(anchorKey (cdOrigin left), anchorKey (cdOrigin right)),
         (anchorKey (cdDestination left), anchorKey (cdDestination right)),
         (terminalKey left, terminalKey right)])"

definition considerCandidate :: "candidate \<Rightarrow> candidate option \<Rightarrow> candidate option" where
  "considerCandidate candidate bestCandidate =
     (case bestCandidate of None \<Rightarrow> Some candidate
      | Some best \<Rightarrow> if compareCandidate candidate best < 0 then Some candidate else bestCandidate)"

section \<open>The query\<close>

text \<open>The two nested loops over the anchors on a common edge.\<close>

definition directCandidate ::
    "router \<Rightarrow> string option \<Rightarrow> anchor \<Rightarrow> anchor \<Rightarrow> candidate option \<Rightarrow> router_error + candidate option" where
  "directCandidate r targetKey origin destination best =
     (if anchorEdgeId origin \<noteq> anchorEdgeId destination then Inr best
      else let l = makeLeg (anchorEdge origin) (offsetMm origin) (offsetMm destination) in
        if \<not> permitted (rtAllowed r) l then Inr best
        else let len = \<bar>offsetMm destination - offsetMm origin\<bar> in
          bnd (segmentCost (anchorEdge origin) len targetKey) (\<lambda>c.
          Inr (considerCandidate \<lparr>cdCost = c, cdOrigin = origin, cdDestination = destination,
            terminalKey = ''direct'' @ nul @ legToken l, cdLegs = mergeLegs [l]\<rparr> best)))"

definition directCandidates ::
    "router \<Rightarrow> string option \<Rightarrow> anchor list \<Rightarrow> anchor list \<Rightarrow> router_error + candidate option" where
  "directCandidates r targetKey origins destinations =
     fold_res (\<lambda>origin. fold_res (directCandidate r targetKey origin) destinations) origins None"

text \<open>\<open>bestByNode\<close> and the heap, and storing a state that improves its node.\<close>

record frontier =
  bestByNode :: "string \<Rightarrow> rstate option"
  heap :: "rstate list"

definition offer :: "rstate \<Rightarrow> frontier \<Rightarrow> frontier" where
  "offer state f =
     (let current = bestByNode f (stNode state) in
      if current = None \<or> compareState state (the current) < 0
      then f\<lparr>bestByNode := (bestByNode f)(stNode state := Some state),
             heap := heap_push compareState (heap f) state\<rparr>
      else f)"

definition leg_length :: "leg option \<Rightarrow> int" where
  "leg_length l = (case l of None \<Rightarrow> 0 | Some g \<Rightarrow> \<bar>edgeExitMm g - edgeEntryMm g\<bar>)"

definition seed ::
    "router \<Rightarrow> string option \<Rightarrow> anchor \<Rightarrow> string \<Rightarrow> leg option \<Rightarrow> frontier \<Rightarrow> router_error + frontier" where
  "seed r targetKey origin node l f =
     (if \<not> permitted (rtAllowed r) l then Inr f
      else bnd (segmentCost (anchorEdge origin) (leg_length l) targetKey) (\<lambda>c.
        Inr (offer (RState c node origin l (legToken l) [] None) f)))"

definition seedOrigin ::
    "router \<Rightarrow> string option \<Rightarrow> anchor \<Rightarrow> frontier \<Rightarrow> router_error + frontier" where
  "seedOrigin r targetKey origin f =
     (let e = anchorEdge origin in
      bnd (seed r targetKey origin (fromNodeKey e) (makeLeg e (offsetMm origin) 0) f)
        (seed r targetKey origin (toNodeKey e) (makeLeg e (offsetMm origin) (lengthMm e))))"

type_synonym arrivals = "(string \<times> suffix list) list"

definition addDestination ::
    "router \<Rightarrow> string option \<Rightarrow> anchor \<Rightarrow> string \<Rightarrow> leg option \<Rightarrow> arrivals \<Rightarrow> router_error + arrivals" where
  "addDestination r targetKey destination node l m =
     (if \<not> permitted (rtAllowed r) l then Inr m
      else bnd (segmentCost (anchorEdge destination) (leg_length l) targetKey) (\<lambda>c.
        let sf = \<lparr>sfDestination = destination, sfLeg = l, sfCost = c, sfToken = legToken l\<rparr> in
        Inr (case map_of m node of
               None \<Rightarrow> AList.update node [sf] m
             | Some sfs \<Rightarrow> AList.update node (sfs @ [sf]) m)))"

definition addDestinations ::
    "router \<Rightarrow> string option \<Rightarrow> anchor \<Rightarrow> arrivals \<Rightarrow> router_error + arrivals" where
  "addDestinations r targetKey destination m =
     (let e = anchorEdge destination in
      bnd (addDestination r targetKey destination (fromNodeKey e) (makeLeg e 0 (offsetMm destination)) m)
        (addDestination r targetKey destination (toNodeKey e) (makeLeg e (lengthMm e) (offsetMm destination))))"

definition compareSuffix :: "suffix \<Rightarrow> suffix \<Rightarrow> int" where
  "compareSuffix left right =
     compareText (anchorKey (sfDestination left) @ nul @ sfToken left)
       (anchorKey (sfDestination right) @ nul @ sfToken right)"

definition destinationByNode ::
    "router \<Rightarrow> string option \<Rightarrow> anchor list \<Rightarrow> router_error + arrivals" where
  "destinationByNode r targetKey destinations =
     bnd (fold_res (addDestinations r targetKey) destinations []) (\<lambda>m.
     Inr (map (\<lambda>(node, sfs). (node, sort_by compareSuffix sfs)) m))"

definition entries_at :: "(string \<times> 'a list) list \<Rightarrow> string \<Rightarrow> 'a list" where
  "entries_at m node = (case map_of m node of None \<Rightarrow> [] | Some xs \<Rightarrow> xs)"

definition arrive :: "rstate \<Rightarrow> suffix \<Rightarrow> candidate option \<Rightarrow> router_error + candidate option" where
  "arrive state sf best =
     bnd (addCost (stCost state) (sfCost sf)) (\<lambda>c.
     Inr (considerCandidate \<lparr>cdCost = c, cdOrigin = stOrigin state, cdDestination = sfDestination sf,
       terminalKey = stNode state @ nul @ sfToken sf, cdLegs = reconstructLegs state (sfLeg sf)\<rparr> best))"

definition relax ::
    "string option \<Rightarrow> string set \<Rightarrow> rstate \<Rightarrow> transition \<Rightarrow> frontier \<Rightarrow> router_error + frontier" where
  "relax targetKey finalized state t f =
     (if trTo t \<in> finalized then Inr f
      else bnd (segmentCost (trEdge t) (lengthMm (trEdge t)) targetKey) (\<lambda>transitionCost.
        bnd (addCost (stCost state) transitionCost) (\<lambda>c.
        Inr (offer (RState c (trTo t) (stOrigin state) (startLeg state) (startToken state)
          (stNode state @ nul @ trToken t) (Some (state, trLeg t))) f))))"

text \<open>The \<open>while (heap.size > 0)\<close> loop.\<close>

fun search ::
    "router \<Rightarrow> string option \<Rightarrow> arrivals \<Rightarrow> nat \<Rightarrow> string set \<Rightarrow> frontier \<Rightarrow> candidate option \<Rightarrow>
     router_error + candidate option" where
  "search r targetKey arrivals 0 finalized f best = Inl OutOfFuel"
| "search r targetKey arrivals (Suc fuel) finalized f best =
     (if heap f = [] then Inr best
      else if best \<noteq> None \<and> compareCost (stCost (heap_peek (heap f))) (cdCost (the best)) > 0 then Inr best
      else case heap_pop compareState (heap f) of
        Inl e \<Rightarrow> Inl (Heap e)
      | Inr (state, heap') \<Rightarrow>
          let f' = f\<lparr>heap := heap'\<rparr> in
          if bestByNode f (stNode state) \<noteq> Some state \<or> stNode state \<in> finalized
          then search r targetKey arrivals fuel finalized f' best
          else let finalized' = insert (stNode state) finalized in
            bnd (fold_res (arrive state) (entries_at arrivals (stNode state)) best) (\<lambda>best'.
            bnd (fold_res (relax targetKey finalized' state)
                (entries_at (rtAdjacency r) (stNode state)) f') (\<lambda>f''.
            search r targetKey arrivals fuel finalized' f'' best')))"

text \<open>
  Every popped state was pushed, as a seed or by a transition, and the transitions of a node
  are relaxed once: seeds, transitions and one round to see the empty heap are enough fuel.
\<close>

definition search_fuel :: "router \<Rightarrow> frontier \<Rightarrow> nat" where
  "search_fuel r f = Suc (length (heap f) + sum_list (map (length \<circ> snd) (rtAdjacency r)))"

record route_result =
  resOrigin :: "string \<times> int"
  resDestination :: "string \<times> int"
  resTarget :: jsval
  resLegs :: "leg list"
  resCost :: cost

definition publicAnchor :: "anchor \<Rightarrow> string \<times> int" where
  "publicAnchor a = (anchorEdgeId a, offsetMm a)"

definition publicResult :: "candidate \<Rightarrow> jsval \<Rightarrow> route_result" where
  "publicResult c targetRouteNumber =
     \<lparr>resOrigin = publicAnchor (cdOrigin c), resDestination = publicAnchor (cdDestination c),
      resTarget = targetRouteNumber, resLegs = cdLegs c, resCost = cdCost c\<rparr>"

definition route ::
    "router \<Rightarrow> jsval \<Rightarrow> jsval \<Rightarrow> jsval \<Rightarrow> router_error + route_result option" where
  "route r origins destinations targetRouteNumber =
     bnd (routeNumberKeyOf False targetRouteNumber ''targetRouteNumber'') (\<lambda>targetKey.
     bnd (normalizeAnchors origins ''origins'' (rtEdgeById r)) (\<lambda>os.
     bnd (normalizeAnchors destinations ''destinations'' (rtEdgeById r)) (\<lambda>ds.
     bnd (directCandidates r targetKey os ds) (\<lambda>best.
     bnd (fold_res (seedOrigin r targetKey) os \<lparr>bestByNode = (\<lambda>_. None), heap = []\<rparr>) (\<lambda>f.
     bnd (destinationByNode r targetKey ds) (\<lambda>arrivals.
     bnd (search r targetKey arrivals (search_fuel r f) {} f best) (\<lambda>best'.
     Inr (map_option (\<lambda>c. publicResult c targetRouteNumber) best'))))))))"

definition routeBetweenTrackAnchors ::
    "edges_input \<Rightarrow> jsval \<Rightarrow> jsval \<Rightarrow> jsval \<Rightarrow> router_error + route_result option" where
  "routeBetweenTrackAnchors edges origins destinations targetRouteNumber =
     bnd (createDeterministicTrackRouter edges []) (\<lambda>r. route r origins destinations targetRouteNumber)"

end
