(* ===== verification/TrackRouterCosts.thy ===== *)
theory TrackRouterCosts
  imports TrackRouter
begin

text \<open>
  Facts about the building blocks of the router: costs as an ordered monoid with the exact cost
  of a segment, the comparators as consistent orders, acceptance of edges and anchors, and what
  the adjacency holds.
\<close>

section \<open>Costs as an ordered monoid\<close>

instantiation cost :: linorder
begin

definition less_eq_cost :: "cost \<Rightarrow> cost \<Rightarrow> bool" where
  "less_eq_cost a b \<longleftrightarrow> compareCost a b \<le> 0"

definition less_cost :: "cost \<Rightarrow> cost \<Rightarrow> bool" where
  "less_cost a b \<longleftrightarrow> compareCost a b < 0"

instance
proof
  fix a b c :: cost
  show "(a < b) = (a \<le> b \<and> \<not> b \<le> a)"
    by (cases a; cases b) (auto simp: less_eq_cost_def less_cost_def compareCost_def)
  show "a \<le> a" by (simp add: less_eq_cost_def compareCost_def)
  show "a \<le> b \<Longrightarrow> b \<le> c \<Longrightarrow> a \<le> c"
    by (cases a; cases b; cases c) (auto simp: less_eq_cost_def compareCost_def split: if_splits)
  show "a \<le> b \<Longrightarrow> b \<le> a \<Longrightarrow> a = b"
    by (cases a; cases b) (auto simp: less_eq_cost_def compareCost_def split: if_splits)
  show "a \<le> b \<or> b \<le> a"
    by (cases a; cases b) (auto simp: less_eq_cost_def compareCost_def split: if_splits)
qed

end

instantiation cost :: comm_monoid_add
begin

definition zero_cost :: cost where
  "zero_cost = Cost 0 0 0"

fun plus_cost :: "cost \<Rightarrow> cost \<Rightarrow> cost" where
  "plus_cost (Cost a b c) (Cost a' b' c') = Cost (a + a') (b + b') (c + c')"

instance
proof
  fix a b c :: cost
  show "a + b + c = a + (b + c)" by (cases a; cases b; cases c) simp
  show "a + b = b + a" by (cases a; cases b) simp
  show "0 + a = a" by (cases a) (simp add: zero_cost_def)
qed

end

instance cost :: ordered_comm_monoid_add
proof
  fix a b c :: cost
  show "a \<le> b \<Longrightarrow> c + a \<le> c + b"
    by (cases a; cases b; cases c) (auto simp: less_eq_cost_def compareCost_def split: if_splits)
qed

lemma compareCost_le: "compareCost a b \<le> 0 \<longleftrightarrow> a \<le> b"
  by (simp add: less_eq_cost_def)

lemma compareCost_less: "compareCost a b < 0 \<longleftrightarrow> a < b"
  by (simp add: less_cost_def)

lemma compareCost_pos: "compareCost a b > 0 \<longleftrightarrow> b < a"
  by (metis compareCost_le linorder_not_le)

lemma compareCost_zero: "compareCost a b = 0 \<longleftrightarrow> a = b"
  by (metis compareCost_less compareCost_pos linorder_neqE_linordered_idom order_less_irrefl linorder_neq_iff)

text \<open>The exact cost of a stretch of length \<open>len\<close> on an edge, for a target line.\<close>

definition seg_cost :: "string option \<Rightarrow> edge \<Rightarrow> int \<Rightarrow> cost" where
  "seg_cost targetKey e len =
     (if routeNumberKey e = targetKey then Cost len 0 len else Cost (8 * len) len len)"

lemma seg_cost_nonneg: "0 \<le> len \<Longrightarrow> 0 \<le> seg_cost k e len"
  by (auto simp: seg_cost_def less_eq_cost_def compareCost_def zero_cost_def)

lemma js_round_nonneg: "0 \<le> x \<Longrightarrow> 0 \<le> js_round x"
  by (auto simp: js_round_def Let_def sgn_if)

lemma checkedAdd_Inr: "checkedAdd a b nm = Inr s \<longleftrightarrow> is_safe (a + b) \<and> s = a + b"
  by (auto simp: checkedAdd_def Let_def js_add_def res_simps)

lemma checkedAdd_rounded:
  assumes "checkedAdd a (js_round b) nm = Inr s" and "0 \<le> a" and "0 \<le> b"
  shows "s = a + b"
proof -
  have s: "is_safe (a + js_round b)" "s = a + js_round b" using assms(1) by (auto simp: checkedAdd_Inr)
  have "\<bar>b\<bar> < 2 ^ 53"
  proof (rule ccontr)
    assume "\<not> \<bar>b\<bar> < 2 ^ 53"
    then have "2 ^ 53 \<le> \<bar>b\<bar>" by simp
    then have "2 ^ 53 \<le> \<bar>js_round b\<bar>" by (rule js_round_large)
    with s(1) assms(2) js_round_nonneg [OF assms(3)] show False by (simp add: is_safe_def)
  qed
  then show ?thesis using s(2) by (simp add: js_round_exact)
qed

lemma segmentCost_exact:
  assumes "segmentCost e len k = Inr c" and "0 \<le> len"
  shows "c = seg_cost k e len"
proof (cases "routeNumberKey e = k")
  case True
  then show ?thesis using assms(1) by (simp add: segmentCost_def seg_cost_def res_simps)
next
  case False
  then obtain w where w: "checkedAdd len (js_round (len * 7)) ''weighted'' = Inr w"
    and c: "c = Cost w len len"
    using assms(1)
    by (auto simp: segmentCost_def res_simps OFF_TARGET_ROUTE_COST_MULTIPLIER_def js_mul_def)
  have "w = len + len * 7" by (rule checkedAdd_rounded [OF w assms(2)]) (use assms(2) in simp)
  then show ?thesis using False c by (simp add: seg_cost_def)
qed

lemma addCost_exact: "addCost a b = Inr c \<Longrightarrow> c = a + b"
  by (cases a; cases b) (auto simp: addCost_def res_simps checkedAdd_Inr)

text \<open>Overflow is the only way a cost is refused.\<close>

lemma addCost_Inl: "addCost a b = Inl e \<Longrightarrow> \<exists>nm. e = CostOverflow nm"
  by (auto simp: addCost_def bnd_Inl checkedAdd_def Let_def invariant_Inl split: if_splits)

lemma segmentCost_Inl: "segmentCost a b k = Inl e \<Longrightarrow> \<exists>nm. e = CostOverflow nm"
  by (auto simp: segmentCost_def bnd_Inl checkedAdd_def Let_def invariant_Inl split: if_splits)

section \<open>The comparators are consistent\<close>

lemma firstDifference_sgn:
  "firstDifference (zip xs ys) < 0 \<longleftrightarrow> 0 < firstDifference (zip ys xs)"
proof (induction xs ys rule: list_induct2')
  case (4 x xs y ys)
  then show ?case by (auto simp: Let_def compareText_def)
qed simp_all

lemma firstDifference_trans:
  "length xs = length ys \<Longrightarrow> length ys = length zs \<Longrightarrow> firstDifference (zip xs ys) \<le> 0 \<Longrightarrow>
   firstDifference (zip ys zs) \<le> 0 \<Longrightarrow> firstDifference (zip xs zs) \<le> 0"
proof (induction xs ys zs rule: list_induct3)
  case (Cons x xs y ys z zs)
  then show ?case by (auto simp: Let_def compareText_def split: if_splits)
qed simp_all

definition state_keys :: "rstate \<Rightarrow> string list" where
  "state_keys s = [anchorKey (stOrigin s), startToken s, predecessorToken s, stNode s]"

lemma compareState_alt:
  "compareState a b =
     (if compareCost (stCost a) (stCost b) \<noteq> 0 then compareCost (stCost a) (stCost b)
      else firstDifference (zip (state_keys a) (state_keys b)))"
  by (simp add: compareState_def Let_def state_keys_def)

interpretation state_cmp: comparator compareState
proof
  fix x y z :: rstate
  show "compareState x y < 0 \<longleftrightarrow> 0 < compareState y x"
    using firstDifference_sgn [of "state_keys x" "state_keys y"]
    by (auto simp: compareState_alt compareCost_zero compareCost_less compareCost_pos)
  assume "compareState x y \<le> 0" and "compareState y z \<le> 0"
  then show "compareState x z \<le> 0"
    using firstDifference_trans [of "state_keys x" "state_keys y" "state_keys z"]
    by (auto simp: compareState_alt compareCost_zero compareCost_le state_keys_def split: if_splits)
qed

lemma compareState_cost: "compareState a b \<le> 0 \<Longrightarrow> stCost a \<le> stCost b"
  by (auto simp: compareState_alt compareCost_zero compareCost_le split: if_splits)

lemma compareCandidate_cost: "compareCandidate a b < 0 \<Longrightarrow> cdCost a \<le> cdCost b"
  by (auto simp: compareCandidate_def Let_def compareCost_zero compareCost_less split: if_splits)

lemma compareCandidate_cost': "\<not> compareCandidate a b < 0 \<Longrightarrow> cdCost b \<le> cdCost a"
  by (auto simp: compareCandidate_def Let_def compareCost_zero compareCost_less split: if_splits)

section \<open>Accepted edges and anchors\<close>

text \<open>What validation establishes for every edge of a router.\<close>

definition wf_edge :: "edge \<Rightarrow> bool" where
  "wf_edge e \<longleftrightarrow> trimmed (edgeId e) \<and> 0 < lengthMm e \<and> is_safe (lengthMm e)"

lemma nonEmptyString_Inr: "nonEmptyString v nm = Inr s \<longleftrightarrow> v = JString s \<and> trimmed s"
  by (auto simp: nonEmptyString_def res_simps split: jsval.splits)

lemma safeInteger_Inr: "safeInteger v nm = Inr n \<longleftrightarrow> v = JInt n \<and> is_safe n"
  by (auto simp: safeInteger_def res_simps split: jsval.splits)

lemma normalizeEdge_wf: "normalizeEdge v = Inr e \<Longrightarrow> wf_edge e"
  by (auto simp: normalizeEdge_def res_simps nonEmptyString_Inr safeInteger_Inr wf_edge_def)

lemma neighbours_distinct:
  "no_equal_neighbours es = Inr u \<Longrightarrow> sorted_wrt (\<lambda>x y. compareEdge x y \<le> 0) es \<Longrightarrow>
   sorted_wrt (<) (map edgeId es)"
proof (induction es rule: no_equal_neighbours.induct)
  case (1 a b es)
  then have "sorted_wrt (<) (map edgeId (b # es))" "edgeId a \<noteq> edgeId b" by (auto simp: res_simps)
  moreover have "edgeId a \<le> edgeId b" using "1.prems"(2) by (simp add: compareEdge_def compareText_le)
  ultimately show ?case by (auto intro: less_trans)
qed auto

interpretation edge_cmp: comparator compareEdge
  by unfold_locales (auto simp: compareEdge_def compareText_def split: if_splits)

lemma normalizeEdges_wf:
  assumes "normalizeEdges edges = Inr es"
  shows "es \<noteq> []" and "sorted_wrt (<) (map edgeId es)" and "\<forall>e \<in> set es. wf_edge e"
proof -
  obtain records normalized u where r: "edge_records edges = Inr records" "records \<noteq> []"
    and n: "map_res normalizeEdge records = Inr normalized"
    and u: "no_equal_neighbours (sort_by compareEdge normalized) = Inr u"
    and es: "es = sort_by compareEdge normalized"
    using assms by (auto simp: normalizeEdges_def res_simps Let_def)
  show "es \<noteq> []" using es map_res_length [OF n] r(2) by auto
  show "sorted_wrt (<) (map edgeId es)"
    using neighbours_distinct [OF u edge_cmp.sorted_sort_by] es by simp
  show "\<forall>e \<in> set es. wf_edge e"
    using es map_res_set [OF n] normalizeEdge_wf by auto
qed

lemma normalizeEdges_distinct: "normalizeEdges edges = Inr es \<Longrightarrow> distinct (map edgeId es)"
  using normalizeEdges_wf(2) strict_sorted_iff by blast

definition wf_anchor :: "(string \<times> edge) list \<Rightarrow> anchor \<Rightarrow> bool" where
  "wf_anchor edgeById a \<longleftrightarrow>
     map_of edgeById (anchorEdgeId a) = Some (anchorEdge a) \<and>
     0 \<le> offsetMm a \<and> offsetMm a \<le> lengthMm (anchorEdge a)"

lemma normalizeAnchor_wf: "normalizeAnchor nm m v = Inr a \<Longrightarrow> wf_anchor m a"
  by (auto simp: normalizeAnchor_def res_simps safeInteger_Inr wf_anchor_def split: option.splits)

lemma set_without_repeats: "set (without_repeats p as) \<subseteq> set as"
  by (induction p as rule: without_repeats.induct) auto

lemma normalizeAnchors_wf:
  assumes "normalizeAnchors v nm m = Inr as" and "a \<in> set as"
  shows "wf_anchor m a"
proof -
  obtain ns where ns: "map_res (normalizeAnchor nm m) (elements v) = Inr ns"
    and as: "as = without_repeats None (sort_by compareAnchor ns)"
    using assms(1) by (auto simp: normalizeAnchors_def res_simps)
  have "a \<in> set ns" using assms(2) as set_without_repeats by fastforce
  then show ?thesis using map_res_set [OF ns] normalizeAnchor_wf by blast
qed

lemma without_repeats_not_Nil: "(case as of [] \<Rightarrow> False | a # _ \<Rightarrow> p \<noteq> Some (anchorKey a)) \<Longrightarrow> without_repeats p as \<noteq> []"
  by (cases as) auto

lemma normalizeAnchors_not_Nil: "normalizeAnchors v nm m = Inr as \<Longrightarrow> as \<noteq> []"
proof -
  assume "normalizeAnchors v nm m = Inr as"
  then obtain ns where ns: "map_res (normalizeAnchor nm m) (elements v) = Inr ns" "elements v \<noteq> []"
    and as: "as = without_repeats None (sort_by compareAnchor ns)"
    by (auto simp: normalizeAnchors_def res_simps)
  then have "sort_by compareAnchor ns \<noteq> []" using map_res_length by fastforce
  then show ?thesis unfolding as by (cases "sort_by compareAnchor ns") auto
qed

section \<open>What the adjacency holds\<close>

lemma transition_simps [simp]:
  "trEdge (alongTransition e) = e" "trTo (alongTransition e) = toNodeKey e"
  "trLeg (alongTransition e) = makeLeg e 0 (lengthMm e)"
  "trEdge (againstTransition e) = e" "trTo (againstTransition e) = fromNodeKey e"
  "trLeg (againstTransition e) = makeLeg e (lengthMm e) 0"
  by (simp_all add: alongTransition_def againstTransition_def)

text \<open>One edge offers the transition along it at its first node and the one against it at its last.\<close>

definition edge_transitions :: "directions \<Rightarrow> edge \<Rightarrow> string \<Rightarrow> transition set" where
  "edge_transitions allowed e node =
     {t. permitted allowed (trLeg t) \<and>
        (t = alongTransition e \<and> node = fromNodeKey e \<or> t = againstTransition e \<and> node = toNodeKey e)}"

lemma entries_addTransition:
  "set (entries_at (addTransition allowed node t adj) n) =
   set (entries_at adj n) \<union> (if n = node \<and> permitted allowed (trLeg t) then {t} else {})"
  by (auto simp: addTransition_def entries_at_def update_conv' split: option.splits)

lemma entries_addEdge:
  "set (entries_at (addEdge allowed e adj) n) = set (entries_at adj n) \<union> edge_transitions allowed e n"
  by (auto simp: addEdge_def entries_addTransition edge_transitions_def)

lemma entries_fold_addEdge:
  "set (entries_at (fold (addEdge allowed) es adj) n) =
   set (entries_at adj n) \<union> (\<Union>e \<in> set es. edge_transitions allowed e n)"
  by (induction es arbitrary: adj) (auto simp: entries_addEdge)

lemma entries_map_values:
  "set (entries_at (map (\<lambda>(node, ts). (node, sort_by cmp ts)) m) n) = set (entries_at m n)"
  by (induction m) (auto simp: entries_at_def)

lemma entries_buildAdjacency:
  "set (entries_at (buildAdjacency allowed es) n) = (\<Union>e \<in> set es. edge_transitions allowed e n)"
  by (simp add: buildAdjacency_def entries_map_values entries_fold_addEdge) (simp add: entries_at_def)

lemma distinct_addEdge:
  "distinct (map fst adj) \<Longrightarrow> distinct (map fst (addEdge allowed e adj))"
  by (auto simp: addEdge_def addTransition_def distinct_update split: option.splits)

lemma distinct_buildAdjacency: "distinct (map fst (buildAdjacency allowed es))"
proof -
  have "distinct (map fst (fold (addEdge allowed) es adj))" if "distinct (map fst adj)" for adj
    using that by (induction es arbitrary: adj) (auto intro: distinct_addEdge)
  moreover have "map fst (map (\<lambda>(node, ts). (node, sort_by compareTransition ts)) m) = map fst m" for m :: adjacency
    by (induction m) auto
  ultimately show ?thesis by (simp only: buildAdjacency_def) simp
qed

end
