(* ===== verification/TrackRouterSearch.thy ===== *)
theory TrackRouterSearch
  imports TrackRouterCosts
begin

text \<open>
  The specification of a cheapest journey through the track graph and the proof that the search
  of the router finds one: the invariant of the Dijkstra loop, the bound every journey keeps
  against it, and the fuel the loop needs.
\<close>

section \<open>Walks and journeys\<close>

text \<open>Leaving an origin towards one end of its edge, entering a destination from one end.\<close>

definition departs :: "anchor \<Rightarrow> string \<Rightarrow> leg option \<Rightarrow> bool" where
  "departs a node l \<longleftrightarrow>
     node = fromNodeKey (anchorEdge a) \<and> l = makeLeg (anchorEdge a) (offsetMm a) 0 \<or>
     node = toNodeKey (anchorEdge a) \<and> l = makeLeg (anchorEdge a) (offsetMm a) (lengthMm (anchorEdge a))"

definition arrives :: "anchor \<Rightarrow> string \<Rightarrow> leg option \<Rightarrow> bool" where
  "arrives a node l \<longleftrightarrow>
     node = fromNodeKey (anchorEdge a) \<and> l = makeLeg (anchorEdge a) 0 (offsetMm a) \<or>
     node = toNodeKey (anchorEdge a) \<and> l = makeLeg (anchorEdge a) (lengthMm (anchorEdge a)) (offsetMm a)"

definition traverses :: "edge \<Rightarrow> string \<Rightarrow> string \<Rightarrow> leg option \<Rightarrow> bool" where
  "traverses e u v l \<longleftrightarrow>
     u = fromNodeKey e \<and> v = toNodeKey e \<and> l = makeLeg e 0 (lengthMm e) \<or>
     u = toNodeKey e \<and> v = fromNodeKey e \<and> l = makeLeg e (lengthMm e) 0"

text \<open>
  \<open>walk es allowed k o node ls c\<close>: from origin \<open>o\<close> to \<open>node\<close> over whole edges of \<open>es\<close>, every
  leg permitted, with exact cost \<open>c\<close> for target line \<open>k\<close>. A \<open>journey\<close> ends at a destination,
  at the end of a walk or directly on the edge of the origin.
\<close>

inductive walk ::
    "edge list \<Rightarrow> directions \<Rightarrow> string option \<Rightarrow> anchor \<Rightarrow> string \<Rightarrow> leg option list \<Rightarrow> cost \<Rightarrow> bool"
  for es allowed k orig where
  depart: "departs orig n l \<Longrightarrow> permitted allowed l \<Longrightarrow>
     walk es allowed k orig n [l] (seg_cost k (anchorEdge orig) (leg_length l))"
| proceed: "walk es allowed k orig u ls c \<Longrightarrow> e \<in> set es \<Longrightarrow> traverses e u v l \<Longrightarrow> permitted allowed l \<Longrightarrow>
     walk es allowed k orig v (ls @ [l]) (c + seg_cost k e (lengthMm e))"

inductive journey ::
    "edge list \<Rightarrow> directions \<Rightarrow> string option \<Rightarrow> anchor \<Rightarrow> anchor \<Rightarrow> leg option list \<Rightarrow> cost \<Rightarrow> bool"
  for es allowed k orig dest where
  on_edge: "anchorEdgeId orig = anchorEdgeId dest \<Longrightarrow>
     l = makeLeg (anchorEdge orig) (offsetMm orig) (offsetMm dest) \<Longrightarrow> permitted allowed l \<Longrightarrow>
     journey es allowed k orig dest [l]
       (seg_cost k (anchorEdge orig) \<bar>offsetMm dest - offsetMm orig\<bar>)"
| through: "walk es allowed k orig v ls c \<Longrightarrow> arrives dest v l \<Longrightarrow> permitted allowed l \<Longrightarrow>
     journey es allowed k orig dest (ls @ [l]) (c + seg_cost k (anchorEdge dest) (leg_length l))"

lemma leg_length_nonneg: "0 \<le> leg_length l"
  by (simp add: leg_length_def split: option.splits)

section \<open>Storing a state\<close>

lemma offer_cases:
  obtains (keep) b where "offer s f = f" "bestByNode f (stNode s) = Some b" "stCost b \<le> stCost s"
  | (replace) "offer s f = f\<lparr>bestByNode := (bestByNode f)(stNode s \<mapsto> s),
                 heap := heap_push compareState (heap f) s\<rparr>"
      "\<And>b. bestByNode f (stNode s) = Some b \<Longrightarrow> stCost s \<le> stCost b"
proof (cases "bestByNode f (stNode s) = None \<or> compareState s (the (bestByNode f (stNode s))) < 0")
  case True
  then have "offer s f = f\<lparr>bestByNode := (bestByNode f)(stNode s \<mapsto> s),
                 heap := heap_push compareState (heap f) s\<rparr>"
    by (simp add: offer_def Let_def)
  moreover have "\<And>b. bestByNode f (stNode s) = Some b \<Longrightarrow> stCost s \<le> stCost b"
    using True compareState_cost by fastforce
  ultimately show thesis by (rule replace)
next
  case False
  then obtain b where b: "bestByNode f (stNode s) = Some b" "\<not> compareState s b < 0" by auto
  then have "compareState b s \<le> 0" using state_cmp.not_le by blast
  then have "stCost b \<le> stCost s" by (rule compareState_cost)
  moreover have "offer s f = f" using b by (simp add: offer_def Let_def)
  ultimately show thesis using keep b by blast
qed

lemma set_heap_push: "set (heap_push c vs v) = insert v (set vs)"
  by (metis mset_heap_push set_mset_add_mset_insert set_mset_mset)

text \<open>Costs stored at a node never rise, and the offered state bounds its own node.\<close>

lemma offer_bound:
  obtains b where "bestByNode (offer s f) (stNode s) = Some b" "stCost b \<le> stCost s"
  by (cases rule: offer_cases [of s f]) auto

lemma offer_lower:
  assumes "bestByNode f v = Some b"
  obtains b' where "bestByNode (offer s f) v = Some b'" "stCost b' \<le> stCost b"
  using assms by (cases rule: offer_cases [of s f]; cases "v = stNode s") auto

lemma offer_other: "v \<noteq> stNode s \<Longrightarrow> bestByNode (offer s f) v = bestByNode f v"
  by (cases rule: offer_cases [of s f]) auto

lemma offer_heap: "set (heap (offer s f)) \<subseteq> insert s (set (heap f))" "set (heap f) \<subseteq> set (heap (offer s f))"
  by (cases rule: offer_cases [of s f]; auto simp: set_heap_push)+

lemma offer_is_heap: "is_heap compareState (heap f) \<Longrightarrow> is_heap compareState (heap (offer s f))"
  by (cases rule: offer_cases [of s f]) (auto intro: state_cmp.heap_push_is_heap)

lemma offer_stored:
  assumes "bestByNode (offer s f) v = Some b"
  shows "bestByNode f v = Some b \<or> b = s \<and> v = stNode s \<and> s \<in> set (heap (offer s f))"
  using assms by (cases rule: offer_cases [of s f]) (auto simp: set_heap_push split: if_splits)

lemma length_offer: "length (heap (offer s f)) \<le> Suc (length (heap f))"
  by (cases rule: offer_cases [of s f]) (auto simp: heap_push_def)

section \<open>The invariant of the frontier\<close>

text \<open>
  A stored state stands for a walk from one of the origins. The frontier invariant for a set of
  settled nodes \<open>fin\<close>: the heap is ordered; stored and queued states are walks; the state of a
  node that is not settled is queued; settled states cost no more than anything queued; every
  departure and every transition out of a settled node is accounted for.
\<close>

definition represents :: "edge list \<Rightarrow> directions \<Rightarrow> string option \<Rightarrow> anchor list \<Rightarrow> rstate \<Rightarrow> bool" where
  "represents es allowed k os s \<longleftrightarrow>
     stOrigin s \<in> set os \<and> walk es allowed k (stOrigin s) (stNode s) (pathLegs s) (stCost s)"

definition frontier_inv ::
    "edge list \<Rightarrow> directions \<Rightarrow> string option \<Rightarrow> anchor list \<Rightarrow> string set \<Rightarrow> frontier \<Rightarrow> bool" where
  "frontier_inv es allowed k os fin f \<longleftrightarrow>
     is_heap compareState (heap f) \<and>
     (\<forall>h \<in> set (heap f). represents es allowed k os h) \<and>
     (\<forall>v b. bestByNode f v = Some b \<longrightarrow>
        stNode b = v \<and> represents es allowed k os b \<and> (v \<notin> fin \<longrightarrow> b \<in> set (heap f))) \<and>
     (\<forall>u \<in> fin. \<exists>b. bestByNode f u = Some b \<and> (\<forall>h \<in> set (heap f). stCost b \<le> stCost h))"

lemma frontier_invI:
  assumes "is_heap compareState (heap f)"
    and "\<And>h. h \<in> set (heap f) \<Longrightarrow> represents es allowed k os h"
    and "\<And>v b. bestByNode f v = Some b \<Longrightarrow>
        stNode b = v \<and> represents es allowed k os b \<and> (v \<notin> fin \<longrightarrow> b \<in> set (heap f))"
    and "\<And>u. u \<in> fin \<Longrightarrow> \<exists>b. bestByNode f u = Some b \<and> (\<forall>h \<in> set (heap f). stCost b \<le> stCost h)"
  shows "frontier_inv es allowed k os fin f"
  unfolding frontier_inv_def using assms by blast

lemma frontier_invD:
  assumes "frontier_inv es allowed k os fin f"
  shows "is_heap compareState (heap f)"
    and "h \<in> set (heap f) \<Longrightarrow> represents es allowed k os h"
    and "bestByNode f v = Some b \<Longrightarrow> stNode b = v"
    and "bestByNode f v = Some b \<Longrightarrow> represents es allowed k os b"
    and "bestByNode f v = Some b \<Longrightarrow> v \<notin> fin \<Longrightarrow> b \<in> set (heap f)"
    and "u \<in> fin \<Longrightarrow> \<exists>b. bestByNode f u = Some b \<and> (\<forall>h \<in> set (heap f). stCost b \<le> stCost h)"
  using assms unfolding frontier_inv_def by blast+

definition bounds_departures ::
    "directions \<Rightarrow> string option \<Rightarrow> anchor set \<Rightarrow> frontier \<Rightarrow> bool" where
  "bounds_departures allowed k os f \<longleftrightarrow>
     (\<forall>a \<in> os. \<forall>n l. departs a n l \<longrightarrow> permitted allowed l \<longrightarrow>
        (\<exists>b. bestByNode f n = Some b \<and> stCost b \<le> seg_cost k (anchorEdge a) (leg_length l)))"

definition bounds_step :: "frontier \<Rightarrow> string \<Rightarrow> cost \<Rightarrow> bool" where
  "bounds_step f v c \<longleftrightarrow> (\<exists>b. bestByNode f v = Some b \<and> stCost b \<le> c)"

definition bounds_transitions ::
    "edge list \<Rightarrow> directions \<Rightarrow> string option \<Rightarrow> string set \<Rightarrow> frontier \<Rightarrow> bool" where
  "bounds_transitions es allowed k fin f \<longleftrightarrow>
     (\<forall>u \<in> fin. \<forall>b. bestByNode f u = Some b \<longrightarrow>
        (\<forall>e \<in> set es. \<forall>v l. traverses e u v l \<longrightarrow> permitted allowed l \<longrightarrow>
           bounds_step f v (stCost b + seg_cost k e (lengthMm e))))"

lemma bounds_step_offer: "bounds_step f v c \<Longrightarrow> bounds_step (offer s f) v c"
  unfolding bounds_step_def by (metis offer_lower order_trans)

lemma bounds_departures_offer:
  "bounds_departures allowed k os f \<Longrightarrow> bounds_departures allowed k os (offer s f)"
  unfolding bounds_departures_def by (metis offer_lower order_trans)

text \<open>Offering a walk to a node that is not settled keeps the invariant.\<close>

lemma frontier_inv_offer:
  assumes "frontier_inv es allowed k os fin f" and "represents es allowed k os s"
    and "stNode s \<notin> fin" and "\<And>u b. u \<in> fin \<Longrightarrow> bestByNode f u = Some b \<Longrightarrow> stCost b \<le> stCost s"
  shows "frontier_inv es allowed k os fin (offer s f)"
proof -
  have settled: "\<exists>b. bestByNode (offer s f) u = Some b \<and> (\<forall>h \<in> set (heap (offer s f)). stCost b \<le> stCost h)"
    if "u \<in> fin" for u
  proof -
    from assms(1) that obtain b where b: "bestByNode f u = Some b" "\<forall>h \<in> set (heap f). stCost b \<le> stCost h"
      by (auto simp: frontier_inv_def)
    moreover have "bestByNode (offer s f) u = Some b" using b(1) that assms(3) offer_other by metis
    ultimately show ?thesis using offer_heap(1) [of s f] assms(4) [OF that] by blast
  qed
  have stored: "stNode b = v \<and> represents es allowed k os b \<and> (v \<notin> fin \<longrightarrow> b \<in> set (heap (offer s f)))"
    if "bestByNode (offer s f) v = Some b" for v b
    using offer_stored [OF that] assms(1,2) offer_heap(2) [of f s] by (auto simp: frontier_inv_def)
  have "\<forall>h \<in> set (heap (offer s f)). represents es allowed k os h"
    using offer_heap(1) [of s f] assms(1,2) by (auto simp: frontier_inv_def)
  moreover have "is_heap compareState (heap (offer s f))"
    using assms(1) offer_is_heap by (simp add: frontier_inv_def)
  ultimately show ?thesis using settled stored unfolding frontier_inv_def by blast
qed

section \<open>Seeding\<close>

text \<open>A router as \<open>createDeterministicTrackRouter\<close> returns it, and anchors on its edges.\<close>

definition wf_router :: "router \<Rightarrow> bool" where
  "wf_router r \<longleftrightarrow>
     (\<forall>e \<in> set (rtEdges r). wf_edge e) \<and> distinct (map edgeId (rtEdges r)) \<and>
     rtEdgeById r = map (\<lambda>e. (edgeId e, e)) (rtEdges r) \<and>
     rtAdjacency r = buildAdjacency (rtAllowed r) (rtEdges r)"

lemma create_wf_router:
  assumes "createDeterministicTrackRouter edges allowed = Inr r"
  shows "wf_router r" and "rtAllowed r = allowed" and "normalizeEdges edges = Inr (rtEdges r)"
proof -
  obtain es where es: "normalizeEdges edges = Inr es"
    and r: "r = \<lparr>rtEdges = es, rtEdgeById = map_from (map (\<lambda>e. (edgeId e, e)) es), rtAllowed = allowed,
      rtAdjacency = buildAdjacency allowed es\<rparr>"
    using assms by (auto simp: createDeterministicTrackRouter_def res_simps Let_def)
  have "distinct (map edgeId es)" by (rule normalizeEdges_distinct [OF es])
  then have "map_from (map (\<lambda>e. (edgeId e, e)) es) = map (\<lambda>e. (edgeId e, e)) es"
    by (intro map_from_distinct) (simp add: o_def)
  then show "wf_router r" "rtAllowed r = allowed" "normalizeEdges edges = Inr (rtEdges r)"
    using r es normalizeEdges_wf(3) [OF es] normalizeEdges_distinct [OF es] by (auto simp: wf_router_def)
qed

lemma wf_anchor_edge:
  assumes "wf_router r" and "wf_anchor (rtEdgeById r) a"
  shows "anchorEdge a \<in> set (rtEdges r)" and "edgeId (anchorEdge a) = anchorEdgeId a"
proof -
  have "(anchorEdgeId a, anchorEdge a) \<in> set (rtEdgeById r)"
    using assms(2) by (auto simp: wf_anchor_def dest: map_of_SomeD)
  then show "anchorEdge a \<in> set (rtEdges r)" "edgeId (anchorEdge a) = anchorEdgeId a"
    using assms(1) by (auto simp: wf_router_def)
qed

lemma seed_frontier:
  assumes "seed r k a n l f = Inr f'" and "departs a n l" and "a \<in> set os"
    and "frontier_inv (rtEdges r) (rtAllowed r) k os {} f"
  shows "frontier_inv (rtEdges r) (rtAllowed r) k os {} f'"
    and "permitted (rtAllowed r) l \<Longrightarrow> bounds_step f' n (seg_cost k (anchorEdge a) (leg_length l))"
    and "bounds_step f v c \<Longrightarrow> bounds_step f' v c"
proof -
  consider "\<not> permitted (rtAllowed r) l" "f' = f"
    | c where "permitted (rtAllowed r) l" "c = seg_cost k (anchorEdge a) (leg_length l)"
        "f' = offer (RState c n a l (legToken l) [] None) f"
    using assms(1) segmentCost_exact leg_length_nonneg
    by (fastforce simp: seed_def res_simps split: if_splits)
  then have "frontier_inv (rtEdges r) (rtAllowed r) k os {} f' \<and>
      (permitted (rtAllowed r) l \<longrightarrow> bounds_step f' n (seg_cost k (anchorEdge a) (leg_length l))) \<and>
      (bounds_step f v c \<longrightarrow> bounds_step f' v c)"
  proof cases
    case 1
    then show ?thesis using assms(4) by simp
  next
    case (2 d)
    let ?s = "RState d n a l (legToken l) [] None"
    have "represents (rtEdges r) (rtAllowed r) k os ?s"
      using assms(2,3) 2 walk.depart by (auto simp: represents_def)
    then have "frontier_inv (rtEdges r) (rtAllowed r) k os {} (offer ?s f)"
      using frontier_inv_offer [OF assms(4)] by simp
    moreover have "bounds_step (offer ?s f) n d"
      using offer_bound [of ?s f] by (auto simp: bounds_step_def)
    ultimately show ?thesis using 2 bounds_step_offer by auto
  qed
  then show "frontier_inv (rtEdges r) (rtAllowed r) k os {} f'"
    and "permitted (rtAllowed r) l \<Longrightarrow> bounds_step f' n (seg_cost k (anchorEdge a) (leg_length l))"
    and "bounds_step f v c \<Longrightarrow> bounds_step f' v c" by blast+
qed

lemma bounds_departures_step:
  "bounds_departures allowed k os f \<longleftrightarrow>
     (\<forall>a \<in> os. \<forall>n l. departs a n l \<longrightarrow> permitted allowed l \<longrightarrow>
        bounds_step f n (seg_cost k (anchorEdge a) (leg_length l)))"
  by (simp add: bounds_departures_def bounds_step_def)

lemma seedOrigin_frontier:
  assumes "seedOrigin r k a f = Inr f'" and "a \<in> set os"
    and "frontier_inv (rtEdges r) (rtAllowed r) k os {} f"
    and "bounds_departures (rtAllowed r) k dn f"
  shows "frontier_inv (rtEdges r) (rtAllowed r) k os {} f' \<and>
    bounds_departures (rtAllowed r) k (insert a dn) f'"
proof -
  let ?e = "anchorEdge a"
  obtain g where g: "seed r k a (fromNodeKey ?e) (makeLeg ?e (offsetMm a) 0) f = Inr g"
    and f': "seed r k a (toNodeKey ?e) (makeLeg ?e (offsetMm a) (lengthMm ?e)) g = Inr f'"
    using assms(1) by (auto simp: seedOrigin_def Let_def res_simps)
  have d: "departs a (fromNodeKey ?e) (makeLeg ?e (offsetMm a) 0)"
    "departs a (toNodeKey ?e) (makeLeg ?e (offsetMm a) (lengthMm ?e))" by (auto simp: departs_def)
  note one = seed_frontier [OF g d(1) assms(2,3)]
  note two = seed_frontier [OF f' d(2) assms(2) one(1)]
  have "bounds_departures (rtAllowed r) k (insert a dn) f'"
    using assms(4) one(2,3) two(2,3) unfolding bounds_departures_step departs_def by blast
  then show ?thesis using two(1) by blast
qed

lemma seeds_frontier:
  assumes "fold_res (seedOrigin r k) os \<lparr>bestByNode = (\<lambda>_. None), heap = []\<rparr> = Inr f"
  shows "frontier_inv (rtEdges r) (rtAllowed r) k os {} f \<and> bounds_departures (rtAllowed r) k (set os) f"
proof -
  have "frontier_inv (rtEdges r) (rtAllowed r) k os {} f \<and>
      bounds_departures (rtAllowed r) k (set os) f \<and> set os \<subseteq> set os"
  proof (rule fold_res_rule [OF assms, where I = "\<lambda>dn _ f.
      frontier_inv (rtEdges r) (rtAllowed r) k os {} f \<and> bounds_departures (rtAllowed r) k (set dn) f
      \<and> set dn \<subseteq> set os"])
    fix dn a td f f'
    assume "os = dn @ a # td" "frontier_inv (rtEdges r) (rtAllowed r) k os {} f \<and>
      bounds_departures (rtAllowed r) k (set dn) f \<and> set dn \<subseteq> set os" "seedOrigin r k a f = Inr f'"
    then show "frontier_inv (rtEdges r) (rtAllowed r) k os {} f' \<and>
        bounds_departures (rtAllowed r) k (set (dn @ [a])) f' \<and> set (dn @ [a]) \<subseteq> set os"
      using seedOrigin_frontier [of r k a f f' os "set dn"] by auto
  qed (auto simp: frontier_inv_def bounds_departures_def is_heap_def)
  then show ?thesis by blast
qed

section \<open>Arrivals\<close>

definition is_suffix :: "router \<Rightarrow> string option \<Rightarrow> anchor \<Rightarrow> string \<Rightarrow> suffix \<Rightarrow> bool" where
  "is_suffix r k d v sf \<longleftrightarrow> arrives d v (sfLeg sf) \<and> permitted (rtAllowed r) (sfLeg sf) \<and>
     sfDestination sf = d \<and> sfCost sf = seg_cost k (anchorEdge d) (leg_length (sfLeg sf)) \<and>
     sfToken sf = legToken (sfLeg sf)"

lemma addDestination_entries:
  assumes "addDestination r k d n l m = Inr m'"
  shows "set (entries_at m' v) = set (entries_at m v) \<union>
    (if v = n \<and> permitted (rtAllowed r) l
     then {\<lparr>sfDestination = d, sfLeg = l, sfCost = seg_cost k (anchorEdge d) (leg_length l), sfToken = legToken l\<rparr>}
     else {})"
proof (cases "permitted (rtAllowed r) l")
  case True
  then obtain c where "segmentCost (anchorEdge d) (leg_length l) k = Inr c"
    and m': "m' = (let sf = \<lparr>sfDestination = d, sfLeg = l, sfCost = c, sfToken = legToken l\<rparr> in
       case map_of m n of None \<Rightarrow> AList.update n [sf] m | Some sfs \<Rightarrow> AList.update n (sfs @ [sf]) m)"
    using assms by (auto simp: addDestination_def res_simps Let_def)
  then have "c = seg_cost k (anchorEdge d) (leg_length l)"
    using segmentCost_exact leg_length_nonneg by blast
  with True m' show ?thesis
    by (cases "map_of m n") (auto simp: entries_at_def update_conv')
next
  case False
  then show ?thesis using assms by (auto simp: addDestination_def)
qed

lemma addDestinations_entries:
  assumes "addDestinations r k d m = Inr m'"
  shows "set (entries_at m' v) = set (entries_at m v) \<union> {sf. is_suffix r k d v sf}"
proof -
  let ?e = "anchorEdge d"
  obtain g where "addDestination r k d (fromNodeKey ?e) (makeLeg ?e 0 (offsetMm d)) m = Inr g"
    and "addDestination r k d (toNodeKey ?e) (makeLeg ?e (lengthMm ?e) (offsetMm d)) g = Inr m'"
    using assms by (auto simp: addDestinations_def Let_def res_simps)
  from this [THEN addDestination_entries, of v] show ?thesis
    by (auto simp: is_suffix_def arrives_def)
qed

lemma destinationByNode_entries:
  assumes "destinationByNode r k ds = Inr m"
  shows "set (entries_at m v) = {sf. \<exists>d \<in> set ds. is_suffix r k d v sf}"
proof -
  obtain m' where m': "fold_res (addDestinations r k) ds [] = Inr m'"
    and m: "m = map (\<lambda>(node, sfs). (node, sort_by compareSuffix sfs)) m'"
    using assms by (auto simp: destinationByNode_def res_simps)
  have "set (entries_at m' v) = {sf. \<exists>d \<in> set ds. is_suffix r k d v sf}"
    by (rule fold_res_rule [OF m', where I = "\<lambda>dn _ m.
          set (entries_at m v) = {sf. \<exists>d \<in> set dn. is_suffix r k d v sf}"])
      (auto simp: addDestinations_entries, simp add: entries_at_def)
  then show ?thesis by (simp add: m entries_map_values)
qed

end
