(* ===== verification/TrackRouterCorrect.thy ===== *)
theory TrackRouterCorrect
  imports TrackRouterSearch
begin

text \<open>
  The router returns a cheapest journey: candidates stand for journeys, the loop keeps the
  frontier invariant and bounds every journey, and the fuel never runs out. The properties of
  the router and what they say of its results are at the end.
\<close>

section \<open>Candidates\<close>

definition good_candidate ::
    "router \<Rightarrow> string option \<Rightarrow> anchor list \<Rightarrow> anchor list \<Rightarrow> candidate \<Rightarrow> bool" where
  "good_candidate r k os ds c \<longleftrightarrow> cdOrigin c \<in> set os \<and> cdDestination c \<in> set ds \<and>
     (\<exists>ls. journey (rtEdges r) (rtAllowed r) k (cdOrigin c) (cdDestination c) ls (cdCost c) \<and>
           cdLegs c = mergeLegs ls)"

definition at_most :: "candidate option \<Rightarrow> cost \<Rightarrow> bool" where
  "at_most best x \<longleftrightarrow> (\<exists>b. best = Some b \<and> cdCost b \<le> x)"

lemma at_most_mono: "at_most best x \<Longrightarrow> x \<le> y \<Longrightarrow> at_most best y"
  by (auto simp: at_most_def intro: order_trans)

lemma consider_new: "at_most (considerCandidate c best) (cdCost c)"
  by (auto simp: considerCandidate_def at_most_def dest: compareCandidate_cost' split: option.splits)

lemma consider_keeps: "at_most best x \<Longrightarrow> at_most (considerCandidate c best) x"
  by (auto simp: considerCandidate_def at_most_def split: option.splits dest: compareCandidate_cost
      intro: order_trans)

lemma consider_either: "considerCandidate c best = Some b \<Longrightarrow> b = c \<or> best = Some b"
  by (auto simp: considerCandidate_def split: option.splits if_splits)

lemma directCandidate_step:
  assumes "directCandidate r k orig dest best = Inr best'" and "orig \<in> set os" and "dest \<in> set ds"
    and "\<And>c. best = Some c \<Longrightarrow> good_candidate r k os ds c"
  shows "(\<forall>c. best' = Some c \<longrightarrow> good_candidate r k os ds c) \<and>
    (\<forall>x. at_most best x \<longrightarrow> at_most best' x) \<and>
    (anchorEdgeId orig = anchorEdgeId dest \<longrightarrow>
      permitted (rtAllowed r) (makeLeg (anchorEdge orig) (offsetMm orig) (offsetMm dest)) \<longrightarrow>
      at_most best' (seg_cost k (anchorEdge orig) \<bar>offsetMm dest - offsetMm orig\<bar>))"
proof (cases "anchorEdgeId orig = anchorEdgeId dest \<and>
    permitted (rtAllowed r) (makeLeg (anchorEdge orig) (offsetMm orig) (offsetMm dest))")
  case True
  let ?l = "makeLeg (anchorEdge orig) (offsetMm orig) (offsetMm dest)"
  obtain c where seg: "segmentCost (anchorEdge orig) \<bar>offsetMm dest - offsetMm orig\<bar> k = Inr c"
    and best': "best' = considerCandidate \<lparr>cdCost = c, cdOrigin = orig, cdDestination = dest,
      terminalKey = ''direct'' @ nul @ legToken ?l, cdLegs = mergeLegs [?l]\<rparr> best"
    using assms(1) True by (auto simp: directCandidate_def Let_def res_simps)
  have c: "c = seg_cost k (anchorEdge orig) \<bar>offsetMm dest - offsetMm orig\<bar>"
    by (rule segmentCost_exact [OF seg]) simp
  have "journey (rtEdges r) (rtAllowed r) k orig dest [?l] c"
    unfolding c by (rule journey.on_edge) (use True in auto)
  then have "good_candidate r k os ds b" if "best' = Some b" for b
    using consider_either that [unfolded best'] assms(2-4) by (fastforce simp: good_candidate_def)
  moreover have "at_most best' c" using consider_new best' by (metis candidate.select_convs(1))
  ultimately show ?thesis using best' consider_keeps c by blast
next
  case False
  then have "best' = best" using assms(1) by (simp add: directCandidate_def Let_def split: if_splits)
  then show ?thesis using False assms(4) by auto
qed

text \<open>A fold that only improves the best candidate; one obligation per element.\<close>

lemma improving_fold:
  assumes "fold_res f xs best = Inr best'"
    and "\<And>c. best = Some c \<Longrightarrow> good c"
    and "\<And>x b b'. x \<in> set xs \<Longrightarrow> f x b = Inr b' \<Longrightarrow> (\<And>c. b = Some c \<Longrightarrow> good c) \<Longrightarrow>
      (\<forall>c. b' = Some c \<longrightarrow> good c) \<and> (\<forall>y. at_most b y \<longrightarrow> at_most b' y) \<and> (\<forall>y. P x y \<longrightarrow> at_most b' y)"
  shows "(\<forall>c. best' = Some c \<longrightarrow> good c) \<and> (\<forall>y. at_most best y \<longrightarrow> at_most best' y) \<and>
    (\<forall>x \<in> set xs. \<forall>y. P x y \<longrightarrow> at_most best' y)"
proof -
  have "(\<forall>c. best' = Some c \<longrightarrow> good c) \<and> (\<forall>y. at_most best y \<longrightarrow> at_most best' y) \<and>
    (\<forall>x \<in> set xs. \<forall>y. P x y \<longrightarrow> at_most best' y) \<and> set xs \<subseteq> set xs"
  proof (rule fold_res_rule [OF assms(1), where I = "\<lambda>dn _ b. (\<forall>c. b = Some c \<longrightarrow> good c) \<and>
      (\<forall>y. at_most best y \<longrightarrow> at_most b y) \<and> (\<forall>x \<in> set dn. \<forall>y. P x y \<longrightarrow> at_most b y) \<and> set dn \<subseteq> set xs"])
    show "(\<forall>c. best = Some c \<longrightarrow> good c) \<and> (\<forall>y. at_most best y \<longrightarrow> at_most best y) \<and>
      (\<forall>x \<in> set []. \<forall>y. P x y \<longrightarrow> at_most best y) \<and> set [] \<subseteq> set xs" using assms(2) by simp
    fix dn x td b b'
    assume xs: "xs = dn @ x # td" and I: "(\<forall>c. b = Some c \<longrightarrow> good c) \<and>
      (\<forall>y. at_most best y \<longrightarrow> at_most b y) \<and> (\<forall>x \<in> set dn. \<forall>y. P x y \<longrightarrow> at_most b y) \<and> set dn \<subseteq> set xs"
      and step: "f x b = Inr b'"
    have "(\<forall>c. b' = Some c \<longrightarrow> good c) \<and> (\<forall>y. at_most b y \<longrightarrow> at_most b' y) \<and> (\<forall>y. P x y \<longrightarrow> at_most b' y)"
      by (rule assms(3) [OF _ step]) (use xs I in auto)
    then show "(\<forall>c. b' = Some c \<longrightarrow> good c) \<and> (\<forall>y. at_most best y \<longrightarrow> at_most b' y) \<and>
      (\<forall>x \<in> set (dn @ [x]). \<forall>y. P x y \<longrightarrow> at_most b' y) \<and> set (dn @ [x]) \<subseteq> set xs"
      using I xs by auto
  qed
  then show ?thesis by blast
qed

definition on_edge_cost :: "router \<Rightarrow> string option \<Rightarrow> anchor \<Rightarrow> anchor \<Rightarrow> cost \<Rightarrow> bool" where
  "on_edge_cost r k orig dest c \<longleftrightarrow> anchorEdgeId orig = anchorEdgeId dest \<and>
     permitted (rtAllowed r) (makeLeg (anchorEdge orig) (offsetMm orig) (offsetMm dest)) \<and>
     c = seg_cost k (anchorEdge orig) \<bar>offsetMm dest - offsetMm orig\<bar>"

lemma directCandidates_spec:
  assumes "directCandidates r k os ds = Inr best"
  shows "(\<forall>c. best = Some c \<longrightarrow> good_candidate r k os ds c) \<and>
    (\<forall>a \<in> set os. \<forall>d \<in> set ds. \<forall>c. on_edge_cost r k a d c \<longrightarrow> at_most best c)"
proof -
  have inner: "(\<forall>c. b' = Some c \<longrightarrow> good_candidate r k os ds c) \<and> (\<forall>y. at_most b y \<longrightarrow> at_most b' y) \<and>
      (\<forall>d \<in> set ds. \<forall>y. on_edge_cost r k a d y \<longrightarrow> at_most b' y)"
    if "a \<in> set os" "fold_res (directCandidate r k a) ds b = Inr b'"
      "\<And>c. b = Some c \<Longrightarrow> good_candidate r k os ds c" for a b b'
  proof (rule improving_fold [OF that(2), where good = "good_candidate r k os ds"
        and P = "\<lambda>d. on_edge_cost r k a d"])
    fix d g g' assume "d \<in> set ds" "directCandidate r k a d g = Inr g'"
      "\<And>c. g = Some c \<Longrightarrow> good_candidate r k os ds c"
    then show "(\<forall>c. g' = Some c \<longrightarrow> good_candidate r k os ds c) \<and> (\<forall>y. at_most g y \<longrightarrow> at_most g' y) \<and>
        (\<forall>y. on_edge_cost r k a d y \<longrightarrow> at_most g' y)"
      using directCandidate_step [of r k a d g g' os ds] that(1) unfolding on_edge_cost_def by blast
  qed (use that in blast)
  have "(\<forall>c. best = Some c \<longrightarrow> good_candidate r k os ds c) \<and> (\<forall>y. at_most None y \<longrightarrow> at_most best y) \<and>
      (\<forall>a \<in> set os. \<forall>y. (\<exists>d \<in> set ds. on_edge_cost r k a d y) \<longrightarrow> at_most best y)"
  proof (rule improving_fold [OF assms [unfolded directCandidates_def], where good = "good_candidate r k os ds"])
    fix a b b' assume "a \<in> set os" "fold_res (directCandidate r k a) ds b = Inr b'"
      "\<And>c. b = Some c \<Longrightarrow> good_candidate r k os ds c"
    from inner [OF this] show "(\<forall>c. b' = Some c \<longrightarrow> good_candidate r k os ds c) \<and>
        (\<forall>y. at_most b y \<longrightarrow> at_most b' y) \<and>
        (\<forall>y. (\<exists>d \<in> set ds. on_edge_cost r k a d y) \<longrightarrow> at_most b' y)" by blast
  qed simp
  then show ?thesis by blast
qed

lemma arrive_fold:
  assumes "fold_res (arrive s) sfs best = Inr best'"
    and "represents (rtEdges r) (rtAllowed r) k os s"
    and "\<And>sf. sf \<in> set sfs \<Longrightarrow> \<exists>d \<in> set ds. is_suffix r k d (stNode s) sf"
    and "\<And>c. best = Some c \<Longrightarrow> good_candidate r k os ds c"
  shows "(\<forall>c. best' = Some c \<longrightarrow> good_candidate r k os ds c) \<and> (\<forall>y. at_most best y \<longrightarrow> at_most best' y) \<and>
    (\<forall>sf \<in> set sfs. \<forall>y. y = stCost s + sfCost sf \<longrightarrow> at_most best' y)"
proof (rule improving_fold [OF assms(1)])
  fix sf b b'
  assume sf: "sf \<in> set sfs" and step: "arrive s sf b = Inr b'" and b: "\<And>c. b = Some c \<Longrightarrow> good_candidate r k os ds c"
  from step obtain c where "addCost (stCost s) (sfCost sf) = Inr c"
    and b': "b' = considerCandidate \<lparr>cdCost = c, cdOrigin = stOrigin s, cdDestination = sfDestination sf,
       terminalKey = stNode s @ nul @ sfToken sf, cdLegs = reconstructLegs s (sfLeg sf)\<rparr> b"
    by (auto simp: arrive_def res_simps)
  then have c: "c = stCost s + sfCost sf" by (simp add: addCost_exact)
  from assms(3) [OF sf] obtain d where d: "d \<in> set ds" "is_suffix r k d (stNode s) sf" by blast
  have "journey (rtEdges r) (rtAllowed r) k (stOrigin s) d (pathLegs s @ [sfLeg sf]) c"
    using journey.through [of _ _ k "stOrigin s" "stNode s" "pathLegs s" "stCost s" d "sfLeg sf"]
      assms(2) d(2) by (simp add: c represents_def is_suffix_def)
  then have "good_candidate r k os ds g" if "b' = Some g" for g
    using consider_either that [unfolded b'] b assms(2) d
    by (fastforce simp: good_candidate_def represents_def is_suffix_def reconstructLegs_def)
  moreover have "at_most b' c" using consider_new b' by (metis candidate.select_convs(1))
  ultimately show "(\<forall>c. b' = Some c \<longrightarrow> good_candidate r k os ds c) \<and> (\<forall>y. at_most b y \<longrightarrow> at_most b' y) \<and>
      (\<forall>y. y = stCost s + sfCost sf \<longrightarrow> at_most b' y)"
    using b' consider_keeps c by blast
qed (use assms(4) in blast)

section \<open>One round of the loop\<close>

lemma edge_step_cost: "wf_router r \<Longrightarrow> e \<in> set (rtEdges r) \<Longrightarrow> c \<le> c + seg_cost k e (lengthMm e)"
  using add_left_mono [OF seg_cost_nonneg [of "lengthMm e" k e], of c]
  by (auto simp: wf_router_def wf_edge_def)

text \<open>Every walk is settled within its cost, or something queued costs no more.\<close>

lemma walk_bound:
  assumes "walk (rtEdges r) (rtAllowed r) k a v ls c" and "wf_router r" and "a \<in> set os"
    and inv: "frontier_inv (rtEdges r) (rtAllowed r) k os fin f"
    and dep: "bounds_departures (rtAllowed r) k (set os) f"
    and tr: "bounds_transitions (rtEdges r) (rtAllowed r) k fin f"
  shows "(v \<in> fin \<and> bounds_step f v c) \<or> (\<exists>h \<in> set (heap f). stCost h \<le> c)"
proof -
  have step: "(v \<in> fin \<and> bounds_step f v c) \<or> (\<exists>h \<in> set (heap f). stCost h \<le> c)"
    if "bounds_step f v c" for v c
    using that inv by (auto simp: bounds_step_def frontier_inv_def)
  show ?thesis
    using assms(1)
  proof (induction rule: walk.induct)
    case (depart n l)
    then show ?case using dep assms(3) step by (auto simp: bounds_departures_step)
  next
    case (proceed u ls c e v l)
    from proceed.IH show ?case
    proof
      assume "u \<in> fin \<and> bounds_step f u c"
      then obtain b where b: "u \<in> fin" "bestByNode f u = Some b" "stCost b \<le> c"
        by (auto simp: bounds_step_def)
      then have "bounds_step f v (stCost b + seg_cost k e (lengthMm e))"
        using tr proceed.hyps unfolding bounds_transitions_def by blast
      moreover have "stCost b + seg_cost k e (lengthMm e) \<le> c + seg_cost k e (lengthMm e)"
        using b(3) by (rule add_right_mono)
      ultimately have "bounds_step f v (c + seg_cost k e (lengthMm e))"
        unfolding bounds_step_def by (meson order_trans)
      then show ?thesis by (rule step)
    next
      assume "\<exists>h \<in> set (heap f). stCost h \<le> c"
      then show ?thesis
        using edge_step_cost [OF assms(2) proceed.hyps(2)] by (meson order_trans)
    qed
  qed
qed

text \<open>Taking a stale state off the queue.\<close>

lemma heap_pop_set:
  assumes "heap_pop c vs = Inr (x, vs')"
  shows "set vs = insert x (set vs')"
  by (metis heap_pop_mset(1) [OF assms] set_mset_add_mset_insert set_mset_mset)

lemma pop_stale:
  assumes "frontier_inv es allowed k os fin f" and "heap_pop compareState (heap f) = Inr (s, h')"
    and "bestByNode f (stNode s) \<noteq> Some s \<or> stNode s \<in> fin"
  shows "frontier_inv es allowed k os fin (f\<lparr>heap := h'\<rparr>)"
proof (rule frontier_invI)
  note inv = frontier_invD [OF assms(1)]
  have hs: "set (heap f) = insert s (set h')" by (rule heap_pop_set [OF assms(2)])
  show "is_heap compareState (heap (f\<lparr>heap := h'\<rparr>))"
    using state_cmp.heap_pop_is_heap [OF inv(1) assms(2)] by simp
  show "represents es allowed k os h" if "h \<in> set (heap (f\<lparr>heap := h'\<rparr>))" for h
    using that inv(2) hs by simp
  show "stNode b = v \<and> represents es allowed k os b \<and> (v \<notin> fin \<longrightarrow> b \<in> set (heap (f\<lparr>heap := h'\<rparr>)))"
    if "bestByNode (f\<lparr>heap := h'\<rparr>) v = Some b" for v b
  proof -
    have b: "bestByNode f v = Some b" using that by simp
    have "b \<noteq> s" if "v \<notin> fin" using assms(3) inv(3) [OF b] b that by auto
    then show ?thesis using inv(3-5) [OF b] hs by auto
  qed
  show "\<exists>b. bestByNode (f\<lparr>heap := h'\<rparr>) u = Some b \<and> (\<forall>h \<in> set (heap (f\<lparr>heap := h'\<rparr>)). stCost b \<le> stCost h)"
    if "u \<in> fin" for u
    using inv(6) [OF that] hs by auto
qed

text \<open>Settling the node of a state that is stored for it.\<close>

lemma pop_settle:
  assumes "frontier_inv es allowed k os fin f" and "heap_pop compareState (heap f) = Inr (s, h')"
    and "bestByNode f (stNode s) = Some s"
  shows "frontier_inv es allowed k os (insert (stNode s) fin) (f\<lparr>heap := h'\<rparr>)"
    and "\<And>u b. u \<in> insert (stNode s) fin \<Longrightarrow> bestByNode f u = Some b \<Longrightarrow> stCost b \<le> stCost s"
    and "represents es allowed k os s"
proof -
  note inv = frontier_invD [OF assms(1)]
  have hs: "set (heap f) = insert s (set h')" by (rule heap_pop_set [OF assms(2)])
  show rep: "represents es allowed k os s" using inv(2) hs by simp
  show "stCost b \<le> stCost s" if "u \<in> insert (stNode s) fin" "bestByNode f u = Some b" for u b
  proof (cases "u = stNode s")
    case True
    then show ?thesis using that assms(3) by simp
  next
    case False
    then have "u \<in> fin" using that(1) by simp
    then obtain b' where "bestByNode f u = Some b'" "\<forall>h \<in> set (heap f). stCost b' \<le> stCost h"
      using inv(6) by blast
    then show ?thesis using that(2) hs by simp
  qed
  show "frontier_inv es allowed k os (insert (stNode s) fin) (f\<lparr>heap := h'\<rparr>)"
  proof (rule frontier_invI)
    show "is_heap compareState (heap (f\<lparr>heap := h'\<rparr>))"
      using state_cmp.heap_pop_is_heap [OF inv(1) assms(2)] by simp
    show "represents es allowed k os h" if "h \<in> set (heap (f\<lparr>heap := h'\<rparr>))" for h
      using that inv(2) hs by simp
    show "stNode b = v \<and> represents es allowed k os b \<and>
        (v \<notin> insert (stNode s) fin \<longrightarrow> b \<in> set (heap (f\<lparr>heap := h'\<rparr>)))"
      if "bestByNode (f\<lparr>heap := h'\<rparr>) v = Some b" for v b
    proof -
      have b: "bestByNode f v = Some b" using that by simp
      then show ?thesis using inv(3-5) [OF b] hs by auto
    qed
    have least: "stCost s \<le> stCost h" if "h \<in> set h'" for h
      using state_cmp.heap.pop_least [OF inv(1) assms(2), of h] that compareState_cost by simp
    show "\<exists>b. bestByNode (f\<lparr>heap := h'\<rparr>) u = Some b \<and>
        (\<forall>h \<in> set (heap (f\<lparr>heap := h'\<rparr>)). stCost b \<le> stCost h)"
      if "u \<in> insert (stNode s) fin" for u
    proof (cases "u = stNode s")
      case True
      then show ?thesis using assms(3) least by simp
    next
      case False
      then have "u \<in> fin" using that by simp
      from inv(6) [OF this] show ?thesis using hs by auto
    qed
  qed
qed

text \<open>Relaxing the transitions of the settled node.\<close>

lemma relax_fold:
  assumes "fold_res (relax k fin s) ts f = Inr f'"
    and "wf_router r" and "stNode s \<in> fin" and "represents (rtEdges r) (rtAllowed r) k os s"
    and "\<And>t. t \<in> set ts \<Longrightarrow> \<exists>e \<in> set (rtEdges r). t \<in> edge_transitions (rtAllowed r) e (stNode s)"
    and "frontier_inv (rtEdges r) (rtAllowed r) k os fin f"
    and "\<And>u b. u \<in> fin \<Longrightarrow> bestByNode f u = Some b \<Longrightarrow> stCost b \<le> stCost s"
  shows "frontier_inv (rtEdges r) (rtAllowed r) k os fin f' \<and>
    (\<forall>u \<in> fin. bestByNode f' u = bestByNode f u) \<and>
    (\<forall>v c. bounds_step f v c \<longrightarrow> bounds_step f' v c) \<and>
    (\<forall>t \<in> set ts. bounds_step f' (trTo t) (stCost s + seg_cost k (trEdge t) (lengthMm (trEdge t))))"
proof -
  let ?I = "\<lambda>dn td g. frontier_inv (rtEdges r) (rtAllowed r) k os fin g \<and>
    (\<forall>u \<in> fin. bestByNode g u = bestByNode f u) \<and> (\<forall>v c. bounds_step f v c \<longrightarrow> bounds_step g v c) \<and>
    (\<forall>t \<in> set dn. bounds_step g (trTo t) (stCost s + seg_cost k (trEdge t) (lengthMm (trEdge t)))) \<and>
    set dn \<subseteq> set ts"
  have "?I ts [] f'"
  proof (rule fold_res_rule [OF assms(1), where I = ?I])
    fix dn t td g g'
    assume ts: "ts = dn @ t # td" and I: "?I dn (t # td) g" and step: "relax k fin s t g = Inr g'"
    from assms(5) [of t] ts obtain e where e: "e \<in> set (rtEdges r)"
      and t: "t \<in> edge_transitions (rtAllowed r) e (stNode s)" by auto
    then have te: "trEdge t = e" "permitted (rtAllowed r) (trLeg t)" "traverses e (stNode s) (trTo t) (trLeg t)"
      by (auto simp: edge_transitions_def traverses_def)
    let ?c = "stCost s + seg_cost k e (lengthMm e)"
    have up: "stCost s \<le> ?c" by (rule edge_step_cost [OF assms(2) e])
    have settled: "bestByNode g u = Some b \<Longrightarrow> stCost b \<le> ?c" if "u \<in> fin" for u b
      using I that assms(7) up by (metis order_trans)
    consider "trTo t \<in> fin" "g' = g"
      | "trTo t \<notin> fin" "g' = offer (RState ?c (trTo t) (stOrigin s) (startLeg s) (startToken s)
          (stNode s @ nul @ trToken t) (Some (s, trLeg t))) g"
    proof (cases "trTo t \<in> fin")
      case True
      then show ?thesis using that(1) step by (simp add: relax_def)
    next
      case False
      then obtain d c where "segmentCost e (lengthMm e) k = Inr d" "addCost (stCost s) d = Inr c"
        and g': "g' = offer (RState c (trTo t) (stOrigin s) (startLeg s) (startToken s)
          (stNode s @ nul @ trToken t) (Some (s, trLeg t))) g"
        using step te(1) by (auto simp: relax_def res_simps)
      moreover have "0 \<le> lengthMm e" using assms(2) e by (auto simp: wf_router_def wf_edge_def)
      ultimately have "c = ?c" using segmentCost_exact addCost_exact by metis
      then show ?thesis using that(2) False g' by simp
    qed
    then show "?I (dn @ [t]) td g'"
    proof cases
      case 1
      have "\<exists>b. bestByNode g (trTo t) = Some b" using I 1 by (auto simp: frontier_inv_def)
      then have "bounds_step g (trTo t) ?c" using settled 1 by (auto simp: bounds_step_def)
      then show ?thesis using I 1 te(1) ts by auto
    next
      case 2
      let ?n = "RState ?c (trTo t) (stOrigin s) (startLeg s) (startToken s)
          (stNode s @ nul @ trToken t) (Some (s, trLeg t))"
      have "walk (rtEdges r) (rtAllowed r) k (stOrigin s) (trTo t) (pathLegs s @ [trLeg t]) ?c"
        using walk.proceed [OF _ e te(3,2)] assms(4) by (simp add: represents_def)
      then have "represents (rtEdges r) (rtAllowed r) k os ?n"
        using assms(4) by (simp add: represents_def)
      then have "frontier_inv (rtEdges r) (rtAllowed r) k os fin (offer ?n g)"
        using frontier_inv_offer [of _ _ k os fin g ?n] I 2 settled by simp
      moreover have "bounds_step (offer ?n g) (trTo t) ?c"
        using offer_bound [of ?n g] by (auto simp: bounds_step_def)
      moreover have "bestByNode (offer ?n g) u = bestByNode g u" if "u \<in> fin" for u
        by (rule offer_other) (use 2(1) that in auto)
      ultimately show ?thesis using I 2(2) bounds_step_offer [of g] te(1) ts by auto
    qed
  qed (use assms(6) in simp)
  then show ?thesis by blast
qed

section \<open>The loop\<close>

definition search_inv ::
    "router \<Rightarrow> string option \<Rightarrow> anchor list \<Rightarrow> anchor list \<Rightarrow> arrivals \<Rightarrow> string set \<Rightarrow> frontier \<Rightarrow>
     candidate option \<Rightarrow> bool" where
  "search_inv r k os ds arr fin f best \<longleftrightarrow>
     frontier_inv (rtEdges r) (rtAllowed r) k os fin f \<and>
     bounds_departures (rtAllowed r) k (set os) f \<and>
     bounds_transitions (rtEdges r) (rtAllowed r) k fin f \<and>
     (\<forall>c. best = Some c \<longrightarrow> good_candidate r k os ds c) \<and>
     (\<forall>u \<in> fin. \<forall>b. bestByNode f u = Some b \<longrightarrow>
        (\<forall>sf \<in> set (entries_at arr u). at_most best (stCost b + sfCost sf)))"

lemma search_inv_settle:
  assumes "search_inv r k os ds arr fin f best" and "wf_router r"
    and "\<And>v. set (entries_at arr v) = {sf. \<exists>d \<in> set ds. is_suffix r k d v sf}"
    and "heap_pop compareState (heap f) = Inr (s, h')" and "bestByNode f (stNode s) = Some s"
    and "fold_res (arrive s) (entries_at arr (stNode s)) best = Inr best'"
    and "fold_res (relax k (insert (stNode s) fin) s) (entries_at (rtAdjacency r) (stNode s))
           (f\<lparr>heap := h'\<rparr>) = Inr f'"
  shows "search_inv r k os ds arr (insert (stNode s) fin) f' best'"
    and "at_most best y \<Longrightarrow> at_most best' y"
proof -
  note settle = pop_settle [OF _ assms(4,5), of "rtEdges r" "rtAllowed r" k os fin]
  have inv: "frontier_inv (rtEdges r) (rtAllowed r) k os fin f"
    and tr: "bounds_transitions (rtEdges r) (rtAllowed r) k fin f"
    using assms(1) by (auto simp: search_inv_def)
  have ts: "set (entries_at (rtAdjacency r) (stNode s)) =
      (\<Union>e \<in> set (rtEdges r). edge_transitions (rtAllowed r) e (stNode s))"
    using assms(2) by (simp add: wf_router_def entries_buildAdjacency)
  have "frontier_inv (rtEdges r) (rtAllowed r) k os (insert (stNode s) fin) f' \<and>
    (\<forall>u \<in> insert (stNode s) fin. bestByNode f' u = bestByNode (f\<lparr>heap := h'\<rparr>) u) \<and>
    (\<forall>v c. bounds_step (f\<lparr>heap := h'\<rparr>) v c \<longrightarrow> bounds_step f' v c) \<and>
    (\<forall>t \<in> set (entries_at (rtAdjacency r) (stNode s)).
       bounds_step f' (trTo t) (stCost s + seg_cost k (trEdge t) (lengthMm (trEdge t))))"
    by (rule relax_fold [OF assms(7,2)]) (use settle [OF inv] ts in auto)
  then have rl: "frontier_inv (rtEdges r) (rtAllowed r) k os (insert (stNode s) fin) f'"
    "\<And>u. u \<in> insert (stNode s) fin \<Longrightarrow> bestByNode f' u = bestByNode f u"
    "\<And>v c. bounds_step f v c \<Longrightarrow> bounds_step f' v c"
    "\<And>t. t \<in> set (entries_at (rtAdjacency r) (stNode s)) \<Longrightarrow>
       bounds_step f' (trTo t) (stCost s + seg_cost k (trEdge t) (lengthMm (trEdge t)))"
    by (auto simp: bounds_step_def)
  have ar: "(\<forall>c. best' = Some c \<longrightarrow> good_candidate r k os ds c) \<and> (\<forall>y. at_most best y \<longrightarrow> at_most best' y) \<and>
    (\<forall>sf \<in> set (entries_at arr (stNode s)). \<forall>y. y = stCost s + sfCost sf \<longrightarrow> at_most best' y)"
    by (rule arrive_fold [OF assms(6) settle(3) [OF inv]]) (use assms(1,3) in \<open>auto simp: search_inv_def\<close>)
  then show "at_most best y \<Longrightarrow> at_most best' y" by blast
  have dep: "bounds_departures (rtAllowed r) k (set os) f'"
    using assms(1) rl(3) by (auto simp: search_inv_def bounds_departures_step)
  have "bounds_step f' v (stCost s + seg_cost k e (lengthMm e))"
    if "e \<in> set (rtEdges r)" "traverses e (stNode s) v l" "permitted (rtAllowed r) l" for e v l
  proof -
    have "\<exists>t \<in> edge_transitions (rtAllowed r) e (stNode s). trTo t = v \<and> trEdge t = e"
      using that(2)
      unfolding traverses_def
    proof
      assume "stNode s = fromNodeKey e \<and> v = toNodeKey e \<and> l = makeLeg e 0 (lengthMm e)"
      then show ?thesis using that(3) by (intro bexI [of _ "alongTransition e"]) (simp_all add: edge_transitions_def)
    next
      assume "stNode s = toNodeKey e \<and> v = fromNodeKey e \<and> l = makeLeg e (lengthMm e) 0"
      then show ?thesis using that(3) by (intro bexI [of _ "againstTransition e"]) (simp_all add: edge_transitions_def)
    qed
    then show ?thesis using rl(4) ts that(1) by blast
  qed
  then have "bounds_transitions (rtEdges r) (rtAllowed r) k (insert (stNode s) fin) f'"
    using tr rl(2,3) assms(5) unfolding bounds_transitions_def by (metis insert_iff option.inject)
  moreover have "\<forall>u \<in> insert (stNode s) fin. \<forall>b. bestByNode f' u = Some b \<longrightarrow>
      (\<forall>sf \<in> set (entries_at arr u). at_most best' (stCost b + sfCost sf))"
    using assms(1,5) rl(2) ar unfolding search_inv_def by (metis insert_iff option.inject)
  ultimately show "search_inv r k os ds arr (insert (stNode s) fin) f' best'"
    using rl(1) dep ar unfolding search_inv_def by blast
qed

end
