(* ===== verification/TrackRouterResult.thy ===== *)
theory TrackRouterResult
  imports TrackRouterCorrect
begin

text \<open>
  The outcome of the search: the loop ends with a candidate no journey undercuts, the fuel of
  \<open>search_fuel\<close> is never used up, and costs that leave the safe integers are the only errors
  after validation. The legs of a result carry its cost.
\<close>

section \<open>The candidate at the end of the loop\<close>

text \<open>The two exits of the loop: nothing is queued, or what is queued costs more than the best.\<close>

lemma exit_bound:
  assumes inv: "search_inv r k os ds arr fin f best" and wf: "wf_router r"
    and arr: "\<And>v. set (entries_at arr v) = {sf. \<exists>d \<in> set ds. is_suffix r k d v sf}"
    and exit: "heap f = [] \<or> (\<exists>b. best = Some b \<and> cdCost b < stCost (heap_peek (heap f)))"
    and j: "walk (rtEdges r) (rtAllowed r) k a v ls c" "a \<in> set os" "d \<in> set ds"
      "arrives d v l" "permitted (rtAllowed r) l"
  shows "at_most best (c + seg_cost k (anchorEdge d) (leg_length l))"
proof -
  let ?t = "seg_cost k (anchorEdge d) (leg_length l)"
  have up: "c \<le> c + ?t" using add_left_mono [OF seg_cost_nonneg [OF leg_length_nonneg], of c] by simp
  have fr: "frontier_inv (rtEdges r) (rtAllowed r) k os fin f"
    using inv by (simp add: search_inv_def)
  from walk_bound [OF j(1) wf j(2) fr] inv
  have "(v \<in> fin \<and> bounds_step f v c) \<or> (\<exists>h \<in> set (heap f). stCost h \<le> c)"
    by (simp add: search_inv_def)
  then show ?thesis
  proof
    assume "v \<in> fin \<and> bounds_step f v c"
    then obtain b where b: "v \<in> fin" "bestByNode f v = Some b" "stCost b \<le> c"
      by (auto simp: bounds_step_def)
    let ?sf = "\<lparr>sfDestination = d, sfLeg = l, sfCost = ?t, sfToken = legToken l\<rparr>"
    have "?sf \<in> set (entries_at arr v)" using arr j(3-5) by (auto simp: is_suffix_def)
    then have "at_most best (stCost b + ?t)" using inv b(1,2) by (fastforce simp: search_inv_def)
    then show ?thesis using at_most_mono add_right_mono [OF b(3)] by blast
  next
    assume "\<exists>h \<in> set (heap f). stCost h \<le> c"
    then obtain h where h: "h \<in> set (heap f)" "stCost h \<le> c" by blast
    then obtain b where b: "best = Some b" "cdCost b < stCost (heap_peek (heap f))" using exit by auto
    have "stCost (heap_peek (heap f)) \<le> stCost h"
      using state_cmp.heap_peek_least [OF frontier_invD(1) [OF fr] h(1)] compareState_cost by blast
    then have "cdCost b \<le> c + ?t" using b(2) h(2) up by order
    then show ?thesis using b(1) by (simp add: at_most_def)
  qed
qed

text \<open>One round of the loop.\<close>

definition search_exit :: "frontier \<Rightarrow> candidate option \<Rightarrow> bool" where
  "search_exit f best \<longleftrightarrow> heap f = [] \<or> (\<exists>b. best = Some b \<and> cdCost b < stCost (heap_peek (heap f)))"

lemma search_exits: "search_exit f best \<Longrightarrow> search r k arr (Suc fuel) fin f best = Inr best"
  by (auto simp: search_exit_def compareCost_pos)

lemma search_round:
  assumes "\<not> search_exit f best" and "heap_pop compareState (heap f) = Inr (s, h')"
  shows "search r k arr (Suc fuel) fin f best =
    (if bestByNode f (stNode s) \<noteq> Some s \<or> stNode s \<in> fin then search r k arr fuel fin (f\<lparr>heap := h'\<rparr>) best
     else bnd (fold_res (arrive s) (entries_at arr (stNode s)) best) (\<lambda>best'.
          bnd (fold_res (relax k (insert (stNode s) fin) s) (entries_at (rtAdjacency r) (stNode s))
                (f\<lparr>heap := h'\<rparr>)) (\<lambda>f'.
          search r k arr fuel (insert (stNode s) fin) f' best')))"
proof -
  have "heap f \<noteq> []"
    and "\<not> (best \<noteq> None \<and> compareCost (stCost (heap_peek (heap f))) (cdCost (the best)) > 0)"
    using assms(1) by (auto simp: compareCost_pos search_exit_def)
  then show ?thesis
    by (subst search.simps(2)) (simp only: if_False sum.case prod.case Let_def assms(2))
qed

lemma search_pops:
  assumes "\<not> search_exit f best"
  obtains s h' where "heap_pop compareState (heap f) = Inr (s, h')"
  using assms heap_pop_ok [of "heap f" compareState] by (auto simp: search_exit_def)

lemma search_result:
  assumes "search r k arr fuel fin f best = Inr best'"
    and "search_inv r k os ds arr fin f best" and "wf_router r"
    and "\<And>v. set (entries_at arr v) = {sf. \<exists>d \<in> set ds. is_suffix r k d v sf}"
  shows "(\<forall>c. best' = Some c \<longrightarrow> good_candidate r k os ds c) \<and> (\<forall>y. at_most best y \<longrightarrow> at_most best' y) \<and>
    (\<forall>a v ls c d l. walk (rtEdges r) (rtAllowed r) k a v ls c \<longrightarrow> a \<in> set os \<longrightarrow> d \<in> set ds \<longrightarrow>
       arrives d v l \<longrightarrow> permitted (rtAllowed r) l \<longrightarrow>
       at_most best' (c + seg_cost k (anchorEdge d) (leg_length l)))"
  using assms(1,2)
proof (induction fuel arbitrary: fin f best)
  case 0
  then show ?case by simp
next
  case (Suc fuel)
  show ?case
  proof (cases "search_exit f best")
    case True
    then have "best' = best" using Suc.prems(1) search_exits by fastforce
    then show ?thesis
      using exit_bound [OF Suc.prems(2) assms(3,4) True [unfolded search_exit_def]] Suc.prems(2)
      by (simp add: search_inv_def)
  next
    case False
    then obtain s h' where pop: "heap_pop compareState (heap f) = Inr (s, h')" by (rule search_pops)
    note round = search_round [OF False pop, of r k arr fuel fin]
    show ?thesis
    proof (cases "bestByNode f (stNode s) \<noteq> Some s \<or> stNode s \<in> fin")
      case True
      have "frontier_inv (rtEdges r) (rtAllowed r) k os fin (f\<lparr>heap := h'\<rparr>)"
        by (rule pop_stale [OF _ pop True]) (use Suc.prems(2) in \<open>simp add: search_inv_def\<close>)
      then have "search_inv r k os ds arr fin (f\<lparr>heap := h'\<rparr>) best"
        using Suc.prems(2)
        by (simp add: search_inv_def bounds_departures_def bounds_transitions_def bounds_step_def)
      moreover have "search r k arr fuel fin (f\<lparr>heap := h'\<rparr>) best = Inr best'"
        using Suc.prems(1) round True by simp
      ultimately show ?thesis by (rule Suc.IH [rotated])
    next
      case False
      then obtain best1 f1 where
        ar: "fold_res (arrive s) (entries_at arr (stNode s)) best = Inr best1"
        and rl: "fold_res (relax k (insert (stNode s) fin) s) (entries_at (rtAdjacency r) (stNode s))
              (f\<lparr>heap := h'\<rparr>) = Inr f1"
        and rest: "search r k arr fuel (insert (stNode s) fin) f1 best1 = Inr best'"
        using Suc.prems(1) round by (auto simp: res_simps simp del: search.simps)
      note settle = search_inv_settle [OF Suc.prems(2) assms(3,4) pop _ ar rl]
      show ?thesis using Suc.IH [OF rest settle(1)] settle(2) False by blast
    qed
  qed
qed

section \<open>Fuel and errors\<close>

lemma relax_heap_length:
  assumes "fold_res (relax k fin s) ts f = Inr f'"
  shows "length (heap f') \<le> length (heap f) + length ts"
proof -
  have "length (heap f') \<le> length (heap f) + length ts"
    by (rule fold_res_rule [OF assms, where I = "\<lambda>dn _ g. length (heap g) \<le> length (heap f) + length dn"])
      (auto simp: relax_def res_simps split: if_splits intro: order_trans [OF length_offer])
  then show ?thesis .
qed

text \<open>Transitions still to be relaxed when the nodes of \<open>fin\<close> are settled.\<close>

definition pending :: "adjacency \<Rightarrow> string set \<Rightarrow> nat" where
  "pending adj fin = sum_list (map (\<lambda>(n, ts). if n \<in> fin then 0 else length ts) adj)"

lemma pending_insert:
  "distinct (map fst adj) \<Longrightarrow> v \<notin> fin \<Longrightarrow>
   pending adj (insert v fin) + length (entries_at adj v) = pending adj fin"
proof (induction adj)
  case Nil
  then show ?case by (simp add: pending_def entries_at_def)
next
  case (Cons p adj)
  obtain n ts where p: "p = (n, ts)" by force
  have same: "pending adj (insert v fin) = pending adj fin" if "v \<notin> fst ` set adj"
    using that unfolding pending_def by (intro arg_cong [of _ _ sum_list]) (force intro!: map_cong)
  show ?case
    using Cons same by (cases "n = v") (auto simp: p pending_def entries_at_def)
qed

definition only_overflow :: "router_error + 'a \<Rightarrow> bool" where
  "only_overflow m \<longleftrightarrow> (\<forall>e. m = Inl e \<longrightarrow> (\<exists>nm. e = CostOverflow nm))"

lemma only_overflow_bnd:
  "only_overflow m \<Longrightarrow> (\<And>x. m = Inr x \<Longrightarrow> only_overflow (f x)) \<Longrightarrow> only_overflow (bnd m f)"
  by (cases m) (auto simp: only_overflow_def)

lemma only_overflow_fold:
  "(\<And>x s. x \<in> set xs \<Longrightarrow> only_overflow (f x s)) \<Longrightarrow> only_overflow (fold_res f xs s)"
  by (induction xs arbitrary: s) (auto intro!: only_overflow_bnd simp: only_overflow_def [of "Inr _"])

lemma only_overflow_steps:
  "only_overflow (Inr x)" "only_overflow (segmentCost e len k)" "only_overflow (addCost a b)"
  by (auto simp: only_overflow_def dest: segmentCost_Inl addCost_Inl)

lemma only_overflow_parts:
  "only_overflow (directCandidate r k a d best)" "only_overflow (seedOrigin r k a f)"
  "only_overflow (addDestinations r k d m)" "only_overflow (arrive s sf best)"
  "only_overflow (relax k fin s t f)"
  by (auto simp: directCandidate_def seedOrigin_def seed_def addDestinations_def addDestination_def
      arrive_def relax_def Let_def intro!: only_overflow_bnd only_overflow_steps)

lemma search_only_overflow:
  assumes "distinct (map fst (rtAdjacency r))"
  shows "length (heap f) + pending (rtAdjacency r) fin < fuel \<Longrightarrow> only_overflow (search r k arr fuel fin f best)"
proof (induction fuel arbitrary: fin f best)
  case 0
  then show ?case by simp
next
  case (Suc fuel)
  show ?case
  proof (cases "search_exit f best")
    case True
    then show ?thesis using search_exits only_overflow_steps(1) by metis
  next
    case False
    then obtain s h' where pop: "heap_pop compareState (heap f) = Inr (s, h')" by (rule search_pops)
    have len: "length (heap f) = Suc (length h')"
      using heap_pop_mset(1) [OF pop] by (metis size_add_mset size_mset)
    have "only_overflow (search r k arr fuel fin (f\<lparr>heap := h'\<rparr>) best)"
      using Suc len by simp
    moreover have "only_overflow (search r k arr fuel (insert (stNode s) fin) f1 best1)"
      if "fold_res (relax k (insert (stNode s) fin) s) (entries_at (rtAdjacency r) (stNode s))
            (f\<lparr>heap := h'\<rparr>) = Inr f1" "stNode s \<notin> fin" for f1 best1
      using relax_heap_length [OF that(1)] pending_insert [OF assms that(2)] Suc.prems len
      by (intro Suc.IH) simp
    ultimately show ?thesis
      unfolding search_round [OF False pop]
      by (auto intro!: only_overflow_bnd only_overflow_fold only_overflow_parts)
  qed
qed

text \<open>The search of a query is never short of fuel.\<close>

lemma search_fuel_enough:
  "wf_router r \<Longrightarrow> only_overflow (search r k arr (search_fuel r f) {} f best)"
  by (rule search_only_overflow)
    (auto simp: wf_router_def distinct_buildAdjacency search_fuel_def pending_def o_def split_def)
section \<open>The outcome of a query\<close>

lemma good_journey_None: "best' = None \<Longrightarrow> \<not> at_most best' x"
  by (simp add: at_most_def)

lemma route_inputs:
  assumes "route r origins destinations target = Inr res"
  obtains k os ds best0 f arr best where
    "routeNumberKeyOf False target ''targetRouteNumber'' = Inr k"
    "normalizeAnchors origins ''origins'' (rtEdgeById r) = Inr os"
    "normalizeAnchors destinations ''destinations'' (rtEdgeById r) = Inr ds"
    "directCandidates r k os ds = Inr best0"
    "fold_res (seedOrigin r k) os \<lparr>bestByNode = (\<lambda>_. None), heap = []\<rparr> = Inr f"
    "destinationByNode r k ds = Inr arr"
    "search r k arr (search_fuel r f) {} f best0 = Inr best"
    "res = map_option (\<lambda>c. publicResult c target) best"
  using assms by (auto simp: route_def res_simps)

lemma route_candidate:
  assumes "route r origins destinations target = Inr res" and "wf_router r"
    and "routeNumberKeyOf False target ''targetRouteNumber'' = Inr k"
    and "normalizeAnchors origins ''origins'' (rtEdgeById r) = Inr os"
    and "normalizeAnchors destinations ''destinations'' (rtEdgeById r) = Inr ds"
  obtains best where "res = map_option (\<lambda>c. publicResult c target) best"
    and "\<And>c. best = Some c \<Longrightarrow> good_candidate r k os ds c"
    and "\<And>a d ls c. a \<in> set os \<Longrightarrow> d \<in> set ds \<Longrightarrow>
           journey (rtEdges r) (rtAllowed r) k a d ls c \<Longrightarrow> at_most best c"
proof -
  from route_inputs [OF assms(1)] assms(3-5)
  obtain best0 f arr best where
    direct: "directCandidates r k os ds = Inr best0"
    and seeds: "fold_res (seedOrigin r k) os \<lparr>bestByNode = (\<lambda>_. None), heap = []\<rparr> = Inr f"
    and arr: "destinationByNode r k ds = Inr arr"
    and loop: "search r k arr (search_fuel r f) {} f best0 = Inr best"
    and res: "res = map_option (\<lambda>c. publicResult c target) best"
    by (metis sum.inject(2))
  note direct = directCandidates_spec [OF direct]
  have entries: "set (entries_at arr v) = {sf. \<exists>d \<in> set ds. is_suffix r k d v sf}" for v
    by (rule destinationByNode_entries [OF arr])
  have "search_inv r k os ds arr {} f best0"
    using seeds_frontier [OF seeds] direct by (simp add: search_inv_def bounds_transitions_def)
  note found = search_result [OF loop this assms(2) entries]
  have "at_most best c" if "a \<in> set os" "d \<in> set ds" "journey (rtEdges r) (rtAllowed r) k a d ls c" for a d ls c
    using that(3)
  proof cases
    case (on_edge l)
    then have "on_edge_cost r k a d c" by (simp add: on_edge_cost_def)
    then show ?thesis using found direct that(1,2) by blast
  next
    case (through v ls' c' l)
    then show ?thesis using found that(1,2) by blast
  qed
  then show thesis using that res found by blast
qed

section \<open>The legs of a journey\<close>

text \<open>A place in the network: a node, or a point strictly inside an edge.\<close>

datatype place = AtNode string | OnEdge string int

definition place :: "edge \<Rightarrow> int \<Rightarrow> place" where
  "place e offset =
     (if offset = 0 then AtNode (fromNodeKey e) else if offset = lengthMm e then AtNode (toNodeKey e)
      else OnEdge (edgeId e) offset)"

text \<open>
  \<open>drives m p legs q\<close>: the legs, each on an edge of \<open>m\<close> and inside it, lead from place \<open>p\<close> to
  place \<open>q\<close> without a gap.
\<close>

fun drives :: "(string \<times> edge) list \<Rightarrow> place \<Rightarrow> leg list \<Rightarrow> place \<Rightarrow> bool" where
  "drives m p [] q = (p = q)"
| "drives m p (g # gs) q =
     (case map_of m (legEdgeId g) of None \<Rightarrow> False
      | Some e \<Rightarrow> place e (edgeEntryMm g) = p \<and> drives m (place e (edgeExitMm g)) gs q)"

text \<open>A leg runs in its direction, inside its edge, and is permitted.\<close>

definition proper_leg :: "(string \<times> edge) list \<Rightarrow> directions \<Rightarrow> leg \<Rightarrow> bool" where
  "proper_leg m allowed g \<longleftrightarrow> (\<exists>e. map_of m (legEdgeId g) = Some e \<and>
     0 \<le> edgeEntryMm g \<and> edgeEntryMm g \<le> lengthMm e \<and> 0 \<le> edgeExitMm g \<and> edgeExitMm g \<le> lengthMm e) \<and>
     (if legDirection g = Along then edgeEntryMm g < edgeExitMm g else edgeExitMm g < edgeEntryMm g) \<and>
     permitted allowed (Some g)"

definition leg_cost :: "(string \<times> edge) list \<Rightarrow> string option \<Rightarrow> leg \<Rightarrow> cost" where
  "leg_cost m k g = seg_cost k (the (map_of m (legEdgeId g))) (leg_length (Some g))"

text \<open>No leg continues the one before it.\<close>

definition joins :: "leg \<Rightarrow> leg \<Rightarrow> bool" where
  "joins g h \<longleftrightarrow> legEdgeId g = legEdgeId h \<and> legDirection g = legDirection h \<and> edgeExitMm g = edgeEntryMm h"

fun merged :: "leg list \<Rightarrow> bool" where
  "merged (g # h # gs) = (\<not> joins g h \<and> merged (h # gs))"
| "merged _ = True"

text \<open>The four facts together, for the legs collected so far.\<close>

definition legs_ok ::
    "(string \<times> edge) list \<Rightarrow> directions \<Rightarrow> string option \<Rightarrow> place \<Rightarrow> leg list \<Rightarrow> place \<Rightarrow> cost \<Rightarrow> bool" where
  "legs_ok m allowed k p gs q c \<longleftrightarrow> drives m p gs q \<and> (\<forall>g \<in> set gs. proper_leg m allowed g) \<and>
     merged gs \<and> c = sum_list (map (leg_cost m k) gs)"

lemma drives_append: "drives m p (xs @ ys) q \<longleftrightarrow> (\<exists>s. drives m p xs s \<and> drives m s ys q)"
  by (induction xs arbitrary: p) (auto split: option.splits)

lemma merged_snoc: "merged (gs @ [g]) \<longleftrightarrow> merged gs \<and> (gs = [] \<or> \<not> joins (last gs) g)"
  by (induction gs rule: merged.induct) auto

lemma seg_cost_add: "seg_cost k e a + seg_cost k e b = seg_cost k e (a + b)"
  by (simp add: seg_cost_def)

lemma seg_cost_zero: "seg_cost k e 0 = 0"
  by (simp add: seg_cost_def zero_cost_def)

lemma permitted_extended: "permitted allowed (Some (g\<lparr>edgeExitMm := x\<rparr>)) = permitted allowed (Some g)"
  by (simp add: permitted_def cong: option.case_cong)

lemma mergeLeg_ok:
  assumes "legs_ok m allowed k p gs q c" and "proper_leg m allowed g"
    and "map_of m (legEdgeId g) = Some e" and "place e (edgeEntryMm g) = q"
  shows "legs_ok m allowed k p (mergeLeg (Some g) gs) (place e (edgeExitMm g)) (c + leg_cost m k g)"
proof (cases "gs \<noteq> [] \<and> joins (last gs) g")
  case True
  define hs l where "hs = butlast gs" and "l = last gs"
  have gs: "gs = hs @ [l]" using True by (simp add: hs_def l_def)
  let ?l = "l\<lparr>edgeExitMm := edgeExitMm g\<rparr>"
  have j: "legEdgeId l = legEdgeId g" "legDirection l = legDirection g" "edgeExitMm l = edgeEntryMm g"
    using True by (auto simp: l_def joins_def)
  have new: "mergeLeg (Some g) gs = hs @ [?l]"
    using True by (simp add: mergeLeg_def joins_def gs)
  have l: "proper_leg m allowed l" using assms(1) by (simp add: legs_ok_def gs)
  have "drives m p (hs @ [?l]) (place e (edgeExitMm g))"
    using assms(1,3) j(1) by (auto simp: legs_ok_def gs drives_append)
  moreover have "proper_leg m allowed ?l"
    using l assms(2) j by (auto simp: proper_leg_def permitted_extended split: if_splits)
  moreover have "merged (hs @ [?l])"
    using assms(1) by (auto simp: legs_ok_def gs merged_snoc joins_def)
  moreover have "leg_cost m k ?l = leg_cost m k l + leg_cost m k g"
    using l assms(2) j by (auto simp: leg_cost_def seg_cost_add leg_length_def proper_leg_def
        split: if_splits intro: arg_cong [of _ _ "seg_cost k _"])
  ultimately show ?thesis using assms(1) unfolding new by (auto simp: legs_ok_def gs ac_simps)
next
  case False
  then have "mergeLeg (Some g) gs = gs @ [g]" by (auto simp: mergeLeg_def joins_def)
  then show ?thesis using assms False by (auto simp: legs_ok_def drives_append merged_snoc)
qed

text \<open>Appending the optional leg between two offsets of an edge.\<close>

lemma mergeLeg_stretch:
  assumes "legs_ok m allowed k p gs (place e x) c" and "map_of m (edgeId e) = Some e"
    and "0 \<le> x" "x \<le> lengthMm e" "0 \<le> y" "y \<le> lengthMm e" and "permitted allowed (makeLeg e x y)"
  shows "legs_ok m allowed k p (mergeLeg (makeLeg e x y) gs) (place e y) (c + seg_cost k e \<bar>y - x\<bar>)"
proof (cases "x = y")
  case True
  then show ?thesis using assms(1) by (simp add: makeLeg_def mergeLeg_def seg_cost_zero)
next
  case False
  let ?g = "\<lparr>legEdgeId = edgeId e, legDirection = (if y > x then Along else Against),
      edgeEntryMm = x, edgeExitMm = y\<rparr>"
  have l: "makeLeg e x y = Some ?g" using False by (simp add: makeLeg_def)
  have "proper_leg m allowed ?g" using assms False l by (auto simp: proper_leg_def)
  from mergeLeg_ok [OF assms(1) this] assms(2) l show ?thesis
    by (simp add: leg_cost_def leg_length_def)
qed

lemma mergeLegs_snoc: "mergeLegs (ls @ [l]) = mergeLeg l (mergeLegs ls)"
  by (simp add: mergeLegs_def)

lemma places [simp]: "place e 0 = AtNode (fromNodeKey e)"
  "0 < lengthMm e \<Longrightarrow> place e (lengthMm e) = AtNode (toNodeKey e)"
  by (auto simp: place_def)

text \<open>The identifiers of a router lead back to its edges.\<close>

lemma map_of_rtEdgeById:
  assumes "wf_router r" and "e \<in> set (rtEdges r)"
  shows "map_of (rtEdgeById r) (edgeId e) = Some e" and "0 < lengthMm e"
proof -
  have "distinct (map fst (rtEdgeById r))" using assms(1) by (simp add: wf_router_def o_def)
  moreover have "(edgeId e, e) \<in> set (rtEdgeById r)" using assms by (auto simp: wf_router_def)
  ultimately show "map_of (rtEdgeById r) (edgeId e) = Some e" by (rule map_of_in_set)
  show "0 < lengthMm e" using assms by (auto simp: wf_router_def wf_edge_def)
qed

abbreviation anchor_place :: "anchor \<Rightarrow> place" where
  "anchor_place a \<equiv> place (anchorEdge a) (offsetMm a)"

abbreviation router_legs :: "router \<Rightarrow> string option \<Rightarrow> place \<Rightarrow> leg list \<Rightarrow> place \<Rightarrow> cost \<Rightarrow> bool" where
  "router_legs r k \<equiv> legs_ok (rtEdgeById r) (rtAllowed r) k"

lemma router_stretch:
  assumes "router_legs r k p gs (place e x) c" and "wf_router r" and "e \<in> set (rtEdges r)"
    and "0 \<le> x" "x \<le> lengthMm e" "0 \<le> y" "y \<le> lengthMm e" and "permitted (rtAllowed r) (makeLeg e x y)"
  shows "router_legs r k p (mergeLeg (makeLeg e x y) gs) (place e y)
    (c + seg_cost k e (leg_length (makeLeg e x y)))"
proof -
  have "leg_length (makeLeg e x y) = \<bar>y - x\<bar>" by (simp add: leg_length_def makeLeg_def)
  then show ?thesis using mergeLeg_stretch [OF assms(1)] map_of_rtEdgeById [OF assms(2,3)] assms by simp
qed

lemma empty_legs_ok: "legs_ok m allowed k p [] p 0"
  by (simp add: legs_ok_def)

lemma walk_legs:
  assumes "walk (rtEdges r) (rtAllowed r) k a v ls c" and "wf_router r" and "wf_anchor (rtEdgeById r) a"
  shows "router_legs r k (anchor_place a) (mergeLegs ls) (AtNode v) c"
  using assms(1)
proof (induction rule: walk.induct)
  case (depart n l)
  let ?e = "anchorEdge a"
  have e: "?e \<in> set (rtEdges r)" by (rule wf_anchor_edge [OF assms(2,3)])
  have off: "0 \<le> offsetMm a" "offsetMm a \<le> lengthMm ?e" using assms(3) by (auto simp: wf_anchor_def)
  from depart(1) obtain y where y: "l = makeLeg ?e (offsetMm a) y" "0 \<le> y" "y \<le> lengthMm ?e" "place ?e y = AtNode n"
    using map_of_rtEdgeById(2) [OF assms(2) e] by (auto simp: departs_def)
  have "mergeLegs [l] = mergeLeg l []" by (simp add: mergeLegs_def)
  then show ?case
    using router_stretch [OF empty_legs_ok assms(2) e off y(2,3)] depart(2) y(1,4) by simp
next
  case (proceed u ls c e v l)
  have pos: "0 < lengthMm e" by (rule map_of_rtEdgeById(2) [OF assms(2) proceed.hyps(2)])
  from proceed.hyps(3) pos obtain x y where xy: "l = makeLeg e x y" "0 \<le> x" "x \<le> lengthMm e" "0 \<le> y" "y \<le> lengthMm e"
    "place e x = AtNode u" "place e y = AtNode v" "\<bar>y - x\<bar> = lengthMm e"
    unfolding traverses_def by (elim disjE) (fastforce intro: that)+
  have "leg_length l = lengthMm e" using xy(1,8) pos by (auto simp: leg_length_def makeLeg_def)
  then show ?case
    using router_stretch [of r k _ _ e x _ y] proceed xy(1-7) assms(2) by (simp add: mergeLegs_snoc)
qed

lemma journey_legs:
  assumes "journey (rtEdges r) (rtAllowed r) k a d ls c" and "wf_router r"
    and "wf_anchor (rtEdgeById r) a" "wf_anchor (rtEdgeById r) d"
  shows "router_legs r k (anchor_place a) (mergeLegs ls) (anchor_place d) c"
  using assms(1)
proof cases
  case (on_edge l)
  have same: "anchorEdge d = anchorEdge a" using assms(3,4) on_edge(3) by (simp add: wf_anchor_def)
  have "anchorEdge a \<in> set (rtEdges r)" by (rule wf_anchor_edge [OF assms(2,3)])
  then have "router_legs r k (anchor_place a) (mergeLeg l []) (place (anchorEdge a) (offsetMm d))
      (0 + seg_cost k (anchorEdge a) (leg_length l))"
    unfolding on_edge(4)
    by (intro router_stretch empty_legs_ok) (use on_edge assms same in \<open>auto simp: wf_anchor_def\<close>)
  moreover have "leg_length l = \<bar>offsetMm d - offsetMm a\<bar>" by (simp add: on_edge(4) leg_length_def makeLeg_def)
  ultimately show ?thesis using on_edge same by (simp add: mergeLegs_def)
next
  case (through v ls' c' l)
  let ?e = "anchorEdge d"
  have e: "?e \<in> set (rtEdges r)" by (rule wf_anchor_edge [OF assms(2,4)])
  have off: "0 \<le> offsetMm d" "offsetMm d \<le> lengthMm ?e" using assms(4) by (auto simp: wf_anchor_def)
  from through(4) map_of_rtEdgeById(2) [OF assms(2) e]
  obtain x where x: "l = makeLeg ?e x (offsetMm d)" "0 \<le> x" "x \<le> lengthMm ?e" "place ?e x = AtNode v"
    unfolding arrives_def by (elim disjE) (fastforce intro: that)+
  have "router_legs r k (anchor_place a) (mergeLegs ls') (place ?e x) c'"
    using walk_legs [OF through(3) assms(2,3)] x(4) by simp
  from router_stretch [OF this assms(2) e x(2,3) off] through x(1)
  show ?thesis by (simp add: mergeLegs_snoc)
qed

end
