(* ===== verification/TrackRouterOrder.thy ===== *)
theory TrackRouterOrder
  imports TrackRouterResult
begin

text \<open>
  The router is deterministic: the order of the edges and of the anchors of a query, and repeated
  anchors, do not change its result. Also here: which errors validation can throw.
\<close>

section \<open>The order of the input does not matter\<close>

lemma no_equal_neighbours_distinct:
  "distinct (map edgeId es) \<Longrightarrow> no_equal_neighbours es = Inr ()"
  by (induction es rule: no_equal_neighbours.induct) auto

lemma normalizeEdges_mset:
  assumes "normalizeEdges (EdgesIterable vs) = Inr es" and "mset vs' = mset vs"
  shows "normalizeEdges (EdgesIterable vs') = Inr es"
proof -
  obtain ns where ns: "map_res normalizeEdge vs = Inr ns" and es: "es = sort_by compareEdge ns" and ne: "vs \<noteq> []"
    using assms(1) by (auto simp: normalizeEdges_def edge_records_def res_simps Let_def)
  obtain ns' where ns': "map_res normalizeEdge vs' = Inr ns'" and same: "mset ns' = mset ns"
    using map_res_mset [OF ns assms(2)] .
  let ?es' = "sort_by compareEdge ns'"
  have "mset (map edgeId ?es') = mset (map edgeId es)" using same es by simp
  then have d: "distinct (map edgeId ?es')"
    using normalizeEdges_distinct [OF assms(1)] mset_eq_imp_distinct_iff by blast
  then have u: "no_equal_neighbours ?es' = Inr ()" by (rule no_equal_neighbours_distinct)
  have "sorted_wrt (<) (map edgeId ?es')" by (rule neighbours_distinct [OF u edge_cmp.sorted_sort_by])
  then have "?es' = es"
    using strictly_sorted_unique normalizeEdges_wf(2) [OF assms(1)] same es
    by (metis mset_sort_by set_mset_mset)
  moreover have "vs' \<noteq> []" using ne assms(2) by auto
  ultimately show ?thesis using ns' u by (simp add: normalizeEdges_def edge_records_def Let_def)
qed

text \<open>The number read from a string of digits.\<close>

definition digits_value :: "string \<Rightarrow> nat" where
  "digits_value s = foldl (\<lambda>n c. 10 * n + (of_char c - 48)) 0 s"

lemma digits_value_nat_str: "digits_value (nat_str n) = n"
proof (induction n rule: nat_str.induct)
  case (1 n)
  show ?case
  proof (cases "n < 10")
    case True
    then show ?thesis by (subst nat_str.simps) (simp add: digits_value_def)
  next
    case False
    then have "nat_str n = nat_str (n div 10) @ [char_of (48 + n mod 10)]" by (subst nat_str.simps) simp
    moreover have "48 + n mod 10 < 256" by presburger
    ultimately show ?thesis using 1 False by (simp add: digits_value_def)
  qed
qed

lemma digits_value_padStart: "digits_value (padStart k s) = digits_value s"
proof -
  have "foldl (\<lambda>n c. 10 * n + (of_char c - 48)) 0 (replicate j CHR ''0'') = (0::nat)" for j
    by (induction j) auto
  then show ?thesis by (simp add: digits_value_def padStart_def)
qed

lemma length_nat_str: "n < 10 ^ k \<Longrightarrow> 0 < k \<Longrightarrow> length (nat_str n) \<le> k"
proof (induction n arbitrary: k rule: nat_str.induct)
  case (1 n)
  show ?case
  proof (cases "n < 10")
    case True
    then show ?thesis using 1 by (subst nat_str.simps) simp
  next
    case False
    then obtain j where k: "k = Suc j" "0 < j" using 1 by (cases k; cases "k - 1") auto
    have "n div 10 < 10 ^ j" using 1 k by (simp add: less_mult_imp_div_less)
    then have "length (nat_str (n div 10)) \<le> j" using 1 False k by blast
    then show ?thesis using False k by (subst nat_str.simps) simp
  qed
qed

lemma anchor_key_inj:
  assumes "i @ nul @ padStart 16 (int_str x) = j @ nul @ padStart 16 (int_str y)"
    and "is_safe x" "is_safe y" "0 \<le> x" "0 \<le> y"
  shows "i = j \<and> x = y"
proof -
  have "nat x < 10 ^ 16" "nat y < 10 ^ 16" using assms(2,3) by (auto simp: is_safe_def)
  then have len: "length (padStart 16 (int_str x)) = 16" "length (padStart 16 (int_str y)) = 16"
    using length_nat_str [of "nat x" 16] length_nat_str [of "nat y" 16] assms(4,5)
    by (auto simp: padStart_def int_str_def)
  then have eq: "i = j" "padStart 16 (int_str x) = padStart 16 (int_str y)"
    using assms(1) append_eq_append_conv [of "nul @ padStart 16 (int_str x)" "nul @ padStart 16 (int_str y)" i j]
    by (metis append_eq_append_conv length_append append_same_eq same_append_eq)+
  have "nat x = nat y"
    using arg_cong [OF eq(2), of digits_value] assms(4,5)
    by (simp add: digits_value_padStart digits_value_nat_str int_str_def)
  then show ?thesis using eq(1) assms(4,5) by auto
qed

lemma normalizeAnchor_key:
  "normalizeAnchor nm m v = Inr a \<Longrightarrow>
   anchorKey a = anchorEdgeId a @ nul @ padStart 16 (int_str (offsetMm a)) \<and> is_safe (offsetMm a) \<and>
   0 \<le> offsetMm a \<and> map_of m (anchorEdgeId a) = Some (anchorEdge a)"
  by (auto simp: normalizeAnchor_def res_simps safeInteger_Inr split: option.splits)

lemma same_anchor:
  assumes "normalizeAnchor nm m v = Inr a" and "normalizeAnchor nm' m v' = Inr b" and "anchorKey a = anchorKey b"
  shows "a = b"
proof -
  note a = normalizeAnchor_key [OF assms(1)] and b = normalizeAnchor_key [OF assms(2)]
  have "anchorEdgeId a = anchorEdgeId b \<and> offsetMm a = offsetMm b"
    by (rule anchor_key_inj) (use a b assms(3) in auto)
  then show ?thesis using a b assms(3) by (intro anchor.equality) auto
qed

interpretation anchor_cmp: comparator compareAnchor
  by unfold_locales (auto simp: compareAnchor_def compareText_def split: if_splits)

lemma without_repeats_strict:
  "sorted_wrt (\<lambda>x y. compareAnchor x y \<le> 0) as \<Longrightarrow> (\<forall>a \<in> set as. \<forall>q. p = Some q \<longrightarrow> q \<le> anchorKey a) \<Longrightarrow>
   sorted_wrt (<) (map anchorKey (without_repeats p as)) \<and>
   (\<forall>a \<in> set (without_repeats p as). \<forall>q. p = Some q \<longrightarrow> q < anchorKey a)"
proof (induction p as rule: without_repeats.induct)
  case (1 p)
  then show ?case by simp
next
  case (2 p a as)
  have le: "\<forall>b \<in> set as. anchorKey a \<le> anchorKey b" and srt: "sorted_wrt (\<lambda>x y. compareAnchor x y \<le> 0) as"
    using "2.prems"(1) by (auto simp: compareAnchor_def compareText_le)
  show ?case
  proof (cases "p = Some (anchorKey a)")
    case True
    then show ?thesis using "2.IH"(1) [OF True srt] le by simp
  next
    case False
    then have "\<forall>q. p = Some q \<longrightarrow> q < anchorKey a" using "2.prems"(2) by (metis le_neq_trans list.set_intros(1))
    then show ?thesis using "2.IH"(2) [OF False srt] le False by (auto intro: less_le_trans)
  qed
qed

text \<open>A key survives the removal of repeats unless it is the one before the list.\<close>

lemma without_repeats_keys:
  "anchorKey ` set as \<subseteq> anchorKey ` set (without_repeats p as) \<union> {q. p = Some q}"
proof (induction p as rule: without_repeats.induct)
  case (2 p a as)
  then show ?case by (cases "p = Some (anchorKey a)") auto
qed simp

lemma normalizeAnchors_set:
  assumes "normalizeAnchors (JArray vs) nm m = Inr as" and "set vs' = set vs"
  shows "normalizeAnchors (JArray vs') nm m = Inr as"
proof -
  obtain ns where ns: "map_res (normalizeAnchor nm m) vs = Inr ns" and ne: "vs \<noteq> []"
    and as: "as = without_repeats None (sort_by compareAnchor ns)"
    using assms(1) by (auto simp: normalizeAnchors_def res_simps)
  obtain ns' where ns': "map_res (normalizeAnchor nm m) vs' = Inr ns'" and same: "set ns' = set ns"
    using map_res_set_image [OF ns assms(2)] .
  let ?as' = "without_repeats None (sort_by compareAnchor ns')"
  have inj: "a = b" if "a \<in> set ns" "b \<in> set ns" "anchorKey a = anchorKey b" for a b
    using map_res_set [OF ns that(1)] map_res_set [OF ns that(2)] same_anchor that(3) by blast
  have all: "set (without_repeats None (sort_by compareAnchor ms)) = set ns" if ms: "set ms = set ns" for ms
  proof
    show "set (without_repeats None (sort_by compareAnchor ms)) \<subseteq> set ns"
      using set_without_repeats [of None "sort_by compareAnchor ms"] ms by simp
    show "set ns \<subseteq> set (without_repeats None (sort_by compareAnchor ms))"
    proof
      fix a assume a: "a \<in> set ns"
      then obtain b where b: "b \<in> set (without_repeats None (sort_by compareAnchor ms))" "anchorKey a = anchorKey b"
        using without_repeats_keys [of "sort_by compareAnchor ms" None] ms by (auto simp: image_subset_iff image_iff)
      then have "b \<in> set ns" using set_without_repeats [of None "sort_by compareAnchor ms"] ms by auto
      then show "a \<in> set (without_repeats None (sort_by compareAnchor ms))" using inj [OF a _ b(2)] b(1) by simp
    qed
  qed
  have "?as' = as"
    unfolding as
    by (rule strictly_sorted_unique [of anchorKey])
      (use without_repeats_strict [OF anchor_cmp.sorted_sort_by] all same in auto)
  moreover have "vs' \<noteq> []" using ne assms(2) by auto
  ultimately show ?thesis using ns' by (simp add: normalizeAnchors_def)
qed

lemma routeBetween_same:
  assumes "routeBetweenTrackAnchors (EdgesIterable es) (JArray os) (JArray ds) target = Inr res"
    and "mset es' = mset es" "set os' = set os" "set ds' = set ds"
  shows "routeBetweenTrackAnchors (EdgesIterable es') (JArray os') (JArray ds') target = Inr res"
proof -
  obtain r where r: "createDeterministicTrackRouter (EdgesIterable es) [] = Inr r"
    and route: "route r (JArray os) (JArray ds) target = Inr res"
    using assms(1) by (auto simp: routeBetweenTrackAnchors_def res_simps)
  have "createDeterministicTrackRouter (EdgesIterable es') [] = Inr r"
    using r normalizeEdges_mset [OF _ assms(2)]
    by (auto simp: createDeterministicTrackRouter_def res_simps Let_def)
  moreover have "route r (JArray os') (JArray ds') target = Inr res"
    using route normalizeAnchors_set [OF _ assms(3)] normalizeAnchors_set [OF _ assms(4)]
    by (auto simp: route_def res_simps)
  ultimately show ?thesis by (simp add: routeBetweenTrackAnchors_def)
qed

text \<open>Validation throws none of the errors that stand for a broken loop.\<close>

definition input_error :: "router_error + 'a \<Rightarrow> bool" where
  "input_error m \<longleftrightarrow> m \<noteq> Inl OutOfFuel \<and> (\<forall>h. m \<noteq> Inl (Heap h))"

lemma input_error_bnd:
  "input_error m \<Longrightarrow> (\<And>x. m = Inr x \<Longrightarrow> input_error (f x)) \<Longrightarrow> input_error (bnd m f)"
  by (cases m) (auto simp: input_error_def)

lemma input_error_invariant:
  "e \<noteq> OutOfFuel \<Longrightarrow> (\<And>h. e \<noteq> Heap h) \<Longrightarrow> (c \<Longrightarrow> input_error k) \<Longrightarrow> input_error (invariant c e k)"
  by (auto simp: input_error_def invariant_def)

lemma input_error_map: "(\<And>x. input_error (f x)) \<Longrightarrow> input_error (map_res f xs)"
  by (induction xs) (auto intro!: input_error_bnd simp: input_error_def [of "Inr _"])

lemma input_error_fold: "(\<And>x s. input_error (f x s)) \<Longrightarrow> input_error (fold_res f xs s)"
  by (induction xs arbitrary: s) (auto intro!: input_error_bnd simp: input_error_def [of "Inr _"])

lemma input_error_overflow: "only_overflow m \<Longrightarrow> input_error m"
  by (auto simp: input_error_def only_overflow_def)

lemma input_error_Inr: "input_error (Inr x)"
  by (simp add: input_error_def)

lemma input_error_Inl: "input_error (Inl e) \<longleftrightarrow> e \<noteq> OutOfFuel \<and> (\<forall>h. e \<noteq> Heap h)"
  by (auto simp: input_error_def)

lemmas input_error_intros =
  input_error_bnd input_error_invariant input_error_map input_error_fold input_error_Inr

lemma input_error_basic:
  "input_error (exactKeys v ks nm)" "input_error (nonEmptyString v nm)" "input_error (safeInteger v nm)"
  by (auto simp: exactKeys_def nonEmptyString_def safeInteger_def input_error_Inl split: jsval.split
      intro!: input_error_intros)

lemma input_error_keys: "input_error (nodeKey v nm)" "input_error (routeNumberKeyOf b v nm)"
  by (auto simp: nodeKey_def routeNumberKeyOf_def input_error_Inl split: jsval.split
      intro!: input_error_intros input_error_basic)

lemma input_error_no_equal: "input_error (no_equal_neighbours es)"
  by (induction es rule: no_equal_neighbours.induct) (auto intro!: input_error_intros)

lemma input_error_create: "input_error (createDeterministicTrackRouter edges allowed)"
  by (auto simp: createDeterministicTrackRouter_def normalizeEdges_def edge_records_def normalizeEdge_def
      checkDirections_def Let_def input_error_Inl split: edges_input.split
      intro!: input_error_intros input_error_basic input_error_keys input_error_no_equal)

lemma input_error_anchors: "input_error (normalizeAnchors v nm m)"
  by (auto simp: normalizeAnchors_def normalizeAnchor_def input_error_Inl split: option.split
      intro!: input_error_intros input_error_basic)

lemma input_error_route: "wf_router r \<Longrightarrow> input_error (route r origins destinations target)"
  unfolding route_def directCandidates_def destinationByNode_def
  by (intro input_error_bnd input_error_keys input_error_anchors input_error_fold input_error_Inr
      input_error_overflow only_overflow_parts search_fuel_enough) auto

end
