(* ===== verification/TrackRouterProperties.thy ===== *)
theory TrackRouterProperties
  imports TrackRouterOrder
begin

text \<open>
  The properties of the track router, each with an instance on a small network: line 10 from
  node 1 over node 2, a shorter way to node 3 off the line, and a longer way on it.
\<close>

section \<open>A small network\<close>

definition sample_edge :: "string \<Rightarrow> int \<Rightarrow> int \<Rightarrow> int \<Rightarrow> int \<Rightarrow> jsval" where
  "sample_edge i f t l n = JObject [(''edgeId'', JString i), (''fromNodeId'', JInt f),
     (''toNodeId'', JInt t), (''lengthMm'', JInt l), (''routeNumber'', JInt n)]"

definition sample_anchor :: "string \<Rightarrow> int \<Rightarrow> jsval" where
  "sample_anchor i off = JObject [(''edgeId'', JString i), (''offsetMm'', JInt off)]"

abbreviation sample_edges :: "jsval list" where
  "sample_edges \<equiv> [sample_edge ''B'' 2 3 50 20, sample_edge ''A'' 1 2 100 10, sample_edge ''C'' 1 3 500 10]"

definition sample_router :: router where
  "sample_router = projr (createDeterministicTrackRouter (EdgesIterable sample_edges) [])"

abbreviation sample_from :: jsval where
  "sample_from \<equiv> JArray [sample_anchor ''A'' 40]"

abbreviation sample_to :: jsval where
  "sample_to \<equiv> JArray [sample_anchor ''B'' 50]"

definition sample_anchors :: "jsval \<Rightarrow> anchor list" where
  "sample_anchors v = projr (normalizeAnchors v ''origins'' (rtEdgeById sample_router))"

definition sample_result :: route_result where
  "sample_result = \<lparr>resOrigin = (''A'', 40), resDestination = (''B'', 50), resTarget = JInt 10,
     resLegs = [\<lparr>legEdgeId = ''A'', legDirection = Along, edgeEntryMm = 40, edgeExitMm = 100\<rparr>,
                \<lparr>legEdgeId = ''B'', legDirection = Along, edgeEntryMm = 0, edgeExitMm = 50\<rparr>],
     resCost = Cost 460 50 110\<rparr>"

lemma sample_create: "createDeterministicTrackRouter (EdgesIterable sample_edges) [] = Inr sample_router"
  by code_simp

lemma sample_route: "route sample_router sample_from sample_to (JInt 10) = Inr (Some sample_result)"
  by code_simp

lemma sample_inputs:
  "routeNumberKeyOf False (JInt 10) ''targetRouteNumber'' = Inr (Some ''10'')"
  "normalizeAnchors sample_from ''origins'' (rtEdgeById sample_router) = Inr (sample_anchors sample_from)"
  "normalizeAnchors sample_to ''destinations'' (rtEdgeById sample_router) = Inr (sample_anchors sample_to)"
  by code_simp+

section \<open>What the router returns\<close>

text \<open>
  C1: a returned result is a journey between one of the origins and one of the destinations, over
  edges of the graph in permitted directions, with its exact cost; and no journey between any of
  the origins and any of the destinations costs less, in the order weighted cost, length off the
  target line, total length.
\<close>

theorem route_cheapest:
  assumes "createDeterministicTrackRouter edges allowed = Inr r"
    and "route r origins destinations target = Inr (Some res)"
    and "routeNumberKeyOf False target ''targetRouteNumber'' = Inr k"
    and "normalizeAnchors origins ''origins'' (rtEdgeById r) = Inr os"
    and "normalizeAnchors destinations ''destinations'' (rtEdgeById r) = Inr ds"
  shows "(\<exists>a \<in> set os. \<exists>d \<in> set ds. \<exists>ls. resOrigin res = publicAnchor a \<and>
            resDestination res = publicAnchor d \<and> resLegs res = mergeLegs ls \<and>
            journey (rtEdges r) allowed k a d ls (resCost res)) \<and>
         (\<forall>a \<in> set os. \<forall>d \<in> set ds. \<forall>ls c. journey (rtEdges r) allowed k a d ls c \<longrightarrow>
            compareCost (resCost res) c \<le> 0)"
proof -
  note wf = create_wf_router [OF assms(1)]
  obtain best where res: "Some res = map_option (\<lambda>c. publicResult c target) best"
    and good: "\<And>c. best = Some c \<Longrightarrow> good_candidate r k os ds c"
    and least: "\<And>a d ls c. a \<in> set os \<Longrightarrow> d \<in> set ds \<Longrightarrow>
      journey (rtEdges r) (rtAllowed r) k a d ls c \<Longrightarrow> at_most best c"
    by (rule route_candidate [OF assms(2) wf(1) assms(3-5)]) blast
  from res [symmetric] obtain b where b: "best = Some b" "res = publicResult b target" by auto
  then show ?thesis
    using good [OF b(1)] least wf(2)
    by (fastforce simp: good_candidate_def publicResult_def at_most_def compareCost_le)
qed

theorem route_cheapest_witness:
  "\<exists>a \<in> set (sample_anchors sample_from). \<exists>d \<in> set (sample_anchors sample_to). \<exists>ls.
     journey (rtEdges sample_router) [] (Some ''10'') a d ls (Cost 460 50 110)"
  using route_cheapest [OF sample_create sample_route sample_inputs]
  by (auto simp: sample_result_def)

text \<open>
  C2: the router returns \<open>null\<close> exactly when there is no journey at all from one of the origins to
  one of the destinations.
\<close>

theorem route_null_iff:
  assumes "createDeterministicTrackRouter edges allowed = Inr r"
    and "route r origins destinations target = Inr res"
    and "routeNumberKeyOf False target ''targetRouteNumber'' = Inr k"
    and "normalizeAnchors origins ''origins'' (rtEdgeById r) = Inr os"
    and "normalizeAnchors destinations ''destinations'' (rtEdgeById r) = Inr ds"
  shows "res = None \<longleftrightarrow>
    \<not> (\<exists>a \<in> set os. \<exists>d \<in> set ds. \<exists>ls c. journey (rtEdges r) allowed k a d ls c)"
proof -
  note wf = create_wf_router [OF assms(1)]
  obtain best where res: "res = map_option (\<lambda>c. publicResult c target) best"
    and good: "\<And>c. best = Some c \<Longrightarrow> good_candidate r k os ds c"
    and least: "\<And>a d ls c. a \<in> set os \<Longrightarrow> d \<in> set ds \<Longrightarrow>
      journey (rtEdges r) (rtAllowed r) k a d ls c \<Longrightarrow> at_most best c"
    by (rule route_candidate [OF assms(2) wf(1) assms(3-5)]) blast
  show ?thesis
    using good least wf(2) res by (cases best) (fastforce simp: good_candidate_def at_most_def)+
qed

theorem route_null_iff_witness:
  "\<exists>a \<in> set (sample_anchors sample_from). \<exists>d \<in> set (sample_anchors sample_to). \<exists>ls c.
     journey (rtEdges sample_router) [] (Some ''10'') a d ls c"
  using route_null_iff [OF sample_create sample_route sample_inputs] by auto

text \<open>
  C3: a query ends: for every graph, restriction, anchors and target the rounds given to the loop
  suffice and the queue is never popped when it is empty, so validation and costs beyond the safe
  integers are the only errors.
\<close>

theorem route_terminates:
  "bnd (createDeterministicTrackRouter edges allowed)
     (\<lambda>r. route r origins destinations target) \<noteq> Inl OutOfFuel \<and>
   (\<forall>h. bnd (createDeterministicTrackRouter edges allowed)
     (\<lambda>r. route r origins destinations target) \<noteq> Inl (Heap h))"
proof -
  have "input_error (bnd (createDeterministicTrackRouter edges allowed)
     (\<lambda>r. route r origins destinations target))"
    by (intro input_error_bnd input_error_create input_error_route create_wf_router(1))
  then show ?thesis by (simp add: input_error_def)
qed

text \<open>
  C4: the legs of a result are a drive without a gap from the origin to the destination: every leg
  lies inside its edge, runs in its direction, is permitted and is not empty; legs that continue
  each other are merged; and the costs of the legs add up to the cost of the result.
\<close>

theorem route_legs:
  assumes "createDeterministicTrackRouter edges allowed = Inr r"
    and "route r origins destinations target = Inr (Some res)"
  shows "\<exists>k e e'. routeNumberKeyOf False target ''targetRouteNumber'' = Inr k \<and>
    map_of (rtEdgeById r) (fst (resOrigin res)) = Some e \<and>
    map_of (rtEdgeById r) (fst (resDestination res)) = Some e' \<and>
    drives (rtEdgeById r) (place e (snd (resOrigin res))) (resLegs res) (place e' (snd (resDestination res))) \<and>
    (\<forall>g \<in> set (resLegs res). proper_leg (rtEdgeById r) allowed g) \<and> merged (resLegs res) \<and>
    resCost res = sum_list (map (leg_cost (rtEdgeById r) k) (resLegs res))"
proof -
  note wf = create_wf_router [OF assms(1)]
  from route_inputs [OF assms(2)] obtain k os ds
    where k: "routeNumberKeyOf False target ''targetRouteNumber'' = Inr k"
    and os: "normalizeAnchors origins ''origins'' (rtEdgeById r) = Inr os"
    and ds: "normalizeAnchors destinations ''destinations'' (rtEdgeById r) = Inr ds" by metis
  obtain best where res: "Some res = map_option (\<lambda>c. publicResult c target) best"
    and good: "\<And>c. best = Some c \<Longrightarrow> good_candidate r k os ds c"
    by (rule route_candidate [OF assms(2) wf(1) k os ds]) blast
  from res [symmetric] obtain b where b: "best = Some b" "res = publicResult b target" by auto
  from good [OF b(1)] obtain ls where a: "cdOrigin b \<in> set os" "cdDestination b \<in> set ds" and ls: "cdLegs b = mergeLegs ls"
    and j: "journey (rtEdges r) (rtAllowed r) k (cdOrigin b) (cdDestination b) ls (cdCost b)"
    by (auto simp: good_candidate_def)
  note anchors = normalizeAnchors_wf [OF os a(1)] normalizeAnchors_wf [OF ds a(2)]
  from journey_legs [OF j wf(1) anchors] anchors
  show ?thesis
    by (auto simp: b publicResult_def publicAnchor_def ls k legs_ok_def wf_anchor_def wf(2))
qed

theorem route_legs_witness:
  "resCost sample_result = sum_list (map (leg_cost (rtEdgeById sample_router) (Some ''10'')) (resLegs sample_result))"
  using route_legs [OF sample_create sample_route] sample_inputs(1) by auto

text \<open>
  C5: the result of a query does not depend on the order in which the edges are listed, nor on the
  order or repetition of the anchors.
\<close>

theorem route_order_irrelevant:
  assumes "mset es' = mset es" "set os' = set os" "set ds' = set ds"
  shows "routeBetweenTrackAnchors (EdgesIterable es') (JArray os') (JArray ds') target = Inr res \<longleftrightarrow>
    routeBetweenTrackAnchors (EdgesIterable es) (JArray os) (JArray ds) target = Inr res"
  using assms by (intro iffI) (erule routeBetween_same; simp)+

theorem route_order_irrelevant_witness:
  "routeBetweenTrackAnchors (EdgesIterable (rev sample_edges))
     (JArray [sample_anchor ''A'' 40, sample_anchor ''A'' 40]) sample_to (JInt 10) = Inr (Some sample_result)"
  by (subst route_order_irrelevant [of _ sample_edges _ "[sample_anchor ''A'' 40]" _ "[sample_anchor ''B'' 50]"])
    (simp_all add: routeBetweenTrackAnchors_def sample_create sample_route)

text \<open>
  The cost of a stretch is exact: off the target line its weighted cost is eight times its
  length, and it is refused exactly when that is not a safe integer, whatever the rounding of the
  double arithmetic on the way.
\<close>

theorem segmentCost_exact_or_refused:
  assumes "is_safe len" and "0 \<le> len"
  shows "segmentCost e len targetKey =
    (if routeNumberKey e = targetKey then Inr (Cost len 0 len)
     else if is_safe (8 * len) then Inr (Cost (8 * len) len len)
     else Inl (CostOverflow ''weighted''))"
proof (cases "routeNumberKey e = targetKey \<or> is_safe (8 * len)")
  case True
  have "is_safe (7 * len)" if "is_safe (8 * len)" using that assms(2) by (simp add: is_safe_def)
  then show ?thesis
    using True assms(1)
    by (auto simp: segmentCost_def checkedAdd_def js_add_def js_mul_def OFF_TARGET_ROUTE_COST_MULTIPLIER_def
        invariant_def ac_simps)
next
  case False
  obtain err where "segmentCost e len targetKey = Inl err"
  proof (cases "segmentCost e len targetKey")
    case (Inr c)
    with False have "is_safe (weightedCostMm c)" by (auto simp: segmentCost_def res_simps Let_def)
    moreover have "c = seg_cost targetKey e len" by (rule segmentCost_exact [OF Inr assms(2)])
    ultimately show thesis using False by (simp add: seg_cost_def)
  qed
  then show ?thesis
    using False by (auto simp: segmentCost_def bnd_Inl checkedAdd_def Let_def invariant_Inl split: if_splits)
qed

theorem segmentCost_exact_or_refused_witness:
  "segmentCost (rtEdges sample_router ! 1) 2000000000000000 (Some ''10'') = Inl (CostOverflow ''weighted'')"
proof -
  have "routeNumberKey (rtEdges sample_router ! 1) \<noteq> Some ''10''" by code_simp
  then show ?thesis
    using segmentCost_exact_or_refused [of 2000000000000000 "rtEdges sample_router ! 1" "Some ''10''"]
    by (simp add: is_safe_def)
qed

text \<open>
  States pushed one after another leave the queue in the order of \<open>compareState\<close>: the first
  pop returns one of them that no other precedes, the rest stay, and the array is a heap again.
\<close>

theorem state_queue_pops_least:
  assumes "ss \<noteq> []"
  shows "\<exists>s h. heap_pop compareState (fold (\<lambda>s h. heap_push compareState h s) ss []) = Inr (s, h) \<and>
    mset ss = add_mset s (mset h) \<and> (\<forall>t \<in> set ss. compareState s t \<le> 0) \<and> is_heap compareState h"
proof -
  have "is_heap compareState (fold (\<lambda>s h. heap_push compareState h s) ss h) \<and>
      mset (fold (\<lambda>s h. heap_push compareState h s) ss h) = mset ss + mset h"
    if "is_heap compareState h" for h
    using that by (induction ss arbitrary: h) (simp_all add: state_cmp.heap_push_is_heap)
  from this [of "[]"] have h: "is_heap compareState (fold (\<lambda>s h. heap_push compareState h s) ss [])"
    and m: "mset (fold (\<lambda>s h. heap_push compareState h s) ss []) = mset ss"
    by (simp_all add: is_heap_def)
  then have "fold (\<lambda>s h. heap_push compareState h s) ss [] \<noteq> []"
    and "set (fold (\<lambda>s h. heap_push compareState h s) ss []) = set ss"
    using assms by (auto dest: arg_cong [of _ _ set_mset])
  then show ?thesis using state_cmp.heap_pop_spec [OF h] m by auto
qed

definition sample_state :: "int \<Rightarrow> string \<Rightarrow> rstate" where
  "sample_state c n = RState (Cost c 0 c) n (sample_anchors sample_from ! 0) None [] [] None"

theorem state_queue_pops_least_witness:
  "\<exists>s h. heap_pop compareState (fold (\<lambda>s h. heap_push compareState h s)
     [sample_state 3 ''n:1'', sample_state 1 ''n:2'', sample_state 2 ''n:3''] []) = Inr (s, h) \<and>
   compareState s (sample_state 1 ''n:2'') \<le> 0"
  using state_queue_pops_least [of "[sample_state 3 ''n:1'', sample_state 1 ''n:2'', sample_state 2 ''n:3'']"]
  by auto

end
