(* ===== verification/Hungarian.thy ===== *)
theory Hungarian
  imports Prelude
begin

text \<open>
  The assignment solver \<open>hungarian\<close> of \<open>tools/region-import/daily-circulation-v2.mjs\<close>: potentials
  \<open>u\<close>, \<open>v\<close>, the partial matching \<open>p\<close> from columns (targets) to rows (sources) with the auxiliary
  column 0, and the tree \<open>way\<close> of the search for an augmenting path. Arrays are lists. The
  definitions take the rounding of the arithmetic as a parameter: the code is the instance
  \<open>js_round\<close>, and the instance \<open>id\<close> computes exactly. Both \<open>do\<close> loops run on fuel.
\<close>

section \<open>Numbers\<close>

text \<open>A cost is a finite number or \<open>Number.POSITIVE_INFINITY\<close>.\<close>

datatype jcost = Fin int | PosInf

fun cost_less :: "jcost \<Rightarrow> jcost \<Rightarrow> bool" where
  "cost_less (Fin a) (Fin b) = (a < b)"
| "cost_less (Fin a) PosInf = True"
| "cost_less PosInf b = False"

fun cost_minus :: "(int \<Rightarrow> int) \<Rightarrow> jcost \<Rightarrow> int \<Rightarrow> jcost" where
  "cost_minus rnd (Fin a) b = Fin (rnd (a - b))"
| "cost_minus rnd PosInf b = PosInf"

fun is_finite :: "jcost \<Rightarrow> bool" where
  "is_finite (Fin a) = True"
| "is_finite PosInf = False"

datatype matching_error = NotSquare | NoPerfectMatching | IncompleteMatching | MatchingFuel

section \<open>The algorithm\<close>

text \<open>One round of the loop over the targets that are not used: relax, then look for the minimum.\<close>

type_synonym scan_state = "jcost list \<times> nat list \<times> jcost \<times> nat"

definition scan_target ::
    "(int \<Rightarrow> int) \<Rightarrow> jcost list list \<Rightarrow> int list \<Rightarrow> int list \<Rightarrow> bool list \<Rightarrow> nat \<Rightarrow> nat \<Rightarrow> nat \<Rightarrow>
     scan_state \<Rightarrow> scan_state" where
  "scan_target rnd costs u v used source0 target0 target s =
     (case s of (minimum, way, delta, target1) \<Rightarrow>
       if used ! target then s
       else let cost = costs ! (source0 - 1) ! (target - 1);
              current = cost_minus rnd (cost_minus rnd cost (u ! source0)) (v ! target);
              better = cost_less current (minimum ! target);
              minimum' = (if better then minimum[target := current] else minimum);
              way' = (if better then way[target := target0] else way)
            in if cost_less (minimum' ! target) delta then (minimum', way', minimum' ! target, target)
               else (minimum', way', delta, target1))"

definition scan ::
    "(int \<Rightarrow> int) \<Rightarrow> jcost list list \<Rightarrow> int list \<Rightarrow> int list \<Rightarrow> bool list \<Rightarrow> nat \<Rightarrow> nat \<Rightarrow>
     jcost list \<Rightarrow> nat list \<Rightarrow> scan_state" where
  "scan rnd costs u v used source0 target0 minimum way =
     fold (scan_target rnd costs u v used source0 target0) [1..<Suc (length costs)] (minimum, way, PosInf, 0)"

text \<open>The loop that moves the potentials by \<open>delta\<close>.\<close>

definition shift_target ::
    "(int \<Rightarrow> int) \<Rightarrow> nat list \<Rightarrow> bool list \<Rightarrow> int \<Rightarrow> nat \<Rightarrow>
     int list \<times> int list \<times> jcost list \<Rightarrow> int list \<times> int list \<times> jcost list" where
  "shift_target rnd p used delta target s =
     (case s of (u, v, minimum) \<Rightarrow>
       if used ! target
       then (u[p ! target := rnd (u ! (p ! target) + delta)], v[target := rnd (v ! target - delta)], minimum)
       else (u, v, minimum[target := cost_minus rnd (minimum ! target) delta]))"

definition shift ::
    "(int \<Rightarrow> int) \<Rightarrow> nat \<Rightarrow> nat list \<Rightarrow> bool list \<Rightarrow> int \<Rightarrow>
     int list \<times> int list \<times> jcost list \<Rightarrow> int list \<times> int list \<times> jcost list" where
  "shift rnd n p used delta s = fold (shift_target rnd p used delta) [0..<Suc n] s"

record tree =
  potU :: "int list"
  potV :: "int list"
  minimum :: "jcost list"
  way :: "nat list"
  used :: "bool list"

text \<open>The first \<open>do\<close> loop: grow the tree until it reaches a free target.\<close>

fun grow :: "(int \<Rightarrow> int) \<Rightarrow> jcost list list \<Rightarrow> nat list \<Rightarrow> nat \<Rightarrow> nat \<Rightarrow> tree \<Rightarrow> matching_error + nat \<times> tree" where
  "grow rnd costs p 0 target0 t = Inl MatchingFuel"
| "grow rnd costs p (Suc fuel) target0 t =
     (let used' = (used t)[target0 := True];
          source0 = p ! target0
      in case scan rnd costs (potU t) (potV t) used' source0 target0 (minimum t) (way t) of
        (minimum', way', delta, target1) \<Rightarrow>
          (case delta of
             PosInf \<Rightarrow> Inl NoPerfectMatching
           | Fin d \<Rightarrow>
               (case shift rnd (length costs) p used' d (potU t, potV t, minimum') of
                  (u', v', minimum'') \<Rightarrow>
                    let t' = \<lparr>potU = u', potV = v', minimum = minimum'', way = way', used = used'\<rparr>
                    in if p ! target1 \<noteq> 0 then grow rnd costs p fuel target1 t'
                       else Inr (target1, t'))))"

text \<open>The second \<open>do\<close> loop: move the matching along the path.\<close>

fun augment :: "nat list \<Rightarrow> nat \<Rightarrow> nat \<Rightarrow> nat list \<Rightarrow> matching_error + nat list" where
  "augment w 0 target0 p = Inl MatchingFuel"
| "augment w (Suc fuel) target0 p =
     (let target1 = w ! target0;
          p' = p[target0 := p ! target1]
      in if target1 \<noteq> 0 then augment w fuel target1 p' else Inr p')"

text \<open>The body of the loop over the sources, on \<open>u\<close>, \<open>v\<close>, \<open>p\<close> and \<open>way\<close>.\<close>

type_synonym phase_state = "int list \<times> int list \<times> nat list \<times> nat list"

definition phase ::
    "(int \<Rightarrow> int) \<Rightarrow> jcost list list \<Rightarrow> nat \<Rightarrow> phase_state \<Rightarrow> matching_error + phase_state" where
  "phase rnd costs source s =
     (case s of (u, v, p, w) \<Rightarrow>
       let n = length costs; p' = p[0 := source] in
       bnd (grow rnd costs p' (Suc n) 0
             \<lparr>potU = u, potV = v, minimum = replicate (Suc n) PosInf, way = w,
              used = replicate (Suc n) False\<rparr>) (\<lambda>(target0, t).
       bnd (augment (way t) (Suc n) target0 p') (\<lambda>p''.
       Inr (potU t, potV t, p'', way t))))"

definition phases :: "(int \<Rightarrow> int) \<Rightarrow> jcost list list \<Rightarrow> matching_error + phase_state" where
  "phases rnd costs =
     (let zeros = replicate (Suc (length costs)) 0 in
      fold_res (phase rnd costs) [1..<Suc (length costs)]
        (zeros, zeros, replicate (Suc (length costs)) 0, replicate (Suc (length costs)) 0))"

text \<open>
  Reading the result off \<open>p\<close>: \<open>targetBySource[p[target] - 1] = target - 1\<close>; an index of \<open>-1\<close>
  would set a property that nothing reads.
\<close>

definition read_matching :: "nat \<Rightarrow> nat list \<Rightarrow> int list" where
  "read_matching n p =
     fold (\<lambda>target t. if p ! target = 0 then t else t[p ! target - 1 := int target - 1])
       [1..<Suc n] (replicate n (-1))"

definition hungarian_rounding ::
    "(int \<Rightarrow> int) \<Rightarrow> jcost list list \<Rightarrow> matching_error + nat list" where
  "hungarian_rounding rnd costs =
     invariant (costs \<noteq> [] \<and> (\<forall>row \<in> set costs. length row = length costs)) NotSquare
       (bnd (phases rnd costs) (\<lambda>(u, v, p, w).
        let targetBySource = read_matching (length costs) p in
        invariant (\<forall>source \<in> {..<length costs}. 0 \<le> targetBySource ! source \<and>
            is_finite (costs ! source ! nat (targetBySource ! source))) IncompleteMatching
          (Inr (map nat targetBySource))))"

definition hungarian :: "jcost list list \<Rightarrow> matching_error + nat list" where
  "hungarian costs = hungarian_rounding js_round costs"

end
