(* ===== verification/HungarianTree.thy ===== *)
theory HungarianTree
  imports Hungarian
begin

text \<open>
  The search tree of the assignment solver: what its loops compute, the invariants of the tree and
  of the potentials, and what it means for the matching when the tree can or cannot grow.
\<close>

section \<open>Costs are ordered\<close>

instantiation jcost :: linorder
begin

definition less_jcost :: "jcost \<Rightarrow> jcost \<Rightarrow> bool" where
  "less_jcost a b \<longleftrightarrow> cost_less a b"

definition less_eq_jcost :: "jcost \<Rightarrow> jcost \<Rightarrow> bool" where
  "less_eq_jcost a b \<longleftrightarrow> \<not> cost_less b a"

instance
proof
  fix a b c :: jcost
  show "(a < b) = (a \<le> b \<and> \<not> b \<le> a)" by (cases a; cases b) (auto simp: less_jcost_def less_eq_jcost_def)
  show "a \<le> a" by (cases a) (auto simp: less_eq_jcost_def)
  show "a \<le> b \<Longrightarrow> b \<le> c \<Longrightarrow> a \<le> c" by (cases a; cases b; cases c) (auto simp: less_eq_jcost_def)
  show "a \<le> b \<Longrightarrow> b \<le> a \<Longrightarrow> a = b" by (cases a; cases b) (auto simp: less_eq_jcost_def)
  show "a \<le> b \<or> b \<le> a" by (cases a; cases b) (auto simp: less_eq_jcost_def)
qed

end

lemma jcost_le [simp]: "Fin a \<le> Fin b \<longleftrightarrow> a \<le> b" "x \<le> PosInf" "PosInf \<le> x \<longleftrightarrow> x = PosInf"
  by (cases x; simp add: less_eq_jcost_def linorder_not_less)+

lemma cost_less_iff [simp]: "cost_less a b \<longleftrightarrow> a < b"
  by (simp add: less_jcost_def)

lemma Fin_less_PosInf [simp]: "Fin a < PosInf" "\<not> PosInf < x" "Fin a < Fin b \<longleftrightarrow> a < b"
  by (simp_all add: less_jcost_def del: cost_less_iff)

section \<open>What the loops compute\<close>

abbreviation cost_at :: "jcost list list \<Rightarrow> nat \<Rightarrow> nat \<Rightarrow> jcost" where
  "cost_at costs i j \<equiv> costs ! (i - 1) ! (j - 1)"

definition reduced :: "(int \<Rightarrow> int) \<Rightarrow> jcost list list \<Rightarrow> int list \<Rightarrow> int list \<Rightarrow> nat \<Rightarrow> nat \<Rightarrow> jcost" where
  "reduced rnd costs u v i j = cost_minus rnd (cost_minus rnd (cost_at costs i j) (u ! i)) (v ! j)"

definition scanned ::
    "(int \<Rightarrow> int) \<Rightarrow> jcost list list \<Rightarrow> int list \<Rightarrow> int list \<Rightarrow> bool list \<Rightarrow> nat \<Rightarrow> nat \<Rightarrow>
     jcost list \<Rightarrow> nat list \<Rightarrow> nat \<Rightarrow> jcost list \<Rightarrow> nat list \<Rightarrow> bool" where
  "scanned rnd costs u v us i t0 m w k m' w' \<longleftrightarrow>
     length m' = length m \<and> length w' = length w \<and>
     (\<forall>j < length m. if 1 \<le> j \<and> j < k \<and> \<not> us ! j \<and> reduced rnd costs u v i j < m ! j
        then m' ! j = reduced rnd costs u v i j \<and> w' ! j = t0 else m' ! j = m ! j \<and> w' ! j = w ! j)"

lemma scan_upto:
  assumes "length m = Suc n" "length w = Suc n" and "k \<le> Suc n" "1 \<le> k"
    and "fold (scan_target rnd costs u v us i t0) [1..<k] (m, w, PosInf, 0) = (m', w', delta, t1)"
  shows "scanned rnd costs u v us i t0 m w k m' w' \<and>
    (\<forall>j. 1 \<le> j \<longrightarrow> j < k \<longrightarrow> \<not> us ! j \<longrightarrow> delta \<le> m' ! j) \<and>
    (delta \<noteq> PosInf \<longrightarrow> 1 \<le> t1 \<and> t1 < k \<and> \<not> us ! t1 \<and> m' ! t1 = delta)"
  using assms(3-5)
proof (induction k arbitrary: m' w' delta t1)
  case 0
  then show ?case by simp
next
  case (Suc k)
  show ?case
  proof (cases "k = 0")
    case True
    then show ?thesis using Suc.prems by (auto simp: scanned_def)
  next
    case False
    obtain m1 w1 d1 t where prev: "fold (scan_target rnd costs u v us i t0) [1..<k] (m, w, PosInf, 0) = (m1, w1, d1, t)"
      by (metis prod_cases4)
    have IH: "scanned rnd costs u v us i t0 m w k m1 w1" "\<And>j. 1 \<le> j \<Longrightarrow> j < k \<Longrightarrow> \<not> us ! j \<Longrightarrow> d1 \<le> m1 ! j"
      "d1 \<noteq> PosInf \<Longrightarrow> 1 \<le> t \<and> t < k \<and> \<not> us ! t \<and> m1 ! t = d1"
      using Suc.IH [OF _ _ prev] Suc.prems(1) False by auto
    have step: "scan_target rnd costs u v us i t0 k (m1, w1, d1, t) = (m', w', delta, t1)"
      using Suc.prems(3) prev False by simp
    have k: "k < length m" "length m1 = length m" "length w1 = length w" "m1 ! k = m ! k" "w1 ! k = w ! k"
      using IH(1) assms(1) Suc.prems(1) by (auto simp: scanned_def)
    show ?thesis
    proof (cases "us ! k")
      case True
      then have "(m1, w1, d1, t) = (m', w', delta, t1)" using step by (simp add: scan_target_def)
      then show ?thesis using IH True unfolding scanned_def by (auto simp: less_Suc_eq)
    next
      case unused: False
      let ?r = "reduced rnd costs u v i k"
      have m': "m' = (if ?r < m ! k then m1[k := ?r] else m1)" "w' = (if ?r < m ! k then w1[k := t0] else w1)"
        and d: "delta = (if m' ! k < d1 then m' ! k else d1)" "t1 = (if m' ! k < d1 then k else t)"
        using step unused k(4) by (auto simp: scan_target_def Let_def reduced_def split: if_splits)
      have other: "m' ! j = m1 ! j" "w' ! j = w1 ! j" if "j \<noteq> k" for j using m' that by auto
      have at: "m' ! k = (if ?r < m ! k then ?r else m ! k)" "w' ! k = (if ?r < m ! k then t0 else w ! k)"
        using m' k assms(1,2) by auto
      have "scanned rnd costs u v us i t0 m w (Suc k) m' w'"
        unfolding scanned_def
      proof (intro conjI allI impI)
        fix j assume j: "j < length m"
        show "if 1 \<le> j \<and> j < Suc k \<and> \<not> us ! j \<and> reduced rnd costs u v i j < m ! j
          then m' ! j = reduced rnd costs u v i j \<and> w' ! j = t0 else m' ! j = m ! j \<and> w' ! j = w ! j"
          using IH(1) j at other [of j] unused False by (cases "j = k") (auto simp: scanned_def less_Suc_eq)
      qed (use m' k in auto)
      moreover have "delta \<le> m' ! j" if "1 \<le> j" "j < Suc k" "\<not> us ! j" for j
        using that IH(2) [of j] d(1) other [of j] by (cases "j = k") (auto split: if_splits)
      moreover have "1 \<le> t1 \<and> t1 < Suc k \<and> \<not> us ! t1 \<and> m' ! t1 = delta" if "delta \<noteq> PosInf"
        using that IH(3) d other [of t] unused False by (auto split: if_splits)
      ultimately show ?thesis by blast
    qed
  qed
qed

lemma scan_spec:
  assumes "length m = Suc (length costs)" "length w = Suc (length costs)"
    and "scan rnd costs u v us i t0 m w = (m', w', delta, t1)"
  shows "scanned rnd costs u v us i t0 m w (Suc (length costs)) m' w'"
    and "1 \<le> j \<Longrightarrow> j \<le> length costs \<Longrightarrow> \<not> us ! j \<Longrightarrow> delta \<le> m' ! j"
    and "delta \<noteq> PosInf \<Longrightarrow> 1 \<le> t1 \<and> t1 \<le> length costs \<and> \<not> us ! t1 \<and> m' ! t1 = delta"
  using scan_upto [OF assms(1,2) _ _ assms(3) [unfolded scan_def]] by auto

lemma shift_upto:
  assumes "length u = Suc n" "length v = Suc n" "length m = Suc n" and "k \<le> Suc n"
    and "\<And>t. t \<le> n \<Longrightarrow> p ! t \<le> n"
    and "\<And>s t. s \<le> n \<Longrightarrow> t \<le> n \<Longrightarrow> us ! s \<Longrightarrow> us ! t \<Longrightarrow> p ! s = p ! t \<Longrightarrow> s = t"
    and "fold (shift_target rnd p us d) [0..<k] (u, v, m) = (u', v', m')"
  shows "length u' = Suc n \<and> length v' = Suc n \<and> length m' = Suc n \<and>
    (\<forall>j \<le> n. v' ! j = (if j < k \<and> us ! j then rnd (v ! j - d) else v ! j)) \<and>
    (\<forall>j \<le> n. m' ! j = (if j < k \<and> \<not> us ! j then cost_minus rnd (m ! j) d else m ! j)) \<and>
    (\<forall>i \<le> n. u' ! i = (if \<exists>t < k. us ! t \<and> p ! t = i then rnd (u ! i + d) else u ! i))"
  using assms(4,7)
proof (induction k arbitrary: u' v' m')
  case 0
  then show ?case using assms(1-3) by simp
next
  case (Suc k)
  obtain u1 v1 m1 where prev: "fold (shift_target rnd p us d) [0..<k] (u, v, m) = (u1, v1, m1)"
    by (metis prod_cases3)
  have IH: "length u1 = Suc n" "length v1 = Suc n" "length m1 = Suc n"
    "\<And>j. j \<le> n \<Longrightarrow> v1 ! j = (if j < k \<and> us ! j then rnd (v ! j - d) else v ! j)"
    "\<And>j. j \<le> n \<Longrightarrow> m1 ! j = (if j < k \<and> \<not> us ! j then cost_minus rnd (m ! j) d else m ! j)"
    "\<And>i. i \<le> n \<Longrightarrow> u1 ! i = (if \<exists>t < k. us ! t \<and> p ! t = i then rnd (u ! i + d) else u ! i)"
    using Suc.IH [OF _ prev] Suc.prems(1) by auto
  have step: "shift_target rnd p us d k (u1, v1, m1) = (u', v', m')" using Suc.prems(2) prev by simp
  have kn: "k \<le> n" using Suc.prems(1) by simp
  show ?case
  proof (cases "us ! k")
    case True
    have u': "u' = u1[p ! k := rnd (u1 ! (p ! k) + d)]" and v': "v' = v1[k := rnd (v1 ! k - d)]" and m': "m' = m1"
      using step True by (auto simp: shift_target_def)
    have fresh: "\<not> (\<exists>t < k. us ! t \<and> p ! t = p ! k)" using assms(6) [OF _ kn _ True] kn by (metis less_irrefl less_le_trans less_imp_le_nat)
    have "u' ! i = (if \<exists>t < Suc k. us ! t \<and> p ! t = i then rnd (u ! i + d) else u ! i)" if "i \<le> n" for i
    proof (cases "i = p ! k")
      case True
      have "p ! k < length u1" using assms(5) [OF kn] IH(1) by simp
      moreover have "\<exists>t < Suc k. us ! t \<and> p ! t = i" using True \<open>us ! k\<close> by blast
      moreover have "u1 ! i = u ! i" using IH(6) [OF that] fresh True by simp
      ultimately show ?thesis using u' True by simp
    next
      case False
      then show ?thesis using u' IH(6) [OF that] by (auto simp: less_Suc_eq)
    qed
    moreover have "v' ! j = (if j < Suc k \<and> us ! j then rnd (v ! j - d) else v ! j)" if "j \<le> n" for j
      using IH(2) IH(4) [OF that] v' kn True by (cases "j = k") (auto simp: less_Suc_eq_le)
    moreover have "m' ! j = (if j < Suc k \<and> \<not> us ! j then cost_minus rnd (m ! j) d else m ! j)" if "j \<le> n" for j
      using IH(5) [OF that] m' True by (cases "j = k") (auto simp: less_Suc_eq)
    ultimately show ?thesis using u' v' m' IH(1-3) by auto
  next
    case False
    have same: "u' = u1" "v' = v1" and m': "m' = m1[k := cost_minus rnd (m1 ! k) d]"
      using step False by (auto simp: shift_target_def)
    have "m' ! j = (if j < Suc k \<and> \<not> us ! j then cost_minus rnd (m ! j) d else m ! j)" if "j \<le> n" for j
      using IH(3) IH(5) [OF that] m' kn False by (cases "j = k") (auto simp: less_Suc_eq_le)
    moreover have "v' ! j = (if j < Suc k \<and> us ! j then rnd (v ! j - d) else v ! j)" if "j \<le> n" for j
      using IH(4) [OF that] same False by (cases "j = k") (auto simp: less_Suc_eq)
    moreover have "u' ! i = (if \<exists>t < Suc k. us ! t \<and> p ! t = i then rnd (u ! i + d) else u ! i)" if "i \<le> n" for i
      using IH(6) [OF that] same False by (auto simp: less_Suc_eq)
    ultimately show ?thesis using m' same IH(1-3) by auto
  qed
qed

lemma shift_spec:
  assumes "length u = Suc n" "length v = Suc n" "length m = Suc n"
    and "\<And>t. t \<le> n \<Longrightarrow> p ! t \<le> n"
    and "\<And>s t. s \<le> n \<Longrightarrow> t \<le> n \<Longrightarrow> us ! s \<Longrightarrow> us ! t \<Longrightarrow> p ! s = p ! t \<Longrightarrow> s = t"
    and "shift rnd n p us d (u, v, m) = (u', v', m')"
  shows "length u' = Suc n" "length v' = Suc n" "length m' = Suc n"
    and "j \<le> n \<Longrightarrow> v' ! j = (if us ! j then rnd (v ! j - d) else v ! j)"
    and "j \<le> n \<Longrightarrow> m' ! j = (if us ! j then m ! j else cost_minus rnd (m ! j) d)"
    and "i \<le> n \<Longrightarrow> u' ! i = (if \<exists>t \<le> n. us ! t \<and> p ! t = i then rnd (u ! i + d) else u ! i)"
proof -
  note all = shift_upto [OF assms(1-3) order_refl assms(4,5) assms(6) [unfolded shift_def]]
  from all show "length u' = Suc n" "length v' = Suc n" "length m' = Suc n" by blast+
  from all have "\<forall>j \<le> n. v' ! j = (if j < Suc n \<and> us ! j then rnd (v ! j - d) else v ! j)" by blast
  then show "j \<le> n \<Longrightarrow> v' ! j = (if us ! j then rnd (v ! j - d) else v ! j)" by auto
  from all have "\<forall>j \<le> n. m' ! j = (if j < Suc n \<and> \<not> us ! j then cost_minus rnd (m ! j) d else m ! j)" by blast
  then show "j \<le> n \<Longrightarrow> m' ! j = (if us ! j then m ! j else cost_minus rnd (m ! j) d)" by auto
  from all have "\<forall>i \<le> n. u' ! i = (if \<exists>t < Suc n. us ! t \<and> p ! t = i then rnd (u ! i + d) else u ! i)" by blast
  then show "i \<le> n \<Longrightarrow> u' ! i = (if \<exists>t \<le> n. us ! t \<and> p ! t = i then rnd (u ! i + d) else u ! i)"
    unfolding less_Suc_eq_le by blast
qed

section \<open>The invariants\<close>

definition square :: "jcost list list \<Rightarrow> bool" where
  "square costs \<longleftrightarrow> costs \<noteq> [] \<and> (\<forall>row \<in> set costs. length row = length costs)"

definition rows_ok :: "nat \<Rightarrow> nat list \<Rightarrow> bool" where
  "rows_ok n p \<longleftrightarrow> length p = Suc n \<and> (\<forall>j \<le> n. p ! j \<le> n) \<and>
     (\<forall>j \<le> n. \<forall>k \<le> n. p ! j = p ! k \<longrightarrow> p ! j \<noteq> 0 \<longrightarrow> j = k)"

text \<open>Feasible potentials that are tight on the matching.\<close>

definition duals_ok :: "jcost list list \<Rightarrow> int list \<Rightarrow> int list \<Rightarrow> nat list \<Rightarrow> bool" where
  "duals_ok costs u v p \<longleftrightarrow> length u = Suc (length costs) \<and> length v = Suc (length costs) \<and>
     (\<forall>i \<in> {1..length costs}. \<forall>j \<in> {1..length costs}. Fin (u ! i + v ! j) \<le> cost_at costs i j) \<and>
     (\<forall>j \<in> {1..length costs}. p ! j \<noteq> 0 \<longrightarrow> cost_at costs (p ! j) j = Fin (u ! (p ! j) + v ! j))"

text \<open>
  The tree of a search: \<open>us\<close> are the used columns in the order of their use, \<open>t0\<close> the column
  reached next. \<open>way\<close> leads back to columns used before, over tight entries; \<open>minimum\<close> is the least
  reduced cost from the tree to a column outside.
\<close>

definition tree_shape :: "nat \<Rightarrow> nat list \<Rightarrow> nat list \<Rightarrow> nat \<Rightarrow> tree \<Rightarrow> bool" where
  "tree_shape n p us t0 t \<longleftrightarrow>
     length (minimum t) = Suc n \<and> length (way t) = Suc n \<and> length (used t) = Suc n \<and>
     distinct (us @ [t0]) \<and> set (us @ [t0]) \<subseteq> {..n} \<and> (us @ [t0]) ! 0 = 0 \<and>
     (\<forall>j \<le> n. used t ! j \<longleftrightarrow> j \<in> set us) \<and> (\<forall>j \<in> set us. p ! j \<noteq> 0) \<and>
     (\<forall>k. 0 < k \<longrightarrow> k < length (us @ [t0]) \<longrightarrow> way t ! ((us @ [t0]) ! k) \<in> set (take k us)) \<and>
     (\<forall>j \<in> {1..n}. j \<notin> set us \<longrightarrow> minimum t ! j \<noteq> PosInf \<longrightarrow> way t ! j \<in> set us)"

definition tree_tight :: "jcost list list \<Rightarrow> nat list \<Rightarrow> nat list \<Rightarrow> nat \<Rightarrow> tree \<Rightarrow> bool" where
  "tree_tight costs p us t0 t \<longleftrightarrow>
     (\<forall>j \<in> set (us @ [t0]). j \<noteq> 0 \<longrightarrow>
        cost_at costs (p ! (way t ! j)) j = Fin (potU t ! (p ! (way t ! j)) + potV t ! j)) \<and>
     (\<forall>j \<in> {1..length costs}. j \<notin> set us \<longrightarrow>
        (\<forall>w \<in> set us. minimum t ! j \<le> reduced id costs (potU t) (potV t) (p ! w) j) \<and>
        (minimum t ! j \<noteq> PosInf \<longrightarrow>
           minimum t ! j = reduced id costs (potU t) (potV t) (p ! (way t ! j)) j))"

lemma reduced_id: "reduced id costs u v i j = cost_minus id (cost_at costs i j) (u ! i + v ! j)"
  by (cases "cost_at costs i j") (simp_all add: reduced_def)

lemma reduced_id_Fin: "reduced id costs u v i j = Fin d \<longleftrightarrow> cost_at costs i j = Fin (d + u ! i + v ! j)"
  by (cases "cost_at costs i j") (auto simp: reduced_id)

lemma reduced_id_PosInf: "reduced id costs u v i j = PosInf \<longleftrightarrow> cost_at costs i j = PosInf"
  by (cases "cost_at costs i j") (auto simp: reduced_id)

lemma reduced_id_le: "Fin d \<le> reduced id costs u v i j \<longleftrightarrow> Fin (d + u ! i + v ! j) \<le> cost_at costs i j"
  by (cases "cost_at costs i j") (auto simp: reduced_id)

text \<open>What one scan makes of the tree, whatever the rounding.\<close>

lemma scan_shape:
  assumes "tree_shape n p us t0 t" and "n = length costs" and "p ! t0 \<noteq> 0"
    and "scan rnd costs u v ((used t)[t0 := True]) (p ! t0) t0 (minimum t) (way t) = (m', w', Fin d, t1)"
    and "length m'' = Suc n" "\<And>j. j \<in> {1..n} \<Longrightarrow> m'' ! j = PosInf \<longleftrightarrow> m' ! j = PosInf"
  shows "tree_shape n p (us @ [t0]) t1
      \<lparr>potU = u', potV = v', minimum = m'', way = w', used = (used t)[t0 := True]\<rparr>"
    and "1 \<le> t1" "t1 \<le> n" "m' ! t1 = Fin d" "t1 \<notin> set (us @ [t0])"
    and "\<And>j. j \<in> set us \<Longrightarrow> w' ! j = way t ! j"
proof -
  let ?us = "us @ [t0]"
  have len: "length (minimum t) = Suc (length costs)" "length (way t) = Suc (length costs)" "length (used t) = Suc n"
    using assms(1,2) by (simp_all add: tree_shape_def)
  have in_n: "j \<le> n" if "j \<in> set ?us" for j using assms(1) that unfolding tree_shape_def by (meson atMost_iff subsetD)
  have used': "(used t)[t0 := True] ! j \<longleftrightarrow> j \<in> set ?us" if "j \<le> n" for j
    using assms(1) that len(3) by (cases "j = t0") (auto simp: tree_shape_def)
  note scan = scan_spec [OF len(1,2) assms(4)]
  have scanned: "if 1 \<le> j \<and> j \<notin> set ?us \<and> reduced rnd costs u v (p ! t0) j < minimum t ! j
      then m' ! j = reduced rnd costs u v (p ! t0) j \<and> w' ! j = t0
      else m' ! j = minimum t ! j \<and> w' ! j = way t ! j" if "j \<le> n" for j
    using scan(1) that used' [OF that] assms(2) len(1) by (simp add: scanned_def less_Suc_eq_le cong: if_cong)
  have t1: "1 \<le> t1" "t1 \<le> n" "\<not> (used t)[t0 := True] ! t1" "m' ! t1 = Fin d"
    using scan(3) assms(2) by auto
  then show "1 \<le> t1" "t1 \<le> n" "m' ! t1 = Fin d" and fresh: "t1 \<notin> set ?us" using used' by auto
  show keep: "w' ! j = way t ! j" if "j \<in> set us" for j
    using scanned [OF in_n] that by (auto split: if_splits)
  have sub: "set (?us @ [t1]) \<subseteq> {..n}" using in_n t1(2) by auto
  have first: "(?us @ [t1]) ! 0 = 0" using assms(1) by (auto simp: tree_shape_def nth_append)
  have out: "w' ! j \<in> set ?us" if "j \<in> {1..n}" "j \<notin> set ?us" "m' ! j \<noteq> PosInf" for j
    using scanned [of j] that assms(1) unfolding tree_shape_def by (auto split: if_splits)
  have lead: "w' ! ((?us @ [t1]) ! k) \<in> set (take k ?us)" if k: "0 < k" "k < length (?us @ [t1])" for k
  proof (cases "k = length ?us")
    case True
    then show ?thesis using out [of t1] t1 fresh by (simp add: nth_append)
  next
    case False
    then have "k < length ?us" using k by simp
    then have at: "(?us @ [t1]) ! k = ?us ! k" by (metis nth_append)
    have "w' ! (?us ! k) = way t ! (?us ! k)"
      using scanned [OF in_n [OF nth_mem [OF \<open>k < length ?us\<close>]]] \<open>k < length ?us\<close>
      by (metis nth_mem)
    moreover have "way t ! (?us ! k) \<in> set (take k us)"
      using assms(1) k(1) \<open>k < length ?us\<close> unfolding tree_shape_def by blast
    moreover have "set (take k us) \<subseteq> set (take k ?us)" by simp
    ultimately show ?thesis using at by auto
  qed
  have "p ! j \<noteq> 0" if "j \<in> set ?us" for j using assms(1,3) that by (auto simp: tree_shape_def)
  moreover have "distinct (?us @ [t1])" using assms(1) fresh by (auto simp: tree_shape_def)
  moreover have "length w' = Suc n" using scan(1) len(2) assms(2) by (simp add: scanned_def)
  ultimately show "tree_shape n p (us @ [t0]) t1
      \<lparr>potU = u', potV = v', minimum = m'', way = w', used = (used t)[t0 := True]\<rparr>"
    unfolding tree_shape_def using len(3) assms(5,6) sub first used' lead out by simp
qed

text \<open>The potentials after a shift: rows and columns of the tree move, sums inside it stay.\<close>

lemma shift_potentials:
  assumes "rows_ok n p" and "length u = Suc n" "length v = Suc n" "length m = Suc n"
    and "shift rnd n p us d (u, v, m) = (u', v', m')" and "\<forall>j \<le> n. us ! j \<longrightarrow> p ! j \<noteq> 0"
  shows "length u' = Suc n" "length v' = Suc n" "length m' = Suc n"
    and "j \<le> n \<Longrightarrow> v' ! j = (if us ! j then rnd (v ! j - d) else v ! j)"
    and "j \<le> n \<Longrightarrow> m' ! j = (if us ! j then m ! j else cost_minus rnd (m ! j) d)"
    and "i \<le> n \<Longrightarrow> u' ! i = (if \<exists>t \<le> n. us ! t \<and> p ! t = i then rnd (u ! i + d) else u ! i)"
proof -
  have "s = t" if "s \<le> n" "t \<le> n" "us ! s" "us ! t" "p ! s = p ! t" for s t
    using assms(1,6) that unfolding rows_ok_def by blast
  moreover have "p ! t \<le> n" if "t \<le> n" for t using assms(1) that by (simp add: rows_ok_def)
  ultimately show "length u' = Suc n" "length v' = Suc n" "length m' = Suc n"
    and "j \<le> n \<Longrightarrow> v' ! j = (if us ! j then rnd (v ! j - d) else v ! j)"
    and "j \<le> n \<Longrightarrow> m' ! j = (if us ! j then m ! j else cost_minus rnd (m ! j) d)"
    and "i \<le> n \<Longrightarrow> u' ! i = (if \<exists>t \<le> n. us ! t \<and> p ! t = i then rnd (u ! i + d) else u ! i)"
    using shift_spec [OF assms(2-4) _ _ assms(5)] by blast+
qed

lemma cost_minus_PosInf [simp]: "cost_minus rnd c d = PosInf \<longleftrightarrow> c = PosInf"
  by (cases c) auto

lemma round_exact:
  assumes shape: "tree_shape n p us t0 t" and tight: "tree_tight costs p us t0 t"
    and duals: "duals_ok costs (potU t) (potV t) p" and rows: "rows_ok n p" and n: "n = length costs"
    and "p ! t0 \<noteq> 0"
    and scan: "scan id costs (potU t) (potV t) ((used t)[t0 := True]) (p ! t0) t0 (minimum t) (way t) = (m', w', Fin d, t1)"
    and shift: "shift id n p ((used t)[t0 := True]) d (potU t, potV t, m') = (u', v', m'')"
  defines "t' \<equiv> \<lparr>potU = u', potV = v', minimum = m'', way = w', used = (used t)[t0 := True]\<rparr>"
  shows "tree_shape n p (us @ [t0]) t1 t'" and "tree_tight costs p (us @ [t0]) t1 t'"
    and "duals_ok costs u' v' p" and "0 \<le> d"
    and "\<And>i. i \<le> n \<Longrightarrow> u' ! i = (if i \<in> (!) p ` set (us @ [t0]) then potU t ! i + d else potU t ! i)"
    and "\<And>j. j \<le> n \<Longrightarrow> v' ! j = (if j \<in> set (us @ [t0]) then potV t ! j - d else potV t ! j)"
proof -
  let ?us = "us @ [t0]" and ?u = "potU t" and ?v = "potV t"
  have lens: "length ?u = Suc n" "length ?v = Suc n" "length (minimum t) = Suc n" "length (way t) = Suc n" "length (used t) = Suc n"
    using duals shape n by (auto simp: duals_ok_def tree_shape_def)
  have in_n: "j \<le> n" if "j \<in> set ?us" for j using shape that unfolding tree_shape_def by (meson atMost_iff subsetD)
  have used': "(used t)[t0 := True] ! j \<longleftrightarrow> j \<in> set ?us" if "j \<le> n" for j
    using shape that lens(5) by (cases "j = t0") (auto simp: tree_shape_def)
  have nz: "p ! j \<noteq> 0" if "j \<in> set ?us" for j using shape assms(6) that by (auto simp: tree_shape_def)
  have pn: "p ! j \<le> n" if "j \<le> n" for j using rows that by (simp add: rows_ok_def)
  have inj: "j = k" if "j \<le> n" "k \<le> n" "p ! j = p ! k" "p ! j \<noteq> 0" for j k
    using rows that unfolding rows_ok_def by blast
  note scn = scan_spec [OF _ _ scan]
  have sc: "scanned id costs ?u ?v ((used t)[t0 := True]) (p ! t0) t0 (minimum t) (way t) (Suc n) m' w'"
    using scn(1) lens n by simp
  have m'len: "length m' = Suc n" using sc lens by (simp add: scanned_def)
  note sh = shift_potentials [OF rows lens(1,2) m'len shift]
  have us_nz: "\<forall>j \<le> n. (used t)[t0 := True] ! j \<longrightarrow> p ! j \<noteq> 0" using used' nz by blast
  note sh = sh [OF us_nz]
  have u': "u' ! i = (if i \<in> (!) p ` set ?us then ?u ! i + d else ?u ! i)" if "i \<le> n" for i
  proof -
    have "(\<exists>t'\<le>n. (used t)[t0 := True] ! t' \<and> p ! t' = i) \<longleftrightarrow> i \<in> (!) p ` set ?us"
      using used' in_n by (auto simp: image_iff)
    then show ?thesis using sh(6) [OF that] by auto
  qed
  have v': "v' ! j = (if j \<in> set ?us then ?v ! j - d else ?v ! j)" if "j \<le> n" for j
    using sh(4) [OF that] used' [OF that] by auto
  have m'': "m'' ! j = (if j \<in> set ?us then m' ! j else cost_minus id (m' ! j) d)" if "j \<le> n" for j
    using sh(5) [OF that] used' [OF that] by auto
  have inf: "m'' ! j = PosInf \<longleftrightarrow> m' ! j = PosInf" if "j \<in> {1..n}" for j using m'' [of j] that by auto
  note ss = scan_shape [OF shape n assms(6) scan sh(3) inf]
  show "tree_shape n p (us @ [t0]) t1 t'" unfolding t'_def using ss(1) by blast
  have t1: "1 \<le> t1" "t1 \<le> n" "m' ! t1 = Fin d" "t1 \<notin> set ?us" using ss(2-5) by blast+
  have scd: "if 1 \<le> j \<and> j \<notin> set ?us \<and> reduced id costs ?u ?v (p ! t0) j < minimum t ! j
      then m' ! j = reduced id costs ?u ?v (p ! t0) j \<and> w' ! j = t0
      else m' ! j = minimum t ! j \<and> w' ! j = way t ! j" if "j \<le> n" for j
    using sc that used' [OF that] lens(3) by (simp add: scanned_def less_Suc_eq_le cong: if_cong)
  have feas: "Fin (?u ! i + ?v ! j) \<le> cost_at costs i j" if "i \<in> {1..n}" "j \<in> {1..n}" for i j
    using duals that n by (simp add: duals_ok_def)
  have mini: "m' ! j \<le> reduced id costs ?u ?v (p ! w) j" if "j \<in> {1..n}" "j \<notin> set ?us" "w \<in> set ?us" for j w
  proof -
    have "minimum t ! j \<le> reduced id costs ?u ?v (p ! w) j" if "w \<in> set us"
      using tight that \<open>j \<in> {1..n}\<close> \<open>j \<notin> set ?us\<close> n by (simp add: tree_tight_def)
    then show ?thesis using scd [of j] that by (auto split: if_splits intro: order_trans less_imp_le)
  qed
  have attain: "m' ! j = reduced id costs ?u ?v (p ! (w' ! j)) j \<and> w' ! j \<in> set ?us"
    if "j \<in> {1..n}" "j \<notin> set ?us" "m' ! j \<noteq> PosInf" for j
  proof (cases "reduced id costs ?u ?v (p ! t0) j < minimum t ! j")
    case True
    then show ?thesis using scd [of j] that by simp
  next
    case False
    then have "m' ! j = minimum t ! j" "w' ! j = way t ! j" using scd [of j] that by auto
    moreover have "minimum t ! j = reduced id costs ?u ?v (p ! (way t ! j)) j \<and> way t ! j \<in> set us"
      using calculation tight shape that n by (simp add: tree_tight_def tree_shape_def)
    ultimately show ?thesis by simp
  qed
  have row: "p ! w \<in> {1..n}" if "w \<in> set ?us" for w
    using nz [OF that] pn [OF in_n [OF that]] by (simp add: Suc_le_eq)
  show d0: "0 \<le> d"
  proof -
    have w: "w' ! t1 \<in> set ?us" "Fin d = reduced id costs ?u ?v (p ! (w' ! t1)) t1"
      using attain [of t1] t1 by auto
    have "Fin (?u ! (p ! (w' ! t1)) + ?v ! t1) \<le> cost_at costs (p ! (w' ! t1)) t1"
      by (rule feas) (use row [OF w(1)] t1 in auto)
    moreover have "cost_at costs (p ! (w' ! t1)) t1 = Fin (d + ?u ! (p ! (w' ! t1)) + ?v ! t1)"
      using w(2) reduced_id_Fin by metis
    ultimately show ?thesis by simp
  qed
  have least: "Fin d \<le> m' ! j" if "j \<in> {1..n}" "j \<notin> set ?us" for j
    using scn(2) [of j] that used' [of j] lens n by auto
  have feas': "Fin (u' ! i + v' ! j) \<le> cost_at costs i j" if ij: "i \<in> {1..n}" "j \<in> {1..n}" for i j
  proof (cases "i \<in> (!) p ` set ?us \<and> j \<notin> set ?us")
    case True
    then obtain w where w: "w \<in> set ?us" "i = p ! w" by auto
    have "Fin d \<le> reduced id costs ?u ?v i j"
      using least [OF ij(2)] mini [OF ij(2) _ w(1)] True w(2) by (meson order_trans)
    then have "Fin (d + ?u ! i + ?v ! j) \<le> cost_at costs i j" by (simp add: reduced_id_le)
    then show ?thesis using u' [of i] v' [of j] ij True by (simp add: ac_simps)
  next
    case False
    have "u' ! i + v' ! j \<le> ?u ! i + ?v ! j" using u' [of i] v' [of j] ij False d0 by (auto split: if_splits)
    then have "Fin (u' ! i + v' ! j) \<le> Fin (?u ! i + ?v ! j)" by simp
    then show ?thesis using feas [OF ij] order_trans by blast
  qed
  have same: "u' ! (p ! w) + v' ! j = ?u ! (p ! w) + ?v ! j" if "w \<in> set ?us" "j \<in> set ?us" for w j
    using u' [of "p ! w"] v' [of j] that in_n pn by auto
  have tight': "cost_at costs (p ! j) j = Fin (u' ! (p ! j) + v' ! j)" if j: "j \<in> {1..n}" "p ! j \<noteq> 0" for j
  proof -
    have "p ! j \<in> (!) p ` set ?us \<longleftrightarrow> j \<in> set ?us"
      using inj j in_n by (auto simp: image_iff) (metis in_n list.set_intros(1) set_append UnI2 atLeastAtMost_iff)+
    then have "u' ! (p ! j) + v' ! j = ?u ! (p ! j) + ?v ! j"
      using u' [of "p ! j"] v' [of j] j pn by auto
    moreover have "cost_at costs (p ! j) j = Fin (?u ! (p ! j) + ?v ! j)"
      using duals j n by (simp add: duals_ok_def)
    ultimately show ?thesis by simp
  qed
  show "duals_ok costs u' v' p"
    using feas' tight' sh(1,2) n by (simp add: duals_ok_def)
  have red': "reduced id costs u' v' (p ! w) j = cost_minus id (reduced id costs ?u ?v (p ! w) j) d"
    if "w \<in> set ?us" "j \<in> {1..n}" "j \<notin> set ?us" for w j
    using u' [of "p ! w"] v' [of j] that pn in_n
    by (cases "cost_at costs (p ! w) j") (auto simp: reduced_id)
  have mono: "cost_minus id a d \<le> cost_minus id b d" if "a \<le> b" for a b
    using that by (cases a; cases b) auto
  show "tree_tight costs p (us @ [t0]) t1 t'"
    unfolding tree_tight_def
  proof (intro conjI ballI impI)
    fix j assume j: "j \<in> set ((us @ [t0]) @ [t1])" "j \<noteq> 0"
    show "cost_at costs (p ! (way t' ! j)) j = Fin (potU t' ! (p ! (way t' ! j)) + potV t' ! j)"
    proof (cases "j = t1")
      case True
      then have w: "w' ! t1 \<in> set ?us" "Fin d = reduced id costs ?u ?v (p ! (w' ! t1)) t1"
        using attain [of t1] t1 by auto
      then have "cost_at costs (p ! (w' ! t1)) t1 = Fin (d + ?u ! (p ! (w' ! t1)) + ?v ! t1)"
        by (metis reduced_id_Fin)
      moreover have "p ! (w' ! t1) \<in> (!) p ` set ?us" "p ! (w' ! t1) \<le> n" using w(1) pn in_n by blast+
      ultimately show ?thesis
        using True u' [of "p ! (w' ! t1)"] v' [of t1] t1(2,4) by (simp add: t'_def ac_simps)
    next
      case False
      then have j': "j \<in> set ?us" using j by auto
      have "w' ! j = way t ! j" using scd [OF in_n [OF j']] j' by (simp split: if_splits)
      moreover have "way t ! j \<in> set us"
      proof -
        obtain k where k: "k < length ?us" "?us ! k = j" using j' by (metis in_set_conv_nth)
        have "0 < k" using k j(2) shape by (cases k) (auto simp: tree_shape_def)
        then have "way t ! j \<in> set (take k us)" using shape k unfolding tree_shape_def by metis
        then show ?thesis by (meson in_set_takeD)
      qed
      moreover have "cost_at costs (p ! (way t ! j)) j = Fin (?u ! (p ! (way t ! j)) + ?v ! j)"
        using tight j' j(2) unfolding tree_tight_def by blast
      ultimately show ?thesis using same [of "way t ! j" j] j' by (simp add: t'_def)
    qed
  next
    fix j w assume j: "j \<in> {1..length costs}" "j \<notin> set (us @ [t0])" and w: "w \<in> set (us @ [t0])"
    show "minimum t' ! j \<le> reduced id costs (potU t') (potV t') (p ! w) j"
      using mono [OF mini [of j w]] red' [of w j] m'' [of j] j w n by (simp add: t'_def)
  next
    fix j assume j: "j \<in> {1..length costs}" "j \<notin> set (us @ [t0])" and fin: "minimum t' ! j \<noteq> PosInf"
    have mj: "minimum t' ! j = cost_minus id (m' ! j) d" using m'' [of j] j n by (simp add: t'_def)
    have "m' ! j \<noteq> PosInf" using fin mj by auto
    then have "m' ! j = reduced id costs ?u ?v (p ! (w' ! j)) j \<and> w' ! j \<in> set ?us"
      by (intro attain) (use j n in simp_all)
    then show "minimum t' ! j = reduced id costs (potU t') (potV t') (p ! (way t' ! j)) j"
      using red' [of "w' ! j" j] mj j n by (simp add: t'_def)
  qed
  show "\<And>i. i \<le> n \<Longrightarrow> u' ! i = (if i \<in> (!) p ` set (us @ [t0]) then potU t ! i + d else potU t ! i)"
    by (rule u')
  show "\<And>j. j \<le> n \<Longrightarrow> v' ! j = (if j \<in> set (us @ [t0]) then potV t ! j - d else potV t ! j)"
    by (rule v')
qed

section \<open>Growing the tree\<close>

definition pot_sum :: "nat \<Rightarrow> int list \<Rightarrow> int" where
  "pot_sum n xs = (\<Sum>i = 1..n. xs ! i)"

lemma sum_raise:
  assumes "finite A" and "\<And>i. i \<in> A \<Longrightarrow> f i = (if i \<in> B then g i + d else g i)"
  shows "sum f A = sum g A + int (card (A \<inter> B)) * (d::int)"
proof -
  have "sum f A = (\<Sum>i\<in>A. g i + (if i \<in> B then d else 0))" by (rule sum.cong) (use assms(2) in auto)
  also have "\<dots> = sum g A + (\<Sum>i\<in>A. if i \<in> B then d else 0)" by (rule sum.distrib)
  also have "(\<Sum>i\<in>A. if i \<in> B then d else 0) = int (card (A \<inter> B)) * d"
    using assms(1) by (simp add: sum.If_cases Int_def)
  finally show ?thesis .
qed

text \<open>A round raises the total of the potentials by \<open>d\<close>.\<close>

lemma round_total:
  assumes "rows_ok n p" and "distinct us" "set us \<subseteq> {..n}" "0 \<in> set us" and "\<And>j. j \<in> set us \<Longrightarrow> p ! j \<noteq> 0"
    and "\<And>i. i \<le> n \<Longrightarrow> u' ! i = (if i \<in> (!) p ` set us then u ! i + d else u ! i)"
    and "\<And>j. j \<le> n \<Longrightarrow> v' ! j = (if j \<in> set us then v ! j - d else v ! j)"
  shows "pot_sum n u' + pot_sum n v' = pot_sum n u + pot_sum n v + d"
proof -
  have "inj_on ((!) p) (set us)"
    using assms(1,3,5) unfolding rows_ok_def inj_on_def by (meson atMost_iff subsetD)
  then have "card ((!) p ` set us) = length us" using assms(2) by (simp add: card_image distinct_card)
  moreover have "(!) p ` set us \<subseteq> {1..n}"
    using assms(1,3,5) by (force simp: rows_ok_def Suc_le_eq)
  ultimately have rows: "card ({1..n} \<inter> (!) p ` set us) = length us" by (simp add: inf.absorb2)
  have "{1..n} \<inter> set us = set us - {0}" using assms(3) by (auto simp: Suc_le_eq)
  then have cols: "card ({1..n} \<inter> set us) = length us - 1" using assms(2,4) by (simp add: distinct_card)
  have "pot_sum n u' = pot_sum n u + int (length us) * d"
    unfolding pot_sum_def rows [symmetric] by (rule sum_raise) (use assms(6) in auto)
  moreover have "pot_sum n v' = pot_sum n v + int (length us - 1) * (- d)"
    unfolding pot_sum_def cols [symmetric] by (rule sum_raise) (use assms(7) in auto)
  moreover have "int (length us - 1) = int (length us) - 1" using assms(4) by (cases us) auto
  ultimately show ?thesis by (simp add: algebra_simps)
qed

text \<open>What growing does to the potentials: \<open>D\<close> is the sum of the shifts.\<close>

definition raised :: "nat \<Rightarrow> tree \<Rightarrow> tree \<Rightarrow> int \<Rightarrow> bool" where
  "raised n t t' D \<longleftrightarrow> 0 \<le> D \<and>
     pot_sum n (potU t') + pot_sum n (potV t') = pot_sum n (potU t) + pot_sum n (potV t) + D \<and>
     (\<forall>i \<le> n. potU t ! i \<le> potU t' ! i \<and> potU t' ! i \<le> potU t ! i + D) \<and>
     (\<forall>j \<le> n. potV t ! j - D \<le> potV t' ! j \<and> potV t' ! j \<le> potV t ! j)"

lemma raised_trans: "raised n t t' D \<Longrightarrow> raised n t' t'' E \<Longrightarrow> raised n t t'' (D + E)"
  unfolding raised_def by (smt (verit))

definition tree_ok :: "jcost list list \<Rightarrow> nat list \<Rightarrow> nat list \<Rightarrow> nat \<Rightarrow> tree \<Rightarrow> bool" where
  "tree_ok costs p us t0 t \<longleftrightarrow> tree_shape (length costs) p us t0 t \<and> tree_tight costs p us t0 t \<and>
     duals_ok costs (potU t) (potV t) p"

declare grow.simps(2) [simp del]

text \<open>One round, as a case distinction.\<close>

lemma grow_round:
  obtains m' w' t1 where
    "scan rnd costs (potU t) (potV t) ((used t)[t0 := True]) (p ! t0) t0 (minimum t) (way t) = (m', w', PosInf, t1)"
    "grow rnd costs p (Suc fuel) t0 t = Inl NoPerfectMatching"
  | m' w' d t1 u' v' m'' where
    "scan rnd costs (potU t) (potV t) ((used t)[t0 := True]) (p ! t0) t0 (minimum t) (way t) = (m', w', Fin d, t1)"
    "shift rnd (length costs) p ((used t)[t0 := True]) d (potU t, potV t, m') = (u', v', m'')"
    "grow rnd costs p (Suc fuel) t0 t =
      (if p ! t1 \<noteq> 0 then grow rnd costs p fuel t1
         \<lparr>potU = u', potV = v', minimum = m'', way = w', used = (used t)[t0 := True]\<rparr>
       else Inr (t1, \<lparr>potU = u', potV = v', minimum = m'', way = w', used = (used t)[t0 := True]\<rparr>))"
proof -
  obtain m' w' delta t1 where scan:
    "scan rnd costs (potU t) (potV t) ((used t)[t0 := True]) (p ! t0) t0 (minimum t) (way t) = (m', w', delta, t1)"
    by (metis prod_cases4)
  show thesis
  proof (cases delta)
    case PosInf
    then show ?thesis using that(1) scan by (simp add: Let_def grow.simps(2))
  next
    case (Fin d)
    obtain u' v' m'' where
      "shift rnd (length costs) p ((used t)[t0 := True]) d (potU t, potV t, m') = (u', v', m'')"
      by (metis prod_cases3)
    then show ?thesis using that(2) scan Fin by (simp add: Let_def grow.simps(2))
  qed
qed

lemma tree_round:
  assumes "tree_ok costs p us t0 t" and "rows_ok (length costs) p" and "p ! t0 \<noteq> 0"
    and "scan id costs (potU t) (potV t) ((used t)[t0 := True]) (p ! t0) t0 (minimum t) (way t) = (m', w', Fin d, t1)"
    and "shift id (length costs) p ((used t)[t0 := True]) d (potU t, potV t, m') = (u', v', m'')"
  defines "t' \<equiv> \<lparr>potU = u', potV = v', minimum = m'', way = w', used = (used t)[t0 := True]\<rparr>"
  shows "tree_ok costs p (us @ [t0]) t1 t'" and "raised (length costs) t t' d"
proof -
  have ok: "tree_shape (length costs) p us t0 t" "tree_tight costs p us t0 t" "duals_ok costs (potU t) (potV t) p"
    using assms(1) by (auto simp: tree_ok_def)
  note ex = round_exact [OF ok assms(2) refl assms(3-5)]
  show tree': "tree_ok costs p (us @ [t0]) t1 t'" using ex(1-3) by (simp add: tree_ok_def t'_def)
  have "pot_sum (length costs) u' + pot_sum (length costs) v' =
      pot_sum (length costs) (potU t) + pot_sum (length costs) (potV t) + d"
  proof (rule round_total [OF assms(2), where us = "us @ [t0]"])
    show "0 \<in> set (us @ [t0])"
      using ok(1) unfolding tree_shape_def by (metis nth_mem length_append_singleton zero_less_Suc)
  qed (use ok(1) assms(3) ex(5,6) in \<open>auto simp: tree_shape_def\<close>)
  then show "raised (length costs) t t' d"
    using ex(4-6) by (auto simp: raised_def t'_def)
qed

lemma grow_exact:
  assumes "grow id costs p fuel t0 t = Inr (t1, t')"
    and "tree_ok costs p us t0 t" and "rows_ok (length costs) p" and "p ! t0 \<noteq> 0"
  obtains us' D where "tree_ok costs p us' t1 t'" "p ! t1 = 0" "us' \<noteq> []" "raised (length costs) t t' D"
proof -
  have "\<exists>us' D. tree_ok costs p us' t1 t' \<and> p ! t1 = 0 \<and> us' \<noteq> [] \<and> raised (length costs) t t' D"
    using assms(1,2,4)
  proof (induction fuel arbitrary: us t0 t)
    case 0
    then show ?case by simp
  next
    case (Suc fuel)
    show ?case
    proof (cases rule: grow_round [of id costs t t0 p fuel])
      case (1 m' w' t2)
      then show ?thesis using Suc.prems(1) by (metis sum.distinct(1))
    next
      case (2 m' w' d t2 u' v' m'')
      note tree = tree_round [OF Suc.prems(2) assms(3) Suc.prems(3) 2(1,2)]
      show ?thesis
      proof (cases "p ! t2 = 0")
        case True
        then have "Inr (t2, \<lparr>potU = u', potV = v', minimum = m'', way = w', used = (used t)[t0 := True]\<rparr>) =
            (Inr (t1, t') :: matching_error + _)"
          using Suc.prems(1) 2(3) by (metis (full_types))
        then show ?thesis using True tree by blast
      next
        case False
        then obtain us' E where "tree_ok costs p us' t1 t'" "p ! t1 = 0" "us' \<noteq> []"
          and "raised (length costs) \<lparr>potU = u', potV = v', minimum = m'', way = w', used = (used t)[t0 := True]\<rparr> t' E"
          using Suc.IH [OF _ tree(1) False] Suc.prems(1) 2(3) by (metis (full_types))
        then show ?thesis using raised_trans [OF tree(2)] by blast
      qed
    qed
  qed
  then show thesis using that by blast
qed

text \<open>
  When the tree cannot grow, its rows have finite costs in fewer columns than they are many: no
  perfect matching avoids infinite costs.
\<close>

definition perfect :: "jcost list list \<Rightarrow> (nat \<Rightarrow> nat) \<Rightarrow> bool" where
  "perfect costs f \<longleftrightarrow> f ` {1..length costs} \<subseteq> {1..length costs} \<and> inj_on f {1..length costs} \<and>
     (\<forall>i \<in> {1..length costs}. cost_at costs i (f i) \<noteq> PosInf)"

lemma stuck_tree:
  assumes "tree_ok costs p us t0 t" and "rows_ok (length costs) p" and "p ! t0 \<noteq> 0"
    and "scan id costs (potU t) (potV t) ((used t)[t0 := True]) (p ! t0) t0 (minimum t) (way t) = (m', w', PosInf, t1)"
  shows "\<not> perfect costs f"
proof
  assume f: "perfect costs f"
  let ?n = "length costs" and ?us = "us @ [t0]"
  have shape: "tree_shape ?n p us t0 t" and tight: "tree_tight costs p us t0 t"
    using assms(1) by (auto simp: tree_ok_def)
  have in_n: "j \<le> ?n" if "j \<in> set ?us" for j using shape that unfolding tree_shape_def by (meson atMost_iff subsetD)
  have len: "length (minimum t) = Suc ?n" "length (way t) = Suc ?n" "length (used t) = Suc ?n"
    using shape by (auto simp: tree_shape_def)
  have used': "(used t)[t0 := True] ! j \<longleftrightarrow> j \<in> set ?us" if "j \<le> ?n" for j
    using shape that len(3) by (cases "j = t0") (auto simp: tree_shape_def)
  have nz: "p ! j \<noteq> 0" if "j \<in> set ?us" for j using shape assms(3) that by (auto simp: tree_shape_def)
  note scn = scan_spec [OF len(1,2) assms(4)]
  have inf: "cost_at costs (p ! w) j = PosInf" if "j \<in> {1..?n}" "j \<notin> set ?us" "w \<in> set ?us" for j w
  proof -
    have "m' ! j = PosInf" using scn(2) [of j] that used' [of j] by auto
    moreover have "if reduced id costs (potU t) (potV t) (p ! t0) j < minimum t ! j
        then m' ! j = reduced id costs (potU t) (potV t) (p ! t0) j else m' ! j = minimum t ! j"
      using scn(1) that used' [of j] len(1) by (auto simp: scanned_def less_Suc_eq_le)
    ultimately have "reduced id costs (potU t) (potV t) (p ! t0) j = PosInf" "minimum t ! j = PosInf"
      by (auto split: if_splits simp: not_less)
    moreover have "minimum t ! j \<le> reduced id costs (potU t) (potV t) (p ! w) j" if "w \<in> set us"
      using tight that \<open>j \<in> {1..?n}\<close> \<open>j \<notin> set ?us\<close> by (simp add: tree_tight_def)
    ultimately have "reduced id costs (potU t) (potV t) (p ! w) j = PosInf" using that(3) by auto
    then show ?thesis by (simp add: reduced_id_PosInf)
  qed
  have "p ! w \<in> {1..?n}" if "w \<in> set ?us" for w
    using nz [OF that] in_n [OF that] assms(2) by (simp add: rows_ok_def Suc_le_eq)
  then have sub: "(!) p ` set ?us \<subseteq> {1..?n}" by blast
  have "f ` (!) p ` set ?us \<subseteq> set ?us - {0}"
  proof
    fix j assume "j \<in> f ` (!) p ` set ?us"
    then obtain w where w: "w \<in> set ?us" "j = f (p ! w)" by auto
    have "p ! w \<in> {1..?n}" using sub w(1) by auto
    then have "j \<in> {1..?n}" "cost_at costs (p ! w) j \<noteq> PosInf"
      using f w(2) unfolding perfect_def by blast+
    then show "j \<in> set ?us - {0}" using inf [of j w] w(1) by auto
  qed
  then have "card (f ` (!) p ` set ?us) \<le> card (set ?us - {0})" by (intro card_mono) auto
  moreover have "inj_on ((!) p) (set ?us)"
    using assms(2) in_n nz unfolding rows_ok_def inj_on_def by blast
  moreover have "inj_on f ((!) p ` set ?us)" using f sub unfolding perfect_def by (meson inj_on_subset)
  moreover have "0 \<in> set ?us"
    using shape unfolding tree_shape_def by (metis nth_mem length_append_singleton zero_less_Suc)
  moreover have "card (set ?us - {0}) < card (set ?us)" by (rule card_Diff1_less) (use calculation(4) in auto)
  moreover have "card (f ` (!) p ` set ?us) = card (set ?us)"
    using card_image [OF calculation(2)] card_image [OF calculation(3)] by simp
  ultimately show False by linarith
qed

lemma grow_fails:
  assumes "grow id costs p fuel t0 t = Inl e"
    and "tree_ok costs p us t0 t" and "rows_ok (length costs) p" and "p ! t0 \<noteq> 0"
    and "length costs < length us + fuel"
  shows "e = NoPerfectMatching \<and> (\<forall>f. \<not> perfect costs f)"
  using assms(1,2,4,5)
proof (induction fuel arbitrary: us t0 t)
  case 0
  have "card (set (us @ [t0])) \<le> card {..length costs}"
    using 0 by (intro card_mono) (auto simp: tree_ok_def tree_shape_def)
  moreover have "card (set (us @ [t0])) = Suc (length us)"
    using 0 by (simp add: tree_ok_def tree_shape_def distinct_card)
  ultimately show ?case using 0 by simp
next
  case (Suc fuel)
  show ?case
  proof (cases rule: grow_round [of id costs t t0 p fuel])
    case (1 m' w' t2)
    then show ?thesis using stuck_tree [OF Suc.prems(2) assms(3) Suc.prems(3)] Suc.prems(1) by (metis sum.inject(1))
  next
    case (2 m' w' d t2 u' v' m'')
    note tree = tree_round [OF Suc.prems(2) assms(3) Suc.prems(3) 2(1,2)]
    have "p ! t2 \<noteq> 0" using Suc.prems(1) 2(3) by (metis sum.distinct(1))
    then have "grow id costs p fuel t2
        \<lparr>potU = u', potV = v', minimum = m'', way = w', used = (used t)[t0 := True]\<rparr> = Inl e"
      using Suc.prems(1) 2(3) by (metis (full_types))
    moreover have "length costs < length (us @ [t0]) + fuel" using Suc.prems(4) by simp
    ultimately show ?thesis using Suc.IH [OF _ tree(1)] \<open>p ! t2 \<noteq> 0\<close> by blast
  qed
qed

end
