(* ===== verification/HungarianCorrect.thy ===== *)
theory HungarianCorrect
  imports HungarianTree
begin

text \<open>
  The assignment solver is correct: augmenting keeps the matching, the phases keep feasible tight
  potentials, so with exact arithmetic the result is a perfect matching of least cost.
\<close>

section \<open>Moving the matching along the path\<close>

text \<open>The rows held by the columns other than \<open>hole\<close>.\<close>

definition held :: "nat \<Rightarrow> nat list \<Rightarrow> nat \<Rightarrow> nat multiset" where
  "held n p hole = image_mset ((!) p) (mset_set ({..n} - {hole}))"

lemma held_split:
  assumes "i \<le> n" "j \<le> n" "i \<noteq> j"
  shows "held n p i = add_mset (p ! j) (image_mset ((!) p) (mset_set ({..n} - {i, j})))"
proof -
  have "{..n} - {i} = insert j ({..n} - {i, j})" using assms by auto
  then have "mset_set ({..n} - {i}) = add_mset j (mset_set ({..n} - {i, j}))"
    by (simp only:) (subst mset_set.insert; simp)
  then show ?thesis by (simp only: held_def image_mset_add_mset)
qed

lemma held_move:
  assumes "length p = Suc n" and "j \<le> n" "w \<le> n" "j \<noteq> w"
  shows "held n (p[j := p ! w]) w = held n p j"
proof -
  have "image_mset ((!) (p[j := p ! w])) (mset_set ({..n} - {w, j})) = image_mset ((!) p) (mset_set ({..n} - {j, w}))"
    by (simp only: insert_commute [of w j]) (rule image_mset_cong, auto)
  then show ?thesis using assms by (simp add: held_split [of w n j] held_split [of j n w])
qed

text \<open>
  A relation \<open>Q\<close> between columns and their rows, outside \<open>hole\<close>. A path whose steps keep \<open>Q\<close>
  carries the matching along: the hole moves to column 0.
\<close>

definition matched_but :: "nat \<Rightarrow> (nat \<Rightarrow> nat \<Rightarrow> bool) \<Rightarrow> nat list \<Rightarrow> nat \<Rightarrow> bool" where
  "matched_but n Q p hole \<longleftrightarrow> (\<forall>j \<in> {1..n}. j \<noteq> hole \<longrightarrow> p ! j \<noteq> 0 \<longrightarrow> Q j (p ! j))"

lemma augment_path:
  assumes "distinct L" "set L \<subseteq> {..n}" "L ! 0 = 0"
    and way: "\<And>k. 0 < k \<Longrightarrow> k < length L \<Longrightarrow> w ! (L ! k) \<in> set (take k L)"
    and Q: "\<And>j. j \<in> set L \<Longrightarrow> j \<noteq> 0 \<Longrightarrow> Q j (p ! (w ! j))"
  shows "0 < k \<Longrightarrow> k < length L \<Longrightarrow> k < fuel \<Longrightarrow> length q = Suc n \<Longrightarrow>
    (\<And>j. j \<in> set (take k L) \<Longrightarrow> q ! j = p ! j) \<Longrightarrow> matched_but n Q q (L ! k) \<Longrightarrow>
    \<exists>p'. augment w fuel (L ! k) q = Inr p' \<and> length p' = Suc n \<and> held n p' 0 = held n q (L ! k) \<and>
      matched_but n Q p' 0"
proof (induction fuel arbitrary: k q)
  case 0
  then show ?case by simp
next
  case (Suc fuel)
  let ?j = "L ! k"
  obtain i where i: "i < k" "w ! ?j = L ! i"
    using way [OF Suc.prems(1,2)] Suc.prems(2) by (auto simp: in_set_conv_nth)
  let ?w = "L ! i" and ?q = "q[?j := q ! (L ! i)]"
  have j: "?j \<in> set L" "?j \<le> n" "?w \<le> n" "?j \<noteq> 0" "?j \<noteq> ?w" "?w \<in> set (take k L)"
  proof -
    show "?j \<in> set L" using Suc.prems(2) by simp
    then show "?j \<le> n" using assms(2) by auto
    show "?w \<le> n" using assms(2) i(1) Suc.prems(2) by (meson atMost_iff less_trans nth_mem subsetD)
    show "?j \<noteq> 0" using assms(1,3) Suc.prems(1,2) by (metis nth_eq_iff_index_eq less_trans not_less_zero neq0_conv)
    show "?j \<noteq> ?w" using assms(1) i(1) Suc.prems(2) by (simp add: nth_eq_iff_index_eq)
    show "?w \<in> set (take k L)" using i(1) Suc.prems(2) by (auto simp: in_set_conv_nth)
  qed
  have held: "held n ?q ?w = held n q ?j" by (rule held_move [OF Suc.prems(4) j(2,3,5)])
  have "Q x (?q ! x)" if "x \<in> {1..n}" "x \<noteq> ?w" "?q ! x \<noteq> 0" for x
  proof (cases "x = ?j")
    case True
    have "q ! ?w = p ! ?w" using Suc.prems(5) [OF j(6)] .
    then show ?thesis using True Q [OF j(1,4)] i(2) Suc.prems(4) j(2) by simp
  next
    case False
    then show ?thesis using Suc.prems(6) that by (simp add: matched_but_def)
  qed
  then have tq: "matched_but n Q ?q ?w" by (simp add: matched_but_def)
  show ?case
  proof (cases "?w = 0")
    case True
    then have "augment w (Suc fuel) ?j q = Inr ?q" using i(2) by (simp add: Let_def)
    then show ?thesis using True held tq Suc.prems(4) by fastforce
  next
    case False
    have i0: "0 < i" using False assms(3) by (cases i) auto
    have "\<exists>p'. augment w fuel (L ! i) ?q = Inr p' \<and> length p' = Suc n \<and> held n p' 0 = held n ?q (L ! i) \<and>
      matched_but n Q p' 0"
    proof (rule Suc.IH [OF i0 _ _ _ _ tq])
      show "i < length L" "i < fuel" using i(1) Suc.prems(2,3) by auto
      show "length ?q = Suc n" using Suc.prems(4) by simp
      fix x assume x: "x \<in> set (take i L)"
      then have "x \<in> set (take k L)" using i(1) by (meson set_take_subset_set_take subsetD less_imp_le)
      moreover have "x \<noteq> ?j"
        using x assms(1) i(1) Suc.prems(2) by (auto simp: in_set_conv_nth nth_eq_iff_index_eq)
      ultimately show "?q ! x = p ! x" using Suc.prems(5) by simp
    qed
    moreover have "augment w (Suc fuel) ?j q = augment w fuel (L ! i) ?q" using False i(2) by (simp add: Let_def)
    ultimately show ?thesis using held by simp
  qed
qed

lemma augment_tree:
  assumes shape: "tree_shape n p us t1 t" and "us \<noteq> []" and "length p = Suc n"
    and Q: "\<And>j. j \<in> set (us @ [t1]) \<Longrightarrow> j \<noteq> 0 \<Longrightarrow> Q j (p ! (way t ! j))"
      "\<And>j. j \<in> {1..n} \<Longrightarrow> p ! j \<noteq> 0 \<Longrightarrow> Q j (p ! j)"
  obtains p' where "augment (way t) (Suc n) t1 p = Inr p'" "length p' = Suc n"
    "held n p' 0 = held n p t1" "\<And>j. j \<in> {1..n} \<Longrightarrow> p' ! j \<noteq> 0 \<Longrightarrow> Q j (p' ! j)"
proof -
  let ?L = "us @ [t1]"
  have "card (set us) \<le> card ({..n} - {t1})"
    using shape by (intro card_mono) (auto simp: tree_shape_def)
  then have len: "length us < Suc n" using shape by (auto simp: tree_shape_def distinct_card)
  have "\<exists>p'. augment (way t) (Suc n) (?L ! length us) p = Inr p' \<and> length p' = Suc n \<and>
      held n p' 0 = held n p (?L ! length us) \<and> matched_but n Q p' 0"
  proof (rule augment_path [where p = p])
    show "distinct ?L" "set ?L \<subseteq> {..n}" "?L ! 0 = 0" using shape by (auto simp: tree_shape_def)
    show "way t ! (?L ! k) \<in> set (take k ?L)" if "0 < k" "k < length ?L" for k
    proof -
      have "way t ! (?L ! k) \<in> set (take k us)" using shape that unfolding tree_shape_def by blast
      then show ?thesis by auto
    qed
    show "matched_but n Q p (?L ! length us)" using Q(2) by (auto simp: matched_but_def)
  qed (use assms(2,3) len Q(1) in auto)
  then obtain p' where p': "augment (way t) (Suc n) t1 p = Inr p'" "length p' = Suc n"
      "held n p' 0 = held n p t1" "matched_but n Q p' 0" by auto
  then have "Q j (p' ! j)" if "j \<in> {1..n}" "p' ! j \<noteq> 0" for j
    using that unfolding matched_but_def by (metis atLeastAtMost_iff not_one_le_zero)
  then show thesis using that p' by blast
qed

section \<open>Phases\<close>

text \<open>The matching of the rows \<open>1, \<dots>, s\<close>.\<close>

definition matches :: "nat \<Rightarrow> nat \<Rightarrow> nat list \<Rightarrow> bool" where
  "matches n s p \<longleftrightarrow> length p = Suc n \<and> held n p 0 = mset_set {1..s} + replicate_mset (n - s) 0"

text \<open>After \<open>s\<close> phases the rows \<open>1, \<dots>, s\<close> are matched, at the cost of the potentials.\<close>

definition phase_inv :: "jcost list list \<Rightarrow> nat \<Rightarrow> phase_state \<Rightarrow> bool" where
  "phase_inv costs s st \<longleftrightarrow> (case st of (u, v, p, w) \<Rightarrow>
     duals_ok costs u v p \<and> matches (length costs) s p \<and> length w = Suc (length costs) \<and>
     (\<forall>i \<in> {1..length costs}. 0 \<le> u ! i) \<and> (\<forall>j \<in> {1..length costs}. v ! j \<le> 0))"

lemma held_count:
  "count (held n p h) x = card {j \<in> {..n} - {h}. p ! j = x}"
proof -
  have "{j. j \<in># mset_set ({..n} - {h}) \<and> x = p ! j} = {j \<in> {..n} - {h}. p ! j = x}" by auto
  moreover have "(\<Sum>j | j \<in> {..n} - {h} \<and> p ! j = x. count (mset_set ({..n} - {h})) j) =
      (\<Sum>j | j \<in> {..n} - {h} \<and> p ! j = x. 1)"
    by (rule sum.cong) (auto simp: count_mset_set')
  ultimately show ?thesis unfolding held_def count_image_mset' by simp
qed

lemma rows_ok_source:
  assumes "matches n s p" and "s < n"
  shows "rows_ok n (p[0 := Suc s])"
proof -
  let ?p = "p[0 := Suc s]"
  have len: "length p = Suc n" and held: "held n p 0 = mset_set {1..s} + replicate_mset (n - s) 0"
    using assms(1) by (auto simp: matches_def)
  have p0: "?p ! 0 = Suc s" using len by simp
  have pj: "?p ! j = p ! j" if "j \<noteq> 0" for j using that by simp
  have mem: "p ! j \<le> s" if "j \<in> {1..n}" for j
  proof -
    have "p ! j \<in># held n p 0" using that by (auto simp: held_def Suc_le_eq)
    then show ?thesis using held by (auto split: if_splits simp: Suc_le_eq)
  qed
  have once: "j = k" if "j \<in> {1..n}" "k \<in> {1..n}" "p ! j = p ! k" "p ! j \<noteq> 0" for j k
  proof (rule ccontr)
    assume "j \<noteq> k"
    have "card {j, k} \<le> card {i \<in> {..n} - {0}. p ! i = p ! j}"
      by (rule card_mono) (use that in \<open>auto simp: Suc_le_eq\<close>)
    then have "2 \<le> count (held n p 0) (p ! j)" using \<open>j \<noteq> k\<close> by (simp add: held_count)
    moreover have "count (mset_set {1..s}) (p ! j) \<le> 1" by (simp add: count_mset_set')
    ultimately show False using held that(4) by simp
  qed
  show ?thesis
    unfolding rows_ok_def
  proof (intro conjI allI impI)
    show "length ?p = Suc n" using len by simp
    show "?p ! j \<le> n" if "j \<le> n" for j using p0 pj mem [of j] that assms(2) by (cases "j = 0") (auto simp: Suc_le_eq)
    fix j k assume jk: "j \<le> n" "k \<le> n" "?p ! j = ?p ! k" "?p ! j \<noteq> 0"
    show "j = k"
    proof (cases "j = 0 \<or> k = 0")
      case True
      then show ?thesis using jk p0 pj mem [of j] mem [of k] by (cases "j = 0"; cases "k = 0") (auto simp: Suc_le_eq)
    next
      case False
      then show ?thesis using jk pj once [of j k] by (auto simp: Suc_le_eq)
    qed
  qed
qed

text \<open>One more row is matched, whatever the potentials.\<close>

lemma matches_step:
  assumes "matches n s p" "s < n" and "p[0 := Suc s] ! t1 = 0" "t1 \<le> n"
    and "length p' = Suc n" "held n p' 0 = held n (p[0 := Suc s]) t1"
  shows "matches n (Suc s) p'"
proof -
  let ?p = "p[0 := Suc s]"
  have p0: "?p ! 0 = Suc s" using assms(1) by (simp add: matches_def)
  have t1: "t1 \<noteq> 0" using assms(3) p0 by (metis nat.distinct(1))
  have "image_mset ((!) ?p) (mset_set ({..n} - {t1, 0})) = image_mset ((!) p) (mset_set ({..n} - {0, t1}))"
    by (simp only: insert_commute [of t1 0]) (rule image_mset_cong, auto)
  moreover have "p ! t1 = 0" using assms(3) t1 by simp
  moreover have "held n ?p t1 = add_mset (?p ! 0) (image_mset ((!) ?p) (mset_set ({..n} - {t1, 0})))"
    by (rule held_split) (use t1 assms(4) in auto)
  moreover have "held n p 0 = add_mset (p ! t1) (image_mset ((!) p) (mset_set ({..n} - {0, t1})))"
    by (rule held_split) (use t1 assms(4) in auto)
  ultimately have "held n ?p t1 + {#0#} = held n p 0 + {#Suc s#}"
    using add_mset_commute by (simp only: p0 union_mset_add_mset_right add_0_right)
  moreover have "n - s = Suc (n - Suc s)" using assms(2) by simp
  moreover have "mset_set {1..Suc s} = add_mset (Suc s) (mset_set {1..s})" by (simp add: atLeastAtMostSuc_conv)
  ultimately show ?thesis using assms(1,5,6) by (simp add: matches_def)
qed

lemma phase_start:
  assumes "phase_inv costs s (u, v, p, w)" and "s < length costs"
  defines "t \<equiv> \<lparr>potU = u, potV = v, minimum = replicate (Suc (length costs)) PosInf, way = w,
      used = replicate (Suc (length costs)) False\<rparr>"
  shows "rows_ok (length costs) (p[0 := Suc s])" and "tree_ok costs (p[0 := Suc s]) [] 0 t"
    and "p[0 := Suc s] ! 0 = Suc s"
proof -
  show "rows_ok (length costs) (p[0 := Suc s])"
    using assms(1,2) rows_ok_source by (simp add: phase_inv_def)
  show "p[0 := Suc s] ! 0 = Suc s" using assms(1) by (simp add: phase_inv_def matches_def)
  show "tree_ok costs (p[0 := Suc s]) [] 0 t"
    using assms(1) by (simp add: phase_inv_def matches_def tree_ok_def tree_shape_def tree_tight_def
        duals_ok_def t_def del: replicate.simps)
qed

lemma phase_exact:
  assumes inv: "phase_inv costs s (u, v, p, w)" and s: "s < length costs"
    and "phase id costs (Suc s) (u, v, p, w) = Inr st'"
  obtains u' v' p' w' D t t' where "st' = (u', v', p', w')" "phase_inv costs (Suc s) st'"
    "raised (length costs) t t' D" "potU t = u" "potV t = v" "potU t' = u'" "potV t' = v'"
proof -
  let ?n = "length costs" and ?p = "p[0 := Suc s]"
  let ?t = "\<lparr>potU = u, potV = v, minimum = replicate (Suc ?n) PosInf, way = w, used = replicate (Suc ?n) False\<rparr>"
  note start = phase_start [OF inv s]
  have m: "matches ?n s p" using inv by (simp add: phase_inv_def)
  obtain t1 t' p' where g: "grow id costs ?p (Suc ?n) 0 ?t = Inr (t1, t')"
    and a: "augment (way t') (Suc ?n) t1 ?p = Inr p'" and st': "st' = (potU t', potV t', p', way t')"
    using assms(3) by (auto simp: phase_def Let_def res_simps simp del: augment.simps replicate.simps)
  obtain us' D where tree: "tree_ok costs ?p us' t1 t'" and free: "?p ! t1 = 0" "us' \<noteq> []"
    and r: "raised ?n ?t t' D"
    by (rule grow_exact [OF g start(2,1)]) (use start(3) in auto)
  have shape: "tree_shape ?n ?p us' t1 t'" and tight: "tree_tight costs ?p us' t1 t'"
    and duals: "duals_ok costs (potU t') (potV t') ?p" using tree by (auto simp: tree_ok_def)
  obtain p'' where p'': "augment (way t') (Suc ?n) t1 ?p = Inr p''" "length p'' = Suc ?n"
    "held ?n p'' 0 = held ?n ?p t1"
    and Q: "\<And>j. j \<in> {1..?n} \<Longrightarrow> p'' ! j \<noteq> 0 \<Longrightarrow> cost_at costs (p'' ! j) j = Fin (potU t' ! (p'' ! j) + potV t' ! j)"
  proof (rule augment_tree [OF shape free(2), where Q = "\<lambda>j i. cost_at costs i j = Fin (potU t' ! i + potV t' ! j)"])
    show "cost_at costs (?p ! (way t' ! j)) j = Fin (potU t' ! (?p ! (way t' ! j)) + potV t' ! j)"
      if "j \<in> set (us' @ [t1])" "j \<noteq> 0" for j using tight that unfolding tree_tight_def by blast
    show "cost_at costs (?p ! j) j = Fin (potU t' ! (?p ! j) + potV t' ! j)"
      if "j \<in> {1..?n}" "?p ! j \<noteq> 0" for j using duals that unfolding duals_ok_def by blast
  qed (use m that in \<open>auto simp: matches_def\<close>)
  then have same: "p'' = p'" using a by simp
  have "t1 \<le> ?n" using shape by (simp add: tree_shape_def)
  then have "matches ?n (Suc s) p'" using matches_step [OF m s free(1)] p''(2,3) same by blast
  moreover have "duals_ok costs (potU t') (potV t') p'" using duals Q same unfolding duals_ok_def by blast
  moreover have bounds: "\<forall>i \<le> ?n. u ! i \<le> potU t' ! i" "\<forall>j \<le> ?n. potV t' ! j \<le> v ! j"
    using r by (simp_all add: raised_def)
  have signs: "\<forall>i \<in> {1..?n}. 0 \<le> u ! i" "\<forall>j \<in> {1..?n}. v ! j \<le> 0"
    using inv by (simp_all add: phase_inv_def)
  have "\<forall>i \<in> {1..?n}. 0 \<le> potU t' ! i" using bounds(1) signs(1) by (meson atLeastAtMost_iff order_trans)
  moreover have "\<forall>j \<in> {1..?n}. potV t' ! j \<le> 0" using bounds(2) signs(2) by (meson atLeastAtMost_iff order_trans)
  moreover have "length (way t') = Suc ?n" using shape by (simp add: tree_shape_def)
  ultimately have "phase_inv costs (Suc s) st'" by (simp add: st' phase_inv_def)
  then show thesis using that st' r by (metis tree.select_convs(1,2))
qed

lemma phase_fails:
  assumes inv: "phase_inv costs s (u, v, p, w)" and s: "s < length costs"
    and "phase id costs (Suc s) (u, v, p, w) = Inl e"
  shows "e = NoPerfectMatching \<and> (\<forall>f. \<not> perfect costs f)"
proof -
  let ?n = "length costs" and ?p = "p[0 := Suc s]"
  let ?t = "\<lparr>potU = u, potV = v, minimum = replicate (Suc ?n) PosInf, way = w, used = replicate (Suc ?n) False\<rparr>"
  note start = phase_start [OF inv s]
  show ?thesis
  proof (cases "grow id costs ?p (Suc ?n) 0 ?t")
    case (Inl e')
    then have "e' = e" using assms(3) by (simp add: phase_def Let_def del: replicate.simps)
    then show ?thesis using grow_fails [OF Inl start(2,1)] start(3) by simp
  next
    case (Inr r)
    obtain t1 t' where r: "r = (t1, t')" by force
    obtain us' D where tree: "tree_ok costs ?p us' t1 t'" "us' \<noteq> []"
      by (rule grow_exact [OF Inr [unfolded r] start(2,1)]) (use start(3) in auto)
    have shape: "tree_shape ?n ?p us' t1 t'" using tree by (simp add: tree_ok_def)
    have lp: "length ?p = Suc ?n" using inv by (simp add: phase_inv_def matches_def)
    obtain p'' where "augment (way t') (Suc ?n) t1 ?p = Inr p''"
      by (rule augment_tree [OF shape tree(2) lp, where Q = "\<lambda>_ _. True"]) auto
    then show ?thesis using assms(3) Inr r by (simp add: phase_def Let_def del: replicate.simps augment.simps)
  qed
qed

definition nonneg_costs :: "jcost list list \<Rightarrow> bool" where
  "nonneg_costs costs \<longleftrightarrow> (\<forall>row \<in> set costs. \<forall>c \<in> set row. Fin 0 \<le> c)"

lemma cost_at_mem:
  assumes "square costs" and "i \<in> {1..length costs}" "j \<in> {1..length costs}"
  shows "\<exists>row \<in> set costs. cost_at costs i j \<in> set row"
proof -
  have "i - 1 < length costs" "j - 1 < length costs" using assms(2,3) by auto
  moreover have "length (costs ! (i - 1)) = length costs"
    using assms(1) calculation(1) by (simp add: square_def)
  ultimately show ?thesis by (intro bexI [of _ "costs ! (i - 1)"]) simp_all
qed

text \<open>The state of the loop over the sources, with the bound the totals give.\<close>

definition phase_bounds :: "nat \<Rightarrow> phase_state \<Rightarrow> bool" where
  "phase_bounds n st \<longleftrightarrow> (case st of (u, v, p, w) \<Rightarrow>
     (\<forall>i \<le> n. u ! i \<le> pot_sum n u + pot_sum n v) \<and> (\<forall>j \<le> n. - (pot_sum n u + pot_sum n v) \<le> v ! j))"

lemma phase_bounds_raised:
  assumes "phase_bounds n (u, v, p, w)" and "raised n t t' D" and "potU t = u" "potV t = v"
    and "potU t' = u'" "potV t' = v'"
  shows "phase_bounds n (u', v', p', w')"
proof -
  have t: "pot_sum n u' + pot_sum n v' = pot_sum n u + pot_sum n v + D"
    and b: "\<forall>i \<le> n. u' ! i \<le> u ! i + D" "\<forall>j \<le> n. v ! j - D \<le> v' ! j"
    using assms(2-6) by (auto simp: raised_def)
  show ?thesis
    using assms(1) b unfolding phase_bounds_def by (fastforce simp: t)
qed

definition start_state :: "jcost list list \<Rightarrow> phase_state" where
  "start_state costs = (let zeros = replicate (Suc (length costs)) 0 in
     (zeros, zeros, replicate (Suc (length costs)) 0, replicate (Suc (length costs)) 0))"

lemma start_inv:
  assumes "square costs" and "nonneg_costs costs"
  shows "phase_inv costs 0 (start_state costs)" and "phase_bounds (length costs) (start_state costs)"
proof -
  let ?n = "length costs"
  have "image_mset ((!) (replicate (Suc ?n) (0::nat))) (mset_set ({..?n} - {0})) =
      image_mset (\<lambda>_. 0) (mset_set ({..?n} - {0}))"
    by (rule image_mset_cong) (auto simp: less_Suc_eq_le simp del: replicate.simps)
  then have "matches ?n 0 (replicate (Suc ?n) 0)"
    by (simp add: matches_def held_def image_mset_const_eq del: replicate.simps)
  moreover have "Fin 0 \<le> cost_at costs i j" if "i \<in> {1..?n}" "j \<in> {1..?n}" for i j
    using cost_at_mem [OF assms(1) that] assms(2) by (auto simp: nonneg_costs_def)
  ultimately show "phase_inv costs 0 (start_state costs)"
    by (simp add: phase_inv_def start_state_def duals_ok_def Let_def less_Suc_eq_le del: replicate.simps)
  show "phase_bounds ?n (start_state costs)"
    by (simp add: phase_bounds_def start_state_def pot_sum_def Let_def less_Suc_eq_le del: replicate.simps)
qed

definition phases_upto :: "(int \<Rightarrow> int) \<Rightarrow> jcost list list \<Rightarrow> nat \<Rightarrow> matching_error + phase_state" where
  "phases_upto rnd costs k = fold_res (phase rnd costs) [1..<Suc k] (start_state costs)"

lemma phases_upto: "phases rnd costs = phases_upto rnd costs (length costs)"
  by (simp add: phases_def phases_upto_def start_state_def Let_def)

lemma phases_upto_Suc: "phases_upto rnd costs (Suc k) = bnd (phases_upto rnd costs k) (phase rnd costs (Suc k))"
proof -
  have "[1..<Suc (Suc k)] = [1..<Suc k] @ [Suc k]" by simp
  moreover have "fold_res (phase rnd costs) [Suc k] = phase rnd costs (Suc k)"
  proof
    fix s show "fold_res (phase rnd costs) [Suc k] s = phase rnd costs (Suc k) s"
      by (cases "phase rnd costs (Suc k) s") simp_all
  qed
  ultimately show ?thesis by (simp only: phases_upto_def fold_res_append)
qed

lemma phases_upto_0: "phases_upto rnd costs 0 = Inr (start_state costs)"
  by (simp add: phases_upto_def)

lemma phases_exact:
  assumes "square costs" and "nonneg_costs costs"
  shows "k \<le> length costs \<Longrightarrow> phases_upto id costs k = Inr st \<Longrightarrow>
    phase_inv costs k st \<and> phase_bounds (length costs) st"
proof (induction k arbitrary: st)
  case 0
  then show ?case using start_inv [OF assms] phases_upto_0 [of id costs] by (metis sum.inject(2))
next
  case (Suc k)
  from Suc.prems(2) obtain s0 where s0: "phases_upto id costs k = Inr s0" "phase id costs (Suc k) s0 = Inr st"
    unfolding phases_upto_Suc bnd_Inr by blast
  obtain u v p w where s: "s0 = (u, v, p, w)" by (cases s0)
  have inv: "phase_inv costs k (u, v, p, w)" "phase_bounds (length costs) (u, v, p, w)"
    using Suc.IH [OF _ s0(1)] Suc.prems(1) s by auto
  have "k < length costs" using Suc.prems(1) by simp
  from phase_exact [OF inv(1) this s0(2) [unfolded s]] show ?case
    using phase_bounds_raised [OF inv(2)] by metis
qed

lemma phases_fail:
  assumes "square costs" and "nonneg_costs costs"
  shows "k \<le> length costs \<Longrightarrow> phases_upto id costs k = Inl e \<Longrightarrow>
    e = NoPerfectMatching \<and> (\<forall>f. \<not> perfect costs f)"
proof (induction k)
  case 0
  then show ?case using phases_upto_0 [of id costs] by (metis sum.distinct(1))
next
  case (Suc k)
  show ?case
  proof (cases "phases_upto id costs k")
    case (Inl e')
    have "Inl e' = (Inl e :: matching_error + phase_state)"
      using Suc.prems(2) Inl unfolding phases_upto_Suc by (metis bnd_simps(1))
    then have "phases_upto id costs k = Inl e" using Inl by simp
    then show ?thesis using Suc.IH Suc.prems(1) Suc_leD by blast
  next
    case (Inr s0)
    obtain u v p w where s: "s0 = (u, v, p, w)" by (cases s0)
    have "phase id costs (Suc k) (u, v, p, w) = Inl e"
      using Suc.prems(2) Inr s unfolding phases_upto_Suc by (metis bnd_simps(2))
    moreover have "phase_inv costs k (u, v, p, w)"
      using phases_exact [OF assms _ Inr] Suc.prems(1) s by simp
    ultimately show ?thesis using phase_fails Suc.prems(1) by (meson Suc_le_lessD)
  qed
qed

section \<open>The result\<close>

definition finite_matching :: "jcost list list \<Rightarrow> nat list \<Rightarrow> bool" where
  "finite_matching costs ts \<longleftrightarrow> length ts = length costs \<and> distinct ts \<and> set ts \<subseteq> {..<length costs} \<and>
     (\<forall>i < length costs. is_finite (costs ! i ! (ts ! i)))"

lemma finite_matching_nth: "finite_matching costs ts \<Longrightarrow> i < length costs \<Longrightarrow> ts ! i < length costs"
  unfolding finite_matching_def by (metis lessThan_iff nth_mem subsetD)

fun finite_value :: "jcost \<Rightarrow> int" where
  "finite_value (Fin a) = a"
| "finite_value PosInf = 0"

definition matching_cost :: "jcost list list \<Rightarrow> nat list \<Rightarrow> int" where
  "matching_cost costs ts = (\<Sum>i < length costs. finite_value (costs ! i ! (ts ! i)))"

text \<open>Each target is written once, so the entries that are set are different.\<close>

lemma read_matching_upto:
  fixes p :: "nat list"
  assumes "k \<le> Suc n"
  shows "length (fold (\<lambda>target t. if p ! target = 0 then t else t[p ! target - 1 := int target - 1]) [1..<k] (replicate n (-1))) = n"
    and "i < n \<Longrightarrow> (let x = fold (\<lambda>target t. if p ! target = 0 then t else t[p ! target - 1 := int target - 1]) [1..<k] (replicate n (-1)) ! i
      in x = -1 \<and> (\<forall>j \<in> {1..<k}. p ! j \<noteq> Suc i) \<or> (\<exists>j \<in> {1..<k}. x = int j - 1 \<and> p ! j = Suc i))"
proof -
  let ?f = "\<lambda>target t. if p ! target = 0 then t else t[p ! target - 1 := int target - 1]"
  have "length (fold ?f [1..<k] (replicate n (-1))) = n \<and> (\<forall>i < n. fold ?f [1..<k] (replicate n (-1)) ! i = -1 \<and>
      (\<forall>j \<in> {1..<k}. p ! j \<noteq> Suc i) \<or> (\<exists>j \<in> {1..<k}. fold ?f [1..<k] (replicate n (-1)) ! i = int j - 1 \<and> p ! j = Suc i))"
    using assms(1)
  proof (induction k)
    case 0
    then show ?case by simp
  next
    case (Suc k)
    show ?case
    proof (cases "k = 0")
      case True
      then show ?thesis by simp
    next
      case False
      define t where "t = fold ?f [1..<k] (replicate n (-1))"
      have step: "fold ?f [1..<Suc k] (replicate n (-1)) = ?f k t" using False by (simp add: t_def)
      have IH: "length t = n" "\<And>i. i < n \<Longrightarrow> t ! i = -1 \<and> (\<forall>j \<in> {1..<k}. p ! j \<noteq> Suc i) \<or>
          (\<exists>j \<in> {1..<k}. t ! i = int j - 1 \<and> p ! j = Suc i)"
        using Suc by (auto simp: t_def)
      have "?f k t ! i = -1 \<and> (\<forall>j \<in> {1..<Suc k}. p ! j \<noteq> Suc i) \<or>
          (\<exists>j \<in> {1..<Suc k}. ?f k t ! i = int j - 1 \<and> p ! j = Suc i)" if i: "i < n" for i
      proof (cases "p ! k = Suc i")
        case True
        then have "?f k t ! i = int k - 1" using IH(1) i by simp
        then show ?thesis using True False by (intro disjI2 bexI [of _ k]) auto
      next
        case not: False
        then have "?f k t ! i = t ! i" by (cases "p ! k") auto
        then show ?thesis using IH(2) [OF i] not by (auto simp: less_Suc_eq)
      qed
      then show ?thesis unfolding step using IH(1) by simp
    qed
  qed
  then show "length (fold ?f [1..<k] (replicate n (-1))) = n"
    and "i < n \<Longrightarrow> (let x = fold ?f [1..<k] (replicate n (-1)) ! i
      in x = -1 \<and> (\<forall>j \<in> {1..<k}. p ! j \<noteq> Suc i) \<or> (\<exists>j \<in> {1..<k}. x = int j - 1 \<and> p ! j = Suc i))"
    by (auto simp: Let_def)
qed

lemma read_matching:
  shows "length (read_matching n p) = n"
    and "i < n \<Longrightarrow> read_matching n p ! i = -1 \<and> (\<forall>j \<in> {1..n}. p ! j \<noteq> Suc i) \<or>
      (\<exists>j \<in> {1..n}. read_matching n p ! i = int j - 1 \<and> p ! j = Suc i)"
proof -
  have "{1..<Suc n} = {1..n}" by auto
  then show "length (read_matching n p) = n"
    and "i < n \<Longrightarrow> read_matching n p ! i = -1 \<and> (\<forall>j \<in> {1..n}. p ! j \<noteq> Suc i) \<or>
      (\<exists>j \<in> {1..n}. read_matching n p ! i = int j - 1 \<and> p ! j = Suc i)"
    using read_matching_upto [where k = "Suc n" and n = n and p = p] unfolding read_matching_def Let_def by simp_all
qed

text \<open>Whatever the rounding, a result is a perfect matching of finite costs.\<close>

lemma hungarian_rounding_matching:
  assumes "hungarian_rounding rnd costs = Inr ts"
  shows "finite_matching costs ts" and "square costs"
proof -
  let ?n = "length costs"
  obtain u v p w where sq: "costs \<noteq> [] \<and> (\<forall>row \<in> set costs. length row = ?n)"
    and fin: "\<forall>i < ?n. 0 \<le> read_matching ?n p ! i \<and> is_finite (costs ! i ! nat (read_matching ?n p ! i))"
    and ts: "ts = map nat (read_matching ?n p)"
    using assms by (auto simp: hungarian_rounding_def res_simps Let_def)
  show "square costs" using sq by (simp add: square_def)
  have len: "length (read_matching ?n p) = ?n" by (rule read_matching)
  have src: "\<exists>j \<in> {1..?n}. ts ! i = j - 1 \<and> p ! j = Suc i" if "i < ?n" for i
  proof -
    have "0 \<le> read_matching ?n p ! i" "ts ! i = nat (read_matching ?n p ! i)" using fin len that ts by auto
    moreover from this obtain j where "j \<in> {1..?n}" "read_matching ?n p ! i = int j - 1" "p ! j = Suc i"
      using read_matching(2) [OF \<open>i < ?n\<close>, of p] by auto
    ultimately show ?thesis by (intro bexI [of _ j]) auto
  qed
  have "distinct ts"
  proof (rule distinct_conv_nth [THEN iffD2], intro allI impI)
    fix i k assume ik: "i < length ts" "k < length ts" "i \<noteq> k"
    obtain j l where "j \<in> {1..?n}" "ts ! i = j - 1" "p ! j = Suc i" "l \<in> {1..?n}" "ts ! k = l - 1" "p ! l = Suc k"
      using src [of i] src [of k] ik len ts by auto
    moreover from this have "j \<noteq> l" using ik(3) by auto
    ultimately show "ts ! i \<noteq> ts ! k" by auto
  qed
  moreover have "set ts \<subseteq> {..<?n}"
  proof
    fix x assume "x \<in> set ts"
    then obtain i where "i < ?n" "x = ts ! i" using len ts by (auto simp: in_set_conv_nth)
    then show "x \<in> {..<?n}" using src [of i] by force
  qed
  moreover have "\<forall>i < ?n. is_finite (costs ! i ! (ts ! i))" using fin len ts by simp
  ultimately show "finite_matching costs ts" using len ts by (simp add: finite_matching_def)
qed

text \<open>The potentials bound every matching from below.\<close>

lemma matching_potentials:
  assumes "finite_matching costs ts"
  shows "(\<Sum>i < length costs. u ! Suc i + v ! Suc (ts ! i)) = pot_sum (length costs) u + pot_sum (length costs) v"
proof -
  let ?n = "length costs"
  have "bij_betw ((!) ts) {..<?n} {..<?n}"
  proof -
    have "inj_on ((!) ts) {..<?n}" using assms by (simp add: finite_matching_def inj_on_nth)
    moreover have "(!) ts ` {..<?n} \<subseteq> {..<?n}" using finite_matching_nth [OF assms] by auto
    ultimately show ?thesis by (simp add: bij_betw_def endo_inj_surj)
  qed
  then have "(\<Sum>i < ?n. v ! Suc (ts ! i)) = (\<Sum>j < ?n. v ! Suc j)" by (rule sum.reindex_bij_betw)
  moreover have "pot_sum ?n xs = (\<Sum>i < ?n. xs ! Suc i)" for xs
    unfolding pot_sum_def by (rule sum.reindex_bij_witness [where i = Suc and j = "\<lambda>i. i - 1"]) auto
  ultimately show ?thesis by (simp add: sum.distrib)
qed

lemma duals_below:
  assumes "duals_ok costs u v p" and "finite_matching costs ts"
  shows "pot_sum (length costs) u + pot_sum (length costs) v \<le> matching_cost costs ts"
proof -
  have "u ! Suc i + v ! Suc (ts ! i) \<le> finite_value (costs ! i ! (ts ! i))" if i: "i < length costs" for i
  proof -
    have "ts ! i < length costs" by (rule finite_matching_nth [OF assms(2) i])
    then have "Fin (u ! Suc i + v ! Suc (ts ! i)) \<le> cost_at costs (Suc i) (Suc (ts ! i))"
    proof -
      have "Suc i \<in> {1..length costs}" "Suc (ts ! i) \<in> {1..length costs}" using i \<open>ts ! i < length costs\<close> by auto
      then show ?thesis using assms(1) unfolding duals_ok_def by blast
    qed
    moreover have "is_finite (costs ! i ! (ts ! i))" using assms(2) i by (simp add: finite_matching_def)
    ultimately show ?thesis by (cases "costs ! i ! (ts ! i)") auto
  qed
  then show ?thesis
    unfolding matching_potentials [OF assms(2), symmetric] matching_cost_def by (intro sum_mono) simp
qed

lemma finite_matching_perfect:
  assumes "finite_matching costs ts"
  shows "perfect costs (\<lambda>i. Suc (ts ! (i - 1)))"
proof -
  have "inj_on (\<lambda>i. Suc (ts ! (i - 1))) {1..length costs}"
    using assms by (intro inj_onI) (auto simp: finite_matching_def nth_eq_iff_index_eq)
  moreover have "ts ! (i - 1) < length costs" if "i \<in> {1..length costs}" for i
    by (rule finite_matching_nth [OF assms]) (use that in auto)
  moreover have "costs ! (i - 1) ! (ts ! (i - 1)) \<noteq> PosInf" if "i \<in> {1..length costs}" for i
  proof -
    have "i - 1 < length costs" using that by auto
    then have "is_finite (costs ! (i - 1) ! (ts ! (i - 1)))" using assms by (simp add: finite_matching_def)
    then show ?thesis by auto
  qed
  ultimately show ?thesis by (force simp: perfect_def Suc_le_eq)
qed

text \<open>The final state of the exact phases.\<close>

lemma phases_result:
  assumes "square costs" "nonneg_costs costs" and "phases id costs = Inr (u, v, p, w)"
  obtains ts where "hungarian_rounding id costs = Inr ts" "finite_matching costs ts"
    "matching_cost costs ts = pot_sum (length costs) u + pot_sum (length costs) v" "duals_ok costs u v p"
proof -
  let ?n = "length costs" and ?T = "read_matching (length costs) p"
  have inv: "phase_inv costs ?n (u, v, p, w)"
    using phases_exact [OF assms(1,2) order_refl] assms(3) by (simp add: phases_upto)
  then have duals: "duals_ok costs u v p" and held: "held ?n p 0 = mset_set {1..?n}"
    by (auto simp: phase_inv_def matches_def)
  have ex: "\<exists>j \<in> {1..?n}. p ! j = i" if "i \<in> {1..?n}" for i
  proof -
    have "i \<in># held ?n p 0" unfolding held using that by simp
    then show ?thesis by (force simp: held_def)
  qed
  have src: "\<exists>j \<in> {1..?n}. ?T ! i = int j - 1 \<and> p ! j = Suc i" if "i < ?n" for i
    using read_matching(2) [OF that, of p] ex [of "Suc i"] that by auto
  have val: "0 \<le> ?T ! i \<and> costs ! i ! nat (?T ! i) = Fin (u ! Suc i + v ! Suc (nat (?T ! i)))" if i: "i < ?n" for i
  proof -
    obtain j where j: "j \<in> {1..?n}" "?T ! i = int j - 1" "p ! j = Suc i" using src [OF i] by blast
    then have "nat (?T ! i) = j - 1" "Suc (j - 1) = j" by auto
    moreover have "cost_at costs (Suc i) j = Fin (u ! Suc i + v ! j)"
      using duals j unfolding duals_ok_def by (metis nat.distinct(1))
    ultimately show ?thesis using j by auto
  qed
  have "hungarian_rounding id costs = Inr (map nat ?T)"
    using assms(1,3) val by (simp add: hungarian_rounding_def square_def Let_def)
  moreover from this have m: "finite_matching costs (map nat ?T)" by (rule hungarian_rounding_matching)
  moreover have "matching_cost costs (map nat ?T) = pot_sum ?n u + pot_sum ?n v"
    unfolding matching_potentials [OF m, symmetric] matching_cost_def
    by (rule sum.cong) (use val read_matching(1) in auto)
  ultimately show thesis using that duals by blast
qed

lemma hungarian_exact:
  assumes "square costs" "nonneg_costs costs" and "finite_matching costs ts"
  obtains u v p w where "phases id costs = Inr (u, v, p, w)"
proof (cases "phases id costs")
  case (Inl e)
  then show ?thesis
    using phases_fail [OF assms(1,2) order_refl] finite_matching_perfect [OF assms(3)]
    by (simp add: phases_upto)
next
  case (Inr st)
  then show ?thesis using that by (metis prod_cases4)
qed

end
