(* ===== verification/HungarianRounding.thy ===== *)
theory HungarianRounding
  imports HungarianCorrect
begin

text \<open>
  The assignment solver as the code runs it, on doubles: as long as the size times the largest cost
  stays a safe integer nothing is rounded and the exact result carries over. Both loops end for
  every input. The interface \<open>assignment_solver\<close> is what the planner relies on.
\<close>

section \<open>Rounding\<close>

text \<open>
  In a run that ends with a matching, the potentials stay between 0 and the total, so every number
  the code computes is at most the largest cost plus that total.
\<close>

definition exact_upto :: "(int \<Rightarrow> int) \<Rightarrow> int \<Rightarrow> bool" where
  "exact_upto rnd b \<longleftrightarrow> (\<forall>x. \<bar>x\<bar> \<le> b \<longrightarrow> rnd x = x)"

definition costs_upto :: "jcost list list \<Rightarrow> int \<Rightarrow> bool" where
  "costs_upto costs c \<longleftrightarrow> (\<forall>row \<in> set costs. \<forall>x. Fin x \<in> set row \<longrightarrow> 0 \<le> x \<and> x \<le> c)"

definition pots_upto :: "nat \<Rightarrow> int list \<Rightarrow> int list \<Rightarrow> int \<Rightarrow> bool" where
  "pots_upto n u v m \<longleftrightarrow> (\<forall>i \<le> n. 0 \<le> u ! i \<and> u ! i \<le> m) \<and> (\<forall>j \<le> n. - m \<le> v ! j \<and> v ! j \<le> 0)"

lemma costs_upto_nonneg: "costs_upto costs c \<Longrightarrow> nonneg_costs costs"
  unfolding costs_upto_def nonneg_costs_def by (metis jcost_le(1,2) jcost.exhaust)

lemma cost_at_upto:
  "square costs \<Longrightarrow> costs_upto costs c \<Longrightarrow> i \<in> {1..length costs} \<Longrightarrow> j \<in> {1..length costs} \<Longrightarrow>
   cost_at costs i j = Fin x \<Longrightarrow> 0 \<le> x \<and> x \<le> c"
  using cost_at_mem [of costs i j] unfolding costs_upto_def by metis

lemma reduced_rounding:
  assumes "exact_upto rnd (c + m)" and "square costs" "costs_upto costs c" and "0 \<le> m" "0 \<le> c"
    and "duals_ok costs u v p" "pots_upto (length costs) u v m"
    and "i \<in> {1..length costs}" "j \<in> {1..length costs}"
  shows "reduced rnd costs u v i j = reduced id costs u v i j"
    and "reduced id costs u v i j = Fin x \<Longrightarrow> 0 \<le> x \<and> x \<le> c + m"
proof -
  have uv: "0 \<le> u ! i" "u ! i \<le> m" "- m \<le> v ! j" "v ! j \<le> 0"
    using assms(7-9) by (auto simp: pots_upto_def)
  have y: "0 \<le> y \<and> y \<le> c \<and> u ! i + v ! j \<le> y" if "cost_at costs i j = Fin y" for y
  proof -
    have "Fin (u ! i + v ! j) \<le> cost_at costs i j" using assms(6,8,9) unfolding duals_ok_def by blast
    then show ?thesis using cost_at_upto [OF assms(2,3,8,9) that] that by simp
  qed
  have rnd: "\<bar>z\<bar> \<le> c + m \<Longrightarrow> rnd z = z" for z using assms(1) by (simp add: exact_upto_def)
  show "reduced rnd costs u v i j = reduced id costs u v i j"
  proof (cases "cost_at costs i j")
    case (Fin y)
    have "rnd (y - u ! i) = y - u ! i" "rnd (y - u ! i - v ! j) = y - u ! i - v ! j"
      using y [OF Fin] uv assms(4,5) by (auto intro!: rnd)
    then show ?thesis using Fin by (simp add: reduced_def)
  qed (simp add: reduced_def)
  show "0 \<le> x \<and> x \<le> c + m" if "reduced id costs u v i j = Fin x"
  proof (cases "cost_at costs i j")
    case (Fin y)
    then have "x = y - u ! i - v ! j" using that by (simp add: reduced_def)
    then show ?thesis using y [OF Fin] uv by auto
  qed (use that in \<open>simp add: reduced_def\<close>)
qed

lemma scan_rounding:
  assumes "\<And>j. j \<in> {1..length costs} \<Longrightarrow> reduced rnd costs u v i j = reduced id costs u v i j"
  shows "scan rnd costs u v us i t0 m w = scan id costs u v us i t0 m w"
  unfolding scan_def
proof (rule fold_cong [OF refl refl])
  fix j assume "j \<in> set [1..<Suc (length costs)]"
  then have "reduced rnd costs u v i j = reduced id costs u v i j" by (intro assms) auto
  then show "scan_target rnd costs u v us i t0 j = scan_target id costs u v us i t0 j"
    by (intro ext) (simp add: scan_target_def reduced_def split: prod.split)
qed

text \<open>The scanned minima and the shift of a round stay in range.\<close>

lemma round_rounding:
  assumes rnd: "exact_upto rnd (c + m)" and sq: "square costs" and cs: "costs_upto costs c" and pos: "0 \<le> m" "0 \<le> c"
    and tree: "tree_ok costs p us t0 t" and rows: "rows_ok (length costs) p" and nz: "p ! t0 \<noteq> 0"
    and pots: "pots_upto (length costs) (potU t) (potV t) m"
    and scan: "scan id costs (potU t) (potV t) ((used t)[t0 := True]) (p ! t0) t0 (minimum t) (way t) = (m', w', Fin d, t1)"
    and shift: "shift id (length costs) p ((used t)[t0 := True]) d (potU t, potV t, m') = (u', v', m'')"
    and pots': "pots_upto (length costs) u' v' m"
  shows "scan rnd costs (potU t) (potV t) ((used t)[t0 := True]) (p ! t0) t0 (minimum t) (way t) = (m', w', Fin d, t1)"
    and "shift rnd (length costs) p ((used t)[t0 := True]) d (potU t, potV t, m') = (u', v', m'')"
proof -
  let ?n = "length costs" and ?u = "potU t" and ?v = "potV t" and ?us = "(used t)[t0 := True]"
  have shape: "tree_shape ?n p us t0 t" and tight: "tree_tight costs p us t0 t" and duals: "duals_ok costs ?u ?v p"
    using tree by (auto simp: tree_ok_def)
  have t0: "t0 \<le> ?n" using shape by (simp add: tree_shape_def)
  have row: "p ! j \<in> {1..?n}" if "j \<le> ?n" "p ! j \<noteq> 0" for j using rows that by (simp add: rows_ok_def Suc_le_eq)
  note red = reduced_rounding [OF rnd sq cs pos duals pots]
  have "scan rnd costs ?u ?v ?us (p ! t0) t0 (minimum t) (way t) = scan id costs ?u ?v ?us (p ! t0) t0 (minimum t) (way t)"
    by (rule scan_rounding) (use red(1) row [OF t0 nz] in blast)
  then show "scan rnd costs ?u ?v ?us (p ! t0) t0 (minimum t) (way t) = (m', w', Fin d, t1)" using scan by simp
  have lens: "length ?u = Suc ?n" "length ?v = Suc ?n" "length (minimum t) = Suc ?n" "length (way t) = Suc ?n" "length (used t) = Suc ?n"
    using duals shape by (auto simp: duals_ok_def tree_shape_def)
  have used': "?us ! j \<longleftrightarrow> j \<in> set (us @ [t0])" if "j \<le> ?n" for j
    using shape that lens(5) by (cases "j = t0") (auto simp: tree_shape_def)
  have us_nz: "\<forall>j \<le> ?n. ?us ! j \<longrightarrow> p ! j \<noteq> 0" using used' shape nz by (auto simp: tree_shape_def)
  note scn = scan_spec [OF lens(3,4) scan]
  have m'len: "length m' = Suc ?n" using scn(1) lens by (simp add: scanned_def)
  note ex = round_exact [OF shape tight duals rows refl nz scan shift]
  have us_n: "\<And>w. w \<in> set us \<Longrightarrow> w \<le> ?n" using shape by (auto simp: tree_shape_def)
  have range: "0 \<le> x \<and> x \<le> c + m \<and> d \<le> x" if j: "j \<in> {1..?n}" "\<not> ?us ! j" "m' ! j = Fin x" for j x
  proof -
    have j': "j \<notin> set us" using used' [of j] j by auto
    have "if reduced id costs ?u ?v (p ! t0) j < minimum t ! j
        then m' ! j = reduced id costs ?u ?v (p ! t0) j else m' ! j = minimum t ! j"
      using scn(1) j lens(3) by (auto simp: scanned_def less_Suc_eq_le)
    then consider "reduced id costs ?u ?v (p ! t0) j = Fin x" | "minimum t ! j = Fin x"
      using j(3) by (auto split: if_splits)
    then have "0 \<le> x \<and> x \<le> c + m"
    proof cases
      case 1
      show ?thesis by (rule red(2) [OF row [OF t0 nz] j(1) 1])
    next
      case 2
      then have w: "way t ! j \<in> set us" using shape j(1) j' by (auto simp: tree_shape_def)
      moreover have "reduced id costs ?u ?v (p ! (way t ! j)) j = Fin x"
        using tight 2 j(1) j' by (auto simp: tree_tight_def)
      ultimately show ?thesis
        using red(2) [OF row j(1)] us_n us_nz used' by (metis UnI1 set_append)
    qed
    moreover have "Fin d \<le> m' ! j" using scn(2) [of j] j by simp
    ultimately show ?thesis using j(3) by simp
  qed
  obtain u2 v2 m2 where s2: "shift rnd ?n p ?us d (?u, ?v, m') = (u2, v2, m2)" by (metis prod_cases3)
  note one = shift_potentials [OF rows lens(1,2) m'len shift us_nz]
  note two = shift_potentials [OF rows lens(1,2) m'len s2 us_nz]
  have r: "\<bar>z\<bar> \<le> c + m \<Longrightarrow> rnd z = z" for z using rnd by (simp add: exact_upto_def)
  have "u2 = u'"
  proof (rule nth_equalityI)
    fix i assume "i < length u2"
    then have i: "i \<le> ?n" using two(1) by simp
    have "0 \<le> u' ! i" "u' ! i \<le> m" using pots' i by (auto simp: pots_upto_def)
    then have "rnd (?u ! i + d) = ?u ! i + d" if "\<exists>t \<le> ?n. ?us ! t \<and> p ! t = i"
      using one(6) [OF i] that pos(2) by (intro r) auto
    then show "u2 ! i = u' ! i" using one(6) [OF i] two(6) [OF i] by auto
  qed (use one two in simp)
  moreover have "v2 = v'"
  proof (rule nth_equalityI)
    fix j assume "j < length v2"
    then have j: "j \<le> ?n" using two(2) by simp
    have "- m \<le> v' ! j" "v' ! j \<le> 0" using pots' j by (auto simp: pots_upto_def)
    then have "rnd (?v ! j - d) = ?v ! j - d" if "?us ! j" using one(4) [OF j] that pos(2) by (intro r) auto
    then show "v2 ! j = v' ! j" using one(4) [OF j] two(4) [OF j] by auto
  qed (use one two in simp)
  moreover have "m2 = m''"
  proof (rule nth_equalityI)
    fix j assume "j < length m2"
    then have j: "j \<le> ?n" using two(3) by simp
    have "cost_minus rnd (m' ! j) d = cost_minus id (m' ! j) d" if "\<not> ?us ! j"
    proof (cases "m' ! j")
      case (Fin x)
      have "j \<noteq> 0" using that used' [of 0] shape unfolding tree_shape_def
        by (metis le0 nth_mem length_append_singleton zero_less_Suc)
      then have "0 \<le> x \<and> x \<le> c + m \<and> d \<le> x" using range [of j x] that Fin j by (simp add: Suc_le_eq)
      then show ?thesis using ex(4) Fin by (simp add: r)
    qed simp
    then show "m2 ! j = m'' ! j" using one(5) [OF j] two(5) [OF j] by auto
  qed (use one two in simp)
  ultimately show "shift rnd ?n p ?us d (?u, ?v, m') = (u', v', m'')" using s2 by simp
qed

abbreviation tree_total :: "nat \<Rightarrow> tree \<Rightarrow> int" where
  "tree_total n t \<equiv> pot_sum n (potU t) + pot_sum n (potV t)"

lemma pots_upto_mono: "pots_upto n u v m \<Longrightarrow> m \<le> m' \<Longrightarrow> pots_upto n u v m'"
  by (fastforce simp: pots_upto_def)

lemma pots_upto_raised:
  assumes "pots_upto n (potU t) (potV t) (tree_total n t)" and "raised n t t' D"
  shows "pots_upto n (potU t') (potV t') (tree_total n t')"
proof -
  have t: "tree_total n t' = tree_total n t + D"
    and b: "\<forall>i \<le> n. potU t ! i \<le> potU t' ! i \<and> potU t' ! i \<le> potU t ! i + D"
      "\<forall>j \<le> n. potV t ! j - D \<le> potV t' ! j \<and> potV t' ! j \<le> potV t ! j"
    using assms(2) by (auto simp: raised_def)
  show ?thesis
    unfolding t pots_upto_def
  proof (intro conjI allI impI)
    fix i assume i: "i \<le> n"
    have "0 \<le> potU t ! i" "potU t ! i \<le> tree_total n t" "- tree_total n t \<le> potV t ! i" "potV t ! i \<le> 0"
      using assms(1) i by (auto simp: pots_upto_def)
    with b i show "0 \<le> potU t' ! i" "potU t' ! i \<le> tree_total n t + D"
      "- (tree_total n t + D) \<le> potV t' ! i" "potV t' ! i \<le> 0" by (smt (verit))+
  qed
qed

lemma grow_rounding:
  assumes rnd: "exact_upto rnd (c + m)" and sq: "square costs" and cs: "costs_upto costs c" and pos: "0 \<le> m" "0 \<le> c"
    and rows: "rows_ok (length costs) p" and goal: "tree_total (length costs) t' \<le> m"
  shows "grow id costs p fuel t0 t = Inr (t1, t') \<Longrightarrow> tree_ok costs p us t0 t \<Longrightarrow> p ! t0 \<noteq> 0 \<Longrightarrow>
    pots_upto (length costs) (potU t) (potV t) (tree_total (length costs) t) \<Longrightarrow>
    grow rnd costs p fuel t0 t = Inr (t1, t')"
proof (induction fuel arbitrary: us t0 t)
  case 0
  then show ?case by simp
next
  case (Suc fuel)
  let ?n = "length costs"
  show ?case
  proof (cases rule: grow_round [of id costs t t0 p fuel])
    case (1 m' w' t2)
    then show ?thesis using Suc.prems(1) by (metis sum.distinct(1))
  next
    case (2 m' w' d t2 u' v' m'')
    let ?t = "\<lparr>potU = u', potV = v', minimum = m'', way = w', used = (used t)[t0 := True]\<rparr>"
    note tree = tree_round [OF Suc.prems(2) rows Suc.prems(3) 2(1,2)]
    have eq: "(if p ! t2 \<noteq> 0 then grow id costs p fuel t2 ?t else Inr (t2, ?t)) = Inr (t1, t')"
      using Suc.prems(1) 2(3) by (metis (full_types))
    have le: "tree_total ?n ?t \<le> tree_total ?n t'"
    proof (cases "p ! t2 = 0")
      case True
      then show ?thesis using eq by simp
    next
      case False
      then have "grow id costs p fuel t2 ?t = Inr (t1, t')" using eq by (metis (full_types))
      then obtain us' D where "raised ?n ?t t' D" by (rule grow_exact [OF _ tree(1) rows False])
      then show ?thesis by (simp add: raised_def)
    qed
    have next_pots: "pots_upto ?n (potU ?t) (potV ?t) (tree_total ?n ?t)"
      by (rule pots_upto_raised [OF Suc.prems(4) tree(2)])
    have "0 \<le> d" using tree(2) by (simp add: raised_def)
    then have "tree_total ?n t \<le> m" using tree(2) le goal by (simp add: raised_def)
    then have pots: "pots_upto ?n (potU t) (potV t) m" by (rule pots_upto_mono [OF Suc.prems(4)])
    have pots': "pots_upto ?n u' v' m" using pots_upto_mono [OF next_pots] le goal by simp
    note same = round_rounding [OF rnd sq cs pos Suc.prems(2) rows Suc.prems(3) pots 2(1,2) pots']
    have "grow rnd costs p (Suc fuel) t0 t = (if p ! t2 \<noteq> 0 then grow rnd costs p fuel t2 ?t else Inr (t2, ?t))"
      using same by (simp add: grow.simps(2) Let_def)
    moreover have "grow rnd costs p fuel t2 ?t = Inr (t1, t')" if "p ! t2 \<noteq> 0"
      using Suc.IH [OF _ tree(1) that next_pots] eq that by (metis (full_types))
    ultimately show ?thesis using eq by (auto split: if_splits)
  qed
qed

lemma phase_rounding:
  assumes rnd: "exact_upto rnd (c + m)" and sq: "square costs" and cs: "costs_upto costs c" and pos: "0 \<le> m" "0 \<le> c"
    and inv: "phase_inv costs s (u, v, p, w)" and s: "s < length costs"
    and pots: "pots_upto (length costs) u v (pot_sum (length costs) u + pot_sum (length costs) v)"
    and run: "phase id costs (Suc s) (u, v, p, w) = Inr (u', v', p', w')"
    and goal: "pot_sum (length costs) u' + pot_sum (length costs) v' \<le> m"
  shows "phase rnd costs (Suc s) (u, v, p, w) = Inr (u', v', p', w')"
proof -
  let ?n = "length costs" and ?p = "p[0 := Suc s]"
  let ?t = "\<lparr>potU = u, potV = v, minimum = replicate (Suc ?n) PosInf, way = w, used = replicate (Suc ?n) False\<rparr>"
  note start = phase_start [OF inv s]
  obtain t1 t' where g: "grow id costs ?p (Suc ?n) 0 ?t = Inr (t1, t')"
    and a: "augment (way t') (Suc ?n) t1 ?p = Inr p'" and st: "u' = potU t'" "v' = potV t'" "w' = way t'"
    using run by (auto simp: phase_def Let_def res_simps simp del: augment.simps replicate.simps)
  have "grow rnd costs ?p (Suc ?n) 0 ?t = Inr (t1, t')"
    by (rule grow_rounding [OF rnd sq cs pos start(1) _ g start(2)]) (use goal st pots start(3) in auto)
  then show ?thesis using a st by (simp add: phase_def Let_def del: augment.simps replicate.simps)
qed

lemma phases_rounding:
  assumes rnd: "exact_upto rnd (c + m)" and sq: "square costs" and cs: "costs_upto costs c" and pos: "0 \<le> m" "0 \<le> c"
  shows "k \<le> length costs \<Longrightarrow> phases_upto id costs k = Inr (u, v, p, w) \<Longrightarrow>
    pot_sum (length costs) u + pot_sum (length costs) v \<le> m \<Longrightarrow>
    phases_upto rnd costs k = Inr (u, v, p, w) \<and>
    pots_upto (length costs) u v (pot_sum (length costs) u + pot_sum (length costs) v)"
proof (induction k arbitrary: u v p w)
  case 0
  have "start_state costs = (u, v, p, w)" using 0(2) phases_upto_0 [of id costs] by (metis sum.inject(2))
  then show ?case
    using phases_upto_0 [of rnd costs]
    by (auto simp: start_state_def Let_def pots_upto_def pot_sum_def less_Suc_eq_le simp del: replicate.simps)
next
  case (Suc k)
  let ?n = "length costs"
  have ng: "nonneg_costs costs" by (rule costs_upto_nonneg [OF cs])
  from Suc.prems(2) obtain u0 v0 p0 w0 where s0: "phases_upto id costs k = Inr (u0, v0, p0, w0)"
    "phase id costs (Suc k) (u0, v0, p0, w0) = Inr (u, v, p, w)"
    unfolding phases_upto_Suc bnd_Inr by (metis prod_cases4)
  have k: "k < ?n" using Suc.prems(1) by simp
  have inv: "phase_inv costs k (u0, v0, p0, w0)" using phases_exact [OF sq ng _ s0(1)] k by simp
  obtain t t' D where r: "raised ?n t t' D" and eqs: "potU t = u0" "potV t = v0" "potU t' = u" "potV t' = v"
    by (rule phase_exact [OF inv k s0(2)]) auto
  have "pot_sum ?n u0 + pot_sum ?n v0 \<le> m" using r Suc.prems(3) eqs by (simp add: raised_def)
  with Suc.IH [OF _ s0(1)] k have IH: "phases_upto rnd costs k = Inr (u0, v0, p0, w0)"
    "pots_upto ?n u0 v0 (pot_sum ?n u0 + pot_sum ?n v0)" by auto
  have "phase rnd costs (Suc k) (u0, v0, p0, w0) = Inr (u, v, p, w)"
    by (rule phase_rounding [OF rnd sq cs pos inv k IH(2) s0(2) Suc.prems(3)])
  then have "phases_upto rnd costs (Suc k) = Inr (u, v, p, w)" using IH(1) by (simp add: phases_upto_Suc)
  moreover have "pots_upto ?n u v (pot_sum ?n u + pot_sum ?n v)"
    using pots_upto_raised [of ?n t t' D] r IH(2) eqs by simp
  ultimately show ?case by blast
qed

section \<open>The solver of the code\<close>

text \<open>
  With \<open>n\<close> rows and finite costs in \<open>0, \<dots>, c\<close> such that \<open>(n + 1) * c\<close> is a safe integer, the
  solver returns a perfect matching of least cost whenever there is one.
\<close>

definition solvable_size :: "jcost list list \<Rightarrow> int \<Rightarrow> bool" where
  "solvable_size costs c \<longleftrightarrow> square costs \<and> costs_upto costs c \<and> 0 \<le> c \<and> is_safe ((int (length costs) + 1) * c)"

lemma matching_cost_upto:
  assumes "square costs" "costs_upto costs c" and "finite_matching costs ts"
  shows "matching_cost costs ts \<le> int (length costs) * c"
proof -
  have "finite_value (costs ! i ! (ts ! i)) \<le> c" if i: "i < length costs" for i
  proof -
    have "ts ! i < length costs" by (rule finite_matching_nth [OF assms(3) i])
    moreover obtain x where "costs ! i ! (ts ! i) = Fin x"
      using assms(3) i by (cases "costs ! i ! (ts ! i)") (auto simp: finite_matching_def)
    ultimately show ?thesis using cost_at_upto [OF assms(1,2), of "Suc i" "Suc (ts ! i)" x] i by auto
  qed
  then have "matching_cost costs ts \<le> (\<Sum>i < length costs. c)"
    unfolding matching_cost_def by (intro sum_mono) simp
  then show ?thesis by simp
qed

lemma hungarian_rounding_optimal:
  assumes size: "solvable_size costs c" and "finite_matching costs ts0"
  obtains ts where "hungarian costs = Inr ts" "finite_matching costs ts"
    "\<And>ts'. finite_matching costs ts' \<Longrightarrow> matching_cost costs ts \<le> matching_cost costs ts'"
proof -
  let ?n = "length costs"
  have sq: "square costs" and cs: "costs_upto costs c" and c: "0 \<le> c" and safe: "is_safe ((int ?n + 1) * c)"
    using size by (auto simp: solvable_size_def)
  note ng = costs_upto_nonneg [OF cs]
  obtain u v p w where run: "phases id costs = Inr (u, v, p, w)"
    by (rule hungarian_exact [OF sq ng assms(2)])
  obtain ts where ts: "hungarian_rounding id costs = Inr ts" "finite_matching costs ts"
    "matching_cost costs ts = pot_sum ?n u + pot_sum ?n v" "duals_ok costs u v p"
    by (rule phases_result [OF sq ng run])
  have "js_round x = x" if "\<bar>x\<bar> \<le> c + int ?n * c" for x
    by (rule js_round_safe) (use safe that in \<open>auto simp: is_safe_def algebra_simps\<close>)
  then have "exact_upto js_round (c + int ?n * c)" by (simp add: exact_upto_def)
  moreover have "pot_sum ?n u + pot_sum ?n v \<le> int ?n * c"
    using matching_cost_upto [OF sq cs ts(2)] ts(3) by simp
  moreover have "0 \<le> int ?n * c" using c by simp
  ultimately have "phases js_round costs = Inr (u, v, p, w)"
    using phases_rounding [of js_round c "int ?n * c" costs ?n u v p w] sq cs c run by (simp add: phases_upto)
  then have "hungarian costs = Inr ts" using ts(1) run by (simp add: hungarian_def hungarian_rounding_def)
  then show thesis using that ts duals_below [OF ts(4)] by simp
qed

section \<open>The loops end\<close>

text \<open>Both loops end within their fuel for every matrix and every rounding.\<close>

definition state_shape :: "nat \<Rightarrow> nat \<Rightarrow> phase_state \<Rightarrow> bool" where
  "state_shape n s st \<longleftrightarrow> (case st of (u, v, p, w) \<Rightarrow>
     length u = Suc n \<and> length v = Suc n \<and> length w = Suc n \<and> matches n s p)"

lemma grow_shape:
  assumes "n = length costs" and "rows_ok n p"
  shows "tree_shape n p us t0 t \<Longrightarrow> length (potU t) = Suc n \<Longrightarrow> length (potV t) = Suc n \<Longrightarrow> p ! t0 \<noteq> 0 \<Longrightarrow>
    n < length us + fuel \<Longrightarrow> grow rnd costs p fuel t0 t \<noteq> Inl MatchingFuel \<and>
    (\<forall>t1 t'. grow rnd costs p fuel t0 t = Inr (t1, t') \<longrightarrow>
       (\<exists>us'. tree_shape n p us' t1 t' \<and> us' \<noteq> []) \<and> p ! t1 = 0 \<and>
       length (potU t') = Suc n \<and> length (potV t') = Suc n)"
proof (induction fuel arbitrary: us t0 t)
  case 0
  have "card (set (us @ [t0])) \<le> card {..n}" using 0 by (intro card_mono) (auto simp: tree_shape_def)
  moreover have "card (set (us @ [t0])) = Suc (length us)" using 0 by (simp add: tree_shape_def distinct_card)
  ultimately show ?case using 0 by simp
next
  case (Suc fuel)
  show ?case
  proof (cases rule: grow_round [of rnd costs t t0 p fuel])
    case (1 m' w' t2)
    then show ?thesis by simp
  next
    case (2 m' w' d t2 u' v' m'')
    let ?t = "\<lparr>potU = u', potV = v', minimum = m'', way = w', used = (used t)[t0 := True]\<rparr>"
    have lens: "length (minimum t) = Suc (length costs)" "length (way t) = Suc (length costs)" "length (used t) = Suc n"
      using Suc.prems(1) assms(1) by (auto simp: tree_shape_def)
    have m'len: "length m' = Suc n" using scan_spec(1) [OF lens(1,2) 2(1)] lens assms(1) by (simp add: scanned_def)
    have us_nz: "\<forall>j \<le> n. (used t)[t0 := True] ! j \<longrightarrow> p ! j \<noteq> 0"
      using Suc.prems(1,4) lens(3) by (auto simp: tree_shape_def nth_list_update)
    note sh = shift_potentials [OF assms(2) Suc.prems(2,3) m'len 2(2) [folded assms(1)] us_nz]
    have inf: "m'' ! j = PosInf \<longleftrightarrow> m' ! j = PosInf" if "j \<in> {1..n}" for j using sh(5) [of j] that by auto
    note ss = scan_shape [OF Suc.prems(1) assms(1) Suc.prems(4) 2(1) sh(3) inf]
    show ?thesis
    proof (cases "p ! t2 = 0")
      case True
      then have "grow rnd costs p (Suc fuel) t0 t = Inr (t2, ?t)" using 2(3) by simp
      then show ?thesis using True ss(1) sh(1,2) by auto
    next
      case False
      then have eq: "grow rnd costs p (Suc fuel) t0 t = grow rnd costs p fuel t2 ?t" using 2(3) by simp
      have "n < length (us @ [t0]) + fuel" using Suc.prems(5) by simp
      then show ?thesis using Suc.IH [OF ss(1)] sh(1,2) False unfolding eq by simp
    qed
  qed
qed

lemma phase_shape:
  assumes "state_shape (length costs) s st" and "s < length costs"
  shows "phase rnd costs (Suc s) st \<noteq> Inl MatchingFuel"
    and "phase rnd costs (Suc s) st = Inr st' \<Longrightarrow> state_shape (length costs) (Suc s) st'"
proof -
  let ?n = "length costs"
  obtain u v p w where st: "st = (u, v, p, w)" by (cases st)
  have len: "length u = Suc ?n" "length v = Suc ?n" "length w = Suc ?n" and m: "matches ?n s p"
    using assms(1) st by (auto simp: state_shape_def)
  let ?p = "p[0 := Suc s]"
  let ?t = "\<lparr>potU = u, potV = v, minimum = replicate (Suc ?n) PosInf, way = w, used = replicate (Suc ?n) False\<rparr>"
  have lp: "length ?p = Suc ?n" using m by (simp add: matches_def)
  have p0: "?p ! 0 \<noteq> 0" using lp by simp
  have t: "tree_shape ?n ?p [] 0 ?t" using len by (simp add: tree_shape_def del: replicate.simps)
  have g: "grow rnd costs ?p (Suc ?n) 0 ?t \<noteq> Inl MatchingFuel \<and>
    (\<forall>t1 t'. grow rnd costs ?p (Suc ?n) 0 ?t = Inr (t1, t') \<longrightarrow>
       (\<exists>us'. tree_shape ?n ?p us' t1 t' \<and> us' \<noteq> []) \<and> ?p ! t1 = 0 \<and>
       length (potU t') = Suc ?n \<and> length (potV t') = Suc ?n)"
    by (rule grow_shape [OF refl rows_ok_source [OF m assms(2)] t]) (use len p0 in auto)
  have a: "\<exists>p'. augment (way t') (Suc ?n) t1 ?p = Inr p' \<and> matches ?n (Suc s) p'"
    if run: "grow rnd costs ?p (Suc ?n) 0 ?t = Inr (t1, t')" for t1 t'
  proof -
    obtain us' where us': "tree_shape ?n ?p us' t1 t'" "us' \<noteq> []" "?p ! t1 = 0" using g run by blast
    obtain p' where "augment (way t') (Suc ?n) t1 ?p = Inr p'" "length p' = Suc ?n" "held ?n p' 0 = held ?n ?p t1"
      by (rule augment_tree [OF us'(1,2) lp, where Q = "\<lambda>_ _. True"]) auto
    moreover have "t1 \<le> ?n" using us'(1) by (simp add: tree_shape_def)
    ultimately show ?thesis using matches_step [OF m assms(2) us'(3)] by blast
  qed
  show "phase rnd costs (Suc s) st \<noteq> Inl MatchingFuel"
    using g a by (fastforce simp: st phase_def Let_def bnd_Inl simp del: replicate.simps augment.simps)
  show "state_shape ?n (Suc s) st'" if "phase rnd costs (Suc s) st = Inr st'"
    using that g a
    by (fastforce simp: st phase_def Let_def res_simps state_shape_def tree_shape_def
        simp del: replicate.simps augment.simps)
qed

lemma phases_end: "k \<le> length costs \<Longrightarrow> phases_upto rnd costs k \<noteq> Inl MatchingFuel \<and>
    (\<forall>st. phases_upto rnd costs k = Inr st \<longrightarrow> state_shape (length costs) k st)"
proof (induction k)
  case 0
  let ?n = "length costs"
  have "image_mset ((!) (replicate (Suc ?n) (0::nat))) (mset_set ({..?n} - {0})) =
      image_mset (\<lambda>_. 0) (mset_set ({..?n} - {0}))"
    by (rule image_mset_cong) (auto simp: less_Suc_eq_le simp del: replicate.simps)
  then show ?case
    by (simp add: phases_upto_0 start_state_def Let_def state_shape_def matches_def held_def image_mset_const_eq
        del: replicate.simps)
next
  case (Suc k)
  then have k: "k < length costs" by simp
  show ?case
  proof (cases "phases_upto rnd costs k")
    case (Inl e)
    then show ?thesis using Suc k by (simp add: phases_upto_Suc)
  next
    case (Inr st)
    then have "state_shape (length costs) k st" using Suc k by simp
    then show ?thesis using Inr phase_shape [OF _ k] by (simp add: phases_upto_Suc)
  qed
qed

lemma hungarian_ends: "hungarian costs \<noteq> Inl MatchingFuel"
  using phases_end [OF order_refl, where costs = costs and rnd = js_round]
  by (auto simp: hungarian_def hungarian_rounding_def invariant_Inl bnd_Inl phases_upto Let_def)

section \<open>The interface of the solver\<close>

text \<open>
  What a client relies on: a result is a perfect matching of finite costs; for matrices of an
  accepted size there is a result whenever there is such a matching, and it is the cheapest.
\<close>

locale assignment_solver =
  fixes solve :: "jcost list list \<Rightarrow> 'e + nat list"
    and accepts :: "jcost list list \<Rightarrow> bool"
  assumes sound: "solve costs = Inr ts \<Longrightarrow> finite_matching costs ts"
    and complete: "accepts costs \<Longrightarrow> finite_matching costs ts \<Longrightarrow> \<exists>ts'. solve costs = Inr ts'"
    and least: "accepts costs \<Longrightarrow> solve costs = Inr ts \<Longrightarrow> finite_matching costs ts' \<Longrightarrow>
      matching_cost costs ts \<le> matching_cost costs ts'"
begin

lemma fails_iff: "accepts costs \<Longrightarrow> (\<exists>e. solve costs = Inl e) \<longleftrightarrow> \<not> (\<exists>ts. finite_matching costs ts)"
  by (metis complete sound sum.exhaust sum.distinct(1))

end

interpretation hungarian_solver: assignment_solver hungarian "\<lambda>costs. \<exists>c. solvable_size costs c"
proof unfold_locales
  show "hungarian costs = Inr ts \<Longrightarrow> finite_matching costs ts" for costs ts
    unfolding hungarian_def by (rule hungarian_rounding_matching)
  show "\<exists>c. solvable_size costs c \<Longrightarrow> finite_matching costs ts \<Longrightarrow> \<exists>ts'. hungarian costs = Inr ts'" for costs ts
    using hungarian_rounding_optimal by metis
  show "\<exists>c. solvable_size costs c \<Longrightarrow> hungarian costs = Inr ts \<Longrightarrow> finite_matching costs ts' \<Longrightarrow>
      matching_cost costs ts \<le> matching_cost costs ts'" for costs ts ts'
    using hungarian_rounding_optimal by (metis sum.inject(2))
qed

end
