(* ===== verification/DailyCirculation.thy ===== *)
theory DailyCirculation
  imports Hungarian
begin

text \<open>
  The daily vehicle plan, \<open>tools/region-import/daily-circulation-v2.mjs\<close>: end points of journey
  chains, circulations of a lot (a greedy path cover), the pairing of circulations over the day
  boundary, the demands of every transition, the plan, its movement continuities and the cycles of
  its rollovers. Identifiers are strings; times and coordinates that the code checks are values of
  unknown type until then. \<open>alphaHash\<close> and \<open>canonical\<close> (\<open>JSON.parse(alphaCanonicalJson(x))\<close>) come
  from a package that is built elsewhere and are arguments.
\<close>

section \<open>Data\<close>

datatype circulation_error =
    CircText string
  | CircInteger string
  | NoPlayableLeg string
  | NoStop string
  | BadPortal string
  | DuplicateMovement string
  | NotAPlan string
  | TwoPhases string
  | DuplicateId string
  | NoPermutation
  | ClassifiedTwice string
  | EmptyCirculation string
  | UnknownMovement string
  | AmbiguousTransition string
  | BadRollover string
  | PhaseJump string
  | BackInTime string
  | IncompleteContinuity
  | UnknownCirculation string
  | ForeignCycle string
  | MissingStation string
  | NoRolloverEdge string
  | RolloverMatching matching_error
  | LotChanged
  | AssetChanged
  | NoWindow string
  | NotATurnaround string
  | TurnaroundTooShort string
  | NotATransfer string
  | BadParameter string
  | NotOrderable string
  | ForeignRelease string
  | NoTransferRoute string
  | KindDrift string
  | TransitionCount
  | CycleFuel

definition DAILY_CIRCULATION_PLAN_SCHEMA :: string where
  "DAILY_CIRCULATION_PLAN_SCHEMA = ''zugfolge-daily-circulation-plan/v2''"

definition DAILY_CIRCULATION_RULE :: string where
  "DAILY_CIRCULATION_RULE =
     ''lot-local-playable-path-cover-with-explicit-physical-transition-partition/v2''"

definition DAILY_CIRCULATION_REPEAT_EVERY_S :: int where
  "DAILY_CIRCULATION_REPEAT_EVERY_S = 86400"

definition DAILY_CIRCULATION_MINIMUM_TURNAROUND_S :: int where
  "DAILY_CIRCULATION_MINIMUM_TURNAROUND_S = 300"

record chain_stop =
  spStopId :: string
  spArrivalS :: jsval
  spDepartureS :: jsval

record chain_leg =
  lgKind :: string
  lgLegId :: string
  lgStops :: "chain_stop list"
  lgEntryPortalId :: "string option"
  lgExitPortalId :: "string option"

record journey_chain =
  chJourneyChainId :: string
  chLegs :: "chain_leg list"
  chOrderable :: bool
  chReleaseId :: string
  chRouteId :: string
  chRouteShortName :: string

datatype side = Start | End

record endpoint =
  epLegId :: string
  epRouteVersionId :: string
  epLocationId :: string
  epPhysicalStopId :: string
  epTimeS :: int

record circulation =
  ccId :: string
  ccLotId :: string
  ccServiceLineId :: string
  ccAssetKey :: string
  ccJourneyChainIds :: "string list"
  ccLegIds :: "string list"
  ccTrainRunIds :: "string list"
  ccStart :: endpoint
  ccEnd :: endpoint

section \<open>Checks and identifiers\<close>

definition circText :: "string \<Rightarrow> circulation_error + string" where
  "circText value = invariant (trimmed value) (CircText value) (Inr value)"

definition circInteger :: "jsval \<Rightarrow> string \<Rightarrow> int \<Rightarrow> circulation_error + int" where
  "circInteger v name least =
     (case v of
        JInt n \<Rightarrow> invariant (is_safe n \<and> least \<le> n) (CircInteger name) (Inr n)
      | _ \<Rightarrow> Inl (CircInteger name))"

text \<open>
  \<open>alphaIdentifierSlug\<close>. \<open>plain_text c\<close> is the compatibility decomposition (NFKD) of a character
  below 256 without its diacritics; characters of it outside ASCII stand as \<open>?\<close>, since the next
  replacement treats all of them alike.
\<close>

definition plain_text :: "char \<Rightarrow> string" where
  "plain_text c =
     (let n = (of_char c :: nat) in
      if n = 94 \<or> n = 96 \<or> n = 183 then []
      else if n < 128 then [c]
      else if n = 170 then ''a'' else if n = 186 then ''o''
      else if n = 178 then ''2'' else if n = 179 then ''3'' else if n = 185 then ''1''
      else if n = 188 then ''1?4'' else if n = 189 then ''1?2'' else if n = 190 then ''3?4''
      else if 192 \<le> n \<and> n \<le> 197 then ''A'' else if n = 199 then ''C''
      else if 200 \<le> n \<and> n \<le> 203 then ''E'' else if 204 \<le> n \<and> n \<le> 207 then ''I''
      else if n = 209 then ''N'' else if 210 \<le> n \<and> n \<le> 214 then ''O''
      else if 217 \<le> n \<and> n \<le> 220 then ''U'' else if n = 221 then ''Y''
      else if 224 \<le> n \<and> n \<le> 229 then ''a'' else if n = 231 then ''c''
      else if 232 \<le> n \<and> n \<le> 235 then ''e'' else if 236 \<le> n \<and> n \<le> 239 then ''i''
      else if n = 241 then ''n'' else if 242 \<le> n \<and> n \<le> 246 then ''o''
      else if 249 \<le> n \<and> n \<le> 252 then ''u'' else if n = 253 \<or> n = 255 then ''y''
      else ''?'')"

definition ascii_alnum :: "char \<Rightarrow> bool" where
  "ascii_alnum c \<longleftrightarrow> (let n = (of_char c :: nat) in
     (48 \<le> n \<and> n \<le> 57) \<or> (65 \<le> n \<and> n \<le> 90) \<or> (97 \<le> n \<and> n \<le> 122))"

definition ascii_lower :: "char \<Rightarrow> char" where
  "ascii_lower c = (let n = (of_char c :: nat) in if 65 \<le> n \<and> n \<le> 90 then char_of (n + 32) else c)"

text \<open>\<open>replaceAll(/[^a-zA-Z0-9]+/g, "-")\<close>; the first argument tells whether a run goes on.\<close>

fun dashes :: "bool \<Rightarrow> string \<Rightarrow> string" where
  "dashes inRun [] = []"
| "dashes inRun (c # cs) =
     (if ascii_alnum c then c # dashes False cs
      else if inRun then dashes True cs else CHR ''-'' # dashes True cs)"

text \<open>\<open>replaceAll(/^-|-$/g, "")\<close>.\<close>

definition strip_dashes :: "string \<Rightarrow> string" where
  "strip_dashes s =
     (let t = (case s of c # cs \<Rightarrow> if c = CHR ''-'' then cs else s | [] \<Rightarrow> []) in
      if t \<noteq> [] \<and> last t = CHR ''-'' then butlast t else t)"

definition alphaIdentifierSlug :: "string \<Rightarrow> string" where
  "alphaIdentifierSlug value =
     (let slug = map ascii_lower (strip_dashes (dashes False (concat (map plain_text value)))) in
      if slug = [] then ''linie'' else slug)"

definition dailyServiceLotIdentifiers ::
    "(string \<Rightarrow> jsval \<Rightarrow> string) \<Rightarrow> string \<Rightarrow> string \<Rightarrow> string \<Rightarrow> circulation_error + string \<times> string" where
  "dailyServiceLotIdentifiers alphaHash gtfsReleaseId routeId routeShortName =
     bnd (circText gtfsReleaseId) (\<lambda>_.
     bnd (circText routeId) (\<lambda>_.
     bnd (circText routeShortName) (\<lambda>_.
     let identityHash = alphaHash ''zugfolge-alpha-service-lot-identity/v1''
           (JObject [(''gtfsReleaseId'', JString gtfsReleaseId), (''routeId'', JString routeId),
             (''routeShortName'', JString routeShortName)]);
         label = alphaIdentifierSlug routeShortName
     in Inr (''lot-'' @ label @ ''-'' @ identityHash, ''line-'' @ label @ ''-'' @ identityHash))))"

section \<open>End points of a chain\<close>

definition dailyPlayableLegs :: "journey_chain \<Rightarrow> circulation_error + chain_leg list" where
  "dailyPlayableLegs chain =
     (let legs = filter (\<lambda>l. lgKind l = ''playable'') (chLegs chain) in
      invariant (legs \<noteq> []) (NoPlayableLeg (chJourneyChainId chain)) (Inr legs))"

definition dailyPassengerRouteVersionId :: "string \<Rightarrow> circulation_error + string" where
  "dailyPassengerRouteVersionId passengerLegId =
     bnd (circText passengerLegId) (\<lambda>i. Inr (''route:gtfs:'' @ i @ '':v1''))"

definition legEndpoint :: "chain_leg \<Rightarrow> side \<Rightarrow> circulation_error + endpoint" where
  "legEndpoint l s =
     invariant (lgStops l \<noteq> []) (NoStop (lgLegId l))
    (let stop = (case s of Start \<Rightarrow> hd (lgStops l) | End \<Rightarrow> last (lgStops l));
         portalId = (case s of Start \<Rightarrow> lgEntryPortalId l | End \<Rightarrow> lgExitPortalId l)
     in bnd (circInteger (case s of Start \<Rightarrow> spDepartureS stop | End \<Rightarrow> spArrivalS stop) (lgLegId l) 0) (\<lambda>timeS.
        invariant (portalId \<noteq> Some []) (BadPortal (lgLegId l))
       (bnd (circText (lgLegId l)) (\<lambda>legId.
        bnd (dailyPassengerRouteVersionId (lgLegId l)) (\<lambda>version.
        bnd (case portalId of Some p \<Rightarrow> Inr p | None \<Rightarrow> circText (spStopId stop)) (\<lambda>locationId.
        bnd (circText (spStopId stop)) (\<lambda>stopId.
        Inr \<lparr>epLegId = legId, epRouteVersionId = version, epLocationId = locationId,
             epPhysicalStopId = stopId, epTimeS = timeS\<rparr>)))))))"

definition chain_endpoint :: "journey_chain \<Rightarrow> side \<Rightarrow> circulation_error + endpoint" where
  "chain_endpoint chain s =
     bnd (dailyPlayableLegs chain) (\<lambda>legs.
     legEndpoint (case s of Start \<Rightarrow> hd legs | End \<Rightarrow> last legs) s)"

definition samePhysicalEndpoint :: "endpoint \<Rightarrow> endpoint \<Rightarrow> bool" where
  "samePhysicalEndpoint source target \<longleftrightarrow>
     epLocationId source = epLocationId target \<and> epPhysicalStopId source = epPhysicalStopId target"

definition transitionKey :: "string \<Rightarrow> string \<Rightarrow> bool \<Rightarrow> string" where
  "transitionKey sourcePassengerLegId targetPassengerLegId dailyBoundary =
     sourcePassengerLegId @ nul @ targetPassengerLegId @ nul @ (if dailyBoundary then ''1'' else ''0'')"

definition operationalTrainRunId :: "journey_chain \<Rightarrow> chain_leg \<Rightarrow> nat \<Rightarrow> string" where
  "operationalTrainRunId chain l playableIndex =
     (if playableIndex = 0 then chJourneyChainId chain else chJourneyChainId chain @ '':'' @ lgLegId l)"

section \<open>The circulations of a lot\<close>

text \<open>A chain with its end points; the code computes them each time it needs them.\<close>

record placed_chain =
  pcChain :: journey_chain
  pcLegs :: "chain_leg list"
  pcStart :: endpoint
  pcEnd :: endpoint

definition placeChain :: "journey_chain \<Rightarrow> circulation_error + placed_chain" where
  "placeChain chain =
     bnd (chain_endpoint chain Start) (\<lambda>s.
     bnd (chain_endpoint chain End) (\<lambda>e.
     bnd (dailyPlayableLegs chain) (\<lambda>legs.
     Inr \<lparr>pcChain = chain, pcLegs = legs, pcStart = s, pcEnd = e\<rparr>)))"

definition comparePlaced :: "placed_chain \<Rightarrow> placed_chain \<Rightarrow> int" where
  "comparePlaced left right =
     (let order = epTimeS (pcStart left) - epTimeS (pcStart right) in
      if order \<noteq> 0 then order
      else compareText (chJourneyChainId (pcChain left)) (chJourneyChainId (pcChain right)))"

definition compareAvailable :: "circulation \<Rightarrow> circulation \<Rightarrow> int" where
  "compareAvailable left right =
     (let order = epTimeS (ccEnd right) - epTimeS (ccEnd left) in
      if order \<noteq> 0 then order else compareText (ccId left) (ccId right))"

definition isAvailable :: "int \<Rightarrow> endpoint \<Rightarrow> circulation \<Rightarrow> bool" where
  "isAvailable minimumTurnaroundS start c \<longleftrightarrow>
     samePhysicalEndpoint (ccEnd c) start \<and> js_add (epTimeS (ccEnd c)) minimumTurnaroundS \<le> epTimeS start"

text \<open>The circulations are told apart by their place in the list, as the code does by identity.\<close>

definition availableIndex :: "int \<Rightarrow> endpoint \<Rightarrow> circulation list \<Rightarrow> nat option" where
  "availableIndex minimumTurnaroundS start circulations =
     (case sort_by (\<lambda>i j. compareAvailable (circulations ! i) (circulations ! j))
             (filter (\<lambda>i. isAvailable minimumTurnaroundS start (circulations ! i)) [0..<length circulations]) of
        [] \<Rightarrow> None | i # _ \<Rightarrow> Some i)"

definition extendCirculation :: "placed_chain \<Rightarrow> circulation \<Rightarrow> circulation" where
  "extendCirculation pc c =
     c\<lparr>ccJourneyChainIds := ccJourneyChainIds c @ [chJourneyChainId (pcChain pc)],
       ccLegIds := ccLegIds c @ map lgLegId (pcLegs pc),
       ccTrainRunIds := ccTrainRunIds c @
         map (\<lambda>(i, l). operationalTrainRunId (pcChain pc) l i) (enumerate 0 (pcLegs pc)),
       ccEnd := pcEnd pc\<rparr>"

definition newCirculation :: "string \<Rightarrow> string \<Rightarrow> nat \<Rightarrow> endpoint \<Rightarrow> circulation" where
  "newCirculation lotId serviceLineId n start =
     \<lparr>ccId = ''circulation-'' @ lotId @ ''-'' @ padStart 3 (nat_str (Suc n)), ccLotId = lotId,
      ccServiceLineId = serviceLineId, ccAssetKey = lotId, ccJourneyChainIds = [], ccLegIds = [],
      ccTrainRunIds = [], ccStart = start, ccEnd = start\<rparr>"

definition assignChain ::
    "string \<Rightarrow> string \<Rightarrow> int \<Rightarrow> placed_chain \<Rightarrow> circulation list \<Rightarrow> circulation list" where
  "assignChain lotId serviceLineId minimumTurnaroundS pc circulations =
     (case availableIndex minimumTurnaroundS (pcStart pc) circulations of
        Some i \<Rightarrow> circulations[i := extendCirculation pc (circulations ! i)]
      | None \<Rightarrow> circulations @
          [extendCirculation pc (newCirculation lotId serviceLineId (length circulations) (pcStart pc))])"

definition buildLotCirculations ::
    "journey_chain list \<Rightarrow> string \<Rightarrow> string \<Rightarrow> int \<Rightarrow> circulation_error + circulation list" where
  "buildLotCirculations journeyChains lotId serviceLineId minimumTurnaroundS =
     bnd (map_res placeChain journeyChains) (\<lambda>placed.
     Inr (fold (assignChain lotId serviceLineId minimumTurnaroundS) (sort_by comparePlaced placed) []))"

section \<open>Pairing over the day boundary\<close>

record station =
  snStopId :: string
  snLatitudeE7 :: jsval
  snLongitudeE7 :: jsval

text \<open>The checked coordinates by stop.\<close>

type_synonym stations = "(string \<times> int \<times> int) list"

record transfer_query =
  tqSource :: circulation
  tqTarget :: circulation
  tqSourceEndpoint :: endpoint
  tqTargetEndpoint :: endpoint
  tqEarliestDepartureS :: int
  tqLatestArrivalS :: int
  tqDailyBoundary :: bool

type_synonym transfer_cost = "(transfer_query \<Rightarrow> jsval) option"

definition coordinateCost :: "circulation \<Rightarrow> circulation \<Rightarrow> stations \<Rightarrow> circulation_error + int" where
  "coordinateCost source target stationById =
     (case map_of stationById (epPhysicalStopId (ccEnd source)) of
        None \<Rightarrow> Inl (MissingStation (epPhysicalStopId (ccEnd source)))
      | Some (lat, lon) \<Rightarrow>
          (case map_of stationById (epPhysicalStopId (ccStart target)) of
             None \<Rightarrow> Inl (MissingStation (epPhysicalStopId (ccStart target)))
           | Some (lat', lon') \<Rightarrow>
               circInteger (JInt (js_add \<bar>js_sub lat lat'\<bar> \<bar>js_sub lon lon'\<bar>)) (ccId source) 0))"

text \<open>\<open>Number.isSafeInteger(cost) && cost >= 0 ? cost : Number.POSITIVE_INFINITY\<close>.\<close>

definition accepted_cost :: "jsval \<Rightarrow> jcost" where
  "accepted_cost v = (case v of JInt n \<Rightarrow> if is_safe n \<and> 0 \<le> n then Fin n else PosInf | _ \<Rightarrow> PosInf)"

definition movementCost ::
    "stations \<Rightarrow> int \<Rightarrow> int \<Rightarrow> transfer_cost \<Rightarrow> circulation \<Rightarrow> circulation \<Rightarrow> circulation_error + jcost" where
  "movementCost stationById repeatEveryS minimumTurnaroundS transferCost source target =
     (let targetOccurrenceS = js_add (epTimeS (ccStart target)) repeatEveryS in
      if samePhysicalEndpoint (ccEnd source) (ccStart target)
      then Inr (if js_sub targetOccurrenceS (epTimeS (ccEnd source)) \<ge> minimumTurnaroundS then Fin 0 else PosInf)
      else let earliestDepartureS = js_add (epTimeS (ccEnd source)) minimumTurnaroundS;
               latestArrivalS = js_sub targetOccurrenceS minimumTurnaroundS
        in if latestArrivalS \<le> earliestDepartureS then Inr PosInf
           else case transferCost of
                  None \<Rightarrow> bnd (coordinateCost source target stationById) (\<lambda>cost. Inr (accepted_cost (JInt cost)))
                | Some f \<Rightarrow> Inr (accepted_cost (f
                    \<lparr>tqSource = source, tqTarget = target, tqSourceEndpoint = ccEnd source,
                     tqTargetEndpoint = ccStart target, tqEarliestDepartureS = earliestDepartureS,
                     tqLatestArrivalS = latestArrivalS, tqDailyBoundary = True\<rparr>)))"

definition compareCirculation :: "circulation \<Rightarrow> circulation \<Rightarrow> int" where
  "compareCirculation left right = compareText (ccId left) (ccId right)"

record rollover_pair =
  rpSource :: circulation
  rpTarget :: circulation
  rpTransfer :: bool

definition compareRolloverPair :: "rollover_pair \<Rightarrow> rollover_pair \<Rightarrow> int" where
  "compareRolloverPair left right = compareText (ccId (rpSource left)) (ccId (rpSource right))"

text \<open>The costs of the assignment: a transfer costs the penalty on top.\<close>

definition penalizedCost :: "int \<Rightarrow> circulation \<Rightarrow> circulation \<Rightarrow> jcost \<Rightarrow> jcost" where
  "penalizedCost crossLocationPenalty source target cost =
     (case cost of PosInf \<Rightarrow> PosInf
      | Fin c \<Rightarrow>
          let total = js_add c (if samePhysicalEndpoint (ccEnd source) (ccStart target) then 0 else crossLocationPenalty)
          in if is_safe total then Fin total else PosInf)"

definition finiteCosts :: "jcost list list \<Rightarrow> int list" where
  "finiteCosts costs = concat (map (\<lambda>c. case c of Fin x \<Rightarrow> [x] | PosInf \<Rightarrow> []) (concat costs))"

definition pairRollovers ::
    "circulation list \<Rightarrow> stations \<Rightarrow> int \<Rightarrow> int \<Rightarrow> transfer_cost \<Rightarrow> circulation_error + rollover_pair list" where
  "pairRollovers circulations stationById repeatEveryS minimumTurnaroundS transferCost =
     (let sources = sort_by compareCirculation circulations;
          targets = sort_by compareCirculation circulations
      in bnd (map_res (\<lambda>source.
           map_res (movementCost stationById repeatEveryS minimumTurnaroundS transferCost source) targets) sources)
         (\<lambda>movementCosts.
         invariant (finiteCosts movementCosts \<noteq> []) (NoRolloverEdge (ccLotId (hd circulations)))
        (let maximumMovementCost = Max (set (finiteCosts movementCosts));
             crossLocationPenalty = js_mul (js_add maximumMovementCost 1) (int (length circulations) + 1)
         in bnd (circInteger (JInt crossLocationPenalty) (ccLotId (hd circulations)) 1) (\<lambda>_.
            let costs = map (\<lambda>(source, row).
                  map (\<lambda>(target, cost). penalizedCost crossLocationPenalty source target cost) (zip targets row))
                  (zip sources movementCosts)
            in case hungarian costs of
                 Inl e \<Rightarrow> Inl (RolloverMatching e)
               | Inr targetBySource \<Rightarrow>
                   let assignments = sort_by compareRolloverPair (map (\<lambda>(source, targetIndex).
                         \<lparr>rpSource = source, rpTarget = targets ! targetIndex,
                          rpTransfer = \<not> samePhysicalEndpoint (ccEnd source) (ccStart (targets ! targetIndex))\<rparr>)
                         (zip sources targetBySource))
                   in invariant (length (remdups (map (ccId \<circ> rpSource) assignments)) = length circulations)
                        (BadRollover ''source'')
                     (invariant (length (remdups (map (ccId \<circ> rpTarget) assignments)) = length circulations)
                        (BadRollover ''target'') (Inr assignments))))))"

section \<open>The demands of the transitions\<close>

record demand =
  dmId :: string
  dmLotId :: string
  dmAssetKey :: string
  dmSourceCirculationId :: string
  dmTargetCirculationId :: string
  dmSourceLegId :: string
  dmTargetLegId :: string
  dmSourceRouteVersionId :: string
  dmTargetRouteVersionId :: string
  dmSourceLocationId :: string
  dmTargetLocationId :: string
  dmSourcePhysicalStopId :: string
  dmTargetPhysicalStopId :: string
  dmEarliestDepartureS :: int
  dmLatestArrivalS :: int
  dmAvailableWindowS :: int
  dmDailyBoundary :: bool

text \<open>One transition: from a circulation to a circulation, between two end points.\<close>

record transition_of_day =
  tdSource :: circulation
  tdTarget :: circulation
  tdSourceEndpoint :: endpoint
  tdTargetEndpoint :: endpoint
  tdDailyBoundary :: bool

definition transitionIdentity :: "transition_of_day \<Rightarrow> (string \<times> jsval) list" where
  "transitionIdentity t =
     [(''lotId'', JString (ccLotId (tdSource t))),
      (''sourceCirculationId'', JString (ccId (tdSource t))),
      (''targetCirculationId'', JString (ccId (tdTarget t))),
      (''sourcePassengerLegId'', JString (epLegId (tdSourceEndpoint t))),
      (''targetPassengerLegId'', JString (epLegId (tdTargetEndpoint t))),
      (''dailyBoundary'', JBool (tdDailyBoundary t))]"

definition commonTransitionDemand ::
    "(string \<Rightarrow> jsval \<Rightarrow> string) \<Rightarrow> string \<Rightarrow> transition_of_day \<Rightarrow> int \<Rightarrow> int \<Rightarrow> circulation_error + demand" where
  "commonTransitionDemand alphaHash kind t earliestDepartureS latestArrivalS =
     invariant (ccLotId (tdSource t) = ccLotId (tdTarget t)) LotChanged
    (invariant (ccAssetKey (tdSource t) = ccAssetKey (tdTarget t)) AssetChanged
    (let i = kind @ ''-'' @ alphaHash (''zugfolge-daily-'' @ kind @ ''-demand/v2'')
           (JObject (transitionIdentity t @ [(''kind'', JString kind)]))
     in invariant (latestArrivalS > earliestDepartureS) (NoWindow i)
       (Inr \<lparr>dmId = i, dmLotId = ccLotId (tdSource t), dmAssetKey = ccAssetKey (tdSource t),
             dmSourceCirculationId = ccId (tdSource t), dmTargetCirculationId = ccId (tdTarget t),
             dmSourceLegId = epLegId (tdSourceEndpoint t), dmTargetLegId = epLegId (tdTargetEndpoint t),
             dmSourceRouteVersionId = epRouteVersionId (tdSourceEndpoint t),
             dmTargetRouteVersionId = epRouteVersionId (tdTargetEndpoint t),
             dmSourceLocationId = epLocationId (tdSourceEndpoint t),
             dmTargetLocationId = epLocationId (tdTargetEndpoint t),
             dmSourcePhysicalStopId = epPhysicalStopId (tdSourceEndpoint t),
             dmTargetPhysicalStopId = epPhysicalStopId (tdTargetEndpoint t),
             dmEarliestDepartureS = earliestDepartureS, dmLatestArrivalS = latestArrivalS,
             dmAvailableWindowS = js_sub latestArrivalS earliestDepartureS,
             dmDailyBoundary = tdDailyBoundary t\<rparr>)))"

definition turnaroundDemand ::
    "(string \<Rightarrow> jsval \<Rightarrow> string) \<Rightarrow> int \<Rightarrow> int \<Rightarrow> transition_of_day \<Rightarrow> circulation_error + demand" where
  "turnaroundDemand alphaHash repeatEveryS minimumTurnaroundS t =
     invariant (samePhysicalEndpoint (tdSourceEndpoint t) (tdTargetEndpoint t))
       (NotATurnaround (epLegId (tdSourceEndpoint t)))
    (let earliestDepartureS = epTimeS (tdSourceEndpoint t);
         latestArrivalS = js_add (epTimeS (tdTargetEndpoint t)) (if tdDailyBoundary t then repeatEveryS else 0)
     in invariant (js_sub latestArrivalS earliestDepartureS \<ge> minimumTurnaroundS)
          (TurnaroundTooShort (epLegId (tdSourceEndpoint t)))
          (commonTransitionDemand alphaHash ''turnaround'' t earliestDepartureS latestArrivalS))"

definition transferDemand ::
    "(string \<Rightarrow> jsval \<Rightarrow> string) \<Rightarrow> int \<Rightarrow> int \<Rightarrow> transition_of_day \<Rightarrow> circulation_error + demand" where
  "transferDemand alphaHash repeatEveryS minimumTurnaroundS t =
     invariant (\<not> samePhysicalEndpoint (tdSourceEndpoint t) (tdTargetEndpoint t))
       (NotATransfer (epLegId (tdSourceEndpoint t)))
    (let earliestDepartureS = js_add (epTimeS (tdSourceEndpoint t)) minimumTurnaroundS;
         latestArrivalS = js_sub (js_add (epTimeS (tdTargetEndpoint t))
           (if tdDailyBoundary t then repeatEveryS else 0)) minimumTurnaroundS
     in commonTransitionDemand alphaHash ''transfer'' t earliestDepartureS latestArrivalS)"

end
