(* ===== verification/DailyPlan.thy ===== *)
theory DailyPlan
  imports DailyCirculation
begin

text \<open>
  The plan of \<open>tools/region-import/daily-circulation-v2.mjs\<close> as a whole: \<open>deriveDailyCirculationPlan\<close>
  with the state its closure \<open>addTransition\<close> fills, the movement continuities of a plan, and the
  cycles of its rollover permutation.
\<close>

section \<open>The plan\<close>

record rollover =
  roSourceCirculationId :: string
  roTargetCirculationId :: string
  roKind :: string

record plan_metrics =
  lotCount :: nat
  journeyChainCount :: nat
  circulationCount :: nat
  rolloverAssignmentCount :: nat
  plannedTransitionCount :: nat
  turnaroundDemandCount :: nat
  transferDemandCount :: nat
  transferLotCount :: nat

record daily_plan =
  dpSchema :: string
  dpRule :: string
  dpGtfsReleaseId :: string
  dpRepeatEveryS :: int
  dpMinimumTurnaroundS :: int
  dpMetrics :: plan_metrics
  dpCirculations :: "circulation list"
  dpRolloverAssignments :: "rollover list"
  dpTurnaroundDemands :: "demand list"
  dpTransferDemands :: "demand list"
  dpPlanSha256 :: string

text \<open>The objects that are hashed.\<close>

definition jstrings :: "string list \<Rightarrow> jsval" where
  "jstrings xs = JArray (map JString xs)"

definition jnat :: "nat \<Rightarrow> jsval" where
  "jnat n = JInt (int n)"

definition endpointJson :: "endpoint \<Rightarrow> jsval" where
  "endpointJson e = JObject [(''legId'', JString (epLegId e)),
     (''passengerRouteVersionId'', JString (epRouteVersionId e)), (''locationId'', JString (epLocationId e)),
     (''physicalStopId'', JString (epPhysicalStopId e)), (''timeS'', JInt (epTimeS e))]"

definition circulationJson :: "circulation \<Rightarrow> jsval" where
  "circulationJson c = JObject [(''id'', JString (ccId c)), (''lotId'', JString (ccLotId c)),
     (''serviceLineId'', JString (ccServiceLineId c)), (''assetCompatibilityKey'', JString (ccAssetKey c)),
     (''journeyChainIds'', jstrings (ccJourneyChainIds c)), (''passengerLegIds'', jstrings (ccLegIds c)),
     (''passengerTrainRunIds'', jstrings (ccTrainRunIds c)), (''start'', endpointJson (ccStart c)),
     (''end'', endpointJson (ccEnd c))]"

definition rolloverJson :: "rollover \<Rightarrow> jsval" where
  "rolloverJson r = JObject [(''sourceCirculationId'', JString (roSourceCirculationId r)),
     (''targetCirculationId'', JString (roTargetCirculationId r)), (''kind'', JString (roKind r))]"

definition demandFields :: "demand \<Rightarrow> (string \<times> jsval) list" where
  "demandFields d =
     [(''id'', JString (dmId d)), (''lotId'', JString (dmLotId d)),
      (''assetCompatibilityKey'', JString (dmAssetKey d)),
      (''sourceCirculationId'', JString (dmSourceCirculationId d)),
      (''targetCirculationId'', JString (dmTargetCirculationId d)),
      (''sourcePassengerLegId'', JString (dmSourceLegId d)),
      (''targetPassengerLegId'', JString (dmTargetLegId d)),
      (''sourcePassengerRouteVersionId'', JString (dmSourceRouteVersionId d)),
      (''targetPassengerRouteVersionId'', JString (dmTargetRouteVersionId d)),
      (''sourceLocationId'', JString (dmSourceLocationId d)),
      (''targetLocationId'', JString (dmTargetLocationId d)),
      (''sourcePhysicalStopId'', JString (dmSourcePhysicalStopId d)),
      (''targetPhysicalStopId'', JString (dmTargetPhysicalStopId d)),
      (''earliestDepartureS'', JInt (dmEarliestDepartureS d)),
      (''latestArrivalS'', JInt (dmLatestArrivalS d)),
      (''availableWindowS'', JInt (dmAvailableWindowS d)),
      (''dailyBoundary'', JBool (dmDailyBoundary d))]"

definition turnaroundJson :: "demand \<Rightarrow> jsval" where
  "turnaroundJson d = JObject (demandFields d)"

definition transferJson :: "demand \<Rightarrow> jsval" where
  "transferJson d = JObject (demandFields d @ [(''movementKind'', JString ''train'')])"

definition metricsJson :: "plan_metrics \<Rightarrow> jsval" where
  "metricsJson m = JObject [(''lotCount'', jnat (lotCount m)),
     (''journeyChainCount'', jnat (journeyChainCount m)), (''circulationCount'', jnat (circulationCount m)),
     (''rolloverAssignmentCount'', jnat (rolloverAssignmentCount m)),
     (''plannedTransitionCount'', jnat (plannedTransitionCount m)),
     (''turnaroundDemandCount'', jnat (turnaroundDemandCount m)),
     (''transferDemandCount'', jnat (transferDemandCount m)), (''transferLotCount'', jnat (transferLotCount m))]"

definition planBodyJson :: "daily_plan \<Rightarrow> jsval" where
  "planBodyJson p = JObject [(''schema'', JString (dpSchema p)), (''rule'', JString (dpRule p)),
     (''gtfsReleaseId'', JString (dpGtfsReleaseId p)), (''repeatEveryS'', JInt (dpRepeatEveryS p)),
     (''minimumTurnaroundS'', JInt (dpMinimumTurnaroundS p)), (''metrics'', metricsJson (dpMetrics p)),
     (''circulations'', JArray (map circulationJson (dpCirculations p))),
     (''rolloverAssignments'', JArray (map rolloverJson (dpRolloverAssignments p))),
     (''turnaroundDemands'', JArray (map turnaroundJson (dpTurnaroundDemands p))),
     (''transferDemands'', JArray (map transferJson (dpTransferDemands p)))]"

section \<open>Deriving the plan\<close>

text \<open>The options of a run; \<open>transferCost = None\<close> is \<open>undefined\<close>.\<close>

record plan_options =
  poGtfsReleaseId :: string
  poRepeatEveryS :: int
  poMinimumTurnaroundS :: int
  poTransferCost :: transfer_cost

record service_lot =
  slLotId :: string
  slServiceLineId :: string
  slChains :: "journey_chain list"

definition checkStation :: "station \<Rightarrow> stations \<Rightarrow> circulation_error + stations" where
  "checkStation s stationById =
     bnd (circText (snStopId s)) (\<lambda>stopId.
     invariant (map_of stationById stopId = None) (DuplicateId stopId)
    (bnd (circInteger (snLatitudeE7 s) stopId (-900000000)) (\<lambda>lat.
     bnd (circInteger (snLongitudeE7 s) stopId (-1800000000)) (\<lambda>lon.
     Inr (stationById @ [(stopId, lat, lon)])))))"

definition addToLot ::
    "(string \<Rightarrow> jsval \<Rightarrow> string) \<Rightarrow> string \<Rightarrow> journey_chain \<Rightarrow> (string \<times> service_lot) list \<Rightarrow>
     circulation_error + (string \<times> service_lot) list" where
  "addToLot alphaHash gtfsReleaseId chain lots =
     invariant (chOrderable chain) (NotOrderable (chJourneyChainId chain))
    (bnd (circText (chJourneyChainId chain)) (\<lambda>_.
     invariant (chReleaseId chain = gtfsReleaseId) (ForeignRelease (chJourneyChainId chain))
    (bnd (dailyServiceLotIdentifiers alphaHash gtfsReleaseId (chRouteId chain) (chRouteShortName chain))
      (\<lambda>(lotId, serviceLineId).
      let lot = (case map_of lots lotId of Some l \<Rightarrow> l
                 | None \<Rightarrow> \<lparr>slLotId = lotId, slServiceLineId = serviceLineId, slChains = []\<rparr>)
      in Inr (AList.update lotId (lot\<lparr>slChains := slChains lot @ [chain]\<rparr>) lots)))))"

definition addEndpoints ::
    "journey_chain \<Rightarrow> (string \<times> endpoint \<times> endpoint) list \<Rightarrow>
     circulation_error + (string \<times> endpoint \<times> endpoint) list" where
  "addEndpoints chain m =
     invariant (map_of m (chJourneyChainId chain) = None) (DuplicateId (chJourneyChainId chain))
    (bnd (chain_endpoint chain Start) (\<lambda>s.
     bnd (chain_endpoint chain End) (\<lambda>e.
     Inr (m @ [(chJourneyChainId chain, s, e)]))))"

text \<open>What the closure \<open>addTransition\<close> and the loop over the lots fill.\<close>

record plan_state =
  psCirculations :: "circulation list"
  psRollovers :: "rollover list"
  psTurnarounds :: "demand list"
  psTransfers :: "demand list"
  psTransferLotIds :: "string list"

definition addTransitionOfDay ::
    "(string \<Rightarrow> jsval \<Rightarrow> string) \<Rightarrow> plan_options \<Rightarrow> transition_of_day \<Rightarrow> plan_state \<Rightarrow>
     circulation_error + string \<times> plan_state" where
  "addTransitionOfDay alphaHash opts t ps =
     (if samePhysicalEndpoint (tdSourceEndpoint t) (tdTargetEndpoint t)
      then bnd (turnaroundDemand alphaHash (poRepeatEveryS opts) (poMinimumTurnaroundS opts) t) (\<lambda>d.
        Inr (''same-location'', ps\<lparr>psTurnarounds := psTurnarounds ps @ [d]\<rparr>))
      else bnd (transferDemand alphaHash (poRepeatEveryS opts) (poMinimumTurnaroundS opts) t) (\<lambda>d.
        invariant (case poTransferCost opts of None \<Rightarrow> True
            | Some f \<Rightarrow> accepted_cost (f
                \<lparr>tqSource = tdSource t, tqTarget = tdTarget t, tqSourceEndpoint = tdSourceEndpoint t,
                 tqTargetEndpoint = tdTargetEndpoint t, tqEarliestDepartureS = dmEarliestDepartureS d,
                 tqLatestArrivalS = dmLatestArrivalS d, tqDailyBoundary = tdDailyBoundary t\<rparr>) \<noteq> PosInf)
          (NoTransferRoute (dmId d))
          (Inr (''transfer'', ps\<lparr>psTransfers := psTransfers ps @ [d],
             psTransferLotIds := List.insert (ccLotId (tdSource t)) (psTransferLotIds ps)\<rparr>))))"

text \<open>The transitions inside a circulation, between consecutive chains.\<close>

fun internalTransitions ::
    "(string \<Rightarrow> jsval \<Rightarrow> string) \<Rightarrow> plan_options \<Rightarrow> (string \<times> endpoint \<times> endpoint) list \<Rightarrow> circulation \<Rightarrow>
     string list \<Rightarrow> plan_state \<Rightarrow> circulation_error + plan_state" where
  "internalTransitions alphaHash opts endpoints c (i # j # ids) ps =
     (case (map_of endpoints i, map_of endpoints j) of
        (Some (s, e), Some (s', e')) \<Rightarrow>
          bnd (addTransitionOfDay alphaHash opts
                \<lparr>tdSource = c, tdTarget = c, tdSourceEndpoint = e, tdTargetEndpoint = s', tdDailyBoundary = False\<rparr> ps)
            (\<lambda>(_, ps'). internalTransitions alphaHash opts endpoints c (j # ids) ps')
      | _ \<Rightarrow> Inl (UnknownMovement (ccId c)))"
| "internalTransitions alphaHash opts endpoints c ids ps = Inr ps"

definition addRollover ::
    "(string \<Rightarrow> jsval \<Rightarrow> string) \<Rightarrow> plan_options \<Rightarrow> rollover_pair \<Rightarrow> plan_state \<Rightarrow> circulation_error + plan_state" where
  "addRollover alphaHash opts a ps =
     bnd (addTransitionOfDay alphaHash opts
           \<lparr>tdSource = rpSource a, tdTarget = rpTarget a, tdSourceEndpoint = ccEnd (rpSource a),
            tdTargetEndpoint = ccStart (rpTarget a), tdDailyBoundary = True\<rparr> ps)
      (\<lambda>(kind, ps').
       let ps'' = ps'\<lparr>psRollovers := psRollovers ps' @
             [\<lparr>roSourceCirculationId = ccId (rpSource a), roTargetCirculationId = ccId (rpTarget a), roKind = kind\<rparr>]\<rparr>
       in invariant ((kind = ''transfer'') = rpTransfer a) (KindDrift (ccId (rpSource a))) (Inr ps''))"

definition planLot ::
    "(string \<Rightarrow> jsval \<Rightarrow> string) \<Rightarrow> plan_options \<Rightarrow> stations \<Rightarrow> (string \<times> endpoint \<times> endpoint) list \<Rightarrow>
     service_lot \<Rightarrow> plan_state \<Rightarrow> circulation_error + plan_state" where
  "planLot alphaHash opts stationById endpoints lot ps =
     bnd (buildLotCirculations (slChains lot) (slLotId lot) (slServiceLineId lot) (poMinimumTurnaroundS opts)) (\<lambda>cs.
     bnd (fold_res (\<lambda>c. internalTransitions alphaHash opts endpoints c (ccJourneyChainIds c)) cs
           (ps\<lparr>psCirculations := psCirculations ps @ cs\<rparr>)) (\<lambda>ps'.
     bnd (pairRollovers cs stationById (poRepeatEveryS opts) (poMinimumTurnaroundS opts) (poTransferCost opts))
       (\<lambda>assignments. fold_res (addRollover alphaHash opts) assignments ps')))"

definition compareLot :: "service_lot \<Rightarrow> service_lot \<Rightarrow> int" where
  "compareLot left right = compareText (slLotId left) (slLotId right)"

definition compareRollover :: "rollover \<Rightarrow> rollover \<Rightarrow> int" where
  "compareRollover left right = compareText (roSourceCirculationId left) (roSourceCirculationId right)"

definition compareDemand :: "demand \<Rightarrow> demand \<Rightarrow> int" where
  "compareDemand left right = compareText (dmId left) (dmId right)"

definition demandKey :: "demand \<Rightarrow> string" where
  "demandKey d = transitionKey (dmSourceLegId d) (dmTargetLegId d) (dmDailyBoundary d)"

text \<open>From the state of the loop to the plan: sorting, counting, hashing.\<close>

definition finishPlan ::
    "(string \<Rightarrow> jsval \<Rightarrow> string) \<Rightarrow> (jsval \<Rightarrow> jsval) \<Rightarrow> plan_options \<Rightarrow> nat \<Rightarrow> nat \<Rightarrow> plan_state \<Rightarrow>
     circulation_error + daily_plan" where
  "finishPlan alphaHash canonical opts lots chainCount ps =
     (let circulations = sort_by compareCirculation (psCirculations ps);
          rolloverAssignments = sort_by compareRollover (psRollovers ps);
          turnaroundDemands = sort_by compareDemand (psTurnarounds ps);
          transferDemands = sort_by compareDemand (psTransfers ps);
          transitions = sum_list (map (length \<circ> ccJourneyChainIds) circulations)
      in invariant (length turnaroundDemands + length transferDemands = transitions) TransitionCount
        (invariant (length (remdups (map demandKey (turnaroundDemands @ transferDemands))) = transitions) TransitionCount
        (let body = \<lparr>dpSchema = DAILY_CIRCULATION_PLAN_SCHEMA, dpRule = DAILY_CIRCULATION_RULE,
               dpGtfsReleaseId = poGtfsReleaseId opts, dpRepeatEveryS = poRepeatEveryS opts,
               dpMinimumTurnaroundS = poMinimumTurnaroundS opts,
               dpMetrics = \<lparr>lotCount = lots, journeyChainCount = chainCount,
                 circulationCount = length circulations, rolloverAssignmentCount = length rolloverAssignments,
                 plannedTransitionCount = transitions, turnaroundDemandCount = length turnaroundDemands,
                 transferDemandCount = length transferDemands, transferLotCount = length (psTransferLotIds ps)\<rparr>,
               dpCirculations = circulations, dpRolloverAssignments = rolloverAssignments,
               dpTurnaroundDemands = turnaroundDemands, dpTransferDemands = transferDemands, dpPlanSha256 = []\<rparr>
         in Inr (body\<lparr>dpPlanSha256 := alphaHash DAILY_CIRCULATION_PLAN_SCHEMA (canonical (planBodyJson body))\<rparr>))))"

definition deriveDailyCirculationPlan ::
    "(string \<Rightarrow> jsval \<Rightarrow> string) \<Rightarrow> (jsval \<Rightarrow> jsval) \<Rightarrow> journey_chain list \<Rightarrow> station list \<Rightarrow> plan_options \<Rightarrow>
     circulation_error + daily_plan" where
  "deriveDailyCirculationPlan alphaHash canonical journeyChains allStations opts =
     invariant (journeyChains \<noteq> []) (BadParameter ''journeyChains'')
    (invariant (allStations \<noteq> []) (BadParameter ''stations'')
    (bnd (circText (poGtfsReleaseId opts)) (\<lambda>_.
     bnd (circInteger (JInt (poRepeatEveryS opts)) ''repeatEveryS'' 1) (\<lambda>_.
     bnd (circInteger (JInt (poMinimumTurnaroundS opts)) ''minimumTurnaroundS'' 0) (\<lambda>_.
     invariant (js_mul (poMinimumTurnaroundS opts) 2 < poRepeatEveryS opts) (BadParameter ''minimumTurnaroundS'')
    (bnd (fold_res checkStation allStations []) (\<lambda>stationById.
     bnd (fold_res (addToLot alphaHash (poGtfsReleaseId opts)) journeyChains []) (\<lambda>lots.
     bnd (fold_res addEndpoints journeyChains []) (\<lambda>endpoints.
     bnd (fold_res (planLot alphaHash opts stationById endpoints) (sort_by compareLot (map snd lots))
           \<lparr>psCirculations = [], psRollovers = [], psTurnarounds = [], psTransfers = [], psTransferLotIds = []\<rparr>) (\<lambda>ps.
     finishPlan alphaHash canonical opts (length lots) (length journeyChains) ps))))))))))"

section \<open>Movement continuities\<close>

record movement =
  mvTrainRunId :: string
  mvLegId :: string
  mvRouteVersionId :: string
  mvSourceLocationId :: string
  mvTargetLocationId :: string
  mvSourcePhysicalStopId :: string
  mvTargetPhysicalStopId :: string
  mvDepartureS :: int
  mvArrivalS :: int

definition movementOf :: "string \<Rightarrow> chain_leg \<Rightarrow> circulation_error + movement" where
  "movementOf i l =
     (let first = hd (lgStops l); final = last (lgStops l) in
      bnd (circText (lgLegId l)) (\<lambda>legId.
      bnd (dailyPassengerRouteVersionId (lgLegId l)) (\<lambda>version.
      bnd (case lgEntryPortalId l of Some p \<Rightarrow> Inr p | None \<Rightarrow> circText (spStopId first)) (\<lambda>source.
      bnd (case lgExitPortalId l of Some p \<Rightarrow> Inr p | None \<Rightarrow> circText (spStopId final)) (\<lambda>target.
      bnd (circText (spStopId first)) (\<lambda>sourceStop.
      bnd (circText (spStopId final)) (\<lambda>targetStop.
      bnd (circInteger (spDepartureS first) i 0) (\<lambda>departureS.
      bnd (circInteger (spArrivalS final) i 0) (\<lambda>arrivalS.
      Inr \<lparr>mvTrainRunId = i, mvLegId = legId, mvRouteVersionId = version, mvSourceLocationId = source,
           mvTargetLocationId = target, mvSourcePhysicalStopId = sourceStop,
           mvTargetPhysicalStopId = targetStop, mvDepartureS = departureS, mvArrivalS = arrivalS\<rparr>)))))))))"

type_synonym movements = "(string \<times> movement) list"

definition addMovement ::
    "journey_chain \<Rightarrow> nat \<times> chain_leg \<Rightarrow> movements \<Rightarrow> circulation_error + movements" where
  "addMovement chain il ms =
     (case il of (playableIndex, l) \<Rightarrow>
       invariant (lgStops l \<noteq> []) (NoStop (lgLegId l))
      (let i = operationalTrainRunId chain l playableIndex in
       invariant (map_of ms i = None) (DuplicateMovement i)
      (bnd (movementOf i l) (\<lambda>m. Inr (ms @ [(i, m)])))))"

definition passengerMovements :: "journey_chain list \<Rightarrow> circulation_error + movements" where
  "passengerMovements journeyChains =
     fold_res (\<lambda>chain ms. bnd (dailyPlayableLegs chain) (\<lambda>legs.
       fold_res (addMovement chain) (enumerate 0 legs) ms)) journeyChains []"

record continuity =
  cnId :: string
  cnSourceTrainRunId :: string
  cnTargetTrainRunId :: string
  cnSourceLegId :: string
  cnTargetLegId :: string
  cnSourceCirculationId :: string
  cnTargetCirculationId :: string
  cnSourceLocationId :: string
  cnTargetLocationId :: string
  cnSourceDepartureS :: int
  cnSourceArrivalS :: int
  cnTargetDepartureS :: int
  cnSourcePhase :: int
  cnSuccessorDayOffset :: int
  cnRelation :: string
  cnTransferDemandId :: "string option"

text \<open>The arguments of the closure \<open>add\<close>.\<close>

record succession =
  suSource :: movement
  suTarget :: movement
  suSourceCirculationId :: string
  suTargetCirculationId :: string
  suRelation :: string
  suTargetOccurrenceDepartureS :: int
  suDemandId :: "string option"

text \<open>
  \<open>Math.floor(x / repeatEveryS)\<close> is the integer division: departures are below two periods, so the
  quotient is below three and its rounding cannot reach the next integer.
\<close>

definition continuityOf ::
    "(string \<Rightarrow> jsval \<Rightarrow> string) \<Rightarrow> int \<Rightarrow> succession \<Rightarrow> circulation_error + continuity" where
  "continuityOf alphaHash repeatEveryS s =
     (let source = suSource s; target = suTarget s;
          sourcePhase = mvDepartureS source div repeatEveryS;
          targetPhase = suTargetOccurrenceDepartureS s div repeatEveryS;
          successorDayOffset = targetPhase - sourcePhase
      in invariant (successorDayOffset = 0 \<or> successorDayOffset = 1) (PhaseJump (mvTrainRunId source))
        (invariant (suTargetOccurrenceDepartureS s \<ge> mvArrivalS source) (BackInTime (mvTrainRunId source))
        (Inr \<lparr>cnId = ''continuity-'' @ alphaHash ''zugfolge-daily-movement-continuity/v1''
                (JObject [(''sourceTrainRunId'', JString (mvTrainRunId source)),
                  (''targetTrainRunId'', JString (mvTrainRunId target)),
                  (''sourceCirculationId'', JString (suSourceCirculationId s)),
                  (''targetCirculationId'', JString (suTargetCirculationId s)),
                  (''relation'', JString (suRelation s))]),
              cnSourceTrainRunId = mvTrainRunId source, cnTargetTrainRunId = mvTrainRunId target,
              cnSourceLegId = mvLegId source, cnTargetLegId = mvLegId target,
              cnSourceCirculationId = suSourceCirculationId s, cnTargetCirculationId = suTargetCirculationId s,
              cnSourceLocationId = mvTargetLocationId source, cnTargetLocationId = mvSourceLocationId target,
              cnSourceDepartureS = mvDepartureS source, cnSourceArrivalS = mvArrivalS source,
              cnTargetDepartureS = suTargetOccurrenceDepartureS s, cnSourcePhase = sourcePhase,
              cnSuccessorDayOffset = successorDayOffset, cnRelation = suRelation s,
              cnTransferDemandId = suDemandId s\<rparr>)))"

text \<open>The maps built before the loop.\<close>

record continuity_index =
  ixRepeatEveryS :: int
  ixMovements :: movements
  ixCirculations :: "(string \<times> circulation) list"
  ixRollovers :: "(string \<times> rollover) list"
  ixTurnarounds :: "(string \<times> demand) list"
  ixTransfers :: "(string \<times> demand) list"

definition sameMovementPlace :: "movement \<Rightarrow> movement \<Rightarrow> bool" where
  "sameMovementPlace source target \<longleftrightarrow> mvTargetLocationId source = mvSourceLocationId target \<and>
     mvTargetPhysicalStopId source = mvSourcePhysicalStopId target"

fun internalContinuities ::
    "(string \<Rightarrow> jsval \<Rightarrow> string) \<Rightarrow> continuity_index \<Rightarrow> string \<Rightarrow> string list \<Rightarrow> continuity list \<Rightarrow>
     circulation_error + continuity list" where
  "internalContinuities alphaHash ix c (i # j # ids) cs =
     (case (map_of (ixMovements ix) i, map_of (ixMovements ix) j) of
        (Some source, Some target) \<Rightarrow>
          let key = transitionKey (mvLegId source) (mvLegId target) False;
              turnaround = map_of (ixTurnarounds ix) key;
              transfer = map_of (ixTransfers ix) key
          in invariant ((turnaround = None) \<noteq> (transfer = None)) (AmbiguousTransition (mvTrainRunId source))
            (invariant ((turnaround \<noteq> None) = sameMovementPlace source target) (AmbiguousTransition (mvTrainRunId source))
            (bnd (continuityOf alphaHash (ixRepeatEveryS ix)
                  \<lparr>suSource = source, suTarget = target, suSourceCirculationId = c, suTargetCirculationId = c,
                   suRelation = (if turnaround = None then ''transfer'' else ''same-location''),
                   suTargetOccurrenceDepartureS = mvDepartureS target, suDemandId = map_option dmId transfer\<rparr>)
              (\<lambda>k. internalContinuities alphaHash ix c (j # ids) (cs @ [k]))))
      | _ \<Rightarrow> Inl (UnknownMovement c))"
| "internalContinuities alphaHash ix c ids cs = Inr cs"

definition rolloverContinuity ::
    "(string \<Rightarrow> jsval \<Rightarrow> string) \<Rightarrow> continuity_index \<Rightarrow> circulation \<Rightarrow> circulation_error + continuity" where
  "rolloverContinuity alphaHash ix c =
     (case map_of (ixRollovers ix) (ccId c) of
        None \<Rightarrow> Inl (BadRollover (ccId c))
      | Some rollover \<Rightarrow>
         (case map_of (ixCirculations ix) (roTargetCirculationId rollover) of
            None \<Rightarrow> Inl (BadRollover (ccId c))
          | Some targetCirculation \<Rightarrow>
             (case (map_of (ixMovements ix) (last (ccTrainRunIds c)),
                    if ccTrainRunIds targetCirculation = [] then None
                    else map_of (ixMovements ix) (hd (ccTrainRunIds targetCirculation))) of
                (Some source, Some target) \<Rightarrow>
                  let key = transitionKey (mvLegId source) (mvLegId target) True;
                      turnaround = map_of (ixTurnarounds ix) key;
                      transfer = map_of (ixTransfers ix) key
                  in invariant (roKind rollover = ''same-location'' \<or> roKind rollover = ''transfer'') (BadRollover (ccId c))
                    (invariant
                      (roKind rollover = ''same-location'' \<and> sameMovementPlace source target \<and>
                         turnaround \<noteq> None \<and> transfer = None
                       \<or> roKind rollover = ''transfer'' \<and> turnaround = None \<and> transfer \<noteq> None) (BadRollover (ccId c))
                    (continuityOf alphaHash (ixRepeatEveryS ix)
                      \<lparr>suSource = source, suTarget = target, suSourceCirculationId = ccId c,
                       suTargetCirculationId = ccId targetCirculation, suRelation = roKind rollover,
                       suTargetOccurrenceDepartureS = js_add (mvDepartureS target) (ixRepeatEveryS ix),
                       suDemandId = map_option dmId transfer\<rparr>))
              | _ \<Rightarrow> Inl (BadRollover (ccId c)))))"

definition circulationContinuities ::
    "(string \<Rightarrow> jsval \<Rightarrow> string) \<Rightarrow> continuity_index \<Rightarrow> circulation \<Rightarrow> continuity list \<Rightarrow>
     circulation_error + continuity list" where
  "circulationContinuities alphaHash ix c cs =
     invariant (ccTrainRunIds c \<noteq> []) (EmptyCirculation (ccId c))
    (bnd (internalContinuities alphaHash ix (ccId c) (ccTrainRunIds c) cs) (\<lambda>cs'.
     bnd (rolloverContinuity alphaHash ix c) (\<lambda>k. Inr (cs' @ [k]))))"

definition continuityIndex ::
    "daily_plan \<Rightarrow> journey_chain list \<Rightarrow> circulation_error + continuity_index" where
  "continuityIndex dailyPlan journeyChains =
     bnd (circInteger (JInt (dpRepeatEveryS dailyPlan)) ''repeatEveryS'' 1) (\<lambda>repeatEveryS.
     bnd (passengerMovements journeyChains) (\<lambda>movements.
     invariant (\<forall>(i, m) \<in> set movements. mvDepartureS m < js_mul repeatEveryS 2) (TwoPhases ''departureS'')
    (let circulations = dpCirculations dailyPlan;
         circulationById = map_from (map (\<lambda>c. (ccId c, c)) circulations);
         rolloverBySource = map_from (map (\<lambda>a. (roSourceCirculationId a, a)) (dpRolloverAssignments dailyPlan));
         turnarounds = map_from (map (\<lambda>d. (demandKey d, d)) (dpTurnaroundDemands dailyPlan));
         transfers = map_from (map (\<lambda>d. (demandKey d, d)) (dpTransferDemands dailyPlan))
     in invariant (length circulationById = length circulations) (DuplicateId ''circulation'')
       (invariant (length rolloverBySource = length circulations \<and>
            length (remdups (map roTargetCirculationId (dpRolloverAssignments dailyPlan))) = length circulations)
          NoPermutation
       (invariant (length turnarounds = length (dpTurnaroundDemands dailyPlan)) (DuplicateId ''turnaround'')
       (invariant (length transfers = length (dpTransferDemands dailyPlan)) (DuplicateId ''transfer'')
       (invariant (\<forall>(key, d) \<in> set turnarounds. map_of transfers key = None) (ClassifiedTwice ''transition'')
       (Inr \<lparr>ixRepeatEveryS = repeatEveryS, ixMovements = movements, ixCirculations = circulationById,
             ixRollovers = rolloverBySource, ixTurnarounds = turnarounds, ixTransfers = transfers\<rparr>))))))))"

definition compareContinuity :: "continuity \<Rightarrow> continuity \<Rightarrow> int" where
  "compareContinuity left right = compareText (cnId left) (cnId right)"

definition advances :: "continuity list \<Rightarrow> circulation \<Rightarrow> int" where
  "advances continuities c =
     sum_list (map cnSuccessorDayOffset
       (filter (\<lambda>k. cnSourceTrainRunId k \<in> set (ccTrainRunIds c)) continuities))"

definition dailyMovementContinuities ::
    "(string \<Rightarrow> jsval \<Rightarrow> string) \<Rightarrow> daily_plan \<Rightarrow> journey_chain list \<Rightarrow> circulation_error + continuity list" where
  "dailyMovementContinuities alphaHash dailyPlan journeyChains =
     invariant (dpSchema dailyPlan = DAILY_CIRCULATION_PLAN_SCHEMA) (NotAPlan (dpSchema dailyPlan))
    (invariant (journeyChains \<noteq> []) (BadParameter ''journeyChains'')
    (bnd (continuityIndex dailyPlan journeyChains) (\<lambda>ix.
     bnd (fold_res (circulationContinuities alphaHash ix) (dpCirculations dailyPlan) []) (\<lambda>continuities.
     invariant (length continuities = length (ixMovements ix)
         \<and> length (remdups (map cnSourceTrainRunId continuities)) = length (ixMovements ix)
         \<and> length (remdups (map cnTargetTrainRunId continuities)) = length (ixMovements ix)) IncompleteContinuity
    (invariant (\<forall>c \<in> set (dpCirculations dailyPlan). advances continuities c = 1) (PhaseJump ''circulation'')
    (Inr (sort_by compareContinuity continuities)))))))"

section \<open>Rollover cycles\<close>

definition addAssignment ::
    "string list \<Rightarrow> rollover \<Rightarrow> (string \<times> string) list \<Rightarrow> circulation_error + (string \<times> string) list" where
  "addAssignment circulationIds a targetBySource =
     bnd (circText (roSourceCirculationId a)) (\<lambda>source.
     bnd (circText (roTargetCirculationId a)) (\<lambda>target.
     invariant (source \<in> set circulationIds \<and> target \<in> set circulationIds) (UnknownCirculation source)
    (invariant (map_of targetBySource source = None) (BadRollover source)
    (invariant (target \<notin> snd ` set targetBySource) (BadRollover target)
    (Inr (targetBySource @ [(source, target)]))))))"

text \<open>The inner loop; a successor that is \<open>undefined\<close> is in no set.\<close>

function walkCycle ::
    "(string \<times> string) list \<Rightarrow> string \<Rightarrow> string \<Rightarrow> string list \<Rightarrow> string list \<Rightarrow>
     circulation_error + string list \<times> string list" where
  "walkCycle targetBySource seed current unseen cycle =
     (if current \<notin> set unseen then Inl (ForeignCycle seed)
      else let cycle' = cycle @ [current]; unseen' = removeAll current unseen in
        case map_of targetBySource current of
          None \<Rightarrow> Inl (ForeignCycle seed)
        | Some target \<Rightarrow>
            if target = seed then Inr (cycle', unseen')
            else walkCycle targetBySource seed target unseen' cycle')"
  by pat_completeness auto

termination
  by (relation "measure (\<lambda>(m, s, c, unseen, cy). length unseen)") (auto intro: length_removeAll_less)

text \<open>The outer loop takes the least identifier that is left; one unit of fuel per cycle.\<close>

fun walkCycles ::
    "(string \<times> string) list \<Rightarrow> nat \<Rightarrow> string list \<Rightarrow> circulation_error + string list list" where
  "walkCycles targetBySource fuel [] = Inr []"
| "walkCycles targetBySource 0 unseen = Inl CycleFuel"
| "walkCycles targetBySource (Suc fuel) unseen =
     (let seed = hd (sort_by compareText unseen) in
      bnd (walkCycle targetBySource seed seed unseen []) (\<lambda>(cycle, unseen').
      bnd (walkCycles targetBySource fuel unseen') (\<lambda>cycles. Inr (cycle # cycles))))"

definition compareCycle :: "string list \<Rightarrow> string list \<Rightarrow> int" where
  "compareCycle left right = compareText (hd left) (hd right)"

definition dailyRolloverCycles :: "daily_plan \<Rightarrow> circulation_error + string list list" where
  "dailyRolloverCycles dailyPlan =
     invariant (dpSchema dailyPlan = DAILY_CIRCULATION_PLAN_SCHEMA) (NotAPlan (dpSchema dailyPlan))
    (invariant (dpCirculations dailyPlan \<noteq> []) (BadParameter ''circulations'')
    (bnd (map_res (\<lambda>c. circText (ccId c)) (dpCirculations dailyPlan)) (\<lambda>circulationIds.
     invariant (length (remdups circulationIds) = length (dpCirculations dailyPlan)) (DuplicateId ''circulation'')
    (bnd (fold_res (addAssignment circulationIds) (dpRolloverAssignments dailyPlan) []) (\<lambda>targetBySource.
     invariant (length targetBySource = length circulationIds) NoPermutation
    (bnd (walkCycles targetBySource (length circulationIds) circulationIds) (\<lambda>cycles.
     Inr (sort_by compareCycle cycles))))))))"

end
