(* ===== verification/LotCover.thy ===== *)
theory LotCover
  imports DailyCirculation
begin

text \<open>
  The circulations of a lot: \<open>buildLotCirculations\<close> runs every chain once, along drivable paths, and
  with the least number of vehicles. The bound compares, place by place, the direct successions of
  the greedy cover with those of any other cover.
\<close>

section \<open>Paths of chains\<close>

definition place_of :: "endpoint \<Rightarrow> string \<times> string" where
  "place_of e = (epLocationId e, epPhysicalStopId e)"

lemma samePhysicalEndpoint_place: "samePhysicalEndpoint a b \<longleftrightarrow> place_of a = place_of b"
  by (simp add: samePhysicalEndpoint_def place_of_def)

text \<open>One vehicle can run chain \<open>b\<close> directly after chain \<open>a\<close>.\<close>

definition connects :: "int \<Rightarrow> placed_chain \<Rightarrow> placed_chain \<Rightarrow> bool" where
  "connects m a b \<longleftrightarrow> place_of (pcEnd a) = place_of (pcStart b) \<and>
     epTimeS (pcEnd a) + m \<le> epTimeS (pcStart b)"

fun links :: "'a list \<Rightarrow> ('a \<times> 'a) list" where
  "links (a # b # xs) = (a, b) # links (b # xs)"
| "links xs = []"

definition all_links :: "'a list list \<Rightarrow> ('a \<times> 'a) list" where
  "all_links ps = concat (map links ps)"

lemma links_fst: "map fst (links xs) = butlast xs"
  by (induction xs rule: links.induct) auto

lemma links_snd: "map snd (links xs) = tl xs"
  by (induction xs rule: links.induct) auto

lemma length_links: "length (links xs) = length xs - 1"
  using links_snd [of xs] by (metis length_map length_tl)

lemma links_snoc: "xs \<noteq> [] \<Longrightarrow> links (xs @ [x]) = links xs @ [(last xs, x)]"
  by (induction xs rule: links.induct) auto

text \<open>A cover of the chains by drivable paths.\<close>

definition drivable :: "int \<Rightarrow> placed_chain list \<Rightarrow> bool" where
  "drivable m path \<longleftrightarrow> path \<noteq> [] \<and> (\<forall>(a, b) \<in> set (links path). connects m a b)"

definition path_cover :: "int \<Rightarrow> placed_chain multiset \<Rightarrow> placed_chain list list \<Rightarrow> bool" where
  "path_cover m A paths \<longleftrightarrow> (\<forall>path \<in> set paths. drivable m path) \<and> mset (concat paths) = A"

lemma size_cover:
  assumes "\<forall>path \<in> set paths. path \<noteq> []"
  shows "length (concat paths) = length paths + length (all_links paths)"
  using assms
proof (induction paths)
  case Nil
  then show ?case by (simp add: all_links_def)
next
  case (Cons path paths)
  then have "length path = Suc (length (links path))" by (simp add: length_links)
  then show ?case using Cons by (simp add: all_links_def)
qed

lemma all_links_fst: "mset (map fst (all_links paths)) + mset (map last paths) = mset (concat paths)"
  if "\<forall>path \<in> set paths. path \<noteq> []"
  using that
proof (induction paths)
  case Nil
  then show ?case by (simp add: all_links_def)
next
  case (Cons path paths)
  have "mset path = mset (butlast path) + {#last path#}"
    using Cons.prems by (metis append_butlast_last_id list.set_intros(1) mset.simps(1,2) mset_append)
  then show ?case using Cons by (simp add: all_links_def links_fst)
qed

lemma all_links_Cons: "all_links (path # paths) = links path @ all_links paths"
  by (simp add: all_links_def)

lemma all_links_snd: "set (map snd (all_links paths)) \<subseteq> set (concat paths)"
proof (induction paths)
  case Nil
  then show ?case by (simp add: all_links_def)
next
  case (Cons path paths)
  have "set (map snd (links path)) \<subseteq> set path" unfolding links_snd by (cases path) auto
  then have "set (map snd (links path)) \<union> set (map snd (all_links paths)) \<subseteq> set path \<union> set (concat paths)"
    using Cons by (rule Un_mono)
  then show ?case by (simp only: all_links_Cons map_append set_append concat.simps)
qed

lemma all_links_snd_distinct: "distinct (concat paths) \<Longrightarrow> distinct (map snd (all_links paths))"
proof (induction paths)
  case Nil
  then show ?case by (simp add: all_links_def)
next
  case (Cons path paths)
  have "set (tl path) \<subseteq> set path" by (cases path) auto
  then have "set (tl path) \<inter> set (map snd (all_links paths)) = {}"
    using Cons.prems all_links_snd [of paths] by (auto simp del: set_map)
  moreover have "distinct (tl path)" using Cons.prems by (simp add: distinct_tl)
  ultimately show ?case using Cons by (simp add: all_links_Cons links_snd)
qed

section \<open>Circulations carry paths\<close>

definition carries :: "circulation \<Rightarrow> placed_chain list \<Rightarrow> bool" where
  "carries c path \<longleftrightarrow> path \<noteq> [] \<and>
     ccJourneyChainIds c = map (chJourneyChainId \<circ> pcChain) path \<and>
     ccStart c = pcStart (hd path) \<and> ccEnd c = pcEnd (last path)"

lemma carries_new: "carries (extendCirculation pc (newCirculation l s n (pcStart pc))) [pc]"
  by (simp add: carries_def extendCirculation_def newCirculation_def)

lemma carries_extend: "carries c path \<Longrightarrow> carries (extendCirculation pc c) (path @ [pc])"
  by (auto simp: carries_def extendCirculation_def)

lemma js_add_le: "is_safe c \<Longrightarrow> 0 \<le> a + b \<Longrightarrow> js_add a b \<le> c \<longleftrightarrow> a + b \<le> c"
proof (cases "is_safe (a + b)")
  case True
  then show ?thesis by (simp add: js_add_def)
next
  case False
  assume c: "is_safe c" and "0 \<le> a + b"
  then have "2 ^ 53 \<le> \<bar>a + b\<bar>" using False by (auto simp: is_safe_def)
  then have "2 ^ 53 \<le> \<bar>js_round (a + b)\<bar>" by (rule js_round_large)
  moreover have "0 \<le> js_round (a + b)" using \<open>0 \<le> a + b\<close> by (auto simp: js_round_def Let_def sgn_if)
  ultimately show ?thesis using c False \<open>0 \<le> a + b\<close> by (auto simp: js_add_def is_safe_def)
qed

text \<open>Chains as \<open>placeChain\<close> returns them.\<close>

definition placed_ok :: "placed_chain \<Rightarrow> bool" where
  "placed_ok pc \<longleftrightarrow> 0 \<le> epTimeS (pcStart pc) \<and> is_safe (epTimeS (pcStart pc)) \<and>
     0 \<le> epTimeS (pcEnd pc) \<and> is_safe (epTimeS (pcEnd pc))"

lemma legEndpoint_time: "legEndpoint l s = Inr e \<Longrightarrow> 0 \<le> epTimeS e \<and> is_safe (epTimeS e)"
  by (auto simp: legEndpoint_def res_simps circInteger_def Let_def split: jsval.splits)

lemma placeChain_ok: "placeChain chain = Inr pc \<Longrightarrow> placed_ok pc \<and> pcChain pc = chain"
  by (auto simp: placeChain_def res_simps chain_endpoint_def placed_ok_def dest: legEndpoint_time)

lemma isAvailable_iff:
  assumes "0 \<le> m" and "placed_ok a" "placed_ok b" and "ccEnd c = pcEnd a"
  shows "isAvailable m (pcStart b) c \<longleftrightarrow> connects m a b"
  using assms js_add_le [of "epTimeS (pcStart b)" "epTimeS (pcEnd a)" m]
  by (simp add: isAvailable_def connects_def samePhysicalEndpoint_place placed_ok_def)

lemma availableIndex_Some:
  assumes "availableIndex m s cs = Some i"
  shows "i < length cs" "isAvailable m s (cs ! i)"
proof -
  let ?xs = "sort_by (\<lambda>i j. compareAvailable (cs ! i) (cs ! j)) (filter (\<lambda>i. isAvailable m s (cs ! i)) [0..<length cs])"
  obtain ys where ys: "?xs = i # ys" using assms by (auto simp: availableIndex_def split: list.splits)
  have "i \<in> set ?xs" unfolding ys by simp
  then show "i < length cs" "isAvailable m s (cs ! i)" by simp_all
qed

lemma availableIndex_None:
  assumes "availableIndex m s cs = None" and "i < length cs"
  shows "\<not> isAvailable m s (cs ! i)"
proof
  assume "isAvailable m s (cs ! i)"
  then have "i \<in> set (filter (\<lambda>i. isAvailable m s (cs ! i)) [0..<length cs])" using assms(2) by simp
  moreover have "filter (\<lambda>i. isAvailable m s (cs ! i)) [0..<length cs] = []"
    using assms(1) by (auto simp: availableIndex_def split: list.splits)
  ultimately show False by simp
qed

section \<open>The greedy cover is minimal\<close>

definition link_place :: "placed_chain \<times> placed_chain \<Rightarrow> string \<times> string" where
  "link_place = (\<lambda>(a, b). place_of (pcStart b))"

text \<open>A choice of direct successions among chains: no chain twice on either side.\<close>

definition successions :: "int \<Rightarrow> placed_chain set \<Rightarrow> placed_chain set \<Rightarrow> (placed_chain \<times> placed_chain) list \<Rightarrow> bool" where
  "successions m A B ls \<longleftrightarrow> distinct (map fst ls) \<and> distinct (map snd ls) \<and>
     (\<forall>(a, b) \<in> set ls. a \<in> A \<and> b \<in> B \<and> connects m a b)"

definition links_at :: "string \<times> string \<Rightarrow> (placed_chain \<times> placed_chain) list \<Rightarrow> nat" where
  "links_at x ls = length (filter (\<lambda>l. link_place l = x) ls)"

lemma links_at_simps [simp]:
  "links_at x [] = 0" "links_at x (l # ls) = (if link_place l = x then 1 else 0) + links_at x ls"
  "links_at x (ls @ ls') = links_at x ls + links_at x ls'"
  by (simp_all add: links_at_def)

text \<open>Chains that start in order and end after they start, with a positive turnaround.\<close>

definition timely :: "int \<Rightarrow> placed_chain list \<Rightarrow> bool" where
  "timely m xs \<longleftrightarrow> 0 < m \<and> distinct xs \<and> (\<forall>a \<in> set xs. placed_ok a \<and> epTimeS (pcStart a) \<le> epTimeS (pcEnd a)) \<and>
     sorted_wrt (\<lambda>a b. epTimeS (pcStart a) \<le> epTimeS (pcStart b)) xs"

definition greedy_inv :: "int \<Rightarrow> placed_chain set \<Rightarrow> placed_chain list \<Rightarrow> circulation list \<Rightarrow> placed_chain list list \<Rightarrow> bool" where
  "greedy_inv m A dn cs paths \<longleftrightarrow> list_all2 carries cs paths \<and> path_cover m (mset dn) paths \<and>
     (\<forall>ls x. successions m A (set dn) ls \<longrightarrow> links_at x ls \<le> links_at x (all_links paths))"

lemma successions_drop:
  assumes "successions m A (insert b B) ls"
  shows "successions m A B (filter (\<lambda>l. snd l \<noteq> b) ls)"
    and "links_at x ls \<le> links_at x (filter (\<lambda>l. snd l \<noteq> b) ls) + (if x = place_of (pcStart b) then 1 else 0)"
proof -
  show "successions m A B (filter (\<lambda>l. snd l \<noteq> b) ls)"
    using assms by (auto simp: successions_def distinct_map_filter)
  have "distinct (map snd ls)" using assms by (simp add: successions_def)
  then show "links_at x ls \<le> links_at x (filter (\<lambda>l. snd l \<noteq> b) ls) + (if x = place_of (pcStart b) then 1 else 0)"
  proof (induction ls)
    case (Cons l ls)
    show ?case
    proof (cases "snd l = b")
      case True
      then have "filter (\<lambda>l. snd l \<noteq> b) ls = ls" using Cons.prems by (auto simp: filter_id_conv image_iff)
      then show ?thesis using True by (cases l) (auto simp: link_place_def)
    next
      case False
      then show ?thesis using Cons by auto
    qed
  qed simp
qed

lemma links_cover: "path_cover m A paths \<Longrightarrow> l \<in> set (all_links paths) \<Longrightarrow> connects m (fst l) (snd l)"
  by (cases l) (fastforce simp: path_cover_def drivable_def all_links_def)

text \<open>At a place where no vehicle is free, every end that is in time has been used.\<close>

lemma saturated:
  assumes cover: "path_cover m (mset dn) paths" and dn: "distinct dn"
    and none: "\<And>path. path \<in> set paths \<Longrightarrow> \<not> connects m (last path) b"
    and ls: "successions m A B ls" and later: "\<And>b'. b' \<in> B \<Longrightarrow> epTimeS (pcStart b') \<le> epTimeS (pcStart b)"
    and early: "\<And>a. a \<in> A \<Longrightarrow> epTimeS (pcEnd a) + m \<le> epTimeS (pcStart b) \<Longrightarrow> a \<in> set dn"
  shows "links_at (place_of (pcStart b)) ls \<le> links_at (place_of (pcStart b)) (all_links paths)"
proof -
  let ?x = "place_of (pcStart b)"
  have ne: "\<forall>path \<in> set paths. path \<noteq> []" using cover by (simp add: path_cover_def drivable_def)
  have "distinct (concat paths)" using cover dn by (metis path_cover_def mset_eq_imp_distinct_iff)
  have "fst ` set (filter (\<lambda>l. link_place l = ?x) ls) \<subseteq> fst ` set (filter (\<lambda>l. link_place l = ?x) (all_links paths))"
  proof
    fix a assume "a \<in> fst ` set (filter (\<lambda>l. link_place l = ?x) ls)"
    then obtain b' where ab: "(a, b') \<in> set ls" "place_of (pcStart b') = ?x" by (auto simp: link_place_def)
    then have c: "a \<in> A" "b' \<in> B" "connects m a b'" using ls by (auto simp: successions_def)
    then have cb: "connects m a b" using later [of b'] ab(2) by (auto simp: connects_def)
    then have "a \<in> set dn" using early c(1) by (simp add: connects_def)
    then have "a \<in> set (concat paths)" using cover by (metis path_cover_def set_mset_mset)
    moreover have "a \<notin> last ` set paths" using none cb by auto
    moreover have "set (concat paths) = fst ` set (all_links paths) \<union> last ` set paths"
      using arg_cong [OF all_links_fst [OF ne], of set_mset] by simp
    ultimately have "a \<in> fst ` set (all_links paths)" by blast
    then obtain l where l: "l \<in> set (all_links paths)" "a = fst l" by blast
    then have "connects m a (snd l)" using links_cover [OF cover] by blast
    then have "link_place l = ?x" using cb l(2) by (cases l) (auto simp: connects_def link_place_def)
    then show "a \<in> fst ` set (filter (\<lambda>l. link_place l = ?x) (all_links paths))" using l by auto
  qed
  then have "card (fst ` set (filter (\<lambda>l. link_place l = ?x) ls)) \<le>
      card (fst ` set (filter (\<lambda>l. link_place l = ?x) (all_links paths)))" by (rule card_mono [rotated]) simp
  moreover have "card (fst ` set (filter (\<lambda>l. link_place l = ?x) ls)) = links_at ?x ls"
  proof -
    have "distinct (map fst (filter (\<lambda>l. link_place l = ?x) ls))"
      using ls unfolding successions_def by (intro distinct_map_filter) blast
    from distinct_card [OF this] show ?thesis by (simp add: links_at_def)
  qed
  moreover have "card (fst ` set (filter (\<lambda>l. link_place l = ?x) (all_links paths))) \<le> links_at ?x (all_links paths)"
    using card_length [of "map fst (filter (\<lambda>l. link_place l = ?x) (all_links paths))"] by (simp add: links_at_def)
  ultimately show ?thesis by linarith
qed

lemma all_links_update:
  assumes "i < length paths" and "paths ! i \<noteq> []"
  shows "mset (all_links (paths[i := paths ! i @ [b]])) = add_mset (last (paths ! i), b) (mset (all_links paths))"
    and "mset (concat (paths[i := paths ! i @ [b]])) = add_mset b (mset (concat paths))"
proof -
  define xs ys p where "xs = take i paths" and "ys = drop (Suc i) paths" and "p = paths ! i"
  have old: "paths = xs @ p # ys" unfolding xs_def ys_def p_def using assms(1) by (rule id_take_nth_drop)
  have new: "paths[i := p @ [b]] = xs @ (p @ [b]) # ys"
    unfolding xs_def ys_def using assms(1) by (rule upd_conv_take_nth_drop)
  have "all_links (us @ q # vs) = all_links us @ links q @ all_links vs" for us q and vs :: "'a list list"
    by (simp add: all_links_def)
  then show "mset (all_links (paths[i := paths ! i @ [b]])) = add_mset (last (paths ! i), b) (mset (all_links paths))"
    using links_snoc [of p b] assms(2) unfolding p_def [symmetric] new by (simp add: old)
  show "mset (concat (paths[i := paths ! i @ [b]])) = add_mset b (mset (concat paths))"
    unfolding p_def [symmetric] new by (simp add: old)
qed

lemma links_at_mset: "mset ls = mset ls' \<Longrightarrow> links_at x ls = links_at x ls'"
  unfolding links_at_def by (metis mset_filter size_mset)

lemma greedy_step:
  assumes inv: "greedy_inv m (set xs) dn cs paths" and xs: "xs = dn @ b # td" and t: "timely m xs"
  obtains paths' where "greedy_inv m (set xs) (dn @ [b]) (assignChain l s m b cs) paths'"
proof -
  have m: "0 < m" and d: "distinct xs" and ok: "\<And>a. a \<in> set xs \<Longrightarrow> placed_ok a"
    and dur: "\<And>a. a \<in> set xs \<Longrightarrow> epTimeS (pcStart a) \<le> epTimeS (pcEnd a)"
    and srt: "sorted_wrt (\<lambda>a b. epTimeS (pcStart a) \<le> epTimeS (pcStart b)) xs"
    using t by (auto simp: timely_def)
  have car: "list_all2 carries cs paths" and cover: "path_cover m (mset dn) paths"
    and max: "\<And>ls x. successions m (set xs) (set dn) ls \<Longrightarrow> links_at x ls \<le> links_at x (all_links paths)"
    using inv by (auto simp: greedy_inv_def)
  have len: "length cs = length paths" using car by (rule list_all2_lengthD)
  have ne: "path \<noteq> []" if "path \<in> set paths" for path using cover that by (auto simp: path_cover_def drivable_def)
  have b: "b \<in> set xs" "b \<notin> set dn" using xs d by auto
  have before: "\<And>b'. b' \<in> set (dn @ [b]) \<Longrightarrow> epTimeS (pcStart b') \<le> epTimeS (pcStart b)"
    using srt xs by (auto simp: sorted_wrt_append)
  have early: "a \<in> set dn" if "a \<in> set xs" "epTimeS (pcEnd a) + m \<le> epTimeS (pcStart b)" for a
  proof (rule ccontr)
    assume "a \<notin> set dn"
    then have "epTimeS (pcStart b) \<le> epTimeS (pcStart a)" using that(1) xs srt by (auto simp: sorted_wrt_append)
    then show False using that dur [OF that(1)] m by simp
  qed
  have last_in: "last path \<in> set xs" if "path \<in> set paths" for path
  proof -
    have "last path \<in> set (concat paths)" using that last_in_set [OF ne [OF that]] by auto
    moreover have "set (concat paths) = set dn" using cover by (metis path_cover_def set_mset_mset)
    ultimately show ?thesis using xs by auto
  qed
  have avail: "isAvailable m (pcStart b) (cs ! i) \<longleftrightarrow> connects m (last (paths ! i)) b" if i: "i < length cs" for i
  proof -
    have "carries (cs ! i) (paths ! i)" using car i by (rule list_all2_nthD)
    then have "ccEnd (cs ! i) = pcEnd (last (paths ! i))" by (simp add: carries_def)
    moreover have "last (paths ! i) \<in> set xs" using last_in i len by simp
    ultimately show ?thesis using isAvailable_iff ok b(1) m by (meson less_imp_le)
  qed
  have drop: "links_at x ls \<le> links_at x (all_links paths) + (if x = place_of (pcStart b) then 1 else 0)"
    if "successions m (set xs) (set (dn @ [b])) ls" for ls x
  proof -
    have s: "successions m (set xs) (insert b (set dn)) ls" using that by simp
    show ?thesis using successions_drop(2) [OF s, of x] max [OF successions_drop(1) [OF s], of x] by linarith
  qed
  show thesis
  proof (cases "availableIndex m (pcStart b) cs")
    case (Some i)
    note i = availableIndex_Some [OF Some]
    let ?paths = "paths[i := paths ! i @ [b]]"
    have ip: "i < length paths" "paths ! i \<noteq> []" using i(1) len ne [OF nth_mem] by auto
    have con: "connects m (last (paths ! i)) b" using avail i by blast
    have "carries (extendCirculation b (cs ! i)) (paths ! i @ [b])"
      using carries_extend list_all2_nthD [OF car i(1)] by blast
    then have "list_all2 carries (cs[i := extendCirculation b (cs ! i)]) ?paths"
      using car by (intro list_all2_update_cong)
    moreover have "path_cover m (mset (dn @ [b])) ?paths"
      unfolding path_cover_def
    proof
      show "\<forall>path \<in> set ?paths. drivable m path"
      proof
        fix path assume "path \<in> set ?paths"
        then have "path \<in> set paths \<or> path = paths ! i @ [b]" using set_update_subset_insert by fastforce
        moreover have "drivable m (paths ! i)" using cover ip(1) by (simp add: path_cover_def)
        ultimately show "drivable m path"
          using cover con by (auto simp: path_cover_def drivable_def links_snoc)
      qed
      show "mset (concat ?paths) = mset (dn @ [b])"
        using all_links_update(2) [OF ip, of b] cover by (simp add: path_cover_def)
    qed
    moreover have "links_at x ls \<le> links_at x (all_links ?paths)"
      if "successions m (set xs) (set (dn @ [b])) ls" for ls x
    proof -
      have "links_at x (all_links ?paths) = links_at x ((last (paths ! i), b) # all_links paths)"
        by (rule links_at_mset) (simp add: all_links_update(1) [OF ip])
      then show ?thesis using drop [OF that, of x] by (simp add: link_place_def eq_commute split: if_splits)
    qed
    ultimately show thesis
      using that [of ?paths] Some by (simp add: greedy_inv_def assignChain_def)
  next
    case None
    let ?paths = "paths @ [[b]]"
    have none: "\<not> connects m (last path) b" if "path \<in> set paths" for path
      using availableIndex_None [OF None] avail that len by (metis in_set_conv_nth)
    have links: "all_links ?paths = all_links paths" by (simp add: all_links_def)
    have "list_all2 carries (cs @ [extendCirculation b (newCirculation l s (length cs) (pcStart b))]) ?paths"
      using car carries_new by (simp add: list_all2_appendI)
    moreover have "path_cover m (mset (dn @ [b])) ?paths"
      using cover by (auto simp: path_cover_def drivable_def)
    moreover have "links_at x ls \<le> links_at x (all_links ?paths)"
      if sl: "successions m (set xs) (set (dn @ [b])) ls" for ls x
    proof (cases "x = place_of (pcStart b)")
      case True
      have "distinct dn" using d xs by simp
      from saturated [OF cover this none sl before early] show ?thesis using True links by simp
    next
      case False
      then show ?thesis using drop [OF sl, of x] links by simp
    qed
    ultimately show thesis
      using that [of ?paths] None by (simp add: greedy_inv_def assignChain_def)
  qed
qed

lemma greedy_fold:
  assumes "timely m xs"
  obtains paths where "greedy_inv m (set xs) xs (fold (assignChain l s m) xs []) paths"
proof -
  have "\<exists>paths. greedy_inv m (set xs) dn (fold (assignChain l s m) dn []) paths" if "\<exists>td. xs = dn @ td" for dn
    using that
  proof (induction dn rule: rev_induct)
    case Nil
    have "ls = []" if "successions m (set xs) {} ls" for ls using that by (cases ls) (auto simp: successions_def)
    then have "greedy_inv m (set xs) [] [] []" by (fastforce simp: greedy_inv_def path_cover_def)
    then show ?case by auto
  next
    case (snoc b dn)
    then obtain td where xs: "xs = dn @ b # td" by auto
    then obtain paths where "greedy_inv m (set xs) dn (fold (assignChain l s m) dn []) paths" using snoc.IH by auto
    from greedy_step [OF this xs assms] show ?case by (metis fold_simps fold_append comp_apply)
  qed
  then show thesis using that by (metis append_Nil2)
qed

lemma links_at_total:
  assumes "\<And>x. links_at x ls \<le> links_at x ls'"
  shows "length ls \<le> length ls'"
proof -
  have "count (mset (map link_place l)) x = links_at x l" for l x
    by (induction l) auto
  then have "mset (map link_place ls) \<subseteq># mset (map link_place ls')"
    using assms by (intro mset_subset_eqI) simp
  then show ?thesis using size_mset_mono by fastforce
qed

text \<open>No cover of the chains by drivable paths has fewer paths.\<close>

lemma greedy_minimal:
  assumes t: "timely m xs" and inv: "greedy_inv m (set xs) xs cs paths"
    and cover: "path_cover m (mset xs) paths'"
  shows "length cs \<le> length paths'"
proof -
  have ne: "\<forall>path \<in> set ps. path \<noteq> []" if "path_cover m (mset xs) ps" for ps
    using that by (auto simp: path_cover_def drivable_def)
  have d: "distinct (concat paths')"
    using cover t by (metis path_cover_def mset_eq_imp_distinct_iff timely_def)
  have set': "set (concat paths') = set xs" using cover by (metis path_cover_def set_mset_mset)
  have "distinct (map fst (all_links paths'))"
  proof -
    have "mset (map fst (all_links paths')) \<subseteq># mset (concat paths')"
      by (metis all_links_fst [OF ne [OF cover]] mset_subset_eq_add_left)
    moreover have "count (mset (concat paths')) a \<le> 1" for a
      using d by (simp add: distinct_count_atmost_1)
    ultimately have "count (mset (map fst (all_links paths'))) a \<le> 1" for a
      by (meson le_trans mset_subset_eq_count)
    moreover have "count (mset (map fst (all_links paths'))) a \<noteq> 0" if "a \<in> set (map fst (all_links paths'))" for a
      using that by (metis count_mset_0_iff)
    ultimately show ?thesis unfolding distinct_count_atmost_1 by (metis count_mset_0_iff le_antisym less_one not_le)
  qed
  moreover have "set (map fst (all_links paths')) \<subseteq> set xs"
    using arg_cong [OF all_links_fst [OF ne [OF cover]], of set_mset] set' by auto
  moreover have "set (map snd (all_links paths')) \<subseteq> set xs" using all_links_snd set' by metis
  ultimately have "successions m (set xs) (set xs) (all_links paths')"
    unfolding successions_def
  proof (intro conjI ballI)
    fix l assume l: "l \<in> set (all_links paths')"
    then have "fst l \<in> set (map fst (all_links paths'))" "snd l \<in> set (map snd (all_links paths'))" by auto
    then have "fst l \<in> set xs" "snd l \<in> set xs"
      using \<open>set (map fst (all_links paths')) \<subseteq> set xs\<close> \<open>set (map snd (all_links paths')) \<subseteq> set xs\<close> by blast+
    then show "case l of (a, b) \<Rightarrow> a \<in> set xs \<and> b \<in> set xs \<and> connects m a b"
      using links_cover [OF cover l] by (cases l) simp
  qed (use all_links_snd_distinct [OF d] in blast)+
  then have "length (all_links paths') \<le> length (all_links paths)"
    using inv by (intro links_at_total) (simp only: greedy_inv_def)
  moreover have pc: "path_cover m (mset xs) paths" and len: "length cs = length paths"
    using inv by (auto simp: greedy_inv_def dest: list_all2_lengthD)
  moreover have "length (concat ps) = length xs" if "path_cover m (mset xs) ps" for ps
    using that by (metis path_cover_def size_mset)
  ultimately show ?thesis
    using size_cover [OF ne [OF cover]] size_cover [OF ne [OF pc]] cover by fastforce
qed

section \<open>The circulations of a lot\<close>

interpretation placed_cmp: comparator comparePlaced
proof
  fix x y z :: placed_chain
  show "comparePlaced x y < 0 \<longleftrightarrow> 0 < comparePlaced y x"
    by (auto simp: comparePlaced_def Let_def compareText_def)
  show "comparePlaced x y \<le> 0 \<Longrightarrow> comparePlaced y z \<le> 0 \<Longrightarrow> comparePlaced x z \<le> 0"
    by (auto simp: comparePlaced_def Let_def compareText_def split: if_splits)
qed

lemma assignChain_ids:
  "mset (concat (map ccJourneyChainIds (assignChain l s m pc cs))) =
   add_mset (chJourneyChainId (pcChain pc)) (mset (concat (map ccJourneyChainIds cs)))"
proof (cases "availableIndex m (pcStart pc) cs")
  case None
  then show ?thesis by (simp add: assignChain_def extendCirculation_def newCirculation_def)
next
  case (Some i)
  note i = availableIndex_Some(1) [OF Some]
  have "cs = take i cs @ cs ! i # drop (Suc i) cs" using i by (rule id_take_nth_drop)
  then have "mset (concat (map ccJourneyChainIds cs)) =
      mset (concat (map ccJourneyChainIds (take i cs))) + mset (ccJourneyChainIds (cs ! i)) +
      mset (concat (map ccJourneyChainIds (drop (Suc i) cs)))"
    by (metis (no_types, lifting) concat.simps(2) concat_append list.simps(9) map_append mset_append union_assoc)
  moreover have "cs[i := extendCirculation pc (cs ! i)] = take i cs @ extendCirculation pc (cs ! i) # drop (Suc i) cs"
    using i by (rule upd_conv_take_nth_drop)
  ultimately show ?thesis using Some by (simp add: assignChain_def extendCirculation_def)
qed

lemma fold_assignChain_ids:
  "mset (concat (map ccJourneyChainIds (fold (assignChain l s m) pcs cs))) =
   mset (map (chJourneyChainId \<circ> pcChain) pcs) + mset (concat (map ccJourneyChainIds cs))"
  by (induction pcs arbitrary: cs) (simp_all add: assignChain_ids)

lemma placed_ids:
  assumes "map_res placeChain cs = Inr placed"
  shows "map pcChain placed = cs"
  using assms placeChain_ok by (intro nth_equalityI) (auto simp: map_res_Inr)

definition well_timed :: "journey_chain \<Rightarrow> bool" where
  "well_timed chain \<longleftrightarrow> (\<forall>s e. chain_endpoint chain Start = Inr s \<longrightarrow> chain_endpoint chain End = Inr e \<longrightarrow>
     epTimeS s \<le> epTimeS e)"

lemma placed_timely:
  assumes "map_res placeChain cs = Inr placed" and "distinct (map chJourneyChainId cs)"
    and "0 < m" and "\<forall>chain \<in> set cs. well_timed chain"
  shows "timely m (sort_by comparePlaced placed)"
proof -
  have "distinct placed"
    using assms(2) placed_ids [OF assms(1)] by (metis distinct_map)
  moreover have "placed_ok a \<and> epTimeS (pcStart a) \<le> epTimeS (pcEnd a)" if a: "a \<in> set placed" for a
  proof -
    obtain chain where c: "chain \<in> set cs" "placeChain chain = Inr a" using map_res_set [OF assms(1) a] by blast
    then have "chain_endpoint chain Start = Inr (pcStart a)" "chain_endpoint chain End = Inr (pcEnd a)"
      by (auto simp: placeChain_def res_simps)
    then have "epTimeS (pcStart a) \<le> epTimeS (pcEnd a)" using assms(4) c(1) by (simp add: well_timed_def)
    then show ?thesis using placeChain_ok [OF c(2)] by simp
  qed
  moreover have "sorted_wrt (\<lambda>a b. epTimeS (pcStart a) \<le> epTimeS (pcStart b)) (sort_by comparePlaced placed)"
    by (rule sorted_wrt_mono_rel [OF _ placed_cmp.sorted_sort_by])
      (auto simp: comparePlaced_def Let_def split: if_splits)
  ultimately show ?thesis using assms(3) by (simp add: timely_def)
qed

text \<open>
  C6: every chain of a lot is run by exactly one circulation, exactly once.
\<close>

theorem lot_circulations_partition:
  assumes "buildLotCirculations journeyChains lotId serviceLineId minimumTurnaroundS = Inr cs"
  shows "mset (concat (map ccJourneyChainIds cs)) = mset (map chJourneyChainId journeyChains)"
proof -
  obtain placed where placed: "map_res placeChain journeyChains = Inr placed"
    and cs: "cs = fold (assignChain lotId serviceLineId minimumTurnaroundS) (sort_by comparePlaced placed) []"
    using assms by (auto simp: buildLotCirculations_def res_simps)
  have "mset (concat (map ccJourneyChainIds cs)) = image_mset (chJourneyChainId \<circ> pcChain) (mset placed)"
    by (simp add: cs fold_assignChain_ids)
  also have "\<dots> = mset (map chJourneyChainId (map pcChain placed))" by simp
  finally show ?thesis by (simp add: placed_ids [OF placed])
qed


section \<open>A small lot\<close>

definition sample_leg :: "string \<Rightarrow> string \<Rightarrow> int \<Rightarrow> string \<Rightarrow> int \<Rightarrow> chain_leg" where
  "sample_leg i a dep b arr = \<lparr>lgKind = ''playable'', lgLegId = i,
     lgStops = [\<lparr>spStopId = a, spArrivalS = JNull, spDepartureS = JInt dep\<rparr>,
                \<lparr>spStopId = b, spArrivalS = JInt arr, spDepartureS = JNull\<rparr>],
     lgEntryPortalId = None, lgExitPortalId = None\<rparr>"

definition sample_chain :: "string \<Rightarrow> string \<Rightarrow> int \<Rightarrow> string \<Rightarrow> int \<Rightarrow> journey_chain" where
  "sample_chain i a dep b arr = \<lparr>chJourneyChainId = i, chLegs = [sample_leg (i @ ''-leg'') a dep b arr],
     chOrderable = True, chReleaseId = ''r1'', chRouteId = ''route'', chRouteShortName = ''RE 1''\<rparr>"

text \<open>Out and back, with a second vehicle in between.\<close>

definition sample_chains :: "journey_chain list" where
  "sample_chains = [sample_chain ''c1'' ''A'' 1000 ''B'' 2000, sample_chain ''c2'' ''B'' 2400 ''A'' 3400,
     sample_chain ''c3'' ''A'' 1500 ''B'' 2500]"

definition sample_circulations :: "circulation list" where
  "sample_circulations = projr (buildLotCirculations sample_chains ''L'' ''S'' 300)"

lemma sample_lot: "buildLotCirculations sample_chains ''L'' ''S'' 300 = Inr sample_circulations"
  "map ccJourneyChainIds sample_circulations = [[''c1'', ''c2''], [''c3'']]"
  by code_simp+

theorem lot_circulations_partition_witness:
  "mset (concat (map ccJourneyChainIds sample_circulations)) = mset (map chJourneyChainId sample_chains)"
  by (rule lot_circulations_partition [OF sample_lot(1)])

lemma sample_well_timed: "\<forall>chain \<in> set sample_chains. well_timed chain"
proof -
  have "\<forall>chain \<in> set sample_chains. case (chain_endpoint chain Start, chain_endpoint chain End) of
      (Inr s, Inr e) \<Rightarrow> epTimeS s \<le> epTimeS e | _ \<Rightarrow> True" by code_simp
  then show ?thesis by (fastforce simp: well_timed_def)
qed


end
