(* ===== verification/RolloverPairing.thy ===== *)
theory RolloverPairing
  imports DailyCirculation HungarianRounding
begin

text \<open>
  The pairing of the circulations of a lot over the day boundary (\<open>pairRollovers\<close>): a successful
  pairing is a permutation of the lot by admissible rollovers, and no permutation by admissible
  rollovers needs fewer transfers, since a transfer costs more than all other costs together.
\<close>

section \<open>Penalties\<close>

text \<open>
  A solver that minimises costs with a penalty above every sum of base costs minimises the number
  of penalised entries.
\<close>

context assignment_solver
begin

lemma fewest_penalties:
  assumes acc: "accepts costs" and sol: "solve costs = Inr ts" and alt: "finite_matching costs ts'"
    and entry: "\<And>i j. i < length costs \<Longrightarrow> j < length costs \<Longrightarrow> costs ! i ! j \<noteq> PosInf \<Longrightarrow>
      \<exists>x. 0 \<le> x \<and> x \<le> cap \<and> costs ! i ! j = Fin (x + (if flag i j then penalty else 0))"
    and big: "int (length costs) * cap < penalty" "0 \<le> cap"
  shows "card {i. i < length costs \<and> flag i (ts ! i)} \<le> card {i. i < length costs \<and> flag i (ts' ! i)}"
proof -
  let ?n = "length costs"
  have split: "int (card {i. i < ?n \<and> flag i (us ! i)}) * penalty \<le> matching_cost costs us"
    "matching_cost costs us \<le> int ?n * cap + int (card {i. i < ?n \<and> flag i (us ! i)}) * penalty"
    if us: "finite_matching costs us" for us
  proof -
    have e: "\<exists>x. 0 \<le> x \<and> x \<le> cap \<and> finite_value (costs ! i ! (us ! i)) = x + (if flag i (us ! i) then penalty else 0)"
      if i: "i < ?n" for i
    proof -
      have "is_finite (costs ! i ! (us ! i))" using us i by (simp add: finite_matching_def)
      then have "costs ! i ! (us ! i) \<noteq> PosInf" by auto
      from entry [OF i finite_matching_nth [OF us i] this] show ?thesis by auto
    qed
    have flags: "(\<Sum>i < ?n. if flag i (us ! i) then penalty else 0) = int (card {i. i < ?n \<and> flag i (us ! i)}) * penalty"
      by (subst sum.If_cases) (auto simp: Int_def conj_commute)
    have "(\<Sum>i < ?n. if flag i (us ! i) then penalty else 0) \<le> matching_cost costs us"
      unfolding matching_cost_def by (rule sum_mono) (use e in fastforce)
    then show "int (card {i. i < ?n \<and> flag i (us ! i)}) * penalty \<le> matching_cost costs us" by (simp only: flags)
    have "matching_cost costs us \<le> (\<Sum>i < ?n. cap + (if flag i (us ! i) then penalty else 0))"
      unfolding matching_cost_def by (rule sum_mono) (use e in fastforce)
    then show "matching_cost costs us \<le> int ?n * cap + int (card {i. i < ?n \<and> flag i (us ! i)}) * penalty"
      by (simp only: sum.distrib flags) simp
  qed
  let ?k = "int (card {i. i < ?n \<and> flag i (ts ! i)})" and ?k' = "int (card {i. i < ?n \<and> flag i (ts' ! i)})"
  have "?k * penalty \<le> matching_cost costs ts'"
    using split(1) [OF sound [OF sol]] least [OF acc sol alt] by linarith
  then have "?k * penalty < (?k' + 1) * penalty" using split(2) [OF alt] big(1) by (simp add: algebra_simps)
  moreover have "0 < penalty" using big by (smt (verit) mult_nonneg_nonneg of_nat_0_le_iff)
  ultimately show ?thesis by simp
qed

end

section \<open>The pairing of a lot\<close>

definition admissible ::
    "stations \<Rightarrow> int \<Rightarrow> int \<Rightarrow> transfer_cost \<Rightarrow> circulation \<Rightarrow> circulation \<Rightarrow> bool" where
  "admissible st r m tc source target \<longleftrightarrow> (\<exists>x. movementCost st r m tc source target = Inr (Fin x))"

text \<open>Costs at most \<open>cap\<close>, small enough for exact arithmetic on the penalised matrix.\<close>

definition pairing_size :: "circulation list \<Rightarrow> stations \<Rightarrow> int \<Rightarrow> int \<Rightarrow> transfer_cost \<Rightarrow> int \<Rightarrow> bool" where
  "pairing_size cs st r m tc cap \<longleftrightarrow> 0 \<le> cap \<and>
     (\<forall>a \<in> set cs. \<forall>b \<in> set cs. \<forall>x. movementCost st r m tc a b = Inr (Fin x) \<longrightarrow> x \<le> cap) \<and>
     is_safe ((int (length cs) + 1) * (cap + (cap + 1) * (int (length cs) + 1)))"

lemma movementCost_nonneg: "movementCost st r m tc a b = Inr (Fin x) \<Longrightarrow> 0 \<le> x"
  by (auto simp: movementCost_def Let_def accepted_cost_def res_simps coordinateCost_def
      split: if_splits option.splits jsval.splits)

lemma compareCirculation_id: "compareCirculation a b \<le> 0 \<longleftrightarrow> ccId a \<le> ccId b"
  by (simp add: compareCirculation_def compareText_le)

lemma length_remdups_distinct: "length (remdups xs) = n \<Longrightarrow> length xs = n \<Longrightarrow> distinct xs"
  by (metis set_size)

text \<open>What a successful pairing consists of.\<close>

definition rollover_costs :: "circulation list \<Rightarrow> int \<Rightarrow> jcost list list \<Rightarrow> jcost list list" where
  "rollover_costs ss penalty M =
     map (\<lambda>(source, row). map (\<lambda>(target, cost). penalizedCost penalty source target cost) (zip ss row)) (zip ss M)"

definition rollover_pair_of :: "circulation list \<Rightarrow> circulation \<Rightarrow> nat \<Rightarrow> rollover_pair" where
  "rollover_pair_of ss source j =
     \<lparr>rpSource = source, rpTarget = ss ! j, rpTransfer = \<not> samePhysicalEndpoint (ccEnd source) (ccStart (ss ! j))\<rparr>"

definition rollover_penalty :: "circulation list \<Rightarrow> jcost list list \<Rightarrow> int" where
  "rollover_penalty cs M = js_mul (js_add (Max (set (finiteCosts M))) 1) (int (length cs) + 1)"

lemma pairRollovers_eq:
  "pairRollovers cs st r m tc =
     (let ss = sort_by compareCirculation cs in
      bnd (map_res (\<lambda>source. map_res (movementCost st r m tc source) ss) ss) (\<lambda>M.
      invariant (finiteCosts M \<noteq> []) (NoRolloverEdge (ccLotId (hd cs)))
     (bnd (circInteger (JInt (rollover_penalty cs M)) (ccLotId (hd cs)) 1) (\<lambda>_.
      case hungarian (rollover_costs ss (rollover_penalty cs M) M) of
        Inl e \<Rightarrow> Inl (RolloverMatching e)
      | Inr ts \<Rightarrow> let assignments = sort_by compareRolloverPair (map2 (rollover_pair_of ss) ss ts) in
          invariant (length (remdups (map (ccId \<circ> rpSource) assignments)) = length cs) (BadRollover ''source'')
         (invariant (length (remdups (map (ccId \<circ> rpTarget) assignments)) = length cs) (BadRollover ''target'')
            (Inr assignments))))))"
  by (simp add: pairRollovers_def rollover_costs_def rollover_pair_of_def rollover_penalty_def Let_def case_prod_beta
      cong: if_cong sum.case_cong)

lemma pairRollovers_parts:
  assumes "pairRollovers cs st r m tc = Inr pairs"
  obtains M ts where
    "map_res (\<lambda>source. map_res (movementCost st r m tc source) (sort_by compareCirculation cs))
       (sort_by compareCirculation cs) = Inr M"
    "hungarian (rollover_costs (sort_by compareCirculation cs) (rollover_penalty cs M) M) = Inr ts"
    "pairs = sort_by compareRolloverPair
       (map2 (rollover_pair_of (sort_by compareCirculation cs)) (sort_by compareCirculation cs) ts)"
    "length (remdups (map (ccId \<circ> rpSource) pairs)) = length cs"
    "length (remdups (map (ccId \<circ> rpTarget) pairs)) = length cs"
    "finiteCosts M \<noteq> []"
proof -
  let ?ss = "sort_by compareCirculation cs"
  obtain M where M: "map_res (\<lambda>source. map_res (movementCost st r m tc source) ?ss) ?ss = Inr M"
    "finiteCosts M \<noteq> []"
    "(case hungarian (rollover_costs ?ss (rollover_penalty cs M) M) of
        Inl e \<Rightarrow> Inl (RolloverMatching e)
      | Inr ts \<Rightarrow> let assignments = sort_by compareRolloverPair (map2 (rollover_pair_of ?ss) ?ss ts) in
          invariant (length (remdups (map (ccId \<circ> rpSource) assignments)) = length cs) (BadRollover ''source'')
         (invariant (length (remdups (map (ccId \<circ> rpTarget) assignments)) = length cs) (BadRollover ''target'')
            (Inr assignments))) = Inr pairs"
    using assms unfolding pairRollovers_eq Let_def bnd_Inr invariant_Inr by blast
  show thesis
  proof (cases "hungarian (rollover_costs ?ss (rollover_penalty cs M) M)")
    case (Inl e)
    then show thesis using M(3) by simp
  next
    case (Inr ts)
    have p: "pairs = sort_by compareRolloverPair (map2 (rollover_pair_of ?ss) ?ss ts)"
      "length (remdups (map (ccId \<circ> rpSource) pairs)) = length cs"
      "length (remdups (map (ccId \<circ> rpTarget) pairs)) = length cs"
      using M(3) unfolding Inr Let_def sum.case invariant_Inr by auto
    show thesis by (rule that [OF M(1) Inr p M(2)])
  qed
qed

text \<open>The entries of the penalised matrix.\<close>

lemma rollover_costs_square:
  assumes "map_res (\<lambda>source. map_res (f source) ss) ss = Inr M"
  shows "length (rollover_costs ss penalty M) = length ss"
    "row \<in> set (rollover_costs ss penalty M) \<Longrightarrow> length row = length ss"
    "i < length ss \<Longrightarrow> j < length ss \<Longrightarrow> f (ss ! i) (ss ! j) = Inr (M ! i ! j)"
    "i < length ss \<Longrightarrow> j < length ss \<Longrightarrow>
       rollover_costs ss penalty M ! i ! j = penalizedCost penalty (ss ! i) (ss ! j) (M ! i ! j)"
proof -
  have M: "length M = length ss" "\<And>i. i < length ss \<Longrightarrow> map_res (f (ss ! i)) ss = Inr (M ! i)"
    using assms by (auto simp: map_res_Inr)
  then have M': "length (M ! i) = length ss" if "i < length ss" for i
    using that map_res_length by blast
  show "length (rollover_costs ss penalty M) = length ss" by (simp add: rollover_costs_def M)
  show "length row = length ss" if r: "row \<in> set (rollover_costs ss penalty M)"
  proof -
    obtain i where "i < length ss" "row = rollover_costs ss penalty M ! i"
      using r M(1) by (auto simp: in_set_conv_nth rollover_costs_def)
    then show ?thesis using M M' by (simp add: rollover_costs_def)
  qed
  show "i < length ss \<Longrightarrow> j < length ss \<Longrightarrow> f (ss ! i) (ss ! j) = Inr (M ! i ! j)"
    using M(2) by (auto simp: map_res_Inr)
  show "i < length ss \<Longrightarrow> j < length ss \<Longrightarrow>
       rollover_costs ss penalty M ! i ! j = penalizedCost penalty (ss ! i) (ss ! j) (M ! i ! j)"
    using M M' by (simp add: rollover_costs_def)
qed


interpretation circulation_order: comparator compareCirculation
  by unfold_locales (auto simp: compareCirculation_def compareText_neg compareText_pos compareText_le)

lemma rollover_pair_of_simps [simp]:
  "rpSource (rollover_pair_of ss s j) = s" "rpTarget (rollover_pair_of ss s j) = ss ! j"
  "rpTransfer (rollover_pair_of ss s j) \<longleftrightarrow> \<not> samePhysicalEndpoint (ccEnd s) (ccStart (ss ! j))"
  by (simp_all add: rollover_pair_of_def)

lemma penalizedCost_finite: "is_finite (penalizedCost penalty a b c) \<Longrightarrow> \<exists>x. c = Fin x"
  by (cases c) (auto simp: penalizedCost_def)

lemma matching_mset:
  assumes "finite_matching costs ts"
  shows "mset ts = mset [0..<length costs]"
proof -
  have "card (set ts) = length costs" "set ts \<subseteq> {..<length costs}"
    using assms by (auto simp: finite_matching_def distinct_card)
  then have "set ts = {..<length costs}" by (simp add: card_subset_eq)
  then have "set ts = set [0..<length costs]" by (auto simp: atLeast0LessThan)
  then show ?thesis
    using assms set_eq_iff_mset_eq_distinct [of ts "[0..<length costs]"] by (simp add: finite_matching_def)
qed

lemma pairs_of_matching:
  assumes res: "map_res (\<lambda>source. map_res (movementCost st r m tc source) ss) ss = Inr M"
    and ts: "finite_matching (rollover_costs ss penalty M) ts"
  shows "map rpSource (map2 (rollover_pair_of ss) ss ts) = ss"
    and "mset (map rpTarget (map2 (rollover_pair_of ss) ss ts)) = mset ss"
    and "p \<in> set (map2 (rollover_pair_of ss) ss ts) \<Longrightarrow> admissible st r m tc (rpSource p) (rpTarget p) \<and>
      (rpTransfer p \<longleftrightarrow> \<not> samePhysicalEndpoint (ccEnd (rpSource p)) (ccStart (rpTarget p)))"
proof -
  note sq = rollover_costs_square [OF res]
  have len: "length ts = length ss" using ts sq(1) by (simp add: finite_matching_def)
  show "map rpSource (map2 (rollover_pair_of ss) ss ts) = ss" using len by (simp add: list_eq_iff_nth_eq)
  have "map rpTarget (map2 (rollover_pair_of ss) ss ts) = map ((!) ss) ts" using len by (simp add: list_eq_iff_nth_eq)
  then have "mset (map rpTarget (map2 (rollover_pair_of ss) ss ts)) = image_mset ((!) ss) (mset [0..<length ss])"
    using matching_mset [OF ts] sq(1) by (metis mset_map)
  also have "\<dots> = mset (map ((!) ss) [0..<length ss])" by (simp only: mset_map)
  finally show "mset (map rpTarget (map2 (rollover_pair_of ss) ss ts)) = mset ss" by (simp only: map_nth)
  show "p \<in> set (map2 (rollover_pair_of ss) ss ts) \<Longrightarrow> admissible st r m tc (rpSource p) (rpTarget p) \<and>
      (rpTransfer p \<longleftrightarrow> \<not> samePhysicalEndpoint (ccEnd (rpSource p)) (ccStart (rpTarget p)))"
  proof -
    assume "p \<in> set (map2 (rollover_pair_of ss) ss ts)"
    then obtain i where i: "i < length ss" "p = rollover_pair_of ss (ss ! i) (ts ! i)"
      using len by (auto simp: in_set_conv_nth)
    have j: "ts ! i < length ss" using finite_matching_nth [OF ts, of i] i(1) sq(1) by simp
    have "is_finite (rollover_costs ss penalty M ! i ! (ts ! i))" using ts i(1) sq(1) by (simp add: finite_matching_def)
    then obtain x where "M ! i ! (ts ! i) = Fin x" using sq(4) [OF i(1) j] penalizedCost_finite by metis
    then show ?thesis using sq(3) [OF i(1) j] i(2) by (auto simp: admissible_def)
  qed
qed

lemma rollovers_admissible:
  assumes "pairRollovers cs st r m tc = Inr pairs"
  shows "mset (map rpSource pairs) = mset cs" and "mset (map rpTarget pairs) = mset cs"
    and "p \<in> set pairs \<Longrightarrow> admissible st r m tc (rpSource p) (rpTarget p) \<and>
      (rpTransfer p \<longleftrightarrow> \<not> samePhysicalEndpoint (ccEnd (rpSource p)) (ccStart (rpTarget p)))"
proof -
  let ?ss = "sort_by compareCirculation cs"
  from assms obtain M ts where M: "map_res (\<lambda>source. map_res (movementCost st r m tc source) ?ss) ?ss = Inr M"
    and h: "hungarian (rollover_costs ?ss (rollover_penalty cs M) M) = Inr ts"
    and p: "pairs = sort_by compareRolloverPair (map2 (rollover_pair_of ?ss) ?ss ts)"
    by (rule pairRollovers_parts)
  note pm = pairs_of_matching [OF M hungarian_solver.sound [OF h]]
  have "mset (map rpSource pairs) = mset (map rpSource (map2 (rollover_pair_of ?ss) ?ss ts))"
    by (simp only: p mset_map mset_sort_by)
  then show "mset (map rpSource pairs) = mset cs" by (simp only: pm(1) mset_sort_by)
  have "mset (map rpTarget pairs) = mset (map rpTarget (map2 (rollover_pair_of ?ss) ?ss ts))"
    by (simp only: p mset_map mset_sort_by)
  then show "mset (map rpTarget pairs) = mset cs" by (simp only: pm(2) mset_sort_by)
  show "p \<in> set pairs \<Longrightarrow> admissible st r m tc (rpSource p) (rpTarget p) \<and>
      (rpTransfer p \<longleftrightarrow> \<not> samePhysicalEndpoint (ccEnd (rpSource p)) (ccStart (rpTarget p)))"
    by (rule pm(3)) (simp only: p set_sort_by)
qed

section \<open>The fewest transfers\<close>

lemma penalized_entry:
  assumes size: "pairing_size cs st r m tc cap" and M: "0 \<le> b" "b \<le> cap"
    and c: "c = Fin x" "0 \<le> x" "x \<le> b"
  shows "penalizedCost ((b + 1) * (int (length cs) + 1)) s t c =
      Fin (x + (if \<not> samePhysicalEndpoint (ccEnd s) (ccStart t) then (b + 1) * (int (length cs) + 1) else 0))"
    "x + (b + 1) * (int (length cs) + 1) \<le> cap + (cap + 1) * (int (length cs) + 1)"
    "is_safe (cap + (cap + 1) * (int (length cs) + 1))"
proof -
  let ?n = "int (length cs) + 1"
  let ?c = "cap + (cap + 1) * ?n"
  have "(b + 1) * ?n \<le> (cap + 1) * ?n" using M by (intro mult_right_mono) auto
  then show le: "x + (b + 1) * ?n \<le> ?c" by (intro add_mono) (use c M in auto)
  have nn: "0 \<le> (b + 1) * ?n" "0 \<le> ?c" using M by auto
  then have "?c * 1 \<le> ?c * ?n" by (intro mult_left_mono) auto
  moreover have "is_safe (?n * ?c)" using size by (simp add: pairing_size_def)
  ultimately show safe: "is_safe ?c" using nn(2) unfolding is_safe_def mult.commute [of ?n ?c] mult_1_right by (smt (verit))
  have s1: "is_safe (x + (b + 1) * ?n)" using safe le nn(1) c(2) unfolding is_safe_def by linarith
  have s2: "is_safe x" using s1 nn(1) c(2) unfolding is_safe_def by linarith
  show "penalizedCost ((b + 1) * ?n) s t c =
      Fin (x + (if \<not> samePhysicalEndpoint (ccEnd s) (ccStart t) then (b + 1) * ?n else 0))"
    using s1 s2 by (simp add: penalizedCost_def c(1) js_add_def)
qed


lemma finiteCosts_nth:
  assumes "map_res (\<lambda>source. map_res (f source) ss) ss = Inr M" and "x \<in> set (finiteCosts M)"
  obtains i j where "i < length ss" "j < length ss" "M ! i ! j = Fin x"
proof -
  obtain row where row: "row \<in> set M" "Fin x \<in> set row"
    using assms(2) by (auto simp: finiteCosts_def split: jcost.splits)
  obtain s where s: "s \<in> set ss" "map_res (f s) ss = Inr row" using map_res_set [OF assms(1) row(1)] by blast
  obtain i where i: "i < length M" "M ! i = row" using row(1) by (auto simp: in_set_conv_nth)
  obtain j where j: "j < length row" "row ! j = Fin x" using row(2) by (auto simp: in_set_conv_nth)
  show thesis by (rule that [of i j]) (use i j map_res_length [OF assms(1)] map_res_length [OF s(2)] in auto)
qed

lemma finiteCosts_mem:
  assumes "map_res (\<lambda>source. map_res (f source) ss) ss = Inr M"
    and "i < length ss" "j < length ss" "M ! i ! j = Fin x"
  shows "x \<in> set (finiteCosts M)"
proof -
  have i: "i < length M" "map_res (f (ss ! i)) ss = Inr (M ! i)" using assms(1,2) by (auto simp: map_res_Inr)
  have "j < length (M ! i)" using map_res_length [OF i(2)] assms(3) by simp
  then have "M ! i \<in> set M" "Fin x \<in> set (M ! i)" using i assms(4) by (auto simp: in_set_conv_nth)
  then show ?thesis unfolding finiteCosts_def by force
qed

text \<open>The penalised matrix is one the solver accepts, and its entries are exact.\<close>

lemma rollover_matrix:
  fixes cs cap
  defines "ss \<equiv> sort_by compareCirculation cs"
  assumes size: "pairing_size cs st r m tc cap"
    and res: "map_res (\<lambda>source. map_res (movementCost st r m tc source) ss) ss = Inr M"
    and fin: "finiteCosts M \<noteq> []"
  obtains b where "0 \<le> b" "rollover_penalty cs M = (b + 1) * (int (length cs) + 1)"
    "is_safe (rollover_penalty cs M)"
    "\<And>i j x. i < length ss \<Longrightarrow> j < length ss \<Longrightarrow> M ! i ! j = Fin x \<Longrightarrow> 0 \<le> x \<and> x \<le> b \<and>
       rollover_costs ss (rollover_penalty cs M) M ! i ! j =
         Fin (x + (if \<not> samePhysicalEndpoint (ccEnd (ss ! i)) (ccStart (ss ! j)) then rollover_penalty cs M else 0))"
    "solvable_size (rollover_costs ss (rollover_penalty cs M) M) (cap + (cap + 1) * (int (length cs) + 1))"
proof -
  let ?n = "int (length cs) + 1" and ?b = "Max (set (finiteCosts M))"
  let ?P = "(?b + 1) * ?n" and ?c = "cap + (cap + 1) * ?n"
  have len: "length ss = length cs" and set: "set ss = set cs" by (simp_all add: ss_def)
  note sq = rollover_costs_square [OF res]
  have range: "0 \<le> x \<and> x \<le> cap" if x: "x \<in> set (finiteCosts M)" for x
  proof -
    obtain i j where ij: "i < length ss" "j < length ss" "M ! i ! j = Fin x" by (rule finiteCosts_nth [OF res x])
    have mem: "ss ! i \<in> set cs" "ss ! j \<in> set cs" using ij set nth_mem by blast+
    have c: "movementCost st r m tc (ss ! i) (ss ! j) = Inr (Fin x)" using sq(3) [OF ij(1,2)] ij(3) by simp
    show ?thesis using movementCost_nonneg [OF c] size mem c by (auto simp: pairing_size_def)
  qed
  have bmem: "?b \<in> set (finiteCosts M)" using fin by simp
  then have b: "0 \<le> ?b" "?b \<le> cap" using range by auto
  note pe0 = penalized_entry [OF size b, of "Fin 0" 0, OF refl order_refl b(1)]
  have Psafe: "is_safe ?P"
  proof -
    have "0 \<le> ?P" using b(1) by simp
    then show ?thesis using pe0(2,3) unfolding is_safe_def by linarith
  qed
  moreover have "(?b + 1) * 1 \<le> ?P" using b(1) by (intro mult_left_mono) auto
  then have "?b + 1 \<le> ?P" by simp
  ultimately have "is_safe (?b + 1)" using b(1) unfolding is_safe_def by linarith
  then have pen: "rollover_penalty cs M = ?P"
    using Psafe by (simp add: rollover_penalty_def js_mul_def js_add_def)
  have entry: "0 \<le> x \<and> x \<le> ?b \<and> rollover_costs ss (rollover_penalty cs M) M ! i ! j =
         Fin (x + (if \<not> samePhysicalEndpoint (ccEnd (ss ! i)) (ccStart (ss ! j)) then rollover_penalty cs M else 0))"
    if ij: "i < length ss" "j < length ss" "M ! i ! j = Fin x" for i j x
  proof -
    have x: "x \<in> set (finiteCosts M)" by (rule finiteCosts_mem [OF res ij])
    then have xb: "0 \<le> x" "x \<le> ?b" using range by auto
    show ?thesis using xb penalized_entry(1) [OF size b ij(3) xb] sq(4) [OF ij(1,2)] unfolding pen by simp
  qed
  let ?costs = "rollover_costs ss (rollover_penalty cs M) M"
  have nonempty: "ss \<noteq> []" using fin res by (auto simp: finiteCosts_def)
  have sqr: "square ?costs" unfolding square_def
  proof (intro conjI ballI)
    show "?costs \<noteq> []" using sq(1) nonempty by (metis length_0_conv)
    show "length row = length ?costs" if "row \<in> set ?costs" for row using sq(1) sq(2) [OF that] by simp
  qed
  have "0 \<le> y \<and> y \<le> ?c" if row: "row \<in> set ?costs" "Fin y \<in> set row" for row y
  proof -
    obtain i where i: "i < length ss" "row = ?costs ! i" using row(1) sq(1) by (metis in_set_conv_nth)
    obtain j where j: "j < length ss" "?costs ! i ! j = Fin y"
      using row(2) i sq(2) [OF row(1)] by (metis in_set_conv_nth)
    show ?thesis
    proof (cases "M ! i ! j")
      case (Fin x)
      have e: "0 \<le> x" "x \<le> ?b" "y = x + (if \<not> samePhysicalEndpoint (ccEnd (ss ! i)) (ccStart (ss ! j)) then ?P else 0)"
        using entry [OF i(1) j(1) Fin] j(2) pen by auto
      have "0 \<le> ?P" using b(1) by simp
      then show ?thesis using e penalized_entry(2) [OF size b refl e(1,2)] by (smt (verit))
    next
      case PosInf
      then show ?thesis using sq(4) [OF i(1) j(1)] j(2) by (simp add: penalizedCost_def)
    qed
  qed
  then have cu: "costs_upto ?costs ?c" unfolding costs_upto_def by fastforce
  have "0 \<le> ?c" using b by simp
  moreover have "is_safe ((int (length ?costs) + 1) * ?c)" using size sq(1) len by (simp add: pairing_size_def)
  ultimately have solv: "solvable_size ?costs ?c" using sqr cu by (simp add: solvable_size_def)
  have "is_safe (rollover_penalty cs M)" by (simp only: pen Psafe)
  then show thesis by (rule that [OF b(1) pen _ entry solv])
qed


lemma card_nth:
  assumes "distinct xs"
  shows "card {i. i < length xs \<and> P (xs ! i)} = card {x \<in> set xs. P x}"
proof -
  have "bij_betw ((!) xs) {i. i < length xs \<and> P (xs ! i)} {x \<in> set xs. P x}"
    by (rule bij_betw_imageI) (use assms in \<open>auto simp: inj_on_def nth_eq_iff_index_eq in_set_conv_nth\<close>)
  then show ?thesis by (rule bij_betw_same_card)
qed

text \<open>A permutation of the elements of a list, as a list of positions.\<close>

lemma positions_of_bij:
  assumes "distinct xs" and "bij_betw f (set xs) (set xs)"
  obtains ts where "length ts = length xs" "distinct ts" "set ts \<subseteq> {..<length xs}"
    "\<And>i. i < length xs \<Longrightarrow> xs ! (ts ! i) = f (xs ! i)"
proof -
  have "\<exists>j < length xs. xs ! j = f (xs ! i)" if "i < length xs" for i
  proof -
    have "f (xs ! i) \<in> set xs" using assms(2) that bij_betwE nth_mem by blast
    then show ?thesis by (simp add: in_set_conv_nth)
  qed
  then obtain g where g: "\<And>i. i < length xs \<Longrightarrow> g i < length xs \<and> xs ! g i = f (xs ! i)" by metis
  have "inj_on g {..<length xs}"
  proof (rule inj_onI)
    fix i j assume ij: "i \<in> {..<length xs}" "j \<in> {..<length xs}" "g i = g j"
    then have "f (xs ! i) = f (xs ! j)" using g by (metis lessThan_iff)
    then have "xs ! i = xs ! j" using assms(2) ij by (metis bij_betw_imp_inj_on inj_on_eq_iff lessThan_iff nth_mem)
    then show "i = j" using assms(1) ij by (simp add: nth_eq_iff_index_eq)
  qed
  then have "distinct (map g [0..<length xs])" by (simp add: distinct_map atLeast0LessThan)
  then show thesis by (intro that [of "map g [0..<length xs]"]) (use g in auto)
qed

lemma rollovers_fewest:
  assumes size: "pairing_size cs st r m tc cap" and res: "pairRollovers cs st r m tc = Inr pairs"
    and f: "bij_betw f (set cs) (set cs)" "\<And>c. c \<in> set cs \<Longrightarrow> admissible st r m tc c (f c)"
  shows "length (filter rpTransfer pairs) \<le>
    card {c \<in> set cs. \<not> samePhysicalEndpoint (ccEnd c) (ccStart (f c))}"
proof -
  let ?ss = "sort_by compareCirculation cs"
  obtain M ts where M: "map_res (\<lambda>source. map_res (movementCost st r m tc source) ?ss) ?ss = Inr M"
    and h: "hungarian (rollover_costs ?ss (rollover_penalty cs M) M) = Inr ts"
    and p: "pairs = sort_by compareRolloverPair (map2 (rollover_pair_of ?ss) ?ss ts)"
    and ids: "length (remdups (map (ccId \<circ> rpSource) pairs)) = length cs"
    and fin: "finiteCosts M \<noteq> []"
    by (rule pairRollovers_parts [OF res])
  obtain b where b: "0 \<le> b" "rollover_penalty cs M = (b + 1) * (int (length cs) + 1)"
    "is_safe (rollover_penalty cs M)"
    and entry: "\<And>i j x. i < length ?ss \<Longrightarrow> j < length ?ss \<Longrightarrow> M ! i ! j = Fin x \<Longrightarrow> 0 \<le> x \<and> x \<le> b \<and>
       rollover_costs ?ss (rollover_penalty cs M) M ! i ! j =
         Fin (x + (if \<not> samePhysicalEndpoint (ccEnd (?ss ! i)) (ccStart (?ss ! j)) then rollover_penalty cs M else 0))"
    and solv: "solvable_size (rollover_costs ?ss (rollover_penalty cs M) M) (cap + (cap + 1) * (int (length cs) + 1))"
    using rollover_matrix [OF size M fin] by blast
  let ?costs = "rollover_costs ?ss (rollover_penalty cs M) M" and ?n = "length ?ss"
  note sq = rollover_costs_square [OF M]
  note ts = hungarian_solver.sound [OF h]
  have lenp: "length pairs = length cs" by (metis mset_map rollovers_admissible(1) [OF res] size_mset length_map)
  have ids': "distinct (map (ccId \<circ> rpSource) pairs)" using ids lenp by (metis length_map set_size)
  have "distinct (map rpSource pairs)" using ids' by (metis distinct_map map_map)
  then have dist: "distinct ?ss" by (metis distinct_sort_by mset_eq_imp_distinct_iff rollovers_admissible(1) [OF res])
  have "bij_betw f (set ?ss) (set ?ss)" using f(1) by simp
  then obtain ts' where ts': "length ts' = ?n" "distinct ts'" "set ts' \<subseteq> {..<?n}"
    "\<And>i. i < ?n \<Longrightarrow> ?ss ! (ts' ! i) = f (?ss ! i)"
    using positions_of_bij [OF dist] by metis
  have j: "ts' ! i < ?n" if "i < ?n" for i using ts'(1,3) that by (metis lessThan_iff nth_mem subsetD)
  have "is_finite (?costs ! i ! (ts' ! i))" if i: "i < ?n" for i
  proof -
    have "?ss ! i \<in> set cs" using i nth_mem by (metis set_sort_by)
    then obtain x where "movementCost st r m tc (?ss ! i) (f (?ss ! i)) = Inr (Fin x)"
      using f(2) by (auto simp: admissible_def)
    then have "M ! i ! (ts' ! i) = Fin x" using sq(3) [OF i j [OF i]] ts'(4) [OF i] by simp
    then show ?thesis using entry [OF i j [OF i]] by simp
  qed
  then have alt: "finite_matching ?costs ts'" using ts' sq(1) by (simp add: finite_matching_def)
  let ?flag = "\<lambda>i j. \<not> samePhysicalEndpoint (ccEnd (?ss ! i)) (ccStart (?ss ! j))"
  have few: "card {i. i < length ?costs \<and> ?flag i (ts ! i)} \<le> card {i. i < length ?costs \<and> ?flag i (ts' ! i)}"
  proof (rule hungarian_solver.fewest_penalties [OF _ h alt, where cap = b and penalty = "rollover_penalty cs M"])
    show "\<exists>c. solvable_size ?costs c" using solv by blast
    show "\<exists>x. 0 \<le> x \<and> x \<le> b \<and> ?costs ! i ! j = Fin (x + (if ?flag i j then rollover_penalty cs M else 0))"
      if ij: "i < length ?costs" "j < length ?costs" "?costs ! i ! j \<noteq> PosInf" for i j
    proof -
      have ij': "i < ?n" "j < ?n" using ij sq(1) by simp_all
      obtain x where "M ! i ! j = Fin x"
        using ij(3) sq(4) [OF ij'] by (cases "M ! i ! j") (auto simp: penalizedCost_def)
      then show ?thesis using entry [OF ij'] by blast
    qed
    have "int (length cs) * b < (int (length cs) + 1) * (b + 1)" using b(1) by (simp add: algebra_simps)
    then show "int (length ?costs) * b < rollover_penalty cs M" using b(2) sq(1) by (simp add: mult.commute)
    show "0 \<le> b" by (rule b)
  qed
  have "length (filter rpTransfer pairs) = size (filter_mset rpTransfer (mset (map2 (rollover_pair_of ?ss) ?ss ts)))"
    by (simp only: p size_mset [symmetric] mset_filter mset_sort_by)
  also have "\<dots> = length (filter rpTransfer (map2 (rollover_pair_of ?ss) ?ss ts))"
    by (simp only: size_mset [symmetric] mset_filter)
  also have "\<dots> = card {i. i < ?n \<and> ?flag i (ts ! i)}"
    unfolding length_filter_conv_card using ts sq(1) by (intro arg_cong [of _ _ card]) (auto simp: finite_matching_def)
  finally have l: "length (filter rpTransfer pairs) = card {i. i < ?n \<and> ?flag i (ts ! i)}" .
  have "card {i. i < ?n \<and> ?flag i (ts' ! i)} =
      card {i. i < ?n \<and> \<not> samePhysicalEndpoint (ccEnd (?ss ! i)) (ccStart (f (?ss ! i)))}"
    using ts'(4) by (intro arg_cong [of _ _ card]) auto
  also have "\<dots> = card {c \<in> set ?ss. \<not> samePhysicalEndpoint (ccEnd c) (ccStart (f c))}" by (rule card_nth [OF dist])
  finally show ?thesis using few l sq(1) by simp
qed


section \<open>Properties\<close>

text \<open>C9: A successful pairing makes every circulation of the lot the source of exactly one and the target of exactly
  one rollover; every rollover is admissible (the turnaround time or a transfer window with a cost),
  and it is marked as a transfer exactly when the end points differ physically.\<close>

theorem rollovers_permutation:
  assumes "pairRollovers circulations stationById repeatEveryS minimumTurnaroundS transferCost = Inr pairs"
  shows "mset (map rpSource pairs) = mset circulations \<and> mset (map rpTarget pairs) = mset circulations \<and>
    distinct (map (ccId \<circ> rpSource) pairs) \<and> distinct (map (ccId \<circ> rpTarget) pairs) \<and>
    (\<forall>p \<in> set pairs. admissible stationById repeatEveryS minimumTurnaroundS transferCost (rpSource p) (rpTarget p) \<and>
       (rpTransfer p \<longleftrightarrow> \<not> samePhysicalEndpoint (ccEnd (rpSource p)) (ccStart (rpTarget p))))"
proof -
  note ra = rollovers_admissible [OF assms]
  have "length pairs = length circulations" by (metis mset_map ra(1) size_mset length_map)
  moreover obtain "length (remdups (map (ccId \<circ> rpSource) pairs)) = length circulations"
    "length (remdups (map (ccId \<circ> rpTarget) pairs)) = length circulations"
    by (rule pairRollovers_parts [OF assms]) blast
  ultimately have "distinct (map (ccId \<circ> rpSource) pairs)" "distinct (map (ccId \<circ> rpTarget) pairs)"
    by (metis length_map set_size)+
  then show ?thesis using ra by blast
qed

definition endpoint_at :: "string \<Rightarrow> int \<Rightarrow> endpoint" where
  "endpoint_at stop t = \<lparr>epLegId = ''leg'', epRouteVersionId = ''route:gtfs:leg:v1'', epLocationId = stop,
     epPhysicalStopId = stop, epTimeS = t\<rparr>"

definition circulation_between :: "string \<Rightarrow> string \<Rightarrow> string \<Rightarrow> circulation" where
  "circulation_between i a b = \<lparr>ccId = i, ccLotId = ''lot'', ccServiceLineId = ''line'', ccAssetKey = ''lot'',
     ccJourneyChainIds = [i], ccLegIds = [''leg''], ccTrainRunIds = [i], ccStart = endpoint_at a 21600,
     ccEnd = endpoint_at b 72000\<rparr>"

definition lot_of_two :: "circulation list" where
  "lot_of_two = [circulation_between ''c1'' ''A'' ''B'', circulation_between ''c2'' ''C'' ''A'']"

definition three_stations :: stations where
  "three_stations = [(''A'', 500000000, 80000000), (''B'', 500100000, 80000000), (''C'', 500100000, 80200000)]"

definition sample_pairs :: "rollover_pair list" where
  "sample_pairs =
     [\<lparr>rpSource = circulation_between ''c1'' ''A'' ''B'', rpTarget = circulation_between ''c2'' ''C'' ''A'', rpTransfer = True\<rparr>,
      \<lparr>rpSource = circulation_between ''c2'' ''C'' ''A'', rpTarget = circulation_between ''c1'' ''A'' ''B'', rpTransfer = False\<rparr>]"

lemma sample_pairing: "pairRollovers lot_of_two three_stations 86400 300 None = Inr sample_pairs"
  by code_simp

theorem rollovers_permutation_witness:
  "mset (map rpSource sample_pairs) = mset lot_of_two"
  using rollovers_permutation [OF sample_pairing] by simp

text \<open>C10: No permutation of the lot by admissible rollovers needs fewer transfers than the pairing the code finds,
  when the costs are bounded so that the penalised matrix stays in the safe integers.\<close>

theorem rollovers_fewest_transfers:
  assumes "pairing_size circulations stationById repeatEveryS minimumTurnaroundS transferCost cap"
    and "pairRollovers circulations stationById repeatEveryS minimumTurnaroundS transferCost = Inr pairs"
    and "bij_betw f (set circulations) (set circulations)"
    and "\<And>c. c \<in> set circulations \<Longrightarrow>
      admissible stationById repeatEveryS minimumTurnaroundS transferCost c (f c)"
  shows "length (filter rpTransfer pairs) \<le>
    card {c \<in> set circulations. \<not> samePhysicalEndpoint (ccEnd c) (ccStart (f c))}"
  by (rule rollovers_fewest [OF assms])

definition cost_within :: "int \<Rightarrow> circulation_error + jcost \<Rightarrow> bool" where
  "cost_within cap r \<longleftrightarrow> (case r of Inl e \<Rightarrow> True | Inr c \<Rightarrow> (case c of PosInf \<Rightarrow> True | Fin x \<Rightarrow> x \<le> cap))"

lemma sample_pairing_size: "pairing_size lot_of_two three_stations 86400 300 None 10000000000"
proof -
  have "\<forall>x \<in> set lot_of_two. \<forall>y \<in> set lot_of_two.
      cost_within 10000000000 (movementCost three_stations 86400 300 None x y)" by code_simp
  moreover have "cost_within cap r \<Longrightarrow> r = Inr (Fin x) \<Longrightarrow> x \<le> cap" for cap r x by (simp add: cost_within_def)
  ultimately have "\<forall>a \<in> set lot_of_two. \<forall>b \<in> set lot_of_two. \<forall>x.
      movementCost three_stations 86400 300 None a b = Inr (Fin x) \<longrightarrow> x \<le> 10000000000" by blast
  then show ?thesis by (simp add: pairing_size_def is_safe_def lot_of_two_def)
qed

text \<open>The pairing that keeps both circulations: one rollover from \<open>B\<close> to \<open>A\<close>, one from \<open>A\<close> to \<open>C\<close>.\<close>

lemma sample_admissible:
  assumes "c \<in> set lot_of_two"
  shows "admissible three_stations 86400 300 None c c"
proof -
  have "movementCost three_stations 86400 300 None (circulation_between ''c1'' ''A'' ''B'') (circulation_between ''c1'' ''A'' ''B'') =
      Inr (Fin 100000)"
    "movementCost three_stations 86400 300 None (circulation_between ''c2'' ''C'' ''A'') (circulation_between ''c2'' ''C'' ''A'') =
      Inr (Fin 300000)" by code_simp+
  then show ?thesis using assms by (auto simp: admissible_def lot_of_two_def)
qed

theorem rollovers_fewest_transfers_witness:
  "length (filter rpTransfer sample_pairs) \<le>
    card {c \<in> set lot_of_two. \<not> samePhysicalEndpoint (ccEnd c) (ccStart (id c))}"
proof (rule rollovers_fewest_transfers [OF sample_pairing_size sample_pairing bij_betw_id])
  show "admissible three_stations 86400 300 None c (id c)" if "c \<in> set lot_of_two" for c
    using sample_admissible [OF that] by simp
qed

section \<open>The solver\<close>

text \<open>C8: On square matrices of bounded non-negative costs the solver returns a perfect matching of least cost exactly
  when a perfect matching over finite costs exists, and it never runs out of steps.\<close>

theorem hungarian_optimal:
  assumes "solvable_size costs c"
  shows "(case hungarian costs of
      Inr targetBySource \<Rightarrow> finite_matching costs targetBySource \<and>
        (\<forall>ts. finite_matching costs ts \<longrightarrow> matching_cost costs targetBySource \<le> matching_cost costs ts)
    | Inl e \<Rightarrow> e \<noteq> MatchingFuel \<and> (\<nexists>ts. finite_matching costs ts))"
proof (cases "hungarian costs")
  case (Inl e)
  then have "e \<noteq> MatchingFuel" using hungarian_ends [of costs] by auto
  then show ?thesis using Inl hungarian_solver.fails_iff [of costs] assms by auto
next
  case (Inr ts)
  have acc: "\<exists>c. solvable_size costs c" using assms by blast
  show ?thesis using hungarian_solver.sound [OF Inr] hungarian_solver.least [OF acc Inr] by (simp add: Inr)
qed

definition sample_costs :: "jcost list list" where
  "sample_costs = [[Fin 4, Fin 1, PosInf], [Fin 2, PosInf, Fin 5], [PosInf, Fin 3, Fin 3]]"

theorem hungarian_optimal_witness:
  "hungarian sample_costs = Inr [1, 0, 2] \<and>
   matching_cost sample_costs [1, 0, 2] \<le> matching_cost sample_costs [0, 2, 1]"
proof -
  have "solvable_size sample_costs 5"
    by (auto simp: solvable_size_def square_def costs_upto_def sample_costs_def is_safe_def)
  note hungarian_optimal [OF this]
  moreover have "hungarian sample_costs = Inr [1, 0, 2]" by code_simp
  moreover have "finite_matching sample_costs [0, 2, 1]"
    by (simp add: finite_matching_def sample_costs_def All_less_Suc numeral_3_eq_3)
  ultimately show ?thesis by simp
qed

end
