(* ===== verification/RolloverCycles.thy ===== *)
theory RolloverCycles
  imports DailyPlan
begin

text \<open>
  The cycles of the rollover permutation (\<open>dailyRolloverCycles\<close>): for a plan that passes the checks
  the walk never leaves the circulations that are left, so every circulation lies on exactly one
  cycle, and each cycle follows the rollovers and closes.
\<close>

declare walkCycle.simps [simp del]

section \<open>Walking one cycle\<close>

definition successors_within :: "(string \<times> string) list \<Rightarrow> string set \<Rightarrow> bool" where
  "successors_within m U \<longleftrightarrow> (\<forall>x \<in> U. \<exists>y \<in> U. map_of m x = Some y) \<and>
     (\<forall>x y z. map_of m x = Some z \<longrightarrow> map_of m y = Some z \<longrightarrow> x = y)"

definition on_walk :: "(string \<times> string) list \<Rightarrow> string \<Rightarrow> string list \<Rightarrow> string \<Rightarrow> bool" where
  "on_walk m seed cycle current \<longleftrightarrow> distinct cycle \<and> (cycle @ [current]) ! 0 = seed \<and>
     (\<forall>i < length cycle. map_of m (cycle ! i) = Some ((cycle @ [current]) ! Suc i))"

definition rollover_cycle :: "(string \<times> string) list \<Rightarrow> string list \<Rightarrow> bool" where
  "rollover_cycle m cycle \<longleftrightarrow> cycle \<noteq> [] \<and> distinct cycle \<and>
     (\<forall>i < length cycle. map_of m (cycle ! i) = Some (cycle ! (Suc i mod length cycle)))"

text \<open>The walk can only meet its start again.\<close>

lemma walk_returns:
  assumes "successors_within m U" and "on_walk m seed cycle current" and "current \<in> set cycle"
  shows "current = seed"
proof -
  obtain k where k: "k < length cycle" "cycle ! k = current" using assms(3) by (auto simp: in_set_conv_nth)
  show ?thesis
  proof (cases k)
    case 0
    then show ?thesis using k assms(2) by (auto simp: on_walk_def nth_append)
  next
    case (Suc j)
    let ?l = "length cycle - 1"
    have l: "?l < length cycle" using k by simp
    have "map_of m (cycle ! j) = Some current" using assms(2) k Suc by (auto simp: on_walk_def nth_append)
    moreover have "map_of m (cycle ! ?l) = Some current"
    proof -
      have "map_of m (cycle ! ?l) = Some ((cycle @ [current]) ! Suc ?l)" using assms(2) l by (simp add: on_walk_def)
      moreover have "Suc ?l = length cycle" using l by simp
      ultimately show ?thesis by (simp only: nth_append_length)
    qed
    ultimately have "cycle ! j = cycle ! ?l" using assms(1) by (auto simp: successors_within_def)
    then have "j = ?l" using assms(2) k Suc l by (simp add: on_walk_def nth_eq_iff_index_eq)
    then show ?thesis using k Suc by simp
  qed
qed

lemma walk_closes:
  assumes "on_walk m seed cycle seed" and "cycle \<noteq> []"
  shows "rollover_cycle m cycle" and "hd cycle = seed"
proof -
  have hd: "cycle ! 0 = seed" using assms by (auto simp: on_walk_def nth_append)
  then show "hd cycle = seed" using assms(2) by (simp add: hd_conv_nth)
  have "map_of m (cycle ! i) = Some (cycle ! (Suc i mod length cycle))" if i: "i < length cycle" for i
  proof (cases "Suc i = length cycle")
    case True
    then show ?thesis using assms(1) i hd by (auto simp: on_walk_def nth_append)
  next
    case False
    then show ?thesis using assms(1) i by (auto simp: on_walk_def nth_append)
  qed
  then show "rollover_cycle m cycle" using assms by (simp add: rollover_cycle_def on_walk_def)
qed

lemma on_walk_step:
  assumes "on_walk m seed cycle current" and "current \<notin> set cycle" and "map_of m current = Some t"
  shows "on_walk m seed (cycle @ [current]) t"
  using assms by (auto simp: on_walk_def nth_append less_Suc_eq)

lemma walkCycle_total:
  "successors_within m U \<Longrightarrow> on_walk m seed cycle current \<Longrightarrow> current \<in> set unseen \<Longrightarrow>
    set cycle \<inter> set unseen = {} \<Longrightarrow> set cycle \<union> set unseen = U \<Longrightarrow> distinct unseen \<Longrightarrow>
    \<exists>cyc unseen'. walkCycle m seed current unseen cycle = Inr (cyc, unseen') \<and> rollover_cycle m cyc \<and>
      hd cyc = seed \<and> set cyc \<inter> set unseen' = {} \<and> set cyc \<union> set unseen' = U \<and> distinct unseen' \<and>
      length unseen' < length unseen"
proof (induction m seed current unseen cycle rule: walkCycle.induct)
  case (1 m seed current unseen cycle)
  let ?cycle = "cycle @ [current]" and ?unseen = "removeAll current unseen"
  obtain t where t: "map_of m current = Some t" "t \<in> U"
    using 1(2,4,6) unfolding successors_within_def by blast
  have walk: "on_walk m seed ?cycle t" using on_walk_step [OF 1(3) _ t(1)] 1(4,5) by blast
  have parts: "set ?cycle \<inter> set ?unseen = {}" "set ?cycle \<union> set ?unseen = U" "distinct ?unseen"
    using 1(4-7) by (auto simp: distinct_removeAll)
  have shorter: "length ?unseen < length unseen" using 1(4) by (rule length_removeAll_less)
  have eq: "walkCycle m seed current unseen cycle =
      (if t = seed then Inr (?cycle, ?unseen) else walkCycle m seed t ?unseen ?cycle)"
    using 1(4) t(1) by (subst walkCycle.simps) simp
  show ?case
  proof (cases "t = seed")
    case True
    note walk_closes [OF walk [unfolded True]]
    then show ?thesis using True eq parts shorter by simp
  next
    case False
    then have "t \<notin> set ?cycle" using walk_returns [OF 1(2) walk] by blast
    then have "t \<in> set ?unseen" using t(2) parts(2) by blast
    from 1(1) [OF _ refl refl t(1) False 1(2) walk this parts]
    show ?thesis using 1(4) eq False shorter by force
  qed
qed

text \<open>What is left after a cycle is closed under the rollovers again.\<close>

lemma successors_within_rest:
  assumes "successors_within m U" and "rollover_cycle m cyc" and "set cyc \<union> V = U" "set cyc \<inter> V = {}"
  shows "successors_within m V"
proof -
  have "y \<notin> set cyc" if xy: "x \<in> V" "map_of m x = Some y" for x y
  proof
    assume "y \<in> set cyc"
    then obtain j where j: "j < length cyc" "cyc ! j = y" by (auto simp: in_set_conv_nth)
    let ?n = "length cyc"
    let ?i = "if j = 0 then ?n - 1 else j - 1"
    have "?i < ?n" "Suc ?i mod ?n = j" using j by (auto simp: mod_Suc split: if_splits)
    then have "map_of m (cyc ! ?i) = Some y" "cyc ! ?i \<in> set cyc" using assms(2) j by (auto simp: rollover_cycle_def)
    moreover have "x = cyc ! ?i" using calculation(1) xy(2) assms(1) unfolding successors_within_def by blast
    ultimately show False using xy(1) assms(4) by blast
  qed
  then show ?thesis using assms(1,3) unfolding successors_within_def by (metis Un_iff)
qed

section \<open>All cycles\<close>

lemma least_of: "xs \<noteq> [] \<Longrightarrow> hd (sort_by compareText xs) \<in> set xs \<and> (\<forall>y \<in> set xs. hd (sort_by compareText xs) \<le> y)"
proof -
  assume ne: "xs \<noteq> []"
  obtain z zs where z: "sort_by compareText xs = z # zs" using ne by (metis list.exhaust sort_by_eq_Nil)
  have "\<forall>y \<in> set zs. compareText z y \<le> 0" using text_cmp.sorted_sort_by [of xs] z by simp
  moreover have "set xs = insert z (set zs)" using z by (metis list.simps(15) set_sort_by)
  ultimately show ?thesis using z by (auto simp: compareText_le)
qed

lemma walkCycles_total:
  "successors_within m (set unseen) \<Longrightarrow> distinct unseen \<Longrightarrow> length unseen \<le> fuel \<Longrightarrow>
    \<exists>cycles. walkCycles m fuel unseen = Inr cycles \<and> mset (concat cycles) = mset unseen \<and>
      (\<forall>c \<in> set cycles. rollover_cycle m c \<and> (\<forall>x \<in> set c. hd c \<le> x)) \<and>
      sorted_wrt (<) (map hd cycles)"
proof (induction m fuel unseen rule: walkCycles.induct)
  case (3 m fuel x xs)
  let ?un = "x # xs"
  let ?seed = "hd (sort_by compareText ?un)"
  have seed: "?seed \<in> set ?un" "\<forall>y \<in> set ?un. ?seed \<le> y" using least_of [of ?un] by auto
  have "on_walk m ?seed [] ?seed" by (simp add: on_walk_def)
  from walkCycle_total [OF 3(2) this seed(1) _ _ 3(3)]
  obtain cyc un' where w: "walkCycle m ?seed ?seed ?un [] = Inr (cyc, un')" "rollover_cycle m cyc" "hd cyc = ?seed"
    "set cyc \<inter> set un' = {}" "set cyc \<union> set un' = set ?un" "distinct un'" "length un' < length ?un" by auto
  have rest: "successors_within m (set un')" by (rule successors_within_rest [OF 3(2) w(2,5,4)])
  have "length un' \<le> fuel" using w(7) 3(4) by simp
  from 3(1) [OF refl rest w(6) this]
  obtain cycles where c: "walkCycles m fuel un' = Inr cycles" "mset (concat cycles) = mset un'"
    "\<forall>c \<in> set cycles. rollover_cycle m c \<and> (\<forall>x \<in> set c. hd c \<le> x)" "sorted_wrt (<) (map hd cycles)" by blast
  have dc: "distinct cyc" "cyc \<noteq> []" using w(2) by (auto simp: rollover_cycle_def)
  have "walkCycles m (Suc fuel) ?un = Inr (cyc # cycles)"
    unfolding walkCycles.simps Let_def w(1) by (simp add: c(1))
  moreover have "mset (concat (cyc # cycles)) = mset ?un"
  proof -
    have "distinct (cyc @ un')" "set (cyc @ un') = set ?un" using dc w(4-6) by auto
    then have "mset (cyc @ un') = mset ?un" using 3(3) set_eq_iff_mset_eq_distinct by blast
    then show ?thesis using c(2) by simp
  qed
  moreover have "\<forall>y \<in> set cyc. hd cyc \<le> y" using w(3,5) seed(2) by auto
  moreover have "?seed < hd d" if d: "d \<in> set cycles" for d
  proof -
    have "d \<noteq> []" using c(3) d by (auto simp: rollover_cycle_def)
    then have "hd d \<in> set (concat cycles)" using d hd_in_set [of d] unfolding set_concat by blast
    then have "hd d \<in> set un'" using c(2) by (metis set_mset_mset)
    then have "hd d \<in> set ?un" "hd d \<noteq> hd cyc"
      using w(4,5) hd_in_set [OF dc(2)] by (metis UnCI) (metis \<open>hd d \<in> set un'\<close> disjoint_iff hd_in_set dc(2) w(4))
    then have "hd d \<noteq> ?seed" using w(3) by metis
    moreover have "?seed \<le> hd d" using seed(2) \<open>hd d \<in> set ?un\<close> by blast
    ultimately show ?thesis by (metis order_less_le)
  qed
  ultimately show ?case using c(3,4) w(2,3) by (intro exI [of _ "cyc # cycles"]) auto
qed simp_all

section \<open>The assignment\<close>

lemma circText_Inr: "circText v = Inr w \<longleftrightarrow> w = v \<and> trimmed v"
  by (auto simp: circText_def res_simps)

lemma assignments_bijective:
  assumes "fold_res (addAssignment ids) as [] = Inr m"
  shows "m = map (\<lambda>a. (roSourceCirculationId a, roTargetCirculationId a)) as" "distinct (map fst m)"
    "distinct (map snd m)" "set (map fst m) \<subseteq> set ids" "set (map snd m) \<subseteq> set ids"
proof -
  let ?I = "\<lambda>seen (todo :: rollover list) m. m = map (\<lambda>a. (roSourceCirculationId a, roTargetCirculationId a)) seen \<and>
      distinct (map fst m) \<and> distinct (map snd m) \<and> set (map fst m) \<subseteq> set ids \<and> set (map snd m) \<subseteq> set ids"
  have "?I as [] m"
  proof (rule fold_res_rule [OF assms, where I = ?I], goal_cases)
    case (2 seen x todo s s')
    have s': "s' = s @ [(roSourceCirculationId x, roTargetCirculationId x)]" "roSourceCirculationId x \<in> set ids"
      "roTargetCirculationId x \<in> set ids" "roSourceCirculationId x \<notin> set (map fst s)"
      "roTargetCirculationId x \<notin> set (map snd s)"
      using 2(3) by (auto simp: addAssignment_def res_simps circText_Inr map_of_eq_None_iff)
    have "s = map (\<lambda>a. (roSourceCirculationId a, roTargetCirculationId a)) seen" "distinct (map fst s)"
      "distinct (map snd s)" "set (map fst s) \<subseteq> set ids" "set (map snd s) \<subseteq> set ids" using 2(2) by blast+
    then show ?case using s' by simp
  qed simp
  then show "m = map (\<lambda>a. (roSourceCirculationId a, roTargetCirculationId a)) as" "distinct (map fst m)"
    "distinct (map snd m)" "set (map fst m) \<subseteq> set ids" "set (map snd m) \<subseteq> set ids" by blast+
qed

lemma bijective_successors:
  assumes "distinct (map fst m)" "distinct (map snd m)" "set (map fst m) \<subseteq> set ids" "set (map snd m) \<subseteq> set ids"
    and "distinct ids" "length m = length ids"
  shows "successors_within m (set ids)"
proof -
  have "card (set (map fst m)) = card (set ids)" using assms by (metis distinct_card length_map)
  then have dom: "set (map fst m) = set ids" using assms(3) by (simp add: card_subset_eq)
  have "\<exists>y \<in> set ids. map_of m x = Some y" if "x \<in> set ids" for x
  proof -
    have "x \<in> fst ` set m" using that dom by simp
    then obtain y where "(x, y) \<in> set m" by force
    then have "y \<in> set ids" "map_of m x = Some y" using assms(1,4) map_of_in_set by force+
    then show ?thesis by blast
  qed
  moreover have "x = y" if "map_of m x = Some z" "map_of m y = Some z" for x y z
  proof -
    have "(x, z) \<in> set m" "(y, z) \<in> set m" using that by (auto intro: map_of_SomeD)
    moreover have "inj_on snd (set m)" using assms(2) by (simp add: distinct_map)
    ultimately have "(x, z) = (y, z)" by (metis inj_onD snd_conv)
    then show ?thesis by simp
  qed
  ultimately show ?thesis by (simp add: successors_within_def)
qed


interpretation cycle_order: comparator compareCycle
  by unfold_locales (auto simp: compareCycle_def compareText_neg compareText_pos compareText_le)

lemma sorted_cycles: "sorted_wrt (<) (map hd cycles) \<Longrightarrow> sort_by compareCycle cycles = cycles"
proof (induction cycles)
  case (Cons c cs)
  have "insert_by compareCycle c cs = c # cs"
    using Cons.prems by (cases cs) (auto simp: compareCycle_def compareText_le)
  then show ?case using Cons by (simp add: sort_by_def)
qed simp

text \<open>C11: The cycles of a plan contain every circulation exactly once; each cycle starts at its least
  circulation, follows the rollovers of the plan and closes; the cycles come in the order of their starts.\<close>

theorem rollover_cycles_partition:
  assumes "dailyRolloverCycles plan = Inr cycles"
  shows "mset (concat cycles) = mset (map ccId (dpCirculations plan)) \<and> distinct (concat cycles) \<and>
    sorted_wrt (<) (map hd cycles) \<and>
    (\<forall>c \<in> set cycles. c \<noteq> [] \<and> (\<forall>x \<in> set c. hd c \<le> x) \<and>
      (\<forall>i < length c. \<exists>a \<in> set (dpRolloverAssignments plan).
         roSourceCirculationId a = c ! i \<and> roTargetCirculationId a = c ! (Suc i mod length c)))"
proof -
  obtain ids m cs where ids: "map_res (\<lambda>c. circText (ccId c)) (dpCirculations plan) = Inr ids"
    and d: "length (remdups ids) = length (dpCirculations plan)"
    and m: "fold_res (addAssignment ids) (dpRolloverAssignments plan) [] = Inr m" "length m = length ids"
    and cs: "walkCycles m (length ids) ids = Inr cs" "cycles = sort_by compareCycle cs"
    using assms by (auto simp: dailyRolloverCycles_def res_simps)
  have id_eq: "ids = map ccId (dpCirculations plan)"
    using ids by (auto simp: map_res_Inr circText_Inr list_eq_iff_nth_eq)
  then have dist: "distinct ids" using d by (metis length_map set_size)
  note am = assignments_bijective [OF m(1)]
  have "successors_within m (set ids)" by (rule bijective_successors [OF am(2-5) dist m(2)])
  from walkCycles_total [OF this dist order_refl] cs(1)
  have w: "mset (concat cs) = mset ids" "sorted_wrt (<) (map hd cs)"
    "\<forall>c \<in> set cs. rollover_cycle m c \<and> (\<forall>x \<in> set c. hd c \<le> x)" by auto
  have eq: "cycles = cs" using cs(2) sorted_cycles [OF w(2)] by simp
  have "\<exists>a \<in> set (dpRolloverAssignments plan). roSourceCirculationId a = x \<and> roTargetCirculationId a = y"
    if "map_of m x = Some y" for x y using map_of_SomeD [OF that] am(1) by auto
  then have "\<forall>c \<in> set cs. c \<noteq> [] \<and> (\<forall>x \<in> set c. hd c \<le> x) \<and>
      (\<forall>i < length c. \<exists>a \<in> set (dpRolloverAssignments plan).
         roSourceCirculationId a = c ! i \<and> roTargetCirculationId a = c ! (Suc i mod length c))"
    using w(3) unfolding rollover_cycle_def by blast
  moreover have "distinct (concat cs)" using w(1) dist mset_eq_imp_distinct_iff by blast
  ultimately show ?thesis using w(1,2) eq id_eq by blast
qed

definition bare_circulation :: "string \<Rightarrow> circulation" where
  "bare_circulation i =
     (let e = \<lparr>epLegId = i, epRouteVersionId = i, epLocationId = ''A'', epPhysicalStopId = ''A'', epTimeS = 0\<rparr> in
      \<lparr>ccId = i, ccLotId = ''L'', ccServiceLineId = ''S'', ccAssetKey = ''L'', ccJourneyChainIds = [i],
       ccLegIds = [i], ccTrainRunIds = [i], ccStart = e, ccEnd = e\<rparr>)"

definition bare_plan :: "string list \<Rightarrow> (string \<times> string) list \<Rightarrow> daily_plan" where
  "bare_plan ids rollovers =
     \<lparr>dpSchema = DAILY_CIRCULATION_PLAN_SCHEMA, dpRule = DAILY_CIRCULATION_RULE, dpGtfsReleaseId = ''r'',
      dpRepeatEveryS = 86400, dpMinimumTurnaroundS = 300,
      dpMetrics = \<lparr>lotCount = 1, journeyChainCount = length ids, circulationCount = length ids,
        rolloverAssignmentCount = length rollovers, plannedTransitionCount = length ids,
        turnaroundDemandCount = length ids, transferDemandCount = 0, transferLotCount = 0\<rparr>,
      dpCirculations = map bare_circulation ids,
      dpRolloverAssignments = map (\<lambda>(s, t). \<lparr>roSourceCirculationId = s, roTargetCirculationId = t,
        roKind = ''same-location''\<rparr>) rollovers,
      dpTurnaroundDemands = [], dpTransferDemands = [], dpPlanSha256 = []\<rparr>"

definition three_circulations :: daily_plan where
  "three_circulations = bare_plan [''c3'', ''c1'', ''c2''] [(''c1'', ''c3''), (''c2'', ''c2''), (''c3'', ''c1'')]"

theorem rollover_cycles_partition_witness:
  "dailyRolloverCycles three_circulations = Inr [[''c1'', ''c3''], [''c2'']] \<and>
   distinct (concat [[''c1'', ''c3''], [''c2'']])"
proof -
  have "dailyRolloverCycles three_circulations = Inr [[''c1'', ''c3''], [''c2'']]" by code_simp
  with rollover_cycles_partition [OF this] show ?thesis by blast
qed

lemma assignments_accepted:
  "\<forall>a \<in> set as. trimmed (roSourceCirculationId a) \<and> trimmed (roTargetCirculationId a) \<and>
      roSourceCirculationId a \<in> set ids \<and> roTargetCirculationId a \<in> set ids \<Longrightarrow>
    distinct (map fst m @ map roSourceCirculationId as) \<Longrightarrow> distinct (map snd m @ map roTargetCirculationId as) \<Longrightarrow>
    fold_res (addAssignment ids) as m =
      Inr (m @ map (\<lambda>a. (roSourceCirculationId a, roTargetCirculationId a)) as)"
proof (induction as arbitrary: m)
  case (Cons a as)
  let ?p = "(roSourceCirculationId a, roTargetCirculationId a)"
  have "map_of m (roSourceCirculationId a) = None" "roTargetCirculationId a \<notin> snd ` set m"
    using Cons.prems(2,3) by (auto simp: map_of_eq_None_iff)
  then have "addAssignment ids a m = Inr (m @ [?p])"
    using Cons.prems(1) by (simp add: addAssignment_def circText_def)
  moreover have "fold_res (addAssignment ids) as (m @ [?p]) =
      Inr ((m @ [?p]) @ map (\<lambda>a. (roSourceCirculationId a, roTargetCirculationId a)) as)"
    by (rule Cons.IH) (use Cons.prems in auto)
  ultimately show ?case by simp
qed simp



end
