(* ===== verification/MovementContinuity.thy ===== *)
theory MovementContinuity
  imports LotCover DailyPlan
begin

text \<open>
  The movement continuities of a plan (\<open>dailyMovementContinuities\<close>): every movement has exactly one
  successor and one predecessor, no vehicle leaves before it has arrived, and the vehicles of a
  circulation come back one day later.
\<close>

section \<open>The movements\<close>

definition movements_named :: "movements \<Rightarrow> bool" where
  "movements_named ms \<longleftrightarrow> distinct (map fst ms) \<and> (\<forall>(i, m) \<in> set ms. mvTrainRunId m = i)"

lemma movementOf_id: "movementOf i l = Inr m \<Longrightarrow> mvTrainRunId m = i"
  by (auto simp: movementOf_def res_simps Let_def)

lemma addMovement_named: "addMovement chain il ms = Inr ms' \<Longrightarrow> movements_named ms \<Longrightarrow> movements_named ms'"
  by (cases il) (auto simp: addMovement_def res_simps Let_def movements_named_def map_of_eq_None_iff movementOf_id)

lemma passengerMovements_named:
  assumes "passengerMovements journeyChains = Inr ms"
  shows "movements_named ms"
proof -
  have "movements_named ms'"
    if "(bnd (dailyPlayableLegs chain) (\<lambda>legs. fold_res (addMovement chain) (enumerate 0 legs) ms)) = Inr ms'"
      "movements_named ms" for chain ms ms'
    using that by (auto simp: res_simps intro: fold_res_invariant [where I = movements_named] addMovement_named)
  then show ?thesis
    using assms unfolding passengerMovements_def
    by (rule fold_res_invariant [where I = movements_named, rotated 2]) (auto simp: movements_named_def)
qed

section \<open>The continuities\<close>

text \<open>A continuity between two movements of the index.\<close>

definition continues :: "continuity_index \<Rightarrow> continuity \<Rightarrow> bool" where
  "continues ix k \<longleftrightarrow>
     (\<exists>source target. map_of (ixMovements ix) (cnSourceTrainRunId k) = Some source \<and>
        map_of (ixMovements ix) (cnTargetTrainRunId k) = Some target \<and>
        cnSourceArrivalS k = mvArrivalS source \<and> cnSourceDepartureS k = mvDepartureS source \<and>
        cnTargetDepartureS k \<in> {mvDepartureS target, js_add (mvDepartureS target) (ixRepeatEveryS ix)}) \<and>
     cnSuccessorDayOffset k \<in> {0, 1} \<and> cnSourceArrivalS k \<le> cnTargetDepartureS k \<and>
     cnTargetDepartureS k div ixRepeatEveryS ix = cnSourceDepartureS k div ixRepeatEveryS ix + cnSuccessorDayOffset k"

lemma continuityOf_continues:
  assumes "continuityOf alphaHash (ixRepeatEveryS ix) s = Inr k" and "movements_named (ixMovements ix)"
    and "map_of (ixMovements ix) i = Some (suSource s)" "map_of (ixMovements ix) j = Some (suTarget s)"
    and "suTargetOccurrenceDepartureS s \<in> {mvDepartureS (suTarget s), js_add (mvDepartureS (suTarget s)) (ixRepeatEveryS ix)}"
  shows "continues ix k" and "cnSourceTrainRunId k = i" and "cnTargetTrainRunId k = j"
proof -
  have ids: "mvTrainRunId (suSource s) = i" "mvTrainRunId (suTarget s) = j"
    using assms(2-4) by (auto simp: movements_named_def dest: map_of_SomeD)
  show "continues ix k" "cnSourceTrainRunId k = i" "cnTargetTrainRunId k = j"
    using assms(1,3-5) ids by (auto simp: continuityOf_def res_simps Let_def continues_def)
qed

lemma internalContinuities_continues:
  "internalContinuities alphaHash ix c ids cs = Inr cs' \<Longrightarrow> movements_named (ixMovements ix) \<Longrightarrow>
    \<forall>k \<in> set cs. continues ix k \<Longrightarrow> \<forall>k \<in> set cs'. continues ix k"
proof (induction alphaHash ix c ids cs rule: internalContinuities.induct)
  case (1 alphaHash ix c i j ids cs)
  from 1(2) obtain source target where st: "map_of (ixMovements ix) i = Some source" "map_of (ixMovements ix) j = Some target"
    by (auto split: option.splits)
  let ?key = "transitionKey (mvLegId source) (mvLegId target) False"
  let ?turnaround = "map_of (ixTurnarounds ix) ?key" and ?transfer = "map_of (ixTransfers ix) ?key"
  let ?s = "\<lparr>suSource = source, suTarget = target, suSourceCirculationId = c, suTargetCirculationId = c,
     suRelation = (if ?turnaround = None then ''transfer'' else ''same-location''),
     suTargetOccurrenceDepartureS = mvDepartureS target, suDemandId = map_option dmId ?transfer\<rparr>"
  from 1(2) obtain k where k: "continuityOf alphaHash (ixRepeatEveryS ix) ?s = Inr k"
    "internalContinuities alphaHash ix c (j # ids) (cs @ [k]) = Inr cs'"
    by (simp only: internalContinuities.simps st prod.case option.case Let_def invariant_Inr bnd_Inr) blast
  have "continues ix k" by (rule continuityOf_continues(1) [OF k(1) 1(3)]) (use st in simp_all)
  then have "\<forall>k \<in> set (cs @ [k]). continues ix k" using 1(4) by auto
  with 1(1) [OF _ st refl refl refl] k 1(3) show ?case by blast
qed auto


lemma rolloverContinuity_continues:
  assumes "rolloverContinuity alphaHash ix c = Inr k" and "movements_named (ixMovements ix)"
  shows "continues ix k"
proof -
  obtain rollover where r: "map_of (ixRollovers ix) (ccId c) = Some rollover"
    using assms(1) by (auto simp: rolloverContinuity_def split: option.splits)
  obtain tc where tc: "map_of (ixCirculations ix) (roTargetCirculationId rollover) = Some tc"
    using assms(1) by (auto simp: rolloverContinuity_def r split: option.splits)
  let ?i = "last (ccTrainRunIds c)" and ?j = "hd (ccTrainRunIds tc)"
  obtain source where s: "map_of (ixMovements ix) ?i = Some source"
    using assms(1) by (auto simp: rolloverContinuity_def r tc split: option.splits)
  obtain target where t: "(if ccTrainRunIds tc = [] then None else map_of (ixMovements ix) ?j) = Some target"
    using assms(1) by (auto simp: rolloverContinuity_def r tc s split: option.splits)
  have t': "map_of (ixMovements ix) ?j = Some target" using t by (simp split: if_splits)
  let ?s = "\<lparr>suSource = source, suTarget = target, suSourceCirculationId = ccId c,
     suTargetCirculationId = ccId tc, suRelation = roKind rollover,
     suTargetOccurrenceDepartureS = js_add (mvDepartureS target) (ixRepeatEveryS ix),
     suDemandId = map_option dmId (map_of (ixTransfers ix) (transitionKey (mvLegId source) (mvLegId target) True))\<rparr>"
  have "continuityOf alphaHash (ixRepeatEveryS ix) ?s = Inr k"
    using assms(1) unfolding rolloverContinuity_def r tc s t option.case prod.case Let_def invariant_Inr by blast
  then show ?thesis by (rule continuityOf_continues(1) [OF _ assms(2)]) (use s t' in simp_all)
qed

lemma circulationContinuities_continues:
  assumes "circulationContinuities alphaHash ix c ks = Inr ks'" and "movements_named (ixMovements ix)"
    and "\<forall>k \<in> set ks. continues ix k"
  shows "\<forall>k \<in> set ks'. continues ix k"
proof -
  obtain ks1 k where "internalContinuities alphaHash ix (ccId c) (ccTrainRunIds c) ks = Inr ks1"
    and "rolloverContinuity alphaHash ix c = Inr k" and "ks' = ks1 @ [k]"
    using assms(1) by (auto simp: circulationContinuities_def res_simps)
  then show ?thesis
    using internalContinuities_continues [OF _ assms(2,3)] rolloverContinuity_continues [OF _ assms(2)] by auto
qed

lemma continuityIndex_parts:
  assumes "continuityIndex plan journeyChains = Inr ix"
  shows "passengerMovements journeyChains = Inr (ixMovements ix)" and "ixRepeatEveryS ix = dpRepeatEveryS plan"
    and "1 \<le> dpRepeatEveryS plan"
  using assms by (auto simp: continuityIndex_def res_simps Let_def circInteger_def)

lemma continues_keys:
  assumes "continues ix k"
  shows "cnSourceTrainRunId k \<in> set (map fst (ixMovements ix))" "cnTargetTrainRunId k \<in> set (map fst (ixMovements ix))"
  using assms unfolding continues_def by (metis imageI list.set_map map_of_SomeD fst_conv)+

text \<open>C13: In the continuities of a plan every passenger movement is the source of exactly one and the target of exactly
  one continuity; a vehicle never departs before it has arrived; the departures of source and target lie zero
  or one repetition period apart; and the continuities of a circulation advance exactly one period in all.\<close>

theorem continuities_cover_the_day:
  assumes "dailyMovementContinuities alphaHash plan journeyChains = Inr ks"
  shows "\<exists>movements. passengerMovements journeyChains = Inr movements \<and>
    mset (map cnSourceTrainRunId ks) = mset (map fst movements) \<and>
    mset (map cnTargetTrainRunId ks) = mset (map fst movements) \<and>
    (\<forall>k \<in> set ks. cnSourceArrivalS k \<le> cnTargetDepartureS k \<and> cnSuccessorDayOffset k \<in> {0, 1} \<and>
      cnTargetDepartureS k div dpRepeatEveryS plan =
        cnSourceDepartureS k div dpRepeatEveryS plan + cnSuccessorDayOffset k) \<and>
    (\<forall>c \<in> set (dpCirculations plan). advances ks c = 1)"
proof -
  obtain ix us where ix: "continuityIndex plan journeyChains = Inr ix"
    and us: "fold_res (circulationContinuities alphaHash ix) (dpCirculations plan) [] = Inr us"
    and len: "length us = length (ixMovements ix)"
      "length (remdups (map cnSourceTrainRunId us)) = length (ixMovements ix)"
      "length (remdups (map cnTargetTrainRunId us)) = length (ixMovements ix)"
    and adv: "\<forall>c \<in> set (dpCirculations plan). advances us c = 1"
    and ks: "ks = sort_by compareContinuity us"
    using assms by (auto simp: dailyMovementContinuities_def res_simps)
  note parts = continuityIndex_parts [OF ix]
  have named: "movements_named (ixMovements ix)" by (rule passengerMovements_named [OF parts(1)])
  have cont: "\<forall>k \<in> set us. continues ix k"
    by (rule fold_res_invariant [OF us, where I = "\<lambda>ks. \<forall>k \<in> set ks. continues ix k"])
      (auto dest: circulationContinuities_continues [OF _ named])
  have keys: "set (map cnSourceTrainRunId us) \<subseteq> set (map fst (ixMovements ix))"
    "set (map cnTargetTrainRunId us) \<subseteq> set (map fst (ixMovements ix))"
    using cont continues_keys by fastforce+
  have dist: "distinct (map cnSourceTrainRunId us)" "distinct (map cnTargetTrainRunId us)"
    using len by (metis length_map set_size)+
  have "distinct (map fst (ixMovements ix))" using named by (simp add: movements_named_def)
  then have "mset (map cnSourceTrainRunId us) = mset (map fst (ixMovements ix))"
    "mset (map cnTargetTrainRunId us) = mset (map fst (ixMovements ix))"
    by - (rule mset_of_subset; use dist keys len(1) in simp)+
  then have perm: "mset (map cnSourceTrainRunId ks) = mset (map fst (ixMovements ix))"
    "mset (map cnTargetTrainRunId ks) = mset (map fst (ixMovements ix))"
    by (simp_all only: ks mset_map mset_sort_by)
  have "advances ks c = advances us c" for c
    unfolding advances_def ks by (metis (no_types, lifting) mset_filter mset_map mset_sort_by sum_mset_sum_list)
  then have "\<forall>c \<in> set (dpCirculations plan). advances ks c = 1" using adv by simp
  moreover have "\<forall>k \<in> set ks. cnSourceArrivalS k \<le> cnTargetDepartureS k \<and> cnSuccessorDayOffset k \<in> {0, 1} \<and>
      cnTargetDepartureS k div dpRepeatEveryS plan =
        cnSourceDepartureS k div dpRepeatEveryS plan + cnSuccessorDayOffset k"
    using cont parts(2) by (simp only: ks set_sort_by) (simp add: continues_def)
  ultimately show ?thesis using perm parts(1) by blast
qed


definition sample_stops :: "station list" where
  "sample_stops = map (\<lambda>(i, lat, lon). \<lparr>snStopId = i, snLatitudeE7 = JInt lat, snLongitudeE7 = JInt lon\<rparr>)
     [(''A'', 500000000, 80000000), (''B'', 500100000, 80000000), (''C'', 500100000, 80200000)]"

definition sample_options :: plan_options where
  "sample_options = \<lparr>poGtfsReleaseId = ''r1'', poRepeatEveryS = 86400, poMinimumTurnaroundS = 300, poTransferCost = None\<rparr>"

definition sample_plan :: daily_plan where
  "sample_plan = projr (deriveDailyCirculationPlan (\<lambda>domain v. ''h'') id sample_chains sample_stops sample_options)"

definition sample_continuities :: "continuity list" where
  "sample_continuities = projr (dailyMovementContinuities (\<lambda>domain v. ''h'') sample_plan sample_chains)"

lemma sample_day:
  "(case dailyMovementContinuities (\<lambda>domain v. ''h'') sample_plan sample_chains of Inl e \<Rightarrow> False
    | Inr ks \<Rightarrow> map (\<lambda>k. (cnSourceTrainRunId k, cnTargetTrainRunId k, cnSuccessorDayOffset k)) ks =
        [(''c1'', ''c2'', 0), (''c2'', ''c1'', 1), (''c3'', ''c3'', 1)])"
  by code_simp

lemma sample_continuities:
  "dailyMovementContinuities (\<lambda>domain v. ''h'') sample_plan sample_chains = Inr sample_continuities"
  "map (\<lambda>k. (cnSourceTrainRunId k, cnTargetTrainRunId k, cnSuccessorDayOffset k)) sample_continuities =
     [(''c1'', ''c2'', 0), (''c2'', ''c1'', 1), (''c3'', ''c3'', 1)]"
  using sample_day
  by (cases "dailyMovementContinuities (\<lambda>domain v. ''h'') sample_plan sample_chains"; simp add: sample_continuities_def)+

theorem continuities_cover_the_day_witness:
  "length sample_continuities = 3 \<and> list_all (\<lambda>c. advances sample_continuities c = 1) (dpCirculations sample_plan)"
proof -
  have "length sample_continuities = 3" using arg_cong [OF sample_continuities(2), of length] by simp
  with continuities_cover_the_day [OF sample_continuities(1)] show ?thesis unfolding list_all_iff by blast
qed

end
