(* ===== verification/Decimal.thy ===== *)
theory Decimal
  imports Prelude
begin

text \<open>
  Decimal strings: the patterns the platform packages test, \<open>BigInt(s)\<close> on a string of digits and
  \<open>toString\<close>, which are inverse to each other on canonical strings.
\<close>

definition is_digit :: "char \<Rightarrow> bool" where
  "is_digit c \<longleftrightarrow> 48 \<le> (of_char c :: nat) \<and> (of_char c :: nat) \<le> 57"

text \<open>\<open>/^[0-9]+$/\<close>.\<close>

definition digits :: "string \<Rightarrow> bool" where
  "digits s \<longleftrightarrow> s \<noteq> [] \<and> (\<forall>c \<in> set s. is_digit c)"

text \<open>\<open>/^(0|[1-9][0-9]*)$/\<close>.\<close>

definition canonical_digits :: "string \<Rightarrow> bool" where
  "canonical_digits s \<longleftrightarrow> digits s \<and> (hd s = CHR ''0'' \<longrightarrow> s = ''0'')"

text \<open>\<open>BigInt(s)\<close> for a string of digits.\<close>

definition bigint_of :: "string \<Rightarrow> int" where
  "bigint_of s = fold (\<lambda>c n. 10 * n + int (of_char c - 48)) s 0"

text \<open>\<open>/^[a-f0-9]{64}$/\<close>.\<close>

definition hex64 :: "string \<Rightarrow> bool" where
  "hex64 s \<longleftrightarrow> length s = 64 \<and>
     (\<forall>c \<in> set s. is_digit c \<or> 97 \<le> (of_char c :: nat) \<and> (of_char c :: nat) \<le> 102)"

text \<open>\<open>value.trim()\<close> is empty.\<close>

definition blank :: "string \<Rightarrow> bool" where
  "blank s \<longleftrightarrow> (\<forall>c \<in> set s. js_space c)"

lemma is_digit_char: "d < 10 \<Longrightarrow> is_digit (char_of (48 + d :: nat))"
  by (simp add: is_digit_def)

lemma of_char_digit: "d < 10 \<Longrightarrow> (of_char (char_of (48 + d :: nat)) :: nat) = 48 + d"
  by simp

lemma bigint_of_snoc: "bigint_of (s @ [c]) = 10 * bigint_of s + int (of_char c - 48)"
  by (simp add: bigint_of_def)

lemma bigint_of_nat_str: "bigint_of (nat_str n) = int n"
proof (induction n rule: nat_str.induct)
  case (1 n)
  show ?case
  proof (cases "n < 10")
    case True
    then have "nat_str n = [] @ [char_of (48 + n)]" by (subst nat_str.simps) simp
    then show ?thesis using True by (simp only: bigint_of_snoc) (simp add: bigint_of_def)
  next
    case False
    then have "nat_str n = nat_str (n div 10) @ [char_of (48 + n mod 10)]" by (subst nat_str.simps) simp
    then have "bigint_of (nat_str n) = 10 * int (n div 10) + int (n mod 10)"
      using 1 False by (simp only: bigint_of_snoc) (simp add: of_char_digit)
    then show ?thesis by presburger
  qed
qed

lemma digits_nat_str: "digits (nat_str n)"
proof (induction n rule: nat_str.induct)
  case (1 n)
  then show ?case by (subst nat_str.simps) (auto simp: digits_def is_digit_char)
qed

lemma nat_str_head: "0 < n \<Longrightarrow> hd (nat_str n) \<noteq> CHR ''0''"
proof (induction n rule: nat_str.induct)
  case (1 n)
  show ?case
  proof (cases "n < 10")
    case True
    have "(of_char (char_of (48 + n) :: char) :: nat) = 48 + n" using True by (rule of_char_digit)
    moreover have "(of_char (CHR ''0'') :: nat) = 48" by simp
    ultimately have "char_of (48 + n) \<noteq> CHR ''0''" using 1(2) by (metis add_cancel_right_right less_irrefl)
    then show ?thesis using True by (subst nat_str.simps) simp
  next
    case False
    then have "nat_str (n div 10) \<noteq> []" using digits_nat_str by (simp add: digits_def)
    then show ?thesis using 1(1) False by (subst nat_str.simps) (simp add: div_greater_zero_iff)
  qed
qed

lemma canonical_nat_str: "canonical_digits (nat_str n)"
proof (cases "n = 0")
  case True
  have "nat_str 0 = ''0''" by code_simp
  then show ?thesis using True digits_nat_str [of 0] by (simp add: canonical_digits_def)
next
  case False
  then show ?thesis using nat_str_head [of n] by (simp add: canonical_digits_def digits_nat_str)
qed

lemma bigint_of_nonneg: "0 \<le> bigint_of s"
proof (induction s rule: rev_induct)
  case Nil
  then show ?case by (simp add: bigint_of_def)
next
  case (snoc c s)
  then show ?case by (simp add: bigint_of_snoc)
qed

lemma nat_str_step: "0 < n \<Longrightarrow> d < 10 \<Longrightarrow> nat_str (10 * n + d) = nat_str n @ [char_of (48 + d)]"
  by (subst nat_str.simps) simp

lemma digit_char: "is_digit c \<Longrightarrow> char_of (48 + (of_char c - 48 :: nat)) = c \<and> of_char c - 48 < (10 :: nat)"
  by (auto simp: is_digit_def)

lemma nat_str_bigint_of: "canonical_digits s \<Longrightarrow> nat_str (nat (bigint_of s)) = s"
proof (induction s rule: rev_induct)
  case Nil
  then show ?case by (simp add: canonical_digits_def digits_def)
next
  case (snoc c s)
  have c: "is_digit c" using snoc(2) by (simp add: canonical_digits_def digits_def)
  let ?d = "of_char c - 48 :: nat"
  note dc = digit_char [OF c]
  show ?case
  proof (cases "s = []")
    case True
    have "nat_str ?d = [char_of (48 + ?d)]" using dc by (subst nat_str.simps) simp
    then show ?thesis using True dc by (simp add: bigint_of_def)
  next
    case False
    have s: "canonical_digits s" using snoc(2) False by (auto simp: canonical_digits_def digits_def)
    have "s \<noteq> ''0''" using snoc(2) False by (auto simp: canonical_digits_def)
    have eq: "nat_str (nat (bigint_of s)) = s" by (rule snoc(1) [OF s])
    have "nat (bigint_of s) \<noteq> 0"
    proof
      assume "nat (bigint_of s) = 0"
      then have "s = nat_str 0" using eq by simp
      moreover have "nat_str 0 = ''0''" by code_simp
      ultimately show False using \<open>s \<noteq> ''0''\<close> by simp
    qed
    moreover have "nat (bigint_of (s @ [c])) = 10 * nat (bigint_of s) + ?d"
      using bigint_of_nonneg [of s] by (simp add: bigint_of_snoc nat_add_distrib nat_mult_distrib)
    ultimately show ?thesis using eq dc by (simp add: nat_str_step)
  qed
qed

text \<open>Evaluation of \<open>nat_str\<close> on numerals by rewriting.\<close>

lemma digit_chars:
  "char_of (48 :: nat) = CHR ''0''"
  "char_of (49 :: nat) = CHR ''1''"
  "char_of (50 :: nat) = CHR ''2''"
  "char_of (51 :: nat) = CHR ''3''"
  "char_of (52 :: nat) = CHR ''4''"
  "char_of (53 :: nat) = CHR ''5''"
  "char_of (54 :: nat) = CHR ''6''"
  "char_of (55 :: nat) = CHR ''7''"
  "char_of (56 :: nat) = CHR ''8''"
  "char_of (57 :: nat) = CHR ''9''"
  by code_simp+

lemmas nat_str_eval = nat_str.simps digit_chars int_str_def

end
