(* ===== verification/MovementAllocation.thy ===== *)
theory MovementAllocation
  imports DailyPlan Decimal
begin

text \<open>
  The allocation of movement routes to the continuities of a daily plan,
  \<open>tools/region-import/movement-route-allocation-v2.mjs\<close>: direct turns, stabling and transfers as
  options with their reservations of tracks and resources, the backtracking choice of options that do
  not conflict in the repeating day, and the graph of trains that results. The templates are those of a
  validated plan (\<open>movement-route-templates-v2.mjs\<close>), as records. \<open>alphaHash\<close> and the choice of
  protection modes are arguments. An error is known by its cause, not by its text: the code tells the
  missing window of a stabling by a phrase of its message.
\<close>

datatype allocation_error =
    Allocation string
  | StablingWindow string string
  | SearchLimit string

definition MOVEMENT_ROUTE_ALLOCATION_SCHEMA :: string where
  "MOVEMENT_ROUTE_ALLOCATION_SCHEMA = ''zugfolge-movement-route-allocation/v2''"

definition MOVEMENT_PASSENGER_DWELL_MS :: int where
  "MOVEMENT_PASSENGER_DWELL_MS = 300000"

definition MAXIMUM_DIRECT_DWELL_MS :: int where
  "MAXIMUM_DIRECT_DWELL_MS = 1200000"

section \<open>The plan and the trains\<close>

record track_interval =
  ivEdgeId :: string
  ivFromMm :: int
  ivToMm :: int

record berth = track_interval +
  beEdgeLengthMm :: int
  beLeftClearanceMm :: int
  beRightClearanceMm :: int

record protection_run =
  prThroughRouteLegIndex :: int
  prAvailableProtectionSystems :: "string list"
  prSimultaneouslyRequiredProtectionSystems :: "string list"

text \<open>A validated dispatch has no movement kind of its own; the code asks for it nevertheless.\<close>

record dispatch_route =
  drRouteVersionId :: string
  drPredecessorBaseRouteVersionId :: string
  drDispatchInterlockingRouteId :: string
  drHeadRouteMm :: int
  drMinimumRuntimeMs :: int
  drResourceIds :: "string list"
  drRouteLegCount :: int
  drProtectionContractRuns :: "protection_run list"
  drContinuity :: string
  drMovementKind :: "string option"

record direct_template =
  dtId :: string
  dtInboundRouteVersionId :: string
  dtOutboundRouteVersionId :: string
  dtFormationLengthMm :: int
  dtTerminalIntervals :: "track_interval list"
  dtResourceIds :: "string list"
  dtThrough :: "dispatch_route option"
  dtOutbound :: dispatch_route

record stabling_template =
  slId :: string
  slInboundRouteVersionId :: string
  slOutboundRouteVersionId :: string
  slFormationLengthMm :: int
  slCandidateRank :: int
  slTerminalIntervals :: "track_interval list"
  slStablingKind :: string
  slHasLegacyBerth :: bool
  slShuntIn :: dispatch_route
  slArrivalBerth :: berth
  slBerthTransfer :: "dispatch_route option"
  slDepartureBerth :: berth
  slShuntOut :: dispatch_route
  slOutbound :: dispatch_route

record transfer_template =
  ttId :: string
  ttDemandId :: string
  ttFormationLengthMm :: int
  ttSourcePassengerRouteVersionId :: string
  ttTargetPassengerRouteVersionId :: string
  ttEarliestDepartureS :: int
  ttLatestArrivalS :: int
  ttMovementKind :: string
  ttTransfer :: dispatch_route
  ttTargetOutbound :: dispatch_route
  ttResourceIds :: "string list"

record movement_route_plan =
  mrDirectTemplates :: "direct_template list"
  mrTemplates :: "stabling_template list"
  mrTransferTemplates :: "transfer_template list"

record passenger_train =
  ptrTrainRunId :: "string option"
  ptrId :: "string option"
  ptrTrainNumber :: string
  ptrOperatorId :: "string option"
  ptrOperator :: "string option"
  ptrBaseRouteVersionId :: "string option"
  ptrRouteVersionId :: "string option"
  ptrFormationVersionId :: string
  ptrFormationLengthMm :: int
  ptrInstalledProtection :: "string list"
  ptrScheduledDepartureMs :: int

definition alText :: "string option \<Rightarrow> string \<Rightarrow> allocation_error + string" where
  "alText value name = (case value of None \<Rightarrow> Inl (Allocation name) | Some s \<Rightarrow> invariant (trimmed s) (Allocation name) (Inr s))"

definition alInteger :: "int \<Rightarrow> string \<Rightarrow> int \<Rightarrow> allocation_error + int" where
  "alInteger value name least = invariant (is_safe value \<and> least \<le> value) (Allocation name) (Inr value)"

definition otherwise :: "'a option \<Rightarrow> 'a option \<Rightarrow> 'a option" where
  "otherwise a b = (case a of None \<Rightarrow> b | Some x \<Rightarrow> Some x)"

definition passengerId :: "passenger_train \<Rightarrow> allocation_error + string" where
  "passengerId train = alText (otherwise (ptrTrainRunId train) (ptrId train)) ''Passenger-Zug-ID''"

definition baseRouteVersionId :: "passenger_train \<Rightarrow> allocation_error + string" where
  "baseRouteVersionId train =
     bnd (passengerId train) (\<lambda>i. alText (otherwise (ptrBaseRouteVersionId train) (ptrRouteVersionId train)) (i @ ''.baseRouteVersionId''))"

definition operatorIdOf :: "passenger_train \<Rightarrow> allocation_error + string" where
  "operatorIdOf train =
     bnd (passengerId train) (\<lambda>i. alText (otherwise (ptrOperatorId train) (ptrOperator train)) (i @ ''.operatorId''))"

definition stableMovementId :: "(string \<Rightarrow> jsval \<Rightarrow> string) \<Rightarrow> string \<Rightarrow> string \<Rightarrow> string \<Rightarrow> string" where
  "stableMovementId alphaHash continuityId role routeVersionId =
     ''movement-'' @ alphaHash ''zugfolge-operational-movement-train/v2''
       (JObject [(''continuityId'', JString continuityId), (''role'', JString role), (''routeVersionId'', JString routeVersionId)])"

definition stableContinuationId :: "(string \<Rightarrow> jsval \<Rightarrow> string) \<Rightarrow> string \<Rightarrow> string \<Rightarrow> string \<Rightarrow> string \<Rightarrow> string" where
  "stableContinuationId alphaHash continuityId stage predecessorTrainId successorTrainId =
     ''continuation-'' @ alphaHash ''zugfolge-operational-movement-continuation/v2''
       (JObject [(''continuityId'', JString continuityId), (''stage'', JString stage),
         (''predecessorTrainId'', JString predecessorTrainId), (''successorTrainId'', JString successorTrainId)])"

section \<open>Reservations\<close>

datatype reservation =
    ResourceReservation (rzResourceId: string) (rzStartMs: int) (rzEndMs: int) (rzAllocationId: string) (rzStage: string)
  | TrackReservation (rzEdgeId: string) (rzFromMm: int) (rzToMm: int) (rzStartMs: int) (rzEndMs: int) (rzAllocationId: string) (rzStage: string)

definition resourceReservation :: "string \<Rightarrow> int \<Rightarrow> int \<Rightarrow> string \<Rightarrow> string \<Rightarrow> allocation_error + reservation" where
  "resourceReservation resourceId startMs endMs allocationId stage =
     invariant (endMs > startMs) (Allocation (allocationId @ ''.'' @ stage)) (Inr (ResourceReservation resourceId startMs endMs allocationId stage))"

definition trackReservation :: "track_interval \<Rightarrow> int \<Rightarrow> int \<Rightarrow> string \<Rightarrow> string \<Rightarrow> allocation_error + reservation" where
  "trackReservation interval startMs endMs allocationId stage =
     (let name = allocationId @ ''.'' @ stage in
      invariant (endMs > startMs) (Allocation name)
     (bnd (alText (Some (ivEdgeId interval)) (name @ ''.edgeId'')) (\<lambda>edgeId.
      bnd (alInteger (ivFromMm interval) (name @ ''.fromMm'') 0) (\<lambda>fromMm.
      bnd (alInteger (ivToMm interval) (name @ ''.toMm'') (js_add fromMm 1)) (\<lambda>toMm.
      Inr (TrackReservation edgeId fromMm toMm startMs endMs allocationId stage))))))"

definition resourcesFor :: "string list \<Rightarrow> int \<Rightarrow> int \<Rightarrow> string \<Rightarrow> string \<Rightarrow> allocation_error + reservation list" where
  "resourcesFor resourceIds startMs endMs allocationId stage =
     map_res (\<lambda>i. resourceReservation i startMs endMs allocationId stage) resourceIds"

definition terminalOccupancy :: "track_interval list \<Rightarrow> int \<Rightarrow> int \<Rightarrow> string \<Rightarrow> string \<Rightarrow> allocation_error + reservation list" where
  "terminalOccupancy intervals startMs endMs allocationId stage =
     map_res (\<lambda>i. trackReservation i startMs endMs allocationId stage) intervals"

definition periodicTimeOverlap :: "reservation \<Rightarrow> reservation \<Rightarrow> int \<Rightarrow> bool" where
  "periodicTimeOverlap left right repeatEveryMs \<longleftrightarrow>
     (\<exists>shift \<in> set [- repeatEveryMs, 0, repeatEveryMs].
        max (rzStartMs left) (js_add (rzStartMs right) shift) < min (rzEndMs left) (js_add (rzEndMs right) shift))"

definition same_place :: "reservation \<Rightarrow> reservation \<Rightarrow> bool" where
  "same_place left right \<longleftrightarrow> (case (left, right) of
       (ResourceReservation i s e a g, ResourceReservation i' s' e' a' g') \<Rightarrow> i = i'
     | (TrackReservation i f t s e a g, TrackReservation i' f' t' s' e' a' g') \<Rightarrow> i = i' \<and> max f f' < min t t'
     | _ \<Rightarrow> False)"

definition reservationsConflict :: "reservation \<Rightarrow> reservation \<Rightarrow> int \<Rightarrow> bool" where
  "reservationsConflict left right repeatEveryMs \<longleftrightarrow> periodicTimeOverlap left right repeatEveryMs \<and> same_place left right"

definition reservationConflictsWithOwnPeriod :: "reservation \<Rightarrow> int \<Rightarrow> bool" where
  "reservationConflictsWithOwnPeriod r repeatEveryMs \<longleftrightarrow> js_sub (rzEndMs r) (rzStartMs r) > repeatEveryMs"

fun internalConflict :: "reservation list \<Rightarrow> int \<Rightarrow> bool" where
  "internalConflict [] repeatEveryMs \<longleftrightarrow> False"
| "internalConflict (left # rest) repeatEveryMs \<longleftrightarrow> reservationConflictsWithOwnPeriod left repeatEveryMs
     \<or> (\<exists>right \<in> set rest. reservationsConflict left right repeatEveryMs) \<or> internalConflict rest repeatEveryMs"

section \<open>Options\<close>

record movement_stage =
  sgId :: string
  sgRole :: string
  sgMovementKind :: string
  sgDispatch :: dispatch_route
  sgScheduledDepartureMs :: int
  sgSourcePassengerTrainId :: string
  sgFormationVersionId :: string
  sgInstalledProtection :: "string list"

record movement_option =
  moContinuity :: continuity
  moSource :: passenger_train
  moTarget :: passenger_train
  moKind :: string
  moTemplateId :: string
  moTargetDispatch :: dispatch_route
  moStages :: "movement_stage list"
  moReservations :: "reservation list"

definition optionHasInternalConflict :: "movement_option \<Rightarrow> int \<Rightarrow> bool" where
  "optionHasInternalConflict opt repeatEveryMs = internalConflict (moReservations opt) repeatEveryMs"

definition optionConflicts :: "movement_option \<Rightarrow> reservation list \<Rightarrow> int \<Rightarrow> bool" where
  "optionConflicts opt reservations repeatEveryMs \<longleftrightarrow>
     (\<exists>candidate \<in> set (moReservations opt). \<exists>existing \<in> set reservations. reservationsConflict candidate existing repeatEveryMs)"

definition dispatchStage :: "(string \<Rightarrow> jsval \<Rightarrow> string) \<Rightarrow> continuity \<Rightarrow> string \<Rightarrow> string \<Rightarrow> dispatch_route \<Rightarrow> int \<Rightarrow> passenger_train \<Rightarrow>
    allocation_error + movement_stage" where
  "dispatchStage alphaHash c role movementKind dispatch scheduledDepartureMs source =
     bnd (alInteger scheduledDepartureMs (cnId c @ ''.'' @ role @ ''.scheduledDepartureMs'') 0) (\<lambda>_.
     bnd (passengerId source) (\<lambda>sourceId.
     Inr \<lparr>sgId = stableMovementId alphaHash (cnId c) role (drRouteVersionId dispatch), sgRole = role, sgMovementKind = movementKind,
       sgDispatch = dispatch, sgScheduledDepartureMs = scheduledDepartureMs, sgSourcePassengerTrainId = sourceId,
       sgFormationVersionId = ptrFormationVersionId source, sgInstalledProtection = ptrInstalledProtection source\<rparr>))"

definition directOption :: "(string \<Rightarrow> jsval \<Rightarrow> string) \<Rightarrow> continuity \<Rightarrow> passenger_train \<Rightarrow> passenger_train \<Rightarrow> direct_template \<Rightarrow> int \<Rightarrow> int \<Rightarrow>
    allocation_error + movement_option" where
  "directOption alphaHash c source target template sourceArrivalMs targetDepartureMs =
     (let allocationId = cnId c @ '':direct:'' @ dtId template in
      bnd (resourcesFor (dtResourceIds template) sourceArrivalMs targetDepartureMs allocationId ''direct'') (\<lambda>used.
      bnd (terminalOccupancy (dtTerminalIntervals template) sourceArrivalMs targetDepartureMs allocationId ''terminal'') (\<lambda>occupied.
      bnd (case dtThrough template of
             None \<Rightarrow> Inr []
           | Some through \<Rightarrow>
               let throughDepartureMs = js_sub targetDepartureMs (drMinimumRuntimeMs through) in
               invariant (throughDepartureMs \<ge> js_add sourceArrivalMs MOVEMENT_PASSENGER_DWELL_MS) (Allocation (cnId c @ '' Through-Bewegung''))
              (bnd (dispatchStage alphaHash c ''through'' ''train'' through throughDepartureMs source) (\<lambda>s. Inr [s]))) (\<lambda>stages.
      Inr \<lparr>moContinuity = c, moSource = source, moTarget = target, moKind = (if dtThrough template = None then ''direct'' else ''through''),
        moTemplateId = dtId template, moTargetDispatch = dtOutbound template, moStages = stages, moReservations = used @ occupied\<rparr>))))"

definition berthsAgree :: "stabling_template \<Rightarrow> allocation_error + unit" where
  "berthsAgree template =
     invariant (\<not> slHasLegacyBerth template) (Allocation (slId template @ '' Legacy-Berth''))
    (invariant (slStablingKind template = ''shared-berth'' \<or> slStablingKind template = ''cross-berth-transfer'')
       (Allocation (slId template @ '' Abstellart''))
    (let sameBerth = (slArrivalBerth template = slDepartureBerth template) in
     if slStablingKind template = ''shared-berth''
     then invariant (sameBerth \<and> slBerthTransfer template = None) (Allocation (slId template @ '' Shared-Berth'')) (Inr ())
     else invariant (\<not> sameBerth \<and> slBerthTransfer template \<noteq> None) (Allocation (slId template @ '' Cross-Berth-Transfer'')) (Inr ())))"

definition berthStay :: "(string \<Rightarrow> jsval \<Rightarrow> string) \<Rightarrow> continuity \<Rightarrow> passenger_train \<Rightarrow> stabling_template \<Rightarrow> string \<Rightarrow> int \<Rightarrow> int \<Rightarrow> int \<Rightarrow>
    allocation_error + reservation list \<times> movement_stage list" where
  "berthStay alphaHash c source template allocationId shuntInArrivalMs shuntOutDepartureMs shuntOutArrivalMs =
     (case slBerthTransfer template of
        None \<Rightarrow>
          bnd (trackReservation (track_interval.truncate (slArrivalBerth template)) shuntInArrivalMs shuntOutArrivalMs allocationId ''berth'') (\<lambda>r.
          Inr ([r], []))
      | Some transfer \<Rightarrow>
          let arrivalMs = shuntOutDepartureMs; departureMs = js_sub arrivalMs (drMinimumRuntimeMs transfer) in
          bnd (trackReservation (track_interval.truncate (slArrivalBerth template)) shuntInArrivalMs arrivalMs allocationId ''arrival-berth'') (\<lambda>a.
          bnd (resourcesFor (drResourceIds transfer) departureMs arrivalMs allocationId ''berth-transfer'') (\<lambda>used.
          bnd (trackReservation (track_interval.truncate (slDepartureBerth template)) arrivalMs shuntOutArrivalMs allocationId ''departure-berth'') (\<lambda>d.
          bnd (dispatchStage alphaHash c ''berth-transfer'' ''shunting'' transfer departureMs source) (\<lambda>stage.
          Inr (a # used @ [d], [stage]))))))"

definition stablingOption :: "(string \<Rightarrow> jsval \<Rightarrow> string) \<Rightarrow> continuity \<Rightarrow> passenger_train \<Rightarrow> passenger_train \<Rightarrow> stabling_template \<Rightarrow> int \<Rightarrow> int \<Rightarrow>
    allocation_error + movement_option" where
  "stablingOption alphaHash c source target template sourceArrivalMs targetDepartureMs =
     (let allocationId = cnId c @ '':stabling:'' @ slId template in
      bnd (berthsAgree template) (\<lambda>_.
      let shuntInDepartureMs = js_add sourceArrivalMs MOVEMENT_PASSENGER_DWELL_MS;
          shuntInArrivalMs = js_add shuntInDepartureMs (drMinimumRuntimeMs (slShuntIn template));
          shuntOutDepartureMs = js_sub targetDepartureMs (drMinimumRuntimeMs (slShuntOut template));
          leaveMs = (case slBerthTransfer template of None \<Rightarrow> shuntOutDepartureMs
            | Some transfer \<Rightarrow> js_sub shuntOutDepartureMs (drMinimumRuntimeMs transfer))
      in invariant (shuntInArrivalMs \<le> leaveMs) (StablingWindow (cnId c) (slId template))
        (bnd (terminalOccupancy (slTerminalIntervals template) sourceArrivalMs shuntInArrivalMs allocationId ''terminal-clearance'') (\<lambda>cleared.
         bnd (resourcesFor (drResourceIds (slShuntIn template)) shuntInDepartureMs shuntInArrivalMs allocationId ''shunt-in'') (\<lambda>inbound.
         bnd (dispatchStage alphaHash c ''shunt-in'' ''shunting'' (slShuntIn template) shuntInDepartureMs source) (\<lambda>stageIn.
         bnd (berthStay alphaHash c source template allocationId shuntInArrivalMs shuntOutDepartureMs targetDepartureMs) (\<lambda>(stay, between).
         bnd (resourcesFor (drResourceIds (slShuntOut template)) shuntOutDepartureMs targetDepartureMs allocationId ''shunt-out'') (\<lambda>outbound.
         bnd (dispatchStage alphaHash c ''shunt-out'' ''shunting'' (slShuntOut template) shuntOutDepartureMs source) (\<lambda>stageOut.
         Inr \<lparr>moContinuity = c, moSource = source, moTarget = target, moKind = ''stabling'', moTemplateId = slId template,
           moTargetDispatch = slOutbound template, moStages = stageIn # between @ [stageOut],
           moReservations = cleared @ inbound @ stay @ outbound\<rparr>)))))))))"

definition transferOption :: "(string \<Rightarrow> jsval \<Rightarrow> string) \<Rightarrow> continuity \<Rightarrow> passenger_train \<Rightarrow> passenger_train \<Rightarrow> transfer_template \<Rightarrow> int \<Rightarrow>
    allocation_error + movement_option" where
  "transferOption alphaHash c source target template departureMs =
     (let allocationId = cnId c @ '':transfer:'' @ ttId template;
          arrivalMs = js_add departureMs (drMinimumRuntimeMs (ttTransfer template)) in
      bnd (dispatchStage alphaHash c ''transfer'' (ttMovementKind template) (ttTransfer template) departureMs source) (\<lambda>stage.
      bnd (resourcesFor (ttResourceIds template) departureMs arrivalMs allocationId ''transfer'') (\<lambda>used.
      Inr \<lparr>moContinuity = c, moSource = source, moTarget = target, moKind = ''transfer'', moTemplateId = ttId template,
        moTargetDispatch = ttTargetOutbound template, moStages = [stage], moReservations = used\<rparr>)))"

section \<open>Requests\<close>

definition rolloverKey :: "string \<Rightarrow> string \<Rightarrow> string" where
  "rolloverKey s t = s @ CHR 0x00 # t"

definition addRolloverKey :: "(string \<times> circulation) list \<Rightarrow> rollover \<Rightarrow> string list \<Rightarrow> allocation_error + string list" where
  "addRolloverKey circulations assignment keys =
     (case (map_of circulations (roSourceCirculationId assignment), map_of circulations (roTargetCirculationId assignment)) of
        (Some source, Some target) \<Rightarrow>
          invariant (ccTrainRunIds source \<noteq> [] \<and> ccTrainRunIds target \<noteq> []) (Allocation ''Passenger-Endpunkte'')
         (let key = rolloverKey (last (ccTrainRunIds source)) (hd (ccTrainRunIds target)) in
          invariant (key \<notin> set keys) (Allocation ''doppelter Rollover'') (Inr (keys @ [key])))
      | _ \<Rightarrow> Inl (Allocation ''unbekannte Circulation''))"

definition rolloverContinuityKeys :: "daily_plan \<Rightarrow> allocation_error + string list" where
  "rolloverContinuityKeys plan =
     (let circulations = map_from (map (\<lambda>c. (ccId c, c)) (dpCirculations plan)) in
      invariant (length circulations = length (dpCirculations plan)) (Allocation ''doppelte Circulation-IDs'')
        (fold_res (addRolloverKey circulations) (dpRolloverAssignments plan) []))"

record continuity_times =
  ctSourceArrivalMs :: int
  ctTargetDepartureMs :: int
  ctPhaseOffsetMs :: int

definition continuityTimes :: "continuity \<Rightarrow> int \<Rightarrow> allocation_error + continuity_times" where
  "continuityTimes c repeatEveryMs =
     bnd (alInteger (cnSourcePhase c) (cnId c @ ''.sourcePhase'') 0) (\<lambda>sourcePhase.
     invariant (sourcePhase \<le> 1) (Allocation (cnId c @ ''.sourcePhase''))
    (let phaseOffsetMs = js_mul sourcePhase repeatEveryMs in
     bnd (alInteger (cnSourceArrivalS c) (cnId c @ ''.sourceArrivalS'') 0) (\<lambda>arrivalS.
     let sourceArrivalMs = js_sub (js_mul arrivalS 1000) phaseOffsetMs in
     bnd (alInteger (cnTargetDepartureS c) (cnId c @ ''.targetDepartureS'') 0) (\<lambda>departureS.
     let targetDepartureMs = js_sub (js_mul departureS 1000) phaseOffsetMs in
     invariant (sourceArrivalMs \<ge> 0 \<and> targetDepartureMs > sourceArrivalMs) (Allocation (cnId c @ '' Zeitfenster''))
    (invariant (targetDepartureMs < js_mul repeatEveryMs 2) (Allocation (cnId c @ '' Programmphasen''))
    (Inr \<lparr>ctSourceArrivalMs = sourceArrivalMs, ctTargetDepartureMs = targetDepartureMs, ctPhaseOffsetMs = phaseOffsetMs\<rparr>))))))"

definition compareStabling :: "stabling_template \<Rightarrow> stabling_template \<Rightarrow> int" where
  "compareStabling left right =
     (let rank = js_sub (slCandidateRank left) (slCandidateRank right) in if rank \<noteq> 0 then rank else compareText (slId left) (slId right))"

text \<open>The stabling options, without those whose window is missing.\<close>

fun stablingOptions :: "(stabling_template \<Rightarrow> allocation_error + movement_option) \<Rightarrow> stabling_template list \<Rightarrow> allocation_error + movement_option list" where
  "stablingOptions build [] = Inr []"
| "stablingOptions build (t # ts) =
     (case build t of
        Inl (StablingWindow c i) \<Rightarrow> stablingOptions build ts
      | Inl e \<Rightarrow> Inl e
      | Inr opt \<Rightarrow> bnd (stablingOptions build ts) (\<lambda>opts. Inr (opt # opts)))"

definition sameLocationOptions :: "(string \<Rightarrow> jsval \<Rightarrow> string) \<Rightarrow> continuity \<Rightarrow> passenger_train \<Rightarrow> passenger_train \<Rightarrow> movement_route_plan \<Rightarrow> int \<Rightarrow>
    allocation_error + movement_option list" where
  "sameLocationOptions alphaHash c source target plan repeatEveryMs =
     (let formationLengthMm = ptrFormationLengthMm source in
      bnd (baseRouteVersionId source) (\<lambda>inbound.
      bnd (baseRouteVersionId target) (\<lambda>outbound.
      bnd (continuityTimes c repeatEveryMs) (\<lambda>times.
      let arrival = ctSourceArrivalMs times; departure = ctTargetDepartureMs times; dwellMs = js_sub departure arrival in
      invariant (dwellMs \<ge> MOVEMENT_PASSENGER_DWELL_MS) (Allocation (cnId c @ '' Mindestwendezeit''))
     (let directs = filter (\<lambda>t. dtInboundRouteVersionId t = inbound \<and> dtOutboundRouteVersionId t = outbound \<and> dtFormationLengthMm t = formationLengthMm)
            (mrDirectTemplates plan) in
      invariant (length directs \<le> 1) (Allocation (cnId c @ '' Direct-Template''))
     (bnd (if length directs = 1 \<and> dwellMs \<le> MAXIMUM_DIRECT_DWELL_MS
           then map_res (\<lambda>t. directOption alphaHash c source target t arrival departure) directs else Inr []) (\<lambda>direct.
      bnd (stablingOptions (\<lambda>t. stablingOption alphaHash c source target t arrival departure)
            (sort_by compareStabling (filter (\<lambda>t. slInboundRouteVersionId t = inbound \<and> slOutboundRouteVersionId t = outbound \<and>
               slFormationLengthMm t = formationLengthMm) (mrTemplates plan)))) (\<lambda>stabling.
      let options = direct @ stabling in
      invariant (length options > 0) (Allocation (cnId c @ '' weder Direct-Wende noch Abstellpfad'')) (Inr options)))))))))"

record same_location_request =
  slrContinuity :: continuity
  slrOptions :: "movement_option list"

record transfer_request =
  trqContinuity :: continuity
  trqSource :: passenger_train
  trqTarget :: passenger_train
  trqTemplate :: transfer_template
  trqEarliestDepartureMs :: int
  trqLatestDepartureMs :: int
  trqSlackMs :: int

definition transferRequest :: "continuity \<Rightarrow> passenger_train \<Rightarrow> passenger_train \<Rightarrow> movement_route_plan \<Rightarrow> int \<Rightarrow> allocation_error + transfer_request" where
  "transferRequest c source target plan repeatEveryMs =
     (let demanded = filter (\<lambda>t. Some (ttDemandId t) = cnTransferDemandId c \<and> ttFormationLengthMm t = ptrFormationLengthMm source)
            (mrTransferTemplates plan) in
     bnd (if demanded = [] then Inr [] else baseRouteVersionId source) (\<lambda>inbound.
     let fromSource = filter (\<lambda>t. ttSourcePassengerRouteVersionId t = inbound) demanded in
     bnd (if fromSource = [] then Inr [] else baseRouteVersionId target) (\<lambda>outbound.
     case filter (\<lambda>t. ttTargetPassengerRouteVersionId t = outbound) fromSource of
       [template] \<Rightarrow>
         bnd (continuityTimes c repeatEveryMs) (\<lambda>times.
         let earliest = max (js_add (ctSourceArrivalMs times) MOVEMENT_PASSENGER_DWELL_MS)
               (js_sub (js_mul (ttEarliestDepartureS template) 1000) (ctPhaseOffsetMs times));
             latestArrival = min (ctTargetDepartureMs times) (js_sub (js_mul (ttLatestArrivalS template) 1000) (ctPhaseOffsetMs times));
             latest = js_sub latestArrival (drMinimumRuntimeMs (ttTransfer template))
         in invariant (earliest \<le> latest) (Allocation (cnId c @ '' Transferfenster''))
           (Inr \<lparr>trqContinuity = c, trqSource = source, trqTarget = target, trqTemplate = template, trqEarliestDepartureMs = earliest,
              trqLatestDepartureMs = latest, trqSlackMs = js_sub latest earliest\<rparr>))
     | _ \<Rightarrow> Inl (Allocation (cnId c @ '' Transfer-Template'')))))"

section \<open>The choice\<close>

text \<open>
  The closure \<open>search\<close>, of which the code has two: \<open>candidates\<close> lists what may be tried for a request
  under the reservations held, \<open>build\<close> turns a candidate into an option, \<open>blocked\<close> skips it. The number of
  calls is counted; reservations and choices are dropped again when the rest fails, so they are
  arguments here.
\<close>

definition SEARCH_LIMIT :: int where
  "SEARCH_LIMIT = 2000000"

primrec first_success :: "('c \<Rightarrow> int \<Rightarrow> allocation_error + int \<times> 'a option) \<Rightarrow> 'c list \<Rightarrow> int \<Rightarrow> allocation_error + int \<times> 'a option" where
  "first_success try [] explored = Inr (explored, None)"
| "first_success try (c # cs) explored =
     bnd (try c explored) (\<lambda>(explored', r). case r of Some x \<Rightarrow> Inr (explored', Some x) | None \<Rightarrow> first_success try cs explored')"

primrec search_options :: "('r \<Rightarrow> reservation list \<Rightarrow> 'c list) \<Rightarrow> ('r \<Rightarrow> 'c \<Rightarrow> allocation_error + movement_option) \<Rightarrow>
    (movement_option \<Rightarrow> reservation list \<Rightarrow> bool) \<Rightarrow> string \<Rightarrow> 'r list \<Rightarrow> reservation list \<Rightarrow> int \<Rightarrow>
    allocation_error + int \<times> movement_option list option" where
  "search_options candidates build blocked what [] reservations explored =
     invariant (explored + 1 \<le> SEARCH_LIMIT) (SearchLimit what) (Inr (explored + 1, Some []))"
| "search_options candidates build blocked what (request # rest) reservations explored =
     invariant (explored + 1 \<le> SEARCH_LIMIT) (SearchLimit what)
       (first_success
         (\<lambda>c n. bnd (build request c) (\<lambda>opt.
            if blocked opt reservations then Inr (n, None)
            else bnd (search_options candidates build blocked what rest (reservations @ moReservations opt) n) (\<lambda>(m, r).
                 Inr (m, map_option (\<lambda>opts. opt # opts) r))))
         (candidates request reservations) (explored + 1))"

definition takeFixed :: "int \<Rightarrow> same_location_request \<Rightarrow> movement_option list \<Rightarrow> allocation_error + movement_option list" where
  "takeFixed repeatEveryMs request chosen =
     (let opt = hd (slrOptions request) in
      invariant (\<not> optionConflicts opt (concat (map moReservations chosen)) repeatEveryMs)
        (Allocation (cnId (slrContinuity request) @ '' kollidiert ohne alternativen Pfad'')) (Inr (chosen @ [opt])))"

definition compareFlexible :: "same_location_request \<Rightarrow> same_location_request \<Rightarrow> int" where
  "compareFlexible left right =
     (let count = int (length (slrOptions left)) - int (length (slrOptions right)) in
      if count \<noteq> 0 then count else compareText (cnId (slrContinuity left)) (cnId (slrContinuity right)))"

text \<open>The choice is the list of the options in the order they were taken, with their reservations.\<close>

definition chooseSameLocationOptions :: "same_location_request list \<Rightarrow> int \<Rightarrow> allocation_error + movement_option list" where
  "chooseSameLocationOptions requests repeatEveryMs =
     invariant (\<forall>request \<in> set requests. \<forall>opt \<in> set (slrOptions request). \<not> optionHasInternalConflict opt repeatEveryMs)
       (Allocation ''intern kollidierende Bewegungsbelegungen'')
    (bnd (fold_res (takeFixed repeatEveryMs)
           (sort_by (\<lambda>l r. compareText (cnId (slrContinuity l)) (cnId (slrContinuity r))) (filter (\<lambda>r. length (slrOptions r) = 1) requests)) []) (\<lambda>fixed.
     bnd (search_options (\<lambda>request reservations. slrOptions request) (\<lambda>request opt. Inr opt)
           (\<lambda>opt reservations. optionConflicts opt reservations repeatEveryMs) ''Direct-/Abstellzuweisung''
           (sort_by compareFlexible (filter (\<lambda>r. length (slrOptions r) > 1) requests)) (concat (map moReservations fixed)) 0) (\<lambda>(explored, found).
     case found of
       None \<Rightarrow> Inl (Allocation ''nicht konfliktfrei'')
     | Some flexible \<Rightarrow> Inr (fixed @ flexible))))"

text \<open>\<open>Math.floor\<close> and \<open>Math.ceil\<close> of a quotient of safe integers; the margin of one covers their rounding.\<close>

definition shiftsOf :: "int \<Rightarrow> int \<Rightarrow> int \<Rightarrow> reservation \<Rightarrow> int \<Rightarrow> int list" where
  "shiftsOf earliestMs latestMs runtimeMs r repeatEveryMs =
     [js_sub earliestMs (rzEndMs r) div repeatEveryMs - 1 ..
      - ((- js_sub (js_add latestMs runtimeMs) (rzStartMs r)) div repeatEveryMs) + 1]"

definition transferStartCandidates :: "int \<Rightarrow> int \<Rightarrow> int \<Rightarrow> reservation list \<Rightarrow> int \<Rightarrow> int list" where
  "transferStartCandidates earliestMs latestMs runtimeMs reservations repeatEveryMs =
     sort_by (\<lambda>left right. js_sub right left) (remdups (earliestMs # latestMs #
       filter (\<lambda>candidate. candidate \<ge> earliestMs \<and> candidate \<le> latestMs)
         (concat (map (\<lambda>r. concat (map (\<lambda>i. let shift = js_mul i repeatEveryMs in
              [js_sub (js_add (rzStartMs r) shift) runtimeMs, js_add (rzEndMs r) shift])
            (shiftsOf earliestMs latestMs runtimeMs r repeatEveryMs))) reservations))))"

definition compareTransferRequest :: "transfer_request \<Rightarrow> transfer_request \<Rightarrow> int" where
  "compareTransferRequest left right =
     (let slack = js_sub (trqSlackMs left) (trqSlackMs right) in
      if slack \<noteq> 0 then slack else compareText (cnId (trqContinuity left)) (cnId (trqContinuity right)))"

definition chooseTransferOptions :: "(string \<Rightarrow> jsval \<Rightarrow> string) \<Rightarrow> transfer_request list \<Rightarrow> reservation list \<Rightarrow> int \<Rightarrow>
    allocation_error + movement_option list" where
  "chooseTransferOptions alphaHash requests reservations repeatEveryMs =
     bnd (search_options
           (\<lambda>q. \<lambda>held. transferStartCandidates (trqEarliestDepartureMs q) (trqLatestDepartureMs q) (drMinimumRuntimeMs (ttTransfer (trqTemplate q))) held repeatEveryMs)
           (\<lambda>q. transferOption alphaHash (trqContinuity q) (trqSource q) (trqTarget q) (trqTemplate q))
           (\<lambda>opt held. optionHasInternalConflict opt repeatEveryMs \<or> optionConflicts opt held repeatEveryMs) ''Transferzuweisung''
           (sort_by compareTransferRequest requests) reservations 0) (\<lambda>(explored, found).
     case found of
       None \<Rightarrow> Inl (Allocation ''keine konfliktfreie periodische Gesamtzuweisung'')
     | Some chosen \<Rightarrow> Inr chosen)"

section \<open>The graph of trains\<close>

definition is_control :: "char \<Rightarrow> bool" where
  "is_control c \<longleftrightarrow> (of_char c :: nat) < 32 \<or> (of_char c :: nat) = 127"

definition trailingDigits :: "string \<Rightarrow> string" where
  "trailingDigits s = rev (takeWhile is_digit (rev s))"

text \<open>
  \<open>OPERATIONAL_TRAIN_NUMBER_PATTERN\<close>: one to five digits at the end, not all of them zero, after nothing or
  after a character that is no digit.
\<close>

definition operationalTrainNumberNumericPart :: "string \<Rightarrow> int option" where
  "operationalTrainNumberNumericPart value =
     (let tail = trailingDigits value in
      if length value > 200 \<or> \<not> trimmed value \<or> (\<exists>c \<in> set value. is_control c) \<or> tail = [] \<or> length tail > 5 \<or> bigint_of tail = 0
      then None else Some (bigint_of tail))"

definition addPassengerNumber :: "passenger_train \<Rightarrow> int list \<Rightarrow> allocation_error + int list" where
  "addPassengerNumber train busy =
     (case operationalTrainNumberNumericPart (ptrTrainNumber train) of
        None \<Rightarrow> Inl (Allocation ''Passenger-Zugnummern'')
      | Some n \<Rightarrow> invariant (n \<notin> set busy) (Allocation ''Passenger-Zugnummern'') (Inr (n # busy)))"

function freeNumber :: "int \<Rightarrow> int list \<Rightarrow> int" where
  "freeNumber candidate busy = (if candidate > 0 \<and> candidate \<in> set busy then freeNumber (candidate - 1) busy else candidate)"
  by auto
termination by (relation "measure (\<lambda>(candidate, busy). nat candidate)") auto

declare freeNumber.simps [simp del]

definition assignNumber :: "movement_stage \<Rightarrow> (string \<times> string) list \<times> int list \<times> int \<Rightarrow>
    allocation_error + (string \<times> string) list \<times> int list \<times> int" where
  "assignNumber stage acc =
     (case acc of (assignments, busy, candidate) \<Rightarrow>
      let n = freeNumber candidate busy in
      invariant (n > 0) (Allocation ''keine Bewegungszugnummer mehr frei'')
     (let prefix = (if sgRole stage = ''transfer'' then ''Lr'' else if drMovementKind (sgDispatch stage) = Some ''shunting'' then ''Rf'' else ''Lt'') in
      Inr (AList.update (sgId stage) (prefix @ '' '' @ int_str n) assignments, n # busy, n - 1)))"

definition movementNumberAssignments :: "passenger_train list \<Rightarrow> movement_stage list \<Rightarrow> allocation_error + (string \<times> string) list" where
  "movementNumberAssignments passengerTrains stages =
     bnd (fold_res addPassengerNumber passengerTrains []) (\<lambda>busy.
     bnd (fold_res assignNumber (sort_by (\<lambda>l r. compareText (sgId l) (sgId r)) stages) ([], busy, 99999)) (\<lambda>(assignments, _).
     Inr assignments))"

record continuation_edge =
  ceId :: string
  cePredecessorTrainId :: string
  cePredecessorBaseRouteVersionId :: string
  ceSuccessorTrainId :: string
  ceSuccessorDayOffset :: int
  ceDailyBoundary :: bool
  ceMinimumDwellMs :: int
  ceContinuity :: string
  ceSuccessorFormation :: string

fun stageEdges :: "(string \<Rightarrow> jsval \<Rightarrow> string) \<Rightarrow> string \<Rightarrow> nat \<Rightarrow> string \<Rightarrow> movement_stage list \<Rightarrow> continuation_edge list \<times> string" where
  "stageEdges alphaHash continuityId index predecessor [] = ([], predecessor)"
| "stageEdges alphaHash continuityId index predecessor (stage # rest) =
     (let (edges, final) = stageEdges alphaHash continuityId (index + 1) (sgId stage) rest in
      (\<lparr>ceId = stableContinuationId alphaHash continuityId (''movement-'' @ nat_str index) predecessor (sgId stage),
        cePredecessorTrainId = predecessor, cePredecessorBaseRouteVersionId = drPredecessorBaseRouteVersionId (sgDispatch stage),
        ceSuccessorTrainId = sgId stage, ceSuccessorDayOffset = 0, ceDailyBoundary = False,
        ceMinimumDwellMs = (if index = 0 then MOVEMENT_PASSENGER_DWELL_MS else 0), ceContinuity = drContinuity (sgDispatch stage),
        ceSuccessorFormation = ''inherit-predecessor''\<rparr> # edges, final))"

definition continuationEdges :: "(string \<Rightarrow> jsval \<Rightarrow> string) \<Rightarrow> movement_option \<Rightarrow> bool \<Rightarrow> allocation_error + continuation_edge list" where
  "continuationEdges alphaHash selection dailyBoundary =
     bnd (passengerId (moSource selection)) (\<lambda>sourceId.
     bnd (passengerId (moTarget selection)) (\<lambda>targetId.
     let (edges, predecessor) = stageEdges alphaHash (cnId (moContinuity selection)) 0 sourceId (moStages selection) in
     Inr (edges @ [\<lparr>ceId = stableContinuationId alphaHash (cnId (moContinuity selection)) ''passenger'' predecessor targetId,
       cePredecessorTrainId = predecessor, cePredecessorBaseRouteVersionId = drPredecessorBaseRouteVersionId (moTargetDispatch selection),
       ceSuccessorTrainId = targetId, ceSuccessorDayOffset = cnSuccessorDayOffset (moContinuity selection), ceDailyBoundary = dailyBoundary,
       ceMinimumDwellMs = (if length (moStages selection) = 0 then MOVEMENT_PASSENGER_DWELL_MS else 0),
       ceContinuity = drContinuity (moTargetDispatch selection), ceSuccessorFormation = ''inherit-predecessor''\<rparr>])))"

section \<open>The allocation\<close>

record request_state =
  rqsOutgoing :: "string list"
  rqsIncoming :: "string list"
  rqsSameLocation :: "same_location_request list"
  rqsTransfers :: "transfer_request list"

definition addRequest :: "(string \<Rightarrow> jsval \<Rightarrow> string) \<Rightarrow> (string \<times> passenger_train) list \<Rightarrow> movement_route_plan \<Rightarrow> int \<Rightarrow> continuity \<Rightarrow> request_state \<Rightarrow>
    allocation_error + request_state" where
  "addRequest alphaHash passengerById plan repeatEveryMs c st =
     (case (map_of passengerById (cnSourceTrainRunId c), map_of passengerById (cnTargetTrainRunId c)) of
        (Some source, Some target) \<Rightarrow>
          bnd (passengerId source) (\<lambda>sourceId. bnd (passengerId target) (\<lambda>targetId.
          invariant (sourceId \<notin> set (rqsOutgoing st) \<and> targetId \<notin> set (rqsIncoming st)) (Allocation (cnId c @ '' 1-in/1-out''))
         (bnd (alInteger (ptrFormationLengthMm source) (sourceId @ ''.formationLengthMm'') 1) (\<lambda>_.
          invariant (ptrFormationLengthMm source = ptrFormationLengthMm target \<and> ptrInstalledProtection source = ptrInstalledProtection target)
            (Allocation (cnId c @ '' Asset-Kompatibilitaet''))
         (let phaseMs = js_mul (cnSourcePhase c) repeatEveryMs in
          invariant (ptrScheduledDepartureMs source = js_sub (js_mul (cnSourceDepartureS c) 1000) phaseMs) (Allocation (cnId c @ '' Rohphase''))
         (invariant (js_add (ptrScheduledDepartureMs target) (js_mul (cnSuccessorDayOffset c) repeatEveryMs) =
              js_sub (js_mul (cnTargetDepartureS c) 1000) phaseMs) (Allocation (cnId c @ '' Zielphase''))
         (let st' = st\<lparr>rqsOutgoing := rqsOutgoing st @ [sourceId], rqsIncoming := rqsIncoming st @ [targetId]\<rparr> in
          if cnRelation c = ''same-location''
          then bnd (sameLocationOptions alphaHash c source target plan repeatEveryMs) (\<lambda>options.
               Inr (st'\<lparr>rqsSameLocation := rqsSameLocation st @ [\<lparr>slrContinuity = c, slrOptions = options\<rparr>]\<rparr>))
          else invariant (cnRelation c = ''transfer'' \<and> cnTransferDemandId c \<noteq> None) (Allocation (cnId c @ '' Relation''))
              (bnd (transferRequest c source target plan repeatEveryMs) (\<lambda>q.
               Inr (st'\<lparr>rqsTransfers := rqsTransfers st @ [q]\<rparr>))))))))))
      | _ \<Rightarrow> Inl (Allocation (cnId c @ '' unbekannter Passenger-Zug'')))"

record movement_assignment =
  maContinuityId :: string
  maSourcePassengerTrainId :: string
  maTargetPassengerTrainId :: string
  maKind :: string
  maTemplateId :: string
  maMovementTrainIds :: "string list"
  maDailyBoundary :: bool

record movement_graph =
  mgDispatchById :: "(string \<times> dispatch_route) list"
  mgStages :: "movement_stage list"
  mgContinuations :: "continuation_edge list"
  mgAllocations :: "movement_assignment list"
  mgBoundaryCount :: nat

definition addSelection :: "(string \<Rightarrow> jsval \<Rightarrow> string) \<Rightarrow> (string \<times> movement_option) list \<Rightarrow> string list \<Rightarrow> continuity \<Rightarrow> movement_graph \<Rightarrow>
    allocation_error + movement_graph" where
  "addSelection alphaHash chosen rolloverKeys c g =
     (case map_of chosen (cnId c) of
        None \<Rightarrow> Inl (Allocation (cnId c @ '' keine gewaehlte Bewegungskette''))
      | Some selection \<Rightarrow>
          bnd (passengerId (moTarget selection)) (\<lambda>targetId.
          invariant (map_of (mgDispatchById g) targetId = None) (Allocation (targetId @ '' mehrere Eingangsdispatches''))
         (bnd (passengerId (moSource selection)) (\<lambda>sourceId.
          let dailyBoundary = (rolloverKey sourceId targetId \<in> set rolloverKeys) in
          bnd (continuationEdges alphaHash selection dailyBoundary) (\<lambda>edges.
          Inr \<lparr>mgDispatchById = AList.update targetId (moTargetDispatch selection) (mgDispatchById g),
            mgStages = mgStages g @ moStages selection, mgContinuations = mgContinuations g @ edges,
            mgAllocations = mgAllocations g @ [\<lparr>maContinuityId = cnId c, maSourcePassengerTrainId = sourceId, maTargetPassengerTrainId = targetId,
              maKind = moKind selection, maTemplateId = moTemplateId selection, maMovementTrainIds = map sgId (moStages selection),
              maDailyBoundary = dailyBoundary\<rparr>],
            mgBoundaryCount = mgBoundaryCount g + (if dailyBoundary then 1 else 0)\<rparr>)))))"

record stop_plan =
  pspTrainRunId :: string
  pspRouteVersionId :: string
  pspRest :: jsval

record program_train =
  pgId :: string
  pgTrainNumber :: "string option"
  pgOperatorId :: string
  pgMovementKind :: string
  pgRouteVersionId :: string
  pgDispatchInterlockingRouteId :: string
  pgFormationVersionId :: string
  pgHeadRouteMm :: int
  pgScheduledDepartureMs :: int
  pgPublicPassengerStop :: bool
  pgProtectionModeSelectionRuns :: jsval
  pgStopPlan :: "stop_plan option"

type_synonym protection_choice = "protection_run list \<Rightarrow> int \<Rightarrow> string list \<Rightarrow> string \<Rightarrow> allocation_error + jsval"

definition protectionModeSelection :: "protection_choice \<Rightarrow> dispatch_route \<Rightarrow> string list \<Rightarrow> string \<Rightarrow> allocation_error + jsval" where
  "protectionModeSelection select dispatch installedProtection what =
     select (drProtectionContractRuns dispatch) (drRouteLegCount dispatch) installedProtection what"

definition passengerProgram :: "protection_choice \<Rightarrow> (string \<times> dispatch_route) list \<Rightarrow> passenger_train \<Rightarrow> allocation_error + program_train" where
  "passengerProgram select dispatchById passenger =
     bnd (passengerId passenger) (\<lambda>i.
     case map_of dispatchById i of
       None \<Rightarrow> Inl (Allocation (i @ '' kein Passenger-Dispatch''))
     | Some dispatch \<Rightarrow>
         bnd (operatorIdOf passenger) (\<lambda>operatorId.
         bnd (protectionModeSelection select dispatch (ptrInstalledProtection passenger) (''Passenger-Zielroute '' @ i)) (\<lambda>runs.
         Inr \<lparr>pgId = i, pgTrainNumber = Some (ptrTrainNumber passenger), pgOperatorId = operatorId, pgMovementKind = ''train'',
           pgRouteVersionId = drRouteVersionId dispatch, pgDispatchInterlockingRouteId = drDispatchInterlockingRouteId dispatch,
           pgFormationVersionId = ptrFormationVersionId passenger, pgHeadRouteMm = drHeadRouteMm dispatch,
           pgScheduledDepartureMs = ptrScheduledDepartureMs passenger, pgPublicPassengerStop = True,
           pgProtectionModeSelectionRuns = runs, pgStopPlan = None\<rparr>)))"

definition movementProgram :: "protection_choice \<Rightarrow> (string \<times> passenger_train) list \<Rightarrow> (string \<times> string) list \<Rightarrow> movement_stage \<Rightarrow>
    allocation_error + program_train" where
  "movementProgram select passengerById numbers stage =
     (case map_of passengerById (sgSourcePassengerTrainId stage) of
        None \<Rightarrow> Inl (Allocation (sgSourcePassengerTrainId stage))
      | Some passenger \<Rightarrow>
          bnd (operatorIdOf passenger) (\<lambda>operatorId.
          bnd (protectionModeSelection select (sgDispatch stage) (sgInstalledProtection stage) (''Movement-Zielroute '' @ sgId stage)) (\<lambda>runs.
          Inr \<lparr>pgId = sgId stage, pgTrainNumber = map_of numbers (sgId stage), pgOperatorId = operatorId, pgMovementKind = sgMovementKind stage,
            pgRouteVersionId = drRouteVersionId (sgDispatch stage), pgDispatchInterlockingRouteId = drDispatchInterlockingRouteId (sgDispatch stage),
            pgFormationVersionId = sgFormationVersionId stage, pgHeadRouteMm = drHeadRouteMm (sgDispatch stage),
            pgScheduledDepartureMs = sgScheduledDepartureMs stage, pgPublicPassengerStop = False,
            pgProtectionModeSelectionRuns = runs, pgStopPlan = None\<rparr>)))"

definition compareProgram :: "program_train \<Rightarrow> program_train \<Rightarrow> int" where
  "compareProgram l r =
     (let time = js_sub (pgScheduledDepartureMs l) (pgScheduledDepartureMs r) in if time \<noteq> 0 then time else compareText (pgId l) (pgId r))"

definition compareReservation :: "reservation \<Rightarrow> reservation \<Rightarrow> int" where
  "compareReservation l r =
     (let time = js_sub (rzStartMs l) (rzStartMs r); allocation = compareText (rzAllocationId l) (rzAllocationId r) in
      if time \<noteq> 0 then time else if allocation \<noteq> 0 then allocation else compareText (rzStage l) (rzStage r))"

record allocation_metrics =
  amPassengerTrainCount :: nat
  amMovementTrainCount :: nat
  amDirectCount :: nat
  amThroughCount :: nat
  amStablingCount :: nat
  amTransferCount :: nat
  amDailyBoundaryCount :: nat
  amReservationCount :: nat

record movement_allocation =
  alSchema :: string
  alProgramTrains :: "program_train list"
  alContinuations :: "continuation_edge list"
  alAllocations :: "movement_assignment list"
  alReservations :: "reservation list"
  alMetrics :: allocation_metrics

definition kindCount :: "string \<Rightarrow> movement_assignment list \<Rightarrow> nat" where
  "kindCount kind allocations = length (filter (\<lambda>a. maKind a = kind) allocations)"

definition finishAllocation :: "protection_choice \<Rightarrow> (string \<times> passenger_train) list \<Rightarrow> passenger_train list \<Rightarrow> movement_graph \<Rightarrow> reservation list \<Rightarrow>
    allocation_error + movement_allocation" where
  "finishAllocation select passengerById passengerTrains g held =
     bnd (movementNumberAssignments passengerTrains (mgStages g)) (\<lambda>numbers.
     bnd (map_res (passengerProgram select (mgDispatchById g)) passengerTrains) (\<lambda>passengers.
     bnd (map_res (movementProgram select passengerById numbers) (mgStages g)) (\<lambda>movements.
     let programTrains = sort_by compareProgram (passengers @ movements);
         continuations = sort_by (\<lambda>l r. compareText (ceId l) (ceId r)) (mgContinuations g);
         allocations = sort_by (\<lambda>l r. compareText (maContinuityId l) (maContinuityId r)) (mgAllocations g);
         reservations = sort_by compareReservation held
     in invariant (length continuations = length programTrains) (Allocation ''1-in/1-out-Basisgraph'')
       (Inr \<lparr>alSchema = MOVEMENT_ROUTE_ALLOCATION_SCHEMA, alProgramTrains = programTrains, alContinuations = continuations,
          alAllocations = allocations, alReservations = reservations,
          alMetrics = \<lparr>amPassengerTrainCount = length passengerTrains, amMovementTrainCount = length (mgStages g),
            amDirectCount = kindCount ''direct'' allocations, amThroughCount = kindCount ''through'' allocations,
            amStablingCount = kindCount ''stabling'' allocations, amTransferCount = kindCount ''transfer'' allocations,
            amDailyBoundaryCount = mgBoundaryCount g, amReservationCount = length reservations\<rparr>\<rparr>))))"

definition passengersById :: "passenger_train list \<Rightarrow> allocation_error + (string \<times> passenger_train) list" where
  "passengersById trains =
     bnd (map_res (\<lambda>t. bnd (passengerId t) (\<lambda>i. Inr (i, t))) trains) (\<lambda>entries.
     invariant (length (map_from entries) = length trains) (Allocation ''doppelte Passenger-Zug-IDs'') (Inr (map_from entries)))"

text \<open>Requests and options chosen: the part before the graph.\<close>

definition chooseOptions :: "(string \<Rightarrow> jsval \<Rightarrow> string) \<Rightarrow> continuity list \<Rightarrow> (string \<times> passenger_train) list \<Rightarrow> movement_route_plan \<Rightarrow> int \<Rightarrow>
    allocation_error + movement_option list" where
  "chooseOptions alphaHash continuities passengerById plan repeatEveryMs =
     bnd (fold_res (addRequest alphaHash passengerById plan repeatEveryMs) continuities
            \<lparr>rqsOutgoing = [], rqsIncoming = [], rqsSameLocation = [], rqsTransfers = []\<rparr>) (\<lambda>st.
     invariant (length (rqsIncoming st) = length passengerById \<and> length (rqsOutgoing st) = length passengerById)
       (Allocation ''nicht jeder Passenger-Zug genau einmal'')
    (bnd (chooseSameLocationOptions (rqsSameLocation st) repeatEveryMs) (\<lambda>same.
     bnd (chooseTransferOptions alphaHash (rqsTransfers st) (concat (map moReservations same)) repeatEveryMs) (\<lambda>transfers.
     Inr (same @ transfers)))))"

definition allocateMovementRoutePlanV2 :: "(string \<Rightarrow> jsval \<Rightarrow> string) \<Rightarrow> protection_choice \<Rightarrow> daily_plan \<Rightarrow> continuity list \<Rightarrow> passenger_train list \<Rightarrow>
    movement_route_plan \<Rightarrow> int \<Rightarrow> allocation_error + movement_allocation" where
  "allocateMovementRoutePlanV2 alphaHash select dailyPlan continuities passengerTrains plan repeatEveryMs =
     bnd (alInteger repeatEveryMs ''Movement-Wiederholungszeit'' 1) (\<lambda>_.
     invariant (length continuities > 0) (Allocation ''keine DailyPlan-Fortsetzungen'')
    (invariant (length passengerTrains = length continuities) (Allocation ''genau ein Passenger-Templatezug je Fortsetzung'')
    (bnd (passengersById passengerTrains) (\<lambda>passengerById.
     bnd (rolloverContinuityKeys dailyPlan) (\<lambda>rolloverKeys.
     bnd (chooseOptions alphaHash continuities passengerById plan repeatEveryMs) (\<lambda>options.
     let chosen = map_from (map (\<lambda>opt. (cnId (moContinuity opt), opt)) options) in
     invariant (length chosen = length continuities) (Allocation ''nicht jede DailyPlan-Fortsetzung belegt'')
    (bnd (fold_res (addSelection alphaHash chosen rolloverKeys) (sort_by (\<lambda>l r. compareText (cnId l) (cnId r)) continuities)
            \<lparr>mgDispatchById = [], mgStages = [], mgContinuations = [], mgAllocations = [], mgBoundaryCount = 0\<rparr>) (\<lambda>g.
     invariant (mgBoundaryCount g = length (dpRolloverAssignments dailyPlan)) (Allocation ''DailyPlan-Grenzen'')
    (invariant (length (mgDispatchById g) = length passengerTrains) (Allocation ''nicht jede Passenger-Zielroute genau einmal'')
    (finishAllocation select passengerById passengerTrains g (concat (map moReservations options))))))))))))"

definition bindStopPlan :: "(passenger_train \<Rightarrow> program_train \<Rightarrow> allocation_error + stop_plan option) \<Rightarrow> (string \<times> passenger_train) list \<Rightarrow> program_train \<Rightarrow>
    allocation_error + program_train" where
  "bindStopPlan bind passengers materialization =
     (if \<not> pgPublicPassengerStop materialization then Inr materialization
      else case map_of passengers (pgId materialization) of
        None \<Rightarrow> Inl (Allocation ''Personenfahrt der Haltbindung fehlt im Fahrplan'')
      | Some passenger \<Rightarrow> bnd (bind passenger materialization) (\<lambda>p. case p of
          None \<Rightarrow> Inr materialization
        | Some stopPlan \<Rightarrow>
            invariant (pspTrainRunId stopPlan = pgId materialization \<and> pspRouteVersionId stopPlan = pgRouteVersionId materialization)
              (Allocation ''Haltplan bindet eine fremde Fahrt'') (Inr (materialization\<lparr>pgStopPlan := Some stopPlan\<rparr>))))"

definition bindMovementPassengerStopPlansV1 :: "(passenger_train \<Rightarrow> program_train \<Rightarrow> allocation_error + stop_plan option) \<Rightarrow> movement_allocation \<Rightarrow>
    passenger_train list \<Rightarrow> allocation_error + movement_allocation" where
  "bindMovementPassengerStopPlansV1 bind allocation passengerTrains =
     bnd (passengersById passengerTrains) (\<lambda>passengers.
     bnd (map_res (bindStopPlan bind passengers) (alProgramTrains allocation)) (\<lambda>trains. Inr (allocation\<lparr>alProgramTrains := trains\<rparr>)))"

end
