(* ===== verification/MovementConflicts.thy ===== *)
theory MovementConflicts
  imports MovementAllocation TrackRouterCosts
begin

text \<open>
  The reservations of an allocation never conflict, in no repetition of the day: the check of the code
  looks at the neighbouring periods only, which is enough because every option stays within two periods.
  The search for options is complete.
\<close>

section \<open>Clashes over all periods\<close>

definition clash :: "int \<Rightarrow> reservation \<Rightarrow> reservation \<Rightarrow> bool" where
  "clash T l r \<longleftrightarrow> same_place l r \<and> (\<exists>k. max (rzStartMs l) (rzStartMs r + k * T) < min (rzEndMs l) (rzEndMs r + k * T))"

definition conflict_free :: "int \<Rightarrow> reservation list \<Rightarrow> bool" where
  "conflict_free T rs \<longleftrightarrow> sorted_wrt (\<lambda>l r. \<not> clash T l r) rs \<and> (\<forall>r \<in> set rs. rzEndMs r - rzStartMs r \<le> T)"

text \<open>Times within two periods, with a period whose multiples are exact.\<close>

definition in_range :: "int \<Rightarrow> reservation \<Rightarrow> bool" where
  "in_range T r \<longleftrightarrow> 0 \<le> rzStartMs r \<and> rzStartMs r < rzEndMs r \<and> rzEndMs r \<le> 2 * T"

definition period_ok :: "int \<Rightarrow> bool" where
  "period_ok T \<longleftrightarrow> 0 < T \<and> T \<le> 2 ^ 50"

lemma same_place_sym: "same_place l r \<longleftrightarrow> same_place r l"
  by (cases l; cases r) (auto simp: same_place_def)

lemma clash_commutes: "clash T l r \<longleftrightarrow> clash T r l"
proof -
  have "clash T r l" if clash: "clash T l r" for l r
  proof -
    obtain k where k: "max (rzStartMs l) (rzStartMs r + k * T) < min (rzEndMs l) (rzEndMs r + k * T)" "same_place l r"
      using clash by (auto simp: clash_def)
    then have "max (rzStartMs r) (rzStartMs l + (- k) * T) < min (rzEndMs r) (rzEndMs l + (- k) * T)" by auto
    then show ?thesis using k(2) same_place_sym by (metis clash_def)
  qed
  then show ?thesis by blast
qed

lemma sorted_wrt_symmetric:
  assumes "sorted_wrt P xs" "mset xs = mset ys" "\<And>x y. P x y \<Longrightarrow> P y x"
  shows "sorted_wrt P ys"
  using assms(1,2)
proof (induction ys arbitrary: xs)
  case (Cons y ys)
  then have "y \<in> set xs" by (metis list.set_intros(1) mset_eq_setD)
  then obtain a b where ab: "xs = a @ y # b" by (meson split_list)
  then have m: "mset (a @ b) = mset ys" using Cons.prems(2) by simp
  have "sorted_wrt P (a @ b)" using Cons.prems(1) ab by (auto simp: sorted_wrt_append)
  then have "sorted_wrt P ys" using Cons.IH m by blast
  moreover have "P y z" if z: "z \<in> set ys" for z
  proof -
    have "z \<in> set (a @ b)" using z mset_eq_setD [OF m] by simp
    then show ?thesis using Cons.prems(1) assms(3) ab by (auto simp: sorted_wrt_append)
  qed
  ultimately show ?case by simp
qed simp

lemma conflict_free_mset: "conflict_free T xs \<Longrightarrow> mset xs = mset ys \<Longrightarrow> conflict_free T ys"
  unfolding conflict_free_def using sorted_wrt_symmetric [of "\<lambda>l r. \<not> clash T l r" xs ys] clash_commutes mset_eq_setD by blast

lemma conflict_free_append:
  "conflict_free T (xs @ ys) \<longleftrightarrow> conflict_free T xs \<and> conflict_free T ys \<and> (\<forall>x \<in> set xs. \<forall>y \<in> set ys. \<not> clash T x y)"
  by (auto simp: conflict_free_def sorted_wrt_append)

lemma conflict_free_Nil [simp]: "conflict_free T []"
  by (simp add: conflict_free_def)

text \<open>The periods beyond the neighbouring ones cannot overlap.\<close>

lemma overlap_near:
  assumes "in_range T l" "in_range T r" "period_ok T"
  shows "periodicTimeOverlap l r T \<longleftrightarrow> (\<exists>k. max (rzStartMs l) (rzStartMs r + k * T) < min (rzEndMs l) (rzEndMs r + k * T))"
proof
  have ex: "js_add a s = a + s" if "0 \<le> a" "a \<le> 2 * T" "s \<in> {- T, 0, T}" for a s
    unfolding js_add_def using that assms(3) by (intro js_round_exact) (auto simp: period_ok_def)
  note e = ex [of "rzStartMs r"] ex [of "rzEndMs r"]
  show "\<exists>k. max (rzStartMs l) (rzStartMs r + k * T) < min (rzEndMs l) (rzEndMs r + k * T)" if o: "periodicTimeOverlap l r T"
  proof -
    obtain s where s: "s \<in> {- T, 0, T}" "max (rzStartMs l) (js_add (rzStartMs r) s) < min (rzEndMs l) (js_add (rzEndMs r) s)"
      using o by (auto simp: periodicTimeOverlap_def)
    then have "max (rzStartMs l) (rzStartMs r + s) < min (rzEndMs l) (rzEndMs r + s)" using e assms(2) by (simp add: in_range_def)
    moreover obtain k where "s = k * T" using s(1) by (elim insertE emptyE) (auto intro: that [of "-1"] that [of 0] that [of 1])
    ultimately show ?thesis by auto
  qed
  show "periodicTimeOverlap l r T" if shifted: "\<exists>k. max (rzStartMs l) (rzStartMs r + k * T) < min (rzEndMs l) (rzEndMs r + k * T)"
  proof -
    obtain k where k: "max (rzStartMs l) (rzStartMs r + k * T) < min (rzEndMs l) (rzEndMs r + k * T)" using shifted by blast
    have "k < 2"
    proof (rule ccontr)
      assume "\<not> k < 2"
      then have "2 * T \<le> k * T" using assms(3) by (intro mult_right_mono) (auto simp: period_ok_def)
      then show False using k assms(1,2) by (auto simp: in_range_def)
    qed
    moreover have "- 2 < k"
    proof (rule ccontr)
      assume "\<not> - 2 < k"
      then have "k * T \<le> (- 2) * T" using assms(3) by (intro mult_right_mono) (auto simp: period_ok_def)
      then show False using k assms(1,2) by (auto simp: in_range_def)
    qed
    ultimately have "k = - 1 \<or> k = 0 \<or> k = 1" by arith
    then have s: "k * T \<in> {- T, 0, T}" by auto
    then have "max (rzStartMs l) (js_add (rzStartMs r) (k * T)) < min (rzEndMs l) (js_add (rzEndMs r) (k * T))"
      using k e assms(2) by (simp add: in_range_def)
    then show ?thesis using s unfolding periodicTimeOverlap_def by (intro bexI [of _ "k * T"]) auto
  qed
qed

lemma conflict_clash: "in_range T l \<Longrightarrow> in_range T r \<Longrightarrow> period_ok T \<Longrightarrow> reservationsConflict l r T \<longleftrightarrow> clash T l r"
  by (auto simp: reservationsConflict_def clash_def overlap_near)

lemma own_period: "in_range T r \<Longrightarrow> period_ok T \<Longrightarrow> reservationConflictsWithOwnPeriod r T \<longleftrightarrow> \<not> rzEndMs r - rzStartMs r \<le> T"
  by (auto simp: reservationConflictsWithOwnPeriod_def js_sub_def in_range_def period_ok_def js_round_exact)

lemma internal_free:
  "\<forall>r \<in> set rs. in_range T r \<Longrightarrow> period_ok T \<Longrightarrow> \<not> internalConflict rs T \<longleftrightarrow> conflict_free T rs"
  by (induction rs) (auto simp: conflict_free_def conflict_clash own_period)

lemma option_free:
  assumes "\<forall>r \<in> set (moReservations opt). in_range T r" "\<forall>r \<in> set held. in_range T r" "period_ok T"
    and "conflict_free T held" "conflict_free T (moReservations opt)"
  shows "\<not> optionConflicts opt held T \<longleftrightarrow> conflict_free T (held @ moReservations opt)"
  using assms conflict_clash clash_commutes unfolding optionConflicts_def conflict_free_append by metis

section \<open>The search\<close>

lemma first_success_Some:
  "first_success try cs n = Inr (m, Some x) \<Longrightarrow> \<exists>c \<in> set cs. \<exists>k. try c k = Inr (m, Some x)"
  by (induction cs arbitrary: n) (force simp: bnd_Inr split: option.splits)+

lemma first_success_None: "first_success try cs n = Inr (m, None) \<Longrightarrow> c \<in> set cs \<Longrightarrow> \<exists>k l. try c k = Inr (l, None)"
  by (induction cs arbitrary: n) (force simp: bnd_Inr split: option.splits)+

lemma first_success_Inl: "first_success try cs n = Inl e \<Longrightarrow> \<exists>c \<in> set cs. \<exists>k. try c k = Inl e"
proof (induction cs arbitrary: n)
  case (Cons c cs)
  show ?case
  proof (cases "try c n")
    case (Inl e')
    then show ?thesis using Cons.prems by auto
  next
    case (Inr x)
    then show ?thesis using Cons by (cases x; cases "snd x") auto
  qed
qed simp

text \<open>What the search finds: for every request, in order, an option made of a candidate under what is held.\<close>

fun found :: "('r \<Rightarrow> reservation list \<Rightarrow> 'c list) \<Rightarrow> ('r \<Rightarrow> 'c \<Rightarrow> allocation_error + movement_option) \<Rightarrow>
    (movement_option \<Rightarrow> reservation list \<Rightarrow> bool) \<Rightarrow> reservation list \<Rightarrow> 'r list \<Rightarrow> movement_option list \<Rightarrow> bool" where
  "found candidates build blocked held [] opts \<longleftrightarrow> opts = []"
| "found candidates build blocked held (q # qs) opts \<longleftrightarrow>
     (case opts of [] \<Rightarrow> False | opt # rest \<Rightarrow>
        (\<exists>c \<in> set (candidates q held). build q c = Inr opt) \<and> \<not> blocked opt held \<and>
        found candidates build blocked (held @ moReservations opt) qs rest)"

lemma search_found:
  "search_options candidates build blocked what qs held n = Inr (m, Some opts) \<Longrightarrow> found candidates build blocked held qs opts"
proof (induction qs arbitrary: held n m opts)
  case (Cons q qs)
  from Cons.prems obtain c k where c: "c \<in> set (candidates q held)"
    and t: "bnd (build q c) (\<lambda>opt. if blocked opt held then Inr (k, None)
        else bnd (search_options candidates build blocked what qs (held @ moReservations opt) k) (\<lambda>(m, r). Inr (m, map_option (\<lambda>opts. opt # opts) r))) =
      Inr (m, Some opts)"
    using first_success_Some by (fastforce simp: invariant_Inr)
  obtain opt where opt: "build q c = Inr opt" "\<not> blocked opt held" using t by (auto simp: bnd_Inr split: if_splits)
  obtain rest where r: "search_options candidates build blocked what qs (held @ moReservations opt) k = Inr (m, Some rest)" "opts = opt # rest"
    using t opt by (auto simp: bnd_Inr)
  show ?case using Cons.IH [OF r(1)] c opt r(2) by auto
qed (simp add: invariant_Inr)

lemma search_none:
  assumes "search_options candidates build blocked what qs held n = Inr (m, None)"
  shows "\<not> found candidates build blocked held qs opts"
  using assms
proof (induction qs arbitrary: held n m opts)
  case (Cons q qs)
  show ?case
  proof
    assume "found candidates build blocked held (q # qs) opts"
    then obtain opt rest c where o: "opts = opt # rest" "c \<in> set (candidates q held)" "build q c = Inr opt" "\<not> blocked opt held"
      "found candidates build blocked (held @ moReservations opt) qs rest"
      by (auto split: list.splits)
    have "first_success (\<lambda>c n. bnd (build q c) (\<lambda>opt. if blocked opt held then Inr (n, None)
        else bnd (search_options candidates build blocked what qs (held @ moReservations opt) n) (\<lambda>(m, r). Inr (m, map_option (\<lambda>opts. opt # opts) r))))
      (candidates q held) (n + 1) = Inr (m, None)"
      using Cons.prems by (simp add: invariant_Inr)
    from first_success_None [OF this o(2)] obtain k l where
      "search_options candidates build blocked what qs (held @ moReservations opt) k = Inr (l, None)"
      using o(3,4) by (auto simp: bnd_Inr)
    then show False using Cons.IH o(5) by blast
  qed
qed (simp add: invariant_Inr)

lemma search_error:
  assumes "search_options candidates build blocked what qs held n = Inl e" "\<forall>q c. build q c \<noteq> Inl e"
  shows "e = SearchLimit what"
  using assms(1)
proof (induction qs arbitrary: held n)
  case Nil
  then show ?case by (simp add: invariant_Inl split: if_splits)
next
  case (Cons q qs)
  show ?case
  proof (cases "n + 1 \<le> SEARCH_LIMIT")
    case True
    then obtain c k where "bnd (build q c) (\<lambda>opt. if blocked opt held then Inr (k, None)
        else bnd (search_options candidates build blocked what qs (held @ moReservations opt) k) (\<lambda>(m, r). Inr (m, map_option (\<lambda>opts. opt # opts) r))) = Inl e"
      using Cons.prems first_success_Inl by (fastforce simp: invariant_Inl)
    then obtain opt where "build q c = Inr opt" "search_options candidates build blocked what qs (held @ moReservations opt) k = Inl e"
      using assms(2) by (auto simp: bnd_Inl split: if_splits)
    then show ?thesis using Cons.IH by blast
  next
    case False
    then show ?thesis using Cons.prems by (simp add: invariant_def)
  qed
qed

section \<open>Found options do not conflict\<close>

abbreviation held_by :: "movement_option list \<Rightarrow> reservation list" where
  "held_by opts \<equiv> concat (map moReservations opts)"

definition option_ok :: "int \<Rightarrow> movement_option \<Rightarrow> bool" where
  "option_ok T opt \<longleftrightarrow> (\<forall>r \<in> set (moReservations opt). in_range T r) \<and> conflict_free T (moReservations opt)"

lemma found_conflict_free:
  assumes "found candidates build blocked held qs opts" "period_ok T"
    and "\<And>q h c opt. q \<in> set qs \<Longrightarrow> c \<in> set (candidates q h) \<Longrightarrow> build q c = Inr opt \<Longrightarrow> \<not> blocked opt h \<Longrightarrow>
      option_ok T opt \<and> \<not> optionConflicts opt h T"
    and "conflict_free T held" "\<forall>r \<in> set held. in_range T r"
  shows "conflict_free T (held @ held_by opts) \<and> (\<forall>r \<in> set (held_by opts). in_range T r)"
  using assms(1,3,4,5)
proof (induction qs arbitrary: held opts)
  case (Cons q qs)
  from Cons.prems(1) obtain opt rest c where o: "opts = opt # rest" "c \<in> set (candidates q held)" "build q c = Inr opt" "\<not> blocked opt held"
    "found candidates build blocked (held @ moReservations opt) qs rest"
    by (auto split: list.splits)
  then have ok: "option_ok T opt" "\<not> optionConflicts opt held T" using Cons.prems(2) [of q c held opt] by auto
  then have "conflict_free T (held @ moReservations opt)"
    using option_free [OF _ Cons.prems(4) assms(2) Cons.prems(3)] by (simp add: option_ok_def)
  moreover have "\<forall>r \<in> set (held @ moReservations opt). in_range T r" using ok(1) Cons.prems(4) by (auto simp: option_ok_def)
  moreover have "option_ok T opt' \<and> \<not> optionConflicts opt' h T"
    if "q' \<in> set qs" "c' \<in> set (candidates q' h)" "build q' c' = Inr opt'" "\<not> blocked opt' h" for q' h c' opt'
    using Cons.prems(2) [of q' c' h opt'] that by simp
  ultimately have "conflict_free T ((held @ moReservations opt) @ held_by rest) \<and> (\<forall>r \<in> set (held_by rest). in_range T r)"
    by (intro Cons.IH [OF o(5)])
  then show ?case using ok(1) o(1) by (auto simp: option_ok_def)
qed simp

section \<open>Options at one place\<close>

abbreviation selected :: "same_location_request list \<Rightarrow> movement_option list \<Rightarrow> bool" where
  "selected \<equiv> list_all2 (\<lambda>q opt. opt \<in> set (slrOptions q))"

definition requests_ok :: "int \<Rightarrow> same_location_request list \<Rightarrow> bool" where
  "requests_ok T qs \<longleftrightarrow> (\<forall>q \<in> set qs. slrOptions q \<noteq> [] \<and> (\<forall>opt \<in> set (slrOptions q). \<forall>r \<in> set (moReservations opt). in_range T r))"

abbreviation search_flexible :: "int \<Rightarrow> same_location_request list \<Rightarrow> reservation list \<Rightarrow> allocation_error + int \<times> movement_option list option" where
  "search_flexible T qs held \<equiv> search_options (\<lambda>request reservations. slrOptions request) (\<lambda>request opt. Inr opt)
     (\<lambda>opt reservations. optionConflicts opt reservations T) ''Direct-/Abstellzuweisung'' qs held 0"

abbreviation found_flexible :: "int \<Rightarrow> reservation list \<Rightarrow> same_location_request list \<Rightarrow> movement_option list \<Rightarrow> bool" where
  "found_flexible T \<equiv> found (\<lambda>request reservations. slrOptions request) (\<lambda>request opt. Inr opt) (\<lambda>opt reservations. optionConflicts opt reservations T)"

lemma takeFixed_fold:
  assumes "period_ok T" "\<forall>opt \<in> set (chosen @ map (\<lambda>q. hd (slrOptions q)) qs). option_ok T opt" "conflict_free T (held_by chosen)"
  shows "if conflict_free T (held_by (chosen @ map (\<lambda>q. hd (slrOptions q)) qs))
    then fold_res (takeFixed T) qs chosen = Inr (chosen @ map (\<lambda>q. hd (slrOptions q)) qs)
    else \<exists>m. fold_res (takeFixed T) qs chosen = Inl (Allocation m)"
  using assms(2,3)
proof (induction qs arbitrary: chosen)
  case (Cons q qs)
  let ?o = "hd (slrOptions q)"
  have r: "\<forall>r \<in> set (moReservations ?o). in_range T r" "\<forall>r \<in> set (held_by chosen). in_range T r" "conflict_free T (moReservations ?o)"
    using Cons.prems(1) by (auto simp: option_ok_def)
  note free = option_free [OF r(1,2) assms(1) Cons.prems(2) r(3)]
  show ?case
  proof (cases "optionConflicts ?o (held_by chosen) T")
    case True
    then have "\<not> conflict_free T (held_by chosen @ moReservations ?o)" using free by simp
    then have "\<not> conflict_free T (held_by (chosen @ map (\<lambda>q. hd (slrOptions q)) (q # qs)))"
      using conflict_free_append [of T "held_by chosen @ moReservations ?o"] by simp
    then show ?thesis using True by (simp add: takeFixed_def)
  next
    case False
    then have s: "takeFixed T q chosen = Inr (chosen @ [?o])" by (simp add: takeFixed_def)
    have "conflict_free T (held_by (chosen @ [?o]))" using False free by simp
    then show ?thesis using Cons.IH [of "chosen @ [?o]"] Cons.prems(1) s by (simp add: comp_def)
  qed
qed simp

lemma found_flexible_iff:
  assumes "requests_ok T qs" "period_ok T" "\<forall>r \<in> set held. in_range T r" "conflict_free T held"
    and "\<forall>q \<in> set qs. \<forall>opt \<in> set (slrOptions q). conflict_free T (moReservations opt)"
  shows "found_flexible T held qs opts \<longleftrightarrow> selected qs opts \<and> conflict_free T (held @ held_by opts)"
  using assms(1,3,4,5)
proof (induction qs arbitrary: held opts)
  case (Cons q qs)
  show ?case
  proof (cases opts)
    case (Cons opt rest)
    show ?thesis
    proof (cases "opt \<in> set (slrOptions q)")
      case True
      have r: "\<forall>r \<in> set (moReservations opt). in_range T r" "conflict_free T (moReservations opt)"
        using True Cons.prems(1,4) by (auto simp: requests_ok_def)
      note free = option_free [OF r(1) Cons.prems(2) assms(2) Cons.prems(3) r(2)]
      show ?thesis
      proof (cases "optionConflicts opt held T")
        case True
        then show ?thesis using free conflict_free_append [of T "held @ moReservations opt"] by (simp add: \<open>opts = opt # rest\<close>)
      next
        case False
        then have "found_flexible T (held @ moReservations opt) qs rest \<longleftrightarrow> selected qs rest \<and> conflict_free T ((held @ moReservations opt) @ held_by rest)"
          using free Cons.prems r by (intro Cons.IH) (auto simp: requests_ok_def)
        then show ?thesis using False True by (simp add: \<open>opts = opt # rest\<close>)
      qed
    qed (simp add: \<open>opts = opt # rest\<close>)
  qed simp
qed auto

lemma split_requests: "\<forall>q \<in> set qs. slrOptions q \<noteq> [] \<Longrightarrow>
    mset (sort_by c (filter (\<lambda>q. length (slrOptions q) = 1) qs) @ sort_by c' (filter (\<lambda>q. length (slrOptions q) > 1) qs)) = mset qs"
  by (induction qs) (auto simp: neq_Nil_conv length_Suc_conv)

lemma choose_parts:
  assumes "requests_ok T qs" "period_ok T"
  defines "fixed \<equiv> sort_by (\<lambda>l r. compareText (cnId (slrContinuity l)) (cnId (slrContinuity r))) (filter (\<lambda>r. length (slrOptions r) = 1) qs)"
    and "flexible \<equiv> sort_by compareFlexible (filter (\<lambda>r. length (slrOptions r) > 1) qs)"
  shows "mset (fixed @ flexible) = mset qs" "requests_ok T fixed" "requests_ok T flexible"
    and "selected fixed opts \<longleftrightarrow> opts = map (\<lambda>q. hd (slrOptions q)) fixed"
proof -
  show "mset (fixed @ flexible) = mset qs" unfolding fixed_def flexible_def
    by (rule split_requests) (use assms(1) in \<open>simp add: requests_ok_def\<close>)
  show "requests_ok T fixed" "requests_ok T flexible" using assms(1) by (auto simp: requests_ok_def fixed_def flexible_def)
  have one: "\<forall>q \<in> set fixed. \<exists>x. slrOptions q = [x]" by (auto simp: fixed_def length_Suc_conv)
  show "selected fixed opts \<longleftrightarrow> opts = map (\<lambda>q. hd (slrOptions q)) fixed" using one
  proof (induction fixed arbitrary: opts)
    case (Cons q qs)
    then show ?case by (cases opts) fastforce+
  qed auto
qed

lemma hd_option_ok:
  assumes "requests_ok T qs" "\<forall>q \<in> set qs. \<forall>opt \<in> set (slrOptions q). conflict_free T (moReservations opt)" "q \<in> set qs"
  shows "option_ok T (hd (slrOptions q))"
proof -
  have "slrOptions q \<noteq> []" and r: "\<forall>opt \<in> set (slrOptions q). \<forall>r \<in> set (moReservations opt). in_range T r"
    using assms(1,3) by (auto simp: requests_ok_def)
  then have "hd (slrOptions q) \<in> set (slrOptions q)" by simp
  then show ?thesis using r bspec [OF assms(2,3)] by (simp add: option_ok_def)
qed

lemma mset_held: "mset (held_by opts) = (\<Sum>x \<in># mset opts. mset (moReservations x))"
  by (induction opts) auto

lemma chosen_free:
  assumes "chooseSameLocationOptions qs T = Inr opts" "requests_ok T qs" "period_ok T"
  shows "\<exists>rs. mset rs = mset qs \<and> selected rs opts \<and> conflict_free T (held_by opts)"
proof -
  let ?fixed = "sort_by (\<lambda>l r. compareText (cnId (slrContinuity l)) (cnId (slrContinuity r))) (filter (\<lambda>r. length (slrOptions r) = 1) qs)"
  let ?flexible = "sort_by compareFlexible (filter (\<lambda>r. length (slrOptions r) > 1) qs)"
  note parts = choose_parts [OF assms(2,3)]
  have internal: "\<forall>q \<in> set qs. \<forall>opt \<in> set (slrOptions q). \<not> optionHasInternalConflict opt T"
    using assms(1) by (auto simp: chooseSameLocationOptions_def invariant_Inr)
  then have free: "\<forall>q \<in> set qs. \<forall>opt \<in> set (slrOptions q). conflict_free T (moReservations opt)"
    using internal_free assms(2,3) by (auto simp: optionHasInternalConflict_def requests_ok_def)
  have ok: "option_ok T (hd (slrOptions q))" if "q \<in> set qs" for q
    by (rule hd_option_ok [OF assms(2) free that])
  let ?h = "map (\<lambda>q. hd (slrOptions q)) ?fixed"
  obtain fixed flex n where f: "fold_res (takeFixed T) ?fixed [] = Inr fixed"
    and s: "search_flexible T ?flexible (held_by fixed) = Inr (n, Some flex)" "opts = fixed @ flex"
    using assms(1) by (auto simp: chooseSameLocationOptions_def invariant_Inr bnd_Inr split: option.splits)
  have "if conflict_free T (held_by ([] @ ?h)) then fold_res (takeFixed T) ?fixed [] = Inr ([] @ ?h)
      else \<exists>m. fold_res (takeFixed T) ?fixed [] = Inl (Allocation m)"
    by (rule takeFixed_fold [OF assms(3)]) (use ok in auto)
  then have fx: "fixed = ?h" "conflict_free T (held_by fixed)" using f by (auto split: if_splits)
  have range: "\<forall>r \<in> set (held_by fixed). in_range T r" using ok fx(1) by (auto simp: option_ok_def)
  have "selected ?flexible flex \<and> conflict_free T (held_by fixed @ held_by flex)"
    using search_found [OF s(1)] found_flexible_iff [OF parts(3) assms(3) range fx(2)] free by auto
  then have "selected (?fixed @ ?flexible) opts \<and> conflict_free T (held_by opts)"
    using parts(4) fx(1) s(2) by (auto intro: list_all2_appendI)
  then show ?thesis using parts(1) by blast
qed

lemma choice_complete:
  assumes "chooseSameLocationOptions qs T = Inl e" "requests_ok T qs" "period_ok T"
    and "\<forall>q \<in> set qs. \<forall>opt \<in> set (slrOptions q). conflict_free T (moReservations opt)"
    and "selected qs opts" "conflict_free T (held_by opts)"
  shows "\<exists>what. e = SearchLimit what"
proof -
  let ?fixed = "sort_by (\<lambda>l r. compareText (cnId (slrContinuity l)) (cnId (slrContinuity r))) (filter (\<lambda>r. length (slrOptions r) = 1) qs)"
  let ?flexible = "sort_by compareFlexible (filter (\<lambda>r. length (slrOptions r) > 1) qs)"
  note parts = choose_parts [OF assms(2,3)]
  have internal: "\<forall>q \<in> set qs. \<forall>opt \<in> set (slrOptions q). \<not> optionHasInternalConflict opt T"
    using internal_free assms(2,3,4) by (auto simp: optionHasInternalConflict_def requests_ok_def)
  have ok: "option_ok T (hd (slrOptions q))" if "q \<in> set qs" for q
    by (rule hd_option_ok [OF assms(2,4) that])
  obtain opts' where o: "selected (?fixed @ ?flexible) opts'" "mset opts' = mset opts"
    using list_all2_reorder_left_invariance [OF assms(5) parts(1)] by blast
  have "mset (held_by opts) = mset (held_by opts')" using o(2) by (simp add: mset_held)
  then have free: "conflict_free T (held_by opts')" by (rule conflict_free_mset [OF assms(6)])
  obtain flex where flex: "opts' = map (\<lambda>q. hd (slrOptions q)) ?fixed @ flex" "selected ?flexible flex"
    using o(1) parts(4) by (auto simp: list_all2_append1)
  let ?h = "map (\<lambda>q. hd (slrOptions q)) ?fixed"
  have cf: "conflict_free T (held_by ?h @ held_by flex)" using free flex(1) by simp
  then have ch: "conflict_free T (held_by ?h)" by (simp only: conflict_free_append)
  have "if conflict_free T (held_by ([] @ ?h)) then fold_res (takeFixed T) ?fixed [] = Inr ([] @ ?h)
      else \<exists>m. fold_res (takeFixed T) ?fixed [] = Inl (Allocation m)"
    by (rule takeFixed_fold [OF assms(3)]) (use ok in auto)
  then have f: "fold_res (takeFixed T) ?fixed [] = Inr ?h" using ch by simp
  have range: "\<forall>r \<in> set (held_by ?h). in_range T r" using ok by (auto simp: option_ok_def)
  have fl: "\<forall>q \<in> set ?flexible. \<forall>opt \<in> set (slrOptions q). conflict_free T (moReservations opt)" using assms(4) by auto
  have "found_flexible T (held_by ?h) ?flexible flex"
    using found_flexible_iff [OF parts(3) assms(3) range ch fl, of flex] flex(2) cf by blast
  then have "\<not> (\<exists>n. search_flexible T ?flexible (held_by ?h) = Inr (n, None))" using search_none by blast
  moreover have "chooseSameLocationOptions qs T = bnd (search_flexible T ?flexible (held_by ?h)) (\<lambda>(explored, found).
      case found of None \<Rightarrow> Inl (Allocation ''nicht konfliktfrei'') | Some flexible \<Rightarrow> Inr (?h @ flexible))"
    using internal f by (simp add: chooseSameLocationOptions_def del: One_nat_def)
  ultimately have "search_flexible T ?flexible (held_by ?h) = Inl e"
    using assms(1) by (cases "search_flexible T ?flexible (held_by ?h)") (auto split: option.splits prod.splits)
  from search_error [OF this] show ?thesis by auto
qed

section \<open>Options stay within two periods\<close>

lemma js_sub_nonneg: "a \<le> 2 ^ 52 \<Longrightarrow> 0 \<le> b \<Longrightarrow> 0 \<le> js_sub a b \<Longrightarrow> js_sub a b = a - b"
proof (rule ccontr)
  assume a: "a \<le> 2 ^ 52" "0 \<le> b" "0 \<le> js_sub a b" "js_sub a b \<noteq> a - b"
  then have "2 ^ 53 \<le> \<bar>a - b\<bar>" using js_round_exact [of "a - b"] by (fastforce simp: js_sub_def)
  then have "2 ^ 53 \<le> \<bar>js_round (a - b)\<bar>" "a - b < 0" using js_round_large a(1,2) by auto
  moreover have "js_round x \<le> 0" if "x < 0" for x using that by (auto simp: js_round_def Let_def sgn_if)
  ultimately show False using a(3) by (fastforce simp: js_sub_def)
qed

lemma js_add_upto: "0 \<le> a \<Longrightarrow> 0 \<le> b \<Longrightarrow> js_add a b \<le> 2 ^ 52 \<Longrightarrow> js_add a b = a + b"
proof (rule ccontr)
  assume a: "0 \<le> a" "0 \<le> b" "js_add a b \<le> 2 ^ 52" "js_add a b \<noteq> a + b"
  then have "2 ^ 53 \<le> \<bar>a + b\<bar>" using js_round_exact [of "a + b"] by (fastforce simp: js_add_def)
  then have "2 ^ 53 \<le> \<bar>js_round (a + b)\<bar>" by (rule js_round_large)
  moreover have "0 \<le> js_round (a + b)" using a(1,2) by (intro js_round_nonneg) simp
  ultimately show False using a(3) by (simp add: js_add_def)
qed

definition runtime_ok :: "dispatch_route \<Rightarrow> bool" where
  "runtime_ok d \<longleftrightarrow> 0 \<le> drMinimumRuntimeMs d \<and> is_safe (drMinimumRuntimeMs d)"

definition plan_ok :: "movement_route_plan \<Rightarrow> bool" where
  "plan_ok plan \<longleftrightarrow>
     (\<forall>t \<in> set (mrTemplates plan). runtime_ok (slShuntIn t) \<and> runtime_ok (slShuntOut t) \<and> (\<forall>d. slBerthTransfer t = Some d \<longrightarrow> runtime_ok d)) \<and>
     (\<forall>t \<in> set (mrTransferTemplates plan). runtime_ok (ttTransfer t))"

lemma resourcesFor_times:
  "resourcesFor is s e a g = Inr rs \<Longrightarrow> r \<in> set rs \<Longrightarrow> rzStartMs r = s \<and> rzEndMs r = e \<and> s < e"
  by (auto simp: resourcesFor_def resourceReservation_def invariant_Inr dest!: map_res_set)

lemma trackReservation_times: "trackReservation i s e a g = Inr r \<Longrightarrow> rzStartMs r = s \<and> rzEndMs r = e \<and> s < e"
  by (auto simp: trackReservation_def Let_def invariant_Inr bnd_Inr)

lemma terminalOccupancy_times:
  "terminalOccupancy is s e a g = Inr rs \<Longrightarrow> r \<in> set rs \<Longrightarrow> rzStartMs r = s \<and> rzEndMs r = e \<and> s < e"
  by (auto simp: terminalOccupancy_def dest!: map_res_set trackReservation_times)

lemmas reservation_times = resourcesFor_times trackReservation_times terminalOccupancy_times

lemma direct_range:
  assumes "directOption h c source target t a d = Inr opt" "0 \<le> a" "d \<le> 2 * T" "r \<in> set (moReservations opt)"
  shows "in_range T r"
  using assms by (auto simp: directOption_def Let_def bnd_Inr in_range_def dest!: reservation_times)

lemma berthStay_range:
  assumes "berthStay h c source t i inn out end = Inr (rs, stages)" "0 \<le> inn" "end \<le> 2 * T" "out \<le> end"
    and "\<And>d. slBerthTransfer t = Some d \<Longrightarrow> 0 \<le> js_sub out (drMinimumRuntimeMs d)" "r \<in> set rs"
  shows "in_range T r"
  using assms by (auto simp: berthStay_def Let_def bnd_Inr in_range_def split: option.splits dest!: reservation_times)

lemma stabling_range:
  assumes "stablingOption h c source target t a d = Inr opt" "0 \<le> a" "a < d" "d \<le> 2 * T" "period_ok T"
    and t: "runtime_ok (slShuntIn t)" "runtime_ok (slShuntOut t)" "\<And>x. slBerthTransfer t = Some x \<Longrightarrow> runtime_ok x"
    and r: "r \<in> set (moReservations opt)"
  shows "in_range T r"
proof -
  let ?i = "js_add a MOVEMENT_PASSENGER_DWELL_MS"
  let ?in = "js_add ?i (drMinimumRuntimeMs (slShuntIn t))"
  let ?out = "js_sub d (drMinimumRuntimeMs (slShuntOut t))"
  let ?leave = "case slBerthTransfer t of None \<Rightarrow> ?out | Some x \<Rightarrow> js_sub ?out (drMinimumRuntimeMs x)"
  have big: "d \<le> 2 ^ 51" using assms(4,5) by (simp add: period_ok_def)
  have i: "?i = a + 300000" unfolding js_add_def MOVEMENT_PASSENGER_DWELL_MS_def using assms(2,3) big by (intro js_round_exact) auto
  have out: "?out = d - drMinimumRuntimeMs (slShuntOut t)" unfolding js_sub_def
    using t(2) assms(2,3) big by (intro js_round_exact) (auto simp: runtime_ok_def is_safe_def)
  have le: "?out \<le> d" using t(2) unfolding out by (simp add: runtime_ok_def)
  have inn: "0 \<le> ?in" unfolding js_add_def using t(1) assms(2)
    by (intro js_round_nonneg) (simp add: runtime_ok_def js_round_nonneg MOVEMENT_PASSENGER_DWELL_MS_def)
  have w: "?in \<le> ?leave" using assms(1) by (auto simp: stablingOption_def Let_def bnd_Inr invariant_Inr split: option.splits)
  have leave: "?leave \<le> ?out"
  proof (cases "slBerthTransfer t")
    case (Some x)
    have "0 \<le> js_sub ?out (drMinimumRuntimeMs x)" using w inn Some by simp
    then have "js_sub ?out (drMinimumRuntimeMs x) = ?out - drMinimumRuntimeMs x"
      using t(3) [OF Some] le big by (intro js_sub_nonneg) (auto simp: runtime_ok_def)
    then show ?thesis using t(3) [OF Some] Some by (simp add: runtime_ok_def)
  qed simp
  have bound: "?in \<le> 2 * T" "?out \<le> 2 * T" using w leave le assms(4) by linarith+
  have stay: "in_range T x" if "berthStay h c source t i ?in ?out d = Inr (rs, st)" "x \<in> set rs" for i rs st x
  proof (rule berthStay_range [OF that(1) inn assms(4) le _ that(2)])
    show "0 \<le> js_sub ?out (drMinimumRuntimeMs y)" if "slBerthTransfer t = Some y" for y using w inn that by simp
  qed
  have ra: "in_range T x" if "rzStartMs x = s \<and> rzEndMs x = e \<and> s < e" "0 \<le> s" "e \<le> 2 * T" for x s e using that by (simp add: in_range_def)
  have outn: "0 \<le> ?out" using w inn leave by linarith
  have i0: "0 \<le> ?i" using i assms(2) by simp
  obtain cleared inbound stay_rs st1 st2 outbound st3 ident where
    o: "terminalOccupancy (slTerminalIntervals t) a ?in ident ''terminal-clearance'' = Inr cleared"
       "resourcesFor (drResourceIds (slShuntIn t)) ?i ?in ident ''shunt-in'' = Inr inbound"
       "berthStay h c source t ident ?in ?out d = Inr (stay_rs, st2)"
       "resourcesFor (drResourceIds (slShuntOut t)) ?out d ident ''shunt-out'' = Inr outbound"
       "moReservations opt = cleared @ inbound @ stay_rs @ outbound"
    using assms(1) by (auto simp: stablingOption_def Let_def bnd_Inr invariant_Inr)
  show ?thesis using r o(5)
      ra [OF terminalOccupancy_times [OF o(1)] assms(2) bound(1)] ra [OF resourcesFor_times [OF o(2)] i0 bound(1)]
      stay [OF o(3)] ra [OF resourcesFor_times [OF o(4)] outn assms(4)] by auto
qed

lemma continuityTimes_range:
  assumes "continuityTimes c T = Inr x" "period_ok T"
  shows "0 \<le> ctSourceArrivalMs x \<and> ctSourceArrivalMs x < ctTargetDepartureMs x \<and> ctTargetDepartureMs x \<le> 2 * T"
proof -
  have "js_mul T 2 = 2 * T" unfolding js_mul_def using assms(2) by (subst js_round_exact) (auto simp: period_ok_def)
  then show ?thesis using assms(1) by (auto simp: continuityTimes_def Let_def bnd_Inr invariant_Inr)
qed

lemma stablingOptions_set: "stablingOptions build ts = Inr opts \<Longrightarrow> opt \<in> set opts \<Longrightarrow> \<exists>t \<in> set ts. build t = Inr opt"
proof (induction ts arbitrary: opts)
  case (Cons t ts)
  show ?case
  proof (cases "build t")
    case (Inl e)
    then show ?thesis using Cons by (cases e) auto
  next
    case (Inr o')
    then show ?thesis using Cons by (auto simp: bnd_Inr)
  qed
qed simp

lemma sameLocation_range:
  assumes "sameLocationOptions h c source target plan T = Inr opts" "period_ok T" "plan_ok plan"
  shows "opts \<noteq> [] \<and> (\<forall>opt \<in> set opts. \<forall>r \<in> set (moReservations opt). in_range T r)"
proof -
  obtain times ds ss directs stablings where times: "continuityTimes c T = Inr times"
    and d: "(if length ds = 1 \<and> js_sub (ctTargetDepartureMs times) (ctSourceArrivalMs times) \<le> MAXIMUM_DIRECT_DWELL_MS
      then map_res (\<lambda>t. directOption h c source target t (ctSourceArrivalMs times) (ctTargetDepartureMs times)) ds else Inr []) = Inr directs"
    and s: "stablingOptions (\<lambda>t. stablingOption h c source target t (ctSourceArrivalMs times) (ctTargetDepartureMs times)) ss = Inr stablings"
      "set ss \<subseteq> set (mrTemplates plan)" and opts: "opts = directs @ stablings" "opts \<noteq> []"
    using assms(1) by (auto simp: sameLocationOptions_def Let_def bnd_Inr invariant_Inr)
  note c = continuityTimes_range [OF times assms(2)]
  have "in_range T r" if "opt \<in> set directs" "r \<in> set (moReservations opt)" for opt r
    using d that direct_range c by (fastforce split: if_splits dest: map_res_set)
  moreover have "in_range T r" if o: "opt \<in> set stablings" "r \<in> set (moReservations opt)" for opt r
  proof -
    obtain t where t: "t \<in> set ss" "stablingOption h c source target t (ctSourceArrivalMs times) (ctTargetDepartureMs times) = Inr opt"
      using stablingOptions_set [OF s(1) o(1)] by blast
    have "runtime_ok (slShuntIn t)" "runtime_ok (slShuntOut t)" "\<And>x. slBerthTransfer t = Some x \<Longrightarrow> runtime_ok x"
      using t(1) s(2) assms(3) by (auto simp: plan_ok_def)
    then show ?thesis using stabling_range [OF t(2) _ _ _ assms(2)] c o(2) by blast
  qed
  ultimately show ?thesis using opts by auto
qed

definition transfer_ok :: "int \<Rightarrow> transfer_request \<Rightarrow> bool" where
  "transfer_ok T q \<longleftrightarrow> 0 \<le> trqEarliestDepartureMs q \<and> trqEarliestDepartureMs q \<le> trqLatestDepartureMs q \<and>
     runtime_ok (ttTransfer (trqTemplate q)) \<and> trqLatestDepartureMs q + drMinimumRuntimeMs (ttTransfer (trqTemplate q)) \<le> 2 * T"

lemma transferRequest_parts:
  assumes "transferRequest c source target plan T = Inr q"
  obtains t times where "t \<in> set (mrTransferTemplates plan)" "continuityTimes c T = Inr times" "trqTemplate q = t"
    "trqContinuity q = c" "trqSource q = source" "trqTarget q = target"
    "trqEarliestDepartureMs q = max (js_add (ctSourceArrivalMs times) MOVEMENT_PASSENGER_DWELL_MS) (js_sub (js_mul (ttEarliestDepartureS t) 1000) (ctPhaseOffsetMs times))"
    "trqLatestDepartureMs q = js_sub (min (ctTargetDepartureMs times) (js_sub (js_mul (ttLatestArrivalS t) 1000) (ctPhaseOffsetMs times)))
       (drMinimumRuntimeMs (ttTransfer t))"
    "trqEarliestDepartureMs q \<le> trqLatestDepartureMs q"
proof -
  obtain inbound outbound where m: "(case filter (\<lambda>t. ttTargetPassengerRouteVersionId t = outbound) (filter (\<lambda>t. ttSourcePassengerRouteVersionId t = inbound)
        (filter (\<lambda>t. Some (ttDemandId t) = cnTransferDemandId c \<and> ttFormationLengthMm t = ptrFormationLengthMm source) (mrTransferTemplates plan))) of
      [template] \<Rightarrow>
         bnd (continuityTimes c T) (\<lambda>times.
         let earliest = max (js_add (ctSourceArrivalMs times) MOVEMENT_PASSENGER_DWELL_MS)
               (js_sub (js_mul (ttEarliestDepartureS template) 1000) (ctPhaseOffsetMs times));
             latestArrival = min (ctTargetDepartureMs times) (js_sub (js_mul (ttLatestArrivalS template) 1000) (ctPhaseOffsetMs times));
             latest = js_sub latestArrival (drMinimumRuntimeMs (ttTransfer template))
         in invariant (earliest \<le> latest) (Allocation (cnId c @ '' Transferfenster''))
           (Inr \<lparr>trqContinuity = c, trqSource = source, trqTarget = target, trqTemplate = template, trqEarliestDepartureMs = earliest,
              trqLatestDepartureMs = latest, trqSlackMs = js_sub latest earliest\<rparr>))
     | _ \<Rightarrow> Inl (Allocation (cnId c @ '' Transfer-Template''))) = Inr q"
    using assms unfolding transferRequest_def Let_def bnd_Inr by blast
  show ?thesis
  proof (cases "filter (\<lambda>t. ttTargetPassengerRouteVersionId t = outbound) (filter (\<lambda>t. ttSourcePassengerRouteVersionId t = inbound)
        (filter (\<lambda>t. Some (ttDemandId t) = cnTransferDemandId c \<and> ttFormationLengthMm t = ptrFormationLengthMm source) (mrTransferTemplates plan)))")
    case (Cons t ts)
    have "set (t # ts) \<subseteq> set (mrTransferTemplates plan)" unfolding Cons [symmetric] by auto
    then have "t \<in> set (mrTransferTemplates plan)" by simp
    moreover have "ts = []" using m Cons by (cases ts) auto
    ultimately show ?thesis using m Cons that by (auto simp: Let_def bnd_Inr invariant_Inr)
  qed (use m in simp)
qed

lemma transfer_range:
  assumes "transferRequest c source target plan T = Inr q" "period_ok T" "plan_ok plan"
  shows "transfer_ok T q"
proof (rule transferRequest_parts [OF assms(1)])
  fix t :: transfer_template and times :: continuity_times
  let ?arrival = "min (ctTargetDepartureMs times) (js_sub (js_mul (ttLatestArrivalS t) 1000) (ctPhaseOffsetMs times))"
  assume t: "t \<in> set (mrTransferTemplates plan)" "continuityTimes c T = Inr times" "trqTemplate q = t"
    and e: "trqEarliestDepartureMs q = max (js_add (ctSourceArrivalMs times) MOVEMENT_PASSENGER_DWELL_MS) (js_sub (js_mul (ttEarliestDepartureS t) 1000) (ctPhaseOffsetMs times))"
    and l: "trqLatestDepartureMs q = js_sub ?arrival (drMinimumRuntimeMs (ttTransfer t))" "trqEarliestDepartureMs q \<le> trqLatestDepartureMs q"
  note c = continuityTimes_range [OF t(2) assms(2)]
  have "0 \<le> js_add (ctSourceArrivalMs times) MOVEMENT_PASSENGER_DWELL_MS" unfolding js_add_def
    using c by (intro js_round_nonneg) (simp add: MOVEMENT_PASSENGER_DWELL_MS_def)
  then have e0: "0 \<le> trqEarliestDepartureMs q" unfolding e by simp
  have r: "runtime_ok (ttTransfer t)" using t(1) assms(3) by (simp add: plan_ok_def)
  have le: "?arrival \<le> 2 * T" using c by linarith
  then have "?arrival \<le> 2 ^ 52" using assms(2) by (simp add: period_ok_def)
  then have "trqLatestDepartureMs q = ?arrival - drMinimumRuntimeMs (ttTransfer t)"
    unfolding l(1) using r e0 l by (intro js_sub_nonneg) (auto simp: runtime_ok_def)
  then have "trqLatestDepartureMs q + drMinimumRuntimeMs (ttTransfer t) \<le> 2 * T" using le by linarith
  then show ?thesis using e0 l(2) r t(3) by (simp add: transfer_ok_def)
qed

lemma candidates_range:
  assumes "d \<in> set (transferStartCandidates e l n held T)" "e \<le> l"
  shows "e \<le> d \<and> d \<le> l"
proof -
  have "d = e \<or> d = l \<or> e \<le> d \<and> d \<le> l" using assms(1) unfolding transferStartCandidates_def set_sort_by set_remdups by auto
  then show ?thesis using assms(2) by auto
qed

lemma transferOption_range:
  assumes "transferOption h c source target t d = Inr opt" "runtime_ok (ttTransfer t)" "0 \<le> d" "d + drMinimumRuntimeMs (ttTransfer t) \<le> 2 * T"
    and "period_ok T" "r \<in> set (moReservations opt)"
  shows "in_range T r"
proof -
  have "js_add d (drMinimumRuntimeMs (ttTransfer t)) = d + drMinimumRuntimeMs (ttTransfer t)"
    unfolding js_add_def using assms(2,3,4,5) by (intro js_round_exact) (auto simp: runtime_ok_def period_ok_def)
  then show ?thesis using assms by (auto simp: transferOption_def Let_def bnd_Inr in_range_def dest!: resourcesFor_times)
qed

lemma transfers_free:
  assumes "chooseTransferOptions h qs held T = Inr opts" "\<forall>q \<in> set qs. transfer_ok T q" "period_ok T"
    and "conflict_free T held" "\<forall>r \<in> set held. in_range T r"
  shows "conflict_free T (held @ held_by opts) \<and> (\<forall>r \<in> set (held_by opts). in_range T r)"
proof -
  let ?cand = "\<lambda>q held. transferStartCandidates (trqEarliestDepartureMs q) (trqLatestDepartureMs q) (drMinimumRuntimeMs (ttTransfer (trqTemplate q))) held T"
  let ?build = "\<lambda>q. transferOption h (trqContinuity q) (trqSource q) (trqTarget q) (trqTemplate q)"
  let ?blocked = "\<lambda>opt held. optionHasInternalConflict opt T \<or> optionConflicts opt held T"
  have "found ?cand ?build ?blocked held (sort_by compareTransferRequest qs) opts"
    using assms(1) search_found by (fastforce simp: chooseTransferOptions_def bnd_Inr split: option.splits)
  then show ?thesis
  proof (rule found_conflict_free [OF _ assms(3) _ assms(4,5)])
    fix q h' c opt
    assume q: "q \<in> set (sort_by compareTransferRequest qs)" "c \<in> set (?cand q h')" "?build q c = Inr opt" "\<not> ?blocked opt h'"
    have t: "transfer_ok T q" using q(1) assms(2) by simp
    then have c: "trqEarliestDepartureMs q \<le> c \<and> c \<le> trqLatestDepartureMs q" using candidates_range [OF q(2)] by (simp add: transfer_ok_def)
    have "\<forall>r \<in> set (moReservations opt). in_range T r"
      using transferOption_range [OF q(3) _ _ _ assms(3)] t c by (force simp: transfer_ok_def)
    then show "option_ok T opt \<and> \<not> optionConflicts opt h' T"
      using q(4) internal_free assms(3) by (auto simp: option_ok_def optionHasInternalConflict_def)
  qed
qed

section \<open>All options\<close>

lemma addRequest_parts:
  assumes "addRequest h ps plan T c st = Inr st'"
  obtains source target i j where "map_of ps (cnSourceTrainRunId c) = Some source" "map_of ps (cnTargetTrainRunId c) = Some target"
    "passengerId source = Inr i" "passengerId target = Inr j" "i \<notin> set (rqsOutgoing st)" "j \<notin> set (rqsIncoming st)"
    "rqsOutgoing st' = rqsOutgoing st @ [i]" "rqsIncoming st' = rqsIncoming st @ [j]"
    "(\<exists>opts. sameLocationOptions h c source target plan T = Inr opts \<and> rqsTransfers st' = rqsTransfers st \<and>
        rqsSameLocation st' = rqsSameLocation st @ [\<lparr>slrContinuity = c, slrOptions = opts\<rparr>]) \<or>
     (\<exists>q. transferRequest c source target plan T = Inr q \<and> rqsSameLocation st' = rqsSameLocation st \<and> rqsTransfers st' = rqsTransfers st @ [q])"
proof -
  obtain source target where m: "map_of ps (cnSourceTrainRunId c) = Some source" "map_of ps (cnTargetTrainRunId c) = Some target"
    using assms by (auto simp: addRequest_def split: option.splits)
  obtain i j where ij: "passengerId source = Inr i" "passengerId target = Inr j"
    using assms m by (auto simp: addRequest_def bnd_Inr)
  have new: "i \<notin> set (rqsOutgoing st)" "j \<notin> set (rqsIncoming st)"
    using assms m ij by (simp_all add: addRequest_def invariant_Inr)
  show ?thesis
  proof (rule that [OF m ij new])
    show "rqsOutgoing st' = rqsOutgoing st @ [i]" "rqsIncoming st' = rqsIncoming st @ [j]"
      using assms m ij by (auto simp: addRequest_def Let_def bnd_Inr invariant_Inr split: if_splits)
    show "(\<exists>opts. sameLocationOptions h c source target plan T = Inr opts \<and> rqsTransfers st' = rqsTransfers st \<and>
        rqsSameLocation st' = rqsSameLocation st @ [\<lparr>slrContinuity = c, slrOptions = opts\<rparr>]) \<or>
     (\<exists>q. transferRequest c source target plan T = Inr q \<and> rqsSameLocation st' = rqsSameLocation st \<and> rqsTransfers st' = rqsTransfers st @ [q])"
      using assms m ij by (auto simp: addRequest_def Let_def bnd_Inr invariant_Inr split: if_splits)
  qed
qed

lemma requests_range:
  assumes "fold_res (addRequest h ps plan T) cs \<lparr>rqsOutgoing = [], rqsIncoming = [], rqsSameLocation = [], rqsTransfers = []\<rparr> = Inr st"
    and "period_ok T" "plan_ok plan"
  shows "requests_ok T (rqsSameLocation st) \<and> (\<forall>q \<in> set (rqsTransfers st). transfer_ok T q)"
proof (rule fold_res_invariant [OF assms(1)])
  fix c s s'
  assume s: "requests_ok T (rqsSameLocation s) \<and> (\<forall>q \<in> set (rqsTransfers s). transfer_ok T q)" and a: "addRequest h ps plan T c s = Inr s'"
  show "requests_ok T (rqsSameLocation s') \<and> (\<forall>q \<in> set (rqsTransfers s'). transfer_ok T q)"
    by (rule addRequest_parts [OF a])
       (use s sameLocation_range [OF _ assms(2,3)] transfer_range [OF _ assms(2,3)] in \<open>auto simp: requests_ok_def\<close>)
qed (simp add: requests_ok_def)

lemma options_free:
  assumes "chooseOptions h cs ps plan T = Inr opts" "period_ok T" "plan_ok plan"
  shows "conflict_free T (held_by opts) \<and> (\<forall>r \<in> set (held_by opts). in_range T r)"
proof -
  obtain st same transfers where st: "fold_res (addRequest h ps plan T) cs \<lparr>rqsOutgoing = [], rqsIncoming = [], rqsSameLocation = [], rqsTransfers = []\<rparr> = Inr st"
    and c: "chooseSameLocationOptions (rqsSameLocation st) T = Inr same"
      "chooseTransferOptions h (rqsTransfers st) (held_by same) T = Inr transfers" "opts = same @ transfers"
    using assms(1) by (auto simp: chooseOptions_def bnd_Inr invariant_Inr)
  note r = requests_range [OF st assms(2,3)]
  obtain rs where rs: "mset rs = mset (rqsSameLocation st)" "selected rs same" "conflict_free T (held_by same)"
    using chosen_free [OF c(1) _ assms(2)] r by blast
  have "\<forall>opt \<in> set same. \<exists>q \<in> set (rqsSameLocation st). opt \<in> set (slrOptions q)"
    using rs(2) mset_eq_setD [OF rs(1)] by (metis in_set_conv_nth list_all2_conv_all_nth)
  then have range: "\<forall>x \<in> set (held_by same). in_range T x" using r by (fastforce simp: requests_ok_def)
  then show ?thesis using transfers_free [OF c(2) _ assms(2) rs(3) range] r c(3) by auto
qed

lemma allocation_free:
  assumes "allocateMovementRoutePlanV2 alphaHash select dailyPlan cs trains plan T = Inr a" and "plan_ok plan" and "T \<le> 2 ^ 50"
  shows "conflict_free T (alReservations a) \<and> (\<forall>r \<in> set (alReservations a). in_range T r)"
proof -
  obtain ps opts g where c: "chooseOptions alphaHash cs ps plan T = Inr opts" and f: "finishAllocation select ps trains g (held_by opts) = Inr a"
    and T: "alInteger T ''Movement-Wiederholungszeit'' 1 = Inr T"
    using assms(1) unfolding allocateMovementRoutePlanV2_def Let_def bnd_Inr invariant_Inr by (auto simp: alInteger_def invariant_Inr)
  have "period_ok T" using T assms(3) by (auto simp: alInteger_def invariant_Inr period_ok_def)
  note o = options_free [OF c this assms(2)]
  have "mset (alReservations a) = mset (held_by opts)" using f by (auto simp: finishAllocation_def Let_def bnd_Inr invariant_Inr)
  then show ?thesis using o conflict_free_mset mset_eq_setD by metis
qed

end
