(* ===== verification/MovementGraph.thy ===== *)
theory MovementGraph
  imports MovementConflicts
begin

text \<open>
  The graph of trains an allocation makes: the continuations are one in and one out for every train of
  the programme, passenger or movement, and every continuity of the day is allocated once.
\<close>

definition bound_option :: "(string \<times> passenger_train) list \<Rightarrow> continuity \<Rightarrow> movement_option \<Rightarrow> bool" where
  "bound_option ps c opt \<longleftrightarrow> moContinuity opt = c \<and> map_of ps (cnSourceTrainRunId c) = Some (moSource opt) \<and>
     map_of ps (cnTargetTrainRunId c) = Some (moTarget opt)"

section \<open>Every continuity gets an option of its own\<close>

lemma directOption_bound: "directOption h c s t x a d = Inr opt \<Longrightarrow> moContinuity opt = c \<and> moSource opt = s \<and> moTarget opt = t"
  by (auto simp: directOption_def Let_def bnd_Inr)

lemma stablingOption_bound: "stablingOption h c s t x a d = Inr opt \<Longrightarrow> moContinuity opt = c \<and> moSource opt = s \<and> moTarget opt = t"
  by (auto simp: stablingOption_def Let_def bnd_Inr invariant_Inr)

lemma transferOption_bound: "transferOption h c s t x d = Inr opt \<Longrightarrow> moContinuity opt = c \<and> moSource opt = s \<and> moTarget opt = t"
  by (auto simp: transferOption_def Let_def bnd_Inr)

lemma sameLocationOptions_bound:
  assumes "sameLocationOptions h c s t plan T = Inr opts"
  shows "opts \<noteq> [] \<and> (\<forall>opt \<in> set opts. moContinuity opt = c \<and> moSource opt = s \<and> moTarget opt = t)"
proof -
  obtain b a d ds ss directs stablings where
    d: "(if b then map_res (\<lambda>x. directOption h c s t x a d) ds else Inr []) = Inr directs"
    and s: "stablingOptions (\<lambda>x. stablingOption h c s t x a d) ss = Inr stablings" and opts: "opts = directs @ stablings" "opts \<noteq> []"
    using assms by (auto simp: sameLocationOptions_def Let_def bnd_Inr invariant_Inr)
  have "moContinuity opt = c \<and> moSource opt = s \<and> moTarget opt = t" if "opt \<in> set directs" for opt
    using d that directOption_bound by (fastforce split: if_splits dest: map_res_set)
  moreover have "moContinuity opt = c \<and> moSource opt = s \<and> moTarget opt = t" if "opt \<in> set stablings" for opt
    using stablingOptions_set [OF s that] stablingOption_bound by blast
  ultimately show ?thesis using opts by auto
qed

definition bound_requests :: "(string \<times> passenger_train) list \<Rightarrow> request_state \<Rightarrow> bool" where
  "bound_requests ps st \<longleftrightarrow>
     (\<forall>q \<in> set (rqsSameLocation st). slrOptions q \<noteq> [] \<and> (\<forall>opt \<in> set (slrOptions q). bound_option ps (slrContinuity q) opt)) \<and>
     (\<forall>q \<in> set (rqsTransfers st). map_of ps (cnSourceTrainRunId (trqContinuity q)) = Some (trqSource q) \<and>
        map_of ps (cnTargetTrainRunId (trqContinuity q)) = Some (trqTarget q))"

definition endId :: "(string \<times> passenger_train) list \<Rightarrow> string \<Rightarrow> string" where
  "endId ps i = (case map_of ps i of None \<Rightarrow> [] | Some t \<Rightarrow> (case passengerId t of Inl e \<Rightarrow> [] | Inr j \<Rightarrow> j))"

abbreviation "no_requests \<equiv> \<lparr>rqsOutgoing = [], rqsIncoming = [], rqsSameLocation = [], rqsTransfers = []\<rparr>"

lemma requests_bound:
  assumes "fold_res (addRequest h ps plan T) cs no_requests = Inr st"
  shows "bound_requests ps st \<and> mset (map slrContinuity (rqsSameLocation st)) + mset (map trqContinuity (rqsTransfers st)) = mset cs \<and>
    rqsOutgoing st = map (\<lambda>c. endId ps (cnSourceTrainRunId c)) cs \<and> rqsIncoming st = map (\<lambda>c. endId ps (cnTargetTrainRunId c)) cs \<and>
    distinct (rqsOutgoing st) \<and> distinct (rqsIncoming st) \<and>
    (\<forall>c \<in> set cs. \<exists>s t i j. map_of ps (cnSourceTrainRunId c) = Some s \<and> map_of ps (cnTargetTrainRunId c) = Some t \<and>
       passengerId s = Inr i \<and> passengerId t = Inr j)"
proof -
  define I where "I = (\<lambda>zs (ys :: continuity list) st. bound_requests ps st \<and>
    mset (map slrContinuity (rqsSameLocation st)) + mset (map trqContinuity (rqsTransfers st)) = mset zs \<and>
    rqsOutgoing st = map (\<lambda>c. endId ps (cnSourceTrainRunId c)) zs \<and> rqsIncoming st = map (\<lambda>c. endId ps (cnTargetTrainRunId c)) zs \<and>
    distinct (rqsOutgoing st) \<and> distinct (rqsIncoming st) \<and>
    (\<forall>c \<in> set zs. \<exists>s t i j. map_of ps (cnSourceTrainRunId c) = Some s \<and> map_of ps (cnTargetTrainRunId c) = Some t \<and>
       passengerId s = Inr i \<and> passengerId t = Inr j))"
  have "I cs [] st"
  proof (rule fold_res_rule [OF assms])
    show "I [] cs no_requests" by (simp add: I_def bound_requests_def)
  next
    fix zs c ys s s'
    assume i: "I zs (c # ys) s" and a: "addRequest h ps plan T c s = Inr s'"
    show "I (zs @ [c]) ys s'"
    proof (rule addRequest_parts [OF a])
      fix source target i j
      assume m: "map_of ps (cnSourceTrainRunId c) = Some source" "map_of ps (cnTargetTrainRunId c) = Some target"
        "passengerId source = Inr i" "passengerId target = Inr j" "i \<notin> set (rqsOutgoing s)" "j \<notin> set (rqsIncoming s)"
        "rqsOutgoing s' = rqsOutgoing s @ [i]" "rqsIncoming s' = rqsIncoming s @ [j]"
        and r: "(\<exists>opts. sameLocationOptions h c source target plan T = Inr opts \<and> rqsTransfers s' = rqsTransfers s \<and>
            rqsSameLocation s' = rqsSameLocation s @ [\<lparr>slrContinuity = c, slrOptions = opts\<rparr>]) \<or>
          (\<exists>q. transferRequest c source target plan T = Inr q \<and> rqsSameLocation s' = rqsSameLocation s \<and> rqsTransfers s' = rqsTransfers s @ [q])"
      have e: "endId ps (cnSourceTrainRunId c) = i" "endId ps (cnTargetTrainRunId c) = j" using m by (simp_all add: endId_def)
      have "bound_requests ps s' \<and> mset (map slrContinuity (rqsSameLocation s')) + mset (map trqContinuity (rqsTransfers s')) = mset (zs @ [c])"
        using r
      proof (elim disjE exE conjE)
        fix opts
        assume o: "sameLocationOptions h c source target plan T = Inr opts" "rqsTransfers s' = rqsTransfers s"
          "rqsSameLocation s' = rqsSameLocation s @ [\<lparr>slrContinuity = c, slrOptions = opts\<rparr>]"
        then show ?thesis using i m sameLocationOptions_bound [OF o(1)] by (auto simp: I_def bound_requests_def bound_option_def)
      next
        fix q
        assume q: "transferRequest c source target plan T = Inr q" "rqsSameLocation s' = rqsSameLocation s" "rqsTransfers s' = rqsTransfers s @ [q]"
        have "trqContinuity q = c" "trqSource q = source" "trqTarget q = target" by (rule transferRequest_parts [OF q(1)], simp)+
        then show ?thesis using i m q by (auto simp: I_def bound_requests_def)
      qed
      then show ?thesis using i m e by (auto simp: I_def)
    qed
  qed
  then show ?thesis unfolding I_def .
qed

lemma takeFixed_result: "fold_res (takeFixed T) qs chosen = Inr x \<Longrightarrow> x = chosen @ map (\<lambda>q. hd (slrOptions q)) qs"
proof (induction qs arbitrary: chosen)
  case (Cons q qs)
  then obtain y where y: "takeFixed T q chosen = Inr y" "fold_res (takeFixed T) qs y = Inr x" by (auto simp: bnd_Inr)
  then have "y = chosen @ [hd (slrOptions q)]" by (simp add: takeFixed_def Let_def invariant_Inr)
  then show ?case using Cons.IH [OF y(2)] by simp
qed simp

lemma found_all2:
  assumes "found candidates build blocked held qs opts" "\<And>q h c opt. q \<in> set qs \<Longrightarrow> c \<in> set (candidates q h) \<Longrightarrow> build q c = Inr opt \<Longrightarrow> P q opt"
  shows "list_all2 P qs opts"
  using assms
proof (induction qs arbitrary: held opts)
  case (Cons q qs)
  obtain opt rest c where "opts = opt # rest" "c \<in> set (candidates q held)" "build q c = Inr opt"
    "found candidates build blocked (held @ moReservations opt) qs rest"
    using Cons.prems(1) by (auto split: list.splits)
  then show ?case using Cons by auto
qed simp

lemma same_bound:
  assumes "chooseSameLocationOptions qs T = Inr opts"
    and "\<forall>q \<in> set qs. slrOptions q \<noteq> [] \<and> (\<forall>opt \<in> set (slrOptions q). bound_option ps (slrContinuity q) opt)"
  shows "\<exists>rs. mset rs = mset qs \<and> list_all2 (\<lambda>q opt. bound_option ps (slrContinuity q) opt) rs opts"
proof -
  let ?fixed = "sort_by (\<lambda>l r. compareText (cnId (slrContinuity l)) (cnId (slrContinuity r))) (filter (\<lambda>r. length (slrOptions r) = 1) qs)"
  let ?flexible = "sort_by compareFlexible (filter (\<lambda>r. length (slrOptions r) > 1) qs)"
  obtain fixed flex n where f: "fold_res (takeFixed T) ?fixed [] = Inr fixed"
    and s: "search_flexible T ?flexible (held_by fixed) = Inr (n, Some flex)" "opts = fixed @ flex"
    using assms(1) by (auto simp: chooseSameLocationOptions_def invariant_Inr bnd_Inr split: option.splits)
  have "fixed = map (\<lambda>q. hd (slrOptions q)) ?fixed" using takeFixed_result [OF f] by simp
  then have "list_all2 (\<lambda>q opt. bound_option ps (slrContinuity q) opt) ?fixed fixed"
    using assms(2) by (auto simp: list_all2_map2 list_all2_same)
  moreover have "list_all2 (\<lambda>q opt. bound_option ps (slrContinuity q) opt) ?flexible flex"
    by (rule found_all2 [OF search_found [OF s(1)]]) (use assms(2) in auto)
  moreover have "mset (?fixed @ ?flexible) = mset qs" by (rule split_requests) (use assms(2) in simp)
  ultimately show ?thesis using s(2) list_all2_appendI by blast
qed

lemma transfers_bound:
  assumes "chooseTransferOptions h qs held T = Inr opts"
    and "\<forall>q \<in> set qs. map_of ps (cnSourceTrainRunId (trqContinuity q)) = Some (trqSource q) \<and> map_of ps (cnTargetTrainRunId (trqContinuity q)) = Some (trqTarget q)"
  shows "\<exists>rs. mset rs = mset qs \<and> list_all2 (\<lambda>q opt. bound_option ps (trqContinuity q) opt) rs opts"
proof -
  let ?cand = "\<lambda>q held. transferStartCandidates (trqEarliestDepartureMs q) (trqLatestDepartureMs q) (drMinimumRuntimeMs (ttTransfer (trqTemplate q))) held T"
  let ?build = "\<lambda>q. transferOption h (trqContinuity q) (trqSource q) (trqTarget q) (trqTemplate q)"
  let ?blocked = "\<lambda>opt held. optionHasInternalConflict opt T \<or> optionConflicts opt held T"
  have f: "found ?cand ?build ?blocked held (sort_by compareTransferRequest qs) opts"
    using assms(1) search_found by (fastforce simp: chooseTransferOptions_def bnd_Inr split: option.splits)
  have "list_all2 (\<lambda>q opt. bound_option ps (trqContinuity q) opt) (sort_by compareTransferRequest qs) opts"
    by (rule found_all2 [OF f]) (use assms(2) transferOption_bound in \<open>fastforce simp: bound_option_def\<close>)
  moreover have "mset (sort_by compareTransferRequest qs) = mset qs" by simp
  ultimately show ?thesis by blast
qed

lemma options_bound:
  assumes "chooseOptions h cs ps plan T = Inr opts"
  shows "\<exists>cs'. mset cs' = mset cs \<and> list_all2 (bound_option ps) cs' opts"
proof -
  obtain st same transfers where st: "fold_res (addRequest h ps plan T) cs no_requests = Inr st"
    and c: "chooseSameLocationOptions (rqsSameLocation st) T = Inr same"
      "chooseTransferOptions h (rqsTransfers st) (held_by same) T = Inr transfers" "opts = same @ transfers"
    using assms(1) by (auto simp: chooseOptions_def bnd_Inr invariant_Inr)
  note r = requests_bound [OF st]
  have b: "bound_requests ps st" using r by blast
  obtain rs where rs: "mset rs = mset (rqsSameLocation st)" "list_all2 (\<lambda>q opt. bound_option ps (slrContinuity q) opt) rs same"
    using same_bound [OF c(1), of ps] b unfolding bound_requests_def by blast
  obtain ts where ts: "mset ts = mset (rqsTransfers st)" "list_all2 (\<lambda>q opt. bound_option ps (trqContinuity q) opt) ts transfers"
    using transfers_bound [OF c(2), of ps] b unfolding bound_requests_def by blast
  have "list_all2 (bound_option ps) (map slrContinuity rs @ map trqContinuity ts) opts"
    using rs(2) ts(2) c(3) by (auto simp: list_all2_map1 intro!: list_all2_appendI)
  moreover have "mset (map slrContinuity rs @ map trqContinuity ts) = mset cs"
    using r rs(1) ts(1) by (simp add: mset_map)
  ultimately show ?thesis by blast
qed

section \<open>The edges\<close>

lemma stageEdges_ends:
  "stageEdges h c n p stages = (edges, final) \<Longrightarrow>
     add_mset final (mset (map cePredecessorTrainId edges)) = add_mset p (mset (map sgId stages)) \<and> map ceSuccessorTrainId edges = map sgId stages"
  by (induction stages arbitrary: n p edges final) (fastforce simp: Let_def split: prod.splits)+

lemma continuationEdges_ends:
  assumes "continuationEdges h sel b = Inr edges" "passengerId (moSource sel) = Inr i" "passengerId (moTarget sel) = Inr j"
  shows "mset (map cePredecessorTrainId edges) = add_mset i (mset (map sgId (moStages sel)))"
    and "mset (map ceSuccessorTrainId edges) = add_mset j (mset (map sgId (moStages sel)))"
proof -
  obtain es final where e: "stageEdges h (cnId (moContinuity sel)) 0 i (moStages sel) = (es, final)" by fastforce
  note s = stageEdges_ends [OF e]
  have "map cePredecessorTrainId edges = map cePredecessorTrainId es @ [final]" "map ceSuccessorTrainId edges = map ceSuccessorTrainId es @ [j]"
    using assms e by (auto simp: continuationEdges_def Let_def)
  then show "mset (map cePredecessorTrainId edges) = add_mset i (mset (map sgId (moStages sel)))"
    "mset (map ceSuccessorTrainId edges) = add_mset j (mset (map sgId (moStages sel)))"
    using s by (simp_all del: mset_map)
qed

section \<open>The passengers\<close>

definition identified :: "(string \<times> passenger_train) list \<Rightarrow> bool" where
  "identified ps \<longleftrightarrow> distinct (map fst ps) \<and> (\<forall>(i, t) \<in> set ps. passengerId t = Inr i)"

lemma passengersById_entries:
  assumes "passengersById trains = Inr ps"
  shows "identified ps" and "map snd ps = trains"
proof -
  obtain es where es: "map_res (\<lambda>t. bnd (passengerId t) (\<lambda>i. Inr (i, t))) trains = Inr es" "length (map_from es) = length trains" "ps = map_from es"
    using assms by (auto simp: passengersById_def bnd_Inr invariant_Inr)
  have l: "length es = length trains" "map snd es = trains \<and> (\<forall>(i, t) \<in> set es. passengerId t = Inr i)"
    using es(1) by (induction trains arbitrary: es) (auto simp: bnd_Inr)
  then have d: "distinct (map fst es)" using es(2) map_from_size [of es] by simp
  then have "ps = es" using es(3) map_from_distinct by blast
  then show "identified ps" "map snd ps = trains" using l d by (auto simp: identified_def)
qed

lemma identified_train: "identified ps \<Longrightarrow> map_of ps i = Some t \<Longrightarrow> passengerId t = Inr i"
  by (auto simp: identified_def dest!: map_of_SomeD)

lemma endId_identified: "identified ps \<Longrightarrow> map_of ps i = Some t \<Longrightarrow> endId ps i = i"
  using identified_train by (fastforce simp: endId_def)

lemma mset_full:
  assumes "distinct xs" "distinct ys" "length xs = length ys" "set xs \<subseteq> set ys"
  shows "mset xs = mset ys"
proof -
  have "set xs = set ys" using assms by (metis card_subset_eq distinct_card finite_set)
  then show ?thesis using assms(1,2) set_eq_iff_mset_eq_distinct by blast
qed

lemma requests_permute:
  assumes "fold_res (addRequest h ps plan T) cs no_requests = Inr st" "identified ps"
    and "length (rqsIncoming st) = length ps" "length (rqsOutgoing st) = length ps"
  shows "mset (map cnSourceTrainRunId cs) = mset (map fst ps)" and "mset (map cnTargetTrainRunId cs) = mset (map fst ps)"
proof -
  note r = requests_bound [OF assms(1)]
  have e: "endId ps (cnSourceTrainRunId c) = cnSourceTrainRunId c \<and> endId ps (cnTargetTrainRunId c) = cnTargetTrainRunId c \<and>
      cnSourceTrainRunId c \<in> set (map fst ps) \<and> cnTargetTrainRunId c \<in> set (map fst ps)" if c: "c \<in> set cs" for c
  proof -
    obtain s t where m: "map_of ps (cnSourceTrainRunId c) = Some s" "map_of ps (cnTargetTrainRunId c) = Some t" using r c by blast
    then show ?thesis using endId_identified [OF assms(2)] map_of_SomeD [OF m(1)] map_of_SomeD [OF m(2)] by force
  qed
  have ro: "rqsOutgoing st = map (\<lambda>c. endId ps (cnSourceTrainRunId c)) cs" "rqsIncoming st = map (\<lambda>c. endId ps (cnTargetTrainRunId c)) cs"
    and d: "distinct (rqsOutgoing st)" "distinct (rqsIncoming st)" using r by blast+
  have o: "rqsOutgoing st = map cnSourceTrainRunId cs" "rqsIncoming st = map cnTargetTrainRunId cs" unfolding ro using e by simp_all
  have k: "distinct (map fst ps)" using assms(2) by (simp add: identified_def)
  show "mset (map cnSourceTrainRunId cs) = mset (map fst ps)" by (rule mset_full) (use d o e assms(3,4) k in auto)
  show "mset (map cnTargetTrainRunId cs) = mset (map fst ps)" by (rule mset_full) (use d o e assms(3,4) k in auto)
qed

section \<open>The graph\<close>

definition graph_of :: "(string \<times> passenger_train) list \<Rightarrow> continuity list \<Rightarrow> movement_graph \<Rightarrow> bool" where
  "graph_of ps cs g \<longleftrightarrow>
     mset (map cePredecessorTrainId (mgContinuations g)) = mset (map cnSourceTrainRunId cs) + mset (map sgId (mgStages g)) \<and>
     mset (map ceSuccessorTrainId (mgContinuations g)) = mset (map cnTargetTrainRunId cs) + mset (map sgId (mgStages g)) \<and>
     map maContinuityId (mgAllocations g) = map cnId cs"

lemma addSelection_graph:
  assumes "addSelection h chosen keys c g = Inr g'" "graph_of ps cs g" "identified ps"
    and "\<And>opt. map_of chosen (cnId c) = Some opt \<Longrightarrow> bound_option ps c opt"
  shows "graph_of ps (cs @ [c]) g'"
proof -
  obtain sel where sel: "map_of chosen (cnId c) = Some sel" using assms(1) by (auto simp: addSelection_def split: option.splits)
  have b: "bound_option ps c sel" by (rule assms(4) [OF sel])
  then have ij: "passengerId (moSource sel) = Inr (cnSourceTrainRunId c)" "passengerId (moTarget sel) = Inr (cnTargetTrainRunId c)"
    using identified_train [OF assms(3)] by (auto simp: bound_option_def)
  obtain edges where e: "continuationEdges h sel (rolloverKey (cnSourceTrainRunId c) (cnTargetTrainRunId c) \<in> set keys) = Inr edges"
    and g: "mgStages g' = mgStages g @ moStages sel" "mgContinuations g' = mgContinuations g @ edges"
      "map maContinuityId (mgAllocations g') = map maContinuityId (mgAllocations g) @ [cnId c]"
    using assms(1) sel ij by (auto simp: addSelection_def Let_def bnd_Inr invariant_Inr)
  show ?thesis
    using assms(2) continuationEdges_ends [OF e ij] g by (simp add: graph_of_def del: mset_map)
qed

lemma chosen_bound:
  assumes "chooseOptions h cs ps plan T = Inr opts" "length (map_from (map (\<lambda>opt. (cnId (moContinuity opt), opt)) opts)) = length cs"
    and "c \<in> set cs" "map_of (map_from (map (\<lambda>opt. (cnId (moContinuity opt), opt)) opts)) (cnId c) = Some opt"
  shows "bound_option ps c opt"
proof -
  let ?es = "map (\<lambda>opt. (cnId (moContinuity opt), opt)) opts"
  obtain cs' where cs': "mset cs' = mset cs" "list_all2 (bound_option ps) cs' opts" using options_bound [OF assms(1)] by blast
  have len: "length ?es = length cs" using cs' by (metis length_map list_all2_lengthD size_mset)
  then have d: "distinct (map fst ?es)" using assms(2) map_from_size [of ?es] by simp
  have m: "map cnId cs' = map fst ?es" using cs'(2) by (induction rule: list_all2_induct) (auto simp: bound_option_def)
  then have d': "distinct (map cnId cs')" using d by simp
  have "(cnId c, opt) \<in> set ?es" using assms(4) map_from_distinct [OF d] by (auto dest: map_of_SomeD)
  then have opt: "opt \<in> set opts" "cnId (moContinuity opt) = cnId c" by auto
  then obtain c' where c': "c' \<in> set cs'" "bound_option ps c' opt" using cs'(2) by (metis in_set_conv_nth list_all2_conv_all_nth)
  moreover have "c \<in> set cs'" using assms(3) mset_eq_setD [OF cs'(1)] by simp
  ultimately have "c' = c" using opt(2) d' by (auto simp: bound_option_def distinct_map dest: inj_onD)
  then show ?thesis using c'(2) by simp
qed

lemma map_res_ids:
  assumes "map_res f xs = Inr ys" "\<And>x y. x \<in> set xs \<Longrightarrow> f x = Inr y \<Longrightarrow> pgId y = i x"
  shows "map pgId ys = map i xs"
  using assms by (induction xs arbitrary: ys) (auto simp: bnd_Inr)

lemma finish_ids:
  assumes "finishAllocation select ps trains g held = Inr a" "identified ps" "map snd ps = trains"
  shows "mset (map pgId (alProgramTrains a)) = mset (map fst ps) + mset (map sgId (mgStages g))"
    and "mset (alContinuations a) = mset (mgContinuations g)" and "mset (alAllocations a) = mset (mgAllocations g)"
proof -
  obtain numbers passengers movements where
    p: "map_res (passengerProgram select (mgDispatchById g)) trains = Inr passengers"
    and m: "map_res (movementProgram select ps numbers) (mgStages g) = Inr movements"
    and a: "alProgramTrains a = sort_by compareProgram (passengers @ movements)" "mset (alContinuations a) = mset (mgContinuations g)"
      "mset (alAllocations a) = mset (mgAllocations g)"
    using assms(1) by (auto simp: finishAllocation_def Let_def bnd_Inr invariant_Inr)
  have "map pgId passengers = map (\<lambda>t. case passengerId t of Inl e \<Rightarrow> [] | Inr i \<Rightarrow> i) trains"
    by (rule map_res_ids [OF p]) (auto simp: passengerProgram_def bnd_Inr split: option.splits)
  also have "\<dots> = map fst ps" using assms(2) unfolding assms(3) [symmetric] by (fastforce simp: identified_def)
  finally have "map pgId passengers = map fst ps" .
  moreover have "map pgId movements = map sgId (mgStages g)"
    by (rule map_res_ids [OF m]) (auto simp: movementProgram_def bnd_Inr split: option.splits)
  ultimately have "mset (map pgId (passengers @ movements)) = mset (map fst ps) + mset (map sgId (mgStages g))"
    by (simp del: mset_map)
  then show "mset (map pgId (alProgramTrains a)) = mset (map fst ps) + mset (map sgId (mgStages g))" by (simp add: a(1))
  show "mset (alContinuations a) = mset (mgContinuations g)" "mset (alAllocations a) = mset (mgAllocations g)" by (rule a(2), rule a(3))
qed

section \<open>All trains\<close>

lemma allocation_permuted:
  assumes "allocateMovementRoutePlanV2 alphaHash select dailyPlan cs trains plan T = Inr a"
  shows "mset (map cePredecessorTrainId (alContinuations a)) = mset (map pgId (alProgramTrains a)) \<and>
    mset (map ceSuccessorTrainId (alContinuations a)) = mset (map pgId (alProgramTrains a)) \<and>
    mset (map maContinuityId (alAllocations a)) = mset (map cnId cs)"
proof -
  obtain ps keys opts g where ps: "passengersById trains = Inr ps" and c: "chooseOptions alphaHash cs ps plan T = Inr opts"
    and l: "length (map_from (map (\<lambda>opt. (cnId (moContinuity opt), opt)) opts)) = length cs"
    and g: "fold_res (addSelection alphaHash (map_from (map (\<lambda>opt. (cnId (moContinuity opt), opt)) opts)) keys)
        (sort_by (\<lambda>l r. compareText (cnId l) (cnId r)) cs)
        \<lparr>mgDispatchById = [], mgStages = [], mgContinuations = [], mgAllocations = [], mgBoundaryCount = 0\<rparr> = Inr g"
    and f: "finishAllocation select ps trains g (held_by opts) = Inr a"
    using assms unfolding allocateMovementRoutePlanV2_def Let_def bnd_Inr invariant_Inr by blast
  note i = passengersById_entries [OF ps]
  let ?cs = "sort_by (\<lambda>l r. compareText (cnId l) (cnId r)) cs"
  have "graph_of ps ?cs g"
  proof (rule fold_res_rule [OF g, where I = "\<lambda>done todo g. graph_of ps done g"])
    fix zs c ys s s'
    assume z: "?cs = zs @ c # ys" and s: "graph_of ps zs s"
      and a: "addSelection alphaHash (map_from (map (\<lambda>opt. (cnId (moContinuity opt), opt)) opts)) keys c s = Inr s'"
    have "c \<in> set ?cs" using z by simp
    then have "c \<in> set cs" by simp
    then show "graph_of ps (zs @ [c]) s'" using addSelection_graph [OF a s i(1)] chosen_bound [OF c l] by blast
  qed (simp add: graph_of_def)
  then have gr: "mset (map cePredecessorTrainId (mgContinuations g)) = mset (map cnSourceTrainRunId cs) + mset (map sgId (mgStages g))"
    "mset (map ceSuccessorTrainId (mgContinuations g)) = mset (map cnTargetTrainRunId cs) + mset (map sgId (mgStages g))"
    "mset (map maContinuityId (mgAllocations g)) = mset (map cnId cs)"
    unfolding graph_of_def by (simp_all add: mset_map)
  obtain st where st: "fold_res (addRequest alphaHash ps plan T) cs no_requests = Inr st"
    "length (rqsIncoming st) = length ps" "length (rqsOutgoing st) = length ps"
    using c by (auto simp: chooseOptions_def bnd_Inr invariant_Inr)
  note p = requests_permute [OF st(1) i(1) st(2,3)]
  note fin = finish_ids [OF f i]
  show ?thesis using gr p fin by (simp add: mset_map)
qed

end
