(* ===== verification/MovementNumbers.thy ===== *)
theory MovementNumbers
  imports MovementAllocation
begin

text \<open>
  The numbers of the movement trains: every one is operational and none is used twice, by a movement or by
  a passenger train.
\<close>

lemma trailingDigits_append: "\<not> is_digit c \<Longrightarrow> \<forall>d \<in> set ds. is_digit d \<Longrightarrow> trailingDigits (xs @ c # ds) = ds"
proof -
  assume d: "\<not> is_digit c" "\<forall>d \<in> set ds. is_digit d"
  have "takeWhile is_digit (rev ds @ c # rev xs) = rev ds @ takeWhile is_digit (c # rev xs)"
    by (rule takeWhile_append2) (use d in simp)
  then show ?thesis using d by (simp add: trailingDigits_def)
qed

lemma nat_str_short: "n < 100000 \<Longrightarrow> length (nat_str n) \<le> 5"
proof -
  assume n: "n < 100000"
  have step: "length (nat_str m) \<le> Suc k" if "m < 10 * b" "\<And>m. m < b \<Longrightarrow> length (nat_str m) \<le> k" for m b k
    using that by (subst nat_str.simps) auto
  have 1: "length (nat_str m) \<le> 1" if "m < 10" for m using that by (simp add: nat_str.simps)
  have 2: "length (nat_str m) \<le> 2" if "m < 100" for m using step [of m 10 1] 1 that by (simp add: numeral_2_eq_2)
  have 3: "length (nat_str m) \<le> 3" if "m < 1000" for m using step [of m 100 2] 2 that by (simp add: numeral_3_eq_3)
  have 4: "length (nat_str m) \<le> 4" if "m < 10000" for m using step [of m 1000 3] 3 that by simp
  show ?thesis using step [of n 10000 4] 4 n by simp
qed

lemma digit_is_plain: "is_digit c \<Longrightarrow> \<not> is_control c \<and> \<not> js_space c"
  by (auto simp: is_digit_def is_control_def js_space_def)

lemma numeric_part_of_number:
  assumes "0 < n" "n \<le> 99999" "p = ''Lr'' \<or> p = ''Rf'' \<or> p = ''Lt''"
  shows "operationalTrainNumberNumericPart (p @ '' '' @ int_str n) = Some n"
proof -
  obtain k where k: "n = int k" using assms(1) by (metis less_imp_le zero_le_imp_eq_int)
  let ?d = "nat_str k"
  have d: "?d \<noteq> []" "\<forall>c \<in> set ?d. is_digit c" using digits_nat_str [of k] by (auto simp: digits_def)
  have tail: "trailingDigits (p @ '' '' @ ?d) = ?d"
    by (simp only: append_Cons append_Nil, rule trailingDigits_append) (use d in \<open>auto simp: is_digit_def\<close>)
  have plain: "\<forall>c \<in> set ?d. \<not> is_control c \<and> \<not> js_space c" using d(2) digit_is_plain by blast
  have "length ?d \<le> 5" by (rule nat_str_short) (use assms(2) k in simp)
  moreover have "trimmed (p @ '' '' @ ?d)"
    using plain d(1) assms(3) last_in_set [OF d(1)] by (auto simp: trimmed_def js_space_def)
  moreover have "\<forall>c \<in> set (p @ '' '' @ ?d). \<not> is_control c" using plain assms(3) by (auto simp: is_control_def)
  moreover have "length (p @ '' '' @ ?d) \<le> 200" using calculation(1) assms(3) by auto
  ultimately show ?thesis using d(1) assms(1) k
    by (auto simp: operationalTrainNumberNumericPart_def Let_def tail int_str_def bigint_of_nat_str simp del: append_Cons append_Nil)
qed

lemma freeNumber_free: "0 < freeNumber c busy \<Longrightarrow> freeNumber c busy \<le> c \<and> freeNumber c busy \<notin> set busy"
proof (induction c busy rule: freeNumber.induct)
  case (1 c busy)
  then show ?case by (subst (asm) freeNumber.simps, subst (1 2) freeNumber.simps) (auto split: if_splits)
qed

lemma assignNumber_parts:
  assumes "assignNumber stage (m, busy, candidate) = Inr acc"
  obtains p where "p = ''Lr'' \<or> p = ''Rf'' \<or> p = ''Lt''" "0 < freeNumber candidate busy"
    "acc = (AList.update (sgId stage) (p @ '' '' @ int_str (freeNumber candidate busy)) m, freeNumber candidate busy # busy, freeNumber candidate busy - 1)"
proof -
  let ?p = "if sgRole stage = ''transfer'' then ''Lr'' else if drMovementKind (sgDispatch stage) = Some ''shunting'' then ''Rf'' else ''Lt''"
  have "?p = ''Lr'' \<or> ?p = ''Rf'' \<or> ?p = ''Lt''" by simp
  then show ?thesis using assms that [of ?p] by (simp add: assignNumber_def Let_def invariant_Inr)
qed

definition numbers_of :: "string list \<Rightarrow> int option list" where
  "numbers_of = map operationalTrainNumberNumericPart"

lemma passengerNumbers:
  fixes trains :: "passenger_train list"
  assumes "fold_res addPassengerNumber trains [] = Inr busy"
  shows "numbers_of (map ptrTrainNumber trains) = map Some (rev busy) \<and> distinct busy"
proof (rule fold_res_rule [OF assms, where I = "\<lambda>done todo busy. numbers_of (map ptrTrainNumber done) = map Some (rev busy) \<and> distinct busy"])
  fix zs ys :: "passenger_train list" and t busy busy'
  assume "numbers_of (map ptrTrainNumber zs) = map Some (rev busy) \<and> distinct busy" and "addPassengerNumber t busy = Inr busy'"
  then show "numbers_of (map ptrTrainNumber (zs @ [t])) = map Some (rev busy') \<and> distinct busy'"
    by (auto simp: addPassengerNumber_def numbers_of_def invariant_Inr split: option.splits)
qed (simp add: numbers_of_def)

text \<open>The numbers given so far: operational, apart from each other and among the busy ones.\<close>

definition numbers_ok :: "int list \<Rightarrow> (string \<times> string) list \<times> int list \<times> int \<Rightarrow> bool" where
  "numbers_ok passengers acc \<longleftrightarrow> (case acc of (assignments, busy, candidate) \<Rightarrow>
     candidate \<le> 99999 \<and> set passengers \<subseteq> set busy \<and> distinct (map fst assignments) \<and>
     (\<exists>ns. numbers_of (map snd assignments) = map Some ns \<and> distinct ns \<and> set ns \<subseteq> set busy \<and> set ns \<inter> set passengers = {}))"

lemma map_snd_update:
  assumes "distinct (map fst m)"
  shows "\<exists>us vs. map snd m = us @ vs \<and> map snd (AList.update k v m) = us @ v # (if k \<in> fst ` set m then tl vs else vs)"
  using assms
proof (induction m)
  case (Cons e m)
  show ?case
  proof (cases "fst e = k")
    case True
    then show ?thesis by (intro exI [of _ "[]"] exI [of _ "map snd (e # m)"]) (cases e, auto)
  next
    case False
    obtain us vs where u: "map snd m = us @ vs" "map snd (AList.update k v m) = us @ v # (if k \<in> fst ` set m then tl vs else vs)"
      using Cons by auto
    then show ?thesis using False by (intro exI [of _ "snd e # us"] exI [of _ vs]) (cases e, auto)
  qed
qed auto

lemma assignNumber_ok:
  assumes "assignNumber stage acc = Inr acc'" "numbers_ok passengers acc"
  shows "numbers_ok passengers acc'"
proof -
  obtain m busy candidate where acc: "acc = (m, busy, candidate)" by (cases acc) auto
  let ?n = "freeNumber candidate busy"
  obtain p where p: "p = ''Lr'' \<or> p = ''Rf'' \<or> p = ''Lt''" "0 < ?n" "acc' = (AList.update (sgId stage) (p @ '' '' @ int_str ?n) m, ?n # busy, ?n - 1)"
    using assms(1) unfolding acc by (rule assignNumber_parts)
  obtain ns where ns: "numbers_of (map snd m) = map Some ns" "distinct ns" "set ns \<subseteq> set busy" "set ns \<inter> set passengers = {}"
    and c: "candidate \<le> 99999" "set passengers \<subseteq> set busy" "distinct (map fst m)"
    using assms(2) acc by (auto simp: numbers_ok_def)
  have f: "?n \<le> candidate" "?n \<notin> set busy" using freeNumber_free p(2) by blast+
  have num: "operationalTrainNumberNumericPart (p @ '' '' @ int_str ?n) = Some ?n" by (rule numeric_part_of_number) (use p f c in auto)
  obtain us vs where u: "map snd m = us @ vs"
    "map snd (AList.update (sgId stage) (p @ '' '' @ int_str ?n) m) = us @ (p @ '' '' @ int_str ?n) # (if sgId stage \<in> fst ` set m then tl vs else vs)"
    using map_snd_update [OF c(3)] by blast
  obtain ks js where ij: "ns = ks @ js" "numbers_of us = map Some ks" "numbers_of vs = map Some js"
    using ns(1) unfolding u(1) numbers_of_def map_append append_eq_map_conv by blast
  define ls where "ls = (if sgId stage \<in> fst ` set m then tl js else js)"
  have "numbers_of (map snd (AList.update (sgId stage) (p @ '' '' @ int_str ?n) m)) = map Some (ks @ ?n # ls)"
    using u(2) ij num by (simp add: numbers_of_def map_tl ls_def)
  moreover have "set ls \<subseteq> set js" "distinct ls" using ns(2) ij(1) by (cases js; simp add: ls_def; blast)+
  then have "distinct (ks @ ?n # ls)" "set (ks @ ?n # ls) \<subseteq> set (?n # busy)" "set (ks @ ?n # ls) \<inter> set passengers = {}"
    using ns ij(1) f(2) c(2) by auto
  ultimately have e: "\<exists>ns. numbers_of (map snd (AList.update (sgId stage) (p @ '' '' @ int_str ?n) m)) = map Some ns \<and> distinct ns \<and>
      set ns \<subseteq> set (?n # busy) \<and> set ns \<inter> set passengers = {}" by blast
  have "?n - 1 \<le> 99999" "set passengers \<subseteq> set (?n # busy)" "distinct (map fst (AList.update (sgId stage) (p @ '' '' @ int_str ?n) m))"
    using c f(1) by (auto simp: distinct_update)
  then show ?thesis unfolding numbers_ok_def p(3) prod.case using e by blast
qed

lemma assigned_stages:
  assumes "fold_res assignNumber stages (m, busy, c) = Inr (m', busy', c')"
  shows "fst ` set m' = fst ` set m \<union> set (map sgId stages)"
  using assms
proof (induction stages arbitrary: m busy c)
  case (Cons s stages)
  obtain m1 b1 c1 where a: "assignNumber s (m, busy, c) = Inr (m1, b1, c1)" and "fold_res assignNumber stages (m1, b1, c1) = Inr (m', busy', c')"
    using Cons.prems by (auto simp: bnd_Inr)
  moreover have "fst ` set m1 = insert (sgId s) (fst ` set m)"
    by (rule assignNumber_parts [OF a]) (simp add: dom_update)
  ultimately show ?case using Cons.IH [of m1 b1 c1] by simp
qed simp

section \<open>The limit of a signed programme\<close>

text \<open>\<open>assertOperationalTrainNumbers\<close> of the native runtime package, an error as its cause.\<close>

datatype train_number_error = NoNumericPart nat | NumberTwice int

fun assertNumbers :: "nat \<Rightarrow> int list \<Rightarrow> string list \<Rightarrow> train_number_error + unit" where
  "assertNumbers index numbers [] = Inr ()"
| "assertNumbers index numbers (trainNumber # rest) =
     (case operationalTrainNumberNumericPart trainNumber of
        None \<Rightarrow> Inl (NoNumericPart index)
      | Some n \<Rightarrow> if n \<in> set numbers then Inl (NumberTwice n) else assertNumbers (index + 1) (n # numbers) rest)"

definition assertOperationalTrainNumbers :: "string list \<Rightarrow> train_number_error + unit" where
  "assertOperationalTrainNumbers trainNumbers = assertNumbers 0 [] trainNumbers"

lemma assertNumbers_accepts:
  "assertNumbers i ns xs = Inr () \<longleftrightarrow> (\<exists>ms. numbers_of xs = map Some ms \<and> distinct ms \<and> set ms \<inter> set ns = {})"
proof (induction xs arbitrary: i ns)
  case (Cons x xs)
  show ?case
  proof (cases "operationalTrainNumberNumericPart x")
    case (Some n)
    then have "(\<exists>ms. numbers_of (x # xs) = map Some ms \<and> distinct ms \<and> set ms \<inter> set ns = {}) \<longleftrightarrow>
      n \<notin> set ns \<and> (\<exists>ms. numbers_of xs = map Some ms \<and> distinct ms \<and> set ms \<inter> set (n # ns) = {})"
      by (auto simp: numbers_of_def Cons_eq_map_conv intro: exI [of _ "n # _"])
    then show ?thesis using Some Cons.IH by simp
  qed (auto simp: numbers_of_def Cons_eq_map_conv)
qed (simp add: numbers_of_def)

end
