(* ===== verification/MovementProperties.thy ===== *)
theory MovementProperties
  imports MovementGraph MovementNumbers
begin

text \<open>
  What an allocation of movement routes guarantees, with a day of two trains where it is applied: they turn
  at a terminal in the morning and are stabled over the night.
\<close>

section \<open>A day of two trains\<close>

lemma int_str_code [code]:
  "int_str n = (if n < 0 then CHR ''-'' # int_str (- n)
     else if n < 10 then [char_of (48 + nat n)] else int_str (n div 10) @ [char_of (48 + nat (n mod 10))])"
proof (cases "n < 0")
  case False
  then obtain k where k: "n = int k" by (metis not_le zero_le_imp_eq_int)
  have "int k div 10 = int (k div 10)" "int k mod 10 = int (k mod 10)" by (simp_all add: zdiv_int zmod_int)
  then show ?thesis by (simp add: k int_str_def nat_str.simps [of k])
qed (simp add: int_str_def)

definition day_ms :: int where
  "day_ms = 86400000"

definition sample_dispatch :: "string \<Rightarrow> string \<Rightarrow> dispatch_route" where
  "sample_dispatch i before =
     \<lparr>drRouteVersionId = ''route:'' @ i, drPredecessorBaseRouteVersionId = before, drDispatchInterlockingRouteId = ''interlocking:'' @ i,
      drHeadRouteMm = 69860, drMinimumRuntimeMs = 60000, drResourceIds = [''resource:'' @ i], drRouteLegCount = 1,
      drProtectionContractRuns = [], drContinuity = ''same-direction'', drMovementKind = None\<rparr>"

definition sample_berth :: berth where
  "sample_berth = \<lparr>ivEdgeId = ''berth'', ivFromMm = 10000, ivToMm = 79860, beEdgeLengthMm = 89860, beLeftClearanceMm = 10000, beRightClearanceMm = 10000\<rparr>"

definition sample_route_plan :: movement_route_plan where
  "sample_route_plan =
     \<lparr>mrDirectTemplates = [\<lparr>dtId = ''d'', dtInboundRouteVersionId = ''ra'', dtOutboundRouteVersionId = ''rb'', dtFormationLengthMm = 69860,
        dtTerminalIntervals = [\<lparr>ivEdgeId = ''terminal'', ivFromMm = 0, ivToMm = 69860\<rparr>], dtResourceIds = [''resource:d''], dtThrough = None,
        dtOutbound = sample_dispatch ''d:outbound'' ''ra''\<rparr>],
      mrTemplates = [\<lparr>slId = ''s'', slInboundRouteVersionId = ''rb'', slOutboundRouteVersionId = ''ra'', slFormationLengthMm = 69860,
        slCandidateRank = 0, slTerminalIntervals = [\<lparr>ivEdgeId = ''terminal'', ivFromMm = 0, ivToMm = 69860\<rparr>], slStablingKind = ''shared-berth'',
        slHasLegacyBerth = False, slShuntIn = sample_dispatch ''s:in'' ''rb'', slArrivalBerth = sample_berth, slBerthTransfer = None,
        slDepartureBerth = sample_berth, slShuntOut = sample_dispatch ''s:out'' ''route:s:in'', slOutbound = sample_dispatch ''s:outbound'' ''route:s:out''\<rparr>],
      mrTransferTemplates = []\<rparr>"

definition sample_train :: "string \<Rightarrow> string \<Rightarrow> string \<Rightarrow> int \<Rightarrow> passenger_train" where
  "sample_train i number passengerRoute departureMs =
     \<lparr>ptrTrainRunId = Some i, ptrId = None, ptrTrainNumber = number, ptrOperatorId = Some ''op'', ptrOperator = None,
      ptrBaseRouteVersionId = Some passengerRoute, ptrRouteVersionId = None, ptrFormationVersionId = ''f'', ptrFormationLengthMm = 69860,
      ptrInstalledProtection = [''pzb''], ptrScheduledDepartureMs = departureMs\<rparr>"

definition sample_trains :: "passenger_train list" where
  "sample_trains = [sample_train ''a'' ''RE 1'' ''ra'' 28800000, sample_train ''b'' ''RE 2'' ''rb'' 33000000]"

definition sample_turn :: "string \<Rightarrow> string \<Rightarrow> string \<Rightarrow> int \<Rightarrow> int \<Rightarrow> int \<Rightarrow> int \<Rightarrow> continuity" where
  "sample_turn i s t departureS arrivalS targetS offset =
     \<lparr>cnId = i, cnSourceTrainRunId = s, cnTargetTrainRunId = t, cnSourceLegId = s, cnTargetLegId = t, cnSourceCirculationId = ''c'',
      cnTargetCirculationId = ''c'', cnSourceLocationId = ''x'', cnTargetLocationId = ''x'', cnSourceDepartureS = departureS,
      cnSourceArrivalS = arrivalS, cnTargetDepartureS = targetS, cnSourcePhase = 0, cnSuccessorDayOffset = offset,
      cnRelation = ''same-location'', cnTransferDemandId = None\<rparr>"

definition sample_turns :: "continuity list" where
  "sample_turns = [sample_turn ''turn-1'' ''a'' ''b'' 28800 32400 33000 0, sample_turn ''turn-2'' ''b'' ''a'' 33000 36000 115200 1]"

definition sample_daily_plan :: daily_plan where
  "sample_daily_plan =
     (let stop = \<lparr>epLegId = ''l'', epRouteVersionId = ''ra'', epLocationId = ''x'', epPhysicalStopId = ''x'', epTimeS = 0\<rparr> in
      \<lparr>dpSchema = [], dpRule = [], dpGtfsReleaseId = [], dpRepeatEveryS = 86400, dpMinimumTurnaroundS = 300,
       dpMetrics = \<lparr>lotCount = 1, journeyChainCount = 2, circulationCount = 1, rolloverAssignmentCount = 1, plannedTransitionCount = 2, turnaroundDemandCount = 2,
         transferDemandCount = 0, transferLotCount = 0\<rparr>,
       dpCirculations = [\<lparr>ccId = ''c'', ccLotId = ''lot'', ccServiceLineId = ''line'', ccAssetKey = ''k'', ccJourneyChainIds = [], ccLegIds = [],
         ccTrainRunIds = [''a'', ''b''], ccStart = stop, ccEnd = stop\<rparr>],
       dpRolloverAssignments = [\<lparr>roSourceCirculationId = ''c'', roTargetCirculationId = ''c'', roKind = ''same-location''\<rparr>],
       dpTurnaroundDemands = [], dpTransferDemands = [], dpPlanSha256 = []\<rparr>)"

text \<open>A digest that tells the identifiers apart, and a choice of modes.\<close>

fun sample_id :: "string \<Rightarrow> jsval \<Rightarrow> string" where
  "sample_id d (JObject [(k, JString a), (k', JString b), (k'', JString c)]) = a @ ''/'' @ b @ ''/'' @ c"
| "sample_id d (JObject [(k, JString a), (k', JString b), (k'', JString c), (k''', JString e)]) = a @ ''/'' @ b @ ''/'' @ c @ ''/'' @ e"
| "sample_id d v = []"

definition sample_modes :: protection_choice where
  "sample_modes runs legs installed what = Inr JNull"

abbreviation sample_allocation :: "allocation_error + movement_allocation" where
  "sample_allocation \<equiv> allocateMovementRoutePlanV2 sample_id sample_modes sample_daily_plan sample_turns sample_trains sample_route_plan day_ms"

lemma sample_allocated:
  "case sample_allocation of Inl e \<Rightarrow> False
   | Inr a \<Rightarrow> map pgTrainNumber (alProgramTrains a) = [Some ''RE 1'', Some ''RE 2'', Some ''Lt 99999'', Some ''Lt 99998''] \<and>
       length (alReservations a) = 6"
  by code_simp

lemma sample_plan_ok: "plan_ok sample_route_plan"
  by (simp add: plan_ok_def sample_route_plan_def runtime_ok_def sample_dispatch_def is_safe_def)

definition sample_option :: "int \<Rightarrow> int \<Rightarrow> string \<Rightarrow> movement_option" where
  "sample_option startMs endMs resource =
     \<lparr>moContinuity = sample_turn ''turn-1'' ''a'' ''b'' 28800 32400 33000 0, moSource = sample_train ''a'' ''RE 1'' ''ra'' 28800000,
      moTarget = sample_train ''b'' ''RE 2'' ''rb'' 33000000, moKind = ''direct'', moTemplateId = ''d'',
      moTargetDispatch = sample_dispatch ''d:outbound'' ''ra'', moStages = [],
      moReservations = [ResourceReservation resource startMs endMs ''turn'' ''direct'']\<rparr>"

definition sample_stages :: "movement_stage list" where
  "sample_stages = map (\<lambda>i. \<lparr>sgId = i, sgRole = ''shunt-in'', sgMovementKind = ''shunting'', sgDispatch = sample_dispatch ''s:in'' ''rb'',
      sgScheduledDepartureMs = 36300000, sgSourcePassengerTrainId = ''b'', sgFormationVersionId = ''f'', sgInstalledProtection = [''pzb'']\<rparr>) [''m1'', ''m2'']"

definition sample_requests :: "same_location_request list" where
  "sample_requests = map (\<lambda>(c, opts). \<lparr>slrContinuity = c, slrOptions = opts\<rparr>)
     [(sample_turn ''turn-1'' ''a'' ''b'' 28800 32400 33000 0, [sample_option 0 600 ''berth-1'', sample_option 0 900 ''berth-2'']),
      (sample_turn ''turn-2'' ''b'' ''a'' 33000 36000 115200 1, [sample_option 300 1200 ''berth-1'', sample_option 300 1200 ''berth-3''])]"

section \<open>The properties\<close>

text \<open>C14: The trains of a programme form a permutation. The continuations of an allocation leave every train of the programme, passenger
  or movement, exactly once and enter every train exactly once, and every continuity of the day is allocated exactly once.\<close>

theorem movement_graph_is_permutation:
  assumes "allocateMovementRoutePlanV2 alphaHash select dailyPlan cs trains plan T = Inr a"
  shows "mset (map cePredecessorTrainId (alContinuations a)) = mset (map pgId (alProgramTrains a)) \<and>
    mset (map ceSuccessorTrainId (alContinuations a)) = mset (map pgId (alProgramTrains a)) \<and>
    mset (map maContinuityId (alAllocations a)) = mset (map cnId cs)"
  by (rule allocation_permuted [OF assms])

theorem movement_graph_is_permutation_witness:
  "\<exists>a. sample_allocation = Inr a \<and> length (alProgramTrains a) = 4 \<and>
     mset (map cePredecessorTrainId (alContinuations a)) = mset (map pgId (alProgramTrains a))"
proof -
  obtain a where a: "sample_allocation = Inr a" "map pgTrainNumber (alProgramTrains a) = [Some ''RE 1'', Some ''RE 2'', Some ''Lt 99999'', Some ''Lt 99998'']"
    using sample_allocated by (auto split: sum.splits)
  have "length (alProgramTrains a) = 4" using arg_cong [OF a(2), of length] by simp
  with movement_graph_is_permutation [OF a(1)] a(1) show ?thesis by blast
qed

text \<open>C15: The reservations of an allocation never conflict. No two of them ever occupy the same resource or overlapping stretches of a
  track at the same time, in whatever repetition of the day, although the code compares neighbouring periods only; each takes a
  positive time of at most one period, within the two periods of a programme.\<close>

theorem allocation_conflict_free:
  assumes "allocateMovementRoutePlanV2 alphaHash select dailyPlan cs trains plan T = Inr a" and "plan_ok plan" and "T \<le> 2 ^ 50"
  shows "conflict_free T (alReservations a) \<and> (\<forall>r \<in> set (alReservations a). in_range T r)"
  by (rule allocation_free [OF assms])

theorem allocation_conflict_free_witness:
  "\<exists>a. sample_allocation = Inr a \<and> length (alReservations a) = 6 \<and> conflict_free day_ms (alReservations a)"
proof -
  obtain a where a: "sample_allocation = Inr a" "length (alReservations a) = 6" using sample_allocated by (auto split: sum.splits)
  with allocation_conflict_free [OF a(1) sample_plan_ok] show ?thesis by (auto simp: day_ms_def)
qed

text \<open>C16: The choice among direct turns and stablings is sound and complete. A choice takes one option of every request so that no two
  of their reservations ever conflict; and it is refused only when there is none, when some option conflicts with itself, or when
  the search limit is reached.\<close>

theorem choice_found_iff_possible:
  assumes "requests_ok T qs" and "0 < T" and "T \<le> 2 ^ 50"
  shows "case chooseSameLocationOptions qs T of
      Inr opts \<Rightarrow> \<exists>rs. mset rs = mset qs \<and> selected rs opts \<and> conflict_free T (held_by opts)
    | Inl e \<Rightarrow> (\<exists>what. e = SearchLimit what) \<or> (\<exists>q \<in> set qs. \<exists>opt \<in> set (slrOptions q). \<not> conflict_free T (moReservations opt)) \<or>
        (\<nexists>opts. selected qs opts \<and> conflict_free T (held_by opts))"
proof -
  have p: "period_ok T" using assms(2,3) by (simp add: period_ok_def)
  show ?thesis
  proof (cases "chooseSameLocationOptions qs T")
    case (Inl e)
    have "\<exists>what. e = SearchLimit what"
      if "\<forall>q \<in> set qs. \<forall>opt \<in> set (slrOptions q). conflict_free T (moReservations opt)" "selected qs opts" "conflict_free T (held_by opts)" for opts
      using choice_complete [OF Inl assms(1) p that] .
    then show ?thesis using Inl by (simp, blast)
  next
    case (Inr opts)
    then show ?thesis using chosen_free [OF Inr assms(1) p] by simp
  qed
qed

theorem choice_found_iff_possible_witness:
  "\<exists>opts rs. chooseSameLocationOptions sample_requests 86400 = Inr opts \<and> mset rs = mset sample_requests \<and>
     selected rs opts \<and> conflict_free 86400 (held_by opts)"
proof -
  have ok: "requests_ok 86400 sample_requests"
    by (simp add: requests_ok_def sample_requests_def sample_option_def in_range_def)
  have "case chooseSameLocationOptions sample_requests 86400 of Inl e \<Rightarrow> False | Inr opts \<Rightarrow> True" by code_simp
  then obtain opts where "chooseSameLocationOptions sample_requests 86400 = Inr opts" by (auto split: sum.splits)
  with choice_found_iff_possible [OF ok] show ?thesis by auto
qed

text \<open>C17: The numbers of a programme are unique. Every movement train gets a number, and the numbers of all passenger and movement
  trains pass the limit the native runtime sets to a signed programme: each has a numeric part of one to five digits, and no two
  have the same.\<close>

theorem movement_numbers_unique:
  assumes "movementNumberAssignments trains stages = Inr numbers"
  shows "set (map fst numbers) = set (map sgId stages) \<and>
    assertOperationalTrainNumbers (map ptrTrainNumber trains @ map snd numbers) = Inr ()"
proof -
  obtain busy b c where p: "fold_res addPassengerNumber trains [] = Inr busy"
    and s: "fold_res assignNumber (sort_by (\<lambda>l r. compareText (sgId l) (sgId r)) stages) ([], busy, 99999) = Inr (numbers, b, c)"
    using assms by (auto simp: movementNumberAssignments_def bnd_Inr)
  have "numbers_ok busy (numbers, b, c)"
    by (rule fold_res_invariant [OF s]) (simp_all add: numbers_ok_def [of _ "([], busy, 99999)"] numbers_of_def assignNumber_ok)
  then obtain ns where ns: "numbers_of (map snd numbers) = map Some ns" "distinct ns" "set ns \<inter> set busy = {}"
    by (auto simp: numbers_ok_def)
  have "numbers_of (map ptrTrainNumber trains @ map snd numbers) = map Some (rev busy @ ns)"
    using passengerNumbers [OF p] ns(1) by (simp add: numbers_of_def)
  moreover have "distinct (rev busy @ ns)" using passengerNumbers [OF p] ns by auto
  moreover have "set (map fst numbers) = set (map sgId stages)" using assigned_stages [OF s] by auto
  ultimately show ?thesis
    unfolding assertOperationalTrainNumbers_def assertNumbers_accepts by (intro conjI exI [of _ "rev busy @ ns"]) simp_all
qed

theorem movement_numbers_unique_witness:
  "\<exists>numbers. movementNumberAssignments sample_trains sample_stages = Inr numbers \<and> length numbers = 2 \<and>
     assertOperationalTrainNumbers (map ptrTrainNumber sample_trains @ map snd numbers) = Inr ()"
proof -
  have "case movementNumberAssignments sample_trains sample_stages of Inl e \<Rightarrow> False | Inr numbers \<Rightarrow> length numbers = 2" by code_simp
  then obtain numbers where n: "movementNumberAssignments sample_trains sample_stages = Inr numbers" "length numbers = 2"
    by (auto split: sum.splits)
  with movement_numbers_unique [OF n(1)] show ?thesis by blast
qed

end
