(* ===== verification/CanonicalJson.thy ===== *)
theory CanonicalJson
  imports Decimal
begin

text \<open>
  Canonical JSON and the digests over it, \<open>packages/alpha/src/hash.ts\<close>. SHA-256 is an argument. The
  canonical text tells values apart, up to the order of the keys of an object.
\<close>

datatype canonical_error = UnsafeNumber | NotCanonical

text \<open>Keys are compared by the bytes of their UTF-8 texts, which is the order of their characters.\<close>

fun alphaCanonicalJson :: "jsval \<Rightarrow> canonical_error + string" where
  "alphaCanonicalJson JNull = Inr ''null''"
| "alphaCanonicalJson (JString s) = Inr (json_string s)"
| "alphaCanonicalJson (JBool b) = Inr (if b then ''true'' else ''false'')"
| "alphaCanonicalJson (JInt n) = invariant (is_safe n) UnsafeNumber (Inr (int_str n))"
| "alphaCanonicalJson JNonInt = Inl UnsafeNumber"
| "alphaCanonicalJson (JArray vs) = bnd (map_res alphaCanonicalJson vs) (\<lambda>ts. Inr (''['' @ join '','' ts @ '']''))"
| "alphaCanonicalJson (JObject kvs) =
     bnd (map_res (\<lambda>(k, t). bnd t (\<lambda>s. Inr (json_string k @ '':'' @ s)))
            (sort_by (\<lambda>a b. compareText (fst a) (fst b)) (map (\<lambda>(k, v). (k, alphaCanonicalJson v)) kvs))) (\<lambda>ts.
     Inr (''{'' @ join '','' ts @ ''}''))"
| "alphaCanonicalJson JUndefined = Inl NotCanonical"

definition alphaHash :: "(string \<Rightarrow> string) \<Rightarrow> string \<Rightarrow> jsval \<Rightarrow> canonical_error + string" where
  "alphaHash sha256 schema value =
     bnd (alphaCanonicalJson (JObject [(''schema'', JString schema), (''value'', value)])) (\<lambda>t. Inr (sha256 t))"

definition pseudonym :: "(string \<Rightarrow> string) \<Rightarrow> string \<Rightarrow> string \<Rightarrow> string" where
  "pseudonym sha256 secret subject = sha256 (secret @ CHR 0x00 # subject)"

section \<open>Values up to the order of keys\<close>

fun ordered :: "jsval \<Rightarrow> jsval" where
  "ordered (JArray vs) = JArray (map ordered vs)"
| "ordered (JObject kvs) = JObject (sort_by (\<lambda>a b. compareText (fst a) (fst b)) (map (\<lambda>(k, v). (k, ordered v)) kvs))"
| "ordered v = v"

text \<open>The text of a value whose keys are in order.\<close>

fun render :: "jsval \<Rightarrow> canonical_error + string" where
  "render JNull = Inr ''null''"
| "render (JString s) = Inr (json_string s)"
| "render (JBool b) = Inr (if b then ''true'' else ''false'')"
| "render (JInt n) = invariant (is_safe n) UnsafeNumber (Inr (int_str n))"
| "render JNonInt = Inl UnsafeNumber"
| "render (JArray vs) = bnd (map_res render vs) (\<lambda>ts. Inr (''['' @ join '','' ts @ '']''))"
| "render (JObject kvs) = bnd (map_res (\<lambda>(k, v). bnd (render v) (\<lambda>s. Inr (json_string k @ '':'' @ s))) kvs) (\<lambda>ts. Inr (''{'' @ join '','' ts @ ''}''))"
| "render JUndefined = Inl NotCanonical"

lemma insert_by_map: "(\<And>x y. c (f x) (f y) = d x y) \<Longrightarrow> insert_by c (f x) (map f ys) = map f (insert_by d x ys)"
  by (induction ys) auto

lemma sort_by_map: "(\<And>x y. c (f x) (f y) = d x y) \<Longrightarrow> sort_by c (map f xs) = map f (sort_by d xs)"
  by (induction xs) (auto simp: sort_by_def insert_by_map [of c f d])

lemma map_res_comp: "map_res f (map g xs) = map_res (\<lambda>x. f (g x)) xs"
  by (induction xs) auto

lemma map_res_cong': "(\<And>x. x \<in> set xs \<Longrightarrow> f x = g x) \<Longrightarrow> map_res f xs = map_res g xs"
  by (induction xs) auto

lemma canonical_renders: "alphaCanonicalJson v = render (ordered v)"
proof (induction v rule: ordered.induct)
  case (1 vs)
  have "map_res alphaCanonicalJson vs = map_res render (map ordered vs)"
    unfolding map_res_comp by (rule map_res_cong') (use 1 in simp)
  then show ?case by simp
next
  case (2 kvs)
  let ?c = "\<lambda>(a :: string \<times> jsval) b. compareText (fst a) (fst b)"
  have "sort_by (\<lambda>a b. compareText (fst a) (fst b)) (map (\<lambda>(k, v). (k, alphaCanonicalJson v)) kvs) =
      map (\<lambda>(k, v). (k, alphaCanonicalJson v)) (sort_by ?c kvs)"
    by (rule sort_by_map) auto
  moreover have "sort_by (\<lambda>a b. compareText (fst a) (fst b)) (map (\<lambda>(k, v). (k, ordered v)) kvs) =
      map (\<lambda>(k, v). (k, ordered v)) (sort_by ?c kvs)"
    by (rule sort_by_map) auto
  moreover have "map_res (\<lambda>x. (case (case x of (k, v) \<Rightarrow> (k, alphaCanonicalJson v)) of (k, t) \<Rightarrow> bnd t (\<lambda>s. Inr (json_string k @ '':'' @ s)))) (sort_by ?c kvs) =
      map_res (\<lambda>x. (case (case x of (k, v) \<Rightarrow> (k, ordered v)) of (k, v) \<Rightarrow> bnd (render v) (\<lambda>s. Inr (json_string k @ '':'' @ s)))) (sort_by ?c kvs)"
    by (rule map_res_cong') (use 2 in force)
  ultimately show ?case by (simp add: map_res_comp)
qed auto

section \<open>Texts determine values\<close>

definition delimited :: "string \<Rightarrow> bool" where
  "delimited u \<longleftrightarrow> u = [] \<or> hd u = CHR '','' \<or> hd u = CHR '']'' \<or> hd u = CHR ''}''"

lemma hex_digit_inj:
  assumes "m < 16" "n < 16" "hex_digit m = hex_digit n"
  shows "m = n"
proof -
  have c: "of_char (hex_digit k) = (if k < 10 then 48 + k else 87 + k)" if "k < 16" for k :: nat
    using that by (simp add: hex_digit_def)
  have "(of_char (hex_digit m) :: nat) = of_char (hex_digit n)" using assms(3) by simp
  then show ?thesis using assms(1,2) by (simp add: c split: if_splits)
qed

definition escapes :: "(char \<times> char) list" where
  "escapes = [(CHR 0x22, CHR 0x22), (CHR 0x5C, CHR 0x5C), (CHR ''b'', CHR 0x08), (CHR ''f'', CHR 0x0C), (CHR ''n'', CHR 0x0A),
     (CHR ''r'', CHR 0x0D), (CHR ''t'', CHR 0x09)]"

lemma json_char_cases:
  obtains (plain) "json_char c = [c]" "c \<noteq> CHR 0x22" "c \<noteq> CHR 0x5C"
  | (short) e where "json_char c = [CHR 0x5C, e]" "(e, c) \<in> set escapes"
  | (control) h l where "json_char c = CHR 0x5C # CHR ''u'' # ''00'' @ [hex_digit h, hex_digit l]" "h < 16" "l < 16" "of_char c = 16 * h + l"
proof -
  let ?n = "of_char c :: nat"
  have eq: "c = char_of ?n" by simp
  consider "?n \<in> {34, 92, 8, 12, 10, 13, 9}" | "?n \<notin> {34, 92, 8, 12, 10, 13, 9}" "?n < 32" | "?n \<notin> {34, 92, 8, 12, 10, 13, 9}" "\<not> ?n < 32" by blast
  then show ?thesis
  proof cases
    case 1
    have same: "?n = of_char d \<Longrightarrow> c = d" for d by (simp only: of_char_eq_iff)
    have n: "of_char (CHR 0x22) = (34 :: nat)" "of_char (CHR 0x5C) = (92 :: nat)" "of_char (CHR 0x08) = (8 :: nat)"
      "of_char (CHR 0x0C) = (12 :: nat)" "of_char (CHR 0x0A) = (10 :: nat)" "of_char (CHR 0x0D) = (13 :: nat)" "of_char (CHR 0x09) = (9 :: nat)"
      by simp_all
    have "c \<in> {CHR 0x22, CHR 0x5C, CHR 0x08, CHR 0x0C, CHR 0x0A, CHR 0x0D, CHR 0x09}"
      using 1 by (elim insertE emptyE) (simp_all only: n [symmetric] of_char_eq_iff insert_iff simp_thms)
    then have "c \<in> snd ` set escapes" by (simp only: escapes_def set_simps image_insert image_empty snd_conv)
    then obtain e where e: "(e, c) \<in> set escapes" by force
    moreover have "\<forall>(e, c) \<in> set escapes. json_char c = [CHR 0x5C, e]" by (simp add: escapes_def json_char_def)
    ultimately show ?thesis by (intro short) auto
  next
    case 2
    have "?n = 16 * (?n div 16) + ?n mod 16" by simp
    then show ?thesis by (intro control [of "?n div 16" "?n mod 16"]) (use 2 in \<open>auto simp: json_char_def Let_def\<close>)
  next
    case 3
    show ?thesis by (rule plain) (use 3 in \<open>auto simp: json_char_def Let_def\<close>)
  qed
qed

lemma json_char_prefix:
  assumes "json_char c @ u = json_char d @ w"
  shows "c = d \<and> u = w"
proof -
  have e: "e \<noteq> CHR ''u'' \<and> (\<forall>c'. (e, c') \<in> set escapes \<longrightarrow> c = c')" if "(e, c) \<in> set escapes" for e c
    using that by (auto simp: escapes_def)
  have ctrl: "c = d" if "of_char c = 16 * h + l" "of_char d = 16 * h + (l :: nat)" for h l
    using that by (metis of_char_eq_iff)
  show ?thesis
    by (cases c rule: json_char_cases; cases d rule: json_char_cases)
      (use assms e ctrl in \<open>auto dest!: hex_digit_inj [rotated 2]\<close>)
qed

lemma json_char_no_quote: "json_char c @ u \<noteq> CHR 0x22 # w"
  by (cases c rule: json_char_cases) auto

lemma json_string_prefix:
  assumes "json_string s @ u = json_string t @ w"
  shows "s = t \<and> u = w"
proof -
  have "concat (map json_char s) @ CHR 0x22 # u = concat (map json_char t) @ CHR 0x22 # w" using assms by (simp add: json_string_def)
  then show ?thesis
  proof (induction s arbitrary: t)
    case Nil
    then show ?case using json_char_no_quote by (cases t) (auto dest: sym)
  next
    case (Cons c s)
    show ?case
    proof (cases t)
      case Nil
      then show ?thesis using Cons.prems json_char_no_quote [of c] by simp
    next
      case (Cons d t')
      with Cons.prems have "json_char c @ concat (map json_char s) @ CHR 0x22 # u = json_char d @ concat (map json_char t') @ CHR 0x22 # w" by simp
      then have "c = d" "concat (map json_char s) @ CHR 0x22 # u = concat (map json_char t') @ CHR 0x22 # w"
        using json_char_prefix by blast+
      then show ?thesis using Cons.IH Cons by blast
    qed
  qed
qed

lemma int_str_chars: "int_str n \<noteq> [] \<and> (\<forall>c \<in> set (int_str n). is_digit c \<or> c = CHR ''-'')"
  using digits_nat_str by (auto simp: int_str_def digits_def)

lemma int_str_inj:
  assumes "int_str m = int_str n"
  shows "m = n"
proof -
  have h: "hd (nat_str k) \<noteq> CHR ''-''" for k using digits_nat_str [of k] hd_in_set by (fastforce simp: digits_def is_digit_def)
  have k: "nat_str i = nat_str j \<Longrightarrow> i = j" for i j by (metis bigint_of_nat_str of_nat_eq_iff)
  show ?thesis using assms h k [of "nat (- m)" "nat (- n)"] k [of "nat m" "nat n"]
    by (auto simp: int_str_def split: if_splits) (metis list.sel(1))+
qed

lemma int_str_prefix:
  assumes "int_str m @ u = int_str n @ w" "delimited u" "delimited w"
  shows "m = n \<and> u = w"
proof -
  let ?p = "\<lambda>c. is_digit c \<or> c = CHR ''-''"
  have t: "takeWhile ?p (int_str k @ v) = int_str k" if "delimited v" for k v
  proof -
    have "takeWhile ?p (int_str k @ v) = int_str k @ takeWhile ?p v" by (rule takeWhile_append2) (use int_str_chars in simp)
    moreover have "takeWhile ?p v = []" using that by (cases v) (auto simp: delimited_def is_digit_def)
    ultimately show ?thesis by simp
  qed
  have "int_str m = int_str n" using t [OF assms(2), of m] t [OF assms(3), of n] assms(1) by simp
  then show ?thesis using assms(1) int_str_inj by simp
qed

text \<open>An encoder whose texts cannot be told apart from their context only when they are equal.\<close>

definition starts :: "string \<Rightarrow> bool" where
  "starts s \<longleftrightarrow> s \<noteq> [] \<and> \<not> delimited s"

definition decodable :: "('a \<Rightarrow> canonical_error + string) \<Rightarrow> 'a \<Rightarrow> bool" where
  "decodable f x \<longleftrightarrow> (\<forall>y s t u w. f x = Inr s \<longrightarrow> f y = Inr t \<longrightarrow> s @ u = t @ w \<longrightarrow> delimited u \<longrightarrow> delimited w \<longrightarrow> x = y \<and> u = w)"

lemma join_cons: "join '','' (t # ts) = t @ (if ts = [] then [] else CHR '','' # join '','' ts)"
  by (cases ts) auto

lemma joined_prefix:
  assumes "\<And>x s. f x = Inr s \<Longrightarrow> starts s" "\<forall>x \<in> set xs. decodable f x" "c = CHR '']'' \<or> c = CHR ''}''"
    and "map_res f xs = Inr ss" "map_res f ys = Inr ts" "join '','' ss @ c # u = join '','' ts @ c # w"
  shows "xs = ys \<and> u = w"
  using assms(2,4,5,6)
proof (induction xs arbitrary: ys ss ts)
  case Nil
  show ?case
  proof (cases ys)
    case (Cons y ys')
    then obtain t ts' where t: "f y = Inr t" "ts = t # ts'" using Nil.prems by (auto simp: bnd_Inr)
    then have "starts t" using assms(1) by blast
    then show ?thesis using Nil.prems t assms(3) by (cases t) (auto simp: join_cons starts_def delimited_def)
  qed (use Nil.prems in simp)
next
  case (Cons x xs)
  obtain s ss' where s: "f x = Inr s" "map_res f xs = Inr ss'" "ss = s # ss'" using Cons.prems(2) by (auto simp: bnd_Inr)
  then have ne: "starts s" using assms(1) by blast
  show ?case
  proof (cases ys)
    case Nil
    then show ?thesis using Cons.prems s ne assms(3) by (cases s) (auto simp: join_cons starts_def delimited_def)
  next
    case (Cons y ys')
    then obtain t ts' where t: "f y = Inr t" "map_res f ys' = Inr ts'" "ts = t # ts'" using Cons.prems(3) by (auto simp: bnd_Inr)
    let ?rest = "\<lambda>ss u. (if ss = [] then [] else CHR '','' # join '','' ss) @ c # u"
    have e: "s @ ?rest ss' u = t @ ?rest ts' w" using Cons.prems(4) s(3) t(3) by (simp add: join_cons)
    moreover have d: "delimited (?rest ss' u)" "delimited (?rest ts' w)" using assms(3) by (auto simp: delimited_def)
    moreover have "decodable f x" using Cons.prems(1) by simp
    ultimately have xy: "x = y" "?rest ss' u = ?rest ts' w" using s(1) t(1) unfolding decodable_def by blast+
    have l: "length xs = length ss'" "length ys' = length ts'" using s(2) t(2) by (simp_all add: map_res_length)
    have "join '','' ss' @ c # u = join '','' ts' @ c # w \<and> (ss' = [] \<longleftrightarrow> ts' = [])"
      using xy(2) assms(3) by (auto split: if_splits)
    then have "xs = ys' \<and> u = w" using Cons.IH [OF _ s(2) t(2)] Cons.prems(1) by simp
    then show ?thesis using xy(1) Cons by simp
  qed
qed

lemma starts_append: "starts s \<Longrightarrow> starts (s @ u)"
  by (auto simp: starts_def delimited_def)

lemma starts_json_string: "starts (json_string s)"
  by (simp add: starts_def delimited_def json_string_def)

lemma starts_int_str: "starts (int_str n)"
  using int_str_chars [of n] hd_in_set [of "int_str n"] by (fastforce simp: starts_def delimited_def is_digit_def)

lemma render_starts: "render v = Inr s \<Longrightarrow> starts s"
  by (cases v) (auto simp: bnd_Inr invariant_Inr starts_json_string starts_int_str, auto simp: starts_def delimited_def split: if_splits)

text \<open>The first character tells the kinds of values apart.\<close>

fun kind_of :: "jsval \<Rightarrow> char \<Rightarrow> bool" where
  "kind_of JNull c \<longleftrightarrow> c = CHR ''n''"
| "kind_of (JBool b) c \<longleftrightarrow> c = (if b then CHR ''t'' else CHR ''f'')"
| "kind_of (JInt n) c \<longleftrightarrow> is_digit c \<or> c = CHR ''-''"
| "kind_of (JString s) c \<longleftrightarrow> c = CHR 0x22"
| "kind_of (JArray vs) c \<longleftrightarrow> c = CHR ''[''"
| "kind_of (JObject kvs) c \<longleftrightarrow> c = CHR ''{''"
| "kind_of v c \<longleftrightarrow> False"

lemma render_kind: "render v = Inr s \<Longrightarrow> kind_of v (hd s)"
proof (cases v)
  case (JInt n)
  moreover assume "render v = Inr s"
  ultimately show ?thesis using int_str_chars [of n] hd_in_set [of "int_str n"] by (auto simp: invariant_Inr)
qed (auto simp: bnd_Inr json_string_def)

lemma same_kind:
  assumes "render v = Inr s" "render y = Inr t" "s @ u = t @ w"
  shows "\<exists>c. kind_of v c \<and> kind_of y c"
proof -
  have "hd s = hd t" using assms(3) render_starts [OF assms(1)] render_starts [OF assms(2)] by (cases s; cases t) (auto simp: starts_def)
  then show ?thesis using render_kind [OF assms(1)] render_kind [OF assms(2)] by metis
qed

lemma decodable_text: "decodable f x \<Longrightarrow> f x = Inr s \<Longrightarrow> f y = Inr s \<Longrightarrow> x = y"
  unfolding decodable_def by (metis delimited_def)

lemma render_decodable: "decodable render v"
proof (induction v)
  case (JArray vs)
  show ?case unfolding decodable_def
  proof (intro allI impI)
    fix y s t u w
    assume a: "render (JArray vs) = Inr s" "render y = Inr t" "s @ u = t @ w" "delimited u" "delimited w"
    obtain ss where ss: "map_res render vs = Inr ss" "s = ''['' @ join '','' ss @ '']''" using a(1) by (auto simp: bnd_Inr)
    obtain ys where y: "y = JArray ys" using same_kind [OF a(1,2,3)] by (cases y) (auto simp: is_digit_def split: if_splits)
    then obtain ts where ts: "map_res render ys = Inr ts" "t = ''['' @ join '','' ts @ '']''" using a(2) by (auto simp: bnd_Inr)
    have "vs = ys \<and> u = w"
      by (rule joined_prefix [where f = render and c = "CHR '']''", OF render_starts _ _ ss(1) ts(1)]) (use JArray a(3) ss(2) ts(2) in auto)
    then show "JArray vs = y \<and> u = w" using y by simp
  qed
next
  case (JObject kvs)
  let ?f = "\<lambda>(k, v). bnd (render v) (\<lambda>s. Inr (json_string k @ '':'' @ s))"
  have st: "starts s" if "?f e = Inr s" for e s
    using that starts_json_string starts_append by (cases e) (auto simp: bnd_Inr)
  have d: "decodable ?f e" if e: "e \<in> set kvs" for e
    unfolding decodable_def
  proof (intro allI impI)
    fix y s t u w
    assume a: "?f e = Inr s" "?f y = Inr t" "s @ u = t @ w" "delimited u" "delimited w"
    obtain k v l x where e': "e = (k, v)" "y = (l, x)" by (cases e, cases y) auto
    obtain p q where p: "render v = Inr p" "s = json_string k @ '':'' @ p" "render x = Inr q" "t = json_string l @ '':'' @ q"
      using a(1,2) e' by (auto simp: bnd_Inr)
    then have "k = l \<and> '':'' @ p @ u = '':'' @ q @ w" using a(3) by (intro json_string_prefix) simp
    then have "k = l" "p @ u = q @ w" by auto
    moreover have "decodable render v" using JObject e e'(1) by (force simp: snds.simps)
    ultimately show "e = y \<and> u = w" using p a(4,5) e' unfolding decodable_def by blast
  qed
  show ?case unfolding decodable_def
  proof (intro allI impI)
    fix y s t u w
    assume a: "render (JObject kvs) = Inr s" "render y = Inr t" "s @ u = t @ w" "delimited u" "delimited w"
    obtain ss where ss: "map_res ?f kvs = Inr ss" "s = ''{'' @ join '','' ss @ ''}''" using a(1) by (auto simp: bnd_Inr)
    obtain ys where y: "y = JObject ys" using same_kind [OF a(1,2,3)] by (cases y) (auto simp: is_digit_def split: if_splits)
    then obtain ts where ts: "map_res ?f ys = Inr ts" "t = ''{'' @ join '','' ts @ ''}''" using a(2) by (auto simp: bnd_Inr)
    have "kvs = ys \<and> u = w"
      by (rule joined_prefix [where f = ?f and c = "CHR ''}''", OF st _ _ ss(1) ts(1)]) (use d a(3) ss(2) ts(2) in auto)
    then show "JObject kvs = y \<and> u = w" using y by simp
  qed
next
  case (JInt n)
  show ?case unfolding decodable_def
  proof (intro allI impI)
    fix y s t u w
    assume a: "render (JInt n) = Inr s" "render y = Inr t" "s @ u = t @ w" "delimited u" "delimited w"
    obtain m where y: "y = JInt m" using same_kind [OF a(1,2,3)] by (cases y) (auto simp: is_digit_def split: if_splits)
    then have "int_str n @ u = int_str m @ w" using a(1,2,3) by (auto simp: invariant_Inr)
    then show "JInt n = y \<and> u = w" using int_str_prefix [OF _ a(4,5)] y by simp
  qed
next
  case (JString x)
  show ?case unfolding decodable_def
  proof (intro allI impI)
    fix y s t u w
    assume a: "render (JString x) = Inr s" "render y = Inr t" "s @ u = t @ w" "delimited u" "delimited w"
    obtain z where y: "y = JString z" using same_kind [OF a(1,2,3)] by (cases y) (auto simp: is_digit_def split: if_splits)
    then have "json_string x @ u = json_string z @ w" using a(1,2,3) by auto
    then show "JString x = y \<and> u = w" using json_string_prefix y by blast
  qed
next
  case JNull
  show ?case unfolding decodable_def
  proof (intro allI impI)
    fix y s t u w
    assume a: "render JNull = Inr s" "render y = Inr t" "s @ u = t @ w"
    have "y = JNull" using same_kind [OF a(1,2,3)] by (cases y) (auto simp: is_digit_def split: if_splits)
    then show "JNull = y \<and> u = w" using a by simp
  qed
next
  case (JBool b)
  show ?case unfolding decodable_def
  proof (intro allI impI)
    fix y s t u w
    assume a: "render (JBool b) = Inr s" "render y = Inr t" "s @ u = t @ w"
    have "y = JBool b" using same_kind [OF a(1,2,3)] by (cases y) (auto simp: is_digit_def split: if_splits)
    then show "JBool b = y \<and> u = w" using a by simp
  qed
qed (simp_all add: decodable_def)

text \<open>Every value without undefined parts and unsafe numbers has a canonical text.\<close>

fun plain :: "jsval \<Rightarrow> bool" where
  "plain (JInt n) \<longleftrightarrow> is_safe n"
| "plain (JArray vs) \<longleftrightarrow> (\<forall>v \<in> set vs. plain v)"
| "plain (JObject kvs) \<longleftrightarrow> (\<forall>(k, v) \<in> set kvs. plain v)"
| "plain v \<longleftrightarrow> v \<noteq> JUndefined \<and> v \<noteq> JNonInt"

lemma map_res_total: "(\<And>x. x \<in> set xs \<Longrightarrow> \<exists>y. f x = Inr y) \<Longrightarrow> \<exists>ys. map_res f xs = Inr ys"
proof (induction xs)
  case (Cons x xs)
  obtain y ys where "f x = Inr y" "map_res f xs = Inr ys" using Cons by fastforce
  then show ?case by simp
qed simp

lemma canonical_total: "plain v \<Longrightarrow> \<exists>s. alphaCanonicalJson v = Inr s"
proof (induction v rule: plain.induct)
  case (2 vs)
  then obtain ts where "map_res alphaCanonicalJson vs = Inr ts" using map_res_total by (metis plain.simps(2))
  then show ?case by simp
next
  case (3 kvs)
  let ?ts = "sort_by (\<lambda>a b. compareText (fst a) (fst b)) (map (\<lambda>(k, v). (k, alphaCanonicalJson v)) kvs)"
  have "\<exists>y. (\<lambda>(k, t). bnd t (\<lambda>s. Inr (json_string k @ '':'' @ s))) x = Inr y" if x: "x \<in> set ?ts" for x
    using x 3 by fastforce
  then obtain us where "map_res (\<lambda>(k, t). bnd t (\<lambda>s. Inr (json_string k @ '':'' @ s))) ?ts = Inr us" using map_res_total by blast
  then show ?case by simp
qed auto



end
