(* ===== verification/MovementTemplates.thy ===== *)
theory MovementTemplates
  imports MovementAllocation CanonicalJson
begin

text \<open>
  The validation of signed movement route templates against the daily plan they serve,
  \<open>tools/region-import/movement-route-templates-v2.mjs\<close>. The artefact and its binding are parsed JSON;
  SHA-256 is an argument. Everything an allocation relies on is checked here.
\<close>

datatype template_error = Template string | TemplateValue canonical_error

definition MOVEMENT_ROUTE_TEMPLATES_SCHEMA :: string where
  "MOVEMENT_ROUTE_TEMPLATES_SCHEMA = ''movement-route-templates-v2''"

definition MOVEMENT_ROUTE_TEMPLATES_FILE :: string where
  "MOVEMENT_ROUTE_TEMPLATES_FILE = ''operational-infrastructure-v2.movement-route-templates-v2.json''"

definition DIRECTIONS :: "string list" where
  "DIRECTIONS = [''along'', ''against'']"

definition CONTINUITIES :: "string list" where
  "CONTINUITIES = [''same-direction'', ''reverse-direction'']"

definition STABLING_CONTINUITY_MATRIX :: "string list list" where
  "STABLING_CONTINUITY_MATRIX =
     [[''same-direction'', ''reverse-direction'', ''same-direction''], [''same-direction'', ''same-direction'', ''same-direction'']]"

definition MOVEMENT_KINDS :: "string list" where
  "MOVEMENT_KINDS = [''train'', ''shunting'']"

definition PROTECTION_SYSTEMS :: "string list" where
  "PROTECTION_SYSTEMS = [''etcs-level1'', ''etcs-level2'', ''lzb'', ''pzb'']"

section \<open>Checks of values\<close>

definition canonicalText :: "jsval \<Rightarrow> template_error + string" where
  "canonicalText v = (case alphaCanonicalJson v of Inl e \<Rightarrow> Inl (TemplateValue e) | Inr s \<Rightarrow> Inr s)"

definition templateKeys :: "jsval \<Rightarrow> string list \<Rightarrow> string \<Rightarrow> template_error + unit" where
  "templateKeys v keys name =
     invariant (isRecord v) (Template (name @ '' ist kein Objekt''))
    (invariant (sort (object_keys v) = sort keys) (Template (name @ '' besitzt fehlende oder unbekannte Felder'')) (Inr ()))"

definition templateText :: "jsval \<Rightarrow> string \<Rightarrow> template_error + string" where
  "templateText v name =
     (case v of JString s \<Rightarrow> invariant (trimmed s) (Template name) (Inr s) | _ \<Rightarrow> Inl (Template name))"

definition templateInteger :: "jsval \<Rightarrow> string \<Rightarrow> int \<Rightarrow> template_error + int" where
  "templateInteger v name least =
     (case v of JInt n \<Rightarrow> invariant (is_safe n \<and> n \<ge> least) (Template name) (Inr n) | _ \<Rightarrow> Inl (Template name))"

text \<open>The value of a set: \<open>Set.has\<close> of whatever the field holds.\<close>

definition among :: "jsval \<Rightarrow> string list \<Rightarrow> bool" where
  "among v ss \<longleftrightarrow> (\<exists>s \<in> set ss. v = JString s)"

definition canonicalStringSet :: "jsval \<Rightarrow> string \<Rightarrow> bool \<Rightarrow> string list option \<Rightarrow> template_error + string list" where
  "canonicalStringSet v name allowEmpty accepted =
     invariant (isArray v \<and> (allowEmpty \<or> length (elements v) > 0)) (Template name)
    (bnd (map_res (\<lambda>entry. templateText entry name) (elements v)) (\<lambda>copy.
     invariant (distinct copy \<and> successively (<) copy) (Template name)
    (invariant (case accepted of None \<Rightarrow> True | Some systems \<Rightarrow> \<forall>entry \<in> set copy. entry \<in> set systems) (Template name) (Inr copy))))"

definition movementResourceSetSha256 :: "(string \<Rightarrow> string) \<Rightarrow> string list \<Rightarrow> template_error + string" where
  "movementResourceSetSha256 sha256 resourceIds =
     bnd (canonicalStringSet (JArray (map JString resourceIds)) ''Movement-Ressourcen'' False None) (\<lambda>resources.
     Inr (sha256 (concat (map (\<lambda>resource. resource @ [CHR 0x0A]) resources))))"

text \<open>\<open>RegExp.test\<close> makes a string of its argument: a list of one element counts as that element.\<close>

fun sha256Test :: "jsval \<Rightarrow> bool" where
  "sha256Test (JString s) = hex64 s"
| "sha256Test (JArray [v]) = sha256Test v"
| "sha256Test v = False"

section \<open>Intervals and berths\<close>

definition intervalOf :: "jsval \<Rightarrow> string \<Rightarrow> string option \<Rightarrow> template_error + track_interval" where
  "intervalOf v name expectedEdgeId =
     bnd (templateKeys v [''edgeId'', ''fromMm'', ''toMm''] name) (\<lambda>_.
     bnd (templateText (jprop v ''edgeId'') (name @ ''.edgeId'')) (\<lambda>i.
     bnd (templateInteger (jprop v ''fromMm'') (name @ ''.fromMm'') 0) (\<lambda>fromMm.
     bnd (templateInteger (jprop v ''toMm'') (name @ ''.toMm'') 1) (\<lambda>toMm.
     invariant (toMm > fromMm) (Template name)
    (invariant (case expectedEdgeId of None \<Rightarrow> True | Some e \<Rightarrow> i = e) (Template name)
    (Inr \<lparr>ivEdgeId = i, ivFromMm = fromMm, ivToMm = toMm\<rparr>))))))"

definition intervalIdentity :: "track_interval \<Rightarrow> string" where
  "intervalIdentity i = ivEdgeId i @ nul @ int_str (ivFromMm i) @ nul @ int_str (ivToMm i)"

definition touching :: "track_interval \<Rightarrow> track_interval \<Rightarrow> bool" where
  "touching previous current \<longleftrightarrow> (ivEdgeId previous = ivEdgeId current \<longrightarrow>
     ivToMm previous = ivFromMm current \<or> ivFromMm previous = ivToMm current)"

definition occupiedLength :: "track_interval list \<Rightarrow> int" where
  "occupiedLength intervals = fold (\<lambda>i sum. js_sub (js_add sum (ivToMm i)) (ivFromMm i)) intervals 0"

definition terminalIntervals :: "jsval \<Rightarrow> int \<Rightarrow> string \<Rightarrow> template_error + track_interval list" where
  "terminalIntervals v formationLengthMm name =
     invariant (isArray v \<and> length (elements v) > 0) (Template name)
    (bnd (map_res (\<lambda>entry. intervalOf entry name None) (elements v)) (\<lambda>intervals.
     invariant (distinct (map intervalIdentity intervals)) (Template name)
    (invariant (successively touching intervals) (Template name)
    (invariant (occupiedLength intervals = formationLengthMm) (Template name) (Inr intervals)))))"

definition berthInterval :: "jsval \<Rightarrow> int \<Rightarrow> string \<Rightarrow> template_error + track_interval" where
  "berthInterval v formationLengthMm name =
     bnd (intervalOf v name None) (\<lambda>i.
     invariant (js_sub (ivToMm i) (ivFromMm i) = formationLengthMm) (Template name) (Inr i))"

definition berthOf :: "jsval \<Rightarrow> int \<Rightarrow> string \<Rightarrow> template_error + berth" where
  "berthOf v formationLengthMm name =
     bnd (templateKeys v [''edgeId'', ''edgeLengthMm'', ''fromMm'', ''toMm'', ''leftClearanceMm'', ''rightClearanceMm''] name) (\<lambda>_.
     bnd (berthInterval (JObject [(''edgeId'', jprop v ''edgeId''), (''fromMm'', jprop v ''fromMm''), (''toMm'', jprop v ''toMm'')])
            formationLengthMm (name @ ''.interval'')) (\<lambda>occupied.
     bnd (templateInteger (jprop v ''edgeLengthMm'') (name @ ''.edgeLengthMm'') (ivToMm occupied)) (\<lambda>edgeLengthMm.
     bnd (templateInteger (jprop v ''leftClearanceMm'') (name @ ''.leftClearanceMm'') 0) (\<lambda>leftClearanceMm.
     bnd (templateInteger (jprop v ''rightClearanceMm'') (name @ ''.rightClearanceMm'') 0) (\<lambda>rightClearanceMm.
     invariant (ivFromMm occupied = leftClearanceMm) (Template (name @ '' linke Freilaenge''))
    (invariant (is_safe (js_add (ivToMm occupied) rightClearanceMm) \<and> js_add (ivToMm occupied) rightClearanceMm = edgeLengthMm)
       (Template (name @ '' rechte Freilaenge''))
    (Inr (track_interval.extend occupied \<lparr>beEdgeLengthMm = edgeLengthMm, beLeftClearanceMm = leftClearanceMm, beRightClearanceMm = rightClearanceMm\<rparr>))))))))"

definition berthJson :: "berth \<Rightarrow> jsval" where
  "berthJson b = JObject [(''edgeId'', JString (ivEdgeId b)), (''fromMm'', JInt (ivFromMm b)), (''toMm'', JInt (ivToMm b)),
     (''edgeLengthMm'', JInt (beEdgeLengthMm b)), (''leftClearanceMm'', JInt (beLeftClearanceMm b)), (''rightClearanceMm'', JInt (beRightClearanceMm b))]"

definition berthAssignment :: "jsval \<Rightarrow> string \<Rightarrow> template_error + jsval" where
  "berthAssignment v name =
     bnd (templateKeys v [''kind'', ''subtype'', ''geometryProvenance'', ''operationalAssignmentProvenance''] name) (\<lambda>_.
     invariant (jprop v ''geometryProvenance'' = JString ''real-osm-rail'') (Template name)
    (let observed = (jprop v ''kind'' = JString ''observed'' \<and> jprop v ''subtype'' = JString ''osm-service-siding'' \<and>
           jprop v ''operationalAssignmentProvenance'' = JString ''observed-osm-service'');
         simulated = (jprop v ''kind'' = JString ''simulated-operational'' \<and>
           among (jprop v ''subtype'') [''osm-service-yard'', ''osm-service-spur'', ''osm-unclassified-rail''] \<and>
           jprop v ''operationalAssignmentProvenance'' = JString ''synthetic-operational-b-policy'')
     in invariant (observed \<or> simulated) (Template name) (Inr v)))"

definition berthTransferProvenance :: "jsval \<Rightarrow> jsval \<Rightarrow> string \<Rightarrow> template_error + jsval" where
  "berthTransferProvenance v template name =
     bnd (templateKeys v [''geometryProvenance'', ''routingRule'', ''locationId'', ''physicalStopId'', ''maximumPathEdgesPerSide'',
            ''maximumPathLengthMmPerSide''] name) (\<lambda>_.
     invariant (jprop v ''geometryProvenance'' = JString ''real-osm-rail'' \<and>
         jprop v ''routingRule'' = JString ''real-osm-rail-bidirectional-bounded-v1'' \<and>
         jprop v ''locationId'' = jprop template ''locationId'' \<and> jprop v ''physicalStopId'' = jprop template ''physicalStopId'') (Template name)
    (bnd (templateInteger (jprop v ''maximumPathEdgesPerSide'') (name @ ''.maximumPathEdgesPerSide'') 1) (\<lambda>_.
     bnd (templateInteger (jprop v ''maximumPathLengthMmPerSide'') (name @ ''.maximumPathLengthMmPerSide'') 1) (\<lambda>_.
     Inr v))))"

section \<open>Dispatches\<close>

definition protectionRun :: "jsval \<Rightarrow> int \<Rightarrow> int \<Rightarrow> string \<Rightarrow> template_error + protection_run" where
  "protectionRun raw firstIndex routeLegCount name =
     bnd (templateKeys raw [''throughRouteLegIndex'', ''availableProtectionSystems'', ''simultaneouslyRequiredProtectionSystems''] name) (\<lambda>_.
     bnd (templateInteger (jprop raw ''throughRouteLegIndex'') (name @ ''.throughRouteLegIndex'') firstIndex) (\<lambda>through.
     invariant (through < routeLegCount) (Template (name @ '' laeuft ueber den Laufweg hinaus''))
    (bnd (canonicalStringSet (jprop raw ''availableProtectionSystems'') (name @ ''.availableProtectionSystems'') False (Some PROTECTION_SYSTEMS)) (\<lambda>available.
     bnd (canonicalStringSet (jprop raw ''simultaneouslyRequiredProtectionSystems'') (name @ ''.simultaneouslyRequiredProtectionSystems'') True
            (Some PROTECTION_SYSTEMS)) (\<lambda>required.
     invariant (\<forall>system \<in> set required. system \<in> set available) (Template (name @ '' verlangt ein nicht verfuegbares Zugsicherungssystem''))
    (Inr \<lparr>prThroughRouteLegIndex = through, prAvailableProtectionSystems = available, prSimultaneouslyRequiredProtectionSystems = required\<rparr>))))))"

fun protectionRunsFrom :: "int \<Rightarrow> int \<Rightarrow> string \<Rightarrow> jsval list \<Rightarrow> template_error + protection_run list" where
  "protectionRunsFrom firstIndex routeLegCount name [] = Inr []"
| "protectionRunsFrom firstIndex routeLegCount name (raw # rest) =
     bnd (protectionRun raw firstIndex routeLegCount name) (\<lambda>run.
     bnd (protectionRunsFrom (js_add (prThroughRouteLegIndex run) 1) routeLegCount name rest) (\<lambda>runs. Inr (run # runs)))"

definition protectionRuns :: "jsval \<Rightarrow> int \<Rightarrow> string \<Rightarrow> template_error + protection_run list" where
  "protectionRuns v routeLegCount name =
     invariant (isArray v \<and> length (elements v) > 0) (Template name)
    (bnd (protectionRunsFrom 0 routeLegCount name (elements v)) (\<lambda>runs.
     invariant (prThroughRouteLegIndex (last runs) = js_sub routeLegCount 1) (Template (name @ '' deckt nicht jeden RouteLeg ab'')) (Inr runs)))"

definition dispatchOf :: "jsval \<Rightarrow> int \<Rightarrow> string \<Rightarrow> template_error + dispatch_route" where
  "dispatchOf v formationLengthMm name =
     bnd (templateKeys v [''routeVersionId'', ''predecessorBaseRouteVersionId'', ''dispatchInterlockingRouteId'', ''headRouteMm'', ''minimumRuntimeMs'',
            ''resourceIds'', ''routeLegCount'', ''protectionContractRuns'', ''continuity''] name) (\<lambda>_.
     bnd (templateInteger (jprop v ''routeLegCount'') (name @ ''.routeLegCount'') 1) (\<lambda>routeLegCount.
     invariant (jprop v ''headRouteMm'' = JInt formationLengthMm) (Template (name @ ''.headRouteMm''))
    (invariant (among (jprop v ''continuity'') CONTINUITIES) (Template (name @ ''.continuity''))
    (bnd (templateText (jprop v ''routeVersionId'') (name @ ''.routeVersionId'')) (\<lambda>routeVersionId.
     bnd (templateText (jprop v ''predecessorBaseRouteVersionId'') (name @ ''.predecessorBaseRouteVersionId'')) (\<lambda>predecessor.
     bnd (templateText (jprop v ''dispatchInterlockingRouteId'') (name @ ''.dispatchInterlockingRouteId'')) (\<lambda>interlocking.
     bnd (templateInteger (jprop v ''minimumRuntimeMs'') (name @ ''.minimumRuntimeMs'') 1) (\<lambda>minimumRuntimeMs.
     bnd (canonicalStringSet (jprop v ''resourceIds'') (name @ ''.resourceIds'') False None) (\<lambda>resourceIds.
     bnd (protectionRuns (jprop v ''protectionContractRuns'') routeLegCount (name @ ''.protectionContractRuns'')) (\<lambda>runs.
     bnd (templateText (jprop v ''continuity'') (name @ ''.continuity'')) (\<lambda>continuity.
     Inr \<lparr>drRouteVersionId = routeVersionId, drPredecessorBaseRouteVersionId = predecessor, drDispatchInterlockingRouteId = interlocking,
       drHeadRouteMm = formationLengthMm, drMinimumRuntimeMs = minimumRuntimeMs, drResourceIds = resourceIds, drRouteLegCount = routeLegCount,
       drProtectionContractRuns = runs, drContinuity = continuity, drMovementKind = None\<rparr>)))))))))))"

text \<open>\<open>null\<close> or a dispatch.\<close>

definition dispatchOrNull :: "jsval \<Rightarrow> int \<Rightarrow> string \<Rightarrow> template_error + dispatch_route option" where
  "dispatchOrNull v formationLengthMm name =
     (if v = JNull then Inr None else bnd (dispatchOf v formationLengthMm name) (\<lambda>d. Inr (Some d)))"

section \<open>The demands of the daily plan\<close>

record transfer_route =
  trId :: string
  trSourcePassengerRouteVersionId :: string
  trTargetPassengerRouteVersionId :: string

record transfer_plan =
  tpDailyPlan :: daily_plan
  tpFormationLengthsMm :: "int list"
  tpTransferRoutes :: "transfer_route list"
  tpTransferSetSha256 :: string

text \<open>\<open>Map.get\<close> of whatever the field holds.\<close>

definition demandOf :: "(string \<times> 'a) list \<Rightarrow> jsval \<Rightarrow> 'a option" where
  "demandOf demands v = (case v of JString i \<Rightarrow> map_of demands i | _ \<Rightarrow> None)"

text \<open>The window of a demand, with the fields a turnaround at one place has besides.\<close>

definition windowAgrees :: "jsval \<Rightarrow> demand \<Rightarrow> bool" where
  "windowAgrees raw d \<longleftrightarrow>
     jprop raw ''earliestDepartureS'' = JInt (dmEarliestDepartureS d) \<and> jprop raw ''latestArrivalS'' = JInt (dmLatestArrivalS d) \<and>
     jprop raw ''availableWindowS'' = JInt (dmAvailableWindowS d) \<and> jprop raw ''dailyBoundary'' = JBool (dmDailyBoundary d)"

definition turnaroundAgrees :: "jsval \<Rightarrow> demand \<Rightarrow> bool" where
  "turnaroundAgrees raw d \<longleftrightarrow>
     jprop raw ''inboundRouteVersionId'' = JString (dmSourceRouteVersionId d) \<and> jprop raw ''outboundRouteVersionId'' = JString (dmTargetRouteVersionId d) \<and>
     jprop raw ''locationId'' = JString (dmSourceLocationId d) \<and> jprop raw ''locationId'' = JString (dmTargetLocationId d) \<and>
     jprop raw ''physicalStopId'' = JString (dmSourcePhysicalStopId d) \<and> jprop raw ''physicalStopId'' = JString (dmTargetPhysicalStopId d) \<and>
     windowAgrees raw d"

section \<open>Direct turns\<close>

record validated_direct = direct_template +
  vdDemandId :: string
  vdLocationId :: string
  vdPhysicalStopId :: string
  vdEarliestDepartureS :: int
  vdLatestArrivalS :: int
  vdAvailableWindowS :: int
  vdDailyBoundary :: bool
  vdMovementKind :: string
  vdContinuity :: string
  vdMaximumDwellMs :: int
  vdResourceSetSha256 :: string

text \<open>The chain of routes of a direct turn, on a through movement or by a change of direction.\<close>

definition directChain :: "jsval \<Rightarrow> dispatch_route option \<Rightarrow> dispatch_route \<Rightarrow> string \<Rightarrow> template_error + unit" where
  "directChain raw through outbound name =
     (if jprop raw ''continuity'' = JString ''same-direction''
      then (case through of
          None \<Rightarrow> Inl (Template (name @ '' besitzt keine physische Through-Bewegung''))
        | Some t \<Rightarrow>
            invariant (drContinuity t = ''same-direction'' \<and> drContinuity outbound = ''same-direction'') (Template (name @ '' Through-Kette''))
           (invariant (JString (drPredecessorBaseRouteVersionId t) = jprop raw ''inboundRouteVersionId'') (Template (name @ ''.through''))
           (invariant (drPredecessorBaseRouteVersionId outbound = drRouteVersionId t) (Template (name @ ''.outbound'')) (Inr ()))))
      else invariant (through = None) (Template (name @ '' Through-Doppelbefahrung''))
          (invariant (drContinuity outbound = ''reverse-direction'') (Template (name @ ''.outbound Richtungswende''))
          (invariant (JString (drPredecessorBaseRouteVersionId outbound) = jprop raw ''inboundRouteVersionId'') (Template (name @ ''.outbound'')) (Inr ()))))"

definition directTemplate :: "(string \<Rightarrow> string) \<Rightarrow> (string \<times> demand) list \<Rightarrow> int list \<Rightarrow> jsval \<Rightarrow> string \<Rightarrow> template_error + validated_direct" where
  "directTemplate sha256 demandById formationLengthsMm raw name =
     bnd (templateKeys raw [''id'', ''demandId'', ''inboundRouteVersionId'', ''outboundRouteVersionId'', ''locationId'', ''physicalStopId'',
            ''earliestDepartureS'', ''latestArrivalS'', ''availableWindowS'', ''dailyBoundary'', ''formationLengthMm'', ''terminalIntervals'',
            ''movementKind'', ''continuity'', ''maximumDwellMs'', ''resourceIds'', ''resourceSetSha256'', ''through'', ''outbound''] name) (\<lambda>_.
     bnd (templateInteger (jprop raw ''formationLengthMm'') (name @ ''.formationLengthMm'') 1) (\<lambda>formationLengthMm.
     case demandOf demandById (jprop raw ''demandId'') of
       None \<Rightarrow> Inl (Template (name @ '' Turnaround-Anforderung''))
     | Some d \<Rightarrow>
         invariant (formationLengthMm \<in> set formationLengthsMm) (Template (name @ '' Formationslaenge''))
        (invariant (turnaroundAgrees raw d) (Template (name @ '' driftet von seiner Turnaround-Anforderung ab''))
        (bnd (templateInteger (jprop raw ''earliestDepartureS'') (name @ ''.earliestDepartureS'') 0) (\<lambda>earliestDepartureS.
         bnd (templateInteger (jprop raw ''latestArrivalS'') (name @ ''.latestArrivalS'') 0) (\<lambda>latestArrivalS.
         bnd (templateInteger (jprop raw ''availableWindowS'') (name @ ''.availableWindowS'') 1) (\<lambda>availableWindowS.
         invariant (js_sub latestArrivalS earliestDepartureS = availableWindowS) (Template (name @ '' Turnaround-Zeitfenster''))
        (bnd (canonicalStringSet (jprop raw ''resourceIds'') (name @ ''.resourceIds'') False None) (\<lambda>resourceIds.
         invariant (jprop raw ''movementKind'' = JString ''train'' \<and> among (jprop raw ''continuity'') CONTINUITIES) (Template (name @ '' Bewegungsfortsetzung''))
        (invariant (jprop raw ''maximumDwellMs'' = JInt MAXIMUM_DIRECT_DWELL_MS) (Template (name @ '' maximale Direct-Wendezeit''))
        (bnd (movementResourceSetSha256 sha256 resourceIds) (\<lambda>resourceSet.
         invariant (jprop raw ''resourceSetSha256'' = JString resourceSet) (Template (name @ '' Ressourcenhash''))
        (bnd (dispatchOrNull (jprop raw ''through'') formationLengthMm (name @ ''.through'')) (\<lambda>through.
         bnd (dispatchOf (jprop raw ''outbound'') formationLengthMm (name @ ''.outbound'')) (\<lambda>outbound.
         bnd (directChain raw through outbound name) (\<lambda>_.
         bnd (templateText (jprop raw ''id'') (name @ ''.id'')) (\<lambda>i.
         bnd (templateText (jprop raw ''demandId'') (name @ ''.demandId'')) (\<lambda>demandId.
         bnd (templateText (jprop raw ''inboundRouteVersionId'') (name @ ''.inboundRouteVersionId'')) (\<lambda>inbound.
         bnd (templateText (jprop raw ''outboundRouteVersionId'') (name @ ''.outboundRouteVersionId'')) (\<lambda>outboundVersion.
         bnd (templateText (jprop raw ''locationId'') (name @ ''.locationId'')) (\<lambda>locationId.
         bnd (templateText (jprop raw ''physicalStopId'') (name @ ''.physicalStopId'')) (\<lambda>physicalStopId.
         bnd (terminalIntervals (jprop raw ''terminalIntervals'') formationLengthMm (name @ ''.terminalIntervals'')) (\<lambda>intervals.
         bnd (templateText (jprop raw ''continuity'') name) (\<lambda>continuity.
         Inr \<lparr>dtId = i, dtInboundRouteVersionId = inbound, dtOutboundRouteVersionId = outboundVersion, dtFormationLengthMm = formationLengthMm,
           dtTerminalIntervals = intervals, dtResourceIds = resourceIds, dtThrough = through, dtOutbound = outbound, vdDemandId = demandId,
           vdLocationId = locationId, vdPhysicalStopId = physicalStopId, vdEarliestDepartureS = earliestDepartureS, vdLatestArrivalS = latestArrivalS,
           vdAvailableWindowS = availableWindowS, vdDailyBoundary = dmDailyBoundary d, vdMovementKind = ''train'', vdContinuity = continuity,
           vdMaximumDwellMs = MAXIMUM_DIRECT_DWELL_MS, vdResourceSetSha256 = resourceSet\<rparr>))))))))))))))))))))))))"

section \<open>Stablings\<close>

record validated_stabling = stabling_template +
  vsDemandId :: string
  vsLocationId :: string
  vsPhysicalStopId :: string
  vsEarliestDepartureS :: int
  vsLatestArrivalS :: int
  vsAvailableWindowS :: int
  vsDailyBoundary :: bool
  vsTerminalEdgeId :: string
  vsTerminalNodeId :: int
  vsInboundDirection :: jsval
  vsOutboundDirection :: jsval
  vsStablingPathLengthMm :: int
  vsArrivalBerthAssignment :: jsval
  vsDepartureBerthAssignment :: jsval
  vsBerthTransferProvenance :: "jsval option"

text \<open>The parts of a stabling between its routes in and out, checked by its kind; the result is the provenance of the transfer.\<close>

record stabling_parts =
  spArrivalBerthAssignment :: jsval
  spDepartureBerthAssignment :: jsval
  spArrivalBerth :: berth
  spDepartureBerth :: berth
  spShuntIn :: dispatch_route
  spBerthTransfer :: "dispatch_route option"
  spShuntOut :: dispatch_route
  spOutbound :: dispatch_route

definition sharedBerth :: "jsval \<Rightarrow> stabling_parts \<Rightarrow> string \<Rightarrow> template_error + jsval option" where
  "sharedBerth raw p name =
     invariant (spBerthTransfer p = None \<and> jprop raw ''berthTransferProvenance'' = JNull) (Template (name @ '' erfindet einen internen Transfer''))
    (bnd (canonicalText (berthJson (spArrivalBerth p))) (\<lambda>a.
     bnd (canonicalText (berthJson (spDepartureBerth p))) (\<lambda>b.
     bnd (if a = b
          then bnd (canonicalText (spArrivalBerthAssignment p)) (\<lambda>aa.
               bnd (canonicalText (spDepartureBerthAssignment p)) (\<lambda>bb. Inr (aa = bb)))
          else Inr False) (\<lambda>same.
     invariant same (Template (name @ '' besitzt keinen identischen Shared-Berth''))
    (invariant ([drContinuity (spShuntIn p), drContinuity (spShuntOut p), drContinuity (spOutbound p)] \<in> set STABLING_CONTINUITY_MATRIX)
       (Template (name @ '' Rangier-Fortsetzungsmatrix''))
    (invariant (drPredecessorBaseRouteVersionId (spShuntOut p) = drRouteVersionId (spShuntIn p)) (Template (name @ ''.shuntOut'')) (Inr None)))))))"

definition crossBerth :: "jsval \<Rightarrow> stabling_parts \<Rightarrow> string \<Rightarrow> template_error + jsval option" where
  "crossBerth raw p name =
     invariant (jprop raw ''stablingKind'' = JString ''cross-berth-transfer'') (Template (name @ ''.stablingKind ist unbekannt''))
    (case spBerthTransfer p of
       None \<Rightarrow> Inl (Template (name @ '' besitzt keinen expliziten internen Berth-Transfer''))
     | Some transfer \<Rightarrow>
         bnd (berthTransferProvenance (jprop raw ''berthTransferProvenance'') raw (name @ ''.berthTransferProvenance'')) (\<lambda>provenance.
         bnd (canonicalText (berthJson (spArrivalBerth p))) (\<lambda>a.
         bnd (canonicalText (berthJson (spDepartureBerth p))) (\<lambda>b.
         invariant (a \<noteq> b) (Template (name @ '' besitzt keine getrennten Berths''))
        (invariant (drContinuity transfer = ''reverse-direction'' \<and> drContinuity (spShuntOut p) = ''reverse-direction'')
           (Template (name @ '' Cross-Berth-Richtungswechselkette''))
        (invariant (drPredecessorBaseRouteVersionId transfer = drRouteVersionId (spShuntIn p) \<and>
             drPredecessorBaseRouteVersionId (spShuntOut p) = drRouteVersionId transfer) (Template (name @ '' Cross-Berth-Vorgaengerkette''))
        (Inr (Some provenance))))))))"

definition stablingParts :: "jsval \<Rightarrow> int \<Rightarrow> string \<Rightarrow> template_error + stabling_parts" where
  "stablingParts raw formationLengthMm name =
     bnd (berthAssignment (jprop raw ''arrivalBerthAssignment'') (name @ ''.arrivalBerthAssignment'')) (\<lambda>arrivalAssignment.
     bnd (berthAssignment (jprop raw ''departureBerthAssignment'') (name @ ''.departureBerthAssignment'')) (\<lambda>departureAssignment.
     bnd (berthOf (jprop raw ''arrivalBerth'') formationLengthMm (name @ ''.arrivalBerth'')) (\<lambda>arrivalBerth.
     bnd (berthOf (jprop raw ''departureBerth'') formationLengthMm (name @ ''.departureBerth'')) (\<lambda>departureBerth.
     bnd (dispatchOf (jprop raw ''shuntIn'') formationLengthMm (name @ ''.shuntIn'')) (\<lambda>shuntIn.
     bnd (dispatchOrNull (jprop raw ''berthTransfer'') formationLengthMm (name @ ''.berthTransfer'')) (\<lambda>berthTransfer.
     bnd (dispatchOf (jprop raw ''shuntOut'') formationLengthMm (name @ ''.shuntOut'')) (\<lambda>shuntOut.
     bnd (dispatchOf (jprop raw ''outbound'') formationLengthMm (name @ ''.outbound'')) (\<lambda>outbound.
     Inr \<lparr>spArrivalBerthAssignment = arrivalAssignment, spDepartureBerthAssignment = departureAssignment, spArrivalBerth = arrivalBerth,
       spDepartureBerth = departureBerth, spShuntIn = shuntIn, spBerthTransfer = berthTransfer, spShuntOut = shuntOut, spOutbound = outbound\<rparr>))))))))"

definition stablingTemplate :: "(string \<times> demand) list \<Rightarrow> int list \<Rightarrow> jsval \<Rightarrow> string \<Rightarrow> template_error + validated_stabling" where
  "stablingTemplate demandById formationLengthsMm raw name =
     bnd (templateKeys raw [''id'', ''demandId'', ''inboundRouteVersionId'', ''outboundRouteVersionId'', ''locationId'', ''physicalStopId'',
            ''earliestDepartureS'', ''latestArrivalS'', ''availableWindowS'', ''dailyBoundary'', ''terminalEdgeId'', ''terminalNodeId'',
            ''inboundDirection'', ''outboundDirection'', ''formationLengthMm'', ''candidateRank'', ''stablingPathLengthMm'', ''terminalIntervals'',
            ''stablingKind'', ''arrivalBerthAssignment'', ''departureBerthAssignment'', ''shuntIn'', ''arrivalBerth'', ''berthTransfer'',
            ''berthTransferProvenance'', ''departureBerth'', ''shuntOut'', ''outbound''] name) (\<lambda>_.
     bnd (templateInteger (jprop raw ''formationLengthMm'') (name @ ''.formationLengthMm'') 1) (\<lambda>formationLengthMm.
     case demandOf demandById (jprop raw ''demandId'') of
       None \<Rightarrow> Inl (Template (name @ '' Turnaround-Anforderung''))
     | Some d \<Rightarrow>
         invariant (formationLengthMm \<in> set formationLengthsMm) (Template (name @ '' Formationslaenge''))
        (invariant (turnaroundAgrees raw d) (Template (name @ '' driftet vom expliziten DailyPlan-v2-Turnaround ab''))
        (invariant (js_sub (dmLatestArrivalS d) (dmEarliestDepartureS d) = dmAvailableWindowS d) (Template (name @ '' Turnaround-Zeitfenster''))
        (bnd (templateText (jprop raw ''terminalEdgeId'') (name @ ''.terminalEdgeId'')) (\<lambda>terminalEdgeId.
         invariant (among (jprop raw ''inboundDirection'') DIRECTIONS \<and> among (jprop raw ''outboundDirection'') DIRECTIONS) (Template (name @ '' Richtung''))
        (bnd (stablingParts raw formationLengthMm name) (\<lambda>p.
         invariant (drContinuity (spShuntIn p) = ''same-direction'' \<and> drContinuity (spOutbound p) = ''same-direction'')
           (Template (name @ '' Rangier-Fortsetzungsmatrix''))
        (invariant (JString (drPredecessorBaseRouteVersionId (spShuntIn p)) = jprop raw ''inboundRouteVersionId'') (Template (name @ ''.shuntIn''))
        (bnd (if jprop raw ''stablingKind'' = JString ''shared-berth'' then sharedBerth raw p name else crossBerth raw p name) (\<lambda>provenance.
         invariant (drPredecessorBaseRouteVersionId (spOutbound p) = drRouteVersionId (spShuntOut p)) (Template (name @ ''.outbound''))
        (bnd (terminalIntervals (jprop raw ''terminalIntervals'') formationLengthMm (name @ ''.terminalIntervals'')) (\<lambda>intervals.
         invariant (ivEdgeId (last intervals) = terminalEdgeId) (Template (name @ '' Terminalkante''))
        (bnd (templateText (jprop raw ''id'') (name @ ''.id'')) (\<lambda>i.
         bnd (templateText (jprop raw ''demandId'') (name @ ''.demandId'')) (\<lambda>demandId.
         bnd (templateText (jprop raw ''inboundRouteVersionId'') (name @ ''.inboundRouteVersionId'')) (\<lambda>inbound.
         bnd (templateText (jprop raw ''outboundRouteVersionId'') (name @ ''.outboundRouteVersionId'')) (\<lambda>outboundVersion.
         bnd (templateText (jprop raw ''locationId'') (name @ ''.locationId'')) (\<lambda>locationId.
         bnd (templateText (jprop raw ''physicalStopId'') (name @ ''.physicalStopId'')) (\<lambda>physicalStopId.
         bnd (templateInteger (jprop raw ''earliestDepartureS'') (name @ ''.earliestDepartureS'') 0) (\<lambda>earliestDepartureS.
         bnd (templateInteger (jprop raw ''latestArrivalS'') (name @ ''.latestArrivalS'') 1) (\<lambda>latestArrivalS.
         bnd (templateInteger (jprop raw ''availableWindowS'') (name @ ''.availableWindowS'') 1) (\<lambda>availableWindowS.
         bnd (templateInteger (jprop raw ''terminalNodeId'') (name @ ''.terminalNodeId'') (- 9007199254740991)) (\<lambda>terminalNodeId.
         bnd (templateInteger (jprop raw ''candidateRank'') (name @ ''.candidateRank'') 0) (\<lambda>candidateRank.
         bnd (templateInteger (jprop raw ''stablingPathLengthMm'') (name @ ''.stablingPathLengthMm'') formationLengthMm) (\<lambda>pathLengthMm.
         bnd (templateText (jprop raw ''stablingKind'') name) (\<lambda>kind.
         Inr \<lparr>slId = i, slInboundRouteVersionId = inbound, slOutboundRouteVersionId = outboundVersion, slFormationLengthMm = formationLengthMm,
           slCandidateRank = candidateRank, slTerminalIntervals = intervals, slStablingKind = kind, slHasLegacyBerth = False, slShuntIn = spShuntIn p,
           slArrivalBerth = spArrivalBerth p, slBerthTransfer = spBerthTransfer p, slDepartureBerth = spDepartureBerth p, slShuntOut = spShuntOut p,
           slOutbound = spOutbound p, vsDemandId = demandId, vsLocationId = locationId, vsPhysicalStopId = physicalStopId,
           vsEarliestDepartureS = earliestDepartureS, vsLatestArrivalS = latestArrivalS, vsAvailableWindowS = availableWindowS,
           vsDailyBoundary = dmDailyBoundary d, vsTerminalEdgeId = terminalEdgeId, vsTerminalNodeId = terminalNodeId,
           vsInboundDirection = jprop raw ''inboundDirection'', vsOutboundDirection = jprop raw ''outboundDirection'',
           vsStablingPathLengthMm = pathLengthMm, vsArrivalBerthAssignment = spArrivalBerthAssignment p,
           vsDepartureBerthAssignment = spDepartureBerthAssignment p, vsBerthTransferProvenance = provenance\<rparr>)))))))))))))))))))))))))))"

section \<open>Transfers\<close>

record validated_transfer = transfer_template +
  vtSourceLocationId :: string
  vtTargetLocationId :: string
  vtAvailableWindowS :: int
  vtDailyBoundary :: bool
  vtResourceSetSha256 :: string

text \<open>A transfer demand of the daily plan is one of a train.\<close>

definition transferAgrees :: "jsval \<Rightarrow> demand \<Rightarrow> transfer_route \<Rightarrow> bool" where
  "transferAgrees raw d source \<longleftrightarrow>
     jprop raw ''sourcePassengerRouteVersionId'' = JString (trSourcePassengerRouteVersionId source) \<and>
     jprop raw ''targetPassengerRouteVersionId'' = JString (trTargetPassengerRouteVersionId source) \<and>
     jprop raw ''sourceLocationId'' = JString (dmSourceLocationId d) \<and> jprop raw ''targetLocationId'' = JString (dmTargetLocationId d) \<and>
     windowAgrees raw d \<and> jprop raw ''movementKind'' = JString ''train'' \<and> among (jprop raw ''movementKind'') MOVEMENT_KINDS"

definition transferTemplate :: "(string \<Rightarrow> string) \<Rightarrow> (string \<times> demand) list \<Rightarrow> (string \<times> transfer_route) list \<Rightarrow> int list \<Rightarrow> jsval \<Rightarrow> string \<Rightarrow>
    template_error + validated_transfer" where
  "transferTemplate sha256 demandById routeByDemandId formationLengthsMm raw name =
     bnd (templateKeys raw [''id'', ''demandId'', ''formationLengthMm'', ''sourcePassengerRouteVersionId'', ''targetPassengerRouteVersionId'',
            ''sourceLocationId'', ''targetLocationId'', ''earliestDepartureS'', ''latestArrivalS'', ''availableWindowS'', ''dailyBoundary'',
            ''movementKind'', ''transfer'', ''targetOutbound'', ''resourceIds'', ''resourceSetSha256''] name) (\<lambda>_.
     bnd (templateInteger (jprop raw ''formationLengthMm'') (name @ ''.formationLengthMm'') 1) (\<lambda>formationLengthMm.
     case (demandOf demandById (jprop raw ''demandId''), demandOf routeByDemandId (jprop raw ''demandId'')) of
       (Some d, Some source) \<Rightarrow>
         invariant (formationLengthMm \<in> set formationLengthsMm) (Template (name @ '' Formationslaenge''))
        (invariant (transferAgrees raw d source) (Template (name @ '' driftet vom Timetable-Transfervertrag ab''))
        (bnd (canonicalStringSet (jprop raw ''resourceIds'') (name @ ''.resourceIds'') False None) (\<lambda>resourceIds.
         bnd (dispatchOf (jprop raw ''transfer'') formationLengthMm (name @ ''.transfer'')) (\<lambda>transfer.
         bnd (dispatchOf (jprop raw ''targetOutbound'') formationLengthMm (name @ ''.targetOutbound'')) (\<lambda>targetOutbound.
         invariant (drContinuity transfer = ''same-direction'' \<and> drContinuity targetOutbound = ''same-direction'') (Template (name @ '' Transferkette''))
        (invariant (JString (drPredecessorBaseRouteVersionId transfer) = jprop raw ''sourcePassengerRouteVersionId'') (Template (name @ ''.transfer''))
        (invariant (drPredecessorBaseRouteVersionId targetOutbound = drRouteVersionId transfer) (Template (name @ ''.targetOutbound''))
        (invariant (\<forall>resourceId \<in> set (drResourceIds transfer). resourceId \<in> set resourceIds) (Template (name @ '' Ressourcen''))
        (bnd (movementResourceSetSha256 sha256 resourceIds) (\<lambda>resourceSet.
         invariant (jprop raw ''resourceSetSha256'' = JString resourceSet) (Template (name @ '' Ressourcenhash''))
        (invariant (drMinimumRuntimeMs transfer \<le> js_mul (dmAvailableWindowS d) 1000) (Template (name @ '' Transferzeitfenster''))
        (bnd (templateText (jprop raw ''id'') (name @ ''.id'')) (\<lambda>i.
         bnd (templateText (jprop raw ''demandId'') name) (\<lambda>demandId.
         Inr \<lparr>ttId = i, ttDemandId = demandId, ttFormationLengthMm = formationLengthMm,
           ttSourcePassengerRouteVersionId = trSourcePassengerRouteVersionId source, ttTargetPassengerRouteVersionId = trTargetPassengerRouteVersionId source,
           ttEarliestDepartureS = dmEarliestDepartureS d, ttLatestArrivalS = dmLatestArrivalS d, ttMovementKind = ''train'', ttTransfer = transfer,
           ttTargetOutbound = targetOutbound, ttResourceIds = resourceIds, vtSourceLocationId = dmSourceLocationId d,
           vtTargetLocationId = dmTargetLocationId d, vtAvailableWindowS = dmAvailableWindowS d, vtDailyBoundary = dmDailyBoundary d,
           vtResourceSetSha256 = resourceSet\<rparr>))))))))))))))
     | _ \<Rightarrow> Inl (Template (name @ '' Transferanforderung''))))"

section \<open>The artefact\<close>

record movement_templates =
  mtSchema :: string
  mtInfraReleaseId :: string
  mtOperationalStateHash :: string
  mtTimetableTransferSetSha256 :: string
  mtDirectTemplates :: "validated_direct list"
  mtTemplates :: "validated_stabling list"
  mtTransferTemplates :: "validated_transfer list"
  mtMetrics :: jsval
  mtStateHash :: string

text \<open>Values in groups by a key, in the order of first occurrence.\<close>

definition addToGroup :: "('v \<Rightarrow> string) \<Rightarrow> ('v \<Rightarrow> int) \<Rightarrow> 'v \<Rightarrow> (string \<times> int list) list \<Rightarrow> (string \<times> int list) list" where
  "addToGroup key f v groups =
     AList.update (key v) ((case map_of groups (key v) of None \<Rightarrow> [] | Some xs \<Rightarrow> xs) @ [f v]) groups"

definition groupsBy :: "('v \<Rightarrow> string) \<Rightarrow> ('v \<Rightarrow> int) \<Rightarrow> 'v list \<Rightarrow> (string \<times> int list) list" where
  "groupsBy key f vs = fold (addToGroup key f) vs []"

definition sortedNumbers :: "int list \<Rightarrow> int list" where
  "sortedNumbers = sort_by js_sub"

definition candidateKey :: "validated_stabling \<Rightarrow> string" where
  "candidateKey t = slInboundRouteVersionId t @ nul @ slOutboundRouteVersionId t @ nul @ int_str (slFormationLengthMm t)"

definition ranksComplete :: "validated_stabling list \<Rightarrow> bool" where
  "ranksComplete templates \<longleftrightarrow>
     (\<forall>(key, ranks) \<in> set (groupsBy candidateKey slCandidateRank templates). sortedNumbers ranks = map int [0 ..< length ranks])"

definition transferKey :: "string \<Rightarrow> int \<Rightarrow> string" where
  "transferKey demandId lengthMm = demandId @ nul @ int_str lengthMm"

definition transfersComplete :: "(string \<times> demand) list \<Rightarrow> int list \<Rightarrow> validated_transfer list \<Rightarrow> bool" where
  "transfersComplete demandById formationLengthsMm transfers \<longleftrightarrow>
     (let keys = map (\<lambda>t. transferKey (ttDemandId t) (ttFormationLengthMm t)) transfers in
      distinct keys \<and> length keys = length demandById * length formationLengthsMm \<and>
      (\<forall>(demandId, d) \<in> set demandById. \<forall>lengthMm \<in> set formationLengthsMm. transferKey demandId lengthMm \<in> set keys))"

definition directKey :: "validated_direct \<Rightarrow> string" where
  "directKey t = dtInboundRouteVersionId t @ nul @ dtOutboundRouteVersionId t"

definition numbersJson :: "int list \<Rightarrow> jsval" where
  "numbersJson ns = JArray (map JInt (sortedNumbers ns))"

fun sameLengths :: "(string \<times> int list) list \<Rightarrow> int list \<Rightarrow> template_error + bool" where
  "sameLengths [] formationLengthsMm = Inr True"
| "sameLengths ((key, lengths) # groups) formationLengthsMm =
     bnd (canonicalText (numbersJson lengths)) (\<lambda>a.
     bnd (canonicalText (numbersJson formationLengthsMm)) (\<lambda>b.
     if a = b then sameLengths groups formationLengthsMm else Inr False))"

abbreviation assignment_fields :: "string list" where
  "assignment_fields \<equiv> [''observedOsmServiceSiding'', ''simulatedOperationalOsmServiceYard'', ''simulatedOperationalOsmServiceSpur'',
     ''simulatedOperationalOsmUnclassifiedRail'']"

definition assignmentField :: "jsval \<Rightarrow> string" where
  "assignmentField assignment =
     (if jprop assignment ''subtype'' = JString ''osm-service-siding'' then ''observedOsmServiceSiding''
      else if jprop assignment ''subtype'' = JString ''osm-service-yard'' then ''simulatedOperationalOsmServiceYard''
      else if jprop assignment ''subtype'' = JString ''osm-service-spur'' then ''simulatedOperationalOsmServiceSpur''
      else ''simulatedOperationalOsmUnclassifiedRail'')"

definition assignmentsOf :: "validated_stabling \<Rightarrow> string list" where
  "assignmentsOf t = assignmentField (vsArrivalBerthAssignment t) #
     (if slStablingKind t = ''cross-berth-transfer'' then [assignmentField (vsDepartureBerthAssignment t)] else [])"

definition berthAssignmentCounts :: "validated_stabling list \<Rightarrow> jsval" where
  "berthAssignmentCounts templates =
     JObject (map (\<lambda>field. (field, JInt (int (length (filter (\<lambda>f. f = field) (concat (map assignmentsOf templates))))))) assignment_fields)"

abbreviation metric_fields :: "string list" where
  "metric_fields \<equiv> [''directTemplateCount'', ''stablingTemplateCount'', ''transferTemplateCount'', ''transferDemandCount'',
     ''turnaroundDemandCount'', ''plannedTransitionCount'', ''turnaroundPairCount'', ''observedStablingTemplateCount'',
     ''simulatedOperationalStablingTemplateCount'', ''crossBerthTemplateCount'']"

definition observedStabling :: "validated_stabling \<Rightarrow> bool" where
  "observedStabling t \<longleftrightarrow> jprop (vsArrivalBerthAssignment t) ''kind'' = JString ''observed'' \<and>
     jprop (vsDepartureBerthAssignment t) ''kind'' = JString ''observed''"

definition metricsAgree :: "jsval \<Rightarrow> transfer_plan \<Rightarrow> (string \<times> demand) list \<Rightarrow> (string \<times> demand) list \<Rightarrow> validated_direct list \<Rightarrow>
    validated_stabling list \<Rightarrow> validated_transfer list \<Rightarrow> template_error + unit" where
  "metricsAgree metrics plan turnaroundById demandById directs templates transfers =
     bnd (templateKeys metrics (metric_fields @ [''berthAssignmentCounts'']) ''metrics'') (\<lambda>_.
     let counts = jprop metrics ''berthAssignmentCounts''; error = Template ''Metriken stimmen nicht mit den gebundenen Vorlagen ueberein'' in
     bnd (templateKeys counts assignment_fields ''metrics.berthAssignmentCounts'') (\<lambda>_.
     bnd (map_res (\<lambda>field. templateInteger (jprop counts field) field 0) (object_keys counts)) (\<lambda>_.
     bnd (map_res (\<lambda>field. templateInteger (jprop metrics field) field 0) metric_fields) (\<lambda>_.
     let groups = groupsBy directKey dtFormationLengthMm directs;
         observed = int (length (filter observedStabling templates));
         simulated = int (length templates) - observed;
         turnaroundCount = int (length turnaroundById);
         planned = int (plannedTransitionCount (dpMetrics (tpDailyPlan plan)))
     in invariant (jprop metrics ''directTemplateCount'' = JInt (int (length directs)) \<and>
            jprop metrics ''stablingTemplateCount'' = JInt (int (length templates)) \<and>
            jprop metrics ''transferTemplateCount'' = JInt (int (length transfers)) \<and>
            jprop metrics ''transferDemandCount'' = JInt (int (length demandById)) \<and>
            jprop metrics ''turnaroundDemandCount'' = JInt turnaroundCount \<and>
            jprop metrics ''plannedTransitionCount'' = JInt planned \<and>
            turnaroundCount + int (length demandById) = planned \<and>
            int (length groups) \<le> turnaroundCount \<and>
            jprop metrics ''turnaroundPairCount'' = JInt (int (length groups))) error
       (bnd (sameLengths groups (tpFormationLengthsMm plan)) (\<lambda>same.
        invariant (same \<and> length directs = length groups * length (tpFormationLengthsMm plan) \<and>
            jprop metrics ''observedStablingTemplateCount'' = JInt observed \<and>
            jprop metrics ''simulatedOperationalStablingTemplateCount'' = JInt simulated \<and>
            jprop metrics ''crossBerthTemplateCount'' =
              JInt (int (length (filter (\<lambda>t. slStablingKind t = ''cross-berth-transfer'') templates)))) error
       (bnd (canonicalText counts) (\<lambda>a.
        bnd (canonicalText (berthAssignmentCounts templates)) (\<lambda>b.
        invariant (a = b) error (Inr ()))))))))))"

text \<open>The templates of the artefact, checked against the demands and among each other.\<close>

definition templateLists :: "(string \<Rightarrow> string) \<Rightarrow> jsval \<Rightarrow> transfer_plan \<Rightarrow>
    template_error + validated_direct list \<times> validated_stabling list \<times> validated_transfer list" where
  "templateLists sha256 artifact plan =
     (let turnarounds = dpTurnaroundDemands (tpDailyPlan plan); lengthsMm = tpFormationLengthsMm plan;
          turnaroundById = map_from (map (\<lambda>d. (dmId d, d)) turnarounds);
          demandById = map_from (map (\<lambda>d. (dmId d, d)) (dpTransferDemands (tpDailyPlan plan)));
          routeByDemandId = map_from (map (\<lambda>r. (trId r, r)) (tpTransferRoutes plan))
      in invariant (length turnaroundById = length turnarounds) (Template ''doppelte Turnaround-Anforderungen'')
        (bnd (map_res (\<lambda>raw. directTemplate sha256 turnaroundById lengthsMm raw ''Direct-Template'') (elements (jprop artifact ''directTemplates''))) (\<lambda>directs.
         bnd (map_res (\<lambda>raw. stablingTemplate turnaroundById lengthsMm raw ''Stabling-Template'') (elements (jprop artifact ''templates''))) (\<lambda>templates.
         bnd (map_res (\<lambda>raw. transferTemplate sha256 demandById routeByDemandId lengthsMm raw ''Transfer-Template'')
                (elements (jprop artifact ''transferTemplates''))) (\<lambda>transfers.
         invariant (distinct (map dtId directs @ map slId templates @ map ttId transfers)) (Template ''doppelte Vorlagen-IDs'')
        (invariant (ranksComplete templates) (Template ''Stabling-Kandidatengruppe'')
        (invariant (transfersComplete demandById lengthsMm transfers) (Template ''Transferanforderung je Formationslaenge'')
        (bnd (metricsAgree (jprop artifact ''metrics'') plan turnaroundById demandById directs templates transfers) (\<lambda>_.
         Inr (directs, templates, transfers))))))))))"

definition bindingAgrees :: "jsval \<Rightarrow> jsval \<Rightarrow> string \<Rightarrow> string \<Rightarrow> transfer_plan \<Rightarrow> bool" where
  "bindingAgrees artifact binding infraReleaseId operationalStateHash plan \<longleftrightarrow>
     jprop artifact ''schema'' = JString MOVEMENT_ROUTE_TEMPLATES_SCHEMA \<and>
     jprop artifact ''infraReleaseId'' = JString infraReleaseId \<and>
     jprop artifact ''operationalStateHash'' = JString operationalStateHash \<and>
     jprop artifact ''operationalStateHash'' = jprop binding ''operationalStateHash'' \<and>
     jprop artifact ''timetableTransferSetSha256'' = JString (tpTransferSetSha256 plan) \<and>
     jprop artifact ''timetableTransferSetSha256'' = jprop binding ''timetableTransferSetSha256''"

definition withoutStateHash :: "jsval \<Rightarrow> jsval" where
  "withoutStateHash artifact = (case artifact of JObject kvs \<Rightarrow> JObject (filter (\<lambda>(k, v). k \<noteq> ''stateHash'') kvs) | v \<Rightarrow> v)"

definition validateMovementRouteTemplatesV2 :: "(string \<Rightarrow> string) \<Rightarrow> jsval \<Rightarrow> jsval \<Rightarrow> string \<Rightarrow> string \<Rightarrow> transfer_plan \<Rightarrow>
    template_error + movement_templates" where
  "validateMovementRouteTemplatesV2 sha256 artifact binding infraReleaseId operationalStateHash plan =
     bnd (templateKeys artifact [''schema'', ''infraReleaseId'', ''operationalStateHash'', ''timetableTransferSetSha256'', ''directTemplates'',
            ''templates'', ''transferTemplates'', ''metrics'', ''stateHash''] ''Movement-Route-Templates-v2'') (\<lambda>_.
     bnd (templateKeys binding [''file'', ''bytes'', ''sha256'', ''stateHash'', ''operationalStateHash'', ''timetableTransferSetSha256''] ''Bindung'') (\<lambda>_.
     invariant (jprop binding ''file'' = JString MOVEMENT_ROUTE_TEMPLATES_FILE) (Template ''Bindung.file'')
    (bnd (templateInteger (jprop binding ''bytes'') ''Bindung.bytes'' 1) (\<lambda>_.
     invariant (\<forall>field \<in> set [''sha256'', ''stateHash'', ''operationalStateHash'', ''timetableTransferSetSha256'']. sha256Test (jprop binding field))
       (Template ''Bindung ist kein SHA-256'')
    (invariant (bindingAgrees artifact binding infraReleaseId operationalStateHash plan) (Template ''Infra- oder Timetable-Bindung'')
    (invariant (isArray (jprop artifact ''directTemplates'') \<and> isArray (jprop artifact ''templates'') \<and> isArray (jprop artifact ''transferTemplates''))
       (Template ''keine Vorlagenlisten'')
    (bnd (canonicalText (JObject [(''schema'', JString MOVEMENT_ROUTE_TEMPLATES_SCHEMA), (''value'', withoutStateHash artifact)])) (\<lambda>text.
     let stateHash = sha256 text in
     invariant (sha256Test (jprop artifact ''stateHash'') \<and> jprop artifact ''stateHash'' = JString stateHash \<and>
         jprop binding ''stateHash'' = JString stateHash) (Template ''State-Hash'')
    (bnd (templateLists sha256 artifact plan) (\<lambda>(directs, templates, transfers).
     Inr \<lparr>mtSchema = MOVEMENT_ROUTE_TEMPLATES_SCHEMA, mtInfraReleaseId = infraReleaseId, mtOperationalStateHash = operationalStateHash,
       mtTimetableTransferSetSha256 = tpTransferSetSha256 plan, mtDirectTemplates = directs, mtTemplates = templates,
       mtTransferTemplates = transfers, mtMetrics = jprop artifact ''metrics'', mtStateHash = stateHash\<rparr>))))))))))"

text \<open>What an allocation reads of validated templates.\<close>

definition movementRoutePlan :: "movement_templates \<Rightarrow> movement_route_plan" where
  "movementRoutePlan t = \<lparr>mrDirectTemplates = map direct_template.truncate (mtDirectTemplates t),
     mrTemplates = map stabling_template.truncate (mtTemplates t), mrTransferTemplates = map transfer_template.truncate (mtTransferTemplates t)\<rparr>"

end
