(* ===== verification/MovementTemplatesOk.thy ===== *)
theory MovementTemplatesOk
  imports MovementTemplates MovementConflicts
begin

text \<open>
  What validated movement route templates guarantee to an allocation: their chains of routes are linked,
  berths fit their kind, and no pair of routes has two direct turns of one length.
\<close>

section \<open>Well-formed templates\<close>

definition runs_cover :: "int \<Rightarrow> protection_run list \<Rightarrow> bool" where
  "runs_cover legs runs \<longleftrightarrow> runs \<noteq> [] \<and> sorted_wrt (<) (map prThroughRouteLegIndex runs) \<and> 0 \<le> prThroughRouteLegIndex (hd runs) \<and>
     prThroughRouteLegIndex (last runs) = legs - 1 \<and>
     (\<forall>run \<in> set runs. prAvailableProtectionSystems run \<noteq> [] \<and>
        set (prSimultaneouslyRequiredProtectionSystems run) \<subseteq> set (prAvailableProtectionSystems run) \<and>
        set (prAvailableProtectionSystems run) \<subseteq> set PROTECTION_SYSTEMS)"

definition dispatch_ok :: "int \<Rightarrow> dispatch_route \<Rightarrow> bool" where
  "dispatch_ok len d \<longleftrightarrow> drHeadRouteMm d = len \<and> 1 \<le> drMinimumRuntimeMs d \<and> is_safe (drMinimumRuntimeMs d) \<and>
     drResourceIds d \<noteq> [] \<and> distinct (drResourceIds d) \<and> drContinuity d \<in> set CONTINUITIES \<and> runs_cover (drRouteLegCount d) (drProtectionContractRuns d)"

fun linked :: "string \<Rightarrow> dispatch_route list \<Rightarrow> bool" where
  "linked version [] \<longleftrightarrow> True"
| "linked version (d # ds) \<longleftrightarrow> drPredecessorBaseRouteVersionId d = version \<and> linked (drRouteVersionId d) ds"

definition dispatches_ok :: "int \<Rightarrow> string \<Rightarrow> dispatch_route list \<Rightarrow> bool" where
  "dispatches_ok len version ds \<longleftrightarrow> linked version ds \<and> (\<forall>d \<in> set ds. dispatch_ok len d)"

definition direct_ok :: "direct_template \<Rightarrow> bool" where
  "direct_ok t \<longleftrightarrow> dispatches_ok (dtFormationLengthMm t) (dtInboundRouteVersionId t)
     ((case dtThrough t of None \<Rightarrow> [] | Some d \<Rightarrow> [d]) @ [dtOutbound t])"

definition stabling_ok :: "stabling_template \<Rightarrow> bool" where
  "stabling_ok t \<longleftrightarrow> berthsAgree t = Inr () \<and> dispatches_ok (slFormationLengthMm t) (slInboundRouteVersionId t)
     (slShuntIn t # (case slBerthTransfer t of None \<Rightarrow> [] | Some d \<Rightarrow> [d]) @ [slShuntOut t, slOutbound t])"

definition transfer_template_ok :: "transfer_template \<Rightarrow> bool" where
  "transfer_template_ok t \<longleftrightarrow> set (drResourceIds (ttTransfer t)) \<subseteq> set (ttResourceIds t) \<and>
     dispatches_ok (ttFormationLengthMm t) (ttSourcePassengerRouteVersionId t) [ttTransfer t, ttTargetOutbound t]"

section \<open>Dispatches\<close>

lemma templateText_Inr: "templateText v name = Inr s \<longleftrightarrow> v = JString s \<and> trimmed s"
  by (auto simp: templateText_def invariant_Inr split: jsval.splits)

lemma templateInteger_Inr: "templateInteger v name least = Inr n \<longleftrightarrow> v = JInt n \<and> is_safe n \<and> least \<le> n"
  by (auto simp: templateInteger_def invariant_Inr split: jsval.splits)

lemma canonicalStringSet_ok:
  assumes "canonicalStringSet v name allowEmpty accepted = Inr ss"
  shows "distinct ss" and "\<not> allowEmpty \<Longrightarrow> ss \<noteq> []" and "accepted = Some systems \<Longrightarrow> set ss \<subseteq> set systems"
proof -
  have s: "map_res (\<lambda>entry. templateText entry name) (elements v) = Inr ss" "allowEmpty \<or> length (elements v) > 0"
    "distinct ss" "case accepted of None \<Rightarrow> True | Some systems \<Rightarrow> \<forall>entry \<in> set ss. entry \<in> set systems"
    using assms by (auto simp: canonicalStringSet_def bnd_Inr invariant_Inr)
  show "distinct ss" by (rule s(3))
  show "\<not> allowEmpty \<Longrightarrow> ss \<noteq> []" using s(1,2) map_res_length by fastforce
  show "accepted = Some systems \<Longrightarrow> set ss \<subseteq> set systems" using s(4) by auto
qed

definition run_ok :: "protection_run \<Rightarrow> bool" where
  "run_ok run \<longleftrightarrow> prAvailableProtectionSystems run \<noteq> [] \<and>
     set (prSimultaneouslyRequiredProtectionSystems run) \<subseteq> set (prAvailableProtectionSystems run) \<and>
     set (prAvailableProtectionSystems run) \<subseteq> set PROTECTION_SYSTEMS"

lemma protectionRun_ok:
  assumes "protectionRun raw first legs name = Inr run"
  shows "run_ok run \<and> first \<le> prThroughRouteLegIndex run \<and> is_safe (prThroughRouteLegIndex run) \<and> prThroughRouteLegIndex run < legs"
proof -
  have c: "canonicalStringSet (jprop raw ''availableProtectionSystems'') (name @ ''.availableProtectionSystems'') False (Some PROTECTION_SYSTEMS) =
      Inr (prAvailableProtectionSystems run)" and r: "set (prSimultaneouslyRequiredProtectionSystems run) \<subseteq> set (prAvailableProtectionSystems run)"
    "first \<le> prThroughRouteLegIndex run" "is_safe (prThroughRouteLegIndex run)" "prThroughRouteLegIndex run < legs"
    using assms by (auto simp: protectionRun_def bnd_Inr invariant_Inr templateInteger_Inr)
  then show ?thesis using canonicalStringSet_ok(2,3) [OF c] by (simp add: run_ok_def)
qed

lemma protectionRunsFrom_ok:
  assumes "protectionRunsFrom first legs name raws = Inr runs" "is_safe legs"
  shows "length runs = length raws \<and> (\<forall>run \<in> set runs. run_ok run \<and> first \<le> prThroughRouteLegIndex run) \<and> sorted_wrt (<) (map prThroughRouteLegIndex runs)"
  using assms
proof (induction raws arbitrary: first runs)
  case (Cons raw raws)
  obtain run rest where r: "protectionRun raw first legs name = Inr run" "runs = run # rest"
    "protectionRunsFrom (js_add (prThroughRouteLegIndex run) 1) legs name raws = Inr rest"
    using Cons.prems by (auto simp: bnd_Inr)
  note ok = protectionRun_ok [OF r(1)]
  have "js_add (prThroughRouteLegIndex run) 1 = prThroughRouteLegIndex run + 1"
    unfolding js_add_def using ok assms(2) by (intro js_round_exact) (auto simp: is_safe_def)
  then show ?case using Cons.IH [OF r(3) assms(2)] ok r(2) by fastforce
qed simp

lemma protectionRuns_cover:
  assumes "protectionRuns v legs name = Inr runs" "is_safe legs" "1 \<le> legs"
  shows "runs_cover legs runs"
proof -
  have r: "protectionRunsFrom 0 legs name (elements v) = Inr runs" "length (elements v) > 0" "prThroughRouteLegIndex (last runs) = js_sub legs 1"
    using assms(1) by (auto simp: protectionRuns_def bnd_Inr invariant_Inr)
  have "js_sub legs 1 = legs - 1" unfolding js_sub_def using assms(2,3) by (intro js_round_exact) (auto simp: is_safe_def)
  moreover have "runs \<noteq> []" using r(1,2) protectionRunsFrom_ok [OF r(1) assms(2)] by auto
  ultimately show ?thesis using protectionRunsFrom_ok [OF r(1) assms(2)] r(3) by (auto simp: runs_cover_def run_ok_def)
qed

lemma dispatchOf_ok:
  assumes "dispatchOf v len name = Inr d"
  shows "dispatch_ok len d"
proof -
  obtain legs runs where l: "templateInteger (jprop v ''routeLegCount'') (name @ ''.routeLegCount'') 1 = Inr legs"
    and p: "protectionRuns (jprop v ''protectionContractRuns'') legs (name @ ''.protectionContractRuns'') = Inr runs"
    and c: "canonicalStringSet (jprop v ''resourceIds'') (name @ ''.resourceIds'') False None = Inr (drResourceIds d)"
    and m: "templateInteger (jprop v ''minimumRuntimeMs'') (name @ ''.minimumRuntimeMs'') 1 = Inr (drMinimumRuntimeMs d)"
    and k: "among (jprop v ''continuity'') CONTINUITIES" "jprop v ''continuity'' = JString (drContinuity d)"
    and d: "drHeadRouteMm d = len" "drRouteLegCount d = legs" "drProtectionContractRuns d = runs"
    using assms by (auto simp: dispatchOf_def bnd_Inr invariant_Inr templateText_Inr)
  have "runs_cover legs runs" by (rule protectionRuns_cover [OF p]) (use l in \<open>auto simp: templateInteger_Inr\<close>)
  moreover have "drContinuity d \<in> set CONTINUITIES" using k by (auto simp: among_def)
  ultimately show ?thesis using m d canonicalStringSet_ok [OF c] by (auto simp: dispatch_ok_def templateInteger_Inr)
qed

lemma dispatchOrNull_ok: "dispatchOrNull v len name = Inr (Some d) \<Longrightarrow> dispatch_ok len d"
  by (auto simp: dispatchOrNull_def bnd_Inr dispatchOf_ok split: if_splits)

section \<open>Templates\<close>

lemma canonicalText_Inr: "canonicalText v = Inr s \<longleftrightarrow> alphaCanonicalJson v = Inr s"
  by (auto simp: canonicalText_def split: sum.splits)

lemma canonicalText_same:
  assumes "canonicalText v = Inr s" "canonicalText w = Inr s"
  shows "ordered v = ordered w"
  using assms decodable_text [OF render_decodable, of "ordered v" s "ordered w"] by (simp add: canonicalText_Inr canonical_renders)

lemma berth_text:
  assumes "canonicalText (berthJson a) = Inr s" "canonicalText (berthJson b) = Inr s"
  shows "a = b"
proof -
  let ?fields = "\<lambda>b. [(''edgeId'', JString (ivEdgeId b)), (''fromMm'', JInt (ivFromMm b)), (''toMm'', JInt (ivToMm b)),
     (''edgeLengthMm'', JInt (beEdgeLengthMm b)), (''leftClearanceMm'', JInt (beLeftClearanceMm b)), (''rightClearanceMm'', JInt (beRightClearanceMm b))]"
  let ?c = "\<lambda>(a :: string \<times> jsval) b. compareText (fst a) (fst b)"
  have "sort_by ?c (?fields a) = sort_by ?c (?fields b)" using canonicalText_same [OF assms] by (simp add: berthJson_def)
  then have "set (?fields a) = set (?fields b)" by (metis set_sort_by)
  then have "\<forall>e \<in> set (?fields a). e \<in> set (?fields b)" by blast
  then show ?thesis by (simp add: berth.equality)
qed

lemma directTemplate_ok:
  assumes "directTemplate sha256 demands lengths raw name = Inr t"
  shows "direct_ok (direct_template.truncate t)"
proof -
  let ?len = "dtFormationLengthMm t"
  have c: "directChain raw (dtThrough t) (dtOutbound t) name = Inr ()"
    and d: "dispatchOrNull (jprop raw ''through'') ?len (name @ ''.through'') = Inr (dtThrough t)"
      "dispatchOf (jprop raw ''outbound'') ?len (name @ ''.outbound'') = Inr (dtOutbound t)"
    and v: "jprop raw ''inboundRouteVersionId'' = JString (dtInboundRouteVersionId t)"
    using assms by (auto simp: directTemplate_def bnd_Inr invariant_Inr templateText_Inr split: option.splits)
  have "dispatch_ok ?len (dtOutbound t)" "\<And>x. dtThrough t = Some x \<Longrightarrow> dispatch_ok ?len x" using d dispatchOf_ok dispatchOrNull_ok by auto
  then show ?thesis
    using c v by (cases "dtThrough t")
      (auto simp: direct_ok_def direct_template.truncate_def dispatches_ok_def directChain_def invariant_Inr split: if_splits)
qed

lemma stablingParts_ok:
  assumes "stablingParts raw len name = Inr p"
  shows "dispatch_ok len (spShuntIn p)" "dispatch_ok len (spShuntOut p)" "dispatch_ok len (spOutbound p)" "spBerthTransfer p = Some d \<Longrightarrow> dispatch_ok len d"
proof -
  have "dispatchOf (jprop raw ''shuntIn'') len (name @ ''.shuntIn'') = Inr (spShuntIn p)"
    "dispatchOf (jprop raw ''shuntOut'') len (name @ ''.shuntOut'') = Inr (spShuntOut p)"
    "dispatchOf (jprop raw ''outbound'') len (name @ ''.outbound'') = Inr (spOutbound p)"
    "dispatchOrNull (jprop raw ''berthTransfer'') len (name @ ''.berthTransfer'') = Inr (spBerthTransfer p)"
    using assms by (auto simp: stablingParts_def bnd_Inr)
  then show "dispatch_ok len (spShuntIn p)" "dispatch_ok len (spShuntOut p)" "dispatch_ok len (spOutbound p)" "spBerthTransfer p = Some d \<Longrightarrow> dispatch_ok len d"
    using dispatchOf_ok dispatchOrNull_ok by auto
qed

lemma sharedBerth_ok:
  assumes "sharedBerth raw p name = Inr x"
  shows "spBerthTransfer p = None" "spArrivalBerth p = spDepartureBerth p" "drPredecessorBaseRouteVersionId (spShuntOut p) = drRouteVersionId (spShuntIn p)"
proof -
  obtain a where a: "canonicalText (berthJson (spArrivalBerth p)) = Inr a" "canonicalText (berthJson (spDepartureBerth p)) = Inr a"
    and r: "spBerthTransfer p = None" "drPredecessorBaseRouteVersionId (spShuntOut p) = drRouteVersionId (spShuntIn p)"
    using assms by (auto simp: sharedBerth_def bnd_Inr invariant_Inr split: if_splits)
  show "spArrivalBerth p = spDepartureBerth p" by (rule berth_text [OF a])
  show "spBerthTransfer p = None" "drPredecessorBaseRouteVersionId (spShuntOut p) = drRouteVersionId (spShuntIn p)" by (fact r)+
qed

lemma crossBerth_ok:
  assumes "crossBerth raw p name = Inr x"
  obtains d where "spBerthTransfer p = Some d" "spArrivalBerth p \<noteq> spDepartureBerth p" "drPredecessorBaseRouteVersionId d = drRouteVersionId (spShuntIn p)"
    "drPredecessorBaseRouteVersionId (spShuntOut p) = drRouteVersionId d" "jprop raw ''stablingKind'' = JString ''cross-berth-transfer''"
proof -
  obtain d where d: "spBerthTransfer p = Some d" using assms by (auto simp: crossBerth_def invariant_Inr split: option.splits)
  moreover have "spArrivalBerth p \<noteq> spDepartureBerth p" using assms d by (auto simp: crossBerth_def bnd_Inr invariant_Inr)
  ultimately show ?thesis using assms that [of d] by (auto simp: crossBerth_def bnd_Inr invariant_Inr)
qed

lemma stablingTemplate_ok:
  assumes "stablingTemplate demands lengths raw name = Inr t"
  shows "stabling_ok (stabling_template.truncate t)"
proof -
  obtain p provenance where p: "stablingParts raw (slFormationLengthMm t) name = Inr p"
    and k: "(if jprop raw ''stablingKind'' = JString ''shared-berth'' then sharedBerth raw p name else crossBerth raw p name) = Inr provenance"
    and l: "JString (drPredecessorBaseRouteVersionId (spShuntIn p)) = jprop raw ''inboundRouteVersionId''"
      "drPredecessorBaseRouteVersionId (spOutbound p) = drRouteVersionId (spShuntOut p)"
      "jprop raw ''inboundRouteVersionId'' = JString (slInboundRouteVersionId t)" "jprop raw ''stablingKind'' = JString (slStablingKind t)"
    and t: "slShuntIn t = spShuntIn p" "slArrivalBerth t = spArrivalBerth p" "slBerthTransfer t = spBerthTransfer p" "slDepartureBerth t = spDepartureBerth p"
      "slShuntOut t = spShuntOut p" "slOutbound t = spOutbound p" "\<not> slHasLegacyBerth t"
    using assms unfolding stablingTemplate_def bnd_Inr
    by (clarsimp split: option.splits simp: bnd_Inr invariant_Inr templateText_Inr)
  note d = stablingParts_ok [OF p]
  show ?thesis
  proof (cases "slStablingKind t = ''shared-berth''")
    case True
    then have "sharedBerth raw p name = Inr provenance" using k l(4) by simp
    note s = sharedBerth_ok [OF this]
    then show ?thesis using d l t True
      by (auto simp: stabling_ok_def stabling_template.truncate_def dispatches_ok_def berthsAgree_def invariant_Inr)
  next
    case False
    then have "crossBerth raw p name = Inr provenance" using k l(4) by simp
    then obtain x where x: "spBerthTransfer p = Some x" "spArrivalBerth p \<noteq> spDepartureBerth p" "drPredecessorBaseRouteVersionId x = drRouteVersionId (spShuntIn p)"
      "drPredecessorBaseRouteVersionId (spShuntOut p) = drRouteVersionId x" "jprop raw ''stablingKind'' = JString ''cross-berth-transfer''"
      by (rule crossBerth_ok)
    then show ?thesis using d l t
      by (auto simp: stabling_ok_def stabling_template.truncate_def dispatches_ok_def berthsAgree_def invariant_Inr)
  qed
qed

lemma transferTemplate_ok:
  assumes "transferTemplate sha256 demands routes lengths raw name = Inr t"
  shows "transfer_template_ok (transfer_template.truncate t)"
proof -
  let ?len = "ttFormationLengthMm t"
  obtain d source where c: "demandOf demands (jprop raw ''demandId'') = Some d" "demandOf routes (jprop raw ''demandId'') = Some source"
    using assms by (auto simp: transferTemplate_def bnd_Inr split: option.splits)
  have d: "dispatchOf (jprop raw ''transfer'') ?len (name @ ''.transfer'') = Inr (ttTransfer t)"
      "dispatchOf (jprop raw ''targetOutbound'') ?len (name @ ''.targetOutbound'') = Inr (ttTargetOutbound t)"
    and v: "drPredecessorBaseRouteVersionId (ttTransfer t) = ttSourcePassengerRouteVersionId t"
      "drPredecessorBaseRouteVersionId (ttTargetOutbound t) = drRouteVersionId (ttTransfer t)"
      "\<forall>r \<in> set (drResourceIds (ttTransfer t)). r \<in> set (ttResourceIds t)"
    using assms c by (auto simp: transferTemplate_def bnd_Inr invariant_Inr templateText_Inr transferAgrees_def)
  then show ?thesis using dispatchOf_ok by (auto simp: transfer_template_ok_def transfer_template.truncate_def dispatches_ok_def)
qed

section \<open>Groups\<close>

lemma groupsBy_snoc: "groupsBy key f (vs @ [v]) = addToGroup key f v (groupsBy key f vs)"
  by (simp add: groupsBy_def)

lemma groupsBy_group: "map_of (groupsBy key f vs) k = (let xs = filter (\<lambda>v. key v = k) vs in if xs = [] then None else Some (map f xs))"
proof (induction vs rule: rev_induct)
  case (snoc v vs)
  then show ?case by (auto simp: groupsBy_snoc addToGroup_def update_conv' Let_def split: option.splits if_splits)
qed (simp add: groupsBy_def)

lemma groupsBy_distinct: "distinct (map fst (groupsBy key f vs))"
  by (induction vs rule: rev_induct) (auto simp: groupsBy_snoc addToGroup_def distinct_update, simp add: groupsBy_def)

lemma distinct_by_group:
  assumes "\<And>k. distinct (map f (filter (\<lambda>v. key v = k) vs))"
  shows "distinct (map (\<lambda>v. (key v, f v)) vs)"
  using assms
proof (induction vs)
  case (Cons v vs)
  have "distinct (map f (filter (\<lambda>v. key v = k) vs))" for k using Cons.prems [of k] by (auto split: if_splits)
  moreover have "f v \<notin> f ` set (filter (\<lambda>w. key w = key v) vs)" using Cons.prems [of "key v"] by simp
  ultimately show ?case using Cons.IH by (auto simp: image_iff)
qed simp

lemma numbersJson_same:
  assumes "canonicalText (numbersJson xs) = Inr s" "canonicalText (numbersJson ys) = Inr s"
  shows "mset xs = mset ys"
proof -
  have "map JInt (sortedNumbers xs) = map JInt (sortedNumbers ys)"
    using canonicalText_same [OF assms] by (simp add: numbersJson_def comp_def)
  then have "sortedNumbers xs = sortedNumbers ys" by (simp add: inj_map_eq_map inj_def)
  then show ?thesis by (metis mset_sort_by sortedNumbers_def)
qed

lemma sameLengths_groups: "sameLengths groups lengths = Inr True \<Longrightarrow> (k, xs) \<in> set groups \<Longrightarrow> mset xs = mset lengths"
proof (induction groups)
  case (Cons g groups)
  obtain l ls where g: "g = (l, ls)" by (cases g) auto
  obtain a where a: "canonicalText (numbersJson ls) = Inr a" "canonicalText (numbersJson lengths) = Inr a" "sameLengths groups lengths = Inr True"
    using Cons.prems(1) unfolding g by (auto simp: bnd_Inr split: if_splits)
  show ?case using Cons.IH [OF a(3)] Cons.prems(2) numbersJson_same [OF a(1,2)] g by auto
qed simp

lemma one_direct:
  assumes "metricsAgree metrics plan turnarounds demands directs templates transfers = Inr ()" "distinct (tpFormationLengthsMm plan)"
  shows "distinct (map (\<lambda>t. (dtInboundRouteVersionId t, dtOutboundRouteVersionId t, dtFormationLengthMm t)) directs)"
proof -
  have same: "sameLengths (groupsBy directKey dtFormationLengthMm directs) (tpFormationLengthsMm plan) = Inr True"
    using assms(1) by (auto simp: metricsAgree_def Let_def bnd_Inr invariant_Inr)
  have "distinct (map dtFormationLengthMm (filter (\<lambda>t. directKey t = k) directs))" for k
  proof (cases "filter (\<lambda>t. directKey t = k) directs = []")
    case False
    then have "(k, map dtFormationLengthMm (filter (\<lambda>t. directKey t = k) directs)) \<in> set (groupsBy directKey dtFormationLengthMm directs)"
      using groupsBy_group [of directKey dtFormationLengthMm directs k] by (auto simp: Let_def dest: map_of_SomeD)
    from sameLengths_groups [OF same this] show ?thesis using assms(2) mset_eq_imp_distinct_iff by blast
  qed simp
  then have "distinct (map (\<lambda>t. (directKey t, dtFormationLengthMm t)) directs)" by (rule distinct_by_group)
  then show ?thesis by (auto simp: distinct_map inj_on_def directKey_def)
qed

section \<open>The artefact\<close>

lemma validated_parts:
  assumes "validateMovementRouteTemplatesV2 sha256 artifact binding infra state plan = Inr v"
  obtains turnarounds demands routes where
    "map_res (\<lambda>raw. directTemplate sha256 turnarounds (tpFormationLengthsMm plan) raw ''Direct-Template'') (elements (jprop artifact ''directTemplates'')) = Inr (mtDirectTemplates v)"
    "map_res (\<lambda>raw. stablingTemplate turnarounds (tpFormationLengthsMm plan) raw ''Stabling-Template'') (elements (jprop artifact ''templates'')) = Inr (mtTemplates v)"
    "map_res (\<lambda>raw. transferTemplate sha256 demands routes (tpFormationLengthsMm plan) raw ''Transfer-Template'') (elements (jprop artifact ''transferTemplates'')) =
       Inr (mtTransferTemplates v)"
    "distinct (map dtId (mtDirectTemplates v) @ map slId (mtTemplates v) @ map ttId (mtTransferTemplates v))"
    "metricsAgree (jprop artifact ''metrics'') plan turnarounds demands (mtDirectTemplates v) (mtTemplates v) (mtTransferTemplates v) = Inr ()"
proof -
  have "templateLists sha256 artifact plan = Inr (mtDirectTemplates v, mtTemplates v, mtTransferTemplates v)"
    using assms by (auto simp: validateMovementRouteTemplatesV2_def Let_def bnd_Inr invariant_Inr)
  then show ?thesis using that unfolding templateLists_def Let_def bnd_Inr invariant_Inr by auto
qed

lemma validated_well_formed:
  assumes "validateMovementRouteTemplatesV2 sha256 artifact binding infra state plan = Inr v" and "distinct (tpFormationLengthsMm plan)"
  shows "plan_ok (movementRoutePlan v) \<and>
    list_all direct_ok (mrDirectTemplates (movementRoutePlan v)) \<and> list_all stabling_ok (mrTemplates (movementRoutePlan v)) \<and>
    list_all transfer_template_ok (mrTransferTemplates (movementRoutePlan v)) \<and>
    distinct (map (\<lambda>t. (dtInboundRouteVersionId t, dtOutboundRouteVersionId t, dtFormationLengthMm t)) (mrDirectTemplates (movementRoutePlan v))) \<and>
    distinct (map dtId (mrDirectTemplates (movementRoutePlan v)) @ map slId (mrTemplates (movementRoutePlan v)) @ map ttId (mrTransferTemplates (movementRoutePlan v)))"
proof (rule validated_parts [OF assms(1)])
  fix turnarounds demands routes
  assume d: "map_res (\<lambda>raw. directTemplate sha256 turnarounds (tpFormationLengthsMm plan) raw ''Direct-Template'') (elements (jprop artifact ''directTemplates'')) = Inr (mtDirectTemplates v)"
    and s: "map_res (\<lambda>raw. stablingTemplate turnarounds (tpFormationLengthsMm plan) raw ''Stabling-Template'') (elements (jprop artifact ''templates'')) = Inr (mtTemplates v)"
    and t: "map_res (\<lambda>raw. transferTemplate sha256 demands routes (tpFormationLengthsMm plan) raw ''Transfer-Template'') (elements (jprop artifact ''transferTemplates'')) =
       Inr (mtTransferTemplates v)"
    and i: "distinct (map dtId (mtDirectTemplates v) @ map slId (mtTemplates v) @ map ttId (mtTransferTemplates v))"
    and m: "metricsAgree (jprop artifact ''metrics'') plan turnarounds demands (mtDirectTemplates v) (mtTemplates v) (mtTransferTemplates v) = Inr ()"
  let ?p = "movementRoutePlan v"
  have ds: "\<forall>x \<in> set (mrDirectTemplates ?p). direct_ok x" using d directTemplate_ok by (fastforce simp: movementRoutePlan_def dest: map_res_set)
  have ss: "\<forall>x \<in> set (mrTemplates ?p). stabling_ok x" using s stablingTemplate_ok by (fastforce simp: movementRoutePlan_def dest: map_res_set)
  have ts: "\<forall>x \<in> set (mrTransferTemplates ?p). transfer_template_ok x" using t transferTemplate_ok by (fastforce simp: movementRoutePlan_def dest: map_res_set)
  have "runtime_ok x" if "dispatch_ok len x" for len x using that by (auto simp: dispatch_ok_def runtime_ok_def)
  then have p: "plan_ok ?p" using ss ts by (fastforce simp: plan_ok_def stabling_ok_def transfer_template_ok_def dispatches_ok_def)
  have u: "distinct (map (\<lambda>t. (dtInboundRouteVersionId t, dtOutboundRouteVersionId t, dtFormationLengthMm t)) (mrDirectTemplates ?p))"
    using one_direct [OF m assms(2)] by (simp add: movementRoutePlan_def direct_template.truncate_def comp_def)
  have "distinct (map dtId (mrDirectTemplates ?p) @ map slId (mrTemplates ?p) @ map ttId (mrTransferTemplates ?p))"
    using i by (simp add: movementRoutePlan_def direct_template.truncate_def stabling_template.truncate_def transfer_template.truncate_def comp_def)
  with ds ss ts p u show ?thesis by (simp add: list_all_iff)
qed

section \<open>An artefact for two trains\<close>

definition template_dispatch :: "string \<Rightarrow> string \<Rightarrow> string \<Rightarrow> jsval" where
  "template_dispatch version before continuity =
     JObject [(''routeVersionId'', JString version), (''predecessorBaseRouteVersionId'', JString before), (''dispatchInterlockingRouteId'', JString ''i''),
       (''headRouteMm'', JInt 60), (''minimumRuntimeMs'', JInt 60000), (''resourceIds'', JArray [JString ''r'']), (''routeLegCount'', JInt 1),
       (''protectionContractRuns'', JArray [JObject [(''throughRouteLegIndex'', JInt 0), (''availableProtectionSystems'', JArray [JString ''pzb'']),
         (''simultaneouslyRequiredProtectionSystems'', JArray [])]]), (''continuity'', JString continuity)]"

definition template_hash :: string where
  "template_hash = replicate 64 (CHR ''0'')"

definition template_window :: "string \<Rightarrow> string \<Rightarrow> string \<Rightarrow> string \<Rightarrow> int \<Rightarrow> int \<Rightarrow> (string \<times> jsval) list" where
  "template_window i demandId inbound outbound earliestS latestS =
     [(''id'', JString i), (''demandId'', JString demandId), (''inboundRouteVersionId'', JString inbound), (''outboundRouteVersionId'', JString outbound),
      (''locationId'', JString ''x''), (''physicalStopId'', JString ''x''), (''earliestDepartureS'', JInt earliestS), (''latestArrivalS'', JInt latestS),
      (''availableWindowS'', JInt (latestS - earliestS)), (''dailyBoundary'', JBool False), (''formationLengthMm'', JInt 60),
      (''terminalIntervals'', JArray [JObject [(''edgeId'', JString ''e''), (''fromMm'', JInt 0), (''toMm'', JInt 60)]])]"

definition template_assignment :: jsval where
  "template_assignment = JObject [(''kind'', JString ''observed''), (''subtype'', JString ''osm-service-siding''),
     (''geometryProvenance'', JString ''real-osm-rail''), (''operationalAssignmentProvenance'', JString ''observed-osm-service'')]"

definition template_berth :: jsval where
  "template_berth = JObject [(''edgeId'', JString ''b''), (''edgeLengthMm'', JInt 80), (''fromMm'', JInt 10), (''toMm'', JInt 70),
     (''leftClearanceMm'', JInt 10), (''rightClearanceMm'', JInt 10)]"

definition template_artifact :: jsval where
  "template_artifact =
     JObject [(''schema'', JString MOVEMENT_ROUTE_TEMPLATES_SCHEMA), (''infraReleaseId'', JString ''infra''),
       (''operationalStateHash'', JString template_hash), (''timetableTransferSetSha256'', JString template_hash),
       (''directTemplates'', JArray [JObject (template_window ''d'' ''1'' ''ra'' ''rb'' 32400 33000 @
          [(''movementKind'', JString ''train''), (''continuity'', JString ''reverse-direction''), (''maximumDwellMs'', JInt 1200000),
           (''resourceIds'', JArray [JString ''r'']), (''resourceSetSha256'', JString template_hash), (''through'', JNull),
           (''outbound'', template_dispatch ''o1'' ''ra'' ''reverse-direction'')])]),
       (''templates'', JArray [JObject (template_window ''s'' ''2'' ''rb'' ''ra'' 36000 43200 @
          [(''terminalEdgeId'', JString ''e''), (''terminalNodeId'', JInt 7), (''inboundDirection'', JString ''along''),
           (''outboundDirection'', JString ''against''), (''candidateRank'', JInt 0), (''stablingPathLengthMm'', JInt 60),
           (''stablingKind'', JString ''shared-berth''), (''arrivalBerthAssignment'', template_assignment),
           (''departureBerthAssignment'', template_assignment), (''shuntIn'', template_dispatch ''si'' ''rb'' ''same-direction''),
           (''arrivalBerth'', template_berth), (''berthTransfer'', JNull), (''berthTransferProvenance'', JNull),
           (''departureBerth'', template_berth), (''shuntOut'', template_dispatch ''so'' ''si'' ''reverse-direction''),
           (''outbound'', template_dispatch ''o2'' ''so'' ''same-direction'')])]),
       (''transferTemplates'', JArray []),
       (''metrics'', JObject [(''directTemplateCount'', JInt 1), (''stablingTemplateCount'', JInt 1), (''transferTemplateCount'', JInt 0),
          (''transferDemandCount'', JInt 0), (''turnaroundDemandCount'', JInt 2), (''plannedTransitionCount'', JInt 2),
          (''turnaroundPairCount'', JInt 1), (''observedStablingTemplateCount'', JInt 1), (''simulatedOperationalStablingTemplateCount'', JInt 0),
          (''crossBerthTemplateCount'', JInt 0), (''berthAssignmentCounts'', JObject [(''observedOsmServiceSiding'', JInt 1),
             (''simulatedOperationalOsmServiceYard'', JInt 0), (''simulatedOperationalOsmServiceSpur'', JInt 0),
             (''simulatedOperationalOsmUnclassifiedRail'', JInt 0)])]),
       (''stateHash'', JString template_hash)]"

definition template_binding :: jsval where
  "template_binding = JObject [(''file'', JString MOVEMENT_ROUTE_TEMPLATES_FILE), (''bytes'', JInt 1), (''sha256'', JString template_hash),
     (''stateHash'', JString template_hash), (''operationalStateHash'', JString template_hash), (''timetableTransferSetSha256'', JString template_hash)]"

definition template_demand :: "string \<Rightarrow> string \<Rightarrow> string \<Rightarrow> int \<Rightarrow> int \<Rightarrow> demand" where
  "template_demand i inbound outbound earliestS latestS =
     \<lparr>dmId = i, dmLotId = ''lot'', dmAssetKey = ''k'', dmSourceCirculationId = ''c'', dmTargetCirculationId = ''c'', dmSourceLegId = ''l'',
      dmTargetLegId = ''m'', dmSourceRouteVersionId = inbound, dmTargetRouteVersionId = outbound, dmSourceLocationId = ''x'', dmTargetLocationId = ''x'',
      dmSourcePhysicalStopId = ''x'', dmTargetPhysicalStopId = ''x'', dmEarliestDepartureS = earliestS, dmLatestArrivalS = latestS,
      dmAvailableWindowS = latestS - earliestS, dmDailyBoundary = False\<rparr>"

definition template_plan :: transfer_plan where
  "template_plan =
     \<lparr>tpDailyPlan = \<lparr>dpSchema = [], dpRule = [], dpGtfsReleaseId = [], dpRepeatEveryS = 86400, dpMinimumTurnaroundS = 300,
        dpMetrics = \<lparr>lotCount = 1, journeyChainCount = 2, circulationCount = 1, rolloverAssignmentCount = 1, plannedTransitionCount = 2,
          turnaroundDemandCount = 2, transferDemandCount = 0, transferLotCount = 0\<rparr>,
        dpCirculations = [], dpRolloverAssignments = [],
        dpTurnaroundDemands = [template_demand ''1'' ''ra'' ''rb'' 32400 33000, template_demand ''2'' ''rb'' ''ra'' 36000 43200],
        dpTransferDemands = [], dpPlanSha256 = []\<rparr>,
      tpFormationLengthsMm = [60], tpTransferRoutes = [], tpTransferSetSha256 = template_hash\<rparr>"

abbreviation "template_sha \<equiv> (\<lambda>text :: string. template_hash)"

lemma template_lists:
  "case templateLists template_sha template_artifact template_plan of Inl e \<Rightarrow> False
   | Inr (directs, templates, transfers) \<Rightarrow> length directs = 1 \<and> length templates = 1 \<and> transfers = []"
  by code_simp

lemma template_binding_ok:
  "sha256Test (JString template_hash)"
  "bindingAgrees template_artifact template_binding ''infra'' template_hash template_plan"
  by code_simp+

text \<open>C19: Whatever movement route templates the validation accepts, an allocation can work with them. All dispatches are well formed and their
  protection contracts cover every leg; the routes of a template form a chain from the incoming route on; shared and crossed berths
  are told apart, so that the checks of an allocation cannot fail on them; no two direct turns serve the same pair of routes
  with one length; and no two templates share an identifier.\<close>

theorem validated_templates_well_formed:
  assumes "validateMovementRouteTemplatesV2 sha256 artifact binding infra state plan = Inr v" and "distinct (tpFormationLengthsMm plan)"
  shows "plan_ok (movementRoutePlan v) \<and>
    list_all direct_ok (mrDirectTemplates (movementRoutePlan v)) \<and> list_all stabling_ok (mrTemplates (movementRoutePlan v)) \<and>
    list_all transfer_template_ok (mrTransferTemplates (movementRoutePlan v)) \<and>
    distinct (map (\<lambda>t. (dtInboundRouteVersionId t, dtOutboundRouteVersionId t, dtFormationLengthMm t)) (mrDirectTemplates (movementRoutePlan v))) \<and>
    distinct (map dtId (mrDirectTemplates (movementRoutePlan v)) @ map slId (mrTemplates (movementRoutePlan v)) @ map ttId (mrTransferTemplates (movementRoutePlan v)))"
  by (rule validated_well_formed [OF assms])

theorem validated_templates_well_formed_witness:
  "\<exists>v. validateMovementRouteTemplatesV2 template_sha template_artifact template_binding ''infra'' template_hash template_plan = Inr v \<and>
     length (mtTemplates v) = 1 \<and> list_all stabling_ok (mrTemplates (movementRoutePlan v))"
proof -
  have p: "plain (JObject [(''schema'', JString MOVEMENT_ROUTE_TEMPLATES_SCHEMA), (''value'', withoutStateHash template_artifact)])" by code_simp
  obtain t where "canonicalText (JObject [(''schema'', JString MOVEMENT_ROUTE_TEMPLATES_SCHEMA), (''value'', withoutStateHash template_artifact)]) = Inr t"
    using canonical_total [OF p] by (auto simp: canonicalText_Inr)
  moreover have "templateKeys template_artifact [''schema'', ''infraReleaseId'', ''operationalStateHash'', ''timetableTransferSetSha256'', ''directTemplates'',
      ''templates'', ''transferTemplates'', ''metrics'', ''stateHash''] ''Movement-Route-Templates-v2'' = Inr ()"
    "templateKeys template_binding [''file'', ''bytes'', ''sha256'', ''stateHash'', ''operationalStateHash'', ''timetableTransferSetSha256''] ''Bindung'' = Inr ()"
    by code_simp+
  moreover obtain directs templates where "templateLists template_sha template_artifact template_plan = Inr (directs, templates, [])" "length templates = 1"
    using template_lists by (auto split: sum.splits)
  ultimately obtain v where v: "validateMovementRouteTemplatesV2 template_sha template_artifact template_binding ''infra'' template_hash template_plan = Inr v"
      "length (mtTemplates v) = 1"
    using template_binding_ok
    by (simp add: validateMovementRouteTemplatesV2_def Let_def bnd_def invariant_def template_artifact_def template_binding_def templateInteger_def is_safe_def)
  then show ?thesis using validated_templates_well_formed [OF v(1)] by (simp add: template_plan_def)
qed

end
