(* ===== verification/TransferPlan.thy ===== *)
theory TransferPlan
  imports MovementTemplates MovementContinuity
begin

text \<open>
  The acceptance of the signed transfer plan of a release, \<open>validateTimetableTransferDemandsArtifact\<close> of
  \<open>tools/region-import/build-alpha-world.mjs\<close>: its daily plan is derived again from the timetable and must be
  the same, and every transfer demand has exactly one route.
\<close>

datatype transfer_plan_error =
    TransferPlan string
  | TransferText canonical_error
  | TransferCirculation circulation_error

definition transferKeys :: "jsval \<Rightarrow> string list \<Rightarrow> string \<Rightarrow> transfer_plan_error + unit" where
  "transferKeys v expected name =
     invariant (isRecord v) (TransferPlan (name @ '' ist kein Objekt''))
    (invariant (sort (object_keys v) = sort expected) (TransferPlan (name @ '' besitzt fehlende oder unbekannte Felder'')) (Inr ()))"

definition transferText :: "jsval \<Rightarrow> transfer_plan_error + string" where
  "transferText v = (case alphaCanonicalJson v of Inl e \<Rightarrow> Inl (TransferText e) | Inr s \<Rightarrow> Inr s)"

text \<open>A string that is not only white space.\<close>

definition transferString :: "jsval \<Rightarrow> string \<Rightarrow> transfer_plan_error + string" where
  "transferString v name =
     (case v of JString s \<Rightarrow> invariant (\<not> blank s) (TransferPlan name) (Inr s) | _ \<Rightarrow> Inl (TransferPlan name))"

text \<open>The daily plan as the object that is compared.\<close>

definition dailyPlanJson :: "daily_plan \<Rightarrow> jsval" where
  "dailyPlanJson p = (case planBodyJson p of JObject kvs \<Rightarrow> JObject (kvs @ [(''planSha256'', JString (dpPlanSha256 p))]) | v \<Rightarrow> v)"

text \<open>
  The pairs of circulations a transfer was chosen for. Identifiers of circulations are strings, so an
  assignment with anything else in their place names no pair.
\<close>

definition transferPair :: "jsval \<Rightarrow> string list" where
  "transferPair assignment =
     (if jprop assignment ''kind'' = JString ''transfer''
      then (case (jprop assignment ''sourceCirculationId'', jprop assignment ''targetCirculationId'') of
          (JString s, JString t) \<Rightarrow> [s @ nul @ t] | _ \<Rightarrow> [])
      else [])"

definition chosenCost :: "string list \<Rightarrow> transfer_query \<Rightarrow> jsval" where
  "chosenCost transferPairs q = (if ccId (tqSource q) @ nul @ ccId (tqTarget q) \<in> set transferPairs then JInt 0 else JNull)"

definition reproducedPlan :: "(string \<Rightarrow> jsval \<Rightarrow> string) \<Rightarrow> (jsval \<Rightarrow> jsval) \<Rightarrow> jsval \<Rightarrow> journey_chain list \<Rightarrow> station list \<Rightarrow> string \<Rightarrow>
    transfer_plan_error + daily_plan" where
  "reproducedPlan hash canonical dailyPlan journeyChains allStations gtfsReleaseId =
     (case (jprop dailyPlan ''repeatEveryS'', jprop dailyPlan ''minimumTurnaroundS'') of
        (JInt repeatEveryS, JInt minimumTurnaroundS) \<Rightarrow>
          (case deriveDailyCirculationPlan hash canonical journeyChains allStations
              \<lparr>poGtfsReleaseId = gtfsReleaseId, poRepeatEveryS = repeatEveryS, poMinimumTurnaroundS = minimumTurnaroundS,
               poTransferCost = Some (chosenCost (concat (map transferPair (elements (jprop dailyPlan ''rolloverAssignments'')))))\<rparr> of
             Inl e \<Rightarrow> Inl (TransferCirculation e) | Inr p \<Rightarrow> Inr p)
      | _ \<Rightarrow> Inl (TransferPlan ''repeatEveryS''))"

abbreviation route_fields :: "string list" where
  "route_fields \<equiv> [''id'', ''lotId'', ''assetCompatibilityKey'', ''sourceCirculationId'', ''targetCirculationId'', ''sourcePassengerLegId'',
     ''targetPassengerLegId'', ''sourceLocationId'', ''targetLocationId'', ''sourcePhysicalStopId'', ''targetPhysicalStopId'',
     ''earliestDepartureS'', ''latestArrivalS'', ''availableWindowS'', ''dailyBoundary'', ''movementKind'', ''sourcePassengerRouteVersionId'',
     ''targetPassengerRouteVersionId'', ''formationLengthsMm'', ''routeVersionId'', ''templateId'', ''legs'', ''totalLengthMm'', ''weightedCostMm'',
     ''minimumRuntimeMs'']"

text \<open>The parts of a route its demand has, under the names of the demand.\<close>

definition demandPart :: "jsval \<Rightarrow> jsval \<Rightarrow> jsval" where
  "demandPart route d = JObject (map (\<lambda>key. (key, jprop route key)) (object_keys d))"

definition positiveRuntime :: "jsval \<Rightarrow> demand \<Rightarrow> bool" where
  "positiveRuntime v d = (case v of JInt n \<Rightarrow> is_safe n \<and> 0 < n \<and> n \<le> js_mul (dmAvailableWindowS d) 1000 | _ \<Rightarrow> False)"

definition acceptRoute :: "jsval \<Rightarrow> (string \<times> demand) list \<Rightarrow> jsval \<Rightarrow> transfer_route list \<Rightarrow> transfer_plan_error + transfer_route list" where
  "acceptRoute lengthsMm demandById route accepted =
     bnd (transferKeys route route_fields ''Timetable-Transferweg'') (\<lambda>_.
     let error = TransferPlan ''Timetable-Transferweg ist nicht vollstaendig releasegebunden'' in
     case demandOf demandById (jprop route ''id'') of
       None \<Rightarrow> Inl error
     | Some d \<Rightarrow>
         invariant (dmId d \<notin> set (map trId accepted)) error
        (bnd (transferText (demandPart route (transferJson d))) (\<lambda>a.
         bnd (transferText (transferJson d)) (\<lambda>b.
         invariant (a = b) error
        (bnd (transferText (jprop route ''formationLengthsMm'')) (\<lambda>c.
         bnd (transferText lengthsMm) (\<lambda>l.
         invariant (c = l) error
        (bnd (transferString (jprop route ''sourcePassengerRouteVersionId'') ''sourcePassengerRouteVersionId'') (\<lambda>source.
         bnd (transferString (jprop route ''targetPassengerRouteVersionId'') ''targetPassengerRouteVersionId'') (\<lambda>target.
         bnd (transferString (jprop route ''routeVersionId'') ''routeVersionId'') (\<lambda>_.
         bnd (transferString (jprop route ''templateId'') ''templateId'') (\<lambda>_.
         invariant (isArray (jprop route ''legs'') \<and> elements (jprop route ''legs'') \<noteq> [] \<and> positiveRuntime (jprop route ''minimumRuntimeMs'') d) error
           (Inr (accepted @ [\<lparr>trId = dmId d, trSourcePassengerRouteVersionId = source, trTargetPassengerRouteVersionId = target\<rparr>]))))))))))))))"

fun positiveLength :: "jsval \<Rightarrow> bool" where
  "positiveLength (JInt n) \<longleftrightarrow> is_safe n \<and> 0 < n"
| "positiveLength v \<longleftrightarrow> False"

fun lengthOf :: "jsval \<Rightarrow> int" where
  "lengthOf (JInt n) = n"
| "lengthOf v = 0"

definition transferSetHash :: "(string \<Rightarrow> string) \<Rightarrow> jsval list \<Rightarrow> transfer_plan_error + string" where
  "transferSetHash sha256 routes = bnd (map_res transferText routes) (\<lambda>texts. Inr (sha256 (concat (map (\<lambda>t. t @ [CHR 0x0A]) texts))))"

text \<open>The hashes of the binding are compared with texts below, so comparing them as values before changes nothing.\<close>

definition validateTimetableTransferDemandsArtifact ::
    "(string \<Rightarrow> string) \<Rightarrow> (string \<Rightarrow> jsval \<Rightarrow> string) \<Rightarrow> (jsval \<Rightarrow> jsval) \<Rightarrow> jsval \<Rightarrow> jsval \<Rightarrow> string \<Rightarrow> string \<Rightarrow> journey_chain list \<Rightarrow> station list \<Rightarrow>
     string \<Rightarrow> transfer_plan_error + transfer_plan" where
  "validateTimetableTransferDemandsArtifact sha256 hash canonical artifact binding infraReleaseId gtfsSnapshotHash journeyChains allStations gtfsReleaseId =
     bnd (transferKeys artifact [''schema'', ''infraReleaseId'', ''gtfsSnapshotHash'', ''dailyPlan'', ''formationLengthsMm'', ''transferRoutes'',
            ''transferSetSha256''] ''Timetable-Transferplan'') (\<lambda>_.
     let dailyPlan = jprop artifact ''dailyPlan''; lengthsMm = jprop artifact ''formationLengthsMm''; routes = jprop artifact ''transferRoutes'' in
     invariant (jprop artifact ''schema'' = JString ''zugfolge-timetable-transfer-demands/v2'' \<and> jprop artifact ''infraReleaseId'' = JString infraReleaseId \<and>
         jprop artifact ''gtfsSnapshotHash'' = JString gtfsSnapshotHash \<and> jprop artifact ''transferSetSha256'' = jprop binding ''transferSetSha256'' \<and>
         jprop dailyPlan ''planSha256'' = jprop binding ''dailyPlanSha256'') (TransferPlan ''Release- oder Hashbindung'')
    (invariant (jprop dailyPlan ''schema'' = JString DAILY_CIRCULATION_PLAN_SCHEMA \<and> isArray (jprop dailyPlan ''rolloverAssignments'') \<and>
         isArray (jprop dailyPlan ''transferDemands'')) (TransferPlan ''kein vollstaendiger DailyPlan'')
    (bnd (reproducedPlan hash canonical dailyPlan journeyChains allStations gtfsReleaseId) (\<lambda>reproduced.
     invariant (jprop binding ''dailyPlanSha256'' = JString (dpPlanSha256 reproduced)) (TransferPlan ''nicht identisch reproduzierbar'')
    (bnd (transferText (dailyPlanJson reproduced)) (\<lambda>a.
     bnd (transferText dailyPlan) (\<lambda>b.
     invariant (a = b) (TransferPlan ''nicht identisch reproduzierbar'')
    (invariant (isArray lengthsMm \<and> elements lengthsMm \<noteq> [] \<and> list_all positiveLength (elements lengthsMm) \<and> distinct (map lengthOf (elements lengthsMm)) \<and>
         isArray routes) (TransferPlan ''keine eindeutigen Formationslaengen oder Transferwege'')
    (let demandById = map_from (map (\<lambda>d. (dmId d, d)) (dpTransferDemands reproduced)) in
     bnd (fold_res (acceptRoute lengthsMm demandById) (elements routes) []) (\<lambda>accepted.
     invariant (length accepted = length demandById) (TransferPlan ''nicht jede Transferanforderung genau einmal'')
    (bnd (transferSetHash sha256 (elements routes)) (\<lambda>digest.
     invariant (jprop binding ''transferSetSha256'' = JString digest) (TransferPlan ''kanonischer Set-Hash'')
    (Inr \<lparr>tpDailyPlan = reproduced, tpFormationLengthsMm = map lengthOf (elements lengthsMm), tpTransferRoutes = accepted,
       tpTransferSetSha256 = digest\<rparr>)))))))))))))"

section \<open>What is accepted\<close>

definition routes_accepted :: "(string \<times> demand) list \<Rightarrow> transfer_route list \<Rightarrow> bool" where
  "routes_accepted demandById rs \<longleftrightarrow> distinct (map trId rs) \<and> set (map trId rs) \<subseteq> fst ` set demandById"

lemma acceptRoute_accepted:
  assumes "acceptRoute lengthsMm demandById route rs = Inr rs'" "routes_accepted demandById rs" "\<forall>(i, d) \<in> set demandById. dmId d = i"
  shows "routes_accepted demandById rs'"
proof -
  obtain d where d: "demandOf demandById (jprop route ''id'') = Some d"
    using assms(1) by (auto simp: acceptRoute_def Let_def bnd_Inr split: option.splits)
  then obtain i where "map_of demandById i = Some d" by (auto simp: demandOf_def split: jsval.splits)
  then have "(i, d) \<in> set demandById" by (rule map_of_SomeD)
  then have "dmId d \<in> fst ` set demandById" using assms(3) by force
  moreover obtain source target where "rs' = rs @ [\<lparr>trId = dmId d, trSourcePassengerRouteVersionId = source, trTargetPassengerRouteVersionId = target\<rparr>]"
      "dmId d \<notin> set (map trId rs)"
    using assms(1) d by (auto simp: acceptRoute_def Let_def bnd_Inr invariant_Inr)
  ultimately show ?thesis using assms(2) by (auto simp: routes_accepted_def)
qed

lemma in_update: "e \<in> set (AList.update k v m) \<Longrightarrow> e = (k, v) \<or> e \<in> set m"
  by (induction m) (auto split: if_splits)

lemma keyed_demands: "\<forall>(i, d) \<in> set (map_from (map (\<lambda>d. (dmId d, d)) ds)). dmId d = i"
proof (induction ds rule: rev_induct)
  case (snoc d ds)
  then show ?case by (fastforce simp: map_from_snoc dest: in_update)
qed (simp add: map_from_def)

lemma all_routes:
  assumes "fold_res (acceptRoute lengthsMm (map_from (map (\<lambda>d. (dmId d, d)) ds))) routes [] = Inr rs"
    and "length rs = length (map_from (map (\<lambda>d. (dmId d, d)) ds))"
  shows "distinct (map trId rs) \<and> set (map trId rs) = dmId ` set ds"
proof -
  let ?m = "map_from (map (\<lambda>d. (dmId d, d)) ds)"
  have "routes_accepted ?m rs"
    proof (rule fold_res_invariant [OF assms(1)])
    show "routes_accepted ?m []" by (simp add: routes_accepted_def)
  qed (rule acceptRoute_accepted [OF _ _ keyed_demands])
  then have d: "distinct (map trId rs)" "set (map trId rs) \<subseteq> fst ` set ?m" by (simp_all add: routes_accepted_def)
  have e: "fst ` set ?m = set (map fst ?m)" by simp
  have c: "card (set (map trId rs)) = length rs" using distinct_card [OF d(1)] by simp
  have "card (fst ` set ?m) = length ?m" unfolding e using distinct_card [OF distinct_map_from] by simp
  then have "set (map trId rs) = fst ` set ?m" using c assms(2) d(2) by (intro card_subset_eq) auto
  also have "\<dots> = dmId ` set ds" by (simp add: keys_map_from image_image)
  finally show ?thesis using d(1) by blast
qed

lemma transferText_same:
  assumes "transferText v = Inr s" "transferText w = Inr s"
  shows "ordered v = ordered w"
  using assms decodable_text [OF render_decodable, of "ordered v" s "ordered w"]
  by (simp add: transferText_def canonical_renders split: sum.splits)

lemma accepted_plan:
  assumes "validateTimetableTransferDemandsArtifact sha256 hash canonical artifact binding infraReleaseId gtfsSnapshotHash journeyChains allStations
      gtfsReleaseId = Inr tp"
  shows "(\<exists>opts. deriveDailyCirculationPlan hash canonical journeyChains allStations opts = Inr (tpDailyPlan tp) \<and> poGtfsReleaseId opts = gtfsReleaseId) \<and>
    ordered (jprop artifact ''dailyPlan'') = ordered (dailyPlanJson (tpDailyPlan tp)) \<and>
    distinct (tpFormationLengthsMm tp) \<and> (\<forall>n \<in> set (tpFormationLengthsMm tp). 0 < n) \<and>
    distinct (map trId (tpTransferRoutes tp)) \<and> set (map trId (tpTransferRoutes tp)) = dmId ` set (dpTransferDemands (tpDailyPlan tp))"
proof -
  let ?lengths = "jprop artifact ''formationLengthsMm''"
  obtain a where r: "reproducedPlan hash canonical (jprop artifact ''dailyPlan'') journeyChains allStations gtfsReleaseId = Inr (tpDailyPlan tp)"
    and t: "transferText (dailyPlanJson (tpDailyPlan tp)) = Inr a" "transferText (jprop artifact ''dailyPlan'') = Inr a"
    and l: "list_all positiveLength (elements ?lengths)" "distinct (map lengthOf (elements ?lengths))" "tpFormationLengthsMm tp = map lengthOf (elements ?lengths)"
    and f: "fold_res (acceptRoute ?lengths (map_from (map (\<lambda>d. (dmId d, d)) (dpTransferDemands (tpDailyPlan tp))))) (elements (jprop artifact ''transferRoutes'')) [] =
        Inr (tpTransferRoutes tp)"
      "length (tpTransferRoutes tp) = length (map_from (map (\<lambda>d. (dmId d, d)) (dpTransferDemands (tpDailyPlan tp))))"
    using assms unfolding validateTimetableTransferDemandsArtifact_def Let_def bnd_Inr invariant_Inr by auto
  have "\<exists>opts. deriveDailyCirculationPlan hash canonical journeyChains allStations opts = Inr (tpDailyPlan tp) \<and> poGtfsReleaseId opts = gtfsReleaseId"
    using r by (auto simp: reproducedPlan_def split: jsval.splits sum.splits intro!: exI)
  moreover have "ordered (jprop artifact ''dailyPlan'') = ordered (dailyPlanJson (tpDailyPlan tp))" by (rule transferText_same [OF t(2,1)])
  moreover have "0 < lengthOf v" if "positiveLength v" for v using that by (cases v) auto
  then have "\<forall>n \<in> set (tpFormationLengthsMm tp). 0 < n" using l(1,3) by (auto simp: list_all_iff)
  ultimately show ?thesis using l(2,3) all_routes [OF f] by simp
qed

end
