(* ===== verification/ProtectionModes.thy ===== *)
theory ProtectionModes
  imports MovementTemplates
begin

text \<open>
  The train protection a train drives with on each leg of its route, \<open>selectProtectionModeRuns\<close> of
  \<open>tools/region-import/build-alpha-world.mjs\<close>: for each run of legs with the same infrastructure the first
  installed system of a fixed order of preference, with neighbouring runs of one system joined.
\<close>

definition CANONICAL_PROTECTION_SYSTEMS :: "string list" where
  "CANONICAL_PROTECTION_SYSTEMS = [''etcs-level1'', ''etcs-level2'', ''lzb'', ''pzb'']"

definition CONSERVATIVE_PROTECTION_MODE_PRIORITY_V1 :: "string list" where
  "CONSERVATIVE_PROTECTION_MODE_PRIORITY_V1 = [''pzb'', ''lzb'', ''etcs-level1'', ''etcs-level2'']"

definition canonicalProtectionSystems :: "string list \<Rightarrow> string \<Rightarrow> bool \<Rightarrow> allocation_error + string list" where
  "canonicalProtectionSystems systems name allowEmpty =
     invariant (allowEmpty \<or> length systems > 0) (Allocation (name @ '' ist keine zulaessige Systemliste''))
    (invariant (list_all (\<lambda>system. system \<in> set CANONICAL_PROTECTION_SYSTEMS) systems \<and> distinct systems \<and> successively (<) systems)
       (Allocation (name @ '' muss eindeutig, bekannt und kanonisch sortiert sein'')) (Inr systems))"

record mode_run =
  mdThroughRouteLegIndex :: int
  mdSelectedProtectionSystem :: string

definition preferredMode :: "string list \<Rightarrow> string list \<Rightarrow> string option" where
  "preferredMode installed available =
     List.find (\<lambda>system. system \<in> set installed \<and> system \<in> set available) CONSERVATIVE_PROTECTION_MODE_PRIORITY_V1"

text \<open>A run of the same system as the last selection extends it.\<close>

definition addSelectedMode :: "int \<Rightarrow> string \<Rightarrow> mode_run list \<Rightarrow> mode_run list" where
  "addSelectedMode throughRouteLegIndex system selections =
     (if selections \<noteq> [] \<and> mdSelectedProtectionSystem (last selections) = system
      then butlast selections @ [(last selections)\<lparr>mdThroughRouteLegIndex := throughRouteLegIndex\<rparr>]
      else selections @ [\<lparr>mdThroughRouteLegIndex = throughRouteLegIndex, mdSelectedProtectionSystem = system\<rparr>])"

text \<open>One run of the contract; the state has the selections so far and the first leg without one.\<close>

definition selectRunMode :: "int \<Rightarrow> string list \<Rightarrow> string \<Rightarrow> protection_run \<Rightarrow> mode_run list \<times> int \<Rightarrow> allocation_error + mode_run list \<times> int" where
  "selectRunMode routeLegCount installed what run s =
     (case s of (selections, firstRouteLegIndex) \<Rightarrow>
        let throughRouteLegIndex = prThroughRouteLegIndex run in
        invariant (is_safe throughRouteLegIndex \<and> firstRouteLegIndex \<le> throughRouteLegIndex \<and> throughRouteLegIndex < routeLegCount)
          (Allocation (what @ '' besitzt ueberlappende, leere oder ueberlange Zugsicherungslaeufe''))
       (bnd (canonicalProtectionSystems (prAvailableProtectionSystems run) (what @ ''.availableProtectionSystems'') False) (\<lambda>available.
        bnd (canonicalProtectionSystems (prSimultaneouslyRequiredProtectionSystems run) (what @ ''.simultaneouslyRequiredProtectionSystems'') True) (\<lambda>required.
        invariant (\<forall>system \<in> set required. system \<in> set available) (Allocation (what @ '' Pflicht ausserhalb seiner verfuegbaren Modi''))
       (invariant (\<forall>system \<in> set required. system \<in> set installed) (Allocation (what @ '' kann die zwingenden Systeme nicht erfuellen''))
       (case preferredMode installed available of
          None \<Rightarrow> Inl (Allocation (what @ '' keinen kompatiblen Zugsicherungsmodus''))
        | Some system \<Rightarrow> Inr (addSelectedMode throughRouteLegIndex system selections, js_add throughRouteLegIndex 1)))))))"

definition protectionModeRuns :: "protection_run list \<Rightarrow> int \<Rightarrow> string list \<Rightarrow> string \<Rightarrow> allocation_error + mode_run list" where
  "protectionModeRuns runs routeLegCount installed what =
     invariant (is_safe routeLegCount \<and> 0 < routeLegCount) (Allocation (what @ ''.routeLegCount''))
    (invariant (length runs > 0) (Allocation (what @ '' besitzt keinen Zugsicherungsvertrag''))
    (invariant (length installed > 0) (Allocation (what @ '' besitzt kein installiertes Zugsicherungssystem''))
    (invariant (distinct installed \<and> list_all (\<lambda>system. system \<in> set CANONICAL_PROTECTION_SYSTEMS) installed) (Allocation (what @ ''.installedProtection''))
    (bnd (fold_res (selectRunMode routeLegCount installed what) runs ([], 0)) (\<lambda>(selections, firstRouteLegIndex).
     invariant (firstRouteLegIndex = routeLegCount) (Allocation (what @ '' deckt nicht alle RouteLegs ab'')) (Inr selections))))))"

definition modeRunsJson :: "mode_run list \<Rightarrow> jsval" where
  "modeRunsJson runs = JArray (map (\<lambda>r. JObject [(''throughRouteLegIndex'', JInt (mdThroughRouteLegIndex r)),
     (''selectedProtectionSystem'', JString (mdSelectedProtectionSystem r))]) runs)"

definition selectProtectionModeRuns :: protection_choice where
  "selectProtectionModeRuns runs routeLegCount installed what =
     bnd (protectionModeRuns runs routeLegCount installed what) (\<lambda>selections. Inr (modeRunsJson selections))"

section \<open>What is selected\<close>

definition run_canonical :: "protection_run \<Rightarrow> bool" where
  "run_canonical r \<longleftrightarrow> prAvailableProtectionSystems r \<noteq> [] \<and> successively (<) (prAvailableProtectionSystems r) \<and>
     successively (<) (prSimultaneouslyRequiredProtectionSystems r) \<and> set (prAvailableProtectionSystems r) \<subseteq> set CANONICAL_PROTECTION_SYSTEMS \<and>
     set (prSimultaneouslyRequiredProtectionSystems r) \<subseteq> set (prAvailableProtectionSystems r)"

definition run_served :: "string list \<Rightarrow> protection_run \<Rightarrow> bool" where
  "run_served installed r \<longleftrightarrow> set (prSimultaneouslyRequiredProtectionSystems r) \<subseteq> set installed \<and>
     set installed \<inter> set (prAvailableProtectionSystems r) \<noteq> {}"

text \<open>The system of a leg: the one of the first run that reaches it.\<close>

definition modeOfLeg :: "mode_run list \<Rightarrow> int \<Rightarrow> string option" where
  "modeOfLeg ms k = map_option mdSelectedProtectionSystem (List.find (\<lambda>m. k \<le> mdThroughRouteLegIndex m) ms)"

definition modeWanted :: "string list \<Rightarrow> protection_run list \<Rightarrow> int \<Rightarrow> string option" where
  "modeWanted installed runs k = (case List.find (\<lambda>r. k \<le> prThroughRouteLegIndex r) runs of
     None \<Rightarrow> None | Some r \<Rightarrow> preferredMode installed (prAvailableProtectionSystems r))"

lemma find_none: "(\<And>x. x \<in> set xs \<Longrightarrow> \<not> P x) \<Longrightarrow> List.find P xs = None"
  by (simp add: find_None_iff)

lemma successively_lt: "successively (<) (xs :: string list) \<longleftrightarrow> sorted_wrt (<) xs"
  by (rule successively_conv_sorted_wrt) auto

lemma sorted_distinct: "successively (<) (xs :: string list) \<Longrightarrow> distinct xs"
  by (simp add: successively_lt strict_sorted_iff)

lemma preferredMode_exists:
  assumes "set available \<subseteq> set CANONICAL_PROTECTION_SYSTEMS"
  shows "preferredMode installed available \<noteq> None \<longleftrightarrow> set installed \<inter> set available \<noteq> {}"
proof -
  have "set CANONICAL_PROTECTION_SYSTEMS = set CONSERVATIVE_PROTECTION_MODE_PRIORITY_V1"
    by (auto simp: CANONICAL_PROTECTION_SYSTEMS_def CONSERVATIVE_PROTECTION_MODE_PRIORITY_V1_def)
  then have "set available \<subseteq> set CONSERVATIVE_PROTECTION_MODE_PRIORITY_V1" using assms by simp
  then show ?thesis unfolding preferredMode_def find_None_iff by blast
qed

lemma canonical_systems:
  "canonicalProtectionSystems systems name allowEmpty = Inr ys \<longleftrightarrow>
     ys = systems \<and> (allowEmpty \<or> systems \<noteq> []) \<and> set systems \<subseteq> set CANONICAL_PROTECTION_SYSTEMS \<and> successively (<) systems"
  by (auto simp: canonicalProtectionSystems_def invariant_Inr list_all_iff sorted_distinct)

lemma selectRunMode_iff:
  "selectRunMode legs installed what run (ms, first) = Inr s' \<longleftrightarrow>
     is_safe (prThroughRouteLegIndex run) \<and> first \<le> prThroughRouteLegIndex run \<and> prThroughRouteLegIndex run < legs \<and>
     run_canonical run \<and> run_served installed run \<and>
     (\<exists>system. preferredMode installed (prAvailableProtectionSystems run) = Some system \<and>
        s' = (addSelectedMode (prThroughRouteLegIndex run) system ms, js_add (prThroughRouteLegIndex run) 1))"
proof -
  have "preferredMode installed (prAvailableProtectionSystems run) \<noteq> None \<longleftrightarrow> set installed \<inter> set (prAvailableProtectionSystems run) \<noteq> {}"
    if "run_canonical run" using that by (intro preferredMode_exists) (simp add: run_canonical_def)
  then show ?thesis
    by (auto simp: selectRunMode_def Let_def bnd_Inr invariant_Inr canonical_systems run_canonical_def run_served_def split: option.splits)
qed

lemma modeOfLeg_added:
  assumes "\<forall>m \<in> set ms. mdThroughRouteLegIndex m < first" "ms = [] \<longrightarrow> first = 0" "first \<le> through"
    and "ms \<noteq> [] \<longrightarrow> mdThroughRouteLegIndex (last ms) = first - 1" "k \<le> through"
  shows "modeOfLeg (addSelectedMode through system ms) k = (if k < first then (if ms = [] then Some system else modeOfLeg ms k) else Some system)"
proof (cases "ms = [] \<or> mdSelectedProtectionSystem (last ms) \<noteq> system")
  case True
  have "List.find (\<lambda>m. k \<le> mdThroughRouteLegIndex m) ms = None" if "first \<le> k" using assms(1) that by (intro find_none) force
  moreover have "List.find (\<lambda>m. k \<le> mdThroughRouteLegIndex m) ms \<noteq> None" if "k < first" "ms \<noteq> []"
  proof -
    have "k \<le> mdThroughRouteLegIndex (last ms)" using assms(4) that by simp
    then show ?thesis using last_in_set [OF that(2)] unfolding find_None_iff by blast
  qed
  ultimately show ?thesis using True assms(5) by (auto simp: addSelectedMode_def modeOfLeg_def find_append split: option.splits)
next
  case False
  then obtain us m where ms: "ms = us @ [m]" "mdSelectedProtectionSystem m = system" by (cases ms rule: rev_cases) auto
  have "List.find (\<lambda>m. k \<le> mdThroughRouteLegIndex m) us = None" if "first \<le> k" using assms(1) that ms(1) by (intro find_none) force
  then show ?thesis using ms assms(4,5) by (auto simp: addSelectedMode_def modeOfLeg_def find_append split: option.splits)
qed

text \<open>The runs so far, with their selections.\<close>

definition modes_so_far :: "string list \<Rightarrow> protection_run list \<Rightarrow> mode_run list \<Rightarrow> int \<Rightarrow> bool" where
  "modes_so_far installed done ms first \<longleftrightarrow>
     (done = [] \<longleftrightarrow> ms = []) \<and> first = (if done = [] then 0 else prThroughRouteLegIndex (last done) + 1) \<and> 0 \<le> first \<and>
     (\<forall>r \<in> set done. prThroughRouteLegIndex r < first) \<and> (\<forall>m \<in> set ms. mdThroughRouteLegIndex m < first) \<and>
     (ms \<noteq> [] \<longrightarrow> mdThroughRouteLegIndex (last ms) = first - 1) \<and>
     sorted_wrt (\<lambda>a b. mdThroughRouteLegIndex a < mdThroughRouteLegIndex b) ms \<and>
     successively (\<lambda>a b. mdSelectedProtectionSystem a \<noteq> mdSelectedProtectionSystem b) ms \<and>
     (\<forall>k \<in> {0..<first}. modeOfLeg ms k = modeWanted installed done k \<and> modeOfLeg ms k \<noteq> None)"

lemma addSelectedMode_kept:
  assumes "sorted_wrt (\<lambda>a b. mdThroughRouteLegIndex a < mdThroughRouteLegIndex b) ms"
    and "successively (\<lambda>a b. mdSelectedProtectionSystem a \<noteq> mdSelectedProtectionSystem b) ms"
    and "\<forall>m \<in> set ms. mdThroughRouteLegIndex m < first" "first \<le> through"
    and ns_def: "ns = addSelectedMode through system ms"
  shows "sorted_wrt (\<lambda>a b. mdThroughRouteLegIndex a < mdThroughRouteLegIndex b) ns \<and>
    successively (\<lambda>a b. mdSelectedProtectionSystem a \<noteq> mdSelectedProtectionSystem b) ns \<and>
    (\<forall>m \<in> set ns. mdThroughRouteLegIndex m < through + 1) \<and> ns \<noteq> [] \<and> mdThroughRouteLegIndex (last ns) = through"
proof (cases ms rule: rev_cases)
  case Nil
  then show ?thesis by (simp add: ns_def addSelectedMode_def)
next
  case (snoc us m)
  show ?thesis
  proof (cases "mdSelectedProtectionSystem m = system")
    case True
    then have "ns = us @ [m\<lparr>mdThroughRouteLegIndex := through\<rparr>]" by (simp add: ns_def addSelectedMode_def snoc)
    then show ?thesis using assms(1-4) True unfolding snoc by (auto simp: sorted_wrt_append successively_append_iff)
  next
    case False
    then have "ns = ms @ [\<lparr>mdThroughRouteLegIndex = through, mdSelectedProtectionSystem = system\<rparr>]" by (simp add: ns_def addSelectedMode_def snoc)
    then show ?thesis using assms(1-4) False unfolding snoc by (auto simp: sorted_wrt_append successively_append_iff)
  qed
qed

lemma modeWanted_append:
  "modeWanted installed (done @ [r]) k =
     (case List.find (\<lambda>r. k \<le> prThroughRouteLegIndex r) done of
        None \<Rightarrow> if k \<le> prThroughRouteLegIndex r then preferredMode installed (prAvailableProtectionSystems r) else None
      | Some x \<Rightarrow> modeWanted installed done k)"
  by (auto simp: modeWanted_def find_append split: option.splits)

lemma modeWanted_kept: "modeWanted installed done k \<noteq> None \<Longrightarrow> modeWanted installed (done @ [r]) k = modeWanted installed done k"
  by (auto simp: modeWanted_def find_append split: option.splits)

lemma modes_step:
  assumes "modes_so_far installed done ms first" "first \<le> through" "prThroughRouteLegIndex run = through"
    and "preferredMode installed (prAvailableProtectionSystems run) = Some system"
  shows "modes_so_far installed (done @ [run]) (addSelectedMode through system ms) (through + 1)"
proof -
  note i = assms(1) [unfolded modes_so_far_def]
  then have legs: "\<forall>k \<in> {0..<first}. modeOfLeg ms k = modeWanted installed done k \<and> modeOfLeg ms k \<noteq> None" by blast
  have legs': "modeOfLeg (addSelectedMode through system ms) k = modeWanted installed (done @ [run]) k \<and> modeOfLeg (addSelectedMode through system ms) k \<noteq> None"
    if k: "0 \<le> k" "k < through + 1" for k
  proof (cases "k < first")
    case True
    then have "done \<noteq> []" "ms \<noteq> []" using i k by (auto split: if_splits)
    moreover have "modeOfLeg (addSelectedMode through system ms) k = modeOfLeg ms k"
      using modeOfLeg_added [of ms first through k system] i k True assms(2) \<open>ms \<noteq> []\<close> by auto
    moreover have "modeOfLeg ms k = modeWanted installed done k \<and> modeOfLeg ms k \<noteq> None" using legs k(1) True by (metis atLeastLessThan_iff)
    ultimately show ?thesis using modeWanted_kept by metis
  next
    case False
    have "modeOfLeg (addSelectedMode through system ms) k = Some system"
      using modeOfLeg_added [of ms first through k system] i k False assms(2) by auto
    moreover have "List.find (\<lambda>r. k \<le> prThroughRouteLegIndex r) done = None" using i False by (intro find_none) force
    ultimately show ?thesis using k assms(3,4) by (simp add: modeWanted_append)
  qed
  from legs' have B: "\<forall>k \<in> {0..<through + 1}. modeOfLeg (addSelectedMode through system ms) k = modeWanted installed (done @ [run]) k \<and>
      modeOfLeg (addSelectedMode through system ms) k \<noteq> None" by (metis atLeastLessThan_iff)
  have d: "\<forall>r \<in> set (done @ [run]). prThroughRouteLegIndex r < through + 1" "0 \<le> through" using i assms(2,3) by force+
  have a: "sorted_wrt (\<lambda>a b. mdThroughRouteLegIndex a < mdThroughRouteLegIndex b) (addSelectedMode through system ms) \<and>
      successively (\<lambda>a b. mdSelectedProtectionSystem a \<noteq> mdSelectedProtectionSystem b) (addSelectedMode through system ms) \<and>
      (\<forall>m \<in> set (addSelectedMode through system ms). mdThroughRouteLegIndex m < through + 1) \<and> addSelectedMode through system ms \<noteq> [] \<and>
      mdThroughRouteLegIndex (last (addSelectedMode through system ms)) = through"
    by (rule addSelectedMode_kept [OF _ _ _ assms(2) refl]) (use i in blast)+
  show ?thesis unfolding modes_so_far_def by (intro conjI; (rule B | use a d assms(3) in simp))
qed

lemma next_leg: "is_safe n \<Longrightarrow> n < legs \<Longrightarrow> is_safe legs \<Longrightarrow> js_add n 1 = n + 1"
  unfolding js_add_def by (rule js_round_exact) (auto simp: is_safe_def)

lemma modes_fold:
  assumes "fold_res (selectRunMode legs installed what) runs ([], 0) = Inr (ms, n)" "is_safe legs"
  shows "modes_so_far installed runs ms n \<and> sorted_wrt (<) (map prThroughRouteLegIndex runs) \<and>
    (\<forall>r \<in> set runs. run_canonical r \<and> run_served installed r)"
proof -
  let ?I = "\<lambda>done todo s. modes_so_far installed done (fst s) (snd s) \<and> sorted_wrt (<) (map prThroughRouteLegIndex done) \<and>
    (\<forall>r \<in> set done. run_canonical r \<and> run_served installed r)"
  have "?I runs [] (ms, n)"
  proof (rule fold_res_rule [OF assms(1)])
    show "?I [] runs ([], 0)" by (simp add: modes_so_far_def)
  next
    fix "done" x todo s s'
    assume I: "?I done (x # todo) s" and step: "selectRunMode legs installed what x s = Inr s'"
    obtain us first where s: "s = (us, first)" by (cases s)
    obtain system where x: "is_safe (prThroughRouteLegIndex x)" "first \<le> prThroughRouteLegIndex x" "prThroughRouteLegIndex x < legs" "run_canonical x"
        "run_served installed x" "preferredMode installed (prAvailableProtectionSystems x) = Some system"
        "s' = (addSelectedMode (prThroughRouteLegIndex x) system us, js_add (prThroughRouteLegIndex x) 1)"
      using step unfolding s selectRunMode_iff by blast
    have "modes_so_far installed (done @ [x]) (fst s') (snd s')"
      using modes_step [of installed "done" us first _ x system] I x s next_leg [OF x(1,3) assms(2)] by simp
    moreover have "\<forall>r \<in> set done. prThroughRouteLegIndex r < prThroughRouteLegIndex x" using I x(2) s by (force simp: modes_so_far_def)
    ultimately show "?I (done @ [x]) todo s'" using I x(4,5) by (auto simp: sorted_wrt_append)
  qed
  then show ?thesis by simp
qed

lemma modes_total:
  assumes "\<forall>r \<in> set runs. run_canonical r \<and> run_served installed r \<and> is_safe (prThroughRouteLegIndex r) \<and> prThroughRouteLegIndex r < legs"
    and "sorted_wrt (<) (map prThroughRouteLegIndex runs)" "\<forall>r \<in> set runs. first \<le> prThroughRouteLegIndex r" "is_safe legs"
  shows "\<exists>us n. fold_res (selectRunMode legs installed what) runs (ms, first) = Inr (us, n) \<and>
    n = (if runs = [] then first else prThroughRouteLegIndex (last runs) + 1)"
  using assms(1-3)
proof (induction runs arbitrary: ms first)
  case (Cons r rs)
  have "preferredMode installed (prAvailableProtectionSystems r) \<noteq> None"
    using Cons.prems(1) preferredMode_exists [of "prAvailableProtectionSystems r" installed] by (simp add: run_canonical_def run_served_def)
  then obtain system where "preferredMode installed (prAvailableProtectionSystems r) = Some system" by blast
  then have "selectRunMode legs installed what r (ms, first) = Inr (addSelectedMode (prThroughRouteLegIndex r) system ms, js_add (prThroughRouteLegIndex r) 1)"
    using Cons.prems unfolding selectRunMode_iff by simp
  moreover have "js_add (prThroughRouteLegIndex r) 1 = prThroughRouteLegIndex r + 1"
    using Cons.prems(1) next_leg [OF _ _ assms(4)] by simp
  moreover obtain us n where "fold_res (selectRunMode legs installed what) rs (addSelectedMode (prThroughRouteLegIndex r) system ms, prThroughRouteLegIndex r + 1) = Inr (us, n)"
      "n = (if rs = [] then prThroughRouteLegIndex r + 1 else prThroughRouteLegIndex (last rs) + 1)"
    using Cons.IH [of "prThroughRouteLegIndex r + 1" "addSelectedMode (prThroughRouteLegIndex r) system ms"] Cons.prems by force
  ultimately show ?case by (simp add: bnd_def)
qed simp

text \<open>A contract over all legs of a route.\<close>

definition contract_covers :: "int \<Rightarrow> protection_run list \<Rightarrow> bool" where
  "contract_covers legs runs \<longleftrightarrow> is_safe legs \<and> runs \<noteq> [] \<and> 0 \<le> prThroughRouteLegIndex (hd runs) \<and>
     sorted_wrt (<) (map prThroughRouteLegIndex runs) \<and> prThroughRouteLegIndex (last runs) = legs - 1 \<and> (\<forall>r \<in> set runs. run_canonical r)"

definition installed_known :: "string list \<Rightarrow> bool" where
  "installed_known installed \<longleftrightarrow> installed \<noteq> [] \<and> distinct installed \<and> set installed \<subseteq> set CANONICAL_PROTECTION_SYSTEMS"

lemma modes_selected:
  assumes "protectionModeRuns runs legs installed what = Inr ms"
  shows "modes_so_far installed runs ms legs \<and> contract_covers legs runs \<and> installed_known installed \<and> (\<forall>r \<in> set runs. run_served installed r)"
proof -
  obtain n where f: "fold_res (selectRunMode legs installed what) runs ([], 0) = Inr (ms, n)" "n = legs" "is_safe legs" "runs \<noteq> []" "0 < legs"
      "installed_known installed"
    using assms by (auto simp: protectionModeRuns_def bnd_Inr invariant_Inr installed_known_def list_all_iff)
  note m = modes_fold [OF f(1,3)]
  have first: "0 \<le> prThroughRouteLegIndex (hd runs)"
  proof (cases runs)
    case (Cons r rs)
    then show ?thesis using f(1) by (auto simp: bnd_Inr selectRunMode_iff)
  qed (use f(4) in simp)
  have "prThroughRouteLegIndex (last runs) = legs - 1" using m f(2,4) by (auto simp: modes_so_far_def)
  then show ?thesis using m f first by (simp add: contract_covers_def)
qed

lemma modes_selectable:
  assumes "contract_covers legs runs" "installed_known installed" "\<forall>r \<in> set runs. run_served installed r"
  shows "\<exists>ms. protectionModeRuns runs legs installed what = Inr ms"
proof -
  note c = assms(1) [unfolded contract_covers_def]
  have "prThroughRouteLegIndex (hd runs) \<le> prThroughRouteLegIndex r \<and> prThroughRouteLegIndex r \<le> prThroughRouteLegIndex (last runs)" if r: "r \<in> set runs" for r
  proof -
    obtain k where k: "k < length runs" "runs ! k = r" using r by (auto simp: in_set_conv_nth)
    have "sorted (map prThroughRouteLegIndex runs)" using c by (simp add: strict_sorted_iff)
    then have "prThroughRouteLegIndex (runs ! 0) \<le> prThroughRouteLegIndex (runs ! k)"
        "prThroughRouteLegIndex (runs ! k) \<le> prThroughRouteLegIndex (runs ! (length runs - 1))"
      using k(1) by (auto simp: sorted_iff_nth_mono)
    then show ?thesis using c k(2) by (simp add: hd_conv_nth last_conv_nth)
  qed
  then have legs: "\<forall>r \<in> set runs. 0 \<le> prThroughRouteLegIndex r \<and> prThroughRouteLegIndex r < legs" using c by fastforce
  then have "\<forall>r \<in> set runs. run_canonical r \<and> run_served installed r \<and> is_safe (prThroughRouteLegIndex r) \<and> prThroughRouteLegIndex r < legs"
    using c assms(3) by (auto simp: is_safe_def)
  then obtain ms n where "fold_res (selectRunMode legs installed what) runs ([], 0) = Inr (ms, n)" "n = legs"
    using modes_total [of runs installed legs 0 what "[]"] legs c by auto
  moreover have "0 \<le> prThroughRouteLegIndex (last runs)" using legs c last_in_set [of runs] by blast
  then have "0 < legs" using c by simp
  ultimately show ?thesis using c assms(2) by (simp add: protectionModeRuns_def bnd_def invariant_def installed_known_def list_all_iff subset_iff)
qed

section \<open>The property\<close>

definition sample_contract :: "protection_run list" where
  "sample_contract = map (\<lambda>(leg, available, required). \<lparr>prThroughRouteLegIndex = leg, prAvailableProtectionSystems = available,
       prSimultaneouslyRequiredProtectionSystems = required\<rparr>)
     [(1, [''lzb'', ''pzb''], []), (2, [''etcs-level1'', ''pzb''], []), (4, [''etcs-level2'', ''lzb''], [''lzb''])]"

text \<open>C20: A selection of protection modes is made exactly when the contract covers all legs of the route, in order and with known systems,
  the train has known systems without repetition, and on every run of legs it has all systems required there and one of those available.
  The selection then has on every leg the first system of the order of preference that is installed and available there, and no two
  neighbouring runs with one system.\<close>

theorem modes_of_every_leg:
  "((\<exists>ms. protectionModeRuns runs legs installed what = Inr ms) \<longleftrightarrow>
      contract_covers legs runs \<and> installed_known installed \<and> (\<forall>r \<in> set runs. run_served installed r)) \<and>
   (\<forall>ms. protectionModeRuns runs legs installed what = Inr ms \<longrightarrow>
      sorted_wrt (\<lambda>a b. mdThroughRouteLegIndex a < mdThroughRouteLegIndex b) ms \<and>
      successively (\<lambda>a b. mdSelectedProtectionSystem a \<noteq> mdSelectedProtectionSystem b) ms \<and>
      (\<forall>k \<in> {0..<legs}. modeOfLeg ms k = modeWanted installed runs k \<and> modeOfLeg ms k \<noteq> None))"
proof (intro conjI allI impI)
  show "(\<exists>ms. protectionModeRuns runs legs installed what = Inr ms) \<longleftrightarrow>
      contract_covers legs runs \<and> installed_known installed \<and> (\<forall>r \<in> set runs. run_served installed r)"
    using modes_selected modes_selectable by blast
next
  fix ms assume "protectionModeRuns runs legs installed what = Inr ms"
  then have "modes_so_far installed runs ms legs" using modes_selected by blast
  note m = this [unfolded modes_so_far_def]
  show "sorted_wrt (\<lambda>a b. mdThroughRouteLegIndex a < mdThroughRouteLegIndex b) ms"
    and "successively (\<lambda>a b. mdSelectedProtectionSystem a \<noteq> mdSelectedProtectionSystem b) ms"
    and "\<forall>k \<in> {0..<legs}. modeOfLeg ms k = modeWanted installed runs k \<and> modeOfLeg ms k \<noteq> None" using m by blast+
qed

theorem modes_of_every_leg_witness:
  "\<exists>ms. protectionModeRuns sample_contract 5 [''pzb'', ''lzb''] ''train'' = Inr ms \<and> map mdThroughRouteLegIndex ms = [2, 4] \<and>
     map mdSelectedProtectionSystem ms = [''pzb'', ''lzb''] \<and> contract_covers 5 sample_contract \<and> modeOfLeg ms 3 \<noteq> None"
proof -
  let ?ms = "[\<lparr>mdThroughRouteLegIndex = 2, mdSelectedProtectionSystem = ''pzb''\<rparr>, \<lparr>mdThroughRouteLegIndex = 4, mdSelectedProtectionSystem = ''lzb''\<rparr>]"
  have s: "protectionModeRuns sample_contract 5 [''pzb'', ''lzb''] ''train'' = Inr ?ms" by code_simp
  note t = modes_of_every_leg [of sample_contract 5 "[''pzb'', ''lzb'']" "''train''"]
  have "contract_covers 5 sample_contract" using t s by blast
  moreover have "(3 :: int) \<in> {0..<5}" by simp
  then have "modeOfLeg ?ms 3 \<noteq> None" using t s by blast
  ultimately show ?thesis using s by fastforce
qed

end
