(* ===== verification/ReleaseMovements.thy ===== *)
theory ReleaseMovements
  imports TransferPlan ProtectionModes MovementTemplatesOk MovementProperties
begin

text \<open>
  The physical movements of a release, from its signed artefacts to the allocation: the top level of
  \<open>tools/region-import/build-alpha-world.mjs\<close> from the transfer plan to the check of the allocation. The
  passenger trains and the binding of stop plans are arguments.
\<close>

datatype release_error =
    ReleaseTransferPlan transfer_plan_error
  | ReleaseTemplates template_error
  | ReleaseCirculation circulation_error
  | ReleaseAllocation allocation_error
  | ReleaseDrift string

definition lift_error :: "('e \<Rightarrow> release_error) \<Rightarrow> 'e + 'a \<Rightarrow> release_error + 'a" where
  "lift_error f r = (case r of Inl e \<Rightarrow> Inl (f e) | Inr x \<Rightarrow> Inr x)"

lemma lift_error_Inr: "lift_error f r = Inr x \<longleftrightarrow> r = Inr x"
  by (auto simp: lift_error_def split: sum.splits)

record release_inputs =
  riTransferArtifact :: jsval
  riTransferBinding :: jsval
  riTemplateArtifact :: jsval
  riTemplateBinding :: jsval
  riInfraReleaseId :: string
  riStateHash :: string
  riGtfsSnapshotHash :: string
  riGtfsReleaseId :: string
  riChains :: "journey_chain list"
  riStations :: "station list"
  riRegionalTrains :: "passenger_train list"
  riRepeatEveryS :: int

text \<open>The artefacts, bound to each other by the hash of the transfer routes.\<close>

definition releaseRoutes :: "(string \<Rightarrow> string) \<Rightarrow> (string \<Rightarrow> jsval \<Rightarrow> string) \<Rightarrow> (jsval \<Rightarrow> jsval) \<Rightarrow> release_inputs \<Rightarrow>
    release_error + transfer_plan \<times> movement_templates" where
  "releaseRoutes sha256 hash canonical inp =
     bnd (lift_error ReleaseTransferPlan (validateTimetableTransferDemandsArtifact sha256 hash canonical (riTransferArtifact inp) (riTransferBinding inp)
            (riInfraReleaseId inp) (riGtfsSnapshotHash inp) (riChains inp) (riStations inp) (riGtfsReleaseId inp))) (\<lambda>plan.
     invariant (jprop (riTemplateBinding inp) ''timetableTransferSetSha256'' = JString (tpTransferSetSha256 plan)) (ReleaseDrift ''verschiedene Transfermengen'')
    (bnd (lift_error ReleaseTemplates (validateMovementRouteTemplatesV2 sha256 (riTemplateArtifact inp) (riTemplateBinding inp)
            (riInfraReleaseId inp) (riStateHash inp) plan)) (\<lambda>templates.
     Inr (plan, templates))))"

definition repeatEveryMsOf :: "int \<Rightarrow> release_error + int" where
  "repeatEveryMsOf repeatEveryS =
     (let ms = js_mul repeatEveryS 1000 in invariant (is_safe ms \<and> 0 < ms) (ReleaseDrift ''Operational-v2-Wiederholungszeit'') (Inr ms))"

text \<open>\<open>bind\<close> is the binding of stop plans when there is any evidence of stops.\<close>

definition releaseMovements :: "(string \<Rightarrow> string) \<Rightarrow> (string \<Rightarrow> jsval \<Rightarrow> string) \<Rightarrow> (jsval \<Rightarrow> jsval) \<Rightarrow>
    (passenger_train \<Rightarrow> program_train \<Rightarrow> allocation_error + stop_plan option) option \<Rightarrow> release_inputs \<Rightarrow> release_error + int \<times> daily_plan \<times> movement_allocation" where
  "releaseMovements sha256 hash canonical bind inp =
     bnd (releaseRoutes sha256 hash canonical inp) (\<lambda>(plan, templates).
     bnd (repeatEveryMsOf (riRepeatEveryS inp)) (\<lambda>repeatEveryMs.
     let dailyPlan = tpDailyPlan plan; trains = riRegionalTrains inp in
     bnd (lift_error ReleaseCirculation (dailyMovementContinuities hash dailyPlan (riChains inp))) (\<lambda>continuities.
     bnd (lift_error ReleaseCirculation (dailyRolloverCycles dailyPlan)) (\<lambda>cycles.
     bnd (lift_error ReleaseAllocation (allocateMovementRoutePlanV2 hash selectProtectionModeRuns dailyPlan continuities trains (movementRoutePlan templates) repeatEveryMs)) (\<lambda>allocated.
     bnd (lift_error ReleaseAllocation (case bind of None \<Rightarrow> Inr allocated | Some b \<Rightarrow> bindMovementPassengerStopPlansV1 b allocated trains)) (\<lambda>allocation.
     invariant (amPassengerTrainCount (alMetrics allocation) = length trains \<and>
         amDailyBoundaryCount (alMetrics allocation) = length (dpCirculations dailyPlan) \<and>
         amTransferCount (alMetrics allocation) = length (dpTransferDemands dailyPlan) \<and>
         length (concat cycles) = length (dpCirculations dailyPlan)) (ReleaseDrift ''Physische Movement-Zuweisung'')
       (Inr (repeatEveryMs, dailyPlan, allocation))))))))"

section \<open>Binding of stop plans\<close>

lemma bindStopPlan_keeps: "bindStopPlan b ps t = Inr t' \<Longrightarrow> pgId t' = pgId t"
  by (auto simp: bindStopPlan_def bnd_Inr invariant_Inr split: if_splits option.splits)

lemma bound_keeps:
  assumes "bindMovementPassengerStopPlansV1 b a trains = Inr a'"
  shows "map pgId (alProgramTrains a') = map pgId (alProgramTrains a) \<and> alContinuations a' = alContinuations a \<and> alReservations a' = alReservations a \<and>
    alAllocations a' = alAllocations a"
proof -
  obtain ps ts where "map_res (bindStopPlan b ps) (alProgramTrains a) = Inr ts" and a: "a' = a\<lparr>alProgramTrains := ts\<rparr>"
    using assms by (auto simp: bindMovementPassengerStopPlansV1_def bnd_Inr)
  then have "map pgId ts = map pgId (alProgramTrains a)" using map_res_ids [of _ _ _ pgId] bindStopPlan_keeps by blast
  then show ?thesis using a by simp
qed

end
