(* ===== verification/ReleaseProperties.thy ===== *)
theory ReleaseProperties
  imports ReleaseMovements MovementTemplatesOk MovementProperties
begin

text \<open>
  What the movements of a release guarantee, with a release of three
  trains where it is applied.
\<close>

section \<open>A release of three trains\<close>

text \<open>
  Two trains of one circulation and a third that is brought back to its start by a transfer over the day
  boundary. The digests join the short texts of what they are given, or are constant.
\<close>

fun release_hash :: "string \<Rightarrow> jsval \<Rightarrow> string" where
  "release_hash d (JObject kvs) = concat (map (\<lambda>(k, v). case v of JString s \<Rightarrow> if length s \<le> 6 then s @ ''.'' else [] | _ \<Rightarrow> []) kvs)"
| "release_hash d v = []"

definition release_lot :: string where
  "release_lot = ''lot-re-1-r1.route.RE 1.''"

definition release_version :: "string \<Rightarrow> string" where
  "release_version leg = ''route:gtfs:'' @ leg @ '':v1''"

definition release_end :: "string \<Rightarrow> string \<Rightarrow> int \<Rightarrow> endpoint" where
  "release_end leg place time = \<lparr>epLegId = leg, epRouteVersionId = release_version leg, epLocationId = place, epPhysicalStopId = place, epTimeS = time\<rparr>"

definition release_circulation :: "string \<Rightarrow> string list \<Rightarrow> endpoint \<Rightarrow> endpoint \<Rightarrow> circulation" where
  "release_circulation n trains s e =
     \<lparr>ccId = ''circulation-'' @ release_lot @ ''-'' @ n, ccLotId = release_lot, ccServiceLineId = ''line-re-1-r1.route.RE 1.'', ccAssetKey = release_lot,
      ccJourneyChainIds = trains, ccLegIds = map (\<lambda>t. t @ ''-leg'') trains, ccTrainRunIds = trains, ccStart = s, ccEnd = e\<rparr>"

definition release_circulations :: "circulation list" where
  "release_circulations =
     [release_circulation ''001'' [''c1'', ''c2''] (release_end ''c1-leg'' ''A'' 1000) (release_end ''c2-leg'' ''A'' 3400),
      release_circulation ''002'' [''c3''] (release_end ''c3-leg'' ''A'' 1500) (release_end ''c3-leg'' ''B'' 2500)]"

definition release_demand :: "string \<Rightarrow> nat \<Rightarrow> string \<Rightarrow> string \<Rightarrow> string \<Rightarrow> string \<Rightarrow> int \<Rightarrow> int \<Rightarrow> bool \<Rightarrow> demand" where
  "release_demand i c sourceLeg targetLeg source target earliestS latestS boundary =
     \<lparr>dmId = i, dmLotId = release_lot, dmAssetKey = release_lot, dmSourceCirculationId = ccId (release_circulations ! c),
      dmTargetCirculationId = ccId (release_circulations ! c), dmSourceLegId = sourceLeg, dmTargetLegId = targetLeg,
      dmSourceRouteVersionId = release_version sourceLeg, dmTargetRouteVersionId = release_version targetLeg, dmSourceLocationId = source,
      dmTargetLocationId = target, dmSourcePhysicalStopId = source, dmTargetPhysicalStopId = target, dmEarliestDepartureS = earliestS,
      dmLatestArrivalS = latestS, dmAvailableWindowS = latestS - earliestS, dmDailyBoundary = boundary\<rparr>"

definition release_transfer :: demand where
  "release_transfer = release_demand ''transfer-c3-leg.c3-leg.'' 1 ''c3-leg'' ''c3-leg'' ''B'' ''A'' 2800 87600 True"

definition release_plan :: daily_plan where
  "release_plan =
     \<lparr>dpSchema = DAILY_CIRCULATION_PLAN_SCHEMA, dpRule = DAILY_CIRCULATION_RULE, dpGtfsReleaseId = ''r1'', dpRepeatEveryS = 86400,
      dpMinimumTurnaroundS = 300, dpMetrics = \<lparr>lotCount = 1, journeyChainCount = 3, circulationCount = 2, rolloverAssignmentCount = 2,
        plannedTransitionCount = 3, turnaroundDemandCount = 2, transferDemandCount = 1, transferLotCount = 1\<rparr>,
      dpCirculations = release_circulations,
      dpRolloverAssignments = map (\<lambda>(c, kind). \<lparr>roSourceCirculationId = ccId (release_circulations ! c), roTargetCirculationId = ccId (release_circulations ! c),
        roKind = kind\<rparr>) [(0, ''same-location''), (1, ''transfer'')],
      dpTurnaroundDemands = [release_demand ''turnaround-c1-leg.c2-leg.'' 0 ''c1-leg'' ''c2-leg'' ''B'' ''B'' 2000 2400 False,
        release_demand ''turnaround-c2-leg.c1-leg.'' 0 ''c2-leg'' ''c1-leg'' ''A'' ''A'' 3400 87400 True],
      dpTransferDemands = [release_transfer], dpPlanSha256 = ''r1.''\<rparr>"

definition release_route :: jsval where
  "release_route = (case transferJson release_transfer of
     JObject kvs \<Rightarrow> JObject (filter (\<lambda>(k, v). k \<notin> {''sourcePassengerRouteVersionId'', ''targetPassengerRouteVersionId''}) kvs @
       [(''sourcePassengerRouteVersionId'', JString (release_version ''c3-leg'')), (''targetPassengerRouteVersionId'', JString (release_version ''c3-leg'')),
        (''formationLengthsMm'', JArray [JInt 60]), (''routeVersionId'', JString ''t''), (''templateId'', JString ''t''), (''legs'', JArray [JString ''e'']),
        (''totalLengthMm'', JInt 1), (''weightedCostMm'', JInt 1), (''minimumRuntimeMs'', JInt 60000)])
   | v \<Rightarrow> v)"

definition release_transfer_artifact :: jsval where
  "release_transfer_artifact =
     JObject [(''schema'', JString ''zugfolge-timetable-transfer-demands/v2''), (''infraReleaseId'', JString ''infra''), (''gtfsSnapshotHash'', JString ''g''),
       (''dailyPlan'', dailyPlanJson release_plan), (''formationLengthsMm'', JArray [JInt 60]), (''transferRoutes'', JArray [release_route]),
       (''transferSetSha256'', JString template_hash)]"

definition release_transfer_binding :: jsval where
  "release_transfer_binding = JObject [(''transferSetSha256'', JString template_hash), (''dailyPlanSha256'', JString ''r1.'')]"

abbreviation release_transfer_plan :: "transfer_plan_error + transfer_plan" where
  "release_transfer_plan \<equiv> validateTimetableTransferDemandsArtifact template_sha release_hash id release_transfer_artifact release_transfer_binding
     ''infra'' ''g'' sample_chains sample_stops ''r1''"

definition release_dispatch :: "string \<Rightarrow> string \<Rightarrow> string \<Rightarrow> jsval" where
  "release_dispatch version before continuity =
     JObject [(''routeVersionId'', JString version), (''predecessorBaseRouteVersionId'', JString before), (''dispatchInterlockingRouteId'', JString ''i''),
       (''headRouteMm'', JInt 60), (''minimumRuntimeMs'', JInt 60000), (''resourceIds'', JArray [JString (''r-'' @ version)]), (''routeLegCount'', JInt 1),
       (''protectionContractRuns'', JArray [JObject [(''throughRouteLegIndex'', JInt 0), (''availableProtectionSystems'', JArray [JString ''pzb'']),
         (''simultaneouslyRequiredProtectionSystems'', JArray [])]]), (''continuity'', JString continuity)]"

definition release_window :: "string \<Rightarrow> string \<Rightarrow> string \<Rightarrow> string \<Rightarrow> string \<Rightarrow> int \<Rightarrow> int \<Rightarrow> bool \<Rightarrow> (string \<times> jsval) list" where
  "release_window i demandId inboundLeg outboundLeg place earliestS latestS boundary =
     [(''id'', JString i), (''demandId'', JString demandId), (''inboundRouteVersionId'', JString (release_version inboundLeg)),
      (''outboundRouteVersionId'', JString (release_version outboundLeg)), (''locationId'', JString place), (''physicalStopId'', JString place),
      (''earliestDepartureS'', JInt earliestS), (''latestArrivalS'', JInt latestS), (''availableWindowS'', JInt (latestS - earliestS)),
      (''dailyBoundary'', JBool boundary), (''formationLengthMm'', JInt 60),
      (''terminalIntervals'', JArray [JObject [(''edgeId'', JString (''e-'' @ place)), (''fromMm'', JInt 0), (''toMm'', JInt 60)]])]"

definition release_direct :: jsval where
  "release_direct = JObject (release_window ''d'' ''turnaround-c1-leg.c2-leg.'' ''c1-leg'' ''c2-leg'' ''B'' 2000 2400 False @
     [(''movementKind'', JString ''train''), (''continuity'', JString ''reverse-direction''), (''maximumDwellMs'', JInt 1200000),
      (''resourceIds'', JArray [JString ''r-B'']), (''resourceSetSha256'', JString template_hash), (''through'', JNull),
      (''outbound'', release_dispatch ''o1'' (release_version ''c1-leg'') ''reverse-direction'')])"

definition release_stabling :: jsval where
  "release_stabling = JObject (release_window ''s'' ''turnaround-c2-leg.c1-leg.'' ''c2-leg'' ''c1-leg'' ''A'' 3400 87400 True @
     [(''terminalEdgeId'', JString ''e-A''), (''terminalNodeId'', JInt 7), (''inboundDirection'', JString ''along''),
      (''outboundDirection'', JString ''against''), (''candidateRank'', JInt 0), (''stablingPathLengthMm'', JInt 60),
      (''stablingKind'', JString ''shared-berth''), (''arrivalBerthAssignment'', template_assignment),
      (''departureBerthAssignment'', template_assignment), (''shuntIn'', release_dispatch ''si'' (release_version ''c2-leg'') ''same-direction''),
      (''arrivalBerth'', template_berth), (''berthTransfer'', JNull), (''berthTransferProvenance'', JNull),
      (''departureBerth'', template_berth), (''shuntOut'', release_dispatch ''so'' ''si'' ''reverse-direction''),
      (''outbound'', release_dispatch ''o2'' ''so'' ''same-direction'')])"

definition release_transfer_template :: jsval where
  "release_transfer_template =
     JObject [(''id'', JString ''t''), (''demandId'', JString ''transfer-c3-leg.c3-leg.''), (''formationLengthMm'', JInt 60),
       (''sourcePassengerRouteVersionId'', JString (release_version ''c3-leg'')), (''targetPassengerRouteVersionId'', JString (release_version ''c3-leg'')),
       (''sourceLocationId'', JString ''B''), (''targetLocationId'', JString ''A''), (''earliestDepartureS'', JInt 2800), (''latestArrivalS'', JInt 87600),
       (''availableWindowS'', JInt 84800), (''dailyBoundary'', JBool True), (''movementKind'', JString ''train''),
       (''transfer'', release_dispatch ''tr'' (release_version ''c3-leg'') ''same-direction''),
       (''targetOutbound'', release_dispatch ''o3'' ''tr'' ''same-direction''), (''resourceIds'', JArray [JString ''r-tr'']),
       (''resourceSetSha256'', JString template_hash)]"

definition release_template_artifact :: jsval where
  "release_template_artifact =
     JObject [(''schema'', JString MOVEMENT_ROUTE_TEMPLATES_SCHEMA), (''infraReleaseId'', JString ''infra''),
       (''operationalStateHash'', JString template_hash), (''timetableTransferSetSha256'', JString template_hash),
       (''directTemplates'', JArray [release_direct]), (''templates'', JArray [release_stabling]), (''transferTemplates'', JArray [release_transfer_template]),
       (''metrics'', JObject [(''directTemplateCount'', JInt 1), (''stablingTemplateCount'', JInt 1), (''transferTemplateCount'', JInt 1),
          (''transferDemandCount'', JInt 1), (''turnaroundDemandCount'', JInt 2), (''plannedTransitionCount'', JInt 3),
          (''turnaroundPairCount'', JInt 1), (''observedStablingTemplateCount'', JInt 1), (''simulatedOperationalStablingTemplateCount'', JInt 0),
          (''crossBerthTemplateCount'', JInt 0), (''berthAssignmentCounts'', JObject [(''observedOsmServiceSiding'', JInt 1),
             (''simulatedOperationalOsmServiceYard'', JInt 0), (''simulatedOperationalOsmServiceSpur'', JInt 0),
             (''simulatedOperationalOsmUnclassifiedRail'', JInt 0)])]),
       (''stateHash'', JString template_hash)]"

definition release_train :: "string \<Rightarrow> string \<Rightarrow> int \<Rightarrow> passenger_train" where
  "release_train t number departureMs =
     \<lparr>ptrTrainRunId = Some t, ptrId = None, ptrTrainNumber = number, ptrOperatorId = Some ''op'', ptrOperator = None,
      ptrBaseRouteVersionId = Some (release_version (t @ ''-leg'')), ptrRouteVersionId = None, ptrFormationVersionId = ''f'', ptrFormationLengthMm = 60,
      ptrInstalledProtection = [''pzb''], ptrScheduledDepartureMs = departureMs\<rparr>"

definition release_trains :: "passenger_train list" where
  "release_trains = [release_train ''c1'' ''RE 1'' 1000000, release_train ''c2'' ''RE 2'' 2400000, release_train ''c3'' ''RE 3'' 1500000]"

definition release_plan_and_routes :: transfer_plan where
  "release_plan_and_routes = \<lparr>tpDailyPlan = release_plan, tpFormationLengthsMm = [60],
     tpTransferRoutes = [\<lparr>trId = dmId release_transfer, trSourcePassengerRouteVersionId = release_version ''c3-leg'',
       trTargetPassengerRouteVersionId = release_version ''c3-leg''\<rparr>], tpTransferSetSha256 = template_hash\<rparr>"

definition three_trains :: release_inputs where
  "three_trains = \<lparr>riTransferArtifact = release_transfer_artifact, riTransferBinding = release_transfer_binding,
     riTemplateArtifact = release_template_artifact, riTemplateBinding = template_binding, riInfraReleaseId = ''infra'', riStateHash = template_hash,
     riGtfsSnapshotHash = ''g'', riGtfsReleaseId = ''r1'', riChains = sample_chains, riStations = sample_stops, riRegionalTrains = release_trains,
     riRepeatEveryS = 86400\<rparr>"


definition release_dispatched :: "string \<Rightarrow> string \<Rightarrow> string \<Rightarrow> dispatch_route" where
  "release_dispatched version before continuity =
     \<lparr>drRouteVersionId = version, drPredecessorBaseRouteVersionId = before, drDispatchInterlockingRouteId = ''i'', drHeadRouteMm = 60,
      drMinimumRuntimeMs = 60000, drResourceIds = [''r-'' @ version], drRouteLegCount = 1,
      drProtectionContractRuns = [\<lparr>prThroughRouteLegIndex = 0, prAvailableProtectionSystems = [''pzb''],
        prSimultaneouslyRequiredProtectionSystems = []\<rparr>],
      drContinuity = continuity, drMovementKind = None\<rparr>"

definition release_terminal :: "string \<Rightarrow> track_interval list" where
  "release_terminal place = [\<lparr>ivEdgeId = ''e-'' @ place, ivFromMm = 0, ivToMm = 60\<rparr>]"

definition release_berth :: berth where
  "release_berth = \<lparr>ivEdgeId = ''b'', ivFromMm = 10, ivToMm = 70, beEdgeLengthMm = 80, beLeftClearanceMm = 10, beRightClearanceMm = 10\<rparr>"

definition release_route_plan :: movement_route_plan where
  "release_route_plan =
     \<lparr>mrDirectTemplates = [\<lparr>dtId = ''d'', dtInboundRouteVersionId = release_version ''c1-leg'', dtOutboundRouteVersionId = release_version ''c2-leg'',
        dtFormationLengthMm = 60, dtTerminalIntervals = release_terminal ''B'', dtResourceIds = [''r-B''], dtThrough = None,
        dtOutbound = release_dispatched ''o1'' (release_version ''c1-leg'') ''reverse-direction''\<rparr>],
      mrTemplates = [\<lparr>slId = ''s'', slInboundRouteVersionId = release_version ''c2-leg'', slOutboundRouteVersionId = release_version ''c1-leg'',
        slFormationLengthMm = 60, slCandidateRank = 0, slTerminalIntervals = release_terminal ''A'', slStablingKind = ''shared-berth'',
        slHasLegacyBerth = False, slShuntIn = release_dispatched ''si'' (release_version ''c2-leg'') ''same-direction'',
        slArrivalBerth = release_berth, slBerthTransfer = None, slDepartureBerth = release_berth,
        slShuntOut = release_dispatched ''so'' ''si'' ''reverse-direction'', slOutbound = release_dispatched ''o2'' ''so'' ''same-direction''\<rparr>],
      mrTransferTemplates = [\<lparr>ttId = ''t'', ttDemandId = ''transfer-c3-leg.c3-leg.'', ttFormationLengthMm = 60,
        ttSourcePassengerRouteVersionId = release_version ''c3-leg'', ttTargetPassengerRouteVersionId = release_version ''c3-leg'',
        ttEarliestDepartureS = 2800, ttLatestArrivalS = 87600, ttMovementKind = ''train'',
        ttTransfer = release_dispatched ''tr'' (release_version ''c3-leg'') ''same-direction'',
        ttTargetOutbound = release_dispatched ''o3'' ''tr'' ''same-direction'', ttResourceIds = [''r-tr'']\<rparr>]\<rparr>"

lemma release_reproduced:
  "reproducedPlan release_hash id (dailyPlanJson release_plan) sample_chains sample_stops ''r1'' = Inr release_plan"
  by code_simp

lemma release_accepted:
  "acceptRoute (JArray [JInt 60]) [(dmId release_transfer, release_transfer)] release_route [] = Inr (tpTransferRoutes release_plan_and_routes)"
  by code_simp

lemma release_lists:
  "case templateLists template_sha release_template_artifact release_plan_and_routes of Inl e \<Rightarrow> False
   | Inr (directs, templates, transfers) \<Rightarrow>
       \<lparr>mrDirectTemplates = map direct_template.truncate directs, mrTemplates = map stabling_template.truncate templates,
        mrTransferTemplates = map transfer_template.truncate transfers\<rparr> = release_route_plan"
  by code_simp

lemma release_allocated:
  "case dailyMovementContinuities release_hash release_plan sample_chains of Inl e \<Rightarrow> False
   | Inr cs \<Rightarrow> (case allocateMovementRoutePlanV2 release_hash selectProtectionModeRuns release_plan cs release_trains release_route_plan day_ms of
       Inl e \<Rightarrow> False | Inr a \<Rightarrow> alMetrics a =
         \<lparr>amPassengerTrainCount = 3, amMovementTrainCount = 3, amDirectCount = 1, amThroughCount = 0, amStablingCount = 1, amTransferCount = 1,
          amDailyBoundaryCount = 2, amReservationCount = 7\<rparr>)"
  by code_simp

lemma release_cycles:
  "case dailyRolloverCycles release_plan of Inl e \<Rightarrow> False | Inr cs \<Rightarrow> length (concat cs) = 2"
  by code_simp

lemma release_plain:
  "plain (JObject [(''schema'', JString MOVEMENT_ROUTE_TEMPLATES_SCHEMA), (''value'', withoutStateHash release_template_artifact)])"
  "plain (dailyPlanJson release_plan)"
  "plain release_route"
  by code_simp+


lemma release_transfer_fields:
  "transferKeys release_transfer_artifact [''schema'', ''infraReleaseId'', ''gtfsSnapshotHash'', ''dailyPlan'', ''formationLengthsMm'', ''transferRoutes'',
     ''transferSetSha256''] ''Timetable-Transferplan'' = Inr ()"
  "jprop (dailyPlanJson release_plan) ''schema'' = JString DAILY_CIRCULATION_PLAN_SCHEMA"
  "isArray (jprop (dailyPlanJson release_plan) ''rolloverAssignments'')"
  "isArray (jprop (dailyPlanJson release_plan) ''transferDemands'')"
  "jprop (dailyPlanJson release_plan) ''planSha256'' = JString ''r1.''"
  by code_simp+

lemma release_transfer_parts:
  "jprop release_transfer_artifact ''schema'' = JString ''zugfolge-timetable-transfer-demands/v2''"
  "jprop release_transfer_artifact ''infraReleaseId'' = JString ''infra''"
  "jprop release_transfer_artifact ''gtfsSnapshotHash'' = JString ''g''"
  "jprop release_transfer_artifact ''dailyPlan'' = dailyPlanJson release_plan"
  "jprop release_transfer_artifact ''formationLengthsMm'' = JArray [JInt 60]"
  "jprop release_transfer_artifact ''transferRoutes'' = JArray [release_route]"
  "jprop release_transfer_artifact ''transferSetSha256'' = JString template_hash"
  "jprop release_transfer_binding ''transferSetSha256'' = JString template_hash"
  "jprop release_transfer_binding ''dailyPlanSha256'' = JString ''r1.''"
  by (simp_all add: release_transfer_artifact_def release_transfer_binding_def)

lemma release_transfer_accepted: "release_transfer_plan = Inr release_plan_and_routes"
proof -
  obtain t r where t: "transferText (dailyPlanJson release_plan) = Inr t" and r: "transferText release_route = Inr r"
    using canonical_total [OF release_plain(2)] canonical_total [OF release_plain(3)] by (auto simp: transferText_def)
  have "transferSetHash template_sha [release_route] = Inr template_hash" by (simp add: transferSetHash_def r bnd_def)
  moreover have "map_from (map (\<lambda>d. (dmId d, d)) (dpTransferDemands release_plan)) = [(dmId release_transfer, release_transfer)]"
    "dpPlanSha256 release_plan = ''r1.''"
    by (simp_all add: release_plan_def map_from_def)
  moreover have "\<lparr>tpDailyPlan = release_plan, tpFormationLengthsMm = [60], tpTransferRoutes = tpTransferRoutes release_plan_and_routes,
      tpTransferSetSha256 = template_hash\<rparr> = release_plan_and_routes" "length (tpTransferRoutes release_plan_and_routes) = 1"
    by (simp_all add: release_plan_and_routes_def)
  ultimately show ?thesis using t release_reproduced release_accepted release_transfer_fields
    by (simp add: validateTimetableTransferDemandsArtifact_def Let_def bnd_def invariant_def release_transfer_parts is_safe_def)
qed

lemma release_templates:
  obtains v where "validateMovementRouteTemplatesV2 template_sha release_template_artifact template_binding ''infra'' template_hash release_plan_and_routes = Inr v"
    "movementRoutePlan v = release_route_plan"
proof -
  obtain t where "canonicalText (JObject [(''schema'', JString MOVEMENT_ROUTE_TEMPLATES_SCHEMA), (''value'', withoutStateHash release_template_artifact)]) = Inr t"
    using canonical_total [OF release_plain(1)] by (auto simp: canonicalText_Inr)
  moreover have "templateKeys release_template_artifact [''schema'', ''infraReleaseId'', ''operationalStateHash'', ''timetableTransferSetSha256'',
      ''directTemplates'', ''templates'', ''transferTemplates'', ''metrics'', ''stateHash''] ''Movement-Route-Templates-v2'' = Inr ()"
    "templateKeys template_binding [''file'', ''bytes'', ''sha256'', ''stateHash'', ''operationalStateHash'', ''timetableTransferSetSha256''] ''Bindung'' = Inr ()"
    "bindingAgrees release_template_artifact template_binding ''infra'' template_hash release_plan_and_routes"
    by code_simp+
  moreover obtain directs templates transfers where
    "templateLists template_sha release_template_artifact release_plan_and_routes = Inr (directs, templates, transfers)"
    "\<lparr>mrDirectTemplates = map direct_template.truncate directs, mrTemplates = map stabling_template.truncate templates,
      mrTransferTemplates = map transfer_template.truncate transfers\<rparr> = release_route_plan"
    using release_lists by (auto split: sum.splits)
  ultimately show ?thesis using that template_binding_ok(1)
    by (simp add: validateMovementRouteTemplatesV2_def movementRoutePlan_def Let_def bnd_def invariant_def release_template_artifact_def template_binding_def
        templateInteger_def is_safe_def)
qed

lemma release_moves:
  "\<exists>a. releaseMovements template_sha release_hash id None three_trains = Inr (day_ms, release_plan, a) \<and>
     amReservationCount (alMetrics a) = 7"
proof -
  obtain v where v: "validateMovementRouteTemplatesV2 template_sha release_template_artifact template_binding ''infra'' template_hash release_plan_and_routes = Inr v"
    "movementRoutePlan v = release_route_plan"
    by (rule release_templates)
  obtain cs a where c: "dailyMovementContinuities release_hash release_plan sample_chains = Inr cs"
    and a: "allocateMovementRoutePlanV2 release_hash selectProtectionModeRuns release_plan cs release_trains release_route_plan day_ms = Inr a"
    and m: "alMetrics a = \<lparr>amPassengerTrainCount = 3, amMovementTrainCount = 3, amDirectCount = 1, amThroughCount = 0, amStablingCount = 1,
      amTransferCount = 1, amDailyBoundaryCount = 2, amReservationCount = 7\<rparr>"
    using release_allocated by (auto split: sum.splits)
  obtain cycles where "dailyRolloverCycles release_plan = Inr cycles" "length (concat cycles) = 2"
    using release_cycles by (auto split: sum.splits)
  moreover have "jprop template_binding ''timetableTransferSetSha256'' = JString template_hash" by (simp add: template_binding_def)
  moreover have "tpTransferSetSha256 release_plan_and_routes = template_hash" "tpDailyPlan release_plan_and_routes = release_plan"
    by (simp_all add: release_plan_and_routes_def)
  moreover have "length release_trains = 3" "length (dpCirculations release_plan) = 2" "length (dpTransferDemands release_plan) = 1"
    by (simp_all add: release_trains_def release_plan_def release_circulations_def)
  moreover have "repeatEveryMsOf 86400 = Inr day_ms" by code_simp
  ultimately show ?thesis using v c a m release_transfer_accepted
    by (simp add: releaseMovements_def releaseRoutes_def three_trains_def lift_error_def Let_def bnd_def invariant_def)
qed

section \<open>The properties\<close>

text \<open>C21: A release whose movements are accepted can be run physically day after day. Its daily plan is the one derived from the signed
  timetable; no two reservations of its movements ever conflict, in whatever repetition of the day; its trains, passenger and
  movement, form one permutation of continuations; and every continuity of the day is allocated exactly once.\<close>

theorem released_movements_run_forever:
  assumes "releaseMovements sha256 hash canonical bind inp = Inr (T, dailyPlan, a)" and "T \<le> 2 ^ 50"
  shows "conflict_free T (alReservations a) \<and>
    mset (map cePredecessorTrainId (alContinuations a)) = mset (map pgId (alProgramTrains a)) \<and>
    mset (map ceSuccessorTrainId (alContinuations a)) = mset (map pgId (alProgramTrains a)) \<and>
    (\<exists>opts continuities. deriveDailyCirculationPlan hash canonical (riChains inp) (riStations inp) opts = Inr dailyPlan \<and>
       dailyMovementContinuities hash dailyPlan (riChains inp) = Inr continuities \<and>
       mset (map maContinuityId (alAllocations a)) = mset (map cnId continuities))"
proof -
  obtain plan templates continuities allocated where
    t: "validateTimetableTransferDemandsArtifact sha256 hash canonical (riTransferArtifact inp) (riTransferBinding inp)
            (riInfraReleaseId inp) (riGtfsSnapshotHash inp) (riChains inp) (riStations inp) (riGtfsReleaseId inp) = Inr plan"
    and v: "validateMovementRouteTemplatesV2 sha256 (riTemplateArtifact inp) (riTemplateBinding inp) (riInfraReleaseId inp) (riStateHash inp) plan = Inr templates"
    and c: "dailyMovementContinuities hash dailyPlan (riChains inp) = Inr continuities" and p: "dailyPlan = tpDailyPlan plan"
    and al: "allocateMovementRoutePlanV2 hash selectProtectionModeRuns dailyPlan continuities (riRegionalTrains inp) (movementRoutePlan templates) T = Inr allocated"
    and b: "(case bind of None \<Rightarrow> Inr allocated | Some b \<Rightarrow> bindMovementPassengerStopPlansV1 b allocated (riRegionalTrains inp)) = Inr a"
    using assms(1) by (auto simp: releaseMovements_def releaseRoutes_def Let_def bnd_Inr invariant_Inr lift_error_Inr repeatEveryMsOf_def)
  note d = accepted_plan [OF t]
  have "plan_ok (movementRoutePlan templates)" using validated_well_formed [OF v] d by blast
  note f = allocation_free [OF al this assms(2)] and g = allocation_permuted [OF al]
  have k: "map pgId (alProgramTrains a) = map pgId (alProgramTrains allocated) \<and> alContinuations a = alContinuations allocated \<and>
      alReservations a = alReservations allocated \<and> alAllocations a = alAllocations allocated"
    using b bound_keeps by (auto split: option.splits)
  show ?thesis using f g k c d p by auto
qed

theorem released_movements_run_forever_witness:
  "\<exists>a. releaseMovements template_sha release_hash id None three_trains = Inr (day_ms, release_plan, a) \<and>
     amReservationCount (alMetrics a) = 7 \<and> conflict_free day_ms (alReservations a)"
proof -
  obtain a where a: "releaseMovements template_sha release_hash id None three_trains = Inr (day_ms, release_plan, a)"
      "amReservationCount (alMetrics a) = 7"
    using release_moves by blast
  have "day_ms \<le> 2 ^ 50" by (simp add: day_ms_def)
  then show ?thesis using released_movements_run_forever [OF a(1)] a by blast
qed

end
