(* ===== verification/WorldDb.thy ===== *)
theory WorldDb
  imports Decimal
begin

text \<open>
  The tables the platform packages (identity, operators, economy) share, after
  \<open>packages/db/src/schema\<close>. A table is the list of its rows in insertion order; \<open>insert\<close> checks the
  primary key, the unique indexes and the foreign keys of the schema and fails with the name of the
  constraint, as the database does. \<open>gen_random_uuid()\<close> is the function \<open>dbUuid\<close> of the number of
  identifiers drawn so far; nothing is assumed of its values, since a repeated one breaks the primary
  key. Columns no operation reads (\<open>created_at\<close> and the like, set by the clock of the database) are
  left out. A transaction that throws leaves the state of its caller: an error carries no state.
\<close>

datatype platform_error =
    ConstraintViolation string
  | PlainError string
  | AccessRevokedError string
  | AuthorizationError string
  | AccountNotFoundError string string
  | WorldContractAcceptanceConflictError string
  | NoAccountInWorldError string
  | DuplicateOperatorNameError string string
  | PublicWorldOperatorLimitError string
  | OperatorFoundationWorldInactiveError string
  | OperatorNotFoundError string string
  | DuplicateLedgerAccountNameError string string string
  | IncompleteTransactionError
  | UnbalancedTransactionError int
  | ForeignLedgerAccountError string
  | IdempotentLedgerContentConflictError string string string
  | RangeError string
  | StartingCapitalPolicyValidationError string

section \<open>Rows\<close>

datatype world_kind = PublicWorld | PrivateWorld

datatype world_lifecycle = Provisioning | WorldActive | Archived

record world_row =
  woId :: string
  woKind :: world_kind
  woLifecycle :: world_lifecycle
  woEpoch :: int

datatype access_status = AccessActive | AccessRevoked

record access_row =
  waWorldId :: string
  waSubject :: string
  waStatus :: access_status
  waContractHash :: "string option"
  waCapitalPolicy :: "jsval option"
  waAcceptedAt :: "int option"
  waRevokedAt :: "int option"

record account_row =
  acId :: string
  acWorldId :: string
  acSubject :: string
  acDisplayName :: string

datatype role = RolePlayer | RoleWorldAdmin

record role_row =
  rrWorldId :: string
  rrAccountId :: string
  rrRole :: role

record operator_row =
  opId :: string
  opWorldId :: string
  opFoundingAccountId :: string
  opName :: string

record ledger_account =
  laId :: string
  laWorldId :: string
  laOperatorId :: string
  laName :: string

record ledger_transaction =
  ltId :: string
  ltWorldId :: string
  ltOperatorId :: string
  ltIdempotencyKey :: "string option"
  ltDescription :: string
  ltPostedAt :: int

record ledger_entry =
  leId :: string
  leWorldId :: string
  leTransactionId :: string
  leAccountId :: string
  leAmountCents :: int
  leCostType :: "string option"
  leCostCentreId :: "string option"

record db =
  dbWorlds :: "world_row list"
  dbAccesses :: "access_row list"
  dbAccounts :: "account_row list"
  dbRoles :: "role_row list"
  dbOperators :: "operator_row list"
  dbLedgerAccounts :: "ledger_account list"
  dbLedgerTransactions :: "ledger_transaction list"
  dbLedgerEntries :: "ledger_entry list"
  dbUuid :: "nat \<Rightarrow> string"
  dbDraws :: nat

text \<open>The next generated identifier.\<close>

definition nextUuid :: "db \<Rightarrow> string" where
  "nextUuid d = dbUuid d (dbDraws d)"

definition worldExists :: "db \<Rightarrow> string \<Rightarrow> bool" where
  "worldExists d worldId \<longleftrightarrow> (\<exists>w \<in> set (dbWorlds d). woId w = worldId)"

section \<open>Insertions\<close>

text \<open>\<open>insert ... on conflict do nothing\<close> with no target: any violated unique index skips the row.\<close>

definition insertAccess :: "access_row \<Rightarrow> db \<Rightarrow> platform_error + db" where
  "insertAccess row d =
     (if \<exists>a \<in> set (dbAccesses d). waWorldId a = waWorldId row \<and> waSubject a = waSubject row then Inr d
      else invariant (worldExists d (waWorldId row)) (ConstraintViolation ''world_accesses_world_id'')
        (Inr (d\<lparr>dbAccesses := dbAccesses d @ [row]\<rparr>)))"

definition insertAccount :: "string \<Rightarrow> string \<Rightarrow> string \<Rightarrow> db \<Rightarrow> platform_error + db" where
  "insertAccount worldId subject displayName d =
     (let row = \<lparr>acId = nextUuid d, acWorldId = worldId, acSubject = subject, acDisplayName = displayName\<rparr>;
          d' = d\<lparr>dbDraws := Suc (dbDraws d)\<rparr>
      in if \<exists>a \<in> set (dbAccounts d). acWorldId a = worldId \<and> acSubject a = subject \<or> acId a = acId row then Inr d'
         else invariant (worldExists d worldId) (ConstraintViolation ''accounts_world_id'')
           (Inr (d'\<lparr>dbAccounts := dbAccounts d @ [row]\<rparr>)))"

definition insertRole :: "string \<Rightarrow> string \<Rightarrow> role \<Rightarrow> db \<Rightarrow> platform_error + db" where
  "insertRole worldId accountId r d =
     (let row = \<lparr>rrWorldId = worldId, rrAccountId = accountId, rrRole = r\<rparr> in
      if row \<in> set (dbRoles d) then Inr d
      else invariant (\<exists>a \<in> set (dbAccounts d). acWorldId a = worldId \<and> acId a = accountId)
          (ConstraintViolation ''account_roles_world_account_fk'')
        (Inr (d\<lparr>dbRoles := dbRoles d @ [row]\<rparr>)))"

definition insertOperator :: "string \<Rightarrow> string \<Rightarrow> string \<Rightarrow> db \<Rightarrow> platform_error + operator_row \<times> db" where
  "insertOperator worldId foundingAccountId name d =
     (let row = \<lparr>opId = nextUuid d, opWorldId = worldId, opFoundingAccountId = foundingAccountId, opName = name\<rparr> in
      invariant (\<forall>p \<in> set (dbOperators d). opId p \<noteq> opId row) (ConstraintViolation ''operators_pkey'')
     (invariant (\<forall>p \<in> set (dbOperators d). \<not> (opWorldId p = worldId \<and> opName p = name))
        (ConstraintViolation ''operators_world_name_idx'')
     (invariant (\<exists>a \<in> set (dbAccounts d). acWorldId a = worldId \<and> acId a = foundingAccountId)
        (ConstraintViolation ''operators_world_account_fk'')
     (Inr (row, d\<lparr>dbOperators := dbOperators d @ [row], dbDraws := Suc (dbDraws d)\<rparr>)))))"

definition operatorExists :: "db \<Rightarrow> string \<Rightarrow> string \<Rightarrow> bool" where
  "operatorExists d worldId operatorId \<longleftrightarrow>
     (\<exists>p \<in> set (dbOperators d). opWorldId p = worldId \<and> opId p = operatorId)"

definition accountNameTaken :: "db \<Rightarrow> string \<Rightarrow> string \<Rightarrow> string \<Rightarrow> bool" where
  "accountNameTaken d worldId operatorId name \<longleftrightarrow> (\<exists>a \<in> set (dbLedgerAccounts d).
     laWorldId a = worldId \<and> laOperatorId a = operatorId \<and> laName a = name)"

definition insertLedgerAccount :: "string \<Rightarrow> string \<Rightarrow> string \<Rightarrow> db \<Rightarrow> platform_error + ledger_account \<times> db" where
  "insertLedgerAccount worldId operatorId name d =
     (let row = \<lparr>laId = nextUuid d, laWorldId = worldId, laOperatorId = operatorId, laName = name\<rparr> in
      invariant (\<forall>a \<in> set (dbLedgerAccounts d). laId a \<noteq> laId row) (ConstraintViolation ''ledger_accounts_pkey'')
     (invariant (\<not> accountNameTaken d worldId operatorId name)
        (ConstraintViolation ''ledger_accounts_world_operator_name_idx'')
     (invariant (operatorExists d worldId operatorId) (ConstraintViolation ''ledger_accounts_world_operator_fk'')
     (Inr (row, d\<lparr>dbLedgerAccounts := dbLedgerAccounts d @ [row], dbDraws := Suc (dbDraws d)\<rparr>)))))"

text \<open>A \<open>null\<close> key never conflicts.\<close>

definition keyTaken :: "db \<Rightarrow> string \<Rightarrow> string \<Rightarrow> string option \<Rightarrow> bool" where
  "keyTaken d worldId operatorId key \<longleftrightarrow> key \<noteq> None \<and> (\<exists>t \<in> set (dbLedgerTransactions d).
     ltWorldId t = worldId \<and> ltOperatorId t = operatorId \<and> ltIdempotencyKey t = key)"

definition insertLedgerTransaction ::
    "string \<Rightarrow> string \<Rightarrow> string option \<Rightarrow> string \<Rightarrow> int \<Rightarrow> db \<Rightarrow> platform_error + ledger_transaction \<times> db" where
  "insertLedgerTransaction worldId operatorId key description postedAt d =
     (let row = \<lparr>ltId = nextUuid d, ltWorldId = worldId, ltOperatorId = operatorId, ltIdempotencyKey = key,
           ltDescription = description, ltPostedAt = postedAt\<rparr> in
      invariant (\<forall>t \<in> set (dbLedgerTransactions d). ltId t \<noteq> ltId row) (ConstraintViolation ''ledger_transactions_pkey'')
     (invariant (\<not> keyTaken d worldId operatorId key)
        (ConstraintViolation ''ledger_transactions_world_operator_idempotency_idx'')
     (invariant (operatorExists d worldId operatorId) (ConstraintViolation ''ledger_transactions_world_operator_fk'')
     (Inr (row, d\<lparr>dbLedgerTransactions := dbLedgerTransactions d @ [row], dbDraws := Suc (dbDraws d)\<rparr>)))))"

text \<open>The column \<open>amount_cents\<close> is a \<open>bigint\<close>.\<close>

definition is_i64 :: "int \<Rightarrow> bool" where
  "is_i64 x \<longleftrightarrow> - (2 ^ 63) \<le> x \<and> x < 2 ^ 63"

text \<open>An entry to be inserted: account, amount, cost type and cost centre.\<close>

record entry_input =
  enAccountId :: string
  enAmountCents :: int
  enCostType :: "string option"
  enCostCentreId :: "string option"

text \<open>A nullable \<open>varchar(n)\<close> column.\<close>

definition fits :: "nat \<Rightarrow> string option \<Rightarrow> bool" where
  "fits n v = (case v of None \<Rightarrow> True | Some s \<Rightarrow> length s \<le> n)"

definition insertLedgerEntry :: "string \<Rightarrow> string \<Rightarrow> entry_input \<Rightarrow> db \<Rightarrow> platform_error + db" where
  "insertLedgerEntry worldId transactionId e d =
     (let row = \<lparr>leId = nextUuid d, leWorldId = worldId, leTransactionId = transactionId,
           leAccountId = enAccountId e, leAmountCents = enAmountCents e, leCostType = enCostType e,
           leCostCentreId = enCostCentreId e\<rparr> in
      invariant (is_i64 (enAmountCents e)) (ConstraintViolation ''bigint out of range'')
     (invariant (fits 32 (enCostType e) \<and> fits 128 (enCostCentreId e)) (ConstraintViolation ''value too long'')
     (invariant (\<forall>x \<in> set (dbLedgerEntries d). leId x \<noteq> leId row) (ConstraintViolation ''ledger_entries_pkey'')
     (invariant (\<exists>t \<in> set (dbLedgerTransactions d). ltWorldId t = worldId \<and> ltId t = transactionId)
        (ConstraintViolation ''ledger_entries_world_transaction_fk'')
     (invariant (\<exists>a \<in> set (dbLedgerAccounts d). laWorldId a = worldId \<and> laId a = enAccountId e)
        (ConstraintViolation ''ledger_entries_world_account_fk'')
     (Inr (d\<lparr>dbLedgerEntries := dbLedgerEntries d @ [row], dbDraws := Suc (dbDraws d)\<rparr>)))))))"

end
