(* ===== verification/Identity.thy ===== *)
theory Identity
  imports WorldDb
begin

text \<open>
  Accounts, roles and accesses to worlds, \<open>packages/identity/src/accounts.ts\<close>: the self-service
  access, its revocation, and the granting of roles with the bootstrap of the first administrator.
\<close>

section \<open>The accepted contract of a world\<close>

datatype capital_policy_choice = ChoiceFinite string | ChoiceUnlimited

record world_contract =
  wcHash :: string
  wcCapital :: capital_policy_choice

definition validateAcceptedWorldContract :: "world_contract \<Rightarrow> platform_error + unit" where
  "validateAcceptedWorldContract contract =
     invariant (hex64 (wcHash contract)) (PlainError ''contract hash'')
    (case wcCapital contract of
       ChoiceUnlimited \<Rightarrow> Inr ()
     | ChoiceFinite amount \<Rightarrow>
         invariant (digits amount \<and> bigint_of amount \<le> 9223372036854775807) (PlainError ''contract capital'') (Inr ()))"

text \<open>The policy as it is stored in the JSONB column.\<close>

definition capitalJson :: "capital_policy_choice \<Rightarrow> jsval" where
  "capitalJson p = (case p of
       ChoiceUnlimited \<Rightarrow> JObject [(''kind'', JString ''unlimited'')]
     | ChoiceFinite amount \<Rightarrow> JObject [(''kind'', JString ''finite''), (''amountCents'', JString amount)])"

definition sameStartingCapitalPolicy :: "jsval \<Rightarrow> capital_policy_choice \<Rightarrow> bool" where
  "sameStartingCapitalPolicy left right \<longleftrightarrow> isRecord left \<and>
     (case right of
        ChoiceUnlimited \<Rightarrow> jprop left ''kind'' = JString ''unlimited'' \<and> length (object_keys left) = 1
      | ChoiceFinite amount \<Rightarrow> jprop left ''kind'' = JString ''finite'' \<and>
          jprop left ''amountCents'' = JString amount \<and> length (object_keys left) = 2)"

text \<open>The check constraint of the column: at most 19 digits, and those at most \<open>2^63 - 1\<close>.\<close>

definition storable :: "capital_policy_choice \<Rightarrow> bool" where
  "storable p = (case p of ChoiceUnlimited \<Rightarrow> True
     | ChoiceFinite amount \<Rightarrow> digits amount \<and> length amount \<le> 19 \<and>
         (length amount < 19 \<or> amount \<le> ''9223372036854775807''))"

section \<open>Finding accounts\<close>

record account_record =
  arAccount :: account_row
  arRoles :: "role list"

definition rolesOf :: "db \<Rightarrow> string \<Rightarrow> string \<Rightarrow> role list" where
  "rolesOf d worldId accountId =
     map rrRole (filter (\<lambda>r. rrWorldId r = worldId \<and> rrAccountId r = accountId) (dbRoles d))"

definition findAccess :: "db \<Rightarrow> string \<Rightarrow> string \<Rightarrow> access_row option" where
  "findAccess d worldId subject = find (\<lambda>a. waWorldId a = worldId \<and> waSubject a = subject) (dbAccesses d)"

definition accountRow :: "db \<Rightarrow> string \<Rightarrow> string \<Rightarrow> account_row option" where
  "accountRow d worldId subject = find (\<lambda>a. acWorldId a = worldId \<and> acSubject a = subject) (dbAccounts d)"

definition withRoles :: "db \<Rightarrow> string \<Rightarrow> account_row \<Rightarrow> account_record" where
  "withRoles d worldId a = \<lparr>arAccount = a, arRoles = rolesOf d worldId (acId a)\<rparr>"

definition findAccount ::
    "db \<Rightarrow> string \<Rightarrow> string \<Rightarrow> bool \<Rightarrow> platform_error + account_record option" where
  "findAccount d worldId subject requireActiveAccess =
     (let row = map_option (withRoles d worldId) (accountRow d worldId subject) in
      if requireActiveAccess then
        (case findAccess d worldId subject of
           None \<Rightarrow> Inr None
         | Some a \<Rightarrow> if waStatus a = AccessRevoked then Inl (AccessRevokedError worldId) else Inr row)
      else Inr row)"

definition getAccount :: "db \<Rightarrow> string \<Rightarrow> string \<Rightarrow> platform_error + account_record option" where
  "getAccount d worldId subject = findAccount d worldId subject True"

definition getAccountIncludingRevoked :: "db \<Rightarrow> string \<Rightarrow> string \<Rightarrow> platform_error + account_record option" where
  "getAccountIncludingRevoked d worldId subject = findAccount d worldId subject False"

section \<open>Requesting access\<close>

definition newAccess :: "string \<Rightarrow> string \<Rightarrow> world_contract option \<Rightarrow> int \<Rightarrow> access_row" where
  "newAccess worldId subject contract now =
     \<lparr>waWorldId = worldId, waSubject = subject, waStatus = AccessActive,
      waContractHash = map_option wcHash contract, waCapitalPolicy = map_option (capitalJson \<circ> wcCapital) contract,
      waAcceptedAt = map_option (\<lambda>_. now) contract, waRevokedAt = None\<rparr>"

definition acceptContract :: "world_contract \<Rightarrow> int \<Rightarrow> access_row \<Rightarrow> access_row" where
  "acceptContract contract now a =
     a\<lparr>waContractHash := Some (wcHash contract), waCapitalPolicy := Some (capitalJson (wcCapital contract)),
       waAcceptedAt := Some now\<rparr>"

definition storeContract :: "string \<Rightarrow> string \<Rightarrow> world_contract \<Rightarrow> int \<Rightarrow> db \<Rightarrow> db" where
  "storeContract worldId subject contract now d =
     d\<lparr>dbAccesses := map (\<lambda>a. if waWorldId a = worldId \<and> waSubject a = subject \<and> waContractHash a = None
        then acceptContract contract now a else a) (dbAccesses d)\<rparr>"

text \<open>The access row of the request: inserted, completed by the contract, or left as it is.\<close>

definition ensureAccess ::
    "string \<Rightarrow> string \<Rightarrow> world_contract option \<Rightarrow> int \<Rightarrow> db \<Rightarrow> platform_error + db" where
  "ensureAccess worldId subject contract now d =
     (let checked = (\<lambda>k. case contract of
            None \<Rightarrow> k
          | Some c \<Rightarrow> invariant (storable (wcCapital c)) (ConstraintViolation ''world_accesses_starting_capital_policy_check'') k)
      in case findAccess d worldId subject of
           None \<Rightarrow> checked (insertAccess (newAccess worldId subject contract now) d)
         | Some a \<Rightarrow>
             if waStatus a = AccessRevoked then Inl (AccessRevokedError worldId)
             else (case contract of
                     Some c \<Rightarrow> if waContractHash a = None then checked (Inr (storeContract worldId subject c now d)) else Inr d
                   | None \<Rightarrow> Inr d))"

definition checkContract :: "string \<Rightarrow> string \<Rightarrow> world_contract option \<Rightarrow> db \<Rightarrow> platform_error + unit" where
  "checkContract worldId subject contract d =
     (case contract of
        None \<Rightarrow> Inr ()
      | Some c \<Rightarrow>
          invariant (case findAccess d worldId subject of None \<Rightarrow> False
            | Some a \<Rightarrow> waContractHash a = Some (wcHash c) \<and>
                (case waCapitalPolicy a of None \<Rightarrow> False | Some p \<Rightarrow> sameStartingCapitalPolicy p (wcCapital c)))
            (WorldContractAcceptanceConflictError worldId) (Inr ()))"

definition requestWorldAccess ::
    "string \<Rightarrow> string \<Rightarrow> string \<Rightarrow> world_contract option \<Rightarrow> int \<Rightarrow> db \<Rightarrow> platform_error + account_record \<times> db" where
  "requestWorldAccess worldId subject displayName contract now d =
     bnd (case contract of None \<Rightarrow> Inr () | Some c \<Rightarrow> validateAcceptedWorldContract c) (\<lambda>_.
     bnd (ensureAccess worldId subject contract now d) (\<lambda>d1.
     bnd (checkContract worldId subject contract d1) (\<lambda>_.
     bnd (insertAccount worldId subject displayName d1) (\<lambda>d2.
     bnd (findAccount d2 worldId subject True) (\<lambda>found.
     case found of
       None \<Rightarrow> Inl (PlainError ''account'')
     | Some r \<Rightarrow>
         if RolePlayer \<in> set (arRoles r) then Inr (r, d2)
         else bnd (insertRole worldId (acId (arAccount r)) RolePlayer d2) (\<lambda>d3.
           Inr (r\<lparr>arRoles := arRoles r @ [RolePlayer]\<rparr>, d3)))))))"

text \<open>The statements of a request run one by one, outside a transaction: what a failed request leaves behind.\<close>

definition failedRequest :: "string \<Rightarrow> string \<Rightarrow> string \<Rightarrow> world_contract option \<Rightarrow> int \<Rightarrow> db \<Rightarrow> db" where
  "failedRequest worldId subject displayName contract now d =
     (case (case contract of None \<Rightarrow> Inr () | Some c \<Rightarrow> validateAcceptedWorldContract c) of Inl e \<Rightarrow> d | Inr _ \<Rightarrow>
     (case ensureAccess worldId subject contract now d of Inl e \<Rightarrow> d | Inr d1 \<Rightarrow>
     (case checkContract worldId subject contract d1 of Inl e \<Rightarrow> d1 | Inr _ \<Rightarrow>
     (case insertAccount worldId subject displayName d1 of Inl e \<Rightarrow> d1 | Inr d2 \<Rightarrow> d2))))"

section \<open>Administration\<close>

definition adminsOf :: "db \<Rightarrow> string \<Rightarrow> role_row list" where
  "adminsOf d worldId = filter (\<lambda>r. rrWorldId r = worldId \<and> rrRole r = RoleWorldAdmin) (dbRoles d)"

definition requireWorldAdmin :: "db \<Rightarrow> string \<Rightarrow> string \<Rightarrow> string option \<Rightarrow> platform_error + unit" where
  "requireWorldAdmin d worldId subject bootstrapTargetAccountId =
     bnd (findAccount d worldId subject True) (\<lambda>found.
     case found of
       None \<Rightarrow> Inl (AuthorizationError worldId)
     | Some acting \<Rightarrow>
         invariant (RoleWorldAdmin \<in> set (arRoles acting)
           \<or> bootstrapTargetAccountId = Some (acId (arAccount acting)) \<and> adminsOf d worldId = [])
           (AuthorizationError worldId) (Inr ()))"

definition revokeRow :: "string \<Rightarrow> string \<Rightarrow> int \<Rightarrow> access_row \<Rightarrow> access_row" where
  "revokeRow worldId subject now a =
     (if waWorldId a = worldId \<and> waSubject a = subject \<and> waStatus a = AccessActive
      then a\<lparr>waStatus := AccessRevoked, waRevokedAt := Some now\<rparr> else a)"

definition revokeWorldAccess :: "string \<Rightarrow> string \<Rightarrow> string \<Rightarrow> int \<Rightarrow> db \<Rightarrow> platform_error + db" where
  "revokeWorldAccess worldId target acting now d =
     bnd (if acting \<noteq> target then requireWorldAdmin d worldId acting None else Inr ()) (\<lambda>_.
     Inr (d\<lparr>dbAccesses := map (revokeRow worldId target now) (dbAccesses d)\<rparr>))"

definition grantRole ::
    "string \<Rightarrow> string \<Rightarrow> role \<Rightarrow> string \<Rightarrow> db \<Rightarrow> platform_error + account_record \<times> db" where
  "grantRole worldId targetAccountId r acting d =
     bnd (requireWorldAdmin d worldId acting (Some targetAccountId)) (\<lambda>_.
     case find (\<lambda>a. acId a = targetAccountId \<and> acWorldId a = worldId) (dbAccounts d) of
       None \<Rightarrow> Inl (AccountNotFoundError targetAccountId worldId)
     | Some target \<Rightarrow> bnd (insertRole worldId (acId target) r d) (\<lambda>d'. Inr (withRoles d' worldId target, d')))"

section \<open>Listing accounts\<close>

text \<open>An account as others see it, without the subject of the identity provider.\<close>

record public_account =
  paId :: string
  paWorldId :: string
  paDisplayName :: string

record public_account_record =
  prAccount :: public_account
  prRoles :: "role list"

definition publicAccount :: "account_row \<Rightarrow> public_account" where
  "publicAccount a = \<lparr>paId = acId a, paWorldId = acWorldId a, paDisplayName = acDisplayName a\<rparr>"

definition hasActiveAccess :: "db \<Rightarrow> account_row \<Rightarrow> bool" where
  "hasActiveAccess d a \<longleftrightarrow> (\<exists>w \<in> set (dbAccesses d).
     waWorldId w = acWorldId a \<and> waSubject w = acSubject a \<and> waStatus w = AccessActive)"

text \<open>The rows of the join, and their grouping by account in the order of first occurrence.\<close>

definition accountRoleRows :: "db \<Rightarrow> string \<Rightarrow> (public_account \<times> role option) list" where
  "accountRoleRows d worldId =
     concat (map (\<lambda>a. let roles = rolesOf d (acWorldId a) (acId a) in
         if roles = [] then [(publicAccount a, None)] else map (\<lambda>r. (publicAccount a, Some r)) roles)
       (filter (\<lambda>a. acWorldId a = worldId \<and> hasActiveAccess d a) (dbAccounts d)))"

definition addRoleRow ::
    "public_account \<times> role option \<Rightarrow> (string \<times> public_account_record) list \<Rightarrow> (string \<times> public_account_record) list" where
  "addRoleRow row grouped =
     (case row of (a, r) \<Rightarrow>
       let key = paWorldId a @ '':'' @ paId a;
           result = (case map_of grouped key of Some x \<Rightarrow> x | None \<Rightarrow> \<lparr>prAccount = a, prRoles = []\<rparr>)
       in AList.update key (case r of None \<Rightarrow> result | Some x \<Rightarrow> result\<lparr>prRoles := prRoles result @ [x]\<rparr>) grouped)"

definition collectAccountRoles :: "(public_account \<times> role option) list \<Rightarrow> public_account_record list" where
  "collectAccountRoles rows = map snd (fold addRoleRow rows [])"

definition listAccountsInWorld :: "db \<Rightarrow> string \<Rightarrow> string \<Rightarrow> platform_error + public_account_record list" where
  "listAccountsInWorld d worldId requesting =
     bnd (findAccount d worldId requesting True) (\<lambda>requester.
     invariant (requester \<noteq> None) (AuthorizationError worldId)
       (Inr (collectAccountRoles (accountRoleRows d worldId))))"

end
