(* ===== verification/Operators.thy ===== *)
theory Operators
  imports Identity
begin

text \<open>
  The founding of an operator (EVU) in a world, \<open>packages/operators/src/operators.ts\<close>. The
  initialisation that runs in the same transaction is an argument.
\<close>

record foundation_context =
  fcOperator :: operator_row
  fcReplay :: bool
  fcWorldId :: string
  fcWorldKind :: world_kind
  fcWorldEpoch :: int

definition ownedOperator :: "db \<Rightarrow> string \<Rightarrow> string \<Rightarrow> operator_row option" where
  "ownedOperator d worldId accountId =
     find (\<lambda>p. opWorldId p = worldId \<and> opFoundingAccountId p = accountId) (dbOperators d)"

definition foundationContext :: "operator_row \<Rightarrow> bool \<Rightarrow> world_row \<Rightarrow> foundation_context" where
  "foundationContext p replay w =
     \<lparr>fcOperator = p, fcReplay = replay, fcWorldId = woId w, fcWorldKind = woKind w, fcWorldEpoch = woEpoch w\<rparr>"

definition createOperator ::
    "(foundation_context \<Rightarrow> db \<Rightarrow> platform_error + db) \<Rightarrow> world_row \<Rightarrow> string \<Rightarrow> string \<Rightarrow> db \<Rightarrow>
     platform_error + foundation_context \<times> db" where
  "createOperator initialize w accountId name d =
     invariant (\<forall>p \<in> set (dbOperators d). \<not> (opWorldId p = woId w \<and> opName p = name))
       (DuplicateOperatorNameError (woId w) name)
    (bnd (insertOperator (woId w) accountId name d) (\<lambda>(created, d').
     bnd (initialize (foundationContext created False w) d') (\<lambda>d''.
     Inr (foundationContext created False w, d''))))"

definition foundOperatorWithInitialization ::
    "(foundation_context \<Rightarrow> db \<Rightarrow> platform_error + db) \<Rightarrow> string \<Rightarrow> string \<Rightarrow> string \<Rightarrow> db \<Rightarrow>
     platform_error + foundation_context \<times> db" where
  "foundOperatorWithInitialization initialize worldId subject name d =
     bnd (getAccount d worldId subject) (\<lambda>found.
     case found of
       None \<Rightarrow> Inl (NoAccountInWorldError worldId)
     | Some r \<Rightarrow>
        (case find (\<lambda>w. woId w = worldId) (dbWorlds d) of
           None \<Rightarrow> Inl (PlainError ''world'')
         | Some w \<Rightarrow>
             invariant (woLifecycle w = WorldActive) (OperatorFoundationWorldInactiveError worldId)
            (let accountId = acId (arAccount r) in
             case (if woKind w = PublicWorld then ownedOperator d worldId accountId else None) of
               Some owned \<Rightarrow>
                 invariant (opName owned = name) (PublicWorldOperatorLimitError worldId)
                (bnd (initialize (foundationContext owned True w) d) (\<lambda>d'. Inr (foundationContext owned True w, d')))
             | None \<Rightarrow> createOperator initialize w accountId name d)))"

definition foundOperator :: "string \<Rightarrow> string \<Rightarrow> string \<Rightarrow> db \<Rightarrow> platform_error + operator_row \<times> db" where
  "foundOperator worldId subject name d =
     bnd (foundOperatorWithInitialization (\<lambda>context d. Inr d) worldId subject name d) (\<lambda>(context, d').
     Inr (fcOperator context, d'))"

definition getOperator :: "db \<Rightarrow> string \<Rightarrow> string \<Rightarrow> platform_error + operator_row" where
  "getOperator d worldId operatorId =
     (case find (\<lambda>p. opWorldId p = worldId \<and> opId p = operatorId) (dbOperators d) of
        None \<Rightarrow> Inl (OperatorNotFoundError operatorId worldId)
      | Some p \<Rightarrow> Inr p)"

definition listOperatorsInWorld :: "db \<Rightarrow> string \<Rightarrow> string \<Rightarrow> platform_error + operator_row list" where
  "listOperatorsInWorld d worldId requesting =
     bnd (getAccount d worldId requesting) (\<lambda>requester.
     invariant (requester \<noteq> None) (AuthorizationError worldId)
       (Inr (filter (\<lambda>p. opWorldId p = worldId) (dbOperators d))))"

definition listOperatorsForAccount :: "db \<Rightarrow> string \<Rightarrow> string \<Rightarrow> operator_row list" where
  "listOperatorsForAccount d subject worldId =
     filter (\<lambda>p. opWorldId p = worldId \<and>
       (\<exists>a \<in> set (dbAccounts d). acId a = opFoundingAccountId p \<and> acWorldId a = worldId \<and> acSubject a = subject))
     (dbOperators d)"

end
