(* ===== verification/StartingCapital.thy ===== *)
theory StartingCapital
  imports Decimal
begin

text \<open>
  Amounts in cents (\<open>packages/economy/src/money.ts\<close>, \<open>balance.ts\<close>) and the starting capital of an
  operator (\<open>starting-capital.ts\<close>). A \<open>bigint\<close> is an \<open>int\<close>; the functions of \<open>money.ts\<close> keep it
  in the range of \<open>i64\<close> or throw.
\<close>

section \<open>Money\<close>

datatype money_error = OutOfI64 string | NegativeAmount string

definition MIN_I64 :: int where
  "MIN_I64 = -9223372036854775808"

definition MAX_I64 :: int where
  "MAX_I64 = 9223372036854775807"

definition assertI64 :: "int \<Rightarrow> string \<Rightarrow> money_error + int" where
  "assertI64 v name = invariant (\<not> (v < MIN_I64 \<or> v > MAX_I64)) (OutOfI64 name) (Inr v)"

definition assertNonnegativeI64 :: "int \<Rightarrow> string \<Rightarrow> money_error + int" where
  "assertNonnegativeI64 v name = invariant (\<not> v < 0) (NegativeAmount name) (assertI64 v name)"

definition addI64 :: "int \<Rightarrow> int \<Rightarrow> string \<Rightarrow> money_error + int" where
  "addI64 left right name = assertI64 (left + right) name"

definition subtractI64 :: "int \<Rightarrow> int \<Rightarrow> string \<Rightarrow> money_error + int" where
  "subtractI64 left right name = assertI64 (left - right) name"

definition multiplyNonnegativeI64 :: "int \<Rightarrow> int \<Rightarrow> string \<Rightarrow> money_error + int" where
  "multiplyNonnegativeI64 left right name =
     bnd (assertNonnegativeI64 left name) (\<lambda>_.
     bnd (assertNonnegativeI64 right name) (\<lambda>_.
     assertNonnegativeI64 (left * right) name))"

definition sumEntries :: "int list \<Rightarrow> int" where
  "sumEntries amountsCents = foldl (+) 0 amountsCents"

definition isBalanced :: "int list \<Rightarrow> bool" where
  "isBalanced amountsCents \<longleftrightarrow> sumEntries amountsCents = 0"

text \<open>\<open>a / b\<close> on \<open>bigint\<close>s rounds towards zero.\<close>

definition bigint_div :: "int \<Rightarrow> int \<Rightarrow> int" where
  "bigint_div a b = sgn a * sgn b * (\<bar>a\<bar> div \<bar>b\<bar>)"

lemma sumEntries_sum_list: "sumEntries xs = sum_list xs"
proof -
  have "foldl (+) a xs = a + sum_list xs" for a :: int by (induction xs arbitrary: a) auto
  then show ?thesis by (simp add: sumEntries_def)
qed

lemma i64_simps [res_simps]:
  "assertI64 v name = Inr w \<longleftrightarrow> w = v \<and> MIN_I64 \<le> v \<and> v \<le> MAX_I64"
  "assertNonnegativeI64 v name = Inr w \<longleftrightarrow> w = v \<and> 0 \<le> v \<and> v \<le> MAX_I64"
  "addI64 a b name = Inr w \<longleftrightarrow> w = a + b \<and> MIN_I64 \<le> a + b \<and> a + b \<le> MAX_I64"
  "subtractI64 a b name = Inr w \<longleftrightarrow> w = a - b \<and> MIN_I64 \<le> a - b \<and> a - b \<le> MAX_I64"
  by (auto simp: assertI64_def assertNonnegativeI64_def addI64_def subtractI64_def invariant_Inr MIN_I64_def MAX_I64_def)

lemma multiplyNonnegativeI64_Inr [res_simps]:
  "multiplyNonnegativeI64 a b name = Inr w \<longleftrightarrow> w = a * b \<and> 0 \<le> a \<and> 0 \<le> b \<and> a \<le> MAX_I64 \<and> b \<le> MAX_I64 \<and> a * b \<le> MAX_I64"
  by (auto simp: multiplyNonnegativeI64_def res_simps)

lemma bigint_div_nonneg: "0 \<le> a \<Longrightarrow> 0 \<le> b \<Longrightarrow> bigint_div a b = a div b"
  by (cases "a = 0"; cases "b = 0") (auto simp: bigint_div_def)

section \<open>The starting capital\<close>

datatype starting_capital = Finite int | Unlimited

datatype capital_error = CapitalValidation string

definition finiteAmount :: "int \<Rightarrow> capital_error + int" where
  "finiteAmount amountCents =
     invariant (\<not> amountCents < 0) (CapitalValidation ''negative'')
    (invariant (\<not> amountCents > MAX_I64) (CapitalValidation ''i64'') (Inr amountCents))"

definition exactPolicyKeys :: "jsval \<Rightarrow> string list \<Rightarrow> bool" where
  "exactPolicyKeys v expected \<longleftrightarrow> sort_by compareText (object_keys v) = sort_by compareText expected"

definition parseStartingCapitalPolicy :: "jsval \<Rightarrow> capital_error + starting_capital" where
  "parseStartingCapitalPolicy v =
     (case (isRecord v, jprop v ''mode'') of
        (True, JString mode) \<Rightarrow>
          if mode = ''unlimited''
          then invariant (exactPolicyKeys v [''mode'']) (CapitalValidation ''unlimited keys'') (Inr Unlimited)
          else (case jprop v ''amountCents'' of
             JString amount \<Rightarrow>
               invariant (mode = ''finite'' \<and> exactPolicyKeys v [''amountCents'', ''mode'']) (CapitalValidation ''finite keys'')
              (invariant (canonical_digits amount) (CapitalValidation ''decimal'')
              (bnd (finiteAmount (bigint_of amount)) (\<lambda>a. Inr (Finite a))))
           | _ \<Rightarrow> Inl (CapitalValidation ''finite keys''))
      | _ \<Rightarrow> Inl (CapitalValidation ''object''))"

definition serializeStartingCapitalPolicy :: "starting_capital \<Rightarrow> capital_error + jsval" where
  "serializeStartingCapitalPolicy policy =
     (case policy of
        Unlimited \<Rightarrow> Inr (JObject [(''mode'', JString ''unlimited'')])
      | Finite amountCents \<Rightarrow> bnd (finiteAmount amountCents) (\<lambda>a.
          Inr (JObject [(''mode'', JString ''finite''), (''amountCents'', JString (int_str a))])))"

text \<open>
  The grouping \<open>replace(/\B(?=(\d{3})+(?!\d))/g, ".")\<close>: a dot before every group of three digits from
  the right, not at the start.
\<close>

fun group_thousands :: "string \<Rightarrow> string" where
  "group_thousands (c # cs) =
     (if cs \<noteq> [] \<and> length cs mod 3 = 0 then c # CHR ''.'' # group_thousands cs else c # group_thousands cs)"
| "group_thousands [] = []"

text \<open>The sign for \<open>unlimited\<close> and the euro sign are outside 8 bits and stand as \<open>~\<close> and \<open>EUR\<close>.\<close>

definition formatStartingCapitalPolicyGerman :: "starting_capital \<Rightarrow> capital_error + string" where
  "formatStartingCapitalPolicyGerman policy =
     (case policy of
        Unlimited \<Rightarrow> Inr ''~''
      | Finite amountCents \<Rightarrow> bnd (finiteAmount amountCents) (\<lambda>a.
          Inr (group_thousands (int_str (bigint_div a 100)) @ '','' @
            padStart 2 (int_str (a mod 100)) @ '' EUR'')))"

lemma finiteAmount_Inr [res_simps]: "finiteAmount a = Inr b \<longleftrightarrow> b = a \<and> 0 \<le> a \<and> a \<le> MAX_I64"
  by (auto simp: finiteAmount_def res_simps)

lemma exact_keys_two: "exactPolicyKeys (JObject [(''mode'', x), (''amountCents'', y)]) [''amountCents'', ''mode'']"
proof -
  have "sort_by compareText [''mode'', ''amountCents''] = sort_by compareText [''amountCents'', ''mode'']" by code_simp
  then show ?thesis by (simp add: exactPolicyKeys_def)
qed

text \<open>Serialising a starting capital and parsing the result gives the capital back, for every amount that can be
  serialised, which is every amount from 0 to the largest i64.\<close>

theorem starting_capital_roundtrip:
  assumes "serializeStartingCapitalPolicy policy = Inr v"
  shows "parseStartingCapitalPolicy v = Inr policy"
proof (cases policy)
  case (Finite a)
  then have v: "v = JObject [(''mode'', JString ''finite''), (''amountCents'', JString (int_str a))]" "0 \<le> a" "a \<le> MAX_I64"
    using assms by (auto simp: serializeStartingCapitalPolicy_def res_simps)
  have s: "int_str a = nat_str (nat a)" using v(2) by (simp add: int_str_def)
  have "bigint_of (int_str a) = a" "canonical_digits (int_str a)"
    using v(2) by (simp_all add: s bigint_of_nat_str canonical_nat_str)
  moreover have "finiteAmount a = Inr a" using v by (simp add: finiteAmount_Inr)
  ultimately show ?thesis using Finite exact_keys_two by (simp add: parseStartingCapitalPolicy_def v(1))
next
  case Unlimited
  have "exactPolicyKeys (JObject [(''mode'', JString ''unlimited'')]) [''mode'']" by code_simp
  then show ?thesis using Unlimited assms by (auto simp: serializeStartingCapitalPolicy_def parseStartingCapitalPolicy_def)
qed

theorem starting_capital_roundtrip_witness:
  "parseStartingCapitalPolicy (JObject [(''mode'', JString ''finite''), (''amountCents'', JString ''123456789'')]) =
     Inr (Finite 123456789)"
proof (rule starting_capital_roundtrip)
  have "nat_str 123456789 = ''123456789''" by (simp add: nat_str_eval)
  then show "serializeStartingCapitalPolicy (Finite 123456789) =
      Inr (JObject [(''mode'', JString ''finite''), (''amountCents'', JString ''123456789'')])"
    by (simp add: serializeStartingCapitalPolicy_def finiteAmount_def MAX_I64_def int_str_def)
qed

end
