(* ===== verification/Ledger.thy ===== *)
theory Ledger
  imports Operators StartingCapital
begin

text \<open>
  The ledger of an operator, \<open>packages/economy/src/ledger.ts\<close>: accounts, balanced transactions with
  idempotency keys, and the opening of the books from the starting capital. Text that differs from
  the code only in umlauts is written without them.
\<close>

definition STARTING_CAPITAL_CASH_ACCOUNT_NAME :: string where
  "STARTING_CAPITAL_CASH_ACCOUNT_NAME = ''Kasse''"

definition STARTING_CAPITAL_EQUITY_ACCOUNT_NAME :: string where
  "STARTING_CAPITAL_EQUITY_ACCOUNT_NAME = ''Eigenkapital:Eroeffnung''"

definition STARTING_CAPITAL_TRANSACTION_DESCRIPTION :: string where
  "STARTING_CAPITAL_TRANSACTION_DESCRIPTION = ''Eroeffnungskapital''"

definition STARTING_CAPITAL_IDEMPOTENCY_KEY :: string where
  "STARTING_CAPITAL_IDEMPOTENCY_KEY = ''operator-opening-capital/v1''"

section \<open>Accounts\<close>

definition findLedgerAccount :: "db \<Rightarrow> string \<Rightarrow> string \<Rightarrow> string \<Rightarrow> ledger_account option" where
  "findLedgerAccount d worldId operatorId name =
     find (\<lambda>a. laWorldId a = worldId \<and> laOperatorId a = operatorId \<and> laName a = name) (dbLedgerAccounts d)"

definition openLedgerAccount ::
    "string \<Rightarrow> string \<Rightarrow> string \<Rightarrow> db \<Rightarrow> platform_error + ledger_account \<times> db" where
  "openLedgerAccount worldId operatorId name d =
     bnd (getOperator d worldId operatorId) (\<lambda>_.
     case findLedgerAccount d worldId operatorId name of
       Some a \<Rightarrow> Inl (DuplicateLedgerAccountNameError worldId operatorId name)
     | None \<Rightarrow> insertLedgerAccount worldId operatorId name d)"

text \<open>\<open>insert ... on conflict (world, operator, name) do nothing\<close>, then the row that is there.\<close>

definition ensureLedgerAccount ::
    "string \<Rightarrow> string \<Rightarrow> string \<Rightarrow> db \<Rightarrow> platform_error + ledger_account \<times> db" where
  "ensureLedgerAccount worldId operatorId name d =
     bnd (getOperator d worldId operatorId) (\<lambda>_.
     if accountNameTaken d worldId operatorId name
     then (case findLedgerAccount d worldId operatorId name of
             None \<Rightarrow> Inl (PlainError ''ledger account'')
           | Some a \<Rightarrow> Inr (a, d))
     else insertLedgerAccount worldId operatorId name d)"

definition listLedgerAccounts :: "db \<Rightarrow> string \<Rightarrow> string \<Rightarrow> ledger_account list" where
  "listLedgerAccounts d worldId operatorId =
     filter (\<lambda>a. laWorldId a = worldId \<and> laOperatorId a = operatorId) (dbLedgerAccounts d)"

section \<open>Transactions\<close>

record posting =
  poWorldId :: string
  poOperatorId :: string
  poDescription :: string
  poPostedAt :: int
  poIdempotencyKey :: "string option"
  poEntries :: "entry_input list"

definition entrySignature :: "entry_input \<Rightarrow> string" where
  "entrySignature e = enAccountId e @ nul @ int_str (enAmountCents e) @ nul @
     (case enCostType e of None \<Rightarrow> [] | Some t \<Rightarrow> t) @ nul @
     (case enCostCentreId e of None \<Rightarrow> [] | Some c \<Rightarrow> c)"

definition storedEntries :: "db \<Rightarrow> string \<Rightarrow> string \<Rightarrow> ledger_entry list" where
  "storedEntries d worldId transactionId =
     filter (\<lambda>e. leWorldId e = worldId \<and> leTransactionId e = transactionId) (dbLedgerEntries d)"

definition entryOf :: "ledger_entry \<Rightarrow> entry_input" where
  "entryOf e = \<lparr>enAccountId = leAccountId e, enAmountCents = leAmountCents e, enCostType = leCostType e,
     enCostCentreId = leCostCentreId e\<rparr>"

definition assertIdempotentReplayMatches ::
    "db \<Rightarrow> ledger_transaction \<Rightarrow> posting \<Rightarrow> string \<Rightarrow> platform_error + unit" where
  "assertIdempotentReplayMatches d existing input key =
     (let expected = sort_by compareText (map entrySignature (poEntries input));
          actual = sort_by compareText (map (entrySignature \<circ> entryOf) (storedEntries d (poWorldId input) (ltId existing)))
      in invariant (ltDescription existing = poDescription input \<and> ltPostedAt existing = poPostedAt input
            \<and> actual = expected)
          (IdempotentLedgerContentConflictError (poWorldId input) (poOperatorId input) key) (Inr ()))"

definition findTransaction :: "db \<Rightarrow> string \<Rightarrow> string \<Rightarrow> string \<Rightarrow> ledger_transaction option" where
  "findTransaction d worldId operatorId key =
     find (\<lambda>t. ltWorldId t = worldId \<and> ltOperatorId t = operatorId \<and> ltIdempotencyKey t = Some key)
       (dbLedgerTransactions d)"

definition insertTransactionWithEntries :: "posting \<Rightarrow> db \<Rightarrow> platform_error + ledger_transaction \<times> db" where
  "insertTransactionWithEntries input d =
     bnd (insertLedgerTransaction (poWorldId input) (poOperatorId input) (poIdempotencyKey input)
           (poDescription input) (poPostedAt input) d) (\<lambda>(t, d').
     bnd (fold_res (insertLedgerEntry (poWorldId input) (ltId t)) (poEntries input) d') (\<lambda>d''.
     Inr (t, d'')))"

definition foreignAccount :: "db \<Rightarrow> posting \<Rightarrow> string option" where
  "foreignAccount d input =
     find (\<lambda>i. \<not> (\<exists>a \<in> set (listLedgerAccounts d (poWorldId input) (poOperatorId input)). laId a = i))
       (map enAccountId (poEntries input))"

definition postLedgerTransaction :: "posting \<Rightarrow> db \<Rightarrow> platform_error + ledger_transaction \<times> db" where
  "postLedgerTransaction input d =
     invariant (\<not> length (poEntries input) < 2) IncompleteTransactionError
    (invariant (\<forall>e \<in> set (poEntries input). (enCostType e = None) = (enCostCentreId e = None))
       (PlainError ''cost type and cost centre'')
    (let amounts = map enAmountCents (poEntries input) in
     invariant (isBalanced amounts) (UnbalancedTransactionError (sumEntries amounts))
    (case foreignAccount d input of
       Some i \<Rightarrow> Inl (ForeignLedgerAccountError i)
     | None \<Rightarrow>
        (case poIdempotencyKey input of
           None \<Rightarrow> insertTransactionWithEntries input d
         | Some key \<Rightarrow>
             if keyTaken d (poWorldId input) (poOperatorId input) (Some key)
             then (case findTransaction d (poWorldId input) (poOperatorId input) key of
                     None \<Rightarrow> Inl (PlainError ''ledger transaction'')
                   | Some existing \<Rightarrow>
                       bnd (assertIdempotentReplayMatches d existing input key) (\<lambda>_. Inr (existing, d)))
             else insertTransactionWithEntries input d))))"

definition listLedgerTransactions :: "db \<Rightarrow> string \<Rightarrow> string \<Rightarrow> ledger_transaction list" where
  "listLedgerTransactions d worldId operatorId =
     filter (\<lambda>t. ltWorldId t = worldId \<and> ltOperatorId t = operatorId) (dbLedgerTransactions d)"

definition ledgerAccountBalance :: "db \<Rightarrow> string \<Rightarrow> string \<Rightarrow> int" where
  "ledgerAccountBalance d worldId ledgerAccountId =
     sum_list (map leAmountCents
       (filter (\<lambda>e. leWorldId e = worldId \<and> leAccountId e = ledgerAccountId) (dbLedgerEntries d)))"

section \<open>Opening the books\<close>

record capital_initialization =
  ciCashAccount :: ledger_account
  ciEquityAccount :: ledger_account
  ciTransaction :: "ledger_transaction option"

definition openingPosting :: "string \<Rightarrow> string \<Rightarrow> int \<Rightarrow> string \<Rightarrow> string \<Rightarrow> int \<Rightarrow> posting" where
  "openingPosting worldId operatorId postedAt cashId equityId amountCents =
     \<lparr>poWorldId = worldId, poOperatorId = operatorId, poDescription = STARTING_CAPITAL_TRANSACTION_DESCRIPTION,
      poPostedAt = postedAt, poIdempotencyKey = Some STARTING_CAPITAL_IDEMPOTENCY_KEY,
      poEntries =
        [\<lparr>enAccountId = cashId, enAmountCents = amountCents, enCostType = None, enCostCentreId = None\<rparr>,
         \<lparr>enAccountId = equityId, enAmountCents = - amountCents, enCostType = None, enCostCentreId = None\<rparr>]\<rparr>"

definition initializeOperatorStartingCapital ::
    "string \<Rightarrow> string \<Rightarrow> starting_capital \<Rightarrow> int \<Rightarrow> db \<Rightarrow> platform_error + capital_initialization \<times> db" where
  "initializeOperatorStartingCapital worldId operatorId policy postedAt d =
     bnd (case serializeStartingCapitalPolicy policy of
            Inl (CapitalValidation e) \<Rightarrow> Inl (StartingCapitalPolicyValidationError e) | Inr v \<Rightarrow> Inr ()) (\<lambda>_.
     bnd (ensureLedgerAccount worldId operatorId STARTING_CAPITAL_CASH_ACCOUNT_NAME d) (\<lambda>(cash, d1).
     bnd (ensureLedgerAccount worldId operatorId STARTING_CAPITAL_EQUITY_ACCOUNT_NAME d1) (\<lambda>(equity, d2).
     case policy of
       Unlimited \<Rightarrow> Inr (\<lparr>ciCashAccount = cash, ciEquityAccount = equity, ciTransaction = None\<rparr>, d2)
     | Finite amountCents \<Rightarrow>
         bnd (postLedgerTransaction
               (openingPosting worldId operatorId postedAt (laId cash) (laId equity) amountCents) d2) (\<lambda>(t, d3).
         Inr (\<lparr>ciCashAccount = cash, ciEquityAccount = equity, ciTransaction = Some t\<rparr>, d3)))))"

end
