(* ===== verification/LedgerBooks.thy ===== *)
theory LedgerBooks
  imports Ledger
begin

text \<open>
  The invariant of the books (\<open>books_ok\<close>): rows refer to rows that exist, every transaction has at
  least two entries that sum to zero, and all of them lie on accounts of the operator of the
  transaction. Every operation of the ledger keeps it.
\<close>

section \<open>The invariant\<close>

definition entry_bound :: "db \<Rightarrow> ledger_entry \<Rightarrow> bool" where
  "entry_bound d e \<longleftrightarrow> is_i64 (leAmountCents e) \<and>
     (\<exists>t \<in> set (dbLedgerTransactions d). \<exists>a \<in> set (dbLedgerAccounts d).
        ltWorldId t = leWorldId e \<and> ltId t = leTransactionId e \<and>
        laWorldId a = leWorldId e \<and> laId a = leAccountId e \<and> laOperatorId a = ltOperatorId t)"

definition transaction_ok :: "db \<Rightarrow> ledger_transaction \<Rightarrow> bool" where
  "transaction_ok d t \<longleftrightarrow> (let es = storedEntries d (ltWorldId t) (ltId t) in
     2 \<le> length es \<and> sum_list (map leAmountCents es) = 0)"

definition keys_unique :: "ledger_transaction list \<Rightarrow> bool" where
  "keys_unique ts \<longleftrightarrow> (\<forall>t \<in> set ts. \<forall>u \<in> set ts. ltIdempotencyKey t \<noteq> None \<longrightarrow>
     ltIdempotencyKey t = ltIdempotencyKey u \<longrightarrow> ltWorldId t = ltWorldId u \<longrightarrow> ltOperatorId t = ltOperatorId u \<longrightarrow> t = u)"

lemma keys_unique_snoc:
  "keys_unique ts \<Longrightarrow> (\<And>u. u \<in> set ts \<Longrightarrow> \<not> (ltIdempotencyKey u \<noteq> None \<and> ltIdempotencyKey u = ltIdempotencyKey t \<and>
      ltWorldId u = ltWorldId t \<and> ltOperatorId u = ltOperatorId t)) \<Longrightarrow> keys_unique (ts @ [t])"
  unfolding keys_unique_def by (metis Un_iff empty_iff empty_set list.simps(15) insert_iff set_append)

definition books_ok :: "db \<Rightarrow> bool" where
  "books_ok d \<longleftrightarrow> distinct (map ltId (dbLedgerTransactions d)) \<and> distinct (map laId (dbLedgerAccounts d)) \<and>
     distinct (map (\<lambda>a. (laWorldId a, laOperatorId a, laName a)) (dbLedgerAccounts d)) \<and>
     keys_unique (dbLedgerTransactions d) \<and>
     (\<forall>e \<in> set (dbLedgerEntries d). entry_bound d e) \<and>
     (\<forall>t \<in> set (dbLedgerTransactions d). transaction_ok d t)"

section \<open>Inserting\<close>

lemma insertLedgerAccount_ok:
  assumes "insertLedgerAccount w p n d = Inr (a, d')" and "books_ok d"
  shows "books_ok d'" and "d' = d\<lparr>dbLedgerAccounts := dbLedgerAccounts d @ [a], dbDraws := Suc (dbDraws d)\<rparr>"
    and "laWorldId a = w" "laOperatorId a = p" "laName a = n"
proof -
  show d': "d' = d\<lparr>dbLedgerAccounts := dbLedgerAccounts d @ [a], dbDraws := Suc (dbDraws d)\<rparr>"
    and a: "laWorldId a = w" "laOperatorId a = p" "laName a = n"
    using assms(1) by (auto simp: insertLedgerAccount_def Let_def res_simps)
  have new: "laId a \<notin> set (map laId (dbLedgerAccounts d))"
    "(laWorldId a, laOperatorId a, laName a) \<notin> set (map (\<lambda>a. (laWorldId a, laOperatorId a, laName a)) (dbLedgerAccounts d))"
    using assms(1) by (auto simp: insertLedgerAccount_def Let_def res_simps accountNameTaken_def)
  have "entry_bound d' e" if "entry_bound d e" for e
    using that by (auto simp: d' entry_bound_def)
  moreover have "transaction_ok d' t" if "transaction_ok d t" for t
    using that by (simp add: d' transaction_ok_def storedEntries_def)
  moreover have tabs: "dbLedgerTransactions d' = dbLedgerTransactions d" "dbLedgerEntries d' = dbLedgerEntries d"
    "dbLedgerAccounts d' = dbLedgerAccounts d @ [a]" by (simp_all add: d')
  ultimately show "books_ok d'" using assms(2) new unfolding books_ok_def tabs by simp
qed

lemma insertEntries:
  "fold_res (insertLedgerEntry w t) es d = Inr d' \<Longrightarrow>
    \<exists>rows draws. d' = d\<lparr>dbLedgerEntries := dbLedgerEntries d @ rows, dbDraws := draws\<rparr> \<and> map entryOf rows = es \<and>
      (\<forall>r \<in> set rows. leWorldId r = w \<and> leTransactionId r = t \<and> is_i64 (leAmountCents r))"
proof (induction es arbitrary: d)
  case Nil
  then show ?case by (intro exI [of _ "[]"] exI [of _ "dbDraws d"]) simp
next
  case (Cons e es)
  from Cons.prems obtain d1 where d1: "insertLedgerEntry w t e d = Inr d1" "fold_res (insertLedgerEntry w t) es d1 = Inr d'"
    by (auto simp: res_simps)
  obtain row where row: "d1 = d\<lparr>dbLedgerEntries := dbLedgerEntries d @ [row], dbDraws := Suc (dbDraws d)\<rparr>"
    "entryOf row = e" "leWorldId row = w" "leTransactionId row = t" "is_i64 (leAmountCents row)"
    using d1(1) by (auto simp: insertLedgerEntry_def Let_def res_simps entryOf_def)
  from Cons.IH [OF d1(2)] obtain rows draws where
    "d' = d1\<lparr>dbLedgerEntries := dbLedgerEntries d1 @ rows, dbDraws := draws\<rparr>" "map entryOf rows = es"
    "\<forall>r \<in> set rows. leWorldId r = w \<and> leTransactionId r = t \<and> is_i64 (leAmountCents r)" by blast
  then show ?case using row by (intro exI [of _ "row # rows"] exI [of _ draws]) simp
qed

lemma transaction_inserted:
  assumes "insertTransactionWithEntries input d = Inr (t, d')"
  obtains rows draws where
    "d' = d\<lparr>dbLedgerTransactions := dbLedgerTransactions d @ [t], dbLedgerEntries := dbLedgerEntries d @ rows, dbDraws := draws\<rparr>"
    "map entryOf rows = poEntries input"
    "\<forall>r \<in> set rows. leWorldId r = poWorldId input \<and> leTransactionId r = ltId t \<and> is_i64 (leAmountCents r)"
    "ltWorldId t = poWorldId input" "ltOperatorId t = poOperatorId input" "ltIdempotencyKey t = poIdempotencyKey input"
    "ltDescription t = poDescription input" "ltPostedAt t = poPostedAt input"
    "ltId t \<notin> set (map ltId (dbLedgerTransactions d))" "\<not> keyTaken d (poWorldId input) (poOperatorId input) (poIdempotencyKey input)"
proof -
  obtain d1 where d1: "insertLedgerTransaction (poWorldId input) (poOperatorId input) (poIdempotencyKey input)
      (poDescription input) (poPostedAt input) d = Inr (t, d1)"
    "fold_res (insertLedgerEntry (poWorldId input) (ltId t)) (poEntries input) d1 = Inr d'"
    using assms by (auto simp: insertTransactionWithEntries_def res_simps)
  from insertEntries [OF d1(2)] obtain rows draws where r:
    "d' = d1\<lparr>dbLedgerEntries := dbLedgerEntries d1 @ rows, dbDraws := draws\<rparr>" "map entryOf rows = poEntries input"
    "\<forall>r \<in> set rows. leWorldId r = poWorldId input \<and> leTransactionId r = ltId t \<and> is_i64 (leAmountCents r)" by blast
  show thesis
    by (rule that [of draws rows])
      (use d1(1) r in \<open>auto simp: insertLedgerTransaction_def Let_def res_simps\<close>)
qed

text \<open>Entries on accounts of the operator.\<close>

definition own_accounts :: "db \<Rightarrow> posting \<Rightarrow> bool" where
  "own_accounts d input \<longleftrightarrow> (\<forall>e \<in> set (poEntries input). \<exists>a \<in> set (dbLedgerAccounts d).
     laWorldId a = poWorldId input \<and> laOperatorId a = poOperatorId input \<and> laId a = enAccountId e)"

lemma foreignAccount_None: "foreignAccount d input = None \<longleftrightarrow> own_accounts d input"
  by (auto simp: foreignAccount_def find_None_iff own_accounts_def listLedgerAccounts_def)

lemma entryOf_simps [simp]:
  "enAccountId (entryOf e) = leAccountId e" "enAmountCents (entryOf e) = leAmountCents e"
  by (simp_all add: entryOf_def)

lemma transaction_keeps_books:
  assumes ins: "insertTransactionWithEntries input d = Inr (t, d')" and ok: "books_ok d"
    and two: "2 \<le> length (poEntries input)" and bal: "isBalanced (map enAmountCents (poEntries input))"
    and own: "own_accounts d input"
  shows "books_ok d'"
proof -
  from ins obtain rows draws where d':
      "d' = d\<lparr>dbLedgerTransactions := dbLedgerTransactions d @ [t], dbLedgerEntries := dbLedgerEntries d @ rows, dbDraws := draws\<rparr>"
    and rows: "map entryOf rows = poEntries input"
      "\<forall>r \<in> set rows. leWorldId r = poWorldId input \<and> leTransactionId r = ltId t \<and> is_i64 (leAmountCents r)"
    and t: "ltWorldId t = poWorldId input" "ltOperatorId t = poOperatorId input" "ltIdempotencyKey t = poIdempotencyKey input"
    and new: "ltId t \<notin> set (map ltId (dbLedgerTransactions d))"
      "\<not> keyTaken d (poWorldId input) (poOperatorId input) (poIdempotencyKey input)"
    by (rule transaction_inserted)
  have old_entries: "leTransactionId e \<noteq> ltId t" if "e \<in> set (dbLedgerEntries d)" for e
  proof -
    have "entry_bound d e" using ok that by (simp add: books_ok_def)
    then obtain u where "u \<in> set (dbLedgerTransactions d)" "ltId u = leTransactionId e"
      by (auto simp: entry_bound_def)
    then show ?thesis using new(1) by (metis image_eqI list.set_map)
  qed
  have bound_old: "entry_bound d' e" if "e \<in> set (dbLedgerEntries d)" for e
    using ok that by (fastforce simp: books_ok_def entry_bound_def d')
  have bound_new: "entry_bound d' r" if r: "r \<in> set rows" for r
  proof -
    have "entryOf r \<in> set (poEntries input)" using r rows(1) by (metis image_eqI list.set_map)
    then obtain a where "a \<in> set (dbLedgerAccounts d)" "laWorldId a = poWorldId input"
      "laOperatorId a = poOperatorId input" "laId a = leAccountId r"
      using own by (auto simp: own_accounts_def)
    then show ?thesis using r rows(2) t by (auto simp: entry_bound_def d')
  qed
  have "storedEntries d' (ltWorldId u) (ltId u) = storedEntries d (ltWorldId u) (ltId u)"
    if u: "u \<in> set (dbLedgerTransactions d)" for u
  proof -
    have "ltId u \<noteq> ltId t" using u new(1) by (metis image_eqI list.set_map)
    then show ?thesis using rows(2) by (auto simp: storedEntries_def d' filter_empty_conv)
  qed
  then have ok_old: "transaction_ok d' u" if "u \<in> set (dbLedgerTransactions d)" for u
    using ok that by (simp add: books_ok_def transaction_ok_def)
  have "storedEntries d' (ltWorldId t) (ltId t) = rows"
    using rows(2) t(1) old_entries by (auto simp: storedEntries_def d' filter_empty_conv filter_id_conv)
  moreover have "sum_list (map leAmountCents rows) = 0"
  proof -
    have "map leAmountCents rows = map enAmountCents (poEntries input)" by (simp add: rows(1) [symmetric])
    then show ?thesis using bal by (simp add: isBalanced_def sumEntries_sum_list)
  qed
  moreover have "2 \<le> length rows" using two rows(1) by (metis length_map)
  ultimately have ok_new: "transaction_ok d' t" by (simp add: transaction_ok_def)
  have keys: "\<not> (ltIdempotencyKey u \<noteq> None \<and> ltIdempotencyKey u = ltIdempotencyKey t \<and> ltWorldId u = ltWorldId t \<and>
      ltOperatorId u = ltOperatorId t)" if "u \<in> set (dbLedgerTransactions d)" for u
    using new(2) t that by (auto simp: keyTaken_def)
  have tabs: "dbLedgerTransactions d' = dbLedgerTransactions d @ [t]" "dbLedgerAccounts d' = dbLedgerAccounts d"
    "dbLedgerEntries d' = dbLedgerEntries d @ rows" by (simp_all add: d')
  have "keys_unique (dbLedgerTransactions d @ [t])" by (rule keys_unique_snoc) (use ok keys in \<open>simp_all add: books_ok_def\<close>)
  then show ?thesis
    using ok new(1) bound_old bound_new ok_old ok_new unfolding books_ok_def tabs by auto
qed


section \<open>The operations\<close>

lemma getOperator_exists: "(\<exists>r. getOperator d w p = Inr r) \<longleftrightarrow> operatorExists d w p"
proof -
  have "(\<exists>r. getOperator d w p = Inr r) \<longleftrightarrow> find (\<lambda>p'. opWorldId p' = w \<and> opId p' = p) (dbOperators d) \<noteq> None"
    by (auto simp: getOperator_def split: option.splits)
  also have "\<dots> \<longleftrightarrow> operatorExists d w p" by (auto simp: find_None_iff operatorExists_def)
  finally show ?thesis .
qed

lemma ensureLedgerAccount_cases:
  assumes "ensureLedgerAccount w p n d = Inr (a, d')"
  shows "operatorExists d w p"
    and "(findLedgerAccount d w p n = Some a \<and> d' = d) \<or>
      (\<not> accountNameTaken d w p n \<and> insertLedgerAccount w p n d = Inr (a, d'))"
proof -
  show "operatorExists d w p"
    using assms by (auto simp: ensureLedgerAccount_def bnd_Inr getOperator_exists [symmetric])
  show "(findLedgerAccount d w p n = Some a \<and> d' = d) \<or>
      (\<not> accountNameTaken d w p n \<and> insertLedgerAccount w p n d = Inr (a, d'))"
    using assms by (auto simp: ensureLedgerAccount_def bnd_Inr split: option.splits if_splits)
qed

lemma findLedgerAccount_Some:
  "findLedgerAccount d w p n = Some a \<Longrightarrow> a \<in> set (dbLedgerAccounts d) \<and> laWorldId a = w \<and> laOperatorId a = p \<and> laName a = n"
  by (auto simp: findLedgerAccount_def find_Some_iff)

lemma openLedgerAccount_keeps: "openLedgerAccount w p n d = Inr (a, d') \<Longrightarrow> books_ok d \<Longrightarrow> books_ok d'"
  by (auto simp: openLedgerAccount_def res_simps split: option.splits intro: insertLedgerAccount_ok(1))

lemma ensureLedgerAccount_keeps: "ensureLedgerAccount w p n d = Inr (a, d') \<Longrightarrow> books_ok d \<Longrightarrow> books_ok d'"
  by (drule ensureLedgerAccount_cases(2)) (auto intro: insertLedgerAccount_ok(1))

lemma postLedgerTransaction_cases:
  assumes "postLedgerTransaction input d = Inr (t, d')"
  shows "2 \<le> length (poEntries input)" "isBalanced (map enAmountCents (poEntries input))" "own_accounts d input"
    and "insertTransactionWithEntries input d = Inr (t, d') \<or>
      (\<exists>key. poIdempotencyKey input = Some key \<and> findTransaction d (poWorldId input) (poOperatorId input) key = Some t \<and>
         assertIdempotentReplayMatches d t input key = Inr () \<and> d' = d)"
proof -
  show two: "2 \<le> length (poEntries input)" and bal: "isBalanced (map enAmountCents (poEntries input))"
    using assms by (auto simp: postLedgerTransaction_def Let_def invariant_Inr)
  have f: "foreignAccount d input = None"
    using assms by (auto simp: postLedgerTransaction_def Let_def invariant_Inr split: option.splits)
  then show "own_accounts d input" by (simp add: foreignAccount_None)
  show "insertTransactionWithEntries input d = Inr (t, d') \<or>
      (\<exists>key. poIdempotencyKey input = Some key \<and> findTransaction d (poWorldId input) (poOperatorId input) key = Some t \<and>
         assertIdempotentReplayMatches d t input key = Inr () \<and> d' = d)"
    using assms f by (auto simp: postLedgerTransaction_def Let_def res_simps split: option.splits if_splits)
qed

lemma postLedgerTransaction_keeps: "postLedgerTransaction input d = Inr (t, d') \<Longrightarrow> books_ok d \<Longrightarrow> books_ok d'"
  using postLedgerTransaction_cases [of input d t d'] transaction_keeps_books [of input d t d'] by blast

lemma initialize_parts:
  assumes "initializeOperatorStartingCapital w p policy now d = Inr (ci, d')"
  obtains d1 d2 where "ensureLedgerAccount w p STARTING_CAPITAL_CASH_ACCOUNT_NAME d = Inr (ciCashAccount ci, d1)"
    "ensureLedgerAccount w p STARTING_CAPITAL_EQUITY_ACCOUNT_NAME d1 = Inr (ciEquityAccount ci, d2)"
    "(policy = Unlimited \<and> ciTransaction ci = None \<and> d' = d2) \<or>
     (\<exists>amount t. policy = Finite amount \<and> 0 \<le> amount \<and> amount \<le> MAX_I64 \<and> ciTransaction ci = Some t \<and>
        postLedgerTransaction (openingPosting w p now (laId (ciCashAccount ci)) (laId (ciEquityAccount ci)) amount) d2 = Inr (t, d'))"
proof -
  from assms obtain cash d1 equity d2 where e: "ensureLedgerAccount w p STARTING_CAPITAL_CASH_ACCOUNT_NAME d = Inr (cash, d1)"
    "ensureLedgerAccount w p STARTING_CAPITAL_EQUITY_ACCOUNT_NAME d1 = Inr (equity, d2)"
    and r: "(case policy of
       Unlimited \<Rightarrow> Inr (\<lparr>ciCashAccount = cash, ciEquityAccount = equity, ciTransaction = None\<rparr>, d2)
     | Finite amountCents \<Rightarrow>
         bnd (postLedgerTransaction (openingPosting w p now (laId cash) (laId equity) amountCents) d2) (\<lambda>(t, d3).
         Inr (\<lparr>ciCashAccount = cash, ciEquityAccount = equity, ciTransaction = Some t\<rparr>, d3))) = Inr (ci, d')"
    and s: "\<exists>v. serializeStartingCapitalPolicy policy = Inr v"
    unfolding initializeOperatorStartingCapital_def
    by (auto simp: res_simps split: sum.splits capital_error.splits)
  show thesis
  proof (rule that)
    show "ensureLedgerAccount w p STARTING_CAPITAL_CASH_ACCOUNT_NAME d = Inr (ciCashAccount ci, d1)"
      "ensureLedgerAccount w p STARTING_CAPITAL_EQUITY_ACCOUNT_NAME d1 = Inr (ciEquityAccount ci, d2)"
      using e r by (auto simp: res_simps split: starting_capital.splits)
    show "(policy = Unlimited \<and> ciTransaction ci = None \<and> d' = d2) \<or>
     (\<exists>amount t. policy = Finite amount \<and> 0 \<le> amount \<and> amount \<le> MAX_I64 \<and> ciTransaction ci = Some t \<and>
        postLedgerTransaction (openingPosting w p now (laId (ciCashAccount ci)) (laId (ciEquityAccount ci)) amount) d2 = Inr (t, d'))"
      using r s by (cases policy) (auto simp: res_simps serializeStartingCapitalPolicy_def)
  qed
qed

lemma initialize_keeps:
  assumes "initializeOperatorStartingCapital w p policy now d = Inr (ci, d')" and "books_ok d"
  shows "books_ok d'"
proof -
  from assms(1) obtain d1 d2 where "ensureLedgerAccount w p STARTING_CAPITAL_CASH_ACCOUNT_NAME d = Inr (ciCashAccount ci, d1)"
    "ensureLedgerAccount w p STARTING_CAPITAL_EQUITY_ACCOUNT_NAME d1 = Inr (ciEquityAccount ci, d2)"
    and d': "(policy = Unlimited \<and> ciTransaction ci = None \<and> d' = d2) \<or>
     (\<exists>amount t. policy = Finite amount \<and> 0 \<le> amount \<and> amount \<le> MAX_I64 \<and> ciTransaction ci = Some t \<and>
        postLedgerTransaction (openingPosting w p now (laId (ciCashAccount ci)) (laId (ciEquityAccount ci)) amount) d2 = Inr (t, d'))"
    by (rule initialize_parts)
  then have "books_ok d2" using assms(2) by (meson ensureLedgerAccount_keeps)
  then show ?thesis using d' postLedgerTransaction_keeps by blast
qed


section \<open>Balances\<close>

text \<open>Summing by key: the entries of a list of keyed rows, key by key or all at once.\<close>

lemma sum_list_filter_disjoint:
  fixes x :: "'a \<Rightarrow> 'b::comm_monoid_add"
  assumes "\<forall>e \<in> set es. \<not> (P e \<and> Q e)"
  shows "sum_list (map x (filter P es)) + sum_list (map x (filter Q es)) = sum_list (map x (filter (\<lambda>e. P e \<or> Q e) es))"
  using assms by (induction es) (auto simp: ac_simps)

lemma sum_list_by_key:
  fixes x :: "'a \<Rightarrow> 'b::comm_monoid_add"
  assumes "distinct (map k as)"
  shows "sum_list (map (\<lambda>a. sum_list (map x (filter (\<lambda>e. f e = k a) es))) as) =
    sum_list (map x (filter (\<lambda>e. f e \<in> k ` set as) es))"
  using assms
proof (induction as)
  case (Cons a as)
  have "sum_list (map x (filter (\<lambda>e. f e = k a) es)) + sum_list (map x (filter (\<lambda>e. f e \<in> k ` set as) es)) =
      sum_list (map x (filter (\<lambda>e. f e = k a \<or> f e \<in> k ` set as) es))"
    by (rule sum_list_filter_disjoint) (use Cons.prems in auto)
  then show ?case using Cons by (simp add: insert_iff)
qed simp

lemma books_unique_account:
  "books_ok d \<Longrightarrow> a \<in> set (dbLedgerAccounts d) \<Longrightarrow> b \<in> set (dbLedgerAccounts d) \<Longrightarrow> laId a = laId b \<Longrightarrow> a = b"
  by (auto simp: books_ok_def distinct_map inj_on_def)

lemma books_unique_transaction:
  "books_ok d \<Longrightarrow> t \<in> set (dbLedgerTransactions d) \<Longrightarrow> u \<in> set (dbLedgerTransactions d) \<Longrightarrow> ltId t = ltId u \<Longrightarrow> t = u"
  by (auto simp: books_ok_def distinct_map inj_on_def)

lemma distinct_map_filter': "distinct (map f xs) \<Longrightarrow> distinct (map f (filter P xs))"
  by (induction xs) auto

text \<open>The accounts of an operator always sum to zero.\<close>

lemma operator_total_zero:
  assumes ok: "books_ok d"
  shows "sum_list (map (\<lambda>a. ledgerAccountBalance d w (laId a)) (listLedgerAccounts d w p)) = 0"
proof -
  let ?as = "listLedgerAccounts d w p" and ?ts = "listLedgerTransactions d w p" and ?es = "dbLedgerEntries d"
  let ?fa = "\<lambda>e. (leWorldId e, leAccountId e)" and ?ft = "\<lambda>e. (leWorldId e, leTransactionId e)"
  have da: "distinct (map laId ?as)" and dt: "distinct (map ltId ?ts)"
    using ok by (auto simp: listLedgerAccounts_def listLedgerTransactions_def books_ok_def intro: distinct_map_filter')
  then have da': "distinct (map (\<lambda>a. (w, laId a)) ?as)" and dt': "distinct (map (\<lambda>t. (w, ltId t)) ?ts)"
    by (auto simp: distinct_map inj_on_def)
  have same: "?fa e \<in> (\<lambda>a. (w, laId a)) ` set ?as \<longleftrightarrow> ?ft e \<in> (\<lambda>t. (w, ltId t)) ` set ?ts" if e: "e \<in> set ?es" for e
  proof -
    have "entry_bound d e" using ok e by (simp add: books_ok_def)
    then obtain t a where t: "t \<in> set (dbLedgerTransactions d)" "ltWorldId t = leWorldId e" "ltId t = leTransactionId e"
      and a: "a \<in> set (dbLedgerAccounts d)" "laWorldId a = leWorldId e" "laId a = leAccountId e" "laOperatorId a = ltOperatorId t"
      by (auto simp: entry_bound_def)
    have "?fa e \<in> (\<lambda>a. (w, laId a)) ` set ?as \<longleftrightarrow> leWorldId e = w \<and> laOperatorId a = p"
    proof
      assume "?fa e \<in> (\<lambda>a. (w, laId a)) ` set ?as"
      then obtain b where b: "b \<in> set ?as" "leWorldId e = w" "laId b = leAccountId e" by auto
      then have "b = a" using books_unique_account [OF ok, of b a] a by (simp add: listLedgerAccounts_def)
      then show "leWorldId e = w \<and> laOperatorId a = p" using b by (simp add: listLedgerAccounts_def)
    next
      assume "leWorldId e = w \<and> laOperatorId a = p"
      then have "a \<in> set ?as" using a by (simp add: listLedgerAccounts_def)
      then show "?fa e \<in> (\<lambda>a. (w, laId a)) ` set ?as"
        using a \<open>leWorldId e = w \<and> laOperatorId a = p\<close> by (intro image_eqI [of _ _ a]) simp_all
    qed
    moreover have "?ft e \<in> (\<lambda>t. (w, ltId t)) ` set ?ts \<longleftrightarrow> leWorldId e = w \<and> ltOperatorId t = p"
    proof
      assume "?ft e \<in> (\<lambda>t. (w, ltId t)) ` set ?ts"
      then obtain u where u: "u \<in> set ?ts" "leWorldId e = w" "ltId u = leTransactionId e" by auto
      then have "u = t" using books_unique_transaction [OF ok, of u t] t by (simp add: listLedgerTransactions_def)
      then show "leWorldId e = w \<and> ltOperatorId t = p" using u by (simp add: listLedgerTransactions_def)
    next
      assume "leWorldId e = w \<and> ltOperatorId t = p"
      then have "t \<in> set ?ts" using t by (simp add: listLedgerTransactions_def)
      then show "?ft e \<in> (\<lambda>t. (w, ltId t)) ` set ?ts"
        using t \<open>leWorldId e = w \<and> ltOperatorId t = p\<close> by (intro image_eqI [of _ _ t]) simp_all
    qed
    ultimately show ?thesis using a(4) by simp
  qed
  have "sum_list (map (\<lambda>a. ledgerAccountBalance d w (laId a)) ?as) =
      sum_list (map (\<lambda>a. sum_list (map leAmountCents (filter (\<lambda>e. ?fa e = (w, laId a)) ?es))) ?as)"
    by (simp add: ledgerAccountBalance_def)
  also have "\<dots> = sum_list (map leAmountCents (filter (\<lambda>e. ?fa e \<in> (\<lambda>a. (w, laId a)) ` set ?as) ?es))"
    by (rule sum_list_by_key [OF da'])
  also have "\<dots> = sum_list (map leAmountCents (filter (\<lambda>e. ?ft e \<in> (\<lambda>t. (w, ltId t)) ` set ?ts) ?es))"
    by (intro arg_cong [of _ _ "\<lambda>es. sum_list (map leAmountCents es)"] filter_cong refl same)
  also have "\<dots> = sum_list (map (\<lambda>t. sum_list (map leAmountCents (filter (\<lambda>e. ?ft e = (w, ltId t)) ?es))) ?ts)"
    by (rule sum_list_by_key [OF dt', symmetric])
  also have "\<dots> = sum_list (map (\<lambda>t. 0) ?ts)"
  proof (intro arg_cong [of _ _ sum_list] map_cong refl)
    fix t assume "t \<in> set ?ts"
    then have "transaction_ok d t" "ltWorldId t = w" using ok by (auto simp: books_ok_def listLedgerTransactions_def)
    then show "sum_list (map leAmountCents (filter (\<lambda>e. ?ft e = (w, ltId t)) ?es)) = 0"
      by (simp add: transaction_ok_def storedEntries_def Let_def)
  qed
  also have "\<dots> = 0" by simp
  finally show ?thesis .
qed

end
