(* ===== verification/PlatformRuns.thy ===== *)
theory PlatformRuns
  imports LedgerBooks
begin

text \<open>
  Runs of the platform: any sequence of requests to the identity, operator and ledger packages,
  accepted or refused. What holds after every run: the books balance,
  a posting with an idempotency key is booked once, a revoked access stays revoked, administrators
  come from administrators.
\<close>

datatype platform_op =
    RequestAccess string string string "world_contract option" int
  | RevokeAccess string string string int
  | GrantRole string string role string
  | FoundOperator string string string "starting_capital option"
  | OpenAccount string string string
  | EnsureAccount string string string
  | PostTransaction posting
  | OpenBooks string string starting_capital int

text \<open>The initialisation of a new operator: nothing, or the opening of its books at the epoch of the world.\<close>

definition foundingInitialization ::
    "starting_capital option \<Rightarrow> foundation_context \<Rightarrow> db \<Rightarrow> platform_error + db" where
  "foundingInitialization policy context d =
     (case policy of
        None \<Rightarrow> Inr d
      | Some p \<Rightarrow> map_sum id snd
          (initializeOperatorStartingCapital (fcWorldId context) (opId (fcOperator context)) p (fcWorldEpoch context) d))"

fun perform :: "platform_op \<Rightarrow> db \<Rightarrow> platform_error + db" where
  "perform (RequestAccess w s n c now) d = map_sum id snd (requestWorldAccess w s n c now d)"
| "perform (RevokeAccess w t a now) d = revokeWorldAccess w t a now d"
| "perform (GrantRole w t r a) d = map_sum id snd (grantRole w t r a d)"
| "perform (FoundOperator w s n p) d =
     map_sum id snd (foundOperatorWithInitialization (foundingInitialization p) w s n d)"
| "perform (OpenAccount w p n) d = map_sum id snd (openLedgerAccount w p n d)"
| "perform (EnsureAccount w p n) d = map_sum id snd (ensureLedgerAccount w p n d)"
| "perform (PostTransaction input) d = map_sum id snd (postLedgerTransaction input d)"
| "perform (OpenBooks w p c now) d = map_sum id snd (initializeOperatorStartingCapital w p c now d)"

text \<open>The database after a request that throws.\<close>

fun failed :: "platform_op \<Rightarrow> db \<Rightarrow> db" where
  "failed (RequestAccess w s n c now) d = failedRequest w s n c now d"
| "failed x d = d"

definition attempt :: "platform_op \<Rightarrow> db \<Rightarrow> db" where
  "attempt x d = (case perform x d of Inl e \<Rightarrow> failed x d | Inr d' \<Rightarrow> d')"

definition run :: "platform_op list \<Rightarrow> db \<Rightarrow> db" where
  "run ops d = fold attempt ops d"

lemma map_sum_Inr [res_simps]: "map_sum f g m = Inr y \<longleftrightarrow> (\<exists>x. m = Inr x \<and> y = g x)"
  by (cases m) auto

lemma run_invariant:
  assumes "I d" and "\<And>x d d'. I d \<Longrightarrow> perform x d = Inr d' \<Longrightarrow> I d'"
    and "\<And>w s n c now d. I d \<Longrightarrow> I (failedRequest w s n c now d)"
  shows "I (run ops d)"
  using assms(1)
proof (induction ops arbitrary: d)
  case (Cons x ops)
  have "I (failed x d)" using Cons.prems assms(3) by (cases x) auto
  then have "I (attempt x d)" using Cons.prems assms(2) by (auto simp: attempt_def split: sum.splits)
  then show ?case using Cons.IH by (simp add: run_def)
qed (simp add: run_def)

section \<open>Which tables an operation touches\<close>

definition same_ledger :: "db \<Rightarrow> db \<Rightarrow> bool" where
  "same_ledger d d' \<longleftrightarrow> dbLedgerAccounts d' = dbLedgerAccounts d \<and> dbLedgerTransactions d' = dbLedgerTransactions d \<and>
     dbLedgerEntries d' = dbLedgerEntries d \<and> (\<exists>ps. dbOperators d' = dbOperators d @ ps)"

definition same_identity :: "db \<Rightarrow> db \<Rightarrow> bool" where
  "same_identity d d' \<longleftrightarrow> dbAccesses d' = dbAccesses d \<and> dbAccounts d' = dbAccounts d \<and> dbRoles d' = dbRoles d \<and>
     dbWorlds d' = dbWorlds d"

lemma same_ledger_refl: "same_ledger d d"
  by (simp add: same_ledger_def)

lemma same_ledger_trans: "same_ledger d d' \<Longrightarrow> same_ledger d' d'' \<Longrightarrow> same_ledger d d''"
  by (auto simp: same_ledger_def)

lemma identity_inserts:
  "insertAccess row d = Inr d' \<Longrightarrow> same_ledger d d'"
  "insertAccount w s n d = Inr d' \<Longrightarrow> same_ledger d d'"
  "insertRole w a r d = Inr d' \<Longrightarrow> same_ledger d d'"
  by (auto simp: insertAccess_def insertAccount_def insertRole_def Let_def res_simps same_ledger_def split: if_splits)

lemma ensureAccess_ledger: "ensureAccess w s c now d = Inr d' \<Longrightarrow> same_ledger d d'"
  by (auto simp: ensureAccess_def Let_def res_simps same_ledger_refl storeContract_def same_ledger_def
      dest!: identity_inserts split: option.splits if_splits)

lemma requestWorldAccess_parts:
  assumes "requestWorldAccess w s n c now d = Inr (r, d')"
  obtains d1 d2 found where "case c of None \<Rightarrow> True | Some k \<Rightarrow> validateAcceptedWorldContract k = Inr ()"
    "ensureAccess w s c now d = Inr d1" "checkContract w s c d1 = Inr ()" "insertAccount w s n d1 = Inr d2"
    "findAccount d2 w s True = Inr (Some found)"
    "(RolePlayer \<in> set (arRoles found) \<and> r = found \<and> d' = d2) \<or>
     (RolePlayer \<notin> set (arRoles found) \<and> insertRole w (acId (arAccount found)) RolePlayer d2 = Inr d' \<and>
      r = found\<lparr>arRoles := arRoles found @ [RolePlayer]\<rparr>)"
proof -
  obtain d1 d2 f where parts: "(case c of None \<Rightarrow> Inr () | Some k \<Rightarrow> validateAcceptedWorldContract k) = Inr ()"
    "ensureAccess w s c now d = Inr d1" "checkContract w s c d1 = Inr ()" "insertAccount w s n d1 = Inr d2"
    "findAccount d2 w s True = Inr f"
    and rest: "(case f of
       None \<Rightarrow> Inl (PlainError ''account'')
     | Some r \<Rightarrow>
         if RolePlayer \<in> set (arRoles r) then Inr (r, d2)
         else bnd (insertRole w (acId (arAccount r)) RolePlayer d2) (\<lambda>d3.
           Inr (r\<lparr>arRoles := arRoles r @ [RolePlayer]\<rparr>, d3))) = Inr (r, d')"
    using assms unfolding requestWorldAccess_def bnd_Inr
    by (elim exE conjE) (rule that, simp, assumption, simp, assumption+)
  obtain found where f: "f = Some found" using rest by (cases f) auto
  show thesis
    by (rule that [OF _ parts(2-4) parts(5) [unfolded f]])
      (use parts(1) rest f in \<open>auto simp: bnd_Inr split: option.splits if_splits\<close>)
qed

lemma requestWorldAccess_ledger: "requestWorldAccess w s n c now d = Inr (r, d') \<Longrightarrow> same_ledger d d'"
  by (erule requestWorldAccess_parts)
    (auto dest!: ensureAccess_ledger identity_inserts intro: same_ledger_trans)

lemma failedRequest_cases:
  "failedRequest w s n c now d = d \<or> (\<exists>d1. ensureAccess w s c now d = Inr d1 \<and>
     (failedRequest w s n c now d = d1 \<or> insertAccount w s n d1 = Inr (failedRequest w s n c now d)))"
  unfolding failedRequest_def
  by (cases "case c of None \<Rightarrow> Inr () | Some c \<Rightarrow> validateAcceptedWorldContract c"; cases "ensureAccess w s c now d")
    (auto split: sum.splits)

lemma failedRequest_ledger: "same_ledger d (failedRequest w s n c now d)"
  using failedRequest_cases [of w s n c now d]
  by (auto simp: same_ledger_refl dest!: ensureAccess_ledger identity_inserts intro: same_ledger_trans)

lemma revokeWorldAccess_ledger: "revokeWorldAccess w t a now d = Inr d' \<Longrightarrow> same_ledger d d'"
  by (auto simp: revokeWorldAccess_def res_simps same_ledger_def)

lemma grantRole_ledger: "grantRole w t r a d = Inr (x, d') \<Longrightarrow> same_ledger d d'"
  by (auto simp: grantRole_def res_simps dest: identity_inserts split: option.splits)

lemma ledger_inserts_identity:
  "insertLedgerAccount w p n d = Inr (a, d') \<Longrightarrow> same_identity d d' \<and> dbOperators d' = dbOperators d"
  "insertTransactionWithEntries input d = Inr (t, d') \<Longrightarrow> same_identity d d' \<and> dbOperators d' = dbOperators d"
  by (auto simp: insertLedgerAccount_def Let_def res_simps same_identity_def elim!: transaction_inserted)

lemma same_identity_refl: "same_identity d d"
  by (simp add: same_identity_def)

lemma ledger_operations_identity:
  "openLedgerAccount w p n d = Inr (a, d') \<Longrightarrow> same_identity d d' \<and> dbOperators d' = dbOperators d"
  "ensureLedgerAccount w p n d = Inr (a, d') \<Longrightarrow> same_identity d d' \<and> dbOperators d' = dbOperators d"
  "postLedgerTransaction input d = Inr (t, d') \<Longrightarrow> same_identity d d' \<and> dbOperators d' = dbOperators d"
  subgoal by (auto simp: openLedgerAccount_def res_simps dest: ledger_inserts_identity split: option.splits)
  subgoal by (drule ensureLedgerAccount_cases(2)) (auto simp: same_identity_refl dest: ledger_inserts_identity)
  subgoal by (drule postLedgerTransaction_cases(4)) (auto simp: same_identity_refl dest: ledger_inserts_identity)
  done

lemma same_identity_trans: "same_identity d d' \<Longrightarrow> same_identity d' d'' \<Longrightarrow> same_identity d d''"
  by (simp add: same_identity_def)

lemma initialize_identity:
  assumes "initializeOperatorStartingCapital w p policy now d = Inr (ci, d')"
  shows "same_identity d d' \<and> dbOperators d' = dbOperators d"
  using assms
  by (rule initialize_parts)
    (auto dest!: ledger_operations_identity simp: same_identity_def)


lemma foundOperator_parts:
  assumes "foundOperatorWithInitialization init w s n d = Inr (ctx, d')"
  obtains (Replay) acc owned world where "getAccount d w s = Inr (Some acc)" "find (\<lambda>x. woId x = w) (dbWorlds d) = Some world"
      "woLifecycle world = WorldActive" "woKind world = PublicWorld"
      "ownedOperator d w (acId (arAccount acc)) = Some owned" "opName owned = n"
      "init (foundationContext owned True world) d = Inr d'" "ctx = foundationContext owned True world"
  | (Create) acc created world d1 where "getAccount d w s = Inr (Some acc)" "find (\<lambda>x. woId x = w) (dbWorlds d) = Some world"
      "woLifecycle world = WorldActive" "woKind world = PublicWorld \<longrightarrow> ownedOperator d w (acId (arAccount acc)) = None"
      "insertOperator w (acId (arAccount acc)) n d = Inr (created, d1)"
      "init (foundationContext created False world) d1 = Inr d'" "ctx = foundationContext created False world"
proof -
  from assms obtain f where f: "getAccount d w s = Inr f"
    by (cases "getAccount d w s") (auto simp: foundOperatorWithInitialization_def)
  obtain acc where acc: "f = Some acc"
    using assms f by (cases f) (auto simp: foundOperatorWithInitialization_def)
  obtain world where world: "find (\<lambda>x. woId x = w) (dbWorlds d) = Some world"
    using assms f acc by (cases "find (\<lambda>x. woId x = w) (dbWorlds d)") (auto simp: foundOperatorWithInitialization_def)
  have wid: "woId world = w" using world by (auto simp: find_Some_iff)
  let ?own = "if woKind world = PublicWorld then ownedOperator d w (acId (arAccount acc)) else None"
  have rest: "woLifecycle world = WorldActive"
    "(case ?own of
               Some owned \<Rightarrow>
                 invariant (opName owned = n) (PublicWorldOperatorLimitError w)
                (bnd (init (foundationContext owned True world) d) (\<lambda>d'. Inr (foundationContext owned True world, d')))
             | None \<Rightarrow> createOperator init world (acId (arAccount acc)) n d) = Inr (ctx, d')"
    using assms unfolding foundOperatorWithInitialization_def f acc bnd_simps option.case world invariant_Inr Let_def
    by blast+
  show thesis
  proof (cases ?own)
    case None
    then have "createOperator init world (acId (arAccount acc)) n d = Inr (ctx, d')" using rest(2) by simp
    then obtain created d1 where "insertOperator w (acId (arAccount acc)) n d = Inr (created, d1)"
      "init (foundationContext created False world) d1 = Inr d'" "ctx = foundationContext created False world"
      by (auto simp: createOperator_def res_simps wid)
    moreover have "woKind world = PublicWorld \<longrightarrow> ownedOperator d w (acId (arAccount acc)) = None" using None by (auto split: if_splits)
    ultimately show thesis using Create [OF f [unfolded acc] world rest(1)] by blast
  next
    case (Some owned)
    then have k: "woKind world = PublicWorld" "ownedOperator d w (acId (arAccount acc)) = Some owned"
      by (simp_all split: if_splits)
    have "opName owned = n" "init (foundationContext owned True world) d = Inr d'" "ctx = foundationContext owned True world"
      using rest(2) unfolding Some by (auto simp: res_simps)
    then show thesis by (rule Replay [OF f [unfolded acc] world rest(1) k])
  qed
qed

lemma insertOperator_parts:
  assumes "insertOperator w a n d = Inr (p, d')"
  shows "d' = d\<lparr>dbOperators := dbOperators d @ [p], dbDraws := Suc (dbDraws d)\<rparr>" "opWorldId p = w"
    "opFoundingAccountId p = a" "opName p = n" "opId p \<notin> set (map opId (dbOperators d))"
    "\<forall>q \<in> set (dbOperators d). \<not> (opWorldId q = w \<and> opName q = n)"
  using assms by (auto simp: insertOperator_def Let_def res_simps)

lemma insertOperator_ledger: "insertOperator w a n d = Inr (p, d') \<Longrightarrow> same_ledger d d' \<and> same_identity d d'"
  by (drule insertOperator_parts(1)) (simp add: same_ledger_def same_identity_def)

section \<open>The books after a run\<close>

lemma same_ledger_books: "same_ledger d d' \<Longrightarrow> books_ok d \<Longrightarrow> books_ok d'"
  by (simp add: books_ok_def same_ledger_def entry_bound_def transaction_ok_def storedEntries_def)

lemma foundingInitialization_keeps: "foundingInitialization p ctx d = Inr d' \<Longrightarrow> books_ok d \<Longrightarrow> books_ok d'"
  by (auto simp: foundingInitialization_def res_simps dest: initialize_keeps split: option.splits)

lemma foundOperator_keeps:
  "foundOperatorWithInitialization (foundingInitialization p) w s n d = Inr (ctx, d') \<Longrightarrow> books_ok d \<Longrightarrow> books_ok d'"
  by (erule foundOperator_parts) (meson foundingInitialization_keeps insertOperator_ledger same_ledger_books)+

lemma perform_keeps_books: "books_ok d \<Longrightarrow> perform x d = Inr d' \<Longrightarrow> books_ok d'"
  by (cases x)
    (auto simp: res_simps dest: requestWorldAccess_ledger revokeWorldAccess_ledger grantRole_ledger same_ledger_books
        foundOperator_keeps openLedgerAccount_keeps ensureLedgerAccount_keeps postLedgerTransaction_keeps initialize_keeps)

lemma run_keeps_books: "books_ok d \<Longrightarrow> books_ok (run ops d)"
  by (rule run_invariant [where I = books_ok])
    (auto intro: perform_keeps_books same_ledger_books [OF failedRequest_ledger])

text \<open>A database whose ledger is empty; worlds, accounts and operators may exist.\<close>

definition empty_ledger :: "db \<Rightarrow> bool" where
  "empty_ledger d \<longleftrightarrow> dbLedgerAccounts d = [] \<and> dbLedgerTransactions d = [] \<and> dbLedgerEntries d = []"

lemma empty_ledger_books: "empty_ledger d \<Longrightarrow> books_ok d"
  by (simp add: empty_ledger_def books_ok_def keys_unique_def)

section \<open>Later states\<close>

text \<open>Nothing booked ever changes: the ledger tables only grow, and no entry joins an old transaction.\<close>

definition books_extend :: "db \<Rightarrow> db \<Rightarrow> bool" where
  "books_extend d d' \<longleftrightarrow> (\<exists>as. dbLedgerAccounts d' = dbLedgerAccounts d @ as) \<and>
     (\<exists>ts. dbLedgerTransactions d' = dbLedgerTransactions d @ ts) \<and>
     (\<exists>es. dbLedgerEntries d' = dbLedgerEntries d @ es) \<and>
     (\<forall>t \<in> set (dbLedgerTransactions d).
        storedEntries d' (ltWorldId t) (ltId t) = storedEntries d (ltWorldId t) (ltId t))"

lemma books_extend_refl: "books_extend d d"
  by (simp add: books_extend_def)

lemma books_extend_trans: "books_extend d d' \<Longrightarrow> books_extend d' d'' \<Longrightarrow> books_extend d d''"
  by (auto simp: books_extend_def)

lemma same_ledger_extend: "same_ledger d d' \<Longrightarrow> books_extend d d'"
  by (simp add: same_ledger_def books_extend_def storedEntries_def)

lemma account_extend: "insertLedgerAccount w p n d = Inr (a, d') \<Longrightarrow> books_extend d d'"
  by (auto simp: insertLedgerAccount_def Let_def res_simps books_extend_def storedEntries_def)

lemma transaction_extend:
  assumes "insertTransactionWithEntries input d = Inr (t, d')"
  shows "books_extend d d'"
  using assms
proof (rule transaction_inserted)
  fix draws rows
  assume d': "d' = d\<lparr>dbLedgerTransactions := dbLedgerTransactions d @ [t], dbLedgerEntries := dbLedgerEntries d @ rows, dbDraws := draws\<rparr>"
    and rows: "\<forall>r \<in> set rows. leWorldId r = poWorldId input \<and> leTransactionId r = ltId t \<and> is_i64 (leAmountCents r)"
    and new: "ltId t \<notin> set (map ltId (dbLedgerTransactions d))"
  have "storedEntries d' (ltWorldId u) (ltId u) = storedEntries d (ltWorldId u) (ltId u)"
    if u: "u \<in> set (dbLedgerTransactions d)" for u
  proof -
    have "ltId u \<noteq> ltId t" using u new by (metis image_eqI list.set_map)
    then show ?thesis using rows by (auto simp: storedEntries_def d' filter_empty_conv)
  qed
  then show ?thesis by (simp add: books_extend_def) (simp add: d')
qed

lemma ledger_operations_extend:
  "openLedgerAccount w p n d = Inr (a, d') \<Longrightarrow> books_extend d d'"
  "ensureLedgerAccount w p n d = Inr (a, d') \<Longrightarrow> books_extend d d'"
  "postLedgerTransaction input d = Inr (t, d') \<Longrightarrow> books_extend d d'"
  subgoal by (auto simp: openLedgerAccount_def res_simps dest: account_extend split: option.splits)
  subgoal by (drule ensureLedgerAccount_cases(2)) (auto simp: books_extend_refl dest: account_extend)
  subgoal by (drule postLedgerTransaction_cases(4)) (auto simp: books_extend_refl dest: transaction_extend)
  done

lemma initialize_extend: "initializeOperatorStartingCapital w p policy now d = Inr (ci, d') \<Longrightarrow> books_extend d d'"
  by (erule initialize_parts) (blast dest: ledger_operations_extend intro: books_extend_trans)

lemma foundingInitialization_extend: "foundingInitialization p ctx d = Inr d' \<Longrightarrow> books_extend d d'"
  by (auto simp: foundingInitialization_def res_simps books_extend_refl dest: initialize_extend split: option.splits)

lemma foundOperator_extend:
  "foundOperatorWithInitialization (foundingInitialization p) w s n d = Inr (ctx, d') \<Longrightarrow> books_extend d d'"
  by (erule foundOperator_parts)
    (meson foundingInitialization_extend insertOperator_ledger same_ledger_extend books_extend_trans)+

lemma perform_extend: "perform x d = Inr d' \<Longrightarrow> books_extend d d'"
  by (cases x)
    (auto simp: res_simps dest: requestWorldAccess_ledger revokeWorldAccess_ledger grantRole_ledger same_ledger_extend
        foundOperator_extend ledger_operations_extend initialize_extend)

lemma run_extend: "books_extend d (run ops d)"
  by (rule run_invariant [where I = "books_extend d"]) 
    (auto simp: books_extend_refl intro: perform_extend same_ledger_extend failedRequest_ledger books_extend_trans)

end
