(* ===== verification/LedgerProperties.thy ===== *)
theory LedgerProperties
  imports PlatformRuns
begin

text \<open>
  What the ledger promises after every run of the platform: balanced books, bookings that never
  change, idempotent postings, and opening balances that equal the starting capital.
\<close>

section \<open>A platform to compute with\<close>

text \<open>One public world with one player, who founds an operator with 5 euros and books a sale.\<close>

definition sample_db :: db where
  "sample_db = \<lparr>dbWorlds = [\<lparr>woId = ''w'', woKind = PublicWorld, woLifecycle = WorldActive, woEpoch = 0\<rparr>],
     dbAccesses = [\<lparr>waWorldId = ''w'', waSubject = ''s'', waStatus = AccessActive, waContractHash = None, waCapitalPolicy = None,
       waAcceptedAt = None, waRevokedAt = None\<rparr>],
     dbAccounts = [\<lparr>acId = ''p'', acWorldId = ''w'', acSubject = ''s'', acDisplayName = ''n''\<rparr>],
     dbRoles = [\<lparr>rrWorldId = ''w'', rrAccountId = ''p'', rrRole = RolePlayer\<rparr>],
     dbOperators = [], dbLedgerAccounts = [], dbLedgerTransactions = [], dbLedgerEntries = [],
     dbUuid = (\<lambda>n. replicate n (CHR ''i'')), dbDraws = 1\<rparr>"

definition sample_founding :: "platform_op list" where
  "sample_founding = [FoundOperator ''w'' ''s'' ''n'' (Some (Finite 500))]"

definition sample_sale :: posting where
  "sample_sale = \<lparr>poWorldId = ''w'', poOperatorId = ''i'', poDescription = ''d'', poPostedAt = 7, poIdempotencyKey = Some ''k'',
     poEntries = [\<lparr>enAccountId = ''ii'', enAmountCents = 3, enCostType = None, enCostCentreId = None\<rparr>,
                  \<lparr>enAccountId = ''iii'', enAmountCents = - 3, enCostType = None, enCostCentreId = None\<rparr>]\<rparr>"

lemma sample_empty: "empty_ledger sample_db"
  by (simp add: empty_ledger_def sample_db_def)

section \<open>Balanced books\<close>

lemma stored_own_accounts:
  assumes ok: "books_ok d" and t: "t \<in> set (dbLedgerTransactions d)" and e: "e \<in> set (storedEntries d (ltWorldId t) (ltId t))"
  shows "\<exists>a \<in> set (listLedgerAccounts d (ltWorldId t) (ltOperatorId t)). laId a = leAccountId e"
proof -
  have mem: "e \<in> set (dbLedgerEntries d)" "leWorldId e = ltWorldId t" "leTransactionId e = ltId t"
    using e by (auto simp: storedEntries_def)
  then have "entry_bound d e" using ok by (simp add: books_ok_def)
  then obtain u a where u: "u \<in> set (dbLedgerTransactions d)" "ltId u = leTransactionId e"
    and a: "a \<in> set (dbLedgerAccounts d)" "laWorldId a = leWorldId e" "laId a = leAccountId e" "laOperatorId a = ltOperatorId u"
    by (auto simp: entry_bound_def)
  have "u = t" by (rule books_unique_transaction [OF ok u(1) t]) (simp add: u mem)
  then show ?thesis using a mem by (auto simp: listLedgerAccounts_def)
qed

text \<open>C22: Whatever requests are made to a platform with empty books, accepted or refused, the balances of the
  accounts of every operator sum to zero; every transaction has at least two entries, they sum to
  zero, and they lie on accounts of the operator of the transaction.\<close>

theorem ledger_always_balanced:
  fixes ops :: "platform_op list"
  assumes "empty_ledger d0"
  defines "d \<equiv> run ops d0"
  shows "sum_list (map (\<lambda>a. ledgerAccountBalance d w (laId a)) (listLedgerAccounts d w p)) = 0 \<and>
    (\<forall>t \<in> set (listLedgerTransactions d w p). let es = storedEntries d w (ltId t) in
       2 \<le> length es \<and> sum_list (map leAmountCents es) = 0 \<and>
       (\<forall>e \<in> set es. \<exists>a \<in> set (listLedgerAccounts d w p). laId a = leAccountId e))"
proof -
  have ok: "books_ok d" unfolding d_def by (rule run_keeps_books [OF empty_ledger_books [OF assms(1)]])
  have "transaction_ok d t \<and> (\<forall>e \<in> set (storedEntries d w (ltId t)). \<exists>a \<in> set (listLedgerAccounts d w p). laId a = leAccountId e)"
    if "t \<in> set (listLedgerTransactions d w p)" for t
  proof -
    have t: "t \<in> set (dbLedgerTransactions d)" "ltWorldId t = w" "ltOperatorId t = p"
      using that by (auto simp: listLedgerTransactions_def)
    then show ?thesis using ok stored_own_accounts [OF ok t(1)] by (simp add: books_ok_def)
  qed
  moreover have "ltWorldId t = w" if "t \<in> set (listLedgerTransactions d w p)" for t
    using that by (simp add: listLedgerTransactions_def)
  ultimately show ?thesis using operator_total_zero [OF ok] by (auto simp: transaction_ok_def Let_def)
qed

theorem ledger_always_balanced_witness:
  "let d = run (sample_founding @ [PostTransaction sample_sale]) sample_db in length (listLedgerTransactions d ''w'' ''i'') = 2 \<and>
     sum_list (map (\<lambda>a. ledgerAccountBalance d ''w'' (laId a)) (listLedgerAccounts d ''w'' ''i'')) = 0"
proof -
  have "length (listLedgerTransactions (run (sample_founding @ [PostTransaction sample_sale]) sample_db) ''w'' ''i'') = 2" by code_simp
  then show ?thesis
    using ledger_always_balanced [OF sample_empty, of "sample_founding @ [PostTransaction sample_sale]" "''w''" "''i''"]
    by (simp add: Let_def)
qed

section \<open>Booked is booked\<close>

text \<open>No request removes or changes an account, a transaction or an entry, and no entry is added to a transaction
  that has been booked.\<close>

theorem ledger_append_only:
  "\<exists>as ts es. dbLedgerAccounts (run ops d) = dbLedgerAccounts d @ as \<and>
     dbLedgerTransactions (run ops d) = dbLedgerTransactions d @ ts \<and>
     dbLedgerEntries (run ops d) = dbLedgerEntries d @ es \<and>
     (\<forall>t \<in> set (dbLedgerTransactions d). \<forall>e \<in> set es. \<not> (leWorldId e = ltWorldId t \<and> leTransactionId e = ltId t))"
proof -
  obtain as ts es where t: "dbLedgerAccounts (run ops d) = dbLedgerAccounts d @ as"
    "dbLedgerTransactions (run ops d) = dbLedgerTransactions d @ ts"
    "dbLedgerEntries (run ops d) = dbLedgerEntries d @ es"
    and s: "\<forall>t \<in> set (dbLedgerTransactions d).
        storedEntries (run ops d) (ltWorldId t) (ltId t) = storedEntries d (ltWorldId t) (ltId t)"
    using run_extend [of d ops] unfolding books_extend_def by blast
  have "\<forall>t \<in> set (dbLedgerTransactions d). \<forall>e \<in> set es. \<not> (leWorldId e = ltWorldId t \<and> leTransactionId e = ltId t)"
    using s by (auto simp: storedEntries_def t filter_empty_conv)
  then show ?thesis using t by blast
qed

theorem ledger_append_only_witness:
  "\<exists>ts. dbLedgerTransactions (run [PostTransaction sample_sale] (run sample_founding sample_db)) =
     dbLedgerTransactions (run sample_founding sample_db) @ ts \<and> length ts = 1"
proof -
  have "length (dbLedgerTransactions (run [PostTransaction sample_sale] (run sample_founding sample_db))) =
      length (dbLedgerTransactions (run sample_founding sample_db)) + 1" by code_simp
  then show ?thesis using ledger_append_only [of "[PostTransaction sample_sale]" "run sample_founding sample_db"] by auto
qed

section \<open>Idempotent postings\<close>

lemma findTransaction_Some:
  "findTransaction d w p key = Some t \<Longrightarrow> t \<in> set (dbLedgerTransactions d) \<and> ltWorldId t = w \<and> ltOperatorId t = p \<and>
     ltIdempotencyKey t = Some key"
  by (auto simp: findTransaction_def find_Some_iff)

text \<open>What a successful posting with a key leaves behind.\<close>

definition booked :: "db \<Rightarrow> posting \<Rightarrow> string \<Rightarrow> ledger_transaction \<Rightarrow> bool" where
  "booked d input key t \<longleftrightarrow> t \<in> set (dbLedgerTransactions d) \<and> ltWorldId t = poWorldId input \<and>
     ltOperatorId t = poOperatorId input \<and> ltIdempotencyKey t = Some key \<and>
     assertIdempotentReplayMatches d t input key = Inr () \<and> own_accounts d input"

lemma post_books:
  assumes ok: "books_ok d" and post: "postLedgerTransaction input d = Inr (t, d')" and key: "poIdempotencyKey input = Some key"
  shows "booked d' input key t"
  using postLedgerTransaction_cases(4) [OF post]
proof
  assume "insertTransactionWithEntries input d = Inr (t, d')"
  then show ?thesis
  proof (rule transaction_inserted)
    fix draws rows
    assume d': "d' = d\<lparr>dbLedgerTransactions := dbLedgerTransactions d @ [t], dbLedgerEntries := dbLedgerEntries d @ rows, dbDraws := draws\<rparr>"
      and rows: "map entryOf rows = poEntries input"
        "\<forall>r \<in> set rows. leWorldId r = poWorldId input \<and> leTransactionId r = ltId t \<and> is_i64 (leAmountCents r)"
      and t: "ltWorldId t = poWorldId input" "ltOperatorId t = poOperatorId input" "ltIdempotencyKey t = poIdempotencyKey input"
        "ltDescription t = poDescription input" "ltPostedAt t = poPostedAt input"
      and new: "ltId t \<notin> set (map ltId (dbLedgerTransactions d))"
    have "leTransactionId e \<noteq> ltId t" if "e \<in> set (dbLedgerEntries d)" for e
    proof -
      have "entry_bound d e" using ok that by (simp add: books_ok_def)
      then obtain u where "u \<in> set (dbLedgerTransactions d)" "ltId u = leTransactionId e" by (auto simp: entry_bound_def)
      then show ?thesis using new by (metis image_eqI list.set_map)
    qed
    then have "storedEntries d' (poWorldId input) (ltId t) = rows"
      using rows(2) by (auto simp: storedEntries_def d' filter_empty_conv filter_id_conv)
    then have "map (entrySignature \<circ> entryOf) (storedEntries d' (poWorldId input) (ltId t)) = map entrySignature (poEntries input)"
      by (simp add: rows(1) [symmetric])
    moreover have "own_accounts d' input"
      using postLedgerTransaction_cases(3) [OF post] by (simp add: own_accounts_def d')
    ultimately show "booked d' input key t"
      using t key by (simp add: booked_def assertIdempotentReplayMatches_def Let_def) (simp add: d')
  qed
next
  assume "\<exists>k. poIdempotencyKey input = Some k \<and> findTransaction d (poWorldId input) (poOperatorId input) k = Some t \<and>
         assertIdempotentReplayMatches d t input k = Inr () \<and> d' = d"
  then show ?thesis
    using key findTransaction_Some [of d "poWorldId input" "poOperatorId input" key t] postLedgerTransaction_cases(3) [OF post]
    by (simp add: booked_def)
qed

lemma booked_extend: "booked d input key t \<Longrightarrow> books_extend d d' \<Longrightarrow> booked d' input key t"
proof -
  assume b: "booked d input key t" and x: "books_extend d d'"
  have s: "storedEntries d' (poWorldId input) (ltId t) = storedEntries d (poWorldId input) (ltId t)"
    using b x by (metis booked_def books_extend_def)
  have "set (dbLedgerTransactions d) \<subseteq> set (dbLedgerTransactions d')" "set (dbLedgerAccounts d) \<subseteq> set (dbLedgerAccounts d')"
    using x by (auto simp: books_extend_def)
  moreover have "own_accounts d input \<Longrightarrow> own_accounts d' input"
    using calculation(2) by (meson own_accounts_def subsetD)
  ultimately show ?thesis using b by (simp add: booked_def assertIdempotentReplayMatches_def Let_def s subsetD)
qed

lemma booked_found:
  assumes "books_ok d" and "booked d input key t"
  shows "findTransaction d (poWorldId input) (poOperatorId input) key = Some t"
    and "keyTaken d (poWorldId input) (poOperatorId input) (Some key)"
proof -
  have t: "t \<in> set (dbLedgerTransactions d)" "ltWorldId t = poWorldId input" "ltOperatorId t = poOperatorId input"
    "ltIdempotencyKey t = Some key" using assms(2) by (auto simp: booked_def)
  then show "keyTaken d (poWorldId input) (poOperatorId input) (Some key)" by (auto simp: keyTaken_def)
  have "findTransaction d (poWorldId input) (poOperatorId input) key \<noteq> None"
    using t by (auto simp: findTransaction_def find_None_iff)
  then obtain u where u: "findTransaction d (poWorldId input) (poOperatorId input) key = Some u" by blast
  have "u = t" using findTransaction_Some [OF u] t assms(1) by (auto simp: books_ok_def keys_unique_def)
  then show "findTransaction d (poWorldId input) (poOperatorId input) key = Some t" using u by simp
qed

text \<open>C23: A posting with an idempotency key is booked once: after any further requests the same posting succeeds with
  the transaction of the first time and changes nothing, and a posting of other content under the
  same key never books.\<close>

theorem posting_exactly_once:
  fixes later :: "platform_op list"
  assumes "books_ok d" and "postLedgerTransaction input d = Inr (t, d1)" and "poIdempotencyKey input = Some key"
  defines "d2 \<equiv> run later d1"
  shows "postLedgerTransaction input d2 = Inr (t, d2) \<and>
    (\<forall>other. poWorldId other = poWorldId input \<longrightarrow> poOperatorId other = poOperatorId input \<longrightarrow> poIdempotencyKey other = Some key \<longrightarrow>
       (case postLedgerTransaction other d2 of Inl e \<Rightarrow> True | Inr (t', d') \<Rightarrow> t' = t \<and> d' = d2))"
proof -
  have ok: "books_ok d2" unfolding d2_def
    by (rule run_keeps_books [OF postLedgerTransaction_keeps [OF assms(2,1)]])
  have b: "booked d2 input key t" unfolding d2_def
    by (rule booked_extend [OF post_books [OF assms(1-3)] run_extend])
  note f = booked_found [OF ok b]
  have fa: "foreignAccount d2 input = None" using b by (simp add: foreignAccount_None booked_def)
  have costs: "\<forall>e \<in> set (poEntries input). (enCostType e = None) = (enCostCentreId e = None)"
    using assms(2) unfolding postLedgerTransaction_def invariant_Inr by blast
  have "postLedgerTransaction input d2 = Inr (t, d2)"
    using postLedgerTransaction_cases(1,2) [OF assms(2)] costs f fa b assms(3)
    by (simp add: postLedgerTransaction_def Let_def invariant_def booked_def)
  moreover have "(case postLedgerTransaction input' d2 of Inl e \<Rightarrow> True | Inr (t', d') \<Rightarrow> t' = t \<and> d' = d2)"
    if i: "poWorldId input' = poWorldId input" "poOperatorId input' = poOperatorId input" "poIdempotencyKey input' = Some key" for input'
  proof (cases "postLedgerTransaction input' d2")
    case (Inr x)
    obtain t' d' where x: "x = (t', d')" by (cases x)
    have "\<not> insertTransactionWithEntries input' d2 = Inr (t', d')"
      using f(2) i by (auto elim!: transaction_inserted)
    then show ?thesis using postLedgerTransaction_cases(4) [OF Inr [unfolded x]] f(1) i by (auto simp: Inr x)
  qed simp
  ultimately show ?thesis by blast
qed

lemma sample_books: "books_ok (run sample_founding sample_db)"
  by (rule run_keeps_books [OF empty_ledger_books [OF sample_empty]])

theorem posting_exactly_once_witness:
  "case postLedgerTransaction sample_sale (run sample_founding sample_db) of Inl e \<Rightarrow> False
   | Inr (t, d) \<Rightarrow> postLedgerTransaction sample_sale (run [OpenAccount ''w'' ''i'' ''x''] d) = Inr (t, run [OpenAccount ''w'' ''i'' ''x''] d)"
proof -
  have "case postLedgerTransaction sample_sale (run sample_founding sample_db) of Inl e \<Rightarrow> False | Inr r \<Rightarrow> True" by code_simp
  then obtain t d where r: "postLedgerTransaction sample_sale (run sample_founding sample_db) = Inr (t, d)"
    by (cases "postLedgerTransaction sample_sale (run sample_founding sample_db)") auto
  show ?thesis
    using posting_exactly_once [OF sample_books r, of "''k''" "[OpenAccount ''w'' ''i'' ''x'']"]
    by (simp add: r) (simp add: sample_sale_def)
qed

section \<open>Opening the books\<close>

text \<open>The accounts of the ledger belong to operators that exist.\<close>

definition accounts_known :: "db \<Rightarrow> bool" where
  "accounts_known d \<longleftrightarrow> (\<forall>a \<in> set (dbLedgerAccounts d). operatorExists d (laWorldId a) (laOperatorId a))"

lemma same_ledger_known: "same_ledger d d' \<Longrightarrow> accounts_known d \<Longrightarrow> accounts_known d'"
  by (fastforce simp: accounts_known_def same_ledger_def operatorExists_def)

lemma insertLedgerAccount_known:
  "insertLedgerAccount w p n d = Inr (a, d') \<Longrightarrow> accounts_known d \<Longrightarrow> accounts_known d'"
  by (simp add: insertLedgerAccount_def Let_def res_simps accounts_known_def operatorExists_def) force

lemma insertTransaction_known:
  "insertTransactionWithEntries input d = Inr (t, d') \<Longrightarrow> accounts_known d \<Longrightarrow> accounts_known d'"
  by (erule transaction_inserted) (simp add: accounts_known_def operatorExists_def)

lemma ledger_operations_known:
  assumes "accounts_known d"
  shows "openLedgerAccount w p n d = Inr (a, d') \<Longrightarrow> accounts_known d'"
    "ensureLedgerAccount w p n d = Inr (a, d') \<Longrightarrow> accounts_known d'"
    "postLedgerTransaction input d = Inr (t, d') \<Longrightarrow> accounts_known d'"
  subgoal using assms by (auto simp: openLedgerAccount_def res_simps dest: insertLedgerAccount_known split: option.splits)
  subgoal using assms by (auto dest: insertLedgerAccount_known dest!: ensureLedgerAccount_cases(2))
  subgoal using assms by (auto dest: insertTransaction_known dest!: postLedgerTransaction_cases(4))
  done

lemma initialize_known: "initializeOperatorStartingCapital w p policy now d = Inr (ci, d') \<Longrightarrow> accounts_known d \<Longrightarrow> accounts_known d'"
  by (erule initialize_parts) (blast dest: ledger_operations_known)

lemma foundingInitialization_known: "foundingInitialization p ctx d = Inr d' \<Longrightarrow> accounts_known d \<Longrightarrow> accounts_known d'"
  by (auto simp: foundingInitialization_def res_simps dest: initialize_known split: option.splits)

lemma foundOperator_known:
  "foundOperatorWithInitialization (foundingInitialization p) w s n d = Inr (ctx, d') \<Longrightarrow> accounts_known d \<Longrightarrow> accounts_known d'"
  by (erule foundOperator_parts) (meson foundingInitialization_known insertOperator_ledger same_ledger_known)+

lemma perform_known: "accounts_known d \<Longrightarrow> perform x d = Inr d' \<Longrightarrow> accounts_known d'"
  by (cases x)
    (auto simp: res_simps dest: requestWorldAccess_ledger revokeWorldAccess_ledger grantRole_ledger same_ledger_known
        foundOperator_known ledger_operations_known initialize_known)

lemma run_known: "accounts_known d \<Longrightarrow> accounts_known (run ops d)"
  by (rule run_invariant [where I = accounts_known])
    (auto intro: perform_known same_ledger_known [OF failedRequest_ledger])

text \<open>An account that was not there and the one that is.\<close>

lemma ensure_new:
  assumes "ensureLedgerAccount w p n d = Inr (a, d')" and "findLedgerAccount d w p n = None"
  shows "listLedgerAccounts d' w p = listLedgerAccounts d w p @ [a]" "dbLedgerEntries d' = dbLedgerEntries d"
    "laName a = n" "laId a \<notin> set (map laId (dbLedgerAccounts d))" "dbLedgerAccounts d' = dbLedgerAccounts d @ [a]"
    "dbLedgerTransactions d' = dbLedgerTransactions d"
  using ensureLedgerAccount_cases(2) [OF assms(1)] assms(2)
  by (auto simp: insertLedgerAccount_def Let_def res_simps listLedgerAccounts_def)

lemma ledger_balance_new:
  assumes ok: "books_ok d" and ins: "insertTransactionWithEntries input d = Inr (t, d')"
  shows "ledgerAccountBalance d' (poWorldId input) a =
     ledgerAccountBalance d (poWorldId input) a + sum_list (map enAmountCents (filter (\<lambda>e. enAccountId e = a) (poEntries input)))"
  using ins
proof (rule transaction_inserted)
  fix draws rows
  assume d': "d' = d\<lparr>dbLedgerTransactions := dbLedgerTransactions d @ [t], dbLedgerEntries := dbLedgerEntries d @ rows, dbDraws := draws\<rparr>"
    and rows: "map entryOf rows = poEntries input"
      "\<forall>r \<in> set rows. leWorldId r = poWorldId input \<and> leTransactionId r = ltId t \<and> is_i64 (leAmountCents r)"
  have "filter (\<lambda>e. leWorldId e = poWorldId input \<and> leAccountId e = a) rows = filter (\<lambda>e. leAccountId e = a) rows"
    using rows(2) by (intro filter_cong) auto
  moreover have "filter (\<lambda>e. enAccountId e = a) (poEntries input) = map entryOf (filter (\<lambda>e. leAccountId e = a) rows)"
    by (simp add: rows(1) [symmetric] filter_map comp_def)
  ultimately show ?thesis by (simp add: ledgerAccountBalance_def d' comp_def)
qed

lemma foreign_balance_zero:
  assumes "books_ok d" and "i \<notin> set (map laId (dbLedgerAccounts d))"
  shows "ledgerAccountBalance d w i = 0"
proof -
  have "leAccountId e \<noteq> i" if "e \<in> set (dbLedgerEntries d)" for e
  proof -
    have "entry_bound d e" using that assms(1) by (simp add: books_ok_def)
    then obtain a where "a \<in> set (dbLedgerAccounts d)" "laId a = leAccountId e" by (auto simp: entry_bound_def)
    then show ?thesis using assms(2) by (metis image_eqI list.set_map)
  qed
  then have none: "filter (\<lambda>e. leWorldId e = w \<and> leAccountId e = i) (dbLedgerEntries d) = []"
    by (auto simp: filter_empty_conv)
  show ?thesis by (simp add: ledgerAccountBalance_def none)
qed

lemma find_account_None: "n \<notin> laName ` set (listLedgerAccounts d w p) \<Longrightarrow> findLedgerAccount d w p n = None"
  by (auto simp: findLedgerAccount_def find_None_iff listLedgerAccounts_def)

text \<open>An operator without accounts has no transactions.\<close>

lemma no_accounts_no_transactions:
  assumes "books_ok d" and "listLedgerAccounts d w p = []"
  shows "findTransaction d w p key = None"
proof (rule ccontr)
  assume "findTransaction d w p key \<noteq> None"
  then obtain t where t: "t \<in> set (dbLedgerTransactions d)" "ltWorldId t = w" "ltOperatorId t = p"
    using findTransaction_Some by blast
  then have "transaction_ok d t" using assms(1) by (simp add: books_ok_def)
  then obtain e where "e \<in> set (storedEntries d (ltWorldId t) (ltId t))"
    by (cases "storedEntries d (ltWorldId t) (ltId t)") (auto simp: transaction_ok_def)
  then show False using stored_own_accounts [OF assms(1) t(1)] assms(2) t by auto
qed

lemma names_differ: "STARTING_CAPITAL_CASH_ACCOUNT_NAME \<noteq> STARTING_CAPITAL_EQUITY_ACCOUNT_NAME"
  by (simp add: STARTING_CAPITAL_CASH_ACCOUNT_NAME_def STARTING_CAPITAL_EQUITY_ACCOUNT_NAME_def)

lemma opening_posting_simps [simp]:
  "poWorldId (openingPosting w p now c e a) = w" "poOperatorId (openingPosting w p now c e a) = p"
  "poIdempotencyKey (openingPosting w p now c e a) = Some STARTING_CAPITAL_IDEMPOTENCY_KEY"
  by (simp_all add: openingPosting_def)

lemma opening_entries:
  assumes "c \<noteq> e"
  shows "sum_list (map enAmountCents (filter (\<lambda>x. enAccountId x = c) (poEntries (openingPosting w p now c e a)))) = a"
    "sum_list (map enAmountCents (filter (\<lambda>x. enAccountId x = e) (poEntries (openingPosting w p now c e a)))) = - a"
  using assms by (simp_all add: openingPosting_def)

text \<open>Founding a new operator with a finite starting capital leaves it exactly two accounts: the cash account
  holds the starting capital, and the equity account its opposite.\<close>

theorem founding_opens_books:
  fixes ops :: "platform_op list"
  assumes "empty_ledger d0" and "foundOperatorWithInitialization (foundingInitialization (Some (Finite capital))) w s n (run ops d0) = Inr (ctx, d)"
    and "\<not> fcReplay ctx"
  shows "\<exists>cash equity. listLedgerAccounts d w (opId (fcOperator ctx)) = [cash, equity] \<and>
     laName cash = STARTING_CAPITAL_CASH_ACCOUNT_NAME \<and> laName equity = STARTING_CAPITAL_EQUITY_ACCOUNT_NAME \<and>
     ledgerAccountBalance d w (laId cash) = capital \<and> ledgerAccountBalance d w (laId equity) = - capital"
  using assms(2)
proof (cases rule: foundOperator_parts)
  case Replay
  then show ?thesis using assms(3) by (simp add: foundationContext_def)
next
  case (Create acc created world d1)
  let ?d = "run ops d0" and ?p = "opId created"
  have ok: "books_ok ?d" by (rule run_keeps_books [OF empty_ledger_books [OF assms(1)]])
  have "accounts_known ?d" by (rule run_known) (use assms(1) in \<open>simp add: empty_ledger_def accounts_known_def\<close>)
  moreover have new: "?p \<notin> set (map opId (dbOperators ?d))" by (rule insertOperator_parts(5) [OF Create(5)])
  ultimately have no: "laOperatorId a \<noteq> ?p" if "a \<in> set (dbLedgerAccounts ?d)" for a
    using that unfolding accounts_known_def operatorExists_def by (metis image_eqI list.set_map)
  have same: "dbLedgerAccounts d1 = dbLedgerAccounts ?d"
    using insertOperator_ledger [OF Create(5)] by (simp add: same_ledger_def)
  have ok1: "books_ok d1" using insertOperator_ledger [OF Create(5)] ok same_ledger_books by blast
  have w: "woId world = w" using Create(2) by (auto simp: find_Some_iff)
  have fresh: "listLedgerAccounts d1 w ?p = []" using no by (auto simp: listLedgerAccounts_def same filter_empty_conv)
  obtain ci where init: "initializeOperatorStartingCapital w ?p (Finite capital) (woEpoch world) d1 = Inr (ci, d)"
    using Create(6) by (auto simp: foundingInitialization_def foundationContext_def res_simps w)
  from init obtain d2 d3 t where e: "ensureLedgerAccount w ?p STARTING_CAPITAL_CASH_ACCOUNT_NAME d1 = Inr (ciCashAccount ci, d2)"
      "ensureLedgerAccount w ?p STARTING_CAPITAL_EQUITY_ACCOUNT_NAME d2 = Inr (ciEquityAccount ci, d3)"
    and post: "postLedgerTransaction (openingPosting w ?p (woEpoch world) (laId (ciCashAccount ci)) (laId (ciEquityAccount ci)) capital) d3 = Inr (t, d)"
    by (rule initialize_parts) auto
  have ok2: "books_ok d2" and ok3: "books_ok d3" using e ok1 ensureLedgerAccount_keeps by blast+
  note n2 = ensure_new [OF e(1) find_account_None]
  have list2: "listLedgerAccounts d2 w ?p = [ciCashAccount ci]" and cash: "laName (ciCashAccount ci) = STARTING_CAPITAL_CASH_ACCOUNT_NAME"
    using n2(1,3) by (simp_all add: fresh)
  note n3 = ensure_new [OF e(2) find_account_None]
  have none3: "STARTING_CAPITAL_EQUITY_ACCOUNT_NAME \<notin> laName ` set (listLedgerAccounts d2 w ?p)"
    using names_differ by (simp add: list2 cash)
  have list3: "listLedgerAccounts d3 w ?p = [ciCashAccount ci, ciEquityAccount ci]"
    and equity: "laName (ciEquityAccount ci) = STARTING_CAPITAL_EQUITY_ACCOUNT_NAME"
    and acc3: "dbLedgerAccounts d3 = dbLedgerAccounts d2 @ [ciEquityAccount ci]"
    using n3(1,3,5) [OF none3] by (simp_all add: list2)
  have acc2: "dbLedgerAccounts d2 = dbLedgerAccounts d1 @ [ciCashAccount ci]"
    and new2: "laId (ciCashAccount ci) \<notin> set (map laId (dbLedgerAccounts d1))" using n2(4,5) by (simp_all add: fresh)
  have new3: "laId (ciEquityAccount ci) \<notin> set (map laId (dbLedgerAccounts d2))" by (rule n3(4) [OF none3])
  have differ: "laId (ciCashAccount ci) \<noteq> laId (ciEquityAccount ci)" using new3 by (auto simp: acc2)
  have es: "dbLedgerEntries d3 = dbLedgerEntries d1" "dbLedgerTransactions d3 = dbLedgerTransactions d1"
    using n2(2,6) n3(2,6) [OF none3] by (simp_all add: fresh)
  have zero: "ledgerAccountBalance d3 w (laId (ciCashAccount ci)) = 0" "ledgerAccountBalance d3 w (laId (ciEquityAccount ci)) = 0"
    using foreign_balance_zero [OF ok1, of _ w] new2 new3 by (simp_all add: ledgerAccountBalance_def es acc2)
  have "findTransaction d3 w ?p STARTING_CAPITAL_IDEMPOTENCY_KEY = None"
    using no_accounts_no_transactions [OF ok1 fresh] by (simp add: findTransaction_def es)
  then have ins: "insertTransactionWithEntries (openingPosting w ?p (woEpoch world) (laId (ciCashAccount ci))
      (laId (ciEquityAccount ci)) capital) d3 = Inr (t, d)"
    using postLedgerTransaction_cases(4) [OF post] by simp
  then have "listLedgerAccounts d w ?p = listLedgerAccounts d3 w ?p"
    by (rule transaction_inserted) (simp add: listLedgerAccounts_def)
  moreover have "fcOperator ctx = created" using Create(7) by (simp add: foundationContext_def)
  ultimately show ?thesis
    using list3 cash equity ledger_balance_new [OF ok3 ins] by (simp add: zero opening_entries [OF differ])
qed

theorem founding_opens_books_witness:
  "case foundOperatorWithInitialization (foundingInitialization (Some (Finite 500))) ''w'' ''s'' ''n'' (run [] sample_db) of
     Inl e \<Rightarrow> False
   | Inr (ctx, d) \<Rightarrow> \<exists>cash equity. listLedgerAccounts d ''w'' (opId (fcOperator ctx)) = [cash, equity] \<and>
       ledgerAccountBalance d ''w'' (laId cash) = 500 \<and> ledgerAccountBalance d ''w'' (laId equity) = - 500"
proof -
  let ?r = "foundOperatorWithInitialization (foundingInitialization (Some (Finite 500))) ''w'' ''s'' ''n'' (run [] sample_db)"
  have "case ?r of Inl e \<Rightarrow> False | Inr (ctx, d) \<Rightarrow> \<not> fcReplay ctx" by code_simp
  then obtain ctx d where r: "?r = Inr (ctx, d)" "\<not> fcReplay ctx" by (cases ?r) auto
  show ?thesis using founding_opens_books [OF sample_empty r] by (simp add: r) blast
qed

end
