(* ===== verification/IdentityProperties.thy ===== *)
theory IdentityProperties
  imports LedgerProperties
begin

text \<open>
  What the identity and operator packages promise after every run of the platform: who may enter a
  world, who administers it, what the list of its accounts shows, and how many operators a player of
  a public world can found.
\<close>

section \<open>Requests to the tables of identity\<close>

lemma insertAccess_parts:
  "insertAccess row d = Inr d' \<Longrightarrow> d' = d \<or> (d' = d\<lparr>dbAccesses := dbAccesses d @ [row]\<rparr> \<and>
     (\<forall>a \<in> set (dbAccesses d). \<not> (waWorldId a = waWorldId row \<and> waSubject a = waSubject row)))"
  by (auto simp: insertAccess_def res_simps split: if_splits)

lemma insertAccount_parts:
  assumes "insertAccount w s n d = Inr d'"
  shows "\<exists>rows. d' = d\<lparr>dbAccounts := dbAccounts d @ rows, dbDraws := Suc (dbDraws d)\<rparr> \<and>
     (rows = [] \<or> (\<exists>a. rows = [a] \<and> acWorldId a = w \<and> acSubject a = s \<and> acDisplayName a = n \<and>
        (\<forall>b \<in> set (dbAccounts d). acId b \<noteq> acId a \<and> \<not> (acWorldId b = w \<and> acSubject b = s))))"
proof (cases "\<exists>a \<in> set (dbAccounts d). acWorldId a = w \<and> acSubject a = s \<or> acId a = nextUuid d")
  case True
  then have "d' = d\<lparr>dbDraws := Suc (dbDraws d)\<rparr>" using assms by (simp add: insertAccount_def Let_def)
  then show ?thesis by (intro exI [of _ "[]"]) simp
next
  case False
  let ?row = "\<lparr>acId = nextUuid d, acWorldId = w, acSubject = s, acDisplayName = n\<rparr>"
  have "d' = d\<lparr>dbDraws := Suc (dbDraws d), dbAccounts := dbAccounts d @ [?row]\<rparr>"
    using assms False by (simp add: insertAccount_def Let_def res_simps)
  then show ?thesis using False by (intro exI [of _ "[?row]"]) auto
qed

lemma insertRole_parts:
  "insertRole w a r d = Inr d' \<Longrightarrow> \<lparr>rrWorldId = w, rrAccountId = a, rrRole = r\<rparr> \<in> set (dbRoles d') \<and>
     (d' = d \<or> d' = d\<lparr>dbRoles := dbRoles d @ [\<lparr>rrWorldId = w, rrAccountId = a, rrRole = r\<rparr>]\<rparr>)"
  by (auto simp: insertRole_def Let_def res_simps split: if_splits)

text \<open>The access rows after a request: each old row kept, or completed by the contract; a new row is active.\<close>

lemma ensureAccess_parts:
  assumes "ensureAccess w s c now d = Inr d'"
  shows "\<exists>f rows. d' = d\<lparr>dbAccesses := map f (dbAccesses d) @ rows\<rparr> \<and>
     (\<forall>a. waWorldId (f a) = waWorldId a \<and> waSubject (f a) = waSubject a \<and> waStatus (f a) = waStatus a)"
proof -
  have same: "d = d\<lparr>dbAccesses := map (\<lambda>a. a) (dbAccesses d) @ []\<rparr>" by simp
  have ins: "insertAccess (newAccess w s c now) d = Inr d' \<Longrightarrow> ?thesis"
  proof (drule insertAccess_parts, elim disjE conjE)
    assume "d' = d"
    then show ?thesis using same by (intro exI [of _ "\<lambda>a. a"] exI [of _ "[]"]) simp
  next
    assume "d' = d\<lparr>dbAccesses := dbAccesses d @ [newAccess w s c now]\<rparr>"
    then show ?thesis by (intro exI [of _ "\<lambda>a. a"] exI [of _ "[newAccess w s c now]"]) simp
  qed
  show ?thesis
  proof (cases "findAccess d w s")
    case None
    then show ?thesis using assms ins by (auto simp: ensureAccess_def Let_def res_simps split: option.splits)
  next
    case (Some a)
    show ?thesis
    proof (cases "d' = d")
      case True
      then show ?thesis using same by (intro exI [of _ "\<lambda>a. a"] exI [of _ "[]"]) simp
    next
      case False
      then obtain k where "d' = storeContract w s k now d"
        using assms Some by (auto simp: ensureAccess_def Let_def res_simps split: option.splits if_splits)
      then show ?thesis
        by (intro exI [of _ "\<lambda>a. if waWorldId a = w \<and> waSubject a = s \<and> waContractHash a = None
            then acceptContract k now a else a"] exI [of _ "[]"]) (auto simp: storeContract_def acceptContract_def)
    qed
  qed
qed

section \<open>Revoked stays revoked\<close>

definition revoked :: "db \<Rightarrow> string \<Rightarrow> string \<Rightarrow> bool" where
  "revoked d w s \<longleftrightarrow> (case findAccess d w s of None \<Rightarrow> False | Some a \<Rightarrow> waStatus a = AccessRevoked)"

lemma find_map: "find P (map f xs) = map_option f (find (P \<circ> f) xs)"
  by (induction xs) auto

lemma revoked_map:
  assumes "revoked d w s" and "dbAccesses d' = map f (dbAccesses d) @ rows"
    and "\<forall>a. waWorldId (f a) = waWorldId a \<and> waSubject (f a) = waSubject a \<and> (waStatus a = AccessRevoked \<longrightarrow> waStatus (f a) = AccessRevoked)"
  shows "revoked d' w s"
  using assms by (auto simp: revoked_def findAccess_def find_map find_append comp_def split: option.splits)

lemma revoked_same: "revoked d w s \<Longrightarrow> dbAccesses d' = dbAccesses d \<Longrightarrow> revoked d' w s"
  by (simp add: revoked_def findAccess_def)

lemma revoked_ensure: "revoked d w s \<Longrightarrow> ensureAccess w' s' c now d = Inr d' \<Longrightarrow> revoked d' w s"
proof (drule ensureAccess_parts, elim exE conjE)
  fix f rows
  assume "revoked d w s" "d' = d\<lparr>dbAccesses := map f (dbAccesses d) @ rows\<rparr>"
    "\<forall>a. waWorldId (f a) = waWorldId a \<and> waSubject (f a) = waSubject a \<and> waStatus (f a) = waStatus a"
  then show ?thesis by (intro revoked_map [of d w s d' f rows]) simp_all
qed

lemma insertAccount_accesses: "insertAccount w s n d = Inr d' \<Longrightarrow> dbAccesses d' = dbAccesses d"
  by (drule insertAccount_parts) auto

lemma insertRole_accesses: "insertRole w a r d = Inr d' \<Longrightarrow> dbAccesses d' = dbAccesses d"
  by (drule insertRole_parts) auto

lemma revoked_request: "revoked d w s \<Longrightarrow> requestWorldAccess w' s' n c now d = Inr (r, d') \<Longrightarrow> revoked d' w s"
  by (erule requestWorldAccess_parts)
    (metis revoked_ensure revoked_same insertAccount_accesses insertRole_accesses)

lemma revoked_failed: "revoked d w s \<Longrightarrow> revoked (failedRequest w' s' n c now d) w s"
  using failedRequest_cases [of w' s' n c now d] by (metis revoked_ensure revoked_same insertAccount_accesses)

lemma revokeRow_keeps: "waWorldId (revokeRow w t now a) = waWorldId a \<and> waSubject (revokeRow w t now a) = waSubject a \<and>
   (waStatus a = AccessRevoked \<longrightarrow> waStatus (revokeRow w t now a) = AccessRevoked)"
  by (simp add: revokeRow_def)

lemma revoked_revoke: "revoked d w s \<Longrightarrow> revokeWorldAccess w' t a now d = Inr d' \<Longrightarrow> revoked d' w s"
  by (rule revoked_map [where f = "revokeRow w' t now" and rows = "[]"])
    (auto simp: revokeWorldAccess_def res_simps revokeRow_keeps)

lemma revoked_grant: "revoked d w s \<Longrightarrow> grantRole w' t r a d = Inr (x, d') \<Longrightarrow> revoked d' w s"
  by (auto simp: grantRole_def res_simps split: option.splits dest: insertRole_accesses revoked_same)

lemma foundingInitialization_identity:
  "foundingInitialization p ctx d = Inr d' \<Longrightarrow> same_identity d d' \<and> dbOperators d' = dbOperators d"
  by (auto simp: foundingInitialization_def res_simps same_identity_refl dest: initialize_identity split: option.splits)

lemma foundOperator_identity:
  "foundOperatorWithInitialization (foundingInitialization p) w s n d = Inr (ctx, d') \<Longrightarrow> same_identity d d'"
  by (erule foundOperator_parts)
    (meson foundingInitialization_identity insertOperator_ledger same_identity_trans)+

text \<open>The requests that leave accesses, accounts and roles as they are.\<close>

lemma perform_same_identity:
  assumes "perform x d = Inr d'"
  shows "same_identity d d' \<or> (\<exists>w s n c now. x = RequestAccess w s n c now) \<or> (\<exists>w t a now. x = RevokeAccess w t a now) \<or>
    (\<exists>w t r a. x = GrantRole w t r a)"
  using assms
  by (cases x) (auto simp: res_simps dest: foundOperator_identity ledger_operations_identity initialize_identity)

lemma perform_revoked: "revoked d w s \<Longrightarrow> perform x d = Inr d' \<Longrightarrow> revoked d' w s"
  using perform_same_identity [of x d d']
  by (auto simp: res_simps same_identity_def dest: revoked_same revoked_request revoked_revoke revoked_grant)

lemma revoked_findAccount: "revoked d w s \<Longrightarrow> findAccount d w s True = Inl (AccessRevokedError w)"
  by (auto simp: revoked_def findAccount_def Let_def split: option.splits)

lemma revoked_ensure_fails: "revoked d w s \<Longrightarrow> ensureAccess w s c now d = Inl (AccessRevokedError w)"
  by (cases "findAccess d w s") (simp_all add: revoked_def ensureAccess_def Let_def)



section \<open>Administrators come from administrators\<close>

lemma identity_roles:
  "ensureAccess w s c now d = Inr d' \<Longrightarrow> dbRoles d' = dbRoles d"
  "insertAccount w s n d = Inr d' \<Longrightarrow> dbRoles d' = dbRoles d"
  by (auto dest: ensureAccess_parts insertAccount_parts)

lemma request_roles:
  assumes "requestWorldAccess w s n c now d = Inr (r, d')"
  shows "dbRoles d' = dbRoles d \<or> (\<exists>a. dbRoles d' = dbRoles d @ [\<lparr>rrWorldId = w, rrAccountId = a, rrRole = RolePlayer\<rparr>])"
  using assms
  by (rule requestWorldAccess_parts) (auto simp: identity_roles dest: insertRole_parts)

lemma grant_parts:
  assumes "grantRole w t r by d = Inr (x, d')"
  obtains acc where "getAccount d w by = Inr (Some acc)"
    "RoleWorldAdmin \<in> set (arRoles acc) \<or> adminsOf d w = [] \<and> t = acId (arAccount acc)"
    "dbRoles d' = dbRoles d \<or> dbRoles d' = dbRoles d @ [\<lparr>rrWorldId = w, rrAccountId = t, rrRole = r\<rparr>]"
proof -
  have adm: "requireWorldAdmin d w by (Some t) = Inr ()"
    using assms by (auto simp: grantRole_def res_simps)
  have rest: "insertRole w t r d = Inr d'"
    using assms adm by (cases "find (\<lambda>a. acId a = t \<and> acWorldId a = w) (dbAccounts d)") (auto simp: grantRole_def res_simps find_Some_iff)
  obtain acc where "findAccount d w by True = Inr (Some acc)"
    "RoleWorldAdmin \<in> set (arRoles acc) \<or> adminsOf d w = [] \<and> t = acId (arAccount acc)"
    using adm by (auto simp: requireWorldAdmin_def res_simps split: option.splits)
  then show thesis using that rest by (auto simp: getAccount_def dest!: insertRole_parts)
qed

text \<open>C25: A new administrator of a world is made only by a grant whose author is an administrator of the world, or, while
  it has none, by an account that names itself; and no role is ever lost.\<close>

theorem admins_come_from_admins:
  assumes "perform x d = Inr d'"
  shows "set (dbRoles d) \<subseteq> set (dbRoles d') \<and>
    (\<forall>r \<in> set (adminsOf d' w) - set (adminsOf d w). \<exists>author acc. x = GrantRole w (rrAccountId r) RoleWorldAdmin author \<and>
       getAccount d w author = Inr (Some acc) \<and>
       (RoleWorldAdmin \<in> set (arRoles acc) \<or> adminsOf d w = [] \<and> rrAccountId r = acId (arAccount acc)))"
  using perform_same_identity [OF assms]
proof (elim disjE exE)
  assume "same_identity d d'"
  then show ?thesis by (simp add: same_identity_def adminsOf_def)
next
  fix v s n c now assume "x = RequestAccess v s n c now"
  then obtain res where "requestWorldAccess v s n c now d = Inr (res, d')" using assms by (auto simp: res_simps)
  then show ?thesis by - (drule request_roles, auto simp: adminsOf_def)
next
  fix v t a now assume "x = RevokeAccess v t a now"
  then have "dbRoles d' = dbRoles d" using assms by (auto simp: revokeWorldAccess_def res_simps)
  then show ?thesis by (simp add: adminsOf_def)
next
  fix v t r a assume x: "x = GrantRole v t r a"
  then obtain y where "grantRole v t r a d = Inr (y, d')" using assms by (auto simp: res_simps)
  then show ?thesis by (rule grant_parts) (auto simp: adminsOf_def x)
qed

theorem admins_come_from_admins_witness:
  "case perform (GrantRole ''w'' ''p'' RoleWorldAdmin ''s'') sample_db of Inl e \<Rightarrow> False
   | Inr d \<Rightarrow> adminsOf d ''w'' \<noteq> [] \<and> set (dbRoles sample_db) \<subseteq> set (dbRoles d)"
proof -
  have "case perform (GrantRole ''w'' ''p'' RoleWorldAdmin ''s'') sample_db of Inl e \<Rightarrow> False | Inr d \<Rightarrow> adminsOf d ''w'' \<noteq> []"
    by code_simp
  then show ?thesis
    using admins_come_from_admins [of "GrantRole ''w'' ''p'' RoleWorldAdmin ''s''" sample_db] by (auto split: sum.splits)
qed

section \<open>The list of accounts\<close>

definition publicRecord :: "db \<Rightarrow> account_row \<Rightarrow> public_account_record" where
  "publicRecord d a = \<lparr>prAccount = publicAccount a, prRoles = rolesOf d (acWorldId a) (acId a)\<rparr>"

definition accountKey :: "public_account \<Rightarrow> string" where
  "accountKey a = paWorldId a @ '':'' @ paId a"

definition rowsOf :: "public_account \<Rightarrow> role list \<Rightarrow> (public_account \<times> role option) list" where
  "rowsOf a roles = (if roles = [] then [(a, None)] else map (\<lambda>r. (a, Some r)) roles)"

lemma public_simps [simp]:
  "paId (publicAccount a) = acId a" "paWorldId (publicAccount a) = acWorldId a"
  by (simp_all add: publicAccount_def)

lemma addRoleRow_key: "addRoleRow (a, r) g =
    (let result = (case map_of g (accountKey a) of Some x \<Rightarrow> x | None \<Rightarrow> \<lparr>prAccount = a, prRoles = []\<rparr>)
     in AList.update (accountKey a) (case r of None \<Rightarrow> result | Some x \<Rightarrow> result\<lparr>prRoles := prRoles result @ [x]\<rparr>) g)"
  unfolding addRoleRow_def accountKey_def Let_def by simp

lemma addRoleRow_new: "accountKey a \<notin> fst ` set g \<Longrightarrow> addRoleRow (a, r) g =
    g @ [(accountKey a, \<lparr>prAccount = a, prRoles = (case r of None \<Rightarrow> [] | Some x \<Rightarrow> [x])\<rparr>)]"
  by (auto simp: addRoleRow_key Let_def update_new map_of_eq_None_iff [symmetric] split: option.splits)

lemma addRoleRow_old: "accountKey a \<notin> fst ` set g \<Longrightarrow>
    addRoleRow (a, Some r) (g @ [(accountKey a, \<lparr>prAccount = a, prRoles = rs\<rparr>)]) =
    g @ [(accountKey a, \<lparr>prAccount = a, prRoles = rs @ [r]\<rparr>)]"
proof -
  assume new: "accountKey a \<notin> fst ` set g"
  then have "map_of g (accountKey a) = None" by (simp add: map_of_eq_None_iff)
  moreover have "AList.update (accountKey a) v (g @ [(accountKey a, u)]) = g @ [(accountKey a, v)]" for u v :: public_account_record
    using new by (induction g) auto
  ultimately show ?thesis by (simp add: addRoleRow_key Let_def map_add_def)
qed

lemma addRoleRows_old: "accountKey a \<notin> fst ` set g \<Longrightarrow>
    fold addRoleRow (map (\<lambda>r. (a, Some r)) roles) (g @ [(accountKey a, \<lparr>prAccount = a, prRoles = rs\<rparr>)]) =
    g @ [(accountKey a, \<lparr>prAccount = a, prRoles = rs @ roles\<rparr>)]"
  by (induction roles arbitrary: rs) (simp_all add: addRoleRow_old)

lemma addRows: "accountKey a \<notin> fst ` set g \<Longrightarrow>
    fold addRoleRow (rowsOf a roles) g = g @ [(accountKey a, \<lparr>prAccount = a, prRoles = roles\<rparr>)]"
  by (cases roles) (simp_all add: rowsOf_def addRoleRow_new addRoleRows_old)

lemma addAllRows:
  assumes "distinct (map accountKey as)" and "\<forall>a \<in> set as. accountKey a \<notin> fst ` set g"
  shows "fold addRoleRow (concat (map (\<lambda>a. rowsOf a (f a)) as)) g = g @ map (\<lambda>a. (accountKey a, \<lparr>prAccount = a, prRoles = f a\<rparr>)) as"
  using assms
proof (induction as arbitrary: g)
  case (Cons a as)
  have "accountKey b \<notin> fst ` set (g @ [(accountKey a, \<lparr>prAccount = a, prRoles = f a\<rparr>)])" if "b \<in> set as" for b
    using Cons.prems that by (auto simp: image_iff)
  then show ?case using Cons by (simp add: addRows)
qed simp

text \<open>The accounts a world may show.\<close>

definition shownAccounts :: "db \<Rightarrow> string \<Rightarrow> account_row list" where
  "shownAccounts d w = filter (\<lambda>a. acWorldId a = w \<and> hasActiveAccess d a) (dbAccounts d)"

lemma collect_shown:
  assumes "distinct (map acId (dbAccounts d))"
  shows "collectAccountRoles (accountRoleRows d w) = map (publicRecord d) (shownAccounts d w)"
proof -
  let ?as = "shownAccounts d w"
  let ?f = "\<lambda>a. rolesOf d (paWorldId a) (paId a)"
  have "distinct (map acId ?as)" using assms by (simp add: shownAccounts_def distinct_map_filter')
  moreover have "\<forall>a \<in> set ?as. acWorldId a = w" by (simp add: shownAccounts_def)
  ultimately have d: "distinct (map accountKey (map publicAccount ?as))"
    by (auto simp: distinct_map inj_on_def accountKey_def)
  have "accountRoleRows d w = concat (map (\<lambda>a. rowsOf a (?f a)) (map publicAccount ?as))"
    by (simp add: accountRoleRows_def shownAccounts_def rowsOf_def Let_def comp_def cong: if_cong)
  then show ?thesis using addAllRows [OF d, of "[]" ?f]
    by (simp add: collectAccountRoles_def comp_def publicRecord_def)
qed

definition accounts_ok :: "db \<Rightarrow> bool" where
  "accounts_ok d \<longleftrightarrow> distinct (map acId (dbAccounts d)) \<and> distinct (map (\<lambda>a. (acWorldId a, acSubject a)) (dbAccounts d))"

lemma accounts_ok_same: "accounts_ok d \<Longrightarrow> dbAccounts d' = dbAccounts d \<Longrightarrow> accounts_ok d'"
  by (simp add: accounts_ok_def)

lemma insertAccount_ok: "accounts_ok d \<Longrightarrow> insertAccount w s n d = Inr d' \<Longrightarrow> accounts_ok d'"
proof (drule insertAccount_parts, elim exE conjE disjE)
  fix rows a
  assume ok: "accounts_ok d" and d': "d' = d\<lparr>dbAccounts := dbAccounts d @ rows, dbDraws := Suc (dbDraws d)\<rparr>" "rows = [a]"
    and a: "acWorldId a = w" "acSubject a = s"
    and new: "\<forall>b \<in> set (dbAccounts d). acId b \<noteq> acId a \<and> \<not> (acWorldId b = w \<and> acSubject b = s)"
  have "acId a \<notin> acId ` set (dbAccounts d)" "(w, s) \<notin> (\<lambda>a. (acWorldId a, acSubject a)) ` set (dbAccounts d)"
    using new by (auto simp: image_iff)
  then show "accounts_ok d'" using ok a by (simp add: accounts_ok_def d')
qed (simp add: accounts_ok_def)

lemma other_accounts:
  "ensureAccess w s c now d = Inr d' \<Longrightarrow> dbAccounts d' = dbAccounts d"
  "insertRole w a r d = Inr d' \<Longrightarrow> dbAccounts d' = dbAccounts d"
  by (auto dest: ensureAccess_parts insertRole_parts)

lemma request_accounts:
  assumes "requestWorldAccess w s n c now d = Inr (r, d')"
  obtains d1 d2 where "dbAccounts d1 = dbAccounts d" "insertAccount w s n d1 = Inr d2" "dbAccounts d' = dbAccounts d2"
  using assms
  by (rule requestWorldAccess_parts) (use that other_accounts in blast)

lemma failed_accounts:
  "dbAccounts (failedRequest w s n c now d) = dbAccounts d \<or> (\<exists>d1. dbAccounts d1 = dbAccounts d \<and>
     insertAccount w s n d1 = Inr (failedRequest w s n c now d))"
  using failedRequest_cases [of w s n c now d] other_accounts by metis

lemma admin_accounts:
  "revokeWorldAccess w t a now d = Inr d' \<Longrightarrow> dbAccounts d' = dbAccounts d"
  "grantRole w t r a d = Inr (x, d') \<Longrightarrow> dbAccounts d' = dbAccounts d"
  by (auto simp: revokeWorldAccess_def grantRole_def res_simps split: option.splits dest: other_accounts)

text \<open>Every request either leaves the accounts as they are or passes through \<open>insertAccount\<close>.\<close>

lemma perform_accounts:
  assumes "perform x d = Inr d'"
  shows "dbAccounts d' = dbAccounts d \<or> (\<exists>w s n d1 d2. dbAccounts d1 = dbAccounts d \<and> insertAccount w s n d1 = Inr d2 \<and>
     dbAccounts d' = dbAccounts d2)"
  using perform_same_identity [OF assms]
proof (elim disjE exE)
  fix w s n c now assume "x = RequestAccess w s n c now"
  then obtain r where "requestWorldAccess w s n c now d = Inr (r, d')" using assms by (auto simp: res_simps)
  then show ?thesis by (rule request_accounts) blast
qed (use assms in \<open>auto simp: same_identity_def res_simps dest: admin_accounts\<close>)

lemma perform_accounts_ok: "accounts_ok d \<Longrightarrow> perform x d = Inr d' \<Longrightarrow> accounts_ok d'"
  by (drule perform_accounts) (metis accounts_ok_same insertAccount_ok)

lemma run_accounts_ok: "accounts_ok d \<Longrightarrow> accounts_ok (run ops d)"
  by (rule run_invariant [where I = accounts_ok])
    (use perform_accounts_ok failed_accounts accounts_ok_same insertAccount_ok in metis)+

text \<open>The list of the accounts of a world is refused to a subject without an active account there; otherwise it
  shows exactly the accounts of this world whose access is active, each once, in the order of their
  creation, with all its roles. This holds after any run of requests from a platform without accounts.\<close>

theorem list_shows_active_accounts:
  fixes ops :: "platform_op list"
  assumes "dbAccounts d0 = []"
  defines "d \<equiv> run ops d0"
  shows "listAccountsInWorld d w s = (case getAccount d w s of
      Inl e \<Rightarrow> Inl e
    | Inr None \<Rightarrow> Inl (AuthorizationError w)
    | Inr (Some _) \<Rightarrow> Inr (map (publicRecord d) (shownAccounts d w)))"
proof -
  have "accounts_ok d" unfolding d_def by (rule run_accounts_ok) (simp add: accounts_ok_def assms)
  then have "collectAccountRoles (accountRoleRows d w) = map (publicRecord d) (shownAccounts d w)"
    by (intro collect_shown) (simp add: accounts_ok_def)
  then show ?thesis
    by (cases "findAccount d w s True") (auto simp: listAccountsInWorld_def getAccount_def invariant_def split: option.splits)
qed

text \<open>A world without accounts, and two players who enter it.\<close>

definition empty_platform :: db where
  "empty_platform = sample_db\<lparr>dbAccesses := [], dbAccounts := [], dbRoles := []\<rparr>"

definition two_players :: "platform_op list" where
  "two_players = [RequestAccess ''w'' ''s'' ''n'' None 1, RequestAccess ''w'' ''t'' ''m'' None 2,
     RevokeAccess ''w'' ''t'' ''t'' 3, GrantRole ''w'' ''i'' RoleWorldAdmin ''s'']"

theorem list_shows_active_accounts_witness:
  "listAccountsInWorld (run two_players empty_platform) ''w'' ''s'' =
     Inr [\<lparr>prAccount = \<lparr>paId = ''i'', paWorldId = ''w'', paDisplayName = ''n''\<rparr>, prRoles = [RolePlayer, RoleWorldAdmin]\<rparr>]"
proof -
  have "(case getAccount (run two_players empty_platform) ''w'' ''s'' of
      Inl e \<Rightarrow> Inl e
    | Inr None \<Rightarrow> Inl (AuthorizationError ''w'')
    | Inr (Some _) \<Rightarrow> Inr (map (publicRecord (run two_players empty_platform)) (shownAccounts (run two_players empty_platform) ''w''))) =
     Inr [\<lparr>prAccount = \<lparr>paId = ''i'', paWorldId = ''w'', paDisplayName = ''n''\<rparr>, prRoles = [RolePlayer, RoleWorldAdmin]\<rparr>]"
    by code_simp
  then show ?thesis
    using list_shows_active_accounts [of empty_platform two_players "''w''" "''s''"] by (simp add: empty_platform_def)
qed

section \<open>Operators\<close>

text \<open>The operators of a platform whose worlds are \<open>ws\<close>.\<close>

definition same_owner :: "world_row list \<Rightarrow> operator_row \<Rightarrow> operator_row \<Rightarrow> bool" where
  "same_owner ws p q \<longleftrightarrow> opWorldId p = opWorldId q \<and> opFoundingAccountId p = opFoundingAccountId q \<and>
     (\<exists>v. find (\<lambda>x. woId x = opWorldId p) ws = Some v \<and> woKind v = PublicWorld)"

definition operators_clash :: "world_row list \<Rightarrow> operator_row \<Rightarrow> operator_row \<Rightarrow> bool" where
  "operators_clash ws p q \<longleftrightarrow> opId p = opId q \<or> opWorldId p = opWorldId q \<and> opName p = opName q \<or> same_owner ws p q"

definition operators_ok :: "world_row list \<Rightarrow> db \<Rightarrow> bool" where
  "operators_ok ws d \<longleftrightarrow> dbWorlds d = ws \<and>
     (\<forall>p \<in> set (dbOperators d). \<forall>q \<in> set (dbOperators d). operators_clash ws p q \<longrightarrow> p = q) \<and>
     (\<forall>p \<in> set (dbOperators d). \<exists>a \<in> set (dbAccounts d). acId a = opFoundingAccountId p \<and> acWorldId a = opWorldId p)"

lemma clash_sym: "operators_clash ws p q \<longleftrightarrow> operators_clash ws q p"
  by (auto simp: operators_clash_def same_owner_def)

lemma operators_ok_grow:
  assumes "operators_ok ws d" and "dbWorlds d' = dbWorlds d" and "dbOperators d' = dbOperators d"
    and "set (dbAccounts d) \<subseteq> set (dbAccounts d')"
  shows "operators_ok ws d'"
  using assms by (simp add: operators_ok_def) blast

lemma insertAccount_grow: "insertAccount w s n d = Inr d' \<Longrightarrow> set (dbAccounts d) \<subseteq> set (dbAccounts d') \<and>
    dbWorlds d' = dbWorlds d \<and> dbOperators d' = dbOperators d"
  by (drule insertAccount_parts) auto

lemma other_grow:
  "ensureAccess w s c now d = Inr d' \<Longrightarrow> dbWorlds d' = dbWorlds d \<and> dbOperators d' = dbOperators d"
  "insertRole w a r d = Inr d' \<Longrightarrow> dbWorlds d' = dbWorlds d \<and> dbOperators d' = dbOperators d"
  by (auto dest: ensureAccess_parts insertRole_parts)

lemma request_grow:
  assumes "requestWorldAccess w s n c now d = Inr (r, d')" and ok: "operators_ok ws d"
  shows "operators_ok ws d'"
  using assms(1)
proof (rule requestWorldAccess_parts)
  fix d1 d2 found
  assume e: "ensureAccess w s c now d = Inr d1" and i: "insertAccount w s n d1 = Inr d2"
    and r: "(RolePlayer \<in> set (arRoles found) \<and> r = found \<and> d' = d2) \<or>
     (RolePlayer \<notin> set (arRoles found) \<and> insertRole w (acId (arAccount found)) RolePlayer d2 = Inr d' \<and>
      r = found\<lparr>arRoles := arRoles found @ [RolePlayer]\<rparr>)"
  have "dbWorlds d' = dbWorlds d2 \<and> dbOperators d' = dbOperators d2 \<and> dbAccounts d' = dbAccounts d2"
    using r other_grow(2) other_accounts(2) by blast
  then show ?thesis
    using operators_ok_grow [OF ok] insertAccount_grow [OF i] other_grow(1) [OF e] other_accounts(1) [OF e] by simp
qed

lemma failed_grow: "operators_ok ws d \<Longrightarrow> operators_ok ws (failedRequest w s n c now d)"
  using failedRequest_cases [of w s n c now d]
  by (metis operators_ok_grow insertAccount_grow other_grow(1) other_accounts(1) order_refl)

lemma admin_grow:
  "revokeWorldAccess w t a now d = Inr d' \<Longrightarrow> dbWorlds d' = dbWorlds d \<and> dbOperators d' = dbOperators d"
  "grantRole w t r a d = Inr (x, d') \<Longrightarrow> dbWorlds d' = dbWorlds d \<and> dbOperators d' = dbOperators d"
  by (auto simp: revokeWorldAccess_def grantRole_def res_simps split: option.splits dest: other_grow)

lemma accountRow_id: "getAccount d w s = Inr (Some acc) \<Longrightarrow>
    \<exists>a \<in> set (dbAccounts d). acId a = acId (arAccount acc) \<and> acWorldId a = w"
  by (auto simp: getAccount_def findAccount_def accountRow_def withRoles_def Let_def find_Some_iff split: option.splits if_splits)

lemma foundOperator_ok:
  assumes "foundOperatorWithInitialization (foundingInitialization p) w s n d = Inr (ctx, d')" and ok: "operators_ok ws d"
  shows "operators_ok ws d'"
  using assms(1)
proof (cases rule: foundOperator_parts)
  case (Replay acc owned world)
  then show ?thesis
    using ok foundingInitialization_identity [of p _ d d'] by (auto simp: operators_ok_def same_identity_def)
next
  case (Create acc created world d1)
  note new = insertOperator_parts [OF Create(5)]
  have d': "same_identity d1 d'" "dbOperators d' = dbOperators d1"
    using foundingInitialization_identity [OF Create(6)] by auto
  have tabs: "dbOperators d' = dbOperators d @ [created]" "dbAccounts d' = dbAccounts d" "dbWorlds d' = dbWorlds d"
    using d' by (simp_all add: new(1) same_identity_def)
  have "\<not> operators_clash ws created q" if q: "q \<in> set (dbOperators d)" for q
  proof -
    have "opId q \<noteq> opId created" using q new(5) by (metis image_eqI list.set_map)
    moreover have "\<not> (opWorldId q = w \<and> opName q = n)" using q new(6) by blast
    moreover have "\<not> same_owner ws created q"
    proof
      assume o: "same_owner ws created q"
      then obtain v where "find (\<lambda>x. woId x = w) ws = Some v" "woKind v = PublicWorld" by (auto simp: same_owner_def new)
      moreover have "dbWorlds d = ws" using ok by (simp add: operators_ok_def)
      ultimately have "woKind world = PublicWorld" using Create(2) by simp
      then have "ownedOperator d w (acId (arAccount acc)) = None" using Create(4) by blast
      then show False using o q by (auto simp: ownedOperator_def find_None_iff same_owner_def new)
    qed
    ultimately show ?thesis by (simp add: operators_clash_def new) metis
  qed
  then show ?thesis
    using ok accountRow_id [OF Create(1)] unfolding operators_ok_def tabs by (auto simp: new clash_sym)
qed

lemma perform_operators: "operators_ok ws d \<Longrightarrow> perform x d = Inr d' \<Longrightarrow> operators_ok ws d'"
proof -
  assume ok: "operators_ok ws d" and x: "perform x d = Inr d'"
  have ledger: "same_identity d d' \<and> dbOperators d' = dbOperators d \<Longrightarrow> operators_ok ws d'"
    using operators_ok_grow [OF ok, of d'] by (simp add: same_identity_def)
  have admin: "dbWorlds d' = dbWorlds d \<and> dbOperators d' = dbOperators d \<Longrightarrow> dbAccounts d' = dbAccounts d \<Longrightarrow> operators_ok ws d'"
    using operators_ok_grow [OF ok, of d'] by simp
  show ?thesis
  proof (cases x)
    case RequestAccess then show ?thesis using x ok request_grow by (auto simp: res_simps)
  next
    case RevokeAccess then show ?thesis using x admin admin_grow(1) admin_accounts(1) by fastforce
  next
    case GrantRole then show ?thesis using x admin admin_grow(2) admin_accounts(2) by (fastforce simp: res_simps)
  next
    case FoundOperator then show ?thesis using x ok foundOperator_ok by (auto simp: res_simps)
  qed (use x ledger ledger_operations_identity initialize_identity in \<open>fastforce simp: res_simps\<close>)+
qed

text \<open>After any run from a platform without operators, every operator belongs to an account of its own world,
  identifiers and the names within a world are unique, and in a public world no account owns two
  operators.\<close>

theorem one_operator_per_player:
  fixes ops :: "platform_op list"
  assumes "dbOperators d0 = []"
  defines "d \<equiv> run ops d0"
  shows "\<forall>p \<in> set (dbOperators d).
    (\<exists>a \<in> set (dbAccounts d). acId a = opFoundingAccountId p \<and> acWorldId a = opWorldId p) \<and>
    (\<forall>q \<in> set (dbOperators d). opId p = opId q \<or> opWorldId p = opWorldId q \<and> opName p = opName q \<or>
       opWorldId p = opWorldId q \<and> opFoundingAccountId p = opFoundingAccountId q \<and>
         (\<exists>v. find (\<lambda>x. woId x = opWorldId p) (dbWorlds d) = Some v \<and> woKind v = PublicWorld) \<longrightarrow> p = q)"
proof -
  have "operators_ok (dbWorlds d0) d" unfolding d_def
  proof (rule run_invariant [where I = "operators_ok (dbWorlds d0)"])
    show "operators_ok (dbWorlds d0) d0" using assms(1) by (simp add: operators_ok_def)
  qed (rule perform_operators failed_grow, assumption+)+
  then have "dbWorlds d = dbWorlds d0" "\<And>p q. p \<in> set (dbOperators d) \<Longrightarrow> q \<in> set (dbOperators d) \<Longrightarrow>
      operators_clash (dbWorlds d0) p q \<Longrightarrow> p = q"
    "\<And>p. p \<in> set (dbOperators d) \<Longrightarrow> \<exists>a \<in> set (dbAccounts d). acId a = opFoundingAccountId p \<and> acWorldId a = opWorldId p"
    by (simp_all add: operators_ok_def)
  then show ?thesis unfolding operators_clash_def same_owner_def by metis
qed

theorem one_operator_per_player_witness:
  "dbOperators (run (sample_founding @ sample_founding @ [FoundOperator ''w'' ''s'' ''m'' None]) sample_db) =
     [\<lparr>opId = ''i'', opWorldId = ''w'', opFoundingAccountId = ''p'', opName = ''n''\<rparr>] \<and>
   list_ex (\<lambda>a. acId a = ''p'' \<and> acWorldId a = ''w'')
     (dbAccounts (run (sample_founding @ sample_founding @ [FoundOperator ''w'' ''s'' ''m'' None]) sample_db))"
proof -
  have "dbOperators sample_db = []" by (simp add: sample_db_def)
  moreover have "dbOperators (run (sample_founding @ sample_founding @ [FoundOperator ''w'' ''s'' ''m'' None]) sample_db) =
     [\<lparr>opId = ''i'', opWorldId = ''w'', opFoundingAccountId = ''p'', opName = ''n''\<rparr>]" by code_simp
  ultimately show ?thesis
    using one_operator_per_player [of sample_db "sample_founding @ sample_founding @ [FoundOperator ''w'' ''s'' ''m'' None]"]
    by (simp add: list_ex_iff)
qed

end
