(* ===== verification/GtfsPlanning.thy ===== *)
theory GtfsPlanning
  imports Decimal
begin

text \<open>
  The planning of the offer from GTFS, \<open>packages/gtfs/src/planning.ts\<close>: the snapshot, its canonical
  text and hash, the identities of patterns and lots bound to the release, and the validation.
  SHA-256 (of a text, as hexadecimal digits) and \<open>localeCompare\<close>, whose order is that of the
  platform's collation, are arguments. \<open>Object.freeze\<close> has no counterpart.
\<close>

datatype planning_error = GtfsPlanningError string

definition GTFS_PLANNING_SCHEMA :: string where
  "GTFS_PLANNING_SCHEMA = ''zugfolge-gtfs-planning/v2''"

definition GTFS_SERVICE_PATTERN_IDENTITY_SCHEMA :: string where
  "GTFS_SERVICE_PATTERN_IDENTITY_SCHEMA = ''zugfolge-gtfs-service-pattern-identity/v2''"

definition GTFS_SERVICE_LOT_IDENTITY_SCHEMA :: string where
  "GTFS_SERVICE_LOT_IDENTITY_SCHEMA = ''zugfolge-gtfs-service-lot-identity/v2''"

section \<open>The snapshot\<close>

record planning_source =
  psSourceId :: string
  psFeedUrl :: string
  psArchiveSha256 :: string
  psCapturedAt :: string
  psTimeZone :: string
  psSourceLicense :: string
  psAttribution :: string

record planning_requirements =
  pnMinimumSeats :: int
  pnMinimumMaximumSpeedKph :: "int option"
  pnFirstClassBasisPoints :: int
  pnAccessible :: bool
  pnBicyclePlaces :: int
  pnWheelchairPlaces :: int
  pnRequiredEquipment :: "string list"

record planned_journey =
  pjId :: "string option"
  pjSourceTripIds :: "string list option"
  pjSourceTripId :: string
  pjServiceDate :: string
  pjDepartureServiceSeconds :: int
  pjArrivalServiceSeconds :: int
  pjDepartureEpochSeconds :: int
  pjArrivalEpochSeconds :: int

record pattern_presentation =
  pePatternDesignation :: string
  pePatternOrigin :: string
  pePatternDestination :: string

record pattern_metrics =
  pmJourneyCount :: int
  pmTotalTrainMeters :: string
  pmTotalStops :: string
  pmTotalServiceSeconds :: string
  pmTotalEnergyWh :: string
  pmMedianHeadwaySeconds :: "int option"
  pmMaximumOperatingSpanSeconds :: int
  pmPeakVehicles :: int

record service_pattern =
  spId :: string
  spLineId :: string
  spPresentation :: "pattern_presentation option"
  spDirectionId :: string
  spSourceRouteIds :: "string list"
  spStopIds :: "string list"
  spStopNames :: "string list"
  spNodeIds :: "string list"
  spEdgeIds :: "string list"
  spDistanceMeters :: int
  spJourneys :: "planned_journey list"
  spMetrics :: pattern_metrics

record specification_basis =
  sfSampleServiceDays :: int
  sfTotalTrainMeters :: string
  sfTotalStops :: string
  sfTotalServiceSeconds :: string
  sfTotalEnergyWh :: string
  sfPeakVehicles :: int
  sfFacilityMinutesPerDay :: int
  sfOvernightUnits :: int
  sfProtectionUnits :: int
  sfRequirements :: planning_requirements

record gtfs_lot =
  slId :: string
  slLineIds :: "string list"
  slPatternIds :: "string list"
  slConnectingNodeIds :: "string list"
  slSize :: int
  slAttractiveness :: int
  slSmallLot :: bool
  slSpecificationBasis :: specification_basis

record timetable_specification =
  tsSchemaVersion :: "string option"
  tsVersion :: string
  tsDepartureGridSeconds :: int
  tsMinimumRunningSeconds :: int
  tsRequireEligibleTerminals :: "bool option"

record timetable_generation =
  tgSeed :: string
  tgSpecification :: timetable_specification

record planning_snapshot =
  snSchema :: string
  snWorldId :: string
  snRevision :: int
  snProducedAt :: int
  snSource :: planning_source
  snInfrastructureVersion :: string
  snRulesVersion :: string
  snServiceDates :: "string list"
  snSourceTimetableHash :: "string option"
  snTimetableGeneration :: "timetable_generation option"
  snPatterns :: "service_pattern list"
  snLots :: "gtfs_lot list"

record planning_envelope =
  evSnapshot :: planning_snapshot
  evSnapshotHashText :: string

section \<open>Checks\<close>

definition planText :: "string \<Rightarrow> string \<Rightarrow> planning_error + unit" where
  "planText v name = invariant (\<not> blank v) (GtfsPlanningError name) (Inr ())"

definition planInteger :: "int \<Rightarrow> string \<Rightarrow> int \<Rightarrow> planning_error + unit" where
  "planInteger v name minimum = invariant (is_safe v \<and> v \<ge> minimum) (GtfsPlanningError name) (Inr ())"

definition planDecimal :: "string \<Rightarrow> string \<Rightarrow> planning_error + unit" where
  "planDecimal v name = invariant (canonical_digits v) (GtfsPlanningError name) (Inr ())"

definition uniqueStrings :: "string list \<Rightarrow> string \<Rightarrow> bool \<Rightarrow> planning_error + unit" where
  "uniqueStrings vs name allowEmpty =
     invariant (allowEmpty \<or> length vs > 0) (GtfsPlanningError name)
    (bnd (map_res (\<lambda>v. planText v name) vs) (\<lambda>_.
     invariant (length (remdups vs) = length vs) (GtfsPlanningError name) (Inr ())))"

section \<open>Canonical text\<close>

text \<open>
  \<open>canonicalPlanningJson\<close>: the keys of objects sorted by the collation, recursively; an undefined
  property, an unsupported value and a number that is no safe integer are refused.
\<close>

definition checkedNumber :: "int \<Rightarrow> planning_error + string" where
  "checkedNumber n = bnd (planInteger n ''Zahlenwert'' (- 9007199254740991)) (\<lambda>_. Inr (int_str n))"

definition definedEntry :: "string \<times> jsval \<Rightarrow> planning_error + string \<Rightarrow> planning_error + string" where
  "definedEntry e t = invariant (snd e \<noteq> JUndefined) (GtfsPlanningError ''undefined'')
     (bnd t (\<lambda>s. Inr (json_string (fst e) @ '':'' @ s)))"

fun canonicalPlanningJson :: "(string \<Rightarrow> string \<Rightarrow> int) \<Rightarrow> jsval \<Rightarrow> planning_error + string" where
  "canonicalPlanningJson lc (JArray vs) =
     bnd (map_res (canonicalPlanningJson lc) vs) (\<lambda>ts. Inr (''['' @ join '','' ts @ '']''))"
| "canonicalPlanningJson lc (JObject kvs) =
     bnd (map_res snd (sort_by (\<lambda>a b. lc (fst a) (fst b))
           (map (\<lambda>(k, v). (k, definedEntry (k, v) (canonicalPlanningJson lc v))) kvs))) (\<lambda>ts.
     Inr (''{'' @ join '','' ts @ ''}''))"
| "canonicalPlanningJson lc JNull = Inr ''null''"
| "canonicalPlanningJson lc (JString s) = Inr (json_string s)"
| "canonicalPlanningJson lc (JBool b) = Inr (if b then ''true'' else ''false'')"
| "canonicalPlanningJson lc (JInt n) = checkedNumber n"
| "canonicalPlanningJson lc JNonInt = Inl (GtfsPlanningError ''Zahlenwert'')"
| "canonicalPlanningJson lc JUndefined = Inl (GtfsPlanningError ''Wert'')"

definition planningSha256 :: "(string \<Rightarrow> string) \<Rightarrow> string \<Rightarrow> string" where
  "planningSha256 sha256 v = sha256 v"

definition textArray :: "string list \<Rightarrow> jsval" where
  "textArray xs = JArray (map JString xs)"

text \<open>A property that is present only with a value.\<close>

definition optionally :: "string \<Rightarrow> ('a \<Rightarrow> jsval) \<Rightarrow> 'a option \<Rightarrow> (string \<times> jsval) list" where
  "optionally k f v = (case v of None \<Rightarrow> [] | Some x \<Rightarrow> [(k, f x)])"

definition requirementsJson :: "planning_requirements \<Rightarrow> jsval" where
  "requirementsJson r = JObject ([(''minimumSeats'', JInt (pnMinimumSeats r))] @
     optionally ''minimumMaximumSpeedKph'' JInt (pnMinimumMaximumSpeedKph r) @
     [(''firstClassBasisPoints'', JInt (pnFirstClassBasisPoints r)), (''accessible'', JBool (pnAccessible r)),
      (''bicyclePlaces'', JInt (pnBicyclePlaces r)), (''wheelchairPlaces'', JInt (pnWheelchairPlaces r)),
      (''requiredEquipment'', textArray (pnRequiredEquipment r))])"

definition sourceJson :: "planning_source \<Rightarrow> jsval" where
  "sourceJson s = JObject [(''sourceId'', JString (psSourceId s)), (''feedUrl'', JString (psFeedUrl s)),
     (''archiveSha256'', JString (psArchiveSha256 s)), (''capturedAt'', JString (psCapturedAt s)),
     (''timeZone'', JString (psTimeZone s)), (''sourceLicense'', JString (psSourceLicense s)),
     (''attribution'', JString (psAttribution s))]"

definition journeyJson :: "planned_journey \<Rightarrow> jsval" where
  "journeyJson j = JObject (optionally ''id'' JString (pjId j) @ optionally ''sourceTripIds'' textArray (pjSourceTripIds j) @
     [(''sourceTripId'', JString (pjSourceTripId j)), (''serviceDate'', JString (pjServiceDate j)),
      (''departureServiceSeconds'', JInt (pjDepartureServiceSeconds j)),
      (''arrivalServiceSeconds'', JInt (pjArrivalServiceSeconds j)),
      (''departureEpochSeconds'', JInt (pjDepartureEpochSeconds j)), (''arrivalEpochSeconds'', JInt (pjArrivalEpochSeconds j))])"

definition presentationJson :: "pattern_presentation \<Rightarrow> jsval" where
  "presentationJson p = JObject [(''designation'', JString (pePatternDesignation p)),
     (''origin'', JString (pePatternOrigin p)), (''destination'', JString (pePatternDestination p))]"

definition patternMetricsJson :: "pattern_metrics \<Rightarrow> jsval" where
  "patternMetricsJson m = JObject [(''journeyCount'', JInt (pmJourneyCount m)), (''totalTrainMeters'', JString (pmTotalTrainMeters m)),
     (''totalStops'', JString (pmTotalStops m)), (''totalServiceSeconds'', JString (pmTotalServiceSeconds m)),
     (''totalEnergyWh'', JString (pmTotalEnergyWh m)),
     (''medianHeadwaySeconds'', case pmMedianHeadwaySeconds m of None \<Rightarrow> JNull | Some n \<Rightarrow> JInt n),
     (''maximumOperatingSpanSeconds'', JInt (pmMaximumOperatingSpanSeconds m)), (''peakVehicles'', JInt (pmPeakVehicles m))]"

definition patternJson :: "service_pattern \<Rightarrow> jsval" where
  "patternJson p = JObject ([(''id'', JString (spId p)), (''lineId'', JString (spLineId p))] @
     optionally ''presentation'' presentationJson (spPresentation p) @
     [(''directionId'', JString (spDirectionId p)), (''sourceRouteIds'', textArray (spSourceRouteIds p)),
      (''stopIds'', textArray (spStopIds p)), (''stopNames'', textArray (spStopNames p)),
      (''nodeIds'', textArray (spNodeIds p)), (''edgeIds'', textArray (spEdgeIds p)),
      (''distanceMeters'', JInt (spDistanceMeters p)), (''journeys'', JArray (map journeyJson (spJourneys p))),
      (''metrics'', patternMetricsJson (spMetrics p))])"

definition basisJson :: "specification_basis \<Rightarrow> jsval" where
  "basisJson b = JObject [(''sampleServiceDays'', JInt (sfSampleServiceDays b)),
     (''totalTrainMeters'', JString (sfTotalTrainMeters b)), (''totalStops'', JString (sfTotalStops b)),
     (''totalServiceSeconds'', JString (sfTotalServiceSeconds b)), (''totalEnergyWh'', JString (sfTotalEnergyWh b)),
     (''peakVehicles'', JInt (sfPeakVehicles b)), (''facilityMinutesPerDay'', JInt (sfFacilityMinutesPerDay b)),
     (''overnightUnits'', JInt (sfOvernightUnits b)), (''protectionUnits'', JInt (sfProtectionUnits b)),
     (''requirements'', requirementsJson (sfRequirements b))]"

definition lotJson :: "gtfs_lot \<Rightarrow> jsval" where
  "lotJson l = JObject [(''id'', JString (slId l)), (''lineIds'', textArray (slLineIds l)),
     (''patternIds'', textArray (slPatternIds l)), (''connectingNodeIds'', textArray (slConnectingNodeIds l)),
     (''size'', JInt (slSize l)), (''attractiveness'', JInt (slAttractiveness l)), (''smallLot'', JBool (slSmallLot l)),
     (''specificationBasis'', basisJson (slSpecificationBasis l))]"

definition generationJson :: "timetable_generation \<Rightarrow> jsval" where
  "generationJson g = (let s = tgSpecification g in
     JObject [(''seed'', JString (tgSeed g)),
       (''specification'', JObject (optionally ''schemaVersion'' JString (tsSchemaVersion s) @
          [(''version'', JString (tsVersion s)), (''departureGridSeconds'', JInt (tsDepartureGridSeconds s)),
           (''minimumRunningSeconds'', JInt (tsMinimumRunningSeconds s))] @
          optionally ''requireEligibleTerminals'' JBool (tsRequireEligibleTerminals s)))])"

definition snapshotJson :: "planning_snapshot \<Rightarrow> jsval" where
  "snapshotJson s = JObject ([(''schema'', JString (snSchema s)), (''worldId'', JString (snWorldId s)),
     (''revision'', JInt (snRevision s)), (''producedAt'', JInt (snProducedAt s)), (''source'', sourceJson (snSource s)),
     (''infrastructureVersion'', JString (snInfrastructureVersion s)), (''rulesVersion'', JString (snRulesVersion s)),
     (''serviceDates'', textArray (snServiceDates s))] @
     optionally ''sourceTimetableHash'' JString (snSourceTimetableHash s) @
     optionally ''timetableGeneration'' generationJson (snTimetableGeneration s) @
     [(''patterns'', JArray (map patternJson (snPatterns s))), (''lots'', JArray (map lotJson (snLots s)))])"

definition gtfsPlanningSnapshotHash ::
    "(string \<Rightarrow> string \<Rightarrow> int) \<Rightarrow> (string \<Rightarrow> string) \<Rightarrow> planning_snapshot \<Rightarrow> planning_error + string" where
  "gtfsPlanningSnapshotHash lc sha256 snapshot =
     bnd (canonicalPlanningJson lc (snapshotJson snapshot)) (\<lambda>t. Inr (planningSha256 sha256 t))"

section \<open>Identities\<close>

record identity_namespace =
  nsSourceArchiveSha256 :: string
  nsInfrastructureVersion :: string
  nsRulesVersion :: string
  nsServiceDates :: "string list"

definition gtfsPlanningIdentityNamespace :: "planning_source \<Rightarrow> string \<Rightarrow> string \<Rightarrow> string list \<Rightarrow> identity_namespace" where
  "gtfsPlanningIdentityNamespace source infrastructureVersion rulesVersion serviceDates =
     \<lparr>nsSourceArchiveSha256 = psArchiveSha256 source, nsInfrastructureVersion = infrastructureVersion,
      nsRulesVersion = rulesVersion, nsServiceDates = serviceDates\<rparr>"

definition namespaceJson :: "identity_namespace \<Rightarrow> jsval" where
  "namespaceJson n = JObject [(''sourceArchiveSha256'', JString (nsSourceArchiveSha256 n)),
     (''infrastructureVersion'', JString (nsInfrastructureVersion n)), (''rulesVersion'', JString (nsRulesVersion n)),
     (''serviceDates'', textArray (nsServiceDates n))]"

definition gtfsPlanningPatternId :: "(string \<Rightarrow> string \<Rightarrow> int) \<Rightarrow> (string \<Rightarrow> string) \<Rightarrow> identity_namespace \<Rightarrow>
    string \<Rightarrow> string \<Rightarrow> string list \<Rightarrow> planning_error + string" where
  "gtfsPlanningPatternId lc sha256 namespace lineId directionId nodeIds =
     bnd (canonicalPlanningJson lc (JObject [(''schemaVersion'', JString GTFS_SERVICE_PATTERN_IDENTITY_SCHEMA),
        (''namespace'', namespaceJson namespace), (''lineId'', JString lineId), (''directionId'', JString directionId),
        (''nodeIds'', textArray nodeIds)])) (\<lambda>t.
     Inr (''sp-'' @ take 20 (planningSha256 sha256 t)))"

definition gtfsPlanningLotId :: "(string \<Rightarrow> string \<Rightarrow> int) \<Rightarrow> (string \<Rightarrow> string) \<Rightarrow> identity_namespace \<Rightarrow>
    string list \<Rightarrow> planning_error + string" where
  "gtfsPlanningLotId lc sha256 namespace lineIds =
     bnd (canonicalPlanningJson lc (JObject [(''schemaVersion'', JString GTFS_SERVICE_LOT_IDENTITY_SCHEMA),
        (''namespace'', namespaceJson namespace), (''lineIds'', textArray lineIds)])) (\<lambda>t.
     Inr (''lot-'' @ take 20 (planningSha256 sha256 t)))"

section \<open>Validation\<close>

definition validatePattern :: "(string \<Rightarrow> string \<Rightarrow> int) \<Rightarrow> (string \<Rightarrow> string) \<Rightarrow> identity_namespace \<Rightarrow>
    service_pattern \<Rightarrow> planning_error + unit" where
  "validatePattern lc sha256 namespace pattern =
     bnd (planText (spLineId pattern) ''lineId'') (\<lambda>_.
     bnd (gtfsPlanningPatternId lc sha256 namespace (spLineId pattern) (spDirectionId pattern) (spNodeIds pattern)) (\<lambda>patternId.
     invariant (spId pattern = patternId) (GtfsPlanningError ''Identitaetsnamespace'')
    (bnd (uniqueStrings (spStopIds pattern) ''stopIds'' False) (\<lambda>_.
     bnd (uniqueStrings (spNodeIds pattern) ''nodeIds'' False) (\<lambda>_.
     bnd (uniqueStrings (spEdgeIds pattern) ''edgeIds'' False) (\<lambda>_.
     bnd (planInteger (spDistanceMeters pattern) ''distanceMeters'' 1) (\<lambda>_.
     bnd (planInteger (pmJourneyCount (spMetrics pattern)) ''journeyCount'' 1) (\<lambda>_.
     bnd (planDecimal (pmTotalTrainMeters (spMetrics pattern)) ''totalTrainMeters'') (\<lambda>_.
     bnd (planDecimal (pmTotalStops (spMetrics pattern)) ''totalStops'') (\<lambda>_.
     bnd (planDecimal (pmTotalServiceSeconds (spMetrics pattern)) ''totalServiceSeconds'') (\<lambda>_.
     bnd (planDecimal (pmTotalEnergyWh (spMetrics pattern)) ''totalEnergyWh'') (\<lambda>_.
     invariant (int (length (spJourneys pattern)) = pmJourneyCount (spMetrics pattern)) (GtfsPlanningError ''journeyCount'')
       (Inr ())))))))))))))"

text \<open>One lot; the state is the set of the patterns assigned so far.\<close>

definition validateLot :: "(string \<Rightarrow> string \<Rightarrow> int) \<Rightarrow> (string \<Rightarrow> string) \<Rightarrow> identity_namespace \<Rightarrow> string list \<Rightarrow>
    gtfs_lot \<Rightarrow> string list \<Rightarrow> planning_error + string list" where
  "validateLot lc sha256 namespace patternIds lot assigned =
     bnd (uniqueStrings (slLineIds lot) ''lineIds'' False) (\<lambda>_.
     bnd (gtfsPlanningLotId lc sha256 namespace (slLineIds lot)) (\<lambda>lotId.
     invariant (slId lot = lotId) (GtfsPlanningError ''Identitaetsnamespace'')
    (bnd (uniqueStrings (slPatternIds lot) ''patternIds'' False) (\<lambda>_.
     invariant (list_all (\<lambda>i. i \<in> set patternIds) (slPatternIds lot)) (GtfsPlanningError ''unbekanntes Pattern'')
    (invariant (list_all (\<lambda>i. i \<notin> set assigned) (slPatternIds lot)) (GtfsPlanningError ''vergebenes Pattern'')
    (bnd (planInteger (slSize lot) ''size'' 0) (\<lambda>_.
     bnd (planInteger (slAttractiveness lot) ''attractiveness'' 0) (\<lambda>_.
     bnd (planInteger (sfSampleServiceDays (slSpecificationBasis lot)) ''sampleServiceDays'' 1) (\<lambda>_.
     bnd (planDecimal (sfTotalTrainMeters (slSpecificationBasis lot)) ''totalTrainMeters'') (\<lambda>_.
     bnd (planDecimal (sfTotalStops (slSpecificationBasis lot)) ''totalStops'') (\<lambda>_.
     bnd (planDecimal (sfTotalServiceSeconds (slSpecificationBasis lot)) ''totalServiceSeconds'') (\<lambda>_.
     bnd (planDecimal (sfTotalEnergyWh (slSpecificationBasis lot)) ''totalEnergyWh'') (\<lambda>_.
     bnd (planInteger (sfPeakVehicles (slSpecificationBasis lot)) ''peakVehicles'' 1) (\<lambda>_.
     Inr (assigned @ slPatternIds lot)))))))))))))))"

definition snapshotNamespace :: "planning_snapshot \<Rightarrow> identity_namespace" where
  "snapshotNamespace s = gtfsPlanningIdentityNamespace (snSource s) (snInfrastructureVersion s) (snRulesVersion s) (snServiceDates s)"

definition validateGtfsPlanningSnapshot ::
    "(string \<Rightarrow> string \<Rightarrow> int) \<Rightarrow> (string \<Rightarrow> string) \<Rightarrow> planning_snapshot \<Rightarrow> planning_error + planning_snapshot" where
  "validateGtfsPlanningSnapshot lc sha256 snapshot =
     invariant (snSchema snapshot = GTFS_PLANNING_SCHEMA) (GtfsPlanningError ''schema'')
    (bnd (planText (snWorldId snapshot) ''worldId'') (\<lambda>_.
     bnd (planInteger (snRevision snapshot) ''revision'' 0) (\<lambda>_.
     bnd (planInteger (snProducedAt snapshot) ''producedAt'' 0) (\<lambda>_.
     invariant (hex64 (psArchiveSha256 (snSource snapshot))) (GtfsPlanningError ''Feed-Hash'')
    (invariant (case snSourceTimetableHash snapshot of None \<Rightarrow> True | Some h \<Rightarrow> hex64 h) (GtfsPlanningError ''Fahrplan-Hash'')
    (bnd (uniqueStrings (snServiceDates snapshot) ''serviceDates'' False) (\<lambda>_.
     invariant (length (snPatterns snapshot) > 0) (GtfsPlanningError ''Service-Patterns'')
    (invariant (length (snLots snapshot) > 0) (GtfsPlanningError ''Lose'')
    (bnd (uniqueStrings (map spId (snPatterns snapshot)) ''patterns'' False) (\<lambda>_.
     bnd (uniqueStrings (map slId (snLots snapshot)) ''lots'' False) (\<lambda>_.
     bnd (map_res (validatePattern lc sha256 (snapshotNamespace snapshot)) (snPatterns snapshot)) (\<lambda>_.
     bnd (fold_res (validateLot lc sha256 (snapshotNamespace snapshot) (map spId (snPatterns snapshot))) (snLots snapshot) []) (\<lambda>assigned.
     invariant (length (remdups assigned) = length (remdups (map spId (snPatterns snapshot)))) (GtfsPlanningError ''Pattern ohne Los'')
    (bnd (canonicalPlanningJson lc (snapshotJson snapshot)) (\<lambda>_. Inr snapshot)))))))))))))))"

definition createGtfsPlanningEnvelope ::
    "(string \<Rightarrow> string \<Rightarrow> int) \<Rightarrow> (string \<Rightarrow> string) \<Rightarrow> planning_snapshot \<Rightarrow> planning_error + planning_envelope" where
  "createGtfsPlanningEnvelope lc sha256 snapshot =
     bnd (validateGtfsPlanningSnapshot lc sha256 snapshot) (\<lambda>_.
     bnd (gtfsPlanningSnapshotHash lc sha256 snapshot) (\<lambda>h.
     Inr \<lparr>evSnapshot = snapshot, evSnapshotHashText = h\<rparr>))"

definition validateGtfsPlanningEnvelope ::
    "(string \<Rightarrow> string \<Rightarrow> int) \<Rightarrow> (string \<Rightarrow> string) \<Rightarrow> planning_envelope \<Rightarrow> planning_error + planning_envelope" where
  "validateGtfsPlanningEnvelope lc sha256 envelope =
     bnd (validateGtfsPlanningSnapshot lc sha256 (evSnapshot envelope)) (\<lambda>_.
     invariant (hex64 (evSnapshotHashText envelope)) (GtfsPlanningError ''Planungshash'')
    (bnd (gtfsPlanningSnapshotHash lc sha256 (evSnapshot envelope)) (\<lambda>h.
     invariant (evSnapshotHashText envelope = h) (GtfsPlanningError ''Planungshash'') (Inr envelope))))"

end
