(* ===== verification/EconomyFinance.thy ===== *)
theory EconomyFinance
  imports StartingCapital GtfsPlanning
begin

text \<open>
  Cost accounting, credits, insolvency and prequalification, \<open>packages/economy/src/finance.ts\<close>.
  Cent amounts are \<open>bigint\<close>s (\<open>int\<close>); scores, basis points and periods are numbers with integral
  values in the safe range. Umlauts in fixed texts are spelled out.
\<close>

datatype economy_error = MoneyError money_error | EconomyError string | EconomyRangeError string
  | ServicePlanningError string | PlanningFailed planning_error

definition money :: "money_error + 'a \<Rightarrow> economy_error + 'a" where
  "money m = map_sum MoneyError id m"

definition planned :: "planning_error + 'a \<Rightarrow> economy_error + 'a" where
  "planned m = map_sum PlanningFailed id m"

lemma planned_Inr [res_simps]: "planned m = Inr x \<longleftrightarrow> m = Inr x"
  by (cases m) (auto simp: planned_def)

lemma money_Inr [res_simps]: "money m = Inr x \<longleftrightarrow> m = Inr x"
  by (cases m) (auto simp: money_def)

section \<open>Costs and the result of a period\<close>

datatype cost_type = Track | Station | Facility | Energy | Personnel | Administration | Vehicle | Penalty | Interest

definition ECONOMY_COST_TYPES :: "cost_type list" where
  "ECONOMY_COST_TYPES = [Track, Station, Facility, Energy, Personnel, Administration, Vehicle, Penalty, Interest]"

definition cost_type_text :: "cost_type \<Rightarrow> string" where
  "cost_type_text t = (case t of Track \<Rightarrow> ''track'' | Station \<Rightarrow> ''station'' | Facility \<Rightarrow> ''facility'' | Energy \<Rightarrow> ''energy''
     | Personnel \<Rightarrow> ''personnel'' | Administration \<Rightarrow> ''administration'' | Vehicle \<Rightarrow> ''vehicle'' | Penalty \<Rightarrow> ''penalty''
     | Interest \<Rightarrow> ''interest'')"

record cost_centre =
  ccId :: string
  ccWorldId :: string
  ccOperatorId :: string
  ccName :: string

record classified_posting =
  cpAmountCents :: int
  cpCostType :: cost_type
  cpCostCentreId :: string
  cpReference :: string

definition classifyPosting ::
    "classified_posting \<Rightarrow> cost_centre \<Rightarrow> string \<Rightarrow> string \<Rightarrow> economy_error + classified_posting" where
  "classifyPosting posting centre worldId operatorId =
     invariant (\<not> (ccWorldId centre \<noteq> worldId \<or> ccOperatorId centre \<noteq> operatorId \<or> cpCostCentreId posting \<noteq> ccId centre \<or>
        cpAmountCents posting < 0)) (EconomyError ''Kostenbuchung'')
    (bnd (money (assertNonnegativeI64 (cpAmountCents posting) ''Kostenbuchung'')) (\<lambda>_. Inr posting))"

record profit_and_loss =
  plRevenueCents :: int
  plCostsByType :: "(cost_type \<times> int) list"
  plResultCents :: int
  plExplanation :: "string list"

definition addPosting :: "string \<Rightarrow> classified_posting \<Rightarrow> int \<Rightarrow> money_error + int" where
  "addPosting name p s = bnd (assertNonnegativeI64 (cpAmountCents p) ''Kostenbuchung'') (\<lambda>a. addI64 s a name)"

definition costOfType :: "classified_posting list \<Rightarrow> cost_type \<Rightarrow> money_error + cost_type \<times> int" where
  "costOfType postings t =
     bnd (fold_res (addPosting (cost_type_text t @ ''-Kosten'')) (filter (\<lambda>p. cpCostType p = t) postings) 0) (\<lambda>s. Inr (t, s))"

definition calculateProfitAndLoss :: "int \<Rightarrow> classified_posting list \<Rightarrow> money_error + profit_and_loss" where
  "calculateProfitAndLoss revenueCents postings =
     bnd (assertI64 revenueCents ''Erloes'') (\<lambda>_.
     bnd (map_res (costOfType postings) ECONOMY_COST_TYPES) (\<lambda>costs.
     bnd (fold_res (\<lambda>amount s. addI64 s amount ''Gesamtkosten'') (map snd costs) 0) (\<lambda>costTotal.
     bnd (subtractI64 revenueCents costTotal ''Periodenergebnis'') (\<lambda>result.
     Inr \<lparr>plRevenueCents = revenueCents, plCostsByType = costs, plResultCents = result,
        plExplanation = (''Erloese '' @ int_str revenueCents) #
          map (\<lambda>(t, c). cost_type_text t @ '' '' @ int_str c) costs @ [''Ergebnis '' @ int_str result]\<rparr>))))"

section \<open>Credits\<close>

record credit =
  crPrincipalCents :: int
  crOutstandingCents :: int
  crInterestBasisPoints :: int
  crDuePeriod :: int

record liquidity_plan =
  lpLiquidCents :: int
  lpForecastPeriodNetCents :: int
  lpCredits :: "credit list"

definition takeCredit :: "liquidity_plan \<Rightarrow> credit \<Rightarrow> bool \<Rightarrow> economy_error + liquidity_plan" where
  "takeCredit plan credit creditAllowed =
     invariant (\<not> (\<not> creditAllowed \<or> crPrincipalCents credit \<le> 0)) (EconomyError ''Kredit'')
       (Inr \<lparr>lpLiquidCents = lpLiquidCents plan + crPrincipalCents credit,
         lpForecastPeriodNetCents = lpForecastPeriodNetCents plan, lpCredits = lpCredits plan @ [credit]\<rparr>)"

definition restructure :: "liquidity_plan \<Rightarrow> int \<Rightarrow> int \<Rightarrow> economy_error + liquidity_plan" where
  "restructure plan cashInjectionCents deferredCents =
     invariant (\<not> (cashInjectionCents < 0 \<or> deferredCents < 0)) (EconomyError ''Restrukturierung'')
       (Inr (plan\<lparr>lpLiquidCents := lpLiquidCents plan + cashInjectionCents + deferredCents\<rparr>))"

definition accrueCreditInterest :: "credit \<Rightarrow> economy_error + credit" where
  "accrueCreditInterest credit =
     invariant (\<not> crInterestBasisPoints credit < 0) (EconomyError ''Kreditzins'')
       (let interest = bigint_div (crOutstandingCents credit * crInterestBasisPoints credit + 9999) 10000
        in Inr (credit\<lparr>crOutstandingCents := crOutstandingCents credit + interest\<rparr>))"

text \<open>An index outside the array (or negative) gives \<open>undefined\<close>.\<close>

definition repayCredit :: "liquidity_plan \<Rightarrow> int \<Rightarrow> int \<Rightarrow> economy_error + liquidity_plan" where
  "repayCredit plan creditIndex amountCents =
     (if 0 \<le> creditIndex \<and> creditIndex < int (length (lpCredits plan)) then
        let credit = lpCredits plan ! nat creditIndex in
        invariant (\<not> (amountCents \<le> 0 \<or> amountCents > crOutstandingCents credit \<or> amountCents > lpLiquidCents plan))
          (EconomyError ''Kredittilgung'')
          (Inr (plan\<lparr>lpLiquidCents := lpLiquidCents plan - amountCents,
             lpCredits := (lpCredits plan)[nat creditIndex := credit\<lparr>crOutstandingCents := crOutstandingCents credit - amountCents\<rparr>]\<rparr>))
      else Inl (EconomyError ''Kredittilgung''))"

section \<open>Insolvency\<close>

record insolvency_signals =
  isLiquidCents :: int
  isTwoPeriodNeedCents :: int
  isOverdueCents :: int
  isCreditScore :: int
  isContractTerminated :: bool
  isUnableToPay :: bool

datatype channel = Mailbox | DailyReport

record escalation_message =
  emChannel :: channel
  emMessageType :: string
  emStage :: int
  emActions :: "string list"

record insolvency_decision =
  idStage :: int
  idMessages :: "escalation_message list"
  idPathsBlocked :: bool
  idCreditBlocked :: bool
  idPurchasesBlocked :: bool
  idPublicOperatorTakesOver :: bool
  idLiquidated :: bool

definition insolvencyStage :: "insolvency_signals \<Rightarrow> int" where
  "insolvencyStage s =
     (if isUnableToPay s then 5 else if isContractTerminated s then 4 else if isCreditScore s < 3000 then 3
      else if isOverdueCents s > 0 then 2 else if isLiquidCents s < isTwoPeriodNeedCents s then 1 else 0)"

definition stageActions :: "int \<Rightarrow> string list" where
  "stageActions stage =
     (if stage = 1 then [''Prognose pruefen'', ''Kosten senken'']
      else if stage = 2 then [''Verzugszins'', ''keine neuen Trassen'']
      else if stage = 3 then [''keine Kredite'', ''kein Fahrzeugkauf'']
      else if stage = 4 then [''Vertragskuendigung'', ''Eigenbetrieb uebernimmt'']
      else if stage = 5 then [''Assets verwerten'', ''Vertraege kuendigen'', ''Trassen freigeben'']
      else [])"

definition evaluateInsolvency :: "insolvency_signals \<Rightarrow> insolvency_decision" where
  "evaluateInsolvency signals =
     (let stage = insolvencyStage signals; actions = stageActions stage in
      \<lparr>idStage = stage,
       idMessages = (if stage = 0 then []
         else map (\<lambda>c. \<lparr>emChannel = c, emMessageType = ''insolvency-stage-'' @ int_str stage, emStage = stage, emActions = actions\<rparr>) [Mailbox, DailyReport]),
       idPathsBlocked = stage \<ge> 2, idCreditBlocked = stage \<ge> 3, idPurchasesBlocked = stage \<ge> 3,
       idPublicOperatorTakesOver = stage \<ge> 4, idLiquidated = (stage = 5)\<rparr>)"

section \<open>Prequalification\<close>

record prequalification =
  pqWorldId :: string
  pqAccountId :: string
  pqScore :: int
  pqCreditScore :: int
  pqSmallLotsOnlyUntilPeriod :: "int option"
  pqBankruptcies :: int

record prequalification_input =
  piFinalPerformanceBasisPoints :: "int option"
  piMobilizationFailed :: bool
  piInsolvencyAtPeriod :: "int option"

definition updatePrequalification :: "prequalification \<Rightarrow> prequalification_input \<Rightarrow> prequalification" where
  "updatePrequalification record input =
     (let afterPerformance = (case piFinalPerformanceBasisPoints input of
            None \<Rightarrow> pqScore record | Some b \<Rightarrow> pqScore record + (b - 8500) div 10);
          score = (if piMobilizationFailed input then afterPerformance - 1500 else afterPerformance)
      in case piInsolvencyAtPeriod input of
           None \<Rightarrow> record\<lparr>pqScore := max 0 (min 10000 score)\<rparr>
         | Some period \<Rightarrow> record\<lparr>pqScore := max 0 (min 10000 score), pqCreditScore := max 0 (pqCreditScore record - 3000),
             pqSmallLotsOnlyUntilPeriod := Some (period + 3), pqBankruptcies := pqBankruptcies record + 1\<rparr>)"

definition assertPrequalified :: "prequalification \<Rightarrow> string \<Rightarrow> int \<Rightarrow> bool \<Rightarrow> int \<Rightarrow> economy_error + unit" where
  "assertPrequalified record worldId period smallLot minimumScore =
     invariant (\<not> (pqWorldId record \<noteq> worldId \<or> pqScore record < minimumScore \<or>
        (\<not> smallLot \<and> (case pqSmallLotsOnlyUntilPeriod record of None \<Rightarrow> -1 | Some p \<Rightarrow> p) > period)))
       (EconomyError ''Praequalifikation'') (Inr ())"

section \<open>The result of a period is exact\<close>

definition paid :: "classified_posting list \<Rightarrow> cost_type \<Rightarrow> int" where
  "paid ps t = sum_list (map cpAmountCents (filter (\<lambda>p. cpCostType p = t) ps))"

lemma addCosts: "fold_res (addPosting n) ps s = Inr r \<Longrightarrow>
    r = s + sum_list (map cpAmountCents ps) \<and> (\<forall>p \<in> set ps. 0 \<le> cpAmountCents p)"
proof (induction ps arbitrary: s)
  case (Cons p ps)
  obtain s1 where "addPosting n p s = Inr s1" and f: "fold_res (addPosting n) ps s1 = Inr r" using Cons.prems by (auto simp: res_simps)
  then have "s1 = s + cpAmountCents p" "0 \<le> cpAmountCents p" by (auto simp: addPosting_def res_simps)
  then show ?case using Cons.IH [OF f] by simp
qed simp

lemma addAmounts: "fold_res (\<lambda>amount s. addI64 s amount n) xs s = Inr r \<Longrightarrow> r = s + sum_list xs"
  by (induction xs arbitrary: s) (fastforce simp: res_simps)+

lemma costs_of_types: "map_res (costOfType ps) ts = Inr cs \<Longrightarrow> cs = map (\<lambda>t. (t, paid ps t)) ts"
  by (induction ts arbitrary: cs) (auto simp: costOfType_def res_simps paid_def dest!: addCosts)

lemma paid_all: "sum_list (map (paid ps) ECONOMY_COST_TYPES) = sum_list (map cpAmountCents ps)"
proof (induction ps)
  case Nil
  then show ?case by (simp add: paid_def ECONOMY_COST_TYPES_def)
next
  case (Cons p ps)
  have "paid (p # ps) t = (if cpCostType p = t then cpAmountCents p else 0) + paid ps t" for t
    by (simp add: paid_def)
  moreover have "sum_list (map (\<lambda>t. if cpCostType p = t then cpAmountCents p else 0) ECONOMY_COST_TYPES) = cpAmountCents p"
    by (cases "cpCostType p") (simp_all add: ECONOMY_COST_TYPES_def)
  ultimately show ?case using Cons by (simp add: sum_list_addf)
qed

text \<open>A computed result of a period is exact: it is the revenue less the amounts of all postings, the costs are split
  completely over the cost types, no posting is negative, and the result fits an i64.\<close>

theorem profit_and_loss_exact:
  assumes "calculateProfitAndLoss revenue ps = Inr r"
  shows "plResultCents r = revenue - sum_list (map cpAmountCents ps) \<and> plRevenueCents r = revenue \<and>
    plCostsByType r = map (\<lambda>t. (t, sum_list (map cpAmountCents (filter (\<lambda>p. cpCostType p = t) ps)))) ECONOMY_COST_TYPES \<and>
    (\<forall>p \<in> set ps. 0 \<le> cpAmountCents p) \<and> MIN_I64 \<le> plResultCents r \<and> plResultCents r \<le> MAX_I64"
proof -
  from assms obtain costs tot where c: "map_res (costOfType ps) ECONOMY_COST_TYPES = Inr costs"
    and t: "fold_res (\<lambda>amount s. addI64 s amount ''Gesamtkosten'') (map snd costs) 0 = Inr tot"
    and r: "plRevenueCents r = revenue" "plCostsByType r = costs" "plResultCents r = revenue - tot"
      "MIN_I64 \<le> plResultCents r" "plResultCents r \<le> MAX_I64"
    by (auto simp: calculateProfitAndLoss_def res_simps)
  have costs: "costs = map (\<lambda>t. (t, paid ps t)) ECONOMY_COST_TYPES" by (rule costs_of_types [OF c])
  have "tot = sum_list (map cpAmountCents ps)" using addAmounts [OF t] by (simp add: costs comp_def paid_all)
  moreover have "0 \<le> cpAmountCents p" if p: "p \<in> set ps" for p
  proof -
    have "cpCostType p \<in> set ECONOMY_COST_TYPES" by (cases "cpCostType p") (simp_all add: ECONOMY_COST_TYPES_def)
    then obtain y where "costOfType ps (cpCostType p) = Inr y" using map_res_set' [OF c] by blast
    then show ?thesis using p by (auto simp: costOfType_def res_simps dest!: addCosts)
  qed
  ultimately show ?thesis using r by (simp add: costs paid_def)
qed

theorem profit_and_loss_exact_witness:
  "case calculateProfitAndLoss 5 [\<lparr>cpAmountCents = 3, cpCostType = Energy, cpCostCentreId = ''c'', cpReference = ''r''\<rparr>,
      \<lparr>cpAmountCents = 9, cpCostType = Track, cpCostCentreId = ''c'', cpReference = ''r''\<rparr>] of
     Inl e \<Rightarrow> False | Inr r \<Rightarrow> plResultCents r = - 7"
proof -
  let ?r = "calculateProfitAndLoss 5 [\<lparr>cpAmountCents = 3, cpCostType = Energy, cpCostCentreId = ''c'', cpReference = ''r''\<rparr>,
      \<lparr>cpAmountCents = 9, cpCostType = Track, cpCostCentreId = ''c'', cpReference = ''r''\<rparr>]"
  have "case ?r of Inl e \<Rightarrow> False | Inr r \<Rightarrow> True" by code_simp
  then obtain r where "?r = Inr r" by (cases ?r) auto
  then show ?thesis using profit_and_loss_exact [of 5 _ r] by simp
qed

section \<open>Escalation only goes up\<close>

definition at_least_as_bad :: "insolvency_signals \<Rightarrow> insolvency_signals \<Rightarrow> bool" where
  "at_least_as_bad s t \<longleftrightarrow> (isUnableToPay s \<longrightarrow> isUnableToPay t) \<and> (isContractTerminated s \<longrightarrow> isContractTerminated t) \<and>
     isCreditScore t \<le> isCreditScore s \<and> isOverdueCents s \<le> isOverdueCents t \<and>
     isLiquidCents t \<le> isLiquidCents s \<and> isTwoPeriodNeedCents s \<le> isTwoPeriodNeedCents t"

text \<open>Worse signals never lower the stage of the insolvency and never lift a restriction; an operator in any stage is
  told through both channels, with the same stage, and a healthy one not at all.\<close>

theorem insolvency_monotone:
  assumes "at_least_as_bad s t"
  defines "d \<equiv> evaluateInsolvency s" and "e \<equiv> evaluateInsolvency t"
  shows "0 \<le> idStage d \<and> idStage d \<le> idStage e \<and> idStage e \<le> 5 \<and>
    (idPathsBlocked d \<longrightarrow> idPathsBlocked e) \<and> (idCreditBlocked d \<longrightarrow> idCreditBlocked e \<and> idPathsBlocked d) \<and>
    idPurchasesBlocked d = idCreditBlocked d \<and> (idPublicOperatorTakesOver d \<longrightarrow> idPublicOperatorTakesOver e \<and> idCreditBlocked d) \<and>
    (idLiquidated d \<longrightarrow> idLiquidated e \<and> idPublicOperatorTakesOver d) \<and>
    map emChannel (idMessages d) = (if idStage d = 0 then [] else [Mailbox, DailyReport]) \<and>
    (\<forall>m \<in> set (idMessages d). emStage m = idStage d \<and> emActions m \<noteq> [])"
proof -
  have s: "0 \<le> insolvencyStage s" "insolvencyStage s \<le> insolvencyStage t" "insolvencyStage t \<le> 5"
    using assms(1) by (auto simp: at_least_as_bad_def insolvencyStage_def)
  have "insolvencyStage s \<in> {0, 1, 2, 3, 4, 5}" by (simp add: insolvencyStage_def)
  then have "insolvencyStage s \<noteq> 0 \<Longrightarrow> stageActions (insolvencyStage s) \<noteq> []" by (auto simp: stageActions_def)
  then show ?thesis using s by (auto simp: d_def e_def evaluateInsolvency_def Let_def)
qed

theorem insolvency_monotone_witness:
  "idStage (evaluateInsolvency \<lparr>isLiquidCents = 5, isTwoPeriodNeedCents = 9, isOverdueCents = 0, isCreditScore = 5000,
      isContractTerminated = False, isUnableToPay = False\<rparr>) = 1 \<and>
   idStage (evaluateInsolvency \<lparr>isLiquidCents = 5, isTwoPeriodNeedCents = 9, isOverdueCents = 2, isCreditScore = 2000,
      isContractTerminated = False, isUnableToPay = False\<rparr>) \<ge> 1"
proof -
  let ?s = "\<lparr>isLiquidCents = 5, isTwoPeriodNeedCents = 9, isOverdueCents = 0, isCreditScore = 5000,
      isContractTerminated = False, isUnableToPay = False\<rparr>"
  let ?t = "\<lparr>isLiquidCents = 5, isTwoPeriodNeedCents = 9, isOverdueCents = 2, isCreditScore = 2000,
      isContractTerminated = False, isUnableToPay = False\<rparr>"
  have "at_least_as_bad ?s ?t" by (simp add: at_least_as_bad_def)
  moreover have "idStage (evaluateInsolvency ?s) = 1"
    by (simp add: evaluateInsolvency_def insolvencyStage_def Let_def)
  ultimately show ?thesis using insolvency_monotone [of ?s ?t] by simp
qed

end
