(* ===== verification/EconomyRelease.thy ===== *)
theory EconomyRelease
  imports EconomyFinance
begin

text \<open>
  The rules of the economy as a checked, hashed release, \<open>packages/economy/src/release.ts\<close>. SHA-256
  is an argument. \<open>econ_value\<close> is a JavaScript value with \<open>bigint\<close>s; an object is the list of its
  own enumerable properties.
\<close>

datatype econ_value =
    VUndefined
  | VNull
  | VBool bool
  | VNumber int
  | VBigint int
  | VString string
  | VArray "econ_value list"
  | VObject "(string \<times> econ_value) list"

section \<open>Types\<close>

datatype penalty_focus = FocusPunctuality | FocusCancellation | FocusSeats | FocusConnections

datatype requirement_focus = FocusCapacity | FocusComfort | FocusBicycle | FocusAccessibility

record scoring_weights =
  swPrice :: int
  swQuality :: int

datatype traction = Electric | Diesel | Battery | Hydrogen

datatype special_condition =
    AdditionalStop int
  | MaximumAge int
  | TractionOf "traction list"
  | ReplacementPlan

record tender_profile =
  tpId :: string
  tpWeights :: scoring_weights
  tpRequirementFocus :: requirement_focus
  tpPenaltyFocus :: penalty_focus
  tpSpecialCondition :: "special_condition option"
  tpViabilitySurchargeBasisPoints :: int

record economy_rates =
  rtTrackPerTrainKmCents :: int
  rtStationPerStopCents :: int
  rtFacilityPerHourCents :: int
  rtEnergyPerKwhCents :: int
  rtPersonnelPerHourCents :: int
  rtAdministrationPerPeriodCents :: int
  rtVehiclePerPeriodCents :: int
  rtOvernightStablingPerPeriodCents :: int
  rtProtectionEquipmentPerPeriodCents :: int
  rtLateInterestBasisPoints :: int

record penalty_rates =
  prtPunctuality :: int
  prtCancellation :: int
  prtSeats :: int
  prtConnections :: int

record economy_rules =
  ruQualityBaselinePunctualityBasisPoints :: int
  ruPointsPerExtraSeat :: int
  ruPointsPerPunctualityBasisPoint :: int
  ruPointsPerAdditionalStop :: int
  ruRequirementFocusMaximumPoints :: int
  ruContractBonusCentsPerPeriod :: int
  ruPenaltyRates :: penalty_rates
  ruPenaltyFocusMultiplierBasisPoints :: int
  ruPublicOperationSurchargeBasisPoints :: int
  ruFailedPackageFeeStepBasisPoints :: int
  ruFailedPackageReductionStepBasisPoints :: int

text \<open>The contract of the fare inspection takes part in the hash only; it is kept as its value.\<close>

record economy_release =
  reVersion :: string
  reRates :: economy_rates
  reRules :: economy_rules
  reTenderProfiles :: "tender_profile list"
  reFareInspection :: "econ_value option"
  reChecksum :: string

record release_input =
  riVersion :: string
  riRates :: economy_rates
  riRules :: economy_rules
  riTenderProfiles :: "tender_profile list"
  riFareInspection :: "econ_value option"

section \<open>The canonical text\<close>

definition compareUtf8 :: "string \<Rightarrow> string \<Rightarrow> int" where
  "compareUtf8 left right = compareText left right"

fun canonical :: "econ_value \<Rightarrow> string" where
  "canonical (VBigint n) = [CHR 0x22] @ int_str n @ [CHR 0x22]"
| "canonical (VArray vs) = ''['' @ join '','' (map canonical vs) @ '']''"
| "canonical (VObject kvs) = ''{'' @ join '','' (map (\<lambda>(k, t). json_string k @ '':'' @ t)
     (sort_by (\<lambda>a b. compareUtf8 (fst a) (fst b)) (map (\<lambda>(k, v). (k, canonical v)) kvs))) @ ''}''"
| "canonical (VString s) = json_string s"
| "canonical (VNumber n) = int_str n"
| "canonical (VBool b) = (if b then ''true'' else ''false'')"
| "canonical VNull = ''null''"
| "canonical VUndefined = ''undefined''"

definition specialValue :: "special_condition \<Rightarrow> econ_value" where
  "specialValue c = (case c of
       AdditionalStop n \<Rightarrow> VObject [(''type'', VString ''additional-stop''), (''minimumAdditionalStops'', VNumber n)]
     | MaximumAge n \<Rightarrow> VObject [(''type'', VString ''maximum-age''), (''maximumAgeYears'', VNumber n)]
     | TractionOf ts \<Rightarrow> VObject [(''type'', VString ''traction''), (''allowed'', VArray (map (\<lambda>t. VString (case t of
         Electric \<Rightarrow> ''electric'' | Diesel \<Rightarrow> ''diesel'' | Battery \<Rightarrow> ''battery'' | Hydrogen \<Rightarrow> ''hydrogen'')) ts))]
     | ReplacementPlan \<Rightarrow> VObject [(''type'', VString ''replacement-plan'')])"

definition profileValue :: "tender_profile \<Rightarrow> econ_value" where
  "profileValue p = VObject ([(''id'', VString (tpId p)),
     (''weights'', VObject [(''price'', VNumber (swPrice (tpWeights p))), (''quality'', VNumber (swQuality (tpWeights p)))]),
     (''requirementFocus'', VString (case tpRequirementFocus p of FocusCapacity \<Rightarrow> ''capacity'' | FocusComfort \<Rightarrow> ''comfort''
        | FocusBicycle \<Rightarrow> ''bicycle'' | FocusAccessibility \<Rightarrow> ''accessibility'')),
     (''penaltyFocus'', VString (case tpPenaltyFocus p of FocusPunctuality \<Rightarrow> ''punctuality'' | FocusCancellation \<Rightarrow> ''cancellation''
        | FocusSeats \<Rightarrow> ''seats'' | FocusConnections \<Rightarrow> ''connections''))] @
     (case tpSpecialCondition p of None \<Rightarrow> [] | Some c \<Rightarrow> [(''specialCondition'', specialValue c)]) @
     [(''viabilitySurchargeBasisPoints'', VNumber (tpViabilitySurchargeBasisPoints p))])"

definition ratesValue :: "economy_rates \<Rightarrow> econ_value" where
  "ratesValue r = VObject [(''trackPerTrainKmCents'', VBigint (rtTrackPerTrainKmCents r)),
     (''stationPerStopCents'', VBigint (rtStationPerStopCents r)), (''facilityPerHourCents'', VBigint (rtFacilityPerHourCents r)),
     (''energyPerKwhCents'', VBigint (rtEnergyPerKwhCents r)), (''personnelPerHourCents'', VBigint (rtPersonnelPerHourCents r)),
     (''administrationPerPeriodCents'', VBigint (rtAdministrationPerPeriodCents r)),
     (''vehiclePerPeriodCents'', VBigint (rtVehiclePerPeriodCents r)),
     (''overnightStablingPerPeriodCents'', VBigint (rtOvernightStablingPerPeriodCents r)),
     (''protectionEquipmentPerPeriodCents'', VBigint (rtProtectionEquipmentPerPeriodCents r)),
     (''lateInterestBasisPoints'', VNumber (rtLateInterestBasisPoints r))]"

definition penaltyRatesValue :: "penalty_rates \<Rightarrow> econ_value" where
  "penaltyRatesValue r = VObject [(''punctuality'', VBigint (prtPunctuality r)), (''cancellation'', VBigint (prtCancellation r)),
     (''seats'', VBigint (prtSeats r)), (''connections'', VBigint (prtConnections r))]"

definition rulesValue :: "economy_rules \<Rightarrow> econ_value" where
  "rulesValue r = VObject [(''qualityBaselinePunctualityBasisPoints'', VNumber (ruQualityBaselinePunctualityBasisPoints r)),
     (''pointsPerExtraSeat'', VNumber (ruPointsPerExtraSeat r)),
     (''pointsPerPunctualityBasisPoint'', VNumber (ruPointsPerPunctualityBasisPoint r)),
     (''pointsPerAdditionalStop'', VNumber (ruPointsPerAdditionalStop r)),
     (''requirementFocusMaximumPoints'', VNumber (ruRequirementFocusMaximumPoints r)),
     (''contractBonusCentsPerPeriod'', VBigint (ruContractBonusCentsPerPeriod r)),
     (''penaltyRates'', penaltyRatesValue (ruPenaltyRates r)),
     (''penaltyFocusMultiplierBasisPoints'', VNumber (ruPenaltyFocusMultiplierBasisPoints r)),
     (''publicOperationSurchargeBasisPoints'', VNumber (ruPublicOperationSurchargeBasisPoints r)),
     (''failedPackageFeeStepBasisPoints'', VNumber (ruFailedPackageFeeStepBasisPoints r)),
     (''failedPackageReductionStepBasisPoints'', VNumber (ruFailedPackageReductionStepBasisPoints r))]"

text \<open>The numbers among \<open>Object.values(...)\<close>; the rules hold one more object, whose values are flattened in.\<close>

fun value_numbers :: "econ_value \<Rightarrow> int list" where
  "value_numbers (VObject kvs) = concat (map (\<lambda>(k, v). case v of VBigint n \<Rightarrow> [n] | VNumber n \<Rightarrow> [n]
     | VObject ws \<Rightarrow> concat (map (\<lambda>(k', w). case w of VBigint n \<Rightarrow> [n] | VNumber n \<Rightarrow> [n] | _ \<Rightarrow> []) ws) | _ \<Rightarrow> []) kvs)"
| "value_numbers _ = []"

section \<open>Building and pinning a release\<close>

definition checkProfile :: "tender_profile \<Rightarrow> string set \<Rightarrow> economy_error + string set" where
  "checkProfile profile ids =
     invariant (\<not> (tpId profile \<in> ids \<or> swPrice (tpWeights profile) < 0 \<or> swQuality (tpWeights profile) < 0
        \<or> swPrice (tpWeights profile) + swQuality (tpWeights profile) \<noteq> 10000 \<or> tpViabilitySurchargeBasisPoints profile < 0))
       (EconomyError ''Vergabeprofil-Katalog'')
    (invariant (case tpSpecialCondition profile of Some (AdditionalStop n) \<Rightarrow> \<not> n < 1 | _ \<Rightarrow> True) (EconomyError ''Zusatzhalt-Auflage'')
    (invariant (case tpSpecialCondition profile of Some (MaximumAge n) \<Rightarrow> \<not> n < 0 | _ \<Rightarrow> True) (EconomyError ''Fahrzeugalter-Auflage'')
    (invariant (case tpSpecialCondition profile of Some (TractionOf ts) \<Rightarrow> length ts \<noteq> 0 | _ \<Rightarrow> True) (EconomyError ''Traktionsauflage'')
    (Inr ({tpId profile} \<union> ids)))))"

definition compareProfile :: "tender_profile \<Rightarrow> tender_profile \<Rightarrow> int" where
  "compareProfile a b = compareUtf8 (tpId a) (tpId b)"

definition releaseBody :: "release_input \<Rightarrow> econ_value" where
  "releaseBody input = VObject ([(''schema'', VString ''economy-release/v1''), (''version'', VString (riVersion input)),
     (''rates'', ratesValue (riRates input)), (''rules'', rulesValue (riRules input)),
     (''tenderProfiles'', VArray (map profileValue (sort_by compareProfile (riTenderProfiles input))))] @
     (case riFareInspection input of None \<Rightarrow> [] | Some v \<Rightarrow> [(''fareInspection'', v)]))"

definition buildEconomyRelease :: "(string \<Rightarrow> string) \<Rightarrow> release_input \<Rightarrow> economy_error + economy_release" where
  "buildEconomyRelease sha256 input =
     invariant (\<not> (blank (riVersion input) \<or> length (riTenderProfiles input) < 2)) (EconomyError ''Release'')
    (bnd (fold_res checkProfile (riTenderProfiles input) {}) (\<lambda>_.
     invariant (\<forall>rate \<in> set (value_numbers (ratesValue (riRates input))). \<not> rate < 0) (EconomyError ''Kostensaetze'')
    (invariant (\<forall>rule \<in> set (value_numbers (rulesValue (riRules input))). \<not> rule < 0) (EconomyError ''Wirtschaftsregeln'')
    (Inr \<lparr>reVersion = riVersion input, reRates = riRates input, reRules = riRules input,
        reTenderProfiles = sort_by compareProfile (riTenderProfiles input), reFareInspection = riFareInspection input,
        reChecksum = sha256 (canonical (releaseBody input))\<rparr>))))"

record world_economy_pin =
  wpWorldId :: string
  wpReleaseVersion :: string
  wpReleaseChecksum :: string

definition pinEconomyRelease :: "string \<Rightarrow> economy_release \<Rightarrow> world_economy_pin" where
  "pinEconomyRelease worldId release =
     \<lparr>wpWorldId = worldId, wpReleaseVersion = reVersion release, wpReleaseChecksum = reChecksum release\<rparr>"

definition assertPinnedRelease :: "world_economy_pin \<Rightarrow> economy_release \<Rightarrow> economy_error + unit" where
  "assertPinnedRelease pin release =
     invariant (\<not> (wpReleaseVersion pin \<noteq> reVersion release \<or> wpReleaseChecksum pin \<noteq> reChecksum release))
       (EconomyError ''Welt-Pinnung'') (Inr ())"

section \<open>What a release guarantees\<close>

definition profile_ok :: "tender_profile \<Rightarrow> bool" where
  "profile_ok p \<longleftrightarrow> 0 \<le> swPrice (tpWeights p) \<and> 0 \<le> swQuality (tpWeights p) \<and>
     swPrice (tpWeights p) + swQuality (tpWeights p) = 10000 \<and> 0 \<le> tpViabilitySurchargeBasisPoints p \<and>
     (case tpSpecialCondition p of Some (AdditionalStop n) \<Rightarrow> 1 \<le> n | Some (MaximumAge n) \<Rightarrow> 0 \<le> n
        | Some (TractionOf ts) \<Rightarrow> ts \<noteq> [] | _ \<Rightarrow> True)"

lemma checkProfile_Inr: "checkProfile p ids = Inr r \<longleftrightarrow> profile_ok p \<and> tpId p \<notin> ids \<and> r = {tpId p} \<union> ids"
  by (auto simp: checkProfile_def profile_ok_def res_simps split: option.splits special_condition.splits)

lemma checkProfiles_Inr: "(\<exists>r. fold_res checkProfile ps ids = Inr r) \<longleftrightarrow>
    (\<forall>p \<in> set ps. profile_ok p) \<and> distinct (map tpId ps) \<and> (\<forall>p \<in> set ps. tpId p \<notin> ids)"
proof (induction ps arbitrary: ids)
  case (Cons p ps)
  show ?case by (auto simp: res_simps checkProfile_Inr Cons.IH image_iff)
qed simp

interpretation profile_cmp: comparator compareProfile
  by unfold_locales (auto simp: compareProfile_def compareUtf8_def compareText_def split: if_splits)

lemma profiles_sorted:
  assumes "distinct (map tpId ps)"
  shows "sorted_wrt (<) (map tpId (sort_by compareProfile ps))"
proof -
  have "sorted_wrt (\<lambda>p q. compareProfile p q \<le> 0) (sort_by compareProfile ps)" by (rule profile_cmp.sorted_sort_by)
  then have "sorted (map tpId (sort_by compareProfile ps))"
    by (simp add: sorted_wrt_map compareProfile_def compareUtf8_def compareText_le)
  then show ?thesis using assms by (simp add: strict_sorted_iff)
qed

lemma profiles_order_free:
  assumes "distinct (map tpId ps)" and "mset qs = mset ps"
  shows "sort_by compareProfile qs = sort_by compareProfile ps"
proof (rule strictly_sorted_unique [where f = tpId])
  have "distinct (map tpId qs)" using assms by (metis mset_eq_imp_distinct_iff mset_map)
  then show "sorted_wrt (<) (map tpId (sort_by compareProfile qs))" by (rule profiles_sorted)
  show "sorted_wrt (<) (map tpId (sort_by compareProfile ps))" by (rule profiles_sorted [OF assms(1)])
  show "set (sort_by compareProfile qs) = set (sort_by compareProfile ps)" using assms(2) by (metis set_sort_by set_mset_mset)
qed

text \<open>A release is the same, with the same checksum, for every order of its tender profiles; its profiles are sorted
  by distinct identifiers, each satisfies the catalogue rules (weights that sum to 10000), and no
  rate and no rule is negative. A world pinned to a release accepts exactly releases of its version
  and checksum.\<close>

theorem release_order_free:
  assumes "buildEconomyRelease sha256 input = Inr r" and "mset ps = mset (riTenderProfiles input)"
  shows "buildEconomyRelease sha256 (input\<lparr>riTenderProfiles := ps\<rparr>) = Inr r \<and>
    sorted_wrt (<) (map tpId (reTenderProfiles r)) \<and> mset (reTenderProfiles r) = mset (riTenderProfiles input) \<and>
    (\<forall>p \<in> set (reTenderProfiles r). profile_ok p) \<and>
    (\<forall>n \<in> set (value_numbers (ratesValue (reRates r))) \<union> set (value_numbers (rulesValue (reRules r))). 0 \<le> n) \<and>
    (\<forall>q. assertPinnedRelease (pinEconomyRelease w r) q = Inr () \<longleftrightarrow> reVersion q = reVersion r \<and> reChecksum q = reChecksum r)"
proof -
  let ?ps = "riTenderProfiles input"
  have c: "(\<forall>p \<in> set ?ps. profile_ok p) \<and> distinct (map tpId ?ps)"
    using assms(1) checkProfiles_Inr [of ?ps "{}"] by (auto simp: buildEconomyRelease_def res_simps)
  have n: "\<forall>n \<in> set (value_numbers (ratesValue (riRates input))). 0 \<le> n" "\<forall>n \<in> set (value_numbers (rulesValue (riRules input))). 0 \<le> n"
    and r: "r = \<lparr>reVersion = riVersion input, reRates = riRates input, reRules = riRules input,
        reTenderProfiles = sort_by compareProfile ?ps, reFareInspection = riFareInspection input,
        reChecksum = sha256 (canonical (releaseBody input))\<rparr>"
    using assms(1) by (auto simp: buildEconomyRelease_def res_simps not_less)
  have same: "set ps = set ?ps" "length ps = length ?ps" using assms(2) by (metis set_mset_mset, metis size_mset)
  have d: "distinct (map tpId ps)" using c assms(2) by (metis mset_eq_imp_distinct_iff mset_map)
  obtain ids where ids: "fold_res checkProfile ps {} = Inr ids" using checkProfiles_Inr [of ps "{}"] c d same by auto
  have srt: "sort_by compareProfile ps = sort_by compareProfile ?ps" by (rule profiles_order_free) (use c assms(2) in auto)
  have "releaseBody (input\<lparr>riTenderProfiles := ps\<rparr>) = releaseBody input" by (simp add: releaseBody_def srt)
  then have "buildEconomyRelease sha256 (input\<lparr>riTenderProfiles := ps\<rparr>) = Inr r"
    using assms(1) unfolding buildEconomyRelease_def by (simp add: ids srt same(2) res_simps r)
  moreover have "assertPinnedRelease (pinEconomyRelease w r) q = Inr () \<longleftrightarrow> reVersion q = reVersion r \<and> reChecksum q = reChecksum r" for q
    by (auto simp: assertPinnedRelease_def pinEconomyRelease_def invariant_Inr)
  moreover have "sorted_wrt (<) (map tpId (reTenderProfiles r))" using profiles_sorted c by (simp add: r)
  ultimately show ?thesis using c n by (auto simp: r)
qed

text \<open>A small release.\<close>

definition sample_rates :: economy_rates where
  "sample_rates = \<lparr>rtTrackPerTrainKmCents = 3, rtStationPerStopCents = 2, rtFacilityPerHourCents = 1, rtEnergyPerKwhCents = 1,
     rtPersonnelPerHourCents = 5, rtAdministrationPerPeriodCents = 7, rtVehiclePerPeriodCents = 9,
     rtOvernightStablingPerPeriodCents = 1, rtProtectionEquipmentPerPeriodCents = 1, rtLateInterestBasisPoints = 10\<rparr>"

definition sample_rules :: economy_rules where
  "sample_rules = \<lparr>ruQualityBaselinePunctualityBasisPoints = 9000, ruPointsPerExtraSeat = 10, ruPointsPerPunctualityBasisPoint = 2,
     ruPointsPerAdditionalStop = 100, ruRequirementFocusMaximumPoints = 2500, ruContractBonusCentsPerPeriod = 50,
     ruPenaltyRates = \<lparr>prtPunctuality = 1, prtCancellation = 2, prtSeats = 3, prtConnections = 4\<rparr>,
     ruPenaltyFocusMultiplierBasisPoints = 15000, ruPublicOperationSurchargeBasisPoints = 1000,
     ruFailedPackageFeeStepBasisPoints = 500, ruFailedPackageReductionStepBasisPoints = 500\<rparr>"

definition sample_profile :: "string \<Rightarrow> int \<Rightarrow> tender_profile" where
  "sample_profile i price = \<lparr>tpId = i, tpWeights = \<lparr>swPrice = price, swQuality = 10000 - price\<rparr>, tpRequirementFocus = FocusCapacity,
     tpPenaltyFocus = FocusSeats, tpSpecialCondition = None, tpViabilitySurchargeBasisPoints = 1000\<rparr>"

definition sample_input :: release_input where
  "sample_input = \<lparr>riVersion = ''v1'', riRates = sample_rates, riRules = sample_rules,
     riTenderProfiles = [sample_profile ''b'' 4000, sample_profile ''a'' 6000], riFareInspection = None\<rparr>"

theorem release_order_free_witness:
  "case buildEconomyRelease (\<lambda>s. s) sample_input of Inl e \<Rightarrow> False
   | Inr r \<Rightarrow> buildEconomyRelease (\<lambda>s. s) (sample_input\<lparr>riTenderProfiles := rev (riTenderProfiles sample_input)\<rparr>) = Inr r"
proof -
  let ?r = "buildEconomyRelease (\<lambda>s. s) sample_input"
  have "\<not> blank ''v1''" by code_simp
  moreover have "\<forall>n \<in> set (value_numbers (ratesValue sample_rates)). \<not> n < 0" "\<forall>n \<in> set (value_numbers (rulesValue sample_rules)). \<not> n < 0"
    by (simp_all add: sample_rates_def sample_rules_def ratesValue_def rulesValue_def penaltyRatesValue_def)
  moreover have "\<exists>ids. fold_res checkProfile (riTenderProfiles sample_input) {} = Inr ids"
    by (subst checkProfiles_Inr) (simp add: sample_input_def sample_profile_def profile_ok_def)
  ultimately have "\<exists>r. ?r = Inr r"
    by (auto simp: buildEconomyRelease_def sample_input_def)
  then obtain r where "?r = Inr r" by blast
  then show ?thesis using release_order_free [of "\<lambda>s. s" sample_input r "rev (riTenderProfiles sample_input)"] by simp
qed

end
