(* ===== verification/EconomyContracts.thy ===== *)
theory EconomyContracts
  imports EconomyRelease
begin

text \<open>
  Service contracts, \<open>packages/economy/src/contracts.ts\<close>: the proof of mobilisation, the change of
  the operator, the settlement of a period with bonus and penalties, the public operation of a failed
  lot and the budget of an authority.
\<close>

section \<open>Mobilisation and change of operator\<close>

record mobilization_proof =
  mpSource :: string
  mpVerifiedBy :: string
  mpFleetRevision :: int
  mpSnapshotHash :: string
  mpFormationIds :: "string list"
  mpPersonnelDutyIds :: "string list"
  mpPathReservationIds :: "string list"

definition validIds :: "string list \<Rightarrow> bool" where
  "validIds ids \<longleftrightarrow> 0 < length ids \<and> (\<forall>i \<in> set ids. \<not> blank i) \<and> length (remdups ids) = length ids"

definition isMobilizationProofComplete :: "mobilization_proof option \<Rightarrow> bool" where
  "isMobilizationProofComplete proof = (case proof of
       None \<Rightarrow> False
     | Some p \<Rightarrow> mpSource p = ''m5-release'' \<and> mpVerifiedBy p = ''zugfolge-fleet-mobilization/v1'' \<and>
         is_safe (mpFleetRevision p) \<and> mpFleetRevision p \<ge> 0 \<and> hex64 (mpSnapshotHash p) \<and>
         validIds (mpFormationIds p) \<and> validIds (mpPersonnelDutyIds p) \<and> validIds (mpPathReservationIds p))"

record transition_result =
  trOperatorId :: string
  trSeamless :: bool
  trPenaltyCents :: int
  trPrequalificationDamage :: int

record transition_input =
  tiIncumbentOperatorId :: string
  tiWinnerOperatorId :: string
  tiProof :: "mobilization_proof option"
  tiAt :: int
  tiTimetableBoundary :: int
  tiFailurePenaltyCents :: int

definition performOperatingTransition :: "transition_input \<Rightarrow> economy_error + transition_result" where
  "performOperatingTransition input =
     invariant (\<not> tiAt input \<noteq> tiTimetableBoundary input) (EconomyError ''Fahrplanstichtag'')
    (Inr (if tiWinnerOperatorId input = tiIncumbentOperatorId input then
            \<lparr>trOperatorId = tiWinnerOperatorId input, trSeamless = True, trPenaltyCents = 0, trPrequalificationDamage = 0\<rparr>
          else if \<not> isMobilizationProofComplete (tiProof input) then
            \<lparr>trOperatorId = ''public'', trSeamless = False, trPenaltyCents = tiFailurePenaltyCents input, trPrequalificationDamage = 1500\<rparr>
          else
            \<lparr>trOperatorId = tiWinnerOperatorId input, trSeamless = False, trPenaltyCents = 0, trPrequalificationDamage = 0\<rparr>))"

section \<open>Settlement\<close>

text \<open>\<open>Object.values(contract.penaltyRates)\<close>.\<close>

definition penaltyRateValues :: "penalty_rates \<Rightarrow> int list" where
  "penaltyRateValues r = [prtPunctuality r, prtCancellation r, prtSeats r, prtConnections r]"

record contract_quality_promises =
  qpExtraSeats :: int
  qpPunctualityBasisPoints :: int
  qpAdditionalStops :: int
  qpMinimumSeats :: int

record service_contract =
  scQualityPromises :: "contract_quality_promises option"
  scId :: string
  scWorldId :: string
  scLotId :: string
  scOperatorId :: string
  scStartsAt :: int
  scEndsAt :: int
  scOrderingFeeCentsPerTrainKm :: int
  scBonusCentsPerPeriod :: int
  scPenaltyRates :: penalty_rates
  scEvidenceRequired :: "string list"
  scMandatoryVehicleCostCentsPerTrainKm :: "int option"

record performance_evidence =
  peTrainKm :: int
  peMinimumSeatsProvided :: "int option"
  pePunctualityBasisPoints :: int
  peCancellations :: int
  peMissingSeats :: int
  peMissedConnections :: int
  peEvidence :: "string list"

record contract_settlement =
  csOrderingFeeCents :: int
  csBonusCents :: int
  csPenaltyCents :: int
  csNetCents :: int
  csExplanation :: "string list"

definition validPerformance :: "performance_evidence \<Rightarrow> bool" where
  "validPerformance p \<longleftrightarrow> \<not> (peTrainKm p < 0
     \<or> \<not> is_safe (pePunctualityBasisPoints p) \<or> pePunctualityBasisPoints p < 0 \<or> pePunctualityBasisPoints p > 10000
     \<or> \<not> is_safe (peCancellations p) \<or> peCancellations p < 0
     \<or> \<not> is_safe (peMissingSeats p) \<or> peMissingSeats p < 0
     \<or> \<not> is_safe (peMissedConnections p) \<or> peMissedConnections p < 0)"

definition missingPromisedSeats :: "service_contract \<Rightarrow> performance_evidence \<Rightarrow> int" where
  "missingPromisedSeats contract performance = (case scQualityPromises contract of
       None \<Rightarrow> 0
     | Some promises \<Rightarrow> max 0 (js_sub (qpMinimumSeats promises)
         (case peMinimumSeatsProvided performance of None \<Rightarrow> qpMinimumSeats promises | Some s \<Rightarrow> s)))"

definition missingSeatsOf :: "service_contract \<Rightarrow> performance_evidence \<Rightarrow> int" where
  "missingSeatsOf contract performance = max (peMissingSeats performance) (missingPromisedSeats contract performance)"

definition targetPunctuality :: "service_contract \<Rightarrow> int" where
  "targetPunctuality contract = (case scQualityPromises contract of None \<Rightarrow> 9000 | Some p \<Rightarrow> qpPunctualityBasisPoints p)"

definition bonusOf :: "service_contract \<Rightarrow> performance_evidence \<Rightarrow> int" where
  "bonusOf contract performance =
     (if pePunctualityBasisPoints performance \<ge> max 9500 (targetPunctuality contract) \<and> peCancellations performance = 0 \<and>
        missingSeatsOf contract performance = 0 then scBonusCentsPerPeriod contract else 0)"

definition penaltyParts :: "service_contract \<Rightarrow> performance_evidence \<Rightarrow> (int \<times> int \<times> string) list" where
  "penaltyParts contract performance = (let rates = scPenaltyRates contract in
     [(max 0 (targetPunctuality contract - pePunctualityBasisPoints performance), prtPunctuality rates, ''Puenktlichkeitspoenale''),
      (peCancellations performance, prtCancellation rates, ''Ausfallpoenale''),
      (missingSeatsOf contract performance, prtSeats rates, ''Sitzplatzpoenale''),
      (peMissedConnections performance, prtConnections rates, ''Anschlusspoenale'')])"

definition settleContract :: "service_contract \<Rightarrow> performance_evidence \<Rightarrow> economy_error + contract_settlement" where
  "settleContract contract performance =
     invariant (validPerformance performance) (EconomyRangeError ''Leistungsnachweis'')
    (bnd (money (assertNonnegativeI64 (peTrainKm performance) ''Zugkilometer'')) (\<lambda>_.
     invariant (\<not> (scOrderingFeeCentsPerTrainKm contract < 0 \<or> scBonusCentsPerPeriod contract < 0
        \<or> (\<exists>rate \<in> set (penaltyRateValues (scPenaltyRates contract)). rate < 0))) (EconomyRangeError ''Vertrag'')
    (bnd (money (assertNonnegativeI64 (scOrderingFeeCentsPerTrainKm contract) ''Bestellerentgelt je Zugkilometer'')) (\<lambda>_.
     bnd (money (assertNonnegativeI64 (scBonusCentsPerPeriod contract) ''Vertragsbonus'')) (\<lambda>_.
     bnd (money (map_res (\<lambda>rate. assertNonnegativeI64 rate ''Poenalesatz'') (penaltyRateValues (scPenaltyRates contract)))) (\<lambda>_.
     invariant (\<forall>required \<in> set (scEvidenceRequired contract). required \<in> set (peEvidence performance)) (EconomyError ''Vertragsnachweis'')
    (bnd (money (multiplyNonnegativeI64 (peTrainKm performance) (scOrderingFeeCentsPerTrainKm contract) ''Bestellerentgelt'')) (\<lambda>orderingFee.
     invariant (case scQualityPromises contract of None \<Rightarrow> True | Some promises \<Rightarrow>
        \<not> (qpExtraSeats promises > 0 \<and> (case peMinimumSeatsProvided performance of None \<Rightarrow> True | Some s \<Rightarrow> \<not> is_safe s \<or> s < 0)))
        (EconomyError ''Sitzplatzkapazitaet'')
    (bnd (money (map_res (\<lambda>(quantity, rate, name). multiplyNonnegativeI64 quantity rate name) (penaltyParts contract performance))) (\<lambda>parts.
     bnd (money (fold_res (\<lambda>amount s. addI64 s amount ''Gesamtpoenale'') parts 0)) (\<lambda>penalties.
     bnd (money (addI64 orderingFee (bonusOf contract performance) ''Vertragserloes'')) (\<lambda>revenue.
     bnd (money (subtractI64 revenue penalties ''Vertragsnetto'')) (\<lambda>net.
     Inr \<lparr>csOrderingFeeCents = orderingFee, csBonusCents = bonusOf contract performance, csPenaltyCents = penalties,
        csNetCents = net, csExplanation = [''Bestellerentgelt '' @ int_str orderingFee,
          ''Bonus '' @ int_str (bonusOf contract performance), ''Poenale '' @ int_str penalties]\<rparr>)))))))))))))"

section \<open>Public operation and budgets\<close>

record public_operation =
  pbLotId :: string
  pbPeriodsRemaining :: int
  pbMinimumServiceOnly :: bool
  pbQualityBonusEligible :: bool
  pbLivemapMarker :: string
  pbPathsPriority :: string
  pbDispatchPolicy :: string
  pbVehiclePool :: "string list"

definition startPublicOperation :: "string \<Rightarrow> string list \<Rightarrow> public_operation" where
  "startPublicOperation lotId vehiclePool =
     \<lparr>pbLotId = lotId, pbPeriodsRemaining = 2, pbMinimumServiceOnly = True, pbQualityBonusEligible = False,
      pbLivemapMarker = ''public-operator'', pbPathsPriority = ''subordinate'',
      pbDispatchPolicy = ''conservative-no-optimization'', pbVehiclePool = vehiclePool\<rparr>"

record retender =
  rtdOrderingFeeIncreaseBasisPoints :: int
  rtdServiceReductionBasisPoints :: int
  rtdSuppliedVehicles :: bool
  rtdRetenderAfterPeriods :: int

definition improveFailedPackage :: "public_operation \<Rightarrow> int \<Rightarrow> economy_rules \<Rightarrow> retender" where
  "improveFailedPackage operation failureCount rules =
     \<lparr>rtdOrderingFeeIncreaseBasisPoints = js_mul (ruFailedPackageFeeStepBasisPoints rules) failureCount,
      rtdServiceReductionBasisPoints = js_mul (ruFailedPackageReductionStepBasisPoints rules) (max 0 (failureCount - 1)),
      rtdSuppliedVehicles = (length (pbVehiclePool operation) > 0 \<and> failureCount \<ge> 2), rtdRetenderAfterPeriods = 2\<rparr>"

definition advancePublicOperation :: "public_operation \<Rightarrow> int \<Rightarrow> economy_rules \<Rightarrow> public_operation + retender" where
  "advancePublicOperation operation failureCount rules =
     (if pbPeriodsRemaining operation > 1
      then Inl (operation\<lparr>pbPeriodsRemaining := pbPeriodsRemaining operation - 1\<rparr>)
      else Inr (improveFailedPackage operation failureCount rules))"

record authority_budget =
  abAuthorityId :: string
  abPeriod :: int
  abAvailableCents :: int
  abCommittedCents :: int

definition commitAuthorityBudget :: "authority_budget \<Rightarrow> int \<Rightarrow> economy_error + authority_budget" where
  "commitAuthorityBudget budget amountCents =
     invariant (\<not> (amountCents < 0 \<or> abCommittedCents budget + amountCents > abAvailableCents budget)) (EconomyError ''Budget'')
       (Inr (budget\<lparr>abCommittedCents := abCommittedCents budget + amountCents\<rparr>))"

section \<open>Settlements are exact, and worse service never pays\<close>

definition penaltyOf :: "service_contract \<Rightarrow> performance_evidence \<Rightarrow> int" where
  "penaltyOf c p = max 0 (targetPunctuality c - pePunctualityBasisPoints p) * prtPunctuality (scPenaltyRates c) +
     peCancellations p * prtCancellation (scPenaltyRates c) + missingSeatsOf c p * prtSeats (scPenaltyRates c) +
     peMissedConnections p * prtConnections (scPenaltyRates c)"

lemma settleContract_parts:
  assumes "settleContract c p = Inr r"
  shows "validPerformance p" "\<forall>rate \<in> set (penaltyRateValues (scPenaltyRates c)). 0 \<le> rate" "0 \<le> scBonusCentsPerPeriod c"
    "\<forall>x \<in> set (scEvidenceRequired c). x \<in> set (peEvidence p)"
    "csOrderingFeeCents r = peTrainKm p * scOrderingFeeCentsPerTrainKm c" "0 \<le> csOrderingFeeCents r"
    "csBonusCents r = bonusOf c p" "csPenaltyCents r = penaltyOf c p"
    "csNetCents r = csOrderingFeeCents r + csBonusCents r - csPenaltyCents r"
    "MIN_I64 \<le> csNetCents r" "csNetCents r \<le> MAX_I64" "csPenaltyCents r \<le> MAX_I64"
proof -
  from assms obtain parts where parts: "map_res (\<lambda>(quantity, rate, name). multiplyNonnegativeI64 quantity rate name) (penaltyParts c p) = Inr parts"
    and pen: "fold_res (\<lambda>amount s. addI64 s amount ''Gesamtpoenale'') parts 0 = Inr (csPenaltyCents r)"
    unfolding settleContract_def by (auto simp: res_simps)
  have "parts = map (\<lambda>(quantity, rate, name). quantity * rate) (penaltyParts c p)"
    using parts by (auto simp: penaltyParts_def Let_def res_simps)
  then show "csPenaltyCents r = penaltyOf c p"
    using addAmounts [OF pen] by (simp add: penaltyParts_def penaltyOf_def Let_def)
  have "parts \<noteq> []" using parts by (auto simp: penaltyParts_def Let_def res_simps)
  then obtain xs x where xs: "parts = xs @ [x]" by (cases parts rule: rev_cases) auto
  then show "csPenaltyCents r \<le> MAX_I64" using pen by (auto simp: fold_res_append res_simps)
qed (use assms in \<open>auto simp: settleContract_def res_simps not_less mult_nonneg_nonneg\<close>)

text \<open>Service that is worse in some respects and better in none.\<close>

definition worse :: "performance_evidence \<Rightarrow> performance_evidence \<Rightarrow> bool" where
  "worse q p \<longleftrightarrow> peTrainKm q = peTrainKm p \<and> pePunctualityBasisPoints q \<le> pePunctualityBasisPoints p \<and>
     peCancellations p \<le> peCancellations q \<and> peMissingSeats p \<le> peMissingSeats q \<and> peMissedConnections p \<le> peMissedConnections q \<and>
     (case (peMinimumSeatsProvided q, peMinimumSeatsProvided p) of (None, None) \<Rightarrow> True
        | (Some s, Some t) \<Rightarrow> 0 \<le> s \<and> s \<le> t \<and> is_safe t | _ \<Rightarrow> False)"

lemma missing_worse:
  assumes "worse q p" and "\<forall>k. scQualityPromises c = Some k \<longrightarrow> 0 \<le> qpMinimumSeats k \<and> is_safe (qpMinimumSeats k)"
  shows "missingSeatsOf c p \<le> missingSeatsOf c q"
proof (cases "scQualityPromises c")
  case None
  then show ?thesis using assms(1) by (auto simp: missingSeatsOf_def missingPromisedSeats_def worse_def)
next
  case (Some k)
  have m: "0 \<le> qpMinimumSeats k" "is_safe (qpMinimumSeats k)" using assms(2) Some by auto
  show ?thesis
  proof (cases "peMinimumSeatsProvided q")
    case None
    then have "peMinimumSeatsProvided p = None" using assms(1) by (auto simp: worse_def split: option.splits)
    then show ?thesis using None Some assms(1) by (auto simp: missingSeatsOf_def missingPromisedSeats_def worse_def)
  next
    case (Some s)
    then obtain t where t: "peMinimumSeatsProvided p = Some t" "0 \<le> s" "s \<le> t" "is_safe t"
      using assms(1) by (auto simp: worse_def split: option.splits)
    have "js_sub (qpMinimumSeats k) x = qpMinimumSeats k - x" if "0 \<le> x" "x \<le> t" for x
      using m t that unfolding js_sub_def by (intro js_round_safe) (auto simp: is_safe_def)
    then show ?thesis
      using Some \<open>scQualityPromises c = Some k\<close> t assms(1) by (auto simp: missingSeatsOf_def missingPromisedSeats_def worse_def)
  qed
qed

text \<open>C26: A settlement is exact (the ordering fee is train kilometres times rate, the net is fee plus bonus less
  penalties, within i64), it is granted only with all evidence the contract requires, and worse
  service with the same train kilometres never earns a higher bonus, a lower penalty or a higher net.\<close>

theorem settlement_never_rewards_worse_service:
  assumes "settleContract c good = Inr r" and "settleContract c bad = Inr s" and "worse bad good"
    and "\<forall>k. scQualityPromises c = Some k \<longrightarrow> 0 \<le> qpMinimumSeats k \<and> is_safe (qpMinimumSeats k)"
  shows "csOrderingFeeCents r = peTrainKm good * scOrderingFeeCentsPerTrainKm c \<and>
    csNetCents r = csOrderingFeeCents r + csBonusCents r - csPenaltyCents r \<and> MIN_I64 \<le> csNetCents r \<and> csNetCents r \<le> MAX_I64 \<and>
    set (scEvidenceRequired c) \<subseteq> set (peEvidence good) \<and>
    csOrderingFeeCents s = csOrderingFeeCents r \<and> csBonusCents s \<le> csBonusCents r \<and> csPenaltyCents r \<le> csPenaltyCents s \<and>
    csNetCents s \<le> csNetCents r"
proof -
  note R = settleContract_parts [OF assms(1)] and S = settleContract_parts [OF assms(2)]
  have rates: "0 \<le> prtPunctuality (scPenaltyRates c)" "0 \<le> prtCancellation (scPenaltyRates c)"
    "0 \<le> prtSeats (scPenaltyRates c)" "0 \<le> prtConnections (scPenaltyRates c)" using R(2) by (simp_all add: penaltyRateValues_def)
  note m = missing_worse [OF assms(3,4)]
  have "bonusOf c bad \<le> bonusOf c good"
  proof (cases "bonusOf c bad = 0")
    case False
    then have b: "pePunctualityBasisPoints bad \<ge> max 9500 (targetPunctuality c)" "peCancellations bad = 0" "missingSeatsOf c bad = 0"
      by (auto simp: bonusOf_def split: if_splits)
    have "0 \<le> peCancellations good" "0 \<le> missingSeatsOf c good" using R(1) by (auto simp: validPerformance_def missingSeatsOf_def)
    then have "bonusOf c good = scBonusCentsPerPeriod c"
      using b m assms(3) by (auto simp: bonusOf_def worse_def)
    then show ?thesis using R(3) by (simp add: bonusOf_def)
  qed (use R(3) in \<open>simp add: bonusOf_def\<close>)
  moreover have "penaltyOf c good \<le> penaltyOf c bad"
    unfolding penaltyOf_def using rates m assms(3)
    by (intro add_mono mult_right_mono) (auto simp: worse_def)
  ultimately show ?thesis using R S assms(3) by (auto simp: worse_def)
qed

definition sample_contract :: service_contract where
  "sample_contract = \<lparr>scQualityPromises = Some \<lparr>qpExtraSeats = 10, qpPunctualityBasisPoints = 9600, qpAdditionalStops = 0, qpMinimumSeats = 110\<rparr>,
     scId = ''c'', scWorldId = ''w'', scLotId = ''l'', scOperatorId = ''o'', scStartsAt = 0, scEndsAt = 9,
     scOrderingFeeCentsPerTrainKm = 7, scBonusCentsPerPeriod = 50,
     scPenaltyRates = \<lparr>prtPunctuality = 1, prtCancellation = 2, prtSeats = 3, prtConnections = 4\<rparr>,
     scEvidenceRequired = [''e''], scMandatoryVehicleCostCentsPerTrainKm = None\<rparr>"

definition sample_performance :: "int \<Rightarrow> int \<Rightarrow> performance_evidence" where
  "sample_performance seats punctuality = \<lparr>peTrainKm = 100, peMinimumSeatsProvided = Some seats, pePunctualityBasisPoints = punctuality,
     peCancellations = 0, peMissingSeats = 0, peMissedConnections = 0, peEvidence = [''e'', ''f'']\<rparr>"

theorem settlement_never_rewards_worse_service_witness:
  "case (settleContract sample_contract (sample_performance 110 9700), settleContract sample_contract (sample_performance 100 9500)) of
     (Inr r, Inr s) \<Rightarrow> csNetCents r = 750 \<and> csNetCents s = 570 \<and> csNetCents s \<le> csNetCents r | _ \<Rightarrow> False"
proof -
  let ?r = "settleContract sample_contract (sample_performance 110 9700)" and ?s = "settleContract sample_contract (sample_performance 100 9500)"
  have "case (?r, ?s) of (Inr r, Inr s) \<Rightarrow> csNetCents r = 750 \<and> csNetCents s = 570 | _ \<Rightarrow> False" by code_simp
  then obtain r s where rs: "?r = Inr r" "?s = Inr s" "csNetCents r = 750" "csNetCents s = 570" by (cases ?r; cases ?s) auto
  have "csNetCents s \<le> csNetCents r"
    using settlement_never_rewards_worse_service [OF rs(1,2)]
    by (simp add: worse_def sample_performance_def sample_contract_def is_safe_def)
  then show ?thesis using rs by simp
qed

end
