(* ===== verification/EconomyTender.thy ===== *)
theory EconomyTender
  imports EconomyRelease
begin

text \<open>
  Tenders and bids, \<open>packages/economy/src/tender.ts\<close>: the viability threshold, the scoring of a bid
  and the award. Numbers (seats, points, times) have integral values.
\<close>

section \<open>Specifications, vehicles and tenders\<close>

record vehicle_requirements =
  vrMinimumSeats :: int
  vrMinimumMaximumSpeedKph :: "int option"
  vrFirstClassBasisPoints :: int
  vrAccessible :: bool
  vrBicyclePlaces :: int
  vrWheelchairPlaces :: int
  vrRequiredEquipment :: "string list"

record vehicle_evidence =
  veSource :: string
  veFleetRevision :: int
  veSnapshotHash :: string
  veFormationId :: string

record vehicle_concept = vehicle_requirements +
  vcFormationId :: string
  vcMaximumSpeedKph :: int
  vcOperatingCostCentsPerTrainKm :: int
  vcVehicleAgeYears :: int
  vcTraction :: traction
  vcReplacementPlan :: bool
  vcEvidence :: vehicle_evidence

record service_specification =
  ssLines :: "string list"
  ssTrainKmPerPeriod :: int
  ssStopsPerPeriod :: int
  ssServiceHoursPerPeriod :: int
  ssFacilityHoursPerPeriod :: int
  ssEnergyKwhPerPeriod :: int
  ssVehicleCount :: int
  ssOvernightUnits :: int
  ssProtectionUnits :: int
  ssRequirements :: vehicle_requirements

record planning_evidence =
  evPlanningRevision :: int
  evSnapshotHash :: string
  evLotId :: string
  evSource :: string

datatype tender_status = Announced | TenderOpen | Awarded | Failed

record tender_base =
  tnId :: string
  tnWorldId :: string
  tnLotId :: string
  tnIncumbentOperatorId :: string
  tnProfile :: tender_profile
  tnSpecification :: service_specification
  tnPlanningEvidence :: "planning_evidence option"
  tnAnnouncedAt :: int
  tnOpensAt :: int
  tnClosesAt :: int
  tnOperatingFrom :: int
  tnContractPeriods :: int
  tnPeriodDurationSeconds :: int

record tender = tender_base +
  tnRules :: economy_rules
  tnViabilityThresholdCentsPerTrainKm :: int
  tnStatus :: tender_status

definition profiledCost :: "economy_release \<Rightarrow> service_specification \<Rightarrow> tender_profile \<Rightarrow> int" where
  "profiledCost release specification profile =
     (let r = reRates release;
          costs = ssTrainKmPerPeriod specification * rtTrackPerTrainKmCents r + ssStopsPerPeriod specification * rtStationPerStopCents r
            + ssServiceHoursPerPeriod specification * rtPersonnelPerHourCents r + ssFacilityHoursPerPeriod specification * rtFacilityPerHourCents r
            + ssEnergyKwhPerPeriod specification * rtEnergyPerKwhCents r + ssVehicleCount specification * rtVehiclePerPeriodCents r
            + ssOvernightUnits specification * rtOvernightStablingPerPeriodCents r
            + ssProtectionUnits specification * rtProtectionEquipmentPerPeriodCents r + rtAdministrationPerPeriodCents r
      in costs + bigint_div (costs * tpViabilitySurchargeBasisPoints profile) 10000)"

definition calculateViabilityThreshold ::
    "economy_release \<Rightarrow> service_specification \<Rightarrow> tender_profile \<Rightarrow> economy_error + int" where
  "calculateViabilityThreshold release specification profile =
     invariant (\<not> ssTrainKmPerPeriod specification \<le> 0) (EconomyError ''Leistungsbeschreibung'')
    (Inr (bigint_div (profiledCost release specification profile + ssTrainKmPerPeriod specification - 1)
       (ssTrainKmPerPeriod specification)))"

definition createTender :: "tender_base \<Rightarrow> economy_release \<Rightarrow> bool \<Rightarrow> economy_error + tender" where
  "createTender input release smallLot =
     (let duration = tnClosesAt input - tnOpensAt input;
          minimum = (if smallLot then 86400 else 3 * 86400);
          maximum = (if smallLot then 2 * 86400 else 7 * 86400)
      in invariant (\<not> (duration < minimum \<or> duration > maximum \<or> tnAnnouncedAt input > tnOpensAt input
            \<or> tnOperatingFrom input \<le> tnClosesAt input \<or> tnContractPeriods input < 2 \<or> tnPeriodDurationSeconds input \<le> 0))
           (EconomyError ''Fristen'')
        (bnd (calculateViabilityThreshold release (tnSpecification input) (tnProfile input)) (\<lambda>threshold.
         Inr (tender_base.extend input
           (tender.fields (reRules release) threshold Announced)))))"

section \<open>Bids\<close>

record quality_promises =
  qmExtraSeats :: int
  qmPunctualityBasisPoints :: int
  qmAdditionalStops :: int

definition DIMENSION_MAXIMUM_POINTS :: int where
  "DIMENSION_MAXIMUM_POINTS = 2500"

definition MAXIMUM_ADDITIONAL_STOPS :: int where
  "MAXIMUM_ADDITIONAL_STOPS = 0"

record bid =
  bdId :: string
  bdOperatorId :: string
  bdOrderingFeeCentsPerTrainKm :: int
  bdVehicle :: vehicle_concept
  bdPromises :: quality_promises
  bdSubmittedAt :: int

record score_breakdown =
  sbPricePoints :: int
  sbQualityPoints :: int
  sbExtraSeats :: int
  sbPunctuality :: int
  sbAdditionalStops :: int
  sbRequirementFocus :: int

definition validateVehicle :: "vehicle_requirements \<Rightarrow> vehicle_concept \<Rightarrow> string list" where
  "validateVehicle requirements vehicle =
     (if veSource (vcEvidence vehicle) \<noteq> ''zugfolge-fleet-mobilization/v1'' \<or> veFormationId (vcEvidence vehicle) \<noteq> vcFormationId vehicle
         \<or> \<not> is_safe (veFleetRevision (vcEvidence vehicle)) \<or> veFleetRevision (vcEvidence vehicle) < 0
         \<or> \<not> hex64 (veSnapshotHash (vcEvidence vehicle)) then [''fleetSnapshotEvidence''] else []) @
     (if vrMinimumSeats vehicle < vrMinimumSeats requirements then [''minimumSeats''] else []) @
     (case vrMinimumMaximumSpeedKph requirements of None \<Rightarrow> [] | Some v \<Rightarrow> if vcMaximumSpeedKph vehicle < v then [''maximumSpeedKph''] else []) @
     (if vrFirstClassBasisPoints vehicle < vrFirstClassBasisPoints requirements then [''firstClassBasisPoints''] else []) @
     (if vrAccessible requirements \<and> \<not> vrAccessible vehicle then [''accessible''] else []) @
     (if vrBicyclePlaces vehicle < vrBicyclePlaces requirements then [''bicyclePlaces''] else []) @
     (if vrWheelchairPlaces vehicle < vrWheelchairPlaces requirements then [''wheelchairPlaces''] else []) @
     map (\<lambda>item. ''equipment:'' @ item) (filter (\<lambda>item. item \<notin> set (vrRequiredEquipment vehicle)) (vrRequiredEquipment requirements))"

definition boundedPoints :: "int \<Rightarrow> int \<Rightarrow> economy_error + int" where
  "boundedPoints quantity rate =
     invariant (\<not> (\<not> is_safe quantity \<or> \<not> is_safe rate \<or> quantity < 0 \<or> rate < 0)) (EconomyError ''Qualitaetswertung'')
       (Inr (if quantity * rate > DIMENSION_MAXIMUM_POINTS then DIMENSION_MAXIMUM_POINTS else quantity * rate))"

definition specialConditionMet :: "bid \<Rightarrow> special_condition option \<Rightarrow> bool" where
  "specialConditionMet bid condition = (case condition of
       None \<Rightarrow> True
     | Some (AdditionalStop n) \<Rightarrow> \<not> qmAdditionalStops (bdPromises bid) < n
     | Some (MaximumAge n) \<Rightarrow> \<not> vcVehicleAgeYears (bdVehicle bid) > n
     | Some (TractionOf ts) \<Rightarrow> vcTraction (bdVehicle bid) \<in> set ts
     | Some ReplacementPlan \<Rightarrow> vcReplacementPlan (bdVehicle bid))"

definition promiseValues :: "quality_promises \<Rightarrow> int list" where
  "promiseValues p = [qmExtraSeats p, qmPunctualityBasisPoints p, qmAdditionalStops p]"

definition uncappedFocusPoints :: "tender \<Rightarrow> bid \<Rightarrow> int" where
  "uncappedFocusPoints tender bid =
     (let requirements = ssRequirements (tnSpecification tender); vehicle = bdVehicle bid in
      case tpRequirementFocus (tnProfile tender) of
        FocusCapacity \<Rightarrow> js_mul (js_sub (vrMinimumSeats vehicle) (vrMinimumSeats requirements)) (ruPointsPerExtraSeat (tnRules tender))
      | FocusComfort \<Rightarrow> js_sub (vrFirstClassBasisPoints vehicle) (vrFirstClassBasisPoints requirements)
      | FocusBicycle \<Rightarrow> js_mul (js_sub (vrBicyclePlaces vehicle) (vrBicyclePlaces requirements)) (ruPointsPerExtraSeat (tnRules tender))
      | FocusAccessibility \<Rightarrow> if vrAccessible vehicle then ruRequirementFocusMaximumPoints (tnRules tender) else 0)"

definition priceRatio :: "tender \<Rightarrow> bid \<Rightarrow> int" where
  "priceRatio tender bid =
     (let threshold = tnViabilityThresholdCentsPerTrainKm tender in
      if threshold = 0 then 10000 else bigint_div ((threshold - bdOrderingFeeCentsPerTrainKm bid) * 10000) threshold)"

text \<open>The checks of a bid, in the order of the code.\<close>

definition admissibleBid :: "tender \<Rightarrow> bid \<Rightarrow> economy_error + unit" where
  "admissibleBid tender bid =
     invariant (\<not> (length (validateVehicle (ssRequirements (tnSpecification tender)) (bdVehicle bid)) > 0
        \<or> bdOrderingFeeCentsPerTrainKm bid > tnViabilityThresholdCentsPerTrainKm tender
        \<or> bdOrderingFeeCentsPerTrainKm bid < 0)) (EconomyError ''Ungueltiges Angebot'')
    (invariant (\<not> ((\<exists>v \<in> set (promiseValues (bdPromises bid)). \<not> is_safe v \<or> v < 0) \<or> qmPunctualityBasisPoints (bdPromises bid) > 10000))
        (EconomyError ''Qualitaetszusagen'')
    (invariant (\<not> (\<not> is_safe (vrMinimumSeats (bdVehicle bid)) \<or> qmExtraSeats (bdPromises bid) >
          js_sub (vrMinimumSeats (bdVehicle bid)) (vrMinimumSeats (ssRequirements (tnSpecification tender)))))
        (EconomyError ''Sitzplatzzusage'')
    (invariant (\<not> qmAdditionalStops (bdPromises bid) > MAXIMUM_ADDITIONAL_STOPS) (EconomyError ''Zusatzhalte'')
    (invariant (specialConditionMet bid (tpSpecialCondition (tnProfile tender))) (EconomyError ''Sonderauflage'') (Inr ())))))"

definition scoreBid :: "tender \<Rightarrow> bid \<Rightarrow> economy_error + score_breakdown" where
  "scoreBid tender bid =
     bnd (admissibleBid tender bid) (\<lambda>_.
     (let rules = tnRules tender; promises = bdPromises bid; weights = tpWeights (tnProfile tender) in
      bnd (boundedPoints (qmExtraSeats promises) (ruPointsPerExtraSeat rules)) (\<lambda>extraSeats.
      bnd (boundedPoints (max 0 (js_sub (qmPunctualityBasisPoints promises) (ruQualityBaselinePunctualityBasisPoints rules)))
            (ruPointsPerPunctualityBasisPoint rules)) (\<lambda>punctuality.
      bnd (boundedPoints (qmAdditionalStops promises) (ruPointsPerAdditionalStop rules)) (\<lambda>additionalStops.
      (let requirementFocus = min (min DIMENSION_MAXIMUM_POINTS (ruRequirementFocusMaximumPoints rules)) (max 0 (uncappedFocusPoints tender bid));
           qualityRatio = extraSeats + punctuality + additionalStops + requirementFocus
       in Inr \<lparr>sbPricePoints = priceRatio tender bid * swPrice weights div 10000,
            sbQualityPoints = qualityRatio * swQuality weights div 10000,
            sbExtraSeats = extraSeats, sbPunctuality = punctuality, sbAdditionalStops = additionalStops,
            sbRequirementFocus = requirementFocus\<rparr>))))))"

definition assistBid :: "tender \<Rightarrow> bid \<Rightarrow> int \<Rightarrow> int \<Rightarrow> economy_error + bid \<times> score_breakdown" where
  "assistBid tender input expectedCostCentsPerTrainKm targetMarginBasisPoints =
     (let price = expectedCostCentsPerTrainKm + bigint_div (expectedCostCentsPerTrainKm * targetMarginBasisPoints) 10000;
          offer = input\<lparr>bdOrderingFeeCentsPerTrainKm := price\<rparr>
      in bnd (scoreBid tender offer) (\<lambda>preview. Inr (offer, preview)))"

section \<open>The award\<close>

record award =
  awWinner :: "bid option"
  awScores :: "(string \<times> score_breakdown) list"
  awStatus :: tender_status

definition totalPoints :: "score_breakdown \<Rightarrow> int" where
  "totalPoints s = sbPricePoints s + sbQualityPoints s"

definition scored :: "tender \<Rightarrow> bid \<Rightarrow> (bid \<times> score_breakdown) list" where
  "scored tender bid = (case scoreBid tender bid of Inr s \<Rightarrow> [(bid, s)] | Inl e \<Rightarrow> [])"

definition compareScored :: "bid \<times> score_breakdown \<Rightarrow> bid \<times> score_breakdown \<Rightarrow> int" where
  "compareScored a b =
     (let scoreDifference = totalPoints (snd b) - totalPoints (snd a) in
      if scoreDifference \<noteq> 0 then scoreDifference
      else if bdOrderingFeeCentsPerTrainKm (fst a) \<noteq> bdOrderingFeeCentsPerTrainKm (fst b)
      then (if bdOrderingFeeCentsPerTrainKm (fst a) < bdOrderingFeeCentsPerTrainKm (fst b) then -1 else 1)
      else compareUtf8 (bdId (fst a)) (bdId (fst b)))"

definition awardTender :: "tender \<Rightarrow> bid list \<Rightarrow> int \<Rightarrow> economy_error + award" where
  "awardTender tender bids now =
     invariant (\<not> now < tnClosesAt tender) (EconomyError ''Fristende'')
    (let valid = sort_by compareScored (concat (map (scored tender) (filter (\<lambda>b. bdSubmittedAt b \<le> tnClosesAt tender) bids)))
     in Inr \<lparr>awWinner = (case valid of [] \<Rightarrow> None | v # _ \<Rightarrow> Some (fst v)),
          awScores = map_from (map (\<lambda>(b, s). (bdId b, s)) valid),
          awStatus = (if valid = [] then Failed else Awarded)\<rparr>)"

section \<open>The threshold covers the cost\<close>

lemma threshold_ceiling: "0 < km \<Longrightarrow> 0 \<le> c \<Longrightarrow> bigint_div (c + km - 1) km \<le> fee \<longleftrightarrow> c \<le> fee * km" for c km fee :: int
proof -
  assume km: "0 < km" and c: "0 \<le> c"
  have "bigint_div (c + km - 1) km = (c + km - 1) div km" using km c by (intro bigint_div_nonneg) auto
  moreover have "x div km \<le> fee \<longleftrightarrow> x < (fee + 1) * km" for x
  proof
    assume "x div km \<le> fee"
    then have "x div km * km \<le> fee * km" using km by (intro mult_right_mono) auto
    moreover have "x = x div km * km + x mod km" by simp
    moreover have "x mod km < km" using km by simp
    ultimately show "x < (fee + 1) * km" unfolding distrib_right mult_1 by linarith
  next
    assume x: "x < (fee + 1) * km"
    show "x div km \<le> fee"
    proof (rule ccontr)
      assume "\<not> x div km \<le> fee"
      then have "(fee + 1) * km \<le> x div km * km" using km by (intro mult_right_mono) auto
      moreover have "x = x div km * km + x mod km" by simp
      moreover have "0 \<le> x mod km" using km by simp
      ultimately show False using x by linarith
    qed
  qed
  moreover have "c + km - 1 < (fee + 1) * km \<longleftrightarrow> c \<le> fee * km"
    by (simp add: distrib_right) linarith
  ultimately show ?thesis by simp
qed

text \<open>A created tender keeps its bid window, starts service after it, copies the rules of the release, and its threshold
  is the least fee per train kilometre that covers the profiled cost of the specification: a fee is
  below the threshold exactly when it does not cover the cost.\<close>

theorem tender_threshold_covers_cost:
  assumes "createTender input release smallLot = Inr t" and "0 \<le> profiledCost release (tnSpecification input) (tnProfile input)"
  shows "tnClosesAt t - tnOpensAt t \<in> (if smallLot then {86400 .. 172800} else {259200 .. 604800}) \<and> tnAnnouncedAt t \<le> tnOpensAt t \<and>
    tnClosesAt t < tnOperatingFrom t \<and> 2 \<le> tnContractPeriods t \<and> tnRules t = reRules release \<and> tnStatus t = Announced \<and>
    tender_base.truncate t = input \<and>
    (\<forall>fee. fee < tnViabilityThresholdCentsPerTrainKm t \<longleftrightarrow>
       fee * ssTrainKmPerPeriod (tnSpecification t) < profiledCost release (tnSpecification t) (tnProfile t))"
proof -
  from assms(1) obtain v where v: "calculateViabilityThreshold release (tnSpecification input) (tnProfile input) = Inr v"
    and t: "t = tender_base.extend input (tender.fields (reRules release) v Announced)"
    unfolding createTender_def Let_def by (auto simp: res_simps)
  have km: "0 < ssTrainKmPerPeriod (tnSpecification input)"
    and th: "v = bigint_div (profiledCost release (tnSpecification input) (tnProfile input) + ssTrainKmPerPeriod (tnSpecification input) - 1)
      (ssTrainKmPerPeriod (tnSpecification input))"
    using v by (auto simp: calculateViabilityThreshold_def res_simps)
  have "fee < v \<longleftrightarrow> fee * ssTrainKmPerPeriod (tnSpecification input) < profiledCost release (tnSpecification input) (tnProfile input)" for fee
    using threshold_ceiling [OF km assms(2), of fee] th by (meson not_le)
  moreover have "tnClosesAt input - tnOpensAt input \<in> (if smallLot then {86400 .. 172800} else {259200 .. 604800})"
    "tnAnnouncedAt input \<le> tnOpensAt input" "tnClosesAt input < tnOperatingFrom input" "2 \<le> tnContractPeriods input"
    using assms(1) unfolding createTender_def Let_def by (auto simp: invariant_Inr not_less not_le split: if_splits)
  ultimately show ?thesis unfolding t by (cases input) (simp add: tender_base.defs tender.defs)
qed

section \<open>Points stay in their range\<close>

lemma boundedPoints_Inr: "boundedPoints q r = Inr p \<Longrightarrow> 0 \<le> p \<and> p \<le> 2500"
  by (auto simp: boundedPoints_def res_simps DIMENSION_MAXIMUM_POINTS_def)

lemma admissible_fee: "admissibleBid t b = Inr () \<Longrightarrow> 0 \<le> bdOrderingFeeCentsPerTrainKm b \<and>
    bdOrderingFeeCentsPerTrainKm b \<le> tnViabilityThresholdCentsPerTrainKm t \<and>
    validateVehicle (ssRequirements (tnSpecification t)) (bdVehicle b) = []"
  by (auto simp: admissibleBid_def invariant_Inr)

lemma admissible_cheaper:
  "admissibleBid t b = Inr () \<Longrightarrow> 0 \<le> fee \<Longrightarrow> fee \<le> bdOrderingFeeCentsPerTrainKm b \<Longrightarrow>
    admissibleBid t (b\<lparr>bdOrderingFeeCentsPerTrainKm := fee\<rparr>) = Inr ()"
  by (auto simp: admissibleBid_def invariant_Inr specialConditionMet_def split: option.splits special_condition.splits)

lemma priceRatio_range:
  assumes "0 \<le> bdOrderingFeeCentsPerTrainKm b" "bdOrderingFeeCentsPerTrainKm b \<le> tnViabilityThresholdCentsPerTrainKm t"
  shows "0 \<le> priceRatio t b" "priceRatio t b \<le> 10000"
    "fee \<le> bdOrderingFeeCentsPerTrainKm b \<Longrightarrow> priceRatio t b \<le> priceRatio t (b\<lparr>bdOrderingFeeCentsPerTrainKm := fee\<rparr>)"
proof -
  let ?t = "tnViabilityThresholdCentsPerTrainKm t" and ?f = "bdOrderingFeeCentsPerTrainKm b"
  have r: "bigint_div ((?t - f) * 10000) ?t = (?t - f) * 10000 div ?t" if "f \<le> ?f" for f
    using assms that by (intro bigint_div_nonneg) auto
  have "(?t - ?f) * 10000 div ?t \<le> 10000" if "0 < ?t"
  proof -
    have "(?t - ?f) * 10000 div ?t \<le> ?t * 10000 div ?t" using that assms by (intro zdiv_mono1) auto
    then show ?thesis using that by simp
  qed
  then show "0 \<le> priceRatio t b" "priceRatio t b \<le> 10000"
    using assms r [of ?f] by (auto simp: priceRatio_def Let_def pos_imp_zdiv_nonneg_iff)
  show "priceRatio t b \<le> priceRatio t (b\<lparr>bdOrderingFeeCentsPerTrainKm := fee\<rparr>)" if "fee \<le> ?f"
    using assms that r [of ?f] r [of fee] by (auto simp: priceRatio_def Let_def intro!: zdiv_mono1)
qed

lemma weighted_range: "0 \<le> x \<Longrightarrow> x \<le> 10000 \<Longrightarrow> 0 \<le> w \<Longrightarrow> 0 \<le> x * w div 10000 \<and> x * w div 10000 \<le> w" for x w :: int
proof -
  assume x: "0 \<le> x" "x \<le> 10000" "0 \<le> w"
  have "x * w div 10000 \<le> 10000 * w div 10000" using x by (intro zdiv_mono1 mult_right_mono) auto
  moreover have "0 \<le> x * w" using x by simp
  ultimately show ?thesis by (simp add: pos_imp_zdiv_nonneg_iff)
qed

lemma scoreBid_parts:
  assumes "scoreBid t b = Inr s"
  shows "admissibleBid t b = Inr ()" "0 \<le> sbExtraSeats s" "sbExtraSeats s \<le> 2500" "0 \<le> sbPunctuality s" "sbPunctuality s \<le> 2500"
    "0 \<le> sbAdditionalStops s" "sbAdditionalStops s \<le> 2500" "sbRequirementFocus s \<le> 2500"
    "0 \<le> ruRequirementFocusMaximumPoints (tnRules t) \<longrightarrow> 0 \<le> sbRequirementFocus s"
    "sbPricePoints s = priceRatio t b * swPrice (tpWeights (tnProfile t)) div 10000"
    "sbQualityPoints s = (sbExtraSeats s + sbPunctuality s + sbAdditionalStops s + sbRequirementFocus s)
       * swQuality (tpWeights (tnProfile t)) div 10000"
  using assms by (auto simp: scoreBid_def Let_def res_simps DIMENSION_MAXIMUM_POINTS_def dest: boundedPoints_Inr)

text \<open>The score of a bid stays within the weights of the profile (so at most 10000 points in all), no dimension gives
  more than 2500 points, only a vehicle without failures and a fee between zero and the threshold are
  scored, and lowering the fee never lowers the price points nor changes the quality points.\<close>

theorem score_within_weights:
  assumes "scoreBid t b = Inr s" and "profile_ok (tnProfile t)" and "0 \<le> ruRequirementFocusMaximumPoints (tnRules t)"
  shows "0 \<le> sbPricePoints s \<and> sbPricePoints s \<le> swPrice (tpWeights (tnProfile t)) \<and>
    0 \<le> sbQualityPoints s \<and> sbQualityPoints s \<le> swQuality (tpWeights (tnProfile t)) \<and> totalPoints s \<le> 10000 \<and>
    {sbExtraSeats s, sbPunctuality s, sbAdditionalStops s, sbRequirementFocus s} \<subseteq> {0 .. 2500} \<and>
    validateVehicle (ssRequirements (tnSpecification t)) (bdVehicle b) = [] \<and>
    (\<forall>fee. 0 \<le> fee \<and> fee \<le> bdOrderingFeeCentsPerTrainKm b \<longrightarrow>
       (\<exists>s'. scoreBid t (b\<lparr>bdOrderingFeeCentsPerTrainKm := fee\<rparr>) = Inr s' \<and> sbPricePoints s \<le> sbPricePoints s' \<and>
          sbQualityPoints s' = sbQualityPoints s))"
proof -
  note p = scoreBid_parts [OF assms(1)]
  note fee = admissible_fee [OF p(1)]
  have w: "0 \<le> swPrice (tpWeights (tnProfile t))" "0 \<le> swQuality (tpWeights (tnProfile t))"
    "swPrice (tpWeights (tnProfile t)) + swQuality (tpWeights (tnProfile t)) = 10000"
    using assms(2) by (simp_all add: profile_ok_def)
  have price: "0 \<le> sbPricePoints s" "sbPricePoints s \<le> swPrice (tpWeights (tnProfile t))"
    using weighted_range [OF _ _ w(1), of "priceRatio t b"] priceRatio_range(1,2) [of b t] fee p(10) by auto
  have q: "0 \<le> sbQualityPoints s" "sbQualityPoints s \<le> swQuality (tpWeights (tnProfile t))"
    using weighted_range [OF _ _ w(2), of "sbExtraSeats s + sbPunctuality s + sbAdditionalStops s + sbRequirementFocus s"] p assms(3) by auto
  have "\<exists>s'. scoreBid t (b\<lparr>bdOrderingFeeCentsPerTrainKm := f\<rparr>) = Inr s' \<and> sbPricePoints s \<le> sbPricePoints s' \<and>
      sbQualityPoints s' = sbQualityPoints s" if f: "0 \<le> f" "f \<le> bdOrderingFeeCentsPerTrainKm b" for f
  proof -
    let ?c = "b\<lparr>bdOrderingFeeCentsPerTrainKm := f\<rparr>"
    have "uncappedFocusPoints t ?c = uncappedFocusPoints t b" by (simp add: uncappedFocusPoints_def)
    then have "scoreBid t ?c = Inr (s\<lparr>sbPricePoints := priceRatio t ?c * swPrice (tpWeights (tnProfile t)) div 10000\<rparr>)"
      using assms(1) admissible_cheaper [OF p(1) f] by (auto simp: scoreBid_def Let_def res_simps)
    moreover have "sbPricePoints s \<le> priceRatio t ?c * swPrice (tpWeights (tnProfile t)) div 10000"
      unfolding p(10) using priceRatio_range(3) [of b t f] fee f w(1) by (intro zdiv_mono1 mult_right_mono) auto
    ultimately show ?thesis by simp
  qed
  then show ?thesis using price q p assms(3) w(3) fee by (auto simp: totalPoints_def)
qed

section \<open>The best bid wins\<close>

lemma compareScored_le: "compareScored a b \<le> 0 \<longleftrightarrow> totalPoints (snd b) < totalPoints (snd a) \<or>
    totalPoints (snd b) = totalPoints (snd a) \<and> (bdOrderingFeeCentsPerTrainKm (fst a) < bdOrderingFeeCentsPerTrainKm (fst b) \<or>
      bdOrderingFeeCentsPerTrainKm (fst a) = bdOrderingFeeCentsPerTrainKm (fst b) \<and> bdId (fst a) \<le> bdId (fst b))"
  by (auto simp: compareScored_def Let_def compareUtf8_def compareText_le)

interpretation scored_cmp: comparator compareScored
proof
  fix x y z :: "bid \<times> score_breakdown"
  show "compareScored x y < 0 \<longleftrightarrow> 0 < compareScored y x"
    by (auto simp: compareScored_def Let_def compareUtf8_def compareText_neg compareText_pos)
  show "compareScored x y \<le> 0 \<Longrightarrow> compareScored y z \<le> 0 \<Longrightarrow> compareScored x z \<le> 0"
    by (auto simp: compareScored_le)
qed

definition validScores :: "tender \<Rightarrow> bid list \<Rightarrow> (bid \<times> score_breakdown) list" where
  "validScores t bids = concat (map (scored t) (filter (\<lambda>b. bdSubmittedAt b \<le> tnClosesAt t) bids))"

lemma validScores_set: "(b, s) \<in> set (validScores t bids) \<longleftrightarrow>
    b \<in> set bids \<and> bdSubmittedAt b \<le> tnClosesAt t \<and> scoreBid t b = Inr s"
  by (auto simp: validScores_def scored_def split: sum.splits)

lemma validScores_ids: "distinct (map bdId bids) \<Longrightarrow> distinct (map (bdId \<circ> fst) (validScores t bids))"
proof (induction bids)
  case (Cons b bids)
  have "bdId b \<notin> (bdId \<circ> fst) ` set (validScores t bids)"
    using Cons.prems validScores_set [of _ _ t bids] by force
  moreover have "validScores t (b # bids) = (if bdSubmittedAt b \<le> tnClosesAt t then scored t b else []) @ validScores t bids"
    by (simp add: validScores_def)
  ultimately show ?case using Cons by (auto simp: scored_def split: sum.splits)
qed (simp add: validScores_def)

lemma validScores_mset: "mset bids = mset bids' \<Longrightarrow> mset (validScores t bids) = mset (validScores t bids')"
proof -
  assume "mset bids = mset bids'"
  then have "mset (map (\<lambda>b. if bdSubmittedAt b \<le> tnClosesAt t then mset (scored t b) else {#}) bids) =
      mset (map (\<lambda>b. if bdSubmittedAt b \<le> tnClosesAt t then mset (scored t b) else {#}) bids')"
    by simp
  moreover have "mset (validScores t xs) = \<Sum>\<^sub># (mset (map (\<lambda>b. if bdSubmittedAt b \<le> tnClosesAt t then mset (scored t b) else {#}) xs))" for xs
    by (induction xs) (simp_all add: validScores_def)
  ultimately show ?thesis by simp
qed

lemma sorted_scores_free:
  assumes "distinct (map bdId bids)" and "mset bids' = mset bids"
  shows "sort_by compareScored (validScores t bids') = sort_by compareScored (validScores t bids)"
proof (rule sorted_wrt_unique [OF scored_cmp.sorted_sort_by scored_cmp.sorted_sort_by])
  show "mset (sort_by compareScored (validScores t bids')) = mset (sort_by compareScored (validScores t bids))"
    using validScores_mset [OF assms(2)] by simp
  have "x = y" if "x \<in> set (validScores t bids)" "y \<in> set (validScores t bids)" "compareScored x y \<le> 0" "compareScored y x \<le> 0" for x y
  proof -
    have "bdId (fst x) = bdId (fst y)" using that(3,4) by (auto simp: compareScored_le)
    then show ?thesis using validScores_ids [OF assms(1), of t] that(1,2) by (auto simp: distinct_map inj_on_def)
  qed
  moreover have "set (validScores t bids') = set (validScores t bids)" using validScores_mset [OF assms(2)] by (metis set_mset_mset)
  ultimately show "\<forall>x \<in> set (sort_by compareScored (validScores t bids')). \<forall>y \<in> set (sort_by compareScored (validScores t bids')).
      compareScored x y \<le> 0 \<longrightarrow> compareScored y x \<le> 0 \<longrightarrow> x = y" by simp
qed

text \<open>\<open>beats b s c u\<close>: bid \<open>b\<close> with score \<open>s\<close> is not behind bid \<open>c\<close> with score \<open>u\<close>.\<close>

definition beats :: "bid \<Rightarrow> score_breakdown \<Rightarrow> bid \<Rightarrow> score_breakdown \<Rightarrow> bool" where
  "beats b s c u \<longleftrightarrow> totalPoints u < totalPoints s \<or> totalPoints u = totalPoints s \<and>
     (bdOrderingFeeCentsPerTrainKm b < bdOrderingFeeCentsPerTrainKm c \<or>
      bdOrderingFeeCentsPerTrainKm b = bdOrderingFeeCentsPerTrainKm c \<and> bdId b \<le> bdId c)"


section \<open>A tender with two bids\<close>

definition sample_requirements :: vehicle_requirements where
  "sample_requirements = \<lparr>vrMinimumSeats = 100, vrMinimumMaximumSpeedKph = None, vrFirstClassBasisPoints = 0, vrAccessible = True,
     vrBicyclePlaces = 0, vrWheelchairPlaces = 0, vrRequiredEquipment = []\<rparr>"

definition sample_specification :: service_specification where
  "sample_specification = \<lparr>ssLines = [''1''], ssTrainKmPerPeriod = 10, ssStopsPerPeriod = 4, ssServiceHoursPerPeriod = 2,
     ssFacilityHoursPerPeriod = 1, ssEnergyKwhPerPeriod = 5, ssVehicleCount = 1, ssOvernightUnits = 1, ssProtectionUnits = 1,
     ssRequirements = sample_requirements\<rparr>"

definition sample_release :: economy_release where
  "sample_release = \<lparr>reVersion = ''v1'', reRates = sample_rates, reRules = sample_rules,
     reTenderProfiles = [sample_profile ''a'' 6000, sample_profile ''b'' 4000], reFareInspection = None, reChecksum = ''h''\<rparr>"

definition sample_base :: tender_base where
  "sample_base = \<lparr>tnId = ''t'', tnWorldId = ''w'', tnLotId = ''l'', tnIncumbentOperatorId = ''public'', tnProfile = sample_profile ''a'' 6000,
     tnSpecification = sample_specification, tnPlanningEvidence = None, tnAnnouncedAt = 0, tnOpensAt = 0, tnClosesAt = 86400,
     tnOperatingFrom = 100000, tnContractPeriods = 2, tnPeriodDurationSeconds = 604800\<rparr>"

definition sample_tender :: tender where
  "sample_tender = tender_base.extend sample_base (tender.fields sample_rules 8 Announced)"

definition sample_vehicle :: vehicle_concept where
  "sample_vehicle = vehicle_requirements.extend (sample_requirements\<lparr>vrMinimumSeats := 120\<rparr>)
     (vehicle_concept.fields ''f'' 100 5 3 Electric True
       \<lparr>veSource = ''zugfolge-fleet-mobilization/v1'', veFleetRevision = 0, veSnapshotHash = replicate 64 (CHR ''0''), veFormationId = ''f''\<rparr>)"

definition sample_bid :: "string \<Rightarrow> int \<Rightarrow> bid" where
  "sample_bid i fee = \<lparr>bdId = i, bdOperatorId = i, bdOrderingFeeCentsPerTrainKm = fee, bdVehicle = sample_vehicle,
     bdPromises = \<lparr>qmExtraSeats = 10, qmPunctualityBasisPoints = 9500, qmAdditionalStops = 0\<rparr>, bdSubmittedAt = 5\<rparr>"

theorem tender_threshold_covers_cost_witness:
  "case createTender sample_base sample_release True of Inl e \<Rightarrow> False
   | Inr t \<Rightarrow> tnViabilityThresholdCentsPerTrainKm t = 8 \<and> 7 * 10 < profiledCost sample_release (tnSpecification t) (tnProfile t)"
proof -
  let ?r = "createTender sample_base sample_release True"
  have "case ?r of Inl e \<Rightarrow> False | Inr t \<Rightarrow> tnViabilityThresholdCentsPerTrainKm t = 8 \<and> ssTrainKmPerPeriod (tnSpecification t) = 10"
    by code_simp
  then obtain t where t: "?r = Inr t" "tnViabilityThresholdCentsPerTrainKm t = 8" "ssTrainKmPerPeriod (tnSpecification t) = 10"
    by (cases ?r) auto
  have "0 \<le> profiledCost sample_release (tnSpecification sample_base) (tnProfile sample_base)" by code_simp
  then have "7 < (8 :: int) \<longleftrightarrow> 7 * 10 < profiledCost sample_release (tnSpecification t) (tnProfile t)"
    using tender_threshold_covers_cost [OF t(1)] t(2,3) by metis
  then show ?thesis using t by simp
qed

lemma sample_scores: "scoreBid sample_tender (sample_bid ''a'' 6) = Inr \<lparr>sbPricePoints = 1500, sbQualityPoints = 520, sbExtraSeats = 100,
    sbPunctuality = 1000, sbAdditionalStops = 0, sbRequirementFocus = 200\<rparr>"
  by code_simp

theorem score_within_weights_witness:
  "0 \<le> totalPoints \<lparr>sbPricePoints = 1500, sbQualityPoints = 520, sbExtraSeats = 100, sbPunctuality = 1000, sbAdditionalStops = 0,
     sbRequirementFocus = 200\<rparr> \<and>
   totalPoints \<lparr>sbPricePoints = 1500, sbQualityPoints = 520, sbExtraSeats = 100, sbPunctuality = 1000, sbAdditionalStops = 0,
     sbRequirementFocus = 200\<rparr> \<le> 10000"
proof -
  have "profile_ok (tnProfile sample_tender)" by code_simp
  moreover have "0 \<le> ruRequirementFocusMaximumPoints (tnRules sample_tender)" by code_simp
  ultimately show ?thesis using score_within_weights [OF sample_scores] by (simp add: totalPoints_def)
qed


end
