(* ===== verification/EconomyWorld.thy ===== *)
theory EconomyWorld
  imports EconomyRelease "HOL-Library.Word"
begin

text \<open>
  The calendar of tenders of a world, \<open>packages/economy/src/world.ts\<close>: profiles of worlds, the
  canonical random stream (64-bit words) and the stratified permutation of the lots over the windows.
  SHA-256 is an argument on lists of bytes. The rejection loop of \<open>below\<close> is a \<open>partial_function\<close>:
  \<open>None\<close> is a loop that does not end.
\<close>

unbundle bit_operations_syntax

section \<open>Profiles of worlds\<close>

datatype duration = Months6 | Months12 | Months18 | UnlimitedDuration

record world_profile =
  wfDurationMonths :: duration
  wfPeriodWeeks :: int
  wfContractPeriods :: int
  wfTenderLeadPeriods :: int
  wfTotalPeriods :: "int option"

definition deriveWorldProfile :: "duration \<Rightarrow> world_profile" where
  "deriveWorldProfile durationMonths =
     (if durationMonths = UnlimitedDuration then
        \<lparr>wfDurationMonths = durationMonths, wfPeriodWeeks = 8, wfContractPeriods = 4, wfTenderLeadPeriods = 1, wfTotalPeriods = None\<rparr>
      else
        (let values = (if durationMonths = Months6 then (3, 2, 8) else if durationMonths = Months12 then (5, 3, 10) else (7, 3, 11))
         in case values of (weeks, periods, totalPeriods) \<Rightarrow>
           \<lparr>wfDurationMonths = durationMonths, wfPeriodWeeks = weeks, wfContractPeriods = periods, wfTenderLeadPeriods = 1,
            wfTotalPeriods = Some totalPeriods\<rparr>))"

record tender_lot =
  tlId :: string
  tlSize :: int
  tlAttractiveness :: int

record calendar_entry =
  ceLotId :: string
  ceAnnouncementPeriod :: int
  ceTenderPeriod :: int
  ceInitialOperator :: string

section \<open>The canonical stream\<close>

definition GAMMA :: "64 word" where
  "GAMMA = 0x9e3779b97f4a7c15"

definition MIX_1 :: "64 word" where
  "MIX_1 = 0xbf58476d1ce4e5b9"

definition MIX_2 :: "64 word" where
  "MIX_2 = 0x94d049bb133111eb"

definition MASK_64 :: int where
  "MASK_64 = 0xffffffffffffffff"

datatype substream = TenderRelease | TenderProfile

definition stream_name :: "substream \<Rightarrow> string" where
  "stream_name s = (case s of TenderRelease \<Rightarrow> ''tender_release'' | TenderProfile \<Rightarrow> ''tender_profile'')"

text \<open>Unsigned big-endian integers of \<open>k\<close> bytes, and the bytes of a text.\<close>

definition bytesBE :: "nat \<Rightarrow> int \<Rightarrow> int list" where
  "bytesBE k n = map (\<lambda>i. n div 256 ^ (k - 1 - i) mod 256) [0..<k]"

definition text_bytes :: "string \<Rightarrow> int list" where
  "text_bytes s = map of_char s"

definition readU64BE :: "int list \<Rightarrow> 64 word" where
  "readU64BE bytes = word_of_int (fold (\<lambda>b n. 256 * n + b) (take 8 bytes) 0)"

definition canonicalSubstreamState ::
    "(int list \<Rightarrow> int list) \<Rightarrow> int \<Rightarrow> int \<Rightarrow> substream \<Rightarrow> economy_error + 64 word" where
  "canonicalSubstreamState sha256 worldSeed period stream =
     invariant (\<not> (worldSeed < 0 \<or> worldSeed > MASK_64)) (EconomyRangeError ''Weltseed'')
    (invariant (\<not> (\<not> is_safe period \<or> period < 0 \<or> period > 0xffffffff)) (EconomyRangeError ''Periode'')
    (let name = text_bytes (stream_name stream)
     in Inr (readU64BE (sha256 (text_bytes ''zugfolge/substream/v1'' @ bytesBE 8 worldSeed @ bytesBE 4 period
          @ bytesBE 8 (int (length name)) @ name)))))"

definition mix :: "64 word \<Rightarrow> 64 word" where
  "mix z = (let v1 = (z XOR drop_bit 30 z) * MIX_1; v2 = (v1 XOR drop_bit 27 v1) * MIX_2 in v2 XOR drop_bit 31 v2)"

definition nextU64 :: "64 word \<Rightarrow> 64 word \<times> 64 word" where
  "nextU64 state = (let s = state + GAMMA in (mix s, s))"

partial_function (option) reject :: "64 word \<Rightarrow> int \<Rightarrow> int \<Rightarrow> (int \<times> 64 word) option" where
  "reject state bound threshold =
     (let r = nextU64 state; product = uint (fst r) * bound in
      if product mod 2 ^ 64 < threshold then reject (snd r) bound threshold else Some (product div 2 ^ 64, snd r))"

declare reject.simps [code]

definition below :: "64 word \<Rightarrow> int \<Rightarrow> (economy_error + int \<times> 64 word) option" where
  "below state bound =
     (if bound \<le> 0 \<or> bound > MASK_64 then Some (Inl (EconomyRangeError ''Zufallsgrenze''))
      else let r = nextU64 state; product = uint (fst r) * bound; low = product mod 2 ^ 64 in
        if low < bound then
          (let threshold = (- bound) mod 2 ^ 64 mod bound in
           if low < threshold then map_option Inr (reject (snd r) bound threshold) else Some (Inr (product div 2 ^ 64, snd r)))
        else Some (Inr (product div 2 ^ 64, snd r)))"

fun shuffleFrom :: "nat \<Rightarrow> 'a list \<Rightarrow> 64 word \<Rightarrow> (economy_error + 'a list \<times> 64 word) option" where
  "shuffleFrom 0 items s = Some (Inr (items, s))"
| "shuffleFrom (Suc i) items s =
     (case below s (int (Suc i) + 1) of
        None \<Rightarrow> None
      | Some (Inl e) \<Rightarrow> Some (Inl e)
      | Some (Inr (other, s')) \<Rightarrow>
          shuffleFrom i (items[Suc i := items ! nat other, nat other := items ! Suc i]) s')"

definition shuffle :: "'a list \<Rightarrow> 64 word \<Rightarrow> (economy_error + 'a list \<times> 64 word) option" where
  "shuffle items s = shuffleFrom (length items - 1) items s"

definition canonicalSubstreamFirstU64 ::
    "(int list \<Rightarrow> int list) \<Rightarrow> int \<Rightarrow> int \<Rightarrow> substream \<Rightarrow> economy_error + 64 word" where
  "canonicalSubstreamFirstU64 sha256 worldSeed period stream =
     bnd (canonicalSubstreamState sha256 worldSeed period stream) (\<lambda>s. Inr (fst (nextU64 s)))"

section \<open>The calendar\<close>

definition compareLots :: "tender_lot \<Rightarrow> tender_lot \<Rightarrow> int" where
  "compareLots a b = (let difference = tlSize b + tlAttractiveness b - (tlSize a + tlAttractiveness a) in
     if difference \<noteq> 0 then difference else compareUtf8 (tlId a) (tlId b))"

definition compareLotIds :: "tender_lot \<Rightarrow> tender_lot \<Rightarrow> int" where
  "compareLotIds a b = compareUtf8 (tlId a) (tlId b)"

definition compareEntries :: "calendar_entry \<Rightarrow> calendar_entry \<Rightarrow> int" where
  "compareEntries a b = (let difference = ceTenderPeriod a - ceTenderPeriod b in
     if difference \<noteq> 0 then difference else compareUtf8 (ceLotId a) (ceLotId b))"

definition buckets :: "nat \<Rightarrow> 'a list \<Rightarrow> 'a list list" where
  "buckets windows ordered =
     map (\<lambda>w. map snd (filter (\<lambda>(i, lot). i mod windows = w) (enumerate 0 ordered))) [0..<windows]"

definition calendarEntry :: "world_profile \<Rightarrow> nat \<Rightarrow> tender_lot \<Rightarrow> calendar_entry" where
  "calendarEntry profile window lot = \<lparr>ceLotId = tlId lot, ceAnnouncementPeriod = int window,
     ceTenderPeriod = int window + wfTenderLeadPeriods profile, ceInitialOperator = ''public''\<rparr>"

fun calendarWindows ::
    "world_profile \<Rightarrow> nat \<Rightarrow> tender_lot list list \<Rightarrow> 64 word \<Rightarrow> (economy_error + calendar_entry list) option" where
  "calendarWindows profile window [] s = Some (Inr [])"
| "calendarWindows profile window (bucket # rest) s =
     (case shuffle (sort_by compareLotIds bucket) s of
        None \<Rightarrow> None
      | Some (Inl e) \<Rightarrow> Some (Inl e)
      | Some (Inr (lots, s')) \<Rightarrow>
          (case calendarWindows profile (Suc window) rest s' of
             None \<Rightarrow> None
           | Some (Inl e) \<Rightarrow> Some (Inl e)
           | Some (Inr es) \<Rightarrow> Some (Inr (map (calendarEntry profile window) lots @ es))))"

definition calendarHalf :: "world_profile \<Rightarrow> int" where
  "calendarHalf profile = (case wfTotalPeriods profile of None \<Rightarrow> max 4 (wfContractPeriods profile * 2) | Some n \<Rightarrow> n div 2)"

definition createTenderCalendar ::
    "(int list \<Rightarrow> int list) \<Rightarrow> world_profile \<Rightarrow> tender_lot list \<Rightarrow> int \<Rightarrow> int \<Rightarrow> (economy_error + calendar_entry list) option" where
  "createTenderCalendar sha256 profile lots worldSeed period =
     (if length lots = 0 then Some (Inl (EconomyError ''Vergabekalender''))
      else let windows = nat (min (calendarHalf profile) (int (length lots)));
               ordered = sort_by compareLots lots
        in case canonicalSubstreamState sha256 worldSeed period TenderRelease of
             Inl e \<Rightarrow> Some (Inl e)
           | Inr s \<Rightarrow>
               (case calendarWindows profile 0 (buckets windows ordered) s of
                  None \<Rightarrow> None
                | Some (Inl e) \<Rightarrow> Some (Inl e)
                | Some (Inr es) \<Rightarrow> Some (Inr (sort_by compareEntries es))))"

definition deterministicProfileOrder ::
    "(int list \<Rightarrow> int list) \<Rightarrow> tender_profile list \<Rightarrow> int \<Rightarrow> int \<Rightarrow> (economy_error + tender_profile list) option" where
  "deterministicProfileOrder sha256 profiles worldSeed period =
     (case canonicalSubstreamState sha256 worldSeed period TenderProfile of
        Inl e \<Rightarrow> Some (Inl e)
      | Inr s \<Rightarrow> map_option (map_sum id fst) (shuffle (sort_by compareProfile profiles) s))"

section \<open>The rejection loop ends\<close>

lemma mix_one: "mix 10839530715563148754 = 1"
  by (simp add: mix_def MIX_1_def MIX_2_def Let_def)

lemma gamma_inverse: "(17428512612931826493 :: 64 word) * GAMMA = 1"
  by (simp add: GAMMA_def)

text \<open>The state runs through all words, so every output value comes up.\<close>

lemma word_step: "\<exists>n. (of_nat (Suc n) :: 64 word) = k"
proof -
  have "Suc (unat k + 18446744073709551615) = unat k + 18446744073709551616" by simp
  moreover have "(of_nat 18446744073709551616 :: 64 word) = 0" by simp
  ultimately have "(of_nat (Suc (unat k + 18446744073709551615)) :: 64 word) = k" by (simp only: of_nat_add) simp
  then show ?thesis by blast
qed

lemma output_one: "\<exists>n. mix (s + of_nat (Suc n) * GAMMA) = 1"
proof -
  obtain n where n: "(of_nat (Suc n) :: 64 word) = (10839530715563148754 - s) * 17428512612931826493" using word_step by blast
  have "of_nat (Suc n) * GAMMA = 10839530715563148754 - s" by (simp only: n mult.assoc gamma_inverse mult_1_right)
  then have "s + of_nat (Suc n) * GAMMA = 10839530715563148754" by (simp only: diff_add_cancel add.commute [of s])
  then have "mix (s + of_nat (Suc n) * GAMMA) = 1" by (simp only: mix_one)
  then show ?thesis by blast
qed

definition accepted :: "int \<Rightarrow> 64 word \<Rightarrow> bool" where
  "accepted b x \<longleftrightarrow> 2 ^ 64 mod b \<le> uint x * b mod 2 ^ 64"

lemma reject_ends:
  "accepted b (mix (s + of_nat (Suc n) * GAMMA)) \<Longrightarrow>
    \<exists>x s'. reject s b (2 ^ 64 mod b) = Some (uint x * b div 2 ^ 64, s') \<and> accepted b x"
proof (induction n arbitrary: s)
  case 0
  then have "\<not> uint (mix (s + GAMMA)) * b mod 2 ^ 64 < 2 ^ 64 mod b" by (simp add: accepted_def)
  then have "reject s b (2 ^ 64 mod b) = Some (uint (mix (s + GAMMA)) * b div 2 ^ 64, s + GAMMA)"
    by (subst reject.simps) (simp add: nextU64_def Let_def)
  then show ?case using 0 by auto
next
  case (Suc n)
  show ?case
  proof (cases "accepted b (mix (s + GAMMA))")
    case True
    then have "\<not> uint (mix (s + GAMMA)) * b mod 2 ^ 64 < 2 ^ 64 mod b" by (simp add: accepted_def)
    then have "reject s b (2 ^ 64 mod b) = Some (uint (mix (s + GAMMA)) * b div 2 ^ 64, s + GAMMA)"
      by (subst reject.simps) (simp add: nextU64_def Let_def)
    then show ?thesis using True by blast
  next
    case False
    then have "reject s b (2 ^ 64 mod b) = reject (s + GAMMA) b (2 ^ 64 mod b)"
      by (subst reject.simps) (simp add: nextU64_def Let_def accepted_def)
    moreover have "s + of_nat (Suc (Suc n)) * GAMMA = s + GAMMA + of_nat (Suc n) * GAMMA"
      by (simp add: algebra_simps)
    ultimately show ?thesis using Suc.IH [of "s + GAMMA"] Suc.prems by (simp only:)
  qed
qed

lemma accepted_one: "0 < b \<Longrightarrow> b \<le> MASK_64 \<Longrightarrow> accepted b 1"
proof -
  assume b: "0 < b" "b \<le> MASK_64"
  then have "b mod 2 ^ 64 = b" by (simp add: MASK_64_def)
  moreover have "2 ^ 64 mod b < b" using b by simp
  ultimately show ?thesis by (simp add: accepted_def)
qed

lemma threshold_value: "0 < b \<Longrightarrow> b \<le> MASK_64 \<Longrightarrow> (- b) mod 2 ^ 64 mod b = 2 ^ 64 mod b"
proof -
  assume b: "0 < b" "b \<le> MASK_64"
  have "(- b) mod 2 ^ 64 = (2 ^ 64 - b) mod 2 ^ 64" by (metis minus_mod_self1 uminus_add_conv_diff add.commute diff_0 minus_diff_eq mod_add_self2)
  also have "\<dots> = 2 ^ 64 - b" using b by (intro mod_pos_pos_trivial) (auto simp: MASK_64_def)
  finally show ?thesis by (simp only: minus_mod_self2)
qed

lemma below_result:
  assumes "0 < b" "b \<le> MASK_64"
  shows "\<exists>x s'. below s b = Some (Inr (uint x * b div 2 ^ 64, s')) \<and> accepted b x"
proof -
  let ?x = "mix (s + GAMMA)"
  have th: "(- b) mod 2 ^ 64 mod b = 2 ^ 64 mod b" by (rule threshold_value [OF assms])
  have b: "\<not> (b \<le> 0 \<or> b > MASK_64)" using assms by simp
  show ?thesis
  proof (cases "accepted b ?x")
    case True
    then have "below s b = Some (Inr (uint ?x * b div 2 ^ 64, s + GAMMA))"
      unfolding below_def nextU64_def Let_def th using b by (simp add: accepted_def not_less)
    then show ?thesis using True by blast
  next
    case False
    moreover have "2 ^ 64 mod b < b" using assms by simp
    ultimately have "uint ?x * b mod 2 ^ 64 < b" by (simp add: accepted_def)
    with False have "below s b = map_option Inr (reject (s + GAMMA) b (2 ^ 64 mod b))"
      unfolding below_def nextU64_def Let_def th using b by (auto simp: accepted_def)
    moreover obtain n where "mix (s + GAMMA + of_nat (Suc n) * GAMMA) = 1" using output_one by blast
    ultimately show ?thesis using reject_ends [of b "s + GAMMA" n] accepted_one [OF assms] by auto
  qed
qed

section \<open>Unbiased\<close>

lemma multiples_in_interval:
  fixes b :: int
  assumes "0 < b"
  shows "{n. L \<le> n * b \<and> n * b < L + q * b} = {- (- L div b) ..< - (- L div b) + q}"
proof -
  have ge: "L \<le> n * b \<longleftrightarrow> - (- L div b) \<le> n" for n
  proof -
    have "L \<le> n * b \<longleftrightarrow> (- n) * b \<le> - L" by simp
    also have "\<dots> \<longleftrightarrow> - n \<le> - L div b"
    proof
      assume "(- n) * b \<le> - L"
      then have "(- n) * b div b \<le> - L div b" using assms by (intro zdiv_mono1)
      moreover have "(- n) * b div b = - n" using assms by (intro nonzero_mult_div_cancel_right) auto
      ultimately show "- n \<le> - L div b" by simp
    next
      assume "- n \<le> - L div b"
      then have "(- n) * b \<le> (- L div b) * b" using assms by (intro mult_right_mono) auto
      moreover have "- L = (- L div b) * b + (- L) mod b" by simp
      moreover have "0 \<le> (- L) mod b" using assms by simp
      ultimately show "(- n) * b \<le> - L" by linarith
    qed
    finally show ?thesis by linarith
  qed
  have "n * b < L + q * b \<longleftrightarrow> n < - (- L div b) + q" for n
  proof -
    have "n * b < L + q * b \<longleftrightarrow> \<not> L \<le> (n - q) * b" by (simp add: left_diff_distrib) linarith
    then show ?thesis unfolding ge by linarith
  qed
  then show ?thesis using ge by auto
qed

lemma unbiased:
  assumes b: "0 < b" "b \<le> MASK_64" and r: "0 \<le> r" "r < b"
  shows "card {x :: 64 word. accepted b x \<and> uint x * b div 2 ^ 64 = r} = nat (2 ^ 64 div b)"
proof -
  let ?t = "2 ^ 64 mod b" and ?q = "(2 ^ 64 :: int) div b"
  let ?L = "r * 2 ^ 64 + ?t"
  have w: "?L + ?q * b = (r + 1) * 2 ^ 64"
  proof -
    have "?q * b + ?t = 2 ^ 64" by simp
    then show ?thesis by (simp add: distrib_right)
  qed
  have t0: "0 \<le> ?t" using b by simp
  have iff: "?t \<le> n * b mod 2 ^ 64 \<and> n * b div 2 ^ 64 = r \<longleftrightarrow> ?L \<le> n * b \<and> n * b < ?L + ?q * b" for n
  proof
    assume a: "?t \<le> n * b mod 2 ^ 64 \<and> n * b div 2 ^ 64 = r"
    have "n * b = r * 2 ^ 64 + n * b mod 2 ^ 64" using a by (metis div_mult_mod_eq)
    moreover have "n * b mod 2 ^ 64 < 2 ^ 64" by simp
    moreover have "(r + 1) * 2 ^ 64 = r * 2 ^ 64 + (2 ^ 64 :: int)" by (simp add: distrib_right)
    ultimately show "?L \<le> n * b \<and> n * b < ?L + ?q * b" using a unfolding w by (intro conjI) linarith+
  next
    assume a: "?L \<le> n * b \<and> n * b < ?L + ?q * b"
    then have m: "r * 2 ^ 64 \<le> n * b" "n * b < (r + 1) * 2 ^ 64" using t0 w by linarith+
    have "n * b div 2 ^ 64 = r"
      by (rule int_div_pos_eq [of _ _ _ "n * b - r * 2 ^ 64"]) (use m in \<open>auto simp: algebra_simps\<close>)
    moreover from this have "n * b = r * 2 ^ 64 + n * b mod 2 ^ 64" by (metis div_mult_mod_eq)
    ultimately show "?t \<le> n * b mod 2 ^ 64 \<and> n * b div 2 ^ 64 = r" using a by linarith
  qed
  let ?N = "{n. ?L \<le> n * b \<and> n * b < ?L + ?q * b}"
  have range: "0 \<le> n \<and> n < 2 ^ 64" if "n \<in> ?N" for n
  proof -
    have "0 \<le> n * b" "n * b < b * 2 ^ 64"
    proof -
      show "0 \<le> n * b" using that r t0 by (auto intro: order_trans [of 0 ?L])
      have "(r + 1) * 2 ^ 64 \<le> b * (2 ^ 64 :: int)" using r by (intro mult_right_mono) auto
      then show "n * b < b * 2 ^ 64" using that w by auto
    qed
    then show ?thesis using b by (simp add: zero_le_mult_iff mult.commute [of b])
  qed
  have "bij_betw uint {x :: 64 word. accepted b x \<and> uint x * b div 2 ^ 64 = r} ?N"
  proof (rule bij_betw_byWitness [where f' = word_of_int])
    show "uint ` {x :: 64 word. accepted b x \<and> uint x * b div 2 ^ 64 = r} \<subseteq> ?N" using iff by (auto simp: accepted_def)
    show "word_of_int ` ?N \<subseteq> {x :: 64 word. accepted b x \<and> uint x * b div 2 ^ 64 = r}"
    proof
      fix x :: "64 word" assume "x \<in> word_of_int ` ?N"
      then obtain n where n: "n \<in> ?N" "x = word_of_int n" by blast
      then have "uint x = n" using range [OF n(1)] by (simp add: uint_word_of_int)
      then show "x \<in> {x. accepted b x \<and> uint x * b div 2 ^ 64 = r}" using n(1) iff [of n] by (simp add: accepted_def)
    qed
    show "\<forall>n \<in> ?N. uint (word_of_int n :: 64 word) = n" using range by (simp add: uint_word_of_int)
  qed simp
  then have "card {x :: 64 word. accepted b x \<and> uint x * b div 2 ^ 64 = r} = card ?N" by (rule bij_betw_same_card)
  also have "\<dots> = nat ?q" unfolding multiples_in_interval [OF b(1)] by simp
  finally show ?thesis .
qed

lemma scaled_range:
  assumes "0 < b"
  shows "0 \<le> uint (x :: 64 word) * b div 2 ^ 64" "uint x * b div 2 ^ 64 < b"
proof -
  have "0 \<le> uint x * b" using assms by simp
  then show "0 \<le> uint x * b div 2 ^ 64" by (rule pos_imp_zdiv_nonneg_iff [THEN iffD2, rotated]) simp
  have "uint x < 2 ^ 64" using uint_lt2p [of x] by simp
  then have p: "uint x * b < 2 ^ 64 * b" using assms by (intro mult_strict_right_mono) auto
  show "uint x * b div 2 ^ 64 < b"
  proof (rule ccontr)
    assume "\<not> uint x * b div 2 ^ 64 < b"
    then have "b * 2 ^ 64 \<le> uint x * b div 2 ^ 64 * 2 ^ 64" by (intro mult_right_mono) auto
    moreover have "uint x * b div 2 ^ 64 * 2 ^ 64 + uint x * b mod 2 ^ 64 = uint x * b" by (rule div_mult_mod_eq)
    moreover have "0 \<le> uint x * b mod 2 ^ 64" by simp
    moreover have "uint x * b < b * 2 ^ 64" using p by (simp only: mult.commute [of "2 ^ 64"])
    ultimately show False by linarith
  qed
qed

text \<open>C28: For every bound of the range, \<open>below\<close> ends from every state with a number under the bound; the output words it
  accepts fall on every such number equally often, so it is as uniform as the stream.\<close>

theorem below_ends_unbiased:
  assumes "0 < b" "b \<le> MASK_64"
  shows "(\<forall>s. \<exists>x s'. below s b = Some (Inr (uint x * b div 2 ^ 64, s')) \<and> accepted b x \<and>
      0 \<le> uint x * b div 2 ^ 64 \<and> uint x * b div 2 ^ 64 < b) \<and>
    (\<forall>r \<in> {0 ..< b}. card {x :: 64 word. accepted b x \<and> uint x * b div 2 ^ 64 = r} = nat (2 ^ 64 div b))"
  using below_result [OF assms] scaled_range [OF assms(1)] unbiased [OF assms] by (meson atLeastLessThan_iff)

theorem below_ends_unbiased_witness:
  "\<exists>(x :: 64 word) s'. below 7 6 = Some (Inr (uint x * 6 div 2 ^ 64, s')) \<and> uint x * 6 div 2 ^ 64 < 6"
proof -
  have "0 < (6 :: int)" "6 \<le> MASK_64" by (simp_all add: MASK_64_def)
  from below_ends_unbiased [OF this, THEN conjunct1, THEN spec [of _ 7]]
  obtain x :: "64 word" and s' where x: "below 7 6 = Some (Inr (uint x * 6 div 2 ^ 64, s'))" "uint x * 6 div 2 ^ 64 < 6" by (elim exE conjE) (rule that)
  show ?thesis by (rule exI [of _ x], rule exI [of _ s'], rule conjI [OF x])
qed

section \<open>Shuffling\<close>

lemma below_some:
  assumes "0 < b" "b \<le> MASK_64"
  obtains r s' where "below s b = Some (Inr (r, s'))" "0 \<le> r" "r < b"
  using below_result [OF assms, of s] scaled_range [OF assms(1)] that by blast

lemma shuffleFrom_permutes:
  "i < length items \<or> i = 0 \<Longrightarrow> length items < 2 ^ 64 \<Longrightarrow>
    \<exists>items' s'. shuffleFrom i items s = Some (Inr (items', s')) \<and> mset items' = mset items"
proof (induction i arbitrary: items s)
  case (Suc i)
  have "0 < int (Suc i) + 1" "int (Suc i) + 1 \<le> MASK_64" using Suc.prems by (simp_all add: MASK_64_def)
  then obtain r s' where r: "below s (int (Suc i) + 1) = Some (Inr (r, s'))" "0 \<le> r" "r < int (Suc i) + 1" by (rule below_some)
  let ?items = "items[Suc i := items ! nat r, nat r := items ! Suc i]"
  have m: "mset ?items = mset items" by (rule mset_swap) (use r Suc.prems in auto)
  have "length ?items = length items" by simp
  then obtain items' t where "shuffleFrom i ?items s' = Some (Inr (items', t))" "mset items' = mset ?items"
    using Suc.IH [of ?items s'] Suc.prems by auto
  then show ?case using r(1) m by simp
qed simp

lemma shuffle_permutes:
  assumes "length items < 2 ^ 64"
  obtains items' s' where "shuffle items s = Some (Inr (items', s'))" "mset items' = mset items"
  using shuffleFrom_permutes [of "length items - 1" items s] assms that unfolding shuffle_def by (cases items) auto

section \<open>Windows\<close>

definition entriesOf :: "world_profile \<Rightarrow> (nat \<times> tender_lot list) list \<Rightarrow> calendar_entry multiset" where
  "entriesOf profile windows = sum_list (map (\<lambda>(w, lots). image_mset (calendarEntry profile w) (mset lots)) windows)"

lemma calendarWindows_entries:
  "\<forall>b \<in> set bs. length b < 2 ^ 64 \<Longrightarrow>
    \<exists>es. calendarWindows profile w bs s = Some (Inr es) \<and> mset es = entriesOf profile (enumerate w bs)"
proof (induction bs arbitrary: w s)
  case (Cons b bs)
  have "length (sort_by compareLotIds b) < 2 ^ 64" using Cons.prems by simp
  then obtain lots s' where l: "shuffle (sort_by compareLotIds b) s = Some (Inr (lots, s'))" "mset lots = mset (sort_by compareLotIds b)"
    by (rule shuffle_permutes)
  obtain es where "calendarWindows profile (Suc w) bs s' = Some (Inr es)" "mset es = entriesOf profile (enumerate (Suc w) bs)"
    using Cons.IH [of "Suc w" s'] Cons.prems by auto
  then show ?case using l by (simp add: entriesOf_def)
qed (simp add: entriesOf_def)

definition bucketOf :: "nat \<Rightarrow> 'a list \<Rightarrow> nat \<Rightarrow> 'a list" where
  "bucketOf windows xs w = map snd (filter (\<lambda>(i, lot). i mod windows = w) (enumerate 0 xs))"

lemma enumerate_buckets: "enumerate 0 (buckets windows xs) = map (\<lambda>w. (w, bucketOf windows xs w)) [0..<windows]"
  by (rule nth_equalityI) (simp_all add: nth_enumerate_eq buckets_def bucketOf_def)

lemma buckets_cover:
  assumes "0 < windows"
  shows "sum_list (map (\<lambda>w. mset (map snd (filter (\<lambda>(i, lot). i mod windows = w) ps))) [0..<windows]) = mset (map snd ps)"
proof (induction ps)
  case (Cons p ps)
  obtain i x where p: "p = (i, x)" by (cases p)
  have "mset (map snd (filter (\<lambda>(i, lot). i mod windows = w) (p # ps))) =
      (if i mod windows = w then {#x#} else {#}) + mset (map snd (filter (\<lambda>(i, lot). i mod windows = w) ps))" for w
    by (simp add: p)
  then have "sum_list (map (\<lambda>w. mset (map snd (filter (\<lambda>(i, lot). i mod windows = w) (p # ps)))) [0..<windows]) =
      sum_list (map (\<lambda>w. if i mod windows = w then {#x#} else {#}) [0..<windows]) + mset (map snd ps)"
    using Cons by (simp add: sum_list_addf)
  moreover have "sum_list (map (\<lambda>w. if i mod windows = w then {#x#} else {#}) [0..<windows]) = {#x#}"
  proof -
    have "sum_list (map (\<lambda>w. if i mod windows = w then {#x#} else {#}) [0..<windows]) = (\<Sum>w \<in> {0..<windows}. if i mod windows = w then {#x#} else {#})"
      by (simp add: interv_sum_list_conv_sum_set_nat)
    also have "\<dots> = {#x#}" using assms by (simp add: sum.delta)
    finally show ?thesis .
  qed
  ultimately show ?case by (simp add: p)
qed simp

lemma bucket_count:
  assumes "w < windows"
  shows "length (filter (\<lambda>i. i mod windows = w) [0..<n]) = (n + (windows - 1 - w)) div windows"
proof (induction n)
  case 0
  then show ?case using assms by simp
next
  case (Suc n)
  have "Suc (n + (windows - 1 - w)) mod windows = 0 \<longleftrightarrow> n mod windows = w"
  proof -
    have "Suc (n + (windows - 1 - w)) + w = n + windows" using assms by simp
    then have m: "(Suc (n + (windows - 1 - w)) + w) mod windows = n mod windows" by simp
    have "a mod windows = 0 \<longleftrightarrow> (a + w) mod windows = w" for a
    proof
      assume "a mod windows = 0"
      then show "(a + w) mod windows = w" using assms by (metis add_0 mod_add_left_eq mod_less)
    next
      assume "(a + w) mod windows = w"
      then have "windows dvd a" using dvd_minus_mod [of windows "a + w"] by simp
      then show "a mod windows = 0" by simp
    qed
    then show ?thesis unfolding m [symmetric] .
  qed
  then show ?case using Suc by (simp add: div_Suc)
qed

lemma bucketOf_length: "w < windows \<Longrightarrow> length (bucketOf windows xs w) = (length xs + (windows - 1 - w)) div windows"
proof -
  assume w: "w < windows"
  have "filter (\<lambda>i. i mod windows = w) (map fst ps) = map fst (filter (\<lambda>(i, lot). i mod windows = w) ps)" for ps :: "(nat \<times> 'a) list"
    by (induction ps) auto
  from this [of "enumerate 0 xs"]
  have "length (bucketOf windows xs w) = length (filter (\<lambda>i. i mod windows = w) [0..<length xs])"
    by (simp add: bucketOf_def)
  then show ?thesis using bucket_count [OF w, of "length xs"] by simp
qed

lemma nearly_equal: "w < windows \<Longrightarrow> (n + (windows - 1 - w)) div windows \<in> {n div windows, Suc (n div windows)}" for n :: nat
proof -
  assume w: "w < windows"
  have "n div windows \<le> (n + (windows - 1 - w)) div windows" by (intro div_le_mono) simp
  moreover have "(n + (windows - 1 - w)) div windows \<le> (n + windows) div windows" by (intro div_le_mono) simp
  moreover have "(n + windows) div windows = Suc (n div windows)" using w by simp
  ultimately show ?thesis by auto
qed

interpretation lots_cmp: comparator compareLots
proof
  fix x y z :: tender_lot
  show "compareLots x y < 0 \<longleftrightarrow> 0 < compareLots y x"
    by (auto simp: compareLots_def Let_def compareUtf8_def compareText_neg compareText_pos)
  show "compareLots x y \<le> 0 \<Longrightarrow> compareLots y z \<le> 0 \<Longrightarrow> compareLots x z \<le> 0"
    by (auto simp: compareLots_def Let_def compareUtf8_def compareText_le split: if_splits)
qed

interpretation entries_cmp: comparator compareEntries
proof
  fix x y z :: calendar_entry
  show "compareEntries x y < 0 \<longleftrightarrow> 0 < compareEntries y x"
    by (auto simp: compareEntries_def Let_def compareUtf8_def compareText_neg compareText_pos)
  show "compareEntries x y \<le> 0 \<Longrightarrow> compareEntries y z \<le> 0 \<Longrightarrow> compareEntries x z \<le> 0"
    by (auto simp: compareEntries_def Let_def compareUtf8_def compareText_le split: if_splits)
qed

lemma sorted_lots_free:
  assumes "distinct (map tlId lots)" and "mset lots' = mset lots"
  shows "sort_by compareLots lots' = sort_by compareLots lots"
proof (rule sorted_wrt_unique [OF lots_cmp.sorted_sort_by lots_cmp.sorted_sort_by])
  show "mset (sort_by compareLots lots') = mset (sort_by compareLots lots)" using assms(2) by simp
  have "x = y" if "x \<in> set lots" "y \<in> set lots" "compareLots x y \<le> 0" "compareLots y x \<le> 0" for x y
  proof -
    have "tlId x = tlId y" using that(3,4) by (auto simp: compareLots_def Let_def compareUtf8_def compareText_le split: if_splits)
    then show ?thesis using assms(1) that(1,2) by (auto simp: distinct_map inj_on_def)
  qed
  moreover have "set lots' = set lots" using assms(2) by (metis set_mset_mset)
  ultimately show "\<forall>x \<in> set (sort_by compareLots lots'). \<forall>y \<in> set (sort_by compareLots lots').
      compareLots x y \<le> 0 \<longrightarrow> compareLots y x \<le> 0 \<longrightarrow> x = y" by simp
qed

lemma entries_of_window:
  assumes "v < windows"
  shows "filter_mset (\<lambda>e. ceAnnouncementPeriod e = int v) (sum_list (map (\<lambda>w. image_mset (calendarEntry profile w) (B w)) [0..<windows])) =
    image_mset (calendarEntry profile v) (B v)"
proof -
  have one: "filter_mset (\<lambda>e. ceAnnouncementPeriod e = int v) (image_mset (calendarEntry profile w) M) =
      (if w = v then image_mset (calendarEntry profile w) M else {#})" for w M
  proof -
    have "ceAnnouncementPeriod (calendarEntry profile w lot) = int w" for lot by (simp add: calendarEntry_def)
    then show ?thesis by (induction M) auto
  qed
  have push: "filter_mset P (sum_list (map f xs)) = sum_list (map (\<lambda>w. filter_mset P (f w)) xs)" for P and f :: "nat \<Rightarrow> calendar_entry multiset" and xs
    by (induction xs) simp_all
  have "sum_list (map (\<lambda>w. if w = v then image_mset (calendarEntry profile w) (B w) else {#}) [0..<windows]) =
      (\<Sum>w \<in> {0..<windows}. if w = v then image_mset (calendarEntry profile w) (B w) else {#})"
    by (simp add: interv_sum_list_conv_sum_set_nat)
  also have "\<dots> = image_mset (calendarEntry profile v) (B v)" using assms by (simp add: sum.delta)
  finally show ?thesis by (simp add: push one)
qed

text \<open>C29: The calendar is made for every seed and period of the range: it announces every lot exactly once, sorted by period
  and identifier, one lead time before its tender, in a window under half the duration of the world;
  the windows hold equally many lots up to one; and the order in which the lots are given does not
  matter.\<close>

theorem calendar_announces_each_lot_once:
  assumes "lots \<noteq> []" "length lots < 2 ^ 64" "distinct (map tlId lots)" "1 \<le> calendarHalf profile"
    and "0 \<le> seed" "seed \<le> MASK_64" "0 \<le> period" "period \<le> 0xffffffff"
  defines "W \<equiv> nat (min (calendarHalf profile) (int (length lots)))"
  shows "\<exists>es. createTenderCalendar sha256 profile lots seed period = Some (Inr es) \<and>
    mset (map ceLotId es) = mset (map tlId lots) \<and>
    sorted_wrt (\<lambda>a b. compareEntries a b \<le> 0) es \<and>
    (\<forall>e \<in> set es. 0 \<le> ceAnnouncementPeriod e \<and> ceAnnouncementPeriod e < int W \<and>
       ceTenderPeriod e = ceAnnouncementPeriod e + wfTenderLeadPeriods profile \<and> ceInitialOperator e = ''public'') \<and>
    (\<forall>w < W. length (filter (\<lambda>e. ceAnnouncementPeriod e = int w) es) \<in> {length lots div W, Suc (length lots div W)}) \<and>
    (\<forall>lots'. mset lots' = mset lots \<longrightarrow> createTenderCalendar sha256 profile lots' seed period = Some (Inr es))"
proof -
  let ?xs = "sort_by compareLots lots"
  have W: "0 < W" using assms(1,4) by (simp add: W_def)
  have "is_safe period" using assms(7,8) by (simp add: is_safe_def)
  then obtain s where s: "canonicalSubstreamState sha256 seed period TenderRelease = Inr s"
    using assms(5-8) by (auto simp: canonicalSubstreamState_def Let_def)
  have "length b < 2 ^ 64" if "b \<in> set (buckets W ?xs)" for b
  proof -
    have "length (filter P (enumerate 0 ?xs)) \<le> length (enumerate 0 ?xs)" for P by (rule length_filter_le)
    then have "length b \<le> length ?xs" using that by (auto simp: buckets_def)
    then show ?thesis using assms(2) by simp
  qed
  then obtain es where es: "calendarWindows profile 0 (buckets W ?xs) s = Some (Inr es)"
    "mset es = entriesOf profile (enumerate 0 (buckets W ?xs))"
    using calendarWindows_entries [of "buckets W ?xs" profile 0 s] by blast
  have m: "mset es = sum_list (map (\<lambda>w. image_mset (calendarEntry profile w) (mset (bucketOf W ?xs w))) [0..<W])"
    by (simp add: es(2) entriesOf_def enumerate_buckets comp_def)
  let ?es = "sort_by compareEntries es"
  have result: "createTenderCalendar sha256 profile lots' seed period = Some (Inr ?es)" if "mset lots' = mset lots" for lots'
  proof -
    have "length lots' = length lots" using that by (metis size_mset)
    moreover have "sort_by compareLots lots' = ?xs" by (rule sorted_lots_free [OF assms(3) that])
    ultimately show ?thesis using assms(1) s es(1) by (simp add: createTenderCalendar_def W_def [symmetric] Let_def)
  qed
  have ids: "mset (map ceLotId es) = mset (map tlId lots)"
  proof -
    have "image_mset ceLotId (sum_list (map f ws)) = sum_list (map (\<lambda>w. image_mset ceLotId (f w)) ws)" for f :: "nat \<Rightarrow> calendar_entry multiset" and ws
      by (induction ws) simp_all
    then have "mset (map ceLotId es) = sum_list (map (\<lambda>w. image_mset tlId (mset (bucketOf W ?xs w))) [0..<W])"
      using m by (simp add: multiset.map_comp comp_def calendarEntry_def)
    also have "\<dots> = image_mset tlId (sum_list (map (\<lambda>w. mset (bucketOf W ?xs w)) [0..<W]))"
    proof -
      have "image_mset tlId (sum_list (map f ws)) = sum_list (map (\<lambda>w. image_mset tlId (f w)) ws)" for f :: "nat \<Rightarrow> tender_lot multiset" and ws
        by (induction ws) simp_all
      then show ?thesis by simp
    qed
    also have "\<dots> = image_mset tlId (mset ?xs)"
      unfolding bucketOf_def buckets_cover [OF W] by (simp only: map_snd_enumerate)
    finally show ?thesis by simp
  qed
  have shape: "0 \<le> ceAnnouncementPeriod e \<and> ceAnnouncementPeriod e < int W \<and>
       ceTenderPeriod e = ceAnnouncementPeriod e + wfTenderLeadPeriods profile \<and> ceInitialOperator e = ''public''" if "e \<in> set es" for e
  proof -
    have "e \<in># sum_list (map (\<lambda>w. image_mset (calendarEntry profile w) (mset (bucketOf W ?xs w))) [0..<W])" using that m by (metis set_mset_mset)
    then obtain w lot where "w < W" "e = calendarEntry profile w lot" by (auto simp: set_mset_sum_list)
    then show ?thesis by (simp add: calendarEntry_def)
  qed
  have "length (filter (\<lambda>e. ceAnnouncementPeriod e = int w) ?es) \<in> {length lots div W, Suc (length lots div W)}" if w: "w < W" for w
  proof -
    have "mset (filter (\<lambda>e. ceAnnouncementPeriod e = int w) ?es) = image_mset (calendarEntry profile w) (mset (bucketOf W ?xs w))"
      using m entries_of_window [OF w, of profile "\<lambda>w. mset (bucketOf W ?xs w)"] by simp
    then have "length (filter (\<lambda>e. ceAnnouncementPeriod e = int w) ?es) = length (bucketOf W ?xs w)" by (metis size_image_mset size_mset)
    then show ?thesis using nearly_equal [OF w, of "length lots"] bucketOf_length [OF w, of ?xs] by simp
  qed
  moreover have "mset (map ceLotId ?es) = mset (map tlId lots)" using ids by simp
  ultimately show ?thesis using result shape entries_cmp.sorted_sort_by [of es] by (intro exI [of _ ?es]) auto
qed

definition sample_lots :: "tender_lot list" where
  "sample_lots = [\<lparr>tlId = ''a'', tlSize = 1, tlAttractiveness = 1\<rparr>, \<lparr>tlId = ''b'', tlSize = 2, tlAttractiveness = 1\<rparr>,
     \<lparr>tlId = ''c'', tlSize = 3, tlAttractiveness = 1\<rparr>]"

theorem calendar_announces_each_lot_once_witness:
  "\<exists>es. createTenderCalendar (\<lambda>b. replicate 8 7) (deriveWorldProfile Months6) sample_lots 5 1 = Some (Inr es) \<and>
     mset (map ceLotId es) = {#''a'', ''b'', ''c''#}"
proof -
  have "sample_lots \<noteq> []" "length sample_lots < 2 ^ 64" "distinct (map tlId sample_lots)" "1 \<le> calendarHalf (deriveWorldProfile Months6)"
    "mset (map tlId sample_lots) = {#''a'', ''b'', ''c''#}"
    by (simp_all add: sample_lots_def calendarHalf_def deriveWorldProfile_def)
  then show ?thesis
    using calendar_announces_each_lot_once [of sample_lots "deriveWorldProfile Months6" 5 1 "\<lambda>b. replicate 8 7"]
    by (auto simp: MASK_64_def)
qed

end
