(* ===== verification/EconomyPlanning.thy ===== *)
theory EconomyPlanning
  imports EconomyTender EconomyWorld
begin

text \<open>
  The specifications of services derived from the GTFS planning, \<open>packages/economy/src/service-planning.ts\<close>,
  and the policy of generated tenders, \<open>tender-generation-policy.ts\<close>. The collation and SHA-256 of the
  planning are arguments. The period is a whole number of days, so the division of numbers is exact.
\<close>

section \<open>Specifications\<close>

record planning_lot_reference =
  prPlanningRevision :: int
  prSnapshotHash :: string
  prLotId :: string

definition scaleCeil :: "string \<Rightarrow> int \<Rightarrow> int \<Rightarrow> int \<Rightarrow> int" where
  "scaleCeil v days sampleDays unitDivisor =
     (let numerator = bigint_of v * days; divisor = sampleDays * unitDivisor in bigint_div (numerator + divisor - 1) divisor)"

definition validWorldPlanning :: "(string \<Rightarrow> string \<Rightarrow> int) \<Rightarrow> (string \<Rightarrow> string) \<Rightarrow> planning_envelope \<Rightarrow> string \<Rightarrow>
    economy_error + unit" where
  "validWorldPlanning lc sha256 envelope expectedWorldId =
     bnd (planned (validateGtfsPlanningEnvelope lc sha256 envelope)) (\<lambda>_.
     invariant (snWorldId (evSnapshot envelope) = expectedWorldId) (ServicePlanningError ''Weltisolation'') (Inr ()))"

definition planningLot :: "gtfs_lot \<Rightarrow> tender_lot" where
  "planningLot l = \<lparr>tlId = slId l, tlSize = slSize l, tlAttractiveness = slAttractiveness l\<rparr>"

definition lotsFromGtfsPlanning :: "(string \<Rightarrow> string \<Rightarrow> int) \<Rightarrow> (string \<Rightarrow> string) \<Rightarrow> planning_envelope \<Rightarrow> string \<Rightarrow>
    economy_error + tender_lot list" where
  "lotsFromGtfsPlanning lc sha256 envelope expectedWorldId =
     bnd (validWorldPlanning lc sha256 envelope expectedWorldId) (\<lambda>_.
     Inr (map planningLot (snLots (evSnapshot envelope))))"

definition resolveGtfsPlanningLot :: "(string \<Rightarrow> string \<Rightarrow> int) \<Rightarrow> (string \<Rightarrow> string) \<Rightarrow> planning_envelope \<Rightarrow> string \<Rightarrow>
    planning_lot_reference \<Rightarrow> economy_error + gtfs_lot" where
  "resolveGtfsPlanningLot lc sha256 envelope expectedWorldId reference =
     bnd (validWorldPlanning lc sha256 envelope expectedWorldId) (\<lambda>_.
     invariant (snRevision (evSnapshot envelope) = prPlanningRevision reference) (ServicePlanningError ''Planungsrevision'')
    (invariant (evSnapshotHashText envelope = prSnapshotHash reference) (ServicePlanningError ''Planungshash'')
    (case find (\<lambda>l. slId l = prLotId reference) (snLots (evSnapshot envelope)) of
       None \<Rightarrow> Inl (ServicePlanningError ''Los'')
     | Some l \<Rightarrow> Inr l)))"

record derived_service =
  dsLot :: gtfs_lot
  dsSpecification :: service_specification
  dsEvidence :: planning_evidence

definition planningRequirements :: "planning_requirements \<Rightarrow> vehicle_requirements" where
  "planningRequirements r = \<lparr>vrMinimumSeats = pnMinimumSeats r, vrMinimumMaximumSpeedKph = pnMinimumMaximumSpeedKph r,
     vrFirstClassBasisPoints = pnFirstClassBasisPoints r, vrAccessible = pnAccessible r, vrBicyclePlaces = pnBicyclePlaces r,
     vrWheelchairPlaces = pnWheelchairPlaces r, vrRequiredEquipment = pnRequiredEquipment r\<rparr>"

definition deriveValidatedServiceSpecification ::
    "gtfs_lot \<Rightarrow> planning_lot_reference \<Rightarrow> int \<Rightarrow> economy_error + derived_service" where
  "deriveValidatedServiceSpecification lot reference periodDurationSeconds =
     (let days = periodDurationSeconds div 86400; basis = slSpecificationBasis lot;
          scaled = (\<lambda>v unit. scaleCeil v days (sfSampleServiceDays basis) unit);
          specification = \<lparr>ssLines = slLineIds lot,
            ssTrainKmPerPeriod = scaled (sfTotalTrainMeters basis) 1000,
            ssStopsPerPeriod = scaled (sfTotalStops basis) 1,
            ssServiceHoursPerPeriod = scaled (sfTotalServiceSeconds basis) 3600,
            ssFacilityHoursPerPeriod = bigint_div (sfFacilityMinutesPerDay basis * days + 59) 60,
            ssEnergyKwhPerPeriod = scaled (sfTotalEnergyWh basis) 1000,
            ssVehicleCount = sfPeakVehicles basis, ssOvernightUnits = sfOvernightUnits basis,
            ssProtectionUnits = sfProtectionUnits basis,
            ssRequirements = planningRequirements (sfRequirements basis)\<rparr>
      in invariant (ssTrainKmPerPeriod specification > 0 \<and> ssServiceHoursPerPeriod specification > 0)
           (ServicePlanningError ''Verkehrsleistung'')
         (Inr \<lparr>dsLot = lot, dsSpecification = specification,
            dsEvidence = \<lparr>evPlanningRevision = prPlanningRevision reference, evSnapshotHash = prSnapshotHash reference,
              evLotId = prLotId reference, evSource = GTFS_PLANNING_SCHEMA\<rparr>\<rparr>))"

definition wholeDays :: "int \<Rightarrow> economy_error + unit" where
  "wholeDays periodDurationSeconds =
     invariant (is_safe periodDurationSeconds \<and> periodDurationSeconds > 0 \<and> periodDurationSeconds mod 86400 = 0)
       (ServicePlanningError ''Vertragsperiode'') (Inr ())"

definition deriveGtfsServiceSpecification :: "(string \<Rightarrow> string \<Rightarrow> int) \<Rightarrow> (string \<Rightarrow> string) \<Rightarrow> planning_envelope \<Rightarrow> string \<Rightarrow>
    planning_lot_reference \<Rightarrow> int \<Rightarrow> economy_error + derived_service" where
  "deriveGtfsServiceSpecification lc sha256 envelope expectedWorldId reference periodDurationSeconds =
     bnd (wholeDays periodDurationSeconds) (\<lambda>_.
     bnd (resolveGtfsPlanningLot lc sha256 envelope expectedWorldId reference) (\<lambda>lot.
     deriveValidatedServiceSpecification lot reference periodDurationSeconds))"

definition referenceOf :: "planning_envelope \<Rightarrow> gtfs_lot \<Rightarrow> planning_lot_reference" where
  "referenceOf envelope lot = \<lparr>prPlanningRevision = snRevision (evSnapshot envelope),
     prSnapshotHash = evSnapshotHashText envelope, prLotId = slId lot\<rparr>"

definition deriveGtfsServiceSpecifications :: "(string \<Rightarrow> string \<Rightarrow> int) \<Rightarrow> (string \<Rightarrow> string) \<Rightarrow> planning_envelope \<Rightarrow> string \<Rightarrow>
    int \<Rightarrow> economy_error + (string \<times> derived_service) list" where
  "deriveGtfsServiceSpecifications lc sha256 envelope expectedWorldId periodDurationSeconds =
     bnd (wholeDays periodDurationSeconds) (\<lambda>_.
     bnd (validWorldPlanning lc sha256 envelope expectedWorldId) (\<lambda>_.
     bnd (map_res (\<lambda>lot. bnd (deriveValidatedServiceSpecification lot (referenceOf envelope lot) periodDurationSeconds) (\<lambda>d. Inr (slId lot, d)))
           (snLots (evSnapshot envelope))) (\<lambda>entries.
     Inr (map_from entries))))"

section \<open>The policy of generated tenders\<close>

definition TENDER_GENERATION_SCHEMA :: string where
  "TENDER_GENERATION_SCHEMA = ''zugfolge-tender-generation/v1''"

definition smallLotBidWindowSeconds :: int where
  "smallLotBidWindowSeconds = 86400"

definition regularLotBidWindowSeconds :: int where
  "regularLotBidWindowSeconds = 3 * 86400"

definition failedOperationRetenderPeriods :: int where
  "failedOperationRetenderPeriods = 2"

record tender_generation_policy =
  gpSchemaVersion :: string
  gpAuthorityId :: string
  gpAuthorityBudgetCentsPerPeriod :: int
  gpFailurePenaltyCents :: int

definition validateTenderGenerationPolicy :: "tender_generation_policy \<Rightarrow> economy_error + unit" where
  "validateTenderGenerationPolicy policy =
     invariant (\<not> (gpSchemaVersion policy \<noteq> TENDER_GENERATION_SCHEMA \<or> blank (gpAuthorityId policy)))
       (EconomyError ''Aufgabentraegerregel'')
    (bnd (money (assertNonnegativeI64 (gpAuthorityBudgetCentsPerPeriod policy) ''Aufgabentraegerbudget je Periode'')) (\<lambda>_.
     bnd (money (assertNonnegativeI64 (gpFailurePenaltyCents policy) ''Mobilisierungspoenale'')) (\<lambda>_.
     invariant (gpAuthorityBudgetCentsPerPeriod policy \<noteq> 0) (EconomyError ''Aufgabentraegerbudget'') (Inr ()))))"

definition largestThreshold :: "economy_release \<Rightarrow> service_specification \<Rightarrow> economy_error + int" where
  "largestThreshold release specification =
     fold_res (\<lambda>candidate maximum. bnd (calculateViabilityThreshold release specification candidate) (\<lambda>amount.
         Inr (if amount > maximum then amount else maximum))) (reTenderProfiles release) 0"

definition addLotBudget :: "economy_release \<Rightarrow> world_profile \<Rightarrow> service_specification \<Rightarrow> int \<Rightarrow> economy_error + int" where
  "addLotBudget release profile specification budget =
     bnd (largestThreshold release specification) (\<lambda>threshold.
     (let perPeriod = threshold * ssTrainKmPerPeriod specification;
          contractCost = perPeriod * wfContractPeriods profile;
          publicBase = perPeriod * failedOperationRetenderPeriods;
          publicCost = publicBase + bigint_div (publicBase * ruPublicOperationSurchargeBasisPoints (reRules release)) 10000
      in money (assertNonnegativeI64 (budget + (if contractCost > publicCost then contractCost else publicCost))
           ''Abgeleitetes Aufgabentraegerbudget'')))"

definition deriveTenderAuthorityBudgetCents :: "(string \<Rightarrow> string \<Rightarrow> int) \<Rightarrow> (string \<Rightarrow> string) \<Rightarrow> planning_envelope \<Rightarrow> string \<Rightarrow>
    economy_release \<Rightarrow> duration \<Rightarrow> economy_error + int" where
  "deriveTenderAuthorityBudgetCents lc sha256 planning worldId release durationMonths =
     (let profile = deriveWorldProfile durationMonths in
      bnd (deriveGtfsServiceSpecifications lc sha256 planning worldId (wfPeriodWeeks profile * 7 * 86400)) (\<lambda>specs.
      fold_res (\<lambda>(lotId, d) budget. addLotBudget release profile (dsSpecification d) budget) specs 0))"

end
