(* ===== verification/EconomyState.thy ===== *)
theory EconomyState
  imports EconomyContracts EconomyPlanning "HOL-Library.AList"
begin

text \<open>
  The economy of a world as a state that commands transform, \<open>packages/economy/src/workflow.ts\<close>, with
  the revenue evidence of \<open>fare-revenue.ts\<close>. A \<open>Map\<close> is an association list in insertion order, a
  \<open>Set\<close> the list of its elements in insertion order; a command returns the new state and its effects,
  or throws and leaves the state as it was. Announcing a tender shuffles profiles by a rejection loop,
  so it returns an option, \<open>None\<close> being a loop that does not end.
\<close>

section \<open>Evidence of contract revenue\<close>

record fare_evidence =
  feSchemaVersion :: string
  feWorldId :: string
  feOperatorId :: string
  feContractId :: string
  feJournalEffectId :: string
  feEconomyReleaseHash :: string
  feServiceStartMs :: int
  feServiceEndMs :: int
  feSettledAtMs :: int
  feOrderingFeeCents :: string
  feBonusCents :: string
  fePenaltyCents :: string
  feContentHash :: string

text \<open>\<open>JSON.stringify\<close> of the evidence with its content hash cleared.\<close>

definition evidenceText :: "fare_evidence \<Rightarrow> string" where
  "evidenceText e = ''{'' @ join '','' (map (\<lambda>(k, t). json_string k @ '':'' @ t)
     [(''schemaVersion'', json_string (feSchemaVersion e)), (''worldId'', json_string (feWorldId e)),
      (''operatorId'', json_string (feOperatorId e)), (''contractId'', json_string (feContractId e)),
      (''journalEffectId'', json_string (feJournalEffectId e)), (''economyReleaseHash'', json_string (feEconomyReleaseHash e)),
      (''serviceStartMs'', int_str (feServiceStartMs e)), (''serviceEndMs'', int_str (feServiceEndMs e)),
      (''settledAtMs'', int_str (feSettledAtMs e)), (''orderingFeeCents'', json_string (feOrderingFeeCents e)),
      (''bonusCents'', json_string (feBonusCents e)), (''penaltyCents'', json_string (fePenaltyCents e)),
      (''contentHash'', json_string [])]) @ ''}''"

definition fareContractRevenueEvidenceHash :: "(string \<Rightarrow> string) \<Rightarrow> fare_evidence \<Rightarrow> string" where
  "fareContractRevenueEvidenceHash sha256 e = sha256 (evidenceText e)"

definition FARE_EVIDENCE_SCHEMA :: string where
  "FARE_EVIDENCE_SCHEMA = ''fare-contract-revenue-evidence/v1''"

definition buildFareContractRevenueEvidence :: "(string \<Rightarrow> string) \<Rightarrow> fare_evidence \<Rightarrow> economy_error + fare_evidence" where
  "buildFareContractRevenueEvidence sha256 input =
     invariant (\<not> (\<not> list_all is_safe [feServiceStartMs input, feServiceEndMs input, feSettledAtMs input]
        \<or> feServiceStartMs input < 0 \<or> feServiceEndMs input \<le> feServiceStartMs input \<or> feSettledAtMs input < feServiceEndMs input))
       (EconomyError ''Leistungsintervall'')
    (let body = input\<lparr>feSchemaVersion := FARE_EVIDENCE_SCHEMA, feContentHash := []\<rparr>
     in Inr (body\<lparr>feContentHash := fareContractRevenueEvidenceHash sha256 body\<rparr>))"

section \<open>Effects\<close>

record economy_notice =
  noId :: string
  noWorldId :: string
  noRecipientAccountId :: string
  noType :: string
  noAt :: int
  noPayload :: econ_value

record journal_entry =
  jeWorldId :: string
  jeOperatorId :: string
  jeIdempotencyKey :: string
  jeAt :: int
  jeDescription :: string
  jePostings :: "classified_posting list"
  jeRevenueCents :: int
  jeContractRevenueEvidence :: "fare_evidence option"

record runtime_event =
  rvEventId :: string
  rvWorldId :: string
  rvEventType :: string
  rvAtS :: int
  rvPayload :: "(string \<times> econ_value) list"

record effects =
  efNotices :: "economy_notice list"
  efJournal :: "journal_entry list"
  efRuntimeEvents :: "runtime_event list"

definition no_effects :: effects where
  "no_effects = \<lparr>efNotices = [], efJournal = [], efRuntimeEvents = []\<rparr>"

section \<open>The transitions of the operating runtime\<close>

text \<open>The state of the runtime keeps, beside the fields read here, properties that are only passed on.\<close>

record operating_state =
  osSchemaVersion :: string
  osWorldId :: string
  osRevision :: int
  osRest :: "(string \<times> econ_value) list"

record transition_outcome =
  toLotId :: string
  toPreviousOperatorId :: string
  toOperatorId :: string
  toKind :: string
  toSeamless :: bool
  toPenaltyRequired :: bool
  toTrainRunIds :: "string list"
  toLivemapMarker :: "string option"

record operating_transition =
  otSchemaVersion :: string
  otState :: operating_state
  otStateHash :: string
  otOutcome :: transition_outcome
  otEvents :: "runtime_event list"
  otIdempotentReplay :: bool

record runtime_snapshot =
  rsState :: operating_state
  rsStateHash :: string

section \<open>The state of the economy\<close>

datatype tender_lifecycle =
    LcAnnounced (lcTender: tender) (lcBids: "bid list")
  | LcOpen (lcTender: tender) (lcBids: "bid list")
  | LcAwarded (lcTender: tender) (lcBids: "bid list") (lcWinningBid: bid)
  | LcFailed (lcTender: tender) (lcBids: "bid list") (lcPublicOperation: public_operation) (lcOperationStarted: "bool option")

record mobilization_reference =
  mrFleetRevision :: int
  mrSnapshotHash :: string
  mrFormationIds :: "string list"
  mrPersonnelDutyIds :: "string list"
  mrPathReservationIds :: "string list"
  mrEntryFacility :: "string option"

record mobilization =
  mbTenderId :: string
  mbWinnerOperatorId :: string
  mbDeadline :: int
  mbProof :: "mobilization_proof option"
  mbReference :: "mobilization_reference option"
  mbCompleted :: bool

record tender_automation =
  taAuthorityId :: string
  taBudgetPeriod :: int
  taVehiclePool :: "string list"
  taRecipientByOperator :: "(string \<times> string) list"
  taFailurePenaltyCents :: int

record economy_state =
  ewWorldId :: string
  ewClosed :: bool
  ewSeed :: int
  ewProfile :: world_profile
  ewReleasePin :: world_economy_pin
  ewRelease :: economy_release
  ewLots :: "tender_lot list"
  ewPlanning :: "planning_envelope option"
  ewTenderGeneration :: "tender_generation_policy option"
  ewCalendar :: "calendar_entry list"
  ewTenders :: "(string \<times> tender_lifecycle) list"
  ewContracts :: "(string \<times> service_contract) list"
  ewMobilizations :: "(string \<times> mobilization) list"
  ewTenderAutomation :: "(string \<times> tender_automation) list"
  ewPublicOperations :: "(string \<times> public_operation) list"
  ewBudgets :: "(string \<times> authority_budget) list"
  ewPrequalifications :: "(string \<times> prequalification) list"
  ewInsolventOperators :: "string list"
  ewOperatorRestrictions :: "(string \<times> insolvency_decision) list"
  ewSettledPeriods :: "string list"
  ewProcessedCommands :: "string list"
  ewOperatingRuntimeByLot :: "(string \<times> runtime_snapshot) list"
  ewRevision :: int

text \<open>\<open>set.add(x)\<close>, \<open>map.has(k)\<close>.\<close>

definition set_add :: "'a \<Rightarrow> 'a list \<Rightarrow> 'a list" where
  "set_add x xs = (if x \<in> set xs then xs else xs @ [x])"

definition has_key :: "('k \<times> 'v) list \<Rightarrow> 'k \<Rightarrow> bool" where
  "has_key m k \<longleftrightarrow> map_of m k \<noteq> None"

text \<open>The argument \<open>s\<close> is the state with the changes of the command.\<close>

definition withCommand :: "string \<Rightarrow> economy_state \<Rightarrow> economy_state" where
  "withCommand commandId s = s\<lparr>ewProcessedCommands := set_add commandId (ewProcessedCommands s), ewRevision := ewRevision s + 1\<rparr>"

definition requireNewCommand :: "economy_state \<Rightarrow> string \<Rightarrow> economy_error + bool" where
  "requireNewCommand s commandId =
     (if commandId \<in> set (ewProcessedCommands s) then Inr False
      else invariant (\<not> ewClosed s) (EconomyError ''geschlossen'') (Inr True))"

text \<open>A command that is repeated returns what it gives without effect.\<close>

definition newCommand :: "economy_state \<Rightarrow> string \<Rightarrow> 'a \<Rightarrow> (economy_error + 'a) \<Rightarrow> economy_error + 'a" where
  "newCommand s commandId repeated run = bnd (requireNewCommand s commandId) (\<lambda>new. if new then run else Inr repeated)"

definition lifecycleOf :: "economy_state \<Rightarrow> string \<Rightarrow> economy_error + tender_lifecycle" where
  "lifecycleOf s tenderId = (case map_of (ewTenders s) tenderId of
       None \<Rightarrow> Inl (EconomyError ''Ausschreibung'') | Some found \<Rightarrow> Inr found)"

text \<open>\<open>${authorityId}:${period}\<close>.\<close>

definition budgetKey :: "string \<Rightarrow> int \<Rightarrow> string" where
  "budgetKey authorityId period = authorityId @ '':'' @ int_str period"

definition initialPrequalification :: "string \<Rightarrow> string \<Rightarrow> prequalification" where
  "initialPrequalification worldId accountId = \<lparr>pqWorldId = worldId, pqAccountId = accountId, pqScore = 5000,
     pqCreditScore = 5000, pqSmallLotsOnlyUntilPeriod = None, pqBankruptcies = 0\<rparr>"

end
