(* ===== verification/EconomyWorkflow.thy ===== *)
theory EconomyWorkflow
  imports EconomyState
begin

text \<open>
  The commands of \<open>packages/economy/src/workflow.ts\<close>, each a function of the state and its input.
\<close>

section \<open>Accounts and tenders\<close>

definition seedEconomyAccount :: "string \<Rightarrow> string \<Rightarrow> economy_state \<Rightarrow> economy_error + economy_state" where
  "seedEconomyAccount commandId accountId s =
     newCommand s commandId s
    (invariant (\<not> blank accountId) (EconomyError ''Weltkonto fehlt'')
    (case map_of (ewPrequalifications s) accountId of
       Some current \<Rightarrow>
         invariant (\<not> (pqWorldId current \<noteq> ewWorldId s \<or> pqAccountId current \<noteq> accountId)) (EconomyError ''Weltisolation'')
           (Inr (withCommand commandId s))
     | None \<Rightarrow> Inr (withCommand commandId (s\<lparr>ewPrequalifications :=
         AList.update accountId (initialPrequalification (ewWorldId s) accountId) (ewPrequalifications s)\<rparr>))))"

text \<open>A tender without its profile and what is derived from it.\<close>

record tender_request =
  rqId :: string
  rqWorldId :: string
  rqLotId :: string
  rqIncumbentOperatorId :: string
  rqSpecification :: service_specification
  rqPlanningEvidence :: "planning_evidence option"
  rqAnnouncedAt :: int
  rqOpensAt :: int
  rqClosesAt :: int
  rqOperatingFrom :: int
  rqContractPeriods :: int
  rqPeriodDurationSeconds :: int
  rqSmallLot :: bool

definition withProfile :: "tender_request \<Rightarrow> tender_profile \<Rightarrow> tender_base" where
  "withProfile r profile = \<lparr>tnId = rqId r, tnWorldId = rqWorldId r, tnLotId = rqLotId r,
     tnIncumbentOperatorId = rqIncumbentOperatorId r, tnProfile = profile, tnSpecification = rqSpecification r,
     tnPlanningEvidence = rqPlanningEvidence r, tnAnnouncedAt = rqAnnouncedAt r, tnOpensAt = rqOpensAt r,
     tnClosesAt = rqClosesAt r, tnOperatingFrom = rqOperatingFrom r, tnContractPeriods = rqContractPeriods r,
     tnPeriodDurationSeconds = rqPeriodDurationSeconds r\<rparr>"

record announcement =
  anCommandId :: string
  anRelease :: economy_release
  anTender :: tender_request
  anRecipients :: "string list"
  anAutomation :: "tender_automation option"

text \<open>The position of the first element that satisfies a predicate.\<close>

fun findIndex :: "('a \<Rightarrow> bool) \<Rightarrow> 'a list \<Rightarrow> nat option" where
  "findIndex p [] = None"
| "findIndex p (x # xs) = (if p x then Some 0 else map_option Suc (findIndex p xs))"

text \<open>
  \<open>Math.floor(announcedAt / periodDurationSeconds)\<close>; the quotient by zero is no integer, which the
  stream refuses as it refuses a negative period.
\<close>

definition announcementIndex :: "tender_request \<Rightarrow> int" where
  "announcementIndex t = (if rqPeriodDurationSeconds t = 0 then -1 else rqAnnouncedAt t div rqPeriodDurationSeconds t)"

definition announcedNotice :: "string \<Rightarrow> string \<Rightarrow> tender \<Rightarrow> string \<Rightarrow> economy_notice" where
  "announcedNotice commandId worldId tender recipient =
     \<lparr>noId = commandId @ '':tender-announced:'' @ recipient, noWorldId = worldId, noRecipientAccountId = recipient,
      noType = ''tender-announced'', noAt = tnAnnouncedAt tender,
      noPayload = VObject [(''tenderId'', VString (tnId tender)), (''lotId'', VString (tnLotId tender)),
        (''profile'', profileValue (tnProfile tender)),
        (''viabilityThresholdCentsPerTrainKm'', VString (int_str (tnViabilityThresholdCentsPerTrainKm tender)))]\<rparr>"

definition announceWith :: "announcement \<Rightarrow> nat \<Rightarrow> tender_profile list \<Rightarrow> economy_state \<Rightarrow> economy_error + economy_state \<times> effects" where
  "announceWith input lotIndex profiles s =
     invariant (profiles \<noteq> []) (EconomyError ''TypeError'')
    (bnd (createTender (withProfile (anTender input) (profiles ! (lotIndex mod length profiles))) (anRelease input) (rqSmallLot (anTender input))) (\<lambda>tender.
     Inr (withCommand (anCommandId input) (s\<lparr>ewTenders := AList.update (tnId tender) (LcAnnounced tender []) (ewTenders s),
            ewTenderAutomation := (case anAutomation input of None \<Rightarrow> ewTenderAutomation s
              | Some a \<Rightarrow> AList.update (tnId tender) a (ewTenderAutomation s))\<rparr>),
          no_effects\<lparr>efNotices := map (announcedNotice (anCommandId input) (ewWorldId s) tender) (anRecipients input)\<rparr>)))"

definition announceTender ::
    "(int list \<Rightarrow> int list) \<Rightarrow> announcement \<Rightarrow> economy_state \<Rightarrow> (economy_error + economy_state \<times> effects) option" where
  "announceTender sha256 input s =
     (case requireNewCommand s (anCommandId input) of
        Inl e \<Rightarrow> Some (Inl e)
      | Inr False \<Rightarrow> Some (Inr (s, no_effects))
      | Inr True \<Rightarrow>
       (case assertPinnedRelease (ewReleasePin s) (anRelease input) of Inl e \<Rightarrow> Some (Inl e) | Inr _ \<Rightarrow>
        if rqWorldId (anTender input) \<noteq> ewWorldId s \<or> has_key (ewTenders s) (rqId (anTender input))
        then Some (Inl (EconomyError ''Weltisolation oder Eindeutigkeit''))
        else case findIndex (\<lambda>e. ceLotId e = rqLotId (anTender input)) (ewCalendar s) of
            None \<Rightarrow> Some (Inl (EconomyError ''Vergabekalender''))
          | Some lotIndex \<Rightarrow>
              map_option (\<lambda>r. bnd r (\<lambda>profiles. announceWith input lotIndex profiles s))
                (deterministicProfileOrder sha256 (reTenderProfiles (anRelease input)) (ewSeed s) (announcementIndex (anTender input)))))"

definition openTender :: "string \<Rightarrow> string \<Rightarrow> int \<Rightarrow> economy_state \<Rightarrow> economy_error + economy_state" where
  "openTender commandId tenderId now s =
     newCommand s commandId s
    (bnd (lifecycleOf s tenderId) (\<lambda>current.
     case current of
       LcAnnounced t bids \<Rightarrow>
         invariant (\<not> now \<noteq> tnOpensAt t) (EconomyError ''Zeitpunkt'')
           (Inr (withCommand commandId (s\<lparr>ewTenders := AList.update tenderId (LcOpen t bids) (ewTenders s)\<rparr>)))
     | _ \<Rightarrow> Inl (EconomyError ''Zeitpunkt'')))"

record qualification =
  qlAccountId :: string
  qlPeriod :: int
  qlSmallLot :: bool
  qlMinimumScore :: int

definition submitBid :: "string \<Rightarrow> string \<Rightarrow> bid \<Rightarrow> qualification \<Rightarrow> economy_state \<Rightarrow> economy_error + economy_state" where
  "submitBid commandId tenderId bid qualification s =
     newCommand s commandId s
    (bnd (lifecycleOf s tenderId) (\<lambda>current.
     case current of
       LcOpen t bids \<Rightarrow>
         invariant (\<not> (bdSubmittedAt bid < tnOpensAt t \<or> bdSubmittedAt bid > tnClosesAt t)) (EconomyError ''Fenster'')
        (invariant (\<not> (bdOperatorId bid \<in> set (ewInsolventOperators s) \<or> (\<exists>b \<in> set bids. bdOperatorId b = bdOperatorId bid)))
           (EconomyError ''kein weiteres Angebot'')
        (case map_of (ewPrequalifications s) (qlAccountId qualification) of
           None \<Rightarrow> Inl (EconomyError ''keine Praequalifikation'')
         | Some record \<Rightarrow>
             bnd (assertPrequalified record (ewWorldId s) (qlPeriod qualification) (qlSmallLot qualification) (qlMinimumScore qualification)) (\<lambda>_.
             bnd (scoreBid t bid) (\<lambda>_.
             Inr (withCommand commandId (s\<lparr>ewTenders := AList.update tenderId (LcOpen t (bids @ [bid])) (ewTenders s),
               ewTenderAutomation := (case map_of (ewTenderAutomation s) tenderId of None \<Rightarrow> ewTenderAutomation s
                 | Some a \<Rightarrow> AList.update tenderId (a\<lparr>taRecipientByOperator :=
                     AList.update (bdOperatorId bid) (qlAccountId qualification) (taRecipientByOperator a)\<rparr>) (ewTenderAutomation s))\<rparr>))))))
     | _ \<Rightarrow> Inl (EconomyError ''Fenster'')))"

section \<open>The decision\<close>

record closing =
  clCommandId :: string
  clTenderId :: string
  clAt :: int
  clAuthorityId :: string
  clBudgetPeriod :: int
  clVehiclePool :: "string list"
  clRecipientByOperator :: "(string \<times> string) list"

text \<open>Commits an amount to the budget of the input.\<close>

definition commitBudget :: "closing \<Rightarrow> int \<Rightarrow> economy_state \<Rightarrow> economy_error + (string \<times> authority_budget) list" where
  "commitBudget input amount s =
     (let key = budgetKey (clAuthorityId input) (clBudgetPeriod input) in
      case map_of (ewBudgets s) key of
        None \<Rightarrow> Inl (EconomyError ''Budget fehlt'')
      | Some budget \<Rightarrow> bnd (commitAuthorityBudget budget amount) (\<lambda>b. Inr (AList.update key b (ewBudgets s))))"

definition publicCostOf :: "tender \<Rightarrow> economy_rules \<Rightarrow> int" where
  "publicCostOf t rules =
     (let base = tnViabilityThresholdCentsPerTrainKm t * ssTrainKmPerPeriod (tnSpecification t) * 2
      in base + bigint_div (base * ruPublicOperationSurchargeBasisPoints rules) 10000)"

definition expectedCostOf :: "tender \<Rightarrow> bid \<Rightarrow> int" where
  "expectedCostOf t winner =
     bdOrderingFeeCentsPerTrainKm winner * ssTrainKmPerPeriod (tnSpecification t) * tnContractPeriods t"

definition closeFailed :: "closing \<Rightarrow> tender \<Rightarrow> bid list \<Rightarrow> economy_state \<Rightarrow> economy_error + economy_state \<times> effects" where
  "closeFailed input t bids s =
     (let operation = startPublicOperation (tnLotId t) (clVehiclePool input);
          operationStarted = (tnIncumbentOperatorId t = ''public'' \<and> \<not> has_key (ewOperatingRuntimeByLot s) (tnLotId t))
      in bnd (commitBudget input (publicCostOf t (reRules (ewRelease s))) s) (\<lambda>budgets.
         Inr (withCommand (clCommandId input) (s\<lparr>ewBudgets := budgets,
                ewPublicOperations := (if operationStarted then AList.update (tnLotId t) operation (ewPublicOperations s) else ewPublicOperations s),
                ewTenders := AList.update (clTenderId input) (LcFailed t bids operation (Some operationStarted)) (ewTenders s)\<rparr>),
              no_effects)))"

definition awardedNotices :: "closing \<Rightarrow> tender \<Rightarrow> bid \<Rightarrow> string \<Rightarrow> economy_notice list" where
  "awardedNotices input t winner worldId =
     (case map_of (clRecipientByOperator input) (bdOperatorId winner) of
        None \<Rightarrow> []
      | Some account \<Rightarrow> [\<lparr>noId = clCommandId input @ '':tender-awarded:'' @ account, noWorldId = worldId,
          noRecipientAccountId = account, noType = ''tender-awarded'', noAt = clAt input,
          noPayload = VObject [(''tenderId'', VString (clTenderId input)), (''mobilizationDeadline'', VNumber (tnOperatingFrom t))]\<rparr>])"

definition closeAwarded :: "closing \<Rightarrow> tender \<Rightarrow> bid list \<Rightarrow> bid \<Rightarrow> economy_state \<Rightarrow> economy_error + economy_state \<times> effects" where
  "closeAwarded input t bids winner s =
     bnd (commitBudget input (expectedCostOf t winner) s) (\<lambda>budgets.
     Inr (withCommand (clCommandId input) (s\<lparr>ewBudgets := budgets,
            ewTenders := AList.update (clTenderId input) (LcAwarded t bids winner) (ewTenders s),
            ewMobilizations := AList.update (clTenderId input)
              \<lparr>mbTenderId = clTenderId input, mbWinnerOperatorId = bdOperatorId winner, mbDeadline = tnOperatingFrom t,
               mbProof = None, mbReference = None, mbCompleted = False\<rparr> (ewMobilizations s)\<rparr>),
          no_effects\<lparr>efNotices := awardedNotices input t winner (ewWorldId s)\<rparr>))"

definition closeTender :: "closing \<Rightarrow> economy_state \<Rightarrow> economy_error + economy_state \<times> effects" where
  "closeTender input s =
     newCommand s (clCommandId input) (s, no_effects)
    (bnd (lifecycleOf s (clTenderId input)) (\<lambda>current.
     case current of
       LcOpen t bids \<Rightarrow>
         invariant (\<not> clAt input \<noteq> tnClosesAt t) (EconomyError ''Fristende'')
        (bnd (awardTender t bids (clAt input)) (\<lambda>award.
         case awWinner award of
           None \<Rightarrow> closeFailed input t bids s
         | Some winner \<Rightarrow> closeAwarded input t bids winner s))
     | _ \<Rightarrow> Inl (EconomyError ''Fristende'')))"

section \<open>Transitions of the operating runtime\<close>

definition OPERATING_RESULT_SCHEMA :: string where
  "OPERATING_RESULT_SCHEMA = ''zugfolge-operating-transition-result/v1''"

definition previousRevision :: "economy_state \<Rightarrow> string \<Rightarrow> int" where
  "previousRevision s lotId = (case map_of (ewOperatingRuntimeByLot s) lotId of None \<Rightarrow> 0 | Some r \<Rightarrow> osRevision (rsState r))"

definition hasEvent :: "operating_transition \<Rightarrow> string \<Rightarrow> bool" where
  "hasEvent tr eventType \<longleftrightarrow> (\<exists>e \<in> set (otEvents tr). rvEventType e = eventType)"

definition assignedTrains :: "operating_transition \<Rightarrow> nat" where
  "assignedTrains tr = length (filter (\<lambda>e. rvEventType e = ''train-operation-assigned'') (otEvents tr))"

text \<open>The checks shared by the three commands that take a transition.\<close>

definition transitionFits :: "economy_state \<Rightarrow> operating_transition \<Rightarrow> string \<Rightarrow> int \<Rightarrow> bool" where
  "transitionFits s tr lotId now \<longleftrightarrow>
     otSchemaVersion tr = OPERATING_RESULT_SCHEMA \<and> osWorldId (otState tr) = ewWorldId s \<and>
     osRevision (otState tr) = js_add (previousRevision s lotId) 1 \<and> \<not> otIdempotentReplay tr \<and>
     toLotId (otOutcome tr) = lotId \<and>
     \<not> (\<exists>e \<in> set (otEvents tr). rvWorldId e \<noteq> ewWorldId s \<or> rvAtS e \<noteq> now) \<and>
     hasEvent tr ''operating-transition-completed'' \<and> hex64 (otStateHash tr)"

definition runtimeOf :: "operating_transition \<Rightarrow> runtime_snapshot" where
  "runtimeOf tr = \<lparr>rsState = otState tr, rsStateHash = otStateHash tr\<rparr>"

record failed_start =
  fsCommandId :: string
  fsTenderId :: string
  fsAt :: int
  fsOperatingTransition :: operating_transition

definition failedTransitionOk :: "economy_state \<Rightarrow> tender \<Rightarrow> operating_transition \<Rightarrow> int \<Rightarrow> bool" where
  "failedTransitionOk s t tr now \<longleftrightarrow>
     transitionFits s tr (tnLotId t) now \<and>
     toPreviousOperatorId (otOutcome tr) = tnIncumbentOperatorId t \<and> toOperatorId (otOutcome tr) = ''public'' \<and>
     toKind (otOutcome tr) = ''public-operation'' \<and> \<not> toSeamless (otOutcome tr) \<and> \<not> toPenaltyRequired (otOutcome tr) \<and>
     toLivemapMarker (otOutcome tr) = Some ''public-operator'' \<and>
     toTrainRunIds (otOutcome tr) \<noteq> [] \<and> length (remdups (toTrainRunIds (otOutcome tr))) = length (toTrainRunIds (otOutcome tr)) \<and>
     length (remdups (map rvEventId (otEvents tr))) = length (otEvents tr) \<and>
     hasEvent tr ''operating-duty-ended'' \<and> hasEvent tr ''livemap-operation-marked'' \<and>
     assignedTrains tr = length (remdups (toTrainRunIds (otOutcome tr)))"

definition startFailedTenderPublicOperation :: "failed_start \<Rightarrow> economy_state \<Rightarrow> economy_error + economy_state \<times> effects" where
  "startFailedTenderPublicOperation input s =
     newCommand s (fsCommandId input) (s, no_effects)
    (bnd (lifecycleOf s (fsTenderId input)) (\<lambda>current.
     case current of
       LcFailed t bids operation started \<Rightarrow>
         invariant (\<not> (started = Some True \<or> fsAt input \<noteq> tnOperatingFrom t)) (EconomyError ''Stichtag'')
        (invariant (failedTransitionOk s t (fsOperatingTransition input) (fsAt input)) (EconomyError ''Eigenbetriebsuebergang'')
        (invariant (\<not> length (pbVehiclePool operation) = 0) (EconomyError ''Ersatzfahrzeugflotte'')
        (Inr (withCommand (fsCommandId input) (s\<lparr>
            ewTenders := AList.update (fsTenderId input) (LcFailed t bids operation (Some True)) (ewTenders s),
            ewPublicOperations := AList.update (tnLotId t) operation (ewPublicOperations s),
            ewOperatingRuntimeByLot := AList.update (tnLotId t) (runtimeOf (fsOperatingTransition input)) (ewOperatingRuntimeByLot s)\<rparr>),
          no_effects\<lparr>efRuntimeEvents := otEvents (fsOperatingTransition input)\<rparr>))))
     | _ \<Rightarrow> Inl (EconomyError ''Stichtag'')))"

section \<open>Mobilisation\<close>

definition submitMobilizationReference ::
    "string \<Rightarrow> string \<Rightarrow> string \<Rightarrow> int \<Rightarrow> mobilization_reference \<Rightarrow> economy_state \<Rightarrow> economy_error + economy_state" where
  "submitMobilizationReference commandId tenderId operatorId now reference s =
     newCommand s commandId s
    (bnd (lifecycleOf s tenderId) (\<lambda>current.
     case (current, map_of (ewMobilizations s) tenderId) of
       (LcAwarded t bids winningBid, Some m) \<Rightarrow>
         invariant (\<not> mbCompleted m) (EconomyError ''offener Zuschlag'')
        (invariant (\<not> (bdOperatorId winningBid \<noteq> operatorId \<or> mbWinnerOperatorId m \<noteq> operatorId)) (EconomyError ''bezuschlagtes EVU'')
        (invariant (\<not> now > mbDeadline m) (EconomyError ''Fahrplanstichtag'')
        (Inr (withCommand commandId (s\<lparr>ewMobilizations := AList.update tenderId (m\<lparr>mbReference := Some reference\<rparr>) (ewMobilizations s)\<rparr>)))))
     | _ \<Rightarrow> Inl (EconomyError ''offener Zuschlag'')))"

record completion =
  cmCommandId :: string
  cmTenderId :: string
  cmAt :: int
  cmProof :: "mobilization_proof option"
  cmFailurePenaltyCents :: int
  cmRecipientAccountId :: string
  cmPublicVehiclePool :: "string list"
  cmOperatingTransition :: operating_transition

definition completionTransitionOk :: "economy_state \<Rightarrow> tender \<Rightarrow> operating_transition \<Rightarrow> int \<Rightarrow> bool" where
  "completionTransitionOk s t tr now \<longleftrightarrow>
     transitionFits s tr (tnLotId t) now \<and>
     toPreviousOperatorId (otOutcome tr) = tnIncumbentOperatorId t \<and>
     length (toTrainRunIds (otOutcome tr)) \<noteq> 0 \<and>
     length (remdups (toTrainRunIds (otOutcome tr))) = length (toTrainRunIds (otOutcome tr)) \<and>
     length (remdups (map rvEventId (otEvents tr))) = length (otEvents tr) \<and>
     hasEvent tr ''operating-duty-ended'' \<and> assignedTrains tr = length (toTrainRunIds (otOutcome tr))"

definition expectedOperatorOf :: "tender \<Rightarrow> bid \<Rightarrow> mobilization_proof option \<Rightarrow> string" where
  "expectedOperatorOf t winningBid proof =
     (if bdOperatorId winningBid = tnIncumbentOperatorId t \<or> isMobilizationProofComplete proof then bdOperatorId winningBid else ''public'')"

definition expectedKindOf :: "tender \<Rightarrow> bid \<Rightarrow> string \<Rightarrow> string" where
  "expectedKindOf t winningBid expectedOperator =
     (if expectedOperator = ''public'' then ''public-operation''
      else if bdOperatorId winningBid = tnIncumbentOperatorId t then ''seamless-continuation'' else ''operator-change'')"

definition kindFits :: "operating_transition \<Rightarrow> string \<Rightarrow> bool" where
  "kindFits tr expectedKind \<longleftrightarrow>
     toKind (otOutcome tr) = expectedKind \<and> toSeamless (otOutcome tr) = (expectedKind = ''seamless-continuation'') \<and>
     toLivemapMarker (otOutcome tr) = (if expectedKind = ''public-operation'' then Some ''public-operator'' else None) \<and>
     hasEvent tr (if expectedKind = ''public-operation'' then ''livemap-operation-marked'' else ''livemap-operation-cleared'')"

text \<open>The rate of the focus, raised by its multiplier.\<close>

definition focusedPenaltyRates :: "tender \<Rightarrow> penalty_rates" where
  "focusedPenaltyRates t =
     (let rates = ruPenaltyRates (tnRules t);
          raised = (\<lambda>rate. bigint_div (rate * ruPenaltyFocusMultiplierBasisPoints (tnRules t)) 10000)
      in case tpPenaltyFocus (tnProfile t) of
           FocusPunctuality \<Rightarrow> rates\<lparr>prtPunctuality := raised (prtPunctuality rates)\<rparr>
         | FocusCancellation \<Rightarrow> rates\<lparr>prtCancellation := raised (prtCancellation rates)\<rparr>
         | FocusSeats \<Rightarrow> rates\<lparr>prtSeats := raised (prtSeats rates)\<rparr>
         | FocusConnections \<Rightarrow> rates\<lparr>prtConnections := raised (prtConnections rates)\<rparr>)"

definition awardedContract :: "string \<Rightarrow> string \<Rightarrow> tender \<Rightarrow> bid \<Rightarrow> mobilization \<Rightarrow> string \<Rightarrow> int \<Rightarrow> service_contract" where
  "awardedContract tenderId worldId t winningBid m operatorId now =
     \<lparr>scQualityPromises = Some \<lparr>qpExtraSeats = qmExtraSeats (bdPromises winningBid),
        qpPunctualityBasisPoints = qmPunctualityBasisPoints (bdPromises winningBid),
        qpAdditionalStops = qmAdditionalStops (bdPromises winningBid),
        qpMinimumSeats = js_add (vrMinimumSeats (ssRequirements (tnSpecification t))) (qmExtraSeats (bdPromises winningBid))\<rparr>,
      scId = tenderId, scWorldId = worldId, scLotId = tnLotId t, scOperatorId = operatorId, scStartsAt = now,
      scEndsAt = js_add now (js_mul (tnContractPeriods t) (tnPeriodDurationSeconds t)),
      scOrderingFeeCentsPerTrainKm = bdOrderingFeeCentsPerTrainKm winningBid,
      scBonusCentsPerPeriod = ruContractBonusCentsPerPeriod (tnRules t), scPenaltyRates = focusedPenaltyRates t,
      scEvidenceRequired = [''vehicles'', ''personnel'', ''paths''],
      scMandatoryVehicleCostCentsPerTrainKm = (case mbReference m of None \<Rightarrow> None | Some r \<Rightarrow>
        (case mrEntryFacility r of None \<Rightarrow> None | Some _ \<Rightarrow> Some (vcOperatingCostCentsPerTrainKm (bdVehicle winningBid))))\<rparr>"

definition failedMobilizationEffects :: "completion \<Rightarrow> tender \<Rightarrow> bid \<Rightarrow> string \<Rightarrow> effects" where
  "failedMobilizationEffects input t winningBid worldId =
     \<lparr>efNotices = [\<lparr>noId = cmCommandId input @ '':mobilization-failed:'' @ cmRecipientAccountId input, noWorldId = worldId,
        noRecipientAccountId = cmRecipientAccountId input, noType = ''mobilization-failed'', noAt = cmAt input,
        noPayload = VObject [(''tenderId'', VString (cmTenderId input)),
          (''penaltyCents'', VString (int_str (cmFailurePenaltyCents input))),
          (''trainRunIds'', VArray (map VString (toTrainRunIds (otOutcome (cmOperatingTransition input))))),
          (''livemapMarker'', case toLivemapMarker (otOutcome (cmOperatingTransition input)) of None \<Rightarrow> VNull | Some m \<Rightarrow> VString m)]\<rparr>],
      efJournal = [\<lparr>jeWorldId = worldId, jeOperatorId = bdOperatorId winningBid,
        jeIdempotencyKey = cmCommandId input @ '':penalty'', jeAt = cmAt input,
        jeDescription = ''Vertragsstrafe wegen gescheiterter Mobilisierung'',
        jePostings = [\<lparr>cpAmountCents = cmFailurePenaltyCents input, cpCostType = Penalty, cpCostCentreId = tnLotId t,
          cpReference = cmTenderId input\<rparr>], jeRevenueCents = 0, jeContractRevenueEvidence = None\<rparr>],
      efRuntimeEvents = otEvents (cmOperatingTransition input)\<rparr>"

definition damagePrequalification :: "string \<Rightarrow> (string \<times> prequalification) list \<Rightarrow> (string \<times> prequalification) list" where
  "damagePrequalification recipientAccountId m =
     (case find (\<lambda>p. pqAccountId p = recipientAccountId) (map snd m) of
        None \<Rightarrow> m
      | Some p \<Rightarrow> AList.update (pqAccountId p) (updatePrequalification p
          \<lparr>piFinalPerformanceBasisPoints = None, piMobilizationFailed = True, piInsolvencyAtPeriod = None\<rparr>) m)"

definition applyTransition :: "completion \<Rightarrow> tender \<Rightarrow> bid \<Rightarrow> mobilization \<Rightarrow> economy_state \<Rightarrow> economy_error + economy_state \<times> effects" where
  "applyTransition input t winningBid m s =
     (let tr = cmOperatingTransition input;
          completed = s\<lparr>ewMobilizations := AList.update (cmTenderId input)
              (m\<lparr>mbProof := (case cmProof input of None \<Rightarrow> mbProof m | Some p \<Rightarrow> Some p), mbCompleted := True\<rparr>) (ewMobilizations s),
            ewOperatingRuntimeByLot := AList.update (tnLotId t) (runtimeOf tr) (ewOperatingRuntimeByLot s)\<rparr>
      in if toOperatorId (otOutcome tr) = ''public'' then
           invariant (\<not> length (cmPublicVehiclePool input) = 0) (EconomyError ''Ersatzfahrzeugflotte'')
             (Inr (withCommand (cmCommandId input) (completed\<lparr>
                 ewPublicOperations := AList.update (tnLotId t) (startPublicOperation (tnLotId t) (cmPublicVehiclePool input)) (ewPublicOperations s),
                 ewPrequalifications := damagePrequalification (cmRecipientAccountId input) (ewPrequalifications s)\<rparr>),
               failedMobilizationEffects input t winningBid (ewWorldId s)))
         else
           Inr (withCommand (cmCommandId input) (completed\<lparr>
               ewPublicOperations := AList.delete (tnLotId t) (ewPublicOperations s),
               ewContracts := AList.update (cmTenderId input)
                 (awardedContract (cmTenderId input) (ewWorldId s) t winningBid m (toOperatorId (otOutcome tr)) (cmAt input)) (ewContracts s)\<rparr>),
             no_effects\<lparr>efRuntimeEvents := otEvents tr\<rparr>))"

definition completeMobilization :: "completion \<Rightarrow> economy_state \<Rightarrow> economy_error + economy_state \<times> effects" where
  "completeMobilization input s =
     newCommand s (cmCommandId input) (s, no_effects)
    (bnd (lifecycleOf s (cmTenderId input)) (\<lambda>current.
     case (current, map_of (ewMobilizations s) (cmTenderId input)) of
       (LcAwarded t bids winningBid, Some m) \<Rightarrow>
        (let tr = cmOperatingTransition input; expectedOperator = expectedOperatorOf t winningBid (cmProof input) in
         invariant (\<not> (mbCompleted m \<or> cmAt input \<noteq> tnOperatingFrom t)) (EconomyError ''Fahrplanstichtag'')
        (invariant (completionTransitionOk s t tr (cmAt input)) (EconomyError ''Betriebsuebergang'')
        (invariant (\<not> toOperatorId (otOutcome tr) \<noteq> expectedOperator) (EconomyError ''Mobilisierungsfakten'')
        (invariant (\<not> (expectedOperator = ''public'') \<noteq> toPenaltyRequired (otOutcome tr)) (EconomyError ''Vertragsstrafenfolge'')
        (invariant (kindFits tr (expectedKindOf t winningBid expectedOperator)) (EconomyError ''Betriebsart'')
        (applyTransition input t winningBid m s))))))
     | _ \<Rightarrow> Inl (EconomyError ''Fahrplanstichtag'')))"

end
