(* ===== verification/EconomySettlement.thy ===== *)
theory EconomySettlement
  imports EconomyWorkflow
begin

text \<open>
  The remaining commands of \<open>packages/economy/src/workflow.ts\<close>: the emergency start package, the
  settlement of a contract period, the escalation of an operator, the restrictions, and the regular
  end of the world; and the hand-over of effects to adapters.
\<close>

section \<open>The emergency start package\<close>

record start_package =
  skCommandId :: string
  skContractId :: string
  skOperatorId :: string
  skAccountId :: string
  skLotId :: string
  skAt :: int
  skUntil :: int
  skMaximumTrainKmPerPeriod :: int
  skProof :: mobilization_proof
  skOperatingTransition :: operating_transition

definition packageTransitionOk :: "economy_state \<Rightarrow> start_package \<Rightarrow> bool" where
  "packageTransitionOk s input \<longleftrightarrow> (let tr = skOperatingTransition input in
     transitionFits s tr (skLotId input) (skAt input) \<and>
     toPreviousOperatorId (otOutcome tr) = ''public'' \<and> toOperatorId (otOutcome tr) = skOperatorId input \<and>
     toKind (otOutcome tr) = ''operator-change'' \<and> \<not> toPenaltyRequired (otOutcome tr) \<and>
     length (toTrainRunIds (otOutcome tr)) \<noteq> 0 \<and> toLivemapMarker (otOutcome tr) = None \<and>
     hasEvent tr ''livemap-operation-cleared'')"

definition packageContract :: "start_package \<Rightarrow> economy_state \<Rightarrow> service_contract" where
  "packageContract input s =
     \<lparr>scQualityPromises = None, scId = skContractId input, scWorldId = ewWorldId s, scLotId = skLotId input,
      scOperatorId = skOperatorId input, scStartsAt = skAt input, scEndsAt = skUntil input,
      scOrderingFeeCentsPerTrainKm = bigint_div (rtTrackPerTrainKmCents (reRates (ewRelease s))
        * (10000 + ruPublicOperationSurchargeBasisPoints (reRules (ewRelease s)))) 10000,
      scBonusCentsPerPeriod = 0, scPenaltyRates = ruPenaltyRates (reRules (ewRelease s)),
      scEvidenceRequired = [''vehicles'', ''personnel'', ''paths'', ''maximum-train-km:'' @ int_str (skMaximumTrainKmPerPeriod input)],
      scMandatoryVehicleCostCentsPerTrainKm = None\<rparr>"

definition packageNotice :: "start_package \<Rightarrow> string \<Rightarrow> economy_notice" where
  "packageNotice input worldId =
     \<lparr>noId = skCommandId input @ '':granted:'' @ skAccountId input, noWorldId = worldId,
      noRecipientAccountId = skAccountId input, noType = ''alpha-start-package-granted'', noAt = skAt input,
      noPayload = VObject [(''contractId'', VString (skContractId input)), (''lotId'', VString (skLotId input)),
        (''operatorId'', VString (skOperatorId input)),
        (''maximumTrainKmPerPeriod'', VNumber (skMaximumTrainKmPerPeriod input)), (''expiresAtS'', VNumber (skUntil input))]\<rparr>"

definition applyPackage :: "start_package \<Rightarrow> economy_state \<Rightarrow> economy_error + economy_state \<times> effects" where
  "applyPackage input s =
     (let existing = map_of (ewPrequalifications s) (skAccountId input) in
      invariant (case existing of None \<Rightarrow> True | Some p \<Rightarrow> \<not> pqWorldId p \<noteq> ewWorldId s) (EconomyError ''Weltisolation'')
     (Inr (withCommand (skCommandId input) (s\<lparr>
          ewContracts := AList.update (skContractId input) (packageContract input s) (ewContracts s),
          ewPublicOperations := AList.delete (skLotId input) (ewPublicOperations s),
          ewPrequalifications := (if existing = None
             then AList.update (skAccountId input) (initialPrequalification (ewWorldId s) (skAccountId input)) (ewPrequalifications s)
             else ewPrequalifications s),
          ewOperatingRuntimeByLot := AList.update (skLotId input) (runtimeOf (skOperatingTransition input)) (ewOperatingRuntimeByLot s)\<rparr>),
        \<lparr>efNotices = [packageNotice input (ewWorldId s)], efJournal = [],
         efRuntimeEvents = otEvents (skOperatingTransition input)\<rparr>)))"

definition grantEmergencyStartPackage :: "start_package \<Rightarrow> economy_state \<Rightarrow> economy_error + economy_state \<times> effects" where
  "grantEmergencyStartPackage input s =
     newCommand s (skCommandId input) (s, no_effects)
    (invariant (\<not> (\<exists>v \<in> set [skCommandId input, skContractId input, skOperatorId input, skAccountId input, skLotId input]. blank v))
       (EconomyError ''Kennungen'')
    (invariant (\<not> (\<not> is_safe (skAt input) \<or> \<not> is_safe (skUntil input) \<or> skAt input < 0 \<or> skUntil input \<le> skAt input))
       (EconomyError ''Simulationszeit'')
    (invariant (\<not> (\<not> is_safe (skMaximumTrainKmPerPeriod input) \<or> skMaximumTrainKmPerPeriod input < 1)) (EconomyError ''Kilometergrenze'')
    (invariant (\<not> (\<not> (\<exists>l \<in> set (ewLots s). tlId l = skLotId input) \<or> \<not> has_key (ewPublicOperations s) (skLotId input)))
       (EconomyError ''Startlos'')
    (invariant (\<not> (has_key (ewContracts s) (skContractId input) \<or> \<not> isMobilizationProofComplete (Some (skProof input))))
       (EconomyError ''Startpaketvertrag'')
    (invariant (packageTransitionOk s input) (EconomyError ''Startpaketuebergang'')
    (applyPackage input s)))))))"

section \<open>Settlement of a period\<close>

record settlement_input =
  seCommandId :: string
  seContractId :: string
  sePeriod :: int
  seAt :: int
  sePerformance :: performance_evidence
  seCosts :: "classified_posting list"

text \<open>\<open>${contractId}:${period}\<close>.\<close>

definition settlementKey :: "string \<Rightarrow> int \<Rightarrow> string" where
  "settlementKey contractId period = contractId @ '':'' @ int_str period"

definition validateCost :: "string \<Rightarrow> classified_posting \<Rightarrow> economy_error + classified_posting" where
  "validateCost lotId posting =
     invariant (\<not> (cpAmountCents posting < 0 \<or> cpCostCentreId posting \<noteq> lotId \<or> blank (cpReference posting)))
       (EconomyError ''Kostenbuchung'')
    (bnd (money (assertNonnegativeI64 (cpAmountCents posting) ''Kostenbuchung'')) (\<lambda>_. Inr posting))"

definition periodStart :: "service_contract \<Rightarrow> tender \<Rightarrow> int \<Rightarrow> int" where
  "periodStart contract t period = js_add (scStartsAt contract) (js_mul period (tnPeriodDurationSeconds t))"

definition periodEnd :: "service_contract \<Rightarrow> tender \<Rightarrow> int \<Rightarrow> int" where
  "periodEnd contract t period = min (scEndsAt contract) (js_add (periodStart contract t period) (tnPeriodDurationSeconds t))"

text \<open>The contract, its tender and the time of the settlement.\<close>

definition settleable :: "economy_state \<Rightarrow> settlement_input \<Rightarrow> economy_error + service_contract \<times> tender" where
  "settleable s input =
     invariant (\<not> (\<not> is_safe (sePeriod input) \<or> sePeriod input < 0 \<or> \<not> is_safe (seAt input) \<or> seAt input < 0)) (EconomyError ''Vertragsperiode'')
    (invariant (settlementKey (seContractId input) (sePeriod input) \<notin> set (ewSettledPeriods s)) (EconomyError ''bereits abgerechnet'')
    (case map_of (ewContracts s) (seContractId input) of None \<Rightarrow> Inl (EconomyError ''nicht abrechenbar'') | Some contract \<Rightarrow>
     invariant (\<not> scWorldId contract \<noteq> ewWorldId s) (EconomyError ''nicht abrechenbar'')
    (case map_of (ewTenders s) (seContractId input) of None \<Rightarrow> Inl (EconomyError ''Periodendefinition'') | Some lc \<Rightarrow>
     let t = lcTender lc; start = periodStart contract t (sePeriod input); ende = periodEnd contract t (sePeriod input) in
     invariant (\<not> (tnLotId t \<noteq> scLotId contract \<or> \<not> is_safe (tnPeriodDurationSeconds t) \<or> tnPeriodDurationSeconds t \<le> 0))
       (EconomyError ''Periodendefinition'')
    (invariant (\<not> (\<not> is_safe start \<or> \<not> is_safe ende \<or> start \<ge> scEndsAt contract)) (EconomyError ''Vertragslaufzeit'')
    (invariant (\<not> seAt input < ende) (EconomyError ''Periodenende'')
    (invariant (\<not> peTrainKm (sePerformance input) > ssTrainKmPerPeriod (tnSpecification t)) (EconomyError ''Periodenleistung'')
    (Inr (contract, t))))))))"

definition settlementCosts :: "settlement_input \<Rightarrow> service_contract \<Rightarrow> economy_error + classified_posting list" where
  "settlementCosts input contract =
     bnd (map_res (validateCost (scLotId contract)) (seCosts input)) (\<lambda>validated.
     bnd (money (multiplyNonnegativeI64 (case scMandatoryVehicleCostCentsPerTrainKm contract of None \<Rightarrow> 0 | Some c \<Rightarrow> c)
           (peTrainKm (sePerformance input)) ''Verbindliche Fahrzeugkosten'')) (\<lambda>mandatory.
     Inr (if mandatory = 0 then validated else validated @
       [\<lparr>cpAmountCents = mandatory, cpCostType = Vehicle, cpCostCentreId = scLotId contract,
         cpReference = scId contract @ '':award-contingent-wet-lease:'' @ int_str (sePeriod input)\<rparr>])))"

definition settlementEvidence :: "(string \<Rightarrow> string) \<Rightarrow> economy_state \<Rightarrow> settlement_input \<Rightarrow> service_contract \<Rightarrow> tender \<Rightarrow>
    contract_settlement \<Rightarrow> economy_error + fare_evidence option" where
  "settlementEvidence sha256 s input contract t r =
     (case reFareInspection (ewRelease s) of None \<Rightarrow> Inr None | Some _ \<Rightarrow>
      bnd (buildFareContractRevenueEvidence sha256 \<lparr>feSchemaVersion = [], feWorldId = ewWorldId s, feOperatorId = scOperatorId contract,
        feContractId = scId contract, feJournalEffectId = seCommandId input @ '':settlement'',
        feEconomyReleaseHash = wpReleaseChecksum (ewReleasePin s),
        feServiceStartMs = js_mul (periodStart contract t (sePeriod input)) 1000,
        feServiceEndMs = js_mul (periodEnd contract t (sePeriod input)) 1000, feSettledAtMs = js_mul (seAt input) 1000,
        feOrderingFeeCents = int_str (csOrderingFeeCents r), feBonusCents = int_str (csBonusCents r),
        fePenaltyCents = int_str (csPenaltyCents r), feContentHash = []\<rparr>) (\<lambda>e. Inr (Some e)))"

definition settlementJournal :: "economy_state \<Rightarrow> settlement_input \<Rightarrow> service_contract \<Rightarrow> classified_posting list \<Rightarrow> int \<Rightarrow>
    fare_evidence option \<Rightarrow> journal_entry" where
  "settlementJournal s input contract costs netCents evidence =
     \<lparr>jeWorldId = ewWorldId s, jeOperatorId = scOperatorId contract, jeIdempotencyKey = seCommandId input @ '':settlement'',
      jeAt = seAt input, jeDescription = ''Vertragsabrechnung Periode '' @ int_str (sePeriod input), jePostings = costs,
      jeRevenueCents = netCents, jeContractRevenueEvidence = evidence\<rparr>"

definition settleContractPeriod ::
    "(string \<Rightarrow> string) \<Rightarrow> settlement_input \<Rightarrow> economy_state \<Rightarrow> economy_error + economy_state \<times> effects \<times> profit_and_loss" where
  "settleContractPeriod sha256 input s =
     bnd (requireNewCommand s (seCommandId input)) (\<lambda>new.
     invariant new (EconomyError ''bereits verarbeitet'')
    (bnd (settleable s input) (\<lambda>(contract, t).
     bnd (settlementCosts input contract) (\<lambda>costs.
     bnd (settleContract contract (sePerformance input)) (\<lambda>settlement.
     bnd (money (calculateProfitAndLoss (csNetCents settlement) costs)) (\<lambda>result.
     bnd (settlementEvidence sha256 s input contract t settlement) (\<lambda>evidence.
     Inr (withCommand (seCommandId input) (s\<lparr>ewSettledPeriods :=
            set_add (settlementKey (seContractId input) (sePeriod input)) (ewSettledPeriods s)\<rparr>),
          no_effects\<lparr>efJournal := [settlementJournal s input contract costs (csNetCents settlement) evidence]\<rparr>,
          result))))))))"

section \<open>Escalation and restrictions\<close>

record escalation =
  eaCommandId :: string
  eaOperatorId :: string
  eaAccountId :: string
  eaPeriod :: int
  eaAt :: int
  eaSignals :: insolvency_signals

definition channel_text :: "channel \<Rightarrow> string" where
  "channel_text c = (case c of Mailbox \<Rightarrow> ''mailbox'' | DailyReport \<Rightarrow> ''daily-report'')"

definition escalationNotice :: "escalation \<Rightarrow> string \<Rightarrow> escalation_message \<Rightarrow> economy_notice" where
  "escalationNotice input worldId m =
     \<lparr>noId = eaCommandId input @ '':'' @ channel_text (emChannel m) @ '':'' @ eaAccountId input, noWorldId = worldId,
      noRecipientAccountId = eaAccountId input, noType = emMessageType m, noAt = eaAt input,
      noPayload = VObject [(''stage'', VNumber (emStage m)), (''actions'', VArray (map VString (emActions m))),
        (''channel'', VString (channel_text (emChannel m)))]\<rparr>"

text \<open>The loop over the contracts: those of the operator are deleted and their lots run publicly.\<close>

definition takeOverLots :: "string \<Rightarrow> (string \<times> service_contract) list \<Rightarrow> (string \<times> public_operation) list \<Rightarrow>
    (string \<times> public_operation) list" where
  "takeOverLots operatorId contracts operations =
     fold (\<lambda>(i, c) m. if scOperatorId c = operatorId
         then AList.update (scLotId c) (startPublicOperation (scLotId c) []) m else m) contracts operations"

definition escalateOperator :: "escalation \<Rightarrow> economy_state \<Rightarrow> economy_error + economy_state \<times> effects \<times> insolvency_decision" where
  "escalateOperator input s =
     bnd (requireNewCommand s (eaCommandId input)) (\<lambda>new.
     invariant new (EconomyError ''bereits verarbeitet'')
    (let decision = evaluateInsolvency (eaSignals input);
         taken = idPublicOperatorTakesOver decision;
         prequalified = (case map_of (ewPrequalifications s) (eaAccountId input) of None \<Rightarrow> ewPrequalifications s
           | Some p \<Rightarrow> AList.update (eaAccountId input) (updatePrequalification p \<lparr>piFinalPerformanceBasisPoints = None,
               piMobilizationFailed = False, piInsolvencyAtPeriod = Some (eaPeriod input)\<rparr>) (ewPrequalifications s))
     in Inr (withCommand (eaCommandId input) (s\<lparr>
          ewInsolventOperators := (if idStage decision = 5 then set_add (eaOperatorId input) (ewInsolventOperators s) else ewInsolventOperators s),
          ewOperatorRestrictions := AList.update (eaOperatorId input) decision (ewOperatorRestrictions s),
          ewPrequalifications := (if idStage decision = 5 then prequalified else ewPrequalifications s),
          ewContracts := (if taken then filter (\<lambda>(i, c). scOperatorId c \<noteq> eaOperatorId input) (ewContracts s) else ewContracts s),
          ewPublicOperations := (if taken then takeOverLots (eaOperatorId input) (ewContracts s) (ewPublicOperations s)
             else ewPublicOperations s)\<rparr>),
        no_effects\<lparr>efNotices := map (escalationNotice input (ewWorldId s)) (idMessages decision)\<rparr>, decision)))"

datatype restricted_action = ActionPath | ActionCredit | ActionPurchase

definition assertOperatorActionAllowed :: "economy_state \<Rightarrow> string \<Rightarrow> restricted_action \<Rightarrow> economy_error + unit" where
  "assertOperatorActionAllowed s operatorId action =
     invariant (operatorId \<notin> set (ewInsolventOperators s)) (EconomyError ''insolvent'')
    (let blocked = (case map_of (ewOperatorRestrictions s) operatorId of None \<Rightarrow> False
        | Some r \<Rightarrow> (case action of ActionPath \<Rightarrow> idPathsBlocked r | ActionCredit \<Rightarrow> idCreditBlocked r | ActionPurchase \<Rightarrow> idPurchasesBlocked r))
     in invariant (\<not> blocked) (EconomyError ''gesperrt'') (Inr ()))"

section \<open>Effects and the end of the world\<close>

text \<open>The adapters act on a state of their own.\<close>

definition dispatchEconomyEffects ::
    "(journal_entry \<Rightarrow> 's \<Rightarrow> 'e + 's) \<Rightarrow> (economy_notice \<Rightarrow> 's \<Rightarrow> 'e + 's) \<Rightarrow> effects \<Rightarrow> 's \<Rightarrow> 'e + 's" where
  "dispatchEconomyEffects postJournal sendNotice fx s =
     bnd (fold_res postJournal (efJournal fx) s) (fold_res sendNotice (efNotices fx))"

definition closeEconomyWorld :: "string \<Rightarrow> economy_state \<Rightarrow> economy_error + economy_state" where
  "closeEconomyWorld commandId s =
     newCommand s commandId s
    (Inr (withCommand commandId (s\<lparr>ewClosed := True, ewContracts := [], ewMobilizations := [], ewTenderAutomation := [],
       ewPrequalifications := [], ewPublicOperations := [], ewOperatorRestrictions := [], ewSettledPeriods := [],
       ewOperatingRuntimeByLot := []\<rparr>)))"

end
