(* ===== verification/EconomyScheduler.thy ===== *)
theory EconomyScheduler
  imports EconomySettlement
begin

text \<open>
  The scheduled tenders and the start of a world, \<open>generateDueTenders\<close> and \<open>startEconomyWorld\<close> of
  \<open>packages/economy/src/workflow.ts\<close>. Two digests are arguments: \<open>sha256b\<close> on bytes for the random
  stream, \<open>sha256\<close> on text for the planning, beside the collation \<open>lc\<close>. A result is an option
  (\<open>None\<close>: a loop that does not end) of an error or a value.
\<close>

type_synonym 'a run = "(economy_error + 'a) option"

definition bndr :: "'a run \<Rightarrow> ('a \<Rightarrow> 'b run) \<Rightarrow> 'b run" where
  "bndr m f = (case m of None \<Rightarrow> None | Some (Inl e) \<Rightarrow> Some (Inl e) | Some (Inr x) \<Rightarrow> f x)"

lemma bndr_simps [simp]: "bndr None f = None" "bndr (Some (Inl e)) f = Some (Inl e)" "bndr (Some (Inr x)) f = f x"
  by (simp_all add: bndr_def)

lemma bndr_Some_Inr [res_simps]: "bndr m f = Some (Inr y) \<longleftrightarrow> (\<exists>x. m = Some (Inr x) \<and> f x = Some (Inr y))"
  by (auto simp: bndr_def split: option.splits sum.splits)

lemma bndr_ends: "m \<noteq> None \<Longrightarrow> (\<And>x. m = Some (Inr x) \<Longrightarrow> f x \<noteq> None) \<Longrightarrow> bndr m f \<noteq> None"
  by (auto simp: bndr_def split: option.splits sum.splits)

section \<open>One entry of the calendar\<close>

text \<open>The latest procedure of each lot, by its start of operation.\<close>

definition notePrevious :: "tender_lifecycle \<Rightarrow> (string \<times> tender_lifecycle) list \<Rightarrow> (string \<times> tender_lifecycle) list" where
  "notePrevious candidate m =
     (case map_of m (tnLotId (lcTender candidate)) of
        None \<Rightarrow> AList.update (tnLotId (lcTender candidate)) candidate m
      | Some previous \<Rightarrow> if tnOperatingFrom (lcTender candidate) > tnOperatingFrom (lcTender previous)
          then AList.update (tnLotId (lcTender candidate)) candidate m else m)"

definition previousByLot :: "economy_state \<Rightarrow> (string \<times> tender_lifecycle) list" where
  "previousByLot s = fold notePrevious (map snd (ewTenders s)) []"

text \<open>
  The period in which the next tender of a lot is announced: \<open>None\<close> is \<open>continue\<close>. A quotient that is
  no integer is refused, like a negative period.
\<close>

definition checkedPeriod :: "int \<Rightarrow> economy_error + int option" where
  "checkedPeriod announcementPeriod =
     invariant (\<not> (\<not> is_safe announcementPeriod \<or> announcementPeriod < 0)) (EconomyError ''ganze Fahrplanperiode'')
       (Inr (Some announcementPeriod))"

definition wholePeriod :: "int \<Rightarrow> int \<Rightarrow> int \<Rightarrow> economy_error + int option" where
  "wholePeriod seconds periodSeconds offset =
     invariant (seconds mod periodSeconds = 0) (EconomyError ''ganze Fahrplanperiode'')
       (checkedPeriod (seconds div periodSeconds + offset))"

definition nextAnnouncement :: "economy_state \<Rightarrow> int \<Rightarrow> tender_lifecycle option \<Rightarrow> calendar_entry \<Rightarrow> economy_error + int option" where
  "nextAnnouncement s periodSeconds previous entry =
     (case previous of
        None \<Rightarrow> checkedPeriod (ceAnnouncementPeriod entry)
      | Some lc \<Rightarrow>
          let proceed = (case map_of (ewContracts s) (tnId (lcTender lc)) of
              None \<Rightarrow> wholePeriod (tnOperatingFrom (lcTender lc)) periodSeconds
                (failedOperationRetenderPeriods - wfTenderLeadPeriods (ewProfile s))
            | Some contract \<Rightarrow> wholePeriod (scEndsAt contract) periodSeconds (- wfTenderLeadPeriods (ewProfile s)))
          in case lc of
               LcAnnounced t bids \<Rightarrow> Inr None
             | LcOpen t bids \<Rightarrow> Inr None
             | LcFailed t bids operation started \<Rightarrow> if started = Some False then Inr None else proceed
             | LcAwarded t bids winner \<Rightarrow>
                 (case map_of (ewMobilizations s) (tnId t) of
                    Some m \<Rightarrow> if mbCompleted m then proceed else Inr None
                  | None \<Rightarrow> Inr None))"

definition contractPeriodsFor :: "world_profile \<Rightarrow> int \<Rightarrow> int" where
  "contractPeriodsFor profile operatingPeriod = (case wfTotalPeriods profile of None \<Rightarrow> wfContractPeriods profile
     | Some n \<Rightarrow> min (wfContractPeriods profile) (n - operatingPeriod))"

text \<open>\<open>tender:${lotId}:${operatingPeriod}\<close>.\<close>

definition scheduledTenderId :: "string \<Rightarrow> int \<Rightarrow> string" where
  "scheduledTenderId lotId operatingPeriod = ''tender:'' @ lotId @ '':'' @ int_str operatingPeriod"

definition withPeriodBudget :: "tender_generation_policy \<Rightarrow> int \<Rightarrow> economy_state \<Rightarrow> economy_state" where
  "withPeriodBudget policy announcementPeriod s =
     (let key = budgetKey (gpAuthorityId policy) announcementPeriod in
      if has_key (ewBudgets s) key then s
      else s\<lparr>ewBudgets := AList.update key \<lparr>abAuthorityId = gpAuthorityId policy, abPeriod = announcementPeriod,
             abAvailableCents = gpAuthorityBudgetCentsPerPeriod policy, abCommittedCents = 0\<rparr> (ewBudgets s)\<rparr>)"

definition scheduledVehiclePool :: "economy_state \<Rightarrow> tender_lifecycle option \<Rightarrow> string \<Rightarrow> string list" where
  "scheduledVehiclePool s previous lotId =
     (case map_of (ewPublicOperations s) lotId of
        Some operation \<Rightarrow> pbVehiclePool operation
      | None \<Rightarrow> (case previous of None \<Rightarrow> [] | Some lc \<Rightarrow>
          (case map_of (ewTenderAutomation s) (tnId (lcTender lc)) of None \<Rightarrow> [] | Some a \<Rightarrow> taVehiclePool a)))"

definition incumbentOf :: "economy_state \<Rightarrow> string \<Rightarrow> int \<Rightarrow> string" where
  "incumbentOf s lotId operatingFrom =
     (if has_key (ewPublicOperations s) lotId then ''public''
      else case sort_by (\<lambda>a b. scEndsAt b - scEndsAt a)
               (filter (\<lambda>c. scLotId c = lotId \<and> scEndsAt c \<ge> operatingFrom) (map snd (ewContracts s))) of
             [] \<Rightarrow> ''public'' | c # cs \<Rightarrow> scOperatorId c)"

definition scheduledTender :: "economy_state \<Rightarrow> derived_service \<Rightarrow> string \<Rightarrow> int \<Rightarrow> int \<Rightarrow> int \<Rightarrow> tender_request" where
  "scheduledTender s service lotId operatingPeriod announcedAt periodSeconds =
     (let operatingFrom = operatingPeriod * periodSeconds in
      \<lparr>rqId = scheduledTenderId lotId operatingPeriod, rqWorldId = ewWorldId s, rqLotId = lotId,
       rqIncumbentOperatorId = incumbentOf s lotId operatingFrom,
       rqSpecification = dsSpecification service, rqPlanningEvidence = Some (dsEvidence service),
       rqAnnouncedAt = announcedAt, rqOpensAt = announcedAt,
       rqClosesAt = announcedAt + (if slSmallLot (dsLot service) then smallLotBidWindowSeconds else regularLotBidWindowSeconds),
       rqOperatingFrom = operatingFrom, rqContractPeriods = contractPeriodsFor (ewProfile s) operatingPeriod,
       rqPeriodDurationSeconds = periodSeconds, rqSmallLot = slSmallLot (dsLot service)\<rparr>)"

definition scheduledAnnouncement ::
    "economy_state \<Rightarrow> tender_generation_policy \<Rightarrow> tender_lifecycle option \<Rightarrow> tender_request \<Rightarrow> int \<Rightarrow> announcement" where
  "scheduledAnnouncement s policy previous request announcementPeriod =
     \<lparr>anCommandId = ''scheduler:'' @ rqId request @ '':announce'', anRelease = ewRelease s, anTender = request,
      anRecipients = sort_by compareUtf8 (map fst (ewPrequalifications s)),
      anAutomation = Some \<lparr>taAuthorityId = gpAuthorityId policy, taBudgetPeriod = announcementPeriod,
        taVehiclePool = scheduledVehiclePool s previous (rqLotId request), taRecipientByOperator = [],
        taFailurePenaltyCents = gpFailurePenaltyCents policy\<rparr>\<rparr>"

text \<open>Announces and opens a tender, on the state with the budget of the period.\<close>

definition announceAndOpen :: "(int list \<Rightarrow> int list) \<Rightarrow> tender_generation_policy \<Rightarrow> tender_lifecycle option \<Rightarrow>
    tender_request \<Rightarrow> int \<Rightarrow> economy_state \<Rightarrow> (economy_state \<times> economy_notice list) run" where
  "announceAndOpen sha256b policy previous request announcementPeriod s =
     bndr (announceTender sha256b (scheduledAnnouncement s policy previous request announcementPeriod)
             (withPeriodBudget policy announcementPeriod s)) (\<lambda>(announced, fx).
     Some (bnd (openTender (''scheduler:'' @ rqId request @ '':open:'' @ int_str (rqAnnouncedAt request)) (rqId request)
                  (rqAnnouncedAt request) announced) (\<lambda>opened.
       Inr (opened, efNotices fx))))"

section \<open>The scheduler\<close>

record generation =
  gnState :: economy_state
  gnNotices :: "economy_notice list"
  gnTransitions :: int

text \<open>
  One turn of the loop; the specifications are derived from the planning when first needed, and always
  with the same result.
\<close>

definition generateEntry :: "(string \<Rightarrow> string \<Rightarrow> int) \<Rightarrow> (string \<Rightarrow> string) \<Rightarrow> (int list \<Rightarrow> int list) \<Rightarrow>
    tender_generation_policy \<Rightarrow> planning_envelope \<Rightarrow> (string \<times> tender_lifecycle) list \<Rightarrow> int \<Rightarrow> calendar_entry \<Rightarrow>
    generation \<Rightarrow> generation run" where
  "generateEntry lc sha256 sha256b policy planning previous now entry g =
     (let s = gnState g; periodSeconds = wfPeriodWeeks (ewProfile s) * 7 * 86400; prev = map_of previous (ceLotId entry) in
      case nextAnnouncement s periodSeconds prev entry of
        Inl e \<Rightarrow> Some (Inl e)
      | Inr None \<Rightarrow> Some (Inr g)
      | Inr (Some announcementPeriod) \<Rightarrow>
         (let operatingPeriod = announcementPeriod + wfTenderLeadPeriods (ewProfile s);
              announcedAt = js_mul announcementPeriod periodSeconds; operatingFrom = js_mul operatingPeriod periodSeconds in
          if \<not> is_safe announcedAt \<or> \<not> is_safe operatingFrom then Some (Inl (EconomyError ''Vergabefrist''))
          else if announcedAt > now \<or> contractPeriodsFor (ewProfile s) operatingPeriod < 2 then Some (Inr g)
          else bndr (Some (deriveGtfsServiceSpecifications lc sha256 planning (ewWorldId s) periodSeconds)) (\<lambda>specifications.
            case map_of specifications (ceLotId entry) of
              None \<Rightarrow> Some (Inl (EconomyError ''Vergabekalender''))
            | Some service \<Rightarrow>
                bndr (announceAndOpen sha256b policy prev
                        (scheduledTender s service (ceLotId entry) operatingPeriod announcedAt periodSeconds) announcementPeriod s) (\<lambda>(opened, notices).
                Some (Inr \<lparr>gnState = opened, gnNotices = gnNotices g @ notices, gnTransitions = gnTransitions g + 2\<rparr>)))))"

fun generateEntries :: "(calendar_entry \<Rightarrow> generation \<Rightarrow> generation run) \<Rightarrow> calendar_entry list \<Rightarrow> generation \<Rightarrow> generation run" where
  "generateEntries step [] g = Some (Inr g)"
| "generateEntries step (entry # rest) g = bndr (step entry g) (generateEntries step rest)"

definition generateDueTenders :: "(string \<Rightarrow> string \<Rightarrow> int) \<Rightarrow> (string \<Rightarrow> string) \<Rightarrow> (int list \<Rightarrow> int list) \<Rightarrow> int \<Rightarrow>
    economy_state \<Rightarrow> generation run" where
  "generateDueTenders lc sha256 sha256b now s =
     (case (ewClosed s, ewTenderGeneration s) of
        (False, Some policy) \<Rightarrow>
          bndr (Some (invariant (\<not> (\<not> is_safe now \<or> now < 0)) (EconomyError ''Vergabezeit'')
                 (validateTenderGenerationPolicy policy))) (\<lambda>_.
          case ewPlanning s of
            None \<Rightarrow> Some (Inl (EconomyError ''Angebotsplan''))
          | Some planning \<Rightarrow>
              generateEntries (generateEntry lc sha256 sha256b policy planning (previousByLot s) now) (ewCalendar s)
                \<lparr>gnState = s, gnNotices = [], gnTransitions = 0\<rparr>)
      | _ \<Rightarrow> Some (Inr \<lparr>gnState = s, gnNotices = [], gnTransitions = 0\<rparr>))"

section \<open>The start of a world\<close>

record world_start =
  wsWorldId :: string
  wsSeed :: int
  wsDurationMonths :: duration
  wsRelease :: economy_release
  wsLots :: "tender_lot list option"
  wsPlanning :: "planning_envelope option"
  wsTenderGeneration :: "tender_generation_policy option"
  wsAuthorityBudgets :: "authority_budget list"
  wsAccounts :: "string list"
  wsPublicVehiclePoolByLot :: "(string \<times> string list) list"

definition calendarValue :: "calendar_entry \<Rightarrow> econ_value" where
  "calendarValue e = VObject [(''lotId'', VString (ceLotId e)), (''announcementPeriod'', VNumber (ceAnnouncementPeriod e)),
     (''tenderPeriod'', VNumber (ceTenderPeriod e)), (''initialOperator'', VString (ceInitialOperator e))]"

definition calendarNotice :: "string \<Rightarrow> calendar_entry list \<Rightarrow> string \<Rightarrow> economy_notice" where
  "calendarNotice worldId calendar recipient =
     \<lparr>noId = ''world-start:calendar:'' @ recipient, noWorldId = worldId, noRecipientAccountId = recipient,
      noType = ''tender-calendar-published'', noAt = 0, noPayload = VObject [(''calendar'', VArray (map calendarValue calendar))]\<rparr>"

text \<open>The source of the lots: exactly one of the planning and the lots of a test.\<close>

definition startLots :: "(string \<Rightarrow> string \<Rightarrow> int) \<Rightarrow> (string \<Rightarrow> string) \<Rightarrow> world_start \<Rightarrow> economy_error + tender_lot list" where
  "startLots lc sha256 input =
     bnd (case wsTenderGeneration input of None \<Rightarrow> Inr () | Some policy \<Rightarrow>
            bnd (validateTenderGenerationPolicy policy) (\<lambda>_.
            invariant (wsPlanning input \<noteq> None) (EconomyError ''Angebotsplan'') (Inr ()))) (\<lambda>_.
     case wsPlanning input of
       None \<Rightarrow> (case wsLots input of None \<Rightarrow> Inl (EconomyError ''Losquelle'') | Some lots \<Rightarrow> Inr lots)
     | Some planning \<Rightarrow> lotsFromGtfsPlanning lc sha256 planning (wsWorldId input))"

definition initialState :: "world_start \<Rightarrow> tender_lot list \<Rightarrow> calendar_entry list \<Rightarrow> economy_state" where
  "initialState input lots calendar =
     \<lparr>ewWorldId = wsWorldId input, ewClosed = False, ewSeed = wsSeed input, ewProfile = deriveWorldProfile (wsDurationMonths input),
      ewReleasePin = pinEconomyRelease (wsWorldId input) (wsRelease input), ewRelease = wsRelease input, ewLots = lots,
      ewPlanning = wsPlanning input, ewTenderGeneration = wsTenderGeneration input, ewCalendar = calendar, ewTenders = [],
      ewContracts = [], ewMobilizations = [], ewTenderAutomation = [],
      ewPublicOperations = map_from (map (\<lambda>l. (tlId l, startPublicOperation (tlId l)
        (case map_of (wsPublicVehiclePoolByLot input) (tlId l) of None \<Rightarrow> [] | Some pool \<Rightarrow> pool))) lots),
      ewBudgets = map_from (map (\<lambda>b. (budgetKey (abAuthorityId b) (abPeriod b), b)) (wsAuthorityBudgets input)),
      ewPrequalifications = map_from (map (\<lambda>a. (a, initialPrequalification (wsWorldId input) a)) (wsAccounts input)),
      ewInsolventOperators = [], ewOperatorRestrictions = [], ewSettledPeriods = [], ewProcessedCommands = [],
      ewOperatingRuntimeByLot = [], ewRevision = 0\<rparr>"

definition startEconomyWorld :: "(string \<Rightarrow> string \<Rightarrow> int) \<Rightarrow> (string \<Rightarrow> string) \<Rightarrow> (int list \<Rightarrow> int list) \<Rightarrow> world_start \<Rightarrow>
    (economy_state \<times> effects) run" where
  "startEconomyWorld lc sha256 sha256b input =
     bndr (Some (invariant (\<not> ((wsLots input = None) = (wsPlanning input = None))) (EconomyError ''Losquelle'')
            (bnd (startLots lc sha256 input) (\<lambda>lots.
             invariant (\<not> (blank (wsWorldId input) \<or> length (remdups (map tlId lots)) \<noteq> length lots)) (EconomyError ''Welt und Lose'')
            (invariant (list_all (\<lambda>(lotId, pool). \<not> (lotId \<notin> set (map tlId lots) \<or> length pool = 0 \<or> length (remdups pool) \<noteq> length pool))
               (wsPublicVehiclePoolByLot input)) (EconomyError ''Fahrzeugpool'')
            (Inr lots)))))) (\<lambda>lots.
     bndr (createTenderCalendar sha256b (deriveWorldProfile (wsDurationMonths input)) lots (wsSeed input) 0) (\<lambda>calendar.
     bndr (generateDueTenders lc sha256 sha256b 0 (initialState input lots calendar)) (\<lambda>g.
     Some (Inr ((gnState g)\<lparr>ewRevision := 0\<rparr>,
       \<lparr>efNotices = map (calendarNotice (wsWorldId input) calendar) (wsAccounts input) @ gnNotices g,
        efJournal = [], efRuntimeEvents = []\<rparr>)))))"

end
