(* ===== verification/EconomyRuns.thy ===== *)
theory EconomyRuns
  imports EconomyScheduler
begin

text \<open>
  Runs of an economy world: the commands as one type, the scheduler, and what every step keeps. A
  successful command moves at most one tender by one step of its lifecycle, charges at most one budget,
  and is remembered.
\<close>

section \<open>Commands\<close>

datatype economy_command =
    Seed string string
  | Announce announcement
  | OpenTender string string int
  | SubmitBid string string bid qualification
  | CloseTender closing
  | StartFailed failed_start
  | Reference string string string int mobilization_reference
  | CompleteMobilization completion
  | GrantPackage start_package
  | SettlePeriod settlement_input
  | Escalate escalation
  | EndWorld string

fun commandIdOf :: "economy_command \<Rightarrow> string" where
  "commandIdOf (Seed c a) = c"
| "commandIdOf (Announce input) = anCommandId input"
| "commandIdOf (OpenTender c t now) = c"
| "commandIdOf (SubmitBid c t b q) = c"
| "commandIdOf (CloseTender input) = clCommandId input"
| "commandIdOf (StartFailed input) = fsCommandId input"
| "commandIdOf (Reference c t p now r) = c"
| "commandIdOf (CompleteMobilization input) = cmCommandId input"
| "commandIdOf (GrantPackage input) = skCommandId input"
| "commandIdOf (SettlePeriod input) = seCommandId input"
| "commandIdOf (Escalate input) = eaCommandId input"
| "commandIdOf (EndWorld c) = c"

definition silently :: "economy_error + economy_state \<Rightarrow> (economy_state \<times> effects) run" where
  "silently r = Some (bnd r (\<lambda>s. Inr (s, no_effects)))"

definition withEffects :: "economy_error + economy_state \<times> effects \<times> 'a \<Rightarrow> (economy_state \<times> effects) run" where
  "withEffects r = Some (bnd r (\<lambda>(s, fx, x). Inr (s, fx)))"

fun execute :: "(int list \<Rightarrow> int list) \<Rightarrow> (string \<Rightarrow> string) \<Rightarrow> economy_command \<Rightarrow> economy_state \<Rightarrow> (economy_state \<times> effects) run" where
  "execute sha256b sha256 (Seed c a) s = silently (seedEconomyAccount c a s)"
| "execute sha256b sha256 (Announce input) s = announceTender sha256b input s"
| "execute sha256b sha256 (OpenTender c t now) s = silently (openTender c t now s)"
| "execute sha256b sha256 (SubmitBid c t b q) s = silently (submitBid c t b q s)"
| "execute sha256b sha256 (CloseTender input) s = Some (closeTender input s)"
| "execute sha256b sha256 (StartFailed input) s = Some (startFailedTenderPublicOperation input s)"
| "execute sha256b sha256 (Reference c t p now r) s = silently (submitMobilizationReference c t p now r s)"
| "execute sha256b sha256 (CompleteMobilization input) s = Some (completeMobilization input s)"
| "execute sha256b sha256 (GrantPackage input) s = Some (grantEmergencyStartPackage input s)"
| "execute sha256b sha256 (SettlePeriod input) s = withEffects (settleContractPeriod sha256 input s)"
| "execute sha256b sha256 (Escalate input) s = withEffects (escalateOperator input s)"
| "execute sha256b sha256 (EndWorld c) s = silently (closeEconomyWorld c s)"

lemma silently_Inr [res_simps]: "silently r = Some (Inr (s, fx)) \<longleftrightarrow> r = Inr s \<and> fx = no_effects"
  by (cases r) (auto simp: silently_def)

lemma withEffects_Inr [res_simps]: "withEffects r = Some (Inr (s, fx)) \<longleftrightarrow> (\<exists>x. r = Inr (s, fx, x))"
  by (cases r) (auto simp: withEffects_def split: prod.splits)

lemma newCommand_Inr [res_simps]: "newCommand s c x r = Inr y \<longleftrightarrow>
    (if c \<in> set (ewProcessedCommands s) then y = x else \<not> ewClosed s \<and> r = Inr y)"
  by (auto simp: newCommand_def requireNewCommand_def bnd_Inr invariant_Inr)

lemma case_option_Inr [res_simps]: "(case x of None \<Rightarrow> Inl e | Some v \<Rightarrow> f v) = Inr y \<longleftrightarrow> (\<exists>v. x = Some v \<and> f v = Inr y)"
  by (cases x) auto

lemma case_lifecycle_Inr [res_simps]:
  "(case lc of LcAnnounced t bs \<Rightarrow> f t bs | LcOpen t' bs' \<Rightarrow> Inl e1 | LcAwarded t'' bs'' w \<Rightarrow> Inl e2 | LcFailed t3 bs3 op st \<Rightarrow> Inl e3) = Inr y
    \<longleftrightarrow> (\<exists>t bs. lc = LcAnnounced t bs \<and> f t bs = Inr y)"
  "(case lc of LcAnnounced t bs \<Rightarrow> Inl e1 | LcOpen t' bs' \<Rightarrow> g t' bs' | LcAwarded t'' bs'' w \<Rightarrow> Inl e2 | LcFailed t3 bs3 op st \<Rightarrow> Inl e3) = Inr y
    \<longleftrightarrow> (\<exists>t bs. lc = LcOpen t bs \<and> g t bs = Inr y)"
  "(case lc of LcAnnounced t bs \<Rightarrow> Inl e1 | LcOpen t' bs' \<Rightarrow> Inl e2 | LcAwarded t'' bs'' w \<Rightarrow> h t'' bs'' w | LcFailed t3 bs3 op st \<Rightarrow> Inl e3) = Inr y
    \<longleftrightarrow> (\<exists>t bs w. lc = LcAwarded t bs w \<and> h t bs w = Inr y)"
  "(case lc of LcAnnounced t bs \<Rightarrow> Inl e1 | LcOpen t' bs' \<Rightarrow> Inl e2 | LcAwarded t'' bs'' w \<Rightarrow> Inl e3 | LcFailed t3 bs3 op st \<Rightarrow> k t3 bs3 op st) = Inr y
    \<longleftrightarrow> (\<exists>t bs op st. lc = LcFailed t bs op st \<and> k t bs op st = Inr y)"
  by (cases lc; auto)+

section \<open>What a command leaves alone\<close>

text \<open>The fields fixed at the start of a world.\<close>

definition same_world :: "economy_state \<Rightarrow> economy_state \<Rightarrow> bool" where
  "same_world s s' \<longleftrightarrow> ewWorldId s' = ewWorldId s \<and> ewSeed s' = ewSeed s \<and> ewProfile s' = ewProfile s \<and>
     ewReleasePin s' = ewReleasePin s \<and> ewRelease s' = ewRelease s \<and> ewLots s' = ewLots s \<and> ewPlanning s' = ewPlanning s \<and>
     ewTenderGeneration s' = ewTenderGeneration s \<and> ewCalendar s' = ewCalendar s"

text \<open>A command that has taken effect: \<open>s1\<close> is the changed state before the command is noted.\<close>

definition took_effect :: "string \<Rightarrow> economy_state \<Rightarrow> economy_state \<Rightarrow> bool" where
  "took_effect c s s' \<longleftrightarrow> c \<notin> set (ewProcessedCommands s) \<and> \<not> ewClosed s \<and> same_world s s' \<and>
     ewProcessedCommands s' = ewProcessedCommands s @ [c] \<and> ewRevision s' = ewRevision s + 1"

lemma took_effectI:
  assumes "c \<notin> set (ewProcessedCommands s)" "\<not> ewClosed s" "same_world s s1"
    and "ewProcessedCommands s1 = ewProcessedCommands s" "ewRevision s1 = ewRevision s"
  shows "took_effect c s (withCommand c s1)"
  using assms by (simp add: took_effect_def same_world_def withCommand_def set_add_def)

section \<open>The lifecycle of a tender\<close>

text \<open>The steps of the lifecycle, with their guards.\<close>

inductive lifecycle_step :: "string \<Rightarrow> tender_lifecycle option \<Rightarrow> tender_lifecycle \<Rightarrow> bool" where
  announce: "lifecycle_step i None (LcAnnounced t [])"
    if "createTender base release smallLot = Inr t" "tnId t = i"
| opens: "lifecycle_step i (Some (LcAnnounced t bids)) (LcOpen t bids)"
| bids: "lifecycle_step i (Some (LcOpen t bids)) (LcOpen t (bids @ [b]))"
    if "tnOpensAt t \<le> bdSubmittedAt b" "bdSubmittedAt b \<le> tnClosesAt t" "bdOperatorId b \<notin> bdOperatorId ` set bids"
      "scoreBid t b = Inr points"
| awards: "lifecycle_step i (Some (LcOpen t bids)) (LcAwarded t bids w)"
    if "awardTender t bids (tnClosesAt t) = Inr a" "awWinner a = Some w"
| fails: "lifecycle_step i (Some (LcOpen t bids)) (LcFailed t bids operation (Some started))"
    if "awardTender t bids (tnClosesAt t) = Inr a" "awWinner a = None"
| starts: "lifecycle_step i (Some (LcFailed t bids operation started)) (LcFailed t bids operation (Some True))"
    if "started \<noteq> Some True"

text \<open>At most one tender moves, by one step.\<close>

definition tender_moves :: "economy_state \<Rightarrow> economy_state \<Rightarrow> bool" where
  "tender_moves s s' \<longleftrightarrow> ewTenders s' = ewTenders s \<or>
     (\<exists>i lc. lifecycle_step i (map_of (ewTenders s) i) lc \<and> ewTenders s' = AList.update i lc (ewTenders s))"

lemma tender_movesI: "lifecycle_step i (map_of (ewTenders s) i) lc \<Longrightarrow> ewTenders s' = AList.update i lc (ewTenders s) \<Longrightarrow> tender_moves s s'"
  by (auto simp: tender_moves_def)

lemma tender_moves_refl: "ewTenders s' = ewTenders s \<Longrightarrow> tender_moves s s'"
  by (simp add: tender_moves_def)

lemma withCommand_fields [simp]:
  "ewTenders (withCommand c s) = ewTenders s" "ewBudgets (withCommand c s) = ewBudgets s"
  "ewSettledPeriods (withCommand c s) = ewSettledPeriods s" "ewContracts (withCommand c s) = ewContracts s"
  "ewMobilizations (withCommand c s) = ewMobilizations s" "ewClosed (withCommand c s) = ewClosed s"
  "ewWorldId (withCommand c s) = ewWorldId s" "ewInsolventOperators (withCommand c s) = ewInsolventOperators s"
  "ewOperatorRestrictions (withCommand c s) = ewOperatorRestrictions s"
  "ewPublicOperations (withCommand c s) = ewPublicOperations s"
  "ewPrequalifications (withCommand c s) = ewPrequalifications s"
  "ewTenderAutomation (withCommand c s) = ewTenderAutomation s"
  "ewOperatingRuntimeByLot (withCommand c s) = ewOperatingRuntimeByLot s"
  by (simp_all add: withCommand_def)

section \<open>Charges to budgets\<close>

text \<open>The cost of a decision: that of the winner, or of the public operation.\<close>

definition decisionCost :: "closing \<Rightarrow> economy_state \<Rightarrow> int" where
  "decisionCost input s = (case map_of (ewTenders s) (clTenderId input) of
       Some (LcOpen t bids) \<Rightarrow> (case awardTender t bids (clAt input) of
          Inr a \<Rightarrow> (case awWinner a of Some w \<Rightarrow> expectedCostOf t w | None \<Rightarrow> publicCostOf t (reRules (ewRelease s)))
        | Inl e \<Rightarrow> 0)
     | _ \<Rightarrow> 0)"

text \<open>The charge of a command, as budget key and amount.\<close>

definition charges :: "economy_command \<Rightarrow> economy_state \<Rightarrow> (string \<times> int) list" where
  "charges c s = (case c of
       CloseTender input \<Rightarrow> if clCommandId input \<in> set (ewProcessedCommands s) then []
         else [(budgetKey (clAuthorityId input) (clBudgetPeriod input), decisionCost input s)]
     | _ \<Rightarrow> [])"

definition charged :: "(string \<times> authority_budget) list \<Rightarrow> string \<times> int \<Rightarrow> (string \<times> authority_budget) list \<Rightarrow> bool" where
  "charged m c m' \<longleftrightarrow> (\<exists>b. map_of m (fst c) = Some b \<and> 0 \<le> snd c \<and> abCommittedCents b + snd c \<le> abAvailableCents b \<and>
     m' = AList.update (fst c) (b\<lparr>abCommittedCents := abCommittedCents b + snd c\<rparr>) m)"

definition budgets_move :: "economy_state \<Rightarrow> (string \<times> int) list \<Rightarrow> economy_state \<Rightarrow> bool" where
  "budgets_move s cs s' \<longleftrightarrow> (case cs of [] \<Rightarrow> ewBudgets s' = ewBudgets s | c # _ \<Rightarrow> charged (ewBudgets s) c (ewBudgets s'))"

section \<open>Journals\<close>

text \<open>The keys of the journal entries of a command, and the periods it settles.\<close>

definition journalKeys :: "string \<Rightarrow> string list" where
  "journalKeys c = [c @ '':settlement'', c @ '':penalty'']"

definition settledKey :: "economy_command \<Rightarrow> string list" where
  "settledKey c = (case c of SettlePeriod input \<Rightarrow> [settlementKey (seContractId input) (sePeriod input)] | _ \<Rightarrow> [])"

definition journals_ok :: "economy_command \<Rightarrow> economy_state \<Rightarrow> effects \<Rightarrow> economy_state \<Rightarrow> bool" where
  "journals_ok c s fx s' \<longleftrightarrow> length (efJournal fx) \<le> 1 \<and>
     (\<forall>j \<in> set (efJournal fx). jeWorldId j = ewWorldId s \<and> jeIdempotencyKey j \<in> set (journalKeys (commandIdOf c))) \<and>
     (\<forall>k \<in> set (settledKey c). k \<notin> set (ewSettledPeriods s)) \<and>
     (ewClosed s' \<or> ewSettledPeriods s' = ewSettledPeriods s @ settledKey c)"

section \<open>One command\<close>

definition step_ok :: "economy_command \<Rightarrow> economy_state \<Rightarrow> effects \<Rightarrow> economy_state \<Rightarrow> bool" where
  "step_ok c s fx s' \<longleftrightarrow> took_effect (commandIdOf c) s s' \<and> tender_moves s s' \<and> budgets_move s (charges c s) s' \<and> journals_ok c s fx s'"

text \<open>A change outside budgets and settlements.\<close>

definition framed :: "economy_state \<Rightarrow> economy_state \<Rightarrow> bool" where
  "framed s s1 \<longleftrightarrow> same_world s s1 \<and> ewProcessedCommands s1 = ewProcessedCommands s \<and> ewRevision s1 = ewRevision s \<and>
     ewClosed s1 = ewClosed s \<and> ewBudgets s1 = ewBudgets s \<and> ewSettledPeriods s1 = ewSettledPeriods s"

lemmas step_defs = step_ok_def same_world_def budgets_move_def charges_def journals_ok_def settledKey_def no_effects_def

lemma seed_step:
  assumes "seedEconomyAccount c a s = Inr s'" "c \<notin> set (ewProcessedCommands s)"
  shows "step_ok (Seed c a) s no_effects s'"
proof -
  obtain s1 where "s' = withCommand c s1" "s1 = s \<or> (\<exists>m. s1 = s\<lparr>ewPrequalifications := m\<rparr>)" "\<not> ewClosed s"
    using assms unfolding seedEconomyAccount_def by (auto simp: newCommand_Inr invariant_Inr split: option.splits)
  then show ?thesis
    using assms(2) by (auto simp: step_defs intro!: took_effectI tender_moves_refl)
qed

lemma announce_step:
  assumes "announceTender sha256b input s = Some (Inr (s', fx))" "anCommandId input \<notin> set (ewProcessedCommands s)"
  shows "step_ok (Announce input) s fx s'"
proof -
  obtain i ps where a: "announceWith input i ps s = Inr (s', fx)" and cl: "\<not> ewClosed s"
    and new: "map_of (ewTenders s) (rqId (anTender input)) = None"
    using assms unfolding announceTender_def
    by (auto simp: requireNewCommand_def invariant_Inr bnd_Inr has_key_def split: if_splits sum.splits option.splits bool.splits)
  then obtain t m where t: "createTender (withProfile (anTender input) (ps ! (i mod length ps))) (anRelease input) (rqSmallLot (anTender input)) = Inr t"
    and s': "s' = withCommand (anCommandId input) (s\<lparr>ewTenders := AList.update (tnId t) (LcAnnounced t []) (ewTenders s), ewTenderAutomation := m\<rparr>)"
    and j: "efJournal fx = []"
    unfolding announceWith_def by (auto simp: res_simps no_effects_def)
  have "tnId t = rqId (anTender input)"
    using t by (auto simp: createTender_def Let_def res_simps withProfile_def tender_base.defs tender.defs)
  then have "lifecycle_step (tnId t) (map_of (ewTenders s) (tnId t)) (LcAnnounced t [])"
    using new t by (simp add: lifecycle_step.announce)
  then show ?thesis using assms(2) cl j unfolding s'
    by (auto simp: step_defs intro!: took_effectI tender_movesI)
qed

lemma lifecycleOf_Inr [res_simps]: "lifecycleOf s i = Inr lc \<longleftrightarrow> map_of (ewTenders s) i = Some lc"
  by (auto simp: lifecycleOf_def split: option.splits)

lemma open_step:
  assumes "openTender c i now s = Inr s'" "c \<notin> set (ewProcessedCommands s)"
  shows "step_ok (OpenTender c i now) s no_effects s'"
proof -
  obtain t bs where "map_of (ewTenders s) i = Some (LcAnnounced t bs)" and cl: "\<not> ewClosed s"
    and s': "s' = withCommand c (s\<lparr>ewTenders := AList.update i (LcOpen t bs) (ewTenders s)\<rparr>)"
    using assms unfolding openTender_def by (auto simp: res_simps)
  then have "lifecycle_step i (map_of (ewTenders s) i) (LcOpen t bs)" by (simp add: lifecycle_step.opens)
  then show ?thesis using assms(2) cl unfolding s' by (auto simp: step_defs intro!: took_effectI tender_movesI)
qed

lemma bid_step:
  assumes "submitBid c i b q s = Inr s'" "c \<notin> set (ewProcessedCommands s)"
  shows "step_ok (SubmitBid c i b q) s no_effects s'"
proof -
  have "\<exists>t bs p s1. map_of (ewTenders s) i = Some (LcOpen t bs) \<and> \<not> ewClosed s \<and> tnOpensAt t \<le> bdSubmittedAt b \<and>
      bdSubmittedAt b \<le> tnClosesAt t \<and> (\<forall>x \<in> set bs. bdOperatorId x \<noteq> bdOperatorId b) \<and> scoreBid t b = Inr p \<and>
      s' = withCommand c s1 \<and> framed s s1 \<and> ewTenders s1 = AList.update i (LcOpen t (bs @ [b])) (ewTenders s)"
    using assms unfolding submitBid_def
    by (auto simp: res_simps not_less framed_def same_world_def) (rule exI, rule conjI, rule refl, simp)
  then obtain t bs p s1 where l: "map_of (ewTenders s) i = Some (LcOpen t bs)" and cl: "\<not> ewClosed s"
    and g: "tnOpensAt t \<le> bdSubmittedAt b" "bdSubmittedAt b \<le> tnClosesAt t" "\<forall>x \<in> set bs. bdOperatorId x \<noteq> bdOperatorId b" "scoreBid t b = Inr p"
    and s': "s' = withCommand c s1" "framed s s1" "ewTenders s1 = AList.update i (LcOpen t (bs @ [b])) (ewTenders s)"
    by metis
  have "lifecycle_step i (map_of (ewTenders s) i) (LcOpen t (bs @ [b]))"
    unfolding l by (rule lifecycle_step.bids [OF g(1,2) _ g(4)]) (use g(3) in force)
  then show ?thesis using assms(2) cl s'(2,3) unfolding s'(1) by (auto simp: step_defs framed_def intro!: took_effectI tender_movesI)
qed

lemma commitBudget_Inr: "commitBudget input amount s = Inr m \<Longrightarrow>
    charged (ewBudgets s) (budgetKey (clAuthorityId input) (clBudgetPeriod input), amount) m"
  by (auto simp: commitBudget_def charged_def commitAuthorityBudget_def res_simps Let_def split: option.splits)

lemma close_step:
  assumes "closeTender input s = Inr (s', fx)" "clCommandId input \<notin> set (ewProcessedCommands s)"
  shows "step_ok (CloseTender input) s fx s'"
proof -
  obtain t bs a where l: "map_of (ewTenders s) (clTenderId input) = Some (LcOpen t bs)" and cl: "\<not> ewClosed s"
    and time: "clAt input = tnClosesAt t" and a: "awardTender t bs (tnClosesAt t) = Inr a"
    and r: "(case awWinner a of None \<Rightarrow> closeFailed input t bs s | Some w \<Rightarrow> closeAwarded input t bs w s) = Inr (s', fx)"
    using assms unfolding closeTender_def by (auto simp: res_simps)
  show ?thesis
  proof (cases "awWinner a")
    case None
    then obtain m po st where m: "commitBudget input (publicCostOf t (reRules (ewRelease s))) s = Inr m" and fx: "efJournal fx = []"
      and s': "s' = withCommand (clCommandId input) (s\<lparr>ewBudgets := m, ewPublicOperations := po,
        ewTenders := AList.update (clTenderId input) (LcFailed t bs (startPublicOperation (tnLotId t) (clVehiclePool input)) (Some st)) (ewTenders s)\<rparr>)"
      using r unfolding closeFailed_def Let_def by (auto simp: res_simps no_effects_def)
    have "lifecycle_step (clTenderId input) (map_of (ewTenders s) (clTenderId input))
        (LcFailed t bs (startPublicOperation (tnLotId t) (clVehiclePool input)) (Some st))"
      unfolding l by (rule lifecycle_step.fails [OF a None])
    moreover have "decisionCost input s = publicCostOf t (reRules (ewRelease s))"
      by (simp add: decisionCost_def l time a None)
    ultimately show ?thesis using assms(2) cl fx commitBudget_Inr [OF m] unfolding s'
      by (auto simp: step_defs intro!: took_effectI tender_movesI)
  next
    case (Some w)
    then obtain m mm where m: "commitBudget input (expectedCostOf t w) s = Inr m" and fx: "efJournal fx = []"
      and s': "s' = withCommand (clCommandId input) (s\<lparr>ewBudgets := m,
        ewTenders := AList.update (clTenderId input) (LcAwarded t bs w) (ewTenders s), ewMobilizations := mm\<rparr>)"
      using r unfolding closeAwarded_def by (auto simp: res_simps no_effects_def)
    have "lifecycle_step (clTenderId input) (map_of (ewTenders s) (clTenderId input)) (LcAwarded t bs w)"
      unfolding l by (rule lifecycle_step.awards [OF a Some])
    moreover have "decisionCost input s = expectedCostOf t w"
      by (simp add: decisionCost_def l time a Some)
    ultimately show ?thesis using assms(2) cl fx commitBudget_Inr [OF m] unfolding s'
      by (auto simp: step_defs intro!: took_effectI tender_movesI)
  qed
qed

lemma failed_start_step:
  assumes "startFailedTenderPublicOperation input s = Inr (s', fx)" "fsCommandId input \<notin> set (ewProcessedCommands s)"
  shows "step_ok (StartFailed input) s fx s'"
proof -
  obtain t bs op st po rt where l: "map_of (ewTenders s) (fsTenderId input) = Some (LcFailed t bs op st)" and cl: "\<not> ewClosed s"
    and st: "st \<noteq> Some True" and fx: "efJournal fx = []"
    and s': "s' = withCommand (fsCommandId input) (s\<lparr>ewTenders := AList.update (fsTenderId input) (LcFailed t bs op (Some True)) (ewTenders s),
      ewPublicOperations := po, ewOperatingRuntimeByLot := rt\<rparr>)"
    using assms unfolding startFailedTenderPublicOperation_def by (auto simp: res_simps no_effects_def)
  have "lifecycle_step (fsTenderId input) (map_of (ewTenders s) (fsTenderId input)) (LcFailed t bs op (Some True))"
    unfolding l by (rule lifecycle_step.starts [OF st])
  then show ?thesis using assms(2) cl fx unfolding s' by (auto simp: step_defs intro!: took_effectI tender_movesI)
qed

lemma reference_step:
  assumes "submitMobilizationReference c i p now r s = Inr s'" "c \<notin> set (ewProcessedCommands s)"
  shows "step_ok (Reference c i p now r) s no_effects s'"
proof -
  obtain m where cl: "\<not> ewClosed s" and s': "s' = withCommand c (s\<lparr>ewMobilizations := m\<rparr>)"
    using assms unfolding submitMobilizationReference_def
    by (auto simp: res_simps split: option.split_asm)
  then show ?thesis using assms(2) by (auto simp: step_defs intro!: took_effectI tender_moves_refl)
qed

lemma completion_step:
  assumes "completeMobilization input s = Inr (s', fx)" "cmCommandId input \<notin> set (ewProcessedCommands s)"
  shows "step_ok (CompleteMobilization input) s fx s'"
proof -
  obtain t w m where cl: "\<not> ewClosed s" and r: "applyTransition input t w m s = Inr (s', fx)"
    using assms unfolding completeMobilization_def Let_def
    by (auto simp: res_simps split: option.split_asm)
  have "\<exists>s1. s' = withCommand (cmCommandId input) s1 \<and> framed s s1 \<and> ewTenders s1 = ewTenders s"
    using r unfolding applyTransition_def Let_def by (auto simp: res_simps framed_def same_world_def split: if_splits)
  then obtain s1 where s': "s' = withCommand (cmCommandId input) s1" and q: "framed s s1" "ewTenders s1 = ewTenders s" by blast
  have "efJournal fx = [] \<or> (\<exists>j. efJournal fx = [j] \<and> jeWorldId j = ewWorldId s \<and> jeIdempotencyKey j = cmCommandId input @ '':penalty'')"
    using r unfolding applyTransition_def Let_def
    by (auto simp: res_simps failedMobilizationEffects_def no_effects_def split: if_splits)
  then show ?thesis using assms(2) cl q unfolding s'
    by (auto simp: step_defs framed_def journalKeys_def intro!: took_effectI tender_moves_refl)
qed

lemma package_step:
  assumes "grantEmergencyStartPackage input s = Inr (s', fx)" "skCommandId input \<notin> set (ewProcessedCommands s)"
  shows "step_ok (GrantPackage input) s fx s'"
proof -
  have cl: "\<not> ewClosed s" and r: "applyPackage input s = Inr (s', fx)"
    using assms unfolding grantEmergencyStartPackage_def by (auto simp: res_simps)
  from r obtain co po pq rt where s': "s' = withCommand (skCommandId input) (s\<lparr>ewContracts := co, ewPublicOperations := po,
      ewPrequalifications := pq, ewOperatingRuntimeByLot := rt\<rparr>)" and fx: "efJournal fx = []"
    unfolding applyPackage_def Let_def by (auto simp: res_simps)
  show ?thesis using assms(2) cl fx unfolding s' by (auto simp: step_defs intro!: took_effectI tender_moves_refl)
qed

lemma settle_step:
  assumes "settleContractPeriod sha256 input s = Inr (s', fx, r)"
  shows "step_ok (SettlePeriod input) s fx s'"
proof -
  let ?k = "settlementKey (seContractId input) (sePeriod input)"
  obtain j where n: "seCommandId input \<notin> set (ewProcessedCommands s)" "\<not> ewClosed s" and k: "?k \<notin> set (ewSettledPeriods s)"
    and s': "s' = withCommand (seCommandId input) (s\<lparr>ewSettledPeriods := ewSettledPeriods s @ [?k]\<rparr>)"
    and fx: "efJournal fx = [j]" "jeWorldId j = ewWorldId s" "jeIdempotencyKey j = seCommandId input @ '':settlement''"
    using assms unfolding settleContractPeriod_def
    by (auto simp: res_simps requireNewCommand_def settleable_def set_add_def settlementJournal_def no_effects_def split: if_splits)
  show ?thesis using n k fx unfolding s' by (auto simp: step_defs journalKeys_def intro!: took_effectI tender_moves_refl)
qed

lemma escalate_step:
  assumes "escalateOperator input s = Inr (s', fx, d)"
  shows "step_ok (Escalate input) s fx s'"
proof -
  have n: "eaCommandId input \<notin> set (ewProcessedCommands s)" "\<not> ewClosed s" and fx: "efJournal fx = []"
    using assms unfolding escalateOperator_def Let_def
    by (auto simp: res_simps requireNewCommand_def no_effects_def split: if_splits)
  have "\<exists>s1. withCommand (eaCommandId input) s1 = s' \<and> framed s s1 \<and> ewTenders s1 = ewTenders s"
    using assms unfolding escalateOperator_def Let_def
    by (auto simp: bnd_Inr invariant_Inr framed_def same_world_def split del: if_split)
  then obtain s1 where s': "s' = withCommand (eaCommandId input) s1" "framed s s1" "ewTenders s1 = ewTenders s" by blast
  then show ?thesis using n fx unfolding s'(1) by (auto simp: step_defs framed_def intro!: took_effectI tender_moves_refl)
qed

lemma end_step:
  assumes "closeEconomyWorld c s = Inr s'" "c \<notin> set (ewProcessedCommands s)"
  shows "step_ok (EndWorld c) s no_effects s'"
proof -
  have "\<not> ewClosed s" and s': "s' = withCommand c (s\<lparr>ewClosed := True, ewContracts := [], ewMobilizations := [], ewTenderAutomation := [],
       ewPrequalifications := [], ewPublicOperations := [], ewOperatorRestrictions := [], ewSettledPeriods := [],
       ewOperatingRuntimeByLot := []\<rparr>)"
    using assms unfolding closeEconomyWorld_def by (auto simp: res_simps)
  then show ?thesis using assms(2) unfolding s' by (auto simp: step_defs intro!: took_effectI tender_moves_refl)
qed

lemmas step_lemmas = seed_step announce_step open_step bid_step close_step failed_start_step reference_step completion_step
  package_step settle_step escalate_step end_step

lemma command_step:
  assumes "execute sha256b sha256 c s = Some (Inr (s', fx))" and "commandIdOf c \<notin> set (ewProcessedCommands s)"
  shows "step_ok c s fx s'"
  using assms by (cases c) (auto simp: res_simps intro: step_lemmas)

end
