(* ===== verification/EconomyInvariants.thy ===== *)
theory EconomyInvariants
  imports EconomyRuns "HOL-Library.Sublist"
begin

text \<open>
  Invariants of an economy world over all runs of commands and of the scheduler: commands take effect
  once, tenders move forward through their lifecycle, budgets are never overdrawn, journal entries have
  keys of their own and a contract period is settled once.
\<close>

section \<open>Commands take effect once\<close>

lemma command_repeated:
  assumes "commandIdOf c \<in> set (ewProcessedCommands s)"
  shows "execute sha256b sha256 c s \<in> {Some (Inr (s, no_effects))} \<union> range (\<lambda>e. Some (Inl e))"
proof -
  have r: "requireNewCommand s (commandIdOf c) = Inr False" using assms by (simp add: requireNewCommand_def)
  then have n: "newCommand s (commandIdOf c) x k = Inr x" for x :: 'a and k by (simp add: newCommand_def)
  show ?thesis using r
    by (cases c) (auto simp: newCommand_def silently_def withEffects_def seedEconomyAccount_def announceTender_def openTender_def
      submitBid_def closeTender_def startFailedTenderPublicOperation_def submitMobilizationReference_def completeMobilization_def
      grantEmergencyStartPackage_def settleContractPeriod_def escalateOperator_def closeEconomyWorld_def)
qed

lemma closed_refuses:
  assumes "ewClosed s" "commandIdOf c \<notin> set (ewProcessedCommands s)"
  shows "execute sha256b sha256 c s \<in> range (\<lambda>e. Some (Inl e))"
proof -
  have r: "requireNewCommand s (commandIdOf c) = Inl (EconomyError ''geschlossen'')" using assms by (simp add: requireNewCommand_def)
  show ?thesis using r
    by (cases c) (auto simp: newCommand_def silently_def withEffects_def seedEconomyAccount_def announceTender_def openTender_def
      submitBid_def closeTender_def startFailedTenderPublicOperation_def submitMobilizationReference_def completeMobilization_def
      grantEmergencyStartPackage_def settleContractPeriod_def escalateOperator_def closeEconomyWorld_def)
qed

text \<open>The shuffle of the profiles ends.\<close>

definition small_catalogue :: "economy_command \<Rightarrow> bool" where
  "small_catalogue c \<longleftrightarrow> (case c of Announce input \<Rightarrow> length (reTenderProfiles (anRelease input)) < 2 ^ 64 | _ \<Rightarrow> True)"

lemma profileOrder_ends: "length ps < 2 ^ 64 \<Longrightarrow> deterministicProfileOrder sha256b ps seed period \<noteq> None"
proof -
  assume "length ps < 2 ^ 64"
  then have "length (sort_by compareProfile ps) < 2 ^ 64" by simp
  then have "shuffle (sort_by compareProfile ps) st \<noteq> None" for st
    by (rule shuffle_permutes [of "sort_by compareProfile ps" st]) simp
  then show ?thesis by (auto simp: deterministicProfileOrder_def split: sum.splits)
qed

lemma announce_ends: "length (reTenderProfiles (anRelease input)) < 2 ^ 64 \<Longrightarrow> announceTender sha256b input s \<noteq> None"
  using profileOrder_ends [of "reTenderProfiles (anRelease input)" sha256b "ewSeed s" "announcementIndex (anTender input)"]
  unfolding announceTender_def by (auto split: sum.splits bool.splits option.splits)

lemma command_ends: "small_catalogue c \<Longrightarrow> execute sha256b sha256 c s \<noteq> None"
  using announce_ends by (cases c) (auto simp: small_catalogue_def silently_def withEffects_def)

text \<open>C30: Every command ends. When it succeeds it either is a repetition, which changes nothing and has no effects, or it
  is new: then the world was not closed, its fixed data stay, the command is remembered, the revision grows by one, and any
  command with the same identifier is from then on a repetition or refused. In a closed world every new command is refused.\<close>

theorem commands_take_effect_once:
  assumes "small_catalogue c"
  shows "(case execute sha256b sha256 c s of
      None \<Rightarrow> False
    | Some (Inl e) \<Rightarrow> True
    | Some (Inr (s', fx)) \<Rightarrow>
        if commandIdOf c \<in> set (ewProcessedCommands s) then s' = s \<and> fx = no_effects
        else \<not> ewClosed s \<and> same_world s s' \<and> ewProcessedCommands s' = ewProcessedCommands s @ [commandIdOf c] \<and>
          ewRevision s' = ewRevision s + 1 \<and>
          (\<forall>d. commandIdOf d = commandIdOf c \<longrightarrow>
             execute sha256b sha256 d s' \<in> {Some (Inr (s', no_effects))} \<union> range (\<lambda>e. Some (Inl e)))) \<and>
    (ewClosed s \<and> commandIdOf c \<notin> set (ewProcessedCommands s) \<longrightarrow> execute sha256b sha256 c s \<in> range (\<lambda>e. Some (Inl e)))"
proof -
  have once: "if commandIdOf c \<in> set (ewProcessedCommands s) then s' = s \<and> fx = no_effects
        else \<not> ewClosed s \<and> same_world s s' \<and> ewProcessedCommands s' = ewProcessedCommands s @ [commandIdOf c] \<and>
          ewRevision s' = ewRevision s + 1 \<and>
          (\<forall>d. commandIdOf d = commandIdOf c \<longrightarrow>
             execute sha256b sha256 d s' \<in> {Some (Inr (s', no_effects))} \<union> range (\<lambda>e. Some (Inl e)))"
    if x: "execute sha256b sha256 c s = Some (Inr (s', fx))" for s' fx
  proof (cases "commandIdOf c \<in> set (ewProcessedCommands s)")
    case True
    then show ?thesis using command_repeated [OF True, of sha256b sha256] x by auto
  next
    case False
    then have t: "took_effect (commandIdOf c) s s'" using command_step [OF x] by (simp add: step_ok_def)
    then have "commandIdOf c \<in> set (ewProcessedCommands s')" by (simp add: took_effect_def)
    then show ?thesis using False t command_repeated [of _ s' sha256b sha256] by (simp add: took_effect_def)
  qed
  have main: "case execute sha256b sha256 c s of None \<Rightarrow> False | Some (Inl e) \<Rightarrow> True
    | Some (Inr (s', fx)) \<Rightarrow> if commandIdOf c \<in> set (ewProcessedCommands s) then s' = s \<and> fx = no_effects
        else \<not> ewClosed s \<and> same_world s s' \<and> ewProcessedCommands s' = ewProcessedCommands s @ [commandIdOf c] \<and>
          ewRevision s' = ewRevision s + 1 \<and>
          (\<forall>d. commandIdOf d = commandIdOf c \<longrightarrow>
             execute sha256b sha256 d s' \<in> {Some (Inr (s', no_effects))} \<union> range (\<lambda>e. Some (Inl e)))"
  proof (cases "execute sha256b sha256 c s")
    case None
    then show ?thesis using command_ends [OF assms] by blast
  next
    case (Some r)
    show ?thesis
    proof (cases r)
      case (Inr b)
      with Some have x: "execute sha256b sha256 c s = Some (Inr (fst b, snd b))" by simp
      show ?thesis unfolding x option.case sum.case prod.case by (rule once [OF x])
    qed (simp add: Some)
  qed
  then show ?thesis using closed_refuses [of s c sha256b sha256] by (intro conjI impI main) simp_all
qed

section \<open>Runs\<close>

text \<open>What a run has done: the charges to budgets, the journal entries and the settlements.\<close>

record history =
  hiCharges :: "(string \<times> int) list"
  hiJournal :: "journal_entry list"
  hiSettled :: "string list"

definition empty_history :: history where
  "empty_history = \<lparr>hiCharges = [], hiJournal = [], hiSettled = []\<rparr>"

definition extend_history :: "history \<Rightarrow> economy_command \<Rightarrow> economy_state \<Rightarrow> effects \<Rightarrow> history" where
  "extend_history h c s fx = \<lparr>hiCharges = hiCharges h @ charges c s, hiJournal = hiJournal h @ efJournal fx,
     hiSettled = hiSettled h @ (if commandIdOf c \<in> set (ewProcessedCommands s) then [] else settledKey c)\<rparr>"

lemma extend_history_fields [simp]:
  "hiCharges (extend_history h c s fx) = hiCharges h @ charges c s"
  "hiJournal (extend_history h c s fx) = hiJournal h @ efJournal fx"
  "hiSettled (extend_history h c s fx) = hiSettled h @ (if commandIdOf c \<in> set (ewProcessedCommands s) then [] else settledKey c)"
  by (simp_all add: extend_history_def)

lemma empty_history_fields [simp]: "hiCharges empty_history = []" "hiJournal empty_history = []" "hiSettled empty_history = []"
  by (simp_all add: empty_history_def)

inductive economy_run :: "(string \<Rightarrow> string \<Rightarrow> int) \<Rightarrow> (string \<Rightarrow> string) \<Rightarrow> (int list \<Rightarrow> int list) \<Rightarrow> economy_state \<Rightarrow>
    economy_state \<Rightarrow> history \<Rightarrow> bool" for lc sha256 sha256b s0 where
  start: "economy_run lc sha256 sha256b s0 s0 empty_history"
| command: "economy_run lc sha256 sha256b s0 s h \<Longrightarrow> execute sha256b sha256 c s = Some (Inr (s', fx)) \<Longrightarrow>
    economy_run lc sha256 sha256b s0 s' (extend_history h c s fx)"
| schedule: "economy_run lc sha256 sha256b s0 s h \<Longrightarrow> generateDueTenders lc sha256 sha256b now s = Some (Inr g) \<Longrightarrow>
    economy_run lc sha256 sha256b s0 (gnState g) h"

text \<open>The scheduler works by commands, on states with the budgets of the periods added.\<close>

lemma withPeriodBudget_fields [simp]:
  "ewTenders (withPeriodBudget p a s) = ewTenders s" "ewProcessedCommands (withPeriodBudget p a s) = ewProcessedCommands s"
  "ewSettledPeriods (withPeriodBudget p a s) = ewSettledPeriods s" "ewClosed (withPeriodBudget p a s) = ewClosed s"
  "ewWorldId (withPeriodBudget p a s) = ewWorldId s" "ewTenderGeneration (withPeriodBudget p a s) = ewTenderGeneration s"
  by (simp_all add: withPeriodBudget_def Let_def)

lemma announceAndOpen_rule:
  assumes "announceAndOpen sha256b policy prev request a s = Some (Inr (s', ns))" and "P s"
    and budget: "\<And>s. P s \<Longrightarrow> P (withPeriodBudget policy a s)"
    and command: "\<And>s s' c fx. P s \<Longrightarrow> charges c s = [] \<Longrightarrow> settledKey c = [] \<Longrightarrow> execute sha256b sha256 c s = Some (Inr (s', fx)) \<Longrightarrow>
      efJournal fx = [] \<Longrightarrow> P s'"
  shows "P s'"
proof -
  let ?input = "scheduledAnnouncement s policy prev request a"
  obtain s1 fx where an: "announceTender sha256b ?input (withPeriodBudget policy a s) = Some (Inr (s1, fx))"
    and op: "openTender (''scheduler:'' @ rqId request @ '':open:'' @ int_str (rqAnnouncedAt request)) (rqId request) (rqAnnouncedAt request) s1 = Inr s'"
    using assms(1) unfolding announceAndOpen_def by (auto simp: res_simps split: prod.splits)
  have j: "efJournal fx = []"
    using an by (auto simp: announceTender_def announceWith_def no_effects_def res_simps split: sum.splits bool.splits if_splits option.splits)
  have "P s1" using budget [OF \<open>P s\<close>] an j
    by (intro command [of "withPeriodBudget policy a s" "Announce ?input" s1 fx]) (simp_all add: charges_def settledKey_def)
  then show ?thesis using op
    by (intro command [of s1 "OpenTender (''scheduler:'' @ rqId request @ '':open:'' @ int_str (rqAnnouncedAt request)) (rqId request) (rqAnnouncedAt request)" s' no_effects])
      (simp_all add: charges_def settledKey_def silently_def no_effects_def)
qed

lemma generateEntries_rule:
  assumes "generateEntries step es g = Some (Inr g')" "P (gnState g)"
    and "\<And>e g g'. P (gnState g) \<Longrightarrow> step e g = Some (Inr g') \<Longrightarrow> P (gnState g')"
  shows "P (gnState g')"
  using assms(1,2) by (induction es arbitrary: g) (auto simp: res_simps dest: assms(3))

lemma generateDueTenders_rule:
  assumes "generateDueTenders lc sha256 sha256b now s = Some (Inr g)" and "P s"
    and budget: "\<And>s policy a. P s \<Longrightarrow> validateTenderGenerationPolicy policy = Inr () \<Longrightarrow> P (withPeriodBudget policy a s)"
    and command: "\<And>s s' c fx. P s \<Longrightarrow> charges c s = [] \<Longrightarrow> settledKey c = [] \<Longrightarrow> execute sha256b sha256 c s = Some (Inr (s', fx)) \<Longrightarrow>
      efJournal fx = [] \<Longrightarrow> P s'"
  shows "P (gnState g)"
proof (cases "ewClosed s \<or> ewTenderGeneration s = None")
  case True
  then show ?thesis using assms(1,2) by (auto simp: generateDueTenders_def split: bool.splits option.splits)
next
  case False
  then obtain policy planning where ok: "validateTenderGenerationPolicy policy = Inr ()"
    and es: "generateEntries (generateEntry lc sha256 sha256b policy planning (previousByLot s) now) (ewCalendar s)
      \<lparr>gnState = s, gnNotices = [], gnTransitions = 0\<rparr> = Some (Inr g)"
    using assms(1) unfolding generateDueTenders_def by (auto simp: res_simps split: option.splits bool.splits if_splits)
  have step_fact: "P (gnState g1)" if "P (gnState g0)" "generateEntry lc sha256 sha256b policy planning prev now e g0 = Some (Inr g1)" for e g0 g1 prev
  proof -
    have "g1 = g0 \<or> (\<exists>request a opened ns. announceAndOpen sha256b policy (map_of prev (ceLotId e)) request a (gnState g0) = Some (Inr (opened, ns))
        \<and> gnState g1 = opened)"
      using that(2) unfolding generateEntry_def Let_def
      by (auto simp: res_simps split: sum.splits option.splits if_splits prod.splits)
    then show ?thesis
    proof (elim disjE exE conjE)
      fix request a opened ns
      assume x: "announceAndOpen sha256b policy (map_of prev (ceLotId e)) request a (gnState g0) = Some (Inr (opened, ns))"
      have "P opened" by (rule announceAndOpen_rule [where P = P, OF x that(1) budget [OF _ ok] command])
      then show "gnState g1 = opened \<Longrightarrow> P (gnState g1)" by simp
    qed (use that(1) in simp)
  qed
  show ?thesis by (rule generateEntries_rule [OF es]) (use \<open>P s\<close> in simp, rule step_fact)
qed

text \<open>Induction over a run whose steps are commands and additions of budgets.\<close>

lemma economy_run_induct [consumes 1, case_names start command budget]:
  assumes "economy_run lc sha256 sha256b s0 s h" and "P s0 empty_history"
    and command: "\<And>s h c s' fx. P s h \<Longrightarrow> execute sha256b sha256 c s = Some (Inr (s', fx)) \<Longrightarrow> P s' (extend_history h c s fx)"
    and budget: "\<And>s h policy a. P s h \<Longrightarrow> validateTenderGenerationPolicy policy = Inr () \<Longrightarrow> P (withPeriodBudget policy a s) h"
  shows "P s h"
  using assms(1)
proof (induction rule: economy_run.induct)
  case start
  show ?case by (rule assms(2))
next
  case (command s h c s' fx)
  then show ?case using assms(3) by blast
next
  case (schedule s h now g)
  have "P s' h" if "P s h" "charges c s = []" "settledKey c = []" "execute sha256b sha256 c s = Some (Inr (s', fx))" "efJournal fx = []" for s s' c fx
    using assms(3) [OF that(1,4)] that by (cases h) (simp add: extend_history_def cong: if_cong)
  then show ?case
    using generateDueTenders_rule [where P = "\<lambda>s. P s h", OF schedule(2,3) budget] by blast
qed

section \<open>Tenders\<close>

definition tender_ok :: "tender \<Rightarrow> bool" where
  "tender_ok t \<longleftrightarrow> tnAnnouncedAt t \<le> tnOpensAt t \<and> tnOpensAt t + 86400 \<le> tnClosesAt t \<and> tnClosesAt t \<le> tnOpensAt t + 604800 \<and>
     tnClosesAt t < tnOperatingFrom t \<and> 2 \<le> tnContractPeriods t \<and> 0 < ssTrainKmPerPeriod (tnSpecification t)"

definition bids_ok :: "tender \<Rightarrow> bid list \<Rightarrow> bool" where
  "bids_ok t bids \<longleftrightarrow> distinct (map bdOperatorId bids) \<and>
     (\<forall>b \<in> set bids. tnOpensAt t \<le> bdSubmittedAt b \<and> bdSubmittedAt b \<le> tnClosesAt t \<and> (\<exists>p. scoreBid t b = Inr p))"

definition best_bid :: "tender \<Rightarrow> bid list \<Rightarrow> bid \<Rightarrow> bool" where
  "best_bid t bids w \<longleftrightarrow> w \<in> set bids \<and>
     (\<exists>s. scoreBid t w = Inr s \<and> (\<forall>b \<in> set bids. \<forall>u. scoreBid t b = Inr u \<longrightarrow> beats w s b u))"

fun lifecycle_ok :: "string \<Rightarrow> tender_lifecycle \<Rightarrow> bool" where
  "lifecycle_ok i (LcAnnounced t bids) \<longleftrightarrow> tnId t = i \<and> tender_ok t \<and> bids = []"
| "lifecycle_ok i (LcOpen t bids) \<longleftrightarrow> tnId t = i \<and> tender_ok t \<and> bids_ok t bids"
| "lifecycle_ok i (LcAwarded t bids w) \<longleftrightarrow> tnId t = i \<and> tender_ok t \<and> bids_ok t bids \<and> best_bid t bids w"
| "lifecycle_ok i (LcFailed t bids operation started) \<longleftrightarrow> tnId t = i \<and> tender_ok t \<and> bids = []"

text \<open>The order of the lifecycle: the tender stays, bids are only added, a decision stays with its bids.\<close>

fun decision :: "tender_lifecycle \<Rightarrow> bid option option" where
  "decision (LcAnnounced t bids) = None"
| "decision (LcOpen t bids) = None"
| "decision (LcAwarded t bids w) = Some (Some w)"
| "decision (LcFailed t bids operation started) = Some None"

fun phase_rank :: "tender_lifecycle \<Rightarrow> nat" where
  "phase_rank (LcAnnounced t bids) = 0"
| "phase_rank (LcOpen t bids) = 1"
| "phase_rank (LcAwarded t bids w) = 2"
| "phase_rank (LcFailed t bids operation started) = 2"

definition moves_on :: "tender_lifecycle \<Rightarrow> tender_lifecycle \<Rightarrow> bool" where
  "moves_on l l' \<longleftrightarrow> lcTender l' = lcTender l \<and> phase_rank l \<le> phase_rank l' \<and> prefix (lcBids l) (lcBids l') \<and>
     (phase_rank l = 2 \<longrightarrow> decision l' = decision l \<and> lcBids l' = lcBids l)"

lemma moves_on_refl: "moves_on l l" by (simp add: moves_on_def)

lemma moves_on_trans: "moves_on a b \<Longrightarrow> moves_on b c \<Longrightarrow> moves_on a c"
  by (cases c) (auto simp: moves_on_def intro: prefix_order.trans)

lemma createTender_ok: "createTender base release smallLot = Inr t \<Longrightarrow> tender_ok t"
  by (cases base) (auto simp: createTender_def Let_def res_simps tender_ok_def calculateViabilityThreshold_def tender_base.defs tender.defs split: if_splits)

lemma awardTender_sorted: "awardTender t bids now = Inr a \<Longrightarrow>
    awWinner a = (case sort_by compareScored (validScores t bids) of [] \<Rightarrow> None | v # _ \<Rightarrow> Some (fst v))"
  by (auto simp: awardTender_def validScores_def res_simps Let_def)

lemma award_best:
  assumes "awardTender t bids (tnClosesAt t) = Inr a" "bids_ok t bids"
  shows "case awWinner a of None \<Rightarrow> bids = [] | Some w \<Rightarrow> best_bid t bids w"
proof (cases "sort_by compareScored (validScores t bids)")
  case Nil
  then have "validScores t bids = []" by (metis set_empty set_sort_by)
  then have "bids = []" using assms(2) validScores_set [of _ _ t bids] by (cases bids) (auto simp: bids_ok_def)
  then show ?thesis using awardTender_sorted [OF assms(1)] Nil by simp
next
  case (Cons x vs)
  obtain w s where x: "x = (w, s)" by (cases x)
  have srt: "sorted_wrt (\<lambda>x y. compareScored x y \<le> 0) (x # vs)" using scored_cmp.sorted_sort_by [of "validScores t bids"] Cons by simp
  have set_v: "set (x # vs) = set (validScores t bids)" using Cons by (metis set_sort_by)
  have "beats w s b u" if "b \<in> set bids" "scoreBid t b = Inr u" for b u
  proof -
    have "(b, u) \<in> set (x # vs)" using that assms(2) set_v validScores_set by (auto simp: bids_ok_def)
    then have "compareScored x (b, u) \<le> 0" using srt scored_cmp.refl by auto
    then show ?thesis by (simp add: compareScored_le x beats_def)
  qed
  moreover have "w \<in> set bids \<and> scoreBid t w = Inr s" using set_v x validScores_set [of w s t bids] by auto
  ultimately show ?thesis using awardTender_sorted [OF assms(1)] Cons x by (auto simp: best_bid_def)
qed

lemma lifecycle_step_ok:
  assumes "lifecycle_step i old new" "\<And>l. old = Some l \<Longrightarrow> lifecycle_ok i l"
  shows "lifecycle_ok i new"
  using assms
proof (cases rule: lifecycle_step.cases)
  case (announce base release smallLot t)
  then show ?thesis by (simp add: createTender_ok)
next
  case (awards t bids a w)
  then show ?thesis using assms(2) award_best [of t bids a] by simp
next
  case (fails t bids a operation started)
  then show ?thesis using assms(2) award_best [of t bids a] by simp
qed (auto simp: bids_ok_def)

lemma lifecycle_step_advances: "lifecycle_step i (Some l) new \<Longrightarrow> moves_on l new"
  by (cases rule: lifecycle_step.cases) (auto simp: moves_on_def)

definition tenders_ok :: "economy_state \<Rightarrow> bool" where
  "tenders_ok s \<longleftrightarrow> (\<forall>i l. map_of (ewTenders s) i = Some l \<longrightarrow> lifecycle_ok i l)"

definition tenders_advance :: "economy_state \<Rightarrow> economy_state \<Rightarrow> bool" where
  "tenders_advance s s' \<longleftrightarrow> (\<forall>i l. map_of (ewTenders s) i = Some l \<longrightarrow> (\<exists>l'. map_of (ewTenders s') i = Some l' \<and> moves_on l l'))"

lemma command_moves:
  assumes "execute sha256b sha256 c s = Some (Inr (s', fx))"
  shows "tender_moves s s'"
proof (cases "commandIdOf c \<in> set (ewProcessedCommands s)")
  case True
  then show ?thesis using assms command_repeated [OF True, of sha256b sha256] by (auto intro: tender_moves_refl)
next
  case False
  then show ?thesis using command_step [OF assms] by (simp add: step_ok_def)
qed

lemma tender_moves_ok:
  assumes "tender_moves s s'" "tenders_ok s"
  shows "tenders_ok s' \<and> tenders_advance s s'"
proof (cases "ewTenders s' = ewTenders s")
  case True
  then show ?thesis using assms(2) by (auto simp: tenders_ok_def tenders_advance_def intro: moves_on_refl)
next
  case False
  then obtain i lc where l: "lifecycle_step i (map_of (ewTenders s) i) lc" and u: "ewTenders s' = AList.update i lc (ewTenders s)"
    using assms(1) by (auto simp: tender_moves_def)
  have "lifecycle_ok i lc" by (rule lifecycle_step_ok [OF l]) (use assms(2) in \<open>simp add: tenders_ok_def\<close>)
  moreover have "moves_on l0 lc" if "map_of (ewTenders s) i = Some l0" for l0
    using l that lifecycle_step_advances by simp
  ultimately show ?thesis using assms(2)
    by (auto simp: tenders_ok_def tenders_advance_def u update_conv' intro: moves_on_refl)
qed

lemma tenders_advance_refl: "ewTenders s' = ewTenders s \<Longrightarrow> tenders_advance s s'"
  by (auto simp: tenders_advance_def intro: moves_on_refl)

lemma tenders_advance_trans: "tenders_advance a b \<Longrightarrow> tenders_advance b c \<Longrightarrow> tenders_advance a c"
  unfolding tenders_advance_def by (meson moves_on_trans)

lemma run_tenders:
  assumes "economy_run lc sha256 sha256b s0 s h" "tenders_ok s0"
  shows "tenders_ok s \<and> tenders_advance s0 s"
  using assms(1)
proof (induction rule: economy_run_induct)
  case start
  show ?case using assms(2) by (simp add: tenders_advance_refl)
next
  case (command s h c s' fx)
  then show ?case using tender_moves_ok [OF command_moves] tenders_advance_trans by blast
next
  case (budget s h policy a)
  then show ?case by (simp add: tenders_ok_def tenders_advance_def)
qed

text \<open>C31: In a world that starts without tenders every tender is well-formed at any time: it keeps its window and its contract
  terms, an announced tender has no bids, the bids of an open or awarded one are from different operators, within the
  window and scored, the winner is a bid no other bid beats, and a failed tender had no bid. From then on the tender
  never changes nor disappears, its phase_rank never goes back, bids are only added, and a decision stays.\<close>

theorem tenders_move_forward:
  assumes "economy_run lc sha256 sha256b s0 s h" and "ewTenders s0 = []" and "economy_run lc sha256 sha256b s s' h'"
    and "map_of (ewTenders s) i = Some l"
  shows "lifecycle_ok i l \<and> (\<exists>l'. map_of (ewTenders s') i = Some l' \<and> lifecycle_ok i l' \<and> moves_on l l')"
proof -
  have s: "tenders_ok s" using run_tenders [OF assms(1)] assms(2) by (simp add: tenders_ok_def)
  have r: "tenders_ok s'" "tenders_advance s s'" using run_tenders [OF assms(3) s] by auto
  then obtain l' where "map_of (ewTenders s') i = Some l'" "moves_on l l'" using assms(4) by (auto simp: tenders_advance_def)
  then show ?thesis using s r(1) assms(4) by (auto simp: tenders_ok_def)
qed

section \<open>Budgets\<close>

definition charged_to :: "string \<Rightarrow> (string \<times> int) list \<Rightarrow> int" where
  "charged_to k cs = sum_list (map snd (filter (\<lambda>c. fst c = k) cs))"

lemma charged_to_append [simp]: "charged_to k (cs @ ds) = charged_to k cs + charged_to k ds"
  by (simp add: charged_to_def)

lemma charged_to_Nil [simp]: "charged_to k [] = 0"
  by (simp add: charged_to_def)

lemma charged_to_Cons [simp]: "charged_to k (c # cs) = (if fst c = k then snd c else 0) + charged_to k cs"
  by (simp add: charged_to_def)

definition committed_before :: "economy_state \<Rightarrow> string \<Rightarrow> int" where
  "committed_before s k = (case map_of (ewBudgets s) k of None \<Rightarrow> 0 | Some b \<Rightarrow> abCommittedCents b)"

definition budget_ok :: "authority_budget \<Rightarrow> bool" where
  "budget_ok b \<longleftrightarrow> 0 \<le> abCommittedCents b \<and> abCommittedCents b \<le> abAvailableCents b"

definition key_account :: "economy_state \<Rightarrow> economy_state \<Rightarrow> int \<Rightarrow> string \<Rightarrow> bool" where
  "key_account s0 s n k \<longleftrightarrow> (case map_of (ewBudgets s) k of
       None \<Rightarrow> map_of (ewBudgets s0) k = None \<and> n = 0
     | Some b \<Rightarrow> budget_ok b \<and> abCommittedCents b = committed_before s0 k + n \<and>
         (case map_of (ewBudgets s0) k of None \<Rightarrow> True | Some b0 \<Rightarrow> abAvailableCents b = abAvailableCents b0))"

definition budgets_account :: "economy_state \<Rightarrow> economy_state \<Rightarrow> history \<Rightarrow> bool" where
  "budgets_account s0 s h \<longleftrightarrow> (\<forall>k. key_account s0 s (charged_to k (hiCharges h)) k) \<and> (\<forall>c \<in> set (hiCharges h). 0 \<le> snd c)"

lemma command_budgets:
  assumes "execute sha256b sha256 c s = Some (Inr (s', fx))"
  shows "budgets_move s (charges c s) s'"
proof (cases "commandIdOf c \<in> set (ewProcessedCommands s)")
  case True
  then have "s' = s" using assms command_repeated [OF True, of sha256b sha256] by auto
  moreover have "charges c s = []" using True by (cases c) (auto simp: charges_def)
  ultimately show ?thesis by (simp add: budgets_move_def)
next
  case False
  then show ?thesis using command_step [OF assms] by (simp add: step_ok_def)
qed

lemma charge_account:
  assumes "charged (ewBudgets s) c (ewBudgets s')" "budgets_account s0 s h" "hiCharges h' = hiCharges h @ [c]"
  shows "budgets_account s0 s' h'"
proof -
  obtain b where b: "map_of (ewBudgets s) (fst c) = Some b" "0 \<le> snd c" "abCommittedCents b + snd c \<le> abAvailableCents b"
    and u: "ewBudgets s' = AList.update (fst c) (b\<lparr>abCommittedCents := abCommittedCents b + snd c\<rparr>) (ewBudgets s)"
    using assms(1) by (auto simp: charged_def)
  have "key_account s0 s' (charged_to k (hiCharges h')) k" for k
  proof (cases "k = fst c")
    case True
    have "key_account s0 s (charged_to (fst c) (hiCharges h)) (fst c)" using assms(2) by (simp add: budgets_account_def)
    then show ?thesis using b True by (simp add: key_account_def u update_conv' assms(3) budget_ok_def split: option.splits)
  next
    case False
    have "key_account s0 s (charged_to k (hiCharges h)) k" using assms(2) by (simp add: budgets_account_def)
    then show ?thesis using False by (simp add: key_account_def u update_conv' assms(3))
  qed
  then show ?thesis using assms(2) b(2) by (simp add: budgets_account_def assms(3))
qed

lemma add_budget_account:
  assumes "budgets_account s0 s h" "validateTenderGenerationPolicy policy = Inr ()"
  shows "budgets_account s0 (withPeriodBudget policy a s) h"
proof -
  let ?k = "budgetKey (gpAuthorityId policy) a"
  have pos: "0 \<le> gpAuthorityBudgetCentsPerPeriod policy"
    using assms(2) by (auto simp: validateTenderGenerationPolicy_def res_simps)
  have "key_account s0 (withPeriodBudget policy a s) (charged_to k (hiCharges h)) k" for k
  proof -
    have "key_account s0 s (charged_to k (hiCharges h)) k" using assms(1) by (simp add: budgets_account_def)
    then show ?thesis using pos
      by (cases "map_of (ewBudgets s) ?k") (auto simp: key_account_def withPeriodBudget_def Let_def has_key_def update_conv' budget_ok_def committed_before_def)
  qed
  then show ?thesis using assms(1) by (simp add: budgets_account_def)
qed

lemma run_budgets:
  assumes "economy_run lc sha256 sha256b s0 s h" and "\<And>k b. map_of (ewBudgets s0) k = Some b \<Longrightarrow> budget_ok b"
  shows "budgets_account s0 s h"
  using assms(1)
proof (induction rule: economy_run_induct)
  case start
  show ?case using assms(2) by (simp add: budgets_account_def key_account_def committed_before_def split: option.split)
next
  case (command s h c s' fx)
  show ?case
  proof (cases "charges c s")
    case Nil
    then have "ewBudgets s' = ewBudgets s" using command_budgets [OF command(2)] by (simp add: budgets_move_def)
    then show ?thesis using command(1) Nil by (simp add: budgets_account_def key_account_def)
  next
    case (Cons x xs)
    then have x: "charges c s = [x]" by (cases c) (auto simp: charges_def split: if_splits)
    then have "charged (ewBudgets s) x (ewBudgets s')" using command_budgets [OF command(2)] by (simp add: budgets_move_def)
    then show ?thesis by (rule charge_account [OF _ command(1)]) (simp add: x)
  qed
next
  case (budget s h policy a)
  then show ?case by (rule add_budget_account)
qed

text \<open>C32: In a world whose budgets are in order at the start, at any time every budget of an authority is committed to exactly
  what it was at the start plus the costs of the decisions charged to it since, each of them not negative, and never
  beyond what is available, which does not change.\<close>

theorem budgets_never_overdrawn:
  assumes "economy_run lc sha256 sha256b s0 s h" and "\<forall>(k, b) \<in> set (ewBudgets s0). budget_ok b"
    and "map_of (ewBudgets s) k = Some b"
  shows "abCommittedCents b = committed_before s0 k + charged_to k (hiCharges h) \<and> 0 \<le> abCommittedCents b \<and>
    abCommittedCents b \<le> abAvailableCents b \<and> (\<forall>c \<in> set (hiCharges h). 0 \<le> snd c) \<and>
    (case map_of (ewBudgets s0) k of None \<Rightarrow> True | Some b0 \<Rightarrow> abAvailableCents b = abAvailableCents b0)"
proof -
  have "budget_ok b0" if "map_of (ewBudgets s0) k0 = Some b0" for k0 b0
    using assms(2) map_of_SomeD [OF that] by auto
  from run_budgets [OF assms(1) this] have "key_account s0 s (charged_to k (hiCharges h)) k" "\<forall>c \<in> set (hiCharges h). 0 \<le> snd c"
    by (simp_all add: budgets_account_def)
  then show ?thesis using assms(3) by (simp add: key_account_def budget_ok_def)
qed

section \<open>Journals and settlements\<close>

lemma journalKeys_inj: "x \<in> set (journalKeys c) \<Longrightarrow> x \<in> set (journalKeys d) \<Longrightarrow> c = d"
proof -
  assume x: "x \<in> set (journalKeys c)" "x \<in> set (journalKeys d)"
  have "c @ '':settlement'' \<noteq> d @ '':penalty''" for c d :: string
  proof
    assume "c @ '':settlement'' = d @ '':penalty''"
    then have "last (c @ '':settlement'') = last (d @ '':penalty'')" by (rule arg_cong)
    then show False by simp
  qed
  then show "c = d" using x by (auto simp: journalKeys_def)
qed

definition books_ok :: "economy_state \<Rightarrow> economy_state \<Rightarrow> history \<Rightarrow> bool" where
  "books_ok s0 s h \<longleftrightarrow>
     (\<forall>j \<in> set (hiJournal h). jeWorldId j = ewWorldId s0 \<and>
        (\<exists>c \<in> set (ewProcessedCommands s) - set (ewProcessedCommands s0). jeIdempotencyKey j \<in> set (journalKeys c))) \<and>
     distinct (map jeIdempotencyKey (hiJournal h)) \<and> distinct (hiSettled h) \<and>
     (\<not> ewClosed s \<longrightarrow> set (hiSettled h) \<union> set (ewSettledPeriods s0) \<subseteq> set (ewSettledPeriods s)) \<and>
     set (hiSettled h) \<inter> set (ewSettledPeriods s0) = {} \<and>
     ewWorldId s = ewWorldId s0 \<and> set (ewProcessedCommands s0) \<subseteq> set (ewProcessedCommands s)"

lemma command_books:
  assumes "books_ok s0 s h" "execute sha256b sha256 c s = Some (Inr (s', fx))"
  shows "books_ok s0 s' (extend_history h c s fx)"
proof (cases "commandIdOf c \<in> set (ewProcessedCommands s)")
  case True
  then have "s' = s" "fx = no_effects" using assms(2) command_repeated [OF True, of sha256b sha256] by auto
  then show ?thesis using assms(1) True by (simp add: books_ok_def no_effects_def)
next
  case False
  then have st: "took_effect (commandIdOf c) s s'" and j: "journals_ok c s fx s'"
    using command_step [OF assms(2)] by (simp_all add: step_ok_def)
  have p: "ewProcessedCommands s' = ewProcessedCommands s @ [commandIdOf c]" and cl: "\<not> ewClosed s" and w: "ewWorldId s' = ewWorldId s"
    using st by (auto simp: took_effect_def same_world_def)
  have ef: "jeWorldId x = ewWorldId s \<and> jeIdempotencyKey x \<in> set (journalKeys (commandIdOf c))" if "x \<in> set (efJournal fx)" for x
    using j that by (simp add: journals_ok_def)
  have fresh: "jeIdempotencyKey x \<noteq> jeIdempotencyKey y" if "x \<in> set (hiJournal h)" "y \<in> set (efJournal fx)" for x y
    using assms(1) ef [OF that(2)] that(1) False journalKeys_inj unfolding books_ok_def by (metis DiffD1)
  have one: "distinct (map jeIdempotencyKey (efJournal fx))"
    using j by (cases "efJournal fx" rule: remdups_adj.cases) (auto simp: journals_ok_def)
  have k: "distinct (settledKey c)" "\<forall>k \<in> set (settledKey c). k \<notin> set (ewSettledPeriods s)"
    "ewClosed s' \<or> ewSettledPeriods s' = ewSettledPeriods s @ settledKey c"
    using j by (auto simp: journals_ok_def settledKey_def split: economy_command.splits)
  have new: "commandIdOf c \<notin> set (ewProcessedCommands s0)" using False assms(1) by (auto simp: books_ok_def)
  have keys: "distinct (map jeIdempotencyKey (hiJournal h @ efJournal fx))"
    using assms(1) one fresh by (auto simp: books_ok_def)
  have "\<forall>x \<in> set (hiJournal h @ efJournal fx). jeWorldId x = ewWorldId s0 \<and>
      (\<exists>d \<in> set (ewProcessedCommands s') - set (ewProcessedCommands s0). jeIdempotencyKey x \<in> set (journalKeys d))"
    using assms(1) ef new by (auto simp: books_ok_def p)
  then show ?thesis using assms(1) keys False k cl w unfolding books_ok_def by (auto simp: p)
qed

lemma run_books: "economy_run lc sha256 sha256b s0 s h \<Longrightarrow> books_ok s0 s h"
proof (induction rule: economy_run_induct)
  case start
  show ?case by (simp add: books_ok_def)
next
  case (command s h c s' fx)
  then show ?case by (rule command_books)
next
  case (budget s h policy a)
  from budget(1) show ?case unfolding books_ok_def withPeriodBudget_fields .
qed


section \<open>Tenders are decided\<close>

text \<open>The most a decision can cost: the fee of the threshold over all periods, or the public operation.\<close>

definition cost_bound :: "economy_state \<Rightarrow> tender \<Rightarrow> int" where
  "cost_bound s t = max (tnViabilityThresholdCentsPerTrainKm t * ssTrainKmPerPeriod (tnSpecification t) * tnContractPeriods t)
     (publicCostOf t (reRules (ewRelease s)))"

lemma cost_bound_public: "publicCostOf t (reRules (ewRelease s)) \<le> cost_bound s t"
  by (simp add: cost_bound_def)

lemma fresh_command: "c \<notin> set (ewProcessedCommands s) \<Longrightarrow> \<not> ewClosed s \<Longrightarrow> newCommand s c x r = r"
  by (simp add: newCommand_def requireNewCommand_def)

lemma commit_room: "map_of (ewBudgets s) (budgetKey (clAuthorityId input) (clBudgetPeriod input)) = Some b \<Longrightarrow> 0 \<le> n \<Longrightarrow>
    abCommittedCents b + n \<le> abAvailableCents b \<Longrightarrow> \<exists>m. commitBudget input n s = Inr m"
  by (simp add: commitBudget_def commitAuthorityBudget_def)

lemma award_ends: "\<exists>a. awardTender t bids (tnClosesAt t) = Inr a"
  by (simp add: awardTender_def Let_def)

lemma expectedCost_bound:
  assumes "best_bid t bids w" "0 < ssTrainKmPerPeriod (tnSpecification t)" "2 \<le> tnContractPeriods t"
  shows "0 \<le> expectedCostOf t w \<and> expectedCostOf t w \<le> cost_bound s t"
proof -
  obtain p where "scoreBid t w = Inr p" using assms(1) by (auto simp: best_bid_def)
  then have fee: "0 \<le> bdOrderingFeeCentsPerTrainKm w" "bdOrderingFeeCentsPerTrainKm w \<le> tnViabilityThresholdCentsPerTrainKm t"
    using scoreBid_parts(1) admissible_fee by blast+
  then have le: "bdOrderingFeeCentsPerTrainKm w * ssTrainKmPerPeriod (tnSpecification t) * tnContractPeriods t
      \<le> tnViabilityThresholdCentsPerTrainKm t * ssTrainKmPerPeriod (tnSpecification t) * tnContractPeriods t"
    using assms(2,3) by (intro mult_right_mono) auto
  show ?thesis unfolding expectedCostOf_def cost_bound_def
    by (intro conjI max.coboundedI1 le) (use fee assms(2,3) in simp)
qed

lemma open_tender_decided:
  assumes l: "map_of (ewTenders s) (clTenderId input) = Some (LcOpen t bids)" and ok: "tender_ok t" "bids_ok t bids"
    and new: "clCommandId input \<notin> set (ewProcessedCommands s)" "\<not> ewClosed s" and time: "clAt input = tnClosesAt t"
    and b: "map_of (ewBudgets s) (budgetKey (clAuthorityId input) (clBudgetPeriod input)) = Some b"
    and room: "abCommittedCents b + cost_bound s t \<le> abAvailableCents b" and pub: "0 \<le> publicCostOf t (reRules (ewRelease s))"
  shows "\<exists>s2 fx l'. closeTender input s = Inr (s2, fx) \<and> map_of (ewTenders s2) (clTenderId input) = Some l' \<and>
    (case decision l' of None \<Rightarrow> False | Some None \<Rightarrow> bids = [] | Some (Some w) \<Rightarrow> best_bid t bids w)"
proof -
  obtain a where a: "awardTender t bids (tnClosesAt t) = Inr a" using award_ends by blast
  have close: "closeTender input s = (case awWinner a of None \<Rightarrow> closeFailed input t bids s | Some w \<Rightarrow> closeAwarded input t bids w s)"
    using new by (simp add: closeTender_def fresh_command lifecycleOf_def l time a)
  show ?thesis
  proof (cases "awWinner a")
    case None
    have "bids = []" using award_best [OF a ok(2)] None by simp
    moreover obtain m where "commitBudget input (publicCostOf t (reRules (ewRelease s))) s = Inr m"
      using commit_room [OF b pub] room by (meson cost_bound_public order_trans add_left_mono)
    ultimately show ?thesis using close None by (simp add: closeFailed_def Let_def update_conv')
  next
    case (Some w)
    have w: "best_bid t bids w" using award_best [OF a ok(2)] Some by simp
    have "0 \<le> expectedCostOf t w \<and> expectedCostOf t w \<le> cost_bound s t"
      by (rule expectedCost_bound [OF w]) (use ok(1) in \<open>simp_all add: tender_ok_def\<close>)
    then obtain m where "commitBudget input (expectedCostOf t w) s = Inr m" using commit_room [OF b] room by force
    then show ?thesis using close Some w by (simp add: closeAwarded_def update_conv')
  qed
qed


section \<open>A sample world\<close>

fun run_commands :: "(string \<Rightarrow> string) \<Rightarrow> (int list \<Rightarrow> int list) \<Rightarrow> economy_command list \<Rightarrow> economy_state \<times> history \<Rightarrow>
    (economy_state \<times> history) option" where
  "run_commands sha256 sha256b [] x = Some x"
| "run_commands sha256 sha256b (c # cs) (s, h) = (case execute sha256b sha256 c s of
      Some (Inr (s', fx)) \<Rightarrow> run_commands sha256 sha256b cs (s', extend_history h c s fx)
    | _ \<Rightarrow> None)"

lemma run_commands_run: "run_commands sha256 sha256b cs (s, h) = Some (s', h') \<Longrightarrow> economy_run lc sha256 sha256b s0 s h \<Longrightarrow>
    economy_run lc sha256 sha256b s0 s' h'"
  by (induction cs arbitrary: s h) (auto split: option.splits sum.splits dest: economy_run.command)

lemmas run_from_start = run_commands_run [OF _ economy_run.start]

definition sample_world :: economy_state where
  "sample_world = \<lparr>ewWorldId = ''w'', ewClosed = False, ewSeed = 5, ewProfile = deriveWorldProfile UnlimitedDuration,
     ewReleasePin = pinEconomyRelease ''w'' (sample_release\<lparr>reTenderProfiles := [sample_profile ''a'' 6000]\<rparr>),
     ewRelease = sample_release\<lparr>reTenderProfiles := [sample_profile ''a'' 6000]\<rparr>, ewLots = [], ewPlanning = None,
     ewTenderGeneration = None, ewCalendar = [\<lparr>ceLotId = ''l'', ceAnnouncementPeriod = 0, ceTenderPeriod = 1, ceInitialOperator = ''public''\<rparr>],
     ewTenders = [], ewContracts = [], ewMobilizations = [], ewTenderAutomation = [], ewPublicOperations = [],
     ewBudgets = [(''auth:0'', \<lparr>abAuthorityId = ''auth'', abPeriod = 0, abAvailableCents = 1000, abCommittedCents = 100\<rparr>)],
     ewPrequalifications = [(''acc'', initialPrequalification ''w'' ''acc'')], ewInsolventOperators = [], ewOperatorRestrictions = [],
     ewSettledPeriods = [], ewProcessedCommands = [], ewOperatingRuntimeByLot = [], ewRevision = 0\<rparr>"

definition sample_announcement :: announcement where
  "sample_announcement = \<lparr>anCommandId = ''c1'', anRelease = sample_release\<lparr>reTenderProfiles := [sample_profile ''a'' 6000]\<rparr>,
     anTender = \<lparr>rqId = ''t'', rqWorldId = ''w'', rqLotId = ''l'', rqIncumbentOperatorId = ''public'', rqSpecification = sample_specification,
       rqPlanningEvidence = None, rqAnnouncedAt = 0, rqOpensAt = 0, rqClosesAt = 86400, rqOperatingFrom = 100000, rqContractPeriods = 2,
       rqPeriodDurationSeconds = 604800, rqSmallLot = True\<rparr>, anRecipients = [''acc''], anAutomation = None\<rparr>"

definition sample_bids :: "economy_command list" where
  "sample_bids = [OpenTender ''c2'' ''t'' 0,
     SubmitBid ''c3'' ''t'' (sample_bid ''x'' 6) \<lparr>qlAccountId = ''acc'', qlPeriod = 0, qlSmallLot = True, qlMinimumScore = 0\<rparr>,
     SubmitBid ''c4'' ''t'' (sample_bid ''y'' 5) \<lparr>qlAccountId = ''acc'', qlPeriod = 0, qlSmallLot = True, qlMinimumScore = 0\<rparr>]"

definition sample_closing :: closing where
  "sample_closing = \<lparr>clCommandId = ''c5'', clTenderId = ''t'', clAt = 86400, clAuthorityId = ''auth'', clBudgetPeriod = 0,
     clVehiclePool = [''v''], clRecipientByOperator = []\<rparr>"

definition sample_hash :: "int list \<Rightarrow> int list" where
  "sample_hash b = replicate 32 7"

definition after :: "economy_command list \<Rightarrow> (economy_state \<times> history) option" where
  "after cs = run_commands id sample_hash cs (sample_world, empty_history)"

lemma after_run: "after cs = Some (s, h) \<Longrightarrow> economy_run lc id sample_hash sample_world s h"
  unfolding after_def by (rule run_from_start)

lemma sample_with_bids: "case after (Announce sample_announcement # sample_bids) of
    None \<Rightarrow> False
  | Some (s, h) \<Rightarrow> (case map_of (ewTenders s) ''t'' of None \<Rightarrow> False
      | Some l \<Rightarrow> phase_rank l = 1 \<and> map bdId (lcBids l) = [''x'', ''y''] \<and> tnClosesAt (lcTender l) = 86400 \<and>
          tnViabilityThresholdCentsPerTrainKm (lcTender l) = 8 \<and> publicCostOf (lcTender l) (reRules (ewRelease s)) = 176 \<and>
          ssTrainKmPerPeriod (tnSpecification (lcTender l)) = 10 \<and> tnContractPeriods (lcTender l) = 2)
    \<and> ewProcessedCommands s = [''c1'', ''c2'', ''c3'', ''c4''] \<and> \<not> ewClosed s \<and>
      ewBudgets s = ewBudgets sample_world"
  by code_simp

lemma sample_decided: "case after (Announce sample_announcement # sample_bids @ [CloseTender sample_closing]) of
    None \<Rightarrow> False
  | Some (s, h) \<Rightarrow> hiCharges h = [(''auth:0'', 100)] \<and> map_option abCommittedCents (map_of (ewBudgets s) ''auth:0'') = Some 200 \<and>
      map_option (map_option (map_option bdId) \<circ> decision) (map_of (ewTenders s) ''t'') = Some (Some (Some ''y''))"
  by code_simp

lemma after_obtain:
  assumes "case after cs of None \<Rightarrow> False | Some (s, h) \<Rightarrow> P s h"
  obtains s h where "after cs = Some (s, h)" "P s h" "economy_run lc id sample_hash sample_world s h"
proof (cases "after cs")
  case (Some x)
  then show ?thesis using assms that after_run [of cs] by (cases x) auto
qed (use assms in simp)

theorem commands_take_effect_once_witness:
  "case execute sample_hash id (Seed ''c'' ''k'') sample_world of
     Some (Inr (s', fx)) \<Rightarrow> ewRevision s' = 1 \<and> ewProcessedCommands s' = [''c'']
   | _ \<Rightarrow> False"
proof -
  have "case execute sample_hash id (Seed ''c'' ''k'') sample_world of Some (Inr (s', fx)) \<Rightarrow> True | _ \<Rightarrow> False" by code_simp
  then obtain s' fx where x: "execute sample_hash id (Seed ''c'' ''k'') sample_world = Some (Inr (s', fx))"
    by (auto split: option.splits sum.splits)
  have "small_catalogue (Seed ''c'' ''k'')" "ewProcessedCommands sample_world = []" "ewRevision sample_world = 0"
    by (simp_all add: small_catalogue_def sample_world_def)
  then show ?thesis using commands_take_effect_once [where sha256b = sample_hash and c = "Seed ''c'' ''k''" and s = sample_world] x by simp
qed

theorem tenders_move_forward_witness:
  "case after [Announce sample_announcement] of None \<Rightarrow> False
   | Some (s, h) \<Rightarrow> (case run_commands id sample_hash (sample_bids @ [CloseTender sample_closing]) (s, empty_history) of None \<Rightarrow> False
       | Some (s', h') \<Rightarrow> (case map_of (ewTenders s) ''t'' of None \<Rightarrow> False
           | Some l \<Rightarrow> phase_rank l = 0 \<and> (\<exists>l'. map_of (ewTenders s') ''t'' = Some l' \<and> moves_on l l' \<and> phase_rank l' = 2)))"
proof -
  have "case after [Announce sample_announcement] of None \<Rightarrow> False
   | Some (s, h) \<Rightarrow> (case run_commands id sample_hash (sample_bids @ [CloseTender sample_closing]) (s, empty_history) of None \<Rightarrow> False
       | Some (s', h') \<Rightarrow> map_option phase_rank (map_of (ewTenders s) ''t'') = Some 0 \<and> map_option phase_rank (map_of (ewTenders s') ''t'') = Some 2)"
    by code_simp
  then obtain s h where a: "after [Announce sample_announcement] = Some (s, h)" and r: "economy_run (\<lambda>x y. 0) id sample_hash sample_world s h"
    and c: "case run_commands id sample_hash (sample_bids @ [CloseTender sample_closing]) (s, empty_history) of None \<Rightarrow> False
       | Some (s', h') \<Rightarrow> map_option phase_rank (map_of (ewTenders s) ''t'') = Some 0 \<and> map_option phase_rank (map_of (ewTenders s') ''t'') = Some 2"
    by (rule after_obtain)
  from c obtain s' h' where b: "run_commands id sample_hash (sample_bids @ [CloseTender sample_closing]) (s, empty_history) = Some (s', h')"
    by (auto split: option.splits)
  with c obtain l l' where l: "map_of (ewTenders s) ''t'' = Some l" "phase_rank l = 0" "map_of (ewTenders s') ''t'' = Some l'" "phase_rank l' = 2"
    by auto
  have "ewTenders sample_world = []" by (simp add: sample_world_def)
  then show ?thesis using tenders_move_forward [OF r _ run_from_start [OF b] l(1)] a b l by simp
qed

theorem budgets_never_overdrawn_witness:
  "case after (Announce sample_announcement # sample_bids @ [CloseTender sample_closing]) of None \<Rightarrow> False
   | Some (s, h) \<Rightarrow> (case map_of (ewBudgets s) ''auth:0'' of None \<Rightarrow> False
       | Some b \<Rightarrow> abCommittedCents b = 100 + charged_to ''auth:0'' (hiCharges h) \<and> charged_to ''auth:0'' (hiCharges h) = 100 \<and>
           abAvailableCents b = 1000)"
proof -
  obtain s h where a: "after (Announce sample_announcement # sample_bids @ [CloseTender sample_closing]) = Some (s, h)"
    and c: "hiCharges h = [(''auth:0'', 100)] \<and> map_option abCommittedCents (map_of (ewBudgets s) ''auth:0'') = Some 200 \<and>
      map_option (map_option (map_option bdId) \<circ> decision) (map_of (ewTenders s) ''t'') = Some (Some (Some ''y''))"
    and r: "economy_run (\<lambda>x y. 0) id sample_hash sample_world s h"
    by (rule after_obtain [OF sample_decided])
  from c obtain b where b: "map_of (ewBudgets s) ''auth:0'' = Some b" by auto
  have "\<forall>(k, b) \<in> set (ewBudgets sample_world). budget_ok b" "committed_before sample_world ''auth:0'' = 100"
    "map_option abAvailableCents (map_of (ewBudgets sample_world) ''auth:0'') = Some 1000"
    by (simp_all add: sample_world_def budget_ok_def committed_before_def)
  then show ?thesis using budgets_never_overdrawn [OF r _ b] a b c by auto
qed



end
