(* ===== verification/EconomyCodec.thy ===== *)
theory EconomyCodec
  imports EconomyState
begin

text \<open>
  The codec for \<open>bigint\<close>, \<open>Map\<close> and \<open>Set\<close> in JSON columns, \<open>packages/economy/src/state-store.ts\<close>.
  \<open>rich\<close> is a JavaScript value with these types, \<open>jsval\<close> a JSON value. An object is the list of its
  own enumerable properties; their order, which a \<open>jsonb\<close> column does not keep, is read nowhere. Two
  keys of a \<open>Map\<close> are the same when they are equal primitive values: decoded objects are all new.
\<close>

section \<open>Values\<close>

datatype rich =
    RUndefined
  | RNull
  | RBool bool
  | RNumber int
  | RNonInt
  | RBigint int
  | RString string
  | RArray "rich list"
  | RObject "(string \<times> rich) list"
  | RMap "(rich \<times> rich) list"
  | RSet "rich list"

fun primitive :: "rich \<Rightarrow> bool" where
  "primitive (RArray vs) = False"
| "primitive (RObject kvs) = False"
| "primitive (RMap es) = False"
| "primitive (RSet vs) = False"
| "primitive RNonInt = False"
| "primitive v = True"

definition same_key :: "rich \<Rightarrow> rich \<Rightarrow> bool" where
  "same_key a b \<longleftrightarrow> primitive a \<and> a = b"

text \<open>\<open>new Map(entries)\<close> and \<open>new Set(values)\<close>.\<close>

fun map_put :: "rich \<Rightarrow> rich \<Rightarrow> (rich \<times> rich) list \<Rightarrow> (rich \<times> rich) list" where
  "map_put k v [] = [(k, v)]"
| "map_put k v (e # es) = (if same_key k (fst e) then (fst e, v) # es else e # map_put k v es)"

definition new_map :: "(rich \<times> rich) list \<Rightarrow> (rich \<times> rich) list" where
  "new_map es = fold (\<lambda>(k, v) m. map_put k v m) es []"

definition new_set :: "rich list \<Rightarrow> rich list" where
  "new_set vs = fold (\<lambda>v s. if \<exists>x \<in> set s. same_key v x then s else s @ [v]) vs []"

section \<open>\<open>BigInt\<close> of a text\<close>

definition js_trim :: "string \<Rightarrow> string" where
  "js_trim s = dropWhile js_space (rev (dropWhile js_space (rev s)))"

definition digit_value :: "char \<Rightarrow> nat option" where
  "digit_value c = (let n = of_char c :: nat in
     if 48 \<le> n \<and> n \<le> 57 then Some (n - 48) else if 97 \<le> n \<and> n \<le> 102 then Some (n - 87)
     else if 65 \<le> n \<and> n \<le> 70 then Some (n - 55) else None)"

definition radix_digits :: "nat \<Rightarrow> string \<Rightarrow> int option" where
  "radix_digits radix s =
     (if s = [] \<or> (\<exists>c \<in> set s. case digit_value c of None \<Rightarrow> True | Some d \<Rightarrow> radix \<le> d) then None
      else Some (fold (\<lambda>c n. int radix * n + int (case digit_value c of None \<Rightarrow> 0 | Some d \<Rightarrow> d)) s 0))"

definition parseBigInt :: "string \<Rightarrow> int option" where
  "parseBigInt text = (case js_trim text of
       [] \<Rightarrow> Some 0
     | c # s \<Rightarrow>
         if c = CHR ''-'' then map_option uminus (radix_digits 10 s)
         else if c = CHR ''+'' then radix_digits 10 s
         else if c = CHR ''0'' \<and> s \<noteq> [] \<and> (hd s = CHR ''x'' \<or> hd s = CHR ''X'') then radix_digits 16 (tl s)
         else if c = CHR ''0'' \<and> s \<noteq> [] \<and> (hd s = CHR ''o'' \<or> hd s = CHR ''O'') then radix_digits 8 (tl s)
         else if c = CHR ''0'' \<and> s \<noteq> [] \<and> (hd s = CHR ''b'' \<or> hd s = CHR ''B'') then radix_digits 2 (tl s)
         else radix_digits 10 (c # s))"

section \<open>The codec\<close>

definition TYPE_TAG :: string where
  "TYPE_TAG = ''$zugfolgeType''"

fun encodeEconomyValue :: "rich \<Rightarrow> jsval" where
  "encodeEconomyValue (RBigint n) = JObject [(TYPE_TAG, JString ''bigint''), (''value'', JString (int_str n))]"
| "encodeEconomyValue (RMap es) = JObject [(TYPE_TAG, JString ''map''),
     (''entries'', JArray (map (\<lambda>(k, v). JArray [encodeEconomyValue k, encodeEconomyValue v]) es))]"
| "encodeEconomyValue (RSet vs) = JObject [(TYPE_TAG, JString ''set''), (''values'', JArray (map encodeEconomyValue vs))]"
| "encodeEconomyValue (RArray vs) = JArray (map encodeEconomyValue vs)"
| "encodeEconomyValue (RObject kvs) = JObject (map (\<lambda>(k, v). (k, encodeEconomyValue v)) kvs)"
| "encodeEconomyValue RUndefined = JUndefined"
| "encodeEconomyValue RNull = JNull"
| "encodeEconomyValue (RBool b) = JBool b"
| "encodeEconomyValue (RNumber n) = JInt n"
| "encodeEconomyValue RNonInt = JNonInt"
| "encodeEconomyValue (RString s) = JString s"

datatype codec_error = BigIntSyntaxError string | MapEntryError

text \<open>What the tag of an object says.\<close>

datatype tagged = TaggedBigint string | TaggedMap "jsval list" | TaggedSet "jsval list" | Untagged

definition tagOf :: "(string \<times> jsval) list \<Rightarrow> tagged" where
  "tagOf kvs = (let tag = map_of kvs TYPE_TAG in
     case (if tag = Some (JString ''bigint'') then map_of kvs ''value'' else None) of Some (JString s) \<Rightarrow> TaggedBigint s | _ \<Rightarrow>
     (case (if tag = Some (JString ''map'') then map_of kvs ''entries'' else None) of Some (JArray es) \<Rightarrow> TaggedMap es | _ \<Rightarrow>
     (case (if tag = Some (JString ''set'') then map_of kvs ''values'' else None) of Some (JArray vs) \<Rightarrow> TaggedSet vs | _ \<Rightarrow> Untagged)))"

fun entryPair :: "jsval \<Rightarrow> (jsval \<times> jsval) option" where
  "entryPair (JArray [k, v]) = Some (k, v)"
| "entryPair v = None"

lemma bnd_cong [fundef_cong]: "m = m' \<Longrightarrow> (\<And>x. m' = Inr x \<Longrightarrow> f x = g x) \<Longrightarrow> bnd m f = bnd m' g"
  by (cases m') auto

lemma jsval_property_size: "map_of kvs k = Some v \<Longrightarrow> size v < size (JObject kvs)"
  by (induction kvs) (auto split: if_splits)

lemma jsval_element_size: "v \<in> set vs \<Longrightarrow> size v < size (JArray vs)"
  by (induction vs) auto

lemma tagOf_properties: "tagOf kvs = TaggedMap es \<Longrightarrow> map_of kvs ''entries'' = Some (JArray es)"
    "tagOf kvs = TaggedSet vs \<Longrightarrow> map_of kvs ''values'' = Some (JArray vs)"
  by (auto simp: tagOf_def Let_def split: option.splits jsval.splits if_splits)

lemma tagged_size:
  "tagOf kvs = TaggedMap es \<Longrightarrow> e \<in> set es \<Longrightarrow> size e < size (JObject kvs)"
  "tagOf kvs = TaggedSet vs \<Longrightarrow> e \<in> set vs \<Longrightarrow> size e < size (JObject kvs)"
  using tagOf_properties jsval_property_size jsval_element_size by (meson less_trans)+

lemma entryPair_size: "entryPair e = Some kv \<Longrightarrow> size (fst kv) < size e \<and> size (snd kv) < size e"
  by (cases e rule: entryPair.cases) auto

lemma object_value_size: "(k, v) \<in> set kvs \<Longrightarrow> size v < size (JObject kvs)"
  by (induction kvs) auto

function decodeEconomyValue :: "jsval \<Rightarrow> codec_error + rich" where
  "decodeEconomyValue (JArray vs) = bnd (map_res decodeEconomyValue vs) (\<lambda>ws. Inr (RArray ws))"
| "decodeEconomyValue (JObject kvs) = (case tagOf kvs of
      TaggedBigint s \<Rightarrow> (case parseBigInt s of None \<Rightarrow> Inl (BigIntSyntaxError s) | Some n \<Rightarrow> Inr (RBigint n))
    | TaggedMap es \<Rightarrow>
        bnd (map_res (\<lambda>e. case entryPair e of None \<Rightarrow> Inl MapEntryError
            | Some kv \<Rightarrow> bnd (decodeEconomyValue (fst kv)) (\<lambda>k. bnd (decodeEconomyValue (snd kv)) (\<lambda>v. Inr (k, v)))) es)
          (\<lambda>ps. Inr (RMap (new_map ps)))
    | TaggedSet vs \<Rightarrow> bnd (map_res decodeEconomyValue vs) (\<lambda>ws. Inr (RSet (new_set ws)))
    | Untagged \<Rightarrow> bnd (map_res (\<lambda>(k, v). bnd (decodeEconomyValue v) (\<lambda>w. Inr (k, w))) kvs) (\<lambda>ps. Inr (RObject ps)))"
| "decodeEconomyValue JUndefined = Inr RUndefined"
| "decodeEconomyValue JNull = Inr RNull"
| "decodeEconomyValue (JBool b) = Inr (RBool b)"
| "decodeEconomyValue (JInt n) = Inr (RNumber n)"
| "decodeEconomyValue JNonInt = Inr RNonInt"
| "decodeEconomyValue (JString s) = Inr (RString s)"
  by pat_completeness auto

termination
proof (relation "measure size")
  show "wf (measure (size :: jsval \<Rightarrow> nat))" by simp
  show "\<And>vs x. x \<in> set vs \<Longrightarrow> (x, JArray vs) \<in> measure size" using jsval_element_size by auto
  show "\<And>kvs es e kv. tagOf kvs = TaggedMap es \<Longrightarrow> e \<in> set es \<Longrightarrow> entryPair e = Some kv \<Longrightarrow> (fst kv, JObject kvs) \<in> measure size"
    using tagged_size(1) entryPair_size by (meson in_measure less_trans)
  show "\<And>kvs es e kv x. tagOf kvs = TaggedMap es \<Longrightarrow> e \<in> set es \<Longrightarrow> entryPair e = Some kv \<Longrightarrow> decodeEconomyValue_dom (fst kv) \<Longrightarrow>
      decodeEconomyValue (fst kv) = Inr x \<Longrightarrow> (snd kv, JObject kvs) \<in> measure size"
    using tagged_size(1) entryPair_size by (meson in_measure less_trans)
  show "\<And>kvs vs x. tagOf kvs = TaggedSet vs \<Longrightarrow> x \<in> set vs \<Longrightarrow> (x, JObject kvs) \<in> measure size"
    using tagged_size(2) by simp
  show "\<And>kvs x k v. tagOf kvs = Untagged \<Longrightarrow> x \<in> set kvs \<Longrightarrow> (k, v) = x \<Longrightarrow> (v, JObject kvs) \<in> measure size"
    using object_value_size by auto
qed

section \<open>What is encoded comes back\<close>

text \<open>Values without the reserved property, whose maps and sets have primitive, distinct keys.\<close>

fun storable_value :: "rich \<Rightarrow> bool" where
  "storable_value (RArray vs) \<longleftrightarrow> list_all storable_value vs"
| "storable_value (RObject kvs) \<longleftrightarrow> TYPE_TAG \<notin> fst ` set kvs \<and> list_all (\<lambda>(k, v). storable_value v) kvs"
| "storable_value (RMap es) \<longleftrightarrow> list_all (\<lambda>(k, v). primitive k \<and> storable_value v) es \<and> distinct (map fst es)"
| "storable_value (RSet vs) \<longleftrightarrow> list_all primitive vs \<and> distinct vs"
| "storable_value v \<longleftrightarrow> True"

lemma primitive_storable: "primitive k \<Longrightarrow> storable_value k"
  by (cases k) auto

lemma map_put_new: "k \<notin> fst ` set es \<Longrightarrow> map_put k v es = es @ [(k, v)]"
  by (induction es) (auto simp: same_key_def)

lemma new_map_distinct: "distinct (map fst es) \<Longrightarrow> new_map es = es"
proof (induction es rule: rev_induct)
  case (snoc e es)
  then show ?case by (cases e) (simp add: new_map_def map_put_new)
qed (simp add: new_map_def)

lemma new_set_distinct: "distinct vs \<Longrightarrow> new_set vs = vs"
proof (induction vs rule: rev_induct)
  case (snoc v vs)
  then show ?case by (auto simp: new_set_def same_key_def)
qed (simp add: new_set_def)

lemma digit_value_digit: "is_digit c \<Longrightarrow> digit_value c = Some (of_char c - 48) \<and> (of_char c :: nat) - 48 < 10"
  by (auto simp: is_digit_def digit_value_def)

lemma radix_digits_decimal: "digits s \<Longrightarrow> radix_digits 10 s = Some (bigint_of s)"
proof -
  assume s: "digits s"
  have "fold (\<lambda>c n. int 10 * n + int (case digit_value c of None \<Rightarrow> 0 | Some d \<Rightarrow> d)) t m = fold (\<lambda>c n. 10 * n + int (of_char c - 48)) t m"
    if "set t \<subseteq> set s" for t m
    using that s by (induction t arbitrary: m) (auto simp: digits_def digit_value_digit)
  moreover have "(case digit_value c of None \<Rightarrow> True | Some d \<Rightarrow> 10 \<le> d) = False" if "c \<in> set s" for c
    using s that digit_value_digit [of c] by (auto simp: digits_def)
  ultimately show ?thesis using s by (auto simp: radix_digits_def bigint_of_def digits_def)
qed

lemma digit_not_space: "is_digit c \<Longrightarrow> \<not> js_space c"
  by (auto simp: is_digit_def js_space_def)

lemma js_trim_id: "s \<noteq> [] \<Longrightarrow> \<not> js_space (hd s) \<Longrightarrow> \<not> js_space (last s) \<Longrightarrow> js_trim s = s"
proof -
  assume s: "s \<noteq> []" "\<not> js_space (hd s)" "\<not> js_space (last s)"
  have "dropWhile js_space (rev s) = rev s" using s by (cases "rev s") (auto simp: hd_rev [symmetric])
  then show ?thesis using s by (cases s) (simp_all add: js_trim_def)
qed

lemma nat_str_chars: "nat_str n \<noteq> []" "c \<in> set (nat_str n) \<Longrightarrow> is_digit c"
  using digits_nat_str [of n] by (auto simp: digits_def)

lemma parseBigInt_digits:
  assumes "digits s" "hd s = CHR ''0'' \<longrightarrow> s = ''0''"
  shows "parseBigInt s = Some (bigint_of s)"
proof -
  obtain c t where s: "s = c # t" using assms(1) by (cases s) (auto simp: digits_def)
  have c: "is_digit c" "is_digit (last s)" using assms(1) by (auto simp: s digits_def)
  then have "js_trim s = c # t" using js_trim_id [of s] digit_not_space by (simp add: s)
  moreover have "c \<noteq> CHR ''-''" "c \<noteq> CHR ''+''" using c(1) by (auto simp: is_digit_def)
  moreover have "\<not> (c = CHR ''0'' \<and> t \<noteq> [])" using assms(2) by (simp add: s)
  ultimately show ?thesis using radix_digits_decimal [OF assms(1)] by (auto simp: parseBigInt_def s)
qed

lemma parseBigInt_int_str: "parseBigInt (int_str n) = Some n"
proof (cases "n < 0")
  case True
  let ?t = "nat_str (nat (- n))"
  have "is_digit (last ?t)" by (rule nat_str_chars(2) [OF last_in_set [OF nat_str_chars(1)]])
  then have "js_trim (CHR ''-'' # ?t) = CHR ''-'' # ?t"
    using js_trim_id [of "CHR ''-'' # ?t"] nat_str_chars(1) digit_not_space by (simp add: js_space_def)
  then have "parseBigInt (CHR ''-'' # ?t) = Some n"
    using True radix_digits_decimal [OF digits_nat_str] by (simp add: parseBigInt_def bigint_of_nat_str)
  then show ?thesis using True by (simp add: int_str_def)
next
  case False
  have "hd (nat_str (nat n)) = CHR ''0'' \<longrightarrow> nat_str (nat n) = ''0''"
  proof (cases "n = 0")
    case True
    then show ?thesis by (simp add: nat_str.simps)
  next
    case nz: False
    then show ?thesis using nat_str_head [of "nat n"] False by simp
  qed
  then show ?thesis using False parseBigInt_digits [OF digits_nat_str] by (simp add: int_str_def bigint_of_nat_str)
qed

lemma tagOf_untagged: "TYPE_TAG \<notin> fst ` set kvs \<Longrightarrow> tagOf kvs = Untagged"
  by (simp add: tagOf_def map_of_eq_None_iff [THEN iffD2])

lemma map_res_map: "(\<And>x. x \<in> set xs \<Longrightarrow> f (g x) = Inr (h x)) \<Longrightarrow> map_res f (map g xs) = Inr (map h xs)"
  by (induction xs) auto

lemma decode_encode: "storable_value v \<Longrightarrow> decodeEconomyValue (encodeEconomyValue v) = Inr v"
proof (induction v)
  case (RBigint n)
  then show ?case by (simp add: tagOf_def TYPE_TAG_def parseBigInt_int_str)
next
  case (RArray vs)
  have "map_res decodeEconomyValue (map encodeEconomyValue vs) = Inr (map id vs)"
    by (rule map_res_map) (use RArray in \<open>auto simp: list_all_iff\<close>)
  then show ?case by simp
next
  case (RObject kvs)
  let ?f = "\<lambda>(k, v). (k, encodeEconomyValue v)"
  have "map_res (\<lambda>(k, v). bnd (decodeEconomyValue v) (\<lambda>w. Inr (k, w))) (map ?f kvs) = Inr (map id kvs)"
    by (rule map_res_map) (use RObject in \<open>force simp: list_all_iff\<close>)
  moreover have "tagOf (map ?f kvs) = Untagged" by (rule tagOf_untagged) (use RObject in force)
  ultimately show ?case by simp
next
  case (RMap es)
  let ?es = "map (\<lambda>(k, v). JArray [encodeEconomyValue k, encodeEconomyValue v]) es"
  have "map_res (\<lambda>e. case entryPair e of None \<Rightarrow> Inl MapEntryError
      | Some kv \<Rightarrow> bnd (decodeEconomyValue (fst kv)) (\<lambda>k. bnd (decodeEconomyValue (snd kv)) (\<lambda>v. Inr (k, v)))) ?es = Inr (map id es)"
    by (rule map_res_map) (use RMap in \<open>force simp: list_all_iff primitive_storable\<close>)
  moreover have "tagOf [(TYPE_TAG, JString ''map''), (''entries'', JArray ?es)] = TaggedMap ?es" by (simp add: tagOf_def TYPE_TAG_def)
  moreover have "new_map es = es" using RMap.prems by (simp add: new_map_distinct)
  ultimately show ?case by simp
next
  case (RSet vs)
  have "map_res decodeEconomyValue (map encodeEconomyValue vs) = Inr (map id vs)"
    by (rule map_res_map) (use RSet in \<open>auto simp: list_all_iff primitive_storable\<close>)
  moreover have "tagOf [(TYPE_TAG, JString ''set''), (''values'', JArray ws)] = TaggedSet ws" for ws by (simp add: tagOf_def TYPE_TAG_def)
  moreover have "new_set vs = vs" using RSet.prems by (simp add: new_set_distinct)
  ultimately show ?case by simp
qed simp_all



end
