(* ===== verification/StoreDb.thy ===== *)
theory StoreDb
  imports EconomyCodec Identity
begin

text \<open>
  The tables of mailbox, economy state, outbox and event log, after \<open>packages/db/src/schema\<close>, beside
  the platform tables; conventions as in \<open>WorldDb\<close>. Times are milliseconds. A JSON column holds the
  value it was given; the effects a dispatcher delivers keep their decoded form.
\<close>

datatype store_error =
    StorePlatform platform_error
  | StoreEconomy economy_error
  | StoreCodec codec_error
  | StorePlain string
  | StoreRange string
  | StoreType string
  | EconomyStateConflictError string "int option"
  | EconomyEffectWorldConflictError string string
  | EconomyCashWriterBindingError string
  | EconomyOutboxDrainLimitError string int
  | RecipientNotFoundError string string
  | MessageNotFoundError string string
  | MessageReplayConflictError

section \<open>Rows\<close>

record message_row =
  mmId :: string
  mmWorldId :: string
  mmRecipientAccountId :: string
  mmIdempotencyKey :: "string option"
  mmContentHash :: "string option"
  mmPurgedAt :: "int option"
  mmMessageType :: string
  mmPayload :: rich
  mmSentAt :: int
  mmDeadlineAt :: "int option"
  mmAcknowledgedAt :: "int option"

record state_row =
  srWorldId :: string
  srRevision :: int
  srState :: jsval
  srUpdatedAt :: int

datatype effect_type = JournalEffect | NoticeEffect

record outbox_row =
  obId :: string
  obWorldId :: string
  obEffectId :: string
  obEffectType :: effect_type
  obPayload :: jsval
  obOccurredAt :: int
  obEnqueuedAt :: int
  obProcessedAt :: "int option"
  obAttempts :: int
  obLastErrorCode :: "string option"

record event_row =
  evId :: string
  evWorldId :: string
  evSequence :: int
  evEventType :: string
  evPayload :: "(string \<times> econ_value) list"
  evOccurredAt :: int

record effect_row =
  efId :: string
  efWorldId :: string
  efEffectId :: string
  efEffectType :: effect_type
  efProcessedAt :: int

record store =
  stDb :: db
  stMessages :: "message_row list"
  stStates :: "state_row list"
  stOutbox :: "outbox_row list"
  stEvents :: "event_row list"
  stEffects :: "effect_row list"

section \<open>Dates and integers\<close>

text \<open>\<open>integer\<close> columns, and the times a \<open>Date\<close> can hold.\<close>

definition is_i32 :: "int \<Rightarrow> bool" where
  "is_i32 x \<longleftrightarrow> - (2 ^ 31) \<le> x \<and> x < 2 ^ 31"

definition valid_date :: "int \<Rightarrow> bool" where
  "valid_date ms \<longleftrightarrow> - 8640000000000000 \<le> ms \<and> ms \<le> 8640000000000000"

text \<open>\<open>new Date(s * 1_000)\<close>, which the driver can only send when it is a time.\<close>

definition dateOfSeconds :: "int \<Rightarrow> store_error + int" where
  "dateOfSeconds s = invariant (valid_date (js_mul s 1000)) (StoreRange ''Invalid time value'') (Inr (js_mul s 1000))"

section \<open>Draws and insertions\<close>

definition drawUuid :: "store \<Rightarrow> string \<times> store" where
  "drawUuid d = (nextUuid (stDb d), d\<lparr>stDb := (stDb d)\<lparr>dbDraws := Suc (dbDraws (stDb d))\<rparr>\<rparr>)"

definition insertMessage :: "message_row \<Rightarrow> store \<Rightarrow> store_error + message_row \<times> store" where
  "insertMessage row d =
     (let (i, d') = drawUuid d; r = row\<lparr>mmId := i\<rparr> in
      invariant (\<forall>m \<in> set (stMessages d). mmId m \<noteq> i) (StorePlatform (ConstraintViolation ''mailbox_messages_pkey''))
     (invariant (\<exists>a \<in> set (dbAccounts (stDb d)). acWorldId a = mmWorldId row \<and> acId a = mmRecipientAccountId row)
        (StorePlatform (ConstraintViolation ''mailbox_messages_world_recipient_fk''))
     (Inr (r, d'\<lparr>stMessages := stMessages d @ [r]\<rparr>))))"

definition outboxKeyTaken :: "store \<Rightarrow> outbox_row \<Rightarrow> bool" where
  "outboxKeyTaken d row \<longleftrightarrow> (\<exists>r \<in> set (stOutbox d). obWorldId r = obWorldId row \<and> obEffectType r = obEffectType row \<and> obEffectId r = obEffectId row)"

text \<open>\<open>insert ... on conflict (world, type, effect) do nothing\<close>, row by row.\<close>

definition insertOutboxRow :: "outbox_row \<Rightarrow> store \<Rightarrow> store_error + store" where
  "insertOutboxRow row d =
     (let (i, d') = drawUuid d in
      if outboxKeyTaken d row then Inr d'
      else invariant (\<forall>r \<in> set (stOutbox d). obId r \<noteq> i) (StorePlatform (ConstraintViolation ''economy_outbox_pkey''))
          (invariant (worldExists (stDb d) (obWorldId row)) (StorePlatform (ConstraintViolation ''economy_outbox_world_id''))
          (Inr (d'\<lparr>stOutbox := stOutbox d @ [row\<lparr>obId := i\<rparr>]\<rparr>))))"

definition insertEventRow :: "event_row \<Rightarrow> store \<Rightarrow> store_error + store" where
  "insertEventRow row d =
     (let (i, d') = drawUuid d in
      invariant (\<forall>r \<in> set (stEvents d). evId r \<noteq> i) (StorePlatform (ConstraintViolation ''domain_events_pkey''))
     (invariant (\<forall>r \<in> set (stEvents d). \<not> (evWorldId r = evWorldId row \<and> evSequence r = evSequence row))
        (StorePlatform (ConstraintViolation ''domain_events_world_sequence_idx''))
     (invariant (worldExists (stDb d) (evWorldId row)) (StorePlatform (ConstraintViolation ''domain_events_world_id''))
     (Inr (d'\<lparr>stEvents := stEvents d @ [row\<lparr>evId := i\<rparr>]\<rparr>)))))"

definition insertEffectRow :: "effect_row \<Rightarrow> store \<Rightarrow> store_error + store" where
  "insertEffectRow row d =
     (let (i, d') = drawUuid d in
      if \<exists>r \<in> set (stEffects d). efWorldId r = efWorldId row \<and> efEffectType r = efEffectType row \<and> efEffectId r = efEffectId row then Inr d'
      else invariant (\<forall>r \<in> set (stEffects d). efId r \<noteq> i) (StorePlatform (ConstraintViolation ''economy_effects_pkey''))
          (invariant (worldExists (stDb d) (efWorldId row)) (StorePlatform (ConstraintViolation ''economy_effects_world_id''))
          (Inr (d'\<lparr>stEffects := stEffects d @ [row\<lparr>efId := i\<rparr>]\<rparr>))))"

text \<open>The world state has the world as its primary key.\<close>

definition insertStateRow :: "state_row \<Rightarrow> store \<Rightarrow> store_error + bool \<times> store" where
  "insertStateRow row d =
     invariant (is_i32 (srRevision row)) (StorePlatform (ConstraintViolation ''integer out of range''))
    (if \<exists>r \<in> set (stStates d). srWorldId r = srWorldId row then Inr (False, d)
     else invariant (worldExists (stDb d) (srWorldId row)) (StorePlatform (ConstraintViolation ''economy_world_states_world_id''))
         (Inr (True, d\<lparr>stStates := stStates d @ [row]\<rparr>)))"

definition updateStateRow :: "int \<Rightarrow> state_row \<Rightarrow> store \<Rightarrow> store_error + bool \<times> store" where
  "updateStateRow expectedRevision row d =
     (let fits = (\<lambda>r. srWorldId r = srWorldId row \<and> srRevision r = expectedRevision) in
      if \<not> (\<exists>r \<in> set (stStates d). fits r) then Inr (False, d)
      else invariant (is_i32 (srRevision row)) (StorePlatform (ConstraintViolation ''integer out of range''))
        (Inr (True, d\<lparr>stStates := map (\<lambda>r. if fits r then row else r) (stStates d)\<rparr>)))"

end
