(* ===== verification/EconomyStore.thy ===== *)
theory EconomyStore
  imports StoreDb
begin

text \<open>
  The persistent state of an economy world with its transactional outbox,
  \<open>packages/economy/src/state-store.ts\<close>. A function is one request; statements that run in a
  transaction leave no state when they fail, those of the dispatcher do. The adapters of the
  dispatcher are arguments: whatever else changes the store meanwhile is part of them.
\<close>

section \<open>Journals and notices as values\<close>

primrec richOf :: "econ_value \<Rightarrow> rich" where
  "richOf VUndefined = RUndefined"
| "richOf VNull = RNull"
| "richOf (VBool b) = RBool b"
| "richOf (VNumber n) = RNumber n"
| "richOf (VBigint n) = RBigint n"
| "richOf (VString s) = RString s"
| "richOf (VArray vs) = RArray (map richOf vs)"
| "richOf (VObject kvs) = RObject (map (map_prod id richOf) kvs)"

definition postingValue :: "classified_posting \<Rightarrow> rich" where
  "postingValue p = RObject [(''amountCents'', RBigint (cpAmountCents p)), (''costType'', RString (cost_type_text (cpCostType p))),
     (''costCentreId'', RString (cpCostCentreId p)), (''reference'', RString (cpReference p))]"

definition evidenceValue :: "fare_evidence \<Rightarrow> rich" where
  "evidenceValue e = RObject [(''schemaVersion'', RString (feSchemaVersion e)), (''worldId'', RString (feWorldId e)),
     (''operatorId'', RString (feOperatorId e)), (''contractId'', RString (feContractId e)),
     (''journalEffectId'', RString (feJournalEffectId e)), (''economyReleaseHash'', RString (feEconomyReleaseHash e)),
     (''serviceStartMs'', RNumber (feServiceStartMs e)), (''serviceEndMs'', RNumber (feServiceEndMs e)),
     (''settledAtMs'', RNumber (feSettledAtMs e)), (''orderingFeeCents'', RString (feOrderingFeeCents e)),
     (''bonusCents'', RString (feBonusCents e)), (''penaltyCents'', RString (fePenaltyCents e)),
     (''contentHash'', RString (feContentHash e))]"

definition journalValue :: "journal_entry \<Rightarrow> rich" where
  "journalValue j = RObject ([(''worldId'', RString (jeWorldId j)), (''operatorId'', RString (jeOperatorId j)),
     (''idempotencyKey'', RString (jeIdempotencyKey j)), (''at'', RNumber (jeAt j)), (''description'', RString (jeDescription j)),
     (''postings'', RArray (map postingValue (jePostings j))), (''revenueCents'', RBigint (jeRevenueCents j))] @
     (case jeContractRevenueEvidence j of None \<Rightarrow> [] | Some e \<Rightarrow> [(''contractRevenueEvidence'', evidenceValue e)]))"

definition noticeValue :: "economy_notice \<Rightarrow> rich" where
  "noticeValue n = RObject [(''id'', RString (noId n)), (''worldId'', RString (noWorldId n)),
     (''recipientAccountId'', RString (noRecipientAccountId n)), (''type'', RString (noType n)), (''at'', RNumber (noAt n)),
     (''payload'', richOf (noPayload n))]"

text \<open>\<open>value[key]\<close> of an object.\<close>

fun rprop :: "rich \<Rightarrow> string \<Rightarrow> rich" where
  "rprop (RObject kvs) k = (case map_of kvs k of None \<Rightarrow> RUndefined | Some v \<Rightarrow> v)"
| "rprop v k = RUndefined"

fun isObject :: "rich \<Rightarrow> bool" where
  "isObject (RObject kvs) = True"
| "isObject (RMap es) = True"
| "isObject (RSet vs) = True"
| "isObject v = False"

definition coded :: "codec_error + 'a \<Rightarrow> store_error + 'a" where
  "coded r = map_sum StoreCodec id r"

section \<open>The cash of an operator\<close>

definition lockEconomyCashWriter :: "string \<Rightarrow> string \<Rightarrow> store \<Rightarrow> store_error + unit" where
  "lockEconomyCashWriter worldId operatorId d =
     invariant (operatorExists (stDb d) worldId operatorId) (EconomyCashWriterBindingError ''EVU'') (Inr ())"

definition addPostingCost :: "rich \<Rightarrow> int \<Rightarrow> store_error + int" where
  "addPostingCost posting costs =
     (case rprop posting ''amountCents'' of
        RBigint n \<Rightarrow> invariant (isObject posting \<and> \<not> n < 0) (EconomyCashWriterBindingError ''Kostenbuchung'') (Inr (costs + n))
      | _ \<Rightarrow> Inl (EconomyCashWriterBindingError ''Kostenbuchung''))"

record cash_delta =
  cdOperatorId :: string
  cdIdempotencyKey :: string
  cdCashDeltaCents :: int

definition pendingJournalCashDelta :: "jsval \<Rightarrow> string \<Rightarrow> string \<Rightarrow> store_error + cash_delta" where
  "pendingJournalCashDelta payload worldId effectId =
     bnd (coded (decodeEconomyValue payload)) (\<lambda>entry.
     invariant (isObject entry) (EconomyCashWriterBindingError ''Objektformat'')
    (case (rprop entry ''operatorId'', rprop entry ''revenueCents'', rprop entry ''postings'') of
       (RString operatorId, RBigint revenue, RArray postings) \<Rightarrow>
         invariant (rprop entry ''worldId'' = RString worldId \<and> \<not> blank operatorId \<and> rprop entry ''idempotencyKey'' = RString effectId)
           (EconomyCashWriterBindingError ''Referenz'')
        (bnd (fold_res addPostingCost postings 0) (\<lambda>costs.
         Inr \<lparr>cdOperatorId = operatorId, cdIdempotencyKey = effectId, cdCashDeltaCents = revenue - costs\<rparr>))
     | _ \<Rightarrow> Inl (EconomyCashWriterBindingError ''Referenz'')))"

record cash_availability =
  avLedgerBalanceCents :: int
  avPendingDebitCents :: int
  avAvailableCents :: int

definition pendingJournals :: "store \<Rightarrow> string \<Rightarrow> outbox_row list" where
  "pendingJournals d worldId =
     filter (\<lambda>r. obWorldId r = worldId \<and> obEffectType r = JournalEffect \<and> obProcessedAt r = None) (stOutbox d)"

text \<open>The left join: the row with each of its transactions, or with none.\<close>

definition withBooking :: "store \<Rightarrow> string \<Rightarrow> outbox_row \<Rightarrow> (outbox_row \<times> string option) list" where
  "withBooking d operatorId r =
     (case filter (\<lambda>t. ltWorldId t = obWorldId r \<and> ltOperatorId t = operatorId \<and> ltIdempotencyKey t = Some (obEffectId r))
             (dbLedgerTransactions (stDb d)) of
        [] \<Rightarrow> [(r, None)] | ts \<Rightarrow> map (\<lambda>t. (r, Some (ltId t))) ts)"

definition addPendingDebit :: "string \<Rightarrow> outbox_row \<times> string option \<Rightarrow> int \<Rightarrow> store_error + int" where
  "addPendingDebit operatorId row debit =
     bnd (pendingJournalCashDelta (obPayload (fst row)) (obWorldId (fst row)) (obEffectId (fst row))) (\<lambda>j.
     Inr (if cdOperatorId j \<noteq> operatorId \<or> snd row \<noteq> None then debit
          else if cdCashDeltaCents j < 0 then debit + - cdCashDeltaCents j else debit))"

definition loadEconomyCashAvailabilityForUpdate :: "string \<Rightarrow> string \<Rightarrow> string \<Rightarrow> store \<Rightarrow> store_error + cash_availability" where
  "loadEconomyCashAvailabilityForUpdate worldId operatorId cashAccountId d =
     bnd (lockEconomyCashWriter worldId operatorId d) (\<lambda>_.
     invariant (\<exists>a \<in> set (dbLedgerAccounts (stDb d)). laWorldId a = worldId \<and> laOperatorId a = operatorId \<and> laId a = cashAccountId)
       (EconomyCashWriterBindingError ''Cash-Konto'')
    (let balance = fold (\<lambda>e s. s + leAmountCents e)
           (filter (\<lambda>e. leWorldId e = worldId \<and> leAccountId e = cashAccountId) (dbLedgerEntries (stDb d))) 0
     in bnd (fold_res (addPendingDebit operatorId) (concat (map (withBooking d operatorId) (pendingJournals d worldId))) 0) (\<lambda>debit.
        Inr \<lparr>avLedgerBalanceCents = balance, avPendingDebitCents = debit, avAvailableCents = balance - debit\<rparr>)))"

section \<open>Storing a transition\<close>

text \<open>A state as a value: the two properties the store reads, and the others.\<close>

record stored_state =
  ssWorldId :: string
  ssRevision :: int
  ssRest :: "(string \<times> rich) list"

definition stateValue :: "stored_state \<Rightarrow> rich" where
  "stateValue s = RObject ((''worldId'', RString (ssWorldId s)) # (''revision'', RNumber (ssRevision s)) # ssRest s)"

record stored_transition =
  tiExpectedRevision :: "int option"
  tiState :: stored_state
  tiEffects :: effects
  tiCommittedAt :: int
  tiEnqueuedAt :: "int option"

definition journalBound :: "string \<Rightarrow> journal_entry \<Rightarrow> bool" where
  "journalBound worldId j \<longleftrightarrow> \<not> (jeWorldId j \<noteq> worldId \<or> blank (jeOperatorId j) \<or> blank (jeIdempotencyKey j))"

definition checkRuntimeEvent :: "string \<Rightarrow> runtime_event \<Rightarrow> unit \<Rightarrow> store_error + unit" where
  "checkRuntimeEvent worldId e u =
     invariant (\<not> rvWorldId e \<noteq> worldId) (StorePlain ''Weltisolation'')
    (invariant (\<not> (\<not> is_safe (rvAtS e) \<or> rvAtS e < 0)) (StorePlain ''Simulationszeit'') (Inr ()))"

definition outboxRow :: "string \<Rightarrow> int \<Rightarrow> effect_type \<Rightarrow> string \<Rightarrow> rich \<Rightarrow> int \<Rightarrow> store_error + outbox_row" where
  "outboxRow worldId enqueuedAt effectType effectId payload atS =
     bnd (dateOfSeconds atS) (\<lambda>occurredAt.
     Inr \<lparr>obId = [], obWorldId = worldId, obEffectId = effectId, obEffectType = effectType, obPayload = encodeEconomyValue payload,
       obOccurredAt = occurredAt, obEnqueuedAt = enqueuedAt, obProcessedAt = None, obAttempts = 0, obLastErrorCode = None\<rparr>)"

definition outboxRows :: "string \<Rightarrow> int \<Rightarrow> effects \<Rightarrow> store_error + outbox_row list" where
  "outboxRows worldId enqueuedAt fx =
     bnd (map_res (\<lambda>j. outboxRow worldId enqueuedAt JournalEffect (jeIdempotencyKey j) (journalValue j) (jeAt j)) (efJournal fx)) (\<lambda>js.
     bnd (map_res (\<lambda>n. outboxRow worldId enqueuedAt NoticeEffect (noId n) (noticeValue n) (noAt n)) (efNotices fx)) (\<lambda>ns.
     Inr (js @ ns)))"

definition lastSequence :: "store \<Rightarrow> string \<Rightarrow> int" where
  "lastSequence d worldId =
     (case sort_by (\<lambda>a b. evSequence b - evSequence a) (filter (\<lambda>e. evWorldId e = worldId) (stEvents d)) of
        [] \<Rightarrow> 0 | e # _ \<Rightarrow> evSequence e)"

text \<open>\<open>{ ...payload, worldId, runtimeEventId }\<close>.\<close>

definition eventRow :: "string \<Rightarrow> int \<Rightarrow> runtime_event \<Rightarrow> store_error + event_row" where
  "eventRow worldId sequence e =
     bnd (dateOfSeconds (rvAtS e)) (\<lambda>occurredAt.
     Inr \<lparr>evId = [], evWorldId = worldId, evSequence = sequence, evEventType = rvEventType e,
       evPayload = AList.update ''runtimeEventId'' (VString (rvEventId e)) (AList.update ''worldId'' (VString (rvWorldId e)) (rvPayload e)),
       evOccurredAt = occurredAt\<rparr>)"

definition appendEvents :: "string \<Rightarrow> runtime_event list \<Rightarrow> store \<Rightarrow> store_error + store" where
  "appendEvents worldId events d =
     (if length events > 0 then
        (let firstSequence = lastSequence d worldId + 1 in
         invariant (is_safe (js_sub (js_add firstSequence (int (length events))) 1)) (StorePlain ''Domain-Ereignissequenz'')
        (bnd (map_res (\<lambda>(i, e). eventRow worldId (firstSequence + int i) e) (enumerate 0 events)) (\<lambda>rows.
         fold_res insertEventRow rows d)))
      else Inr d)"

definition writeState :: "int option \<Rightarrow> state_row \<Rightarrow> store \<Rightarrow> store_error + bool \<times> store" where
  "writeState expected row d =
     (case expected of None \<Rightarrow> insertStateRow row d | Some r \<Rightarrow> updateStateRow r row d)"

definition persistEconomyTransition :: "stored_transition \<Rightarrow> store \<Rightarrow> store_error + store" where
  "persistEconomyTransition input d =
     (let state = tiState input; worldId = ssWorldId state; fx = tiEffects input; expected = tiExpectedRevision input in
      invariant (\<not> (case expected of None \<Rightarrow> False | Some r \<Rightarrow> ssRevision state \<le> r)) (EconomyStateConflictError worldId expected)
     (invariant (\<not> (expected = None \<and> ssRevision state \<noteq> 0)) (EconomyStateConflictError worldId None)
     (invariant (list_all (journalBound worldId) (efJournal fx)) (EconomyCashWriterBindingError ''Referenz'')
     (case tiEnqueuedAt input of
        None \<Rightarrow> Inl (StoreRange ''Economy-Outbox-Zeit'')
      | Some enqueuedAt \<Rightarrow>
          bnd (fold_res (checkRuntimeEvent worldId) (efRuntimeEvents fx) ()) (\<lambda>_.
          bnd (writeState expected \<lparr>srWorldId = worldId, srRevision = ssRevision state, srState = encodeEconomyValue (stateValue state),
                 srUpdatedAt = tiCommittedAt input\<rparr> d) (\<lambda>(written, d1).
          invariant written (EconomyStateConflictError worldId expected)
         (bnd (fold_res (\<lambda>operatorId u. lockEconomyCashWriter worldId operatorId d1)
                (sort_by compareText (remdups (map jeOperatorId (efJournal fx)))) ()) (\<lambda>_.
          bnd (outboxRows worldId enqueuedAt fx) (\<lambda>rows.
          bnd (fold_res insertOutboxRow rows d1) (\<lambda>d2.
          appendEvents worldId (efRuntimeEvents fx) d2))))))))))"

section \<open>Loading\<close>

text \<open>The two indexes a state stored long ago may lack; \<open>{ ...state, key: value }\<close>.\<close>

fun withProperty :: "string \<Rightarrow> rich \<Rightarrow> rich \<Rightarrow> rich" where
  "withProperty k v (RObject kvs) = RObject (AList.update k v kvs)"
| "withProperty k v other = other"

definition decodeStoredEconomyWorldState :: "jsval \<Rightarrow> store_error + rich" where
  "decodeStoredEconomyWorldState value =
     bnd (coded (decodeEconomyValue value)) (\<lambda>state.
     Inr (let runtime = rprop state ''operatingRuntimeByLot'' in
       if rprop state ''tenderAutomation'' = RUndefined then
         withProperty ''operatingRuntimeByLot'' (if runtime = RUndefined \<or> runtime = RNull then RMap [] else runtime)
           (withProperty ''tenderAutomation'' (RMap []) state)
       else if runtime = RUndefined then withProperty ''operatingRuntimeByLot'' (RMap []) state
       else state))"

definition loadEconomyWorldState :: "string \<Rightarrow> store \<Rightarrow> store_error + rich option" where
  "loadEconomyWorldState worldId d =
     (case find (\<lambda>r. srWorldId r = worldId) (stStates d) of
        None \<Rightarrow> Inr None
      | Some r \<Rightarrow> bnd (decodeStoredEconomyWorldState (srState r)) (\<lambda>s. Inr (Some s)))"

definition worldActive :: "store \<Rightarrow> string \<Rightarrow> bool" where
  "worldActive d worldId \<longleftrightarrow> (\<exists>w \<in> set (dbWorlds (stDb d)). woId w = worldId \<and> woLifecycle w = WorldActive)"

definition listEconomyWorldIds :: "store \<Rightarrow> string list" where
  "listEconomyWorldIds d = sort_by compareText (filter (worldActive d) (map srWorldId (stStates d)))"

definition listPendingEconomyOutboxWorldIds :: "store \<Rightarrow> string list" where
  "listPendingEconomyOutboxWorldIds d =
     sort_by compareText (remdups (filter (worldActive d) (map obWorldId (filter (\<lambda>r. obProcessedAt r = None) (stOutbox d)))))"

definition loadEconomyWorldEpoch :: "string \<Rightarrow> store \<Rightarrow> store_error + int" where
  "loadEconomyWorldEpoch worldId d =
     (case find (\<lambda>w. woId w = worldId) (dbWorlds (stDb d)) of None \<Rightarrow> Inl (StorePlain ''Weltepoche'') | Some w \<Rightarrow> Inr (woEpoch w))"

section \<open>The outbox\<close>

record pending_effect =
  peId :: string
  peWorldId :: string
  peEffectId :: string
  peEffectType :: effect_type
  pePayload :: rich
  peAttempts :: int

definition compareQueue :: "outbox_row \<Rightarrow> outbox_row \<Rightarrow> int" where
  "compareQueue a b = (if obEnqueuedAt a \<noteq> obEnqueuedAt b then obEnqueuedAt a - obEnqueuedAt b else compareText (obId a) (obId b))"

definition pendingEffect :: "outbox_row \<Rightarrow> store_error + pending_effect" where
  "pendingEffect r = bnd (coded (decodeEconomyValue (obPayload r))) (\<lambda>payload.
     Inr \<lparr>peId = obId r, peWorldId = obWorldId r, peEffectId = obEffectId r, peEffectType = obEffectType r, pePayload = payload,
       peAttempts = obAttempts r\<rparr>)"

definition isPending :: "string \<Rightarrow> outbox_row \<Rightarrow> bool" where
  "isPending worldId r \<longleftrightarrow> obWorldId r = worldId \<and> obProcessedAt r = None"

definition listPendingEconomyEffects :: "string \<Rightarrow> int \<Rightarrow> store \<Rightarrow> store_error + pending_effect list" where
  "listPendingEconomyEffects worldId limit d =
     invariant (\<not> (\<not> is_safe limit \<or> limit < 1 \<or> limit > 1000)) (StoreRange ''Outbox-Limit'')
    (map_res pendingEffect (take (nat limit) (sort_by compareQueue (filter (isPending worldId) (stOutbox d)))))"

text \<open>An adapter changes the store even when it fails.\<close>

type_synonym adapter = "rich \<Rightarrow> store \<Rightarrow> store \<times> (store_error + unit)"

definition updateOutbox :: "(outbox_row \<Rightarrow> bool) \<Rightarrow> (outbox_row \<Rightarrow> outbox_row) \<Rightarrow> store \<Rightarrow> store" where
  "updateOutbox p f d = d\<lparr>stOutbox := map (\<lambda>r. if p r then f r else r) (stOutbox d)\<rparr>"

definition pendingRow :: "string \<Rightarrow> string \<Rightarrow> outbox_row \<Rightarrow> bool" where
  "pendingRow worldId i r \<longleftrightarrow> obWorldId r = worldId \<and> obId r = i \<and> obProcessedAt r = None"

text \<open>
  \<open>error.name\<close> of an error that is not a plain one. What the driver of the database names its errors is
  left open: a violated constraint counts as a plain error here.
\<close>

definition errorCode :: "store_error \<Rightarrow> string" where
  "errorCode e = (case e of
       StoreRange m \<Rightarrow> ''RangeError'' | StoreType m \<Rightarrow> ''TypeError''
     | StoreCodec (BigIntSyntaxError t) \<Rightarrow> ''SyntaxError''
     | EconomyStateConflictError w r \<Rightarrow> ''EconomyStateConflictError''
     | EconomyEffectWorldConflictError i w \<Rightarrow> ''EconomyEffectWorldConflictError''
     | EconomyCashWriterBindingError m \<Rightarrow> ''EconomyCashWriterBindingError''
     | RecipientNotFoundError w r \<Rightarrow> ''RecipientNotFoundError''
     | MessageReplayConflictError \<Rightarrow> ''MessageReplayConflictError''
     | StorePlatform (IncompleteTransactionError) \<Rightarrow> ''IncompleteTransactionError''
     | StorePlatform (UnbalancedTransactionError n) \<Rightarrow> ''UnbalancedTransactionError''
     | StorePlatform (ForeignLedgerAccountError i) \<Rightarrow> ''ForeignLedgerAccountError''
     | StorePlatform (IdempotentLedgerContentConflictError w p k) \<Rightarrow> ''IdempotentLedgerContentConflictError''
     | _ \<Rightarrow> ''dispatch_failed'')"

text \<open>Acknowledging a delivered effect; \<open>Inr n\<close> is the number to count.\<close>

definition acknowledgeEffect :: "string \<Rightarrow> int \<Rightarrow> pending_effect \<Rightarrow> store \<Rightarrow> store \<times> (store_error + int)" where
  "acknowledgeEffect worldId processedAt effect d =
     (if \<exists>r \<in> set (stOutbox d). pendingRow worldId (peId effect) r
      then (updateOutbox (pendingRow worldId (peId effect)) (\<lambda>r. r\<lparr>obProcessedAt := Some processedAt, obLastErrorCode := None\<rparr>) d, Inr 1)
      else (d, case find (\<lambda>r. obWorldId r = worldId \<and> obId r = peId effect) (stOutbox d) of
              None \<Rightarrow> Inl (EconomyEffectWorldConflictError (peId effect) worldId)
            | Some r \<Rightarrow> if obProcessedAt r = None then Inl (EconomyEffectWorldConflictError (peId effect) worldId) else Inr 0))"

definition deliverEffect :: "adapter \<Rightarrow> adapter \<Rightarrow> string \<Rightarrow> int \<Rightarrow> pending_effect \<Rightarrow> store \<Rightarrow> store \<times> (store_error + int)" where
  "deliverEffect postJournal sendNotice worldId processedAt effect d =
     (let (d1, r) = (if peEffectType effect = JournalEffect then postJournal else sendNotice) (pePayload effect) d;
          (d2, n) = (case r of Inl e \<Rightarrow> (d1, Inl e) | Inr _ \<Rightarrow> acknowledgeEffect worldId processedAt effect d1)
      in case n of
           Inr k \<Rightarrow> (d2, Inr k)
         | Inl e \<Rightarrow> (updateOutbox (pendingRow worldId (peId effect))
             (\<lambda>r. r\<lparr>obAttempts := obAttempts r + 1, obLastErrorCode := Some (errorCode e)\<rparr>) d2, Inl e))"

fun dispatchEffects :: "adapter \<Rightarrow> adapter \<Rightarrow> string \<Rightarrow> int \<Rightarrow> pending_effect list \<Rightarrow> int \<Rightarrow> store \<Rightarrow> store \<times> (store_error + int)" where
  "dispatchEffects postJournal sendNotice worldId processedAt [] processed d = (d, Inr processed)"
| "dispatchEffects postJournal sendNotice worldId processedAt (effect # rest) processed d =
     (case deliverEffect postJournal sendNotice worldId processedAt effect d of
        (d', Inl e) \<Rightarrow> (d', Inl e)
      | (d', Inr n) \<Rightarrow> dispatchEffects postJournal sendNotice worldId processedAt rest (processed + n) d')"

definition dispatchEconomyOutbox :: "adapter \<Rightarrow> adapter \<Rightarrow> string \<Rightarrow> int \<Rightarrow> store \<Rightarrow> store \<times> (store_error + int)" where
  "dispatchEconomyOutbox postJournal sendNotice worldId processedAt d =
     (case listPendingEconomyEffects worldId 100 d of
        Inl e \<Rightarrow> (d, Inl e)
      | Inr pending \<Rightarrow> dispatchEffects postJournal sendNotice worldId processedAt pending 0 d)"

definition nonePending :: "string \<Rightarrow> store \<Rightarrow> store_error + bool" where
  "nonePending worldId d = bnd (listPendingEconomyEffects worldId 1 d) (\<lambda>es. Inr (length es = 0))"

fun drainBatches :: "adapter \<Rightarrow> adapter \<Rightarrow> string \<Rightarrow> int \<Rightarrow> int \<Rightarrow> nat \<Rightarrow> int \<Rightarrow> store \<Rightarrow> store \<times> (store_error + int)" where
  "drainBatches postJournal sendNotice worldId processedAt maximum 0 processed d =
     (case nonePending worldId d of
        Inl e \<Rightarrow> (d, Inl e)
      | Inr done \<Rightarrow> (d, if done then Inr processed else Inl (EconomyOutboxDrainLimitError worldId maximum)))"
| "drainBatches postJournal sendNotice worldId processedAt maximum (Suc left) processed d =
     (case nonePending worldId d of
        Inl e \<Rightarrow> (d, Inl e)
      | Inr True \<Rightarrow> (d, Inr processed)
      | Inr False \<Rightarrow>
         (case dispatchEconomyOutbox postJournal sendNotice worldId processedAt d of
            (d', Inl e) \<Rightarrow> (d', Inl e)
          | (d', Inr n) \<Rightarrow> drainBatches postJournal sendNotice worldId processedAt maximum left (processed + n) d'))"

definition drainEconomyOutbox :: "adapter \<Rightarrow> adapter \<Rightarrow> string \<Rightarrow> int \<Rightarrow> int \<Rightarrow> store \<Rightarrow> store \<times> (store_error + int)" where
  "drainEconomyOutbox postJournal sendNotice worldId processedAt maximumBatches d =
     (if \<not> is_safe maximumBatches \<or> maximumBatches < 1 \<or> maximumBatches > 100 then (d, Inl (StoreRange ''Economy-Outbox-Drain-Limit''))
      else drainBatches postJournal sendNotice worldId processedAt maximumBatches (nat maximumBatches) 0 d)"

end
