(* ===== verification/Mailbox.thy ===== *)
theory Mailbox
  imports StoreDb
begin

text \<open>
  The mailbox, \<open>packages/mailbox/src/mailbox.ts\<close>: messages to accounts, delivered once per key, shown by
  urgency and acknowledged by their recipient alone. SHA-256 and \<open>localeCompare\<close> are arguments, as is
  the archive that may redact a message before the purge does. The clock of the database stamps a
  message that is sent without a time. No other writer runs between the statements of a request.
\<close>

section \<open>The hash of a message\<close>

text \<open>
  \<open>JSON.stringify\<close> and \<open>Object.entries\<close> as \<open>canonical\<close> uses them: a \<open>bigint\<close> is a \<open>TypeError\<close>, maps and
  sets have no entries. No payload of a message holds a fraction, whose text is left as \<open>0.5\<close>.
\<close>

fun canonicalPayload :: "rich \<Rightarrow> store_error + string" where
  "canonicalPayload RNull = Inr ''null''"
| "canonicalPayload RUndefined = Inr ''undefined''"
| "canonicalPayload (RBool b) = Inr (if b then ''true'' else ''false'')"
| "canonicalPayload (RNumber n) = Inr (int_str n)"
| "canonicalPayload RNonInt = Inr ''0.5''"
| "canonicalPayload (RString s) = Inr (json_string s)"
| "canonicalPayload (RBigint n) = Inl (StoreType ''BigInt'')"
| "canonicalPayload (RArray vs) = bnd (map_res canonicalPayload vs) (\<lambda>ts. Inr (''['' @ join '','' ts @ '']''))"
| "canonicalPayload (RObject kvs) =
     bnd (map_res (\<lambda>(k, v). bnd (canonicalPayload v) (\<lambda>t. Inr (k, t))) kvs) (\<lambda>ts.
     Inr (''{'' @ join '','' (map (\<lambda>(k, t). json_string k @ '':'' @ t) (sort_by (\<lambda>a b. compareText (fst a) (fst b)) ts)) @ ''}''))"
| "canonicalPayload (RMap es) = Inr ''{}''"
| "canonicalPayload (RSet vs) = Inr ''{}''"

text \<open>\<open>Date.prototype.toISOString\<close>: the date of a day count in the proleptic Gregorian calendar.\<close>

definition civilDate :: "int \<Rightarrow> int \<times> int \<times> int" where
  "civilDate days =
     (let z = days + 719468; era = z div 146097; doe = z - era * 146097;
          yoe = (doe - doe div 1460 + doe div 36524 - doe div 146096) div 365;
          doy = doe - (365 * yoe + yoe div 4 - yoe div 100); mp = (5 * doy + 2) div 153;
          month = (if mp < 10 then mp + 3 else mp - 9)
      in (yoe + era * 400 + (if month \<le> 2 then 1 else 0), month, doy - (153 * mp + 2) div 5 + 1))"

definition yearText :: "int \<Rightarrow> string" where
  "yearText y = (if 0 \<le> y \<and> y \<le> 9999 then padStart 4 (int_str y)
     else (if y < 0 then CHR ''-'' else CHR ''+'') # padStart 6 (int_str \<bar>y\<bar>))"

definition toISOString :: "int \<Rightarrow> string" where
  "toISOString ms =
     (let (y, m, d) = civilDate (ms div 86400000); t = ms mod 86400000; two = (\<lambda>n. padStart 2 (int_str n)) in
      yearText y @ ''-'' @ two m @ ''-'' @ two d @ ''T'' @ two (t div 3600000) @ '':'' @ two (t div 60000 mod 60) @ '':'' @
      two (t div 1000 mod 60) @ ''.'' @ padStart 3 (int_str (t mod 1000)) @ ''Z'')"

definition messageHash :: "(string \<Rightarrow> string) \<Rightarrow> string \<Rightarrow> rich \<Rightarrow> int option \<Rightarrow> store_error + string" where
  "messageHash sha256 messageType payload deadlineAt =
     bnd (canonicalPayload (RObject [(''messageType'', RString messageType), (''payload'', payload),
       (''deadlineAt'', case deadlineAt of None \<Rightarrow> RNull | Some t \<Rightarrow> RString (toISOString t))])) (\<lambda>text. Inr (sha256 text))"

section \<open>Sending\<close>

record message_input =
  miWorldId :: string
  miRecipientAccountId :: string
  miMessageType :: string
  miPayload :: rich
  miDeadlineAt :: "int option"
  miSentAt :: "int option"
  miIdempotencyKey :: "string option"

definition messageWithKey :: "store \<Rightarrow> string \<Rightarrow> string \<Rightarrow> string \<Rightarrow> message_row option" where
  "messageWithKey d worldId recipient key =
     find (\<lambda>m. mmWorldId m = worldId \<and> mmRecipientAccountId m = recipient \<and> mmIdempotencyKey m = Some key) (stMessages d)"

definition newMessage :: "message_input \<Rightarrow> string \<Rightarrow> int \<Rightarrow> message_row" where
  "newMessage input hash clock =
     \<lparr>mmId = [], mmWorldId = miWorldId input, mmRecipientAccountId = miRecipientAccountId input,
      mmIdempotencyKey = miIdempotencyKey input, mmContentHash = Some hash, mmPurgedAt = None,
      mmMessageType = miMessageType input, mmPayload = miPayload input,
      mmSentAt = (case miSentAt input of None \<Rightarrow> clock | Some t \<Rightarrow> t), mmDeadlineAt = miDeadlineAt input, mmAcknowledgedAt = None\<rparr>"

definition sendMessage :: "(string \<Rightarrow> string) \<Rightarrow> int \<Rightarrow> message_input \<Rightarrow> store \<Rightarrow> store_error + message_row \<times> store" where
  "sendMessage sha256 clock input d =
     invariant (\<exists>a \<in> set (dbAccounts (stDb d)). acWorldId a = miWorldId input \<and> acId a = miRecipientAccountId input)
       (RecipientNotFoundError (miWorldId input) (miRecipientAccountId input))
    (bnd (messageHash sha256 (miMessageType input) (miPayload input) (miDeadlineAt input)) (\<lambda>hash.
     case (case miIdempotencyKey input of None \<Rightarrow> None
           | Some key \<Rightarrow> messageWithKey d (miWorldId input) (miRecipientAccountId input) key) of
       Some existing \<Rightarrow>
         bnd (case mmContentHash existing of Some h \<Rightarrow> Inr h
              | None \<Rightarrow> messageHash sha256 (mmMessageType existing) (mmPayload existing) (mmDeadlineAt existing)) (\<lambda>h.
         invariant (h = hash) MessageReplayConflictError (Inr (existing, d)))
     | None \<Rightarrow> insertMessage (newMessage input hash clock) d))"

section \<open>The inbox\<close>

definition MAILBOX_DUE_SOON_MILLISECONDS :: int where
  "MAILBOX_DUE_SOON_MILLISECONDS = 48 * 60 * 60 * 1000"

datatype priority = Overdue | DueSoon | ActionRequired | Information | Acknowledged

fun priorityRank :: "priority \<Rightarrow> int" where
  "priorityRank Overdue = 0"
| "priorityRank DueSoon = 1"
| "priorityRank ActionRequired = 2"
| "priorityRank Information = 3"
| "priorityRank Acknowledged = 4"

definition isOverdue :: "message_row \<Rightarrow> int \<Rightarrow> bool" where
  "isOverdue m asOf \<longleftrightarrow> (case mmDeadlineAt m of None \<Rightarrow> False | Some t \<Rightarrow> mmAcknowledgedAt m = None \<and> t < asOf)"

record inbox_message =
  ixMessage :: message_row
  ixPriority :: priority
  ixOverdue :: bool

definition projectInboxMessage :: "message_row \<Rightarrow> int \<Rightarrow> inbox_message" where
  "projectInboxMessage m asOf =
     (let overdue = isOverdue m asOf;
          dueSoon = (case mmDeadlineAt m of None \<Rightarrow> False
            | Some t \<Rightarrow> mmAcknowledgedAt m = None \<and> asOf \<le> t \<and> t \<le> asOf + MAILBOX_DUE_SOON_MILLISECONDS);
          priority = (if mmAcknowledgedAt m \<noteq> None then Acknowledged
            else if overdue then Overdue else if dueSoon then DueSoon
            else if take 7 (mmMessageType m) = ''system.'' then Information else ActionRequired)
      in \<lparr>ixMessage = m, ixPriority = priority, ixOverdue = overdue\<rparr>)"

definition deadlineOrLast :: "message_row \<Rightarrow> int" where
  "deadlineOrLast m = (case mmDeadlineAt m of None \<Rightarrow> 9007199254740991 | Some t \<Rightarrow> t)"

definition compareInbox :: "(string \<Rightarrow> string \<Rightarrow> int) \<Rightarrow> inbox_message \<Rightarrow> inbox_message \<Rightarrow> int" where
  "compareInbox lc left right =
     (let rank = priorityRank (ixPriority left) - priorityRank (ixPriority right) in
      if rank \<noteq> 0 then rank
      else let deadline = deadlineOrLast (ixMessage left) - deadlineOrLast (ixMessage right) in
      if deadline \<noteq> 0 then deadline
      else let sent = mmSentAt (ixMessage right) - mmSentAt (ixMessage left) in
      if sent \<noteq> 0 then sent else lc (mmId (ixMessage left)) (mmId (ixMessage right)))"

text \<open>The account of a request, and an error when there is none.\<close>

definition mailboxAccount :: "store \<Rightarrow> string \<Rightarrow> string \<Rightarrow> store_error + account_row" where
  "mailboxAccount d worldId subject =
     (case getAccount (stDb d) worldId subject of
        Inl e \<Rightarrow> Inl (StorePlatform e)
      | Inr None \<Rightarrow> Inl (StorePlatform (AuthorizationError worldId))
      | Inr (Some r) \<Rightarrow> Inr (arAccount r))"

definition listInbox :: "(string \<Rightarrow> string \<Rightarrow> int) \<Rightarrow> string \<Rightarrow> string \<Rightarrow> int \<Rightarrow> store \<Rightarrow> store_error + inbox_message list" where
  "listInbox lc worldId subject asOf d =
     bnd (mailboxAccount d worldId subject) (\<lambda>account.
     Inr (sort_by (compareInbox lc) (map (\<lambda>m. projectInboxMessage m asOf)
       (sort_by (\<lambda>a b. mmSentAt b - mmSentAt a)
         (filter (\<lambda>m. mmWorldId m = worldId \<and> mmRecipientAccountId m = acId account \<and> mmPurgedAt m = None) (stMessages d))))))"

section \<open>Acknowledging\<close>

definition updateMessages :: "(message_row \<Rightarrow> bool) \<Rightarrow> (message_row \<Rightarrow> message_row) \<Rightarrow> store \<Rightarrow> store" where
  "updateMessages p f d = d\<lparr>stMessages := map (\<lambda>m. if p m then f m else m) (stMessages d)\<rparr>"

definition acknowledgeMessage :: "string \<Rightarrow> string \<Rightarrow> string \<Rightarrow> int \<Rightarrow> store \<Rightarrow> store_error + message_row \<times> store" where
  "acknowledgeMessage worldId messageId subject acknowledgedAt d =
     bnd (mailboxAccount d worldId subject) (\<lambda>account.
     case find (\<lambda>m. mmWorldId m = worldId \<and> mmId m = messageId \<and> mmPurgedAt m = None) (stMessages d) of
       None \<Rightarrow> Inl (MessageNotFoundError messageId worldId)
     | Some m \<Rightarrow>
         if mmRecipientAccountId m \<noteq> acId account then Inl (StorePlatform (AuthorizationError messageId))
         else if mmAcknowledgedAt m \<noteq> None then Inr (m, d)
         else Inr (m\<lparr>mmAcknowledgedAt := Some acknowledgedAt\<rparr>,
           updateMessages (\<lambda>x. mmWorldId x = worldId \<and> mmId x = mmId m \<and> mmRecipientAccountId x = acId account \<and> mmAcknowledgedAt x = None)
             (\<lambda>x. x\<lparr>mmAcknowledgedAt := Some acknowledgedAt\<rparr>) d))"

section \<open>Purging\<close>

record purge_result =
  prPurgedMessageIds :: "string list"
  prHasMore :: bool

definition purgeable :: "string \<Rightarrow> int \<Rightarrow> message_row \<Rightarrow> bool" where
  "purgeable worldId asOf m \<longleftrightarrow> mmWorldId m = worldId \<and> mmPurgedAt m = None \<and>
     mmSentAt m \<le> asOf - 365 * 24 * 60 * 60 * 1000 \<and> (case mmDeadlineAt m of None \<Rightarrow> True | Some t \<Rightarrow> t \<le> asOf)"

definition comparePurge :: "message_row \<Rightarrow> message_row \<Rightarrow> int" where
  "comparePurge a b = (if mmSentAt a \<noteq> mmSentAt b then mmSentAt a - mmSentAt b else compareText (mmId a) (mmId b))"

text \<open>
  One message: \<open>redact\<close> is \<open>redactArchivedPersonalData\<close>, which changes the store and tells whether it
  took care of the message.
\<close>

definition purgeOne :: "(string \<Rightarrow> string) \<Rightarrow> (string \<Rightarrow> string \<Rightarrow> store \<Rightarrow> bool \<times> store) \<Rightarrow> string \<Rightarrow> int \<Rightarrow> message_row \<Rightarrow>
    string list \<times> store \<Rightarrow> store_error + string list \<times> store" where
  "purgeOne sha256 redact worldId asOf candidate acc =
     (let (purged, d) = acc in
      bnd (case mmContentHash candidate of Some h \<Rightarrow> Inr h
           | None \<Rightarrow> messageHash sha256 (mmMessageType candidate) (mmPayload candidate) (mmDeadlineAt candidate)) (\<lambda>hash.
      case redact (mmId candidate) hash d of
        (True, d') \<Rightarrow> Inr (purged @ [mmId candidate], d')
      | (False, d') \<Rightarrow>
          (let p = (\<lambda>m. purgeable worldId asOf m \<and> mmId m = mmId candidate) in
           Inr (if \<exists>m \<in> set (stMessages d'). p m then purged @ [mmId candidate] else purged,
             updateMessages p (\<lambda>m. m\<lparr>mmPayload := RObject [], mmMessageType := ''system.retention-purged'',
               mmContentHash := Some hash, mmPurgedAt := Some asOf\<rparr>) d'))))"

definition purgeExpiredMailboxMessages :: "(string \<Rightarrow> string) \<Rightarrow> (string \<Rightarrow> string \<Rightarrow> store \<Rightarrow> bool \<times> store) \<Rightarrow> string \<Rightarrow> int \<Rightarrow>
    int \<Rightarrow> store \<Rightarrow> store_error + purge_result \<times> store" where
  "purgeExpiredMailboxMessages sha256 redact worldId asOf batchSize d =
     invariant (\<not> (\<not> is_safe batchSize \<or> batchSize < 1 \<or> batchSize > 5000)) (StorePlain ''Postfach-Raeumlaufparameter'')
    (let candidates = take (nat (batchSize + 1)) (sort_by comparePurge (filter (purgeable worldId asOf) (stMessages d))) in
     bnd (fold_res (purgeOne sha256 redact worldId asOf) (take (nat batchSize) candidates) ([], d)) (\<lambda>(purged, d').
     Inr (\<lparr>prPurgedMessageIds = purged, prHasMore = length candidates > nat batchSize\<rparr>, d')))"

lemma iso_example: "toISOString 951782400000 = ''2000-02-29T00:00:00.000Z''"
  by code_simp

section \<open>Messages are kept\<close>

definition hashOf :: "(string \<Rightarrow> string) \<Rightarrow> message_row \<Rightarrow> store_error + string" where
  "hashOf sha256 m = (case mmContentHash m of Some h \<Rightarrow> Inr h
     | None \<Rightarrow> messageHash sha256 (mmMessageType m) (mmPayload m) (mmDeadlineAt m))"

text \<open>
  What stays of a message: its addressee, key and times; its content until it is purged, which happens a
  year after it was sent and not before its deadline; the hash of its content, even then; and the first
  acknowledgement.
\<close>

definition message_kept :: "(string \<Rightarrow> string) \<Rightarrow> message_row \<Rightarrow> message_row \<Rightarrow> bool" where
  "message_kept sha256 m m' \<longleftrightarrow>
     mmId m' = mmId m \<and> mmWorldId m' = mmWorldId m \<and> mmRecipientAccountId m' = mmRecipientAccountId m \<and>
     mmIdempotencyKey m' = mmIdempotencyKey m \<and> mmSentAt m' = mmSentAt m \<and> mmDeadlineAt m' = mmDeadlineAt m \<and>
     hashOf sha256 m' = hashOf sha256 m \<and> (mmAcknowledgedAt m \<noteq> None \<longrightarrow> mmAcknowledgedAt m' = mmAcknowledgedAt m) \<and>
     (mmPurgedAt m \<noteq> None \<longrightarrow> mmPurgedAt m' = mmPurgedAt m) \<and>
     (mmMessageType m' = mmMessageType m \<and> mmPayload m' = mmPayload m \<or>
      (\<exists>t. mmPurgedAt m' = Some t \<and> mmSentAt m + 31536000000 \<le> t \<and> (case mmDeadlineAt m of None \<Rightarrow> True | Some e \<Rightarrow> e \<le> t)))"

lemma message_kept_refl: "message_kept sha256 m m"
  by (simp add: message_kept_def)

lemma message_kept_trans: "message_kept sha256 a b \<Longrightarrow> message_kept sha256 b c \<Longrightarrow> message_kept sha256 a c"
  unfolding message_kept_def by (auto; metis option.distinct(1))

definition messages_kept :: "(string \<Rightarrow> string) \<Rightarrow> store \<Rightarrow> store \<Rightarrow> bool" where
  "messages_kept sha256 d d' \<longleftrightarrow> dbAccounts (stDb d') = dbAccounts (stDb d) \<and>
     list_all2 (message_kept sha256) (stMessages d) (take (length (stMessages d)) (stMessages d'))"

lemma messages_kept_refl: "messages_kept sha256 d d"
  by (simp add: messages_kept_def list_all2_same message_kept_refl)

lemma messages_kept_trans: "messages_kept sha256 a b \<Longrightarrow> messages_kept sha256 b c \<Longrightarrow> messages_kept sha256 a c"
proof -
  assume ab: "messages_kept sha256 a b" and bc: "messages_kept sha256 b c"
  let ?n = "length (stMessages a)"
  have n: "?n \<le> length (stMessages b)" using ab list_all2_lengthD by (fastforce simp: messages_kept_def)
  have "list_all2 (message_kept sha256) (take ?n (stMessages b)) (take ?n (take (length (stMessages b)) (stMessages c)))"
    by (rule list_all2_takeI) (use bc in \<open>simp add: messages_kept_def\<close>)
  then have "list_all2 (message_kept sha256) (take ?n (stMessages b)) (take ?n (stMessages c))" using n by (simp add: min_def)
  then have "list_all2 (message_kept sha256) (stMessages a) (take ?n (stMessages c))"
    using ab list_all2_trans [of "message_kept sha256" "message_kept sha256" "message_kept sha256"] message_kept_trans
    unfolding messages_kept_def by blast
  then show ?thesis using ab bc by (simp add: messages_kept_def)
qed

lemma messages_kept_append:
  "stMessages d' = stMessages d @ new \<Longrightarrow> dbAccounts (stDb d') = dbAccounts (stDb d) \<Longrightarrow> messages_kept sha256 d d'"
  by (simp add: messages_kept_def list_all2_same message_kept_refl)

lemma messages_kept_update:
  "(\<And>m. m \<in> set (stMessages d) \<Longrightarrow> p m \<Longrightarrow> message_kept sha256 m (f m)) \<Longrightarrow> messages_kept sha256 d (updateMessages p f d)"
  by (auto simp: messages_kept_def updateMessages_def list_all2_map2 list_all2_same message_kept_refl)

text \<open>Keys that are taken.\<close>

definition messageKeys :: "store \<Rightarrow> (string \<times> string \<times> string) list" where
  "messageKeys d = concat (map (\<lambda>m. case mmIdempotencyKey m of None \<Rightarrow> []
     | Some k \<Rightarrow> [(mmWorldId m, mmRecipientAccountId m, k)]) (stMessages d))"

lemma messageKeys_update: "(\<And>m. p m \<Longrightarrow> mmIdempotencyKey (f m) = mmIdempotencyKey m \<and> mmWorldId (f m) = mmWorldId m \<and>
    mmRecipientAccountId (f m) = mmRecipientAccountId m) \<Longrightarrow> messageKeys (updateMessages p f d) = messageKeys d"
  unfolding messageKeys_def updateMessages_def
  by (simp add: comp_def) (rule arg_cong [where f = concat], rule map_cong, auto split: option.splits)

lemma messageWithKey_None: "messageWithKey d w r k = None \<Longrightarrow> (w, r, k) \<notin> set (messageKeys d)"
  by (auto simp: messageWithKey_def messageKeys_def find_None_iff split: option.splits)

definition keys_ok :: "store \<Rightarrow> bool" where
  "keys_ok d \<longleftrightarrow> distinct (messageKeys d) \<and> distinct (map mmId (stMessages d))"

lemma keys_ok_update:
  assumes "\<And>m. mmIdempotencyKey (f m) = mmIdempotencyKey m \<and> mmWorldId (f m) = mmWorldId m \<and>
    mmRecipientAccountId (f m) = mmRecipientAccountId m \<and> mmId (f m) = mmId m"
  shows "keys_ok (updateMessages p f d) = keys_ok d"
proof -
  have "map mmId (stMessages (updateMessages p f d)) = map mmId (stMessages d)" using assms by (simp add: updateMessages_def)
  then show ?thesis using messageKeys_update [of p f d] assms by (simp add: keys_ok_def)
qed

inductive mailbox_step :: "(string \<Rightarrow> string) \<Rightarrow> store \<Rightarrow> store \<Rightarrow> bool" for sha256 where
  sends: "sendMessage sha256 clock input d = Inr (m, d') \<Longrightarrow> mailbox_step sha256 d d'"
| acknowledges: "acknowledgeMessage w i subject t d = Inr (m, d') \<Longrightarrow> mailbox_step sha256 d d'"
| purges: "purgeExpiredMailboxMessages sha256 (\<lambda>i h x. (False, x)) w asOf n d = Inr (r, d') \<Longrightarrow> mailbox_step sha256 d d'"

definition mailbox_ok :: "(string \<Rightarrow> string) \<Rightarrow> store \<Rightarrow> store \<Rightarrow> bool" where
  "mailbox_ok sha256 d d' \<longleftrightarrow> messages_kept sha256 d d' \<and> keys_ok d'"

lemma insertMessage_ok:
  assumes "insertMessage row d = Inr (m, d')"
  shows "m = row\<lparr>mmId := nextUuid (stDb d)\<rparr>" "stMessages d' = stMessages d @ [m]" "dbAccounts (stDb d') = dbAccounts (stDb d)"
    "mmId m \<notin> mmId ` set (stMessages d)"
  using assms by (auto simp: insertMessage_def drawUuid_def invariant_Inr Let_def)

lemma send_ok:
  assumes "sendMessage sha256 clock input d = Inr (m, d')" "keys_ok d"
  shows "mailbox_ok sha256 d d'"
proof -
  obtain hash where h: "messageHash sha256 (miMessageType input) (miPayload input) (miDeadlineAt input) = Inr hash"
    using assms by (auto simp: sendMessage_def res_simps)
  show ?thesis
  proof (cases "case miIdempotencyKey input of None \<Rightarrow> None | Some key \<Rightarrow> messageWithKey d (miWorldId input) (miRecipientAccountId input) key")
    case (Some x)
    then have "d' = d" using assms by (auto simp: sendMessage_def res_simps)
    then show ?thesis using assms(2) by (simp add: mailbox_ok_def messages_kept_refl)
  next
    case None
    then have i: "insertMessage (newMessage input hash clock) d = Inr (m, d')"
      using assms h by (auto simp: sendMessage_def res_simps)
    have new: "(miWorldId input, miRecipientAccountId input, k) \<notin> set (messageKeys d)" if "miIdempotencyKey input = Some k" for k
      using None that messageWithKey_None by simp
    have "distinct (messageKeys d')"
      using insertMessage_ok [OF i] new assms(2) by (auto simp: messageKeys_def newMessage_def keys_ok_def split: option.splits)
    moreover have "distinct (map mmId (stMessages d'))" using insertMessage_ok [OF i] assms(2) by (simp add: keys_ok_def)
    ultimately show ?thesis using messages_kept_append [OF insertMessage_ok(2,3) [OF i]] by (simp add: mailbox_ok_def keys_ok_def)
  qed
qed

lemma acknowledge_ok:
  assumes "acknowledgeMessage w i subject t d = Inr (m, d')" "keys_ok d"
  shows "mailbox_ok sha256 d d'"
proof -
  obtain account where a: "mailboxAccount d w subject = Inr account" using assms(1) by (auto simp: acknowledgeMessage_def res_simps)
  obtain x where x: "find (\<lambda>m. mmWorldId m = w \<and> mmId m = i \<and> mmPurgedAt m = None) (stMessages d) = Some x"
    using assms(1) a by (auto simp: acknowledgeMessage_def split: option.splits)
  let ?p = "\<lambda>m. mmWorldId m = w \<and> mmId m = mmId x \<and> mmRecipientAccountId m = acId account \<and> mmAcknowledgedAt m = None"
  have "d' = d \<or> d' = updateMessages ?p (\<lambda>m. m\<lparr>mmAcknowledgedAt := Some t\<rparr>) d"
    using assms(1) by (cases "mmAcknowledgedAt x") (auto simp: acknowledgeMessage_def a x split: if_splits)
  moreover have "messages_kept sha256 d (updateMessages ?p (\<lambda>m. m\<lparr>mmAcknowledgedAt := Some t\<rparr>) d)"
    by (rule messages_kept_update) (simp add: message_kept_def hashOf_def split: option.split)
  ultimately show ?thesis using assms(2) by (auto simp: mailbox_ok_def messages_kept_refl keys_ok_update)
qed

lemma same_message:
  assumes "messages_kept sha256 d0 d" "length (stMessages d) = length (stMessages d0)" "keys_ok d0"
    and "m \<in> set (stMessages d)" "c \<in> set (stMessages d0)" "mmId m = mmId c"
  shows "hashOf sha256 m = hashOf sha256 c"
proof -
  have l: "list_all2 (message_kept sha256) (stMessages d0) (stMessages d)" using assms(1,2) by (simp add: messages_kept_def)
  obtain k where k: "k < length (stMessages d)" "m = stMessages d ! k" using assms(4) by (auto simp: in_set_conv_nth)
  then have mk: "message_kept sha256 (stMessages d0 ! k) m" using l by (simp add: list_all2_nthD2)
  then have "mmId (stMessages d0 ! k) = mmId c" using assms(6) by (simp add: message_kept_def)
  then have "stMessages d0 ! k = c"
    using assms(2,3,5) k(1) by (auto simp: keys_ok_def distinct_map inj_on_def)
  then show ?thesis using mk by (simp add: message_kept_def)
qed

lemma purgeOne_ok:
  assumes "purgeOne sha256 (\<lambda>i h x. (False, x)) w asOf c (ids, d) = Inr (ids', d')" "c \<in> set (stMessages d0)"
    and "messages_kept sha256 d0 d" "length (stMessages d) = length (stMessages d0)" "keys_ok d0" "keys_ok d"
  shows "mailbox_ok sha256 d0 d' \<and> length (stMessages d') = length (stMessages d0)"
proof -
  obtain h where h: "hashOf sha256 c = Inr h"
    and d': "d' = updateMessages (\<lambda>m. purgeable w asOf m \<and> mmId m = mmId c) (\<lambda>m. m\<lparr>mmPayload := RObject [],
      mmMessageType := ''system.retention-purged'', mmContentHash := Some h, mmPurgedAt := Some asOf\<rparr>) d"
    using assms(1) by (auto simp: purgeOne_def Let_def res_simps hashOf_def)
  have "messages_kept sha256 d d'" unfolding d'
  proof (rule messages_kept_update)
    fix m assume m: "m \<in> set (stMessages d)" "purgeable w asOf m \<and> mmId m = mmId c"
    have "hashOf sha256 m = Inr h" using same_message [OF assms(3-5) m(1) assms(2)] m(2) h by simp
    then show "message_kept sha256 m (m\<lparr>mmPayload := RObject [], mmMessageType := ''system.retention-purged'',
        mmContentHash := Some h, mmPurgedAt := Some asOf\<rparr>)"
      using m(2) by (auto simp: message_kept_def purgeable_def hashOf_def split: option.splits)
  qed
  then show ?thesis using messages_kept_trans [OF assms(3)] assms(4,6) by (simp add: mailbox_ok_def d' keys_ok_update) (simp add: updateMessages_def)
qed

lemma purge_ok:
  assumes "purgeExpiredMailboxMessages sha256 (\<lambda>i h x. (False, x)) w asOf n d = Inr (r, d')" "keys_ok d"
  shows "mailbox_ok sha256 d d'"
proof -
  have loop: "mailbox_ok sha256 d d2 \<and> length (stMessages d2) = length (stMessages d)"
    if "fold_res (purgeOne sha256 (\<lambda>i h x. (False, x)) w asOf) cs (ids, d1) = Inr (ids2, d2)" "set cs \<subseteq> set (stMessages d)"
      "messages_kept sha256 d d1" "length (stMessages d1) = length (stMessages d)" "keys_ok d1" for cs ids d1 ids2 d2
    using that
  proof (induction cs arbitrary: ids d1)
    case (Cons c cs)
    then obtain ids' d1' where o: "purgeOne sha256 (\<lambda>i h x. (False, x)) w asOf c (ids, d1) = Inr (ids', d1')"
      and rest: "fold_res (purgeOne sha256 (\<lambda>i h x. (False, x)) w asOf) cs (ids', d1') = Inr (ids2, d2)"
      by (auto simp: bnd_Inr)
    have "mailbox_ok sha256 d d1' \<and> length (stMessages d1') = length (stMessages d)"
      by (rule purgeOne_ok [OF o]) (use Cons.prems assms(2) in auto)
    then show ?case using Cons.IH [OF rest] Cons.prems(2) by (auto simp: mailbox_ok_def)
  qed (simp add: mailbox_ok_def)
  let ?cs = "take (nat n) (take (nat (n + 1)) (sort_by comparePurge (filter (purgeable w asOf) (stMessages d))))"
  obtain ids2 where "fold_res (purgeOne sha256 (\<lambda>i h x. (False, x)) w asOf) ?cs ([], d) = Inr (ids2, d')"
    using assms(1) by (auto simp: purgeExpiredMailboxMessages_def Let_def res_simps)
  moreover have "set ?cs \<subseteq> set (stMessages d)" by (auto dest!: in_set_takeD)
  ultimately show ?thesis using loop assms(2) messages_kept_refl by blast
qed

lemma step_mailbox_ok: "mailbox_step sha256 d d' \<Longrightarrow> keys_ok d \<Longrightarrow> mailbox_ok sha256 d d'"
  by (cases rule: mailbox_step.cases) (auto intro: send_ok acknowledge_ok purge_ok)

lemma steps_mailbox_ok: "(mailbox_step sha256)\<^sup>*\<^sup>* d d' \<Longrightarrow> keys_ok d \<Longrightarrow> mailbox_ok sha256 d d'"
proof (induction rule: rtranclp_induct)
  case base
  then show ?case by (simp add: mailbox_ok_def messages_kept_refl)
next
  case (step y z)
  then show ?case using step_mailbox_ok messages_kept_trans by (meson mailbox_ok_def)
qed

lemma distinct_filter_eq: "distinct xs \<Longrightarrow> x \<in> set xs \<Longrightarrow> filter (\<lambda>y. y = x) xs = [x]"
  by (induction xs) (auto simp: filter_empty_conv)

lemma find_in: "find P xs = Some x \<Longrightarrow> x \<in> set xs \<and> P x"
  by (induction xs) (auto split: if_splits)

lemma find_kept:
  assumes "list_all2 Q xs (take (length xs) ys)" "\<And>x y. Q x y \<Longrightarrow> P y = P x" "find P xs = Some x"
  shows "\<exists>y. find P ys = Some y \<and> Q x y"
  using assms
proof (induction xs arbitrary: ys)
  case (Cons a xs)
  then obtain b zs where ys: "ys = b # zs" by (cases ys) auto
  then show ?case using Cons by (cases "P a") auto
qed simp


definition sample_store :: store where
  "sample_store = \<lparr>stDb = \<lparr>dbWorlds = [], dbAccesses = [\<lparr>waWorldId = ''w'', waSubject = ''s'', waStatus = AccessActive, waContractHash = None,
       waCapitalPolicy = None, waAcceptedAt = None, waRevokedAt = None\<rparr>],
     dbAccounts = [\<lparr>acId = ''acc'', acWorldId = ''w'', acSubject = ''s'', acDisplayName = ''Spieler''\<rparr>], dbRoles = [], dbOperators = [],
     dbLedgerAccounts = [], dbLedgerTransactions = [], dbLedgerEntries = [], dbUuid = (\<lambda>n. nat_str n), dbDraws = 0\<rparr>,
     stMessages = [], stStates = [], stOutbox = [], stEvents = [], stEffects = []\<rparr>"

definition sample_message :: message_input where
  "sample_message = \<lparr>miWorldId = ''w'', miRecipientAccountId = ''acc'', miMessageType = ''tender-announced'', miPayload = RObject [(''lot'', RString ''l'')],
     miDeadlineAt = Some 5000, miSentAt = Some 1000, miIdempotencyKey = Some ''k1''\<rparr>"


end
