(* ===== verification/EconomyAdapters.thy ===== *)
theory EconomyAdapters
  imports EconomyStore Mailbox Ledger
begin

text \<open>
  The adapters of the outbox on ledger and mailbox, \<open>packages/economy/src/platform-adapters.ts\<close>, and the
  confirmed revenues of \<open>fare-revenue.ts\<close>. The payload of an outbox row is used as the journal entry or
  notice it was stored from; of anything else the first property access is a \<open>TypeError\<close>.
\<close>

section \<open>The account plan\<close>

record journal_accounts =
  jaCashAccountId :: string
  jaRevenueAccountId :: string
  jaCostAccountIds :: "cost_type \<Rightarrow> string"

record account_plan =
  apSchema :: string
  apVersion :: string
  apCashAccountName :: string
  apRevenueAccountName :: string
  apCostAccountNames :: "cost_type \<Rightarrow> string"

definition STANDARD_ECONOMY_LEDGER_ACCOUNT_PLAN :: account_plan where
  "STANDARD_ECONOMY_LEDGER_ACCOUNT_PLAN =
     \<lparr>apSchema = ''economy-ledger-account-plan/v1'', apVersion = ''public-economy-2026-1'', apCashAccountName = ''Economy:Kasse'',
      apRevenueAccountName = ''Economy:Bestellerentgelt'', apCostAccountNames = (\<lambda>t. ''Economy:'' @ cost_type_text t)\<rparr>"

definition validateAccountPlan :: "account_plan \<Rightarrow> store_error + unit" where
  "validateAccountPlan plan =
     invariant (\<not> (apSchema plan \<noteq> ''economy-ledger-account-plan/v1'' \<or> blank (apVersion plan))) (StorePlain ''Version'')
    (let names = apCashAccountName plan # apRevenueAccountName plan # map (apCostAccountNames plan) ECONOMY_COST_TYPES in
     invariant (\<not> (list_ex blank names \<or> length (remdups names) \<noteq> length names)) (StorePlain ''Kontenrollen'') (Inr ()))"

text \<open>The map from account to name; a repeated account takes the later name.\<close>

definition expectedNames :: "journal_accounts \<Rightarrow> account_plan \<Rightarrow> (string \<times> string) list" where
  "expectedNames accounts plan = map_from ([(jaCashAccountId accounts, apCashAccountName plan),
     (jaRevenueAccountId accounts, apRevenueAccountName plan)] @
     map (\<lambda>t. (jaCostAccountIds accounts t, apCostAccountNames plan t)) ECONOMY_COST_TYPES)"

definition assertJournalAccountPlan :: "string \<Rightarrow> string \<Rightarrow> journal_accounts \<Rightarrow> account_plan \<Rightarrow> store \<Rightarrow> store_error + unit" where
  "assertJournalAccountPlan worldId operatorId accounts plan d =
     (let expected = expectedNames accounts plan;
          rows = filter (\<lambda>a. laWorldId a = worldId \<and> laOperatorId a = operatorId \<and> laId a \<in> set (map fst expected)) (dbLedgerAccounts (stDb d))
      in invariant (\<not> (length expected \<noteq> length ECONOMY_COST_TYPES + 2 \<or> [] \<in> set (map fst expected))) (StorePlain ''Ledger-Kontierung'')
        (invariant (\<not> (length rows \<noteq> length expected \<or> list_ex (\<lambda>a. map_of expected (laId a) \<noteq> Some (laName a)) rows))
           (StorePlain ''Kontenplan'') (Inr ())))"

section \<open>Posting a journal entry\<close>

definition recordEffect :: "string \<Rightarrow> string \<Rightarrow> effect_type \<Rightarrow> int \<Rightarrow> store \<Rightarrow> store_error + store" where
  "recordEffect worldId effectId effectType atS d =
     bnd (dateOfSeconds atS) (\<lambda>processedAt.
     insertEffectRow \<lparr>efId = [], efWorldId = worldId, efEffectId = effectId, efEffectType = effectType, efProcessedAt = processedAt\<rparr> d)"

definition journalEntries :: "journal_accounts \<Rightarrow> journal_entry \<Rightarrow> entry_input list" where
  "journalEntries accounts j =
     (let costTotal = sum_list (map cpAmountCents (jePostings j)) in
      filter (\<lambda>e. enAmountCents e \<noteq> 0)
       (map (\<lambda>p. \<lparr>enAccountId = jaCostAccountIds accounts (cpCostType p), enAmountCents = cpAmountCents p,
              enCostType = Some (cost_type_text (cpCostType p)), enCostCentreId = Some (cpCostCentreId p)\<rparr>) (jePostings j) @
        (if jeRevenueCents j = 0 then []
         else [\<lparr>enAccountId = jaRevenueAccountId accounts, enAmountCents = - jeRevenueCents j, enCostType = None, enCostCentreId = None\<rparr>]) @
        [\<lparr>enAccountId = jaCashAccountId accounts, enAmountCents = jeRevenueCents j - costTotal, enCostType = None, enCostCentreId = None\<rparr>]))"

definition journalPosting :: "journal_accounts \<Rightarrow> journal_entry \<Rightarrow> posting" where
  "journalPosting accounts j =
     \<lparr>poWorldId = jeWorldId j, poOperatorId = jeOperatorId j, poDescription = jeDescription j, poPostedAt = js_mul (jeAt j) 1000,
      poIdempotencyKey = Some (jeIdempotencyKey j), poEntries = journalEntries accounts j\<rparr>"

definition onPlatform :: "(db \<Rightarrow> platform_error + 'a \<times> db) \<Rightarrow> store \<Rightarrow> store_error + 'a \<times> store" where
  "onPlatform f d = (case f (stDb d) of Inl e \<Rightarrow> Inl (StorePlatform e) | Inr (x, p) \<Rightarrow> Inr (x, d\<lparr>stDb := p\<rparr>))"

definition postJournal :: "(string \<times> journal_accounts) list \<Rightarrow> account_plan \<Rightarrow> journal_entry \<Rightarrow> store \<Rightarrow> store_error + store" where
  "postJournal accountsByOperator plan j d =
     (case map_of accountsByOperator (jeOperatorId j) of
        None \<Rightarrow> Inl (StorePlain ''Ledger-Kontierung fehlt'')
      | Some accounts \<Rightarrow>
          bnd (lockEconomyCashWriter (jeWorldId j) (jeOperatorId j) d) (\<lambda>_.
          bnd (assertJournalAccountPlan (jeWorldId j) (jeOperatorId j) accounts plan d) (\<lambda>_.
          invariant (\<not> length (journalEntries accounts j) < 2) (StorePlain ''keine doppelt buchbare Bewegung'')
         (bnd (dateOfSeconds (jeAt j)) (\<lambda>_.
          bnd (onPlatform (postLedgerTransaction (journalPosting accounts j)) d) (\<lambda>(t, d').
          recordEffect (jeWorldId j) (jeIdempotencyKey j) JournalEffect (jeAt j) d'))))))"

text \<open>The statements of a notice are no transaction: a message may be sent although recording it fails.\<close>

definition noticeMessage :: "economy_notice \<Rightarrow> message_input" where
  "noticeMessage n = \<lparr>miWorldId = noWorldId n, miRecipientAccountId = noRecipientAccountId n, miMessageType = noType n,
     miPayload = richOf (noPayload n), miDeadlineAt = None, miSentAt = Some (js_mul (noAt n) 1000), miIdempotencyKey = Some (noId n)\<rparr>"

definition sendNotice :: "(string \<Rightarrow> string) \<Rightarrow> economy_notice \<Rightarrow> store \<Rightarrow> store \<times> (store_error + unit)" where
  "sendNotice sha256 n d =
     (case bnd (dateOfSeconds (noAt n)) (\<lambda>_. sendMessage sha256 0 (noticeMessage n) d) of
        Inl e \<Rightarrow> (d, Inl e)
      | Inr (m, d1) \<Rightarrow>
         (case recordEffect (noWorldId n) (noId n) NoticeEffect (noAt n) d1 of
            Inl e \<Rightarrow> (d1, Inl e)
          | Inr d2 \<Rightarrow> (d2, Inr ())))"

section \<open>Reading payloads\<close>

definition readCostType :: "string \<Rightarrow> cost_type option" where
  "readCostType s = find (\<lambda>t. cost_type_text t = s) ECONOMY_COST_TYPES"

definition readPosting :: "rich \<Rightarrow> classified_posting option" where
  "readPosting v = (case (rprop v ''amountCents'', rprop v ''costType'', rprop v ''costCentreId'', rprop v ''reference'') of
       (RBigint n, RString t, RString c, RString r) \<Rightarrow>
         map_option (\<lambda>ct. \<lparr>cpAmountCents = n, cpCostType = ct, cpCostCentreId = c, cpReference = r\<rparr>) (readCostType t)
     | _ \<Rightarrow> None)"

definition readEvidence :: "rich \<Rightarrow> fare_evidence option" where
  "readEvidence v =
     (case (rprop v ''schemaVersion'', rprop v ''worldId'', rprop v ''operatorId'', rprop v ''contractId'', rprop v ''journalEffectId'') of
        (RString schema, RString w, RString p, RString c, RString j) \<Rightarrow>
         (case (rprop v ''economyReleaseHash'', rprop v ''serviceStartMs'', rprop v ''serviceEndMs'', rprop v ''settledAtMs'') of
            (RString h, RNumber s, RNumber e, RNumber t) \<Rightarrow>
             (case (rprop v ''orderingFeeCents'', rprop v ''bonusCents'', rprop v ''penaltyCents'', rprop v ''contentHash'') of
                (RString fee, RString bonus, RString penalty, RString hash) \<Rightarrow>
                  Some \<lparr>feSchemaVersion = schema, feWorldId = w, feOperatorId = p, feContractId = c, feJournalEffectId = j,
                    feEconomyReleaseHash = h, feServiceStartMs = s, feServiceEndMs = e, feSettledAtMs = t,
                    feOrderingFeeCents = fee, feBonusCents = bonus, fePenaltyCents = penalty, feContentHash = hash\<rparr>
              | _ \<Rightarrow> None)
          | _ \<Rightarrow> None)
      | _ \<Rightarrow> None)"

definition readJournal :: "rich \<Rightarrow> journal_entry option" where
  "readJournal v =
     (case (rprop v ''worldId'', rprop v ''operatorId'', rprop v ''idempotencyKey'', rprop v ''at'') of
        (RString w, RString p, RString k, RNumber t) \<Rightarrow>
         (case (rprop v ''description'', rprop v ''postings'', rprop v ''revenueCents'') of
            (RString d, RArray ps, RBigint r) \<Rightarrow>
              map_option (\<lambda>postings. \<lparr>jeWorldId = w, jeOperatorId = p, jeIdempotencyKey = k, jeAt = t, jeDescription = d, jePostings = postings,
                  jeRevenueCents = r, jeContractRevenueEvidence = readEvidence (rprop v ''contractRevenueEvidence'')\<rparr>)
                (those (map readPosting ps))
          | _ \<Rightarrow> None)
      | _ \<Rightarrow> None)"

fun valueOf :: "rich \<Rightarrow> econ_value" where
  "valueOf (RArray vs) = VArray (map valueOf vs)"
| "valueOf (RObject kvs) = VObject (map (\<lambda>(k, v). (k, valueOf v)) kvs)"
| "valueOf (RBool b) = VBool b"
| "valueOf (RNumber n) = VNumber n"
| "valueOf (RBigint n) = VBigint n"
| "valueOf (RString s) = VString s"
| "valueOf RNull = VNull"
| "valueOf v = VUndefined"

definition readNotice :: "rich \<Rightarrow> economy_notice option" where
  "readNotice v =
     (case (rprop v ''id'', rprop v ''worldId'', rprop v ''recipientAccountId'', rprop v ''type'', rprop v ''at'') of
        (RString i, RString w, RString a, RString t, RNumber n) \<Rightarrow>
          Some \<lparr>noId = i, noWorldId = w, noRecipientAccountId = a, noType = t, noAt = n, noPayload = valueOf (rprop v ''payload'')\<rparr>
      | _ \<Rightarrow> None)"

definition journalAdapter :: "(string \<times> journal_accounts) list \<Rightarrow> account_plan \<Rightarrow> adapter" where
  "journalAdapter accountsByOperator plan v d =
     (case readJournal v of
        None \<Rightarrow> (d, Inl (StoreType ''EconomyJournalEntry''))
      | Some j \<Rightarrow> (case postJournal accountsByOperator plan j d of Inl e \<Rightarrow> (d, Inl e) | Inr d' \<Rightarrow> (d', Inr ())))"

definition noticeAdapter :: "(string \<Rightarrow> string) \<Rightarrow> adapter" where
  "noticeAdapter sha256 v d =
     (case readNotice v of None \<Rightarrow> (d, Inl (StoreType ''EconomyNotice'')) | Some n \<Rightarrow> sendNotice sha256 n d)"

definition createEconomyPlatformAdapters :: "(string \<Rightarrow> string) \<Rightarrow> (string \<times> journal_accounts) list \<Rightarrow> account_plan option \<Rightarrow>
    store_error + adapter \<times> adapter" where
  "createEconomyPlatformAdapters sha256 accountsByOperator accountPlan =
     (let plan = (case accountPlan of None \<Rightarrow> STANDARD_ECONOMY_LEDGER_ACCOUNT_PLAN | Some p \<Rightarrow> p) in
      bnd (validateAccountPlan plan) (\<lambda>_. Inr (journalAdapter accountsByOperator plan, noticeAdapter sha256)))"

section \<open>Confirmed revenues\<close>

record confirmed_revenue =
  crEvidence :: fare_evidence
  crLedgerTransactionId :: string

text \<open>The rows of the join: processed journals with evidence, and their transactions.\<close>

definition confirmedRows :: "store \<Rightarrow> string \<Rightarrow> string \<Rightarrow> (outbox_row \<times> ledger_transaction) list" where
  "confirmedRows d worldId operatorId =
     concat (map (\<lambda>r. map (Pair r) (filter (\<lambda>t. ltWorldId t = obWorldId r \<and> ltOperatorId t = operatorId \<and>
         ltIdempotencyKey t = Some (obEffectId r)) (dbLedgerTransactions (stDb d))))
       (filter (\<lambda>r. obWorldId r = worldId \<and> obEffectType r = JournalEffect \<and> obProcessedAt r \<noteq> None \<and>
          jprop (obPayload r) ''contractRevenueEvidence'' \<noteq> JUndefined) (stOutbox d)))"

definition evidenceBound :: "(string \<Rightarrow> string) \<Rightarrow> string \<Rightarrow> string \<Rightarrow> outbox_row \<Rightarrow> rich \<Rightarrow> fare_evidence \<Rightarrow> bool" where
  "evidenceBound sha256 worldId operatorId r journal e \<longleftrightarrow>
     feSchemaVersion e = FARE_EVIDENCE_SCHEMA \<and> feWorldId e = worldId \<and> feOperatorId e = operatorId \<and>
     feJournalEffectId e = obEffectId r \<and> rprop journal ''worldId'' = RString worldId \<and>
     rprop journal ''operatorId'' = RString operatorId \<and> rprop journal ''idempotencyKey'' = RString (obEffectId r) \<and>
     (case rprop journal ''at'' of RNumber n \<Rightarrow> js_mul n 1000 = feSettledAtMs e | _ \<Rightarrow> False) \<and>
     feContentHash e = fareContractRevenueEvidenceHash sha256 e"

definition revenueMatches :: "rich \<Rightarrow> fare_evidence \<Rightarrow> bool" where
  "revenueMatches journal e =
     (case (parseBigInt (feOrderingFeeCents e), parseBigInt (feBonusCents e), parseBigInt (fePenaltyCents e)) of
        (Some fee, Some bonus, Some penalty) \<Rightarrow> rprop journal ''revenueCents'' = RBigint (fee + bonus - penalty)
      | _ \<Rightarrow> False)"

definition confirmRow :: "(string \<Rightarrow> string) \<Rightarrow> string \<Rightarrow> string \<Rightarrow> int \<Rightarrow> outbox_row \<times> ledger_transaction \<Rightarrow>
    confirmed_revenue list \<Rightarrow> store_error + confirmed_revenue list" where
  "confirmRow sha256 worldId operatorId nowMs row result =
     bnd (coded (decodeEconomyValue (obPayload (fst row)))) (\<lambda>journal.
     case readEvidence (rprop journal ''contractRevenueEvidence'') of
       None \<Rightarrow> Inl (StorePlain ''Bindung'')
     | Some e \<Rightarrow>
         invariant (evidenceBound sha256 worldId operatorId (fst row) journal e) (StorePlain ''Bindung'')
        (invariant (revenueMatches journal e) (StorePlain ''Bruttobeleg'')
        (Inr (if feSettledAtMs e \<le> nowMs then result @ [\<lparr>crEvidence = e, crLedgerTransactionId = ltId (snd row)\<rparr>] else result))))"

definition loadConfirmedFareContractRevenues :: "(string \<Rightarrow> string \<Rightarrow> int) \<Rightarrow> (string \<Rightarrow> string) \<Rightarrow> string \<Rightarrow> string \<Rightarrow> int \<Rightarrow> store \<Rightarrow>
    store_error + confirmed_revenue list" where
  "loadConfirmedFareContractRevenues lc sha256 worldId operatorId nowMs d =
     bnd (fold_res (confirmRow sha256 worldId operatorId nowMs) (confirmedRows d worldId operatorId) []) (\<lambda>result.
     Inr (sort_by (\<lambda>a b. lc (feJournalEffectId (crEvidence a)) (feJournalEffectId (crEvidence b))) result))"

section \<open>Payloads are read as they were stored\<close>

lemma readCostType_text: "readCostType (cost_type_text t) = Some t"
  by (cases t) (simp_all add: readCostType_def ECONOMY_COST_TYPES_def cost_type_text_def)

lemma readPosting_value: "readPosting (postingValue p) = Some p"
  by (simp add: readPosting_def postingValue_def readCostType_text)

lemma readEvidence_value: "readEvidence (evidenceValue e) = Some e"
  by (simp add: readEvidence_def evidenceValue_def)

lemma readJournal_value: "readJournal (journalValue j) = Some j"
proof -
  have "those (map (readPosting \<circ> postingValue) ps) = Some ps" for ps by (induction ps) (simp_all add: readPosting_value)
  then show ?thesis
    by (cases "jeContractRevenueEvidence j") (simp_all add: readJournal_def journalValue_def readEvidence_value, simp add: readEvidence_def)
qed

end
