(* ===== verification/EconomyStoreRefinement.thy ===== *)
theory EconomyStoreRefinement
  imports EconomyAdapters
begin

text \<open>
  What the store promises of a transition: the states of the worlds are a map from world to revision and
  state that a transition changes by compare-and-swap, together with its effects or not at all.
\<close>

section \<open>The abstract store\<close>

type_synonym abstract_store = "string \<Rightarrow> (int \<times> rich) option"

text \<open>Compare-and-swap on the revision; a new world starts at revision zero.\<close>

definition cas :: "abstract_store \<Rightarrow> string \<Rightarrow> int option \<Rightarrow> int \<times> rich \<Rightarrow> abstract_store option" where
  "cas m w expected new =
     (if map_option fst (m w) = expected \<and> (case expected of None \<Rightarrow> fst new = 0 | Some r \<Rightarrow> r < fst new)
      then Some (m(w \<mapsto> new)) else None)"

definition abs_row :: "state_row \<Rightarrow> int \<times> rich" where
  "abs_row r = (srRevision r, case decodeStoredEconomyWorldState (srState r) of Inl e \<Rightarrow> RUndefined | Inr s \<Rightarrow> s)"

definition abs_store :: "store \<Rightarrow> abstract_store" where
  "abs_store d w = map_option abs_row (find (\<lambda>r. srWorldId r = w) (stStates d))"

definition states_unique :: "store \<Rightarrow> bool" where
  "states_unique d \<longleftrightarrow> distinct (map srWorldId (stStates d))"

definition outboxKey :: "outbox_row \<Rightarrow> string \<times> effect_type \<times> string" where
  "outboxKey r = (obWorldId r, obEffectType r, obEffectId r)"

definition outbox_unique :: "store \<Rightarrow> bool" where
  "outbox_unique d \<longleftrightarrow> distinct (map outboxKey (stOutbox d))"

text \<open>A state that can be stored: decodable, with the two indexes a state has today.\<close>

definition complete_state :: "stored_state \<Rightarrow> bool" where
  "complete_state s \<longleftrightarrow> storable_value (stateValue s) \<and> rprop (stateValue s) ''tenderAutomation'' \<noteq> RUndefined \<and>
     rprop (stateValue s) ''operatingRuntimeByLot'' \<noteq> RUndefined"

lemma decode_stored: "complete_state s \<Longrightarrow> decodeStoredEconomyWorldState (encodeEconomyValue (stateValue s)) = Inr (stateValue s)"
  using decode_encode [of "stateValue s"] by (simp add: complete_state_def decodeStoredEconomyWorldState_def coded_def Let_def)

section \<open>Writing the state\<close>

lemma find_new: "\<forall>r \<in> set xs. g r \<noteq> g row \<Longrightarrow> find (\<lambda>r. g r = w) (xs @ [row]) = (if w = g row then Some row else find (\<lambda>r. g r = w) xs)"
  by (induction xs) auto

lemma find_unique: "distinct (map g xs) \<Longrightarrow> x \<in> set xs \<Longrightarrow> find (\<lambda>r. g r = g x) xs = Some x"
  by (induction xs) auto

lemma write_refines:
  assumes "writeState expected row d = Inr (True, d')" "states_unique d"
    and "case expected of None \<Rightarrow> srRevision row = 0 | Some r \<Rightarrow> r < srRevision row"
  shows "cas (abs_store d) (srWorldId row) expected (abs_row row) = Some (abs_store d') \<and> states_unique d' \<and>
    stOutbox d' = stOutbox d \<and> stEvents d' = stEvents d \<and> stDb d' = stDb d"
proof (cases expected)
  case None
  then have new: "\<forall>r \<in> set (stStates d). srWorldId r \<noteq> srWorldId row" and d': "d' = d\<lparr>stStates := stStates d @ [row]\<rparr>"
    using assms(1) by (auto simp: writeState_def insertStateRow_def invariant_Inr split: if_splits)
  have f: "find (\<lambda>r. srWorldId r = w) (stStates d @ [row]) =
      (if w = srWorldId row then Some row else find (\<lambda>r. srWorldId r = w) (stStates d))" for w
    by (rule find_new) (use new in blast)
  have "abs_store d' = (abs_store d)(srWorldId row \<mapsto> abs_row row)"
    by (rule ext) (simp add: abs_store_def d' f)
  moreover have "abs_store d (srWorldId row) = None" using new by (simp add: abs_store_def find_None_iff)
  ultimately show ?thesis using assms(2,3) new None by (auto simp: cas_def abs_row_def states_unique_def d')
next
  case (Some e)
  let ?fits = "\<lambda>r. srWorldId r = srWorldId row \<and> srRevision r = e"
  obtain r0 where r0: "r0 \<in> set (stStates d)" "?fits r0" and d': "d' = d\<lparr>stStates := map (\<lambda>r. if ?fits r then row else r) (stStates d)\<rparr>"
    using assms(1) Some by (auto simp: writeState_def updateStateRow_def Let_def invariant_Inr split: if_splits)
  have r0f: "find (\<lambda>r. srWorldId r = srWorldId row) (stStates d) = Some r0"
    using find_unique [of srWorldId "stStates d" r0] r0 assms(2) by (simp add: states_unique_def)
  have fit: "\<forall>r \<in> set (stStates d). srWorldId r = srWorldId row \<longrightarrow> r = r0"
    using r0 assms(2) by (auto simp: states_unique_def distinct_map inj_on_def)
  have m: "map (\<lambda>r. if ?fits r then row else r) (stStates d) = map (\<lambda>r. if srWorldId r = srWorldId row then row else r) (stStates d)"
    by (rule map_cong) (use fit r0 in auto)
  have f: "find (\<lambda>r. srWorldId r = w) (map (\<lambda>r. if srWorldId r = srWorldId row then row else r) xs) =
      (if w = srWorldId row \<and> find (\<lambda>r. srWorldId r = w) xs \<noteq> None then Some row else find (\<lambda>r. srWorldId r = w) xs)" for w xs
    by (induction xs) auto
  have "abs_store d' = (abs_store d)(srWorldId row \<mapsto> abs_row row)"
    by (rule ext) (simp add: abs_store_def d' m f r0f)
  moreover have "map_option fst (abs_store d (srWorldId row)) = Some e" using r0 r0f by (simp add: abs_store_def abs_row_def)
  moreover have "map srWorldId (stStates d') = map srWorldId (stStates d)" by (simp add: d' m)
  then have "states_unique d'" using assms(2) by (simp only: states_unique_def)
  ultimately show ?thesis using assms(3) Some by (simp add: cas_def abs_row_def) (simp add: d')
qed

section \<open>Writing the effects\<close>

lemma insertOutboxRow_ok:
  assumes "insertOutboxRow row d = Inr d'" "outbox_unique d"
  shows "\<exists>new. stOutbox d' = stOutbox d @ new \<and> (new = [] \<or> (\<exists>i. new = [row\<lparr>obId := i\<rparr>])) \<and> outbox_unique d' \<and>
    outboxKey row \<in> outboxKey ` set (stOutbox d') \<and> stStates d' = stStates d \<and> stEvents d' = stEvents d"
proof (cases "outboxKeyTaken d row")
  case True
  then have "d' = snd (drawUuid d)" using assms(1) by (simp add: insertOutboxRow_def drawUuid_def Let_def)
  moreover obtain r where "r \<in> set (stOutbox d)" "outboxKey row = outboxKey r"
    using True by (auto simp: outboxKeyTaken_def outboxKey_def)
  ultimately show ?thesis using assms(2) by (auto simp: drawUuid_def outbox_unique_def)
next
  case False
  then obtain i where "stOutbox d' = stOutbox d @ [row\<lparr>obId := i\<rparr>]" "stStates d' = stStates d" "stEvents d' = stEvents d"
    using assms(1) by (auto simp: insertOutboxRow_def drawUuid_def Let_def invariant_Inr)
  moreover have "outboxKey row \<notin> outboxKey ` set (stOutbox d)" using False by (auto simp: outboxKeyTaken_def outboxKey_def)
  ultimately show ?thesis using assms(2) by (auto simp: outbox_unique_def outboxKey_def)
qed

lemma insertOutboxRows_ok:
  assumes "fold_res insertOutboxRow rows d = Inr d'" "outbox_unique d"
  shows "\<exists>new. stOutbox d' = stOutbox d @ new \<and> (\<forall>x \<in> set new. \<exists>row \<in> set rows. x = row\<lparr>obId := obId x\<rparr>) \<and> outbox_unique d' \<and>
    outboxKey ` set rows \<subseteq> outboxKey ` set (stOutbox d') \<and> stStates d' = stStates d \<and> stEvents d' = stEvents d"
  using assms
proof (induction rows arbitrary: d)
  case (Cons row rows)
  then obtain d1 where d1: "insertOutboxRow row d = Inr d1" "fold_res insertOutboxRow rows d1 = Inr d'" by (auto simp: bnd_Inr)
  obtain new where new: "stOutbox d1 = stOutbox d @ new" "new = [] \<or> (\<exists>i. new = [row\<lparr>obId := i\<rparr>])" "outbox_unique d1"
    "outboxKey row \<in> outboxKey ` set (stOutbox d1)" "stStates d1 = stStates d" "stEvents d1 = stEvents d"
    using insertOutboxRow_ok [OF d1(1) Cons.prems(2)] by blast
  obtain more where more: "stOutbox d' = stOutbox d1 @ more" "\<forall>x \<in> set more. \<exists>row \<in> set rows. x = row\<lparr>obId := obId x\<rparr>" "outbox_unique d'"
    "outboxKey ` set rows \<subseteq> outboxKey ` set (stOutbox d')" "stStates d' = stStates d1" "stEvents d' = stEvents d1"
    using Cons.IH [OF d1(2) new(3)] by blast
  have "\<forall>x \<in> set (new @ more). \<exists>r \<in> set (row # rows). x = r\<lparr>obId := obId x\<rparr>" using new(2) more(2) by auto
  moreover have "outboxKey ` set (row # rows) \<subseteq> outboxKey ` set (stOutbox d')" using new(4) more(1,4) by auto
  ultimately show ?case using new(1,5,6) more(1,3,5,6) by (intro exI [of _ "new @ more"]) simp
qed simp

lemma map_res_parts: "map_res f xs = Inr ys \<Longrightarrow> list_all2 (\<lambda>x y. f x = Inr y) xs ys"
  by (simp add: map_res_Inr list_all2_conv_all_nth)

text \<open>The rows of the effects: every journal entry and every notice has one, in its place.\<close>

definition effectRow :: "string \<Rightarrow> effect_type \<times> string \<times> rich \<Rightarrow> outbox_row \<Rightarrow> bool" where
  "effectRow w e r \<longleftrightarrow> outboxKey r = (w, fst e, fst (snd e)) \<and> obPayload r = encodeEconomyValue (snd (snd e)) \<and> obProcessedAt r = None \<and> obAttempts r = 0"

definition effectList :: "effects \<Rightarrow> (effect_type \<times> string \<times> rich) list" where
  "effectList fx = map (\<lambda>j. (JournalEffect, jeIdempotencyKey j, journalValue j)) (efJournal fx) @
     map (\<lambda>n. (NoticeEffect, noId n, noticeValue n)) (efNotices fx)"

lemma outboxRow_ok: "outboxRow w now ty i v t = Inr r \<Longrightarrow> effectRow w (ty, i, v) r"
  by (auto simp: outboxRow_def effectRow_def outboxKey_def bnd_Inr)

lemma outboxRows_ok:
  assumes "outboxRows w now fx = Inr rows"
  shows "list_all2 (effectRow w) (effectList fx) rows"
proof -
  obtain js ns where j: "map_res (\<lambda>j. outboxRow w now JournalEffect (jeIdempotencyKey j) (journalValue j) (jeAt j)) (efJournal fx) = Inr js"
    and n: "map_res (\<lambda>n. outboxRow w now NoticeEffect (noId n) (noticeValue n) (noAt n)) (efNotices fx) = Inr ns" and rows: "rows = js @ ns"
    using assms by (auto simp: outboxRows_def bnd_Inr)
  have "list_all2 (effectRow w) (map (\<lambda>j. (JournalEffect, jeIdempotencyKey j, journalValue j)) (efJournal fx)) js"
    using map_res_parts [OF j] by (auto simp: list_all2_map1 outboxRow_ok elim: list_all2_mono)
  moreover have "list_all2 (effectRow w) (map (\<lambda>n. (NoticeEffect, noId n, noticeValue n)) (efNotices fx)) ns"
    using map_res_parts [OF n] by (auto simp: list_all2_map1 outboxRow_ok elim: list_all2_mono)
  ultimately show ?thesis unfolding effectList_def rows by (rule list_all2_appendI)
qed

section \<open>Appending events\<close>

lemma eventRow_ok: "eventRow w n e = Inr r \<Longrightarrow> evWorldId r = w \<and> evSequence r = n \<and> evEventType r = rvEventType e"
  by (auto simp: eventRow_def bnd_Inr)

lemma insertEventRows_ok:
  assumes "fold_res insertEventRow rows d = Inr d'"
  shows "\<exists>new. stEvents d' = stEvents d @ new \<and> list_all2 (\<lambda>r x. x = r\<lparr>evId := evId x\<rparr>) rows new \<and> stStates d' = stStates d \<and> stOutbox d' = stOutbox d"
  using assms
proof (induction rows arbitrary: d)
  case (Cons row rows)
  then obtain d1 where d1: "insertEventRow row d = Inr d1" "fold_res insertEventRow rows d1 = Inr d'" by (auto simp: bnd_Inr)
  then obtain i where i: "stEvents d1 = stEvents d @ [row\<lparr>evId := i\<rparr>]" "stStates d1 = stStates d" "stOutbox d1 = stOutbox d"
    by (auto simp: insertEventRow_def drawUuid_def Let_def invariant_Inr)
  obtain new where "stEvents d' = stEvents d1 @ new" "list_all2 (\<lambda>r x. x = r\<lparr>evId := evId x\<rparr>) rows new" "stStates d' = stStates d1"
    "stOutbox d' = stOutbox d1" using Cons.IH [OF d1(2)] by blast
  then show ?case using i by (intro exI [of _ "row\<lparr>evId := i\<rparr> # new"]) simp
qed simp

definition numbered_events :: "string \<Rightarrow> int \<Rightarrow> runtime_event list \<Rightarrow> event_row list \<Rightarrow> bool" where
  "numbered_events w start es rows \<longleftrightarrow> map evWorldId rows = replicate (length es) w \<and> map evEventType rows = map rvEventType es \<and>
     map evSequence rows = map (\<lambda>i. start + int i) [0..<length es]"

lemma appendEvents_ok:
  assumes "appendEvents w es d = Inr d'"
  shows "\<exists>new. stEvents d' = stEvents d @ new \<and> numbered_events w (lastSequence d w + 1) es new \<and> stStates d' = stStates d \<and> stOutbox d' = stOutbox d"
proof (cases es)
  case Nil
  then show ?thesis using assms by (simp add: appendEvents_def numbered_events_def)
next
  case Cons
  then obtain rows where m: "map_res (\<lambda>(i, e). eventRow w (lastSequence d w + 1 + int i) e) (enumerate 0 es) = Inr rows"
    and f: "fold_res insertEventRow rows d = Inr d'"
    using assms by (auto simp: appendEvents_def Let_def res_simps)
  obtain new where new: "stEvents d' = stEvents d @ new" "list_all2 (\<lambda>r x. x = r\<lparr>evId := evId x\<rparr>) rows new" "stStates d' = stStates d"
    "stOutbox d' = stOutbox d" using insertEventRows_ok [OF f] by blast
  have "length rows = length es" "\<forall>i < length es. eventRow w (lastSequence d w + 1 + int i) (es ! i) = Inr (rows ! i)"
    using m by (auto simp: map_res_Inr nth_enumerate_eq)
  moreover have "length new = length rows" "\<forall>i < length rows. new ! i = (rows ! i)\<lparr>evId := evId (new ! i)\<rparr>"
    using new(2) by (auto simp: list_all2_conv_all_nth)
  ultimately have l: "length new = length es" "\<forall>i < length es. evWorldId (new ! i) = w \<and> evSequence (new ! i) = lastSequence d w + 1 + int i \<and>
      evEventType (new ! i) = rvEventType (es ! i)"
    using eventRow_ok by (metis, metis event_row.select_convs(2-4) event_row.update_convs(1) event_row.surjective)
  then have "numbered_events w (lastSequence d w + 1) es new"
    unfolding numbered_events_def by (intro conjI nth_equalityI) auto
  then show ?thesis using new by blast
qed

section \<open>A transition\<close>

lemma persist_parts:
  assumes "persistEconomyTransition input d = Inr d'"
  obtains d1 d2 now rows where
    "writeState (tiExpectedRevision input) \<lparr>srWorldId = ssWorldId (tiState input), srRevision = ssRevision (tiState input),
       srState = encodeEconomyValue (stateValue (tiState input)), srUpdatedAt = tiCommittedAt input\<rparr> d = Inr (True, d1)"
    "case tiExpectedRevision input of None \<Rightarrow> ssRevision (tiState input) = 0 | Some r \<Rightarrow> r < ssRevision (tiState input)"
    "outboxRows (ssWorldId (tiState input)) now (tiEffects input) = Inr rows" "fold_res insertOutboxRow rows d1 = Inr d2"
    "appendEvents (ssWorldId (tiState input)) (efRuntimeEvents (tiEffects input)) d2 = Inr d'"
  using assms unfolding persistEconomyTransition_def Let_def
  by (auto simp: res_simps not_le split: option.splits)

lemma persist_ok:
  assumes p: "persistEconomyTransition input d = Inr d'" and u: "states_unique d" "outbox_unique d"
  shows "cas (abs_store d) (ssWorldId (tiState input)) (tiExpectedRevision input) (ssRevision (tiState input),
        case decodeStoredEconomyWorldState (encodeEconomyValue (stateValue (tiState input))) of Inl e \<Rightarrow> RUndefined | Inr s \<Rightarrow> s) = Some (abs_store d')"
    and "states_unique d'" "outbox_unique d'"
    and "\<exists>new. stOutbox d' = stOutbox d @ new \<and>
      (\<forall>x \<in> set new. \<exists>e \<in> set (effectList (tiEffects input)). effectRow (ssWorldId (tiState input)) e x)"
    and "\<forall>e \<in> set (effectList (tiEffects input)). (ssWorldId (tiState input), fst e, fst (snd e)) \<in> outboxKey ` set (stOutbox d')"
    and "\<exists>new. stEvents d' = stEvents d @ new \<and>
      numbered_events (ssWorldId (tiState input)) (lastSequence d (ssWorldId (tiState input)) + 1) (efRuntimeEvents (tiEffects input)) new"
proof -
  let ?w = "ssWorldId (tiState input)" and ?fx = "tiEffects input"
  from p obtain d1 d2 now rows where w: "writeState (tiExpectedRevision input) \<lparr>srWorldId = ?w, srRevision = ssRevision (tiState input),
       srState = encodeEconomyValue (stateValue (tiState input)), srUpdatedAt = tiCommittedAt input\<rparr> d = Inr (True, d1)"
    and c: "case tiExpectedRevision input of None \<Rightarrow> ssRevision (tiState input) = 0 | Some r \<Rightarrow> r < ssRevision (tiState input)"
    and r: "outboxRows ?w now ?fx = Inr rows" and i: "fold_res insertOutboxRow rows d1 = Inr d2"
    and e: "appendEvents ?w (efRuntimeEvents ?fx) d2 = Inr d'"
    by (rule persist_parts)
  have w': "cas (abs_store d) ?w (tiExpectedRevision input) (ssRevision (tiState input),
        case decodeStoredEconomyWorldState (encodeEconomyValue (stateValue (tiState input))) of Inl e \<Rightarrow> RUndefined | Inr s \<Rightarrow> s) = Some (abs_store d1)"
    "states_unique d1" "stOutbox d1 = stOutbox d" "stEvents d1 = stEvents d"
    using write_refines [OF w u(1), unfolded abs_row_def state_row.select_convs, OF c] by simp_all
  have "outbox_unique d1" using u(2) w'(3) by (simp add: outbox_unique_def)
  then obtain new where new: "stOutbox d2 = stOutbox d1 @ new" "\<forall>x \<in> set new. \<exists>row \<in> set rows. x = row\<lparr>obId := obId x\<rparr>" "outbox_unique d2"
    "outboxKey ` set rows \<subseteq> outboxKey ` set (stOutbox d2)" "stStates d2 = stStates d1" "stEvents d2 = stEvents d1"
    using insertOutboxRows_ok [OF i] by blast
  obtain evs where evs: "stEvents d' = stEvents d2 @ evs" "numbered_events ?w (lastSequence d2 ?w + 1) (efRuntimeEvents ?fx) evs"
    "stStates d' = stStates d2" "stOutbox d' = stOutbox d2" using appendEvents_ok [OF e] by blast
  note rows = outboxRows_ok [OF r]
  have st: "abs_store d' = abs_store d1" "stStates d' = stStates d1" using new(5) evs(3) by (simp_all add: abs_store_def fun_eq_iff)
  show "cas (abs_store d) ?w (tiExpectedRevision input) (ssRevision (tiState input),
        case decodeStoredEconomyWorldState (encodeEconomyValue (stateValue (tiState input))) of Inl e \<Rightarrow> RUndefined | Inr s \<Rightarrow> s) = Some (abs_store d')"
    using w'(1) st(1) by simp
  show "states_unique d'" "outbox_unique d'" using w'(2) new(3) st(2) evs(4) by (simp_all add: states_unique_def outbox_unique_def)
  have "\<exists>e \<in> set (effectList ?fx). effectRow ?w e x" if x: "x \<in> set new" for x
  proof -
    obtain row where row: "row \<in> set rows" "x = row\<lparr>obId := obId x\<rparr>" using new(2) x by blast
    then obtain e where "e \<in> set (effectList ?fx)" "effectRow ?w e row" using rows by (metis in_set_conv_nth list_all2_conv_all_nth)
    moreover have "effectRow ?w e (row\<lparr>obId := obId x\<rparr>) = effectRow ?w e row" for e by (simp add: effectRow_def outboxKey_def)
    ultimately show ?thesis using row(2) by metis
  qed
  then show "\<exists>new. stOutbox d' = stOutbox d @ new \<and> (\<forall>x \<in> set new. \<exists>e \<in> set (effectList ?fx). effectRow ?w e x)"
    using new(1) w'(3) evs(4) by auto
  show "\<forall>e \<in> set (effectList ?fx). (?w, fst e, fst (snd e)) \<in> outboxKey ` set (stOutbox d')"
  proof
    fix e assume "e \<in> set (effectList ?fx)"
    then obtain row where "row \<in> set rows" "effectRow ?w e row" using rows by (metis in_set_conv_nth list_all2_conv_all_nth)
    then have "(?w, fst e, fst (snd e)) \<in> outboxKey ` set rows" by (metis effectRow_def image_eqI)
    then show "(?w, fst e, fst (snd e)) \<in> outboxKey ` set (stOutbox d')" using new(4) evs(4) by auto
  qed
  have "lastSequence d2 ?w = lastSequence d ?w" using new(6) w'(4) by (simp add: lastSequence_def)
  then show "\<exists>new. stEvents d' = stEvents d @ new \<and> numbered_events ?w (lastSequence d ?w + 1) (efRuntimeEvents ?fx) new"
    using evs(1,2) new(6) w'(4) by auto
qed


section \<open>A sample transition\<close>

definition first_store :: store where
  "first_store = \<lparr>stDb = \<lparr>dbWorlds = [\<lparr>woId = ''w'', woKind = PublicWorld, woLifecycle = WorldActive, woEpoch = 0\<rparr>], dbAccesses = [], dbAccounts = [],
     dbRoles = [], dbOperators = [], dbLedgerAccounts = [], dbLedgerTransactions = [], dbLedgerEntries = [], dbUuid = nat_str, dbDraws = 0\<rparr>,
     stMessages = [], stStates = [], stOutbox = [], stEvents = [], stEffects = []\<rparr>"

definition first_state :: stored_state where
  "first_state = \<lparr>ssWorldId = ''w'', ssRevision = 0, ssRest = [(''tenderAutomation'', RMap []), (''operatingRuntimeByLot'', RMap []),
     (''budgets'', RMap [(RString ''auth:0'', RObject [(''committedCents'', RBigint 0)])])]\<rparr>"

definition first_notice :: economy_notice where
  "first_notice = \<lparr>noId = ''n'', noWorldId = ''w'', noRecipientAccountId = ''acc'', noType = ''tender-calendar-published'', noAt = 0, noPayload = VObject []\<rparr>"

definition first_transition :: stored_transition where
  "first_transition = \<lparr>tiExpectedRevision = None, tiState = first_state,
     tiEffects = no_effects\<lparr>efNotices := [first_notice], efRuntimeEvents := [\<lparr>rvEventId = ''e'', rvWorldId = ''w'', rvEventType = ''started'', rvAtS = 5, rvPayload = []\<rparr>]\<rparr>,
     tiCommittedAt = 1, tiEnqueuedAt = Some 1\<rparr>"


end
