(* ===== verification/EconomyStoreCash.thy ===== *)
theory EconomyStoreCash
  imports EconomyAdapters LedgerProperties
begin

text \<open>
  The cash an operator may spend (\<open>loadEconomyCashAvailabilityForUpdate\<close>) against what the adapters
  later book: whatever pending journals are posted, in whatever order and however often, the balance of
  the cash account never falls below what was shown as available.
\<close>

section \<open>One journal entry in the ledger\<close>

lemma cost_types_all: "t \<in> set ECONOMY_COST_TYPES"
  by (cases t) (simp_all add: ECONOMY_COST_TYPES_def)

lemma plan_accounts_differ:
  assumes "assertJournalAccountPlan w p accounts plan d = Inr ()"
  shows "jaRevenueAccountId accounts \<noteq> jaCashAccountId accounts" "jaCostAccountIds accounts t \<noteq> jaCashAccountId accounts"
proof -
  have "length (expectedNames accounts plan) = length ECONOMY_COST_TYPES + 2"
    using assms by (auto simp: assertJournalAccountPlan_def Let_def invariant_Inr)
  then have "distinct (map fst ([(jaCashAccountId accounts, apCashAccountName plan), (jaRevenueAccountId accounts, apRevenueAccountName plan)] @
      map (\<lambda>t. (jaCostAccountIds accounts t, apCostAccountNames plan t)) ECONOMY_COST_TYPES))"
    by (subst map_from_size [symmetric]) (simp add: expectedNames_def)
  then show "jaRevenueAccountId accounts \<noteq> jaCashAccountId accounts" "jaCostAccountIds accounts t \<noteq> jaCashAccountId accounts"
    using imageI [OF cost_types_all [of t], of "jaCostAccountIds accounts"] by (auto simp: comp_def)
qed

definition accountSum :: "string \<Rightarrow> entry_input list \<Rightarrow> int" where
  "accountSum a es = sum_list (map enAmountCents (filter (\<lambda>e. enAccountId e = a) es))"

lemma accountSum_append [simp]: "accountSum a (es @ fs) = accountSum a es + accountSum a fs"
  by (simp add: accountSum_def)

lemma accountSum_nonzero: "accountSum a (filter (\<lambda>e. enAmountCents e \<noteq> 0) es) = accountSum a es"
  by (induction es) (auto simp: accountSum_def)

lemma accountSum_absent: "\<forall>e \<in> set es. enAccountId e \<noteq> a \<Longrightarrow> accountSum a es = 0"
  by (induction es) (auto simp: accountSum_def)

definition journalDelta :: "journal_entry \<Rightarrow> int" where
  "journalDelta j = jeRevenueCents j - sum_list (map cpAmountCents (jePostings j))"

lemma journal_cash:
  assumes "assertJournalAccountPlan w p accounts plan d = Inr ()"
  shows "accountSum (jaCashAccountId accounts) (journalEntries accounts j) = journalDelta j"
proof -
  note ne = plan_accounts_differ [OF assms]
  let ?cs = "map (\<lambda>p. \<lparr>enAccountId = jaCostAccountIds accounts (cpCostType p), enAmountCents = cpAmountCents p,
      enCostType = Some (cost_type_text (cpCostType p)), enCostCentreId = Some (cpCostCentreId p)\<rparr>) (jePostings j)"
  have "accountSum (jaCashAccountId accounts) ?cs = 0" by (rule accountSum_absent) (use ne(2) in auto)
  moreover have "accountSum (jaCashAccountId accounts) [\<lparr>enAccountId = jaRevenueAccountId accounts, enAmountCents = n, enCostType = None,
      enCostCentreId = None\<rparr>] = 0" for n
    by (rule accountSum_absent) (use ne(1) in auto)
  moreover have "accountSum a [] = 0" for a by (simp add: accountSum_def)
  ultimately show ?thesis
    by (simp add: journalEntries_def Let_def accountSum_nonzero journalDelta_def) (simp add: accountSum_def)
qed

section \<open>One posting\<close>

definition taken :: "store \<Rightarrow> string \<Rightarrow> string \<Rightarrow> string \<Rightarrow> bool" where
  "taken d w p key \<longleftrightarrow> keyTaken (stDb d) w p (Some key)"

lemma keyTaken_mono: "set (dbLedgerTransactions p) \<subseteq> set (dbLedgerTransactions p') \<Longrightarrow> keyTaken p w q k \<Longrightarrow> keyTaken p' w q k"
  by (auto simp: keyTaken_def)

lemma recordEffect_ledger:
  assumes "recordEffect w i ty atS d = Inr d'"
  shows "\<exists>n. stDb d' = (stDb d)\<lparr>dbDraws := n\<rparr>" "stOutbox d' = stOutbox d"
  using assms by (auto simp: recordEffect_def insertEffectRow_def drawUuid_def Let_def res_simps split: if_splits)

lemma balance_append: "ledgerAccountBalance p w a = ledgerAccountBalance q w a + accountSum a (map entryOf rows)"
  if "dbLedgerEntries p = dbLedgerEntries q @ rows" "\<forall>r \<in> set rows. leWorldId r = w"
proof -
  have "sum_list (map leAmountCents (filter (\<lambda>e. leWorldId e = w \<and> leAccountId e = a) rows)) = accountSum a (map entryOf rows)"
    using that(2) by (induction rows) (auto simp: accountSum_def)
  then show ?thesis by (simp add: ledgerAccountBalance_def that(1))
qed

lemma post_effect:
  assumes "postLedgerTransaction input p = Inr (t, p')" "poIdempotencyKey input = Some key"
  shows "own_accounts p input \<and> dbLedgerAccounts p' = dbLedgerAccounts p \<and>
    set (dbLedgerTransactions p) \<subseteq> set (dbLedgerTransactions p') \<and>
    keyTaken p' (poWorldId input) (poOperatorId input) (Some key) \<and>
    ledgerAccountBalance p' (poWorldId input) a = ledgerAccountBalance p (poWorldId input) a +
      (if keyTaken p (poWorldId input) (poOperatorId input) (Some key) then 0 else accountSum a (poEntries input))"
  using postLedgerTransaction_cases(4) [OF assms(1)]
proof
  assume "insertTransactionWithEntries input p = Inr (t, p')"
  then show ?thesis
  proof (rule transaction_inserted)
    fix rows draws
    assume p': "p' = p\<lparr>dbLedgerTransactions := dbLedgerTransactions p @ [t], dbLedgerEntries := dbLedgerEntries p @ rows, dbDraws := draws\<rparr>"
      and rows: "map entryOf rows = poEntries input"
        "\<forall>r \<in> set rows. leWorldId r = poWorldId input \<and> leTransactionId r = ltId t \<and> is_i64 (leAmountCents r)"
      and t: "ltWorldId t = poWorldId input" "ltOperatorId t = poOperatorId input" "ltIdempotencyKey t = poIdempotencyKey input"
      and new: "\<not> keyTaken p (poWorldId input) (poOperatorId input) (poIdempotencyKey input)"
    have "ledgerAccountBalance p' (poWorldId input) a = ledgerAccountBalance p (poWorldId input) a + accountSum a (poEntries input)"
      using balance_append [of p' p rows "poWorldId input" a] rows by (simp add: p')
    then show ?thesis using postLedgerTransaction_cases(3) [OF assms(1)] new t assms(2) by (auto simp: keyTaken_def p')
  qed
next
  assume "\<exists>key. poIdempotencyKey input = Some key \<and> findTransaction p (poWorldId input) (poOperatorId input) key = Some t \<and>
         assertIdempotentReplayMatches p t input key = Inr () \<and> p' = p"
  then have f: "findTransaction p (poWorldId input) (poOperatorId input) key = Some t" "p' = p" using assms(2) by auto
  then have "keyTaken p (poWorldId input) (poOperatorId input) (Some key)" using findTransaction_Some [OF f(1)] by (auto simp: keyTaken_def)
  then show ?thesis using postLedgerTransaction_cases(3) [OF assms(1)] f(2) by simp
qed

lemma postJournal_effect:
  assumes "postJournal accs plan j d = Inr d'" "map_of accs p = Some accounts" "books_ok (stDb d)"
    and cash: "\<exists>a \<in> set (dbLedgerAccounts (stDb d)). laWorldId a = jeWorldId j \<and> laOperatorId a = p \<and> laId a = jaCashAccountId accounts"
  shows "books_ok (stDb d') \<and> stOutbox d' = stOutbox d \<and> dbLedgerAccounts (stDb d') = dbLedgerAccounts (stDb d) \<and>
    (\<forall>w q k. taken d w q k \<longrightarrow> taken d' w q k) \<and> taken d' (jeWorldId j) (jeOperatorId j) (jeIdempotencyKey j) \<and>
    ledgerAccountBalance (stDb d') (jeWorldId j) (jaCashAccountId accounts) = ledgerAccountBalance (stDb d) (jeWorldId j) (jaCashAccountId accounts) +
      (if jeOperatorId j \<noteq> p \<or> taken d (jeWorldId j) (jeOperatorId j) (jeIdempotencyKey j) then 0 else journalDelta j)"
proof -
  obtain own where own: "map_of accs (jeOperatorId j) = Some own" using assms(1) by (auto simp: postJournal_def split: option.splits)
  obtain t d1 where plan: "assertJournalAccountPlan (jeWorldId j) (jeOperatorId j) own plan d = Inr ()"
    and post: "onPlatform (postLedgerTransaction (journalPosting own j)) d = Inr (t, d1)"
    and rec: "recordEffect (jeWorldId j) (jeIdempotencyKey j) JournalEffect (jeAt j) d1 = Inr d'"
    using assms(1) own by (auto simp: postJournal_def res_simps)
  obtain p1 where p1: "postLedgerTransaction (journalPosting own j) (stDb d) = Inr (t, p1)" "d1 = d\<lparr>stDb := p1\<rparr>"
    using post by (auto simp: onPlatform_def split: sum.splits)
  obtain n where d': "stDb d' = p1\<lparr>dbDraws := n\<rparr>" "stOutbox d' = stOutbox d" using recordEffect_ledger [OF rec] by (auto simp: p1(2))
  have tabs: "dbLedgerTransactions (stDb d') = dbLedgerTransactions p1" "dbLedgerEntries (stDb d') = dbLedgerEntries p1"
    "dbLedgerAccounts (stDb d') = dbLedgerAccounts p1" by (simp_all add: d')
  have ok1: "books_ok p1" by (rule postLedgerTransaction_keeps [OF p1(1) assms(3)])
  have ok: "books_ok (stDb d')" using ok1
    unfolding books_ok_def entry_bound_def transaction_ok_def storedEntries_def tabs .
  have key: "poIdempotencyKey (journalPosting own j) = Some (jeIdempotencyKey j)" by (simp add: journalPosting_def)
  note e = post_effect [OF p1(1) key, of "jaCashAccountId accounts", unfolded journalPosting_def posting.simps]
  have tk: "taken d' w q k = keyTaken p1 w q (Some k)" for w q k by (simp add: taken_def keyTaken_def tabs)
  have bal: "ledgerAccountBalance (stDb d') w a = ledgerAccountBalance p1 w a" for w a by (simp add: ledgerAccountBalance_def tabs)
  have "own_accounts (stDb d) (journalPosting own j)" using post_effect [OF p1(1) key] by blast
  then have mine: "\<forall>x \<in> set (journalEntries own j). \<exists>a \<in> set (dbLedgerAccounts (stDb d)). laWorldId a = jeWorldId j \<and>
      laOperatorId a = jeOperatorId j \<and> laId a = enAccountId x"
    by (simp add: own_accounts_def journalPosting_def)
  have sum: "accountSum (jaCashAccountId accounts) (journalEntries own j) = (if jeOperatorId j = p then journalDelta j else 0)"
  proof (cases "jeOperatorId j = p")
    case True
    then have "own = accounts" using own assms(2) by simp
    then show ?thesis using journal_cash [OF plan] True by simp
  next
    case False
    have "enAccountId x \<noteq> jaCashAccountId accounts" if x: "x \<in> set (journalEntries own j)" for x
    proof
      assume same: "enAccountId x = jaCashAccountId accounts"
      obtain b where "b \<in> set (dbLedgerAccounts (stDb d))" "laOperatorId b = jeOperatorId j" "laId b = jaCashAccountId accounts"
        using bspec [OF mine x] same by auto
      moreover obtain a where "a \<in> set (dbLedgerAccounts (stDb d))" "laOperatorId a = p" "laId a = jaCashAccountId accounts" using cash by blast
      moreover have "distinct (map laId (dbLedgerAccounts (stDb d)))" using assms(3) by (simp add: books_ok_def)
      ultimately show False using False by (metis distinct_map inj_onD)
    qed
    then show ?thesis using False by (simp add: accountSum_absent)
  qed
  have "(\<forall>w q k. taken d w q k \<longrightarrow> taken d' w q k)" using e keyTaken_mono unfolding tk by (metis taken_def)
  then show ?thesis using ok d'(2) tabs(3) e sum unfolding tk bal by (auto simp: taken_def)
qed

section \<open>Pending rows\<close>

definition rowDelta :: "outbox_row \<Rightarrow> int" where
  "rowDelta r = (case pendingJournalCashDelta (obPayload r) (obWorldId r) (obEffectId r) of Inr c \<Rightarrow> cdCashDeltaCents c | Inl e \<Rightarrow> 0)"

definition rowOperator :: "outbox_row \<Rightarrow> string option" where
  "rowOperator r = (case pendingJournalCashDelta (obPayload r) (obWorldId r) (obEffectId r) of Inr c \<Rightarrow> Some (cdOperatorId c) | Inl e \<Rightarrow> None)"

text \<open>The rows whose debit is reserved.\<close>

definition reserved :: "store \<Rightarrow> string \<Rightarrow> string \<Rightarrow> outbox_row list" where
  "reserved d w p = filter (\<lambda>r. rowOperator r = Some p \<and> \<not> taken d w p (obEffectId r)) (pendingJournals d w)"

definition debit :: "outbox_row \<Rightarrow> int" where
  "debit r = max 0 (- rowDelta r)"

lemma fold_posting_costs:
  assumes "fold_res addPostingCost vs n = Inr m" "those (map readPosting vs) = Some ps"
  shows "m = n + sum_list (map cpAmountCents ps)"
  using assms
proof (induction vs arbitrary: n ps)
  case (Cons v vs)
  obtain p ps' where ps: "ps = p # ps'" "readPosting v = Some p" "those (map readPosting vs) = Some ps'"
    using Cons.prems(2) by (auto split: option.splits)
  obtain n' where n': "addPostingCost v n = Inr n'" "fold_res addPostingCost vs n' = Inr m" using Cons.prems(1) by (auto simp: bnd_Inr)
  have "rprop v ''amountCents'' = RBigint (cpAmountCents p)"
    using ps(2) by (auto simp: readPosting_def split: rich.splits)
  then have "n' = n + cpAmountCents p" using n'(1) by (simp add: addPostingCost_def invariant_Inr)
  then show ?case using Cons.IH [OF n'(2) ps(3)] by (simp add: ps(1))
qed simp

lemma readJournal_parts:
  assumes "readJournal v = Some j"
  obtains ps where "rprop v ''worldId'' = RString (jeWorldId j)" "rprop v ''operatorId'' = RString (jeOperatorId j)"
    "rprop v ''idempotencyKey'' = RString (jeIdempotencyKey j)" "rprop v ''postings'' = RArray ps" "rprop v ''revenueCents'' = RBigint (jeRevenueCents j)"
    "those (map readPosting ps) = Some (jePostings j)"
proof -
  obtain w p k n where a: "rprop v ''worldId'' = RString w" "rprop v ''operatorId'' = RString p" "rprop v ''idempotencyKey'' = RString k"
    "rprop v ''at'' = RNumber n"
    using assms unfolding readJournal_def by (auto split: rich.splits)
  obtain t ps r where b: "rprop v ''description'' = RString t" "rprop v ''postings'' = RArray ps" "rprop v ''revenueCents'' = RBigint r"
    using assms a unfolding readJournal_def by (auto split: rich.splits)
  show thesis by (rule that [of ps]) (use assms a b in \<open>auto simp: readJournal_def\<close>)
qed

lemma row_journal:
  assumes "decodeEconomyValue (obPayload r) = Inr v" "readJournal v = Some j"
    and "pendingJournalCashDelta (obPayload r) (obWorldId r) (obEffectId r) = Inr c"
  shows "jeWorldId j = obWorldId r" "rowOperator r = Some (jeOperatorId j)" "jeIdempotencyKey j = obEffectId r" "rowDelta r = journalDelta j"
proof -
  obtain ps where p: "rprop v ''worldId'' = RString (jeWorldId j)" "rprop v ''operatorId'' = RString (jeOperatorId j)"
    "rprop v ''idempotencyKey'' = RString (jeIdempotencyKey j)" "rprop v ''postings'' = RArray ps" "rprop v ''revenueCents'' = RBigint (jeRevenueCents j)"
    "those (map readPosting ps) = Some (jePostings j)"
    by (rule readJournal_parts [OF assms(2)])
  obtain costs where f: "fold_res addPostingCost ps 0 = Inr costs" and w: "RString (jeWorldId j) = RString (obWorldId r)"
    "RString (jeIdempotencyKey j) = RString (obEffectId r)"
    and c: "c = \<lparr>cdOperatorId = jeOperatorId j, cdIdempotencyKey = obEffectId r, cdCashDeltaCents = jeRevenueCents j - costs\<rparr>"
    using assms(1,3) p by (auto simp: pendingJournalCashDelta_def coded_def res_simps)
  show "jeWorldId j = obWorldId r" "jeIdempotencyKey j = obEffectId r" using w by simp_all
  show "rowOperator r = Some (jeOperatorId j)" using assms(3) c by (simp add: rowOperator_def)
  show "rowDelta r = journalDelta j"
    using assms(3) c fold_posting_costs [OF f p(6)] by (simp add: rowDelta_def journalDelta_def)
qed

text \<open>What the load reserves.\<close>

lemma addPendingDebit_Inr: "addPendingDebit p (r, b) n = Inr m \<Longrightarrow> rowOperator r \<noteq> None \<and>
    m = n + (if rowOperator r = Some p \<and> b = None then debit r else 0)"
  by (auto simp: addPendingDebit_def rowOperator_def rowDelta_def debit_def bnd_Inr)

lemma withBooking_fold:
  assumes "fold_res (addPendingDebit p) (withBooking d p r) n = Inr m" "obWorldId r = w"
  shows "rowOperator r \<noteq> None \<and> m = n + (if rowOperator r = Some p \<and> \<not> taken d w p (obEffectId r) then debit r else 0)"
proof -
  let ?ts = "filter (\<lambda>t. ltWorldId t = obWorldId r \<and> ltOperatorId t = p \<and> ltIdempotencyKey t = Some (obEffectId r)) (dbLedgerTransactions (stDb d))"
  have tk: "taken d w p (obEffectId r) \<longleftrightarrow> ?ts \<noteq> []" using assms(2) by (auto simp: taken_def keyTaken_def filter_empty_conv)
  show ?thesis
  proof (cases ?ts)
    case Nil
    then have "addPendingDebit p (r, None) n = Inr m" using assms(1) by (simp add: withBooking_def bnd_Inr)
    then show ?thesis using addPendingDebit_Inr [of p r None n m] tk Nil by simp
  next
    case (Cons t ts)
    have skip: "m' = n' \<and> (us \<noteq> [] \<longrightarrow> rowOperator r \<noteq> None)"
      if "fold_res (addPendingDebit p) (map (\<lambda>t. (r, Some (ltId t))) us) n' = Inr m'" for us n' m'
      using that by (induction us arbitrary: n') (auto simp: bnd_Inr dest: addPendingDebit_Inr)
    have "fold_res (addPendingDebit p) (map (\<lambda>t. (r, Some (ltId t))) (t # ts)) n = Inr m" using assms(1) Cons by (simp add: withBooking_def)
    then show ?thesis using skip tk Cons by fastforce
  qed
qed

lemma pending_fold:
  assumes "fold_res (addPendingDebit p) (concat (map (withBooking d p) rs)) n = Inr m" "\<forall>r \<in> set rs. obWorldId r = w"
  shows "(\<forall>r \<in> set rs. rowOperator r \<noteq> None) \<and>
    m = n + sum_list (map debit (filter (\<lambda>r. rowOperator r = Some p \<and> \<not> taken d w p (obEffectId r)) rs))"
  using assms
proof (induction rs arbitrary: n)
  case (Cons r rs)
  obtain n' where n': "fold_res (addPendingDebit p) (withBooking d p r) n = Inr n'"
    "fold_res (addPendingDebit p) (concat (map (withBooking d p) rs)) n' = Inr m"
    using Cons.prems(1) by (auto simp: fold_res_append bnd_Inr)
  show ?case using withBooking_fold [OF n'(1), of w] Cons.IH [OF n'(2)] Cons.prems(2) by auto
qed simp

lemma balance_fold: "fold (\<lambda>e s. s + leAmountCents e) es n = n + sum_list (map leAmountCents es)"
  by (induction es arbitrary: n) auto

lemma load_parts:
  assumes "loadEconomyCashAvailabilityForUpdate w p cash d = Inr a"
  shows "\<exists>x \<in> set (dbLedgerAccounts (stDb d)). laWorldId x = w \<and> laOperatorId x = p \<and> laId x = cash"
    and "avLedgerBalanceCents a = ledgerAccountBalance (stDb d) w cash"
    and "avAvailableCents a = ledgerAccountBalance (stDb d) w cash - sum_list (map debit (reserved d w p))"
    and "\<forall>r \<in> set (pendingJournals d w). rowOperator r \<noteq> None"
proof -
  obtain m where f: "fold_res (addPendingDebit p) (concat (map (withBooking d p) (pendingJournals d w))) 0 = Inr m"
    and a: "a = \<lparr>avLedgerBalanceCents = ledgerAccountBalance (stDb d) w cash, avPendingDebitCents = m,
      avAvailableCents = ledgerAccountBalance (stDb d) w cash - m\<rparr>"
    using assms by (auto simp: loadEconomyCashAvailabilityForUpdate_def Let_def res_simps balance_fold ledgerAccountBalance_def)
  show "\<exists>x \<in> set (dbLedgerAccounts (stDb d)). laWorldId x = w \<and> laOperatorId x = p \<and> laId x = cash"
    using assms by (auto simp: loadEconomyCashAvailabilityForUpdate_def Let_def res_simps)
  have "\<forall>r \<in> set (pendingJournals d w). obWorldId r = w" by (simp add: pendingJournals_def)
  note pf = pending_fold [OF f this]
  show "avLedgerBalanceCents a = ledgerAccountBalance (stDb d) w cash"
    "avAvailableCents a = ledgerAccountBalance (stDb d) w cash - sum_list (map debit (reserved d w p))"
    "\<forall>r \<in> set (pendingJournals d w). rowOperator r \<noteq> None"
    using pf by (simp_all add: a reserved_def)
qed

section \<open>What is booked later\<close>

text \<open>A run of postings: an adapter call that fails leaves what its transaction found.\<close>

fun post_run :: "(string \<times> journal_accounts) list \<Rightarrow> account_plan \<Rightarrow> rich list \<Rightarrow> store \<Rightarrow> store" where
  "post_run accs plan [] d = d"
| "post_run accs plan (v # vs) d = post_run accs plan vs (fst (journalAdapter accs plan v d))"

definition cash_account :: "store \<Rightarrow> string \<Rightarrow> string \<Rightarrow> string \<Rightarrow> bool" where
  "cash_account d w p cash \<longleftrightarrow> (\<exists>x \<in> set (dbLedgerAccounts (stDb d)). laWorldId x = w \<and> laOperatorId x = p \<and> laId x = cash)"

definition accounted :: "store \<Rightarrow> string \<Rightarrow> string \<Rightarrow> string \<Rightarrow> store \<Rightarrow> outbox_row set \<Rightarrow> bool" where
  "accounted d w p cash d' R \<longleftrightarrow> R \<subseteq> set (reserved d w p) \<and> (\<forall>r \<in> R. taken d' w p (obEffectId r)) \<and> books_ok (stDb d') \<and>
     cash_account d' w p cash \<and> (\<forall>k. taken d w p k \<longrightarrow> taken d' w p k) \<and>
     ledgerAccountBalance (stDb d') w cash = ledgerAccountBalance (stDb d) w cash + sum rowDelta R"

lemma adapter_accounted:
  assumes acc: "accounted d w p cash d1 R" and accs: "map_of accs p = Some accounts" "jaCashAccountId accounts = cash"
    and r: "r \<in> set (pendingJournals d w)" "decodeEconomyValue (obPayload r) = Inr v" "rowOperator r \<noteq> None"
  shows "\<exists>R'. accounted d w p cash (fst (journalAdapter accs plan v d1)) R'"
proof (cases "\<exists>j d2. readJournal v = Some j \<and> postJournal accs plan j d1 = Inr d2")
  case False
  then have "fst (journalAdapter accs plan v d1) = d1" by (auto simp: journalAdapter_def split: option.splits sum.splits)
  then show ?thesis using acc by auto
next
  case True
  then obtain j d2 where j: "readJournal v = Some j" "postJournal accs plan j d1 = Inr d2" by blast
  have d2: "fst (journalAdapter accs plan v d1) = d2" by (simp add: journalAdapter_def j)
  obtain c where "pendingJournalCashDelta (obPayload r) (obWorldId r) (obEffectId r) = Inr c"
    using r(3) by (auto simp: rowOperator_def split: sum.splits)
  note row = row_journal [OF r(2) j(1) this]
  have w: "obWorldId r = w" using r(1) by (simp add: pendingJournals_def)
  have cash: "\<exists>a \<in> set (dbLedgerAccounts (stDb d1)). laWorldId a = jeWorldId j \<and> laOperatorId a = p \<and> laId a = jaCashAccountId accounts"
    using acc row(1) w accs(2) by (simp add: accounted_def cash_account_def)
  have ok: "books_ok (stDb d1)" using acc by (simp add: accounted_def)
  note e = postJournal_effect [OF j(2) accs(1) ok cash, unfolded row(1,3) w accs(2)]
  have ca: "cash_account d2 w p cash" using acc e by (simp add: accounted_def cash_account_def)
  show ?thesis
  proof (cases "jeOperatorId j = p \<and> \<not> taken d1 w p (obEffectId r)")
    case True
    then have new: "r \<notin> R" "r \<in> set (reserved d w p)" using acc r(1) row(2) by (auto simp: accounted_def reserved_def)
    have "finite R" using acc finite_subset by (auto simp: accounted_def)
    then have "sum rowDelta (insert r R) = sum rowDelta R + journalDelta j" using new(1) row(4) by simp
    then have "accounted d w p cash d2 (insert r R)" using acc e ca new(2) True by (auto simp: accounted_def)
    then show ?thesis using d2 by blast
  next
    case False
    then have "accounted d w p cash d2 R" using acc e ca by (auto simp: accounted_def)
    then show ?thesis using d2 by blast
  qed
qed

lemma post_run_accounted:
  assumes "accounted d w p cash d1 R" "map_of accs p = Some accounts" "jaCashAccountId accounts = cash"
    and "\<forall>r \<in> set (pendingJournals d w). rowOperator r \<noteq> None"
    and "\<forall>v \<in> set vs. \<exists>r \<in> set (pendingJournals d w). decodeEconomyValue (obPayload r) = Inr v"
  shows "\<exists>R'. accounted d w p cash (post_run accs plan vs d1) R'"
  using assms(1,5)
proof (induction vs arbitrary: d1 R)
  case (Cons v vs)
  obtain r where "r \<in> set (pendingJournals d w)" "decodeEconomyValue (obPayload r) = Inr v" using Cons.prems(2) by auto
  then obtain R' where "accounted d w p cash (fst (journalAdapter accs plan v d1)) R'"
    using adapter_accounted [OF Cons.prems(1) assms(2,3)] assms(4) by blast
  then show ?case using Cons.IH Cons.prems(2) by simp
qed auto

lemma sum_of_reserved: "R \<subseteq> set rs \<Longrightarrow> - sum rowDelta R \<le> sum_list (map debit rs)"
proof (induction rs arbitrary: R)
  case (Cons r rs)
  have f: "finite R" using Cons.prems finite_subset by blast
  have "- sum rowDelta (R - {r}) \<le> sum_list (map debit rs)" using Cons.prems by (intro Cons.IH) auto
  moreover have "sum rowDelta R = (if r \<in> R then rowDelta r else 0) + sum rowDelta (R - {r})"
    using sum.remove [OF f, of r rowDelta] by simp
  moreover have "0 \<le> (if r \<in> R then rowDelta r else 0) + debit r" by (simp add: debit_def max_def)
  ultimately have "- sum rowDelta R \<le> debit r + sum_list (map debit rs)" by linarith
  then show ?case by simp
qed simp

text \<open>C37: The cash shown as available to an operator is never more than the balance of its cash account, and it stays covered:
  whatever journals pending then are posted by the adapter, in any order, repeatedly or in vain, for this operator or for others,
  the balance of the account never falls below it.\<close>

theorem available_cash_is_covered:
  assumes "loadEconomyCashAvailabilityForUpdate w p cash d = Inr a" and "books_ok (stDb d)"
    and "map_of accs p = Some accounts" and "jaCashAccountId accounts = cash"
    and "\<forall>v \<in> set vs. \<exists>r \<in> set (pendingJournals d w). decodeEconomyValue (obPayload r) = Inr v"
  shows "avAvailableCents a \<le> avLedgerBalanceCents a \<and> avLedgerBalanceCents a = ledgerAccountBalance (stDb d) w cash \<and>
    avAvailableCents a \<le> ledgerAccountBalance (stDb (post_run accs plan vs d)) w cash"
proof -
  note l = load_parts [OF assms(1)]
  have "accounted d w p cash d {}" using l(1) assms(2) by (simp add: accounted_def cash_account_def)
  then obtain R where "accounted d w p cash (post_run accs plan vs d) R"
    using post_run_accounted [OF _ assms(3,4) l(4) assms(5)] by blast
  then have "ledgerAccountBalance (stDb (post_run accs plan vs d)) w cash = ledgerAccountBalance (stDb d) w cash + sum rowDelta R"
    and R: "R \<subseteq> set (reserved d w p)"
    by (auto simp: accounted_def)
  moreover have "- sum rowDelta R \<le> sum_list (map debit (reserved d w p))" by (rule sum_of_reserved [OF R])
  moreover have "0 \<le> sum_list (map debit (reserved d w p))" by (rule sum_list_nonneg) (auto simp: debit_def)
  ultimately show ?thesis using l(2,3) by simp
qed

section \<open>A sample\<close>

definition sample_accounts :: journal_accounts where
  "sample_accounts = \<lparr>jaCashAccountId = ''cash'', jaRevenueAccountId = ''revenue'', jaCostAccountIds = (\<lambda>t. ''cost-'' @ cost_type_text t)\<rparr>"

definition sample_account :: "string \<Rightarrow> string \<Rightarrow> ledger_account" where
  "sample_account i n = \<lparr>laId = i, laWorldId = ''w'', laOperatorId = ''p'', laName = n\<rparr>"

definition sample_entry :: "string \<Rightarrow> string \<Rightarrow> int \<Rightarrow> ledger_entry" where
  "sample_entry i a n = \<lparr>leId = i, leWorldId = ''w'', leTransactionId = ''t'', leAccountId = a, leAmountCents = n, leCostType = None, leCostCentreId = None\<rparr>"

definition sample_journal :: journal_entry where
  "sample_journal = \<lparr>jeWorldId = ''w'', jeOperatorId = ''p'', jeIdempotencyKey = ''c:penalty'', jeAt = 10, jeDescription = ''Poenale'',
     jePostings = [\<lparr>cpAmountCents = 120, cpCostType = Penalty, cpCostCentreId = ''cc'', cpReference = ''c''\<rparr>], jeRevenueCents = 0,
     jeContractRevenueEvidence = None\<rparr>"

definition cash_db :: db where
  "cash_db = \<lparr>dbWorlds = [\<lparr>woId = ''w'', woKind = PublicWorld, woLifecycle = WorldActive, woEpoch = 0\<rparr>], dbAccesses = [], dbAccounts = [], dbRoles = [],
     dbOperators = [\<lparr>opId = ''p'', opWorldId = ''w'', opFoundingAccountId = ''acc'', opName = ''Bahn''\<rparr>],
     dbLedgerAccounts = sample_account ''cash'' ''Economy:Kasse'' # sample_account ''revenue'' ''Economy:Bestellerentgelt'' #
       map (\<lambda>t. sample_account (''cost-'' @ cost_type_text t) (''Economy:'' @ cost_type_text t)) ECONOMY_COST_TYPES,
     dbLedgerTransactions = [\<lparr>ltId = ''t'', ltWorldId = ''w'', ltOperatorId = ''p'', ltIdempotencyKey = None, ltDescription = ''Start'', ltPostedAt = 0\<rparr>],
     dbLedgerEntries = [sample_entry ''e1'' ''cash'' 500, sample_entry ''e2'' ''revenue'' (- 500)], dbUuid = (\<lambda>n. CHR ''u'' # nat_str n), dbDraws = 0\<rparr>"

definition cash_store :: store where
  "cash_store = \<lparr>stDb = cash_db, stMessages = [], stStates = [],
     stOutbox = [\<lparr>obId = ''o'', obWorldId = ''w'', obEffectId = ''c:penalty'', obEffectType = JournalEffect,
       obPayload = encodeEconomyValue (journalValue sample_journal), obOccurredAt = 10000, obEnqueuedAt = 10000, obProcessedAt = None,
       obAttempts = 0, obLastErrorCode = None\<rparr>],
     stEvents = [], stEffects = []\<rparr>"

lemma cash_db_books: "books_ok cash_db"
  by code_simp

theorem available_cash_is_covered_witness:
  "case loadEconomyCashAvailabilityForUpdate ''w'' ''p'' ''cash'' cash_store of Inl e \<Rightarrow> False
   | Inr a \<Rightarrow> avAvailableCents a = 380 \<and> 380 \<le> ledgerAccountBalance (stDb (post_run [(''p'', sample_accounts)]
       STANDARD_ECONOMY_LEDGER_ACCOUNT_PLAN [journalValue sample_journal, journalValue sample_journal] cash_store)) ''w'' ''cash''"
proof -
  let ?l = "loadEconomyCashAvailabilityForUpdate ''w'' ''p'' ''cash'' cash_store"
  have "case ?l of Inl e \<Rightarrow> False | Inr a \<Rightarrow> avAvailableCents a = 380" by code_simp
  then obtain a where a: "?l = Inr a" "avAvailableCents a = 380" by (cases ?l) auto
  have "storable_value (journalValue sample_journal)" by code_simp
  then have "\<forall>v \<in> set [journalValue sample_journal, journalValue sample_journal].
      \<exists>r \<in> set (pendingJournals cash_store ''w''). decodeEconomyValue (obPayload r) = Inr v"
    using decode_encode [of "journalValue sample_journal"] by (simp add: pendingJournals_def cash_store_def)
  moreover have "books_ok (stDb cash_store)" "map_of [(''p'', sample_accounts)] ''p'' = Some sample_accounts" "jaCashAccountId sample_accounts = ''cash''"
    using cash_db_books by (simp_all add: cash_store_def sample_accounts_def)
  ultimately show ?thesis using available_cash_is_covered [OF a(1)] a by fastforce
qed

end
