(* ===== verification/EconomyOutbox.thy ===== *)
theory EconomyOutbox
  imports EconomyStoreCash
begin

text \<open>
  The dispatch of the outbox: the contract between the dispatcher and its adapters as a locale, what the
  dispatcher promises under it, and its instance for the adapters on ledger and mailbox.
\<close>

section \<open>Rows over time\<close>

definition rowPayload :: "outbox_row \<Rightarrow> rich" where
  "rowPayload r = (case decodeEconomyValue (obPayload r) of Inr v \<Rightarrow> v | Inl e \<Rightarrow> RUndefined)"

definition same_effect :: "outbox_row \<Rightarrow> outbox_row \<Rightarrow> bool" where
  "same_effect r r' \<longleftrightarrow> obId r' = obId r \<and> obWorldId r' = obWorldId r \<and> obEffectId r' = obEffectId r \<and> obEffectType r' = obEffectType r \<and>
     obPayload r' = obPayload r \<and> obOccurredAt r' = obOccurredAt r \<and> obEnqueuedAt r' = obEnqueuedAt r"

text \<open>
  What may happen to a row in a dispatch of world \<open>w\<close>: its effect stays; it stays untouched when it is
  processed or of another world; it becomes processed only when \<open>done\<close> holds of it.
\<close>

definition row_ok :: "string \<Rightarrow> (effect_type \<Rightarrow> rich \<Rightarrow> bool) \<Rightarrow> outbox_row \<Rightarrow> outbox_row \<Rightarrow> bool" where
  "row_ok w done r r' \<longleftrightarrow> same_effect r r' \<and> (obProcessedAt r \<noteq> None \<or> obWorldId r \<noteq> w \<longrightarrow> r' = r) \<and>
     (obProcessedAt r = None \<and> obProcessedAt r' \<noteq> None \<longrightarrow> done (obEffectType r) (rowPayload r))"

definition rows_ok :: "string \<Rightarrow> (effect_type \<Rightarrow> rich \<Rightarrow> bool) \<Rightarrow> store \<Rightarrow> store \<Rightarrow> bool" where
  "rows_ok w done d d' \<longleftrightarrow> list_all2 (row_ok w done) (stOutbox d) (stOutbox d')"

lemma row_ok_refl: "row_ok w done r r"
  by (auto simp: row_ok_def same_effect_def)

lemma rows_ok_refl: "stOutbox d' = stOutbox d \<Longrightarrow> rows_ok w done d d'"
  by (simp add: rows_ok_def list_all2_same row_ok_refl)

lemma row_ok_trans:
  assumes "row_ok w done1 r1 r2" "row_ok w done2 r2 r3" "\<And>t v. done1 t v \<Longrightarrow> done2 t v"
  shows "row_ok w done2 r1 r3"
proof -
  have p: "rowPayload r2 = rowPayload r1" "obEffectType r2 = obEffectType r1" using assms(1) by (simp_all add: row_ok_def same_effect_def rowPayload_def)
  show ?thesis
  proof (cases "obProcessedAt r2 = None")
    case True
    then have "obProcessedAt r1 = None" using assms(1) by (auto simp: row_ok_def)
    then show ?thesis using assms True p by (simp add: row_ok_def same_effect_def)
  next
    case False
    then have "r3 = r2" using assms(2) by (simp add: row_ok_def)
    then show ?thesis using assms(1,3) by (simp add: row_ok_def)
  qed
qed

lemma rows_ok_trans:
  "rows_ok w done1 d1 d2 \<Longrightarrow> rows_ok w done2 d2 d3 \<Longrightarrow> (\<And>t v. done1 t v \<Longrightarrow> done2 t v) \<Longrightarrow> rows_ok w done2 d1 d3"
  unfolding rows_ok_def using list_all2_trans [of "row_ok w done1" "row_ok w done2" "row_ok w done2"] row_ok_trans by blast

lemma rows_ok_update:
  assumes "\<And>r. r \<in> set (stOutbox d) \<Longrightarrow> P r \<Longrightarrow> row_ok w done r (f r)"
  shows "rows_ok w done d (updateOutbox P f d)"
  using assms by (auto simp: rows_ok_def updateOutbox_def list_all2_map2 list_all2_same row_ok_refl)

lemma rows_ok_ids: "rows_ok w done d d' \<Longrightarrow> map obId (stOutbox d') = map obId (stOutbox d)"
  unfolding rows_ok_def by (induction rule: list_all2_induct) (auto simp: row_ok_def same_effect_def)

text \<open>The effects listed are those of rows, and stay so while rows only move on.\<close>

definition listed :: "store \<Rightarrow> pending_effect \<Rightarrow> bool" where
  "listed d e \<longleftrightarrow> (\<forall>r \<in> set (stOutbox d). obId r = peId e \<longrightarrow> rowPayload r = pePayload e \<and> obEffectType r = peEffectType e)"

lemma listed_later:
  assumes "listed d e" "rows_ok w done d d'"
  shows "listed d' e"
  unfolding listed_def
proof (intro ballI impI)
  fix r' assume r': "r' \<in> set (stOutbox d')" "obId r' = peId e"
  then obtain i where i: "i < length (stOutbox d')" "r' = stOutbox d' ! i" by (auto simp: in_set_conv_nth)
  have l: "length (stOutbox d) = length (stOutbox d')" using assms(2) by (simp add: rows_ok_def list_all2_lengthD)
  obtain r where "r \<in> set (stOutbox d)" "row_ok w done r r'"
    using list_all2_nthD2 [OF assms(2) [unfolded rows_ok_def] i(1)] i l nth_mem [of i "stOutbox d"] by metis
  then show "rowPayload r' = pePayload e \<and> obEffectType r' = peEffectType e"
    using assms(1) r'(2) by (auto simp: listed_def row_ok_def same_effect_def rowPayload_def)
qed

lemma pending_listed:
  assumes "listPendingEconomyEffects w n d = Inr es" "distinct (map obId (stOutbox d))" "e \<in> set es"
  shows "listed d e"
proof -
  obtain r where r: "r \<in> set (stOutbox d)" "pendingEffect r = Inr e"
    using assms(1,3) by (auto simp: listPendingEconomyEffects_def invariant_Inr dest!: map_res_set in_set_takeD)
  have e: "rowPayload r = pePayload e" "obEffectType r = peEffectType e" "obId r = peId e"
    using r(2) by (cases "decodeEconomyValue (obPayload r)"; auto simp: pendingEffect_def coded_def rowPayload_def bnd_Inr)+
  have "x = r" if "x \<in> set (stOutbox d)" "obId x = peId e" for x
    using assms(2) r(1) that e(3) by (auto simp: distinct_map inj_on_def)
  then show ?thesis using e by (auto simp: listed_def)
qed

lemma map_res_Nil: "map_res f xs = Inr [] \<longleftrightarrow> xs = []"
  by (auto dest: map_res_length)

lemma nonePending_True: "nonePending w d = Inr True \<longleftrightarrow> \<not> (\<exists>r \<in> set (stOutbox d). isPending w r)"
proof -
  have "nonePending w d = Inr True \<longleftrightarrow> map_res pendingEffect (take 1 (sort_by compareQueue (filter (isPending w) (stOutbox d)))) = Inr []"
    by (cases "map_res pendingEffect (take 1 (sort_by compareQueue (filter (isPending w) (stOutbox d))))")
       (simp_all add: nonePending_def listPendingEconomyEffects_def is_safe_def)
  also have "\<dots> \<longleftrightarrow> take 1 (sort_by compareQueue (filter (isPending w) (stOutbox d))) = []"
    by (rule map_res_Nil)
  also have "\<dots> \<longleftrightarrow> filter (isPending w) (stOutbox d) = []"
    by (metis One_nat_def nat.simps(3) set_empty set_sort_by take_eq_Nil)
  finally show ?thesis by (simp add: filter_empty_conv)
qed

section \<open>The contract of the adapters\<close>

text \<open>
  An adapter leaves the outbox alone; when it succeeds the effect is \<open>delivered\<close>, and what is delivered
  stays so while the store \<open>grows\<close>, as it does under adapters and under changes of the outbox.
\<close>

locale outbox_adapters =
  fixes post send :: adapter
    and delivered :: "store \<Rightarrow> effect_type \<Rightarrow> rich \<Rightarrow> bool"
    and grows :: "store \<Rightarrow> store \<Rightarrow> bool"
  assumes post_outbox: "post v d = (d', r) \<Longrightarrow> stOutbox d' = stOutbox d \<and> grows d d'"
    and send_outbox: "send v d = (d', r) \<Longrightarrow> stOutbox d' = stOutbox d \<and> grows d d'"
    and post_delivers: "post v d = (d', Inr ()) \<Longrightarrow> delivered d' JournalEffect v"
    and send_delivers: "send v d = (d', Inr ()) \<Longrightarrow> delivered d' NoticeEffect v"
    and delivered_grows: "delivered d t v \<Longrightarrow> grows d d' \<Longrightarrow> delivered d' t v"
    and grows_refl: "grows d d"
    and grows_trans: "grows a b \<Longrightarrow> grows b c \<Longrightarrow> grows a c"
    and grows_outbox: "grows d (updateOutbox P f d)"
begin

lemma acknowledge_rows:
  assumes "acknowledgeEffect w now e d = (d', r)" "listed d e" "delivered d (peEffectType e) (pePayload e)"
  shows "rows_ok w (delivered d') d d' \<and> grows d d'"
proof (cases "\<exists>x \<in> set (stOutbox d). pendingRow w (peId e) x")
  case True
  let ?f = "\<lambda>r. r\<lparr>obProcessedAt := Some now, obLastErrorCode := None\<rparr>"
  have d': "d' = updateOutbox (pendingRow w (peId e)) ?f d" using assms(1) True by (simp add: acknowledgeEffect_def)
  have "delivered d' (peEffectType e) (pePayload e)" unfolding d' by (rule delivered_grows [OF assms(3) grows_outbox])
  then have "rows_ok w (delivered d') d (updateOutbox (pendingRow w (peId e)) ?f d)"
    using assms(2) by (intro rows_ok_update) (auto simp: row_ok_def same_effect_def pendingRow_def listed_def)
  then show ?thesis using grows_outbox d' by simp
next
  case False
  then have "d' = d" using assms(1) by (auto simp: acknowledgeEffect_def)
  then show ?thesis by (simp add: rows_ok_refl grows_refl)
qed

lemma deliver_rows:
  assumes "deliverEffect post send w now e d = (d', r)" "listed d e"
  shows "rows_ok w (delivered d') d d' \<and> grows d d'"
proof -
  obtain d1 x where a: "(if peEffectType e = JournalEffect then post else send) (pePayload e) d = (d1, x)" by fastforce
  have d1: "stOutbox d1 = stOutbox d" "grows d d1" using a post_outbox send_outbox by (metis (full_types))+
  have l1: "listed d1 e" using assms(2) d1(1) by (simp add: listed_def)
  have ok: "delivered d1 (peEffectType e) (pePayload e)" if "x = Inr ()"
    using a that post_delivers send_delivers by (cases "peEffectType e") auto
  obtain d2 n where b: "(case x of Inl e \<Rightarrow> (d1, Inl e) | Inr _ \<Rightarrow> acknowledgeEffect w now e d1) = (d2, n)" by fastforce
  have d2: "rows_ok w (delivered d2) d1 d2 \<and> grows d1 d2"
    using b acknowledge_rows [of w now e d1 d2 n] l1 ok by (cases x) (auto simp: rows_ok_refl grows_refl)
  then have r2: "rows_ok w (delivered d2) d d2" by (simp add: rows_ok_def d1(1))
  show ?thesis
  proof (cases n)
    case (Inr k)
    then have "d' = d2" using assms(1) a b by (simp add: deliverEffect_def Let_def)
    then show ?thesis using r2 d2 grows_trans d1(2) by blast
  next
    case (Inl er)
    let ?f = "\<lambda>r. r\<lparr>obAttempts := obAttempts r + 1, obLastErrorCode := Some (errorCode er)\<rparr>"
    have d': "d' = updateOutbox (pendingRow w (peId e)) ?f d2" using assms(1) a b Inl by (simp add: deliverEffect_def Let_def)
    have "rows_ok w (delivered d') d2 d'" unfolding d'
      by (rule rows_ok_update) (auto simp: row_ok_def same_effect_def pendingRow_def)
    moreover have g: "grows d2 d'" unfolding d' by (rule grows_outbox)
    ultimately show ?thesis using rows_ok_trans [OF r2] delivered_grows [OF _ g] d2 grows_trans d1(2) by blast
  qed
qed

lemma dispatch_rows:
  assumes "dispatchEffects post send w now es k d = (d', r)" "\<forall>e \<in> set es. listed d e"
  shows "rows_ok w (delivered d') d d' \<and> grows d d'"
  using assms
proof (induction es arbitrary: k d)
  case (Cons e es)
  obtain d1 x where a: "deliverEffect post send w now e d = (d1, x)" by fastforce
  have d1: "rows_ok w (delivered d1) d d1 \<and> grows d d1" by (rule deliver_rows [OF a]) (use Cons.prems(2) in simp)
  show ?case
  proof (cases x)
    case (Inl er)
    then show ?thesis using Cons.prems(1) a d1 by simp
  next
    case (Inr n)
    then have "rows_ok w (delivered d') d1 d' \<and> grows d1 d'"
      using Cons.IH [of "k + n" d1] Cons.prems a listed_later [OF _ conjunct1 [OF d1]] by (simp add: Inr)
    then show ?thesis using d1 rows_ok_trans delivered_grows grows_trans by blast
  qed
qed (simp add: rows_ok_refl grows_refl)

lemma outbox_rows:
  assumes "dispatchEconomyOutbox post send w now d = (d', r)" "distinct (map obId (stOutbox d))"
  shows "rows_ok w (delivered d') d d' \<and> grows d d'"
proof (cases "listPendingEconomyEffects w 100 d")
  case (Inl e)
  then show ?thesis using assms(1) by (simp add: dispatchEconomyOutbox_def rows_ok_refl grows_refl)
next
  case (Inr es)
  then show ?thesis using assms dispatch_rows pending_listed [OF Inr assms(2)] by (auto simp: dispatchEconomyOutbox_def)
qed

lemma drain_batches_rows:
  assumes "drainBatches post send w now m n k d = (d', r)" "distinct (map obId (stOutbox d))"
  shows "rows_ok w (delivered d') d d' \<and> grows d d' \<and> ((\<exists>j. r = Inr j) \<longrightarrow> \<not> (\<exists>x \<in> set (stOutbox d'). isPending w x))"
  using assms
proof (induction n arbitrary: k d)
  case 0
  then show ?case
    using nonePending_True [of w d] by (cases "nonePending w d") (auto simp: rows_ok_refl grows_refl split: if_splits)
next
  case (Suc n)
  show ?case
  proof (cases "nonePending w d = Inr False")
    case False
    then show ?thesis using Suc.prems(1) nonePending_True [of w d]
      by (cases "nonePending w d") (auto simp: rows_ok_refl grows_refl split: bool.splits)
  next
    case True
    obtain d1 x where a: "dispatchEconomyOutbox post send w now d = (d1, x)" by fastforce
    have d1: "rows_ok w (delivered d1) d d1 \<and> grows d d1" by (rule outbox_rows [OF a Suc.prems(2)])
    show ?thesis
    proof (cases x)
      case (Inl e)
      then have "d' = d1" "r = Inl e" using Suc.prems(1) True a by simp_all
      then show ?thesis using d1 by simp
    next
      case (Inr j)
      then have "drainBatches post send w now m n (k + j) d1 = (d', r)" using Suc.prems(1) True a by simp
      from Suc.IH [OF this] have "rows_ok w (delivered d') d1 d' \<and> grows d1 d' \<and> ((\<exists>j. r = Inr j) \<longrightarrow> \<not> (\<exists>x \<in> set (stOutbox d'). isPending w x))"
        using d1 rows_ok_ids Suc.prems(2) by auto
      then show ?thesis using d1 rows_ok_trans delivered_grows grows_trans by blast
    qed
  qed
qed

end


section \<open>Ledger and mailbox as adapters\<close>

fun platform_delivered :: "store \<Rightarrow> effect_type \<Rightarrow> rich \<Rightarrow> bool" where
  "platform_delivered d JournalEffect v \<longleftrightarrow> (case readJournal v of None \<Rightarrow> False
     | Some j \<Rightarrow> taken d (jeWorldId j) (jeOperatorId j) (jeIdempotencyKey j))"
| "platform_delivered d NoticeEffect v \<longleftrightarrow> (case readNotice v of None \<Rightarrow> False
     | Some n \<Rightarrow> messageWithKey d (noWorldId n) (noRecipientAccountId n) (noId n) \<noteq> None)"

definition platform_grows :: "store \<Rightarrow> store \<Rightarrow> bool" where
  "platform_grows d d' \<longleftrightarrow> set (dbLedgerTransactions (stDb d)) \<subseteq> set (dbLedgerTransactions (stDb d')) \<and>
     set (stMessages d) \<subseteq> set (stMessages d')"

lemma taken_grows: "platform_grows d d' \<Longrightarrow> taken d w p k \<Longrightarrow> taken d' w p k"
  unfolding taken_def platform_grows_def using keyTaken_mono by blast

lemma message_grows: "platform_grows d d' \<Longrightarrow> messageWithKey d w a k \<noteq> None \<Longrightarrow> messageWithKey d' w a k \<noteq> None"
  by (auto simp: platform_grows_def messageWithKey_def find_None_iff)

lemma recordEffect_tables:
  assumes "recordEffect w i ty t d = Inr d'"
  shows "stOutbox d' = stOutbox d" "dbLedgerTransactions (stDb d') = dbLedgerTransactions (stDb d)" "stMessages d' = stMessages d"
  using assms by (auto simp: recordEffect_def insertEffectRow_def drawUuid_def Let_def res_simps split: if_splits)

lemma postJournal_delivers:
  assumes "postJournal accs plan j d = Inr d'"
  shows "stOutbox d' = stOutbox d" "platform_grows d d'" "taken d' (jeWorldId j) (jeOperatorId j) (jeIdempotencyKey j)"
proof -
  obtain own t d1 where post: "onPlatform (postLedgerTransaction (journalPosting own j)) d = Inr (t, d1)"
    and rec: "recordEffect (jeWorldId j) (jeIdempotencyKey j) JournalEffect (jeAt j) d1 = Inr d'"
    using assms by (auto simp: postJournal_def res_simps split: option.splits)
  obtain p1 where p1: "postLedgerTransaction (journalPosting own j) (stDb d) = Inr (t, p1)" "d1 = d\<lparr>stDb := p1\<rparr>"
    using post by (auto simp: onPlatform_def split: sum.splits)
  have key: "poIdempotencyKey (journalPosting own j) = Some (jeIdempotencyKey j)" by (simp add: journalPosting_def)
  note e = post_effect [OF p1(1) key, unfolded journalPosting_def posting.simps]
  note t = recordEffect_tables [OF rec]
  show "stOutbox d' = stOutbox d" "platform_grows d d'" "taken d' (jeWorldId j) (jeOperatorId j) (jeIdempotencyKey j)"
    using e t by (auto simp: p1(2) platform_grows_def taken_def keyTaken_def)
qed

lemma sendMessage_delivers:
  assumes "sendMessage sha256 clock i d = Inr (m, d')" "miIdempotencyKey i = Some key"
  shows "stOutbox d' = stOutbox d" "platform_grows d d'" "messageWithKey d' (miWorldId i) (miRecipientAccountId i) key \<noteq> None"
proof -
  have "stOutbox d' = stOutbox d \<and> platform_grows d d' \<and> messageWithKey d' (miWorldId i) (miRecipientAccountId i) key \<noteq> None"
  proof (cases "messageWithKey d (miWorldId i) (miRecipientAccountId i) key")
    case (Some x)
    then show ?thesis using assms by (auto simp: sendMessage_def res_simps platform_grows_def split: option.splits)
  next
    case None
    then obtain hash where i: "insertMessage (newMessage i hash clock) d = Inr (m, d')"
      using assms by (auto simp: sendMessage_def res_simps)
    note o = insertMessage_ok [OF i]
    have "m \<in> set (stMessages d')" "mmWorldId m = miWorldId i" "mmRecipientAccountId m = miRecipientAccountId i" "mmIdempotencyKey m = Some key"
      using o assms(2) by (simp_all add: newMessage_def)
    then have "messageWithKey d' (miWorldId i) (miRecipientAccountId i) key \<noteq> None" by (auto simp: messageWithKey_def find_None_iff)
    moreover have "stOutbox d' = stOutbox d" "dbLedgerTransactions (stDb d') = dbLedgerTransactions (stDb d)"
      using i by (auto simp: insertMessage_def drawUuid_def invariant_Inr Let_def)
    ultimately show ?thesis using o(2) by (auto simp: platform_grows_def)
  qed
  then show "stOutbox d' = stOutbox d" "platform_grows d d'" "messageWithKey d' (miWorldId i) (miRecipientAccountId i) key \<noteq> None" by blast+
qed

lemma platform_grows_refl: "platform_grows d d"
  by (simp add: platform_grows_def)

lemma platform_grows_trans: "platform_grows a b \<Longrightarrow> platform_grows b c \<Longrightarrow> platform_grows a c"
  by (auto simp: platform_grows_def)

lemma sendNotice_delivers:
  assumes "sendNotice sha256 n d = (d', r)"
  shows "stOutbox d' = stOutbox d \<and> platform_grows d d' \<and>
    (r = Inr () \<longrightarrow> messageWithKey d' (noWorldId n) (noRecipientAccountId n) (noId n) \<noteq> None)"
proof (cases "bnd (dateOfSeconds (noAt n)) (\<lambda>_. sendMessage sha256 0 (noticeMessage n) d)")
  case (Inl e)
  then show ?thesis using assms by (auto simp: sendNotice_def platform_grows_refl)
next
  case (Inr x)
  obtain m d1 where x: "x = (m, d1)" by fastforce
  have send: "sendMessage sha256 0 (noticeMessage n) d = Inr (m, d1)" using Inr x by (auto simp: bnd_Inr)
  note s = sendMessage_delivers [OF send, of "noId n", unfolded noticeMessage_def message_input.simps, OF refl]
  show ?thesis
  proof (cases "recordEffect (noWorldId n) (noId n) NoticeEffect (noAt n) d1")
    case (Inl e)
    then have "d' = d1" using assms Inr x by (simp add: sendNotice_def)
    then show ?thesis using s by simp
  next
    case (Inr d2)
    note t = recordEffect_tables [OF Inr]
    have "d' = d2" using assms Inr \<open>bnd (dateOfSeconds (noAt n)) _ = _\<close> x by (simp add: sendNotice_def)
    moreover have "platform_grows d1 d2" using t by (simp add: platform_grows_def)
    ultimately show ?thesis using s t(1) platform_grows_trans message_grows by metis
  qed
qed

lemma journalAdapter_delivers:
  assumes "journalAdapter accs plan v d = (d', r)"
  shows "stOutbox d' = stOutbox d \<and> platform_grows d d' \<and> (r = Inr () \<longrightarrow> platform_delivered d' JournalEffect v)"
proof (cases "readJournal v")
  case None
  then show ?thesis using assms by (auto simp: journalAdapter_def platform_grows_refl)
next
  case (Some j)
  show ?thesis
  proof (cases "postJournal accs plan j d")
    case (Inl e)
    then show ?thesis using assms Some by (auto simp: journalAdapter_def platform_grows_refl)
  next
    case (Inr d1)
    then show ?thesis using assms Some postJournal_delivers [OF Inr] by (auto simp: journalAdapter_def)
  qed
qed

lemma noticeAdapter_delivers:
  assumes "noticeAdapter sha256 v d = (d', r)"
  shows "stOutbox d' = stOutbox d \<and> platform_grows d d' \<and> (r = Inr () \<longrightarrow> platform_delivered d' NoticeEffect v)"
  using assms sendNotice_delivers [of sha256 _ d d' r]
  by (cases "readNotice v") (auto simp: noticeAdapter_def platform_grows_refl)

interpretation platform: outbox_adapters "journalAdapter accs plan" "noticeAdapter sha256" platform_delivered platform_grows
  for accs plan sha256
proof
  fix d d' t v
  assume "platform_delivered d t v" "platform_grows d d'"
  then show "platform_delivered d' t v"
    using taken_grows message_grows by (cases t) (fastforce split: option.splits)+
next
  fix d P f
  show "platform_grows d (updateOutbox P f d)" by (simp add: platform_grows_def updateOutbox_def)
qed (use journalAdapter_delivers noticeAdapter_delivers platform_grows_refl platform_grows_trans in blast)+

text \<open>C39: The outbox of a world is delivered before it is acknowledged. Draining it with the adapters on ledger and mailbox keeps every
  effect with its content, leaves effects already processed and those of other worlds untouched, and marks an effect as processed only
  when its journal is booked in the ledger or its notice is in the mailbox of its recipient, also when the drain fails on the way;
  when it succeeds nothing of the world is left pending.\<close>

theorem outbox_delivers_before_acknowledging:
  assumes "createEconomyPlatformAdapters sha256 accs plan = Inr (post, send)"
    and "drainEconomyOutbox post send w now batches d = (d', r)" and "distinct (map obId (stOutbox d))"
  shows "rows_ok w (platform_delivered d') d d' \<and>
    ((\<exists>n. r = Inr n) \<longrightarrow> (\<forall>x \<in> set (stOutbox d'). obWorldId x = w \<longrightarrow> obProcessedAt x \<noteq> None))"
proof -
  obtain p where a: "post = journalAdapter accs p" "send = noticeAdapter sha256"
    using assms(1) by (auto simp: createEconomyPlatformAdapters_def Let_def bnd_Inr)
  show ?thesis
  proof (cases "\<not> is_safe batches \<or> batches < 1 \<or> batches > 100")
    case True
    then show ?thesis using assms(2) by (auto simp: drainEconomyOutbox_def rows_ok_refl)
  next
    case False
    then have "drainBatches (journalAdapter accs p) (noticeAdapter sha256) w now batches (nat batches) 0 d = (d', r)"
      using assms(2) a by (simp add: drainEconomyOutbox_def)
    from platform.drain_batches_rows [OF this assms(3)] show ?thesis by (auto simp: isPending_def)
  qed
qed

theorem outbox_delivers_before_acknowledging_witness:
  "case createEconomyPlatformAdapters id [(''p'', sample_accounts)] None of Inl e \<Rightarrow> False
   | Inr (post, send) \<Rightarrow> (case drainEconomyOutbox post send ''w'' 12000 5 cash_store of (d', r) \<Rightarrow>
       r = Inr 1 \<and> rows_ok ''w'' (platform_delivered d') cash_store d' \<and> map obProcessedAt (stOutbox d') = [Some 12000] \<and>
       taken d' ''w'' ''p'' ''c:penalty'')"
proof -
  let ?c = "createEconomyPlatformAdapters id [(''p'', sample_accounts)] None"
  have "case ?c of Inl e \<Rightarrow> False
   | Inr (post, send) \<Rightarrow> (case drainEconomyOutbox post send ''w'' 12000 5 cash_store of (d', r) \<Rightarrow>
       r = Inr 1 \<and> map obProcessedAt (stOutbox d') = [Some 12000] \<and> taken d' ''w'' ''p'' ''c:penalty'')" by code_simp
  moreover have "distinct (map obId (stOutbox cash_store))" by code_simp
  ultimately show ?thesis using outbox_delivers_before_acknowledging [of id "[(''p'', sample_accounts)]" None]
    by (fastforce split: sum.splits prod.splits)
qed

end
