(* ===== verification/EconomyProjection.thy ===== *)
theory EconomyProjection
  imports EconomyInvariants
begin

text \<open>
  What a player sees of an economy world, \<open>packages/economy/src/projection.ts\<close>: open bids are sealed.
  The set of the player's operators is a list. \<open>Object.freeze\<close> has no counterpart.
\<close>

section \<open>The view\<close>

datatype lifecycle_phase = PhAnnounced | PhOpen | PhAwarded | PhFailed

record public_tender =
  ptPhase :: lifecycle_phase
  ptTender :: tender
  ptServiceLines :: "pattern_presentation list"
  ptPublicOperation :: "public_operation option"
  ptBidCount :: nat
  ptOwnBids :: "bid list option"
  ptWinningOperatorId :: "string option"

datatype public_mobilization =
    OwnMobilization mobilization
  | PublicMobilization (pbTenderId: string) (pbWinnerOperatorId: string) (pbDeadline: int) (pbCompleted: bool)

record player_view =
  pvWorldId :: string
  pvProfile :: world_profile
  pvReleasePin :: world_economy_pin
  pvLots :: "tender_lot list"
  pvCalendar :: "calendar_entry list"
  pvTenders :: "(string \<times> public_tender) list"
  pvContracts :: "(string \<times> service_contract) list"
  pvMobilizations :: "(string \<times> public_mobilization) list"
  pvPublicOperations :: "(string \<times> public_operation) list"
  pvRevision :: int

text \<open>\<open>JSON.stringify\<close> of a presentation, by which repeated ones are dropped.\<close>

definition presentationText :: "pattern_presentation \<Rightarrow> string" where
  "presentationText p = ''{'' @ join '','' (map (\<lambda>(k, t). json_string k @ '':'' @ json_string t)
     [(''designation'', pePatternDesignation p), (''origin'', pePatternOrigin p), (''destination'', pePatternDestination p)]) @ ''}''"

definition serviceLines :: "planning_envelope option \<Rightarrow> tender \<Rightarrow> pattern_presentation list" where
  "serviceLines planning t =
     map snd (map_from (map (\<lambda>p. (presentationText p, p))
       (List.map_filter spPresentation
         (filter (\<lambda>p. spLineId p \<in> set (ssLines (tnSpecification t)))
           (case planning of None \<Rightarrow> [] | Some e \<Rightarrow> snPatterns (evSnapshot e))))))"

definition ownBids :: "string list \<Rightarrow> bid list \<Rightarrow> bid list" where
  "ownBids operatorIds bids = filter (\<lambda>b. bdOperatorId b \<in> set operatorIds) bids"

definition publicTender :: "planning_envelope option \<Rightarrow> string list \<Rightarrow> tender_lifecycle \<Rightarrow> public_tender" where
  "publicTender planning operatorIds lifecycle =
     (let own = ownBids operatorIds (lcBids lifecycle) in
      \<lparr>ptPhase = (case lifecycle of LcAnnounced t bs \<Rightarrow> PhAnnounced | LcOpen t bs \<Rightarrow> PhOpen | LcAwarded t bs w \<Rightarrow> PhAwarded
                  | LcFailed t bs p st \<Rightarrow> PhFailed),
       ptTender = lcTender lifecycle,
       ptServiceLines = serviceLines planning (lcTender lifecycle),
       ptPublicOperation = (case lifecycle of LcFailed t bs p st \<Rightarrow> Some p | _ \<Rightarrow> None),
       ptBidCount = length (lcBids lifecycle),
       ptOwnBids = (if length own = 0 then None else Some own),
       ptWinningOperatorId = (case lifecycle of LcAwarded t bs w \<Rightarrow> Some (bdOperatorId w) | _ \<Rightarrow> None)\<rparr>)"

definition publicMobilization :: "string list \<Rightarrow> mobilization \<Rightarrow> public_mobilization" where
  "publicMobilization operatorIds m =
     (if mbWinnerOperatorId m \<in> set operatorIds then OwnMobilization m
      else PublicMobilization (mbTenderId m) (mbWinnerOperatorId m) (mbDeadline m) (mbCompleted m))"

definition economyStateForPlayer :: "economy_state \<Rightarrow> string list \<Rightarrow> player_view" where
  "economyStateForPlayer s operatorIds =
     \<lparr>pvWorldId = ewWorldId s, pvProfile = ewProfile s, pvReleasePin = ewReleasePin s, pvLots = ewLots s, pvCalendar = ewCalendar s,
      pvTenders = map_from (map (\<lambda>(i, l). (i, publicTender (ewPlanning s) operatorIds l)) (ewTenders s)),
      pvContracts = ewContracts s,
      pvMobilizations = map_from (map (\<lambda>(i, m). (i, publicMobilization operatorIds m)) (ewMobilizations s)),
      pvPublicOperations = ewPublicOperations s, pvRevision = ewRevision s\<rparr>"

section \<open>Worlds a player cannot tell apart\<close>

text \<open>
  Two states are alike for a player when they agree on everything but sealed bids and the automation of
  tenders. Commands keep states alike when they are the same, or differ in bids of competitors only.
\<close>

definition alike_entry :: "planning_envelope option \<Rightarrow> string list \<Rightarrow> string \<times> tender_lifecycle \<Rightarrow> string \<times> tender_lifecycle \<Rightarrow> bool" where
  "alike_entry pl ops x y \<longleftrightarrow> fst x = fst y \<and> publicTender pl ops (snd x) = publicTender pl ops (snd y)"

definition alike :: "string list \<Rightarrow> economy_state \<Rightarrow> economy_state \<Rightarrow> bool" where
  "alike ops s s' \<longleftrightarrow> list_all2 (alike_entry (ewPlanning s) ops) (ewTenders s) (ewTenders s') \<and>
     s' = s\<lparr>ewTenders := ewTenders s', ewTenderAutomation := ewTenderAutomation s'\<rparr>"

record submission =
  suCommandId :: string
  suTenderId :: string
  suBid :: bid
  suQualification :: qualification

definition submitOne :: "submission \<Rightarrow> economy_state \<Rightarrow> economy_error + economy_state" where
  "submitOne x = submitBid (suCommandId x) (suTenderId x) (suBid x) (suQualification x)"

definition alike_submission :: "string list \<Rightarrow> submission \<Rightarrow> submission \<Rightarrow> bool" where
  "alike_submission ops x y \<longleftrightarrow> suCommandId x = suCommandId y \<and> suTenderId x = suTenderId y \<and>
     (x = y \<or> bdOperatorId (suBid x) \<notin> set ops \<and> bdOperatorId (suBid y) \<notin> set ops)"

lemma alike_refl: "alike ops s s"
  by (simp add: alike_def alike_entry_def list_all2_same)

lemma alike_view:
  assumes "alike ops s s'"
  shows "economyStateForPlayer s ops = economyStateForPlayer s' ops"
proof -
  have v: "map (\<lambda>(i, l). (i, publicTender (ewPlanning s) ops l)) (ewTenders s) = map (\<lambda>(i, l). (i, publicTender (ewPlanning s) ops l)) (ewTenders s')"
    using assms unfolding alike_def list_all2_conv_all_nth by (intro nth_equalityI) (auto simp: alike_entry_def split: prod.splits)
  have r: "s' = s\<lparr>ewTenders := ewTenders s', ewTenderAutomation := ewTenderAutomation s'\<rparr>" using assms by (simp add: alike_def)
  show ?thesis by (subst r) (simp add: economyStateForPlayer_def v)
qed

lemma alike_update:
  "list_all2 (alike_entry pl ops) m m' \<Longrightarrow> publicTender pl ops v = publicTender pl ops v' \<Longrightarrow>
   list_all2 (alike_entry pl ops) (AList.update k v m) (AList.update k v' m')"
proof (induction rule: list_all2_induct)
  case (Cons x xs y ys)
  then show ?case by (cases x; cases y) (auto simp: alike_entry_def)
qed (simp add: alike_entry_def)

lemma alike_lookup:
  "list_all2 (alike_entry pl ops) m m' \<Longrightarrow> map_of m k = Some l \<Longrightarrow> \<exists>l'. map_of m' k = Some l' \<and> publicTender pl ops l = publicTender pl ops l'"
  by (induction rule: list_all2_induct) (auto simp: alike_entry_def split: if_splits)

lemma alike_open:
  assumes "publicTender pl ops (LcOpen t bids) = publicTender pl ops (LcOpen t' bids')"
    and "b = b' \<or> bdOperatorId b \<notin> set ops \<and> bdOperatorId b' \<notin> set ops"
  shows "publicTender pl ops (LcOpen t (bids @ [b])) = publicTender pl ops (LcOpen t' (bids' @ [b']))"
proof -
  have "t = t'" "length bids = length bids'" "ownBids ops bids = ownBids ops bids'"
    using assms(1) by (auto simp: publicTender_def Let_def split: if_splits)
  then show ?thesis using assms(2) by (auto simp: publicTender_def Let_def ownBids_def)
qed

lemma submitBid_result:
  assumes "submitBid c i b q s = Inr s'" "c \<notin> set (ewProcessedCommands s)"
  shows "\<exists>t bids au. map_of (ewTenders s) i = Some (LcOpen t bids) \<and>
    s' = withCommand c (s\<lparr>ewTenders := AList.update i (LcOpen t (bids @ [b])) (ewTenders s), ewTenderAutomation := au\<rparr>)"
proof -
  obtain l where l: "map_of (ewTenders s) i = Some l"
    using assms by (auto simp: submitBid_def newCommand_def requireNewCommand_def lifecycleOf_def res_simps split: option.splits)
  obtain t bids where o: "l = LcOpen t bids"
    using assms l by (cases l) (auto simp: submitBid_def newCommand_def requireNewCommand_def lifecycleOf_def res_simps)
  obtain p where "map_of (ewPrequalifications s) (qlAccountId q) = Some p"
    using assms l o by (auto simp: submitBid_def newCommand_def requireNewCommand_def lifecycleOf_def res_simps split: option.splits)
  then show ?thesis
    using assms l o by (intro exI [of _ t] exI [of _ bids]) (auto simp: submitBid_def newCommand_def requireNewCommand_def lifecycleOf_def res_simps)
qed

lemma submit_alike:
  assumes "alike ops s r" "alike_submission ops x y" "submitOne x s = Inr s'" "submitOne y r = Inr r'"
  shows "alike ops s' r'"
proof -
  have r: "r = s\<lparr>ewTenders := ewTenders r, ewTenderAutomation := ewTenderAutomation r\<rparr>" using assms(1) by (simp add: alike_def)
  have same: "ewProcessedCommands r = ewProcessedCommands s" by (subst r) simp
  have xy: "suCommandId y = suCommandId x" "suTenderId y = suTenderId x" using assms(2) by (simp_all add: alike_submission_def)
  show ?thesis
  proof (cases "suCommandId x \<in> set (ewProcessedCommands s)")
    case True
    then have "s' = s" "r' = r" using assms(3,4) same xy
      by (simp_all add: submitOne_def submitBid_def newCommand_def requireNewCommand_def)
    then show ?thesis using assms(1) by simp
  next
    case False
    obtain t bids au where s': "map_of (ewTenders s) (suTenderId x) = Some (LcOpen t bids)"
        "s' = withCommand (suCommandId x) (s\<lparr>ewTenders := AList.update (suTenderId x) (LcOpen t (bids @ [suBid x])) (ewTenders s), ewTenderAutomation := au\<rparr>)"
      using submitBid_result [OF assms(3) [unfolded submitOne_def] False] by blast
    obtain u bids' au' where r': "map_of (ewTenders r) (suTenderId x) = Some (LcOpen u bids')"
        "r' = withCommand (suCommandId x) (r\<lparr>ewTenders := AList.update (suTenderId x) (LcOpen u (bids' @ [suBid y])) (ewTenders r), ewTenderAutomation := au'\<rparr>)"
      using submitBid_result [OF assms(4) [unfolded submitOne_def]] False same xy by auto
    have ts: "list_all2 (alike_entry (ewPlanning s) ops) (ewTenders s) (ewTenders r)" using assms(1) by (simp add: alike_def)
    have "publicTender (ewPlanning s) ops (LcOpen t bids) = publicTender (ewPlanning s) ops (LcOpen u bids')"
      using alike_lookup [OF ts s'(1)] r'(1) by auto
    moreover have "suBid x = suBid y \<or> bdOperatorId (suBid x) \<notin> set ops \<and> bdOperatorId (suBid y) \<notin> set ops"
      using assms(2) by (auto simp: alike_submission_def)
    ultimately have "list_all2 (alike_entry (ewPlanning s) ops) (ewTenders s') (ewTenders r')"
      using alike_update [OF ts alike_open] by (simp add: s'(2) r'(2) withCommand_def)
    moreover have "r' = s'\<lparr>ewTenders := ewTenders r', ewTenderAutomation := ewTenderAutomation r'\<rparr>"
      unfolding s'(2) r'(2) by (subst r) (simp add: withCommand_def)
    ultimately show ?thesis by (simp add: alike_def s'(2) withCommand_def)
  qed
qed

lemma submits_alike:
  assumes "list_all2 (alike_submission ops) xs ys" "alike ops s r" "fold_res submitOne xs s = Inr s'" "fold_res submitOne ys r = Inr r'"
  shows "alike ops s' r'"
  using assms
proof (induction arbitrary: s r rule: list_all2_induct)
  case (Cons x xs y ys)
  then obtain s1 r1 where "submitOne x s = Inr s1" "submitOne y r = Inr r1" "fold_res submitOne xs s1 = Inr s'" "fold_res submitOne ys r1 = Inr r'"
    by (auto simp: bnd_Inr)
  then show ?case using Cons.IH Cons.hyps Cons.prems(1) submit_alike by blast
qed simp

text \<open>C40: Open bids are sealed: two rounds of submissions that differ only in what competitors offer (price, vehicle, promises, time, even
  the bidder among the competitors), while the player's own submissions in between are the same, leave the player exactly the same view of
  the world.\<close>

theorem bids_are_sealed:
  assumes "fold_res submitOne xs s = Inr s1" and "fold_res submitOne ys s = Inr s2" and "list_all2 (alike_submission ops) xs ys"
  shows "economyStateForPlayer s1 ops = economyStateForPlayer s2 ops"
  by (rule alike_view, rule submits_alike [OF assms(3) alike_refl assms(1,2)])

definition sample_submissions :: "int \<Rightarrow> submission list" where
  "sample_submissions fee = map (\<lambda>(c, b). \<lparr>suCommandId = c, suTenderId = ''t'', suBid = b,
       suQualification = \<lparr>qlAccountId = ''acc'', qlPeriod = 0, qlSmallLot = True, qlMinimumScore = 0\<rparr>\<rparr>)
     [(''c3'', sample_bid ''x'' 6), (''c4'', sample_bid ''y'' fee)]"

theorem bids_are_sealed_witness:
  "case after [Announce sample_announcement, OpenTender ''c2'' ''t'' 0] of None \<Rightarrow> False
   | Some (s, h) \<Rightarrow>
     (case (fold_res submitOne (sample_submissions 5) s, fold_res submitOne (sample_submissions 7) s) of
        (Inr s1, Inr s2) \<Rightarrow> economyStateForPlayer s1 [bdOperatorId (sample_bid ''x'' 6)] = economyStateForPlayer s2 [bdOperatorId (sample_bid ''x'' 6)] \<and>
          map_option lcBids (map_of (ewTenders s1) ''t'') \<noteq> map_option lcBids (map_of (ewTenders s2) ''t'') \<and>
          map_option (\<lambda>t. (ptBidCount t, map_option (map bdId) (ptOwnBids t))) (map_of (pvTenders (economyStateForPlayer s1 [bdOperatorId (sample_bid ''x'' 6)])) ''t'') =
            Some (2, Some [''x''])
      | _ \<Rightarrow> False)"
proof -
  let ?o = "[bdOperatorId (sample_bid ''x'' 6)]"
  have c: "case after [Announce sample_announcement, OpenTender ''c2'' ''t'' 0] of None \<Rightarrow> False
   | Some (s, h) \<Rightarrow>
     (case (fold_res submitOne (sample_submissions 5) s, fold_res submitOne (sample_submissions 7) s) of
        (Inr s1, Inr s2) \<Rightarrow>
          map_option lcBids (map_of (ewTenders s1) ''t'') \<noteq> map_option lcBids (map_of (ewTenders s2) ''t'') \<and>
          map_option (\<lambda>t. (ptBidCount t, map_option (map bdId) (ptOwnBids t))) (map_of (pvTenders (economyStateForPlayer s1 ?o)) ''t'') =
            Some (2, Some [''x''])
      | _ \<Rightarrow> False)"
    by code_simp
  have a: "list_all2 (alike_submission ?o) (sample_submissions 5) (sample_submissions 7)"
    by code_simp
  obtain s h where s: "after [Announce sample_announcement, OpenTender ''c2'' ''t'' 0] = Some (s, h)"
    using c by (cases "after [Announce sample_announcement, OpenTender ''c2'' ''t'' 0]") auto
  obtain s1 where s1: "fold_res submitOne (sample_submissions 5) s = Inr s1"
    using c s by (cases "fold_res submitOne (sample_submissions 5) s") auto
  obtain s2 where s2: "fold_res submitOne (sample_submissions 7) s = Inr s2"
    using c s s1 by (cases "fold_res submitOne (sample_submissions 7) s") auto
  show ?thesis using c s s1 s2 bids_are_sealed [OF s1 s2 a] by simp
qed

end
