(* ===== verification/Spec2Isabelle.thy ===== *)
theory Spec2Isabelle
  imports TrackRouterProperties HungarianRounding DailyPlan LotCover RolloverPairing RolloverCycles MovementContinuity MovementProperties MovementTemplatesOk ReleaseProperties IdentityProperties EconomyInvariants EconomyStoreRefinement EconomyOutbox EconomyProjection
begin

text \<open>
  Zugfolge is a persistent railway company simulation: players found operators (EVU) in a world, bid for
  service lots, run trains and keep books. This library models the parts of its JavaScript and TypeScript
  that decide something, and proves what makes them correct. Each theory opens with the source file it
  models; definitions keep the names of the source.

  \<^bold>\<open>The parts and how they interact.\<close>

  (1) Import tools, \<open>tools/region-import\<close>. The track router (\<open>germany/deterministic-track-router.mjs\<close>) finds
  the cheapest route between anchors on the track graph; the daily circulation
  (\<open>daily-circulation-v2.mjs\<close>) turns journey chains into vehicle circulations per lot, pairs them over the
  day boundary with the Hungarian method and derives the successions of movements and the cycles. A release
  (\<open>build-alpha-world.mjs\<close>) accepts a signed transfer plan only if its daily plan can be derived again, validates
  the templates of movement routes (\<open>movement-route-templates-v2.mjs\<close>) and allocates a physical movement to every
  succession of the day (\<open>movement-route-allocation-v2.mjs\<close>), without conflicts over all repetitions of the day.

  (2) Platform, \<open>packages/identity\<close>, \<open>packages/operators\<close>, \<open>packages/db\<close>, and the ledger of
  \<open>packages/economy\<close>. Requests read and write tables; an operator is founded together with its opening
  balance.

  (3) Economy of a world, \<open>packages/economy\<close>. A release of rules, tenders, bids, contracts, budgets and the
  workflow state with its commands and the scheduler. Every command returns the next state and effects
  (notices, journal entries).

  (4) Persistence and delivery, \<open>packages/economy/src/state-store.ts\<close>, \<open>platform-adapters.ts\<close>,
  \<open>packages/mailbox\<close>. A transition is stored with a compare-and-swap on the revision, its effects go to an
  outbox in the same step, and a dispatcher hands them to ledger and mailbox, acknowledging what was delivered.
  \<open>projection.ts\<close> is what a player sees of the state.

  \<^bold>\<open>Theories.\<close>

  \<open>Prelude\<close>: errors as sums (\<open>invariant\<close>, \<open>bnd\<close>, \<open>map_res\<close>, \<open>fold_res\<close>), numbers of JavaScript
  (\<open>js_add\<close> and so on round to doubles, \<open>is_safe\<close>), texts and JSON values, stable sorting, Maps as
  association lists, and the locale \<open>comparator\<close> every comparison function of the code is an instance of.
  \<open>MinHeap\<close> gives its queue the locale \<open>min_queue\<close>.

  \<open>TrackRouter\<close> models the router; \<open>TrackRouterCosts\<close>, \<open>TrackRouterSearch\<close>, \<open>TrackRouterCorrect\<close>,
  \<open>TrackRouterResult\<close>, \<open>TrackRouterOrder\<close> prove the Dijkstra invariant, the cost of journeys, the legs and
  the independence of order; the properties are in \<open>TrackRouterProperties\<close>. The loop of the query runs on
  \<open>search_fuel\<close>, a bound on the states ever queued; \<open>route_terminates\<close> shows it is enough for every input.

  \<open>DailyCirculation\<close>, \<open>DailyPlan\<close> model the plan and \<open>Hungarian\<close> the assignment solver over a rounding;
  \<open>HungarianTree\<close>, \<open>HungarianCorrect\<close>, \<open>HungarianRounding\<close> prove the solver optimal and ending (locale
  \<open>assignment_solver\<close>, interpreted on the solver with the rounding of doubles). The properties are in
  \<open>LotCover\<close> (circulations), \<open>RolloverPairing\<close>, \<open>RolloverCycles\<close> and \<open>MovementContinuity\<close>. Loops over
  vehicles and cycles have the number of circulations as fuel; the cycle properties show it is never used up.

  \<open>MovementAllocation\<close> models the allocation of movement routes, \<open>MovementConflicts\<close> shows that what it reserves
  never conflicts, \<open>MovementGraph\<close> that its trains form a permutation, \<open>MovementNumbers\<close> the numbers of its
  trains; the properties, with a day of two trains, are in \<open>MovementProperties\<close>. The search of the code gives up
  after two million steps, which is \<open>SEARCH_LIMIT\<close>; it recurses over the requests and needs no fuel.
  \<open>CanonicalJson\<close> models the canonical texts artefacts are hashed and compared by, and shows that they tell
  values apart. \<open>MovementTemplates\<close> models the validation of templates and \<open>MovementTemplatesOk\<close> shows what
  accepted templates are like. \<open>ProtectionModes\<close> models the train protection chosen for each leg of a route.
  \<open>TransferPlan\<close> and \<open>ReleaseMovements\<close> model the acceptance of a transfer plan
  and the composition of all this in a release; the properties, with a release of three trains, are in
  \<open>ReleaseProperties\<close>.

  \<open>Decimal\<close>, \<open>WorldDb\<close>, \<open>Identity\<close>, \<open>Operators\<close>, \<open>StartingCapital\<close>, \<open>Ledger\<close> model the platform, with
  \<open>LedgerBooks\<close> as the invariant of the books and \<open>PlatformRuns\<close> as any sequence of requests; the
  properties are in \<open>LedgerProperties\<close> and \<open>IdentityProperties\<close>.

  \<open>GtfsPlanning\<close>, \<open>EconomyFinance\<close>, \<open>EconomyRelease\<close>, \<open>EconomyContracts\<close>, \<open>EconomyTender\<close>, \<open>EconomyWorld\<close>,
  \<open>EconomyPlanning\<close> model the rules; \<open>EconomyState\<close>, \<open>EconomyWorkflow\<close>, \<open>EconomySettlement\<close>,
  \<open>EconomyScheduler\<close> the state and its commands. \<open>EconomyRuns\<close> describes a command by the step it makes on a
  tender (\<open>lifecycle_step\<close>) and \<open>EconomyInvariants\<close> proves by induction over runs (\<open>economy_run\<close>) what holds
  at any time, with a liveness property of tenders. The rejection loop of the random numbers is a partial
  function; its end is proved for every bound in \<open>EconomyWorld\<close>.

  \<open>EconomyCodec\<close>, \<open>StoreDb\<close>, \<open>EconomyStore\<close>, \<open>Mailbox\<close>, \<open>EconomyAdapters\<close> model persistence and delivery.
  \<open>EconomyStoreRefinement\<close> proves the store a refinement of a compare-and-swap map, \<open>EconomyStoreCash\<close>
  that available cash stays covered, \<open>EconomyOutbox\<close> the delivery of the outbox against the locale
  \<open>outbox_adapters\<close> and its instance on ledger and mailbox, \<open>EconomyProjection\<close> that bids are sealed.

  \<^bold>\<open>Conventions.\<close> A \<open>bigint\<close> is an \<open>int\<close>; a \<open>number\<close> is an \<open>int\<close> whose operations round, since the modelled
  code uses integers only. A thrown error is a value; messages are shortened and umlauts spelled out.
  SHA-256, \<open>localeCompare\<close> and the clock are arguments, as is the hash of a value where the code cannot reach its
  errors (\<open>alphaHash\<close> of \<open>CanonicalJson\<close> has them). The selection of protection modes and the binding of stop plans
  are arguments of an allocation, as they are in the code; a release gives it the selection of \<open>ProtectionModes\<close>. A database is a
  record of lists of rows with the checks of its schema; a request is one function, so requests do not
  interleave, except that the adapters of the outbox are arbitrary functions of the store.

  \<^bold>\<open>Not modelled.\<close> The simulation itself is written in Rust (\<open>crates\<close>) and enters as values of commands. The
  construction of a planning snapshot from GTFS tables, fleet snapshots, the HTTP layer
  of \<open>apps/game-api\<close>, the user interfaces, cooperation, commerce, privacy, dispatch, conductor and alpha
  packages, and the evidence, map and other release tools of \<open>tools\<close> are outside of it: glue around files,
  processes and HTTP, or packages whose rules are separate from those above.
\<close>

end
